(* ===== verification/Vm_Prelude.thy ===== *)
theory Vm_Prelude
  imports Main "HOL-Library.Word" "HOL-Library.Char_ord" "HOL-Library.List_Lexorder"
    "HOL-Library.Product_Lexorder"
begin

unbundle bit_operations_syntax

text \<open>
  Shared vocabulary of the development: the machine integers of the Rust sources with
  their checked and saturating operations, the outcome of a fallible operation
  (\<open>Result\<close> together with the panics that \<open>expect\<close> and indexing can raise), state
  passing over outcomes, and the ordered maps and sets of the standard library
  (\<open>BTreeMap\<close>, \<open>BTreeSet\<close>) as sorted association lists and sorted lists.
\<close>

named_theorems outcome_simps "unfolding rules of the outcome combinators"
named_theorems btree_simps "lookup laws of the ordered maps and sets"

section \<open>Machine integers\<close>

type_synonym u8 = "8 word"
type_synonym u16 = "16 word"
type_synonym u32 = "32 word"
type_synonym u64 = "64 word"
type_synonym i64 = "64 word"
type_synonym usize = "64 word"

definition checked_add :: "'a::len word \<Rightarrow> 'a word \<Rightarrow> 'a word option" where
  "checked_add a b = (if unat a + unat b < 2 ^ LENGTH('a) then Some (a + b) else None)"

definition saturating_add :: "'a::len word \<Rightarrow> 'a word \<Rightarrow> 'a word" where
  "saturating_add a b = (case checked_add a b of Some c \<Rightarrow> c | None \<Rightarrow> - 1)"

definition saturating_sub :: "'a::len word \<Rightarrow> 'a word \<Rightarrow> 'a word" where
  "saturating_sub a b = (if b \<le> a then a - b else 0)"

definition checked_mul :: "'a::len word \<Rightarrow> 'a word \<Rightarrow> 'a word option" where
  "checked_mul a b = (if unat a * unat b < 2 ^ LENGTH('a) then Some (a * b) else None)"

definition saturating_mul :: "'a::len word \<Rightarrow> 'a word \<Rightarrow> 'a word" where
  "saturating_mul a b = (case checked_mul a b of Some c \<Rightarrow> c | None \<Rightarrow> - 1)"

text \<open>\<open>i64::try_from(u64).unwrap_or(i64::MAX)\<close>.\<close>

definition i64_or_max :: "u64 \<Rightarrow> i64" where
  "i64_or_max w = (if unat w < 2 ^ 63 then w else 2 ^ 63 - 1)"

lemma checked_add_Some:
  "checked_add a b = Some c \<longleftrightarrow> unat a + unat b < 2 ^ LENGTH('a) \<and> c = a + (b::'a::len word)"
  by (auto simp: checked_add_def)

lemma checked_add_unat:
  "checked_add a b = Some c \<Longrightarrow> unat c = unat a + unat (b::'a::len word)"
  by (auto simp: checked_add_def unat_word_ariths split: if_splits)

lemma checked_mul_unat:
  "checked_mul a b = Some c \<Longrightarrow> unat c = unat a * unat (b::'a::len word)"
  by (auto simp: checked_mul_def unat_word_ariths split: if_splits)

lemma unat_max_word: "unat (- 1 :: 'a::len word) = 2 ^ LENGTH('a) - 1"
  by (simp add: unsigned_minus_1_eq_mask mask_eq_exp_minus_1)

lemma unat_saturating_add:
  "unat (saturating_add a b) = min (unat a + unat b) (2 ^ LENGTH('a) - 1)"
  for a b :: "'a::len word"
  by (auto simp: saturating_add_def checked_add_def unat_word_ariths unat_max_word)

lemma unat_saturating_mul:
  "unat (saturating_mul a b) = min (unat a * unat b) (2 ^ LENGTH('a) - 1)"
  for a b :: "'a::len word"
  by (auto simp: saturating_mul_def checked_mul_def unat_word_ariths unat_max_word)

lemma unat_saturating_sub: "unat (saturating_sub a b) = unat a - unat b"
  for a b :: "'a::len word"
  by (auto simp: saturating_sub_def unat_sub word_le_nat_alt)

lemma saturating_add_one_gt: "a \<noteq> - 1 \<Longrightarrow> a < saturating_add a 1"
  for a :: "'a::len word"
proof -
  assume "a \<noteq> - 1"
  then have "unat a \<noteq> 2 ^ LENGTH('a) - 1"
    by (metis unat_max_word word_unat_eq_iff)
  moreover have "unat a < 2 ^ LENGTH('a)" by simp
  ultimately have lt: "unat a + 1 \<le> 2 ^ LENGTH('a) - 1" by linarith
  have one: "unat (1::'a word) = 1" by simp
  show ?thesis
    unfolding word_less_nat_alt unat_saturating_add one using lt by simp
qed

lemma saturating_add_ge: "a \<le> saturating_add a b"
  for a b :: "'a::len word"
proof -
  have "unat a < 2 ^ LENGTH('a)" by simp
  then have "unat a \<le> 2 ^ LENGTH('a) - 1" by linarith
  then show ?thesis
    unfolding word_le_nat_alt unat_saturating_add by simp
qed

section \<open>Outcomes of fallible operations\<close>

text \<open>
  \<open>Ok\<close> and \<open>Err\<close> are Rust's \<open>Result\<close>; \<open>Panic\<close> is the unwinding of \<open>expect\<close>, of an
  out-of-range index or of \<open>unreachable!\<close>, which no \<open>?\<close> or \<open>unwrap_or\<close> intercepts.
\<close>

datatype ('e, 'a) outcome = Ok 'a | Err 'e | Panic string

fun is_Ok :: "('e, 'a) outcome \<Rightarrow> bool" where
  "is_Ok (Ok _) = True"
| "is_Ok (Err _) = False"
| "is_Ok (Panic _) = False"

definition bind_out :: "('e, 'a) outcome \<Rightarrow> ('a \<Rightarrow> ('e, 'b) outcome) \<Rightarrow> ('e, 'b) outcome" where
  "bind_out m f = (case m of Ok a \<Rightarrow> f a | Err e \<Rightarrow> Err e | Panic p \<Rightarrow> Panic p)"

definition map_err :: "('e \<Rightarrow> 'f) \<Rightarrow> ('e, 'a) outcome \<Rightarrow> ('f, 'a) outcome" where
  "map_err f m = (case m of Ok a \<Rightarrow> Ok a | Err e \<Rightarrow> Err (f e) | Panic p \<Rightarrow> Panic p)"

definition ok_or :: "'e \<Rightarrow> 'a option \<Rightarrow> ('e, 'a) outcome" where
  "ok_or e x = (case x of None \<Rightarrow> Err e | Some a \<Rightarrow> Ok a)"

definition expect :: "string \<Rightarrow> ('f, 'a) outcome \<Rightarrow> ('e, 'a) outcome" where
  "expect msg m = (case m of Ok a \<Rightarrow> Ok a | Err _ \<Rightarrow> Panic msg | Panic p \<Rightarrow> Panic p)"

text \<open>
  A method with \<open>&mut self\<close> returns its outcome and the state it leaves behind, also on
  an error: what was written before a failing \<open>?\<close> stays written.
\<close>

type_synonym ('s, 'e, 'a) stateful = "'s \<Rightarrow> ('e, 'a) outcome \<times> 's"

definition bind_st :: "('s, 'e, 'a) stateful \<Rightarrow> ('a \<Rightarrow> ('s, 'e, 'b) stateful)
    \<Rightarrow> ('s, 'e, 'b) stateful" where
  "bind_st m f s = (case m s of (Ok a, s') \<Rightarrow> f a s' | (Err e, s') \<Rightarrow> (Err e, s')
     | (Panic p, s') \<Rightarrow> (Panic p, s'))"

definition return_st :: "'a \<Rightarrow> ('s, 'e, 'a) stateful" where
  "return_st a s = (Ok a, s)"

definition read_st :: "('s \<Rightarrow> ('e, 'a) outcome) \<Rightarrow> ('s, 'e, 'a) stateful" where
  "read_st f s = (f s, s)"

definition map_err_st :: "('e \<Rightarrow> 'f) \<Rightarrow> ('s, 'e, 'a) stateful \<Rightarrow> ('s, 'f, 'a) stateful" where
  "map_err_st f m s = (case m s of (r, s') \<Rightarrow> (map_err f r, s'))"

definition expect_st :: "string \<Rightarrow> ('s, 'f, 'a) stateful \<Rightarrow> ('s, 'e, 'a) stateful" where
  "expect_st msg m s = (case m s of (r, s') \<Rightarrow> (expect msg r, s'))"

declare bind_out_def [outcome_simps] map_err_def [outcome_simps] ok_or_def [outcome_simps]
  expect_def [outcome_simps] bind_st_def [outcome_simps] return_st_def [outcome_simps]
  read_st_def [outcome_simps] map_err_st_def [outcome_simps] expect_st_def [outcome_simps]

lemma bind_st_Ok [simp]: "m s = (Ok a, s') \<Longrightarrow> bind_st m f s = f a s'"
  by (simp add: bind_st_def)

lemma bind_st_Err [simp]: "m s = (Err e, s') \<Longrightarrow> bind_st m f s = (Err e, s')"
  by (simp add: bind_st_def)

lemma bind_st_Panic [simp]: "m s = (Panic p, s') \<Longrightarrow> bind_st m f s = (Panic p, s')"
  by (simp add: bind_st_def)

lemma bind_out_Ok [simp]: "bind_out (Ok a) f = f a"
  by (simp add: bind_out_def)

lemma bind_out_Err [simp]: "bind_out (Err e) f = Err e"
  by (simp add: bind_out_def)

lemma bind_out_eq_Ok:
  "bind_out m f = Ok b \<longleftrightarrow> (\<exists>a. m = Ok a \<and> f a = Ok b)"
  by (cases m) (auto simp: bind_out_def)

lemma bind_st_eq_Ok:
  "bind_st m f s = (Ok b, s'') \<longleftrightarrow> (\<exists>a s'. m s = (Ok a, s') \<and> f a s' = (Ok b, s''))"
  by (auto simp: bind_st_def split: prod.splits outcome.splits)

section \<open>Text\<close>

text \<open>
  A \<open>String\<close> is its bytes, which are the UTF-8 encoding of its code points: a \<open>char\<close> is one byte,
  \<open>len\<close> is the length of the list and the order of strings is the order of the lists. \<open>trim\<close> strips
  the encodings of the code points with the property White_Space: U+0009 to U+000D, U+0020, U+0085,
  U+00A0, U+1680, U+2000 to U+200A, U+2028, U+2029, U+202F, U+205F and U+3000.
\<close>

definition whitespace_encodings :: "string list" where
  "whitespace_encodings = map (map char_of) ([[9], [10], [11], [12], [13], [32], [194, 133], [194, 160],
     [225, 154, 128], [226, 128, 168], [226, 128, 169], [226, 128, 175], [226, 129, 159], [227, 128, 128]]
     @ map (\<lambda>last. [226, 128, last]) [128 ..< 139] :: nat list list)"

definition leading :: "string list \<Rightarrow> string \<Rightarrow> string option" where
  "leading encodings s = find (\<lambda>w. w \<noteq> [] \<and> take (length w) s = w) encodings"

lemma leading_nonempty: "leading encodings s = Some w \<Longrightarrow> w \<noteq> [] \<and> s \<noteq> []"
  by (cases s) (auto simp: leading_def find_Some_iff)

function strip :: "string list \<Rightarrow> string \<Rightarrow> string" where
  "strip encodings s = (case leading encodings s of
     None \<Rightarrow> s
   | Some w \<Rightarrow> strip encodings (drop (length w) s))"
  by auto

termination
  by (relation "measure (\<lambda>(_, s). length s)") (auto dest: leading_nonempty)

declare strip.simps [simp del]

definition str_trim :: "string \<Rightarrow> string" where
  "str_trim s = rev (strip (map rev whitespace_encodings) (rev (strip whitespace_encodings s)))"

definition blank :: "string \<Rightarrow> bool" where
  "blank text = (str_trim text = [])"

section \<open>Vectors\<close>

text \<open>\<open>Vec::pop\<close>, \<open>Iterator::position\<close>, \<open>Vec::remove\<close> and indexing.\<close>

definition vec_pop :: "'a list \<Rightarrow> ('a \<times> 'a list) option" where
  "vec_pop xs = (if xs = [] then None else Some (last xs, butlast xs))"

fun position :: "('a \<Rightarrow> bool) \<Rightarrow> 'a list \<Rightarrow> nat option" where
  "position P [] = None"
| "position P (x # xs) = (if P x then Some 0 else map_option Suc (position P xs))"

definition remove_at :: "nat \<Rightarrow> 'a list \<Rightarrow> 'a list" where
  "remove_at i xs = take i xs @ drop (Suc i) xs"

definition insert_at :: "nat \<Rightarrow> 'a \<Rightarrow> 'a list \<Rightarrow> 'a list" where
  "insert_at i x xs = take i xs @ x # drop i xs"

definition nth_opt :: "'a list \<Rightarrow> nat \<Rightarrow> 'a option" where
  "nth_opt xs i = (if i < length xs then Some (xs ! i) else None)"

lemma position_Some:
  "position P xs = Some i \<longleftrightarrow> i < length xs \<and> P (xs ! i) \<and> (\<forall>j<i. \<not> P (xs ! j))"
proof (induction xs arbitrary: i)
  case Nil
  show ?case by simp
next
  case (Cons x xs)
  show ?case
  proof (cases i)
    case 0
    then show ?thesis by simp
  next
    case (Suc n)
    then show ?thesis using Cons.IH [of n] by (auto simp: less_Suc_eq_0_disj)
  qed
qed

lemma position_None: "position P xs = None \<longleftrightarrow> (\<forall>x\<in>set xs. \<not> P x)"
  by (induction xs) auto

end
