(* ===== verification/Ordered_Map.thy ===== *)
theory Ordered_Map
  imports Vm_Prelude
begin

text \<open>
  The ordered maps and sets the runtime keeps its tables in. \<open>BTreeMap\<close> is modelled by
  its sequence of entries in key order, \<open>BTreeSet\<close> by its sequence of elements: both are
  iterated in that order by the code, and the order is visible (cleanup order, delivery
  order of signals, snapshots). The locale \<open>ordered_map\<close> is the contract the components
  rely on; its interpretation on the sequences is what they use.
\<close>

section \<open>Maps\<close>

type_synonym ('k, 'v) btree = "('k \<times> 'v) list"

definition bt_ok :: "('k::linorder, 'v) btree \<Rightarrow> bool" where
  "bt_ok m = sorted_wrt (<) (map fst m)"

definition bt_get :: "('k, 'v) btree \<Rightarrow> 'k \<Rightarrow> 'v option" where
  "bt_get m = map_of m"

definition bt_contains :: "('k, 'v) btree \<Rightarrow> 'k \<Rightarrow> bool" where
  "bt_contains m k = (bt_get m k \<noteq> None)"

fun bt_insert :: "'k::linorder \<Rightarrow> 'v \<Rightarrow> ('k, 'v) btree \<Rightarrow> ('k, 'v) btree" where
  "bt_insert k v [] = [(k, v)]"
| "bt_insert k v ((k', v') # m) =
     (if k < k' then (k, v) # (k', v') # m
      else if k = k' then (k, v) # m
      else (k', v') # bt_insert k v m)"

definition bt_remove :: "'k \<Rightarrow> ('k, 'v) btree \<Rightarrow> ('k, 'v) btree" where
  "bt_remove k m = filter (\<lambda>e. fst e \<noteq> k) m"

definition bt_retain :: "('k \<Rightarrow> 'v \<Rightarrow> bool) \<Rightarrow> ('k, 'v) btree \<Rightarrow> ('k, 'v) btree" where
  "bt_retain P m = filter (\<lambda>e. P (fst e) (snd e)) m"

definition bt_keys :: "('k, 'v) btree \<Rightarrow> 'k list" where
  "bt_keys m = map fst m"

definition bt_values :: "('k, 'v) btree \<Rightarrow> 'v list" where
  "bt_values m = map snd m"

fun bt_remove_all :: "'k list \<Rightarrow> ('k, 'v) btree \<Rightarrow> ('k, 'v) btree" where
  "bt_remove_all [] m = m"
| "bt_remove_all (k # ks) m = bt_remove_all ks (bt_remove k m)"

lemma bt_ok_Nil [simp]: "bt_ok []"
  by (simp add: bt_ok_def)

lemma bt_ok_Cons: "bt_ok ((k, v) # m) \<longleftrightarrow> (\<forall>k'\<in>fst ` set m. k < k') \<and> bt_ok m"
  by (auto simp: bt_ok_def)

lemma bt_ok_distinct: "bt_ok m \<Longrightarrow> distinct (map fst m)"
  unfolding bt_ok_def using strict_sorted_iff by blast

lemma bt_get_Nil [simp]: "bt_get [] k = None"
  by (simp add: bt_get_def)

lemma bt_get_Cons: "bt_get ((k', v) # m) k = (if k = k' then Some v else bt_get m k)"
  by (simp add: bt_get_def)

lemma bt_get_insert [simp, btree_simps]:
  "bt_get (bt_insert k v m) k' = (if k' = k then Some v else bt_get m k')"
  by (induction k v m rule: bt_insert.induct) (auto simp: bt_get_Cons)

lemma bt_get_remove [simp, btree_simps]:
  "bt_get (bt_remove k m) k' = (if k' = k then None else bt_get m k')"
  by (induction m) (auto simp: bt_get_def bt_remove_def)

lemma bt_contains_insert [simp]: "bt_contains (bt_insert k v m) k' \<longleftrightarrow> k' = k \<or> bt_contains m k'"
  by (auto simp: bt_contains_def)

lemma bt_contains_remove [simp]: "bt_contains (bt_remove k m) k' \<longleftrightarrow> k' \<noteq> k \<and> bt_contains m k'"
  by (auto simp: bt_contains_def)

lemma keys_bt_insert: "fst ` set (bt_insert k v m) = insert k (fst ` set m)"
  by (induction k v m rule: bt_insert.induct) auto

lemma bt_ok_insert [simp]: "bt_ok m \<Longrightarrow> bt_ok (bt_insert k v m)"
proof (induction k v m rule: bt_insert.induct)
  case (1 k v)
  show ?case by (simp add: bt_ok_def)
next
  case (2 k v k' v' m)
  then show ?case by (force simp: bt_ok_Cons keys_bt_insert)
qed

lemma bt_ok_filter: "bt_ok m \<Longrightarrow> bt_ok (filter P m)"
  by (induction m) (auto simp: bt_ok_Cons)

lemma bt_ok_remove [simp]: "bt_ok m \<Longrightarrow> bt_ok (bt_remove k m)"
  by (simp add: bt_remove_def bt_ok_filter)

lemma bt_ok_retain [simp]: "bt_ok m \<Longrightarrow> bt_ok (bt_retain P m)"
  by (simp add: bt_retain_def bt_ok_filter)

lemma bt_get_Some_in: "bt_get m k = Some v \<Longrightarrow> (k, v) \<in> set m"
  by (simp add: bt_get_def map_of_SomeD)

lemma bt_in_get: "bt_ok m \<Longrightarrow> (k, v) \<in> set m \<longleftrightarrow> bt_get m k = Some v"
  using bt_ok_distinct [of m] by (auto simp: bt_get_def map_of_eq_Some_iff)

lemma bt_get_retain [btree_simps]:
  "bt_ok m \<Longrightarrow> bt_get (bt_retain P m) k
     = (case bt_get m k of Some v \<Rightarrow> if P k v then Some v else None | None \<Rightarrow> None)"
proof (induction m)
  case Nil
  show ?case by (simp add: bt_retain_def)
next
  case (Cons e m)
  obtain k' v' where e: "e = (k', v')" by (cases e)
  have fresh: "bt_get m k' = None"
    using Cons.prems by (auto simp: e bt_ok_Cons bt_get_def map_of_eq_None_iff)
  have rest: "bt_get (filter (\<lambda>e. P (fst e) (snd e)) m) k
      = (case bt_get m k of Some v \<Rightarrow> if P k v then Some v else None | None \<Rightarrow> None)"
    using Cons by (simp add: e bt_ok_Cons bt_retain_def)
  show ?case
    using rest fresh by (auto simp: e bt_retain_def bt_get_Cons split: option.splits)
qed

lemma bt_keys_iff: "k \<in> set (bt_keys m) \<longleftrightarrow> bt_contains m k"
  by (auto simp: bt_keys_def bt_contains_def bt_get_def map_of_eq_None_iff)

lemma bt_values_iff: "bt_ok m \<Longrightarrow> v \<in> set (bt_values m) \<longleftrightarrow> (\<exists>k. bt_get m k = Some v)"
  by (auto simp: bt_values_def bt_in_get [symmetric] image_iff) (metis snd_conv)

lemma bt_remove_absent: "bt_get m k = None \<Longrightarrow> bt_remove k m = m"
  by (auto simp: bt_remove_def bt_get_def map_of_eq_None_iff filter_id_conv)

lemma length_bt_insert:
  "bt_get m k = None \<Longrightarrow> length (bt_insert k v m) = Suc (length m)"
  by (induction k v m rule: bt_insert.induct) (auto simp: bt_get_Cons split: if_splits)

lemma bt_rebuild: "bt_ok m \<Longrightarrow> m = map (\<lambda>k. (k, the (bt_get m k))) (bt_keys m)"
proof -
  assume ok: "bt_ok m"
  have "(k, v) \<in> set m \<Longrightarrow> bt_get m k = Some v" for k v
    using ok by (simp add: bt_in_get)
  then have "map (\<lambda>e. (fst e, the (bt_get m (fst e)))) m = map (\<lambda>e. e) m"
    by (intro map_cong) auto
  then show ?thesis by (simp add: bt_keys_def comp_def)
qed

lemma bt_ext: "bt_ok m \<Longrightarrow> bt_ok m' \<Longrightarrow> (\<And>k. bt_get m k = bt_get m' k) \<Longrightarrow> m = m'"
proof -
  assume ok: "bt_ok m" "bt_ok m'" and eq: "\<And>k. bt_get m k = bt_get m' k"
  have "set (bt_keys m) = set (bt_keys m')"
    using eq by (auto simp: bt_keys_iff bt_contains_def)
  then have "bt_keys m = bt_keys m'"
    using ok by (simp add: bt_ok_def bt_keys_def strict_sorted_equal)
  then show ?thesis
    using eq bt_rebuild [OF ok(1)] bt_rebuild [OF ok(2)] by simp
qed

lemma bt_get_remove_all [btree_simps]:
  "bt_get (bt_remove_all ks m) k = (if k \<in> set ks then None else bt_get m k)"
  by (induction ks arbitrary: m) auto

lemma bt_ok_remove_all [simp]: "bt_ok m \<Longrightarrow> bt_ok (bt_remove_all ks m)"
  by (induction ks arbitrary: m) auto

lemma bt_remove_all_retain:
  "bt_ok m \<Longrightarrow> bt_remove_all (map fst (filter (\<lambda>e. P (fst e) (snd e)) m)) m
     = bt_retain (\<lambda>k v. \<not> P k v) m"
proof (rule bt_ext)
  fix k
  assume ok: "bt_ok m"
  show "bt_get (bt_remove_all (map fst (filter (\<lambda>e. P (fst e) (snd e)) m)) m) k
      = bt_get (bt_retain (\<lambda>k v. \<not> P k v) m) k"
    using ok by (force simp: bt_get_remove_all bt_get_retain bt_in_get image_iff
        dest: bt_get_Some_in split: option.splits)
qed auto

lemma bt_remove_insert: "bt_ok m \<Longrightarrow> bt_get m k = None \<Longrightarrow> bt_remove k (bt_insert k v m) = m"
  by (rule bt_ext) auto

section \<open>Sets\<close>

type_synonym 'a bset = "'a list"

definition bs_ok :: "'a::linorder bset \<Rightarrow> bool" where
  "bs_ok s = sorted_wrt (<) s"

fun bs_insert :: "'a::linorder \<Rightarrow> 'a bset \<Rightarrow> 'a bset" where
  "bs_insert x [] = [x]"
| "bs_insert x (y # s) = (if x < y then x # y # s else if x = y then y # s
     else y # bs_insert x s)"

definition bs_contains :: "'a bset \<Rightarrow> 'a \<Rightarrow> bool" where
  "bs_contains s x = (x \<in> set s)"

definition bs_remove :: "'a \<Rightarrow> 'a bset \<Rightarrow> 'a bset" where
  "bs_remove x s = filter (\<lambda>y. y \<noteq> x) s"

lemma set_bs_insert [simp, btree_simps]: "set (bs_insert x s) = insert x (set s)"
  by (induction x s rule: bs_insert.induct) auto

lemma set_bs_remove [simp, btree_simps]: "set (bs_remove x s) = set s - {x}"
  by (auto simp: bs_remove_def)

lemma bs_ok_Nil [simp]: "bs_ok []"
  by (simp add: bs_ok_def)

lemma bs_ok_insert [simp]: "bs_ok s \<Longrightarrow> bs_ok (bs_insert x s)"
  unfolding bs_ok_def by (induction x s rule: bs_insert.induct) auto

lemma bs_ok_filter [simp]: "bs_ok s \<Longrightarrow> bs_ok (filter P s)"
  by (simp add: bs_ok_def sorted_wrt_filter)

lemma bs_ok_remove [simp]: "bs_ok s \<Longrightarrow> bs_ok (bs_remove x s)"
  by (simp add: bs_remove_def)

lemma bs_ok_distinct: "bs_ok s \<Longrightarrow> distinct s"
  unfolding bs_ok_def using strict_sorted_iff by blast

section \<open>The contract the components rely on\<close>

locale ordered_map =
  fixes empty :: "'m"
    and get :: "'m \<Rightarrow> 'k::linorder \<Rightarrow> 'v option"
    and put :: "'k \<Rightarrow> 'v \<Rightarrow> 'm \<Rightarrow> 'm"
    and remove :: "'k \<Rightarrow> 'm \<Rightarrow> 'm"
    and keys :: "'m \<Rightarrow> 'k list"
    and invar :: "'m \<Rightarrow> bool"
  assumes get_empty: "get empty k = None"
    and invar_empty: "invar empty"
    and get_put: "invar m \<Longrightarrow> get (put k v m) k' = (if k' = k then Some v else get m k')"
    and invar_put: "invar m \<Longrightarrow> invar (put k v m)"
    and get_remove: "invar m \<Longrightarrow> get (remove k m) k' = (if k' = k then None else get m k')"
    and invar_remove: "invar m \<Longrightarrow> invar (remove k m)"
    and keys_get: "invar m \<Longrightarrow> k \<in> set (keys m) \<longleftrightarrow> get m k \<noteq> None"
    and keys_sorted: "invar m \<Longrightarrow> sorted_wrt (<) (keys m)"
begin

definition remove_where :: "('v \<Rightarrow> bool) \<Rightarrow> 'm \<Rightarrow> 'm" where
  "remove_where P m = fold remove (filter (\<lambda>k. \<exists>v. get m k = Some v \<and> P v) (keys m)) m"

lemma fold_remove:
  "invar m \<Longrightarrow> invar (fold remove ks m)
     \<and> get (fold remove ks m) k = (if k \<in> set ks then None else get m k)"
  by (induction ks arbitrary: m) (auto simp: invar_remove get_remove)

lemma get_remove_where:
  "invar m \<Longrightarrow> get (remove_where P m) k
     = (case get m k of Some v \<Rightarrow> if P v then None else Some v | None \<Rightarrow> None)"
  unfolding remove_where_def
  by (auto simp: fold_remove keys_get split: option.splits)

lemma keys_put:
  "invar m \<Longrightarrow> set (keys (put k v m)) = insert k (set (keys m))"
  by (auto simp: keys_get invar_put get_put split: if_splits)

lemma keys_distinct: "invar m \<Longrightarrow> distinct (keys m)"
  using keys_sorted strict_sorted_iff by blast

lemma put_put_commute:
  "invar m \<Longrightarrow> k \<noteq> k' \<Longrightarrow> get (put k v (put k' v' m)) x = get (put k' v' (put k v m)) x"
  by (simp add: get_put invar_put)

end

interpretation bt: ordered_map "[]" bt_get bt_insert bt_remove bt_keys bt_ok
  by unfold_locales (auto simp: bt_keys_iff bt_contains_def, simp add: bt_ok_def bt_keys_def)

end
