(* ===== verification/Vm_Values.thy ===== *)
theory Vm_Values
  imports Ordered_Map
begin

text \<open>
  The values that cross the VM's boundaries: \<open>TvmBoundaryType\<close> with its fixed
  transition header (\<open>crates/terlan-runtime-abi/src/boundary_type.rs\<close>) and
  \<open>ReplValue\<close> (\<open>runtime/vm/value.rs\<close>), which mailboxes carry as payloads.
\<close>

section \<open>Little-endian words\<close>

definition to_le_bytes :: "u64 \<Rightarrow> u8 list" where
  "to_le_bytes w = map (\<lambda>i. ucast (drop_bit (8 * i) w)) [0, 1, 2, 3, 4, 5, 6, 7]"

fun from_le_bytes :: "u8 list \<Rightarrow> u64" where
  "from_le_bytes [] = 0"
| "from_le_bytes (b # bs) = ucast b OR push_bit 8 (from_le_bytes bs)"

lemma low_byte_or_rest: "ucast (ucast w :: u8) OR push_bit 8 (drop_bit 8 w) = (w :: u64)"
  by (rule bit_word_eqI) (auto simp: bit_simps, metis add_diff_inverse_nat)

lemma byte_bit_high: "8 \<le> n \<Longrightarrow> \<not> bit (b :: u8) n"
  using bit_imp_le_length [of b n] by auto

lemma low_byte_or_drop:
  "ucast (ucast (drop_bit n w) :: u8) OR push_bit 8 (drop_bit (8 + n) w) = drop_bit n (w :: u64)"
  using low_byte_or_rest [of "drop_bit n w"] by simp

lemma from_to_le_bytes: "from_le_bytes (to_le_bytes w) = w"
proof -
  have zero: "drop_bit 64 w = 0"
    by (rule bit_word_eqI) (auto simp: bit_simps dest: bit_imp_le_length)
  have "from_le_bytes (to_le_bytes w) = drop_bit 0 w"
    unfolding to_le_bytes_def
    using low_byte_or_drop [of 0 w] low_byte_or_drop [of 8 w] low_byte_or_drop [of 16 w]
      low_byte_or_drop [of 24 w] low_byte_or_drop [of 32 w] low_byte_or_drop [of 40 w]
      low_byte_or_drop [of 48 w] low_byte_or_drop [of 56 w] zero
    by simp
  then show ?thesis by simp
qed

lemma to_from_le_bytes:
  assumes "length bs = 8"
  shows "to_le_bytes (from_le_bytes bs) = bs"
proof -
  from assms obtain b0 b1 b2 b3 b4 b5 b6 b7 where bs: "bs = [b0, b1, b2, b3, b4, b5, b6, b7]"
    by (auto simp: numeral_eq_Suc length_Suc_conv)
  show ?thesis
    unfolding bs to_le_bytes_def
    by (auto intro!: bit_word_eqI simp: bit_simps byte_bit_high)
qed

lemma length_to_le_bytes [simp]: "length (to_le_bytes w) = 8"
  by (simp add: to_le_bytes_def)

section \<open>Boundary types\<close>

datatype TvmBoundaryType =
    BtUnit
  | BtBool
  | BtInt
  | BtFloat
  | BtBinary
  | BtString
  | BtJson
  | NativeResource u64
  | BtAtom
  | BtBytes
  | Managed "u8 list"

definition is_managed_reference :: "TvmBoundaryType \<Rightarrow> bool" where
  "is_managed_reference t =
     (case t of BtBinary \<Rightarrow> True | BtString \<Rightarrow> True | BtBytes \<Rightarrow> True | Managed _ \<Rightarrow> True
      | _ \<Rightarrow> False)"

fun transition_words :: "TvmBoundaryType \<Rightarrow> i64 list" where
  "transition_words BtUnit = [0, 0, 0]"
| "transition_words BtBool = [1, 0, 0]"
| "transition_words BtInt = [2, 0, 0]"
| "transition_words BtFloat = [3, 0, 0]"
| "transition_words BtBinary = [4, 0, 0]"
| "transition_words BtString = [5, 0, 0]"
| "transition_words BtJson = [6, 0, 0]"
| "transition_words (NativeResource i) = [7, i, 0]"
| "transition_words BtAtom = [8, 0, 0]"
| "transition_words BtBytes = [9, 0, 0]"
| "transition_words (Managed identity) =
     (let low = from_le_bytes (take 8 identity); high = from_le_bytes (drop 8 identity)
      in [10, low, high])"

datatype transition_decode_error =
    ExpectedThreeWords nat
  | NonzeroScalarIdentity
  | NonzeroHighWord
  | UnknownTypeTag i64

definition scalar_type ::
    "i64 \<Rightarrow> i64 \<Rightarrow> TvmBoundaryType \<Rightarrow> (transition_decode_error, TvmBoundaryType) outcome" where
  "scalar_type low high v = (if low = 0 \<and> high = 0 then Ok v else Err NonzeroScalarIdentity)"

definition from_transition_words ::
    "i64 list \<Rightarrow> (transition_decode_error, TvmBoundaryType) outcome" where
  "from_transition_words ws = (case ws of
     [tag, low, high] \<Rightarrow>
       (if tag = 0 then scalar_type low high BtUnit
        else if tag = 1 then scalar_type low high BtBool
        else if tag = 2 then scalar_type low high BtInt
        else if tag = 3 then scalar_type low high BtFloat
        else if tag = 4 then scalar_type low high BtBinary
        else if tag = 5 then scalar_type low high BtString
        else if tag = 6 then scalar_type low high BtJson
        else if tag = 7 then
          (if high = 0 then Ok (NativeResource low) else Err NonzeroHighWord)
        else if tag = 8 then scalar_type low high BtAtom
        else if tag = 9 then scalar_type low high BtBytes
        else if tag = 10 then Ok (Managed (to_le_bytes low @ to_le_bytes high))
        else Err (UnknownTypeTag tag))
   | _ \<Rightarrow> Err (ExpectedThreeWords (length ws)))"

text \<open>The array type \<open>[u8; 16]\<close> of the source is a list of that length.\<close>

definition boundary_type_ok :: "TvmBoundaryType \<Rightarrow> bool" where
  "boundary_type_ok t = (case t of Managed identity \<Rightarrow> length identity = 16 | _ \<Rightarrow> True)"

lemma from_transition_words_ok:
  "from_transition_words ws = Ok t \<Longrightarrow> boundary_type_ok t"
  by (auto simp: from_transition_words_def scalar_type_def boundary_type_ok_def
      split: list.splits if_splits)

lemma transition_words_from:
  "from_transition_words ws = Ok t \<Longrightarrow> transition_words t = ws"
  by (auto simp: from_transition_words_def scalar_type_def Let_def from_to_le_bytes
      split: list.splits if_splits)

lemma from_transition_words_to:
  "boundary_type_ok t \<Longrightarrow> from_transition_words (transition_words t) = Ok t"
  by (cases t) (auto simp: from_transition_words_def scalar_type_def boundary_type_ok_def
      to_from_le_bytes)

section \<open>Runtime values\<close>

text \<open>
  \<open>Float\<close> keeps its text, as in the source. A bit string is its bytes and bit length, a
  closure its descriptor (\<open>native_image/managed/closures.rs\<close>, without the shape and type
  derived from the other fields) and its captured values; the variants the source compiles
  only for its tests are left out.
\<close>

record ManagedClosureDescriptor =
  closure_generation :: "u8 list"
  closure_callable_id :: u64
  closure_parameters :: "TvmBoundaryType list"
  closure_results :: "TvmBoundaryType list"
  closure_captures :: "TvmBoundaryType list"

datatype ReplValue =
    VUnit
  | VInt i64
  | VFloat string
  | VString string
  | VStringBytes "u8 list"
  | VBytes "u8 list"
  | VBitString "u8 list" usize
  | VAtom string
  | VBool bool
  | VClosure ManagedClosureDescriptor "ReplValue list"
  | VTuple "ReplValue list"
  | VRecord string "(string \<times> ReplValue) list"
  | VList "ReplValue list"
  | VMap "(ReplValue \<times> ReplValue) list"
  | VSet "ReplValue list"

end
