(* ===== verification/Actor_State.thy ===== *)
theory Actor_State
  imports Vm_Values
begin

text \<open>
  The packed ownership word of one actor cell (\<open>runtime/vm/actor_directory/state.rs\<close>):
  4 bits of lifecycle, 20 bits of actor generation, 20 bits of owner generation and 20
  bits of scheduler owner in one atomic \<open>u64\<close>, with the lifecycle, the handles, tokens
  and errors of \<open>actor_directory.rs\<close>.
\<close>

type_synonym VmProcessId = u64

definition LIFECYCLE_BITS :: nat where "LIFECYCLE_BITS = 4"
definition GENERATION_BITS :: nat where "GENERATION_BITS = 20"
definition GENERATION_MASK :: u64 where "GENERATION_MASK = push_bit GENERATION_BITS 1 - 1"
definition OWNER_SHIFT :: nat where
  "OWNER_SHIFT = LIFECYCLE_BITS + GENERATION_BITS + GENERATION_BITS"

datatype VmActorLifecycle =
  Queued | Executing | Yielding | Parked | Migrating | Exiting | Retired | Reclaimed

fun lifecycle_tag :: "VmActorLifecycle \<Rightarrow> u64" where
  "lifecycle_tag Queued = 1"
| "lifecycle_tag Executing = 2"
| "lifecycle_tag Yielding = 3"
| "lifecycle_tag Parked = 4"
| "lifecycle_tag Migrating = 5"
| "lifecycle_tag Exiting = 6"
| "lifecycle_tag Retired = 7"
| "lifecycle_tag Reclaimed = 8"

record VmActorHandle =
  handle_pid :: VmProcessId
  handle_slot :: u32
  handle_generation :: u64

record VmActorMutatorToken =
  token_handle :: VmActorHandle
  token_owner :: u64
  token_owner_generation :: u64
  token_lifecycle :: VmActorLifecycle

datatype VmActorDirectoryError =
    MissingActor VmProcessId
  | StaleHandle VmActorHandle
  | CorruptLifecycle u8
  | InvalidTransition VmActorLifecycle VmActorLifecycle
  | AlreadyOwned u64 u64
  | StaleMutator
  | InvalidOwner u64
  | LookupPinned u32
  | SlotCapacityExceeded
  | MailboxFull VmActorHandle
  | TransferMailboxNotDrained nat

definition from_word :: "u64 \<Rightarrow> (VmActorDirectoryError, VmActorLifecycle) outcome" where
  "from_word word =
     (let tag = (ucast (word AND (push_bit LIFECYCLE_BITS 1 - 1)) :: u8) in
      if tag = 1 then Ok Queued
      else if tag = 2 then Ok Executing
      else if tag = 3 then Ok Yielding
      else if tag = 4 then Ok Parked
      else if tag = 5 then Ok Migrating
      else if tag = 6 then Ok Exiting
      else if tag = 7 then Ok Retired
      else if tag = 8 then Ok Reclaimed
      else Err (CorruptLifecycle tag))"

record VmActorState =
  st_lifecycle :: VmActorLifecycle
  st_actor_generation :: u64
  st_owner_generation :: u64
  st_owner :: u64

definition pack_state :: "VmActorLifecycle \<Rightarrow> u64 \<Rightarrow> u64 \<Rightarrow> u64 \<Rightarrow> u64" where
  "pack_state lifecycle actor_generation owner_generation owner =
     lifecycle_tag lifecycle
     OR push_bit LIFECYCLE_BITS (actor_generation AND GENERATION_MASK)
     OR push_bit (LIFECYCLE_BITS + GENERATION_BITS) (owner_generation AND GENERATION_MASK)
     OR push_bit OWNER_SHIFT (owner AND GENERATION_MASK)"

definition unpack_state :: "u64 \<Rightarrow> (VmActorDirectoryError, VmActorState) outcome" where
  "unpack_state word = bind_out (from_word word) (\<lambda>lifecycle. Ok
     \<lparr> st_lifecycle = lifecycle,
       st_actor_generation = drop_bit LIFECYCLE_BITS word AND GENERATION_MASK,
       st_owner_generation = drop_bit (LIFECYCLE_BITS + GENERATION_BITS) word AND GENERATION_MASK,
       st_owner = drop_bit OWNER_SHIFT word AND GENERATION_MASK \<rparr>)"

definition next_generation :: "u64 \<Rightarrow> u64" where
  "next_generation current = max ((current + 1) AND GENERATION_MASK) 1"

definition ownership_race_error :: "u64 \<Rightarrow> VmActorDirectoryError" where
  "ownership_race_error word = (case unpack_state word of
     Ok s \<Rightarrow> if st_owner s \<noteq> 0 then AlreadyOwned (st_owner s) (st_owner_generation s)
             else StaleMutator
   | _ \<Rightarrow> StaleMutator)"

section \<open>The word holds its four fields\<close>

lemmas state_layout = LIFECYCLE_BITS_def GENERATION_BITS_def OWNER_SHIFT_def

lemma GENERATION_MASK_mask: "GENERATION_MASK = mask 20"
  by (simp add: GENERATION_MASK_def GENERATION_BITS_def mask_eq_exp_minus_1 push_bit_eq_mult)

lemma lifecycle_tag_bit_high: "4 \<le> n \<Longrightarrow> \<not> bit (lifecycle_tag l) n"
proof -
  assume "4 \<le> n"
  have "lifecycle_tag l = take_bit 4 (lifecycle_tag l)"
    by (cases l) (simp_all add: take_bit_eq_mod)
  with \<open>4 \<le> n\<close> show ?thesis
    by (metis bit_take_bit_iff not_le)
qed

lemma lifecycle_tag_inject: "lifecycle_tag l = lifecycle_tag l' \<longleftrightarrow> l = l'"
  by (cases l; cases l') simp_all

lemma pack_low: "pack_state l g og ow AND mask 4 = lifecycle_tag l"
proof (rule bit_word_eqI)
  fix n
  show "bit (pack_state l g og ow AND mask 4) n = bit (lifecycle_tag l) n"
    by (cases "n < 4")
      (auto simp: pack_state_def state_layout GENERATION_MASK_mask bit_simps lifecycle_tag_bit_high)
qed

lemma from_word_tag: "from_word w = Ok l \<longleftrightarrow> w AND mask 4 = lifecycle_tag l"
proof -
  have low: "w AND mask 4 = take_bit 4 w" by (simp add: take_bit_eq_mask)
  have small: "unat (w AND mask 4) < 16"
    unfolding low unsigned_take_bit_eq by (simp only: take_bit_eq_mod) simp
  have unat_u8: "unat (ucast (w AND mask 4) :: u8) = unat (w AND mask 4)"
    using small by (simp add: unsigned_ucast_eq take_bit_nat_eq_self)
  have mask4: "push_bit LIFECYCLE_BITS 1 - 1 = (mask 4 :: u64)"
    by (simp add: LIFECYCLE_BITS_def mask_eq_exp_minus_1 push_bit_eq_mult)
  show ?thesis
    unfolding from_word_def mask4 Let_def
    by (cases l) (simp_all add: word_unat_eq_iff unat_u8)
qed

lemma from_word_pack [simp]: "from_word (pack_state l g og ow) = Ok l"
  by (simp add: from_word_tag pack_low)

lemma unpack_pack:
  "unpack_state (pack_state l g og ow) = Ok
     \<lparr> st_lifecycle = l, st_actor_generation = g AND GENERATION_MASK,
       st_owner_generation = og AND GENERATION_MASK, st_owner = ow AND GENERATION_MASK \<rparr>"
proof -
  have "drop_bit 4 (pack_state l g og ow) AND mask 20 = g AND mask 20"
    unfolding pack_state_def state_layout GENERATION_MASK_mask
    by (rule bit_word_eqI) (auto simp: bit_simps lifecycle_tag_bit_high)
  moreover have "drop_bit 24 (pack_state l g og ow) AND mask 20 = og AND mask 20"
    unfolding pack_state_def state_layout GENERATION_MASK_mask
    by (rule bit_word_eqI) (auto simp: bit_simps lifecycle_tag_bit_high)
  moreover have "drop_bit 44 (pack_state l g og ow) AND mask 20 = ow AND mask 20"
    unfolding pack_state_def state_layout GENERATION_MASK_mask
    by (rule bit_word_eqI) (auto simp: bit_simps lifecycle_tag_bit_high)
  ultimately show ?thesis
    by (simp add: unpack_state_def GENERATION_MASK_mask state_layout)
qed

lemma pack_unpack:
  assumes "unpack_state w = Ok s"
  shows "pack_state (st_lifecycle s) (st_actor_generation s) (st_owner_generation s) (st_owner s) = w"
proof -
  from assms have tag: "w AND mask 4 = lifecycle_tag (st_lifecycle s)"
    and g: "st_actor_generation s = drop_bit 4 w AND mask 20"
    and og: "st_owner_generation s = drop_bit 24 w AND mask 20"
    and ow: "st_owner s = drop_bit 44 w AND mask 20"
    by (auto simp: unpack_state_def bind_out_eq_Ok from_word_tag GENERATION_MASK_mask state_layout)
  show ?thesis
    unfolding pack_state_def g og ow tag [symmetric] state_layout GENERATION_MASK_mask
  proof (rule bit_word_eqI, goal_cases)
    case (1 n)
    then show ?case
      by (cases "n < 4"; cases "n < 24"; cases "n < 44") (auto simp: bit_simps)
  qed
qed

lemma next_generation_range: "next_generation g \<noteq> 0 \<and> next_generation g \<le> GENERATION_MASK"
proof -
  have "(g + 1) AND GENERATION_MASK \<le> GENERATION_MASK"
    by (rule word_and_le1)
  moreover have "(1::u64) \<le> GENERATION_MASK"
    by (simp add: GENERATION_MASK_def GENERATION_BITS_def)
  ultimately have "next_generation g \<le> GENERATION_MASK"
    by (simp add: next_generation_def)
  moreover have "1 \<le> next_generation g"
    by (simp add: next_generation_def)
  ultimately show ?thesis by auto
qed

lemma next_generation_neq: "g \<le> GENERATION_MASK \<Longrightarrow> next_generation g \<noteq> g"
proof
  assume g: "g \<le> GENERATION_MASK" and eq: "next_generation g = g"
  have m: "(g + 1) AND GENERATION_MASK = take_bit 20 (g + 1)"
    by (simp add: GENERATION_MASK_mask take_bit_eq_mask)
  have u: "unat (take_bit 20 (g + 1)) = (unat g + 1) mod 2 ^ 20"
    using g by (simp add: unsigned_take_bit_eq take_bit_eq_mod unat_word_ariths GENERATION_MASK_def
        GENERATION_BITS_def word_le_nat_alt)
  have le: "unat g \<le> 2 ^ 20 - 1"
    using g by (simp add: GENERATION_MASK_def GENERATION_BITS_def word_le_nat_alt)
  have "g = 1 \<or> (g + 1) AND GENERATION_MASK = g"
    using eq by (auto simp: next_generation_def max_def split: if_splits)
  then show False
  proof
    assume "g = 1"
    with eq show False by (simp add: next_generation_def GENERATION_MASK_def GENERATION_BITS_def)
  next
    assume "(g + 1) AND GENERATION_MASK = g"
    then have "(unat g + 1) mod 2 ^ 20 = unat g" using m u by simp
    then show False using le by (cases "unat g + 1 = 2 ^ 20") auto
  qed
qed

end
