(* ===== verification/Actor_Mailbox.thy ===== *)
theory Actor_Mailbox
  imports Actor_State
begin

text \<open>
  The actor-local mailbox of \<open>actor_directory/mailbox.rs\<close>: publication into a bounded
  multi-producer queue, the drain of the single consumer, and the receiver side of the
  park handshake, each as one uninterrupted call. The interleaved handshake is in theory
  Mailbox_Handshake. The queue is \<open>concurrent_queue::ConcurrentQueue\<close>, which is not part
  of the repository: it is the record \<open>Q\<close> of its operations, an argument of every
  operation that uses it, and \<open>bounded_fifo\<close> states its documented behaviour.
\<close>

section \<open>The queue the mailbox is built on\<close>

record ('q, 'f) queue_ops =
  q_bounded :: "usize \<Rightarrow> 'q"
  q_push :: "'f \<Rightarrow> 'q \<Rightarrow> bool \<times> 'q"
  q_pop :: "'q \<Rightarrow> 'f option \<times> 'q"
  q_len :: "'q \<Rightarrow> usize"
  q_is_empty :: "'q \<Rightarrow> bool"

definition fifo_push_law :: "('q, 'f) queue_ops \<Rightarrow> ('q \<Rightarrow> 'f list) \<Rightarrow> ('q \<Rightarrow> nat) \<Rightarrow> 'f \<Rightarrow> 'q \<Rightarrow> bool" where
  "fifo_push_law Q contents capacity f q =
     (case q_push Q f q of (accepted, q') \<Rightarrow>
        if length (contents q) < capacity q
        then accepted \<and> contents q' = contents q @ [f] \<and> capacity q' = capacity q
        else \<not> accepted \<and> q' = q)"

definition fifo_pop_law :: "('q, 'f) queue_ops \<Rightarrow> ('q \<Rightarrow> 'f list) \<Rightarrow> ('q \<Rightarrow> nat) \<Rightarrow> 'q \<Rightarrow> bool" where
  "fifo_pop_law Q contents capacity q =
     (case q_pop Q q of
        (None, q') \<Rightarrow> contents q = [] \<and> q' = q
      | (Some f, q') \<Rightarrow> contents q = f # contents q' \<and> capacity q' = capacity q)"

definition bounded_fifo :: "('q, 'f) queue_ops \<Rightarrow> ('q \<Rightarrow> 'f list) \<Rightarrow> ('q \<Rightarrow> nat) \<Rightarrow> bool" where
  "bounded_fifo Q contents capacity \<longleftrightarrow>
     (\<forall>n. n \<noteq> 0 \<longrightarrow> contents (q_bounded Q n) = [] \<and> capacity (q_bounded Q n) = unat n)
   \<and> (\<forall>f q. fifo_push_law Q contents capacity f q)
   \<and> (\<forall>q. fifo_pop_law Q contents capacity q)
   \<and> (\<forall>q. length (contents q) < 2 ^ 64 \<longrightarrow> q_len Q q = of_nat (length (contents q)))
   \<and> (\<forall>q. q_is_empty Q q = (contents q = []))"

section \<open>Data\<close>

definition ACTOR_MAILBOX_CAPACITY :: usize where "ACTOR_MAILBOX_CAPACITY = 1024"

definition ACTIVE :: u8 where "ACTIVE = 0"
definition PARKING :: u8 where "PARKING = 1"
definition PARKED :: u8 where "PARKED = 2"
definition NOTIFIED :: u8 where "NOTIFIED = 3"

lemmas wake_defs = ACTIVE_def PARKING_def PARKED_def NOTIFIED_def

datatype VmMailboxWake = Observed | Enqueue

record VmActorPublication =
  publication_handle :: VmActorHandle
  publication_sequence :: u64

record 'p VmPublishedFragment =
  fragment_publication :: VmActorPublication
  fragment_payload :: 'p

record 'q VmActorMailbox =
  mailbox_queue :: 'q
  mailbox_admitted :: usize
  mailbox_next_sequence :: u64
  mailbox_wake_state :: u8

section \<open>Operations\<close>

definition mailbox_default :: "('q, 'p VmPublishedFragment) queue_ops \<Rightarrow> 'q VmActorMailbox" where
  "mailbox_default Q =
     \<lparr> mailbox_queue = q_bounded Q ACTOR_MAILBOX_CAPACITY, mailbox_admitted = 0,
       mailbox_next_sequence = 0, mailbox_wake_state = ACTIVE \<rparr>"

definition mailbox_publish :: "('q, 'p VmPublishedFragment) queue_ops \<Rightarrow> VmActorHandle \<Rightarrow> 'p
    \<Rightarrow> ('q VmActorMailbox, VmActorDirectoryError, VmActorPublication \<times> VmMailboxWake) stateful" where
  "mailbox_publish Q handle payload m =
     (if \<not> mailbox_admitted m < ACTOR_MAILBOX_CAPACITY then (Err (MailboxFull handle), m)
      else
        let m = m\<lparr> mailbox_admitted := mailbox_admitted m + 1 \<rparr>;
            sequence = saturating_add (mailbox_next_sequence m) 1;
            m = m\<lparr> mailbox_next_sequence := mailbox_next_sequence m + 1 \<rparr>;
            publication = \<lparr> publication_handle = handle, publication_sequence = sequence \<rparr>;
            fragment = \<lparr> fragment_publication = publication, fragment_payload = payload \<rparr>
        in case q_push Q fragment (mailbox_queue m) of
             (False, q) \<Rightarrow> (Err (MailboxFull handle),
                m\<lparr> mailbox_queue := q, mailbox_admitted := mailbox_admitted m - 1 \<rparr>)
           | (True, q) \<Rightarrow>
               let previous = mailbox_wake_state m;
                   m = m\<lparr> mailbox_queue := q, mailbox_wake_state := NOTIFIED \<rparr>
               in (Ok (publication, if previous = PARKED then Enqueue else Observed), m))"

text \<open>
  The \<open>while let\<close> of \<open>drain\<close>, with the number of iterations it may still take. The callback
  only sees the fragments, so they are returned in the order it is called on them.
\<close>

fun drain_loop :: "('q, 'p VmPublishedFragment) queue_ops \<Rightarrow> nat \<Rightarrow> usize
    \<Rightarrow> 'p VmPublishedFragment list \<Rightarrow> 'q VmActorMailbox
    \<Rightarrow> (usize \<times> 'p VmPublishedFragment list) option \<times> 'q VmActorMailbox" where
  "drain_loop Q 0 drained consumed m = (None, m)"
| "drain_loop Q (Suc fuel) drained consumed m =
     (case q_pop Q (mailbox_queue m) of
        (None, q) \<Rightarrow> (Some (drained, consumed), m\<lparr> mailbox_queue := q \<rparr>)
      | (Some fragment, q) \<Rightarrow>
          drain_loop Q fuel (saturating_add drained 1) (consumed @ [fragment])
            (m\<lparr> mailbox_queue := q, mailbox_admitted := mailbox_admitted m - 1 \<rparr>))"

definition mailbox_drain :: "('q, 'p VmPublishedFragment) queue_ops
    \<Rightarrow> ('q VmActorMailbox, 'e, usize \<times> 'p VmPublishedFragment list) stateful" where
  "mailbox_drain Q m =
     (case drain_loop Q (Suc (unat (q_len Q (mailbox_queue m)))) 0 [] m of
        (None, m') \<Rightarrow> (Panic ''the drain loop is still running'', m')
      | (Some r, m') \<Rightarrow>
          (Ok r, if q_is_empty Q (mailbox_queue m') \<and> mailbox_wake_state m' = NOTIFIED
                 then m'\<lparr> mailbox_wake_state := ACTIVE \<rparr> else m'))"

definition mailbox_prepare_park :: "('q, 'p VmPublishedFragment) queue_ops
    \<Rightarrow> 'q VmActorMailbox \<Rightarrow> bool \<times> 'q VmActorMailbox" where
  "mailbox_prepare_park Q m =
     (if mailbox_wake_state m \<noteq> ACTIVE then (False, m)
      else
        let m = m\<lparr> mailbox_wake_state := PARKING \<rparr>
        in if \<not> q_is_empty Q (mailbox_queue m)
           then (False, m\<lparr> mailbox_wake_state := NOTIFIED \<rparr>)
           else if mailbox_wake_state m = PARKING
           then (True, m\<lparr> mailbox_wake_state := PARKED \<rparr>)
           else (False, m))"

definition mailbox_activate :: "'q VmActorMailbox \<Rightarrow> 'q VmActorMailbox" where
  "mailbox_activate m = m\<lparr> mailbox_wake_state := ACTIVE \<rparr>"

definition mailbox_is_notified :: "'q VmActorMailbox \<Rightarrow> bool" where
  "mailbox_is_notified m = (mailbox_wake_state m = NOTIFIED)"

definition mailbox_len :: "('q, 'p VmPublishedFragment) queue_ops \<Rightarrow> 'q VmActorMailbox \<Rightarrow> usize" where
  "mailbox_len Q m = q_len Q (mailbox_queue m)"

section \<open>A queue with the documented behaviour\<close>

text \<open>
  A list with its capacity: the instance at which theorems about any queue satisfying
  \<open>bounded_fifo\<close> are evaluated.
\<close>

definition list_queue :: "('f list \<times> nat, 'f) queue_ops" where
  "list_queue =
     \<lparr> q_bounded = (\<lambda>n. ([], unat n)),
       q_push = (\<lambda>f q. if length (fst q) < snd q then (True, (fst q @ [f], snd q)) else (False, q)),
       q_pop = (\<lambda>q. case fst q of [] \<Rightarrow> (None, q) | f # fs \<Rightarrow> (Some f, (fs, snd q))),
       q_len = (\<lambda>q. of_nat (length (fst q))),
       q_is_empty = (\<lambda>q. fst q = []) \<rparr>"

lemma list_queue_fifo: "bounded_fifo list_queue fst snd"
  by (auto simp: bounded_fifo_def fifo_push_law_def fifo_pop_law_def list_queue_def
      split: list.splits)

section \<open>Lemmas\<close>

lemma fifo_bounded:
  "bounded_fifo Q contents capacity \<Longrightarrow> n \<noteq> 0
     \<Longrightarrow> contents (q_bounded Q n) = [] \<and> capacity (q_bounded Q n) = unat n"
  by (simp add: bounded_fifo_def)

lemma fifo_push:
  assumes "bounded_fifo Q contents capacity" "length (contents q) < capacity q"
  obtains q' where "q_push Q f q = (True, q')" "contents q' = contents q @ [f]"
    "capacity q' = capacity q"
proof -
  have "fifo_push_law Q contents capacity f q" using assms(1) by (simp add: bounded_fifo_def)
  then show ?thesis using assms(2) that by (auto simp: fifo_push_law_def split: prod.splits)
qed

lemma fifo_push_full:
  assumes "bounded_fifo Q contents capacity" "\<not> length (contents q) < capacity q"
  shows "q_push Q f q = (False, q)"
proof -
  have "fifo_push_law Q contents capacity f q" using assms(1) by (simp add: bounded_fifo_def)
  then show ?thesis using assms(2) by (auto simp: fifo_push_law_def split: prod.splits)
qed

lemma fifo_pop_empty:
  assumes "bounded_fifo Q contents capacity" "contents q = []"
  shows "q_pop Q q = (None, q)"
proof -
  have "fifo_pop_law Q contents capacity q" using assms(1) by (simp add: bounded_fifo_def)
  then show ?thesis using assms(2) by (auto simp: fifo_pop_law_def split: prod.splits option.splits)
qed

lemma fifo_pop:
  assumes "bounded_fifo Q contents capacity" "contents q = f # fs"
  obtains q' where "q_pop Q q = (Some f, q')" "contents q' = fs" "capacity q' = capacity q"
proof -
  have "fifo_pop_law Q contents capacity q" using assms(1) by (simp add: bounded_fifo_def)
  then show ?thesis
    using assms(2) that by (auto simp: fifo_pop_law_def split: prod.splits option.splits)
qed

lemma fifo_len:
  "bounded_fifo Q contents capacity \<Longrightarrow> length (contents q) < 2 ^ 64
     \<Longrightarrow> q_len Q q = of_nat (length (contents q))"
  by (simp add: bounded_fifo_def)

lemma fifo_is_empty: "bounded_fifo Q contents capacity \<Longrightarrow> q_is_empty Q q = (contents q = [])"
  by (simp add: bounded_fifo_def)

text \<open>The mailbox between two calls: the counter is the number of fragments queued.\<close>

definition mailbox_ok :: "('q \<Rightarrow> 'f list) \<Rightarrow> ('q \<Rightarrow> nat) \<Rightarrow> 'q VmActorMailbox \<Rightarrow> bool" where
  "mailbox_ok contents capacity m \<longleftrightarrow>
     capacity (mailbox_queue m) = unat ACTOR_MAILBOX_CAPACITY
   \<and> length (contents (mailbox_queue m)) \<le> unat ACTOR_MAILBOX_CAPACITY
   \<and> mailbox_admitted m = of_nat (length (contents (mailbox_queue m)))"

definition mailbox_contents :: "('q \<Rightarrow> 'f list) \<Rightarrow> 'q VmActorMailbox \<Rightarrow> 'f list" where
  "mailbox_contents contents m = contents (mailbox_queue m)"

lemma mailbox_default_ok:
  "bounded_fifo Q contents capacity \<Longrightarrow> mailbox_ok contents capacity (mailbox_default Q)
     \<and> contents (mailbox_queue (mailbox_default Q)) = []
     \<and> mailbox_wake_state (mailbox_default Q) = ACTIVE"
  using fifo_bounded [of Q contents capacity ACTOR_MAILBOX_CAPACITY]
  by (simp add: mailbox_ok_def mailbox_default_def ACTOR_MAILBOX_CAPACITY_def)

lemma of_nat_less_capacity:
  "n \<le> unat ACTOR_MAILBOX_CAPACITY
     \<Longrightarrow> (of_nat n :: usize) < ACTOR_MAILBOX_CAPACITY \<longleftrightarrow> n < unat ACTOR_MAILBOX_CAPACITY"
proof -
  assume n: "n \<le> unat ACTOR_MAILBOX_CAPACITY"
  then have "n < 2 ^ LENGTH(64)" by (simp add: ACTOR_MAILBOX_CAPACITY_def)
  then have "unat (of_nat n :: usize) = n" by (simp add: unsigned_of_nat take_bit_nat_eq_self)
  then show ?thesis by (simp add: word_less_nat_alt)
qed

lemma publish_accepts:
  assumes Q: "bounded_fifo Q contents capacity" and ok: "mailbox_ok contents capacity m"
    and room: "length (contents (mailbox_queue m)) < unat ACTOR_MAILBOX_CAPACITY"
  obtains m' where
    "mailbox_publish Q h p m = (Ok
       (\<lparr> publication_handle = h,
          publication_sequence = saturating_add (mailbox_next_sequence m) 1 \<rparr>,
        if mailbox_wake_state m = PARKED then Enqueue else Observed), m')"
    "contents (mailbox_queue m') = contents (mailbox_queue m) @
       [\<lparr> fragment_publication = \<lparr> publication_handle = h,
            publication_sequence = saturating_add (mailbox_next_sequence m) 1 \<rparr>,
          fragment_payload = p \<rparr>]"
    "mailbox_ok contents capacity m'" "mailbox_wake_state m' = NOTIFIED"
    "mailbox_next_sequence m' = mailbox_next_sequence m + 1"
proof -
  let ?f = "\<lparr> fragment_publication = \<lparr> publication_handle = h,
            publication_sequence = saturating_add (mailbox_next_sequence m) 1 \<rparr>,
          fragment_payload = p \<rparr>"
  have adm: "mailbox_admitted m < ACTOR_MAILBOX_CAPACITY"
    using ok room by (simp add: mailbox_ok_def of_nat_less_capacity)
  obtain q' where q': "q_push Q ?f (mailbox_queue m) = (True, q')"
      "contents q' = contents (mailbox_queue m) @ [?f]"
      "capacity q' = capacity (mailbox_queue m)"
    using fifo_push [OF Q, of "mailbox_queue m" ?f] ok room by (auto simp: mailbox_ok_def)
  let ?m = "m\<lparr> mailbox_admitted := mailbox_admitted m + 1,
      mailbox_next_sequence := mailbox_next_sequence m + 1,
      mailbox_queue := q', mailbox_wake_state := NOTIFIED \<rparr>"
  show ?thesis
    by (rule that [of ?m])
      (use adm q' ok room in \<open>auto simp: mailbox_publish_def Let_def mailbox_ok_def\<close>)
qed

lemma publish_full:
  assumes "mailbox_ok contents capacity m"
    and "length (contents (mailbox_queue m)) = unat ACTOR_MAILBOX_CAPACITY"
  shows "mailbox_publish Q h p m = (Err (MailboxFull h), m)"
  using assms by (simp add: mailbox_ok_def mailbox_publish_def)

lemma saturating_add_of_nat:
  "n < 2 ^ LENGTH('a) - 1 \<Longrightarrow> saturating_add (of_nat n :: 'a::len word) 1 = of_nat (Suc n)"
proof -
  assume n: "n < 2 ^ LENGTH('a) - 1"
  then have "unat (of_nat n :: 'a word) = n"
    by (simp add: unsigned_of_nat take_bit_nat_eq_self)
  then have "checked_add (of_nat n :: 'a word) 1 = Some (of_nat n + 1)"
    using n by (simp add: checked_add_def)
  then show ?thesis by (simp add: saturating_add_def)
qed

lemma drain_loop_all:
  assumes Q: "bounded_fifo Q contents capacity"
  shows "contents (mailbox_queue m) = fs \<Longrightarrow> length fs < fuel
    \<Longrightarrow> n + length fs < 2 ^ 64 - 1
    \<Longrightarrow> \<exists>m'. drain_loop Q fuel (of_nat n) acc m
          = (Some (of_nat (n + length fs), acc @ fs), m')
        \<and> contents (mailbox_queue m') = []
        \<and> capacity (mailbox_queue m') = capacity (mailbox_queue m)
        \<and> mailbox_admitted m' = mailbox_admitted m - of_nat (length fs)
        \<and> mailbox_next_sequence m' = mailbox_next_sequence m
        \<and> mailbox_wake_state m' = mailbox_wake_state m"
proof (induction fs arbitrary: fuel n acc m)
  case Nil
  then obtain k where "fuel = Suc k" using less_imp_Suc_add by auto
  with Nil fifo_pop_empty [OF Q] show ?case by simp
next
  case (Cons f fs)
  from Cons.prems(2) obtain k where k: "fuel = Suc k" "length fs < k"
    by (cases fuel) auto
  obtain q' where q': "q_pop Q (mailbox_queue m) = (Some f, q')" "contents q' = fs"
      "capacity q' = capacity (mailbox_queue m)"
    using fifo_pop [OF Q Cons.prems(1)] by blast
  let ?m = "m\<lparr> mailbox_queue := q', mailbox_admitted := mailbox_admitted m - 1 \<rparr>"
  have sat: "saturating_add (of_nat n :: usize) 1 = of_nat (Suc n)"
    using Cons.prems(3) by (intro saturating_add_of_nat) simp
  have "contents (mailbox_queue ?m) = fs" "Suc n + length fs < 2 ^ 64 - 1"
    using q' Cons.prems(3) by auto
  from Cons.IH [OF this(1) k(2) this(2), of "acc @ [f]"] q' k sat
  show ?case by (auto simp: algebra_simps)
qed

lemma drain_all:
  assumes Q: "bounded_fifo Q contents capacity" and ok: "mailbox_ok contents capacity m"
  obtains m' where
    "mailbox_drain Q m = (Ok (of_nat (length (contents (mailbox_queue m))),
       contents (mailbox_queue m)), m')"
    "contents (mailbox_queue m') = []" "mailbox_ok contents capacity m'"
    "mailbox_wake_state m' = (if mailbox_wake_state m = NOTIFIED then ACTIVE
       else mailbox_wake_state m)"
    "mailbox_next_sequence m' = mailbox_next_sequence m"
proof -
  let ?fs = "contents (mailbox_queue m)"
  have small: "length ?fs \<le> 1024"
    using ok by (simp add: mailbox_ok_def ACTOR_MAILBOX_CAPACITY_def)
  then have len: "unat (q_len Q (mailbox_queue m)) = length ?fs"
    using fifo_len [OF Q, of "mailbox_queue m"]
    by (simp add: unsigned_of_nat take_bit_nat_eq_self)
  from drain_loop_all [OF Q refl, where n = 0 and acc = "[]" and m = m
      and fuel = "Suc (unat (q_len Q (mailbox_queue m)))"] small len
  obtain m1 where m1: "drain_loop Q (Suc (unat (q_len Q (mailbox_queue m)))) 0 [] m
          = (Some (of_nat (length ?fs), ?fs), m1)"
      "contents (mailbox_queue m1) = []" "capacity (mailbox_queue m1) = capacity (mailbox_queue m)"
      "mailbox_admitted m1 = mailbox_admitted m - of_nat (length ?fs)"
      "mailbox_next_sequence m1 = mailbox_next_sequence m"
      "mailbox_wake_state m1 = mailbox_wake_state m"
    by auto
  let ?m = "if mailbox_wake_state m = NOTIFIED then m1\<lparr> mailbox_wake_state := ACTIVE \<rparr> else m1"
  show ?thesis
    by (rule that [of ?m])
      (use m1 ok fifo_is_empty [OF Q] in \<open>auto simp: mailbox_drain_def mailbox_ok_def\<close>)
qed

end
