(* ===== verification/Actor_Directory.thy ===== *)
theory Actor_Directory
  imports Actor_Mailbox Ordered_Map
begin

text \<open>
  The generational store of actors, \<open>runtime/vm/actor_directory.rs\<close> with
  \<open>actor_directory/transfer.rs\<close> and \<open>actor_directory/migration.rs\<close>: slots with a
  generation and an optional cell, the index from process identities to slots, the free
  slots, and every operation on them. The state word of a cell is changed through
  \<open>compare_exchange\<close>, as in the code; within one call nothing else runs, so the exchange
  succeeds, and the branches for a lost race are kept. The interleaving of several
  schedulers on one word is the subject of theory Ownership_Race. The transition history
  is a unit struct outside test builds and is left out.
\<close>

section \<open>Data\<close>

record ('t, 'q) VmActorCell =
  cell_handle :: VmActorHandle
  cell_state :: u64
  cell_lookup_pins :: u32
  cell_mailbox :: "'q VmActorMailbox"
  cell_value :: 't

record ('t, 'q) VmActorSlot =
  slot_generation :: u64
  slot_cell :: "('t, 'q) VmActorCell option"

record ('t, 'q) VmActorDirectory =
  dir_slots :: "('t, 'q) VmActorSlot list"
  dir_free_slots :: "u32 list"
  dir_actor_slots :: "(VmProcessId, u32) btree"

record VmActorMigrationStamp =
  stamp_handle :: VmActorHandle
  stamp_owner_generation :: u64

definition cell_new :: "('q, 'p VmPublishedFragment) queue_ops \<Rightarrow> VmActorHandle \<Rightarrow> 't
    \<Rightarrow> ('t, 'q) VmActorCell" where
  "cell_new Q handle value =
     \<lparr> cell_handle = handle, cell_state = pack_state Yielding (handle_generation handle) 0 0,
       cell_lookup_pins = 0, cell_mailbox = mailbox_default Q, cell_value = value \<rparr>"

definition cell_load :: "('t, 'q) VmActorCell \<Rightarrow> (VmActorDirectoryError, VmActorState) outcome" where
  "cell_load c = unpack_state (cell_state c)"

definition validate_token :: "('t, 'q) VmActorCell \<Rightarrow> VmActorMutatorToken
    \<Rightarrow> (VmActorDirectoryError, unit) outcome" where
  "validate_token c token = bind_out (cell_load c) (\<lambda>state.
     if st_lifecycle state \<noteq> token_lifecycle token
        \<or> st_owner state \<noteq> token_owner token
        \<or> st_owner_generation state \<noteq> token_owner_generation token
        \<or> st_actor_generation state \<noteq> handle_generation (token_handle token)
     then Err StaleMutator else Ok ())"

definition dir_default :: "('t, 'q) VmActorDirectory" where
  "dir_default = \<lparr> dir_slots = [], dir_free_slots = [], dir_actor_slots = [] \<rparr>"

section \<open>Resolution of identities and handles\<close>

text \<open>
  A resolved cell comes with the index of its slot, so that an operation can write it
  back: the reference \<open>&VmActorCell\<close> of the code.
\<close>

definition dir_cell :: "('t, 'q) VmActorDirectory \<Rightarrow> VmProcessId
    \<Rightarrow> (VmActorDirectoryError, nat \<times> ('t, 'q) VmActorCell) outcome" where
  "dir_cell d pid = (case bt_get (dir_actor_slots d) pid of
     None \<Rightarrow> Err (MissingActor pid)
   | Some slot \<Rightarrow>
       if unat slot < length (dir_slots d) then
         (case slot_cell (dir_slots d ! unat slot) of
            None \<Rightarrow> Err (MissingActor pid)
          | Some c \<Rightarrow> Ok (unat slot, c))
       else Panic ''index out of bounds'')"

definition dir_cell_for_handle :: "('t, 'q) VmActorDirectory \<Rightarrow> VmActorHandle
    \<Rightarrow> (VmActorDirectoryError, nat \<times> ('t, 'q) VmActorCell) outcome" where
  "dir_cell_for_handle d handle =
     (if unat (handle_slot handle) < length (dir_slots d) then
        (case slot_cell (dir_slots d ! unat (handle_slot handle)) of
           None \<Rightarrow> Err (StaleHandle handle)
         | Some c \<Rightarrow> if cell_handle c \<noteq> handle then Err (StaleHandle handle)
                     else Ok (unat (handle_slot handle), c))
      else Err (StaleHandle handle))"

definition dir_put_cell :: "nat \<Rightarrow> ('t, 'q) VmActorCell \<Rightarrow> ('t, 'q) VmActorDirectory
    \<Rightarrow> ('t, 'q) VmActorDirectory" where
  "dir_put_cell i c d =
     d\<lparr> dir_slots := (dir_slots d)[i := (dir_slots d ! i)\<lparr> slot_cell := Some c \<rparr>] \<rparr>"

definition compare_exchange :: "u64 \<Rightarrow> u64 \<Rightarrow> u64 \<Rightarrow> (u64, u64) outcome \<times> u64" where
  "compare_exchange expected desired current =
     (if current = expected then (Ok current, desired) else (Err current, current))"

definition dir_exchange :: "nat \<Rightarrow> ('t, 'q) VmActorCell \<Rightarrow> u64 \<Rightarrow> u64
    \<Rightarrow> (('t, 'q) VmActorDirectory, u64, u64) stateful" where
  "dir_exchange i c before_word after_word d =
     (case compare_exchange before_word after_word (cell_state c) of
        (r, word) \<Rightarrow> (r, dir_put_cell i (c\<lparr> cell_state := word \<rparr>) d))"

section \<open>Lookups\<close>

text \<open>
  A lookup that finds an index outside the slots panics in the code; the invariant
  \<open>dir_ok\<close> below excludes it, and the lookups returning an option answer \<open>None\<close> there.
\<close>

definition dir_contains :: "('t, 'q) VmActorDirectory \<Rightarrow> VmProcessId \<Rightarrow> bool" where
  "dir_contains d pid = bt_contains (dir_actor_slots d) pid"

definition dir_get :: "('t, 'q) VmActorDirectory \<Rightarrow> VmProcessId \<Rightarrow> 't option" where
  "dir_get d pid = (case dir_cell d pid of Ok (i, c) \<Rightarrow> Some (cell_value c) | _ \<Rightarrow> None)"

definition dir_iter :: "('t, 'q) VmActorDirectory \<Rightarrow> (VmProcessId \<times> 't) list" where
  "dir_iter d = concat (map (\<lambda>(pid, slot).
     case nth_opt (dir_slots d) (unat slot) of
       None \<Rightarrow> []
     | Some entry \<Rightarrow> (case slot_cell entry of
         None \<Rightarrow> [] | Some c \<Rightarrow> [(pid, cell_value c)])) (dir_actor_slots d))"

definition dir_values :: "('t, 'q) VmActorDirectory \<Rightarrow> 't list" where
  "dir_values d = map snd (dir_iter d)"

definition dir_lifecycle :: "('t, 'q) VmActorDirectory \<Rightarrow> VmProcessId
    \<Rightarrow> (VmActorDirectoryError, VmActorLifecycle) outcome" where
  "dir_lifecycle d pid = bind_out (dir_cell d pid) (\<lambda>(i, c).
     bind_out (cell_load c) (\<lambda>state. Ok (st_lifecycle state)))"

text \<open>\<open>get_mut_unowned\<close>, with what the caller does to the borrowed value.\<close>

definition dir_get_mut_unowned :: "('t, 'q) VmActorDirectory \<Rightarrow> VmProcessId \<Rightarrow> 't option" where
  "dir_get_mut_unowned d pid = (case dir_cell d pid of
     Ok (i, c) \<Rightarrow> (case cell_load c of
        Ok state \<Rightarrow> if st_owner state = 0 \<and> st_lifecycle state \<noteq> Reclaimed
                    then Some (cell_value c) else None
      | _ \<Rightarrow> None)
   | _ \<Rightarrow> None)"

definition dir_set_value :: "VmProcessId \<Rightarrow> 't \<Rightarrow> ('t, 'q) VmActorDirectory
    \<Rightarrow> ('t, 'q) VmActorDirectory" where
  "dir_set_value pid value d = (case dir_cell d pid of
     Ok (i, c) \<Rightarrow> dir_put_cell i (c\<lparr> cell_value := value \<rparr>) d
   | _ \<Rightarrow> d)"

section \<open>Insertion\<close>

definition dir_take_slot :: "(('t, 'q) VmActorDirectory, VmActorDirectoryError, u32) stateful" where
  "dir_take_slot d = (case vec_pop (dir_free_slots d) of
     Some (slot, free) \<Rightarrow> (Ok slot, d\<lparr> dir_free_slots := free \<rparr>)
   | None \<Rightarrow>
       if length (dir_slots d) < 2 ^ 32 then
         (Ok (of_nat (length (dir_slots d))),
          d\<lparr> dir_slots := dir_slots d @ [\<lparr> slot_generation = 0, slot_cell = None \<rparr>] \<rparr>)
       else (Err SlotCapacityExceeded, d))"

definition dir_occupy_slot :: "('q, 'p VmPublishedFragment) queue_ops \<Rightarrow> string
    \<Rightarrow> VmProcessId \<Rightarrow> 't \<Rightarrow> u32
    \<Rightarrow> (('t, 'q) VmActorDirectory, VmActorDirectoryError, VmActorHandle) stateful" where
  "dir_occupy_slot Q message pid value slot d =
     (if unat slot < length (dir_slots d) then
        let entry = dir_slots d ! unat slot;
            generation = next_generation (slot_generation entry);
            handle = \<lparr> handle_pid = pid, handle_slot = slot, handle_generation = generation \<rparr>;
            entry = \<lparr> slot_generation = generation, slot_cell = Some (cell_new Q handle value) \<rparr>
        in (Ok handle, d\<lparr> dir_slots := (dir_slots d)[unat slot := entry],
              dir_actor_slots := bt_insert pid slot (dir_actor_slots d) \<rparr>)
      else (Panic message, d))"

definition dir_insert :: "('q, 'p VmPublishedFragment) queue_ops \<Rightarrow> VmProcessId \<Rightarrow> 't
    \<Rightarrow> (('t, 'q) VmActorDirectory, VmActorDirectoryError, VmActorHandle) stateful" where
  "dir_insert Q pid value d =
     (if bt_contains (dir_actor_slots d) pid then
        (bind_out (dir_lifecycle d pid) (\<lambda>lifecycle. Err (InvalidTransition lifecycle Yielding)), d)
      else bind_st dir_take_slot
             (dir_occupy_slot Q ''allocated actor slot exists'' pid value) d)"

section \<open>Lifecycle transitions\<close>

definition dir_transition_unowned :: "VmProcessId \<Rightarrow> VmActorLifecycle list \<Rightarrow> VmActorLifecycle
    \<Rightarrow> (('t, 'q) VmActorDirectory, VmActorDirectoryError, unit) stateful" where
  "dir_transition_unowned pid allowed next d =
     bind_st (read_st (\<lambda>d. dir_cell d pid)) (\<lambda>(i, c).
       let before_word = cell_state c in
       bind_st (read_st (\<lambda>_. unpack_state before_word)) (\<lambda>before d.
         if st_owner before \<noteq> 0 then
           (Err (AlreadyOwned (st_owner before) (st_owner_generation before)), d)
         else if st_lifecycle before \<notin> set allowed then
           (Err (InvalidTransition (st_lifecycle before) next), d)
         else
           let after_word = pack_state next (st_actor_generation before)
                 (st_owner_generation before) 0
           in bind_st (map_err_st ownership_race_error (dir_exchange i c before_word after_word))
                (\<lambda>_. return_st ()) d)) d"

definition dir_enqueue_notified_parked :: "VmProcessId
    \<Rightarrow> (('t, 'q) VmActorDirectory, VmActorDirectoryError, bool) stateful" where
  "dir_enqueue_notified_parked pid d =
     bind_st (read_st (\<lambda>d. dir_cell d pid)) (\<lambda>(i, c).
       let before_word = cell_state c in
       bind_st (read_st (\<lambda>_. unpack_state before_word)) (\<lambda>before d.
         if st_lifecycle before \<noteq> Parked \<or> st_owner before \<noteq> 0 then (Ok False, d)
         else
           let after_word = pack_state Queued (st_actor_generation before)
                 (st_owner_generation before) 0
           in case dir_exchange i c before_word after_word d of
                (Ok _, d') \<Rightarrow> (Ok True, d')
              | (Err observed, d') \<Rightarrow>
                  (bind_out (unpack_state observed) (\<lambda>observed.
                     Ok (st_lifecycle observed = Queued \<and> st_owner observed = 0)), d')
              | (Panic message, d') \<Rightarrow> (Panic message, d'))) d"

definition dir_mark_queued :: "VmProcessId
    \<Rightarrow> (('t, 'q) VmActorDirectory, VmActorDirectoryError, unit) stateful" where
  "dir_mark_queued pid =
     bind_st (read_st (\<lambda>d. dir_lifecycle d pid)) (\<lambda>lifecycle.
       if lifecycle = Queued then return_st ()
       else dir_transition_unowned pid [Yielding, Parked] Queued)"

definition dir_mark_exiting :: "VmProcessId
    \<Rightarrow> (('t, 'q) VmActorDirectory, VmActorDirectoryError, unit) stateful" where
  "dir_mark_exiting pid =
     bind_st (read_st (\<lambda>d. dir_lifecycle d pid)) (\<lambda>lifecycle.
       if lifecycle = Exiting then return_st ()
       else dir_transition_unowned pid [Queued, Yielding, Parked, Migrating] Exiting)"

definition dir_begin_migration :: "VmProcessId
    \<Rightarrow> (('t, 'q) VmActorDirectory, VmActorDirectoryError, unit) stateful" where
  "dir_begin_migration pid = dir_transition_unowned pid [Queued, Yielding, Parked] Migrating"

definition dir_finish_migration :: "VmProcessId
    \<Rightarrow> (('t, 'q) VmActorDirectory, VmActorDirectoryError, unit) stateful" where
  "dir_finish_migration pid = dir_transition_unowned pid [Migrating] Yielding"

definition dir_finish_migration_as :: "VmProcessId \<Rightarrow> VmActorLifecycle
    \<Rightarrow> (('t, 'q) VmActorDirectory, VmActorDirectoryError, VmActorLifecycle) stateful" where
  "dir_finish_migration_as pid lifecycle d =
     (if lifecycle \<notin> {Queued, Yielding, Parked} then
        (Err (InvalidTransition Migrating lifecycle), d)
      else
        let restored = (if lifecycle = Queued then Yielding else lifecycle) in
        bind_st (dir_transition_unowned pid [Migrating] restored) (\<lambda>_.
          if lifecycle \<in> {Queued, Yielding} then
            bind_st (dir_mark_queued pid) (\<lambda>_. return_st Queued)
          else bind_st (read_st (\<lambda>d. dir_cell d pid)) (\<lambda>(i, c).
            if mailbox_is_notified (cell_mailbox c) then
              bind_st (dir_enqueue_notified_parked pid) (\<lambda>_. return_st Queued)
            else return_st Parked)) d)"

definition dir_migration_stamp :: "('t, 'q) VmActorDirectory \<Rightarrow> VmProcessId
    \<Rightarrow> (VmActorDirectoryError, VmActorMigrationStamp) outcome" where
  "dir_migration_stamp d pid = bind_out (dir_cell d pid) (\<lambda>(i, c).
     bind_out (cell_load c) (\<lambda>state.
       if st_lifecycle state \<noteq> Migrating \<or> st_owner state \<noteq> 0 then
         Err (InvalidTransition (st_lifecycle state) Migrating)
       else Ok \<lparr> stamp_handle = cell_handle c,
                 stamp_owner_generation = st_owner_generation state \<rparr>))"

definition dir_mark_retired :: "VmProcessId
    \<Rightarrow> (('t, 'q) VmActorDirectory, VmActorDirectoryError, unit) stateful" where
  "dir_mark_retired pid = dir_transition_unowned pid [Exiting] Retired"

section \<open>Ownership of the mutable state\<close>

definition dir_acquire_mutator :: "VmProcessId \<Rightarrow> u64
    \<Rightarrow> (('t, 'q) VmActorDirectory, VmActorDirectoryError, VmActorMutatorToken) stateful" where
  "dir_acquire_mutator pid owner d =
     (if owner = 0 \<or> GENERATION_MASK < owner then (Err (InvalidOwner owner), d)
      else
       bind_st (read_st (\<lambda>d. dir_cell d pid)) (\<lambda>(i, c).
        let before_word = cell_state c in
        bind_st (read_st (\<lambda>_. unpack_state before_word)) (\<lambda>before d.
         if st_owner before \<noteq> 0 \<or> st_lifecycle before = Executing then
           (Err (AlreadyOwned (st_owner before) (st_owner_generation before)), d)
         else if st_lifecycle before \<noteq> Queued then
           (Err (InvalidTransition (st_lifecycle before) Executing), d)
         else
           let owner_generation = next_generation (st_owner_generation before);
               after_word = pack_state Executing (st_actor_generation before)
                 owner_generation owner
           in bind_st (map_err_st ownership_race_error (dir_exchange i c before_word after_word))
                (\<lambda>_. return_st \<lparr> token_handle = cell_handle c, token_owner = owner,
                   token_owner_generation = owner_generation, token_lifecycle = Executing \<rparr>) d)) d)"

definition dir_acquire_control_mutator :: "VmProcessId \<Rightarrow> u64
    \<Rightarrow> (('t, 'q) VmActorDirectory, VmActorDirectoryError, VmActorMutatorToken) stateful" where
  "dir_acquire_control_mutator pid owner d =
     (if owner = 0 \<or> GENERATION_MASK < owner then (Err (InvalidOwner owner), d)
      else
       bind_st (read_st (\<lambda>d. dir_cell d pid)) (\<lambda>(i, c).
        let before_word = cell_state c in
        bind_st (read_st (\<lambda>_. unpack_state before_word)) (\<lambda>before d.
         if st_owner before \<noteq> 0 \<or> st_lifecycle before = Executing then
           (Err (AlreadyOwned (st_owner before) (st_owner_generation before)), d)
         else if st_lifecycle before \<in> {Migrating, Reclaimed} then
           (Err (InvalidTransition (st_lifecycle before) (st_lifecycle before)), d)
         else
           let owner_generation = next_generation (st_owner_generation before);
               after_word = pack_state (st_lifecycle before) (st_actor_generation before)
                 owner_generation owner
           in bind_st (map_err_st ownership_race_error (dir_exchange i c before_word after_word))
                (\<lambda>_. return_st \<lparr> token_handle = cell_handle c, token_owner = owner,
                   token_owner_generation = owner_generation,
                   token_lifecycle = st_lifecycle before \<rparr>) d)) d)"

definition dir_with_mutator :: "VmActorMutatorToken \<Rightarrow> ('t \<Rightarrow> 'r \<times> 't)
    \<Rightarrow> (('t, 'q) VmActorDirectory, VmActorDirectoryError, 'r) stateful" where
  "dir_with_mutator token mutate =
     bind_st (read_st (\<lambda>d. dir_cell_for_handle d (token_handle token))) (\<lambda>(i, c).
       bind_st (read_st (\<lambda>_. validate_token c token)) (\<lambda>_ d.
         case mutate (cell_value c) of
           (r, value) \<Rightarrow> (Ok r, dir_put_cell i (c\<lparr> cell_value := value \<rparr>) d)))"

definition dir_release_mutator :: "('q, 'p VmPublishedFragment) queue_ops
    \<Rightarrow> VmActorMutatorToken \<Rightarrow> VmActorLifecycle
    \<Rightarrow> (('t, 'q) VmActorDirectory, VmActorDirectoryError, VmActorLifecycle) stateful" where
  "dir_release_mutator Q token next d =
     (if next \<notin> {Yielding, Parked, Exiting} then (Err (InvalidTransition Executing next), d)
      else
       bind_st (read_st (\<lambda>d. dir_cell_for_handle d (token_handle token))) (\<lambda>(i, c).
        bind_st (read_st (\<lambda>_. validate_token c token)) (\<lambda>_.
         let (park_ready, mailbox) = (if next \<noteq> Parked then (True, cell_mailbox c)
                else mailbox_prepare_park Q (cell_mailbox c));
             c = c\<lparr> cell_mailbox := mailbox \<rparr>;
             released = (if park_ready then next else Yielding);
             before_word = cell_state c
         in bind_st (\<lambda>d. (unpack_state before_word, dir_put_cell i c d)) (\<lambda>state.
              let after_word = pack_state released (st_actor_generation state)
                    (st_owner_generation state) 0
              in bind_st (map_err_st (\<lambda>_. StaleMutator) (dir_exchange i c before_word after_word))
                  (\<lambda>_. if released = Parked \<and> mailbox_is_notified (cell_mailbox c) then
                          bind_st (dir_enqueue_notified_parked (handle_pid (token_handle token)))
                            (\<lambda>_. return_st Queued)
                        else return_st released)))) d)"

definition dir_release_control_mutator :: "VmActorMutatorToken
    \<Rightarrow> (('t, 'q) VmActorDirectory, VmActorDirectoryError, unit) stateful" where
  "dir_release_control_mutator token =
     bind_st (read_st (\<lambda>d. dir_cell_for_handle d (token_handle token))) (\<lambda>(i, c).
       bind_st (read_st (\<lambda>_. validate_token c token)) (\<lambda>_.
         let before_word = cell_state c in
         bind_st (read_st (\<lambda>_. unpack_state before_word)) (\<lambda>state.
           let after_word = pack_state (token_lifecycle token) (st_actor_generation state)
                 (st_owner_generation state) 0
           in bind_st (map_err_st (\<lambda>_. StaleMutator) (dir_exchange i c before_word after_word))
                (\<lambda>_. return_st ()))))"

section \<open>Publication and integration\<close>

definition dir_publish_fragment :: "('q, 'p VmPublishedFragment) queue_ops \<Rightarrow> VmProcessId \<Rightarrow> 'p
    \<Rightarrow> (('t, 'q) VmActorDirectory, VmActorDirectoryError,
        VmActorPublication \<times> VmMailboxWake) stateful" where
  "dir_publish_fragment Q pid payload =
     bind_st (read_st (\<lambda>d. dir_cell d pid)) (\<lambda>(i, c).
       bind_st (read_st (\<lambda>_. cell_load c)) (\<lambda>state.
         if st_lifecycle state \<in> {Exiting, Retired, Reclaimed} then
           read_st (\<lambda>_. Err (InvalidTransition (st_lifecycle state) (st_lifecycle state)))
         else bind_st (\<lambda>d. case mailbox_publish Q (cell_handle c) payload (cell_mailbox c) of
                (r, mailbox) \<Rightarrow> (r, dir_put_cell i (c\<lparr> cell_mailbox := mailbox \<rparr>) d))
              (\<lambda>publication. if snd publication = Enqueue then
                  bind_st (dir_enqueue_notified_parked pid) (\<lambda>_. return_st publication)
                else return_st publication)))"

text \<open>
  \<open>drain_publications\<close> hands each fragment to the callback that integrates it into the
  value of the actor, \<open>drain_payloads\<close> returns them.
\<close>

definition dir_drain_publications :: "('q, 'p VmPublishedFragment) queue_ops
    \<Rightarrow> VmActorMutatorToken \<Rightarrow> (VmActorPublication \<Rightarrow> 'p \<Rightarrow> 't \<Rightarrow> 't)
    \<Rightarrow> (('t, 'q) VmActorDirectory, VmActorDirectoryError, usize) stateful" where
  "dir_drain_publications Q token integrate =
     bind_st (read_st (\<lambda>d. dir_cell_for_handle d (token_handle token))) (\<lambda>(i, c).
       bind_st (read_st (\<lambda>_. validate_token c token)) (\<lambda>_ d.
         case mailbox_drain Q (cell_mailbox c) of
           (Ok (drained, fragments), mailbox) \<Rightarrow>
             (Ok drained, dir_put_cell i
                (c\<lparr> cell_mailbox := mailbox,
                    cell_value := fold (\<lambda>f. integrate (fragment_publication f)
                      (fragment_payload f)) fragments (cell_value c) \<rparr>) d)
         | (Err e, mailbox) \<Rightarrow> (Err e, dir_put_cell i (c\<lparr> cell_mailbox := mailbox \<rparr>) d)
         | (Panic p, mailbox) \<Rightarrow> (Panic p, dir_put_cell i (c\<lparr> cell_mailbox := mailbox \<rparr>) d)))"

definition dir_drain_payloads :: "('q, 'p VmPublishedFragment) queue_ops
    \<Rightarrow> VmActorMutatorToken
    \<Rightarrow> (('t, 'q) VmActorDirectory, VmActorDirectoryError, (VmActorPublication \<times> 'p) list) stateful"
  where
  "dir_drain_payloads Q token =
     bind_st (read_st (\<lambda>d. dir_cell_for_handle d (token_handle token))) (\<lambda>(i, c).
       bind_st (read_st (\<lambda>_. validate_token c token)) (\<lambda>_ d.
         case mailbox_drain Q (cell_mailbox c) of
           (r, mailbox) \<Rightarrow>
             (bind_out r (\<lambda>(drained, fragments). Ok
                (map (\<lambda>f. (fragment_publication f, fragment_payload f)) fragments)),
              dir_put_cell i (c\<lparr> cell_mailbox := mailbox \<rparr>) d)))"

definition dir_activate_mailbox :: "VmProcessId
    \<Rightarrow> (('t, 'q) VmActorDirectory, VmActorDirectoryError, unit) stateful" where
  "dir_activate_mailbox pid =
     bind_st (read_st (\<lambda>d. dir_cell d pid)) (\<lambda>(i, c) d.
       (Ok (), dir_put_cell i (c\<lparr> cell_mailbox := mailbox_activate (cell_mailbox c) \<rparr>) d))"

section \<open>Removal and transfer\<close>

definition dir_reclaim :: "VmProcessId
    \<Rightarrow> (('t, 'q) VmActorDirectory, VmActorDirectoryError, 't) stateful" where
  "dir_reclaim pid =
     bind_st (read_st (\<lambda>d. dir_cell d pid)) (\<lambda>(i, c).
       bind_st (read_st (\<lambda>_. cell_load c)) (\<lambda>state d.
         let handle = cell_handle c; pins = cell_lookup_pins c; at = unat (handle_slot handle) in
         if st_lifecycle state \<noteq> Retired then
           (Err (InvalidTransition (st_lifecycle state) Reclaimed), d)
         else if pins \<noteq> 0 then (Err (LookupPinned pins), d)
         else
           let d = d\<lparr> dir_actor_slots := bt_remove pid (dir_actor_slots d) \<rparr> in
           if at < length (dir_slots d) then
             (case slot_cell (dir_slots d ! at) of
                None \<Rightarrow> (Panic ''resolved actor cell exists'', d)
              | Some taken \<Rightarrow> (Ok (cell_value taken),
                  d\<lparr> dir_slots := (dir_slots d)[at := (dir_slots d ! at)\<lparr> slot_cell := None \<rparr>],
                      dir_free_slots := dir_free_slots d @ [handle_slot handle] \<rparr>))
           else (Panic ''resolved actor slot exists'', d)))"

definition dir_detach_for_transfer :: "('q, 'p VmPublishedFragment) queue_ops \<Rightarrow> VmProcessId
    \<Rightarrow> (('t, 'q) VmActorDirectory, VmActorDirectoryError, 't) stateful" where
  "dir_detach_for_transfer Q pid =
     bind_st (read_st (\<lambda>d. dir_cell d pid)) (\<lambda>(i, c).
       bind_st (read_st (\<lambda>_. cell_load c)) (\<lambda>state.
         let pins = cell_lookup_pins c; pending = mailbox_len Q (cell_mailbox c) in
         if st_owner state \<noteq> 0 then
           read_st (\<lambda>_. Err (AlreadyOwned (st_owner state) (st_owner_generation state)))
         else if st_lifecycle state \<notin> {Queued, Yielding, Parked, Migrating} then
           read_st (\<lambda>_. Err (InvalidTransition (st_lifecycle state) Migrating))
         else if pins \<noteq> 0 then read_st (\<lambda>_. Err (LookupPinned pins))
         else if pending \<noteq> 0 then read_st (\<lambda>_. Err (TransferMailboxNotDrained (unat pending)))
         else bind_st (if st_lifecycle state \<noteq> Migrating
                  then dir_transition_unowned pid [Queued, Yielding, Parked] Migrating
                  else return_st ()) (\<lambda>_ d.
           case bt_get (dir_actor_slots d) pid of
             None \<Rightarrow> (Panic ''validated actor retains its directory slot'', d)
           | Some slot_index \<Rightarrow>
               let d = d\<lparr> dir_actor_slots := bt_remove pid (dir_actor_slots d) \<rparr>;
                   at = unat slot_index
               in if at < length (dir_slots d) then
                    (case slot_cell (dir_slots d ! at) of
                       None \<Rightarrow> (Panic ''validated actor cell remains allocated'', d)
                     | Some taken \<Rightarrow> (Ok (cell_value taken),
                         d\<lparr> dir_slots := (dir_slots d)[at := (dir_slots d ! at)\<lparr> slot_cell := None \<rparr>],
                             dir_free_slots := dir_free_slots d @ [slot_index] \<rparr>))
                  else (Panic ''validated actor slot remains allocated'', d))))"

text \<open>A rejected import gives the value back with the error.\<close>

definition dir_import_transferred :: "('q, 'p VmPublishedFragment) queue_ops \<Rightarrow> VmProcessId \<Rightarrow> 't
    \<Rightarrow> (('t, 'q) VmActorDirectory, VmActorDirectoryError \<times> 't, VmActorHandle) stateful" where
  "dir_import_transferred Q pid value d =
     (if bt_contains (dir_actor_slots d) pid then
        (bind_out (expect ''indexed destination actor has a readable lifecycle'' (dir_lifecycle d pid))
           (\<lambda>lifecycle. Err (InvalidTransition lifecycle Yielding, value)), d)
      else map_err_st (\<lambda>e. (e, value))
             (bind_st dir_take_slot
               (dir_occupy_slot Q ''reserved destination actor slot exists'' pid value)) d)"

section \<open>The invariant\<close>

text \<open>
  A cell is well formed when its word decodes, carries the generation of its handle, and
  its mailbox counts its fragments. The directory is well formed when the index and the
  occupied slots name each other with the current generation, and the free slots are the
  empty ones.
\<close>

definition cell_ok :: "('q \<Rightarrow> 'f list) \<Rightarrow> ('q \<Rightarrow> nat) \<Rightarrow> ('t, 'q) VmActorCell \<Rightarrow> bool" where
  "cell_ok contents capacity c \<longleftrightarrow>
     (\<exists>s. cell_load c = Ok s \<and> st_actor_generation s = handle_generation (cell_handle c))
   \<and> mailbox_ok contents capacity (cell_mailbox c)"

definition slot_entry_ok :: "('t, 'q) VmActorSlot list \<Rightarrow> VmProcessId \<Rightarrow> u32 \<Rightarrow> bool" where
  "slot_entry_ok slots pid slot \<longleftrightarrow>
     unat slot < length slots
   \<and> (\<exists>c. slot_cell (slots ! unat slot) = Some c
        \<and> cell_handle c = \<lparr> handle_pid = pid, handle_slot = slot,
             handle_generation = slot_generation (slots ! unat slot) \<rparr>)"

definition dir_index_ok :: "('t, 'q) VmActorDirectory \<Rightarrow> bool" where
  "dir_index_ok d \<longleftrightarrow>
     (\<forall>pid slot. bt_get (dir_actor_slots d) pid = Some slot \<longrightarrow> slot_entry_ok (dir_slots d) pid slot)"

definition dir_slots_ok :: "('q \<Rightarrow> 'f list) \<Rightarrow> ('q \<Rightarrow> nat) \<Rightarrow> ('t, 'q) VmActorDirectory \<Rightarrow> bool" where
  "dir_slots_ok contents capacity d \<longleftrightarrow>
     (\<forall>i c. i < length (dir_slots d) \<longrightarrow> slot_cell (dir_slots d ! i) = Some c \<longrightarrow>
        bt_get (dir_actor_slots d) (handle_pid (cell_handle c)) = Some (of_nat i)
      \<and> cell_ok contents capacity c)"

definition dir_ok :: "('q \<Rightarrow> 'f list) \<Rightarrow> ('q \<Rightarrow> nat) \<Rightarrow> ('t, 'q) VmActorDirectory \<Rightarrow> bool" where
  "dir_ok contents capacity d \<longleftrightarrow>
     bt_ok (dir_actor_slots d)
   \<and> length (dir_slots d) \<le> 2 ^ 32
   \<and> dir_index_ok d
   \<and> dir_slots_ok contents capacity d
   \<and> distinct (dir_free_slots d)
   \<and> (\<forall>slot \<in> set (dir_free_slots d).
        unat slot < length (dir_slots d) \<and> slot_cell (dir_slots d ! unat slot) = None)"

text \<open>The directory as the map it implements: the cell of each identity it resolves.\<close>

definition dir_find :: "('t, 'q) VmActorDirectory \<Rightarrow> VmProcessId \<Rightarrow> ('t, 'q) VmActorCell option" where
  "dir_find d pid = (case dir_cell d pid of Ok (i, c) \<Rightarrow> Some c | _ \<Rightarrow> None)"

definition dir_write :: "('t, 'q) VmActorCell \<Rightarrow> ('t, 'q) VmActorDirectory \<Rightarrow> ('t, 'q) VmActorDirectory"
  where "dir_write c = dir_put_cell (unat (handle_slot (cell_handle c))) c"

section \<open>Lookup laws\<close>

lemma dir_index_slot:
  assumes "dir_index_ok d" "bt_get (dir_actor_slots d) pid = Some slot"
  obtains c where "unat slot < length (dir_slots d)" "slot_cell (dir_slots d ! unat slot) = Some c"
    "cell_handle c = \<lparr> handle_pid = pid, handle_slot = slot,
       handle_generation = slot_generation (dir_slots d ! unat slot) \<rparr>"
  using assms unfolding dir_index_ok_def slot_entry_ok_def by blast

lemma slot_entry_ok_update [simp]:
  "i \<noteq> unat slot \<Longrightarrow> slot_entry_ok (slots[i := e]) pid slot = slot_entry_ok slots pid slot"
  by (simp add: slot_entry_ok_def)

lemma dir_cell_cong:
  "dir_slots d = dir_slots d' \<Longrightarrow> dir_actor_slots d = dir_actor_slots d' \<Longrightarrow> dir_cell d = dir_cell d'"
  unfolding dir_cell_def by (simp only:)

lemma dir_find_Some_iff:
  "dir_index_ok d \<Longrightarrow> dir_find d pid = Some c \<longleftrightarrow>
     (\<exists>slot. bt_get (dir_actor_slots d) pid = Some slot
        \<and> slot_cell (dir_slots d ! unat slot) = Some c)"
  by (auto simp: dir_find_def dir_cell_def split: option.splits elim: dir_index_slot)

lemma dir_find_None_iff:
  "dir_index_ok d \<Longrightarrow> dir_find d pid = None \<longleftrightarrow> bt_get (dir_actor_slots d) pid = None"
  by (auto simp: dir_find_def dir_cell_def split: option.splits elim: dir_index_slot)

lemma dir_find_handle:
  assumes "dir_index_ok d" "dir_find d pid = Some c"
  shows "handle_pid (cell_handle c) = pid"
    and "bt_get (dir_actor_slots d) pid = Some (handle_slot (cell_handle c))"
    and "unat (handle_slot (cell_handle c)) < length (dir_slots d)"
    and "slot_cell (dir_slots d ! unat (handle_slot (cell_handle c))) = Some c"
    and "handle_generation (cell_handle c)
      = slot_generation (dir_slots d ! unat (handle_slot (cell_handle c)))"
proof -
  obtain slot where slot: "bt_get (dir_actor_slots d) pid = Some slot"
      "slot_cell (dir_slots d ! unat slot) = Some c"
    using assms by (auto simp: dir_find_Some_iff)
  obtain c' where "unat slot < length (dir_slots d)" "slot_cell (dir_slots d ! unat slot) = Some c'"
      "cell_handle c' = \<lparr> handle_pid = pid, handle_slot = slot,
         handle_generation = slot_generation (dir_slots d ! unat slot) \<rparr>"
    using dir_index_slot [OF assms(1) slot(1)] by blast
  with slot show "handle_pid (cell_handle c) = pid"
    "bt_get (dir_actor_slots d) pid = Some (handle_slot (cell_handle c))"
    "unat (handle_slot (cell_handle c)) < length (dir_slots d)"
    "slot_cell (dir_slots d ! unat (handle_slot (cell_handle c))) = Some c"
    "handle_generation (cell_handle c)
      = slot_generation (dir_slots d ! unat (handle_slot (cell_handle c)))"
    by auto
qed

lemma dir_cell_eq:
  assumes "dir_index_ok d"
  shows "dir_cell d pid = (case dir_find d pid of
     Some c \<Rightarrow> Ok (unat (handle_slot (cell_handle c)), c) | None \<Rightarrow> Err (MissingActor pid))"
proof (cases "dir_find d pid")
  case None
  then have "bt_get (dir_actor_slots d) pid = None" using assms by (simp add: dir_find_None_iff)
  with None show ?thesis by (simp add: dir_cell_def)
next
  case (Some c)
  then show ?thesis using dir_find_handle [OF assms Some] by (simp add: dir_cell_def)
qed

lemma dir_get_find: "dir_get d pid = map_option cell_value (dir_find d pid)"
  by (auto simp: dir_get_def dir_find_def split: outcome.splits)

lemma dir_contains_find: "dir_index_ok d \<Longrightarrow> dir_contains d pid = (dir_find d pid \<noteq> None)"
  by (simp add: dir_find_None_iff dir_contains_def bt_contains_def)

lemma dir_slots_find:
  assumes ok: "dir_index_ok d" "dir_slots_ok contents capacity d" "length (dir_slots d) \<le> 2 ^ 32"
    and i: "i < length (dir_slots d)" "slot_cell (dir_slots d ! i) = Some c"
  shows "dir_find d (handle_pid (cell_handle c)) = Some c" "unat (handle_slot (cell_handle c)) = i"
proof -
  have idx: "bt_get (dir_actor_slots d) (handle_pid (cell_handle c)) = Some (of_nat i)"
    using ok(2) i by (auto simp: dir_slots_ok_def)
  have "i < 2 ^ LENGTH(32)" using ok(3) i(1) by simp
  then have u: "unat (of_nat i :: u32) = i" by (simp add: unsigned_of_nat take_bit_nat_eq_self)
  show f: "dir_find d (handle_pid (cell_handle c)) = Some c"
    using idx u i by (auto simp: dir_find_Some_iff [OF ok(1)])
  show "unat (handle_slot (cell_handle c)) = i"
    using dir_find_handle(2) [OF ok(1) f] idx u by simp
qed

lemma dir_cell_for_handle_eq:
  assumes ok: "dir_index_ok d" "dir_slots_ok contents capacity d" "length (dir_slots d) \<le> 2 ^ 32"
  shows "dir_cell_for_handle d h = (case dir_find d (handle_pid h) of
     Some c \<Rightarrow> if cell_handle c = h then Ok (unat (handle_slot h), c) else Err (StaleHandle h)
   | None \<Rightarrow> Err (StaleHandle h))"
proof (cases "\<exists>c. dir_find d (handle_pid h) = Some c \<and> cell_handle c = h")
  case True
  then obtain c where c: "dir_find d (handle_pid h) = Some c" "cell_handle c = h" by blast
  then show ?thesis
    using dir_find_handle [OF ok(1) c(1)] by (simp add: dir_cell_for_handle_def)
next
  case False
  have "cell_handle c \<noteq> h"
    if "unat (handle_slot h) < length (dir_slots d)"
      "slot_cell (dir_slots d ! unat (handle_slot h)) = Some c" for c
    using dir_slots_find(1) [OF ok that] False by metis
  then have "dir_cell_for_handle d h = Err (StaleHandle h)"
    by (auto simp: dir_cell_for_handle_def split: option.splits)
  with False show ?thesis by (auto split: option.splits)
qed

lemma dir_ok_parts:
  assumes "dir_ok contents capacity d"
  shows "dir_index_ok d" "dir_slots_ok contents capacity d" "length (dir_slots d) \<le> 2 ^ 32"
    "bt_ok (dir_actor_slots d)"
  using assms by (simp_all add: dir_ok_def)

lemma dir_find_cell_ok:
  assumes "dir_ok contents capacity d" "dir_find d pid = Some c"
  shows "cell_ok contents capacity c"
  using dir_find_handle [OF dir_ok_parts(1) [OF assms(1)] assms(2)] dir_ok_parts(2) [OF assms(1)]
  unfolding dir_slots_ok_def by blast

section \<open>Update laws\<close>

lemma dir_write_find:
  assumes ok: "dir_ok contents capacity d" and c: "dir_find d pid = Some c"
    and c': "cell_handle c' = cell_handle c" "cell_ok contents capacity c'"
  shows "dir_ok contents capacity (dir_write c' d)"
    and "dir_find (dir_write c' d) = (dir_find d)(pid \<mapsto> c')"
proof -
  note parts = dir_ok_parts [OF ok]
  note h = dir_find_handle [OF parts(1) c]
  let ?i = "unat (handle_slot (cell_handle c))"
  let ?d = "dir_write c' d"
  have d: "dir_slots ?d = (dir_slots d)[?i := (dir_slots d ! ?i)\<lparr> slot_cell := Some c' \<rparr>]"
      "dir_actor_slots ?d = dir_actor_slots d" "dir_free_slots ?d = dir_free_slots d"
    by (simp_all add: dir_write_def dir_put_cell_def c')
  have nth: "dir_slots ?d ! j
      = (if j = ?i then (dir_slots d ! ?i)\<lparr> slot_cell := Some c' \<rparr> else dir_slots d ! j)"
    if "j < length (dir_slots d)" for j
    using that by (simp add: d nth_list_update)
  have idx: "dir_index_ok ?d"
    unfolding dir_index_ok_def
  proof (intro allI impI)
    fix pid' slot
    assume "bt_get (dir_actor_slots ?d) pid' = Some slot"
    then have "slot_entry_ok (dir_slots d) pid' slot"
      using parts(1) by (simp add: d dir_index_ok_def)
    then show "slot_entry_ok (dir_slots ?d) pid' slot"
      using h(4) c' by (cases "unat slot = ?i") (auto simp: d(1) slot_entry_ok_def)
  qed
  have slots: "dir_slots_ok contents capacity ?d"
    unfolding dir_slots_ok_def
  proof (intro allI impI)
    fix j e
    assume "j < length (dir_slots ?d)" "slot_cell (dir_slots ?d ! j) = Some e"
    then have j: "j < length (dir_slots d)" by (simp add: d)
    with \<open>slot_cell (dir_slots ?d ! j) = Some e\<close> consider "j = ?i" "e = c'"
      | "j \<noteq> ?i" "slot_cell (dir_slots d ! j) = Some e"
      by (auto simp: nth split: if_splits)
    then show "bt_get (dir_actor_slots ?d) (handle_pid (cell_handle e)) = Some (word_of_nat j) \<and>
        cell_ok contents capacity e"
    proof cases
      case 1
      then show ?thesis using h c' by (simp add: d)
    next
      case 2
      then show ?thesis using parts(2) j by (simp add: d dir_slots_ok_def)
    qed
  qed
  have free: "\<forall>slot \<in> set (dir_free_slots ?d).
      unat slot < length (dir_slots ?d) \<and> slot_cell (dir_slots ?d ! unat slot) = None"
  proof
    fix slot
    assume "slot \<in> set (dir_free_slots ?d)"
    then have "unat slot < length (dir_slots d)" "slot_cell (dir_slots d ! unat slot) = None"
      using ok by (auto simp: dir_ok_def d)
    then show "unat slot < length (dir_slots ?d) \<and> slot_cell (dir_slots ?d ! unat slot) = None"
      using h(4) by (cases "unat slot = ?i") (auto simp: d(1))
  qed
  show "dir_ok contents capacity ?d"
    using ok idx slots free by (simp add: dir_ok_def d)
  have "dir_find ?d pid' = ((dir_find d)(pid \<mapsto> c')) pid'" for pid'
  proof (cases "bt_get (dir_actor_slots d) pid'")
    case None
    then show ?thesis
      using h(2) by (auto simp: dir_find_def dir_cell_def d)
  next
    case (Some slot)
    have slot_eq: "unat slot = ?i \<longleftrightarrow> pid' = pid"
      using Some h(2) dir_index_slot [OF parts(1) Some] dir_index_slot [OF parts(1) h(2)]
      by (metis VmActorHandle.select_convs(1) option.inject)
    have "unat slot < length (dir_slots d)"
      using dir_index_slot [OF parts(1) Some] by blast
    then show ?thesis
      using Some slot_eq nth by (auto simp: dir_find_def dir_cell_def d split: option.splits)
  qed
  then show "dir_find ?d = (dir_find d)(pid \<mapsto> c')" by blast
qed

section \<open>Insertion and removal laws\<close>

definition dir_has_room :: "('t, 'q) VmActorDirectory \<Rightarrow> bool" where
  "dir_has_room d \<longleftrightarrow> dir_free_slots d \<noteq> [] \<or> length (dir_slots d) < 2 ^ 32"

lemma generation_id: "g \<le> GENERATION_MASK \<Longrightarrow> g AND GENERATION_MASK = g"
proof -
  assume "g \<le> GENERATION_MASK"
  then have "g < 2 ^ 20" by (simp add: GENERATION_MASK_def GENERATION_BITS_def word_less_nat_alt
      word_le_nat_alt)
  then show ?thesis unfolding GENERATION_MASK_mask by (rule less_mask_eq)
qed

lemma pack_load:
  "g \<le> GENERATION_MASK \<Longrightarrow> unpack_state (pack_state l g og ow) = Ok
     \<lparr> st_lifecycle = l, st_actor_generation = g,
       st_owner_generation = og AND GENERATION_MASK, st_owner = ow AND GENERATION_MASK \<rparr>"
  by (simp add: unpack_pack generation_id)

lemma cell_new_ok:
  assumes "bounded_fifo Q contents capacity" "handle_generation h \<le> GENERATION_MASK"
  shows "cell_ok contents capacity (cell_new Q h v)"
  using assms mailbox_default_ok [OF assms(1)]
  by (simp add: cell_ok_def cell_new_def cell_load_def pack_load)

lemma dir_take_slot_law:
  assumes ok: "dir_ok contents capacity d" and room: "dir_has_room d"
  obtains slot d' where "dir_take_slot d = (Ok slot, d')"
    "dir_ok contents capacity d'" "dir_find d' = dir_find d"
    "dir_actor_slots d' = dir_actor_slots d"
    "unat slot < length (dir_slots d')" "slot_cell (dir_slots d' ! unat slot) = None"
    "slot \<notin> set (dir_free_slots d')"
proof (cases "dir_free_slots d = []")
  case False
  let ?d = "d\<lparr> dir_free_slots := butlast (dir_free_slots d) \<rparr>"
  have dist: "distinct (butlast (dir_free_slots d) @ [last (dir_free_slots d)])"
    using ok False by (simp add: dir_ok_def)
  have "last (dir_free_slots d) \<in> set (dir_free_slots d)" using False by simp
  then have free: "unat (last (dir_free_slots d)) < length (dir_slots d)"
      "slot_cell (dir_slots d ! unat (last (dir_free_slots d))) = None"
    using ok by (auto simp: dir_ok_def)
  have take: "dir_take_slot d = (Ok (last (dir_free_slots d)), ?d)"
    using False by (simp add: dir_take_slot_def vec_pop_def)
  have find: "dir_find ?d = dir_find d"
    using dir_cell_cong [of ?d d] by (simp add: dir_find_def fun_eq_iff)
  have "dir_ok contents capacity ?d"
    using ok dist by (auto simp: dir_ok_def dir_index_ok_def dir_slots_ok_def dest: in_set_butlastD)
  then show ?thesis
    by (rule that [OF take]) (use free find dist in auto)
next
  case True
  then have len: "length (dir_slots d) < 2 ^ 32" using room by (simp add: dir_has_room_def)
  then have u: "unat (of_nat (length (dir_slots d)) :: u32) = length (dir_slots d)"
    by (simp add: unsigned_of_nat take_bit_nat_eq_self)
  let ?e = "\<lparr> slot_generation = 0, slot_cell = None \<rparr>"
  let ?d = "d\<lparr> dir_slots := dir_slots d @ [?e] \<rparr>"
  note parts = dir_ok_parts [OF ok]
  have take: "dir_take_slot d = (Ok (of_nat (length (dir_slots d))), ?d)"
    using True len by (simp add: dir_take_slot_def vec_pop_def)
  have old: "(dir_slots d @ [?e]) ! unat slot = dir_slots d ! unat slot \<and> unat slot < length (dir_slots d)"
    if "bt_get (dir_actor_slots d) pid = Some slot" for pid slot
    using dir_index_slot [OF parts(1) that] by (auto simp: nth_append)
  have idx: "dir_index_ok ?d"
    using parts(1) old unfolding dir_index_ok_def slot_entry_ok_def by fastforce
  have slots: "dir_slots_ok contents capacity ?d"
    using parts(2) by (auto simp: dir_slots_ok_def nth_append less_Suc_eq split: if_splits)
  have ok': "dir_ok contents capacity ?d"
    using ok idx slots len True by (simp add: dir_ok_def)
  have find: "dir_find ?d = dir_find d"
  proof
    fix p
    show "dir_find ?d p = dir_find d p"
    proof (cases "bt_get (dir_actor_slots d) p")
      case None
      then show ?thesis by (simp add: dir_find_def dir_cell_def)
    next
      case (Some s)
      then show ?thesis using old [OF Some] by (simp add: dir_find_def dir_cell_def)
    qed
  qed
  show ?thesis
    by (rule that [OF take ok' find]) (use u True in auto)
qed

lemma dir_occupy_law:
  assumes Q: "bounded_fifo Q contents capacity" and ok: "dir_ok contents capacity d"
    and fresh: "dir_find d pid = None"
    and slot: "unat slot < length (dir_slots d)" "slot_cell (dir_slots d ! unat slot) = None"
      "slot \<notin> set (dir_free_slots d)"
  obtains h d' where "dir_occupy_slot Q m pid v slot d = (Ok h, d')" "handle_pid h = pid"
    "handle_slot h = slot"
    "handle_generation h = next_generation (slot_generation (dir_slots d ! unat slot))"
    "dir_ok contents capacity d'" "dir_find d' = (dir_find d)(pid \<mapsto> cell_new Q h v)"
proof -
  note parts = dir_ok_parts [OF ok]
  let ?g = "next_generation (slot_generation (dir_slots d ! unat slot))"
  let ?h = "\<lparr> handle_pid = pid, handle_slot = slot, handle_generation = ?g \<rparr>"
  let ?e = "\<lparr> slot_generation = ?g, slot_cell = Some (cell_new Q ?h v) \<rparr>"
  let ?d = "d\<lparr> dir_slots := (dir_slots d)[unat slot := ?e],
      dir_actor_slots := bt_insert pid slot (dir_actor_slots d) \<rparr>"
  have run: "dir_occupy_slot Q m pid v slot d = (Ok ?h, ?d)"
    using slot(1) by (simp add: dir_occupy_slot_def Let_def)
  have unmapped: "bt_get (dir_actor_slots d) pid = None"
    using fresh parts(1) by (simp add: dir_find_None_iff)
  have other: "unat s \<noteq> unat slot" if "bt_get (dir_actor_slots d) p = Some s" for p s
    using dir_index_slot [OF parts(1) that] slot(2) by (metis option.distinct(1))
  have idx: "dir_index_ok ?d"
    unfolding dir_index_ok_def
  proof (intro allI impI)
    fix p s
    assume g: "bt_get (dir_actor_slots ?d) p = Some s"
    show "slot_entry_ok (dir_slots ?d) p s"
    proof (cases "p = pid")
      case True
      then have "s = slot" using g by simp
      then show ?thesis using True slot(1) by (simp add: cell_new_def slot_entry_ok_def)
    next
      case False
      then have "bt_get (dir_actor_slots d) p = Some s" using g by simp
      then show ?thesis using other [of p s] parts(1) by (simp add: dir_index_ok_def)
    qed
  qed
  have slots: "dir_slots_ok contents capacity ?d"
    unfolding dir_slots_ok_def
  proof (intro allI impI)
    fix j c
    assume j: "j < length (dir_slots ?d)" "slot_cell (dir_slots ?d ! j) = Some c"
    show "bt_get (dir_actor_slots ?d) (handle_pid (cell_handle c)) = Some (word_of_nat j)
        \<and> cell_ok contents capacity c"
    proof (cases "j = unat slot")
      case True
      then have "c = cell_new Q ?h v" using j slot(1) by simp
      then show ?thesis
        using True cell_new_ok [OF Q, of ?h v] next_generation_range by (simp add: cell_new_def)
    next
      case False
      then have "slot_cell (dir_slots d ! j) = Some c" using j by simp
      moreover have "j < length (dir_slots d)" using j by simp
      ultimately show ?thesis
        using parts(2) unmapped by (auto simp: dir_slots_ok_def)
    qed
  qed
  have "unat slot \<noteq> unat s" if "s \<in> set (dir_free_slots d)" for s
    using that slot(3) by (metis word_unat_eq_iff)
  then have ok': "dir_ok contents capacity ?d"
    using ok idx slots by (auto simp: dir_ok_def)
  have "dir_find ?d p = ((dir_find d)(pid \<mapsto> cell_new Q ?h v)) p" for p
    using slot(1) other [of p] by (auto simp: dir_find_def dir_cell_def split: option.splits)
  then have find: "dir_find ?d = (dir_find d)(pid \<mapsto> cell_new Q ?h v)" by blast
  show ?thesis by (rule that [OF run _ _ _ ok' find]) simp_all
qed

lemma dir_place_law:
  assumes Q: "bounded_fifo Q contents capacity" and ok: "dir_ok contents capacity d"
    and room: "dir_has_room d" and fresh: "dir_find d pid = None"
  obtains h d' where "bind_st dir_take_slot (dir_occupy_slot Q m pid v) d = (Ok h, d')"
    "handle_pid h = pid" "dir_ok contents capacity d'"
    "dir_find d' = (dir_find d)(pid \<mapsto> cell_new Q h v)"
proof -
  obtain slot d1 where d1: "dir_take_slot d = (Ok slot, d1)" "dir_ok contents capacity d1"
      "dir_find d1 = dir_find d" "unat slot < length (dir_slots d1)"
      "slot_cell (dir_slots d1 ! unat slot) = None" "slot \<notin> set (dir_free_slots d1)"
    using dir_take_slot_law [OF ok room] by blast
  obtain h d2 where "dir_occupy_slot Q m pid v slot d1 = (Ok h, d2)" "handle_pid h = pid"
      "dir_ok contents capacity d2" "dir_find d2 = (dir_find d1)(pid \<mapsto> cell_new Q h v)"
    using dir_occupy_law [OF Q d1(2) _ d1(4-6)] d1(3) fresh by metis
  with d1 that show ?thesis by auto
qed

lemma dir_insert_law:
  assumes "bounded_fifo Q contents capacity" "dir_ok contents capacity d"
    "dir_has_room d" "dir_find d pid = None"
  obtains h d' where "dir_insert Q pid v d = (Ok h, d')" "handle_pid h = pid"
    "dir_ok contents capacity d'" "dir_find d' = (dir_find d)(pid \<mapsto> cell_new Q h v)"
proof -
  have "\<not> bt_contains (dir_actor_slots d) pid"
    using assms(4) dir_ok_parts(1) [OF assms(2)] by (simp add: dir_find_None_iff bt_contains_def)
  then have "dir_insert Q pid v d
      = bind_st dir_take_slot (dir_occupy_slot Q ''allocated actor slot exists'' pid v) d"
    by (simp add: dir_insert_def)
  then show ?thesis
    using dir_place_law [OF assms, of "''allocated actor slot exists''" v] that by metis
qed

lemma dir_import_law:
  assumes "bounded_fifo Q contents capacity" "dir_ok contents capacity d"
    "dir_has_room d" "dir_find d pid = None"
  obtains h d' where "dir_import_transferred Q pid v d = (Ok h, d')" "handle_pid h = pid"
    "dir_ok contents capacity d'" "dir_find d' = (dir_find d)(pid \<mapsto> cell_new Q h v)"
proof -
  have "\<not> bt_contains (dir_actor_slots d) pid"
    using assms(4) dir_ok_parts(1) [OF assms(2)] by (simp add: dir_find_None_iff bt_contains_def)
  then have run: "dir_import_transferred Q pid v d = map_err_st (\<lambda>e. (e, v))
      (bind_st dir_take_slot (dir_occupy_slot Q ''reserved destination actor slot exists'' pid v)) d"
    by (simp add: dir_import_transferred_def)
  obtain h d' where "bind_st dir_take_slot
        (dir_occupy_slot Q ''reserved destination actor slot exists'' pid v) d = (Ok h, d')"
      "handle_pid h = pid" "dir_ok contents capacity d'"
      "dir_find d' = (dir_find d)(pid \<mapsto> cell_new Q h v)"
    using dir_place_law [OF assms] by blast
  then show ?thesis
    by (intro that [of h d']) (simp_all add: run map_err_st_def map_err_def)
qed

text \<open>The removal both \<open>reclaim\<close> and \<open>detach_for_transfer\<close> end with.\<close>

definition dir_vacate :: "VmProcessId \<Rightarrow> u32 \<Rightarrow> ('t, 'q) VmActorDirectory \<Rightarrow> ('t, 'q) VmActorDirectory"
  where "dir_vacate pid slot d = d
    \<lparr> dir_actor_slots := bt_remove pid (dir_actor_slots d),
      dir_slots := (dir_slots d)[unat slot := (dir_slots d ! unat slot)\<lparr> slot_cell := None \<rparr>],
      dir_free_slots := dir_free_slots d @ [slot] \<rparr>"

lemma dir_vacate_law:
  assumes ok: "dir_ok contents capacity d" and c: "dir_find d pid = Some c"
  shows "dir_ok contents capacity (dir_vacate pid (handle_slot (cell_handle c)) d)"
    and "dir_find (dir_vacate pid (handle_slot (cell_handle c)) d) = (dir_find d)(pid := None)"
    and "dir_has_room (dir_vacate pid (handle_slot (cell_handle c)) d)"
proof -
  note parts = dir_ok_parts [OF ok]
  note h = dir_find_handle [OF parts(1) c]
  let ?s = "handle_slot (cell_handle c)"
  let ?d = "dir_vacate pid ?s d"
  have d: "dir_slots ?d = (dir_slots d)[unat ?s := (dir_slots d ! unat ?s)\<lparr> slot_cell := None \<rparr>]"
      "dir_actor_slots ?d = bt_remove pid (dir_actor_slots d)"
      "dir_free_slots ?d = dir_free_slots d @ [?s]"
    by (simp_all add: dir_vacate_def)
  have other: "unat s \<noteq> unat ?s" if "bt_get (dir_actor_slots d) p = Some s" "p \<noteq> pid" for p s
    using dir_index_slot [OF parts(1) that(1)] dir_index_slot [OF parts(1) h(2)] that(2)
    by (metis VmActorHandle.select_convs(1) option.inject)
  have idx: "dir_index_ok ?d"
    unfolding dir_index_ok_def
  proof (intro allI impI)
    fix p s
    assume "bt_get (dir_actor_slots ?d) p = Some s"
    then have "bt_get (dir_actor_slots d) p = Some s" "p \<noteq> pid"
      by (auto simp: d split: if_splits)
    then show "slot_entry_ok (dir_slots ?d) p s"
      using other [of p s] parts(1) by (simp add: d dir_index_ok_def)
  qed
  have slots: "dir_slots_ok contents capacity ?d"
    unfolding dir_slots_ok_def
  proof (intro allI impI)
    fix j e
    assume j: "j < length (dir_slots ?d)" "slot_cell (dir_slots ?d ! j) = Some e"
    then have e: "j < length (dir_slots d)" "slot_cell (dir_slots d ! j) = Some e"
      using h(3) by (auto simp: d nth_list_update split: if_splits)
    from j have "j \<noteq> unat ?s" using h(3) by (auto simp: d)
    then have "handle_pid (cell_handle e) \<noteq> pid"
      using dir_slots_find [OF parts(1-3) e] c by auto
    then show "bt_get (dir_actor_slots ?d) (handle_pid (cell_handle e)) = Some (word_of_nat j)
        \<and> cell_ok contents capacity e"
      using parts(2) e by (auto simp: d dir_slots_ok_def)
  qed
  have "?s \<notin> set (dir_free_slots d)" using ok h(4) by (auto simp: dir_ok_def)
  moreover have "slot_cell (dir_slots ?d ! unat s) = None" if "s \<in> set (dir_free_slots d)" for s
    using that ok h(3) by (cases "unat s = unat ?s") (auto simp: dir_ok_def d)
  ultimately show "dir_ok contents capacity ?d"
    using ok idx slots h(3) by (auto simp: dir_ok_def d)
  have "dir_find ?d p = ((dir_find d)(pid := None)) p" for p
  proof (cases "p = pid")
    case True
    then show ?thesis by (simp add: dir_find_def dir_cell_def d)
  next
    case False
    then show ?thesis
    proof (cases "bt_get (dir_actor_slots d) p")
      case None
      then show ?thesis by (simp add: dir_find_def dir_cell_def d)
    next
      case (Some s)
      then show ?thesis using other [OF Some False] False by (simp add: dir_find_def dir_cell_def d)
    qed
  qed
  then show "dir_find ?d = (dir_find d)(pid := None)" by blast
  show "dir_has_room ?d" by (simp add: dir_has_room_def d)
qed

end
