(* ===== verification/Directory_Laws.thy ===== *)
theory Directory_Laws
  imports Actor_Directory
begin

text \<open>
  What each operation of the actor directory does to a well-formed directory, in terms
  of the cell the identity resolves to: every branch of the control operations as an
  equation, and the transition systems built from them (ownership grant and release,
  migration, retirement).
\<close>

section \<open>Iteration\<close>

lemma dir_iter_find:
  assumes "dir_index_ok d" "bt_ok (dir_actor_slots d)"
  shows "dir_iter d = map (\<lambda>pid. (pid, cell_value (the (dir_find d pid)))) (bt_keys (dir_actor_slots d))"
proof -
  have entry: "(case nth_opt (dir_slots d) (unat slot) of None \<Rightarrow> []
       | Some entry \<Rightarrow> (case slot_cell entry of None \<Rightarrow> [] | Some c \<Rightarrow> [(pid, cell_value c)]))
      = [(pid, cell_value (the (dir_find d pid)))]" if slot: "bt_get (dir_actor_slots d) pid = Some slot" for pid slot
  proof -
    obtain c where "unat slot < length (dir_slots d)" "slot_cell (dir_slots d ! unat slot) = Some c"
      by (rule dir_index_slot [OF assms(1) slot])
    then show ?thesis
      using slot by (simp add: nth_opt_def dir_find_def dir_cell_def)
  qed
  have split: "concat (map f m) = map g (bt_keys m)"
    if "\<And>pid slot. (pid, slot) \<in> set m \<Longrightarrow> f (pid, slot) = [g pid]" for f :: "VmProcessId \<times> u32 \<Rightarrow> 'z list" and g m
    using that by (induction m) (auto simp: bt_keys_def)
  show ?thesis
    unfolding dir_iter_def
  proof (rule split)
    fix pid slot
    assume "(pid, slot) \<in> set (dir_actor_slots d)"
    show "(case (pid, slot) of (pid, slot) \<Rightarrow> case nth_opt (dir_slots d) (unat slot) of None \<Rightarrow> []
       | Some entry \<Rightarrow> (case slot_cell entry of None \<Rightarrow> [] | Some c \<Rightarrow> [(pid, cell_value c)]))
      = [(pid, cell_value (the (dir_find d pid)))]"
      using entry bt_in_get [OF assms(2)] \<open>(pid, slot) \<in> set (dir_actor_slots d)\<close> by simp
  qed
qed

section \<open>Words and tokens\<close>

lemma unpack_bounds:
  assumes "unpack_state w = Ok s"
  shows "st_actor_generation s \<le> GENERATION_MASK" "st_owner_generation s \<le> GENERATION_MASK"
    "st_owner s \<le> GENERATION_MASK"
  using assms by (auto simp: unpack_state_def bind_out_eq_Ok word_and_le1)

definition cell_with :: "VmActorLifecycle \<Rightarrow> u64 \<Rightarrow> u64 \<Rightarrow> ('t, 'q) VmActorCell \<Rightarrow> ('t, 'q) VmActorCell"
  where "cell_with l og ow c = c\<lparr> cell_state := pack_state l (handle_generation (cell_handle c)) og ow \<rparr>"

definition cell_generation_ok :: "('t, 'q) VmActorCell \<Rightarrow> bool" where
  "cell_generation_ok c \<longleftrightarrow> handle_generation (cell_handle c) \<le> GENERATION_MASK"

lemma cell_with_simps [simp]:
  "cell_handle (cell_with l og ow c) = cell_handle c"
  "cell_mailbox (cell_with l og ow c) = cell_mailbox c"
  "cell_value (cell_with l og ow c) = cell_value c"
  "cell_lookup_pins (cell_with l og ow c) = cell_lookup_pins c"
  "cell_with l og ow (cell_with l' og' ow' c) = cell_with l og ow c"
  "cell_generation_ok (cell_with l og ow c) = cell_generation_ok c"
  by (simp_all add: cell_with_def cell_generation_ok_def)

lemma cell_with_value [simp]:
  "cell_with l og ow (c\<lparr> cell_value := v \<rparr>) = (cell_with l og ow c)\<lparr> cell_value := v \<rparr>"
  "cell_with l og ow (c\<lparr> cell_mailbox := m \<rparr>) = (cell_with l og ow c)\<lparr> cell_mailbox := m \<rparr>"
  "(cell_with l og ow c)\<lparr> cell_mailbox := cell_mailbox c \<rparr> = cell_with l og ow c"
  by (simp_all add: cell_with_def)

lemma cell_load_with:
  "cell_generation_ok c \<Longrightarrow> og \<le> GENERATION_MASK \<Longrightarrow> ow \<le> GENERATION_MASK
     \<Longrightarrow> cell_load (cell_with l og ow c) = Ok
       \<lparr> st_lifecycle = l, st_actor_generation = handle_generation (cell_handle c),
         st_owner_generation = og, st_owner = ow \<rparr>"
  by (simp add: cell_load_def cell_with_def pack_load cell_generation_ok_def generation_id)

lemma cell_ok_generation: "cell_ok contents capacity c \<Longrightarrow> cell_generation_ok c"
  using unpack_bounds by (force simp: cell_ok_def cell_generation_ok_def cell_load_def)

lemma cell_ok_load:
  assumes "cell_ok contents capacity c"
  obtains s where "cell_load c = Ok s" "st_actor_generation s = handle_generation (cell_handle c)"
    "st_owner_generation s \<le> GENERATION_MASK" "st_owner s \<le> GENERATION_MASK"
  using assms unpack_bounds by (auto simp: cell_ok_def cell_load_def)

lemma cell_ok_with [simp]:
  "cell_ok contents capacity c \<Longrightarrow> og \<le> GENERATION_MASK \<Longrightarrow> ow \<le> GENERATION_MASK
     \<Longrightarrow> cell_ok contents capacity (cell_with l og ow c)"
  using cell_load_with [OF cell_ok_generation, of contents capacity c og ow l]
  by (simp add: cell_ok_def)

lemma cell_ok_value [simp]:
  "cell_ok contents capacity (c\<lparr> cell_value := v \<rparr>) = cell_ok contents capacity c"
  by (simp add: cell_ok_def cell_load_def)

lemma cell_load_value [simp]:
  "cell_load (c\<lparr> cell_value := v \<rparr>) = cell_load c"
  "cell_load (c\<lparr> cell_mailbox := m \<rparr>) = cell_load c"
  by (simp_all add: cell_load_def)

lemma cell_ok_mailbox:
  "cell_ok contents capacity c \<Longrightarrow> mailbox_ok contents capacity m
     \<Longrightarrow> cell_ok contents capacity (c\<lparr> cell_mailbox := m \<rparr>)"
  by (simp add: cell_ok_def)

lemma next_generation_le [simp]: "next_generation g \<le> GENERATION_MASK"
  using next_generation_range by blast

lemma dir_find_handle_generation:
  "dir_ok contents capacity d \<Longrightarrow> dir_find d pid = Some c \<Longrightarrow> handle_generation (cell_handle c) \<le> GENERATION_MASK"
  using dir_find_cell_ok cell_ok_generation by (fastforce simp: cell_generation_ok_def)

lemma dir_default_ok: "dir_ok contents capacity dir_default" "dir_find dir_default pid = None"
  by (simp_all add: dir_default_def dir_ok_def dir_index_ok_def dir_slots_ok_def dir_find_def dir_cell_def)

lemma validate_token_iff:
  "validate_token c t = Ok () \<longleftrightarrow> cell_load c = Ok
     \<lparr> st_lifecycle = token_lifecycle t,
       st_actor_generation = handle_generation (token_handle t),
       st_owner_generation = token_owner_generation t, st_owner = token_owner t \<rparr>"
  by (cases "cell_load c") (auto simp: validate_token_def bind_out_def)

lemma validate_token_stale:
  "cell_load c = Ok s \<Longrightarrow> validate_token c t \<noteq> Ok () \<Longrightarrow> validate_token c t = Err StaleMutator"
  by (auto simp: validate_token_def split: if_splits)

section \<open>Writing back\<close>

lemma dir_write_write:
  "cell_handle c' = cell_handle c \<Longrightarrow> dir_write c' (dir_write c d) = dir_write c' d"
  by (cases "unat (handle_slot (cell_handle c)) < length (dir_slots d)")
    (simp_all add: dir_write_def dir_put_cell_def list_update_beyond)

lemma dir_exchange_same:
  "cell_handle c = h \<Longrightarrow> dir_exchange (unat (handle_slot h)) c (cell_state c) w d
     = (Ok (cell_state c), dir_write (c\<lparr> cell_state := w \<rparr>) d)"
  by (simp add: dir_exchange_def compare_exchange_def dir_write_def)

lemma pack_cell_with:
  "c\<lparr> cell_state := pack_state l (handle_generation (cell_handle c)) og ow \<rparr> = cell_with l og ow c"
  by (simp add: cell_with_def)

section \<open>The operations on a resolved cell\<close>

text \<open>
  The situation every law below starts from: the directory is well formed and the
  identity resolves to a cell whose word decodes to \<open>s\<close>.
\<close>

definition resolves :: "('q \<Rightarrow> 'f list) \<Rightarrow> ('q \<Rightarrow> nat) \<Rightarrow> ('t, 'q) VmActorDirectory \<Rightarrow> VmProcessId
    \<Rightarrow> ('t, 'q) VmActorCell \<Rightarrow> VmActorState \<Rightarrow> bool" where
  "resolves contents capacity d pid c s \<longleftrightarrow>
     dir_ok contents capacity d \<and> dir_find d pid = Some c \<and> cell_load c = Ok s"

lemma resolves_facts:
  assumes "resolves contents capacity d pid c s"
  shows "dir_ok contents capacity d" "dir_find d pid = Some c" "cell_load c = Ok s"
    "cell_ok contents capacity c" "handle_pid (cell_handle c) = pid"
    "dir_cell d pid = Ok (unat (handle_slot (cell_handle c)), c)"
    "dir_cell_for_handle d (cell_handle c) = Ok (unat (handle_slot (cell_handle c)), c)"
    "st_actor_generation s = handle_generation (cell_handle c)"
    "st_owner_generation s \<le> GENERATION_MASK" "st_owner s \<le> GENERATION_MASK"
    "unpack_state (cell_state c) = Ok s"
    "dir_lifecycle d pid = Ok (st_lifecycle s)"
proof -
  show a: "dir_ok contents capacity d" "dir_find d pid = Some c" "cell_load c = Ok s"
    using assms by (simp_all add: resolves_def)
  note parts = dir_ok_parts [OF a(1)]
  show ok: "cell_ok contents capacity c" by (rule dir_find_cell_ok [OF a(1,2)])
  show pid: "handle_pid (cell_handle c) = pid" by (rule dir_find_handle(1) [OF parts(1) a(2)])
  show cell: "dir_cell d pid = Ok (unat (handle_slot (cell_handle c)), c)"
    using a(2) by (simp add: dir_cell_eq [OF parts(1)])
  show "dir_cell_for_handle d (cell_handle c) = Ok (unat (handle_slot (cell_handle c)), c)"
    using a(2) pid by (simp add: dir_cell_for_handle_eq [OF parts(1-3)])
  show "st_actor_generation s = handle_generation (cell_handle c)"
    using ok a(3) by (auto simp: cell_ok_def)
  show w: "unpack_state (cell_state c) = Ok s" using a(3) by (simp add: cell_load_def)
  show "st_owner_generation s \<le> GENERATION_MASK" "st_owner s \<le> GENERATION_MASK"
    by (rule unpack_bounds [OF w])+
  show "dir_lifecycle d pid = Ok (st_lifecycle s)"
    by (simp add: dir_lifecycle_def cell a(3))
qed

lemma resolves_obtain:
  assumes "dir_ok contents capacity d" "dir_find d pid = Some c"
  obtains s where "resolves contents capacity d pid c s"
  using dir_find_cell_ok [OF assms] assms by (auto simp: resolves_def cell_ok_def)

lemma resolves_write:
  assumes r: "resolves contents capacity d pid c s"
    and c': "cell_handle c' = cell_handle c" "cell_ok contents capacity c'" "cell_load c' = Ok s'"
  shows "resolves contents capacity (dir_write c' d) pid c' s'"
  using dir_write_find [OF resolves_facts(1,2) [OF r] c'(1,2)] c'(3)
  by (simp add: resolves_def)

lemma resolves_with:
  assumes r: "resolves contents capacity d pid c s"
    and b: "og \<le> GENERATION_MASK" "ow \<le> GENERATION_MASK"
  shows "resolves contents capacity (dir_write (cell_with l og ow c) d) pid (cell_with l og ow c)
    \<lparr> st_lifecycle = l, st_actor_generation = handle_generation (cell_handle c),
      st_owner_generation = og, st_owner = ow \<rparr>"
proof (rule resolves_write [OF r])
  note ok = resolves_facts(4) [OF r]
  show "cell_handle (cell_with l og ow c) = cell_handle c" by simp
  show "cell_ok contents capacity (cell_with l og ow c)" using ok b by simp
  show "cell_load (cell_with l og ow c) = Ok
    \<lparr> st_lifecycle = l, st_actor_generation = handle_generation (cell_handle c),
      st_owner_generation = og, st_owner = ow \<rparr>"
    by (rule cell_load_with [OF cell_ok_generation [OF ok] b])
qed

lemma transition_unowned_law:
  assumes "resolves contents capacity d pid c s"
  shows "dir_transition_unowned pid allowed next d =
    (if st_owner s \<noteq> 0 then (Err (AlreadyOwned (st_owner s) (st_owner_generation s)), d)
     else if st_lifecycle s \<notin> set allowed then (Err (InvalidTransition (st_lifecycle s) next), d)
     else (Ok (), dir_write (cell_with next (st_owner_generation s) 0 c) d))"
  using resolves_facts [OF assms]
  by (simp add: dir_transition_unowned_def read_st_def bind_st_def Let_def dir_exchange_same
      map_err_st_def map_err_def return_st_def pack_cell_with)

lemma enqueue_notified_parked_law:
  assumes "resolves contents capacity d pid c s"
  shows "dir_enqueue_notified_parked pid d =
    (if st_lifecycle s = Parked \<and> st_owner s = 0
     then (Ok True, dir_write (cell_with Queued (st_owner_generation s) 0 c) d)
     else (Ok False, d))"
  using resolves_facts [OF assms]
  by (simp add: dir_enqueue_notified_parked_def read_st_def bind_st_def Let_def dir_exchange_same
      pack_cell_with)

lemma acquire_mutator_law:
  assumes "resolves contents capacity d pid c s"
  shows "dir_acquire_mutator pid owner d =
    (if owner = 0 \<or> GENERATION_MASK < owner then (Err (InvalidOwner owner), d)
     else if st_owner s \<noteq> 0 \<or> st_lifecycle s = Executing then
       (Err (AlreadyOwned (st_owner s) (st_owner_generation s)), d)
     else if st_lifecycle s \<noteq> Queued then
       (Err (InvalidTransition (st_lifecycle s) Executing), d)
     else (Ok \<lparr> token_handle = cell_handle c, token_owner = owner,
             token_owner_generation = next_generation (st_owner_generation s),
             token_lifecycle = Executing \<rparr>,
           dir_write (cell_with Executing (next_generation (st_owner_generation s)) owner c) d))"
  using resolves_facts [OF assms]
  by (simp add: dir_acquire_mutator_def read_st_def bind_st_def Let_def dir_exchange_same
      map_err_st_def map_err_def return_st_def pack_cell_with)

lemma acquire_control_mutator_law:
  assumes "resolves contents capacity d pid c s"
  shows "dir_acquire_control_mutator pid owner d =
    (if owner = 0 \<or> GENERATION_MASK < owner then (Err (InvalidOwner owner), d)
     else if st_owner s \<noteq> 0 \<or> st_lifecycle s = Executing then
       (Err (AlreadyOwned (st_owner s) (st_owner_generation s)), d)
     else if st_lifecycle s \<in> {Migrating, Reclaimed} then
       (Err (InvalidTransition (st_lifecycle s) (st_lifecycle s)), d)
     else (Ok \<lparr> token_handle = cell_handle c, token_owner = owner,
             token_owner_generation = next_generation (st_owner_generation s),
             token_lifecycle = st_lifecycle s \<rparr>,
           dir_write (cell_with (st_lifecycle s) (next_generation (st_owner_generation s)) owner c) d))"
  using resolves_facts [OF assms]
  by (simp add: dir_acquire_control_mutator_def read_st_def bind_st_def Let_def dir_exchange_same
      map_err_st_def map_err_def return_st_def pack_cell_with)

lemma with_mutator_law:
  assumes "resolves contents capacity d pid c s" "token_handle t = cell_handle c"
  shows "dir_with_mutator t f d =
    (if validate_token c t = Ok ()
     then (Ok (fst (f (cell_value c))), dir_write (c\<lparr> cell_value := snd (f (cell_value c)) \<rparr>) d)
     else (Err StaleMutator, d))"
  using resolves_facts [OF assms(1)] assms(2) validate_token_stale [of c s t]
  by (auto simp: dir_with_mutator_def read_st_def bind_st_def dir_write_def split: prod.splits)

lemma release_control_mutator_law:
  assumes "resolves contents capacity d pid c s" "token_handle t = cell_handle c"
  shows "dir_release_control_mutator t d =
    (if validate_token c t = Ok ()
     then (Ok (), dir_write (cell_with (token_lifecycle t) (st_owner_generation s) 0 c) d)
     else (Err StaleMutator, d))"
  using resolves_facts [OF assms(1)] assms(2) validate_token_stale [of c s t]
  by (auto simp: dir_release_control_mutator_def read_st_def bind_st_def Let_def dir_exchange_same
      map_err_st_def map_err_def return_st_def pack_cell_with)

lemma release_mutator_law:
  assumes r: "resolves contents capacity d pid c s" and t: "token_handle t = cell_handle c"
    and boundary: "next \<in> {Yielding, Parked, Exiting}" and v: "validate_token c t = Ok ()"
  shows "dir_release_mutator Q t next d =
    (let park_ready = (next \<noteq> Parked \<or> fst (mailbox_prepare_park Q (cell_mailbox c)));
         m = (if next = Parked then snd (mailbox_prepare_park Q (cell_mailbox c)) else cell_mailbox c);
         released = (if park_ready then next else Yielding);
         d' = dir_write (cell_with released (st_owner_generation s) 0 (c\<lparr> cell_mailbox := m \<rparr>)) d
     in if released = Parked \<and> mailbox_is_notified m
        then bind_st (dir_enqueue_notified_parked pid) (\<lambda>_. return_st Queued) d'
        else (Ok released, d'))"
proof -
  note f = resolves_facts [OF r]
  let ?i = "unat (handle_slot (cell_handle c))"
  have w: "dir_write ((cell_with l og 0 c)\<lparr> cell_mailbox := m \<rparr>)
        (dir_put_cell ?i (c\<lparr> cell_mailbox := m \<rparr>) d)
      = dir_write ((cell_with l og 0 c)\<lparr> cell_mailbox := m \<rparr>) d" for l og m
    using dir_write_write [of "(cell_with l og 0 c)\<lparr> cell_mailbox := m \<rparr>" "c\<lparr> cell_mailbox := m \<rparr>" d]
    by (simp add: dir_write_def)
  have x: "dir_exchange ?i (c\<lparr> cell_mailbox := m \<rparr>) (cell_state c)
        (pack_state l (handle_generation (cell_handle c)) og 0) d'
      = (Ok (cell_state c), dir_write ((cell_with l og 0 c)\<lparr> cell_mailbox := m \<rparr>) d')" for l og m d'
  proof -
    have "c\<lparr> cell_mailbox := m, cell_state := pack_state l (handle_generation (cell_handle c)) og 0 \<rparr>
        = (cell_with l og 0 c)\<lparr> cell_mailbox := m \<rparr>"
      by (simp add: cell_with_def)
    then show ?thesis
      using dir_exchange_same [of "c\<lparr> cell_mailbox := m \<rparr>" "cell_handle c"] by simp
  qed
  note defs = dir_release_mutator_def read_st_def bind_st_def Let_def map_err_st_def map_err_def
    return_st_def
  show ?thesis
  proof (cases "next = Parked")
    case True
    then show ?thesis
      using f t v w x
      by (cases "mailbox_prepare_park Q (cell_mailbox c)"; cases "fst (mailbox_prepare_park Q (cell_mailbox c))")
        (simp_all add: defs)
  next
    case False
    then have "dir_write (cell_with l og 0 c) (dir_put_cell ?i c d) = dir_write (cell_with l og 0 c) d"
      for l og using w [where m = "cell_mailbox c"] by simp
    then show ?thesis
      using f t v boundary False dir_exchange_same [of c "cell_handle c"]
      by (auto simp add: defs pack_cell_with)
  qed
qed

section \<open>Publication and drain\<close>

lemma publish_fragment_law:
  assumes r: "resolves contents capacity d pid c s" and Q: "bounded_fifo Q contents capacity"
    and live: "st_lifecycle s \<notin> {Exiting, Retired, Reclaimed}"
    and room: "length (contents (mailbox_queue (cell_mailbox c))) < unat ACTOR_MAILBOX_CAPACITY"
  obtains m where
    "dir_publish_fragment Q pid p d =
       (if mailbox_wake_state (cell_mailbox c) = PARKED
        then bind_st (dir_enqueue_notified_parked pid) (\<lambda>_. return_st
          (\<lparr> publication_handle = cell_handle c, publication_sequence =
              saturating_add (mailbox_next_sequence (cell_mailbox c)) 1 \<rparr>, Enqueue))
          (dir_write (c\<lparr> cell_mailbox := m \<rparr>) d)
        else (Ok (\<lparr> publication_handle = cell_handle c, publication_sequence =
              saturating_add (mailbox_next_sequence (cell_mailbox c)) 1 \<rparr>, Observed),
          dir_write (c\<lparr> cell_mailbox := m \<rparr>) d))"
    "contents (mailbox_queue m) = contents (mailbox_queue (cell_mailbox c)) @
       [\<lparr> fragment_publication = \<lparr> publication_handle = cell_handle c, publication_sequence =
            saturating_add (mailbox_next_sequence (cell_mailbox c)) 1 \<rparr>, fragment_payload = p \<rparr>]"
    "mailbox_ok contents capacity m" "mailbox_wake_state m = NOTIFIED"
    "mailbox_next_sequence m = mailbox_next_sequence (cell_mailbox c) + 1"
proof -
  note f = resolves_facts [OF r]
  have mok: "mailbox_ok contents capacity (cell_mailbox c)" using f(4) by (simp add: cell_ok_def)
  obtain m where m:
    "mailbox_publish Q (cell_handle c) p (cell_mailbox c) = (Ok
       (\<lparr> publication_handle = cell_handle c, publication_sequence =
              saturating_add (mailbox_next_sequence (cell_mailbox c)) 1 \<rparr>,
        if mailbox_wake_state (cell_mailbox c) = PARKED then Enqueue else Observed), m)"
    "contents (mailbox_queue m) = contents (mailbox_queue (cell_mailbox c)) @
       [\<lparr> fragment_publication = \<lparr> publication_handle = cell_handle c, publication_sequence =
            saturating_add (mailbox_next_sequence (cell_mailbox c)) 1 \<rparr>, fragment_payload = p \<rparr>]"
    "mailbox_ok contents capacity m" "mailbox_wake_state m = NOTIFIED"
    "mailbox_next_sequence m = mailbox_next_sequence (cell_mailbox c) + 1"
    using publish_accepts [OF Q mok room, of "cell_handle c" p] by blast
  show ?thesis
    by (rule that [OF _ m(2-5)])
      (use f live m(1) in \<open>simp add: dir_publish_fragment_def read_st_def bind_st_def dir_write_def
         return_st_def\<close>)
qed

lemma publish_fragment_dead:
  assumes r: "resolves contents capacity d pid c s"
    and dead: "st_lifecycle s \<in> {Exiting, Retired, Reclaimed}"
  shows "dir_publish_fragment Q pid p d
    = (Err (InvalidTransition (st_lifecycle s) (st_lifecycle s)), d)"
  using resolves_facts [OF r] dead
  by (auto simp: dir_publish_fragment_def read_st_def bind_st_def)

lemma drain_publications_law:
  assumes r: "resolves contents capacity d pid c s" and Q: "bounded_fifo Q contents capacity"
    and t: "token_handle t = cell_handle c" "validate_token c t = Ok ()"
  obtains m where
    "dir_drain_publications Q t integrate d =
       (Ok (of_nat (length (contents (mailbox_queue (cell_mailbox c))))),
        dir_write (c\<lparr> cell_mailbox := m, cell_value :=
           fold (\<lambda>f. integrate (fragment_publication f) (fragment_payload f))
             (contents (mailbox_queue (cell_mailbox c))) (cell_value c) \<rparr>) d)"
    "contents (mailbox_queue m) = []" "mailbox_ok contents capacity m"
    "mailbox_wake_state m = (if mailbox_wake_state (cell_mailbox c) = NOTIFIED then ACTIVE
       else mailbox_wake_state (cell_mailbox c))"
    "mailbox_next_sequence m = mailbox_next_sequence (cell_mailbox c)"
proof -
  note f = resolves_facts [OF r]
  have mok: "mailbox_ok contents capacity (cell_mailbox c)" using f(4) by (simp add: cell_ok_def)
  obtain m where m:
    "mailbox_drain Q (cell_mailbox c) =
       ((Ok (of_nat (length (contents (mailbox_queue (cell_mailbox c)))),
         contents (mailbox_queue (cell_mailbox c)))
          :: (VmActorDirectoryError, _) outcome), m)"
    "contents (mailbox_queue m) = []" "mailbox_ok contents capacity m"
    "mailbox_wake_state m = (if mailbox_wake_state (cell_mailbox c) = NOTIFIED then ACTIVE
       else mailbox_wake_state (cell_mailbox c))"
    "mailbox_next_sequence m = mailbox_next_sequence (cell_mailbox c)"
    using drain_all [OF Q mok] by blast
  show ?thesis
    by (rule that [OF _ m(2-5)])
      (use f m(1) in \<open>simp add: dir_drain_publications_def read_st_def bind_st_def t dir_write_def\<close>)
qed

section \<open>Retirement and transfer\<close>

lemma reclaim_law:
  assumes r: "resolves contents capacity d pid c s"
  shows "dir_reclaim pid d =
    (if st_lifecycle s \<noteq> Retired then (Err (InvalidTransition (st_lifecycle s) Reclaimed), d)
     else if cell_lookup_pins c \<noteq> 0 then (Err (LookupPinned (cell_lookup_pins c)), d)
     else (Ok (cell_value c), dir_vacate pid (handle_slot (cell_handle c)) d))"
proof -
  note f = resolves_facts [OF r]
  note h = dir_find_handle [OF dir_ok_parts(1) [OF f(1)] f(2)]
  show ?thesis
    using f h by (simp add: dir_reclaim_def read_st_def bind_st_def Let_def dir_vacate_def)
qed

lemma detach_law:
  assumes r: "resolves contents capacity d pid c s" and Q: "bounded_fifo Q contents capacity"
    and idle: "st_owner s = 0" "st_lifecycle s \<in> {Queued, Yielding, Parked, Migrating}"
    and empty: "cell_lookup_pins c = 0" "contents (mailbox_queue (cell_mailbox c)) = []"
  obtains d' where "dir_detach_for_transfer Q pid d = (Ok (cell_value c), d')"
    "dir_ok contents capacity d'" "dir_find d' = (dir_find d)(pid := None)" "dir_has_room d'"
proof -
  note f = resolves_facts [OF r]
  have len: "mailbox_len Q (cell_mailbox c) = 0"
    using fifo_len [OF Q, of "mailbox_queue (cell_mailbox c)"] empty by (simp add: mailbox_len_def)
  let ?c = "if st_lifecycle s \<noteq> Migrating then cell_with Migrating (st_owner_generation s) 0 c else c"
  let ?d = "if st_lifecycle s \<noteq> Migrating then dir_write ?c d else d"
  have step: "(if st_lifecycle s \<noteq> Migrating
      then dir_transition_unowned pid [Queued, Yielding, Parked] Migrating else return_st ()) d
      = (Ok (), ?d)"
    using transition_unowned_law [OF r] idle by (auto simp: return_st_def)
  have "\<exists>s'. resolves contents capacity ?d pid ?c s'"
    using r resolves_with [OF r f(9), of 0] by auto
  then obtain s' where r': "resolves contents capacity ?d pid ?c s'" by blast
  note f' = resolves_facts [OF r']
  note h = dir_find_handle [OF dir_ok_parts(1) [OF f'(1)] f'(2)]
  note v = dir_vacate_law [OF f'(1,2)]
  have "dir_detach_for_transfer Q pid d
      = (Ok (cell_value c), dir_vacate pid (handle_slot (cell_handle ?c)) ?d)"
    using f h step idle empty len
    by (simp add: dir_detach_for_transfer_def read_st_def bind_st_def Let_def dir_vacate_def)
  moreover have "(dir_find ?d)(pid := None) = (dir_find d)(pid := None)"
    using dir_write_find [OF f(1,2), of "cell_with Migrating (st_owner_generation s) 0 c"] f(4,9)
    by auto
  ultimately show ?thesis using that v by metis
qed

end
