(* ===== verification/Process_Data.thy ===== *)
theory Process_Data
  imports Directory_Laws
begin

text \<open>
  One VM process: \<open>VmProcess\<close> of \<open>runtime/vm/process.rs\<close> with its state, exit reasons,
  messages and source locations, and the methods that change a single process
  (\<open>process/parking.rs\<close> included). The lemmas are about the two lanes of the mailbox, the
  selective receive and the suspension cycle.

  Error strings are values of \<open>vm_error\<close>: the format string of the code with the values
  that fill it. Characters are code points below 256.
\<close>

section \<open>Data\<close>

datatype fmt_arg = ANum u64 | ASize usize | AStr string | ADirectory VmActorDirectoryError

datatype vm_error = Msg string "fmt_arg list"

datatype VmExitReason =
    Normal
  | Error string
  | TypedError TvmBoundaryType ReplValue
  | Killed
  | ShutdownTimeout u64
  | MemoryLimitExceeded usize usize usize

datatype VmProcessResumeState = ResumeRunnable | ResumeBlocked | ResumeHibernated

datatype VmProcessState =
    Runnable
  | Blocked
  | Hibernated
  | Suspended VmProcessResumeState
  | Exited VmExitReason

datatype VmProcessRegistryError =
    EmptyName
  | NameNotRegistered string
  | MissingProcess VmProcessId
  | ExitedProcess VmProcessId
  | Conflict string VmProcessId

record VmProcessSource =
  src_module :: string
  src_function :: string
  src_arity :: usize
  src_source_path :: "string option"

record VmProcessLocation =
  loc_source :: VmProcessSource
  loc_instruction_offset :: usize

datatype VmMessagePriority = Ordinary | Priority

record VmManagedMailboxToken =
  managed_fragment_id :: u32
  managed_sender :: u64
  managed_receiver :: u64
  managed_accounted_bytes :: usize

record VmMessage =
  msg_id :: u64
  msg_publication_sequence :: u64
  msg_sender :: VmProcessId
  msg_payload :: ReplValue
  msg_boundary_type :: "TvmBoundaryType option"
  msg_managed_fragment :: "VmManagedMailboxToken option"
  msg_accounted_bytes :: usize
  msg_priority :: VmMessagePriority

record VmMessageDelivery =
  delivery_payload :: ReplValue
  delivery_boundary_type :: "TvmBoundaryType option"
  delivery_managed_fragment :: "VmManagedMailboxToken option"
  delivery_accounted_bytes :: usize
  delivery_priority :: VmMessagePriority

record VmProcess =
  proc_pid :: VmProcessId
  proc_parent :: "VmProcessId option"
  proc_source :: VmProcessSource
  proc_state :: VmProcessState
  proc_reductions :: u64
  proc_heap_bytes :: usize
  proc_cancellation_requested :: bool
  proc_resource_handles :: "string list"
  proc_execution_stack :: "VmProcessLocation list"
  proc_mailbox :: "VmMessage list"

text \<open>\<open>size_of::<VmManagedMailboxToken>()\<close>: three 8-byte fields and one of 4, aligned to 8.\<close>

definition MANAGED_TOKEN_SIZE :: usize where "MANAGED_TOKEN_SIZE = 32"

definition managed_mailbox_token_new :: "u32 \<Rightarrow> u64 \<Rightarrow> u64 \<Rightarrow> usize
    \<Rightarrow> (vm_error, VmManagedMailboxToken) outcome" where
  "managed_mailbox_token_new fragment_id sender receiver receiver_heap_bytes =
     (if fragment_id = 0 \<or> sender = 0 \<or> receiver = 0 then
        Err (Msg ''error[vm_managed_mailbox_token]: fragment and actor identities must be nonzero'' [])
      else bind_out
        (ok_or (Msg ''error[vm_managed_mailbox_token]: mailbox accounting exceeds usize'' [])
          (checked_add receiver_heap_bytes MANAGED_TOKEN_SIZE))
        (\<lambda>accounted_bytes. Ok \<lparr> managed_fragment_id = fragment_id, managed_sender = sender,
           managed_receiver = receiver, managed_accounted_bytes = accounted_bytes \<rparr>))"

fun is_exited :: "VmProcessState \<Rightarrow> bool" where
  "is_exited (Exited _) = True"
| "is_exited _ = False"

section \<open>Execution state\<close>

definition proc_current_location :: "VmProcess \<Rightarrow> ('e, VmProcessLocation) outcome" where
  "proc_current_location p = (if proc_execution_stack p = []
     then Panic ''every process retains a root execution frame''
     else Ok (last (proc_execution_stack p)))"

definition proc_set_current_location :: "VmProcessSource \<Rightarrow> usize
    \<Rightarrow> (VmProcess, 'e, unit) stateful" where
  "proc_set_current_location source instruction_offset p =
     (if proc_execution_stack p = [] then (Panic ''every process retains a root execution frame'', p)
      else (Ok (), p\<lparr> proc_execution_stack := butlast (proc_execution_stack p) @
        [\<lparr> loc_source = source, loc_instruction_offset = instruction_offset \<rparr>] \<rparr>))"

definition proc_enter_execution_frame :: "VmProcessSource \<Rightarrow> usize \<Rightarrow> usize
    \<Rightarrow> (VmProcess, vm_error, unit) stateful" where
  "proc_enter_execution_frame source instruction_offset return_instruction_offset p =
     (if is_exited (proc_state p) then
        (Err (Msg ''cannot enter an execution frame for an exited process'' []), p)
      else if proc_execution_stack p = [] then
        (Panic ''every process retains a root execution frame'', p)
      else
        let frame = last (proc_execution_stack p);
            caller = frame\<lparr> loc_instruction_offset := return_instruction_offset \<rparr>
        in (Ok (), p\<lparr> proc_execution_stack := butlast (proc_execution_stack p) @
             [caller, \<lparr> loc_source = source, loc_instruction_offset = instruction_offset \<rparr>] \<rparr>))"

definition proc_pop_execution_frame :: "(VmProcess, vm_error, VmProcessLocation) stateful" where
  "proc_pop_execution_frame p =
     (if length (proc_execution_stack p) = 1 then
        (Err (Msg ''cannot pop the root process execution frame'' []), p)
      else case vec_pop (proc_execution_stack p) of
             None \<Rightarrow> (Panic ''non-root execution stack contains a frame'', p)
           | Some (frame, rest) \<Rightarrow> (Ok frame, p\<lparr> proc_execution_stack := rest \<rparr>))"

definition proc_current_stacktrace :: "VmProcess \<Rightarrow> VmProcessLocation list" where
  "proc_current_stacktrace p = rev (proc_execution_stack p)"

definition proc_mailbox_len :: "VmProcess \<Rightarrow> nat" where
  "proc_mailbox_len p = length (proc_mailbox p)"

definition proc_block :: "VmProcess \<Rightarrow> VmProcess" where
  "proc_block p = (if proc_state p = Runnable then p\<lparr> proc_state := Blocked \<rparr> else p)"

definition proc_wake :: "VmProcess \<Rightarrow> VmProcess" where
  "proc_wake p = (case proc_state p of
     Blocked \<Rightarrow> p\<lparr> proc_state := Runnable \<rparr>
   | Hibernated \<Rightarrow> p\<lparr> proc_state := Runnable \<rparr>
   | Suspended ResumeBlocked \<Rightarrow> p\<lparr> proc_state := Suspended ResumeRunnable \<rparr>
   | Suspended ResumeHibernated \<Rightarrow> p\<lparr> proc_state := Suspended ResumeRunnable \<rparr>
   | Runnable \<Rightarrow> p
   | Suspended ResumeRunnable \<Rightarrow> p
   | Exited _ \<Rightarrow> p)"

definition proc_hibernate :: "(VmProcess, vm_error, unit) stateful" where
  "proc_hibernate p = (case proc_state p of
     Suspended _ \<Rightarrow> (Err (Msg ''cannot hibernate explicitly suspended process'' []), p)
   | Exited _ \<Rightarrow> (Err (Msg ''cannot hibernate exited process'' []), p)
   | _ \<Rightarrow> (Ok (), p\<lparr> proc_state := Hibernated \<rparr>))"

definition proc_suspend :: "(VmProcess, vm_error, unit) stateful" where
  "proc_suspend p = (case proc_state p of
     Runnable \<Rightarrow> (Ok (), p\<lparr> proc_state := Suspended ResumeRunnable \<rparr>)
   | Blocked \<Rightarrow> (Ok (), p\<lparr> proc_state := Suspended ResumeBlocked \<rparr>)
   | Hibernated \<Rightarrow> (Ok (), p\<lparr> proc_state := Suspended ResumeHibernated \<rparr>)
   | Suspended resume_state \<Rightarrow> (Ok (), p\<lparr> proc_state := Suspended resume_state \<rparr>)
   | Exited _ \<Rightarrow> (Err (Msg ''cannot suspend exited process'' []), p))"

fun resumed_state :: "VmProcessResumeState \<Rightarrow> VmProcessState" where
  "resumed_state ResumeRunnable = Runnable"
| "resumed_state ResumeBlocked = Blocked"
| "resumed_state ResumeHibernated = Hibernated"

definition proc_resume :: "(VmProcess, vm_error, VmProcessResumeState) stateful" where
  "proc_resume p = (case proc_state p of
     Suspended resume_state \<Rightarrow> (Ok resume_state, p\<lparr> proc_state := resumed_state resume_state \<rparr>)
   | _ \<Rightarrow> (Err (Msg ''process is not suspended'' []), p))"

definition proc_request_cancellation :: "VmProcess \<Rightarrow> VmProcess" where
  "proc_request_cancellation p = p\<lparr> proc_cancellation_requested := True \<rparr>"

definition proc_charge_reductions :: "u64 \<Rightarrow> VmProcess \<Rightarrow> VmProcess" where
  "proc_charge_reductions reductions p =
     p\<lparr> proc_reductions := saturating_add (proc_reductions p) reductions \<rparr>"

section \<open>Resources and exit\<close>

definition proc_add_resource_handle :: "string \<Rightarrow> VmProcess \<Rightarrow> VmProcess" where
  "proc_add_resource_handle handle p =
     p\<lparr> proc_resource_handles := proc_resource_handles p @ [handle] \<rparr>"

definition proc_remove_resource_handle :: "string \<Rightarrow> VmProcess \<Rightarrow> VmProcess" where
  "proc_remove_resource_handle handle p =
     (case position (\<lambda>resource. resource = handle) (proc_resource_handles p) of
        None \<Rightarrow> p
      | Some index \<Rightarrow> p\<lparr> proc_resource_handles := remove_at index (proc_resource_handles p) \<rparr>)"

definition proc_exit :: "VmExitReason \<Rightarrow> VmProcess \<Rightarrow> string list \<times> VmProcess" where
  "proc_exit reason p =
     (proc_resource_handles p,
      p\<lparr> proc_state := Exited reason, proc_mailbox := [], proc_heap_bytes := 0,
          proc_resource_handles := [] \<rparr>)"

section \<open>The mailbox\<close>

definition proc_receive_next :: "VmProcess \<Rightarrow> VmMessage option \<times> VmProcess" where
  "proc_receive_next p = (case proc_mailbox p of
     [] \<Rightarrow> (None, p)
   | m # rest \<Rightarrow> (Some m, p\<lparr> proc_mailbox := rest \<rparr>))"

definition proc_selective_receive :: "(VmMessage \<Rightarrow> bool) \<Rightarrow> VmProcess
    \<Rightarrow> VmMessage option \<times> VmProcess" where
  "proc_selective_receive predicate p = (case position predicate (proc_mailbox p) of
     None \<Rightarrow> (None, p)
   | Some index \<Rightarrow> (nth_opt (proc_mailbox p) index,
       p\<lparr> proc_mailbox := remove_at index (proc_mailbox p) \<rparr>))"

definition proc_integrate_message :: "VmMessage \<Rightarrow> VmProcess \<Rightarrow> VmProcess" where
  "proc_integrate_message message p = proc_wake (case msg_priority message of
     Ordinary \<Rightarrow> p\<lparr> proc_mailbox := proc_mailbox p @ [message] \<rparr>
   | Priority \<Rightarrow>
       (let insertion = (case position (\<lambda>queued. msg_priority queued = Ordinary) (proc_mailbox p) of
               Some index \<Rightarrow> index | None \<Rightarrow> length (proc_mailbox p))
        in p\<lparr> proc_mailbox := insert_at insertion message (proc_mailbox p) \<rparr>))"

definition proc_mailbox_accounted_bytes :: "VmProcess \<Rightarrow> (vm_error, usize) outcome" where
  "proc_mailbox_accounted_bytes p = fold (\<lambda>message total. bind_out total (\<lambda>total.
       ok_or (Msg ''process {} mailbox accounted byte overflow'' [ANum (proc_pid p)])
         (checked_add total (msg_accounted_bytes message)))) (proc_mailbox p) (Ok 0)"

section \<open>Lemmas on the lanes of the mailbox\<close>

definition is_priority :: "VmMessage \<Rightarrow> bool" where
  "is_priority m = (msg_priority m = Priority)"

text \<open>All priority messages stand before all ordinary ones.\<close>

definition lanes_ok :: "VmMessage list \<Rightarrow> bool" where
  "lanes_ok ms \<longleftrightarrow> (\<exists>ps os. ms = ps @ os \<and> (\<forall>m\<in>set ps. is_priority m) \<and> (\<forall>m\<in>set os. \<not> is_priority m))"

text \<open>The mailbox after a message arrives, as one list expression.\<close>

definition enqueue_lane :: "VmMessage \<Rightarrow> VmMessage list \<Rightarrow> VmMessage list" where
  "enqueue_lane m ms = (if is_priority m
     then takeWhile is_priority ms @ m # dropWhile is_priority ms
     else ms @ [m])"

lemma not_priority: "(msg_priority m = Ordinary) = (\<not> is_priority m)"
  by (cases "msg_priority m") (simp_all add: is_priority_def)

lemma position_takeWhile:
  "(case position (\<lambda>x. \<not> P x) xs of Some i \<Rightarrow> i | None \<Rightarrow> length xs) = length (takeWhile P xs)"
  by (induction xs) (auto split: option.splits)

lemma proc_wake_mailbox [simp]:
  "proc_mailbox (proc_wake p) = proc_mailbox p"
  "proc_pid (proc_wake p) = proc_pid p"
  "proc_resource_handles (proc_wake p) = proc_resource_handles p"
  "proc_execution_stack (proc_wake p) = proc_execution_stack p"
  "proc_parent (proc_wake p) = proc_parent p"
  "proc_source (proc_wake p) = proc_source p"
  "is_exited (proc_state (proc_wake p)) = is_exited (proc_state p)"
  by (simp_all add: proc_wake_def split: VmProcessState.splits VmProcessResumeState.splits)

lemma insert_at_takeWhile:
  "insert_at (length (takeWhile P xs)) x xs = takeWhile P xs @ x # dropWhile P xs"
  unfolding insert_at_def dropWhile_eq_drop by (simp add: takeWhile_eq_take [symmetric])

lemma proc_integrate_mailbox:
  "proc_mailbox (proc_integrate_message m p) = enqueue_lane m (proc_mailbox p)"
proof (cases "msg_priority m")
  case Ordinary
  then show ?thesis
    by (simp add: proc_integrate_message_def enqueue_lane_def is_priority_def)
next
  case Priority
  have "(\<lambda>q. msg_priority q = Ordinary) = (\<lambda>q. \<not> is_priority q)"
    by (simp add: not_priority)
  then show ?thesis
    using Priority position_takeWhile [where P = is_priority and xs = "proc_mailbox p"]
    by (simp add: proc_integrate_message_def enqueue_lane_def is_priority_def Let_def
        insert_at_takeWhile)
qed

lemma proc_integrate_simps [simp]:
  "proc_pid (proc_integrate_message m p) = proc_pid p"
  "proc_resource_handles (proc_integrate_message m p) = proc_resource_handles p"
  "proc_execution_stack (proc_integrate_message m p) = proc_execution_stack p"
  "proc_parent (proc_integrate_message m p) = proc_parent p"
  "proc_source (proc_integrate_message m p) = proc_source p"
  "is_exited (proc_state (proc_integrate_message m p)) = is_exited (proc_state p)"
  by (cases "msg_priority m"; simp add: proc_integrate_message_def Let_def)+

lemma enqueue_lane_ok: "lanes_ok ms \<Longrightarrow> lanes_ok (enqueue_lane m ms)"
proof -
  assume "lanes_ok ms"
  then obtain ps os where ms: "ms = ps @ os" "\<forall>m\<in>set ps. is_priority m" "\<forall>m\<in>set os. \<not> is_priority m"
    by (auto simp: lanes_ok_def)
  have w: "takeWhile is_priority ms = ps" "dropWhile is_priority ms = os"
    using ms by (cases os; simp)+
  show ?thesis
  proof (cases "is_priority m")
    case True
    then have "enqueue_lane m ms = (ps @ [m]) @ os" by (simp add: enqueue_lane_def w)
    then show ?thesis using True ms unfolding lanes_ok_def by (intro exI [of _ "ps @ [m]"] exI [of _ os]) auto
  next
    case False
    then have "enqueue_lane m ms = ps @ (os @ [m])" by (simp add: enqueue_lane_def ms)
    then show ?thesis using False ms unfolding lanes_ok_def by (intro exI [of _ ps] exI [of _ "os @ [m]"]) auto
  qed
qed

text \<open>Each lane is a queue: a message goes to the end of its own lane and leaves the other alone.\<close>

lemma enqueue_lane_filter:
  "lanes_ok ms \<Longrightarrow> filter is_priority (enqueue_lane m ms)
     = filter is_priority ms @ (if is_priority m then [m] else [])"
  "lanes_ok ms \<Longrightarrow> filter (\<lambda>m. \<not> is_priority m) (enqueue_lane m ms)
     = filter (\<lambda>m. \<not> is_priority m) ms @ (if is_priority m then [] else [m])"
proof -
  assume "lanes_ok ms"
  then obtain ps os where ms: "ms = ps @ os" "\<forall>m\<in>set ps. is_priority m" "\<forall>m\<in>set os. \<not> is_priority m"
    by (auto simp: lanes_ok_def)
  have w: "takeWhile is_priority ms = ps" "dropWhile is_priority ms = os"
    using ms by (cases os; simp)+
  have f: "filter is_priority ps = ps" "filter is_priority os = []"
      "filter (\<lambda>m. \<not> is_priority m) ps = []" "filter (\<lambda>m. \<not> is_priority m) os = os"
    using ms by (auto simp: filter_empty_conv filter_id_conv)
  show "filter is_priority (enqueue_lane m ms)
      = filter is_priority ms @ (if is_priority m then [m] else [])"
    by (simp add: enqueue_lane_def w) (simp add: ms f)
  show "filter (\<lambda>m. \<not> is_priority m) (enqueue_lane m ms)
      = filter (\<lambda>m. \<not> is_priority m) ms @ (if is_priority m then [] else [m])"
    by (simp add: enqueue_lane_def w) (simp add: ms f)
qed

lemma remove_at_split:
  "i < length xs \<Longrightarrow> xs = take i xs @ xs ! i # drop (Suc i) xs"
  by (rule id_take_nth_drop)

lemma lanes_ok_remove: "lanes_ok (xs @ m # ys) \<Longrightarrow> lanes_ok (xs @ ys)"
proof -
  assume "lanes_ok (xs @ m # ys)"
  then obtain ps os where ms: "xs @ m # ys = ps @ os" "\<forall>m\<in>set ps. is_priority m"
      "\<forall>m\<in>set os. \<not> is_priority m"
    by (auto simp: lanes_ok_def)
  from ms(1) consider us where "ps = xs @ m # us" "ys = us @ os"
    | us where "xs = ps @ us" "os = us @ m # ys"
    by (auto simp: append_eq_append_conv2 Cons_eq_append_conv)
  then show ?thesis
  proof cases
    case 1
    then show ?thesis
      unfolding lanes_ok_def using ms by (intro exI [of _ "xs @ us"] exI [of _ os]) auto
  next
    case 2
    then show ?thesis
      unfolding lanes_ok_def using ms by (intro exI [of _ ps] exI [of _ "us @ ys"]) auto
  qed
qed

text \<open>What a selective receive returns and leaves.\<close>

lemma selective_receive_Some:
  assumes "proc_selective_receive P p = (Some m, p')"
  obtains skipped rest where "proc_mailbox p = skipped @ m # rest" "P m" "\<forall>m'\<in>set skipped. \<not> P m'"
    "p' = p\<lparr> proc_mailbox := skipped @ rest \<rparr>"
proof -
  obtain i where i: "position P (proc_mailbox p) = Some i" "nth_opt (proc_mailbox p) i = Some m"
      "p' = p\<lparr> proc_mailbox := remove_at i (proc_mailbox p) \<rparr>"
    using assms by (auto simp: proc_selective_receive_def split: option.splits)
  then have m: "i < length (proc_mailbox p)" "m = proc_mailbox p ! i"
      "P (proc_mailbox p ! i)" "\<forall>j<i. \<not> P (proc_mailbox p ! j)"
    by (auto simp: nth_opt_def position_Some split: if_splits)
  show ?thesis
    by (rule that [of "take i (proc_mailbox p)" "drop (Suc i) (proc_mailbox p)"])
      (use i m remove_at_split [OF m(1)] in \<open>auto simp: remove_at_def in_set_conv_nth\<close>)
qed

lemma selective_receive_None:
  "fst (proc_selective_receive P p) = None \<longleftrightarrow> (\<forall>m\<in>set (proc_mailbox p). \<not> P m)"
  by (auto simp: proc_selective_receive_def position_None nth_opt_def position_Some
      split: option.splits)

section \<open>Suspension and exit\<close>

lemma suspend_resume:
  assumes "\<not> is_exited (proc_state p)" "\<forall>r. proc_state p \<noteq> Suspended r"
  shows "\<exists>r q. proc_suspend p = (Ok (), q) \<and> proc_resume q = (Ok r, p)"
  using assms by (cases p; cases "proc_state p") (simp_all add: proc_suspend_def proc_resume_def)

lemma proc_exit_simps [simp]:
  "fst (proc_exit reason p) = proc_resource_handles p"
  "proc_state (snd (proc_exit reason p)) = Exited reason"
  "proc_mailbox (snd (proc_exit reason p)) = []"
  "proc_resource_handles (snd (proc_exit reason p)) = []"
  "proc_pid (snd (proc_exit reason p)) = proc_pid p"
  "proc_execution_stack (snd (proc_exit reason p)) = proc_execution_stack p"
  by (simp_all add: proc_exit_def)

end
