(* ===== verification/Process_Table.thy ===== *)
theory Process_Table
  imports Process_Data
begin

text \<open>
  The process table of \<open>runtime/vm/process.rs\<close>: the actor directory with the counters of
  process and message identities and the registered names, the delivery of messages,
  exit and reaping (\<open>process/actor_ownership.rs\<close>), inspection (\<open>process/snapshot.rs\<close>) and
  the transfer of a process between tables (\<open>process/transfer.rs\<close>). \<open>Q\<close> is the queue the
  mailboxes are built on. The second half shows that a table at rest behaves as a map
  from identities to processes.
\<close>

record 'q VmProcessTable =
  pt_next_pid :: u64
  pt_next_message_id :: u64
  pt_processes :: "(VmProcess, 'q) VmActorDirectory"
  pt_names :: "(string, VmProcessId) btree"

type_synonym 'q queue_of = "('q, VmMessage VmPublishedFragment) queue_ops"

definition VM_CONTROL_PLANE_OWNER :: u64 where "VM_CONTROL_PLANE_OWNER = push_bit 20 1 - 1"

definition process_table_default :: "'q VmProcessTable" where
  "process_table_default = \<lparr> pt_next_pid = 0, pt_next_message_id = 0,
     pt_processes = dir_default, pt_names = [] \<rparr>"

text \<open>An operation of the directory, run on the table.\<close>

definition on_processes :: "((VmProcess, 'q) VmActorDirectory, 'e, 'a) stateful
    \<Rightarrow> ('q VmProcessTable, 'e, 'a) stateful" where
  "on_processes f t = (case f (pt_processes t) of (r, d) \<Rightarrow> (r, t\<lparr> pt_processes := d \<rparr>))"

definition actor_directory_error :: "VmActorDirectoryError \<Rightarrow> vm_error" where
  "actor_directory_error error =
     Msg ''actor directory ownership error: {error:?}'' [ADirectory error]"

definition on_directory :: "((VmProcess, 'q) VmActorDirectory, VmActorDirectoryError, 'a) stateful
    \<Rightarrow> ('q VmProcessTable, vm_error, 'a) stateful" where
  "on_directory f = map_err_st actor_directory_error (on_processes f)"

section \<open>Lookups\<close>

definition pt_get :: "'q VmProcessTable \<Rightarrow> VmProcessId \<Rightarrow> VmProcess option" where
  "pt_get t pid = dir_get (pt_processes t) pid"

definition pt_contains :: "'q VmProcessTable \<Rightarrow> VmProcessId \<Rightarrow> bool" where
  "pt_contains t pid = dir_contains (pt_processes t) pid"

definition live_process_ids :: "'q VmProcessTable \<Rightarrow> VmProcessId list" where
  "live_process_ids t =
     map fst (filter (\<lambda>e. \<not> is_exited (proc_state (snd e))) (dir_iter (pt_processes t)))"

definition exited_process_ids :: "'q VmProcessTable \<Rightarrow> VmProcessId list" where
  "exited_process_ids t =
     map fst (filter (\<lambda>e. is_exited (proc_state (snd e))) (dir_iter (pt_processes t)))"

definition is_alive :: "'q VmProcessTable \<Rightarrow> VmProcessId \<Rightarrow> bool" where
  "is_alive t pid = (case pt_get t pid of None \<Rightarrow> False | Some p \<Rightarrow> \<not> is_exited (proc_state p))"

definition names_for_process :: "'q VmProcessTable \<Rightarrow> VmProcessId \<Rightarrow> string list" where
  "names_for_process t pid = map fst (filter (\<lambda>e. snd e = pid) (pt_names t))"

definition lookup_name :: "'q VmProcessTable \<Rightarrow> string \<Rightarrow> VmProcessId option" where
  "lookup_name t name = bt_get (pt_names t) name"

record VmProcessSnapshot =
  snap_pid :: VmProcessId
  snap_parent :: "VmProcessId option"
  snap_source :: VmProcessSource
  snap_state :: VmProcessState
  snap_reductions :: u64
  snap_heap_bytes :: usize
  snap_mailbox_messages :: nat
  snap_cancellation_requested :: bool
  snap_resource_handles :: "string list"
  snap_registered_names :: "string list"
  snap_current_location :: VmProcessLocation
  snap_current_stacktrace :: "VmProcessLocation list"

definition snapshot_process :: "'q VmProcessTable \<Rightarrow> VmProcess
    \<Rightarrow> (VmProcessRegistryError, VmProcessSnapshot) outcome" where
  "snapshot_process t p = bind_out (proc_current_location p) (\<lambda>location. Ok
     \<lparr> snap_pid = proc_pid p, snap_parent = proc_parent p, snap_source = proc_source p,
       snap_state = proc_state p, snap_reductions = proc_reductions p,
       snap_heap_bytes = proc_heap_bytes p, snap_mailbox_messages = proc_mailbox_len p,
       snap_cancellation_requested = proc_cancellation_requested p,
       snap_resource_handles = proc_resource_handles p,
       snap_registered_names = names_for_process t (proc_pid p),
       snap_current_location = location,
       snap_current_stacktrace = proc_current_stacktrace p \<rparr>)"

text \<open>The inspection error has the one case \<open>MissingProcess\<close>.\<close>

definition process_snapshot :: "'q VmProcessTable \<Rightarrow> VmProcessId
    \<Rightarrow> (VmProcessRegistryError, VmProcessSnapshot) outcome" where
  "process_snapshot t pid = bind_out (ok_or (MissingProcess pid) (pt_get t pid)) (snapshot_process t)"

section \<open>Names\<close>

definition ensure_live_process :: "'q VmProcessTable \<Rightarrow> VmProcessId
    \<Rightarrow> (VmProcessRegistryError, unit) outcome" where
  "ensure_live_process t pid = (case pt_get t pid of
     None \<Rightarrow> Err (MissingProcess pid)
   | Some p \<Rightarrow> if is_exited (proc_state p) then Err (ExitedProcess pid) else Ok ())"

definition register_name :: "string \<Rightarrow> VmProcessId
    \<Rightarrow> ('q VmProcessTable, VmProcessRegistryError, unit) stateful" where
  "register_name name pid t =
     (if blank name then (Err EmptyName, t)
      else bind_st (read_st (\<lambda>t. ensure_live_process t pid)) (\<lambda>_ t.
        case bt_get (pt_names t) name of
          Some existing \<Rightarrow> if existing = pid then (Ok (), t) else (Err (Conflict name existing), t)
        | None \<Rightarrow> (Ok (), t\<lparr> pt_names := bt_insert name pid (pt_names t) \<rparr>)) t)"

definition unregister_name :: "string
    \<Rightarrow> ('q VmProcessTable, VmProcessRegistryError, VmProcessId) stateful" where
  "unregister_name name t = (case bt_get (pt_names t) name of
     None \<Rightarrow> (Err (NameNotRegistered name), t)
   | Some pid \<Rightarrow> (Ok pid, t\<lparr> pt_names := bt_remove name (pt_names t) \<rparr>))"

definition remove_registered_names :: "VmProcessId \<Rightarrow> 'q VmProcessTable
    \<Rightarrow> string list \<times> 'q VmProcessTable" where
  "remove_registered_names pid t =
     (let names = names_for_process t pid
      in (names, t\<lparr> pt_names := bt_remove_all names (pt_names t) \<rparr>))"

definition unregister_process_names :: "VmProcessId
    \<Rightarrow> ('q VmProcessTable, VmProcessRegistryError, string list) stateful" where
  "unregister_process_names pid t =
     (if \<not> pt_contains t pid then (Err (MissingProcess pid), t)
      else case remove_registered_names pid t of (names, t') \<Rightarrow> (Ok names, t'))"

section \<open>Spawning\<close>

definition pt_spawn :: "'q queue_of \<Rightarrow> VmProcessId option \<Rightarrow> VmProcessSource
    \<Rightarrow> ('q VmProcessTable, vm_error, VmProcessId) stateful" where
  "pt_spawn Q parent source t =
     (let t = t\<lparr> pt_next_pid := saturating_add (pt_next_pid t) 1 \<rparr>;
          pid = pt_next_pid t;
          root_location = \<lparr> loc_source = source, loc_instruction_offset = 0 \<rparr>;
          process = \<lparr> proc_pid = pid, proc_parent = parent, proc_source = source,
            proc_state = Runnable, proc_reductions = 0, proc_heap_bytes = 0,
            proc_cancellation_requested = False, proc_resource_handles = [],
            proc_execution_stack = [root_location], proc_mailbox = [] \<rparr>
      in bind_st (expect_st ''new process identity must have a free actor directory slot''
           (on_processes (dir_insert Q pid process))) (\<lambda>_. return_st pid) t)"

definition spawn_root :: "'q queue_of \<Rightarrow> VmProcessSource
    \<Rightarrow> ('q VmProcessTable, vm_error, VmProcessId) stateful" where
  "spawn_root Q = pt_spawn Q None"

definition spawn_child :: "'q queue_of \<Rightarrow> VmProcessId \<Rightarrow> VmProcessSource
    \<Rightarrow> ('q VmProcessTable, vm_error, VmProcessId) stateful" where
  "spawn_child Q parent source t = (case pt_get t parent of
     None \<Rightarrow> (Err (Msg ''missing parent process {}'' [ANum parent]), t)
   | Some parent_process \<Rightarrow>
       if is_exited (proc_state parent_process) then
         (Err (Msg ''parent process {} has exited'' [ANum parent]), t)
       else pt_spawn Q (Some parent) source t)"

section \<open>Ownership and control\<close>

definition integrate_publication :: "VmActorPublication \<Rightarrow> VmMessage \<Rightarrow> VmProcess \<Rightarrow> VmProcess" where
  "integrate_publication publication message process = proc_integrate_message
     (message\<lparr> msg_publication_sequence := publication_sequence publication \<rparr>) process"

definition integrate_actor_mailbox :: "'q queue_of \<Rightarrow> VmActorMutatorToken
    \<Rightarrow> ('q VmProcessTable, vm_error, usize) stateful" where
  "integrate_actor_mailbox Q token =
     on_directory (dir_drain_publications Q token integrate_publication)"

text \<open>
  The ownership is released before the outcome of the work done under it is looked at.
\<close>

definition integrate_process_mailbox :: "'q queue_of \<Rightarrow> VmProcessId
    \<Rightarrow> ('q VmProcessTable, vm_error, usize) stateful" where
  "integrate_process_mailbox Q pid =
     bind_st (on_directory (dir_acquire_control_mutator pid VM_CONTROL_PLANE_OWNER)) (\<lambda>token t.
       case integrate_actor_mailbox Q token t of
         (Panic p, t) \<Rightarrow> (Panic p, t)
       | (result, t) \<Rightarrow> bind_st (on_directory (dir_release_control_mutator token))
           (\<lambda>_. read_st (\<lambda>_. result)) t)"

definition integrate_process_mailbox_if_unowned :: "'q queue_of \<Rightarrow> VmProcessId
    \<Rightarrow> ('q VmProcessTable, vm_error, bool) stateful" where
  "integrate_process_mailbox_if_unowned Q pid t =
     (case on_processes (dir_acquire_control_mutator pid VM_CONTROL_PLANE_OWNER) t of
        (Err (AlreadyOwned _ _), t) \<Rightarrow> (Ok False, t)
      | (Err error, t) \<Rightarrow> (Err (actor_directory_error error), t)
      | (Panic p, t) \<Rightarrow> (Panic p, t)
      | (Ok token, t) \<Rightarrow>
          (case integrate_actor_mailbox Q token t of
             (Panic p, t) \<Rightarrow> (Panic p, t)
           | (result, t) \<Rightarrow> bind_st (on_directory (dir_release_control_mutator token))
               (\<lambda>_. read_st (\<lambda>_. bind_out result (\<lambda>_. Ok True))) t))"

text \<open>
  The closure returns its own outcome with the process it leaves. A panic in it releases
  the ownership and is raised again; an error it returns is the error of the call, as
  the callers make it with \<open>??\<close>.
\<close>

definition with_process_control_mutator :: "VmProcessId \<Rightarrow> (VmProcess, vm_error, 'r) stateful
    \<Rightarrow> ('q VmProcessTable, vm_error, 'r) stateful" where
  "with_process_control_mutator pid mutate =
     bind_st (on_directory (dir_acquire_control_mutator pid VM_CONTROL_PLANE_OWNER)) (\<lambda>token.
       bind_st (on_directory (dir_with_mutator token mutate)) (\<lambda>result.
         case result of
           Panic payload \<Rightarrow>
             bind_st (expect_st ''panicking control mutation must release its current owner''
               (on_processes (dir_release_control_mutator token))) (\<lambda>_ t. (Panic payload, t))
         | _ \<Rightarrow> bind_st (on_directory (dir_release_control_mutator token))
             (\<lambda>_. read_st (\<lambda>_. result))))"

definition mark_actor_queued :: "VmProcessId \<Rightarrow> ('q VmProcessTable, vm_error, unit) stateful" where
  "mark_actor_queued pid = on_directory (dir_mark_queued pid)"

definition acquire_actor_mutator :: "VmProcessId \<Rightarrow> u64
    \<Rightarrow> ('q VmProcessTable, vm_error, VmActorMutatorToken) stateful" where
  "acquire_actor_mutator pid owner = on_directory (dir_acquire_mutator pid owner)"

definition with_actor_mutator :: "VmActorMutatorToken \<Rightarrow> (VmProcess \<Rightarrow> 'r \<times> VmProcess)
    \<Rightarrow> ('q VmProcessTable, vm_error, 'r) stateful" where
  "with_actor_mutator token mutate = on_directory (dir_with_mutator token mutate)"

definition release_actor_mutator :: "'q queue_of \<Rightarrow> VmActorMutatorToken \<Rightarrow> VmActorLifecycle
    \<Rightarrow> ('q VmProcessTable, vm_error, VmActorLifecycle) stateful" where
  "release_actor_mutator Q token lifecycle = on_directory (dir_release_mutator Q token lifecycle)"

section \<open>Exit and reaping\<close>

definition pt_exit_process :: "VmProcessId \<Rightarrow> VmExitReason
    \<Rightarrow> ('q VmProcessTable, vm_error, string list) stateful" where
  "pt_exit_process pid reason t =
     (if \<not> pt_contains t pid then (Err (Msg ''missing process {}'' [ANum pid]), t)
      else
        bind_st (on_directory (dir_mark_exiting pid)) (\<lambda>_.
        bind_st (with_process_control_mutator pid
            (\<lambda>p. case proc_exit reason p of (handles, p') \<Rightarrow> (Ok handles, p'))) (\<lambda>cleanup.
        bind_st (on_directory (dir_mark_retired pid)) (\<lambda>_ t.
          (Ok cleanup, snd (remove_registered_names pid t))))) t)"

definition reap_exited :: "VmProcessId \<Rightarrow> ('q VmProcessTable, vm_error, unit) stateful" where
  "reap_exited pid t = (case pt_get t pid of
     None \<Rightarrow> (Err (Msg ''missing process {}'' [ANum pid]), t)
   | Some process \<Rightarrow>
       if \<not> is_exited (proc_state process) then
         (Err (Msg ''cannot reap live process {}'' [ANum pid]), t)
       else bind_st (on_directory (dir_reclaim pid)) (\<lambda>_. return_st ()) t)"

section \<open>Messages\<close>

definition validate_sender :: "'q VmProcessTable \<Rightarrow> VmProcessId \<Rightarrow> (vm_error, unit) outcome" where
  "validate_sender t sender = (case pt_get t sender of
     None \<Rightarrow> Err (Msg ''missing sender process {}'' [ANum sender])
   | Some p \<Rightarrow> if is_exited (proc_state p)
       then Err (Msg ''sender process {} has exited'' [ANum sender]) else Ok ())"

definition validate_recipient :: "'q VmProcessTable \<Rightarrow> VmProcessId \<Rightarrow> (vm_error, unit) outcome" where
  "validate_recipient t recipient = (case pt_get t recipient of
     None \<Rightarrow> Err (Msg ''missing recipient process {}'' [ANum recipient])
   | Some p \<Rightarrow> if is_exited (proc_state p)
       then Err (Msg ''recipient process {} has exited'' [ANum recipient]) else Ok ())"

definition validate_send :: "'q VmProcessTable \<Rightarrow> VmProcessId \<Rightarrow> VmProcessId
    \<Rightarrow> (vm_error, unit) outcome" where
  "validate_send t sender recipient =
     bind_out (validate_sender t sender) (\<lambda>_. validate_recipient t recipient)"

definition enqueue_message :: "'q queue_of \<Rightarrow> VmProcessId \<Rightarrow> VmProcessId \<Rightarrow> VmMessageDelivery
    \<Rightarrow> ('q VmProcessTable, vm_error, u64) stateful" where
  "enqueue_message Q sender recipient delivery t =
     (let message_id = saturating_add (pt_next_message_id t) 1;
          message = \<lparr> msg_id = message_id, msg_publication_sequence = 0, msg_sender = sender,
            msg_payload = delivery_payload delivery,
            msg_boundary_type = delivery_boundary_type delivery,
            msg_managed_fragment = delivery_managed_fragment delivery,
            msg_accounted_bytes = delivery_accounted_bytes delivery,
            msg_priority = delivery_priority delivery \<rparr>
      in bind_st (map_err_st
             (\<lambda>error. Msg ''actor mailbox publication error: {error:?}'' [ADirectory error])
             (on_processes (dir_publish_fragment Q recipient message))) (\<lambda>_ t.
           bind_st (integrate_process_mailbox_if_unowned Q recipient) (\<lambda>_. return_st message_id)
             (t\<lparr> pt_next_message_id := message_id \<rparr>)) t)"

definition send_typed :: "'q queue_of \<Rightarrow> VmProcessId \<Rightarrow> VmProcessId \<Rightarrow> VmMessageDelivery
    \<Rightarrow> ('q VmProcessTable, vm_error, u64) stateful" where
  "send_typed Q sender recipient delivery =
     bind_st (read_st (\<lambda>t. validate_send t sender recipient)) (\<lambda>_.
       enqueue_message Q sender recipient delivery)"

definition plain_delivery :: "ReplValue \<Rightarrow> usize \<Rightarrow> VmMessagePriority \<Rightarrow> VmMessageDelivery" where
  "plain_delivery payload accounted_bytes priority =
     \<lparr> delivery_payload = payload, delivery_boundary_type = None,
       delivery_managed_fragment = None, delivery_accounted_bytes = accounted_bytes,
       delivery_priority = priority \<rparr>"

definition send_accounted :: "'q queue_of \<Rightarrow> VmProcessId \<Rightarrow> VmProcessId \<Rightarrow> ReplValue \<Rightarrow> usize
    \<Rightarrow> ('q VmProcessTable, vm_error, u64) stateful" where
  "send_accounted Q sender recipient payload accounted_bytes =
     send_typed Q sender recipient (plain_delivery payload accounted_bytes Ordinary)"

definition send_message :: "'q queue_of \<Rightarrow> VmProcessId \<Rightarrow> VmProcessId \<Rightarrow> ReplValue
    \<Rightarrow> ('q VmProcessTable, vm_error, u64) stateful" where
  "send_message Q sender recipient payload = send_accounted Q sender recipient payload 0"

definition send_priority_accounted :: "'q queue_of \<Rightarrow> VmProcessId \<Rightarrow> VmProcessId \<Rightarrow> ReplValue
    \<Rightarrow> usize \<Rightarrow> ('q VmProcessTable, vm_error, u64) stateful" where
  "send_priority_accounted Q sender recipient payload accounted_bytes =
     send_typed Q sender recipient (plain_delivery payload accounted_bytes Priority)"

definition send_typed_accounted :: "'q queue_of \<Rightarrow> VmProcessId \<Rightarrow> VmProcessId \<Rightarrow> ReplValue
    \<Rightarrow> TvmBoundaryType \<Rightarrow> usize \<Rightarrow> ('q VmProcessTable, vm_error, u64) stateful" where
  "send_typed_accounted Q sender recipient payload boundary_type accounted_bytes =
     send_typed Q sender recipient
       ((plain_delivery payload accounted_bytes Ordinary)
          \<lparr> delivery_boundary_type := Some boundary_type \<rparr>)"

definition send_typed_managed_accounted :: "'q queue_of \<Rightarrow> VmProcessId \<Rightarrow> VmProcessId
    \<Rightarrow> VmManagedMailboxToken \<Rightarrow> TvmBoundaryType \<Rightarrow> usize
    \<Rightarrow> ('q VmProcessTable, vm_error, u64) stateful" where
  "send_typed_managed_accounted Q sender recipient fragment boundary_type accounted_bytes =
     send_typed Q sender recipient
       ((plain_delivery VUnit accounted_bytes Ordinary)
          \<lparr> delivery_boundary_type := Some boundary_type,
            delivery_managed_fragment := Some fragment \<rparr>)"

definition send_system :: "'q queue_of \<Rightarrow> VmMessagePriority \<Rightarrow> VmProcessId \<Rightarrow> VmProcessId
    \<Rightarrow> ReplValue \<Rightarrow> ('q VmProcessTable, vm_error, u64) stateful" where
  "send_system Q priority origin recipient payload t =
     (if \<not> pt_contains t origin then
        (Err (Msg ''missing system message origin {}'' [ANum origin]), t)
      else bind_st (read_st (\<lambda>t. validate_recipient t recipient)) (\<lambda>_.
        enqueue_message Q origin recipient (plain_delivery payload 0 priority)) t)"

definition send_system_message :: "'q queue_of \<Rightarrow> VmProcessId \<Rightarrow> VmProcessId \<Rightarrow> ReplValue
    \<Rightarrow> ('q VmProcessTable, vm_error, u64) stateful" where
  "send_system_message Q = send_system Q Ordinary"

definition send_priority_system_message :: "'q queue_of \<Rightarrow> VmProcessId \<Rightarrow> VmProcessId \<Rightarrow> ReplValue
    \<Rightarrow> ('q VmProcessTable, vm_error, u64) stateful" where
  "send_priority_system_message Q = send_system Q Priority"

section \<open>Transfer between tables\<close>

record VmProcessTransfer =
  transfer_process :: VmProcess
  transfer_names :: "string list"
  transfer_process_identity_watermark :: u64
  transfer_message_identity_watermark :: u64

definition detach_process_for_transfer :: "'q queue_of \<Rightarrow> VmProcessId
    \<Rightarrow> ('q VmProcessTable, vm_error, VmProcessTransfer) stateful" where
  "detach_process_for_transfer Q pid =
     bind_st (integrate_process_mailbox Q pid) (\<lambda>_.
     bind_st (read_st (\<lambda>t. Ok (names_for_process t pid))) (\<lambda>names.
     bind_st (map_err_st
         (\<lambda>error. Msg ''process transfer detach failed: {error:?}'' [ADirectory error])
         (on_processes (dir_detach_for_transfer Q pid))) (\<lambda>process t.
       (Ok \<lparr> transfer_process = process, transfer_names = names,
             transfer_process_identity_watermark = pt_next_pid t,
             transfer_message_identity_watermark = pt_next_message_id t \<rparr>,
        t\<lparr> pt_names := bt_remove_all names (pt_names t) \<rparr>))))"

fun check_transfer_names :: "(string, VmProcessId) btree \<Rightarrow> string list \<Rightarrow> (vm_error, unit) outcome" where
  "check_transfer_names m [] = Ok ()"
| "check_transfer_names m (name # names) = (case bt_get m name of
     Some existing \<Rightarrow> Err (Msg ''process transfer name `{name}` is owned by process {}''
       [AStr name, ANum existing])
   | None \<Rightarrow> check_transfer_names m names)"

definition validate_process_import :: "'q VmProcessTable \<Rightarrow> VmProcessTransfer
    \<Rightarrow> (vm_error, unit) outcome" where
  "validate_process_import t transfer =
     (let pid = proc_pid (transfer_process transfer) in
      if pid = 0 then Err (Msg ''process transfer owner identity must be nonzero'' [])
      else if pt_contains t pid then
        Err (Msg ''process transfer destination already contains process {}'' [ANum pid])
      else check_transfer_names (pt_names t) (transfer_names transfer))"

text \<open>A refused import hands the transfer back beside the reason.\<close>

definition import_process_transfer :: "'q queue_of \<Rightarrow> VmProcessTransfer
    \<Rightarrow> ('q VmProcessTable, vm_error \<times> VmProcessTransfer, unit) stateful" where
  "import_process_transfer Q transfer =
     bind_st (read_st (\<lambda>t. map_err (\<lambda>reason. (reason, transfer)) (validate_process_import t transfer)))
       (\<lambda>_.
     let pid = proc_pid (transfer_process transfer) in
     bind_st (map_err_st (\<lambda>(error, process).
           (Msg ''process transfer import failed: {error:?}'' [ADirectory error],
            transfer\<lparr> transfer_process := process \<rparr>))
         (on_processes (dir_import_transferred Q pid (transfer_process transfer)))) (\<lambda>_ t.
       (Ok (), t\<lparr>
          pt_next_pid := max (max (pt_next_pid t) (transfer_process_identity_watermark transfer)) pid,
          pt_next_message_id := max (pt_next_message_id t)
            (transfer_message_identity_watermark transfer),
          pt_names := fold (\<lambda>name. bt_insert name pid) (transfer_names transfer) (pt_names t) \<rparr>)))"

end
