(* ===== verification/Process_Laws.thy ===== *)
theory Process_Laws
  imports Process_Table
begin

text \<open>
  The process table at rest: no scheduler owns a process, every published message has
  been integrated, and an exited process is a retired tombstone. In such a table each
  operation is a map operation on identities, and leaves the table at rest. The locale
  \<open>process_store\<close> states these laws as the contract the failure runtime, the scheduler and
  the timers rely on; its interpretation on the table discharges them.
\<close>

section \<open>The invariant\<close>

definition proc_ok :: "VmProcess \<Rightarrow> bool" where
  "proc_ok p \<longleftrightarrow> proc_execution_stack p \<noteq> [] \<and> lanes_ok (proc_mailbox p)
     \<and> (is_exited (proc_state p) \<longrightarrow> proc_mailbox p = [] \<and> proc_resource_handles p = [])"

definition cell_rest :: "('q \<Rightarrow> 'f list) \<Rightarrow> (VmProcess, 'q) VmActorCell \<Rightarrow> bool" where
  "cell_rest contents c \<longleftrightarrow>
     (\<exists>s. cell_load c = Ok s \<and> st_owner s = 0
        \<and> (if is_exited (proc_state (cell_value c)) then st_lifecycle s = Retired
           else st_lifecycle s \<in> {Yielding, Queued, Parked}))
   \<and> contents (mailbox_queue (cell_mailbox c)) = []
   \<and> cell_lookup_pins c = 0"

definition pt_cells_ok :: "('q \<Rightarrow> 'f list) \<Rightarrow> 'q VmProcessTable \<Rightarrow> bool" where
  "pt_cells_ok contents t \<longleftrightarrow>
     (\<forall>pid c. dir_find (pt_processes t) pid = Some c \<longrightarrow>
        cell_rest contents c \<and> proc_pid (cell_value c) = pid \<and> proc_ok (cell_value c)
      \<and> pid \<noteq> 0 \<and> pid \<le> pt_next_pid t)"

definition pt_names_ok :: "'q VmProcessTable \<Rightarrow> bool" where
  "pt_names_ok t \<longleftrightarrow> bt_ok (pt_names t)
     \<and> (\<forall>name pid. bt_get (pt_names t) name = Some pid \<longrightarrow> is_alive t pid)"

definition pt_ok :: "'q queue_of \<Rightarrow> ('q \<Rightarrow> VmMessage VmPublishedFragment list) \<Rightarrow> ('q \<Rightarrow> nat)
    \<Rightarrow> 'q VmProcessTable \<Rightarrow> bool" where
  "pt_ok Q contents capacity t \<longleftrightarrow>
     bounded_fifo Q contents capacity
   \<and> dir_ok contents capacity (pt_processes t)
   \<and> pt_cells_ok contents t
   \<and> pt_names_ok t"

definition pt_write :: "(VmProcess, 'q) VmActorCell \<Rightarrow> 'q VmProcessTable \<Rightarrow> 'q VmProcessTable" where
  "pt_write c t = t\<lparr> pt_processes := dir_write c (pt_processes t) \<rparr>"

text \<open>Everything but the processes is as before.\<close>

definition pt_frame :: "'q VmProcessTable \<Rightarrow> 'q VmProcessTable \<Rightarrow> bool" where
  "pt_frame t t' \<longleftrightarrow> pt_next_pid t' = pt_next_pid t \<and> pt_next_message_id t' = pt_next_message_id t
     \<and> pt_names t' = pt_names t"

lemma pt_okD:
  assumes "pt_ok Q contents capacity t"
  shows "bounded_fifo Q contents capacity" "dir_ok contents capacity (pt_processes t)"
    "pt_cells_ok contents t" "pt_names_ok t"
  using assms by (simp_all add: pt_ok_def)

lemma pt_get_find: "pt_get t pid = map_option cell_value (dir_find (pt_processes t) pid)"
  by (simp add: pt_get_def dir_get_find)

lemma pt_contains_get:
  "pt_ok Q contents capacity t \<Longrightarrow> pt_contains t pid = (pt_get t pid \<noteq> None)"
  using dir_contains_find [OF dir_ok_parts(1) [OF pt_okD(2)], of Q contents capacity t pid]
  by (simp add: pt_contains_def pt_get_find)

lemma is_alive_get: "is_alive t pid \<longleftrightarrow> (\<exists>p. pt_get t pid = Some p \<and> \<not> is_exited (proc_state p))"
  by (auto simp: is_alive_def split: option.splits)

text \<open>The cell behind a process of a table at rest.\<close>

lemma pt_get_cell:
  assumes ok: "pt_ok Q contents capacity t" and get: "pt_get t pid = Some p"
  obtains c s where "resolves contents capacity (pt_processes t) pid c s" "cell_value c = p"
    "st_owner s = 0" "contents (mailbox_queue (cell_mailbox c)) = []" "cell_lookup_pins c = 0"
    "if is_exited (proc_state p) then st_lifecycle s = Retired
     else st_lifecycle s \<in> {Yielding, Queued, Parked}"
    "proc_pid p = pid" "proc_ok p" "pid \<noteq> 0" "pid \<le> pt_next_pid t"
proof -
  obtain c where c: "dir_find (pt_processes t) pid = Some c" "cell_value c = p"
    using get by (auto simp: pt_get_find)
  then have rest: "cell_rest contents c" "proc_pid p = pid" "proc_ok p" "pid \<noteq> 0" "pid \<le> pt_next_pid t"
    using pt_okD(3) [OF ok] by (auto simp: pt_cells_ok_def)
  then obtain s where "cell_load c = Ok s" "st_owner s = 0"
      "if is_exited (proc_state p) then st_lifecycle s = Retired
       else st_lifecycle s \<in> {Yielding, Queued, Parked}"
    using c(2) by (auto simp: cell_rest_def)
  with rest c pt_okD(2) [OF ok] show ?thesis
    by (intro that [of c s]) (auto simp: resolves_def cell_rest_def)
qed

lemma pt_get_facts:
  assumes "pt_ok Q contents capacity t" "pt_get t pid = Some p"
  shows "proc_pid p = pid" "proc_ok p" "pid \<noteq> 0" "pid \<le> pt_next_pid t"
  using pt_get_cell [OF assms] by metis+

section \<open>Replacing one process\<close>

lemma names_alive_mono:
  assumes "pt_names_ok t" "pt_names t' = pt_names t"
    and "\<And>pid. is_alive t pid \<Longrightarrow> is_alive t' pid"
  shows "pt_names_ok t'"
  using assms by (simp add: pt_names_ok_def)

lemma pt_write_law:
  assumes ok: "pt_ok Q contents capacity t" and c: "dir_find (pt_processes t) pid = Some c"
    and c': "cell_handle c' = cell_handle c" "cell_ok contents capacity c'" "cell_rest contents c'"
      "proc_pid (cell_value c') = pid" "proc_ok (cell_value c')"
    and alive: "is_exited (proc_state (cell_value c')) \<longrightarrow> is_exited (proc_state (cell_value c))"
  shows "pt_ok Q contents capacity (pt_write c' t)"
    and "pt_get (pt_write c' t) = (pt_get t)(pid \<mapsto> cell_value c')"
    and "pt_frame t (pt_write c' t)"
proof -
  note w = dir_write_find [OF pt_okD(2) [OF ok] c c'(1,2)]
  have get: "pt_get (pt_write c' t) = (pt_get t)(pid \<mapsto> cell_value c')"
    by (rule ext) (simp add: pt_get_find pt_write_def w)
  then show "pt_get (pt_write c' t) = (pt_get t)(pid \<mapsto> cell_value c')" .
  have "pt_cells_ok contents (pt_write c' t)"
    using pt_okD(3) [OF ok] c c' by (auto simp: pt_cells_ok_def pt_write_def w(2))
  moreover have "pt_names_ok (pt_write c' t)"
  proof (rule names_alive_mono [OF pt_okD(4) [OF ok]])
    show "pt_names (pt_write c' t) = pt_names t" by (simp add: pt_write_def)
    fix p
    assume "is_alive t p"
    then show "is_alive (pt_write c' t) p"
      using alive c by (auto simp: is_alive_get get pt_get_find split: if_splits)
  qed
  ultimately show "pt_ok Q contents capacity (pt_write c' t)"
    using pt_okD(1) [OF ok] w(1) by (simp add: pt_ok_def pt_write_def)
  show "pt_frame t (pt_write c' t)" by (simp add: pt_frame_def pt_write_def)
qed

lemma owner_ok: "VM_CONTROL_PLANE_OWNER \<noteq> 0" "\<not> GENERATION_MASK < VM_CONTROL_PLANE_OWNER"
    "VM_CONTROL_PLANE_OWNER \<le> GENERATION_MASK"
  by (simp_all add: VM_CONTROL_PLANE_OWNER_def GENERATION_MASK_def GENERATION_BITS_def)

text \<open>
  Control ownership of a cell no scheduler owns: granted, used for one change of the
  value, given back. The directory ends with the value replaced and the generation of
  the grant recorded.
\<close>

lemma control_grant:
  assumes r: "resolves contents capacity d pid c s" and s: "st_owner s = 0"
    "st_lifecycle s \<notin> {Executing, Migrating, Reclaimed}"
  defines "g \<equiv> next_generation (st_owner_generation s)"
  defines "tok \<equiv> \<lparr> token_handle = cell_handle c, token_owner = VM_CONTROL_PLANE_OWNER,
      token_owner_generation = g, token_lifecycle = st_lifecycle s \<rparr>"
  defines "c1 \<equiv> cell_with (st_lifecycle s) g VM_CONTROL_PLANE_OWNER c"
  shows "dir_acquire_control_mutator pid VM_CONTROL_PLANE_OWNER d = (Ok tok, dir_write c1 d)"
    and "resolves contents capacity (dir_write c1 d) pid c1
      \<lparr> st_lifecycle = st_lifecycle s, st_actor_generation = handle_generation (cell_handle c),
        st_owner_generation = g, st_owner = VM_CONTROL_PLANE_OWNER \<rparr>"
    and "validate_token c1 tok = Ok ()"
proof -
  show "dir_acquire_control_mutator pid VM_CONTROL_PLANE_OWNER d = (Ok tok, dir_write c1 d)"
    using s owner_ok by (simp add: acquire_control_mutator_law [OF r] tok_def g_def c1_def)
  show r1: "resolves contents capacity (dir_write c1 d) pid c1
      \<lparr> st_lifecycle = st_lifecycle s, st_actor_generation = handle_generation (cell_handle c),
        st_owner_generation = g, st_owner = VM_CONTROL_PLANE_OWNER \<rparr>"
    unfolding c1_def by (rule resolves_with [OF r]) (simp_all add: g_def owner_ok)
  show "validate_token c1 tok = Ok ()"
    unfolding validate_token_iff using resolves_facts(3) [OF r1] by (simp add: tok_def)
qed

lemma control_release:
  assumes r: "resolves contents capacity d pid c s" and v: "validate_token c tok = Ok ()"
    and h: "token_handle tok = cell_handle c"
  shows "dir_release_control_mutator tok d
    = (Ok (), dir_write (cell_with (token_lifecycle tok) (token_owner_generation tok) 0 c) d)"
proof -
  have "st_owner_generation s = token_owner_generation tok"
    using v resolves_facts(3) [OF r] by (simp add: validate_token_iff)
  then show ?thesis using release_control_mutator_law [OF r h] v by simp
qed

lemma cell_rest_with:
  assumes r: "resolves contents capacity d pid c s" and b: "og \<le> GENERATION_MASK"
    and l: "if is_exited (proc_state (cell_value c)) then l = Retired else l \<in> {Yielding, Queued, Parked}"
    and e: "contents (mailbox_queue (cell_mailbox c)) = []" "cell_lookup_pins c = 0"
  shows "cell_rest contents (cell_with l og 0 c)"
  using resolves_facts(3) [OF resolves_with [OF r b, of 0 l]] l e
  by (auto simp: cell_rest_def)

lemma with_control_law:
  assumes ok: "pt_ok Q contents capacity t" and get: "pt_get t pid = Some p"
    and m: "mutate p = (r, p')" "\<forall>payload. r \<noteq> Panic payload"
    and p': "proc_pid p' = pid" "proc_ok p'" "is_exited (proc_state p') = is_exited (proc_state p)"
  obtains t' where "with_process_control_mutator pid mutate t = (r, t')"
    "pt_ok Q contents capacity t'" "pt_get t' = (pt_get t)(pid \<mapsto> p')" "pt_frame t t'"
proof -
  let ?d = "pt_processes t"
  obtain c s where c: "resolves contents capacity ?d pid c s" "cell_value c = p"
      "st_owner s = 0" "contents (mailbox_queue (cell_mailbox c)) = []" "cell_lookup_pins c = 0"
      "if is_exited (proc_state p) then st_lifecycle s = Retired
       else st_lifecycle s \<in> {Yielding, Queued, Parked}"
    using pt_get_cell [OF ok get] by metis
  have life: "st_lifecycle s \<notin> {Executing, Migrating, Reclaimed}" using c(6) by (auto split: if_splits)
  note grant = control_grant [OF c(1,3) life]
  define g where "g = next_generation (st_owner_generation s)"
  define tok where "tok = \<lparr> token_handle = cell_handle c, token_owner = VM_CONTROL_PLANE_OWNER,
      token_owner_generation = g, token_lifecycle = st_lifecycle s \<rparr>"
  define c1 where "c1 = cell_with (st_lifecycle s) g VM_CONTROL_PLANE_OWNER c"
  define c2 where "c2 = c1\<lparr> cell_value := p' \<rparr>"
  define c3 where "c3 = cell_with (st_lifecycle s) g 0 (c\<lparr> cell_value := p' \<rparr>)"
  have acq: "dir_acquire_control_mutator pid VM_CONTROL_PLANE_OWNER ?d = (Ok tok, dir_write c1 ?d)"
    and r1: "\<exists>s1. resolves contents capacity (dir_write c1 ?d) pid c1 s1"
    and v1: "validate_token c1 tok = Ok ()"
    using grant unfolding g_def tok_def c1_def by blast+
  from r1 obtain s1 where r1: "resolves contents capacity (dir_write c1 ?d) pid c1 s1" by blast
  have h: "token_handle tok = cell_handle c1" "cell_handle c2 = cell_handle c1"
      "cell_handle c3 = cell_handle c" "cell_handle c1 = cell_handle c"
    by (simp_all add: tok_def c1_def c2_def c3_def)
  have upd: "dir_with_mutator tok mutate (dir_write c1 ?d) = (Ok r, dir_write c2 ?d)"
    using with_mutator_law [OF r1 h(1), of mutate] v1 m(1) c(2) dir_write_write [OF h(2)]
    by (simp add: c1_def c2_def)
  have r2: "resolves contents capacity (dir_write c2 ?d) pid c2 s1"
    using resolves_write [OF r1, of c2 s1] resolves_facts(3,4) [OF r1] dir_write_write [OF h(2)]
    by (simp add: c2_def)
  have v2: "validate_token c2 tok = Ok ()" "token_handle tok = cell_handle c2"
    using v1 h by (simp_all add: c2_def validate_token_iff)
  have c3: "cell_with (token_lifecycle tok) (token_owner_generation tok) 0 c2 = c3"
    by (simp add: c3_def c2_def c1_def tok_def cell_with_def)
  have rel: "dir_release_control_mutator tok (dir_write c2 ?d) = (Ok (), dir_write c3 ?d)"
    using control_release [OF r2 v2] dir_write_write [of c3 c2] h by (simp add: c3)
  have run: "with_process_control_mutator pid mutate t = (r, pt_write c3 t)"
    using acq upd rel m(2)
    by (cases r) (simp_all add: with_process_control_mutator_def on_directory_def on_processes_def
      map_err_st_def map_err_def bind_st_def read_st_def pt_write_def)
  have c3_ok: "cell_ok contents capacity c3"
    using resolves_facts(4) [OF c(1)] by (simp add: c3_def g_def)
  have c3_rest: "cell_rest contents c3"
  proof -
    have r': "resolves contents capacity (dir_write (c\<lparr> cell_value := p' \<rparr>) ?d) pid (c\<lparr> cell_value := p' \<rparr>) s"
      using resolves_facts(3,4) [OF c(1)] by (intro resolves_write [OF c(1)]) simp_all
    show ?thesis
      unfolding c3_def
      by (rule cell_rest_with [OF r']) (use c p' in \<open>auto simp: g_def\<close>)
  qed
  have find: "dir_find ?d pid = Some c" by (rule resolves_facts(2) [OF c(1)])
  note w = pt_write_law [OF ok find h(3) c3_ok c3_rest]
  have v: "cell_value c3 = p'" by (simp add: c3_def)
  show ?thesis
    by (rule that [OF run]) (use w v p' c(2) in simp_all)
qed

section \<open>Delivery\<close>

lemma publish_rest:
  assumes r: "resolves contents capacity d pid c s" and Q: "bounded_fifo Q contents capacity"
    and s: "st_owner s = 0" "st_lifecycle s \<in> {Yielding, Queued, Parked}"
    and e: "contents (mailbox_queue (cell_mailbox c)) = []"
  obtains c' s' pub w where "dir_publish_fragment Q pid p d = (Ok (pub, w), dir_write c' d)"
    "resolves contents capacity (dir_write c' d) pid c' s'" "cell_handle c' = cell_handle c"
    "cell_value c' = cell_value c" "cell_lookup_pins c' = cell_lookup_pins c" "st_owner s' = 0"
    "st_lifecycle s' \<in> {Yielding, Queued, Parked}"
    "contents (mailbox_queue (cell_mailbox c'))
      = [\<lparr> fragment_publication = pub, fragment_payload = p \<rparr>]"
proof -
  let ?pub = "\<lparr> publication_handle = cell_handle c, publication_sequence =
      saturating_add (mailbox_next_sequence (cell_mailbox c)) 1 \<rparr>"
  have "length (contents (mailbox_queue (cell_mailbox c))) < unat ACTOR_MAILBOX_CAPACITY"
    by (simp add: e ACTOR_MAILBOX_CAPACITY_def)
  moreover have "st_lifecycle s \<notin> {Exiting, Retired, Reclaimed}" using s(2) by auto
  ultimately obtain m where m: "dir_publish_fragment Q pid p d =
       (if mailbox_wake_state (cell_mailbox c) = PARKED
        then bind_st (dir_enqueue_notified_parked pid) (\<lambda>_. return_st (?pub, Enqueue))
          (dir_write (c\<lparr> cell_mailbox := m \<rparr>) d)
        else (Ok (?pub, Observed), dir_write (c\<lparr> cell_mailbox := m \<rparr>) d))"
      "contents (mailbox_queue m) = [\<lparr> fragment_publication = ?pub, fragment_payload = p \<rparr>]"
      "mailbox_ok contents capacity m"
    using publish_fragment_law [OF r Q] e by (metis append_Nil)
  let ?c1 = "c\<lparr> cell_mailbox := m \<rparr>"
  have r1: "resolves contents capacity (dir_write ?c1 d) pid ?c1 s"
    by (rule resolves_write [OF r])
      (use resolves_facts(3,4) [OF r] m(3) in \<open>simp_all add: cell_ok_mailbox\<close>)
  show ?thesis
  proof (cases "mailbox_wake_state (cell_mailbox c) = PARKED \<and> st_lifecycle s = Parked")
    case False
    then have "dir_publish_fragment Q pid p d = (Ok (?pub,
        if mailbox_wake_state (cell_mailbox c) = PARKED then Enqueue else Observed), dir_write ?c1 d)"
      using m(1) enqueue_notified_parked_law [OF r1] by (auto simp: bind_st_def return_st_def)
    from that [OF this r1] m(2) s show ?thesis by simp
  next
    case True
    let ?c2 = "cell_with Queued (st_owner_generation s) 0 ?c1"
    have "dir_publish_fragment Q pid p d = (Ok (?pub, Enqueue), dir_write ?c2 (dir_write ?c1 d))"
      using m(1) True s enqueue_notified_parked_law [OF r1] by (simp add: bind_st_def return_st_def)
    moreover have w: "dir_write ?c2 (dir_write ?c1 d) = dir_write ?c2 d"
      by (rule dir_write_write) simp
    moreover note resolves_with [OF r1 resolves_facts(9) [OF r], of 0 Queued]
    ultimately show ?thesis
      by (intro that [of ?pub Enqueue ?c2 "\<lparr> st_lifecycle = Queued,
            st_actor_generation = handle_generation (cell_handle ?c1),
            st_owner_generation = st_owner_generation s, st_owner = 0 \<rparr>"]) (simp_all add: m(2))
  qed
qed

lemma integrate_cell:
  assumes ok: "bounded_fifo Q contents capacity"
    and r: "resolves contents capacity (pt_processes t) pid c s"
    and s: "st_owner s = 0" "st_lifecycle s \<in> {Yielding, Queued, Parked, Retired}"
  obtains c' where
    "integrate_process_mailbox_if_unowned Q pid t = (Ok True, pt_write c' t)"
    "integrate_process_mailbox Q pid t
      = (Ok (of_nat (length (contents (mailbox_queue (cell_mailbox c))))), pt_write c' t)"
    "cell_handle c' = cell_handle c" "cell_ok contents capacity c'"
    "cell_load c' = Ok \<lparr> st_lifecycle = st_lifecycle s,
       st_actor_generation = handle_generation (cell_handle c),
       st_owner_generation = next_generation (st_owner_generation s), st_owner = 0 \<rparr>"
    "cell_lookup_pins c' = cell_lookup_pins c"
    "contents (mailbox_queue (cell_mailbox c')) = []"
    "cell_value c' = fold (\<lambda>f. integrate_publication (fragment_publication f) (fragment_payload f))
       (contents (mailbox_queue (cell_mailbox c))) (cell_value c)"
proof -
  let ?d = "pt_processes t"
  let ?fs = "contents (mailbox_queue (cell_mailbox c))"
  let ?v = "fold (\<lambda>f. integrate_publication (fragment_publication f) (fragment_payload f))
      ?fs (cell_value c)"
  have life: "st_lifecycle s \<notin> {Executing, Migrating, Reclaimed}" using s(2) by auto
  note grant = control_grant [OF r s(1) life]
  define g where "g = next_generation (st_owner_generation s)"
  define tok where "tok = \<lparr> token_handle = cell_handle c, token_owner = VM_CONTROL_PLANE_OWNER,
      token_owner_generation = g, token_lifecycle = st_lifecycle s \<rparr>"
  define c1 where "c1 = cell_with (st_lifecycle s) g VM_CONTROL_PLANE_OWNER c"
  have acq: "dir_acquire_control_mutator pid VM_CONTROL_PLANE_OWNER ?d = (Ok tok, dir_write c1 ?d)"
    and r1: "\<exists>s1. resolves contents capacity (dir_write c1 ?d) pid c1 s1"
    and v1: "validate_token c1 tok = Ok ()"
    using grant unfolding g_def tok_def c1_def by blast+
  from r1 obtain s1 where r1: "resolves contents capacity (dir_write c1 ?d) pid c1 s1" by blast
  have h1: "token_handle tok = cell_handle c1" "cell_handle c1 = cell_handle c"
    by (simp_all add: tok_def c1_def)
  have c1_same: "cell_mailbox c1 = cell_mailbox c" "cell_value c1 = cell_value c"
    by (simp_all add: c1_def)
  obtain m where m: "dir_drain_publications Q tok integrate_publication (dir_write c1 ?d) =
       (Ok (of_nat (length ?fs)), dir_write (c1\<lparr> cell_mailbox := m, cell_value := ?v \<rparr>) (dir_write c1 ?d))"
      "contents (mailbox_queue m) = []" "mailbox_ok contents capacity m"
    by (rule drain_publications_law [OF r1 ok h1(1) v1, of integrate_publication, unfolded c1_same])
  define c2 where "c2 = c1\<lparr> cell_mailbox := m, cell_value := ?v \<rparr>"
  define c3 where "c3 = cell_with (st_lifecycle s) g 0 (c\<lparr> cell_mailbox := m, cell_value := ?v \<rparr>)"
  have h: "cell_handle c2 = cell_handle c1" "cell_handle c3 = cell_handle c2"
      "token_handle tok = cell_handle c2" "cell_handle c3 = cell_handle c"
    by (simp_all add: c2_def c3_def h1)
  have c2_ok: "cell_ok contents capacity c2"
    using cell_ok_mailbox [OF resolves_facts(4) [OF r1] m(3)] by (simp add: c2_def)
  have r2: "resolves contents capacity (dir_write c2 ?d) pid c2 s1"
    using resolves_write [OF r1 h(1) c2_ok, of s1] resolves_facts(3) [OF r1] dir_write_write [OF h(1)]
    by (simp add: c2_def)
  have v2: "validate_token c2 tok = Ok ()" using v1 by (simp add: c2_def validate_token_iff)
  have c3: "cell_with (token_lifecycle tok) (token_owner_generation tok) 0 c2 = c3"
    by (simp add: c3_def c2_def c1_def tok_def cell_with_def)
  have rel: "dir_release_control_mutator tok (dir_write c2 ?d) = (Ok (), dir_write c3 ?d)"
    using control_release [OF r2 v2 h(3)] dir_write_write [OF h(2)] by (simp add: c3)
  have drain: "dir_drain_publications Q tok integrate_publication (dir_write c1 ?d)
      = (Ok (of_nat (length ?fs)), dir_write c2 ?d)"
    using m(1) dir_write_write [OF h(1)] by (simp add: c2_def)
  note defs = integrate_process_mailbox_if_unowned_def integrate_process_mailbox_def
    integrate_actor_mailbox_def on_directory_def on_processes_def map_err_st_def map_err_def
    bind_st_def read_st_def bind_out_def pt_write_def
  have run: "integrate_process_mailbox_if_unowned Q pid t = (Ok True, pt_write c3 t)"
    "integrate_process_mailbox Q pid t = (Ok (of_nat (length ?fs)), pt_write c3 t)"
    using acq drain rel by (simp_all add: defs)
  have c'_ok: "cell_ok contents capacity (c\<lparr> cell_mailbox := m, cell_value := ?v \<rparr>)"
    using cell_ok_mailbox [OF resolves_facts(4) [OF r] m(3)] by simp
  have load: "cell_load c3 = Ok \<lparr> st_lifecycle = st_lifecycle s,
       st_actor_generation = handle_generation (cell_handle c),
       st_owner_generation = next_generation (st_owner_generation s), st_owner = 0 \<rparr>"
    unfolding c3_def g_def using cell_load_with [OF cell_ok_generation [OF c'_ok]] by simp
  have c3_ok: "cell_ok contents capacity c3"
    unfolding c3_def using cell_ok_with [OF c'_ok, of g 0] by (simp add: g_def)
  show ?thesis
    by (rule that [OF run h(4) c3_ok load]) (simp_all add: c3_def m(2))
qed

definition delivered_message :: "u64 \<Rightarrow> u64 \<Rightarrow> VmProcessId \<Rightarrow> VmMessageDelivery \<Rightarrow> VmMessage" where
  "delivered_message message_id sequence sender delivery =
     \<lparr> msg_id = message_id, msg_publication_sequence = sequence, msg_sender = sender,
       msg_payload = delivery_payload delivery, msg_boundary_type = delivery_boundary_type delivery,
       msg_managed_fragment = delivery_managed_fragment delivery,
       msg_accounted_bytes = delivery_accounted_bytes delivery,
       msg_priority = delivery_priority delivery \<rparr>"

lemma proc_ok_integrate:
  "proc_ok p \<Longrightarrow> \<not> is_exited (proc_state p) \<Longrightarrow> proc_ok (proc_integrate_message m p)"
  by (simp add: proc_ok_def proc_integrate_mailbox enqueue_lane_ok)

lemma enqueue_message_law:
  assumes ok: "pt_ok Q contents capacity t" and get: "pt_get t pid = Some p"
    and live: "\<not> is_exited (proc_state p)"
  obtains t' sequence where
    "enqueue_message Q sender pid delivery t = (Ok (saturating_add (pt_next_message_id t) 1), t')"
    "pt_ok Q contents capacity t'"
    "pt_get t' = (pt_get t)(pid \<mapsto> proc_integrate_message
       (delivered_message (saturating_add (pt_next_message_id t) 1) sequence sender delivery) p)"
    "pt_frame (t\<lparr> pt_next_message_id := saturating_add (pt_next_message_id t) 1 \<rparr>) t'"
proof -
  let ?id = "saturating_add (pt_next_message_id t) 1"
  let ?m = "delivered_message ?id 0 sender delivery"
  note Q = pt_okD(1) [OF ok]
  obtain c s where c: "resolves contents capacity (pt_processes t) pid c s" "cell_value c = p"
      "st_owner s = 0" "contents (mailbox_queue (cell_mailbox c)) = []" "cell_lookup_pins c = 0"
      "st_lifecycle s \<in> {Yielding, Queued, Parked}"
    using pt_get_cell [OF ok get] live by metis
  obtain c1 s1 pub w where c1:
      "dir_publish_fragment Q pid ?m (pt_processes t) = (Ok (pub, w), dir_write c1 (pt_processes t))"
      "resolves contents capacity (dir_write c1 (pt_processes t)) pid c1 s1"
      "cell_handle c1 = cell_handle c" "cell_value c1 = cell_value c"
      "cell_lookup_pins c1 = cell_lookup_pins c" "st_owner s1 = 0"
      "st_lifecycle s1 \<in> {Yielding, Queued, Parked}"
      "contents (mailbox_queue (cell_mailbox c1)) = [\<lparr> fragment_publication = pub, fragment_payload = ?m \<rparr>]"
    by (rule publish_rest [OF c(1) Q c(3,6,4)])
  let ?t0 = "t\<lparr> pt_next_message_id := ?id \<rparr>"
  let ?t1 = "pt_write c1 ?t0"
  have r1: "resolves contents capacity (pt_processes ?t1) pid c1 s1"
    using c1(2) by (simp add: pt_write_def)
  have "st_lifecycle s1 \<in> {Yielding, Queued, Parked, Retired}" using c1(7) by auto
  from integrate_cell [OF Q r1 c1(6) this] obtain c2 where c2:
      "integrate_process_mailbox_if_unowned Q pid ?t1 = (Ok True, pt_write c2 ?t1)"
      "cell_handle c2 = cell_handle c1" "cell_ok contents capacity c2"
      "cell_load c2 = Ok \<lparr> st_lifecycle = st_lifecycle s1,
         st_actor_generation = handle_generation (cell_handle c1),
         st_owner_generation = next_generation (st_owner_generation s1), st_owner = 0 \<rparr>"
      "cell_lookup_pins c2 = cell_lookup_pins c1" "contents (mailbox_queue (cell_mailbox c2)) = []"
      "cell_value c2 = integrate_publication pub ?m p"
    unfolding c1(4,8) c(2) by (auto simp: fold_simps)
  have v: "cell_value c2 = proc_integrate_message
      (delivered_message ?id (publication_sequence pub) sender delivery) p"
    by (simp add: c2(7) integrate_publication_def delivered_message_def)
  have t2: "pt_write c2 ?t1 = pt_write c2 ?t0"
    using dir_write_write [OF c2(2)] by (simp add: pt_write_def)
  have ok0: "pt_ok Q contents capacity ?t0" and get0: "pt_get ?t0 = pt_get t"
    using ok by (simp_all add: pt_ok_def pt_cells_ok_def pt_names_ok_def is_alive_def pt_get_def fun_eq_iff)
  have find: "dir_find (pt_processes ?t0) pid = Some c" using resolves_facts(2) [OF c(1)] by simp
  have facts: "proc_pid p = pid" "proc_ok p" using pt_get_facts [OF ok get] by simp_all
  have "\<not> is_exited (proc_state (cell_value c2))" using live v by simp
  then have rest: "cell_rest contents c2"
    using c1(5,7) c2(4-6) c(5) by (auto simp: cell_rest_def)
  have step: "t\<lparr> pt_processes := dir_write c1 (pt_processes t), pt_next_message_id := ?id \<rparr> = ?t1"
    by (simp add: pt_write_def)
  have run: "enqueue_message Q sender pid delivery t = (Ok ?id, pt_write c2 ?t0)"
    using c1(1) c2(1) t2
    by (simp add: enqueue_message_def Let_def on_processes_def map_err_st_def map_err_def bind_st_def
        return_st_def delivered_message_def step)
  have h: "cell_handle c2 = cell_handle c" using c2 c1 by simp
  note w = pt_write_law [OF ok0 find h c2(3) rest]
  show ?thesis
    by (rule that [OF run, where sequence = "publication_sequence pub"])
      (use w v facts live get0 proc_ok_integrate in simp_all)
qed

section \<open>Exit, queueing and reaping\<close>

lemma live_lifecycle:
  assumes "if is_exited (proc_state p) then st_lifecycle s = Retired
     else st_lifecycle s \<in> {Yielding, Queued, Parked}" "\<not> is_exited (proc_state p)"
  shows "st_lifecycle s \<in> {Yielding, Queued, Parked}"
  using assms by simp

lemma mark_queued_law:
  assumes ok: "pt_ok Q contents capacity t" and get: "pt_get t pid = Some p"
    and live: "\<not> is_exited (proc_state p)"
  obtains t' where "mark_actor_queued pid t = (Ok (), t')" "pt_ok Q contents capacity t'"
    "pt_get t' = pt_get t" "pt_frame t t'"
proof -
  obtain c s where c: "resolves contents capacity (pt_processes t) pid c s" "cell_value c = p"
      "st_owner s = 0" "contents (mailbox_queue (cell_mailbox c)) = []" "cell_lookup_pins c = 0"
      "st_lifecycle s \<in> {Yielding, Queued, Parked}" "proc_pid p = pid" "proc_ok p"
    using pt_get_cell [OF ok get] live by metis
  note defs = mark_actor_queued_def on_directory_def on_processes_def map_err_st_def map_err_def
      dir_mark_queued_def read_st_def bind_st_def return_st_def resolves_facts(12) [OF c(1)]
  show ?thesis
  proof (cases "st_lifecycle s = Queued")
    case True
    then have "mark_actor_queued pid t = (Ok (), t)" by (simp add: defs)
    from that [OF this ok] show ?thesis by (simp add: pt_frame_def)
  next
    case False
    let ?c = "cell_with Queued (st_owner_generation s) 0 c"
    have "mark_actor_queued pid t = (Ok (), pt_write ?c t)"
      using False c(3,6) transition_unowned_law [OF c(1), of "[Yielding, Parked]" Queued]
      by (auto simp: defs pt_write_def)
    moreover have ok': "cell_ok contents capacity ?c"
      using resolves_facts(4,9) [OF c(1)] by simp
    moreover have rest: "cell_rest contents ?c"
      using c live resolves_facts(9) [OF c(1)] by (intro cell_rest_with [OF c(1)]) auto
    moreover have h: "cell_handle ?c = cell_handle c" by simp
    note w = pt_write_law [OF ok resolves_facts(2) [OF c(1)] h ok' rest]
    moreover have "(pt_get t)(pid \<mapsto> p) = pt_get t" using get by auto
    ultimately show ?thesis using that c(2,7,8) by auto
  qed
qed

lemma names_for_process_iff:
  "bt_ok (pt_names t) \<Longrightarrow> name \<in> set (names_for_process t pid) \<longleftrightarrow> bt_get (pt_names t) name = Some pid"
  by (force simp: names_for_process_def bt_in_get [symmetric])

lemma remove_names_law:
  assumes ok: "bt_ok (pt_names t)"
  shows "pt_names (snd (remove_registered_names pid t)) = bt_retain (\<lambda>name p. p \<noteq> pid) (pt_names t)"
    and "pt_processes (snd (remove_registered_names pid t)) = pt_processes t"
    and "pt_next_pid (snd (remove_registered_names pid t)) = pt_next_pid t"
    and "pt_next_message_id (snd (remove_registered_names pid t)) = pt_next_message_id t"
  using bt_remove_all_retain [OF ok, of "\<lambda>name p. p = pid"]
  by (simp_all add: remove_registered_names_def names_for_process_def Let_def)

text \<open>What is left of the table when one of its processes goes away.\<close>

definition pt_forget_names :: "VmProcessId \<Rightarrow> 'q VmProcessTable \<Rightarrow> 'q VmProcessTable \<Rightarrow> bool" where
  "pt_forget_names pid t t' \<longleftrightarrow>
     pt_next_pid t' = pt_next_pid t \<and> pt_next_message_id t' = pt_next_message_id t
   \<and> pt_names t' = bt_retain (\<lambda>name p. p \<noteq> pid) (pt_names t)"

lemma forget_names_ok:
  assumes "pt_names_ok t" "pt_names t' = bt_retain (\<lambda>name p. p \<noteq> pid) (pt_names t)"
    and "\<And>p. p \<noteq> pid \<Longrightarrow> is_alive t p \<Longrightarrow> is_alive t' p"
  shows "pt_names_ok t'"
  using assms by (auto simp: pt_names_ok_def bt_get_retain split: option.splits if_splits)

lemma exit_process_law:
  assumes ok: "pt_ok Q contents capacity t" and get: "pt_get t pid = Some p"
    and live: "\<not> is_exited (proc_state p)"
  obtains t' where "pt_exit_process pid reason t = (Ok (proc_resource_handles p), t')"
    "pt_ok Q contents capacity t'" "pt_get t' = (pt_get t)(pid \<mapsto> snd (proc_exit reason p))"
    "pt_forget_names pid t t'"
proof -
  let ?d = "pt_processes t" and ?p = "snd (proc_exit reason p)"
  obtain c s where c: "resolves contents capacity ?d pid c s" "cell_value c = p"
      "st_owner s = 0" "contents (mailbox_queue (cell_mailbox c)) = []" "cell_lookup_pins c = 0"
      "st_lifecycle s \<in> {Yielding, Queued, Parked}" "proc_pid p = pid" "proc_ok p"
    using pt_get_cell [OF ok get] live by metis
  define g where "g = next_generation (st_owner_generation s)"
  define c1 where "c1 = cell_with Exiting (st_owner_generation s) 0 c"
  define s1 where "s1 = \<lparr> st_lifecycle = Exiting, st_actor_generation = handle_generation (cell_handle c),
      st_owner_generation = st_owner_generation s, st_owner = 0 \<rparr>"
  have r1: "resolves contents capacity (dir_write c1 ?d) pid c1 s1"
    unfolding c1_def s1_def
    using resolves_with [OF c(1) resolves_facts(9) [OF c(1)], of 0 Exiting] by simp
  have exiting: "dir_mark_exiting pid ?d = (Ok (), dir_write c1 ?d)"
    using transition_unowned_law [OF c(1), of "[Queued, Yielding, Parked, Migrating]" Exiting] c(3,6)
    by (auto simp: dir_mark_exiting_def read_st_def bind_st_def resolves_facts(12) [OF c(1)] c1_def)
  have s1: "st_owner s1 = 0" "st_lifecycle s1 \<notin> {Executing, Migrating, Reclaimed}"
    by (simp_all add: s1_def)
  note grant = control_grant [OF r1 s1]
  define tok where "tok = \<lparr> token_handle = cell_handle c, token_owner = VM_CONTROL_PLANE_OWNER,
      token_owner_generation = g, token_lifecycle = Exiting \<rparr>"
  define c2 where "c2 = cell_with Exiting g VM_CONTROL_PLANE_OWNER c"
  have tok: "tok = \<lparr> token_handle = cell_handle c1, token_owner = VM_CONTROL_PLANE_OWNER,
      token_owner_generation = next_generation (st_owner_generation s1), token_lifecycle = st_lifecycle s1 \<rparr>"
    by (simp add: tok_def c1_def s1_def g_def)
  have c2: "c2 = cell_with (st_lifecycle s1) (next_generation (st_owner_generation s1))
      VM_CONTROL_PLANE_OWNER c1"
    by (simp add: c2_def c1_def s1_def g_def)
  have w12: "dir_write c2 (dir_write c1 ?d) = dir_write c2 ?d"
    by (rule dir_write_write) (simp add: c1_def c2_def)
  have acq: "dir_acquire_control_mutator pid VM_CONTROL_PLANE_OWNER (dir_write c1 ?d)
      = (Ok tok, dir_write c2 ?d)"
    and r2: "\<exists>s2. resolves contents capacity (dir_write c2 ?d) pid c2 s2"
    and v2: "validate_token c2 tok = Ok ()"
    using grant w12 unfolding tok c2 by auto
  from r2 obtain s2 where r2: "resolves contents capacity (dir_write c2 ?d) pid c2 s2" by blast
  let ?f = "\<lambda>p. case proc_exit reason p of (handles, p') \<Rightarrow> (Ok handles :: (vm_error, _) outcome, p')"
  define c3 where "c3 = c2\<lparr> cell_value := ?p \<rparr>"
  have h3: "token_handle tok = cell_handle c2" "cell_handle c3 = cell_handle c2"
    by (simp_all add: tok_def c2_def c3_def)
  have val: "cell_value c2 = p" by (simp add: c2_def c(2))
  have f: "?f p = (Ok (proc_resource_handles p), ?p)"
    by (simp add: proc_exit_def)
  have upd: "dir_with_mutator tok ?f (dir_write c2 ?d) = (Ok (Ok (proc_resource_handles p)), dir_write c3 ?d)"
    using with_mutator_law [OF r2 h3(1), of ?f] v2 dir_write_write [OF h3(2)]
    by (simp only: val f c3_def if_True fst_conv snd_conv refl)
  have r3: "resolves contents capacity (dir_write c3 ?d) pid c3 s2"
    using resolves_write [OF r2 h3(2), of s2] resolves_facts(3,4) [OF r2] dir_write_write [OF h3(2)]
    by (simp add: c3_def)
  have v3: "validate_token c3 tok = Ok ()" "token_handle tok = cell_handle c3"
    using v2 h3 by (simp_all add: c3_def validate_token_iff)
  define c4 where "c4 = cell_with Exiting g 0 c3"
  have w34: "dir_write c4 (dir_write c3 ?d) = dir_write c4 ?d"
    by (rule dir_write_write) (simp add: c4_def)
  have rel: "dir_release_control_mutator tok (dir_write c3 ?d) = (Ok (), dir_write c4 ?d)"
    using control_release [OF r3 v3] w34 by (simp add: tok_def c4_def)
  define s4 where "s4 = \<lparr> st_lifecycle = Exiting, st_actor_generation = handle_generation (cell_handle c3),
      st_owner_generation = g, st_owner = 0 \<rparr>"
  have r4: "resolves contents capacity (dir_write c4 ?d) pid c4 s4"
    using resolves_with [OF r3, of g 0 Exiting] w34 by (simp add: c4_def s4_def g_def)
  define c5 where "c5 = cell_with Retired g 0 c3"
  have w45: "dir_write c5 (dir_write c4 ?d) = dir_write c5 ?d"
    by (rule dir_write_write) (simp add: c4_def c5_def)
  have retire: "dir_mark_retired pid (dir_write c4 ?d) = (Ok (), dir_write c5 ?d)"
    using transition_unowned_law [OF r4, of "[Exiting]" Retired] w45
    by (simp add: dir_mark_retired_def s4_def c4_def c5_def)
  let ?t = "snd (remove_registered_names pid (pt_write c5 t))"
  note defs = with_process_control_mutator_def on_directory_def on_processes_def map_err_st_def
    map_err_def bind_st_def read_st_def pt_write_def
  have ctl: "with_process_control_mutator pid ?f (t\<lparr> pt_processes := dir_write c1 ?d \<rparr>)
      = (Ok (proc_resource_handles p), t\<lparr> pt_processes := dir_write c4 ?d \<rparr>)"
    using acq upd rel by (simp add: defs)
  have "pt_contains t pid" using get pt_contains_get [OF ok] by simp
  then have run: "pt_exit_process pid reason t = (Ok (proc_resource_handles p), ?t)"
    using exiting ctl retire
    by (simp add: pt_exit_process_def on_directory_def on_processes_def map_err_st_def map_err_def
        bind_st_def pt_write_def)
  have h5: "cell_handle c5 = cell_handle c" by (simp add: c5_def c3_def c2_def)
  have c5_ok: "cell_ok contents capacity c5"
    using resolves_facts(4) [OF r3] by (simp add: c5_def g_def)
  have v5: "cell_value c5 = ?p" by (simp add: c5_def c3_def)
  have c3_same: "cell_mailbox c3 = cell_mailbox c" "cell_lookup_pins c3 = cell_lookup_pins c"
    by (simp_all add: c3_def c2_def)
  have rest5: "cell_rest contents c5"
    unfolding c5_def
    by (rule cell_rest_with [OF r3]) (use c c3_same in \<open>simp_all add: g_def c3_def\<close>)
  note w = dir_write_find [OF pt_okD(2) [OF ok] resolves_facts(2) [OF c(1)] h5 c5_ok]
  note rn = remove_names_law [of "pt_write c5 t" pid]
  have nb: "bt_ok (pt_names (pt_write c5 t))"
    using pt_okD(4) [OF ok] by (simp add: pt_names_ok_def pt_write_def)
  have proc: "pt_processes ?t = dir_write c5 ?d" "pt_next_pid ?t = pt_next_pid t"
    using rn(2,3) [OF nb] by (simp_all add: pt_write_def)
  have get': "pt_get ?t = (pt_get t)(pid \<mapsto> ?p)"
    by (rule ext) (simp add: pt_get_find proc w(2) v5)
  have forget: "pt_forget_names pid t ?t"
    using rn [OF nb] by (simp add: pt_forget_names_def pt_write_def)
  have "pt_names_ok ?t"
    by (rule forget_names_ok [OF pt_okD(4) [OF ok], of _ pid])
      (use forget get' in \<open>auto simp: pt_forget_names_def is_alive_get\<close>)
  moreover have "pt_cells_ok contents ?t"
    using pt_okD(3) [OF ok] rest5 c(7,8) get v5 pt_get_facts [OF ok get]
    by (auto simp: pt_cells_ok_def proc w(2) proc_ok_def lanes_ok_def)
  ultimately have "pt_ok Q contents capacity ?t"
    using pt_okD(1) [OF ok] w(1) by (simp add: pt_ok_def proc)
  then show ?thesis by (rule that [OF run _ get' forget])
qed

lemma exit_process_dead:
  assumes ok: "pt_ok Q contents capacity t" and get: "pt_get t pid = Some p"
    and dead: "is_exited (proc_state p)"
  shows "pt_exit_process pid reason t
    = (Err (actor_directory_error (InvalidTransition Retired Exiting)), t)"
proof -
  obtain c s where c: "resolves contents capacity (pt_processes t) pid c s"
      "st_owner s = 0" "st_lifecycle s = Retired"
    using pt_get_cell [OF ok get] dead by metis
  have "dir_mark_exiting pid (pt_processes t) = (Err (InvalidTransition Retired Exiting), pt_processes t)"
    using transition_unowned_law [OF c(1), of "[Queued, Yielding, Parked, Migrating]" Exiting] c(2,3)
    by (simp add: dir_mark_exiting_def read_st_def bind_st_def resolves_facts(12) [OF c(1)])
  moreover have "pt_contains t pid" using get pt_contains_get [OF ok] by simp
  ultimately show ?thesis
    by (simp add: pt_exit_process_def on_directory_def on_processes_def map_err_st_def map_err_def
        bind_st_def)
qed

section \<open>Arrival and departure of processes\<close>

definition new_process :: "VmProcessId \<Rightarrow> VmProcessId option \<Rightarrow> VmProcessSource \<Rightarrow> VmProcess" where
  "new_process pid parent source =
     \<lparr> proc_pid = pid, proc_parent = parent, proc_source = source,
       proc_state = Runnable, proc_reductions = 0, proc_heap_bytes = 0,
       proc_cancellation_requested = False, proc_resource_handles = [],
       proc_execution_stack = [\<lparr> loc_source = source, loc_instruction_offset = 0 \<rparr>],
       proc_mailbox = [] \<rparr>"

definition pt_has_room :: "'q VmProcessTable \<Rightarrow> bool" where
  "pt_has_room t \<longleftrightarrow> dir_has_room (pt_processes t)"

lemma next_pid_gt: "n \<noteq> - 1 \<Longrightarrow> pid \<le> n \<Longrightarrow> pid \<noteq> saturating_add n 1"
  using saturating_add_one_gt [of n] by auto

lemma cell_rest_new:
  assumes "bounded_fifo Q contents capacity" "handle_generation h \<le> GENERATION_MASK"
    "\<not> is_exited (proc_state v)"
  shows "cell_rest contents (cell_new Q h v)"
  using assms mailbox_default_ok [OF assms(1)]
  by (simp add: cell_rest_def cell_new_def cell_load_def pack_load)

lemma cell_new_value [simp]: "cell_value (cell_new Q h v) = v"
  by (simp add: cell_new_def)

text \<open>A table gains one live process through the directory.\<close>

lemma pt_gain:
  assumes ok: "pt_ok Q contents capacity t" and fresh: "pt_get t pid = None"
    and d': "dir_ok contents capacity d'" "dir_find d' = (dir_find (pt_processes t))(pid \<mapsto> c)"
    and c: "cell_rest contents c" "proc_pid (cell_value c) = pid" "proc_ok (cell_value c)"
      "\<not> is_exited (proc_state (cell_value c))"
    and t': "pt_processes t' = d'" "pt_next_pid t \<le> pt_next_pid t'" "pid \<noteq> 0" "pid \<le> pt_next_pid t'"
      "bt_ok (pt_names t')"
      "\<And>name p. bt_get (pt_names t') name = Some p \<Longrightarrow> p = pid \<or> bt_get (pt_names t) name = Some p"
  shows "pt_ok Q contents capacity t' \<and> pt_get t' = (pt_get t)(pid \<mapsto> cell_value c)"
proof -
  have get: "pt_get t' = (pt_get t)(pid \<mapsto> cell_value c)"
    by (rule ext) (simp add: pt_get_find t' d')
  have "pt_cells_ok contents t'"
    using pt_okD(3) [OF ok] c t'(2-4) by (auto simp: pt_cells_ok_def t'(1) d' intro: order_trans)
  moreover have "pt_names_ok t'"
    unfolding pt_names_ok_def
  proof (intro conjI allI impI)
    show "bt_ok (pt_names t')" by (rule t'(5))
    fix name p
    assume n: "bt_get (pt_names t') name = Some p"
    show "is_alive t' p"
    proof (cases "p = pid")
      case True
      then show ?thesis using c(4) by (simp add: is_alive_get get)
    next
      case False
      then have "is_alive t p" using t'(6) [OF n] pt_okD(4) [OF ok] by (auto simp: pt_names_ok_def)
      then show ?thesis using False by (simp add: is_alive_get get)
    qed
  qed
  ultimately show ?thesis
    using get pt_okD(1) [OF ok] d'(1) by (simp add: pt_ok_def t'(1))
qed

lemma spawn_law:
  assumes ok: "pt_ok Q contents capacity t" and bound: "pt_next_pid t \<noteq> - 1"
    and room: "pt_has_room t"
  defines "pid \<equiv> saturating_add (pt_next_pid t) 1"
  obtains t' where "pt_spawn Q parent source t = (Ok pid, t')" "pt_ok Q contents capacity t'"
    "pt_get t pid = None" "pt_get t' = (pt_get t)(pid \<mapsto> new_process pid parent source)"
    "pt_names t' = pt_names t" "pt_next_pid t' = pid"
    "pt_next_message_id t' = pt_next_message_id t"
proof -
  note Q = pt_okD(1) [OF ok]
  have gt: "pt_next_pid t < pid" unfolding pid_def by (rule saturating_add_one_gt [OF bound])
  have "dir_find (pt_processes t) pid = None"
  proof (rule ccontr)
    assume "dir_find (pt_processes t) pid \<noteq> None"
    then have "pid \<le> pt_next_pid t" using pt_okD(3) [OF ok] by (auto simp: pt_cells_ok_def)
    with gt show False by simp
  qed
  then have fresh: "dir_find (pt_processes t) pid = None" "pt_get t pid = None"
    by (simp_all add: pt_get_find)
  obtain h d' where d': "dir_insert Q pid (new_process pid parent source) (pt_processes t) = (Ok h, d')"
      "handle_pid h = pid" "dir_ok contents capacity d'"
      "dir_find d' = (dir_find (pt_processes t))(pid \<mapsto> cell_new Q h (new_process pid parent source))"
    using dir_insert_law [OF Q pt_okD(2) [OF ok] room [unfolded pt_has_room_def] fresh(1)] by blast
  let ?t = "t\<lparr> pt_next_pid := pid, pt_processes := d' \<rparr>"
  have run: "pt_spawn Q parent source t = (Ok pid, ?t)"
    using d'(1) by (simp add: pt_spawn_def pid_def [symmetric] Let_def new_process_def [symmetric]
        on_processes_def expect_st_def expect_def bind_st_def return_st_def)
  have "handle_generation h \<le> GENERATION_MASK"
    using dir_find_handle_generation [OF d'(3)] d'(4)
    by (metis VmActorCell.select_convs(1) cell_new_def fun_upd_same)
  then have rest: "cell_rest contents (cell_new Q h (new_process pid parent source))"
    by (intro cell_rest_new [OF Q]) (simp_all add: new_process_def)
  have "pt_ok Q contents capacity ?t
      \<and> pt_get ?t = (pt_get t)(pid \<mapsto> cell_value (cell_new Q h (new_process pid parent source)))"
    by (rule pt_gain [OF ok fresh(2) d'(3,4) rest])
      (use gt pt_okD(4) [OF ok] in \<open>auto simp: new_process_def proc_ok_def lanes_ok_def pt_names_ok_def\<close>)
  then show ?thesis
    by (intro that [OF run]) (simp_all add: fresh)
qed

text \<open>A table loses one process through the directory.\<close>

lemma pt_lose:
  assumes ok: "pt_ok Q contents capacity t"
    and d': "dir_ok contents capacity d'" "dir_find d' = (dir_find (pt_processes t))(pid := None)"
    and t': "pt_processes t' = d'" "pt_next_pid t' = pt_next_pid t"
      "pt_names t' = bt_retain (\<lambda>name p. p \<noteq> pid) (pt_names t)"
  shows "pt_ok Q contents capacity t' \<and> pt_get t' = (pt_get t)(pid := None)"
proof -
  have get: "pt_get t' = (pt_get t)(pid := None)"
    by (rule ext) (simp add: pt_get_find t' d')
  moreover have "pt_names_ok t'"
    by (rule forget_names_ok [OF pt_okD(4) [OF ok] t'(3)]) (simp add: is_alive_get get)
  moreover have "pt_cells_ok contents t'"
    using pt_okD(3) [OF ok] by (auto simp: pt_cells_ok_def t' d')
  ultimately show ?thesis
    using pt_okD(1) [OF ok] d'(1) by (simp add: pt_ok_def t'(1))
qed

lemma names_of_exited:
  assumes "pt_ok Q contents capacity t" "\<not> is_alive t pid"
  shows "bt_retain (\<lambda>name p. p \<noteq> pid) (pt_names t) = pt_names t"
proof (rule bt_ext)
  have "bt_ok (pt_names t)" using pt_okD(4) [OF assms(1)] by (simp add: pt_names_ok_def)
  then show "bt_ok (bt_retain (\<lambda>name p. p \<noteq> pid) (pt_names t))" "bt_ok (pt_names t)" by simp_all
  then show "bt_get (bt_retain (\<lambda>name p. p \<noteq> pid) (pt_names t)) k = bt_get (pt_names t) k" for k
    using pt_okD(4) [OF assms(1)] assms(2) by (auto simp: bt_get_retain pt_names_ok_def split: option.splits)
qed

lemma reap_law:
  assumes ok: "pt_ok Q contents capacity t" and get: "pt_get t pid = Some p"
    and dead: "is_exited (proc_state p)"
  obtains t' where "reap_exited pid t = (Ok (), t')" "pt_ok Q contents capacity t'"
    "pt_get t' = (pt_get t)(pid := None)" "pt_frame t t'" "pt_has_room t'"
proof -
  obtain c s where c: "resolves contents capacity (pt_processes t) pid c s" "cell_lookup_pins c = 0"
      "st_lifecycle s = Retired"
    using pt_get_cell [OF ok get] dead by metis
  let ?d = "dir_vacate pid (handle_slot (cell_handle c)) (pt_processes t)"
  let ?t = "t\<lparr> pt_processes := ?d \<rparr>"
  note v = dir_vacate_law [OF resolves_facts(1,2) [OF c(1)]]
  have run: "reap_exited pid t = (Ok (), ?t)"
    using reclaim_law [OF c(1)] c(2,3) get dead
    by (simp add: reap_exited_def on_directory_def on_processes_def map_err_st_def map_err_def
        bind_st_def return_st_def)
  have "\<not> is_alive t pid" using get dead by (simp add: is_alive_get)
  then have "pt_ok Q contents capacity ?t \<and> pt_get ?t = (pt_get t)(pid := None)"
    by (intro pt_lose [OF ok v(1,2)]) (simp_all add: names_of_exited [OF ok])
  then show ?thesis
    using that [OF run] v(3) by (simp add: pt_frame_def pt_has_room_def)
qed

lemma reap_live:
  "pt_get t pid = Some p \<Longrightarrow> \<not> is_exited (proc_state p)
     \<Longrightarrow> reap_exited pid t = (Err (Msg ''cannot reap live process {}'' [ANum pid]), t)"
  by (simp add: reap_exited_def)

lemma detach_process_law:
  assumes ok: "pt_ok Q contents capacity t" and get: "pt_get t pid = Some p"
    and live: "\<not> is_exited (proc_state p)"
  obtains t' where "detach_process_for_transfer Q pid t = (Ok
      \<lparr> transfer_process = p, transfer_names = names_for_process t pid,
        transfer_process_identity_watermark = pt_next_pid t,
        transfer_message_identity_watermark = pt_next_message_id t \<rparr>, t')"
    "pt_ok Q contents capacity t'" "pt_get t' = (pt_get t)(pid := None)" "pt_forget_names pid t t'"
    "pt_has_room t'"
proof -
  note Q = pt_okD(1) [OF ok]
  obtain c s where c: "resolves contents capacity (pt_processes t) pid c s" "cell_value c = p"
      "st_owner s = 0" "contents (mailbox_queue (cell_mailbox c)) = []" "cell_lookup_pins c = 0"
      "st_lifecycle s \<in> {Yielding, Queued, Parked}"
    using pt_get_cell [OF ok get] live by metis
  have "st_lifecycle s \<in> {Yielding, Queued, Parked, Retired}" using c(6) by auto
  from integrate_cell [OF Q c(1,3) this] obtain c1 where c1:
      "integrate_process_mailbox Q pid t = (Ok 0, pt_write c1 t)"
      "cell_handle c1 = cell_handle c" "cell_ok contents capacity c1"
      "cell_load c1 = Ok \<lparr> st_lifecycle = st_lifecycle s,
         st_actor_generation = handle_generation (cell_handle c),
         st_owner_generation = next_generation (st_owner_generation s), st_owner = 0 \<rparr>"
      "cell_lookup_pins c1 = 0" "contents (mailbox_queue (cell_mailbox c1)) = []" "cell_value c1 = p"
    unfolding c(2,4,5) by auto
  note w = dir_write_find [OF resolves_facts(1,2) [OF c(1)] c1(2,3)]
  have r1: "resolves contents capacity (dir_write c1 (pt_processes t)) pid c1
      \<lparr> st_lifecycle = st_lifecycle s, st_actor_generation = handle_generation (cell_handle c),
        st_owner_generation = next_generation (st_owner_generation s), st_owner = 0 \<rparr>"
    by (rule resolves_write [OF c(1) c1(2,3,4)])
  obtain d' where d': "dir_detach_for_transfer Q pid (dir_write c1 (pt_processes t)) = (Ok p, d')"
      "dir_ok contents capacity d'"
      "dir_find d' = (dir_find (dir_write c1 (pt_processes t)))(pid := None)" "dir_has_room d'"
    using detach_law [OF r1 Q _ _ c1(5,6)] c(6) c1(7) by auto
  let ?t = "t\<lparr> pt_processes := d', pt_names := bt_remove_all (names_for_process t pid) (pt_names t) \<rparr>"
  have names: "names_for_process (pt_write c1 t) pid = names_for_process t pid"
    by (simp add: names_for_process_def pt_write_def)
  have run: "detach_process_for_transfer Q pid t = (Ok
      \<lparr> transfer_process = p, transfer_names = names_for_process t pid,
        transfer_process_identity_watermark = pt_next_pid t,
        transfer_message_identity_watermark = pt_next_message_id t \<rparr>, ?t)"
    using c1(1) d'(1) names
    by (simp add: detach_process_for_transfer_def bind_st_def read_st_def map_err_st_def map_err_def
        on_processes_def pt_write_def)
  have nb: "bt_ok (pt_names t)" using pt_okD(4) [OF ok] by (simp add: pt_names_ok_def)
  have forget: "pt_names ?t = bt_retain (\<lambda>name p. p \<noteq> pid) (pt_names t)"
    using remove_names_law(1) [OF nb, of pid] by (simp add: remove_registered_names_def Let_def)
  have find: "dir_find d' = (dir_find (pt_processes t))(pid := None)" using d'(3) w(2) by simp
  have "pt_ok Q contents capacity ?t \<and> pt_get ?t = (pt_get t)(pid := None)"
    by (rule pt_lose [OF ok d'(2) find]) (use forget in simp_all)
  then show ?thesis
    using that [OF run] forget d'(4) by (simp add: pt_forget_names_def pt_has_room_def)
qed

lemma check_transfer_names_Ok:
  "check_transfer_names m names = Ok () \<longleftrightarrow> (\<forall>name\<in>set names. bt_get m name = None)"
  by (induction names) (auto split: option.splits)

lemma fold_insert_names:
  "bt_get (fold (\<lambda>name. bt_insert name pid) names m) k
     = (if k \<in> set names then Some pid else bt_get m k)"
  by (induction names arbitrary: m) auto

lemma bt_ok_fold_insert: "bt_ok m \<Longrightarrow> bt_ok (fold (\<lambda>name. bt_insert name pid) names m)"
  by (induction names arbitrary: m) auto

lemma import_process_law:
  assumes ok: "pt_ok Q contents capacity t" and valid: "validate_process_import t tr = Ok ()"
    and p: "proc_ok (transfer_process tr)" "\<not> is_exited (proc_state (transfer_process tr))"
    and room: "pt_has_room t"
  defines "pid \<equiv> proc_pid (transfer_process tr)"
  obtains t' where "import_process_transfer Q tr t = (Ok (), t')" "pt_ok Q contents capacity t'"
    "pt_get t' = (pt_get t)(pid \<mapsto> transfer_process tr)"
    "\<forall>name. bt_get (pt_names t') name
       = (if name \<in> set (transfer_names tr) then Some pid else bt_get (pt_names t) name)"
    "pt_next_pid t' = max (max (pt_next_pid t) (transfer_process_identity_watermark tr)) pid"
    "pt_next_message_id t' = max (pt_next_message_id t) (transfer_message_identity_watermark tr)"
proof -
  note Q = pt_okD(1) [OF ok]
  have v: "pid \<noteq> 0" "\<not> pt_contains t pid"
    using valid by (auto simp: validate_process_import_def pid_def Let_def split: if_splits)
  then have fresh: "pt_get t pid = None" using pt_contains_get [OF ok] by simp
  then have "dir_find (pt_processes t) pid = None" by (simp add: pt_get_find)
  then obtain h d' where d': "dir_import_transferred Q pid (transfer_process tr) (pt_processes t) = (Ok h, d')"
      "handle_pid h = pid" "dir_ok contents capacity d'"
      "dir_find d' = (dir_find (pt_processes t))(pid \<mapsto> cell_new Q h (transfer_process tr))"
    using dir_import_law [OF Q pt_okD(2) [OF ok] room [unfolded pt_has_room_def]] by blast
  let ?t = "t\<lparr> pt_processes := d',
     pt_next_pid := max (max (pt_next_pid t) (transfer_process_identity_watermark tr)) pid,
     pt_next_message_id := max (pt_next_message_id t) (transfer_message_identity_watermark tr),
     pt_names := fold (\<lambda>name. bt_insert name pid) (transfer_names tr) (pt_names t) \<rparr>"
  have run: "import_process_transfer Q tr t = (Ok (), ?t)"
    using d'(1) valid by (simp add: import_process_transfer_def bind_st_def read_st_def map_err_st_def
        map_err_def on_processes_def Let_def pid_def)
  have "handle_generation h \<le> GENERATION_MASK"
    using dir_find_handle_generation [OF d'(3)] d'(4)
    by (metis VmActorCell.select_convs(1) cell_new_def fun_upd_same)
  then have rest: "cell_rest contents (cell_new Q h (transfer_process tr))"
    by (intro cell_rest_new [OF Q]) (simp_all add: p)
  have nb: "bt_ok (pt_names t)" using pt_okD(4) [OF ok] by (simp add: pt_names_ok_def)
  have "pt_ok Q contents capacity ?t
      \<and> pt_get ?t = (pt_get t)(pid \<mapsto> cell_value (cell_new Q h (transfer_process tr)))"
    by (rule pt_gain [OF ok fresh d'(3,4) rest])
      (use p v nb in \<open>auto simp: pid_def bt_ok_fold_insert fold_insert_names le_max_iff_disj
          split: if_splits\<close>)
  then show ?thesis
    by (intro that [OF run]) (simp_all add: fold_insert_names)
qed

section \<open>The contract\<close>

text \<open>
  What the clients of the table rely on: a lookup, the exit of a process, the delivery of
  a message, and the invariant they keep. Nothing else of the table is visible to them.
\<close>

locale process_store =
  fixes get :: "'t \<Rightarrow> VmProcessId \<Rightarrow> VmProcess option"
    and exit :: "VmProcessId \<Rightarrow> VmExitReason \<Rightarrow> ('t, vm_error, string list) stateful"
    and deliver :: "VmProcessId \<Rightarrow> VmProcessId \<Rightarrow> VmMessageDelivery \<Rightarrow> ('t, vm_error, u64) stateful"
    and invar :: "'t \<Rightarrow> bool"
  assumes exit_live: "invar t \<Longrightarrow> get t pid = Some p \<Longrightarrow> \<not> is_exited (proc_state p)
      \<Longrightarrow> \<exists>t'. exit pid reason t = (Ok (proc_resource_handles p), t') \<and> invar t'
            \<and> get t' = (get t)(pid \<mapsto> snd (proc_exit reason p))"
    and exit_dead: "invar t \<Longrightarrow> get t pid = Some p \<Longrightarrow> is_exited (proc_state p)
      \<Longrightarrow> \<exists>e. exit pid reason t = (Err e, t)"
    and deliver_live: "invar t \<Longrightarrow> get t pid = Some p \<Longrightarrow> \<not> is_exited (proc_state p)
      \<Longrightarrow> \<exists>t' i sequence. deliver sender pid delivery t = (Ok i, t') \<and> invar t'
            \<and> get t' = (get t)(pid \<mapsto> proc_integrate_message
                (delivered_message i sequence sender delivery) p)"
begin

definition alive :: "'t \<Rightarrow> VmProcessId set" where
  "alive t = {pid. \<exists>p. get t pid = Some p \<and> \<not> is_exited (proc_state p)}"

definition known :: "'t \<Rightarrow> VmProcessId set" where
  "known t = {pid. get t pid \<noteq> None}"

lemma exit_alive:
  assumes "invar t" "pid \<in> alive t"
  obtains t' where "exit pid reason t = (Ok (proc_resource_handles (the (get t pid))), t')"
    "invar t'" "alive t' = alive t - {pid}" "known t' = known t"
    "\<And>p. p \<noteq> pid \<Longrightarrow> get t' p = get t p"
    "get t' pid = Some (snd (proc_exit reason (the (get t pid))))"
proof -
  obtain p where p: "get t pid = Some p" "\<not> is_exited (proc_state p)"
    using assms(2) by (auto simp: alive_def)
  obtain t' where t': "exit pid reason t = (Ok (proc_resource_handles p), t')" "invar t'"
      "get t' = (get t)(pid \<mapsto> snd (proc_exit reason p))"
    using exit_live [OF assms(1) p] by blast
  show ?thesis
    by (rule that [of t']) (use p t' in \<open>auto simp: alive_def known_def\<close>)
qed

lemma deliver_alive:
  assumes "invar t" "pid \<in> alive t"
  obtains i t' sequence where "deliver sender pid delivery t = (Ok i, t')" "invar t'"
    "alive t' = alive t" "known t' = known t" "\<And>p. p \<noteq> pid \<Longrightarrow> get t' p = get t p"
    "get t' pid = Some (proc_integrate_message (delivered_message i sequence sender delivery)
       (the (get t pid)))"
    "proc_resource_handles (the (get t' pid)) = proc_resource_handles (the (get t pid))"
proof -
  obtain p where p: "get t pid = Some p" "\<not> is_exited (proc_state p)"
    using assms(2) by (auto simp: alive_def)
  obtain i t' sequence where t': "deliver sender pid delivery t = (Ok i, t')" "invar t'"
      "get t' = (get t)(pid \<mapsto> proc_integrate_message (delivered_message i sequence sender delivery) p)"
    using deliver_live [OF assms(1) p] by blast
  show ?thesis
    by (rule that [of i t' sequence]) (use p t' in \<open>auto simp: alive_def known_def\<close>)
qed

end

interpretation pt: process_store pt_get pt_exit_process "enqueue_message Q" "pt_ok Q contents capacity"
  for Q contents capacity
proof unfold_locales
  fix t pid p reason sender delivery
  assume t: "pt_ok Q contents capacity t" "pt_get t pid = Some p"
  show "\<exists>t'. pt_exit_process pid reason t = (Ok (proc_resource_handles p), t')
      \<and> pt_ok Q contents capacity t' \<and> pt_get t' = (pt_get t)(pid \<mapsto> snd (proc_exit reason p))"
    if "\<not> is_exited (proc_state p)"
    using exit_process_law [OF t that] by metis
  show "\<exists>e. pt_exit_process pid reason t = (Err e, t)" if "is_exited (proc_state p)"
    using exit_process_dead [OF t that] by blast
  show "\<exists>t' i sequence. enqueue_message Q sender pid delivery t = (Ok i, t')
      \<and> pt_ok Q contents capacity t' \<and> pt_get t' = (pt_get t)(pid \<mapsto> proc_integrate_message
          (delivered_message i sequence sender delivery) p)"
    if "\<not> is_exited (proc_state p)"
    using enqueue_message_law [OF t that] by metis
qed

lemma alive_is_alive: "pid \<in> process_store.alive pt_get t \<longleftrightarrow> is_alive t pid"
  by (simp add: pt.alive_def is_alive_get)

end
