(* ===== verification/Ownership_Runs.thy ===== *)
theory Ownership_Runs
  imports Directory_Laws
begin

text \<open>
  The ownership word of an actor over runs of the calls that move it. An acquisition starts
  the next owner generation and a release keeps the generation and drops the owner, so the
  token of one acquisition matches the word only until its first release, whatever the
  directory is asked for afterwards, until the generations have gone round once.
\<close>

section \<open>Ownership over a run\<close>

text \<open>
  The calls that move ownership or lifecycle of any actor of the directory, in any order:
  the lifecycle marks, the wake of a parked actor, both acquisitions, work under a token
  and both releases. Tokens are arbitrary values, stale and forged ones included.
\<close>

datatype 't ownership_call =
    MarkQueued VmProcessId
  | MarkExiting VmProcessId
  | MarkRetired VmProcessId
  | BeginMigration VmProcessId
  | FinishMigration VmProcessId
  | WakeParked VmProcessId
  | Acquire VmProcessId u64
  | AcquireControl VmProcessId u64
  | WithMutator VmActorMutatorToken "'t \<Rightarrow> 't"
  | Release VmActorMutatorToken VmActorLifecycle
  | ReleaseControl VmActorMutatorToken

fun ownership_step :: "('q, 'p VmPublishedFragment) queue_ops \<Rightarrow> 't ownership_call
    \<Rightarrow> ('t, 'q) VmActorDirectory \<Rightarrow> ('t, 'q) VmActorDirectory" where
  "ownership_step Q (MarkQueued pid) d = snd (dir_mark_queued pid d)"
| "ownership_step Q (MarkExiting pid) d = snd (dir_mark_exiting pid d)"
| "ownership_step Q (MarkRetired pid) d = snd (dir_mark_retired pid d)"
| "ownership_step Q (BeginMigration pid) d = snd (dir_begin_migration pid d)"
| "ownership_step Q (FinishMigration pid) d = snd (dir_finish_migration pid d)"
| "ownership_step Q (WakeParked pid) d = snd (dir_enqueue_notified_parked pid d)"
| "ownership_step Q (Acquire pid owner) d = snd (dir_acquire_mutator pid owner d)"
| "ownership_step Q (AcquireControl pid owner) d = snd (dir_acquire_control_mutator pid owner d)"
| "ownership_step Q (WithMutator token f) d = snd (dir_with_mutator token (\<lambda>v. ((), f v)) d)"
| "ownership_step Q (Release token next) d = snd (dir_release_mutator Q token next d)"
| "ownership_step Q (ReleaseControl token) d = snd (dir_release_control_mutator token d)"

definition ownership_run :: "('q, 'p VmPublishedFragment) queue_ops \<Rightarrow> 't ownership_call list
    \<Rightarrow> ('t, 'q) VmActorDirectory \<Rightarrow> ('t, 'q) VmActorDirectory" where
  "ownership_run Q calls d = fold (ownership_step Q) calls d"

fun acquires :: "VmProcessId \<Rightarrow> 't ownership_call \<Rightarrow> bool" where
  "acquires pid (Acquire p _) = (p = pid)"
| "acquires pid (AcquireControl p _) = (p = pid)"
| "acquires pid _ = False"

definition acquisitions :: "VmProcessId \<Rightarrow> 't ownership_call list \<Rightarrow> nat" where
  "acquisitions pid calls = length (filter (acquires pid) calls)"

text \<open>
  What one call does to the ownership of one actor: nothing, or it lets go of it in the
  same generation, or it is an acquisition of that actor and starts the next generation.
\<close>

definition owner_moves :: "('q \<Rightarrow> 'f list) \<Rightarrow> ('q \<Rightarrow> nat) \<Rightarrow> ('t, 'q) VmActorDirectory
    \<Rightarrow> ('t, 'q) VmActorDirectory \<Rightarrow> VmProcessId \<Rightarrow> bool \<Rightarrow> bool" where
  "owner_moves contents capacity d d' pid acquired \<longleftrightarrow>
     (\<forall>c s. resolves contents capacity d pid c s \<longrightarrow> (\<exists>c' s'.
        resolves contents capacity d' pid c' s' \<and> cell_handle c' = cell_handle c
        \<and> (st_owner_generation s' = st_owner_generation s \<and> st_owner s' \<in> {st_owner s, 0}
           \<or> acquired \<and> st_owner_generation s' = next_generation (st_owner_generation s))))"

lemma owner_moves_refl: "owner_moves contents capacity d d pid b"
  by (force simp: owner_moves_def)

lemma owner_moves_write:
  assumes r: "resolves contents capacity d p c s"
    and c': "cell_handle c' = cell_handle c" "cell_ok contents capacity c'" "cell_load c' = Ok s'"
    and g: "st_owner_generation s' = st_owner_generation s \<and> st_owner s' \<in> {st_owner s, 0}
       \<or> (b \<or> p \<noteq> pid) \<and> st_owner_generation s' = next_generation (st_owner_generation s)"
  shows "owner_moves contents capacity d (dir_write c' d) pid b"
proof (cases "p = pid")
  case True
  then show ?thesis
    using resolves_write [OF r c'] g c'(1) r unfolding owner_moves_def resolves_def by force
next
  case False
  then show ?thesis
    using dir_write_find [OF resolves_facts(1,2) [OF r] c'(1,2)]
    unfolding owner_moves_def resolves_def by auto
qed

lemma owner_moves_with:
  assumes r: "resolves contents capacity d p c s" and b: "og \<le> GENERATION_MASK" "ow \<le> GENERATION_MASK"
    and m: "mailbox_ok contents capacity m"
    and g: "og = st_owner_generation s \<and> ow \<in> {st_owner s, 0}
       \<or> (b \<or> p \<noteq> pid) \<and> og = next_generation (st_owner_generation s)"
  shows "owner_moves contents capacity d (dir_write (cell_with l og ow (c\<lparr> cell_mailbox := m \<rparr>)) d) pid b"
    and "resolves contents capacity (dir_write (cell_with l og ow (c\<lparr> cell_mailbox := m \<rparr>)) d) p
      (cell_with l og ow (c\<lparr> cell_mailbox := m \<rparr>))
      \<lparr> st_lifecycle = l, st_actor_generation = handle_generation (cell_handle c),
        st_owner_generation = og, st_owner = ow \<rparr>"
proof -
  have ok: "cell_ok contents capacity (cell_with l og ow (c\<lparr> cell_mailbox := m \<rparr>))"
    by (rule cell_ok_with [OF cell_ok_mailbox [OF resolves_facts(4) [OF r] m] b])
  have load: "cell_load (cell_with l og ow (c\<lparr> cell_mailbox := m \<rparr>)) = Ok
      \<lparr> st_lifecycle = l, st_actor_generation = handle_generation (cell_handle c),
        st_owner_generation = og, st_owner = ow \<rparr>"
    using cell_load_with [of "c\<lparr> cell_mailbox := m \<rparr>" og ow l] b
      cell_ok_generation [OF cell_ok_mailbox [OF resolves_facts(4) [OF r] m]] by simp
  show "owner_moves contents capacity d (dir_write (cell_with l og ow (c\<lparr> cell_mailbox := m \<rparr>)) d) pid b"
    by (rule owner_moves_write [OF r _ ok load]) (use g in auto)
  show "resolves contents capacity (dir_write (cell_with l og ow (c\<lparr> cell_mailbox := m \<rparr>)) d) p
      (cell_with l og ow (c\<lparr> cell_mailbox := m \<rparr>))
      \<lparr> st_lifecycle = l, st_actor_generation = handle_generation (cell_handle c),
        st_owner_generation = og, st_owner = ow \<rparr>"
    by (rule resolves_write [OF r _ ok load]) simp
qed

lemma prepare_park_ok:
  "mailbox_ok contents capacity m \<Longrightarrow> mailbox_ok contents capacity (snd (mailbox_prepare_park Q m))"
  by (simp add: mailbox_prepare_park_def mailbox_ok_def Let_def)

lemma mailbox_of_resolved: "resolves contents capacity d p c s \<Longrightarrow> mailbox_ok contents capacity (cell_mailbox c)"
  using resolves_facts(4) by (fastforce simp: cell_ok_def)

text \<open>A call on an identity that is not there, or on a stale handle, changes nothing.\<close>

lemma unknown_cell: "dir_ok contents capacity d \<Longrightarrow> dir_find d p = None \<Longrightarrow> \<exists>e. dir_cell d p = Err e"
  using dir_cell_eq [OF dir_ok_parts(1)] by (fastforce split: option.splits)

lemma handle_cases:
  assumes "dir_ok contents capacity d"
  obtains (unknown) e where "dir_cell_for_handle d h = Err e"
  | (known) c s where "resolves contents capacity d (handle_pid h) c s" "cell_handle c = h"
proof (cases "dir_find d (handle_pid h)")
  case None
  then show ?thesis
    using unknown dir_cell_for_handle_eq [OF dir_ok_parts(1-3) [OF assms]] by simp
next
  case (Some c)
  obtain s where "resolves contents capacity d (handle_pid h) c s" by (rule resolves_obtain [OF assms Some])
  then show ?thesis
    using known unknown Some dir_cell_for_handle_eq [OF dir_ok_parts(1-3) [OF assms], of h]
    by (cases "cell_handle c = h") auto
qed

lemma owner_moves_transition:
  assumes ok: "dir_ok contents capacity d"
  shows "owner_moves contents capacity d (snd (dir_transition_unowned p allowed nxt d)) pid b"
proof (cases "dir_find d p")
  case None
  then obtain e where "dir_cell d p = Err e" using unknown_cell [OF ok] by blast
  then show ?thesis by (simp add: dir_transition_unowned_def read_st_def bind_st_def owner_moves_refl)
next
  case (Some c)
  obtain s where r: "resolves contents capacity d p c s" by (rule resolves_obtain [OF ok Some])
  from owner_moves_with(1) [OF r _ _ mailbox_of_resolved [OF r], where l = nxt and ow = 0] show ?thesis
    using resolves_facts(9) [OF r] by (auto simp: transition_unowned_law [OF r] owner_moves_refl)
qed

lemma owner_moves_wake:
  assumes ok: "dir_ok contents capacity d"
  shows "owner_moves contents capacity d (snd (dir_enqueue_notified_parked p d)) pid b"
proof (cases "dir_find d p")
  case None
  then obtain e where "dir_cell d p = Err e" using unknown_cell [OF ok] by blast
  then show ?thesis by (simp add: dir_enqueue_notified_parked_def read_st_def bind_st_def owner_moves_refl)
next
  case (Some c)
  obtain s where r: "resolves contents capacity d p c s" by (rule resolves_obtain [OF ok Some])
  from owner_moves_with(1) [OF r _ _ mailbox_of_resolved [OF r], where l = Queued and ow = 0] show ?thesis
    using resolves_facts(9) [OF r] by (auto simp: enqueue_notified_parked_law [OF r] owner_moves_refl)
qed

lemma owner_moves_acquire:
  assumes ok: "dir_ok contents capacity d"
  shows "owner_moves contents capacity d (snd (dir_acquire_mutator p owner d)) pid (p = pid)"
    "owner_moves contents capacity d (snd (dir_acquire_control_mutator p owner d)) pid (p = pid)"
proof -
  show "owner_moves contents capacity d (snd (dir_acquire_mutator p owner d)) pid (p = pid)"
  proof (cases "dir_find d p")
    case None
    then obtain e where "dir_cell d p = Err e" using unknown_cell [OF ok] by blast
    then show ?thesis by (simp add: dir_acquire_mutator_def read_st_def bind_st_def owner_moves_refl)
  next
    case (Some c)
    obtain s where r: "resolves contents capacity d p c s" by (rule resolves_obtain [OF ok Some])
    from owner_moves_with(1) [OF r next_generation_le [of "st_owner_generation s"] _ mailbox_of_resolved [OF r],
        where l = Executing and ow = owner and b = "p = pid"] show ?thesis
      by (auto simp: acquire_mutator_law [OF r] owner_moves_refl not_less)
  qed
  show "owner_moves contents capacity d (snd (dir_acquire_control_mutator p owner d)) pid (p = pid)"
  proof (cases "dir_find d p")
    case None
    then obtain e where "dir_cell d p = Err e" using unknown_cell [OF ok] by blast
    then show ?thesis by (simp add: dir_acquire_control_mutator_def read_st_def bind_st_def owner_moves_refl)
  next
    case (Some c)
    obtain s where r: "resolves contents capacity d p c s" by (rule resolves_obtain [OF ok Some])
    from owner_moves_with(1) [OF r next_generation_le [of "st_owner_generation s"] _ mailbox_of_resolved [OF r],
        where l = "st_lifecycle s" and ow = owner and b = "p = pid"] show ?thesis
      by (auto simp: acquire_control_mutator_law [OF r] owner_moves_refl not_less)
  qed
qed

lemma owner_moves_trans:
  assumes "owner_moves contents capacity d d1 pid False" "owner_moves contents capacity d1 d2 pid False"
  shows "owner_moves contents capacity d d2 pid False"
  using assms unfolding owner_moves_def by fastforce

lemma owner_moves_token:
  assumes ok: "dir_ok contents capacity d"
  shows "owner_moves contents capacity d (snd (dir_with_mutator token f d)) pid b"
    "owner_moves contents capacity d (snd (dir_release_control_mutator token d)) pid b"
proof -
  note start = read_st_def bind_st_def owner_moves_refl
  from ok show "owner_moves contents capacity d (snd (dir_with_mutator token f d)) pid b"
  proof (cases rule: handle_cases [where h = "token_handle token"])
    case (unknown e)
    then show ?thesis by (simp add: dir_with_mutator_def start)
  next
    case (known c s)
    have "owner_moves contents capacity d (dir_write (c\<lparr> cell_value := v \<rparr>) d) pid b" for v
      by (rule owner_moves_write [OF known(1)])
        (use resolves_facts(3,4) [OF known(1)] in auto)
    then show ?thesis by (simp add: with_mutator_law [OF known(1) known(2) [symmetric]] owner_moves_refl)
  qed
  from ok show "owner_moves contents capacity d (snd (dir_release_control_mutator token d)) pid b"
  proof (cases rule: handle_cases [where h = "token_handle token"])
    case (unknown e)
    then show ?thesis by (simp add: dir_release_control_mutator_def start)
  next
    case (known c s)
    from owner_moves_with(1) [OF known(1) _ _ mailbox_of_resolved [OF known(1)],
        where l = "token_lifecycle token" and ow = 0] show ?thesis
      using resolves_facts(9) [OF known(1)]
      by (auto simp: release_control_mutator_law [OF known(1) known(2) [symmetric]] owner_moves_refl)
  qed
qed

text \<open>A release, whatever it releases to: the word keeps its generation and names no owner.\<close>

lemma release_moves:
  assumes r: "resolves contents capacity d p c s" and t: "token_handle token = cell_handle c"
    and boundary: "nxt \<in> {Yielding, Parked, Exiting}" and v: "validate_token c token = Ok ()"
  obtains released d' c' s' where "dir_release_mutator Q token nxt d = (Ok released, d')"
    "resolves contents capacity d' p c' s'" "cell_handle c' = cell_handle c"
    "st_owner_generation s' = st_owner_generation s" "st_owner s' = 0"
    "owner_moves contents capacity d d' pid b"
proof -
  let ?m = "if nxt = Parked then snd (mailbox_prepare_park Q (cell_mailbox c)) else cell_mailbox c"
  let ?l = "if nxt \<noteq> Parked \<or> fst (mailbox_prepare_park Q (cell_mailbox c)) then nxt else Yielding"
  let ?c = "cell_with ?l (st_owner_generation s) 0 (c\<lparr> cell_mailbox := ?m \<rparr>)"
  have m: "mailbox_ok contents capacity ?m"
    using mailbox_of_resolved [OF r] prepare_park_ok by auto
  have g: "st_owner_generation s \<le> GENERATION_MASK" "(0 :: u64) \<le> GENERATION_MASK"
    using resolves_facts(9) [OF r] by simp_all
  have r1: "resolves contents capacity (dir_write ?c d) p ?c
      \<lparr> st_lifecycle = ?l, st_actor_generation = handle_generation (cell_handle c),
        st_owner_generation = st_owner_generation s, st_owner = 0 \<rparr>"
    by (rule owner_moves_with(2) [OF r g m, where pid = p and b = True]) simp
  have moves: "owner_moves contents capacity d (dir_write ?c d) pid b" for pid b
    by (rule owner_moves_with(1) [OF r g m]) simp
  show ?thesis
  proof (cases "?l = Parked \<and> mailbox_is_notified ?m")
    case False
    have "dir_release_mutator Q token nxt d = (Ok ?l, dir_write ?c d)"
      using False unfolding release_mutator_law [OF r t boundary v] Let_def by (simp only: if_False simp_thms)
    then show ?thesis by (rule that [OF _ r1 _ _ _ moves]) simp_all
  next
    case True
    let ?d1 = "dir_write ?c d" and ?c1 = "cell_with Queued (st_owner_generation s) 0 ?c"
    have wake: "dir_enqueue_notified_parked p ?d1 = (Ok True, dir_write ?c1 ?d1)"
      unfolding enqueue_notified_parked_law [OF r1] using True by simp
    have run: "dir_release_mutator Q token nxt d = (Ok Queued, dir_write ?c1 ?d1)"
      using True wake unfolding release_mutator_law [OF r t boundary v] Let_def
      by (simp only: if_True simp_thms resolves_facts(5) [OF r]) (simp add: bind_st_def return_st_def)
    have r2: "resolves contents capacity (dir_write ?c1 ?d1) p ?c1
      \<lparr> st_lifecycle = Queued, st_actor_generation = handle_generation (cell_handle ?c),
        st_owner_generation = st_owner_generation s, st_owner = 0 \<rparr>"
      by (rule resolves_with [OF r1 g])
    have "owner_moves contents capacity d (snd (dir_enqueue_notified_parked p ?d1)) pid False"
      by (rule owner_moves_trans [OF moves owner_moves_wake [OF resolves_facts(1) [OF r1]]])
    then have woken: "owner_moves contents capacity d (dir_write ?c1 ?d1) pid b"
      unfolding wake snd_conv owner_moves_def by blast
    show ?thesis by (rule that [OF run r2 _ _ _ woken]) simp_all
  qed
qed

lemma owner_moves_release:
  assumes ok: "dir_ok contents capacity d"
  shows "owner_moves contents capacity d (snd (dir_release_mutator Q token nxt d)) pid b"
proof (cases "nxt \<in> {Yielding, Parked, Exiting}")
  case False
  then show ?thesis by (simp add: dir_release_mutator_def owner_moves_refl)
next
  case boundary: True
  from ok show ?thesis
  proof (cases rule: handle_cases [where h = "token_handle token"])
    case (unknown e)
    then show ?thesis using boundary by (auto simp: dir_release_mutator_def read_st_def bind_st_def owner_moves_refl)
  next
    case (known c s)
    show ?thesis
    proof (cases "validate_token c token = Ok ()")
      case True
      obtain released d' where "dir_release_mutator Q token nxt d = (Ok released, d')"
          "owner_moves contents capacity d d' pid b"
        by (rule release_moves [OF known(1) known(2) [symmetric] boundary True, of Q])
      then show ?thesis by simp
    next
      case False
      then show ?thesis
        using boundary resolves_facts [OF known(1)] known(2) validate_token_stale [of c s token]
        by (auto simp: dir_release_mutator_def read_st_def bind_st_def owner_moves_refl)
    qed
  qed
qed

lemma ownership_step_moves:
  "dir_ok contents capacity d
     \<Longrightarrow> owner_moves contents capacity d (ownership_step Q call d) pid (acquires pid call)"
  by (cases call)
    (auto simp: owner_moves_transition owner_moves_wake owner_moves_acquire owner_moves_token owner_moves_release
      owner_moves_refl dir_mark_queued_def dir_mark_exiting_def dir_mark_retired_def dir_begin_migration_def
      dir_finish_migration_def bind_st_def read_st_def return_st_def split: prod.splits outcome.splits)

section \<open>Generations go round\<close>

lemma next_generation_unat:
  assumes "g \<le> GENERATION_MASK" "g \<noteq> 0"
  shows "unat (next_generation g) = (if unat g = unat GENERATION_MASK then 1 else unat g + 1)"
proof -
  have mask: "unat GENERATION_MASK = 2 ^ 20 - 1" by (simp add: GENERATION_MASK_def GENERATION_BITS_def)
  have g: "unat g \<le> 2 ^ 20 - 1" using assms(1) mask by (simp add: word_le_nat_alt)
  have "unat ((g + 1) AND GENERATION_MASK) = (unat g + 1) mod 2 ^ 20"
    using g by (simp add: GENERATION_MASK_mask take_bit_eq_mask [symmetric] unsigned_take_bit_eq take_bit_eq_mod
        unat_word_ariths)
  moreover have "unat (next_generation g) = max (unat ((g + 1) AND GENERATION_MASK)) 1"
    by (simp add: next_generation_def max_def word_le_nat_alt)
  ultimately show ?thesis using g mask by auto
qed

text \<open>The generation a number of acquisitions later.\<close>

definition generation_after :: "nat \<Rightarrow> u64 \<Rightarrow> u64" where
  "generation_after n g = (next_generation ^^ n) g"

lemma generation_after_0 [simp]: "generation_after 0 g = g"
  by (simp add: generation_after_def)

lemma generation_after_Suc: "generation_after (Suc n) g = next_generation (generation_after n g)"
  by (simp add: generation_after_def)

lemma generation_after_unat:
  assumes "g \<le> GENERATION_MASK" "g \<noteq> 0"
  shows "unat (generation_after n g) = (unat g - 1 + n) mod unat GENERATION_MASK + 1"
    "generation_after n g \<le> GENERATION_MASK" "generation_after n g \<noteq> 0"
proof (induction n)
  case 0
  have "unat g \<noteq> 0" "unat g \<le> unat GENERATION_MASK" using assms by (simp_all add: unat_eq_zero word_le_nat_alt)
  then show "unat (generation_after 0 g) = (unat g - 1 + 0) mod unat GENERATION_MASK + 1"
    "generation_after 0 g \<le> GENERATION_MASK" "generation_after 0 g \<noteq> 0"
    using assms by simp_all
next
  case (Suc n)
  have mask: "unat GENERATION_MASK = 2 ^ 20 - 1" by (simp add: GENERATION_MASK_def GENERATION_BITS_def)
  have step: "unat (generation_after (Suc n) g)
      = (if unat (generation_after n g) = unat GENERATION_MASK then 1 else unat (generation_after n g) + 1)"
    unfolding generation_after_Suc by (rule next_generation_unat [OF Suc(2,3)])
  show "unat (generation_after (Suc n) g) = (unat g - 1 + Suc n) mod unat GENERATION_MASK + 1"
    unfolding step Suc(1) mask by (auto simp: mod_Suc)
  show "generation_after (Suc n) g \<le> GENERATION_MASK" "generation_after (Suc n) g \<noteq> 0"
    unfolding generation_after_Suc using next_generation_range by auto
qed

lemma generation_after_differs:
  assumes g: "g \<le> GENERATION_MASK" "g \<noteq> 0" and n: "0 < n" "n < unat GENERATION_MASK"
  shows "generation_after n g \<noteq> g"
proof
  let ?M = "unat GENERATION_MASK"
  assume "generation_after n g = g"
  moreover have u: "unat g \<noteq> 0" "unat g \<le> ?M" using g by (simp_all add: unat_eq_zero word_le_nat_alt)
  ultimately have eq: "(unat g - 1 + n) mod ?M = unat g - 1" using generation_after_unat(1) [OF g, of n] by simp
  have "(unat g - 1 + n) mod ?M \<noteq> unat g - 1"
  proof (cases "unat g - 1 + n < ?M")
    case True
    then show ?thesis using n(1) by simp
  next
    case False
    then have "(unat g - 1 + n) mod ?M = unat g - 1 + n - ?M" using u n(2) by (simp add: le_mod_geq)
    then show ?thesis using n(2) False by linarith
  qed
  then show False using eq by contradiction
qed

text \<open>
  From the release of an acquisition of generation \<open>g\<close> on: either the generation is still \<open>g\<close> and
  nobody owns the actor, or some acquisitions have taken the generation further.
\<close>

definition released_since :: "('q \<Rightarrow> 'f list) \<Rightarrow> ('q \<Rightarrow> nat) \<Rightarrow> VmProcessId \<Rightarrow> VmActorHandle \<Rightarrow> u64 \<Rightarrow> nat
    \<Rightarrow> ('t, 'q) VmActorDirectory \<Rightarrow> bool" where
  "released_since contents capacity pid h g n d \<longleftrightarrow> (\<exists>c s k. resolves contents capacity d pid c s
     \<and> cell_handle c = h \<and> k \<le> n \<and> st_owner_generation s = generation_after k g \<and> (k = 0 \<longrightarrow> st_owner s = 0))"

lemma released_step:
  assumes "released_since contents capacity pid h g n d" "owner_moves contents capacity d d' pid b"
  shows "released_since contents capacity pid h g (if b then Suc n else n) d'"
proof -
  from assms(1) obtain c s k where k: "resolves contents capacity d pid c s" "cell_handle c = h" "k \<le> n"
      "st_owner_generation s = generation_after k g" "k = 0 \<longrightarrow> st_owner s = 0"
    by (auto simp: released_since_def)
  from assms(2) [unfolded owner_moves_def, rule_format, OF k(1)] obtain c' s' where
      c': "resolves contents capacity d' pid c' s'" "cell_handle c' = cell_handle c"
      and m: "st_owner_generation s' = st_owner_generation s \<and> st_owner s' \<in> {st_owner s, 0}
         \<or> b \<and> st_owner_generation s' = next_generation (st_owner_generation s)" by blast
  from m show ?thesis
  proof
    assume "st_owner_generation s' = st_owner_generation s \<and> st_owner s' \<in> {st_owner s, 0}"
    then show ?thesis
      using k c' unfolding released_since_def by (intro exI [of _ c'] exI [of _ s'] exI [of _ k]) auto
  next
    assume "b \<and> st_owner_generation s' = next_generation (st_owner_generation s)"
    then show ?thesis
      using k c' unfolding released_since_def
      by (intro exI [of _ c'] exI [of _ s'] exI [of _ "Suc k"]) (simp add: generation_after_Suc)
  qed
qed

lemma released_run:
  "released_since contents capacity pid h g n d
     \<Longrightarrow> released_since contents capacity pid h g (n + acquisitions pid calls) (ownership_run Q calls d)"
proof (induction calls arbitrary: n d)
  case Nil
  then show ?case by (simp add: ownership_run_def acquisitions_def)
next
  case (Cons call calls)
  have "dir_ok contents capacity d" using Cons.prems resolves_facts(1) by (auto simp: released_since_def)
  from Cons.IH [OF released_step [OF Cons.prems ownership_step_moves [OF this, of Q call]]]
  show ?case by (simp add: ownership_run_def acquisitions_def split: if_splits)
qed

lemma released_stale:
  assumes since: "released_since contents capacity pid h g n d" and n: "n < unat GENERATION_MASK"
    and g: "g \<le> GENERATION_MASK" "g \<noteq> 0"
    and token: "token_handle token = h" "token_owner_generation token = g" "token_owner token \<noteq> 0"
  shows "dir_with_mutator token f d = (Err StaleMutator, d)"
    "nxt \<in> {Yielding, Parked, Exiting} \<Longrightarrow> dir_release_mutator Q token nxt d = (Err StaleMutator, d)"
    "dir_release_control_mutator token d = (Err StaleMutator, d)"
proof -
  from since obtain c s k where k: "resolves contents capacity d pid c s" "cell_handle c = h" "k \<le> n"
      "st_owner_generation s = generation_after k g" "k = 0 \<longrightarrow> st_owner s = 0"
    by (auto simp: released_since_def)
  have v: "validate_token c token \<noteq> Ok ()"
  proof
    assume "validate_token c token = Ok ()"
    then have "st_owner_generation s = g" "st_owner s \<noteq> 0"
      using token(2,3) resolves_facts(3) [OF k(1)] by (auto simp: validate_token_iff)
    then show False using k(3-5) n generation_after_differs [OF g, of k] by (cases "k = 0") auto
  qed
  have h: "token_handle token = cell_handle c" using k(2) token(1) by simp
  show "dir_with_mutator token f d = (Err StaleMutator, d)"
    "dir_release_control_mutator token d = (Err StaleMutator, d)"
    using v with_mutator_law [OF k(1) h, of f] release_control_mutator_law [OF k(1) h] by simp_all
  show "dir_release_mutator Q token nxt d = (Err StaleMutator, d)" if "nxt \<in> {Yielding, Parked, Exiting}"
    using that v resolves_facts [OF k(1)] h validate_token_stale [of c s token]
    by (auto simp: dir_release_mutator_def read_st_def bind_st_def)
qed

end
