(* ===== verification/Process_Properties.thy ===== *)
theory Process_Properties
  imports Process_Laws Ownership_Runs
begin

text \<open>
  The properties of the actor directory, the mailboxes and the process table, each with
  an instance at a concrete input. The instances run on a table with two live processes,
  built by the code's own operations over a list-backed queue.
\<close>

section \<open>A sample table\<close>

definition sample_source :: VmProcessSource where
  "sample_source = \<lparr> src_module = ''demo'', src_function = ''main'', src_arity = 0,
     src_source_path = None \<rparr>"

definition sample_one :: "(VmMessage VmPublishedFragment list \<times> nat) VmProcessTable" where
  "sample_one = snd (spawn_root list_queue sample_source process_table_default)"

definition sample_two :: "(VmMessage VmPublishedFragment list \<times> nat) VmProcessTable" where
  "sample_two = snd (spawn_child list_queue 1 sample_source sample_one)"

lemma pt_ok_default: "bounded_fifo Q contents capacity \<Longrightarrow> pt_ok Q contents capacity process_table_default"
  by (auto simp: pt_ok_def process_table_default_def dir_default_def dir_ok_def dir_index_ok_def
      dir_slots_ok_def pt_cells_ok_def pt_names_ok_def dir_find_def dir_cell_def)

lemma sample_one_facts:
  "pt_ok list_queue fst snd sample_one"
  "pt_get sample_one = [1 \<mapsto> new_process 1 None sample_source]"
  "pt_names sample_one = []" "pt_next_pid sample_one = 1" "pt_next_message_id sample_one = 0"
proof -
  have get0: "pt_get process_table_default = Map.empty"
    by (rule ext) (simp add: pt_get_def dir_get_def dir_cell_def process_table_default_def dir_default_def)
  have d: "pt_next_pid process_table_default = 0" "pt_names process_table_default = []"
      "pt_has_room process_table_default" "pt_next_message_id process_table_default = 0"
    by (simp_all add: process_table_default_def pt_has_room_def dir_has_room_def dir_default_def)
  have sat: "saturating_add 0 1 = (1 :: u64)" by (simp add: saturating_add_def checked_add_def)
  obtain t' where "pt_spawn list_queue None sample_source process_table_default = (Ok 1, t')"
      "pt_ok list_queue fst snd t'" "pt_get t' = [1 \<mapsto> new_process 1 None sample_source]"
      "pt_names t' = []" "pt_next_pid t' = 1" "pt_next_message_id t' = 0"
    by (rule spawn_law [OF pt_ok_default [OF list_queue_fifo], of None sample_source,
          unfolded d(1,2,4) sat get0]) (simp_all add: d(3))
  then show "pt_ok list_queue fst snd sample_one"
    "pt_get sample_one = [1 \<mapsto> new_process 1 None sample_source]"
    "pt_names sample_one = []" "pt_next_pid sample_one = 1" "pt_next_message_id sample_one = 0"
    by (simp_all add: sample_one_def spawn_root_def)
qed

lemma pt_has_room_small:
  "length (dir_slots (pt_processes t)) < 2 ^ 32 \<Longrightarrow> pt_has_room t"
  by (simp add: pt_has_room_def dir_has_room_def)


lemmas spawn_defs = pt_spawn_def spawn_root_def spawn_child_def dir_insert_def dir_take_slot_def
  dir_occupy_slot_def on_processes_def expect_st_def expect_def bind_st_def return_st_def
  vec_pop_def Let_def

lemma sample_one_slots: "length (dir_slots (pt_processes sample_one)) = 1"
  by (simp add: sample_one_def spawn_defs process_table_default_def dir_default_def bt_contains_def)

lemma sample_two_facts:
  "pt_ok list_queue fst snd sample_two"
  "pt_get sample_two = [1 \<mapsto> new_process 1 None sample_source,
     2 \<mapsto> new_process 2 (Some 1) sample_source]"
  "pt_names sample_two = []" "pt_next_pid sample_two = 2" "pt_next_message_id sample_two = 0"
proof -
  note one = sample_one_facts
  have sat: "saturating_add 1 1 = (2 :: u64)" by (simp add: saturating_add_def checked_add_def)
  have room: "pt_has_room sample_one" by (rule pt_has_room_small) (simp add: sample_one_slots)
  obtain t' where t': "pt_spawn list_queue (Some 1) sample_source sample_one = (Ok 2, t')"
      "pt_ok list_queue fst snd t'"
      "pt_get t' = [1 \<mapsto> new_process 1 None sample_source, 2 \<mapsto> new_process 2 (Some 1) sample_source]"
      "pt_names t' = []" "pt_next_pid t' = 2" "pt_next_message_id t' = 0"
    by (rule spawn_law [OF one(1), of "Some 1" sample_source, unfolded one(2-5) sat])
      (simp_all add: room)
  have "sample_two = t'"
    using t'(1) by (simp add: sample_two_def spawn_child_def one(2) new_process_def)
  with t' show "pt_ok list_queue fst snd sample_two"
    "pt_get sample_two = [1 \<mapsto> new_process 1 None sample_source,
       2 \<mapsto> new_process 2 (Some 1) sample_source]"
    "pt_names sample_two = []" "pt_next_pid sample_two = 2" "pt_next_message_id sample_two = 0"
    by simp_all
qed

lemma sample_two_slots: "length (dir_slots (pt_processes sample_two)) = 2"
proof -
  have two: "sample_two = snd (pt_spawn list_queue (Some 1) sample_source sample_one)"
    by (simp add: sample_two_def spawn_child_def sample_one_facts(2) new_process_def)
  have sat: "saturating_add 0 1 = (1 :: u64)" "saturating_add 1 1 = (2 :: u64)"
    by (simp_all add: saturating_add_def checked_add_def)
  show ?thesis
    unfolding two
    by (simp add: sat sample_one_def spawn_defs process_table_default_def dir_default_def
        bt_contains_def bt_get_def)
qed

lemma sample_two_room: "pt_has_room sample_two"
  by (rule pt_has_room_small) (simp add: sample_two_slots)

lemma sample_live: "\<not> is_exited (proc_state (new_process pid parent source))"
  by (simp add: new_process_def)

section \<open>The actor-local queue\<close>

text \<open>A producer that publishes a list of payloads, one call after the other.\<close>

fun publish_all :: "('q, 'p VmPublishedFragment) queue_ops \<Rightarrow> VmActorHandle \<Rightarrow> 'p list
    \<Rightarrow> ('q VmActorMailbox, VmActorDirectoryError, VmActorPublication list) stateful" where
  "publish_all Q h [] m = (Ok [], m)"
| "publish_all Q h (p # ps) m = bind_st (mailbox_publish Q h p) (\<lambda>(publication, wake).
     bind_st (publish_all Q h ps) (\<lambda>publications. return_st (publication # publications))) m"

lemma publish_all_appends:
  assumes Q: "bounded_fifo Q contents capacity"
  shows "mailbox_ok contents capacity m \<Longrightarrow> mailbox_next_sequence m = of_nat n
    \<Longrightarrow> length (contents (mailbox_queue m)) + length ps \<le> 1024 \<Longrightarrow> n + length ps \<le> 1024
    \<Longrightarrow> \<exists>m'. publish_all Q h ps m = (Ok (map (\<lambda>i. \<lparr> publication_handle = h,
            publication_sequence = of_nat (n + Suc i) \<rparr>) [0..<length ps]), m')
        \<and> mailbox_ok contents capacity m'
        \<and> contents (mailbox_queue m') = contents (mailbox_queue m) @
            map (\<lambda>i. \<lparr> fragment_publication = \<lparr> publication_handle = h,
              publication_sequence = of_nat (n + Suc i) \<rparr>, fragment_payload = ps ! i \<rparr>) [0..<length ps]"
proof (induction ps arbitrary: m n)
  case Nil
  then show ?case by simp
next
  case (Cons p ps)
  have room: "length (contents (mailbox_queue m)) < unat ACTOR_MAILBOX_CAPACITY"
    using Cons.prems(3) by (simp add: ACTOR_MAILBOX_CAPACITY_def)
  have seq: "saturating_add (mailbox_next_sequence m) 1 = of_nat (Suc n)"
    unfolding Cons.prems(2) using Cons.prems(4) by (intro saturating_add_of_nat) simp
  obtain w m1 where m1: "mailbox_publish Q h p m = (Ok (\<lparr> publication_handle = h,
          publication_sequence = of_nat (Suc n) \<rparr>, w), m1)"
      "contents (mailbox_queue m1) = contents (mailbox_queue m) @
         [\<lparr> fragment_publication = \<lparr> publication_handle = h,
              publication_sequence = of_nat (Suc n) \<rparr>, fragment_payload = p \<rparr>]"
      "mailbox_ok contents capacity m1" "mailbox_next_sequence m1 = mailbox_next_sequence m + 1"
    using publish_accepts [OF Q Cons.prems(1) room, of h p] unfolding seq by metis
  have next1: "mailbox_next_sequence m1 = of_nat (Suc n)" using m1(4) Cons.prems(2) by simp
  have "length (contents (mailbox_queue m1)) + length ps \<le> 1024" "Suc n + length ps \<le> 1024"
    using m1(2) Cons.prems(3,4) by simp_all
  from Cons.IH [OF m1(3) next1 this] obtain m' where m':
      "publish_all Q h ps m1 = (Ok (map (\<lambda>i. \<lparr> publication_handle = h,
          publication_sequence = of_nat (Suc n + Suc i) \<rparr>) [0..<length ps]), m')"
      "mailbox_ok contents capacity m'"
      "contents (mailbox_queue m') = contents (mailbox_queue m1) @
         map (\<lambda>i. \<lparr> fragment_publication = \<lparr> publication_handle = h,
           publication_sequence = of_nat (Suc n + Suc i) \<rparr>, fragment_payload = ps ! i \<rparr>) [0..<length ps]"
    by blast
  have shift: "map f [0..<length (p # ps)] = f 0 # map (\<lambda>i. f (Suc i)) [0..<length ps]" for f :: "nat \<Rightarrow> 'z"
    by (simp only: list.size(4) add_Suc_right add_0_right map_upt_Suc)
  show ?case
    using m1(1,2) m' unfolding shift
    by (simp add: bind_st_def return_st_def)
qed

text \<open>payloads published to a fresh mailbox, up to its capacity, are all accepted with
  consecutive sequence numbers, and one drain by the consumer returns each of them exactly
  once, in publication order, and leaves the queue empty. The drain loop ends by itself.\<close>

theorem publish_then_drain_fifo:
  assumes "bounded_fifo Q contents capacity" and "length ps \<le> unat ACTOR_MAILBOX_CAPACITY"
  shows "\<exists>publications fragments m m'.
      publish_all Q h ps (mailbox_default Q) = (Ok publications, m)
    \<and> mailbox_drain Q m = (Ok (of_nat (length ps), fragments) :: (VmActorDirectoryError, _) outcome, m')
    \<and> map fragment_payload fragments = ps
    \<and> map fragment_publication fragments = publications
    \<and> map (unat \<circ> publication_sequence) publications = [1..<Suc (length ps)]
    \<and> contents (mailbox_queue m') = []"
proof -
  note fresh = mailbox_default_ok [OF assms(1)]
  have len: "length ps \<le> 1024" using assms(2) by (simp add: ACTOR_MAILBOX_CAPACITY_def)
  have "mailbox_next_sequence (mailbox_default Q) = of_nat 0" by (simp add: mailbox_default_def)
  from publish_all_appends [OF assms(1) _ this, of ps h] fresh len
  obtain m where m: "publish_all Q h ps (mailbox_default Q) = (Ok (map (\<lambda>i. \<lparr> publication_handle = h,
          publication_sequence = of_nat (Suc i) \<rparr>) [0..<length ps]), m)"
      "mailbox_ok contents capacity m"
      "contents (mailbox_queue m) = map (\<lambda>i. \<lparr> fragment_publication = \<lparr> publication_handle = h,
           publication_sequence = of_nat (Suc i) \<rparr>, fragment_payload = ps ! i \<rparr>) [0..<length ps]"
    by auto
  obtain m' where m': "mailbox_drain Q m = (Ok (of_nat (length (contents (mailbox_queue m))),
       contents (mailbox_queue m)) :: (VmActorDirectoryError, _) outcome, m')"
      "contents (mailbox_queue m') = []"
    using drain_all [OF assms(1) m(2)] by metis
  have "unat (of_nat (Suc i) :: u64) = Suc i" if "i < length ps" for i
    using that len by (simp only: unsigned_of_nat) (simp add: take_bit_nat_eq_self)
  then have "map (\<lambda>i. unat (of_nat (Suc i) :: u64)) [0..<length ps] = map Suc [0..<length ps]"
    by (intro map_cong) auto
  then have seqs: "map (\<lambda>i. unat (of_nat (Suc i) :: u64)) [0..<length ps] = [1..<Suc (length ps)]"
    by (simp only: map_Suc_upt One_nat_def)
  show ?thesis
    by (intro exI conjI, rule m(1), rule m'(1) [unfolded m(3) length_map length_upt diff_zero])
      (use m' seqs in \<open>simp_all only: map_map comp_def VmPublishedFragment.select_convs
        VmActorPublication.select_convs map_nth\<close>)
qed

theorem publish_then_drain_fifo_witness:
  "\<exists>publications fragments m m'.
      publish_all list_queue \<lparr> handle_pid = 1, handle_slot = 0, handle_generation = 1 \<rparr>
        [True, False] (mailbox_default list_queue) = (Ok publications, m)
    \<and> mailbox_drain list_queue m = (Ok (of_nat 2, fragments) :: (VmActorDirectoryError, _) outcome, m')
    \<and> map fragment_payload fragments = [True, False]"
  using publish_then_drain_fifo [OF list_queue_fifo, of "[True, False]"
    "\<lparr> handle_pid = 1, handle_slot = 0, handle_generation = 1 \<rparr>"]
  by (auto simp: ACTOR_MAILBOX_CAPACITY_def)

text \<open>a publication is refused exactly when the mailbox already holds its capacity of
  fragments; a refused publication changes nothing, an accepted one adds its fragment at
  the end, and in both cases the admission counter stays equal to the number queued.\<close>

theorem publish_backpressure:
  assumes "bounded_fifo Q contents capacity" and "mailbox_ok contents capacity m"
  shows "mailbox_ok contents capacity (snd (mailbox_publish Q h p m))
    \<and> (if length (contents (mailbox_queue m)) = unat ACTOR_MAILBOX_CAPACITY
       then mailbox_publish Q h p m = (Err (MailboxFull h), m)
       else is_Ok (fst (mailbox_publish Q h p m))
          \<and> map fragment_payload (contents (mailbox_queue (snd (mailbox_publish Q h p m))))
            = map fragment_payload (contents (mailbox_queue m)) @ [p])"
proof (cases "length (contents (mailbox_queue m)) = unat ACTOR_MAILBOX_CAPACITY")
  case True
  then show ?thesis using publish_full [OF assms(2) True, of Q h p] assms(2) by simp
next
  case False
  then have "length (contents (mailbox_queue m)) < unat ACTOR_MAILBOX_CAPACITY"
    using assms(2) by (simp add: mailbox_ok_def)
  from publish_accepts [OF assms this, of h p] obtain m' publication w where
      "mailbox_publish Q h p m = (Ok (publication, w), m')"
      "contents (mailbox_queue m') = contents (mailbox_queue m) @
         [\<lparr> fragment_publication = publication, fragment_payload = p \<rparr>]"
      "mailbox_ok contents capacity m'"
    by blast
  with False show ?thesis by simp
qed

theorem publish_backpressure_witness:
  "is_Ok (fst (mailbox_publish list_queue \<lparr> handle_pid = 1, handle_slot = 0, handle_generation = 1 \<rparr>
     True (mailbox_default list_queue)))"
proof -
  let ?m = "mailbox_default (list_queue
      :: (bool VmPublishedFragment list \<times> nat, bool VmPublishedFragment) queue_ops)"
  have "mailbox_ok fst snd ?m" "fst (mailbox_queue ?m) = []"
    using mailbox_default_ok [OF list_queue_fifo] by blast+
  then show ?thesis
    using publish_backpressure [OF list_queue_fifo, of ?m
      "\<lparr> handle_pid = 1, handle_slot = 0, handle_generation = 1 \<rparr>" True]
    by (simp add: ACTOR_MAILBOX_CAPACITY_def)
qed

section \<open>Packed words and boundary headers\<close>

text \<open>packing and unpacking the ownership word are inverse to each other: in-range fields
  come back unchanged, and every word that decodes is the packing of its fields, so two
  different ownership states never share a word.\<close>

theorem state_word_roundtrip:
  assumes "g \<le> GENERATION_MASK" and "og \<le> GENERATION_MASK" and "ow \<le> GENERATION_MASK"
  shows "unpack_state (pack_state l g og ow) = Ok \<lparr> st_lifecycle = l, st_actor_generation = g,
           st_owner_generation = og, st_owner = ow \<rparr>
    \<and> (\<forall>w s. unpack_state w = Ok s \<longrightarrow>
          pack_state (st_lifecycle s) (st_actor_generation s) (st_owner_generation s) (st_owner s) = w)"
  using assms pack_unpack by (auto simp: unpack_pack generation_id)

theorem state_word_roundtrip_witness:
  "unpack_state (pack_state Executing 7 3 9) = Ok \<lparr> st_lifecycle = Executing,
     st_actor_generation = 7, st_owner_generation = 3, st_owner = 9 \<rparr>"
  using state_word_roundtrip [of 7 3 9 Executing]
  by (simp add: GENERATION_MASK_def GENERATION_BITS_def)

text \<open>the three-word transition header of a boundary type decodes to the type it was
  written from, and a header that decodes is the one the type writes.\<close>

theorem transition_header_roundtrip:
  assumes "boundary_type_ok t"
  shows "from_transition_words (transition_words t) = Ok t
    \<and> (\<forall>ws t'. from_transition_words ws = Ok t' \<longrightarrow> transition_words t' = ws \<and> boundary_type_ok t')"
  using assms from_transition_words_to transition_words_from from_transition_words_ok by blast

theorem transition_header_roundtrip_witness:
  "from_transition_words (transition_words (Managed (replicate 16 255))) = Ok (Managed (replicate 16 255))"
  using transition_header_roundtrip [of "Managed (replicate 16 255)"]
  by (simp add: boundary_type_ok_def)

section \<open>Ownership of an actor\<close>

text \<open>C19: while one owner holds a mutator token, of either acquisition, every other attempt on the
  actor fails without a trace: both kinds of acquisition and every lifecycle transition answer
  that it is owned and leave the directory unchanged; the token works on the value and can be
  released, by a scheduler to the three states it may leave an actor in, or by a control owner.
  Once released, by either release, the token is stale for good: whatever runs on the directory
  after it, lifecycle marks, wakes, acquisitions by other owners and their work and releases,
  work under the old token and both releases of it are refused and change nothing, also while
  another scheduler owns the actor. (The owner generation has twenty bits: the statement covers
  every run with fewer acquisitions of the actor than it takes to come round.)\<close>

theorem mutator_is_exclusive:
  fixes d :: "('t, 'q) VmActorDirectory" and Q :: "('q, 'p VmPublishedFragment) queue_ops"
  assumes r: "resolves contents capacity d pid c s"
    and acq: "dir_acquire_mutator pid owner d = (Ok token, d1)
      \<or> dir_acquire_control_mutator pid owner d = (Ok token, d1)"
  shows "(\<forall>other. is_Ok (fst (dir_acquire_mutator pid other d1)) = False
            \<and> snd (dir_acquire_mutator pid other d1) = d1
            \<and> is_Ok (fst (dir_acquire_control_mutator pid other d1)) = False
            \<and> snd (dir_acquire_control_mutator pid other d1) = d1)
    \<and> (\<forall>allowed nxt. dir_transition_unowned pid allowed nxt d1
            = (Err (AlreadyOwned owner (token_owner_generation token)), d1))
    \<and> fst (dir_with_mutator token (\<lambda>v. (v, v)) d1) = Ok (cell_value c)
    \<and> (\<forall>nxt. is_Ok (fst (dir_release_mutator Q token nxt d1)) \<longleftrightarrow> nxt \<in> {Yielding, Parked, Exiting})
    \<and> is_Ok (fst (dir_release_control_mutator token d1))
    \<and> (\<forall>d2 calls (f :: 't \<Rightarrow> 'r \<times> 't).
         ((\<exists>nxt released. dir_release_mutator Q token nxt d1 = (Ok released, d2))
            \<or> dir_release_control_mutator token d1 = (Ok (), d2))
         \<and> acquisitions pid calls < unat GENERATION_MASK \<longrightarrow>
           (let d3 = ownership_run Q calls d2 in
             dir_with_mutator token f d3 = (Err StaleMutator, d3)
             \<and> (\<forall>nxt \<in> {Yielding, Parked, Exiting}. dir_release_mutator Q token nxt d3 = (Err StaleMutator, d3))
             \<and> dir_release_control_mutator token d3 = (Err StaleMutator, d3)))"
proof -
  obtain l where a: "owner \<noteq> 0" "\<not> GENERATION_MASK < owner"
    and tok: "token = \<lparr> token_handle = cell_handle c, token_owner = owner,
        token_owner_generation = next_generation (st_owner_generation s), token_lifecycle = l \<rparr>"
    and d1: "d1 = dir_write (cell_with l (next_generation (st_owner_generation s)) owner c) d"
    using acq unfolding acquire_mutator_law [OF r] acquire_control_mutator_law [OF r]
    by (auto split: if_splits)
  let ?g = "next_generation (st_owner_generation s)"
  let ?c = "cell_with l ?g owner c"
  have r1: "resolves contents capacity d1 pid ?c \<lparr> st_lifecycle = l,
      st_actor_generation = handle_generation (cell_handle c), st_owner_generation = ?g, st_owner = owner \<rparr>"
    unfolding d1 by (rule resolves_with [OF r]) (use a in auto)
  have v: "validate_token ?c token = Ok ()"
    unfolding validate_token_iff using resolves_facts(3) [OF r1] by (simp add: tok)
  have h: "token_handle token = cell_handle ?c" by (simp add: tok)
  have refused: "\<not> is_Ok (fst (dir_release_mutator Q token nxt d1))" if "nxt \<notin> {Yielding, Parked, Exiting}" for nxt
    using that by (simp add: dir_release_mutator_def)
  have accepted: "is_Ok (fst (dir_release_mutator Q token nxt d1))" if "nxt \<in> {Yielding, Parked, Exiting}" for nxt
    by (rule release_moves [OF r1 h that v, of Q]) simp
  have since: "released_since contents capacity pid (cell_handle c) ?g 0 d2"
    if rel: "(\<exists>nxt released. dir_release_mutator Q token nxt d1 = (Ok released, d2))
      \<or> dir_release_control_mutator token d1 = (Ok (), d2)" for d2
    using rel
  proof
    assume "\<exists>nxt released. dir_release_mutator Q token nxt d1 = (Ok released, d2)"
    then obtain nxt released where run: "dir_release_mutator Q token nxt d1 = (Ok released, d2)" by blast
    then have boundary: "nxt \<in> {Yielding, Parked, Exiting}" using refused [of nxt] by (metis fst_conv is_Ok.simps(1))
    obtain d' c' s' where "dir_release_mutator Q token nxt d1 = (Ok released, d')"
        "resolves contents capacity d' pid c' s'" "cell_handle c' = cell_handle ?c"
        "st_owner_generation s' = ?g" "st_owner s' = 0"
      by (rule release_moves [OF r1 h boundary v, of Q]) (use run in auto)
    then show ?thesis using run unfolding released_since_def by auto
  next
    assume "dir_release_control_mutator token d1 = (Ok (), d2)"
    then have d2: "d2 = dir_write (cell_with l ?g 0 ?c) d1"
      using release_control_mutator_law [OF r1 h] v by (simp add: tok)
    have "resolves contents capacity d2 pid (cell_with l ?g 0 ?c) \<lparr> st_lifecycle = l,
        st_actor_generation = handle_generation (cell_handle ?c), st_owner_generation = ?g, st_owner = 0 \<rparr>"
      unfolding d2 by (rule resolves_with [OF r1]) simp_all
    then show ?thesis unfolding released_since_def by force
  qed
  have g: "?g \<le> GENERATION_MASK" "?g \<noteq> 0" using next_generation_range by auto
  have gone: "let d3 = ownership_run Q calls d2 in
       dir_with_mutator token f d3 = (Err StaleMutator, d3)
       \<and> (\<forall>nxt \<in> {Yielding, Parked, Exiting}. dir_release_mutator Q token nxt d3 = (Err StaleMutator, d3))
       \<and> dir_release_control_mutator token d3 = (Err StaleMutator, d3)"
    if rel: "((\<exists>nxt released. dir_release_mutator Q token nxt d1 = (Ok released, d2))
        \<or> dir_release_control_mutator token d1 = (Ok (), d2))
      \<and> acquisitions pid calls < unat GENERATION_MASK" for d2 calls and f :: "'t \<Rightarrow> 'r \<times> 't"
  proof -
    have "released_since contents capacity pid (cell_handle c) ?g (0 + acquisitions pid calls) (ownership_run Q calls d2)"
      by (rule released_run [OF since]) (use rel in blast)
    from released_stale [OF this _ g, of token] rel tok a(1) show ?thesis by (auto simp: Let_def)
  qed
  have release_control: "is_Ok (fst (dir_release_control_mutator token d1))"
    using release_control_mutator_law [OF r1 h] v by simp
  have others: "is_Ok (fst (dir_acquire_mutator pid other d1)) = False \<and> snd (dir_acquire_mutator pid other d1) = d1
      \<and> is_Ok (fst (dir_acquire_control_mutator pid other d1)) = False
      \<and> snd (dir_acquire_control_mutator pid other d1) = d1" for other
    using a by (simp add: acquire_mutator_law [OF r1] acquire_control_mutator_law [OF r1])
  have unowned: "dir_transition_unowned pid allowed nxt d1
      = (Err (AlreadyOwned owner (token_owner_generation token)), d1)" for allowed nxt
    using a by (simp add: transition_unowned_law [OF r1] tok)
  have works: "fst (dir_with_mutator token (\<lambda>v. (v, v)) d1) = Ok (cell_value c)"
    using v with_mutator_law [OF r1 h, of "\<lambda>v. (v, v)"] by simp
  have released: "is_Ok (fst (dir_release_mutator Q token nxt d1)) \<longleftrightarrow> nxt \<in> {Yielding, Parked, Exiting}" for nxt
    using refused [of nxt] accepted [of nxt] by blast
  show ?thesis
    by (rule conjI [OF allI [OF others] conjI [OF allI [OF allI [OF unowned]] conjI [OF works
        conjI [OF allI [OF released] conjI [OF release_control
        allI [OF allI [OF allI [OF impI [OF gone]]]]]]]]])
qed

text \<open>A directory holding one queued actor, for the instances below.\<close>

definition sample_dir :: "(nat, bool VmPublishedFragment list \<times> nat) VmActorDirectory" where
  "sample_dir = snd (dir_insert list_queue 5 (42 :: nat) dir_default)"

lemma sample_dir_resolves:
  obtains c where "resolves fst snd sample_dir 5 c \<lparr> st_lifecycle = Yielding,
      st_actor_generation = handle_generation (cell_handle c), st_owner_generation = 0, st_owner = 0 \<rparr>"
    "cell_value c = 42" "cell_lookup_pins c = 0"
proof -
  let ?Q = "list_queue :: (bool VmPublishedFragment list \<times> nat, bool VmPublishedFragment) queue_ops"
  obtain h d' where d': "dir_insert ?Q 5 (42 :: nat) dir_default = (Ok h, d')"
      "dir_ok fst snd d'" "dir_find d' = (dir_find dir_default)(5 \<mapsto> cell_new ?Q h 42)"
    by (rule dir_insert_law [OF list_queue_fifo dir_default_ok(1) _ dir_default_ok(2)])
      (auto simp: dir_has_room_def dir_default_def)
  let ?c = "cell_new ?Q h (42 :: nat)"
  have "handle_generation h \<le> GENERATION_MASK"
    using dir_find_handle_generation [OF d'(2)] d'(3)
    by (metis VmActorCell.select_convs(1) cell_new_def fun_upd_same)
  then have "cell_load ?c = Ok \<lparr> st_lifecycle = Yielding,
      st_actor_generation = handle_generation (cell_handle ?c), st_owner_generation = 0, st_owner = 0 \<rparr>"
    by (simp add: cell_new_def cell_load_def pack_load)
  then show ?thesis
    using that [of ?c] d' by (simp add: resolves_def sample_dir_def cell_new_def)
qed

theorem mutator_is_exclusive_witness:
  "\<exists>token d0 d1 d2. dir_mark_queued 5 sample_dir = (Ok (), d0)
     \<and> dir_acquire_mutator 5 1 d0 = (Ok token, d1)
     \<and> fst (dir_with_mutator token (\<lambda>v. (v, v)) d1) = Ok 42
     \<and> is_Ok (fst (dir_acquire_mutator 5 2 d1)) = False
     \<and> dir_release_mutator (list_queue :: (bool VmPublishedFragment list \<times> nat, bool VmPublishedFragment) queue_ops)
         token Yielding d1 = (Ok Yielding, d2)
     \<and> (let d3 = ownership_run (list_queue :: (bool VmPublishedFragment list \<times> nat, bool VmPublishedFragment) queue_ops)
           [MarkQueued 5, Acquire 5 2] d2
         in dir_with_mutator token (\<lambda>v. (v, v)) d3 = (Err StaleMutator, d3))"
proof -
  let ?Q = "list_queue :: (bool VmPublishedFragment list \<times> nat, bool VmPublishedFragment) queue_ops"
  obtain c where c: "resolves fst snd sample_dir 5 c \<lparr> st_lifecycle = Yielding,
      st_actor_generation = handle_generation (cell_handle c), st_owner_generation = 0, st_owner = 0 \<rparr>"
      "cell_value c = 42"
    by (rule sample_dir_resolves)
  let ?c = "cell_with Queued 0 0 c"
  let ?d0 = "dir_write ?c sample_dir"
  have q: "dir_mark_queued 5 sample_dir = (Ok (), ?d0)"
    using transition_unowned_law [OF c(1), of "[Yielding, Parked]" Queued]
    by (simp add: dir_mark_queued_def read_st_def bind_st_def resolves_facts(12) [OF c(1)])
  have r0: "resolves fst snd ?d0 5 ?c \<lparr> st_lifecycle = Queued,
      st_actor_generation = handle_generation (cell_handle c), st_owner_generation = 0, st_owner = 0 \<rparr>"
    by (rule resolves_with [OF c(1)]) simp_all
  let ?t = "\<lparr> token_handle = cell_handle ?c, token_owner = 1, token_owner_generation = next_generation 0,
      token_lifecycle = Executing \<rparr>" and ?c1 = "cell_with Executing (next_generation 0) 1 ?c"
  let ?d1 = "dir_write ?c1 ?d0"
  have acq: "dir_acquire_mutator 5 1 ?d0 = (Ok ?t, ?d1)"
    using acquire_mutator_law [OF r0, of 1] by (simp add: GENERATION_MASK_def GENERATION_BITS_def)
  have r1: "resolves fst snd ?d1 5 ?c1 \<lparr> st_lifecycle = Executing,
      st_actor_generation = handle_generation (cell_handle ?c), st_owner_generation = next_generation 0, st_owner = 1 \<rparr>"
    by (rule resolves_with [OF r0 next_generation_le]) (simp add: GENERATION_MASK_def GENERATION_BITS_def)
  have "validate_token ?c1 ?t = Ok ()" unfolding validate_token_iff using resolves_facts(3) [OF r1] by simp
  then obtain d2 where rel: "dir_release_mutator ?Q ?t Yielding ?d1 = (Ok Yielding, d2)"
    using release_mutator_law [OF r1, of ?t Yielding ?Q] by (simp add: Let_def)
  have few: "acquisitions 5 [MarkQueued 5, Acquire 5 2 :: nat ownership_call] < unat GENERATION_MASK"
    by (simp add: acquisitions_def GENERATION_MASK_def GENERATION_BITS_def)
  have "\<exists>nxt released. dir_release_mutator ?Q ?t nxt ?d1 = (Ok released, d2)" using rel by blast
  then have ended: "((\<exists>nxt released. dir_release_mutator ?Q ?t nxt ?d1 = (Ok released, d2))
      \<or> dir_release_control_mutator ?t ?d1 = (Ok (), d2))
    \<and> acquisitions 5 [MarkQueued 5, Acquire 5 2 :: nat ownership_call] < unat GENERATION_MASK"
    using few by blast
  note all = mutator_is_exclusive [OF r0 disjI1 [OF acq], of ?Q]
  have "fst (dir_with_mutator ?t (\<lambda>v. (v, v)) ?d1) = Ok 42"
    using all [THEN conjunct2, THEN conjunct2, THEN conjunct1] c(2) by simp
  moreover have "is_Ok (fst (dir_acquire_mutator 5 2 ?d1)) = False"
    using all [THEN conjunct1, rule_format, of 2] by (rule conjunct1)
  moreover have "let d3 = ownership_run ?Q [MarkQueued 5, Acquire 5 2] d2
      in dir_with_mutator ?t (\<lambda>v. (v, v)) d3 = (Err StaleMutator, d3)"
    using all [THEN conjunct2, THEN conjunct2, THEN conjunct2, THEN conjunct2, THEN conjunct2,
        THEN spec, THEN spec, THEN spec, THEN mp, OF ended]
    unfolding Let_def by (rule conjunct1)
  ultimately show ?thesis using q acq rel by blast
qed

text \<open>C37: after an actor is reclaimed, its handle never resolves again in the directory that
  follows: also when the slot is reused at once, even for the same identity, the new
  occupant has another generation and the old handle is rejected as stale.\<close>

theorem reclaimed_handle_is_stale:
  fixes d :: "('t, 'q) VmActorDirectory"
  assumes r: "resolves contents capacity d pid c s" and Q: "bounded_fifo Q contents capacity"
    and rec: "dir_reclaim pid d = (Ok v, d1)" and ins: "dir_insert Q pid' v' d1 = (Ok h, d2)"
  shows "v = cell_value c \<and> handle_slot h = handle_slot (cell_handle c) \<and> h \<noteq> cell_handle c
    \<and> dir_cell_for_handle d1 (cell_handle c) = Err (StaleHandle (cell_handle c))
    \<and> dir_cell_for_handle d2 (cell_handle c) = Err (StaleHandle (cell_handle c))
    \<and> dir_get d2 pid' = Some v'"
proof -
  let ?h = "cell_handle c" and ?s = "handle_slot (cell_handle c)"
  have d1: "d1 = dir_vacate pid ?s d" and v: "v = cell_value c"
    using rec unfolding reclaim_law [OF r] by (auto split: if_splits)
  note vac = dir_vacate_law [OF resolves_facts(1,2) [OF r], folded d1]
  note slot = dir_find_handle [OF dir_ok_parts(1) [OF resolves_facts(1) [OF r]] resolves_facts(2) [OF r]]
  have pid: "handle_pid ?h = pid" by (rule slot(1))
  have fresh: "dir_find d1 pid' = None"
    using ins dir_find_None_iff [OF dir_ok_parts(1) [OF vac(1)], of pid']
    by (cases "bt_get (dir_actor_slots d1) pid'")
      (auto simp: dir_insert_def bt_contains_def bind_out_def split: outcome.splits)
  have stale1: "dir_cell_for_handle d1 ?h = Err (StaleHandle ?h)"
    using pid by (simp add: dir_cell_for_handle_eq [OF dir_ok_parts(1-3) [OF vac(1)]] vac(2))
  have free: "dir_free_slots d1 = dir_free_slots d @ [?s]" by (simp add: d1 dir_vacate_def)
  let ?d1 = "d1\<lparr> dir_free_slots := dir_free_slots d \<rparr>"
  have take: "dir_take_slot d1 = (Ok ?s, ?d1)"
    by (simp add: dir_take_slot_def vec_pop_def free)
  have gen: "slot_generation (dir_slots ?d1 ! unat ?s) = handle_generation ?h"
    using slot(3,5) by (simp add: d1 dir_vacate_def)
  have ok1: "dir_ok contents capacity ?d1" "dir_find ?d1 = dir_find d1" "?s \<notin> set (dir_free_slots ?d1)"
      "unat ?s < length (dir_slots ?d1)" "slot_cell (dir_slots ?d1 ! unat ?s) = None"
  proof -
    show "dir_find ?d1 = dir_find d1" using dir_cell_cong [of ?d1 d1] by (simp add: dir_find_def fun_eq_iff)
    show "dir_ok contents capacity ?d1" "?s \<notin> set (dir_free_slots ?d1)"
      using vac(1) by (auto simp: dir_ok_def free dir_index_ok_def dir_slots_ok_def)
    show "unat ?s < length (dir_slots ?d1)" "slot_cell (dir_slots ?d1 ! unat ?s) = None"
      using slot(3) by (simp_all add: d1 dir_vacate_def)
  qed
  have fresh': "dir_find ?d1 pid' = None" using ok1(2) fresh by simp
  obtain h' d' where occ: "dir_occupy_slot Q ''allocated actor slot exists'' pid' v' ?s ?d1 = (Ok h', d')"
      "handle_pid h' = pid'" "handle_slot h' = ?s" "handle_generation h' = next_generation (handle_generation ?h)"
      "dir_ok contents capacity d'" "dir_find d' = (dir_find ?d1)(pid' \<mapsto> cell_new Q h' v')"
    using dir_occupy_law [OF Q ok1(1) fresh' ok1(4,5,3)] unfolding gen by metis
  have absent: "bt_get (dir_actor_slots d1) pid' = None"
    using fresh dir_find_None_iff [OF dir_ok_parts(1) [OF vac(1)]] by simp
  have "dir_insert Q pid' v' d1 = (Ok h', d')"
    using take occ(1) absent by (simp add: dir_insert_def bt_contains_def bind_st_def)
  then have eq: "h = h'" "d2 = d'" using ins by simp_all
  have le: "handle_generation ?h \<le> GENERATION_MASK"
    using dir_find_handle_generation [OF resolves_facts(1,2) [OF r]] .
  then have ne: "h \<noteq> ?h" using occ(4) next_generation_neq eq(1) by metis
  have "dir_cell_for_handle d2 ?h = Err (StaleHandle ?h)"
    using ne pid vac(2) ok1(2) occ(6)
    by (simp add: dir_cell_for_handle_eq [OF dir_ok_parts(1-3) [OF occ(5)]] eq cell_new_def)
  moreover have "dir_get d2 pid' = Some v'" by (simp add: dir_get_find eq occ(6))
  ultimately show ?thesis using v occ(3) eq ne stale1 by simp
qed

theorem reclaimed_handle_is_stale_witness:
  "\<exists>c d1 h d2 d. dir_reclaim 5 d = (Ok 42, d1) \<and> dir_insert list_queue 5 43 d1 = (Ok h, d2)
     \<and> dir_find d 5 = Some c
     \<and> dir_cell_for_handle (d2 :: (nat, bool VmPublishedFragment list \<times> nat) VmActorDirectory)
         (cell_handle c) = Err (StaleHandle (cell_handle c))"
proof -
  let ?Q = "list_queue :: (bool VmPublishedFragment list \<times> nat, bool VmPublishedFragment) queue_ops"
  obtain c where c: "resolves fst snd sample_dir 5 c \<lparr> st_lifecycle = Yielding,
      st_actor_generation = handle_generation (cell_handle c), st_owner_generation = 0, st_owner = 0 \<rparr>"
      "cell_value c = 42" "cell_lookup_pins c = 0"
    by (rule sample_dir_resolves)
  let ?c = "cell_with Retired 0 0 c" and ?d = "dir_write (cell_with Retired 0 0 c) sample_dir"
  have r: "resolves fst snd ?d 5 ?c \<lparr> st_lifecycle = Retired,
      st_actor_generation = handle_generation (cell_handle c), st_owner_generation = 0, st_owner = 0 \<rparr>"
    by (rule resolves_with [OF c(1)]) simp_all
  define d1 where "d1 = dir_vacate 5 (handle_slot (cell_handle c)) ?d"
  have rec: "dir_reclaim 5 ?d = (Ok 42, d1)"
    using reclaim_law [OF r] c(2,3) by (simp add: d1_def)
  note vac = dir_vacate_law [OF resolves_facts(1,2) [OF r], simplified, folded d1_def]
  obtain h d2 where ins: "dir_insert ?Q 5 (43 :: nat) d1 = (Ok h, d2)"
    by (rule dir_insert_law [OF list_queue_fifo vac(1,3), of 5 43]) (use vac(2) in auto)
  from reclaimed_handle_is_stale [OF r list_queue_fifo rec ins]
  have "dir_cell_for_handle d2 (cell_handle ?c) = Err (StaleHandle (cell_handle ?c))" by blast
  with rec ins resolves_facts(2) [OF r] show ?thesis by blast
qed

section \<open>One mailbox\<close>

text \<open>a mailbox behaves as two queues, one for priority messages and one for ordinary
  messages: after any sequence of arrivals it holds the priority messages in arrival
  order, then the ordinary messages in arrival order.\<close>

theorem mailbox_is_two_queues:
  assumes "lanes_ok (proc_mailbox p)"
  shows "proc_mailbox (fold proc_integrate_message ms p)
    = (filter is_priority (proc_mailbox p) @ filter is_priority ms)
    @ (filter (\<lambda>m. \<not> is_priority m) (proc_mailbox p) @ filter (\<lambda>m. \<not> is_priority m) ms)"
proof -
  have split: "ms' = filter is_priority ms' @ filter (\<lambda>m. \<not> is_priority m) ms'" if ok: "lanes_ok ms'" for ms'
  proof -
    obtain ps os where "ms' = ps @ os" "\<forall>m\<in>set ps. is_priority m" "\<forall>m\<in>set os. \<not> is_priority m"
      using ok by (auto simp: lanes_ok_def)
    then show ?thesis by (simp add: filter_id_conv filter_empty_conv)
  qed
  have "lanes_ok (proc_mailbox (fold proc_integrate_message ms p))
      \<and> filter is_priority (proc_mailbox (fold proc_integrate_message ms p))
          = filter is_priority (proc_mailbox p) @ filter is_priority ms
      \<and> filter (\<lambda>m. \<not> is_priority m) (proc_mailbox (fold proc_integrate_message ms p))
          = filter (\<lambda>m. \<not> is_priority m) (proc_mailbox p) @ filter (\<lambda>m. \<not> is_priority m) ms"
    using assms
  proof (induction ms arbitrary: p)
    case Nil
    then show ?case by simp
  next
    case (Cons m ms)
    have "lanes_ok (proc_mailbox (proc_integrate_message m p))"
      using Cons.prems by (simp add: proc_integrate_mailbox enqueue_lane_ok)
    from Cons.IH [OF this] Cons.prems show ?case
      by (simp add: proc_integrate_mailbox enqueue_lane_filter)
  qed
  then show ?thesis using split by metis
qed

definition sample_message :: "u64 \<Rightarrow> VmMessagePriority \<Rightarrow> VmMessage" where
  "sample_message i priority = delivered_message i 0 1 (plain_delivery (VInt 7) 0 priority)"

theorem mailbox_is_two_queues_witness:
  "map msg_id (proc_mailbox (fold proc_integrate_message
      [sample_message 1 Ordinary, sample_message 2 Priority, sample_message 3 Ordinary,
       sample_message 4 Priority] (new_process 1 None sample_source))) = [2, 4, 1, 3]"
proof -
  have "lanes_ok (proc_mailbox (new_process 1 None sample_source))"
    by (simp add: new_process_def lanes_ok_def)
  from mailbox_is_two_queues [OF this, of "[sample_message 1 Ordinary, sample_message 2 Priority,
      sample_message 3 Ordinary, sample_message 4 Priority]"]
  show ?thesis
    by (simp add: new_process_def sample_message_def delivered_message_def plain_delivery_def is_priority_def)
qed

text \<open>a selective receive takes the first message the predicate accepts and leaves the
  others in order; it returns nothing, and changes nothing, exactly when no message is
  accepted. The lanes stay in order.\<close>

theorem selective_receive_first_match:
  assumes "lanes_ok (proc_mailbox p)" and "proc_selective_receive P p = (r, p')"
  shows "lanes_ok (proc_mailbox p')
    \<and> (case r of
         None \<Rightarrow> p' = p \<and> (\<forall>m\<in>set (proc_mailbox p). \<not> P m)
       | Some m \<Rightarrow> P m \<and> (\<exists>skipped rest. proc_mailbox p = skipped @ m # rest
           \<and> (\<forall>m'\<in>set skipped. \<not> P m') \<and> proc_mailbox p' = skipped @ rest
           \<and> p' = p\<lparr> proc_mailbox := skipped @ rest \<rparr>))"
proof (cases r)
  case None
  then have "\<forall>m\<in>set (proc_mailbox p). \<not> P m" using assms(2) selective_receive_None [of P p] by simp
  moreover from this have "p' = p"
    using assms(2) position_None [of P "proc_mailbox p"] by (simp add: proc_selective_receive_def)
  ultimately show ?thesis using None assms(1) by simp
next
  case (Some m)
  then obtain skipped rest where "proc_mailbox p = skipped @ m # rest" "P m"
      "\<forall>m'\<in>set skipped. \<not> P m'" "p' = p\<lparr> proc_mailbox := skipped @ rest \<rparr>"
    using selective_receive_Some [of P p m p'] assms(2) by blast
  moreover from this have "lanes_ok (skipped @ rest)" using assms(1) lanes_ok_remove by metis
  ultimately show ?thesis using Some by auto
qed

theorem selective_receive_first_match_witness:
  "\<exists>m p'. proc_selective_receive (\<lambda>m. msg_id m \<noteq> 2)
      ((new_process 1 None sample_source)\<lparr> proc_mailbox :=
         [sample_message 2 Priority, sample_message 1 Ordinary, sample_message 3 Ordinary] \<rparr>) = (Some m, p')
    \<and> msg_id m \<noteq> 2 \<and> lanes_ok (proc_mailbox p')"
proof -
  let ?p = "(new_process 1 None sample_source)\<lparr> proc_mailbox :=
         [sample_message 2 Priority, sample_message 1 Ordinary, sample_message 3 Ordinary] \<rparr>"
  let ?P = "\<lambda>m. msg_id m \<noteq> 2"
  have ids: "msg_id (sample_message i r) = i" "is_priority (sample_message i r) = (r = Priority)" for i r
    by (simp_all add: sample_message_def delivered_message_def plain_delivery_def is_priority_def)
  have ok: "lanes_ok (proc_mailbox ?p)"
    unfolding lanes_ok_def by (intro exI [of _ "[sample_message 2 Priority]"]
      exI [of _ "[sample_message 1 Ordinary, sample_message 3 Ordinary]"]) (simp add: ids)
  obtain m p' where run: "proc_selective_receive ?P ?p = (Some m, p')"
    by (auto simp: proc_selective_receive_def ids nth_opt_def)
  from selective_receive_first_match [OF ok run] run show ?thesis by auto
qed

text \<open>suspending a process that is not suspended and resuming it restores exactly the
  process, whichever of the three execution states it was in; a message arriving in
  between makes the restored state runnable; an exited process refuses both.\<close>

theorem suspend_then_resume:
  assumes "\<forall>r. proc_state p \<noteq> Suspended r"
  shows "if is_exited (proc_state p)
    then proc_suspend p = (Err (Msg ''cannot suspend exited process'' []), p)
       \<and> proc_resume p = (Err (Msg ''process is not suspended'' []), p)
    else (\<exists>q r. proc_suspend p = (Ok (), q) \<and> proc_resume q = (Ok r, p)
       \<and> resumed_state r = proc_state p
       \<and> (\<forall>m. proc_state (snd (proc_resume (proc_integrate_message m q))) = Runnable))"
  using assms
  by (cases p; cases "proc_state p")
    (auto simp: proc_suspend_def proc_resume_def proc_integrate_message_def proc_wake_def
      split: VmMessagePriority.splits option.splits)

theorem suspend_then_resume_witness:
  "\<exists>q r. proc_suspend ((new_process 1 None sample_source)\<lparr> proc_state := Blocked \<rparr>) = (Ok (), q)
     \<and> proc_resume q = (Ok r, (new_process 1 None sample_source)\<lparr> proc_state := Blocked \<rparr>)"
  using suspend_then_resume [of "(new_process 1 None sample_source)\<lparr> proc_state := Blocked \<rparr>"]
  by auto

section \<open>The process table\<close>

text \<open>spawning allocates an identity no process of the table had, above every earlier one,
  and adds exactly one runnable process with an empty mailbox; every other process, the
  names and the message counter stay as they were. It cannot panic below the last
  identity while the directory has room.\<close>

theorem spawn_allocates_fresh:
  assumes "pt_ok Q contents capacity t" and "pt_next_pid t \<noteq> - 1" and "pt_has_room t"
  shows "\<exists>pid t'. pt_spawn Q parent source t = (Ok pid, t')
    \<and> pt_ok Q contents capacity t'
    \<and> (\<forall>p. pt_contains t p \<longrightarrow> p < pid)
    \<and> pt_get t' = (pt_get t)(pid \<mapsto> new_process pid parent source)
    \<and> is_alive t' pid
    \<and> pt_names t' = pt_names t \<and> pt_next_message_id t' = pt_next_message_id t"
proof -
  obtain t' where t': "pt_spawn Q parent source t = (Ok (saturating_add (pt_next_pid t) 1), t')"
      "pt_ok Q contents capacity t'" "pt_get t' = (pt_get t)(saturating_add (pt_next_pid t) 1 \<mapsto>
         new_process (saturating_add (pt_next_pid t) 1) parent source)"
      "pt_names t' = pt_names t" "pt_next_message_id t' = pt_next_message_id t"
    using spawn_law [OF assms] by metis
  have "p < saturating_add (pt_next_pid t) 1" if c: "pt_contains t p" for p
  proof -
    obtain q where "pt_get t p = Some q" using c pt_contains_get [OF assms(1)] by auto
    then have "p \<le> pt_next_pid t" using pt_get_facts [OF assms(1)] by blast
    then show ?thesis using saturating_add_one_gt [OF assms(2)] by simp
  qed
  moreover have "is_alive t' (saturating_add (pt_next_pid t) 1)"
    by (simp add: is_alive_get t'(3) new_process_def)
  ultimately show ?thesis using t' by blast
qed

theorem spawn_allocates_fresh_witness:
  "\<exists>pid t'. pt_spawn list_queue None sample_source sample_two = (Ok pid, t')
     \<and> is_alive t' pid \<and> pt_get t' 1 \<noteq> None"
proof -
  have "\<exists>pid t'. pt_spawn list_queue None sample_source sample_two = (Ok pid, t')
      \<and> (\<forall>p. pt_contains sample_two p \<longrightarrow> p < pid)
      \<and> pt_get t' = (pt_get sample_two)(pid \<mapsto> new_process pid None sample_source) \<and> is_alive t' pid"
    using spawn_allocates_fresh [OF sample_two_facts(1) _ sample_two_room, of None sample_source]
      sample_two_facts(4) by auto
  then show ?thesis using sample_two_facts(2) by (metis fun_upd_apply option.distinct(1))
qed

text \<open>C21: a message sent between live processes is delivered exactly once: the recipient's
  mailbox gains that message in its lane with the next message identity, a waiting
  recipient wakes, and no other process changes. A missing or exited sender or recipient
  is an error that leaves the table as it was.\<close>

theorem send_delivers_once:
  assumes "pt_ok Q contents capacity t"
  shows "if is_alive t sender \<and> is_alive t recipient
    then \<exists>t' sequence. send_accounted Q sender recipient payload bytes t
          = (Ok (saturating_add (pt_next_message_id t) 1), t')
      \<and> pt_ok Q contents capacity t'
      \<and> pt_get t' = (pt_get t)(recipient \<mapsto> proc_integrate_message
          (delivered_message (saturating_add (pt_next_message_id t) 1) sequence sender
            (plain_delivery payload bytes Ordinary)) (the (pt_get t recipient)))
      \<and> pt_next_message_id t' = saturating_add (pt_next_message_id t) 1
      \<and> pt_names t' = pt_names t
    else \<exists>e. send_accounted Q sender recipient payload bytes t = (Err e, t)"
proof (cases "is_alive t sender \<and> is_alive t recipient")
  case True
  then obtain p where p: "pt_get t recipient = Some p" "\<not> is_exited (proc_state p)"
    by (auto simp: is_alive_get)
  have valid: "validate_send t sender recipient = Ok ()"
    using True by (auto simp: validate_send_def validate_sender_def validate_recipient_def is_alive_get)
  obtain t' sequence where "enqueue_message Q sender recipient (plain_delivery payload bytes Ordinary) t
        = (Ok (saturating_add (pt_next_message_id t) 1), t')"
      "pt_ok Q contents capacity t'"
      "pt_get t' = (pt_get t)(recipient \<mapsto> proc_integrate_message
         (delivered_message (saturating_add (pt_next_message_id t) 1) sequence sender
           (plain_delivery payload bytes Ordinary)) p)"
      "pt_frame (t\<lparr> pt_next_message_id := saturating_add (pt_next_message_id t) 1 \<rparr>) t'"
    using enqueue_message_law [OF assms p] by metis
  then show ?thesis
    using True p valid by (auto simp: send_accounted_def send_typed_def bind_st_def read_st_def pt_frame_def)
next
  case False
  then have "\<exists>e. validate_send t sender recipient = Err e"
    by (auto simp: validate_send_def validate_sender_def validate_recipient_def is_alive_def
        split: option.splits)
  then show ?thesis
    using False by (auto simp: send_accounted_def send_typed_def bind_st_def read_st_def)
qed

theorem send_delivers_once_witness:
  "\<exists>t' m. send_accounted list_queue 1 2 (VInt 7) 8 sample_two = (Ok 1, t')
     \<and> proc_mailbox (the (pt_get t' 2)) = [m] \<and> msg_sender m = 1
     \<and> (\<exists>e. send_accounted list_queue 1 3 (VInt 7) 8 sample_two = (Err e, sample_two))"
proof -
  have a: "is_alive sample_two 1" "is_alive sample_two 2" "\<not> is_alive sample_two 3"
    by (simp_all add: is_alive_get sample_two_facts(2) new_process_def)
  have sat: "saturating_add 0 1 = (1 :: u64)" by (simp add: saturating_add_def checked_add_def)
  note ok = sample_two_facts(1)
  show ?thesis
    using send_delivers_once [OF ok, of 1 2 "VInt 7" 8] send_delivers_once [OF ok, of 1 3 "VInt 7" 8] a
    by (auto simp: sample_two_facts sat proc_integrate_mailbox enqueue_lane_def is_priority_def
        delivered_message_def plain_delivery_def new_process_def)
qed

text \<open>C33: exiting a live process hands back exactly its resource handles, empties its mailbox
  and records the reason, releases every name it had and no other, and leaves the other
  processes alone; the tombstone stays until it is reaped, a second exit is refused, and
  reaping removes it and nothing else.\<close>

theorem exit_then_reap:
  assumes "pt_ok Q contents capacity t" and "pt_get t pid = Some p" and "\<not> is_exited (proc_state p)"
  shows "\<exists>t1 t2. pt_exit_process pid reason t = (Ok (proc_resource_handles p), t1)
    \<and> pt_get t1 = (pt_get t)(pid \<mapsto> p\<lparr> proc_state := Exited reason, proc_mailbox := [],
        proc_heap_bytes := 0, proc_resource_handles := [] \<rparr>)
    \<and> (\<forall>name. lookup_name t1 name = (if lookup_name t name = Some pid then None else lookup_name t name))
    \<and> (\<exists>e. pt_exit_process pid reason t1 = (Err e, t1))
    \<and> reap_exited pid t = (Err (Msg ''cannot reap live process {}'' [ANum pid]), t)
    \<and> reap_exited pid t1 = (Ok (), t2)
    \<and> pt_get t2 = (pt_get t)(pid := None)
    \<and> pt_ok Q contents capacity t1 \<and> pt_ok Q contents capacity t2"
proof -
  obtain t1 where t1: "pt_exit_process pid reason t = (Ok (proc_resource_handles p), t1)"
      "pt_ok Q contents capacity t1" "pt_get t1 = (pt_get t)(pid \<mapsto> snd (proc_exit reason p))"
      "pt_forget_names pid t t1"
    using exit_process_law [OF assms] by metis
  let ?p = "snd (proc_exit reason p)"
  have p: "pt_get t1 pid = Some ?p" "is_exited (proc_state ?p)" by (simp_all add: t1(3))
  obtain t2 where t2: "reap_exited pid t1 = (Ok (), t2)" "pt_ok Q contents capacity t2"
      "pt_get t2 = (pt_get t1)(pid := None)"
    using reap_law [OF t1(2) p] by metis
  have nb: "bt_ok (pt_names t)" using pt_okD(4) [OF assms(1)] by (simp add: pt_names_ok_def)
  have "lookup_name t1 name = (if lookup_name t name = Some pid then None else lookup_name t name)" for name
    using t1(4) nb by (auto simp: lookup_name_def pt_forget_names_def bt_get_retain split: option.splits)
  then show ?thesis
    using t1 t2 exit_process_dead [OF t1(2) p] reap_live [OF assms(2,3)]
    by (auto simp: proc_exit_def)
qed

theorem exit_then_reap_witness:
  "\<exists>t1 t2. pt_exit_process 2 Killed sample_two = (Ok [], t1) \<and> reap_exited 2 t1 = (Ok (), t2)
     \<and> pt_get t2 2 = None \<and> pt_get t2 1 \<noteq> None"
  using exit_then_reap [OF sample_two_facts(1) _ sample_live, of 2 2 "Some 1" sample_source Killed]
  by (auto simp: sample_two_facts(2) new_process_def)

text \<open>C31: moving a live process to another table and importing it there preserves its complete
  record: the destination holds exactly the process and the names the source held, its
  identity allocators stay above every identity it now holds, and the source keeps
  neither the process nor its names. A refused import returns the transfer unchanged.\<close>

theorem process_transfer_roundtrip:
  assumes src: "pt_ok Q contents capacity t" "pt_get t pid = Some p" "\<not> is_exited (proc_state p)"
    and dst: "pt_ok Q contents capacity u" "pt_has_room u"
  shows "\<exists>t' tr. detach_process_for_transfer Q pid t = (Ok tr, t')
    \<and> pt_ok Q contents capacity t' \<and> pt_get t' = (pt_get t)(pid := None)
    \<and> (\<forall>name. lookup_name t' name \<noteq> Some pid)
    \<and> transfer_process tr = p \<and> set (transfer_names tr) = {name. lookup_name t name = Some pid}
    \<and> (case validate_process_import u tr of
         Ok _ \<Rightarrow> (\<exists>u'. import_process_transfer Q tr u = (Ok (), u')
           \<and> pt_ok Q contents capacity u' \<and> pt_get u' = (pt_get u)(pid \<mapsto> p)
           \<and> (\<forall>name. lookup_name u' name
                = (if lookup_name t name = Some pid then Some pid else lookup_name u name)))
       | Err e \<Rightarrow> import_process_transfer Q tr u = (Err (e, tr), u)
       | Panic m \<Rightarrow> False)"
proof -
  obtain t' where t': "detach_process_for_transfer Q pid t = (Ok
      \<lparr> transfer_process = p, transfer_names = names_for_process t pid,
        transfer_process_identity_watermark = pt_next_pid t,
        transfer_message_identity_watermark = pt_next_message_id t \<rparr>, t')" (is "_ = (Ok ?tr, _)")
    "pt_ok Q contents capacity t'" "pt_get t' = (pt_get t)(pid := None)" "pt_forget_names pid t t'"
    using detach_process_law [OF src] by metis
  have nb: "bt_ok (pt_names t)" using pt_okD(4) [OF src(1)] by (simp add: pt_names_ok_def)
  have names: "set (names_for_process t pid) = {name. lookup_name t name = Some pid}"
    using names_for_process_iff [OF nb] by (auto simp: lookup_name_def)
  have gone: "lookup_name t' name \<noteq> Some pid" for name
    using t'(4) nb by (auto simp: lookup_name_def pt_forget_names_def bt_get_retain split: option.splits)
  have p: "proc_pid p = pid" "proc_ok p" using pt_get_facts [OF src(1,2)] by simp_all
  have total: "check_transfer_names m ns = Ok () \<or> (\<exists>e. check_transfer_names m ns = Err e)" for m ns
    by (induction ns) (auto split: option.splits)
  then have no_panic: "validate_process_import u ?tr = Ok () \<or> (\<exists>e. validate_process_import u ?tr = Err e)"
    by (simp add: validate_process_import_def Let_def)
  have imported: "\<exists>u'. import_process_transfer Q ?tr u = (Ok (), u')
      \<and> pt_ok Q contents capacity u' \<and> pt_get u' = (pt_get u)(pid \<mapsto> p)
      \<and> (\<forall>name. lookup_name u' name
           = (if lookup_name t name = Some pid then Some pid else lookup_name u name))"
    if v: "validate_process_import u ?tr = Ok ()"
  proof -
    have q: "proc_ok (transfer_process ?tr)" "\<not> is_exited (proc_state (transfer_process ?tr))"
      using p src(3) by simp_all
    obtain u' where "import_process_transfer Q ?tr u = (Ok (), u')" "pt_ok Q contents capacity u'"
        "pt_get u' = (pt_get u)(proc_pid (transfer_process ?tr) \<mapsto> transfer_process ?tr)"
        "\<forall>name. bt_get (pt_names u') name = (if name \<in> set (transfer_names ?tr)
           then Some (proc_pid (transfer_process ?tr)) else bt_get (pt_names u) name)"
      using import_process_law [OF dst(1) v q dst(2)] by metis
    then show ?thesis using p names by (intro exI [of _ u']) (simp add: lookup_name_def)
  qed
  have refused: "import_process_transfer Q ?tr u = (Err (e, ?tr), u)"
    if "validate_process_import u ?tr = Err e" for e
    using that by (simp add: import_process_transfer_def bind_st_def read_st_def map_err_def)
  show ?thesis
  proof (intro exI conjI)
    show "detach_process_for_transfer Q pid t = (Ok ?tr, t')" by (rule t'(1))
    show "set (transfer_names ?tr) = {name. lookup_name t name = Some pid}" using names by simp
    show "case validate_process_import u ?tr of
         Ok _ \<Rightarrow> (\<exists>u'. import_process_transfer Q ?tr u = (Ok (), u')
           \<and> pt_ok Q contents capacity u' \<and> pt_get u' = (pt_get u)(pid \<mapsto> p)
           \<and> (\<forall>name. lookup_name u' name
                = (if lookup_name t name = Some pid then Some pid else lookup_name u name)))
       | Err e \<Rightarrow> import_process_transfer Q ?tr u = (Err (e, ?tr), u)
       | Panic m \<Rightarrow> False"
      using no_panic imported refused by auto
  qed (use t' gone in simp_all)
qed

theorem process_transfer_roundtrip_witness:
  "\<exists>t' tr u'. detach_process_for_transfer list_queue 2 sample_two = (Ok tr, t')
     \<and> import_process_transfer list_queue tr sample_one = (Ok (), u')
     \<and> pt_get u' 2 = Some (new_process 2 (Some 1) sample_source) \<and> pt_get t' 2 = None"
proof -
  have room: "pt_has_room sample_one" by (rule pt_has_room_small) (simp add: sample_one_slots)
  have absent: "\<not> pt_contains sample_one 2"
    using pt_contains_get [OF sample_one_facts(1)] by (simp add: sample_one_facts(2))
  have valid: "validate_process_import sample_one tr = Ok ()"
    if "transfer_process tr = new_process 2 (Some 1) sample_source" for tr
    using that absent check_transfer_names_Ok [of "[]"]
    by (simp add: validate_process_import_def Let_def new_process_def sample_one_facts(3))
  show ?thesis
    using process_transfer_roundtrip [OF sample_two_facts(1) _ sample_live sample_one_facts(1) room,
        of 2 2 "Some 1" sample_source] valid
    by (auto simp: sample_two_facts(2))
qed

end
