(* ===== verification/Mailbox_Handshake.thy ===== *)
theory Mailbox_Handshake
  imports Actor_Mailbox
begin

text \<open>
  The park and wake handshake between producers and schedulers, at the grain of the atomic
  operations of \<open>actor_directory/mailbox.rs\<close> and \<open>actor_directory.rs\<close>: any number of
  producers run \<open>publish_fragment\<close> and any number of schedulers run \<open>acquire\<close>, drain and
  \<open>release_mutator\<close> on one actor, and every interleaving of their atomic steps is a run.
  All of them hold the directory's lock for reading, so no other operation intervenes.

  The ownership word is kept as its lifecycle and owner generation, the two fields these
  operations change besides the owner, which is set exactly while the actor executes; a
  compare-exchange compares both, as comparing the word does. Payloads are natural numbers.
\<close>

section \<open>The two kinds of threads and the shared state\<close>

type_synonym hword = "VmActorLifecycle \<times> u64"

text \<open>A producer inside \<open>publish_fragment\<close>, by what it does next.\<close>

datatype producer_pc =
    PIdle
  | PAdmitted nat              \<comment> \<open>counted, about to push\<close>
  | PPushed                    \<comment> \<open>about to swap the wake state\<close>
  | PWake                      \<comment> \<open>saw \<open>PARKED\<close>, about to load the ownership word\<close>
  | PLoaded hword              \<comment> \<open>about to exchange the loaded word\<close>

text \<open>A scheduler around one execution of the actor, by what it does next.\<close>

datatype scheduler_pc =
    SIdle
  | SAcquired                  \<comment> \<open>owns the actor, about to activate the mailbox\<close>
  | SRunning
  | SDraining                  \<comment> \<open>in the loop of \<open>drain\<close>\<close>
  | SDrained                   \<comment> \<open>the loop ended, about to test for emptiness\<close>
  | SResetting                 \<comment> \<open>about to exchange \<open>NOTIFIED\<close> for \<open>ACTIVE\<close>\<close>
  | SParking                   \<comment> \<open>\<open>PARKING\<close> is set, about to test for emptiness\<close>
  | SCommitting                \<comment> \<open>about to exchange \<open>PARKING\<close> for \<open>PARKED\<close>\<close>
  | SParkReady                 \<comment> \<open>about to release the word as \<open>Parked\<close>\<close>
  | SYielding                  \<comment> \<open>about to release the word as \<open>Yielding\<close>\<close>
  | SCheck                     \<comment> \<open>released, about to test for a notification\<close>
  | SWake                      \<comment> \<open>notified, about to load the ownership word\<close>
  | SLoaded hword

record handshake =
  hs_queue :: "nat list"
  hs_wake :: u8
  hs_word :: hword
  hs_producer :: "nat \<Rightarrow> producer_pc"
  hs_scheduler :: "nat \<Rightarrow> scheduler_pc"

definition set_producer :: "nat \<Rightarrow> producer_pc \<Rightarrow> handshake \<Rightarrow> handshake" where
  "set_producer p pc s = s\<lparr> hs_producer := (hs_producer s)(p := pc) \<rparr>"

definition set_scheduler :: "nat \<Rightarrow> scheduler_pc \<Rightarrow> handshake \<Rightarrow> handshake" where
  "set_scheduler n pc s = s\<lparr> hs_scheduler := (hs_scheduler s)(n := pc) \<rparr>"

definition handshake_initial :: "handshake \<Rightarrow> bool" where
  "handshake_initial s \<longleftrightarrow> hs_queue s = [] \<and> hs_wake s = ACTIVE \<and> hs_word s = (Queued, 0)
     \<and> hs_producer s = (\<lambda>_. PIdle) \<and> hs_scheduler s = (\<lambda>_. SIdle)"

section \<open>The steps\<close>

text \<open>
  \<open>enqueue_notified_parked\<close>: the exchange of a loaded word, which makes a parked actor
  runnable and does nothing when the word has changed since or was not parked.
\<close>

definition wake_parked :: "hword \<Rightarrow> handshake \<Rightarrow> handshake" where
  "wake_parked w s = (if fst w = Parked \<and> hs_word s = w then s\<lparr> hs_word := (Queued, snd w) \<rparr> else s)"

inductive producer_step :: "nat \<Rightarrow> handshake \<Rightarrow> handshake \<Rightarrow> bool" for p where
  admit: "hs_producer s p = PIdle \<Longrightarrow> fst (hs_word s) \<notin> {Exiting, Retired, Reclaimed}
    \<Longrightarrow> producer_step p s (set_producer p (PAdmitted x) s)"
| push: "hs_producer s p = PAdmitted x
    \<Longrightarrow> producer_step p s (set_producer p PPushed (s\<lparr> hs_queue := hs_queue s @ [x] \<rparr>))"
| refused: "hs_producer s p = PAdmitted x \<Longrightarrow> producer_step p s (set_producer p PIdle s)"
| notify: "hs_producer s p = PPushed
    \<Longrightarrow> producer_step p s (set_producer p (if hs_wake s = PARKED then PWake else PIdle)
          (s\<lparr> hs_wake := NOTIFIED \<rparr>))"
| load: "hs_producer s p = PWake \<Longrightarrow> producer_step p s (set_producer p (PLoaded (hs_word s)) s)"
| enqueue: "hs_producer s p = PLoaded w
    \<Longrightarrow> producer_step p s (set_producer p PIdle (wake_parked w s))"

inductive scheduler_step :: "nat \<Rightarrow> handshake \<Rightarrow> handshake \<Rightarrow> bool" for n where
  acquire: "hs_scheduler s n = SIdle \<Longrightarrow> hs_word s = (Queued, g)
    \<Longrightarrow> scheduler_step n s (set_scheduler n SAcquired (s\<lparr> hs_word := (Executing, next_generation g) \<rparr>))"
| activate: "hs_scheduler s n = SAcquired
    \<Longrightarrow> scheduler_step n s (set_scheduler n SRunning (s\<lparr> hs_wake := ACTIVE \<rparr>))"
| drain: "hs_scheduler s n = SRunning \<Longrightarrow> scheduler_step n s (set_scheduler n SDraining s)"
| pop: "hs_scheduler s n = SDraining \<Longrightarrow> hs_queue s = x # q
    \<Longrightarrow> scheduler_step n s (s\<lparr> hs_queue := q \<rparr>)"
| pop_empty: "hs_scheduler s n = SDraining \<Longrightarrow> hs_queue s = []
    \<Longrightarrow> scheduler_step n s (set_scheduler n SDrained s)"
| drained: "hs_scheduler s n = SDrained
    \<Longrightarrow> scheduler_step n s (set_scheduler n (if hs_queue s = [] then SResetting else SRunning) s)"
| reset: "hs_scheduler s n = SResetting
    \<Longrightarrow> scheduler_step n s (set_scheduler n SRunning
          (if hs_wake s = NOTIFIED then s\<lparr> hs_wake := ACTIVE \<rparr> else s))"
| yield: "hs_scheduler s n = SRunning \<Longrightarrow> scheduler_step n s (set_scheduler n SYielding s)"
| park: "hs_scheduler s n = SRunning
    \<Longrightarrow> scheduler_step n s (if hs_wake s = ACTIVE
          then set_scheduler n SParking (s\<lparr> hs_wake := PARKING \<rparr>)
          else set_scheduler n SYielding s)"
| recheck: "hs_scheduler s n = SParking
    \<Longrightarrow> scheduler_step n s (if hs_queue s \<noteq> []
          then set_scheduler n SYielding (s\<lparr> hs_wake := NOTIFIED \<rparr>)
          else set_scheduler n SCommitting s)"
| commit: "hs_scheduler s n = SCommitting
    \<Longrightarrow> scheduler_step n s (if hs_wake s = PARKING
          then set_scheduler n SParkReady (s\<lparr> hs_wake := PARKED \<rparr>)
          else set_scheduler n SYielding s)"
| release_yielding: "hs_scheduler s n = SYielding
    \<Longrightarrow> scheduler_step n s (set_scheduler n SIdle (s\<lparr> hs_word := (Yielding, snd (hs_word s)) \<rparr>))"
| release_parked: "hs_scheduler s n = SParkReady
    \<Longrightarrow> scheduler_step n s (set_scheduler n SCheck (s\<lparr> hs_word := (Parked, snd (hs_word s)) \<rparr>))"
| check: "hs_scheduler s n = SCheck
    \<Longrightarrow> scheduler_step n s (set_scheduler n (if hs_wake s = NOTIFIED then SWake else SIdle) s)"
| load: "hs_scheduler s n = SWake \<Longrightarrow> scheduler_step n s (set_scheduler n (SLoaded (hs_word s)) s)"
| enqueue: "hs_scheduler s n = SLoaded w
    \<Longrightarrow> scheduler_step n s (set_scheduler n SIdle (wake_parked w s))"

text \<open>\<open>mark_queued\<close>, from any thread.\<close>

definition requeue :: "handshake \<Rightarrow> handshake" where
  "requeue s = (if fst (hs_word s) \<in> {Yielding, Parked}
     then s\<lparr> hs_word := (Queued, snd (hs_word s)) \<rparr> else s)"

inductive handshake_reachable :: "handshake \<Rightarrow> bool" where
  initial: "handshake_initial s \<Longrightarrow> handshake_reachable s"
| producer: "handshake_reachable s \<Longrightarrow> producer_step p s s' \<Longrightarrow> handshake_reachable s'"
| scheduler: "handshake_reachable s \<Longrightarrow> scheduler_step n s s' \<Longrightarrow> handshake_reachable s'"
| requeued: "handshake_reachable s \<Longrightarrow> handshake_reachable (requeue s)"

inductive_cases producer_stepE: "producer_step p s s'"
inductive_cases scheduler_stepE: "scheduler_step n s s'"

section \<open>Invariants\<close>

definition owning :: "scheduler_pc \<Rightarrow> bool" where
  "owning pc \<longleftrightarrow> pc \<in> {SAcquired, SRunning, SDraining, SDrained, SResetting, SParking, SCommitting,
     SParkReady, SYielding}"

text \<open>A thread that will make the actor runnable with the ownership word as it is now.\<close>

definition waker :: "handshake \<Rightarrow> bool" where
  "waker s \<longleftrightarrow> (\<exists>p. hs_producer s p = PWake \<or> hs_producer s p = PLoaded (hs_word s))
     \<or> (\<exists>n. hs_scheduler s n \<in> {SCheck, SWake, SLoaded (hs_word s)})"

definition mutex_inv :: "handshake \<Rightarrow> bool" where
  "mutex_inv s \<longleftrightarrow> (\<forall>n. owning (hs_scheduler s n) \<longrightarrow> fst (hs_word s) = Executing)
     \<and> (\<forall>n n'. owning (hs_scheduler s n) \<longrightarrow> owning (hs_scheduler s n') \<longrightarrow> n = n')"

definition parking_inv :: "handshake \<Rightarrow> bool" where
  "parking_inv s \<longleftrightarrow>
     (\<forall>n. hs_scheduler s n = SParking \<longrightarrow> hs_wake s \<in> {PARKING, NOTIFIED})
   \<and> (\<forall>n. hs_scheduler s n = SCommitting \<longrightarrow> hs_wake s \<in> {PARKING, NOTIFIED}
        \<and> (hs_wake s = PARKING \<longrightarrow> hs_queue s \<noteq> [] \<longrightarrow> (\<exists>p. hs_producer s p = PPushed)))
   \<and> (\<forall>n. hs_scheduler s n = SParkReady \<longrightarrow> hs_wake s \<in> {PARKED, NOTIFIED}
        \<and> (hs_wake s = PARKED \<longrightarrow> hs_queue s \<noteq> [] \<longrightarrow> (\<exists>p. hs_producer s p = PPushed)))"

definition parked_inv :: "handshake \<Rightarrow> bool" where
  "parked_inv s \<longleftrightarrow> (fst (hs_word s) = Parked \<longrightarrow>
     (hs_wake s = PARKED \<and> (hs_queue s \<noteq> [] \<longrightarrow> (\<exists>p. hs_producer s p = PPushed)))
   \<or> (hs_wake s = NOTIFIED \<and> waker s))"

lemmas handshake_defs = set_producer_def set_scheduler_def wake_parked_def owning_def

lemma next_word_simps [simp]:
  "hs_word (set_producer p pc s) = hs_word s" "hs_word (set_scheduler n pc' s) = hs_word s"
  "hs_queue (set_producer p pc s) = hs_queue s" "hs_queue (set_scheduler n pc' s) = hs_queue s"
  "hs_wake (set_producer p pc s) = hs_wake s" "hs_wake (set_scheduler n pc' s) = hs_wake s"
  "hs_producer (set_scheduler n pc' s) = hs_producer s"
  "hs_scheduler (set_producer p pc s) = hs_scheduler s"
  "hs_producer (set_producer p pc s) = (hs_producer s)(p := pc)"
  "hs_scheduler (set_scheduler n pc' s) = (hs_scheduler s)(n := pc')"
  by (simp_all add: set_producer_def set_scheduler_def)

lemma wake_parked_simps [simp]:
  "hs_queue (wake_parked w s) = hs_queue s" "hs_wake (wake_parked w s) = hs_wake s"
  "hs_producer (wake_parked w s) = hs_producer s" "hs_scheduler (wake_parked w s) = hs_scheduler s"
  "hs_word (wake_parked w s) = (if fst w = Parked \<and> hs_word s = w then (Queued, snd w) else hs_word s)"
  by (simp_all add: wake_parked_def)

lemma owning_simps [simp]:
  "\<not> owning SIdle" "owning SAcquired" "owning SRunning" "owning SDraining" "owning SDrained"
  "owning SResetting" "owning SParking" "owning SCommitting" "owning SParkReady" "owning SYielding"
  "\<not> owning SCheck" "\<not> owning SWake" "\<not> owning (SLoaded w)"
  by (simp_all add: owning_def)

subsection \<open>One owner\<close>

lemma mutex_producer: "producer_step p s s' \<Longrightarrow> mutex_inv s \<Longrightarrow> mutex_inv s'"
  by (erule producer_stepE) (auto simp: mutex_inv_def split: if_splits)

lemma mutex_requeue: "mutex_inv s \<Longrightarrow> mutex_inv (requeue s)"
  by (fastforce simp: mutex_inv_def requeue_def)

lemma mutex_scheduler_keep:
  assumes "mutex_inv s" "owning (hs_scheduler s n)" "hs_scheduler s' = (hs_scheduler s)(n := pc)"
    and "hs_word s' = hs_word s"
  shows "mutex_inv s'"
  using assms by (auto simp: mutex_inv_def split: if_splits)

lemma mutex_scheduler_leave:
  assumes "mutex_inv s" "hs_scheduler s' = (hs_scheduler s)(n := pc)" "\<not> owning pc"
    and "owning (hs_scheduler s n) \<or> hs_word s' = hs_word s \<or> fst (hs_word s) \<noteq> Executing"
  shows "mutex_inv s'"
  using assms unfolding mutex_inv_def by (auto split: if_splits)

lemma mutex_scheduler:
  assumes step: "scheduler_step n s s'" and inv: "mutex_inv s"
  shows "mutex_inv s'"
  using step
proof (cases rule: scheduler_step.cases)
  case (acquire g)
  then have "\<not> owning (hs_scheduler s m)" for m using inv by (auto simp: mutex_inv_def)
  with acquire show ?thesis by (auto simp: mutex_inv_def split: if_splits)
next
  case activate
  show ?thesis
    by (rule mutex_scheduler_keep [OF inv, of n _ "SRunning"]) (simp_all add: activate)
next
  case drain
  show ?thesis
    by (rule mutex_scheduler_keep [OF inv, of n _ "SDraining"]) (simp_all add: drain)
next
  case pop_empty
  show ?thesis
    by (rule mutex_scheduler_keep [OF inv, of n _ "SDrained"]) (simp_all add: pop_empty)
next
  case drained
  show ?thesis
    by (rule mutex_scheduler_keep [OF inv, of n _ "if hs_queue s = [] then SResetting else SRunning"]) (simp_all add: drained)
next
  case reset
  show ?thesis
    by (rule mutex_scheduler_keep [OF inv, of n _ "SRunning"]) (simp_all add: reset)
next
  case yield
  show ?thesis
    by (rule mutex_scheduler_keep [OF inv, of n _ "SYielding"]) (simp_all add: yield)
next
  case check
  show ?thesis
    by (rule mutex_scheduler_leave [OF inv, of _ n "if hs_wake s = NOTIFIED then SWake else SIdle"]) (simp_all add: check)
next
  case load
  show ?thesis
    by (rule mutex_scheduler_leave [OF inv, of _ n "SLoaded (hs_word s)"]) (simp_all add: load)
next
  case (enqueue w)
  show ?thesis
    by (rule mutex_scheduler_leave [OF inv, of _ n "SIdle"]) (simp_all add: enqueue)
next
  case park
  show ?thesis
    by (rule mutex_scheduler_keep [OF inv, of n _ "if hs_wake s = ACTIVE then SParking else SYielding"])
      (simp_all add: park)
next
  case recheck
  show ?thesis
    by (rule mutex_scheduler_keep [OF inv, of n _ "if hs_queue s \<noteq> [] then SYielding else SCommitting"])
      (simp_all add: recheck)
next
  case commit
  show ?thesis
    by (rule mutex_scheduler_keep [OF inv, of n _ "if hs_wake s = PARKING then SParkReady else SYielding"])
      (simp_all add: commit)
next
  case release_yielding
  show ?thesis
    by (rule mutex_scheduler_leave [OF inv, of _ n SIdle]) (simp_all add: release_yielding)
next
  case release_parked
  show ?thesis
    by (rule mutex_scheduler_leave [OF inv, of _ n SCheck]) (simp_all add: release_parked)
next
  case (pop x q)
  then show ?thesis using inv by (simp add: mutex_inv_def)
qed

subsection \<open>The receiver side before it releases\<close>

lemma owner_unique:
  "mutex_inv s \<Longrightarrow> owning (hs_scheduler s n) \<Longrightarrow> owning (hs_scheduler s m) \<Longrightarrow> m = n"
  by (auto simp: mutex_inv_def)

lemma pushed_kept:
  assumes "hs_producer s' = (hs_producer s)(p := pc)" "hs_producer s p \<noteq> PPushed"
    and "\<exists>q. hs_producer s q = PPushed"
  shows "\<exists>q. hs_producer s' q = PPushed"
  using assms by (metis fun_upd_apply)

lemma parking_kept:
  assumes "parking_inv s" "hs_scheduler s' = hs_scheduler s" "hs_wake s' = hs_wake s"
    and "hs_queue s' = hs_queue s" "(\<exists>q. hs_producer s q = PPushed) \<Longrightarrow> \<exists>q. hs_producer s' q = PPushed"
  shows "parking_inv s'"
  using assms by (simp add: parking_inv_def)

lemma parking_producer:
  assumes "producer_step p s s'" "parking_inv s"
  shows "parking_inv s'"
  using assms(1)
proof (cases rule: producer_step.cases)
  case (admit x)
  show ?thesis
    by (rule parking_kept [OF assms(2)]; (rule pushed_kept [of s' s p "PAdmitted x"])?) (simp_all add: admit)
next
  case (push x)
  then have "hs_producer s' p = PPushed" by simp
  then show ?thesis using assms(2) push by (auto simp: parking_inv_def)
next
  case (refused x)
  show ?thesis
    by (rule parking_kept [OF assms(2)]; (rule pushed_kept [of s' s p PIdle])?) (simp_all add: refused)
next
  case notify
  then show ?thesis by (simp add: parking_inv_def wake_defs)
next
  case load
  show ?thesis
    by (rule parking_kept [OF assms(2)]; (rule pushed_kept [of s' s p "PLoaded (hs_word s)"])?)
      (simp_all add: load)
next
  case (enqueue w)
  show ?thesis
    by (rule parking_kept [OF assms(2)]; (rule pushed_kept [of s' s p PIdle])?) (simp_all add: enqueue)
qed

text \<open>
  A scheduler that owns the actor is the only one in an owning state, so what another
  scheduler does leaves these facts alone.
\<close>

definition harmless :: "scheduler_pc \<Rightarrow> bool" where
  "harmless pc \<longleftrightarrow> pc \<notin> {SParking, SCommitting, SParkReady}"

lemma harmless_simps [simp]:
  "harmless SIdle" "harmless SAcquired" "harmless SRunning" "harmless SDraining" "harmless SDrained"
  "harmless SResetting" "harmless SYielding" "harmless SCheck" "harmless SWake" "harmless (SLoaded w)"
  by (simp_all add: harmless_def)

lemma others_passive:
  assumes "mutex_inv s" "owning (hs_scheduler s n)" "m \<noteq> n"
  shows "harmless (hs_scheduler s m)"
  using owner_unique [OF assms(1,2), of m] assms(3) by (auto simp: harmless_def)

lemma parking_all_passive:
  "(\<And>m. harmless (hs_scheduler s m)) \<Longrightarrow> parking_inv s"
  by (force simp: parking_inv_def harmless_def)

lemma parking_other:
  assumes "mutex_inv s" "owning (hs_scheduler s n)" "hs_scheduler s' = (hs_scheduler s)(n := pc)"
    and "harmless pc"
  shows "parking_inv s'"
  by (rule parking_all_passive) (use others_passive [OF assms(1,2)] assms(3,4) in auto)

lemma parking_only:
  assumes "\<And>m. m \<noteq> n \<Longrightarrow> harmless (hs_scheduler s m)"
    and "hs_scheduler s n = SParking \<Longrightarrow> hs_wake s \<in> {PARKING, NOTIFIED}"
    and "hs_scheduler s n = SCommitting \<Longrightarrow> hs_wake s \<in> {PARKING, NOTIFIED}
        \<and> (hs_wake s = PARKING \<longrightarrow> hs_queue s \<noteq> [] \<longrightarrow> (\<exists>p. hs_producer s p = PPushed))"
    and "hs_scheduler s n = SParkReady \<Longrightarrow> hs_wake s \<in> {PARKED, NOTIFIED}
        \<and> (hs_wake s = PARKED \<longrightarrow> hs_queue s \<noteq> [] \<longrightarrow> (\<exists>p. hs_producer s p = PPushed))"
  shows "parking_inv s"
proof -
  have "m = n" if "\<not> harmless (hs_scheduler s m)" for m using assms(1) that by blast
  then have "m = n" if "hs_scheduler s m \<in> {SParking, SCommitting, SParkReady}" for m
    using that by (simp add: harmless_def)
  then show ?thesis using assms(2-4) unfolding parking_inv_def by (metis insertCI)
qed

lemma parking_frame:
  assumes "parking_inv s" "hs_scheduler s' = (hs_scheduler s)(n := pc)"
    and "harmless pc" "hs_wake s' = hs_wake s" "hs_queue s' = hs_queue s" "hs_producer s' = hs_producer s"
  shows "parking_inv s'"
  using assms by (auto simp: parking_inv_def harmless_def split: if_splits)

lemma parking_scheduler:
  assumes step: "scheduler_step n s s'" and inv: "mutex_inv s" "parking_inv s"
  shows "parking_inv s'"
  using step
proof (cases rule: scheduler_step.cases)
  case park
  show ?thesis
    by (rule parking_only [of n]) (use others_passive [OF inv(1), of n] park in \<open>auto split: if_splits\<close>)
next
  case recheck
  show ?thesis
    by (rule parking_only [of n])
      (use others_passive [OF inv(1), of n] recheck inv(2) in \<open>auto simp: parking_inv_def split: if_splits\<close>)
next
  case commit
  show ?thesis
    by (rule parking_only [of n])
      (use others_passive [OF inv(1), of n] commit inv(2) in \<open>auto simp: parking_inv_def split: if_splits\<close>)
next
  case (pop x q)
  show ?thesis
    by (rule parking_other [OF inv(1), of n _ SDraining]) (use pop in auto)
next
  case (acquire g)
  then show ?thesis by (intro parking_frame [OF inv(2), of _ n SAcquired]) simp_all
next
  case drained
  show ?thesis
    by (rule parking_frame [OF inv(2), of _ n "if hs_queue s = [] then SResetting else SRunning"])
      (simp_all add: drained)
next
  case check
  show ?thesis
    by (rule parking_frame [OF inv(2), of _ n "if hs_wake s = NOTIFIED then SWake else SIdle"])
      (simp_all add: check)
next
  case activate
  show ?thesis
    by (rule parking_other [OF inv(1), of n _ "SRunning"]) (simp_all add: activate)
next
  case reset
  show ?thesis
    by (rule parking_other [OF inv(1), of n _ "SRunning"]) (simp_all add: reset)
qed (use inv in \<open>auto intro: parking_other parking_frame split: if_splits\<close>)

subsection \<open>A parked actor is woken\<close>

lemma parked_other: "fst (hs_word s) \<noteq> Parked \<Longrightarrow> parked_inv s"
  by (simp add: parked_inv_def)

lemma parked_kept:
  assumes "parked_inv s" "hs_word s' = hs_word s" "hs_wake s' = hs_wake s" "hs_queue s' = hs_queue s"
    and "(\<exists>q. hs_producer s q = PPushed) \<Longrightarrow> \<exists>q. hs_producer s' q = PPushed"
    and "hs_wake s = NOTIFIED \<Longrightarrow> waker s \<Longrightarrow> waker s'"
  shows "parked_inv s'"
  using assms by (auto simp: parked_inv_def)

lemma waker_producer:
  assumes "waker s" "hs_word s' = hs_word s" "hs_scheduler s' = hs_scheduler s"
    and "hs_producer s' = (hs_producer s)(p := pc)"
    and "hs_producer s p \<in> {PWake, PLoaded (hs_word s)} \<Longrightarrow> pc \<in> {PWake, PLoaded (hs_word s)}"
  shows "waker s'"
  using assms unfolding waker_def by (metis (no_types, lifting) fun_upd_apply insert_iff singletonD)

lemma waker_scheduler:
  assumes "waker s" "hs_word s' = hs_word s" "hs_producer s' = hs_producer s"
    and "hs_scheduler s' = (hs_scheduler s)(n := pc)"
    and "hs_scheduler s n \<in> {SCheck, SWake, SLoaded (hs_word s)}
        \<Longrightarrow> pc \<in> {SCheck, SWake, SLoaded (hs_word s)}"
  shows "waker s'"
  using assms unfolding waker_def by (metis (no_types, lifting) fun_upd_apply)

lemma parked_producer:
  assumes "producer_step p s s'" "parked_inv s"
  shows "parked_inv s'"
  using assms(1)
proof (cases rule: producer_step.cases)
  case (admit x)
  show ?thesis
    by (rule parked_kept [OF assms(2)]; (rule pushed_kept [of s' s p "PAdmitted x"])?;
        (rule waker_producer [of s _ p "PAdmitted x"])?) (simp_all add: admit)
next
  case (push x)
  then have "hs_producer s' p = PPushed" by simp
  moreover have "waker s \<Longrightarrow> waker s'"
    by (rule waker_producer [of s _ p PPushed]) (simp_all add: push)
  ultimately show ?thesis using assms(2) push by (auto simp: parked_inv_def)
next
  case (refused x)
  show ?thesis
    by (rule parked_kept [OF assms(2)]; (rule pushed_kept [of s' s p PIdle])?;
        (rule waker_producer [of s _ p PIdle])?) (simp_all add: refused)
next
  case notify
  have "waker s'" if "hs_wake s = PARKED"
  proof -
    have "hs_producer s' p = PWake" using notify that by simp
    then show ?thesis unfolding waker_def by blast
  qed
  moreover have "waker s'" if "waker s"
    by (rule waker_producer [OF that, of _ p "if hs_wake s = PARKED then PWake else PIdle"])
      (simp_all add: notify)
  ultimately show ?thesis using assms(2) notify by (auto simp: parked_inv_def)
next
  case load
  show ?thesis
    by (rule parked_kept [OF assms(2)]; (rule pushed_kept [of s' s p "PLoaded (hs_word s)"])?;
        (rule waker_producer [of s _ p "PLoaded (hs_word s)"])?) (simp_all add: load)
next
  case (enqueue w)
  show ?thesis
  proof (cases "fst w = Parked \<and> hs_word s = w")
    case True
    then show ?thesis using enqueue by (intro parked_other) simp
  next
    case False
    then have word: "hs_word s' = hs_word s" using enqueue by auto
    show ?thesis
    proof (cases "fst (hs_word s) = Parked")
      case True
      with False have w: "w \<noteq> hs_word s" by auto
      show ?thesis
      proof (rule parked_kept [OF assms(2) word])
        show "\<exists>q. hs_producer s' q = PPushed" if "\<exists>q. hs_producer s q = PPushed"
          by (rule pushed_kept [OF _ _ that, of _ p PIdle]) (simp_all add: enqueue)
        show "waker s'" if "waker s"
          by (rule waker_producer [OF that word, of p PIdle]) (use w in \<open>simp_all add: enqueue\<close>)
      qed (simp_all add: enqueue)
    qed (simp add: parked_inv_def word)
  qed
qed

lemma parked_scheduler:
  assumes step: "scheduler_step n s s'" and inv: "mutex_inv s" "parking_inv s" "parked_inv s"
  shows "parked_inv s'"
proof (cases "owning (hs_scheduler s n)")
  case True
  then have exec: "fst (hs_word s) = Executing" using inv(1) unfolding mutex_inv_def by blast
  show ?thesis
    using step
  proof (cases rule: scheduler_step.cases)
    case release_parked
    then have "hs_wake s \<in> {PARKED, NOTIFIED}"
      "hs_wake s = PARKED \<longrightarrow> hs_queue s \<noteq> [] \<longrightarrow> (\<exists>p. hs_producer s p = PPushed)"
      using inv(2) by (auto simp: parking_inv_def)
    moreover have "waker s'" unfolding waker_def using release_parked by auto
    ultimately show ?thesis using release_parked by (auto simp: parked_inv_def)
  qed (use exec True in \<open>auto intro: parked_other split: if_splits\<close>)
next
  case False
  show ?thesis
    using step
  proof (cases rule: scheduler_step.cases)
    case (acquire g)
    then show ?thesis by (intro parked_other) simp
  next
    case check
    show ?thesis
      by (rule parked_kept [OF inv(3)];
          (rule waker_scheduler [of s _ n "if hs_wake s = NOTIFIED then SWake else SIdle"])?)
        (simp_all add: check)
  next
    case load
    show ?thesis
      by (rule parked_kept [OF inv(3)]; (rule waker_scheduler [of s _ n "SLoaded (hs_word s)"])?)
        (simp_all add: load)
  next
    case (enqueue w)
    show ?thesis
    proof (cases "fst w = Parked \<and> hs_word s = w")
      case True
      then show ?thesis using enqueue by (intro parked_other) simp
    next
      case False
      then have word: "hs_word s' = hs_word s" using enqueue by auto
      show ?thesis
      proof (cases "fst (hs_word s) = Parked")
        case True
        with False have w: "w \<noteq> hs_word s" by auto
        show ?thesis
        proof (rule parked_kept [OF inv(3) word])
          show "waker s'" if "waker s"
            by (rule waker_scheduler [OF that word, of n SIdle]) (use w in \<open>simp_all add: enqueue\<close>)
        qed (simp_all add: enqueue)
      qed (simp add: parked_inv_def word)
    qed
  qed (use False in auto)
qed

subsection \<open>Every reachable state\<close>

lemma handshake_invariants:
  "handshake_reachable s \<Longrightarrow> mutex_inv s \<and> parking_inv s \<and> parked_inv s"
proof (induction rule: handshake_reachable.induct)
  case (initial s)
  then show ?case
    by (auto simp: handshake_initial_def mutex_inv_def parking_inv_def parked_inv_def)
next
  case (producer s p s')
  then show ?case using mutex_producer parking_producer parked_producer by blast
next
  case (scheduler s n s')
  then show ?case using mutex_scheduler parking_scheduler parked_scheduler by blast
next
  case (requeued s)
  have "parking_inv (requeue s)" using requeued.IH by (simp add: requeue_def parking_inv_def)
  moreover have "parked_inv (requeue s)" using requeued.IH by (auto simp: requeue_def parked_inv_def)
  ultimately show ?case using requeued.IH mutex_requeue by blast
qed

section \<open>Properties\<close>

text \<open>A run of one thread alone.\<close>

lemma producer_run_wake:
  assumes "hs_producer s p = PWake" "fst (hs_word s) = Parked"
  shows "\<exists>s'. (producer_step p)\<^sup>*\<^sup>* s s' \<and> fst (hs_word s') = Queued"
proof -
  let ?s1 = "set_producer p (PLoaded (hs_word s)) s"
  let ?s2 = "set_producer p PIdle (wake_parked (hs_word s) ?s1)"
  have "producer_step p s ?s1" by (rule producer_step.load) (rule assms(1))
  moreover have "producer_step p ?s1 ?s2" by (rule producer_step.enqueue) simp
  ultimately have "(producer_step p)\<^sup>*\<^sup>* s ?s2" by auto
  moreover have "fst (hs_word ?s2) = Queued" using assms(2) by simp
  ultimately show ?thesis by blast
qed

lemma scheduler_run_wake:
  assumes "hs_scheduler s n = SWake" "fst (hs_word s) = Parked"
  shows "\<exists>s'. (scheduler_step n)\<^sup>*\<^sup>* s s' \<and> fst (hs_word s') = Queued"
proof -
  let ?s1 = "set_scheduler n (SLoaded (hs_word s)) s"
  let ?s2 = "set_scheduler n SIdle (wake_parked (hs_word s) ?s1)"
  have "scheduler_step n s ?s1" by (rule scheduler_step.load) (rule assms(1))
  moreover have "scheduler_step n ?s1 ?s2" by (rule scheduler_step.enqueue) simp
  ultimately have "(scheduler_step n)\<^sup>*\<^sup>* s ?s2" by auto
  moreover have "fst (hs_word ?s2) = Queued" using assms(2) by simp
  ultimately show ?thesis by blast
qed

lemma waker_runs:
  assumes "waker s" "fst (hs_word s) = Parked" "hs_wake s = NOTIFIED"
  shows "\<exists>s'. ((\<exists>p. (producer_step p)\<^sup>*\<^sup>* s s') \<or> (\<exists>n. (scheduler_step n)\<^sup>*\<^sup>* s s'))
    \<and> fst (hs_word s') = Queued"
proof -
  from assms(1) consider p where "hs_producer s p = PWake"
    | p where "hs_producer s p = PLoaded (hs_word s)"
    | n where "hs_scheduler s n = SCheck" | n where "hs_scheduler s n = SWake"
    | n where "hs_scheduler s n = SLoaded (hs_word s)"
    unfolding waker_def by blast
  then show ?thesis
  proof cases
    case (1 p)
    then show ?thesis using producer_run_wake assms(2) by blast
  next
    case (2 p)
    from producer_step.enqueue [OF this] have "(producer_step p)\<^sup>*\<^sup>* s
        (set_producer p PIdle (wake_parked (hs_word s) s))" by blast
    moreover have "fst (hs_word (set_producer p PIdle (wake_parked (hs_word s) s))) = Queued"
      using assms(2) by simp
    ultimately show ?thesis by blast
  next
    case (3 n)
    let ?s1 = "set_scheduler n SWake s"
    have "scheduler_step n s ?s1" using scheduler_step.check [OF 3] assms(3) by simp
    moreover obtain s' where "(scheduler_step n)\<^sup>*\<^sup>* ?s1 s'" "fst (hs_word s') = Queued"
      using scheduler_run_wake [of ?s1 n] assms(2) by auto
    ultimately show ?thesis by (meson converse_rtranclp_into_rtranclp)
  next
    case (4 n)
    then show ?thesis using scheduler_run_wake assms(2) by blast
  next
    case (5 n)
    from scheduler_step.enqueue [OF this] have "(scheduler_step n)\<^sup>*\<^sup>* s
        (set_scheduler n SIdle (wake_parked (hs_word s) s))" by blast
    moreover have "fst (hs_word (set_scheduler n SIdle (wake_parked (hs_word s) s))) = Queued"
      using assms(2) by simp
    ultimately show ?thesis by blast
  qed
qed

text \<open>C1: no wakeup is lost, in any interleaving of any number of producers and schedulers: in
  every reachable state in which the actor is parked although its queue holds a fragment,
  some thread is on its way to make it runnable, and its remaining steps alone do so. In
  particular, when no publication and no release is in progress, a parked actor has an
  empty queue.\<close>

theorem no_lost_wakeup:
  assumes "handshake_reachable s" and "fst (hs_word s) = Parked" and "hs_queue s \<noteq> []"
  shows "(\<exists>s'. ((\<exists>p. (producer_step p)\<^sup>*\<^sup>* s s') \<or> (\<exists>n. (scheduler_step n)\<^sup>*\<^sup>* s s'))
        \<and> fst (hs_word s') = Queued)
    \<and> \<not> ((\<forall>p. hs_producer s p = PIdle) \<and> (\<forall>n. hs_scheduler s n = SIdle))"
proof -
  have inv: "parked_inv s" using handshake_invariants [OF assms(1)] by blast
  from inv assms(2,3) consider p where "hs_wake s = PARKED" "hs_producer s p = PPushed"
    | "hs_wake s = NOTIFIED" "waker s"
    by (auto simp: parked_inv_def)
  then show ?thesis
  proof cases
    case (1 p)
    let ?s1 = "set_producer p PWake (s\<lparr> hs_wake := NOTIFIED \<rparr>)"
    have "producer_step p s ?s1" using producer_step.notify [OF 1(2)] 1(1) by simp
    moreover obtain s' where "(producer_step p)\<^sup>*\<^sup>* ?s1 s'" "fst (hs_word s') = Queued"
      using producer_run_wake [of ?s1 p] assms(2) by auto
    ultimately show ?thesis using 1(2) by (metis converse_rtranclp_into_rtranclp producer_pc.distinct(3))
  next
    case 2
    moreover have "\<not> ((\<forall>p. hs_producer s p = PIdle) \<and> (\<forall>n. hs_scheduler s n = SIdle))"
      using 2(2) by (auto simp: waker_def)
    ultimately show ?thesis using waker_runs assms(2) by blast
  qed
qed

text \<open>A run that parks the actor and then publishes to it, stopped before the notification.\<close>

definition parked_run :: handshake where
  "parked_run = \<lparr> hs_queue = [7], hs_wake = PARKED, hs_word = (Parked, 1),
     hs_producer = (\<lambda>_. PIdle)(0 := PPushed), hs_scheduler = (\<lambda>_. SIdle) \<rparr>"

lemma parked_run_reachable: "handshake_reachable parked_run"
proof -
  have step: "handshake_reachable s'" if "handshake_reachable s" "scheduler_step 0 s s1" "s1 = s'"
    for s s1 s' using that handshake_reachable.scheduler by blast
  have step': "handshake_reachable s'" if "handshake_reachable s" "producer_step 0 s s1" "s1 = s'"
    for s s1 s' using that handshake_reachable.producer by blast
  have g: "next_generation 0 = 1"
    by (simp add: next_generation_def GENERATION_MASK_def GENERATION_BITS_def)
  let ?st = "\<lambda>q wake w pp sp. \<lparr> hs_queue = q, hs_wake = wake, hs_word = w,
      hs_producer = (\<lambda>_. PIdle)(0 := pp), hs_scheduler = (\<lambda>_. SIdle)(0 := sp) \<rparr>"
  note defs = set_scheduler_def set_producer_def wake_defs g fun_upd_def
  have 0: "handshake_reachable (?st [] ACTIVE (Queued, 0) PIdle SIdle)"
    by (rule handshake_reachable.initial) (auto simp: handshake_initial_def)
  have 1: "handshake_reachable (?st [] ACTIVE (Executing, 1) PIdle SAcquired)"
    by (rule step [OF 0 scheduler_step.acquire [of _ 0 0]]) (auto simp: defs)
  have 2: "handshake_reachable (?st [] ACTIVE (Executing, 1) PIdle SRunning)"
    by (rule step [OF 1 scheduler_step.activate]) (auto simp: defs)
  have 3: "handshake_reachable (?st [] PARKING (Executing, 1) PIdle SParking)"
    by (rule step [OF 2 scheduler_step.park]) (auto simp: defs)
  have 4: "handshake_reachable (?st [] PARKING (Executing, 1) PIdle SCommitting)"
    by (rule step [OF 3 scheduler_step.recheck]) (auto simp: defs)
  have 5: "handshake_reachable (?st [] PARKED (Executing, 1) PIdle SParkReady)"
    by (rule step [OF 4 scheduler_step.commit]) (auto simp: defs)
  have 6: "handshake_reachable (?st [] PARKED (Parked, 1) PIdle SCheck)"
    by (rule step [OF 5 scheduler_step.release_parked]) (auto simp: defs)
  have 7: "handshake_reachable (?st [] PARKED (Parked, 1) PIdle SIdle)"
    by (rule step [OF 6 scheduler_step.check]) (auto simp: defs)
  have 8: "handshake_reachable (?st [] PARKED (Parked, 1) (PAdmitted 7) SIdle)"
    by (rule step' [OF 7 producer_step.admit [of _ 0 7]]) (auto simp: defs)
  have 9: "handshake_reachable (?st [7] PARKED (Parked, 1) PPushed SIdle)"
    by (rule step' [OF 8 producer_step.push [of _ 0 7]]) (auto simp: defs)
  have "?st [7] PARKED (Parked, 1) PPushed SIdle = parked_run"
    by (auto simp: parked_run_def)
  with 9 show ?thesis by simp
qed

theorem no_lost_wakeup_witness:
  "\<exists>s'. ((\<exists>p. (producer_step p)\<^sup>*\<^sup>* parked_run s') \<or> (\<exists>n. (scheduler_step n)\<^sup>*\<^sup>* parked_run s'))
     \<and> fst (hs_word s') = Queued"
  using no_lost_wakeup [OF parked_run_reachable] by (auto simp: parked_run_def)

text \<open>C34: at most one scheduler owns the actor at any moment of any interleaving, and while one
  does the ownership word says that the actor is executing; so the mailbox has a single
  consumer.\<close>

theorem single_owner:
  assumes "handshake_reachable s" and "owning (hs_scheduler s n)"
  shows "fst (hs_word s) = Executing \<and> (\<forall>m. m \<noteq> n \<longrightarrow> \<not> owning (hs_scheduler s m))"
  using handshake_invariants [OF assms(1)] assms(2) owner_unique [of s n]
  unfolding mutex_inv_def by blast

theorem single_owner_witness:
  "\<exists>s :: handshake. owning (hs_scheduler s 3) \<and> fst (hs_word s) = Executing \<and> \<not> owning (hs_scheduler s 4)"
proof -
  let ?s = "\<lparr> hs_queue = [], hs_wake = ACTIVE, hs_word = (Queued, 0), hs_producer = (\<lambda>_. PIdle),
      hs_scheduler = (\<lambda>_. SIdle) \<rparr>"
  let ?s1 = "set_scheduler 3 SAcquired (?s\<lparr> hs_word := (Executing, next_generation 0) \<rparr>)"
  have r0: "handshake_reachable ?s"
    by (rule handshake_reachable.initial) (simp add: handshake_initial_def)
  have "scheduler_step 3 ?s ?s1" by (rule scheduler_step.acquire) simp_all
  then have r: "handshake_reachable ?s1" by (rule handshake_reachable.scheduler [OF r0])
  have o: "owning (hs_scheduler ?s1 3)" by simp
  have "owning (hs_scheduler ?s1 3) \<and> fst (hs_word ?s1) = Executing
      \<and> \<not> owning (hs_scheduler ?s1 4)"
    using single_owner [OF r o] o by simp
  then show ?thesis by (rule exI [of _ ?s1])
qed

end
