(* ===== verification/Fixed_Scheduler.thy ===== *)
theory Fixed_Scheduler
  imports Process_Data
begin

text \<open>
  Placement and control of actors on a fixed set of scheduler threads: the routes and the
  placement policy of \<open>runtime/vm/scheduler_topology.rs\<close>, and every operation of
  \<open>runtime/vm/fixed_scheduler_control.rs\<close>, the client of the actor directory that the
  scheduler threads share. Each operation holds the directory's lock for its whole
  duration, so the state is the directory; the poisoned-lock errors, which follow a panic
  of another thread inside the lock, are left out. \<open>NonZeroU64\<close> is a word that
  \<open>route_ok\<close> requires to be nonzero.
\<close>

section \<open>Topology\<close>

type_synonym VmSchedulerId = usize

definition VM_MAX_SCHEDULERS :: usize where "VM_MAX_SCHEDULERS = 32"

definition owner_word :: "VmSchedulerId \<Rightarrow> ('e, u64) outcome" where
  "owner_word s = (if s + 1 = 0 then Panic ''scheduler owner identity is nonzero'' else Ok (s + 1))"

record VmFixedActorRoute =
  route_actor_id :: u64
  route_home_scheduler :: VmSchedulerId
  route_scheduler :: VmSchedulerId

definition migrated_to :: "VmFixedActorRoute \<Rightarrow> VmSchedulerId
    \<Rightarrow> (vm_error, VmFixedActorRoute) outcome" where
  "migrated_to route destination =
     (if destination = route_scheduler route then
        Err (Msg ''error[vm.actor_migration.destination]: actor {} already belongs to scheduler {}''
          [ANum (route_actor_id route), ASize destination])
      else Ok \<lparr> route_actor_id = route_actor_id route,
                route_home_scheduler = route_home_scheduler route,
                route_scheduler = destination \<rparr>)"

record VmSchedulerTopology =
  topology_width :: usize

definition topology_new :: "usize \<Rightarrow> (vm_error, VmSchedulerTopology) outcome" where
  "topology_new width =
     (if \<not> (1 \<le> width \<and> width \<le> VM_MAX_SCHEDULERS) then
        Err (Msg ''error[vm.scheduler_width]: expected 1..={VM_MAX_SCHEDULERS}, found {width}''
          [ASize VM_MAX_SCHEDULERS, ASize width])
      else Ok \<lparr> topology_width = width \<rparr>)"

definition home_scheduler :: "VmSchedulerTopology \<Rightarrow> u64 \<Rightarrow> VmSchedulerId" where
  "home_scheduler topology actor_id = (actor_id - 1) mod topology_width topology"

definition topology_route :: "VmSchedulerTopology \<Rightarrow> u64 \<Rightarrow> VmFixedActorRoute" where
  "topology_route topology actor_id =
     \<lparr> route_actor_id = actor_id, route_home_scheduler = home_scheduler topology actor_id,
       route_scheduler = home_scheduler topology actor_id \<rparr>"

section \<open>Control\<close>

type_synonym 'q control = "(VmFixedActorRoute, 'q) VmActorDirectory"

record VmFixedActorLease =
  lease_route :: VmFixedActorRoute
  lease_token :: VmActorMutatorToken

record VmFixedActorMigrationTicket =
  ticket_source :: VmFixedActorRoute
  ticket_destination :: VmFixedActorRoute
  ticket_stamp :: VmActorMigrationStamp
  ticket_source_lifecycle :: VmActorLifecycle

definition control_error :: "string \<Rightarrow> VmActorDirectoryError \<Rightarrow> vm_error" where
  "control_error operation error =
     Msg ''error[vm.fixed_scheduler.{operation}]: {error:?}'' [AStr operation, ADirectory error]"

definition control_st :: "string \<Rightarrow> ('q control, VmActorDirectoryError, 'a) stateful
    \<Rightarrow> ('q control, vm_error, 'a) stateful" where
  "control_st operation = map_err_st (control_error operation)"

definition route_pid :: "VmFixedActorRoute \<Rightarrow> (vm_error, VmProcessId) outcome" where
  "route_pid route =
     (if route_actor_id route = 0 then
        Err (Msg ''error[vm.fixed_scheduler.route]: {error}''
          [AStr ''native continuation owner identity must be nonzero''])
      else Ok (route_actor_id route))"

definition validate_route :: "'q control \<Rightarrow> VmFixedActorRoute \<Rightarrow> (vm_error, unit) outcome" where
  "validate_route directory route = bind_out (route_pid route) (\<lambda>pid.
     case dir_get directory pid of
       Some current \<Rightarrow> if current = route then Ok ()
         else Err (Msg ''error[vm.fixed_scheduler.route]: actor {} route changed''
                [ANum (route_actor_id route)])
     | None \<Rightarrow> Err (Msg ''error[vm.fixed_scheduler.route]: actor {} is not registered''
                [ANum (route_actor_id route)]))"

definition validate_migration_ticket :: "'q control \<Rightarrow> VmFixedActorMigrationTicket
    \<Rightarrow> (vm_error, unit) outcome" where
  "validate_migration_ticket directory ticket =
     (let actor = [ANum (route_actor_id (ticket_source ticket))] in
      if route_home_scheduler (ticket_source ticket)
         \<noteq> route_home_scheduler (ticket_destination ticket) then
        Err (Msg ''error[vm.fixed_scheduler.migration_stale]: actor {} home scheduler changed'' actor)
      else bind_out (route_pid (ticket_source ticket)) (\<lambda>pid.
        if dir_get directory pid \<noteq> Some (ticket_source ticket) then
          Err (Msg ''error[vm.fixed_scheduler.migration_stale]: actor {} source route changed'' actor)
        else bind_out (map_err (\<lambda>_. Msg ''error[vm.fixed_scheduler.migration_stale]: actor {} is no longer migrating'' actor)
               (dir_migration_stamp directory pid)) (\<lambda>observed.
          if stamp_handle observed \<noteq> stamp_handle (ticket_stamp ticket)
             \<or> stamp_owner_generation observed \<noteq> stamp_owner_generation (ticket_stamp ticket) then
            Err (Msg ''error[vm.fixed_scheduler.migration_stale]: actor {} migration generation changed'' actor)
          else Ok ())))"

definition fixed_register :: "('q, 'p VmPublishedFragment) queue_ops \<Rightarrow> VmFixedActorRoute
    \<Rightarrow> ('q control, vm_error, unit) stateful" where
  "fixed_register Q route =
     bind_st (read_st (\<lambda>_. route_pid route)) (\<lambda>pid.
     bind_st (control_st ''register'' (dir_insert Q pid route)) (\<lambda>_.
       control_st ''queue registered actor'' (dir_mark_queued pid)))"

definition fixed_acquire :: "VmFixedActorRoute \<Rightarrow> VmSchedulerId
    \<Rightarrow> ('q control, vm_error, VmFixedActorLease) stateful" where
  "fixed_acquire route scheduler d =
     (if route_scheduler route \<noteq> scheduler then
        (Err (Msg ''error[vm.fixed_scheduler.owner]: actor {} belongs to scheduler {}, not {}''
          [ANum (route_actor_id route), ASize (route_scheduler route), ASize scheduler]), d)
      else
        bind_st (read_st (\<lambda>_. route_pid route)) (\<lambda>pid.
        bind_st (read_st (\<lambda>directory. validate_route directory route)) (\<lambda>_.
        bind_st (read_st (\<lambda>_. owner_word scheduler)) (\<lambda>owner.
        bind_st (control_st ''acquire'' (dir_acquire_mutator pid owner)) (\<lambda>token.
        bind_st (control_st ''activate mailbox'' (dir_activate_mailbox pid)) (\<lambda>_.
          return_st \<lparr> lease_route = route, lease_token = token \<rparr>))))) d)"

definition fixed_publish_identified :: "('q, 'p VmPublishedFragment) queue_ops \<Rightarrow> VmFixedActorRoute
    \<Rightarrow> 'p \<Rightarrow> ('q control, vm_error, VmActorPublication \<times> VmMailboxWake) stateful" where
  "fixed_publish_identified Q route payload =
     bind_st (read_st (\<lambda>directory. validate_route directory route)) (\<lambda>_.
     bind_st (read_st (\<lambda>_. route_pid route)) (\<lambda>pid.
       control_st ''publish'' (dir_publish_fragment Q pid payload)))"

definition fixed_drain_identified :: "('q, 'p VmPublishedFragment) queue_ops \<Rightarrow> VmFixedActorLease
    \<Rightarrow> ('q control, vm_error, (VmActorPublication \<times> 'p) list) stateful" where
  "fixed_drain_identified Q lease =
     bind_st (read_st (\<lambda>directory. validate_route directory (lease_route lease))) (\<lambda>_.
       control_st ''drain'' (dir_drain_payloads Q (lease_token lease)))"

definition fixed_release :: "('q, 'p VmPublishedFragment) queue_ops \<Rightarrow> VmFixedActorLease
    \<Rightarrow> VmActorLifecycle \<Rightarrow> ('q control, vm_error, VmActorLifecycle) stateful" where
  "fixed_release Q lease next_state =
     bind_st (read_st (\<lambda>directory. validate_route directory (lease_route lease))) (\<lambda>_.
       control_st ''release'' (dir_release_mutator Q (lease_token lease) next_state))"

definition fixed_requeue_yielded :: "VmFixedActorRoute \<Rightarrow> ('q control, vm_error, unit) stateful" where
  "fixed_requeue_yielded route =
     bind_st (read_st (\<lambda>directory. validate_route directory route)) (\<lambda>_.
     bind_st (read_st (\<lambda>_. route_pid route)) (\<lambda>pid.
       control_st ''requeue yielded actor'' (dir_mark_queued pid)))"

definition fixed_begin_migration :: "VmFixedActorRoute \<Rightarrow> VmSchedulerId
    \<Rightarrow> ('q control, vm_error, VmFixedActorMigrationTicket) stateful" where
  "fixed_begin_migration source destination =
     bind_st (read_st (\<lambda>_. migrated_to source destination)) (\<lambda>destination.
     bind_st (read_st (\<lambda>_. route_pid source)) (\<lambda>pid.
     bind_st (read_st (\<lambda>directory. validate_route directory source)) (\<lambda>_.
     bind_st (read_st (\<lambda>directory. map_err (control_error ''inspect migration source'')
         (dir_lifecycle directory pid))) (\<lambda>source_lifecycle.
     bind_st (control_st ''begin migration'' (dir_begin_migration pid)) (\<lambda>_.
     bind_st (read_st (\<lambda>directory. map_err (control_error ''stamp migration'')
         (dir_migration_stamp directory pid))) (\<lambda>stamp.
       return_st \<lparr> ticket_source = source, ticket_destination = destination,
         ticket_stamp = stamp, ticket_source_lifecycle = source_lifecycle \<rparr>))))))"

definition fixed_complete_migration :: "VmFixedActorMigrationTicket
    \<Rightarrow> ('q control, vm_error, VmFixedActorRoute) stateful" where
  "fixed_complete_migration ticket =
     bind_st (read_st (\<lambda>_. route_pid (ticket_source ticket))) (\<lambda>pid.
     bind_st (read_st (\<lambda>directory. validate_migration_ticket directory ticket)) (\<lambda>_.
     bind_st (control_st ''finish migration''
         (dir_finish_migration_as pid (ticket_source_lifecycle ticket))) (\<lambda>_ directory.
       case dir_get_mut_unowned directory pid of
         None \<Rightarrow> (Err (Msg ''error[vm.fixed_scheduler.migration]: migrating route disappeared'' []), directory)
       | Some _ \<Rightarrow> (Ok (ticket_destination ticket),
           dir_set_value pid (ticket_destination ticket) directory))))"

definition fixed_abort_migration :: "VmFixedActorMigrationTicket
    \<Rightarrow> ('q control, vm_error, VmFixedActorRoute) stateful" where
  "fixed_abort_migration ticket =
     bind_st (read_st (\<lambda>_. route_pid (ticket_source ticket))) (\<lambda>pid.
     bind_st (read_st (\<lambda>directory. validate_migration_ticket directory ticket)) (\<lambda>_.
     bind_st (control_st ''abort migration''
         (dir_finish_migration_as pid (ticket_source_lifecycle ticket))) (\<lambda>_.
       return_st (ticket_source ticket))))"

definition fixed_reclaim :: "VmFixedActorRoute \<Rightarrow> ('q control, vm_error, unit) stateful" where
  "fixed_reclaim route =
     bind_st (read_st (\<lambda>_. route_pid route)) (\<lambda>pid.
     bind_st (read_st (\<lambda>directory. validate_route directory route)) (\<lambda>_.
     bind_st (control_st ''retire'' (dir_mark_retired pid)) (\<lambda>_.
     bind_st (control_st ''reclaim'' (dir_reclaim pid)) (\<lambda>reclaimed.
       if reclaimed \<noteq> route then
         read_st (\<lambda>_. Err (Msg ''error[vm.fixed_scheduler.route]: reclaimed route changed'' []))
       else return_st ()))))"

definition fixed_discard :: "VmFixedActorRoute \<Rightarrow> ('q control, vm_error, unit) stateful" where
  "fixed_discard route =
     bind_st (read_st (\<lambda>_. route_pid route)) (\<lambda>pid.
     bind_st (read_st (\<lambda>directory. validate_route directory route)) (\<lambda>_.
     bind_st (control_st ''discard exiting'' (dir_mark_exiting pid)) (\<lambda>_.
     bind_st (control_st ''discard retire'' (dir_mark_retired pid)) (\<lambda>_.
     bind_st (control_st ''discard reclaim'' (dir_reclaim pid)) (\<lambda>_. return_st ())))))"

text \<open>The two loops of \<open>shutdown\<close>: the check of every route, then their retirement.\<close>

fun shutdown_preflight :: "'q control \<Rightarrow> VmFixedActorRoute list \<Rightarrow> (vm_error, unit) outcome" where
  "shutdown_preflight directory [] = Ok ()"
| "shutdown_preflight directory (route # routes) =
     bind_out (route_pid route) (\<lambda>pid.
     bind_out (map_err (control_error ''shutdown preflight'') (dir_lifecycle directory pid)) (\<lambda>lifecycle.
       if lifecycle = Executing then
         Err (Msg ''error[vm.fixed_scheduler.shutdown]: actor {} is still executing''
           [ANum (route_actor_id route)])
       else if lifecycle = Reclaimed then
         Err (Msg ''error[vm.fixed_scheduler.shutdown]: actor {} remained indexed after reclaim''
           [ANum (route_actor_id route)])
       else shutdown_preflight directory routes))"

fun shutdown_retire :: "VmFixedActorRoute list \<Rightarrow> ('q control, vm_error, unit) stateful" where
  "shutdown_retire [] = return_st ()"
| "shutdown_retire (route # routes) =
     bind_st (read_st (\<lambda>_. route_pid route)) (\<lambda>pid.
     bind_st (read_st (\<lambda>directory. map_err (control_error ''shutdown lifecycle'')
         (dir_lifecycle directory pid))) (\<lambda>lifecycle.
     bind_st (if lifecycle \<in> {Queued, Yielding, Parked, Migrating}
         then control_st ''shutdown exiting'' (dir_mark_exiting pid) else return_st ()) (\<lambda>_.
     bind_st (if lifecycle \<noteq> Retired
         then control_st ''shutdown retire'' (dir_mark_retired pid) else return_st ()) (\<lambda>_.
     bind_st (control_st ''shutdown reclaim'' (dir_reclaim pid)) (\<lambda>_.
       shutdown_retire routes)))))"

definition fixed_shutdown :: "('q control, vm_error, nat) stateful" where
  "fixed_shutdown d =
     (let routes = dir_values d in
      bind_st (read_st (\<lambda>directory. shutdown_preflight directory routes)) (\<lambda>_.
      bind_st (shutdown_retire routes) (\<lambda>_. return_st (length routes))) d)"

section \<open>Lemmas\<close>

lemmas control_defs = control_st_def map_err_st_def map_err_def bind_st_def read_st_def return_st_def

lemma finish_migration_law:
  assumes r: "resolves contents capacity d pid c s" and s: "st_lifecycle s = Migrating" "st_owner s = 0"
    and l: "l \<in> {Queued, Yielding, Parked}"
  defines "final \<equiv> (if l = Parked \<and> \<not> mailbox_is_notified (cell_mailbox c) then Parked else Queued)"
  shows "dir_finish_migration_as pid l d
    = (Ok final, dir_write (cell_with final (st_owner_generation s) 0 c) d)"
proof -
  note og = resolves_facts(9) [OF r]
  define mid where "mid = (if l = Queued then Yielding else l)"
  let ?c = "cell_with mid (st_owner_generation s) 0 c"
  let ?d = "dir_write ?c d"
  let ?s = "\<lparr> st_lifecycle = mid, st_actor_generation = handle_generation (cell_handle c),
      st_owner_generation = st_owner_generation s, st_owner = 0 \<rparr>"
  have step: "dir_transition_unowned pid [Migrating] mid d = (Ok (), ?d)"
    using transition_unowned_law [OF r] s by simp
  have r1: "resolves contents capacity ?d pid ?c ?s"
    using resolves_with [OF r og, of 0 mid] by simp
  have w: "dir_write (cell_with Queued (st_owner_generation s) 0 c) ?d
      = dir_write (cell_with Queued (st_owner_generation s) 0 c) d"
    by (rule dir_write_write) simp
  have queued: "dir_mark_queued pid ?d = (Ok (), dir_write (cell_with Queued (st_owner_generation s) 0 c) d)"
    if "mid \<in> {Yielding, Parked}"
    using that transition_unowned_law [OF r1, of "[Yielding, Parked]" Queued] w
    by (auto simp: dir_mark_queued_def bind_st_def read_st_def resolves_facts(12) [OF r1])
  have wake: "dir_enqueue_notified_parked pid ?d
      = (Ok True, dir_write (cell_with Queued (st_owner_generation s) 0 c) d)" if "mid = Parked"
    using that enqueue_notified_parked_law [OF r1] w by simp
  show ?thesis
    using l step queued wake resolves_facts(6) [OF r1]
    by (auto simp: dir_finish_migration_as_def mid_def final_def Let_def bind_st_def read_st_def
        return_st_def)
qed

lemma validate_route_find:
  assumes "dir_find d pid = Some c" "route_actor_id route = pid" "pid \<noteq> 0"
  shows "validate_route d route = (if cell_value c = route then Ok ()
    else Err (Msg ''error[vm.fixed_scheduler.route]: actor {} route changed'' [ANum pid]))"
  using assms by (simp add: validate_route_def route_pid_def dir_get_find)

lemma acquire_needs_queued:
  assumes r: "resolves contents capacity d pid c s" and "route_actor_id route = pid" "pid \<noteq> 0"
    and no: "st_lifecycle s \<noteq> Queued \<or> cell_value c \<noteq> route"
  shows "\<exists>e. fixed_acquire route scheduler d = (Err e, d) \<or> (\<exists>m. fixed_acquire route scheduler d = (Panic m, d))"
proof -
  note v = validate_route_find [OF resolves_facts(2) [OF r] assms(2,3)]
  show ?thesis
    using no acquire_mutator_law [OF r] assms(2,3) v
    by (auto simp: fixed_acquire_def control_defs route_pid_def owner_word_def split: if_splits)
qed

text \<open>The invariant of the control plane: every actor is registered under its own identity,
  and only an executing actor has an owner.\<close>

definition fixed_ok :: "('q \<Rightarrow> 'f list) \<Rightarrow> ('q \<Rightarrow> nat) \<Rightarrow> 'q control \<Rightarrow> bool" where
  "fixed_ok contents capacity d \<longleftrightarrow> dir_ok contents capacity d
     \<and> (\<forall>pid c s. dir_find d pid = Some c \<longrightarrow> cell_load c = Ok s \<longrightarrow>
          pid \<noteq> 0 \<and> route_actor_id (cell_value c) = pid \<and> cell_lookup_pins c = 0
        \<and> (st_owner s = 0 \<or> st_lifecycle s = Executing) \<and> st_lifecycle s \<noteq> Reclaimed)"

lemma retire_one:
  assumes r: "resolves contents capacity d pid c s" and s: "st_owner s = 0"
      "st_lifecycle s \<notin> {Executing, Reclaimed}" and pins: "cell_lookup_pins c = 0"
    and route: "route_actor_id route = pid" "pid \<noteq> 0"
  obtains d' where "shutdown_retire (route # routes) d = shutdown_retire routes d'"
    "dir_ok contents capacity d'" "dir_find d' = (dir_find d)(pid := None)"
proof -
  note og = resolves_facts(9) [OF r]
  define c1 where "c1 = (if st_lifecycle s = Retired then c
      else if st_lifecycle s = Exiting then c else cell_with Exiting (st_owner_generation s) 0 c)"
  define d1 where "d1 = (if st_lifecycle s \<in> {Retired, Exiting} then d else dir_write c1 d)"
  define s1 where "s1 = (if st_lifecycle s \<in> {Retired, Exiting} then s
      else \<lparr> st_lifecycle = Exiting, st_actor_generation = handle_generation (cell_handle c),
             st_owner_generation = st_owner_generation s, st_owner = 0 \<rparr>)"
  have life: "st_lifecycle s \<in> {Retired, Exiting} \<or> st_lifecycle s \<in> {Queued, Yielding, Parked, Migrating}"
    using s(2) by (cases "st_lifecycle s") auto
  have r1: "resolves contents capacity d1 pid c1 s1" and h1: "cell_handle c1 = cell_handle c"
      "cell_lookup_pins c1 = 0" "cell_value c1 = cell_value c" "st_owner s1 = 0"
      "st_owner_generation s1 = st_owner_generation s"
      "st_lifecycle s1 = (if st_lifecycle s = Retired then Retired else Exiting)"
    using r resolves_with [OF r og, of 0 Exiting] pins s(1) by (auto simp: d1_def c1_def s1_def)
  have step1: "(if st_lifecycle s \<in> {Queued, Yielding, Parked, Migrating}
        then control_st ''shutdown exiting'' (dir_mark_exiting pid) else return_st ()) d = (Ok (), d1)"
    using life transition_unowned_law [OF r, of "[Queued, Yielding, Parked, Migrating]" Exiting] s(1)
      resolves_facts(12) [OF r]
    by (auto simp: d1_def c1_def control_defs dir_mark_exiting_def)
  define c2 where "c2 = (if st_lifecycle s = Retired then c1 else cell_with Retired (st_owner_generation s) 0 c1)"
  define d2 where "d2 = (if st_lifecycle s = Retired then d1 else dir_write c2 d1)"
  have r2: "\<exists>s2. resolves contents capacity d2 pid c2 s2 \<and> st_lifecycle s2 = Retired"
    using r1 h1 resolves_with [OF r1 resolves_facts(9) [OF r1], of 0 Retired]
    by (auto simp: d2_def c2_def)
  have step2: "(if st_lifecycle s \<noteq> Retired
         then control_st ''shutdown retire'' (dir_mark_retired pid) else return_st ()) d1 = (Ok (), d2)"
    using transition_unowned_law [OF r1, of "[Exiting]" Retired] h1
    by (auto simp: d2_def c2_def control_defs dir_mark_retired_def)
  obtain s2 where r2: "resolves contents capacity d2 pid c2 s2" "st_lifecycle s2 = Retired"
    using r2 by blast
  have h2: "cell_lookup_pins c2 = 0" by (simp add: c2_def h1)
  have step3: "dir_reclaim pid d2 = (Ok (cell_value c2), dir_vacate pid (handle_slot (cell_handle c2)) d2)"
    using reclaim_law [OF r2(1)] r2(2) h2 by simp
  note v = dir_vacate_law [OF resolves_facts(1,2) [OF r2(1)]]
  have find1: "(dir_find d1)(pid := None) = (dir_find d)(pid := None)"
    using dir_write_find(2) [OF resolves_facts(1,2) [OF r], of c1] resolves_facts(4) [OF r] og
    by (auto simp: d1_def c1_def)
  have find2: "(dir_find d2)(pid := None) = (dir_find d1)(pid := None)"
    using dir_write_find(2) [OF resolves_facts(1,2) [OF r1], of c2] resolves_facts(4,9) [OF r1] h1(5)
    by (auto simp: d2_def c2_def)
  have "shutdown_retire (route # routes) d
      = shutdown_retire routes (dir_vacate pid (handle_slot (cell_handle c2)) d2)"
    using route resolves_facts(12) [OF r] step1 step2 step3
    by (simp add: route_pid_def bind_st_def read_st_def control_st_def map_err_st_def map_err_def)
  from that [OF this v(1)] v(2) find1 find2 show ?thesis by simp
qed


section \<open>Properties\<close>

lemma begin_migration_law:
  assumes r: "resolves contents capacity d pid c s"
    and route: "cell_value c = source" "route_actor_id source = pid" "pid \<noteq> 0"
    and idle: "st_owner s = 0" "st_lifecycle s \<in> {Queued, Yielding, Parked}"
    and move: "destination \<noteq> route_scheduler source"
  defines "c1 \<equiv> cell_with Migrating (st_owner_generation s) 0 c"
    and "target \<equiv> source\<lparr> route_scheduler := destination \<rparr>"
  shows "fixed_begin_migration source destination d
     = (Ok \<lparr> ticket_source = source, ticket_destination = target,
             ticket_stamp = \<lparr> stamp_handle = cell_handle c, stamp_owner_generation = st_owner_generation s \<rparr>,
             ticket_source_lifecycle = st_lifecycle s \<rparr>, dir_write c1 d)"
    and "resolves contents capacity (dir_write c1 d) pid c1 \<lparr> st_lifecycle = Migrating,
      st_actor_generation = handle_generation (cell_handle c),
      st_owner_generation = st_owner_generation s, st_owner = 0 \<rparr>"
proof -
  note f = resolves_facts [OF r]
  show r1: "resolves contents capacity (dir_write c1 d) pid c1 \<lparr> st_lifecycle = Migrating,
      st_actor_generation = handle_generation (cell_handle c),
      st_owner_generation = st_owner_generation s, st_owner = 0 \<rparr>"
    unfolding c1_def by (rule resolves_with [OF r f(9)]) simp
  have target: "migrated_to source destination = Ok target"
    using move by (simp add: migrated_to_def target_def)
  have step: "dir_begin_migration pid d = (Ok (), dir_write c1 d)"
    using transition_unowned_law [OF r] idle by (simp add: dir_begin_migration_def c1_def)
  have "dir_migration_stamp (dir_write c1 d) pid
      = Ok \<lparr> stamp_handle = cell_handle c, stamp_owner_generation = st_owner_generation s \<rparr>"
    using resolves_facts(3,6) [OF r1] by (simp add: dir_migration_stamp_def c1_def)
  then show "fixed_begin_migration source destination d
     = (Ok \<lparr> ticket_source = source, ticket_destination = target,
             ticket_stamp = \<lparr> stamp_handle = cell_handle c, stamp_owner_generation = st_owner_generation s \<rparr>,
             ticket_source_lifecycle = st_lifecycle s \<rparr>, dir_write c1 d)"
    using target step f(12) validate_route_find [OF f(2) route(2,3)] route
    by (simp add: fixed_begin_migration_def control_defs route_pid_def)
qed

text \<open>A ticket stays valid exactly while its actor is migrating under the stamped generation.\<close>

lemma validate_ticket_law:
  assumes r: "resolves contents capacity d pid c s"
    and t: "route_actor_id (ticket_source t) = pid" "pid \<noteq> 0"
      "route_home_scheduler (ticket_source t) = route_home_scheduler (ticket_destination t)"
  shows "validate_migration_ticket d t = Ok () \<longleftrightarrow>
      cell_value c = ticket_source t \<and> st_lifecycle s = Migrating \<and> st_owner s = 0
      \<and> ticket_stamp t = \<lparr> stamp_handle = cell_handle c, stamp_owner_generation = st_owner_generation s \<rparr>"
    and "validate_migration_ticket d t \<noteq> Ok () \<Longrightarrow> \<exists>e. validate_migration_ticket d t = Err e"
  using resolves_facts(2,3,6) [OF r] t
  by (auto simp: validate_migration_ticket_def route_pid_def dir_get_find dir_migration_stamp_def
      map_err_def Let_def bind_out_def)

lemma stale_ticket:
  assumes "\<exists>e. validate_migration_ticket d t = Err e" "route_actor_id (ticket_source t) \<noteq> 0"
  shows "\<exists>e. fixed_complete_migration t d = (Err e, d)" "\<exists>e. fixed_abort_migration t d = (Err e, d)"
  using assms by (auto simp: fixed_complete_migration_def fixed_abort_migration_def route_pid_def
      bind_st_def read_st_def)

lemma settle_migration_law:
  assumes r: "resolves contents capacity d pid c s" and l: "st_lifecycle s = Migrating" "st_owner s = 0"
    and t: "route_actor_id (ticket_source t) = pid" "pid \<noteq> 0"
      "route_home_scheduler (ticket_source t) = route_home_scheduler (ticket_destination t)"
      "cell_value c = ticket_source t"
      "ticket_stamp t = \<lparr> stamp_handle = cell_handle c, stamp_owner_generation = st_owner_generation s \<rparr>"
      "ticket_source_lifecycle t \<in> {Queued, Yielding, Parked}"
  defines "final \<equiv> (if ticket_source_lifecycle t = Parked \<and> \<not> mailbox_is_notified (cell_mailbox c)
      then Parked else Queued)"
  defines "c2 \<equiv> cell_with final (st_owner_generation s) 0 c"
    and "s2 \<equiv> \<lparr> st_lifecycle = final, st_actor_generation = handle_generation (cell_handle c),
      st_owner_generation = st_owner_generation s, st_owner = 0 \<rparr>"
  shows "fixed_abort_migration t d = (Ok (ticket_source t), dir_write c2 d)"
    "resolves contents capacity (dir_write c2 d) pid c2 s2"
    "fixed_complete_migration t d = (Ok (ticket_destination t),
       dir_write (c2\<lparr> cell_value := ticket_destination t \<rparr>) d)"
    "resolves contents capacity (dir_write (c2\<lparr> cell_value := ticket_destination t \<rparr>) d) pid
       (c2\<lparr> cell_value := ticket_destination t \<rparr>) s2"
proof -
  note f = resolves_facts [OF r]
  have v: "validate_migration_ticket d t = Ok ()"
    using validate_ticket_law(1) [OF r t(1-3)] l t(4,5) by simp
  have fin: "dir_finish_migration_as pid (ticket_source_lifecycle t) d = (Ok final, dir_write c2 d)"
    unfolding c2_def final_def by (rule finish_migration_law [OF r l t(6)])
  show r2: "resolves contents capacity (dir_write c2 d) pid c2 s2"
    unfolding c2_def s2_def by (rule resolves_with [OF r f(9)]) simp
  show "fixed_abort_migration t d = (Ok (ticket_source t), dir_write c2 d)"
    using t(1,2) v fin by (simp add: fixed_abort_migration_def control_defs route_pid_def)
  let ?c = "c2\<lparr> cell_value := ticket_destination t \<rparr>"
  have h: "cell_handle c2 = cell_handle c" by (simp add: c2_def)
  have set_value: "dir_set_value pid (ticket_destination t) (dir_write c2 d) = dir_write ?c d"
    using resolves_facts(6) [OF r2] dir_write_write [of ?c c2 d] h
    by (simp add: dir_set_value_def dir_write_def)
  have "dir_get_mut_unowned (dir_write c2 d) pid = Some (cell_value c2)"
    using resolves_facts(3,6) [OF r2] by (simp add: dir_get_mut_unowned_def s2_def final_def)
  then show "fixed_complete_migration t d = (Ok (ticket_destination t), dir_write ?c d)"
    using t(1,2) v fin set_value by (simp add: fixed_complete_migration_def control_defs route_pid_def)
  have "resolves contents capacity (dir_write ?c (dir_write c2 d)) pid ?c s2"
    by (rule resolves_write [OF r2]) (use resolves_facts(3,4) [OF r2] in simp_all)
  then show "resolves contents capacity (dir_write ?c d) pid ?c s2"
    using dir_write_write [of ?c c2 d] by simp
qed

text \<open>C36: an actor that is not executing can be moved to another scheduler: while it
  migrates no scheduler acquires it, completion installs the destination route, with the
  home scheduler unchanged, and leaves every other actor as it was; and the ticket is good
  once: completing or aborting a second time is an error without effect.\<close>

theorem migration_moves_route:
  fixes d :: "'q control"
  assumes r: "resolves contents capacity d pid c s"
    and route: "cell_value c = source" "route_actor_id source = pid" "pid \<noteq> 0"
    and idle: "st_owner s = 0" "st_lifecycle s \<in> {Queued, Yielding, Parked}"
    and move: "destination \<noteq> route_scheduler source"
  shows "\<exists>t d1 d2. fixed_begin_migration source destination d = (Ok t, d1)
     \<and> (\<forall>r s. route_actor_id r = pid \<longrightarrow> \<not> is_Ok (fst (fixed_acquire r s d1)) \<and> snd (fixed_acquire r s d1) = d1)
     \<and> fixed_complete_migration t d1 = (Ok (source\<lparr> route_scheduler := destination \<rparr>), d2)
     \<and> dir_get d2 pid = Some (source\<lparr> route_scheduler := destination \<rparr>)
     \<and> (\<exists>l. dir_lifecycle d2 pid = Ok l \<and> l \<in> {Queued, Parked})
     \<and> (\<forall>other. other \<noteq> pid \<longrightarrow> dir_find d2 other = dir_find d other)
     \<and> dir_ok contents capacity d2
     \<and> (\<exists>e. fixed_complete_migration t d2 = (Err e, d2)) \<and> (\<exists>e. fixed_abort_migration t d2 = (Err e, d2))"
proof -
  note b = begin_migration_law [OF r route idle move]
  define c1 where "c1 = cell_with Migrating (st_owner_generation s) 0 c"
  define d1 where "d1 = dir_write c1 d"
  define target where "target = source\<lparr> route_scheduler := destination \<rparr>"
  define t where "t = \<lparr> ticket_source = source, ticket_destination = target,
             ticket_stamp = \<lparr> stamp_handle = cell_handle c, stamp_owner_generation = st_owner_generation s \<rparr>,
             ticket_source_lifecycle = st_lifecycle s \<rparr>"
  note r1 = b(2) [folded c1_def, folded d1_def]
  have start: "fixed_begin_migration source destination d = (Ok t, d1)"
    using b(1) by (simp add: t_def target_def d1_def c1_def)
  have t: "route_actor_id (ticket_source t) = pid" "pid \<noteq> 0"
      "route_home_scheduler (ticket_source t) = route_home_scheduler (ticket_destination t)"
      "cell_value c1 = ticket_source t"
      "ticket_stamp t = \<lparr> stamp_handle = cell_handle c1, stamp_owner_generation = st_owner_generation s \<rparr>"
      "ticket_source_lifecycle t \<in> {Queued, Yielding, Parked}"
    using route idle by (simp_all add: t_def target_def c1_def)
  note settle = settle_migration_law(3,4) [OF r1, simplified, OF t(1-3) t(4,5) t(6) [simplified]]
  obtain c2 s2 where complete: "fixed_complete_migration t d1 = (Ok target, dir_write c2 d1)"
      and r2: "resolves contents capacity (dir_write c2 d1) pid c2 s2"
      and c2: "cell_value c2 = target" "cell_handle c2 = cell_handle c1" "st_lifecycle s2 \<in> {Queued, Parked}"
    using settle by (auto simp: t_def)
  define d2 where "d2 = dir_write c2 d1"
  note r2 = r2 [folded d2_def]
  have no: "\<not> is_Ok (fst (fixed_acquire r s d1)) \<and> snd (fixed_acquire r s d1) = d1"
    if "route_actor_id r = pid" for r s
    using acquire_needs_queued [OF r1 that route(3), of s] by auto
  have "\<exists>e. validate_migration_ticket d2 t = Err e"
    using validate_ticket_law [OF r2 t(1-3)] c2(3) by auto
  note stale = stale_ticket [OF this t(2) [folded t(1)]]
  have others: "dir_find d2 other = dir_find d other" if "other \<noteq> pid" for other
    using that dir_write_find(2) [OF resolves_facts(1,2) [OF r], of c1]
      dir_write_find(2) [OF resolves_facts(1,2) [OF r1] c2(2) resolves_facts(4) [OF r2]]
      resolves_facts(4,9) [OF r]
    by (simp add: d2_def d1_def c1_def)
  from start no complete r2 c2 others stale show ?thesis
    by (intro exI [of _ t] exI [of _ d1] exI [of _ d2])
      (simp add: d2_def [symmetric] target_def dir_get_find resolves_facts(1,2,12) [OF r2])
qed

text \<open>Acquisition as one equation over the resolved cell.\<close>

lemma fixed_acquire_law:
  assumes r: "resolves contents capacity d pid c s" and route: "route_actor_id route = pid" "pid \<noteq> 0"
  shows "is_Ok (fst (fixed_acquire route scheduler d)) \<longleftrightarrow>
      route_scheduler route = scheduler \<and> cell_value c = route \<and> st_lifecycle s = Queued \<and> st_owner s = 0
      \<and> scheduler + 1 \<noteq> 0 \<and> scheduler + 1 \<le> GENERATION_MASK"
proof -
  note v = validate_route_find [OF resolves_facts(2) [OF r] route]
  have activate: "is_Ok (fst (bind_st (control_st m (dir_activate_mailbox pid)) (\<lambda>_. return_st x) d'))"
    if "resolves contents capacity d' pid c' s'" for d' c' s' m and x :: VmFixedActorLease
    using resolves_facts(6) [OF that] by (simp add: dir_activate_mailbox_def control_defs)
  have "is_Ok (fst (bind_st (control_st m (dir_activate_mailbox pid)) (\<lambda>_. return_st x)
      (dir_write (cell_with Executing (next_generation (st_owner_generation s)) (scheduler + 1) c) d)))"
    if "scheduler + 1 \<le> GENERATION_MASK" for m and x :: VmFixedActorLease
    by (rule activate [OF resolves_with [OF r next_generation_le that]])
  then show ?thesis
    using route acquire_mutator_law [OF r, of "scheduler + 1"] v
    by (auto simp: fixed_acquire_def bind_st_def [where m = "read_st f" for f]
        bind_st_def [where m = "control_st ''acquire'' f" for f] control_st_def [of "''acquire''"]
        map_err_st_def map_err_def read_st_def route_pid_def owner_word_def not_le split: if_splits)
qed

lemma home_scheduler_bound:
  assumes "topology_new width = Ok topology"
  shows "topology_width topology = width" "home_scheduler topology actor < width"
    "home_scheduler topology actor + 1 \<noteq> 0" "home_scheduler topology actor + 1 \<le> GENERATION_MASK"
proof -
  have w: "1 \<le> width" "width \<le> 32" "topology_width topology = width"
    using assms by (auto simp: topology_new_def VM_MAX_SCHEDULERS_def split: if_splits)
  then show "topology_width topology = width" by simp
  have "0 < unat width" using w(1) by (simp add: word_le_nat_alt)
  then have "unat (home_scheduler topology actor) < unat width"
    using w(3) by (simp add: home_scheduler_def unat_mod)
  then show less: "home_scheduler topology actor < width" by (simp add: word_less_nat_alt)
  have le: "unat (home_scheduler topology actor) < 32"
    using less w(2) by (simp add: word_less_nat_alt word_le_nat_alt)
  then have plus: "unat (home_scheduler topology actor + 1) = unat (home_scheduler topology actor) + 1"
    by (simp add: unat_word_ariths)
  then show "home_scheduler topology actor + 1 \<noteq> 0" by auto
  show "home_scheduler topology actor + 1 \<le> GENERATION_MASK"
    using le plus by (simp add: word_le_nat_alt GENERATION_MASK_def GENERATION_BITS_def)
qed

lemma register_law:
  assumes Q: "bounded_fifo Q contents capacity" and d: "dir_ok contents capacity d" "dir_has_room d"
    and fresh: "dir_find d (route_actor_id route) = None" and a: "route_actor_id route \<noteq> 0"
  obtains d1 c where "fixed_register Q route d = (Ok (), d1)"
    "resolves contents capacity d1 (route_actor_id route) c \<lparr> st_lifecycle = Queued,
       st_actor_generation = handle_generation (cell_handle c), st_owner_generation = 0, st_owner = 0 \<rparr>"
    "cell_value c = route" "cell_lookup_pins c = 0"
    "dir_find d1 = (dir_find d)(route_actor_id route \<mapsto> c)"
proof -
  let ?pid = "route_actor_id route"
  obtain h d0 where ins: "dir_insert Q ?pid route d = (Ok h, d0)" "dir_ok contents capacity d0"
      "dir_find d0 = (dir_find d)(?pid \<mapsto> cell_new Q h route)"
    by (rule dir_insert_law [OF Q d fresh, where v = route])
  let ?c = "cell_new Q h route"
  have handle: "cell_handle ?c = h" by (simp add: cell_new_def)
  have "handle_generation h \<le> GENERATION_MASK"
    using dir_find_handle_generation [OF ins(2)] ins(3) handle by (metis fun_upd_same)
  then have load: "cell_load ?c = Ok \<lparr> st_lifecycle = Yielding,
      st_actor_generation = handle_generation h, st_owner_generation = 0, st_owner = 0 \<rparr>"
    by (simp add: cell_new_def cell_load_def pack_load)
  have r0: "resolves contents capacity d0 ?pid ?c \<lparr> st_lifecycle = Yielding,
      st_actor_generation = handle_generation h, st_owner_generation = 0, st_owner = 0 \<rparr>"
    using ins load by (simp add: resolves_def)
  let ?c1 = "cell_with Queued 0 0 ?c"
  have "dir_mark_queued ?pid d0 = (Ok (), dir_write ?c1 d0)"
    using transition_unowned_law [OF r0, of "[Yielding, Parked]" Queued]
    by (simp add: dir_mark_queued_def read_st_def bind_st_def resolves_facts(12) [OF r0])
  then have reg: "fixed_register Q route d = (Ok (), dir_write ?c1 d0)"
    using a ins(1) by (simp add: fixed_register_def control_defs route_pid_def)
  have ok: "cell_ok contents capacity ?c1" using resolves_facts(4) [OF r0] by simp
  have find: "dir_find (dir_write ?c1 d0) = (dir_find d)(?pid \<mapsto> ?c1)"
    using dir_write_find(2) [OF resolves_facts(1,2) [OF r0] _ ok] ins(3) by simp
  have r1: "resolves contents capacity (dir_write ?c1 d0) ?pid ?c1 \<lparr> st_lifecycle = Queued,
      st_actor_generation = handle_generation (cell_handle ?c1), st_owner_generation = 0, st_owner = 0 \<rparr>"
    using resolves_with [OF r0, of 0 0 Queued] by simp
  show ?thesis
    by (rule that [OF reg r1 _ _ find]) (simp_all add: cell_new_def)
qed

text \<open>placement: on a machine of 1 to 32 schedulers every actor has a home
  scheduler among them, and a freshly registered actor can be acquired by that scheduler
  and by no other, through its registered route and no other.\<close>

theorem acquired_at_home_only:
  assumes topology: "topology_new width = Ok topology" and Q: "bounded_fifo Q contents capacity"
    and d: "dir_ok contents capacity d" "dir_has_room d" "dir_find d actor = None" and a: "actor \<noteq> 0"
  shows "home_scheduler topology actor < width \<and> width \<le> VM_MAX_SCHEDULERS
     \<and> (\<exists>d1. fixed_register Q (topology_route topology actor) d = (Ok (), d1)
         \<and> (\<forall>route scheduler. route_actor_id route = actor \<longrightarrow>
              (is_Ok (fst (fixed_acquire route scheduler d1)) \<longleftrightarrow>
                 route = topology_route topology actor \<and> scheduler = home_scheduler topology actor)))"
proof -
  let ?route = "topology_route topology actor"
  have id: "route_actor_id ?route = actor" "route_scheduler ?route = home_scheduler topology actor"
    by (simp_all add: topology_route_def)
  obtain d1 c where reg: "fixed_register Q ?route d = (Ok (), d1)"
      and r: "resolves contents capacity d1 actor c \<lparr> st_lifecycle = Queued,
       st_actor_generation = handle_generation (cell_handle c), st_owner_generation = 0, st_owner = 0 \<rparr>"
      and v: "cell_value c = ?route"
    by (rule register_law [OF Q d(1,2), of ?route]) (use d(3) a id in simp_all)
  note home = home_scheduler_bound(2-4) [OF topology, of actor]
  have "is_Ok (fst (fixed_acquire route scheduler d1)) \<longleftrightarrow>
      route = ?route \<and> scheduler = home_scheduler topology actor"
    if "route_actor_id route = actor" for route scheduler
    using fixed_acquire_law [OF r that a, of scheduler] v id(2) home(2,3) by auto
  then show ?thesis
    using reg home(1) topology by (auto simp: topology_new_def split: if_splits)
qed

text \<open>Shutdown: the routes of a well-formed control plane are those of its identities.\<close>

lemma values_of_keys:
  assumes "fixed_ok contents capacity d"
  obtains pids where "dir_values d = map (\<lambda>pid. cell_value (the (dir_find d pid))) pids"
    "distinct pids" "set pids = dom (dir_find d)"
proof -
  have ok: "dir_ok contents capacity d" using assms by (simp add: fixed_ok_def)
  then have bt: "bt_ok (dir_actor_slots d)" by (simp add: dir_ok_def)
  note idx = dir_ok_parts(1) [OF ok]
  have keys: "set (bt_keys (dir_actor_slots d)) = dom (dir_find d)"
    using dir_contains_find [OF idx] by (auto simp: bt_keys_iff dir_contains_def)
  show ?thesis
    by (rule that [of "bt_keys (dir_actor_slots d)"])
      (use keys bt_ok_distinct [OF bt] in \<open>simp_all add: dir_values_def dir_iter_find [OF idx bt] bt_keys_def\<close>)
qed

lemma fixed_ok_entry:
  assumes ok: "fixed_ok contents capacity d" and pid: "pid \<in> dom (dir_find d)"
  obtains c s where "resolves contents capacity d pid c s" "pid \<noteq> 0" "route_actor_id (cell_value c) = pid"
    "cell_lookup_pins c = 0" "st_owner s = 0 \<or> st_lifecycle s = Executing" "st_lifecycle s \<noteq> Reclaimed"
proof -
  obtain c where c: "dir_find d pid = Some c" using pid by blast
  obtain s where r: "resolves contents capacity d pid c s"
    using resolves_obtain [of contents capacity d pid c] ok c by (auto simp: fixed_ok_def)
  with that [OF r] ok show ?thesis
    unfolding fixed_ok_def using resolves_facts(2,3) [OF r] by blast
qed

lemma fixed_ok_remove:
  assumes ok: "fixed_ok contents capacity d" and d': "dir_ok contents capacity d'"
    "dir_find d' = (dir_find d)(pid := None)"
  shows "fixed_ok contents capacity d'"
  using ok d' by (auto simp: fixed_ok_def split: if_splits)

lemma preflight_law:
  assumes ok: "fixed_ok contents capacity d" and pids: "set pids \<subseteq> dom (dir_find d)"
  defines "route \<equiv> \<lambda>pid. cell_value (the (dir_find d pid))"
  shows "if \<exists>pid\<in>set pids. dir_lifecycle d pid = Ok Executing
    then \<exists>e. shutdown_preflight d (map route pids) = Err e
    else shutdown_preflight d (map route pids) = Ok ()"
  using pids
proof (induction pids)
  case (Cons pid pids)
  obtain c s where r: "resolves contents capacity d pid c s" "pid \<noteq> 0" "route_actor_id (cell_value c) = pid"
      "st_lifecycle s \<noteq> Reclaimed"
    by (rule fixed_ok_entry [OF ok, of pid]) (use Cons.prems in auto)
  note f = resolves_facts(2,12) [OF r(1)]
  have "shutdown_preflight d (map route (pid # pids)) = (if st_lifecycle s = Executing then
       Err (Msg ''error[vm.fixed_scheduler.shutdown]: actor {} is still executing'' [ANum pid])
     else shutdown_preflight d (map route pids))"
    using r(2-4) f by (simp add: route_def route_pid_def map_err_def)
  then show ?case using Cons f(2) by auto
qed simp

lemma retire_law:
  assumes "fixed_ok contents capacity d" "distinct pids" "set pids \<subseteq> dom (dir_find d)"
    "\<forall>pid\<in>set pids. dir_lifecycle d pid \<noteq> Ok Executing" "\<forall>pid\<in>set pids. route_actor_id (route pid) = pid"
  shows "\<exists>d'. shutdown_retire (map route pids) d = (Ok (), d') \<and> fixed_ok contents capacity d'
     \<and> dir_find d' = dir_find d |` (- set pids)"
  using assms
proof (induction pids arbitrary: d)
  case Nil
  then show ?case by (simp add: return_st_def)
next
  case (Cons pid pids)
  obtain c s where r: "resolves contents capacity d pid c s" "pid \<noteq> 0" "route_actor_id (cell_value c) = pid"
      "cell_lookup_pins c = 0" "st_owner s = 0 \<or> st_lifecycle s = Executing" "st_lifecycle s \<noteq> Reclaimed"
    by (rule fixed_ok_entry [OF Cons.prems(1), of pid]) (use Cons.prems(3) in auto)
  have idle: "st_owner s = 0" "st_lifecycle s \<notin> {Executing, Reclaimed}"
    using r(5,6) Cons.prems(4) resolves_facts(12) [OF r(1)] by auto
  have id: "route_actor_id (route pid) = pid" using Cons.prems(5) by simp
  obtain d1 where d1: "shutdown_retire (route pid # map route pids) d = shutdown_retire (map route pids) d1"
      "dir_ok contents capacity d1" "dir_find d1 = (dir_find d)(pid := None)"
    by (rule retire_one [OF r(1) idle r(4) id r(2), where routes = "map route pids"])
  note ok1 = fixed_ok_remove [OF Cons.prems(1) d1(2,3)]
  have life: "dir_lifecycle d1 p = dir_lifecycle d p" if "p \<in> set pids" for p
  proof -
    have p: "p \<noteq> pid" "p \<in> dom (dir_find d)" using that Cons.prems(2,3) by auto
    obtain c' s' where r': "resolves contents capacity d p c' s'"
      using fixed_ok_entry [OF Cons.prems(1) p(2)] by metis
    then have "resolves contents capacity d1 p c' s'"
      using d1(2,3) p(1) by (simp add: resolves_def)
    then show ?thesis using resolves_facts(12) [OF r'] resolves_facts(12) by metis
  qed
  obtain d' where d': "shutdown_retire (map route pids) d1 = (Ok (), d')" "fixed_ok contents capacity d'"
      "dir_find d' = dir_find d1 |` (- set pids)"
    using Cons.IH [OF ok1] Cons.prems life d1(3) by fastforce
  have "dir_find d' = dir_find d |` (- set (pid # pids))"
    unfolding d'(3) d1(3) by (auto simp: restrict_map_def fun_eq_iff)
  with d1(1) d'(1,2) show ?case by auto
qed

text \<open>shutdown is all or nothing: with an actor still executing it is an error and the
  control plane is unchanged; otherwise every actor, in whatever state, is retired and
  reclaimed, the count of the actors is returned, and no identity remains registered.\<close>

theorem shutdown_all_or_nothing:
  assumes ok: "fixed_ok contents capacity d"
  shows "if \<exists>pid. dir_lifecycle d pid = Ok Executing then \<exists>e. fixed_shutdown d = (Err e, d)
     else \<exists>d'. fixed_shutdown d = (Ok (card (dom (dir_find d))), d')
            \<and> dir_find d' = Map.empty \<and> fixed_ok contents capacity d'"
proof -
  obtain pids where pids: "dir_values d = map (\<lambda>pid. cell_value (the (dir_find d pid))) pids"
      "distinct pids" "set pids = dom (dir_find d)"
    by (rule values_of_keys [OF ok])
  let ?route = "\<lambda>pid. cell_value (the (dir_find d pid))"
  have dok: "dir_ok contents capacity d" using ok by (simp add: fixed_ok_def)
  have known: "pid \<in> set pids" if "dir_lifecycle d pid = Ok l" for pid l
  proof (rule ccontr)
    assume "pid \<notin> set pids"
    then have "dir_find d pid = None" using pids(3) by auto
    then show False
      using that by (auto simp: dir_lifecycle_def dir_cell_eq [OF dir_ok_parts(1) [OF dok]])
  qed
  note pre = preflight_law [OF ok, of pids]
  have id: "route_actor_id (?route pid) = pid" if "pid \<in> set pids" for pid
    using that pids(3) fixed_ok_entry [OF ok, of pid] resolves_facts(2) by (metis option.sel)
  show ?thesis
  proof (cases "\<exists>pid. dir_lifecycle d pid = Ok Executing")
    case True
    then have "\<exists>pid\<in>set pids. dir_lifecycle d pid = Ok Executing" using known by blast
    then obtain e where "shutdown_preflight d (dir_values d) = Err e"
      using pre pids(1,3) by (auto split: if_splits)
    then have "fixed_shutdown d = (Err e, d)"
      by (simp add: fixed_shutdown_def Let_def read_st_def)
    with True show ?thesis by auto
  next
    case False
    obtain d' where d': "shutdown_retire (map ?route pids) d = (Ok (), d')" "fixed_ok contents capacity d'"
        "dir_find d' = dir_find d |` (- set pids)"
      using retire_law [OF ok pids(2), of ?route] pids(3) False id by auto
    have empty: "dir_find d' = Map.empty"
      unfolding d'(3) pids(3) by (auto simp: restrict_map_def fun_eq_iff)
    have "shutdown_preflight d (map ?route pids) = Ok ()" using pre False pids(3) by auto
    then have "fixed_shutdown d = (Ok (length pids), d')"
      using d'(1) pids(1) by (simp add: fixed_shutdown_def Let_def bind_st_def read_st_def return_st_def)
    then show ?thesis
      using False d'(2) empty distinct_card [OF pids(2)] pids(3) by auto
  qed
qed

section \<open>Concrete runs\<close>

text \<open>Four schedulers and the actor 7, whose home is scheduler 2.\<close>

definition four_schedulers :: VmSchedulerTopology where "four_schedulers = \<lparr> topology_width = 4 \<rparr>"

definition sample_control :: "(bool VmPublishedFragment list \<times> nat) control" where
  "sample_control = snd (fixed_register list_queue (topology_route four_schedulers 7) dir_default)"

lemma four_schedulers: "topology_new 4 = Ok four_schedulers"
  by (simp add: topology_new_def four_schedulers_def VM_MAX_SCHEDULERS_def)

lemma seven_at_two: "topology_route four_schedulers 7
    = \<lparr> route_actor_id = 7, route_home_scheduler = 2, route_scheduler = 2 \<rparr>"
  by (simp add: topology_route_def home_scheduler_def four_schedulers_def)

lemma sample_control_facts:
  obtains c where "resolves fst snd sample_control 7 c \<lparr> st_lifecycle = Queued,
       st_actor_generation = handle_generation (cell_handle c), st_owner_generation = 0, st_owner = 0 \<rparr>"
    "cell_value c = topology_route four_schedulers 7" "cell_lookup_pins c = 0"
    "dir_find sample_control = [7 \<mapsto> c]"
proof -
  let ?Q = "list_queue :: (bool VmPublishedFragment list \<times> nat, bool VmPublishedFragment) queue_ops"
  let ?r = "topology_route four_schedulers 7"
  have id: "route_actor_id ?r = 7" by (simp add: topology_route_def)
  have empty: "dir_find dir_default = Map.empty" by (auto simp: dir_default_ok(2))
  obtain d1 c where "fixed_register ?Q ?r dir_default = (Ok (), d1)"
    "resolves fst snd d1 7 c \<lparr> st_lifecycle = Queued,
       st_actor_generation = handle_generation (cell_handle c), st_owner_generation = 0, st_owner = 0 \<rparr>"
    "cell_value c = ?r" "cell_lookup_pins c = 0" "dir_find d1 = [7 \<mapsto> c]"
    by (rule register_law [OF list_queue_fifo dir_default_ok(1), of ?r])
      (auto simp: id dir_default_ok(2) dir_has_room_def dir_default_def empty [unfolded dir_default_def])
  then show ?thesis
    using that [of c] by (simp add: sample_control_def)
qed

theorem migration_moves_route_witness:
  "\<exists>t d1 d2. fixed_begin_migration (topology_route four_schedulers 7) 3 sample_control = (Ok t, d1)
     \<and> fixed_complete_migration t d1 = (Ok \<lparr> route_actor_id = 7, route_home_scheduler = 2, route_scheduler = 3 \<rparr>, d2)
     \<and> dir_get d2 7 = Some \<lparr> route_actor_id = 7, route_home_scheduler = 2, route_scheduler = 3 \<rparr>"
proof -
  obtain c where "resolves fst snd sample_control 7 c \<lparr> st_lifecycle = Queued,
       st_actor_generation = handle_generation (cell_handle c), st_owner_generation = 0, st_owner = 0 \<rparr>"
      "cell_value c = topology_route four_schedulers 7"
    by (rule sample_control_facts)
  from migration_moves_route [OF this, of 3] show ?thesis by (auto simp: seven_at_two)
qed

theorem acquired_at_home_only_witness:
  "\<exists>d1. fixed_register (list_queue :: (bool VmPublishedFragment list \<times> nat, bool VmPublishedFragment) queue_ops)
       (topology_route four_schedulers 7) dir_default = (Ok (), d1)
     \<and> is_Ok (fst (fixed_acquire (topology_route four_schedulers 7) 2 d1))
     \<and> \<not> is_Ok (fst (fixed_acquire (topology_route four_schedulers 7) 3 d1))"
proof -
  have "dir_has_room (dir_default :: (bool VmPublishedFragment list \<times> nat) control)"
    by (simp add: dir_has_room_def dir_default_def)
  from acquired_at_home_only [OF four_schedulers list_queue_fifo dir_default_ok(1) this dir_default_ok(2), of 7]
  moreover have "home_scheduler four_schedulers 7 = 2"
    by (simp add: home_scheduler_def four_schedulers_def)
  moreover have "route_actor_id (topology_route four_schedulers 7) = 7"
    by (simp add: topology_route_def)
  ultimately show ?thesis by auto
qed

theorem shutdown_all_or_nothing_witness:
  "\<exists>d'. fixed_shutdown sample_control = (Ok 1, d') \<and> dir_find d' = Map.empty"
proof -
  obtain c where c: "resolves fst snd sample_control 7 c \<lparr> st_lifecycle = Queued,
       st_actor_generation = handle_generation (cell_handle c), st_owner_generation = 0, st_owner = 0 \<rparr>"
      "cell_value c = topology_route four_schedulers 7" "cell_lookup_pins c = 0"
      "dir_find sample_control = [7 \<mapsto> c]"
    by (rule sample_control_facts)
  have ok: "fixed_ok fst snd sample_control"
    using c resolves_facts(1,3) [OF c(1)] by (auto simp: fixed_ok_def seven_at_two split: if_splits)
  have "dir_lifecycle sample_control pid \<noteq> Ok Executing" for pid
    using c(4) resolves_facts(12) [OF c(1)] dir_cell_eq [OF dir_ok_parts(1) [OF resolves_facts(1) [OF c(1)]], of pid]
    by (cases "pid = 7") (auto simp: dir_lifecycle_def)
  with shutdown_all_or_nothing [OF ok] c(4) show ?thesis by auto
qed

end
