(* ===== verification/Vm_Reference.thy ===== *)
theory Vm_Reference
  imports Process_Table
begin

text \<open>
  References: the identities that \<open>runtime/vm/reference.rs\<close> allocates for monitors, timers
  and aliases, ordered as the derived order of the source does (node, epoch, local
  identity), and their allocator. The sequence of unique integers, which the source
  compiles for its tests only, is left out.
\<close>

section \<open>Reference identities\<close>

datatype VmReferenceId =
  VmReferenceId (ref_node_id: string) (ref_epoch: u64) (ref_local_id: u64)

definition ref_key :: "VmReferenceId \<Rightarrow> string \<times> u64 \<times> u64" where
  "ref_key r = (ref_node_id r, ref_epoch r, ref_local_id r)"

lemma ref_key_eq [simp]: "ref_key r = ref_key r' \<longleftrightarrow> r = r'"
  by (cases r; cases r') (simp add: ref_key_def)

instantiation VmReferenceId :: linorder
begin

definition less_eq_VmReferenceId :: "VmReferenceId \<Rightarrow> VmReferenceId \<Rightarrow> bool" where
  "less_eq_VmReferenceId r r' \<longleftrightarrow> ref_key r \<le> ref_key r'"

definition less_VmReferenceId :: "VmReferenceId \<Rightarrow> VmReferenceId \<Rightarrow> bool" where
  "less_VmReferenceId r r' \<longleftrightarrow> ref_key r < ref_key r'"

instance
proof
  fix x y z :: VmReferenceId
  show "(x < y) = (x \<le> y \<and> \<not> y \<le> x)"
    unfolding less_eq_VmReferenceId_def less_VmReferenceId_def by (rule less_le_not_le)
  show "x \<le> x" "x \<le> y \<Longrightarrow> y \<le> z \<Longrightarrow> x \<le> z" "x \<le> y \<or> y \<le> x"
    by (auto simp: less_eq_VmReferenceId_def)
  show "x = y" if "x \<le> y" "y \<le> x"
  proof -
    have "ref_key x \<le> ref_key y" "ref_key y \<le> ref_key x"
      using that by (simp_all only: less_eq_VmReferenceId_def)
    then have "ref_key x = ref_key y" by (rule antisym)
    then show ?thesis by simp
  qed
qed

end

section \<open>The allocator\<close>

datatype VmReferenceAllocationError = ReferenceSequenceExhausted

record VmReferenceAllocator =
  alloc_node_id :: string
  alloc_epoch :: u64
  alloc_next_reference_id :: u64
  alloc_reference_limit :: u64

definition reference_with_limits :: "string \<Rightarrow> u64 \<Rightarrow> u64 \<Rightarrow> i64
    \<Rightarrow> (vm_error, VmReferenceAllocator) outcome" where
  "reference_with_limits node_id epoch reference_limit unique_integer_limit =
     (if blank node_id then Err (Msg ''VM reference node id must not be empty'' [])
      else if epoch = 0 then Err (Msg ''VM reference epoch must be non-zero'' [])
      else if sint unique_integer_limit < 0 then
        Err (Msg ''VM unique-integer limit must not be negative'' [])
      else Ok \<lparr> alloc_node_id = node_id, alloc_epoch = epoch, alloc_next_reference_id = 0,
                alloc_reference_limit = reference_limit \<rparr>)"

definition reference_new :: "string \<Rightarrow> u64 \<Rightarrow> (vm_error, VmReferenceAllocator) outcome" where
  "reference_new node_id epoch = reference_with_limits node_id epoch (- 1) (2 ^ 63 - 1)"

definition allocate_reference ::
    "(VmReferenceAllocator, VmReferenceAllocationError, VmReferenceId) stateful" where
  "allocate_reference a = (case checked_add (alloc_next_reference_id a) 1 of
     None \<Rightarrow> (Err ReferenceSequenceExhausted, a)
   | Some local_id \<Rightarrow>
       if alloc_reference_limit a < local_id then (Err ReferenceSequenceExhausted, a)
       else (Ok (VmReferenceId (alloc_node_id a) (alloc_epoch a) local_id),
             a\<lparr> alloc_next_reference_id := local_id \<rparr>))"

text \<open>The \<open>Display\<close> of an allocation error, which the callers turn it into.\<close>

definition allocation_error :: "VmReferenceAllocationError \<Rightarrow> vm_error" where
  "allocation_error error = Msg ''VM reference sequence exhausted'' []"

definition allocate_reference_msg :: "(VmReferenceAllocator, vm_error, VmReferenceId) stateful" where
  "allocate_reference_msg = map_err_st allocation_error allocate_reference"

section \<open>Lemmas\<close>

text \<open>What an allocator has handed out: the references of its node and epoch up to its counter.\<close>

definition allocated :: "VmReferenceAllocator \<Rightarrow> VmReferenceId \<Rightarrow> bool" where
  "allocated a r \<longleftrightarrow> ref_node_id r = alloc_node_id a \<and> ref_epoch r = alloc_epoch a
     \<and> 0 < ref_local_id r \<and> ref_local_id r \<le> alloc_next_reference_id a"

lemma allocate_reference_Ok:
  assumes "allocate_reference a = (Ok r, a')"
  shows "\<not> allocated a r" "allocated a' r'\<longleftrightarrow> allocated a r' \<or> r' = r"
    "alloc_next_reference_id a < alloc_next_reference_id a'" "ref_local_id r = alloc_next_reference_id a'"
    "alloc_next_reference_id a' \<le> alloc_reference_limit a'"
    "alloc_node_id a' = alloc_node_id a" "alloc_epoch a' = alloc_epoch a"
    "alloc_reference_limit a' = alloc_reference_limit a"
proof -
  let ?n = "alloc_next_reference_id a"
  have ok: "checked_add ?n 1 = Some (?n + 1)" "?n + 1 \<le> alloc_reference_limit a"
      "r = VmReferenceId (alloc_node_id a) (alloc_epoch a) (?n + 1)"
      "a' = a\<lparr> alloc_next_reference_id := ?n + 1 \<rparr>"
    using assms by (auto simp: allocate_reference_def checked_add_def split: option.splits if_splits)
  have plus: "unat (?n + 1) = unat ?n + 1" using checked_add_unat [OF ok(1)] by simp
  then show lt: "alloc_next_reference_id a < alloc_next_reference_id a'"
    by (simp add: ok(4) word_less_nat_alt)
  then have step: "i \<le> ?n + 1 \<longleftrightarrow> i \<le> ?n \<or> i = ?n + 1" for i
    using plus by (auto simp: word_le_nat_alt word_unat_eq_iff)
  show "\<not> allocated a r"
    using lt ok(3,4) by (auto simp: allocated_def)
  show "allocated a' r' \<longleftrightarrow> allocated a r' \<or> r' = r"
    using lt step [of "ref_local_id r'"] ok(3,4)
    by (cases r') (auto simp: allocated_def word_gt_0)
qed (use assms in \<open>auto simp: allocate_reference_def split: option.splits if_splits\<close>)

lemma allocate_reference_fails:
  "fst (allocate_reference a) = Err ReferenceSequenceExhausted \<longleftrightarrow>
     alloc_next_reference_id a = - 1 \<or> alloc_reference_limit a \<le> alloc_next_reference_id a"
proof -
  let ?n = "alloc_next_reference_id a"
  have "unat ?n + 1 < 2 ^ 64 \<longleftrightarrow> ?n \<noteq> - 1"
  proof -
    have "unat ?n < 2 ^ LENGTH(64)" by (rule unsigned_less)
    then have "unat ?n < 2 ^ 64" by simp
    then have "unat ?n + 1 < 2 ^ 64 \<longleftrightarrow> unat ?n \<noteq> 2 ^ 64 - 1" by linarith
    then show ?thesis using unat_max_word [where 'a = 64] by (simp add: word_unat_eq_iff)
  qed
  moreover have "?n \<noteq> - 1 \<Longrightarrow> unat (?n + 1) = unat ?n + 1"
    using calculation by (simp add: unat_word_ariths)
  ultimately show ?thesis
    by (auto simp: allocate_reference_def checked_add_def word_less_nat_alt word_le_nat_alt)
qed

section \<open>Properties\<close>

text \<open>A run of allocations: the references handed out, in order, and the errors skipped.\<close>

fun allocate_many :: "nat \<Rightarrow> VmReferenceAllocator \<Rightarrow> VmReferenceId list \<times> VmReferenceAllocator" where
  "allocate_many 0 a = ([], a)"
| "allocate_many (Suc n) a = (case allocate_reference a of
     (Ok r, a') \<Rightarrow> (case allocate_many n a' of (rs, a'') \<Rightarrow> (r # rs, a''))
   | (_, a') \<Rightarrow> allocate_many n a')"

lemma allocate_many_law:
  assumes "allocate_many n a = (rs, a')"
  shows "\<forall>r\<in>set rs. \<not> allocated a r \<and> allocated a' r"
    "\<forall>r. allocated a r \<longrightarrow> allocated a' r" "distinct rs \<and> sorted_wrt (<) rs"
    "alloc_next_reference_id a \<le> alloc_next_reference_id a'"
proof -
  have "(\<forall>r\<in>set rs. \<not> allocated a r \<and> allocated a' r) \<and> (\<forall>r. allocated a r \<longrightarrow> allocated a' r)
      \<and> distinct rs \<and> sorted_wrt (<) rs \<and> alloc_next_reference_id a \<le> alloc_next_reference_id a'
      \<and> (\<forall>r\<in>set rs. ref_node_id r = alloc_node_id a \<and> ref_epoch r = alloc_epoch a
           \<and> alloc_next_reference_id a < ref_local_id r)"
    using assms
  proof (induction n arbitrary: a rs)
    case (Suc n)
    show ?case
    proof (cases "fst (allocate_reference a)")
      case (Ok r)
      obtain a1 rs1 where step: "allocate_reference a = (Ok r, a1)" "allocate_many n a1 = (rs1, a')"
          "rs = r # rs1"
        using Ok Suc.prems by (cases "allocate_reference a") (auto split: prod.splits)
      note f = allocate_reference_Ok [OF step(1)]
      note IH = Suc.IH [OF step(2)]
      have own: "ref_node_id r = alloc_node_id a" "ref_epoch r = alloc_epoch a"
          "alloc_next_reference_id a < ref_local_id r"
        using f(2) [of r] f(3,4,6,7) by (simp_all add: allocated_def)
      have "r < r'" if "r' \<in> set rs1" for r'
      proof -
        have "ref_node_id r' = alloc_node_id a1" "ref_epoch r' = alloc_epoch a1"
            "alloc_next_reference_id a1 < ref_local_id r'"
          using IH that by blast+
        then show ?thesis
          using own f(4,6,7) by (simp add: less_VmReferenceId_def ref_key_def)
      qed
      then have "r \<notin> set rs1" "\<forall>r'\<in>set rs1. r < r'" by auto
      moreover have "allocated a' r" using IH f(2) by blast
      moreover have "\<forall>r'. allocated a r' \<longrightarrow> allocated a' r'" using IH f(2) by blast
      moreover have "\<forall>r'\<in>set rs1. \<not> allocated a r'" using IH f(2) by blast
      moreover have "alloc_next_reference_id a \<le> alloc_next_reference_id a'"
        using IH less_imp_le [OF f(3)] by (blast intro: order_trans)
      moreover have "ref_node_id r = alloc_node_id a \<and> ref_epoch r = alloc_epoch a
          \<and> alloc_next_reference_id a < ref_local_id r"
        using own by simp
      moreover have "\<forall>r'\<in>set rs1. ref_node_id r' = alloc_node_id a \<and> ref_epoch r' = alloc_epoch a
          \<and> alloc_next_reference_id a < ref_local_id r'"
        using IH f(3,6,7) by fastforce
      ultimately show ?thesis
        unfolding step(3) using IH f(1) by simp
    next
      case (Err e)
      then have "snd (allocate_reference a) = a"
        by (auto simp: allocate_reference_def split: option.splits if_splits)
      then show ?thesis using Suc Err by (cases "allocate_reference a") simp
    next
      case (Panic m)
      then show ?thesis by (auto simp: allocate_reference_def split: option.splits if_splits)
    qed
  qed simp
  then show "\<forall>r\<in>set rs. \<not> allocated a r \<and> allocated a' r"
    "\<forall>r. allocated a r \<longrightarrow> allocated a' r" "distinct rs \<and> sorted_wrt (<) rs"
    "alloc_next_reference_id a \<le> alloc_next_reference_id a'" by blast+
qed

text \<open>the references of one allocator are never repeated: a run of allocations returns
  strictly increasing references, none of them handed out before, and an allocation
  fails exactly when the epoch's ceiling is reached, without effect.\<close>

theorem references_unique:
  assumes "allocate_many n a = (rs, a')"
  shows "sorted_wrt (<) rs \<and> distinct rs \<and> (\<forall>r\<in>set rs. \<not> allocated a r \<and> allocated a' r)
    \<and> (fst (allocate_reference a') = Err ReferenceSequenceExhausted \<longleftrightarrow>
         alloc_next_reference_id a' = - 1 \<or> alloc_reference_limit a' \<le> alloc_next_reference_id a')
    \<and> (\<forall>e. fst (allocate_reference a') = Err e \<longrightarrow> snd (allocate_reference a') = a')"
  using allocate_many_law [OF assms] allocate_reference_fails [of a']
  by (auto simp: allocate_reference_def split: option.splits)

definition sample_allocator :: VmReferenceAllocator where
  "sample_allocator = \<lparr> alloc_node_id = ''node'', alloc_epoch = 1, alloc_next_reference_id = 0,
     alloc_reference_limit = 2 \<rparr>"

theorem references_unique_witness:
  "\<exists>a'. allocate_many 3 sample_allocator = ([VmReferenceId ''node'' 1 1, VmReferenceId ''node'' 1 2], a')
     \<and> fst (allocate_reference a') = Err ReferenceSequenceExhausted
     \<and> reference_with_limits ''node'' 1 2 0 = Ok sample_allocator"
proof -
  let ?a = "sample_allocator\<lparr> alloc_next_reference_id := 2 \<rparr>"
  have run: "allocate_many 3 sample_allocator
      = ([VmReferenceId ''node'' 1 1, VmReferenceId ''node'' 1 2], ?a)"
    by (simp add: numeral_3_eq_3 allocate_reference_def sample_allocator_def checked_add_def)
  have "reference_with_limits ''node'' 1 2 0 = Ok sample_allocator"
    by (simp add: reference_with_limits_def sample_allocator_def) code_simp
  with references_unique [OF run] run show ?thesis by (auto simp: sample_allocator_def)
qed

end
