(* ===== verification/Failure_Runtime.thy ===== *)
theory Failure_Runtime
  imports Vm_Reference Process_Laws
begin

text \<open>
  Links, monitors and trapped exits: \<open>VmFailureRuntime\<close> of \<open>runtime/vm/failure.rs\<close> over the
  process table. The state of an operation that takes both is a pair. The exit cascade
  recurses through the links; its recursion is bounded by fuel, one more than the number
  of live processes, which the lemmas below show to be enough.
\<close>

section \<open>Data\<close>

type_synonym VmMonitorRef = VmReferenceId

record VmFailureReport =
  report_exited :: "VmProcessId list"
  report_cleanup_handles :: "string list"
  report_exit_signals :: nat
  report_down_messages :: nat
  report_recipients :: "VmProcessId list"

definition report_default :: VmFailureReport where
  "report_default = \<lparr> report_exited = [], report_cleanup_handles = [], report_exit_signals = 0,
     report_down_messages = 0, report_recipients = [] \<rparr>"

record VmFailureMonitorSnapshot =
  snapshot_monitor_ref :: VmMonitorRef
  snapshot_peer :: VmProcessId

record VmMonitorRegistration =
  registration_monitor_ref :: VmMonitorRef
  registration_completed :: bool

record VmFailureProcessSnapshot =
  failure_pid :: VmProcessId
  failure_trap_exits :: bool
  failure_links :: "VmProcessId list"
  failure_monitoring :: "VmFailureMonitorSnapshot list"
  failure_monitored_by :: "VmFailureMonitorSnapshot list"

record VmTrapExitUpdate =
  trap_previous :: bool
  trap_current :: bool

record VmFailureRuntime =
  fr_links :: "(VmProcessId \<times> VmProcessId) bset"
  fr_priority_links :: "(VmProcessId \<times> VmProcessId) bset"
  fr_monitors :: "(VmMonitorRef, VmProcessId \<times> VmProcessId \<times> bool) btree"
  fr_trap_exits :: "VmProcessId bset"

definition failure_default :: VmFailureRuntime where
  "failure_default = \<lparr> fr_links = [], fr_priority_links = [], fr_monitors = [], fr_trap_exits = [] \<rparr>"

type_synonym 'q failing = "VmFailureRuntime \<times> 'q VmProcessTable"

section \<open>Values\<close>

fun reason_value :: "VmExitReason \<Rightarrow> ReplValue" where
  "reason_value Normal = VAtom ''normal''"
| "reason_value Killed = VAtom ''killed''"
| "reason_value (Error message) = VTuple [VAtom ''error'', VString message]"
| "reason_value (TypedError _ value) = VTuple [VAtom ''error'', value]"
| "reason_value (ShutdownTimeout timeout_ms) =
     VTuple [VAtom ''shutdown_timeout'', VInt (i64_or_max timeout_ms)]"
| "reason_value (MemoryLimitExceeded requested previous projected) =
     VTuple [VAtom ''memory_limit_exceeded'', VInt (i64_or_max requested),
       VInt (i64_or_max previous), VInt (i64_or_max projected)]"

definition exit_signal_message :: "VmProcessId \<Rightarrow> VmExitReason \<Rightarrow> ReplValue" where
  "exit_signal_message from_pid reason = VTuple [VAtom ''exit'', VInt from_pid, reason_value reason]"

definition down_message :: "VmMonitorRef \<Rightarrow> VmProcessId \<Rightarrow> ReplValue \<Rightarrow> ReplValue" where
  "down_message monitor_ref target reason =
     VTuple [VAtom ''down'', VInt (ref_local_id monitor_ref), VInt target, reason]"

definition is_monitor_down_message :: "ReplValue \<Rightarrow> VmMonitorRef \<Rightarrow> bool" where
  "is_monitor_down_message payload monitor_ref = (case payload of
     VTuple [VAtom kind, VInt reference, VInt _, _] \<Rightarrow>
       kind = ''down'' \<and> reference = ref_local_id monitor_ref
   | _ \<Rightarrow> False)"

section \<open>Links\<close>

definition canonical_link :: "VmProcessId \<Rightarrow> VmProcessId \<Rightarrow> VmProcessId \<times> VmProcessId" where
  "canonical_link left right = (if left \<le> right then (left, right) else (right, left))"

definition failure_ensure_live :: "'q VmProcessTable \<Rightarrow> VmProcessId \<Rightarrow> string
    \<Rightarrow> (vm_error, unit) outcome" where
  "failure_ensure_live processes pid action = (case pt_get processes pid of
     None \<Rightarrow> Err (Msg ''cannot {action} missing process {}'' [AStr action, ANum pid])
   | Some process \<Rightarrow> if is_exited (proc_state process)
       then Err (Msg ''cannot {action} exited process {}'' [AStr action, ANum pid]) else Ok ())"

definition link_with_priority :: "'q VmProcessTable \<Rightarrow> VmProcessId \<Rightarrow> VmProcessId \<Rightarrow> bool
    \<Rightarrow> (VmFailureRuntime, vm_error, unit) stateful" where
  "link_with_priority processes left right priority f =
     (if left = right then (Err (Msg ''cannot link process {} to itself'' [ANum left]), f)
      else bind_st (read_st (\<lambda>_. failure_ensure_live processes left ''link'')) (\<lambda>_.
           bind_st (read_st (\<lambda>_. failure_ensure_live processes right ''link'')) (\<lambda>_ f.
             (Ok (), f\<lparr> fr_links := bs_insert (canonical_link left right) (fr_links f),
                 fr_priority_links := (if priority then bs_insert (left, right) (fr_priority_links f)
                   else bs_remove (left, right) (fr_priority_links f)) \<rparr>))) f)"

definition failure_link :: "'q VmProcessTable \<Rightarrow> VmProcessId \<Rightarrow> VmProcessId
    \<Rightarrow> (VmFailureRuntime, vm_error, unit) stateful" where
  "failure_link processes left right = link_with_priority processes left right False"

definition failure_unlink :: "VmProcessId \<Rightarrow> VmProcessId \<Rightarrow> VmFailureRuntime \<Rightarrow> VmFailureRuntime" where
  "failure_unlink left right f =
     f\<lparr> fr_links := bs_remove (canonical_link left right) (fr_links f),
        fr_priority_links := bs_remove (right, left) (bs_remove (left, right) (fr_priority_links f)) \<rparr>"

definition is_linked :: "VmFailureRuntime \<Rightarrow> VmProcessId \<Rightarrow> VmProcessId \<Rightarrow> bool" where
  "is_linked f left right = bs_contains (fr_links f) (canonical_link left right)"

definition has_priority_relationship :: "VmFailureRuntime \<Rightarrow> VmProcessId \<Rightarrow> bool" where
  "has_priority_relationship f pid \<longleftrightarrow>
     list_ex (\<lambda>(receiver, _). receiver = pid) (fr_priority_links f)
   \<or> list_ex (\<lambda>(watcher, _, priority). watcher = pid \<and> priority) (bt_values (fr_monitors f))"

section \<open>Trapped exits\<close>

definition ensure_trap_exit_process :: "'q VmProcessTable \<Rightarrow> VmProcessId
    \<Rightarrow> (VmProcessRegistryError, unit) outcome" where
  "ensure_trap_exit_process = ensure_live_process"

definition set_trap_exits :: "'q VmProcessTable \<Rightarrow> VmProcessId \<Rightarrow> bool
    \<Rightarrow> (VmFailureRuntime, VmProcessRegistryError, VmTrapExitUpdate) stateful" where
  "set_trap_exits processes pid enabled =
     bind_st (read_st (\<lambda>_. ensure_trap_exit_process processes pid)) (\<lambda>_ f.
       (Ok \<lparr> trap_previous = bs_contains (fr_trap_exits f) pid, trap_current = enabled \<rparr>,
        f\<lparr> fr_trap_exits := (if enabled then bs_insert pid (fr_trap_exits f)
             else bs_remove pid (fr_trap_exits f)) \<rparr>))"

definition get_trap_exits :: "'q VmProcessTable \<Rightarrow> VmFailureRuntime \<Rightarrow> VmProcessId
    \<Rightarrow> (VmProcessRegistryError, bool) outcome" where
  "get_trap_exits processes f pid =
     bind_out (ensure_trap_exit_process processes pid) (\<lambda>_. Ok (bs_contains (fr_trap_exits f) pid))"

section \<open>Monitors\<close>

definition failure_is_live :: "'q VmProcessTable \<Rightarrow> VmProcessId \<Rightarrow> bool" where
  "failure_is_live processes pid = (case pt_get processes pid of
     None \<Rightarrow> False | Some process \<Rightarrow> \<not> is_exited (proc_state process))"

definition send_system_lane :: "'q queue_of \<Rightarrow> bool \<Rightarrow> VmProcessId \<Rightarrow> VmProcessId \<Rightarrow> ReplValue
    \<Rightarrow> ('q VmProcessTable, vm_error, u64) stateful" where
  "send_system_lane Q priority =
     (if priority then send_priority_system_message Q else send_system_message Q)"

definition send_down_payload :: "'q queue_of \<Rightarrow> VmProcessId \<Rightarrow> VmProcessId \<Rightarrow> VmMonitorRef
    \<Rightarrow> ReplValue \<Rightarrow> bool \<Rightarrow> ('q VmProcessTable, vm_error, bool) stateful" where
  "send_down_payload Q target watcher monitor_ref reason priority processes =
     (if \<not> failure_is_live processes watcher then (Ok False, processes)
      else case send_system_lane Q priority target watcher (down_message monitor_ref target reason)
             processes of
          (Ok _, processes) \<Rightarrow> (Ok True, processes)
        | (Err _, processes) \<Rightarrow> (Ok False, processes)
        | (Panic message, processes) \<Rightarrow> (Panic message, processes))"

definition send_down_message :: "'q queue_of \<Rightarrow> VmProcessId \<Rightarrow> VmProcessId \<Rightarrow> VmMonitorRef
    \<Rightarrow> VmExitReason \<Rightarrow> bool \<Rightarrow> ('q VmProcessTable, vm_error, bool) stateful" where
  "send_down_message Q target watcher monitor_ref reason priority =
     send_down_payload Q target watcher monitor_ref (reason_value reason) priority"

text \<open>The monitors, with the allocator of their references.\<close>

definition monitor_with_priority :: "'q VmProcessTable \<Rightarrow> VmProcessId \<Rightarrow> VmProcessId \<Rightarrow> bool
    \<Rightarrow> (VmFailureRuntime \<times> VmReferenceAllocator, vm_error, VmMonitorRef) stateful" where
  "monitor_with_priority processes watcher target priority =
     bind_st (read_st (\<lambda>_. failure_ensure_live processes watcher ''monitor from'')) (\<lambda>_.
     bind_st (read_st (\<lambda>_. failure_ensure_live processes target ''monitor'')) (\<lambda>_ (f, references).
       case allocate_reference_msg references of
         (Ok monitor_ref, references) \<Rightarrow> (Ok monitor_ref,
            (f\<lparr> fr_monitors := bt_insert monitor_ref (watcher, target, priority) (fr_monitors f) \<rparr>,
             references))
       | (Err e, references) \<Rightarrow> (Err e, (f, references))
       | (Panic m, references) \<Rightarrow> (Panic m, (f, references))))"

definition failure_monitor :: "'q VmProcessTable \<Rightarrow> VmProcessId \<Rightarrow> VmProcessId
    \<Rightarrow> (VmFailureRuntime \<times> VmReferenceAllocator, vm_error, VmMonitorRef) stateful" where
  "failure_monitor processes watcher target = monitor_with_priority processes watcher target False"

definition monitor_or_complete_with_priority :: "'q queue_of \<Rightarrow> VmProcessId \<Rightarrow> VmProcessId \<Rightarrow> bool
    \<Rightarrow> (VmFailureRuntime \<times> VmReferenceAllocator \<times> 'q VmProcessTable, vm_error, VmMonitorRegistration) stateful"
  where
  "monitor_or_complete_with_priority Q watcher target priority =
     bind_st (read_st (\<lambda>(_, _, processes). failure_ensure_live processes watcher ''monitor from'')) (\<lambda>_.
     bind_st (read_st (\<lambda>(_, _, processes).
         ok_or (Msg ''cannot monitor missing process {}'' [ANum target]) (pt_get processes target)))
       (\<lambda>target_process (f, references, processes).
       case allocate_reference_msg references of
         (Ok monitor_ref, references) \<Rightarrow>
           if is_exited (proc_state target_process) then
             (case send_down_payload Q target watcher monitor_ref (VAtom ''noproc'') priority processes of
                (Ok delivered, processes) \<Rightarrow>
                  (Ok \<lparr> registration_monitor_ref = monitor_ref, registration_completed = True \<rparr>,
                   (f, references, processes))
              | (Err e, processes) \<Rightarrow> (Err e, (f, references, processes))
              | (Panic m, processes) \<Rightarrow> (Panic m, (f, references, processes)))
           else (Ok \<lparr> registration_monitor_ref = monitor_ref, registration_completed = False \<rparr>,
             (f\<lparr> fr_monitors := bt_insert monitor_ref (watcher, target, priority) (fr_monitors f) \<rparr>,
              references, processes))
       | (Err e, references) \<Rightarrow> (Err e, (f, references, processes))
       | (Panic m, references) \<Rightarrow> (Panic m, (f, references, processes))))"

definition failure_demonitor :: "VmMonitorRef \<Rightarrow> VmFailureRuntime \<Rightarrow> bool \<times> VmFailureRuntime" where
  "failure_demonitor monitor_ref f = (bt_contains (fr_monitors f) monitor_ref,
     f\<lparr> fr_monitors := bt_remove monitor_ref (fr_monitors f) \<rparr>)"

definition monitor_owner_error :: "u64 \<Rightarrow> VmProcessId \<Rightarrow> VmProcessId \<Rightarrow> vm_error" where
  "monitor_owner_error monitor_id owner watcher =
     Msg ''monitor reference {} belongs to process {}, not process {}''
       [ANum monitor_id, ANum owner, ANum watcher]"

definition demonitor_for :: "VmProcessId \<Rightarrow> VmMonitorRef
    \<Rightarrow> (VmFailureRuntime, vm_error, bool) stateful" where
  "demonitor_for watcher monitor_ref f = (case bt_get (fr_monitors f) monitor_ref of
     None \<Rightarrow> (Ok False, f)
   | Some (owner, _, _) \<Rightarrow>
       if owner \<noteq> watcher then (Err (monitor_owner_error (ref_local_id monitor_ref) owner watcher), f)
       else (case failure_demonitor monitor_ref f of (removed, f) \<Rightarrow> (Ok removed, f)))"

definition demonitor_for_id :: "VmProcessId \<Rightarrow> u64
    \<Rightarrow> (VmFailureRuntime, vm_error, bool) stateful" where
  "demonitor_for_id watcher monitor_id f =
     (case find (\<lambda>monitor_ref. ref_local_id monitor_ref = monitor_id) (bt_keys (fr_monitors f)) of
        None \<Rightarrow> (Ok False, f)
      | Some monitor_ref \<Rightarrow> (case bt_get (fr_monitors f) monitor_ref of
          None \<Rightarrow> (Ok False, f)
        | Some (owner, _, _) \<Rightarrow>
            if owner \<noteq> watcher then (Err (monitor_owner_error monitor_id owner watcher), f)
            else (case failure_demonitor monitor_ref f of (removed, f) \<Rightarrow> (Ok removed, f))))"

section \<open>Inspection\<close>

definition empty_failure_snapshot :: "VmProcessId \<Rightarrow> VmFailureProcessSnapshot" where
  "empty_failure_snapshot pid = \<lparr> failure_pid = pid, failure_trap_exits = False, failure_links = [],
     failure_monitoring = [], failure_monitored_by = [] \<rparr>"

definition failure_snapshot :: "VmFailureRuntime \<Rightarrow> 'q VmProcessTable \<Rightarrow> VmProcessId
    \<Rightarrow> (VmProcessRegistryError, VmFailureProcessSnapshot) outcome" where
  "failure_snapshot f processes pid = bind_out (process_snapshot processes pid) (\<lambda>process.
     if is_exited (snap_state process) then Ok (empty_failure_snapshot pid)
     else Ok \<lparr> failure_pid = pid, failure_trap_exits = bs_contains (fr_trap_exits f) pid,
        failure_links = sort (List.map_filter (\<lambda>(left, right).
          if left = pid \<and> failure_is_live processes right then Some right
          else if right = pid \<and> failure_is_live processes left then Some left
          else None) (fr_links f)),
        failure_monitoring = List.map_filter (\<lambda>(monitor_ref, watcher, target, _).
          if watcher = pid \<and> failure_is_live processes target
          then Some \<lparr> snapshot_monitor_ref = monitor_ref, snapshot_peer = target \<rparr> else None)
          (fr_monitors f),
        failure_monitored_by = List.map_filter (\<lambda>(monitor_ref, watcher, target, _).
          if target = pid \<and> failure_is_live processes watcher
          then Some \<lparr> snapshot_monitor_ref = monitor_ref, snapshot_peer = watcher \<rparr> else None)
          (fr_monitors f) \<rparr>)"

section \<open>The exit cascade\<close>

definition take_links :: "VmProcessId \<Rightarrow> VmFailureRuntime
    \<Rightarrow> (VmProcessId \<times> bool) list \<times> VmFailureRuntime" where
  "take_links pid f =
     (List.map_filter (\<lambda>(left, right).
        if left = pid then Some (right, bs_contains (fr_priority_links f) (right, left))
        else if right = pid then Some (left, bs_contains (fr_priority_links f) (left, right))
        else None) (fr_links f),
      f\<lparr> fr_links := filter (\<lambda>(left, right). left \<noteq> pid \<and> right \<noteq> pid) (fr_links f),
         fr_priority_links := filter (\<lambda>(left, right). left \<noteq> pid \<and> right \<noteq> pid) (fr_priority_links f) \<rparr>)"

definition take_target_monitors :: "VmProcessId \<Rightarrow> VmFailureRuntime
    \<Rightarrow> (VmMonitorRef \<times> VmProcessId \<times> bool) list \<times> VmFailureRuntime" where
  "take_target_monitors pid f =
     (let matching = List.map_filter (\<lambda>(monitor_ref, watcher, target, priority).
            if target = pid then Some (monitor_ref, watcher, priority) else None) (fr_monitors f)
      in (matching, f\<lparr> fr_monitors := bt_remove_all (map fst matching) (fr_monitors f) \<rparr>))"

definition remove_watcher_monitors :: "VmProcessId \<Rightarrow> VmFailureRuntime \<Rightarrow> VmFailureRuntime" where
  "remove_watcher_monitors pid f =
     f\<lparr> fr_monitors := bt_retain (\<lambda>_ (watcher, _, _). watcher \<noteq> pid) (fr_monitors f) \<rparr>"

text \<open>The loop over the monitors of an exited process.\<close>

fun notify_monitors :: "'q queue_of \<Rightarrow> VmProcessId \<Rightarrow> VmExitReason
    \<Rightarrow> (VmMonitorRef \<times> VmProcessId \<times> bool) list \<Rightarrow> VmFailureReport
    \<Rightarrow> ('q failing, vm_error, VmFailureReport) stateful" where
  "notify_monitors Q pid reason [] report = return_st report"
| "notify_monitors Q pid reason ((monitor_ref, watcher, priority) # rest) report =
     bind_st (\<lambda>(f, processes). case send_down_message Q pid watcher monitor_ref reason priority processes of
         (r, processes) \<Rightarrow> (r, (f, processes)))
       (\<lambda>delivered. notify_monitors Q pid reason rest (if delivered
          then report\<lparr> report_down_messages := report_down_messages report + 1,
                 report_recipients := report_recipients report @ [watcher] \<rparr>
          else report))"

definition merge_reports :: "VmFailureReport \<Rightarrow> VmFailureReport \<Rightarrow> VmFailureReport" where
  "merge_reports report child =
     \<lparr> report_exited = report_exited report @ report_exited child,
       report_cleanup_handles = report_cleanup_handles report @ report_cleanup_handles child,
       report_exit_signals = report_exit_signals report + report_exit_signals child,
       report_down_messages = report_down_messages report + report_down_messages child,
       report_recipients = report_recipients report @ report_recipients child \<rparr>"

text \<open>The loop over the links of an exited process; \<open>exit_linked\<close> is the recursive call.\<close>

fun notify_links :: "(VmProcessId \<Rightarrow> VmExitReason \<Rightarrow> ('q failing, vm_error, VmFailureReport) stateful)
    \<Rightarrow> 'q queue_of \<Rightarrow> VmProcessId \<Rightarrow> VmExitReason \<Rightarrow> (VmProcessId \<times> bool) list
    \<Rightarrow> VmFailureReport \<Rightarrow> ('q failing, vm_error, VmFailureReport) stateful" where
  "notify_links exit_linked Q pid reason [] report state = (Ok report, state)"
| "notify_links exit_linked Q pid reason ((linked, priority) # rest) report (f, processes) =
     (if \<not> failure_is_live processes linked then
        notify_links exit_linked Q pid reason rest report (f, processes)
      else if bs_contains (fr_trap_exits f) linked then
        bind_st (expect_st ''linked process was checked before trapped exit delivery''
            (\<lambda>(f, processes). case send_system_lane Q priority pid linked
                 (exit_signal_message pid reason) processes of (r, processes) \<Rightarrow> (r, (f, processes))))
          (\<lambda>_. notify_links exit_linked Q pid reason rest
             (report\<lparr> report_exit_signals := report_exit_signals report + 1,
                report_recipients := report_recipients report @ [linked] \<rparr>)) (f, processes)
      else if reason \<noteq> Normal then
        bind_st (expect_st ''linked process was checked before recursive exit''
            (exit_linked linked reason))
          (\<lambda>child. notify_links exit_linked Q pid reason rest (merge_reports report child)) (f, processes)
      else notify_links exit_linked Q pid reason rest report (f, processes))"

fun exit_process_inner :: "nat \<Rightarrow> 'q queue_of \<Rightarrow> VmProcessId \<Rightarrow> VmExitReason
    \<Rightarrow> ('q failing, vm_error, VmFailureReport) stateful" where
  "exit_process_inner 0 Q pid reason state = (Panic ''recursion bound'', state)"
| "exit_process_inner (Suc fuel) Q pid reason (f, processes) = (case pt_get processes pid of
     None \<Rightarrow> (Err (Msg ''cannot exit missing process {}'' [ANum pid]), (f, processes))
   | Some process \<Rightarrow>
       if is_exited (proc_state process) then (Ok report_default, (f, processes))
       else
         bind_st (expect_st ''process was checked before failure-layer exit''
             (\<lambda>(f, processes). case pt_exit_process pid reason processes of
                (r, processes) \<Rightarrow> (r, (f, processes))))
           (\<lambda>cleanup_handles (f, processes).
             let f = remove_watcher_monitors pid
                   (f\<lparr> fr_trap_exits := bs_remove pid (fr_trap_exits f) \<rparr>);
                 report = \<lparr> report_exited = [pid], report_cleanup_handles = cleanup_handles,
                   report_exit_signals = 0, report_down_messages = 0, report_recipients = [] \<rparr>
             in case take_target_monitors pid f of (monitors, f) \<Rightarrow>
               bind_st (notify_monitors Q pid reason monitors report) (\<lambda>report (f, processes).
                 case take_links pid f of (links, f) \<Rightarrow>
                   notify_links (exit_process_inner fuel Q) Q pid reason links report (f, processes))
                 (f, processes)) (f, processes))"

definition failure_exit_process :: "'q queue_of \<Rightarrow> VmProcessId \<Rightarrow> VmExitReason
    \<Rightarrow> ('q failing, vm_error, VmFailureReport) stateful" where
  "failure_exit_process Q pid reason state =
     exit_process_inner (Suc (length (live_process_ids (snd state)))) Q pid reason state"

end
