(* ===== verification/Failure_Laws.thy ===== *)
theory Failure_Laws
  imports Failure_Runtime "HOL-Library.Multiset"
begin

text \<open>
  The exit cascade of \<open>VmFailureRuntime\<close>: who exits, what the survivors receive, and
  what is left of the links and monitors, for any process, reason and graph of links.
\<close>

section \<open>The graph of links\<close>

definition fr_ok :: "VmFailureRuntime \<Rightarrow> bool" where
  "fr_ok f \<longleftrightarrow> bs_ok (fr_links f) \<and> bs_ok (fr_priority_links f) \<and> bt_ok (fr_monitors f)
     \<and> bs_ok (fr_trap_exits f) \<and> (\<forall>(left, right)\<in>set (fr_links f). left < right)"

definition linked :: "VmFailureRuntime \<Rightarrow> VmProcessId \<Rightarrow> VmProcessId \<Rightarrow> bool" where
  "linked f p q \<longleftrightarrow> (p, q) \<in> set (fr_links f) \<or> (q, p) \<in> set (fr_links f)"

text \<open>The processes an exit of \<open>p\<close> takes with it: along links, through live processes that
  do not trap exits, and for any reason but the normal one.\<close>

inductive falls :: "VmExitReason \<Rightarrow> VmFailureRuntime \<Rightarrow> 'q VmProcessTable \<Rightarrow> VmProcessId \<Rightarrow> VmProcessId \<Rightarrow> bool"
  for reason f t p where
  start: "falls reason f t p p"
| spread: "falls reason f t p q \<Longrightarrow> reason \<noteq> Normal \<Longrightarrow> linked f q r \<Longrightarrow> is_alive t r
    \<Longrightarrow> r \<notin> set (fr_trap_exits f) \<Longrightarrow> falls reason f t p r"

abbreviation living :: "'q VmProcessTable \<Rightarrow> VmProcessId set" where
  "living t \<equiv> process_store.alive pt_get t"

definition handles :: "'q VmProcessTable \<Rightarrow> VmProcessId \<Rightarrow> string list" where
  "handles t w = proc_resource_handles (the (pt_get t w))"

lemma living_iff: "p \<in> living t \<longleftrightarrow> is_alive t p"
  by (rule alive_is_alive)

lemma failure_is_live_iff: "failure_is_live t p \<longleftrightarrow> p \<in> living t"
  by (simp add: living_iff failure_is_live_def is_alive_def)

section \<open>Deliveries\<close>

text \<open>What a survivor is told: who it hears from, the payload and the lane. A process has
  received a list of notices when one system message for each, without accounted bytes and
  without a managed fragment, was integrated into its mailbox in that order.\<close>

type_synonym notice = "VmProcessId \<times> ReplValue \<times> VmMessagePriority"

definition lane_of :: "bool \<Rightarrow> VmMessagePriority" where
  "lane_of priority = (if priority then Priority else Ordinary)"

definition down_notice :: "VmExitReason \<Rightarrow> VmMonitorRef \<Rightarrow> VmProcessId \<Rightarrow> bool \<Rightarrow> notice" where
  "down_notice reason r target priority
     = (target, down_message r target (reason_value reason), lane_of priority)"

definition exit_notice :: "VmExitReason \<Rightarrow> VmProcessId \<Rightarrow> bool \<Rightarrow> notice" where
  "exit_notice reason q priority = (q, exit_signal_message q reason, lane_of priority)"

definition carries :: "VmMessage \<Rightarrow> notice \<Rightarrow> bool" where
  "carries m n \<longleftrightarrow> n = (msg_sender m, msg_payload m, msg_priority m) \<and> msg_boundary_type m = None
     \<and> msg_managed_fragment m = None \<and> msg_accounted_bytes m = 0"

definition received :: "VmProcess \<Rightarrow> notice list \<Rightarrow> VmProcess \<Rightarrow> bool" where
  "received p ns p' \<longleftrightarrow> (\<exists>ms. list_all2 carries ms ns \<and> p' = fold proc_integrate_message ms p)"

lemma received_Nil [simp]: "received p [] p"
  by (auto simp: received_def)

lemma received_trans: "received p ns p' \<Longrightarrow> received p' ns' p'' \<Longrightarrow> received p (ns @ ns') p''"
  unfolding received_def by (metis list_all2_appendI fold_append comp_apply)

lemma received_one:
  "received p [(sender, payload, lane)]
     (proc_integrate_message (delivered_message i sequence sender (plain_delivery payload 0 lane)) p)"
  unfolding received_def
  by (intro exI [of _ "[delivered_message i sequence sender (plain_delivery payload 0 lane)]"])
    (simp add: carries_def delivered_message_def plain_delivery_def)

lemma received_handles:
  assumes "received p ns p'"
  shows "proc_resource_handles p' = proc_resource_handles p"
proof -
  have "proc_resource_handles (fold proc_integrate_message ms p) = proc_resource_handles p" for ms
    by (induction ms arbitrary: p) simp_all
  then show ?thesis using assms by (auto simp: received_def)
qed

lemma length_enqueue_lane [simp]: "length (enqueue_lane m ms) = Suc (length ms)"
proof -
  have "length (takeWhile is_priority ms) + length (dropWhile is_priority ms) = length ms"
    by (metis length_append takeWhile_dropWhile_id)
  then show ?thesis by (simp add: enqueue_lane_def)
qed

lemma received_length:
  assumes "received p ns p'"
  shows "length (proc_mailbox p') = length (proc_mailbox p) + length ns"
proof -
  have "length (proc_mailbox (fold proc_integrate_message ms p)) = length (proc_mailbox p) + length ms" for ms
    by (induction ms arbitrary: p) (simp_all add: proc_integrate_mailbox)
  then show ?thesis using assms list_all2_lengthD by (fastforce simp: received_def)
qed

text \<open>A table after the notices in \<open>rs\<close> were delivered, each to its recipient.\<close>

definition inbox :: "(VmProcessId \<times> notice) list \<Rightarrow> VmProcessId \<Rightarrow> notice list" where
  "inbox rs w = map snd (filter (\<lambda>(u, _). u = w) rs)"

lemma inbox_simps [simp]:
  "inbox [] w = []" "inbox (rs @ rs') w = inbox rs w @ inbox rs' w"
  "inbox ((u, n) # rs) w = (if u = w then n # inbox rs w else inbox rs w)"
  by (simp_all add: inbox_def)

lemma length_inbox: "length (inbox rs w) = count_list (map fst rs) w"
  by (induction rs) auto

definition delivered :: "'q queue_of \<Rightarrow> ('q \<Rightarrow> VmMessage VmPublishedFragment list) \<Rightarrow> ('q \<Rightarrow> nat)
    \<Rightarrow> 'q VmProcessTable \<Rightarrow> (VmProcessId \<times> notice) list \<Rightarrow> 'q VmProcessTable \<Rightarrow> bool" where
  "delivered Q contents capacity t rs t' \<longleftrightarrow> pt_ok Q contents capacity t' \<and> living t' = living t
     \<and> process_store.known pt_get t' = process_store.known pt_get t
     \<and> (\<forall>w. w \<notin> living t \<longrightarrow> pt_get t' w = pt_get t w)
     \<and> (\<forall>w\<in>living t. received (the (pt_get t w)) (inbox rs w) (the (pt_get t' w)))"

lemma delivered_refl: "pt_ok Q contents capacity t \<Longrightarrow> delivered Q contents capacity t [] t"
  by (simp add: delivered_def)

lemma delivered_trans:
  "delivered Q contents capacity t rs t' \<Longrightarrow> delivered Q contents capacity t' rs' t''
     \<Longrightarrow> delivered Q contents capacity t (rs @ rs') t''"
  unfolding delivered_def by (auto intro: received_trans)

lemma delivered_handles:
  "delivered Q contents capacity t rs t' \<Longrightarrow> w \<in> living t \<Longrightarrow> handles t' w = handles t w"
  unfolding delivered_def handles_def using received_handles by blast

lemma send_system_lane_law:
  assumes ok: "pt_ok Q contents capacity t" and w: "w \<in> living t"
    and origin: "origin \<in> process_store.known pt_get t"
  obtains i t' where "send_system_lane Q priority origin w payload t = (Ok i, t')"
    "delivered Q contents capacity t [(w, origin, payload, lane_of priority)] t'"
proof -
  define lane where "lane = lane_of priority"
  have lane: "send_system_lane Q priority origin w payload = send_system Q lane origin w payload"
    by (simp add: send_system_lane_def send_system_message_def send_priority_system_message_def lane_def lane_of_def)
  have known: "pt_contains t origin"
    using origin pt_contains_get [OF ok] by (simp add: pt.known_def)
  have valid: "validate_recipient t w = Ok ()"
    using w by (auto simp: validate_recipient_def pt.alive_def)
  obtain i t' sequence where d: "enqueue_message Q origin w (plain_delivery payload 0 lane) t = (Ok i, t')"
      "pt_ok Q contents capacity t'" "living t' = living t"
      "process_store.known pt_get t' = process_store.known pt_get t"
      "\<And>p. p \<noteq> w \<Longrightarrow> pt_get t' p = pt_get t p"
      "pt_get t' w = Some (proc_integrate_message (delivered_message i sequence origin (plain_delivery payload 0 lane))
         (the (pt_get t w)))"
      "proc_resource_handles (the (pt_get t' w)) = proc_resource_handles (the (pt_get t w))"
    by (rule pt.deliver_alive [OF ok w, where sender = origin and delivery = "plain_delivery payload 0 lane"])
      (rule that; assumption)
  have "send_system_lane Q priority origin w payload t = (Ok i, t')"
    unfolding lane send_system_def using known valid d(1) by (simp add: bind_st_def read_st_def)
  moreover have "delivered Q contents capacity t [(w, origin, payload, lane)] t'"
  proof -
    have "pt_get t' u = pt_get t u" if "u \<notin> living t" for u
      using d(5) [of u] that w by auto
    moreover have "received (the (pt_get t u)) (inbox [(w, origin, payload, lane)] u) (the (pt_get t' u))" for u
      using d(5) [of u] d(6) by (cases "u = w") (simp_all add: received_one)
    ultimately show ?thesis using d(2-4) by (simp add: delivered_def)
  qed
  ultimately show ?thesis by (intro that) (simp_all add: lane_def)
qed

definition add_downs :: "VmProcessId list \<Rightarrow> VmFailureReport \<Rightarrow> VmFailureReport" where
  "add_downs rs report = report\<lparr> report_down_messages := report_down_messages report + length rs,
     report_recipients := report_recipients report @ rs \<rparr>"

lemma add_downs_simps [simp]:
  "add_downs [] report = report" "add_downs rs (add_downs [w] report) = add_downs (w # rs) report"
  "report_exited (add_downs rs report) = report_exited report"
  "report_cleanup_handles (add_downs rs report) = report_cleanup_handles report"
  "report_recipients (add_downs rs report) = report_recipients report @ rs"
  by (simp_all add: add_downs_def)

text \<open>The notice that each of the monitors taken from an exited process calls for.\<close>

definition watcher_notice :: "VmExitReason \<Rightarrow> VmProcessId \<Rightarrow> VmMonitorRef \<times> VmProcessId \<times> bool
    \<Rightarrow> VmProcessId \<times> notice" where
  "watcher_notice reason pid = (\<lambda>(r, w, priority). (w, down_notice reason r pid priority))"

lemma notify_monitors_law:
  fixes reason :: VmExitReason
  assumes "pt_ok Q contents capacity t" "pid \<in> process_store.known pt_get t"
  defines "rs \<equiv> \<lambda>ms. filter (\<lambda>(w, _). w \<in> living t) (map (watcher_notice reason pid) ms)"
  shows "\<exists>t'. notify_monitors Q pid reason ms report (f, t)
       = (Ok (add_downs (map fst (rs ms)) report), (f, t'))
     \<and> delivered Q contents capacity t (rs ms) t'"
  using assms(1,2) unfolding rs_def
proof (induction ms arbitrary: t report)
  case Nil
  then show ?case using delivered_refl by (auto simp: return_st_def)
next
  case (Cons m ms)
  obtain r w b where m: "m = (r, w, b)" by (cases m)
  show ?case
  proof (cases "w \<in> living t")
    case True
    let ?n = "(w, down_notice reason r pid b)"
    obtain i t1 where send: "send_system_lane Q b pid w (down_message r pid (reason_value reason)) t = (Ok i, t1)"
        and d: "delivered Q contents capacity t [?n] t1"
      unfolding down_notice_def by (rule send_system_lane_law [OF Cons.prems(1) True Cons.prems(2)])
    have t1: "pt_ok Q contents capacity t1" "pid \<in> process_store.known pt_get t1" "living t1 = living t"
      using d Cons.prems(2) by (auto simp: delivered_def)
    let ?rs = "filter (\<lambda>(w, _). w \<in> living t) (map (watcher_notice reason pid) ms)"
    obtain t2 where run: "notify_monitors Q pid reason ms (add_downs [w] report) (f, t1)
       = (Ok (add_downs (map fst ?rs) (add_downs [w] report)), (f, t2))"
      and d2: "delivered Q contents capacity t1 ?rs t2"
      using Cons.IH [OF t1(1,2), of "add_downs [w] report", unfolded t1(3)] by blast
    have "send_down_message Q pid w r reason b t = (Ok True, t1)"
      using True send by (simp add: send_down_message_def send_down_payload_def failure_is_live_iff)
    then have "notify_monitors Q pid reason (m # ms) report (f, t)
        = notify_monitors Q pid reason ms (add_downs [w] report) (f, t1)"
      by (simp add: m bind_st_def add_downs_def)
    then show ?thesis
      using True delivered_trans [OF d d2] run by (auto simp: m watcher_notice_def)
  next
    case False
    then show ?thesis
      using Cons.IH [OF Cons.prems]
      by (simp add: m watcher_notice_def bind_st_def send_down_message_def send_down_payload_def failure_is_live_iff)
  qed
qed

section \<open>Cascades\<close>

text \<open>The notices a survivor \<open>w\<close> is owed when the processes of \<open>K\<close> exit: a DOWN message for
  each of its monitors on one of them, and an exit signal from each that it is linked to
  when it traps exits, on the lane the survivor asked for.\<close>

definition downs :: "VmExitReason \<Rightarrow> VmFailureRuntime \<Rightarrow> VmProcessId set \<Rightarrow> VmProcessId \<Rightarrow> notice multiset" where
  "downs reason f K w = mset (map (\<lambda>(r, _, target, priority). down_notice reason r target priority)
     (filter (\<lambda>(_, watcher, target, _). watcher = w \<and> target \<in> K) (fr_monitors f)))"

definition signals :: "VmExitReason \<Rightarrow> VmFailureRuntime \<Rightarrow> VmProcessId set \<Rightarrow> VmProcessId \<Rightarrow> notice multiset" where
  "signals reason f K w = (if w \<in> set (fr_trap_exits f)
     then image_mset (\<lambda>q. exit_notice reason q (bs_contains (fr_priority_links f) (w, q)))
       (mset_set {q \<in> K. linked f q w}) else {#})"

text \<open>What \<open>w\<close> is still to be told of a process that has exited before.\<close>

definition pending :: "(VmProcessId \<rightharpoonup> notice) \<Rightarrow> VmFailureRuntime \<Rightarrow> VmProcessId \<Rightarrow> notice multiset" where
  "pending P f w = (if w \<in> set (fr_trap_exits f)
     then (case P w of None \<Rightarrow> {#} | Some n \<Rightarrow> {# n #}) else {#})"

text \<open>Every survivor was told exactly \<open>N\<close>, and the report counts those messages.\<close>

definition told :: "(VmProcessId \<Rightarrow> notice multiset) \<Rightarrow> 'q VmProcessTable \<Rightarrow> 'q VmProcessTable
    \<Rightarrow> VmFailureReport \<Rightarrow> bool" where
  "told N t t' rep \<longleftrightarrow> (\<forall>w\<in>living t'. \<exists>ns. received (the (pt_get t w)) ns (the (pt_get t' w))
     \<and> mset ns = N w \<and> count_list (report_recipients rep) w = length ns)"

text \<open>
  The effect of a stretch of the cascade in which the processes of the report exit: \<open>S\<close>
  are the processes it started from, and \<open>P\<close> maps those that a process exited before is
  linked to, and that this stretch must still signal, to the signal.
\<close>

definition cascade_tables :: "'q queue_of \<Rightarrow> ('q \<Rightarrow> VmMessage VmPublishedFragment list) \<Rightarrow> ('q \<Rightarrow> nat)
    \<Rightarrow> VmExitReason \<Rightarrow> 'q VmProcessTable \<Rightarrow> VmFailureReport \<Rightarrow> 'q VmProcessTable \<Rightarrow> bool" where
  "cascade_tables Q contents capacity reason t rep t' \<longleftrightarrow>
     (let K = set (report_exited rep) in
      pt_ok Q contents capacity t' \<and> distinct (report_exited rep) \<and> K \<subseteq> living t \<and> living t' = living t - K
    \<and> process_store.known pt_get t' = process_store.known pt_get t
    \<and> (\<forall>q. q \<notin> living t \<longrightarrow> pt_get t' q = pt_get t q)
    \<and> (\<forall>q\<in>K. proc_state (the (pt_get t' q)) = Exited reason)
    \<and> (\<forall>w\<in>living t'. handles t' w = handles t w)
    \<and> report_cleanup_handles rep = concat (map (handles t) (report_exited rep)))"

definition cascade_relations :: "VmProcessId set \<Rightarrow> VmFailureRuntime \<Rightarrow> VmFailureRuntime \<Rightarrow> bool" where
  "cascade_relations K f f' \<longleftrightarrow> fr_ok f'
    \<and> fr_links f' = filter (\<lambda>(l, r). l \<notin> K \<and> r \<notin> K) (fr_links f)
    \<and> fr_priority_links f' = filter (\<lambda>(l, r). l \<notin> K \<and> r \<notin> K) (fr_priority_links f)
    \<and> set (fr_trap_exits f') = set (fr_trap_exits f) - K
    \<and> fr_monitors f' = filter (\<lambda>(_, w, target, _). w \<notin> K \<and> target \<notin> K) (fr_monitors f)"

definition cascade_owed :: "VmExitReason \<Rightarrow> (VmProcessId \<rightharpoonup> notice) \<Rightarrow> VmFailureRuntime
    \<Rightarrow> 'q VmProcessTable \<Rightarrow> 'q VmProcessTable \<Rightarrow> VmFailureReport \<Rightarrow> bool" where
  "cascade_owed reason P f t t' rep \<longleftrightarrow> told (\<lambda>w. downs reason f (set (report_exited rep)) w
     + signals reason f (set (report_exited rep)) w + pending P f w) t t' rep"

definition cascade_spread :: "VmExitReason \<Rightarrow> VmProcessId set \<Rightarrow> VmProcessId set \<Rightarrow> VmFailureRuntime
    \<Rightarrow> 'q VmProcessTable \<Rightarrow> VmProcessId set \<Rightarrow> VmFailureRuntime \<Rightarrow> 'q VmProcessTable \<Rightarrow> bool" where
  "cascade_spread reason S P f t K f' t' \<longleftrightarrow> (\<forall>q\<in>K. \<exists>p\<in>S. falls reason f t p q)
    \<and> (reason \<noteq> Normal \<longrightarrow> (\<forall>r\<in>P. r \<notin> living t' \<or> r \<in> set (fr_trap_exits f'))
        \<and> (\<forall>q\<in>K. \<forall>r. linked f q r \<longrightarrow> r \<notin> living t' \<or> r \<in> set (fr_trap_exits f')))"

definition cascade :: "'q queue_of \<Rightarrow> ('q \<Rightarrow> VmMessage VmPublishedFragment list) \<Rightarrow> ('q \<Rightarrow> nat)
    \<Rightarrow> VmExitReason \<Rightarrow> VmProcessId set \<Rightarrow> (VmProcessId \<rightharpoonup> notice) \<Rightarrow> VmFailureRuntime \<Rightarrow> 'q VmProcessTable
    \<Rightarrow> VmFailureReport \<Rightarrow> VmFailureRuntime \<Rightarrow> 'q VmProcessTable \<Rightarrow> bool" where
  "cascade Q contents capacity reason S P f t rep f' t' \<longleftrightarrow>
     cascade_tables Q contents capacity reason t rep t'
   \<and> cascade_relations (set (report_exited rep)) f f'
   \<and> cascade_owed reason P f t t' rep
   \<and> cascade_spread reason S (dom P) f t (set (report_exited rep)) f' t'"

lemma merge_reports_simps [simp]:
  "report_exited (merge_reports a b) = report_exited a @ report_exited b"
  "report_cleanup_handles (merge_reports a b) = report_cleanup_handles a @ report_cleanup_handles b"
  "report_recipients (merge_reports a b) = report_recipients a @ report_recipients b"
  "merge_reports (merge_reports a b) c = merge_reports a (merge_reports b c)"
  "merge_reports a report_default = a" "merge_reports report_default a = a"
  by (simp_all add: merge_reports_def report_default_def)

lemma told_trans:
  assumes a: "told N1 t t1 rep1" and b: "told N2 t1 t2 rep2" and life: "living t2 \<subseteq> living t1"
  shows "told (\<lambda>w. N1 w + N2 w) t t2 (merge_reports rep1 rep2)"
  unfolding told_def
proof
  fix w
  assume w: "w \<in> living t2"
  obtain ns1 where 1: "received (the (pt_get t w)) ns1 (the (pt_get t1 w))" "mset ns1 = N1 w"
      "count_list (report_recipients rep1) w = length ns1"
    using a life w unfolding told_def by blast
  obtain ns2 where 2: "received (the (pt_get t1 w)) ns2 (the (pt_get t2 w))" "mset ns2 = N2 w"
      "count_list (report_recipients rep2) w = length ns2"
    using b w unfolding told_def by blast
  show "\<exists>ns. received (the (pt_get t w)) ns (the (pt_get t2 w)) \<and> mset ns = N1 w + N2 w
      \<and> count_list (report_recipients (merge_reports rep1 rep2)) w = length ns"
    by (rule exI [of _ "ns1 @ ns2"]) (use received_trans [OF 1(1) 2(1)] 1(2,3) 2(2,3) in simp)
qed

lemma told_cong:
  "told N t t' rep \<Longrightarrow> (\<And>w. w \<in> living t' \<Longrightarrow> N w = N' w) \<Longrightarrow> told N' t t' rep"
  by (simp add: told_def)

lemma falls_mono:
  assumes "falls reason f1 t1 p q" and "living t1 \<subseteq> living t" "\<And>p q. linked f1 p q \<Longrightarrow> linked f p q"
    "\<And>r. r \<in> living t1 \<Longrightarrow> r \<notin> set (fr_trap_exits f1) \<Longrightarrow> r \<notin> set (fr_trap_exits f)"
  shows "falls reason f t p q"
  using assms(1)
proof induction
  case start
  show ?case by (rule falls.start)
next
  case (spread q r)
  then have r: "r \<in> living t1" by (simp add: living_iff)
  show ?case
    by (rule falls.spread [OF spread.IH spread.hyps(2)])
      (use assms(2-4) spread.hyps r in \<open>auto simp: living_iff [symmetric]\<close>)
qed

lemma cascade_tables_trans:
  assumes a: "cascade_tables Q contents capacity reason t rep1 t1"
    and b: "cascade_tables Q contents capacity reason t1 rep2 t2"
  shows "cascade_tables Q contents capacity reason t (merge_reports rep1 rep2) t2"
proof -
  let ?K1 = "set (report_exited rep1)" and ?K2 = "set (report_exited rep2)"
  note a = a [unfolded cascade_tables_def Let_def] and b = b [unfolded cascade_tables_def Let_def]
  have life: "living t1 = living t - ?K1" "living t2 = living t1 - ?K2" "?K1 \<subseteq> living t" "?K2 \<subseteq> living t1"
    using a b by blast+
  have "handles t1 w = handles t w" if "w \<in> ?K2" for w using a life(4) that by blast
  then have maps: "map (handles t1) (report_exited rep2) = map (handles t) (report_exited rep2)" by simp
  have "report_cleanup_handles rep1 = concat (map (handles t) (report_exited rep1))" using a by blast
  moreover have "report_cleanup_handles rep2 = concat (map (handles t) (report_exited rep2))"
    unfolding maps [symmetric] using b by blast
  ultimately have handles: "report_cleanup_handles (merge_reports rep1 rep2)
      = concat (map (handles t) (report_exited (merge_reports rep1 rep2)))" by simp
  have gone: "pt_get t2 q = pt_get t1 q" if "q \<notin> living t1" for q using b that by blast
  have exited: "proc_state (the (pt_get t2 q)) = Exited reason" if "q \<in> ?K1 \<union> ?K2" for q
  proof (cases "q \<in> ?K2")
    case False
    then have "q \<in> ?K1" "q \<notin> living t1" using that life by auto
    then show ?thesis using a gone [of q] by simp
  qed (use b in blast)
  have same: "pt_get t2 q = pt_get t q" if "q \<notin> living t" for q
    using that a gone [of q] life by auto
  have len: "handles t2 w = handles t w" if "w \<in> living t2" for w
    using a b that life(2) by auto
  show ?thesis
    unfolding cascade_tables_def Let_def
    using a b life handles exited same len by (auto simp del: count_list_append)
qed

lemma cascade_relations_trans:
  assumes "cascade_relations K1 f f1" "cascade_relations K2 f1 f2"
  shows "cascade_relations (K1 \<union> K2) f f2"
  using assms unfolding cascade_relations_def
  by (auto simp: conj_comms intro!: filter_cong)

lemma cascade_relations_linked:
  "cascade_relations K f f' \<Longrightarrow> linked f' p q \<longleftrightarrow> linked f p q \<and> p \<notin> K \<and> q \<notin> K"
  by (auto simp: cascade_relations_def linked_def)

lemma downs_split:
  assumes "cascade_relations K1 f f1" "K1 \<inter> K2 = {}" "w \<notin> K1"
  shows "downs reason f (K1 \<union> K2) w = downs reason f K1 w + downs reason f1 K2 w"
proof -
  have "mset (map g (filter (\<lambda>(_, watcher, target, _). watcher = w \<and> target \<in> K1 \<union> K2) ms))
      = mset (map g (filter (\<lambda>(_, watcher, target, _). watcher = w \<and> target \<in> K1) ms))
      + mset (map g (filter (\<lambda>(_, watcher, target, _). watcher = w \<and> target \<in> K2)
          (filter (\<lambda>(_, w, target, _). w \<notin> K1 \<and> target \<notin> K1) ms)))"
    for g :: "_ \<Rightarrow> notice" and ms :: "('a \<times> _ \<times> _ \<times> 'b) list"
    using assms(2,3) by (induction ms) (auto simp del: mset_map mset_filter)
  then show ?thesis
    using assms(1) by (simp add: downs_def cascade_relations_def)
qed

lemma signals_split:
  assumes rel: "cascade_relations K1 f f1" and disj: "K1 \<inter> K2 = {}" and w: "w \<notin> K1"
    and fin: "finite K1" "finite K2"
  shows "signals reason f (K1 \<union> K2) w = signals reason f K1 w + signals reason f1 K2 w"
proof -
  let ?A = "{q \<in> K1. linked f q w}" and ?B = "{q \<in> K2. linked f1 q w}"
  have "{q \<in> K1 \<union> K2. linked f q w} = ?A \<union> ?B"
    using cascade_relations_linked [OF rel] disj w by auto
  then have "mset_set {q \<in> K1 \<union> K2. linked f q w} = mset_set ?A + mset_set ?B"
    using mset_set_Union [of ?A ?B] fin disj by auto
  moreover have "bs_contains (fr_priority_links f1) (w, q) = bs_contains (fr_priority_links f) (w, q)"
    if "q \<in># mset_set ?B" for q
  proof -
    have "q \<notin> K1" using that disj fin by auto
    then show ?thesis using rel w by (auto simp: cascade_relations_def bs_contains_def)
  qed
  then have "image_mset (\<lambda>q. exit_notice reason q (bs_contains (fr_priority_links f1) (w, q))) (mset_set ?B)
      = image_mset (\<lambda>q. exit_notice reason q (bs_contains (fr_priority_links f) (w, q))) (mset_set ?B)"
    by (intro image_mset_cong) simp
  ultimately show ?thesis
    using rel w by (simp add: signals_def cascade_relations_def)
qed

lemma pending_add: "dom P1 \<inter> dom P2 = {} \<Longrightarrow> pending (P1 ++ P2) f w = pending P1 f w + pending P2 f w"
  by (auto simp: pending_def map_add_def split: option.splits)

lemma cascade_trans:
  assumes a: "cascade Q contents capacity reason S1 P1 f t rep1 f1 t1"
    and b: "cascade Q contents capacity reason S2 P2 f1 t1 rep2 f2 t2" and P: "dom P1 \<inter> dom P2 = {}"
  shows "cascade Q contents capacity reason (S1 \<union> S2) (P1 ++ P2) f t (merge_reports rep1 rep2) f2 t2"
proof -
  let ?K1 = "set (report_exited rep1)" and ?K2 = "set (report_exited rep2)"
  note a = a [unfolded cascade_def] and b = b [unfolded cascade_def]
  have life: "living t1 = living t - ?K1" "living t2 = living t1 - ?K2" "?K1 \<subseteq> living t" "?K2 \<subseteq> living t1"
    using a b unfolding cascade_tables_def Let_def by blast+
  have disj: "?K1 \<inter> ?K2 = {}" using life by auto
  have rel: "cascade_relations ?K1 f f1" "cascade_relations ?K2 f1 f2" using a b by blast+
  have trap1: "set (fr_trap_exits f1) = set (fr_trap_exits f) - ?K1"
      "set (fr_trap_exits f2) = set (fr_trap_exits f1) - ?K2"
    using rel by (auto simp: cascade_relations_def)
  have owed: "cascade_owed reason (P1 ++ P2) f t t2 (merge_reports rep1 rep2)"
  proof -
    have told: "told (\<lambda>w. downs reason f ?K1 w + signals reason f ?K1 w + pending P1 f w
        + (downs reason f1 ?K2 w + signals reason f1 ?K2 w + pending P2 f1 w)) t t2 (merge_reports rep1 rep2)"
      by (rule told_trans [where ?t1.0 = t1]) (use a b life in \<open>simp_all add: cascade_owed_def\<close>)
    have "pending P2 f1 w = pending P2 f w" if "w \<in> living t2" for w
      using that life trap1(1) by (simp add: pending_def)
    then show ?thesis
      unfolding cascade_owed_def
      by (intro told_cong [OF told])
        (use downs_split [OF rel(1) disj] signals_split [OF rel(1) disj] life pending_add [OF P] in simp)
  qed
  have falls: "falls reason f t p q" if "falls reason f1 t1 p q" for p q
    by (rule falls_mono [OF that]) (use life(1) trap1(1) cascade_relations_linked [OF rel(1)] in auto)
  have spread: "cascade_spread reason (S1 \<union> S2) (dom P1 \<union> dom P2) f t (?K1 \<union> ?K2) f2 t2"
  proof -
    have sp: "cascade_spread reason S1 (dom P1) f t ?K1 f1 t1" "cascade_spread reason S2 (dom P2) f1 t1 ?K2 f2 t2"
      using a b by blast+
    have origin: "\<exists>p\<in>S1 \<union> S2. falls reason f t p q" if "q \<in> ?K1 \<union> ?K2" for q
      using that sp falls unfolding cascade_spread_def by blast
    have stable: "r \<notin> living t2 \<or> r \<in> set (fr_trap_exits f2)"
      if "r \<notin> living t1 \<or> r \<in> set (fr_trap_exits f1)" for r
      using that life(2) trap1(2) by blast
    have closed: "r \<notin> living t2 \<or> r \<in> set (fr_trap_exits f2)"
      if "reason \<noteq> Normal" "q \<in> ?K1 \<union> ?K2" "linked f q r" for q r
    proof (cases "q \<in> ?K1")
      case True
      then show ?thesis using that sp(1) stable unfolding cascade_spread_def by blast
    next
      case False
      show ?thesis
      proof (cases "r \<in> ?K1")
        case True
        then show ?thesis using life by blast
      next
        case r: False
        then have "linked f1 q r" using False that(3) cascade_relations_linked [OF rel(1)] by blast
        then show ?thesis using False that(1,2) sp(2) unfolding cascade_spread_def by blast
      qed
    qed
    show ?thesis
      unfolding cascade_spread_def using origin closed sp stable unfolding cascade_spread_def by blast
  qed
  show ?thesis
    unfolding cascade_def
    using cascade_tables_trans [of Q contents capacity reason t rep1 t1 rep2 t2]
      cascade_relations_trans [OF rel] owed spread a b by (simp add: Un_commute)
qed

section \<open>The cascade of one exit\<close>

lemma live_ids:
  assumes "pt_ok Q contents capacity t"
  shows "set (live_process_ids t) = living t" "length (live_process_ids t) = card (living t)"
    "finite (living t)"
proof -
  note ok = pt_okD(2) [OF assms]
  have bt: "bt_ok (dir_actor_slots (pt_processes t))" using ok by (simp add: dir_ok_def)
  let ?keys = "bt_keys (dir_actor_slots (pt_processes t))"
  let ?P = "\<lambda>pid. \<not> is_exited (proc_state (cell_value (the (dir_find (pt_processes t) pid))))"
  have ids: "live_process_ids t = filter ?P ?keys"
  proof -
    have "map fst (filter (\<lambda>e. P (snd e)) (map (\<lambda>k. (k, g k)) ks)) = filter (\<lambda>k. P (g k)) ks"
      for P and g :: "VmProcessId \<Rightarrow> VmProcess" and ks
      by (induction ks) auto
    then show ?thesis
      by (simp add: live_process_ids_def dir_iter_find [OF dir_ok_parts(1) [OF ok] bt])
  qed
  have key: "pid \<in> set ?keys \<longleftrightarrow> dir_find (pt_processes t) pid \<noteq> None" for pid
    using dir_contains_find [OF dir_ok_parts(1) [OF ok]] by (simp add: bt_keys_iff dir_contains_def)
  show set: "set (live_process_ids t) = living t"
    unfolding ids pt.alive_def pt_get_find using key by force
  have "distinct (live_process_ids t)"
    unfolding ids using bt_ok_distinct [OF bt] by (simp add: bt_keys_def)
  from distinct_card [OF this] show "length (live_process_ids t) = card (living t)" by (simp add: set)
  show "finite (living t)" unfolding set [symmetric] by simp
qed

lemma take_links_law:
  assumes ok: "fr_ok f"
  obtains links f' where "take_links pid f = (links, f')" "set (map fst links) = {r. linked f pid r}"
    "distinct (map fst links)"
    "\<And>r b. (r, b) \<in> set links \<Longrightarrow> b = bs_contains (fr_priority_links f) (r, pid)"
    "f' = f\<lparr> fr_links := filter (\<lambda>(l, r). l \<noteq> pid \<and> r \<noteq> pid) (fr_links f),
         fr_priority_links := filter (\<lambda>(l, r). l \<noteq> pid \<and> r \<noteq> pid) (fr_priority_links f) \<rparr>"
proof -
  define pick where "pick = (\<lambda>(left, right).
        if left = pid then Some (right, bs_contains (fr_priority_links f) (right, left))
        else if right = pid then Some (left, bs_contains (fr_priority_links f) (left, right))
        else None)"
  have part: "set (map fst (List.map_filter pick ls)) = {r. (pid, r) \<in> set ls \<or> (r, pid) \<in> set ls}
      \<and> distinct (map fst (List.map_filter pick ls))"
    if "distinct ls" "\<forall>(l, r)\<in>set ls. l < r" for ls
    using that
  proof (induction ls)
    case (Cons e ls)
    obtain l r where e: "e = (l, r)" by (cases e)
    have IH: "set (map fst (List.map_filter pick ls)) = {r. (pid, r) \<in> set ls \<or> (r, pid) \<in> set ls}"
        "distinct (map fst (List.map_filter pick ls))"
      using Cons by auto
    have lr: "l < r" "(l, r) \<notin> set ls" "(r, l) \<notin> set ls" using Cons.prems e by auto
    consider "l = pid" "r \<noteq> pid" | "r = pid" "l \<noteq> pid" | "l \<noteq> pid" "r \<noteq> pid" using lr(1) by auto
    then show ?case
      by cases (use IH lr in \<open>auto simp: e pick_def map_filter_simps\<close>)
  qed (simp add: map_filter_simps)
  have links: "distinct (fr_links f)" "\<forall>(l, r)\<in>set (fr_links f). l < r"
    using ok bs_ok_distinct by (auto simp: fr_ok_def)
  have lanes: "b = bs_contains (fr_priority_links f) (r, pid)"
    if "(r, b) \<in> set (List.map_filter pick (fr_links f))" for r b
    using that by (auto simp: List.map_filter_def pick_def split: if_splits)
  show ?thesis
    by (rule that [of "List.map_filter pick (fr_links f)"])
      (use part [OF links] lanes in \<open>auto simp: take_links_def pick_def linked_def\<close>)
qed

lemma take_target_law:
  assumes "bt_ok (fr_monitors f)"
  obtains monitors where "take_target_monitors pid f = (monitors,
      f\<lparr> fr_monitors := filter (\<lambda>(_, _, target, _). target \<noteq> pid) (fr_monitors f) \<rparr>)"
    "monitors = map (\<lambda>(r, w, _, priority). (r, w, priority))
       (filter (\<lambda>(_, _, target, _). target = pid) (fr_monitors f))"
proof -
  define pick where "pick = (\<lambda>(monitor_ref :: VmMonitorRef, watcher :: VmProcessId, target, priority :: bool).
            if target = pid then Some (monitor_ref, watcher, priority) else None)"
  let ?m = "List.map_filter pick (fr_monitors f)"
  have keys: "set (map fst (List.map_filter pick ms)) = {k. \<exists>w p. (k, w, pid, p) \<in> set ms}" for ms
  proof (induction ms)
    case (Cons m ms)
    obtain k w g p where m: "m = (k, w, g, p)" by (cases m)
    have "set (map fst (List.map_filter pick (m # ms)))
        = (if g = pid then {k} else {}) \<union> set (map fst (List.map_filter pick ms))"
      by (simp add: m pick_def map_filter_simps)
    also have "\<dots> = {k. \<exists>w p. (k, w, pid, p) \<in> set (m # ms)}"
      unfolding Cons.IH by (auto simp: m)
    finally show ?case .
  qed (simp add: map_filter_simps)
  have absent: "bt_remove_all ks ms = filter (\<lambda>e. fst e \<notin> set ks) ms" for ks and ms :: "(VmMonitorRef, 'v) btree"
    by (induction ks arbitrary: ms) (auto simp: bt_remove_def intro!: filter_cong)
  have unique: "(k, w, g, p) \<in> set (fr_monitors f) \<Longrightarrow> (k, w', g', p') \<in> set (fr_monitors f) \<Longrightarrow> g = g'"
    for k w w' g g' p p'
    using bt_in_get [OF assms] by fastforce
  have rest: "bt_remove_all (map fst ?m) (fr_monitors f)
      = filter (\<lambda>(_, _, target, _). target \<noteq> pid) (fr_monitors f)"
    unfolding absent keys using unique by (intro filter_cong) auto
  have watchers: "List.map_filter pick ms
      = map (\<lambda>(r, w, _, priority). (r, w, priority)) (filter (\<lambda>(_, _, target, _). target = pid) ms)" for ms
    by (induction ms) (auto simp: pick_def map_filter_simps)
  show ?thesis
    by (rule that [of ?m]) (use rest watchers in \<open>simp_all add: take_target_monitors_def pick_def Let_def\<close>)
qed

text \<open>The stretches of the loop over links that exit no process.\<close>

lemma cascade_tables_none:
  "pt_ok Q contents capacity t \<Longrightarrow> cascade_tables Q contents capacity reason t report_default t"
  by (simp add: cascade_tables_def report_default_def)

lemma cascade_relations_none: "fr_ok f \<Longrightarrow> cascade_relations {} f f"
  by (simp add: cascade_relations_def case_prod_unfold)

lemma none_owed [simp]:
  "downs reason f {} w = {#}" "signals reason f {} w = {#}" "pending Map.empty f w = {#}"
  by (simp_all add: downs_def signals_def pending_def case_prod_unfold)

lemma told_none: "\<forall>w\<in>living t. N w = {#} \<Longrightarrow> told N t t report_default"
  by (auto simp: told_def report_default_def intro: exI [of _ "[]"])

lemma cascade_skip:
  assumes "pt_ok Q contents capacity t" "fr_ok f"
    and "\<forall>r\<in>dom P. r \<notin> living t \<or> (r \<notin> set (fr_trap_exits f) \<and> reason = Normal)"
  shows "cascade Q contents capacity reason {} P f t report_default f t"
proof -
  have "\<forall>w\<in>living t. pending P f w = {#}"
    using assms(3) by (auto simp: pending_def split: option.splits)
  then have "cascade_owed reason P f t t report_default"
    unfolding cascade_owed_def by (intro told_none) (simp add: report_default_def)
  then show ?thesis
    using assms cascade_tables_none cascade_relations_none
    by (auto simp: cascade_def cascade_spread_def report_default_def)
qed

definition signal_report :: "VmProcessId \<Rightarrow> VmFailureReport" where
  "signal_report r = \<lparr> report_exited = [], report_cleanup_handles = [], report_exit_signals = 1,
     report_down_messages = 0, report_recipients = [r] \<rparr>"

lemma merge_signal: "merge_reports report (signal_report r)
    = report\<lparr> report_exit_signals := Suc (report_exit_signals report),
        report_recipients := report_recipients report @ [r] \<rparr>"
  by (cases report) (simp add: merge_reports_def signal_report_def)

lemma cascade_signal:
  assumes d: "delivered Q contents capacity t [(r, n)] t'" and f: "fr_ok f" "r \<in> set (fr_trap_exits f)"
  shows "cascade Q contents capacity reason {} [r \<mapsto> n] f t (signal_report r) f t'"
proof -
  have "cascade_owed reason [r \<mapsto> n] f t t' (signal_report r)"
    unfolding cascade_owed_def told_def
  proof
    fix w
    assume "w \<in> living t'"
    then have "received (the (pt_get t w)) (inbox [(r, n)] w) (the (pt_get t' w))"
      using d by (simp add: delivered_def)
    then show "\<exists>ns. received (the (pt_get t w)) ns (the (pt_get t' w))
        \<and> mset ns = downs reason f (set (report_exited (signal_report r))) w
            + signals reason f (set (report_exited (signal_report r))) w + pending [r \<mapsto> n] f w
        \<and> count_list (report_recipients (signal_report r)) w = length ns"
      by (rule exI [rotated, where x = "inbox [(r, n)] w", OF conjI])
        (use f(2) in \<open>auto simp: signal_report_def pending_def\<close>)
  qed
  moreover have "cascade_tables Q contents capacity reason t (signal_report r) t'"
    using d delivered_handles [OF d] by (simp add: cascade_tables_def delivered_def signal_report_def)
  ultimately show ?thesis
    using f cascade_relations_none by (auto simp: cascade_def cascade_spread_def signal_report_def)
qed

lemma cascade_fallen:
  assumes c: "cascade Q contents capacity reason {r} Map.empty f t rep f' t'" and r: "r \<in> set (report_exited rep)"
  shows "cascade Q contents capacity reason {r} [r \<mapsto> n] f t rep f' t'"
proof -
  have gone: "r \<notin> living t'" using c r by (auto simp: cascade_def cascade_tables_def Let_def)
  then have none: "pending [r \<mapsto> n] f w = {#}" if "w \<in> living t'" for w
    using that by (auto simp: pending_def)
  have owed: "cascade_owed reason Map.empty f t t' rep" using c unfolding cascade_def by blast
  have "cascade_owed reason [r \<mapsto> n] f t t' rep"
    unfolding cascade_owed_def by (rule told_cong [OF owed [unfolded cascade_owed_def]]) (simp add: none)
  then show ?thesis using c gone by (auto simp: cascade_def cascade_spread_def)
qed

lemma cascade_more_starts:
  "cascade Q contents capacity reason S P f t rep f' t' \<Longrightarrow> S \<subseteq> S'
     \<Longrightarrow> cascade Q contents capacity reason S' P f t rep f' t'"
  unfolding cascade_def cascade_spread_def by blast

lemma cascade_ok:
  assumes "cascade Q contents capacity reason S P f t rep f' t'"
  shows "pt_ok Q contents capacity t'" "fr_ok f'" "living t' \<subseteq> living t"
    "process_store.known pt_get t' = process_store.known pt_get t"
    "set (fr_trap_exits f') \<subseteq> set (fr_trap_exits f)"
    "r \<in> living t' \<Longrightarrow> r \<notin> set (fr_trap_exits f') \<Longrightarrow> r \<notin> set (fr_trap_exits f)"
  using assms by (auto simp: cascade_def cascade_tables_def Let_def cascade_relations_def)

text \<open>The signals that an exited process sends along its links.\<close>

definition link_signals :: "VmExitReason \<Rightarrow> VmProcessId \<Rightarrow> (VmProcessId \<times> bool) list
    \<Rightarrow> (VmProcessId \<rightharpoonup> notice)" where
  "link_signals reason pid links
     = map_of (map (\<lambda>(r, priority). (r, exit_notice reason pid priority)) links)"

lemma link_signals_simps [simp]:
  "link_signals reason pid [] = Map.empty"
  "link_signals reason pid ((r, priority) # links)
     = (link_signals reason pid links)(r \<mapsto> exit_notice reason pid priority)"
  by (simp_all add: link_signals_def)

lemma dom_link_signals [simp]: "dom (link_signals reason pid links) = set (map fst links)"
  by (simp add: link_signals_def dom_map_of_conv_image_fst image_image case_prod_unfold)

text \<open>The contract of the recursive call, and the loop over the links under it.\<close>

definition exits_below :: "'q queue_of \<Rightarrow> ('q \<Rightarrow> VmMessage VmPublishedFragment list) \<Rightarrow> ('q \<Rightarrow> nat)
    \<Rightarrow> VmExitReason \<Rightarrow> nat \<Rightarrow> bool" where
  "exits_below Q contents capacity reason n \<longleftrightarrow> (\<forall>p f t. pt_ok Q contents capacity t \<longrightarrow> fr_ok f
     \<longrightarrow> p \<in> living t \<longrightarrow> card (living t) \<le> n \<longrightarrow>
     (\<exists>rep f' t'. exit_process_inner n Q p reason (f, t) = (Ok rep, (f', t'))
        \<and> p \<in> set (report_exited rep) \<and> cascade Q contents capacity reason {p} Map.empty f t rep f' t'))"

definition loop_starts :: "VmExitReason \<Rightarrow> VmProcessId set \<Rightarrow> VmFailureRuntime \<Rightarrow> 'q VmProcessTable
    \<Rightarrow> VmProcessId set" where
  "loop_starts reason P f t
     = (if reason = Normal then {} else {r \<in> P. r \<in> living t \<and> r \<notin> set (fr_trap_exits f)})"

lemma notify_links_law:
  assumes rec: "exits_below Q contents capacity reason n"
  shows "pt_ok Q contents capacity t \<Longrightarrow> fr_ok f \<Longrightarrow> pid \<in> process_store.known pt_get t
    \<Longrightarrow> card (living t) \<le> n \<Longrightarrow> distinct (map fst links) \<Longrightarrow>
    \<exists>rep f' t'. notify_links (exit_process_inner n Q) Q pid reason links report (f, t)
         = (Ok (merge_reports report rep), (f', t'))
       \<and> cascade Q contents capacity reason (loop_starts reason (set (map fst links)) f t)
           (link_signals reason pid links) f t rep f' t'"
proof (induction links arbitrary: f t report)
  case Nil
  have "cascade Q contents capacity reason {} Map.empty f t report_default f t"
    by (rule cascade_skip [OF Nil.prems(1,2)]) simp
  then have "cascade Q contents capacity reason (loop_starts reason {} f t) Map.empty f t report_default f t"
    by (rule cascade_more_starts) simp
  then show ?case by (intro exI [of _ report_default]) simp
next
  case (Cons link rest)
  obtain r priority where link: "link = (r, priority)" by (cases link)
  let ?P = "set (map fst rest)" and ?S = "link_signals reason pid rest"
  let ?n = "exit_notice reason pid priority"
  have fresh: "r \<notin> ?P" using Cons.prems(5) by (simp add: link)
  text \<open>One step of the loop, then the rest of it.\<close>
  have continue: ?case
    if step: "notify_links (exit_process_inner n Q) Q pid reason (link # rest) report (f, t)
        = notify_links (exit_process_inner n Q) Q pid reason rest (merge_reports report rep1) (f1, t1)"
      and c1: "cascade Q contents capacity reason S1 [r \<mapsto> ?n] f t rep1 f1 t1"
      and S1: "S1 \<subseteq> loop_starts reason {r} f t" for rep1 f1 t1 S1
  proof -
    note ok1 = cascade_ok [OF c1]
    have "card (living t1) \<le> n"
      using card_mono [OF live_ids(3) [OF Cons.prems(1)] ok1(3)] Cons.prems(4) by simp
    then obtain rep2 f2 t2 where run: "notify_links (exit_process_inner n Q) Q pid reason rest
          (merge_reports report rep1) (f1, t1) = (Ok (merge_reports (merge_reports report rep1) rep2), (f2, t2))"
        and c2: "cascade Q contents capacity reason (loop_starts reason ?P f1 t1) ?S f1 t1 rep2 f2 t2"
      using Cons.IH [OF ok1(1,2), of "merge_reports report rep1"] ok1(4) Cons.prems(3,5) by auto
    have "cascade Q contents capacity reason (S1 \<union> loop_starts reason ?P f1 t1) ([r \<mapsto> ?n] ++ ?S) f t
        (merge_reports rep1 rep2) f2 t2"
      by (rule cascade_trans [OF c1 c2]) (use fresh in simp)
    then have "cascade Q contents capacity reason (loop_starts reason ({r} \<union> ?P) f t) ([r \<mapsto> ?n] ++ ?S) f t
        (merge_reports rep1 rep2) f2 t2"
      by (rule cascade_more_starts) (use S1 ok1(3,6) in \<open>auto simp: loop_starts_def split: if_splits\<close>)
    moreover have "[r \<mapsto> ?n] ++ ?S = link_signals reason pid (link # rest)"
      using map_add_comm [of "[r \<mapsto> ?n]" ?S] fresh by (simp add: link)
    moreover have "{r} \<union> ?P = set (map fst (link # rest))" by (simp add: link)
    ultimately have "cascade Q contents capacity reason (loop_starts reason (set (map fst (link # rest))) f t)
        (link_signals reason pid (link # rest)) f t (merge_reports rep1 rep2) f2 t2" by metis
    then show ?case using step run by (metis merge_reports_simps(4))
  qed
  show ?case
  proof (cases "r \<in> living t")
    case False
    show ?thesis
      by (rule continue [OF _ cascade_skip [OF Cons.prems(1,2)]])
        (use False in \<open>simp_all add: link failure_is_live_iff\<close>)
  next
    case live: True
    show ?thesis
    proof (cases "r \<in> set (fr_trap_exits f)")
      case True
      obtain i t1 where send: "send_system_lane Q priority pid r (exit_signal_message pid reason) t = (Ok i, t1)"
          and d: "delivered Q contents capacity t [(r, ?n)] t1"
        unfolding exit_notice_def by (rule send_system_lane_law [OF Cons.prems(1) live Cons.prems(3)])
      have "notify_links (exit_process_inner n Q) Q pid reason (link # rest) report (f, t)
        = notify_links (exit_process_inner n Q) Q pid reason rest (merge_reports report (signal_report r)) (f, t1)"
        using True live send by (simp add: link failure_is_live_iff bs_contains_def bind_st_def
            expect_st_def expect_def merge_signal [symmetric])
      then show ?thesis
        by (rule continue [OF _ cascade_signal [OF d Cons.prems(2) True]]) simp
    next
      case trap: False
      show ?thesis
      proof (cases "reason = Normal")
        case True
        show ?thesis
          by (rule continue [OF _ cascade_skip [OF Cons.prems(1,2)]])
            (use True trap live in \<open>simp_all add: link failure_is_live_iff bs_contains_def\<close>)
      next
        case False
        obtain rep1 f1 t1 where run: "exit_process_inner n Q r reason (f, t) = (Ok rep1, (f1, t1))"
            and c: "r \<in> set (report_exited rep1)" "cascade Q contents capacity reason {r} Map.empty f t rep1 f1 t1"
          using rec Cons.prems(1,2,4) live unfolding exits_below_def by blast
        have "notify_links (exit_process_inner n Q) Q pid reason (link # rest) report (f, t)
          = notify_links (exit_process_inner n Q) Q pid reason rest (merge_reports report rep1) (f1, t1)"
          using trap live False run by (simp add: link failure_is_live_iff bs_contains_def bind_st_def
              expect_st_def expect_def)
        then show ?thesis
          by (rule continue [OF _ cascade_fallen [OF c(2,1)]])
            (use trap live False in \<open>simp add: loop_starts_def\<close>)
      qed
    qed
  qed
qed

text \<open>The part of an exit before its links: the process becomes a tombstone and its
  monitors are notified.\<close>

lemma living_known: "living t \<subseteq> process_store.known pt_get t"
  by (auto simp: pt.alive_def pt.known_def)

lemma exit_head_law:
  assumes ok: "pt_ok Q contents capacity t" "fr_ok f" and pid: "pid \<in> living t"
  obtains rep links f1 t1 where
    "exit_process_inner (Suc n) Q pid reason (f, t)
       = notify_links (exit_process_inner n Q) Q pid reason links rep (f1, t1)"
    "cascade_tables Q contents capacity reason t rep t1" "report_exited rep = [pid]"
    "cascade_relations {pid} f f1"
    "told (downs reason f {pid}) t t1 rep"
    "set (map fst links) = {r. linked f pid r}" "distinct (map fst links)"
    "\<And>r b. (r, b) \<in> set links \<Longrightarrow> b = bs_contains (fr_priority_links f) (r, pid)"
proof -
  obtain p where p: "pt_get t pid = Some p" "\<not> is_exited (proc_state p)"
    using pid by (auto simp: pt.alive_def)
  obtain ta where ta: "pt_exit_process pid reason t = (Ok (proc_resource_handles (the (pt_get t pid))), ta)"
      "pt_ok Q contents capacity ta" "living ta = living t - {pid}"
      "process_store.known pt_get ta = process_store.known pt_get t"
      "\<And>q. q \<noteq> pid \<Longrightarrow> pt_get ta q = pt_get t q"
      "pt_get ta pid = Some (snd (proc_exit reason (the (pt_get t pid))))"
    by (rule pt.exit_alive [OF ok(1) pid, where reason = reason]) (rule that; assumption)
  define fa where "fa = remove_watcher_monitors pid (f\<lparr> fr_trap_exits := bs_remove pid (fr_trap_exits f) \<rparr>)"
  have watch: "fr_monitors fa = filter (\<lambda>(_, w, _, _). w \<noteq> pid) (fr_monitors f)"
    by (simp add: fa_def remove_watcher_monitors_def bt_retain_def case_prod_unfold)
  have fa: "fr_links fa = fr_links f" "fr_trap_exits fa = bs_remove pid (fr_trap_exits f)"
      "fr_priority_links fa = fr_priority_links f"
    by (simp_all add: fa_def remove_watcher_monitors_def)
  have oka: "fr_ok fa" using ok(2) by (auto simp: fr_ok_def fa watch bt_ok_filter)
  obtain monitors where tm: "take_target_monitors pid fa = (monitors,
      fa\<lparr> fr_monitors := filter (\<lambda>(_, _, target, _). target \<noteq> pid) (fr_monitors fa) \<rparr>)"
    "monitors = map (\<lambda>(r, w, _, priority). (r, w, priority))
       (filter (\<lambda>(_, _, target, _). target = pid) (fr_monitors fa))"
    by (rule take_target_law [of fa]) (use oka in \<open>auto simp: fr_ok_def\<close>)
  define fb where "fb = fa\<lparr> fr_monitors := filter (\<lambda>(_, _, target, _). target \<noteq> pid) (fr_monitors fa) \<rparr>"
  have okb: "fr_ok fb" using oka by (auto simp: fr_ok_def fb_def bt_ok_filter)
  define rep0 where "rep0 = \<lparr> report_exited = [pid], report_cleanup_handles = handles t pid,
                   report_exit_signals = 0, report_down_messages = 0, report_recipients = [] \<rparr>"
  define rs where "rs = filter (\<lambda>(w, _). w \<in> living ta) (map (watcher_notice reason pid) monitors)"
  have "pid \<in> process_store.known pt_get ta" using ta(4) pid living_known by blast
  then obtain t1 where notify: "notify_monitors Q pid reason monitors rep0 (fb, ta)
        = (Ok (add_downs (map fst rs) rep0), (fb, t1))" and d: "delivered Q contents capacity ta rs t1"
    using notify_monitors_law [OF ta(2)] unfolding rs_def by blast
  obtain links f1 where tl: "take_links pid fb = (links, f1)" "set (map fst links) = {r. linked fb pid r}"
      "distinct (map fst links)"
      "\<And>r b. (r, b) \<in> set links \<Longrightarrow> b = bs_contains (fr_priority_links fb) (r, pid)"
      "f1 = fb\<lparr> fr_links := filter (\<lambda>(l, r). l \<noteq> pid \<and> r \<noteq> pid) (fr_links fb),
         fr_priority_links := filter (\<lambda>(l, r). l \<noteq> pid \<and> r \<noteq> pid) (fr_priority_links fb) \<rparr>"
    by (rule take_links_law [OF okb, of pid]) (rule that; assumption)
  have rep: "\<lparr> report_exited = [pid], report_cleanup_handles = proc_resource_handles p,
      report_exit_signals = 0, report_down_messages = 0, report_recipients = [] \<rparr> = rep0"
    by (simp add: rep0_def handles_def p)
  have run: "exit_process_inner (Suc n) Q pid reason (f, t)
       = notify_links (exit_process_inner n Q) Q pid reason links (add_downs (map fst rs) rep0) (f1, t1)"
    using p ta(1) tm(1) tl(1) notify
    by (simp add: bind_st_def expect_st_def expect_def fa_def [symmetric] fb_def [symmetric]
        rep Let_def)
  show ?thesis
  proof (rule that [OF run])
    show "report_exited (add_downs (map fst rs) rep0) = [pid]" by (simp add: rep0_def)
    have "handles ta w = handles t w" if "w \<noteq> pid" for w
      using ta(5) [OF that] by (simp add: handles_def)
    moreover have "pt_get t1 pid = pt_get ta pid" using d ta(3) by (simp add: delivered_def)
    moreover have "pt_get t1 q = pt_get t q" if "q \<notin> living t" for q
      using d ta(3) ta(5) [of q] that pid by (auto simp: delivered_def)
    ultimately show "cascade_tables Q contents capacity reason t (add_downs (map fst rs) rep0) t1"
      using d ta(2-4,6) pid delivered_handles [OF d]
      by (auto simp: cascade_tables_def Let_def delivered_def rep0_def)
    have "fr_ok f1" using okb by (auto simp: fr_ok_def tl(5))
    then show "cascade_relations {pid} f f1"
      by (auto simp: cascade_relations_def tl(5) fb_def fa watch filter_filter case_prod_unfold
          intro!: filter_cong)
    show "set (map fst links) = {r. linked f pid r}" using tl(2) by (simp add: linked_def fb_def fa)
    show "distinct (map fst links)" by (rule tl(3))
    show "b = bs_contains (fr_priority_links f) (r, pid)" if "(r, b) \<in> set links" for r b
      using tl(4) [OF that] by (simp add: fb_def fa)
    show "told (downs reason f {pid}) t t1 (add_downs (map fst rs) rep0)"
      unfolding told_def
    proof
      fix w
      assume "w \<in> living t1"
      then have w: "w \<in> living ta" "w \<noteq> pid" using d ta(3) by (auto simp: delivered_def)
      have "received (the (pt_get t w)) (inbox rs w) (the (pt_get t1 w))"
        unfolding ta(5) [OF w(2), symmetric] using d w(1) by (simp add: delivered_def)
      moreover have "mset (inbox (filter (\<lambda>(w, _). w \<in> living ta) (map (watcher_notice reason pid)
            (map (\<lambda>(r, w, _, priority). (r, w, priority)) (filter (\<lambda>(_, _, target, _). target = pid)
               (filter (\<lambda>(_, w, _, _). w \<noteq> pid) ms))))) w)
          = mset (map (\<lambda>(r, _, target, priority). down_notice reason r target priority)
              (filter (\<lambda>(_, watcher, target, _). watcher = w \<and> target \<in> {pid}) ms))"
        for ms :: "(VmMonitorRef, VmProcessId \<times> VmProcessId \<times> bool) btree"
        using w by (induction ms)
          (auto simp: watcher_notice_def simp del: mset_map mset_filter filter_filter map_map split: if_splits)
      then have "mset (inbox rs w) = downs reason f {pid} w"
        by (simp add: rs_def tm(2) watch downs_def)
      ultimately show "\<exists>ns. received (the (pt_get t w)) ns (the (pt_get t1 w))
          \<and> mset ns = downs reason f {pid} w
          \<and> count_list (report_recipients (add_downs (map fst rs) rep0)) w = length ns"
        by (intro exI [of _ "inbox rs w"]) (simp add: rep0_def length_inbox)
    qed
  qed
qed

lemma falls_from_link:
  assumes "falls reason f t r q" "reason \<noteq> Normal" "linked f p r" "is_alive t r" "r \<notin> set (fr_trap_exits f)"
  shows "falls reason f t p q"
  using assms(1)
proof induction
  case start
  show ?case by (rule falls.spread [OF falls.start assms(2-5)])
qed (rule falls.spread)

lemma exits_below_step:
  assumes below: "exits_below Q contents capacity reason n"
  shows "exits_below Q contents capacity reason (Suc n)"
  unfolding exits_below_def
proof (intro allI impI)
  fix pid f and t :: "'a VmProcessTable"
  assume ok: "pt_ok Q contents capacity t" "fr_ok f" and pid: "pid \<in> living t" and n: "card (living t) \<le> Suc n"
  obtain rep links f1 t1 where head:
      "exit_process_inner (Suc n) Q pid reason (f, t)
         = notify_links (exit_process_inner n Q) Q pid reason links rep (f1, t1)"
      and T1: "cascade_tables Q contents capacity reason t rep t1" and ex: "report_exited rep = [pid]"
      and R1: "cascade_relations {pid} f f1"
      and owed: "told (downs reason f {pid}) t t1 rep"
      and links: "set (map fst links) = {r. linked f pid r}" "distinct (map fst links)"
      and lanes: "\<And>r b. (r, b) \<in> set links \<Longrightarrow> b = bs_contains (fr_priority_links f) (r, pid)"
    by (rule exit_head_law [OF ok pid, where reason = reason and n = n]) (rule that; assumption)
  let ?P = "set (map fst links)" and ?S = "link_signals reason pid links"
  have t1: "pt_ok Q contents capacity t1" "living t1 = living t - {pid}"
      "process_store.known pt_get t1 = process_store.known pt_get t"
    using T1 ex by (auto simp: cascade_tables_def)
  have f1: "fr_ok f1" "set (fr_trap_exits f1) = set (fr_trap_exits f) - {pid}"
    using R1 by (auto simp: cascade_relations_def)
  have "card (living t1) \<le> n"
    using n pid live_ids(3) [OF ok(1)] by (simp add: t1(2) card_Diff_singleton)
  then obtain rep2 f2 t2 where run: "notify_links (exit_process_inner n Q) Q pid reason links rep (f1, t1)
        = (Ok (merge_reports rep rep2), (f2, t2))"
      and c2: "cascade Q contents capacity reason (loop_starts reason ?P f1 t1) ?S f1 t1 rep2 f2 t2"
    using notify_links_law [OF below t1(1) f1(1), of pid links rep] t1(3) pid living_known links(2) by blast
  let ?K = "set (report_exited rep2)"
  note c = c2 [unfolded cascade_def]
  have T2: "cascade_tables Q contents capacity reason t1 rep2 t2" and R2: "cascade_relations ?K f1 f2"
    using c by blast+
  have "cascade_spread reason (loop_starts reason ?P f1 t1) ?P f1 t1 ?K f2 t2" using c by (elim conjE) simp
  note sp = this [unfolded cascade_spread_def]
  have sp1: "\<forall>q\<in>?K. \<exists>p\<in>loop_starts reason ?P f1 t1. falls reason f1 t1 p q" using sp by (elim conjE)
  have sp2: "reason \<noteq> Normal \<longrightarrow> (\<forall>r\<in>?P. r \<notin> living t2 \<or> r \<in> set (fr_trap_exits f2))" using sp by simp
  have sp3: "reason \<noteq> Normal \<longrightarrow> (\<forall>q\<in>?K. \<forall>r. linked f1 q r \<longrightarrow> r \<notin> living t2 \<or> r \<in> set (fr_trap_exits f2))"
    using sp by simp
  have life: "living t2 = living t1 - ?K" "?K \<subseteq> living t1"
    using T2 by (auto simp: cascade_tables_def Let_def)
  have trap2: "set (fr_trap_exits f2) = set (fr_trap_exits f1) - ?K"
    using R2 by (auto simp: cascade_relations_def)
  have disj: "{pid} \<inter> ?K = {}" using life t1(2) by auto
  have "cascade_relations ({pid} \<union> ?K) f f2" by (rule cascade_relations_trans [OF R1 R2])
  moreover have "cascade_tables Q contents capacity reason t (merge_reports rep rep2) t2"
    by (rule cascade_tables_trans [OF T1 T2])
  moreover have "cascade_owed reason Map.empty f t t2 (merge_reports rep rep2)"
  proof -
    have told: "told (\<lambda>w. downs reason f {pid} w + (downs reason f1 ?K w + signals reason f1 ?K w + pending ?S f1 w))
        t t2 (merge_reports rep rep2)"
      by (rule told_trans [OF owed]) (use c life in \<open>simp_all add: cascade_owed_def\<close>)
    have "pending ?S f1 w = signals reason f {pid} w" if "w \<in> living t2" for w
    proof -
      have w: "w \<noteq> pid" using that life t1(2) by auto
      have linked: "{q. q = pid \<and> linked f q w} = (if w \<in> ?P then {pid} else {})" using links(1) by auto
      have S: "?S w = (if w \<in> ?P then Some (exit_notice reason pid (bs_contains (fr_priority_links f) (w, pid))) else None)"
      proof (cases "map_of links w")
        case None
        then show ?thesis by (simp add: link_signals_def map_of_map map_of_eq_None_iff)
      next
        case (Some b)
        then have "w \<in> ?P" "b = bs_contains (fr_priority_links f) (w, pid)"
          using lanes map_of_SomeD [OF Some] by force+
        then show ?thesis using Some by (simp add: link_signals_def map_of_map)
      qed
      show ?thesis using f1(2) w by (simp add: pending_def signals_def linked S)
    qed
    then show ?thesis
      unfolding cascade_owed_def
      by (intro told_cong [OF told])
        (use downs_split [OF R1 disj] signals_split [OF R1 disj] life t1(2) ex in simp)
  qed
  moreover have "cascade_spread reason {pid} {} f t ({pid} \<union> ?K) f2 t2"
  proof -
    have falls1: "falls reason f t p q" if "falls reason f1 t1 p q" for p q
      by (rule falls_mono [OF that]) (use t1(2) f1(2) cascade_relations_linked [OF R1] in auto)
    have origin: "falls reason f t pid q" if q: "q \<in> ?K" for q
    proof -
      obtain r where r: "r \<in> loop_starts reason ?P f1 t1" "falls reason f1 t1 r q"
        using bspec [OF sp1 q] by (elim bexE)
      then have "reason \<noteq> Normal" "linked f pid r" "is_alive t r" "r \<notin> set (fr_trap_exits f)"
        using links(1) t1(2) f1(2) by (auto simp: loop_starts_def living_iff [symmetric] split: if_splits)
      then show ?thesis by (rule falls_from_link [OF falls1 [OF r(2)]])
    qed
    have closed: "r \<notin> living t2 \<or> r \<in> set (fr_trap_exits f2)"
      if "reason \<noteq> Normal" "q \<in> {pid} \<union> ?K" "linked f q r" for q r
    proof (cases "q = pid \<or> r = pid")
      case True
      have "r \<in> ?P" if "q = pid"
        using that \<open>linked f q r\<close> links(1) by simp
      moreover have "\<forall>r\<in>?P. r \<notin> living t2 \<or> r \<in> set (fr_trap_exits f2)"
        using sp2 that(1) by simp
      moreover have "pid \<notin> living t2" using life(1) t1(2) by simp
      ultimately show ?thesis using True by auto
    next
      case False
      then have "linked f1 q r" "q \<in> ?K"
        using that(2,3) cascade_relations_linked [OF R1] by auto
      then show ?thesis using sp3 that(1) by blast
    qed
    have "\<exists>p\<in>{pid}. falls reason f t p q" if "q \<in> {pid} \<union> ?K" for q
      using that origin falls.start by auto
    then show ?thesis unfolding cascade_spread_def using closed by simp
  qed
  ultimately have "cascade Q contents capacity reason {pid} Map.empty f t (merge_reports rep rep2) f2 t2"
    by (simp add: cascade_def ex)
  then show "\<exists>rep f' t'. exit_process_inner (Suc n) Q pid reason (f, t) = (Ok rep, (f', t'))
      \<and> pid \<in> set (report_exited rep) \<and> cascade Q contents capacity reason {pid} Map.empty f t rep f' t'"
    using head run ex by auto
qed

lemma exits_below_all: "exits_below Q contents capacity reason n"
proof (induction n)
  case 0
  show ?case
    using live_ids(3) by (auto simp: exits_below_def)
qed (rule exits_below_step)

text \<open>The whole operation on a live process, with the fuel it is given.\<close>

lemma exit_cascade_law:
  assumes ok: "pt_ok Q contents capacity t" "fr_ok f" and pid: "is_alive t pid"
  obtains rep f' t' where "failure_exit_process Q pid reason (f, t) = (Ok rep, (f', t'))"
    "cascade Q contents capacity reason {pid} Map.empty f t rep f' t'"
    "set (report_exited rep) = {q. falls reason f t pid q}"
proof -
  have live: "pid \<in> living t" using pid by (simp add: living_iff)
  have fuel: "card (living t) \<le> Suc (length (live_process_ids t))" using live_ids(2) [OF ok(1)] by simp
  obtain rep f' t' where run: "exit_process_inner (Suc (length (live_process_ids t))) Q pid reason (f, t)
        = (Ok rep, (f', t'))" and start: "pid \<in> set (report_exited rep)"
      and c: "cascade Q contents capacity reason {pid} Map.empty f t rep f' t'"
    using exits_below_all [of Q contents capacity reason "Suc (length (live_process_ids t))"]
      ok live fuel unfolding exits_below_def by blast
  let ?K = "set (report_exited rep)"
  have life: "living t' = living t - ?K" and trap: "set (fr_trap_exits f') = set (fr_trap_exits f) - ?K"
    using c by (auto simp: cascade_def cascade_tables_def Let_def cascade_relations_def)
  have "q \<in> ?K" if "falls reason f t pid q" for q
    using that
  proof induction
    case start
    show ?case by (rule \<open>pid \<in> ?K\<close>)
  next
    case (spread q r)
    then have "r \<notin> living t' \<or> r \<in> set (fr_trap_exits f')"
      using c unfolding cascade_def cascade_spread_def by blast
    then show ?case using life trap spread.hyps by (auto simp: living_iff [symmetric])
  qed
  moreover have "falls reason f t pid q" if "q \<in> ?K" for q
    using c that unfolding cascade_def cascade_spread_def by blast
  ultimately have "?K = {q. falls reason f t pid q}" by blast
  with run c show ?thesis by (intro that) (simp_all add: failure_exit_process_def)
qed

end
