(* ===== verification/Failure_Properties.thy ===== *)
theory Failure_Properties
  imports Failure_Laws Process_Properties
begin

text \<open>
  The properties of links, monitors and trapped exits, and runs of them on two linked
  processes.
\<close>

lemma is_linked_linked: "fr_ok f \<Longrightarrow> is_linked f p q \<longleftrightarrow> linked f p q"
  by (force simp: is_linked_def bs_contains_def canonical_link_def linked_def fr_ok_def)

lemma fr_ok_default: "fr_ok failure_default"
  by (simp add: fr_ok_def failure_default_def)

section \<open>Links\<close>

lemma failure_ensure_live_Ok: "failure_ensure_live t p action = Ok () \<longleftrightarrow> is_alive t p"
  by (auto simp: failure_ensure_live_def is_alive_def split: option.splits)

lemma canonical_link_eq: "canonical_link p q = canonical_link p' q' \<longleftrightarrow> {p, q} = {p', q'}"
  by (auto simp: canonical_link_def doubleton_eq_iff split: if_splits)

lemma link_law:
  assumes "p \<noteq> q" "is_alive t p" "is_alive t q"
  shows "link_with_priority t p q priority f
    = (Ok (), f\<lparr> fr_links := bs_insert (canonical_link p q) (fr_links f),
        fr_priority_links := (if priority then bs_insert (p, q) (fr_priority_links f)
          else bs_remove (p, q) (fr_priority_links f)) \<rparr>)"
  using assms failure_ensure_live_Ok [of t p "''link''"] failure_ensure_live_Ok [of t q "''link''"]
  by (simp add: link_with_priority_def bind_st_def read_st_def)

text \<open>linking two live processes links exactly that pair, in both directions, whatever
  the priority; linking a process to itself or to one that is not alive is an error without
  effect; and unlinking removes the pair and no other.\<close>

theorem link_then_unlink:
  assumes ok: "fr_ok f" and link: "link_with_priority t p q priority f = (r, f')"
  shows "if p \<noteq> q \<and> is_alive t p \<and> is_alive t q
    then r = Ok () \<and> fr_ok f'
       \<and> (\<forall>a b. is_linked f' a b \<longleftrightarrow> {a, b} = {p, q} \<or> is_linked f a b)
       \<and> (\<forall>a b. is_linked (failure_unlink q p f') a b \<longleftrightarrow> {a, b} \<noteq> {p, q} \<and> is_linked f a b)
    else (\<exists>e. r = Err e) \<and> f' = f"
proof (cases "p \<noteq> q \<and> is_alive t p \<and> is_alive t q")
  case True
  then have f': "r = Ok ()" "f' = f\<lparr> fr_links := bs_insert (canonical_link p q) (fr_links f),
        fr_priority_links := (if priority then bs_insert (p, q) (fr_priority_links f)
          else bs_remove (p, q) (fr_priority_links f)) \<rparr>"
    using link link_law [of p q t priority f] by auto
  have "fr_ok f'"
    using ok True by (auto simp: f' fr_ok_def canonical_link_def)
  moreover have "is_linked f' a b \<longleftrightarrow> {a, b} = {p, q} \<or> is_linked f a b" for a b
    by (auto simp: f' is_linked_def bs_contains_def canonical_link_eq)
  moreover have "is_linked (failure_unlink q p f') a b \<longleftrightarrow> {a, b} \<noteq> {p, q} \<and> is_linked f a b" for a b
    using canonical_link_eq [of q p p q]
    by (auto simp: f' is_linked_def bs_contains_def canonical_link_eq failure_unlink_def)
  ultimately show ?thesis using True f'(1) by simp
next
  case False
  then show ?thesis
    using link by (auto simp: link_with_priority_def bind_st_def read_st_def failure_ensure_live_def
        is_alive_def split: if_splits option.splits)
qed

section \<open>The exit cascade\<close>

text \<open>C5: an exit takes down exactly the processes reachable from the exiting one along links
  through live processes that do not trap exits (only itself when the reason is normal).
  Each is reported once and gets the reason, its resource handles are all handed back for
  cleanup, every other process stays as alive as it was, and no link or monitor of an
  exited process is left. The recursion through the links always ends.\<close>

theorem exit_cascade_exact:
  assumes ok: "pt_ok Q contents capacity t" "fr_ok f" and pid: "is_alive t pid"
  shows "\<exists>rep f' t'. failure_exit_process Q pid reason (f, t) = (Ok rep, (f', t'))
     \<and> distinct (report_exited rep) \<and> set (report_exited rep) = {q. falls reason f t pid q}
     \<and> (\<forall>q. is_alive t' q \<longleftrightarrow> is_alive t q \<and> \<not> falls reason f t pid q)
     \<and> (\<forall>q. falls reason f t pid q \<longrightarrow> (\<exists>p. pt_get t' q = Some p \<and> proc_state p = Exited reason))
     \<and> report_cleanup_handles rep
         = concat (map (\<lambda>q. proc_resource_handles (the (pt_get t q))) (report_exited rep))
     \<and> (\<forall>p q. is_linked f' p q \<longleftrightarrow> is_linked f p q \<and> \<not> falls reason f t pid p \<and> \<not> falls reason f t pid q)
     \<and> fr_monitors f' = filter (\<lambda>(_, w, target, _). \<not> falls reason f t pid w \<and> \<not> falls reason f t pid target)
         (fr_monitors f)
     \<and> pt_ok Q contents capacity t' \<and> fr_ok f'"
proof -
  obtain rep f' t' where run: "failure_exit_process Q pid reason (f, t) = (Ok rep, (f', t'))"
      and c: "cascade Q contents capacity reason {pid} Map.empty f t rep f' t'"
      and K: "set (report_exited rep) = {q. falls reason f t pid q}"
    by (rule exit_cascade_law [OF ok pid])
  have T: "cascade_tables Q contents capacity reason t rep t'"
      and R: "cascade_relations (set (report_exited rep)) f f'"
    using c unfolding cascade_def by blast+
  note T = T [unfolded cascade_tables_def Let_def K]
  have fr: "fr_ok f'" using R by (simp add: cascade_relations_def)
  have known: "\<exists>p. pt_get t' q = Some p" if "falls reason f t pid q" for q
  proof -
    have "q \<in> process_store.known pt_get t'" using T that living_known by blast
    then show ?thesis by (auto simp: pt.known_def)
  qed
  have "is_alive t' q \<longleftrightarrow> is_alive t q \<and> \<not> falls reason f t pid q" for q
    using T by (auto simp: living_iff [symmetric])
  moreover have "\<exists>p. pt_get t' q = Some p \<and> proc_state p = Exited reason" if "falls reason f t pid q" for q
    using known [OF that] T that by fastforce
  moreover have "is_linked f' p q \<longleftrightarrow> is_linked f p q \<and> \<not> falls reason f t pid p \<and> \<not> falls reason f t pid q" for p q
    using cascade_relations_linked [OF R] K by (simp add: is_linked_linked fr ok(2))
  moreover have "fr_monitors f' = filter (\<lambda>(_, w, target, _). \<not> falls reason f t pid w \<and> \<not> falls reason f t pid target)
         (fr_monitors f)"
    using R K by (simp add: cascade_relations_def)
  ultimately show ?thesis
    using run T K fr by (intro exI [of _ rep] exI [of _ f'] exI [of _ t']) (simp add: handles_def [abs_def])
qed

text \<open>C30: what an exit tells its survivors, and that it does nothing else to them. The record of
  every process alive after the exit is the one it had before with system messages
  integrated into its mailbox, and these carry, each once and no other: for each of its
  monitors whose target exited, the DOWN message of that monitor with the target and the
  reason, sent by the target on the lane the monitor asked for; and, when it traps exits, for each
  exited process it was linked to, the exit signal with that process and the reason, sent
  by that process on the lane this link has for it. The report counts exactly these messages
  for it.\<close>

theorem survivors_notified:
  assumes ok: "pt_ok Q contents capacity t" "fr_ok f" and pid: "is_alive t pid"
    and run: "failure_exit_process Q pid reason (f, t) = (Ok rep, (f', t'))" and w: "is_alive t' w"
  shows "\<exists>ms. pt_get t' w = Some (fold proc_integrate_message ms (the (pt_get t w)))
    \<and> mset (map (\<lambda>m. (msg_sender m, msg_payload m, msg_priority m)) ms)
       = mset (map (\<lambda>(r, _, target, priority). (target, down_message r target (reason_value reason),
             if priority then Priority else Ordinary))
           (filter (\<lambda>(_, watcher, target, _). watcher = w \<and> falls reason f t pid target) (fr_monitors f)))
         + (if w \<in> set (fr_trap_exits f)
            then image_mset (\<lambda>q. (q, exit_signal_message q reason,
                if bs_contains (fr_priority_links f) (w, q) then Priority else Ordinary))
              (mset_set {q. falls reason f t pid q \<and> is_linked f q w})
            else {#})
    \<and> (\<forall>m\<in>set ms. msg_boundary_type m = None \<and> msg_managed_fragment m = None \<and> msg_accounted_bytes m = 0)
    \<and> count_list (report_recipients rep) w = length ms
    \<and> length (proc_mailbox (the (pt_get t' w)))
       = length (proc_mailbox (the (pt_get t w))) + count_list (report_recipients rep) w
    \<and> proc_resource_handles (the (pt_get t' w)) = proc_resource_handles (the (pt_get t w))"
proof -
  have c: "cascade Q contents capacity reason {pid} Map.empty f t rep f' t'"
      and K: "set (report_exited rep) = {q. falls reason f t pid q}"
    using exit_cascade_law [OF ok pid, where reason = reason] run
    by (metis prod.inject outcome.inject(1))+
  have w: "w \<in> living t'" using w by (simp add: living_iff)
  then have kept: "pt_get t' w = Some (the (pt_get t' w))" by (auto simp: pt.alive_def)
  have "cascade_owed reason Map.empty f t t' rep" using c unfolding cascade_def by blast
  then obtain ns where ns: "received (the (pt_get t w)) ns (the (pt_get t' w))"
      "mset ns = downs reason f {q. falls reason f t pid q} w + signals reason f {q. falls reason f t pid q} w"
      "count_list (report_recipients rep) w = length ns"
    using w by (auto simp: cascade_owed_def told_def K)
  then obtain ms where ms: "list_all2 carries ms ns" "the (pt_get t' w) = fold proc_integrate_message ms (the (pt_get t w))"
    by (auto simp: received_def)
  have fields: "map (\<lambda>m. (msg_sender m, msg_payload m, msg_priority m)) ms = ns"
    "\<forall>m\<in>set ms. msg_boundary_type m = None \<and> msg_managed_fragment m = None \<and> msg_accounted_bytes m = 0"
    using ms(1) by (induction rule: list_all2_induct) (simp_all add: carries_def)
  have len: "length ns = length ms" using list_all2_lengthD [OF ms(1)] by simp
  show ?thesis
  proof (intro exI [of _ ms] conjI)
    show "pt_get t' w = Some (fold proc_integrate_message ms (the (pt_get t w)))" using kept ms(2) by simp
    show "count_list (report_recipients rep) w = length ms" using ns(3) len by simp
    show "proc_resource_handles (the (pt_get t' w)) = proc_resource_handles (the (pt_get t w))"
      by (rule received_handles [OF ns(1)])
    show "length (proc_mailbox (the (pt_get t' w)))
       = length (proc_mailbox (the (pt_get t w))) + count_list (report_recipients rep) w"
      using received_length [OF ns(1)] ns(3) by simp
  qed (use fields ns(2) in \<open>simp_all add: downs_def signals_def down_notice_def exit_notice_def lane_of_def
      is_linked_linked [OF ok(2)]\<close>)
qed

section \<open>Monitors\<close>

text \<open>Every monitor was allocated by the allocator that the next one will come from.\<close>

definition monitors_allocated :: "VmFailureRuntime \<Rightarrow> VmReferenceAllocator \<Rightarrow> bool" where
  "monitors_allocated f a \<longleftrightarrow> (\<forall>r\<in>set (bt_keys (fr_monitors f)). allocated a r)"

lemma send_down_payload_law:
  assumes ok: "pt_ok Q contents capacity t" and w: "is_alive t watcher" and target: "pt_get t target \<noteq> None"
  obtains t' i sequence where "send_down_payload Q target watcher r v priority t = (Ok True, t')"
    "pt_ok Q contents capacity t'"
    "pt_get t' = (pt_get t)(watcher \<mapsto> proc_integrate_message (delivered_message i sequence target
       (plain_delivery (down_message r target v) 0 (if priority then Priority else Ordinary)))
       (the (pt_get t watcher)))"
proof -
  let ?lane = "if priority then Priority else Ordinary"
  let ?delivery = "plain_delivery (down_message r target v) 0 ?lane"
  obtain p where p: "pt_get t watcher = Some p" "\<not> is_exited (proc_state p)"
    using w by (auto simp: is_alive_get)
  have known: "pt_contains t target" using target pt_contains_get [OF ok] by simp
  have valid: "validate_recipient t watcher = Ok ()" using p by (simp add: validate_recipient_def)
  have live: "failure_is_live t watcher" using p by (simp add: failure_is_live_def)
  obtain t' i sequence where d: "enqueue_message Q target watcher ?delivery t = (Ok i, t')"
      "pt_ok Q contents capacity t'"
      "pt_get t' = (pt_get t)(watcher \<mapsto> proc_integrate_message (delivered_message i sequence target ?delivery) p)"
    using pt.deliver_live [OF ok p] by blast
  have "send_down_payload Q target watcher r v priority t = (Ok True, t')"
    using live known valid d(1)
    by (cases priority) (simp_all add: send_down_payload_def send_system_lane_def send_system_def
        send_system_message_def send_priority_system_message_def bind_st_def read_st_def)
  with d(2,3) show ?thesis by (intro that [of t' i sequence]) (simp_all add: p)
qed

text \<open>monitoring a process from a live watcher returns a fresh reference, never one of
  another monitor. If the target is alive the monitor is added and the others stay; if it
  has already exited the watcher gets at once one message that completes this very monitor,
  and no monitor is left behind.\<close>

theorem monitor_registers_or_completes:
  assumes ok: "pt_ok Q contents capacity t" "fr_ok f" "monitors_allocated f a"
    and w: "is_alive t watcher" and p: "pt_get t target = Some p"
    and alloc: "allocate_reference a = (Ok r, a')"
  shows "\<exists>f' t'. monitor_or_complete_with_priority Q watcher target priority (f, a, t)
        = (Ok \<lparr> registration_monitor_ref = r, registration_completed = is_exited (proc_state p) \<rparr>, (f', a', t'))
     \<and> bt_get (fr_monitors f) r = None \<and> fr_ok f' \<and> monitors_allocated f' a' \<and> pt_ok Q contents capacity t'
     \<and> (if is_exited (proc_state p)
        then f' = f \<and> (\<exists>m. is_monitor_down_message (msg_payload m) r
               \<and> proc_mailbox (the (pt_get t' watcher)) = enqueue_lane m (proc_mailbox (the (pt_get t watcher))))
        else t' = t \<and> bt_get (fr_monitors f') = (bt_get (fr_monitors f))(r \<mapsto> (watcher, target, priority)))"
proof -
  have absent: "bt_get (fr_monitors f) r = None"
  proof (rule ccontr)
    assume "bt_get (fr_monitors f) r \<noteq> None"
    then have "r \<in> set (bt_keys (fr_monitors f))" by (simp add: bt_keys_iff bt_contains_def)
    then show False using ok(3) allocate_reference_Ok(1) [OF alloc] by (auto simp: monitors_allocated_def)
  qed
  have all: "monitors_allocated f a'"
    using ok(3) allocate_reference_Ok(2) [OF alloc] by (auto simp: monitors_allocated_def)
  have live: "failure_ensure_live t watcher ''monitor from'' = Ok ()" using w by (simp add: failure_ensure_live_Ok)
  note start = monitor_or_complete_with_priority_def bind_st_def read_st_def ok_or_def
    allocate_reference_msg_def map_err_st_def map_err_def
  show ?thesis
  proof (cases "is_exited (proc_state p)")
    case True
    obtain t' i sequence where d: "send_down_payload Q target watcher r (VAtom ''noproc'') priority t = (Ok True, t')"
        "pt_ok Q contents capacity t'"
        "pt_get t' = (pt_get t)(watcher \<mapsto> proc_integrate_message (delivered_message i sequence target
           (plain_delivery (down_message r target (VAtom ''noproc'')) 0 (if priority then Priority else Ordinary)))
           (the (pt_get t watcher)))"
      by (rule send_down_payload_law [OF ok(1) w, of target r "VAtom ''noproc''" priority]) (use p in auto)
    let ?m = "delivered_message i sequence target
           (plain_delivery (down_message r target (VAtom ''noproc'')) 0 (if priority then Priority else Ordinary))"
    have "is_monitor_down_message (msg_payload ?m) r"
      by (simp add: delivered_message_def plain_delivery_def is_monitor_down_message_def down_message_def)
    moreover have "proc_mailbox (the (pt_get t' watcher)) = enqueue_lane ?m (proc_mailbox (the (pt_get t watcher)))"
      by (simp add: d(3) proc_integrate_mailbox)
    ultimately show ?thesis
      using True live p alloc d(1,2) absent all ok(2) by (auto simp: start)
  next
    case False
    let ?f = "f\<lparr> fr_monitors := bt_insert r (watcher, target, priority) (fr_monitors f) \<rparr>"
    have "fr_ok ?f" using ok(2) by (simp add: fr_ok_def)
    moreover have "monitors_allocated ?f a'"
      using all allocate_reference_Ok(2) [OF alloc, of r] by (auto simp: monitors_allocated_def bt_keys_iff)
    ultimately show ?thesis
      using False live p alloc absent ok(1) by (auto simp: start)
  qed
qed

section \<open>Concrete runs\<close>

text \<open>The processes 1 and 2 of \<open>sample_two\<close>, linked; in the second runtime process 2 traps
  exits and monitors process 1.\<close>

definition pair_linked :: VmFailureRuntime where
  "pair_linked = \<lparr> fr_links = [(1, 2)], fr_priority_links = [], fr_monitors = [], fr_trap_exits = [] \<rparr>"

definition pair_trapped :: VmFailureRuntime where
  "pair_trapped = \<lparr> fr_links = [(1, 2)], fr_priority_links = [],
     fr_monitors = [(VmReferenceId ''node'' 1 1, (2, 1, False))], fr_trap_exits = [2] \<rparr>"

lemma pair_ok: "fr_ok pair_linked" "fr_ok pair_trapped"
  by (simp_all add: fr_ok_def pair_linked_def pair_trapped_def bs_ok_def bt_ok_def)

lemma pair_alive: "is_alive sample_two 1" "is_alive sample_two 2"
  by (simp_all add: is_alive_def sample_two_facts(2) new_process_def)

theorem link_then_unlink_witness:
  "\<exists>f'. link_with_priority sample_two 2 1 False failure_default = (Ok (), f')
     \<and> is_linked f' 1 2 \<and> \<not> is_linked (failure_unlink 1 2 f') 1 2"
proof -
  obtain r f' where run: "link_with_priority sample_two 2 1 False failure_default = (r, f')"
    by (cases "link_with_priority sample_two 2 1 False failure_default")
  from link_then_unlink [OF fr_ok_default run] run show ?thesis
    by (auto simp: pair_alive)
qed

theorem exit_cascade_exact_witness:
  "\<exists>rep f' t'. failure_exit_process list_queue 1 Killed (pair_linked, sample_two) = (Ok rep, (f', t'))
     \<and> \<not> is_alive t' 1 \<and> \<not> is_alive t' 2 \<and> \<not> is_linked f' 1 2"
proof -
  have "falls Killed pair_linked sample_two 1 2"
    by (rule falls.spread [OF falls.start])
      (simp_all add: linked_def pair_linked_def pair_alive)
  then show ?thesis
    using exit_cascade_exact [OF sample_two_facts(1) pair_ok(1) pair_alive(1), of Killed]
    by (auto intro: falls.start)
qed

theorem survivors_notified_witness:
  "\<exists>rep f' t' ms. failure_exit_process list_queue 1 Killed (pair_trapped, sample_two) = (Ok rep, (f', t'))
     \<and> pt_get t' 2 = Some (fold proc_integrate_message ms (new_process 2 (Some 1) sample_source))
     \<and> mset (map (\<lambda>m. (msg_sender m, msg_payload m, msg_priority m)) ms)
       = {# (1, down_message (VmReferenceId ''node'' 1 1) 1 (reason_value Killed), Ordinary),
            (1, exit_signal_message 1 Killed, Ordinary) #}
     \<and> length (proc_mailbox (the (pt_get t' 2))) = 2"
proof -
  obtain rep f' t' where run: "failure_exit_process list_queue 1 Killed (pair_trapped, sample_two)
        = (Ok rep, (f', t'))"
      and c: "cascade list_queue fst snd Killed {1} Map.empty pair_trapped sample_two rep f' t'"
      and K: "set (report_exited rep) = {q. falls Killed pair_trapped sample_two 1 q}"
    by (rule exit_cascade_law [OF sample_two_facts(1) pair_ok(2) pair_alive(1), where reason = Killed])
  have only: "falls Killed pair_trapped sample_two 1 q \<longleftrightarrow> q = 1" for q
  proof
    show "q = 1" if "falls Killed pair_trapped sample_two 1 q"
      using that by induction (auto simp: linked_def pair_trapped_def)
  qed (simp add: falls.start)
  have "living t' = living sample_two - {1}"
    using c K only by (auto simp: cascade_def cascade_tables_def Let_def)
  then have "is_alive t' 2" using pair_alive by (simp add: living_iff [symmetric])
  note law = survivors_notified [OF sample_two_facts(1) pair_ok(2) pair_alive(1) run this]
  have "is_linked pair_trapped 1 2"
    by (simp add: is_linked_def pair_trapped_def bs_contains_def canonical_link_def)
  then have links: "{q. falls Killed pair_trapped sample_two 1 q \<and> is_linked pair_trapped q 2} = {1}"
    by (auto simp: only)
  have fields: "fr_monitors pair_trapped = [(VmReferenceId ''node'' 1 1, (2, 1, False))]"
      "2 \<in> set (fr_trap_exits pair_trapped)" "fr_priority_links pair_trapped = []"
    by (simp_all add: pair_trapped_def)
  have two: "pt_get sample_two 2 = Some (new_process 2 (Some 1) sample_source)"
    by (simp add: sample_two_facts(2))
  have "\<exists>ms. pt_get t' 2 = Some (fold proc_integrate_message ms (new_process 2 (Some 1) sample_source))
    \<and> mset (map (\<lambda>m. (msg_sender m, msg_payload m, msg_priority m)) ms)
       = {# (1, down_message (VmReferenceId ''node'' 1 1) 1 (reason_value Killed), Ordinary),
            (1, exit_signal_message 1 Killed, Ordinary) #}
    \<and> length (proc_mailbox (the (pt_get t' 2))) = length ms"
    by (rule ex_forward [OF law [unfolded links fields(1,3) two]])
      (elim conjE, use only fields(2) in \<open>simp add: new_process_def bs_contains_def\<close>)
  then obtain ms where ms: "pt_get t' 2 = Some (fold proc_integrate_message ms (new_process 2 (Some 1) sample_source))"
    "mset (map (\<lambda>m. (msg_sender m, msg_payload m, msg_priority m)) ms)
       = {# (1, down_message (VmReferenceId ''node'' 1 1) 1 (reason_value Killed), Ordinary),
            (1, exit_signal_message 1 Killed, Ordinary) #}"
    "length (proc_mailbox (the (pt_get t' 2))) = length ms"
    by auto
  have "length ms = 2" using arg_cong [OF ms(2), of size] by simp
  with run ms show ?thesis by auto
qed

theorem monitor_registers_or_completes_witness:
  "\<exists>f' a' t'. monitor_or_complete_with_priority list_queue 2 1 True (failure_default, sample_allocator, sample_two)
       = (Ok \<lparr> registration_monitor_ref = VmReferenceId ''node'' 1 1, registration_completed = False \<rparr>, (f', a', t'))
     \<and> bt_get (fr_monitors f') (VmReferenceId ''node'' 1 1) = Some (2, 1, True)"
proof -
  have alloc: "allocate_reference sample_allocator
      = (Ok (VmReferenceId ''node'' 1 1), sample_allocator\<lparr> alloc_next_reference_id := 1 \<rparr>)"
    by (simp add: allocate_reference_def sample_allocator_def checked_add_def)
  have m: "monitors_allocated failure_default sample_allocator"
    by (simp add: monitors_allocated_def failure_default_def bt_keys_def)
  have p: "pt_get sample_two 1 = Some (new_process 1 None sample_source)"
    by (simp add: sample_two_facts(2))
  from monitor_registers_or_completes [OF sample_two_facts(1) fr_ok_default m pair_alive(2) p alloc, of True]
  show ?thesis by (auto simp: new_process_def)
qed

end
