(* ===== verification/Vm_Scheduler.thy ===== *)
theory Vm_Scheduler
  imports Process_Table
begin

text \<open>
  The cooperative scheduler of \<open>runtime/vm/scheduler.rs\<close> in its complete form (the slice
  runner is compiled with the benchmark tools), its accounting
  (\<open>scheduler/telemetry.rs\<close>) and the transfer of a placement (\<open>scheduler/transfer.rs\<close>).
  An operation that takes the process table too has a pair for its state. The histories
  the source keeps for its own tests, the queue transitions and the contention
  telemetry, are left out: nothing here reads them. Lengths and indices are \<open>nat\<close>.
\<close>

section \<open>Data\<close>

record VmSchedulerConfig =
  config_reductions_per_slice :: u64
  config_max_empty_polls :: nat

definition scheduler_config_new :: "u64 \<Rightarrow> nat \<Rightarrow> VmSchedulerConfig" where
  "scheduler_config_new reductions_per_slice max_empty_polls =
     \<lparr> config_reductions_per_slice = max reductions_per_slice 1,
       config_max_empty_polls = max max_empty_polls 1 \<rparr>"

definition scheduler_config_default :: VmSchedulerConfig where
  "scheduler_config_default = scheduler_config_new 100 64"

datatype VmSchedulerClass = SchedPriority | SchedNormal | SchedBackground

fun queue_index :: "VmSchedulerClass \<Rightarrow> nat" where
  "queue_index SchedPriority = 0"
| "queue_index SchedNormal = 1"
| "queue_index SchedBackground = 2"

definition VM_SCHEDULER_CLASS_CYCLE :: "VmSchedulerClass list" where
  "VM_SCHEDULER_CLASS_CYCLE =
     [SchedPriority, SchedPriority, SchedNormal, SchedPriority, SchedNormal, SchedBackground]"

definition VM_MEMORY_BYTES_PER_REDUCTION :: nat where "VM_MEMORY_BYTES_PER_REDUCTION = 1024"

definition VM_SCHEDULER_OPERATION_REDUCTIONS :: u64 where "VM_SCHEDULER_OPERATION_REDUCTIONS = 1"

record VmSchedulerSlice =
  slice_pid :: VmProcessId
  slice_tick :: u64
  slice_reduction_budget :: u64

datatype VmSchedulerDecision = Yield u64 | Block u64 | Exit u64 VmExitReason

fun decision_reductions :: "VmSchedulerDecision \<Rightarrow> u64" where
  "decision_reductions (Yield reductions) = reductions"
| "decision_reductions (Block reductions) = reductions"
| "decision_reductions (Exit reductions _) = reductions"

datatype VmSchedulerOutcome = Ran | RunBlocked | RunExited "string list" | RunCancelled "string list" | Idle

record VmSchedulerRun =
  run_pid :: "VmProcessId option"
  run_tick :: u64
  run_reductions_charged :: u64
  run_outcome :: VmSchedulerOutcome

record VmSchedulerProcessMetrics =
  pm_pid :: u64
  pm_reductions :: u64
  pm_memory_reductions :: u64
  pm_slices :: u64
  pm_preemptions :: u64
  pm_max_wait_ticks :: u64
  pm_first_run_tick :: "u64 option"
  pm_last_run_tick :: "u64 option"

definition process_metrics_default :: VmSchedulerProcessMetrics where
  "process_metrics_default = \<lparr> pm_pid = 0, pm_reductions = 0, pm_memory_reductions = 0, pm_slices = 0,
     pm_preemptions = 0, pm_max_wait_ticks = 0, pm_first_run_tick = None, pm_last_run_tick = None \<rparr>"

record VmSchedulerMetrics =
  m_total_reductions :: u64
  m_total_memory_reductions :: u64
  m_total_slices :: u64
  m_preemptions :: u64
  m_max_queue_depth :: nat
  m_processes :: "(u64, VmSchedulerProcessMetrics) btree"

definition scheduler_metrics_default :: VmSchedulerMetrics where
  "scheduler_metrics_default = \<lparr> m_total_reductions = 0, m_total_memory_reductions = 0,
     m_total_slices = 0, m_preemptions = 0, m_max_queue_depth = 0, m_processes = [] \<rparr>"

text \<open>\<open>entry(pid).or_default()\<close>, updated in place.\<close>

definition update_metrics :: "u64 \<Rightarrow> (VmSchedulerProcessMetrics \<Rightarrow> VmSchedulerProcessMetrics)
    \<Rightarrow> VmSchedulerMetrics \<Rightarrow> VmSchedulerMetrics" where
  "update_metrics pid f m = m\<lparr> m_processes := bt_insert pid
     (f (case bt_get (m_processes m) pid of Some pm \<Rightarrow> pm | None \<Rightarrow> process_metrics_default))
     (m_processes m) \<rparr>"

record VmScheduler =
  sched_config :: VmSchedulerConfig
  sched_owner :: u64
  sched_queues :: "VmProcessId list list"
  sched_queued :: "VmProcessId bset"
  sched_classes :: "(VmProcessId, VmSchedulerClass) btree"
  sched_enqueued_at :: "(VmProcessId, u64) btree"
  sched_class_cycle_cursor :: nat
  sched_tick :: u64
  sched_metrics :: VmSchedulerMetrics

definition scheduler_with_owner :: "VmSchedulerConfig \<Rightarrow> u64 \<Rightarrow> VmScheduler" where
  "scheduler_with_owner config owner = \<lparr> sched_config = config, sched_owner = owner,
     sched_queues = [[], [], []], sched_queued = [], sched_classes = [], sched_enqueued_at = [],
     sched_class_cycle_cursor = 0, sched_tick = 0, sched_metrics = scheduler_metrics_default \<rparr>"

definition scheduler_new :: "VmSchedulerConfig \<Rightarrow> VmScheduler" where
  "scheduler_new config = scheduler_with_owner config 1"

type_synonym 'q scheduled = "VmScheduler \<times> 'q VmProcessTable"

definition on_table :: "('q VmProcessTable, vm_error, 'a) stateful \<Rightarrow> ('q scheduled, vm_error, 'a) stateful" where
  "on_table f = (\<lambda>(s, t). case f t of (r, t) \<Rightarrow> (r, (s, t)))"

definition on_scheduler :: "(VmScheduler \<Rightarrow> VmScheduler) \<Rightarrow> ('q scheduled, vm_error, unit) stateful" where
  "on_scheduler f = (\<lambda>(s, t). (Ok (), (f s, t)))"

section \<open>Queues\<close>

definition queued_len :: "VmScheduler \<Rightarrow> nat" where
  "queued_len s = sum_list (map length (sched_queues s))"

definition diagnostic_queued_processes :: "VmScheduler \<Rightarrow> VmProcessId list" where
  "diagnostic_queued_processes s = concat (sched_queues s)"

definition process_class :: "VmScheduler \<Rightarrow> VmProcessId \<Rightarrow> VmSchedulerClass option" where
  "process_class s pid = bt_get (sched_classes s) pid"

definition class_or_normal :: "VmScheduler \<Rightarrow> VmProcessId \<Rightarrow> VmSchedulerClass" where
  "class_or_normal s pid = (case bt_get (sched_classes s) pid of Some class \<Rightarrow> class | None \<Rightarrow> SchedNormal)"

definition update_queue :: "nat \<Rightarrow> (VmProcessId list \<Rightarrow> VmProcessId list) \<Rightarrow> VmScheduler \<Rightarrow> VmScheduler" where
  "update_queue i f s = s\<lparr> sched_queues := (sched_queues s)[i := f (sched_queues s ! i)] \<rparr>"

definition enqueue_unchecked_raw :: "VmProcessId \<Rightarrow> VmScheduler \<Rightarrow> VmScheduler" where
  "enqueue_unchecked_raw pid s =
     (let class = class_or_normal s pid;
          s = (if bt_contains (sched_classes s) pid then s
               else s\<lparr> sched_classes := bt_insert pid class (sched_classes s) \<rparr>)
      in if bs_contains (sched_queued s) pid then s
         else
           let s = update_queue (queue_index class) (\<lambda>queue. queue @ [pid])
                 (s\<lparr> sched_queued := bs_insert pid (sched_queued s) \<rparr>);
               s = s\<lparr> sched_enqueued_at := bt_insert pid (sched_tick s) (sched_enqueued_at s) \<rparr>
           in s\<lparr> sched_metrics := (sched_metrics s)\<lparr> m_max_queue_depth :=
                max (m_max_queue_depth (sched_metrics s)) (queued_len s) \<rparr> \<rparr>)"

definition enqueue_unchecked :: "VmProcessId \<Rightarrow> ('q scheduled, vm_error, unit) stateful" where
  "enqueue_unchecked pid = bind_st (on_table (mark_actor_queued pid))
     (\<lambda>_. on_scheduler (enqueue_unchecked_raw pid))"

definition remove_queued :: "VmProcessId \<Rightarrow> VmScheduler \<Rightarrow> VmScheduler" where
  "remove_queued pid s =
     (if \<not> bs_contains (sched_queued s) pid then s
      else
        let s = s\<lparr> sched_queued := bs_remove pid (sched_queued s) \<rparr>;
            class = class_or_normal s pid;
            s = update_queue (queue_index class) (filter (\<lambda>queued_pid. queued_pid \<noteq> pid)) s
        in s\<lparr> sched_enqueued_at := bt_remove pid (sched_enqueued_at s) \<rparr>)"

text \<open>The loop of \<open>dequeue\<close>, by the number of turns of the class cycle left.\<close>

fun dequeue_loop :: "nat \<Rightarrow> VmScheduler \<Rightarrow> (VmProcessId \<times> u64) option \<times> VmScheduler" where
  "dequeue_loop 0 s = (None, s)"
| "dequeue_loop (Suc n) s =
     (let class = VM_SCHEDULER_CLASS_CYCLE ! sched_class_cycle_cursor s;
          s = s\<lparr> sched_class_cycle_cursor :=
                (sched_class_cycle_cursor s + 1) mod length VM_SCHEDULER_CLASS_CYCLE \<rparr>
      in case sched_queues s ! queue_index class of
           [] \<Rightarrow> dequeue_loop n s
         | pid # rest \<Rightarrow>
             let s = update_queue (queue_index class) (\<lambda>_. rest) s;
                 s = s\<lparr> sched_queued := bs_remove pid (sched_queued s) \<rparr>;
                 enqueued_tick = (case bt_get (sched_enqueued_at s) pid of
                   Some tick \<Rightarrow> tick | None \<Rightarrow> sched_tick s)
             in (Some (pid, enqueued_tick),
                 s\<lparr> sched_enqueued_at := bt_remove pid (sched_enqueued_at s) \<rparr>))"

definition dequeue :: "VmScheduler \<Rightarrow> (VmProcessId \<times> u64) option \<times> VmScheduler" where
  "dequeue s = dequeue_loop (length VM_SCHEDULER_CLASS_CYCLE) s"

definition forget_process :: "VmProcessId \<Rightarrow> VmScheduler \<Rightarrow> VmScheduler" where
  "forget_process pid s =
     (let s = remove_queued pid s
      in s\<lparr> sched_classes := bt_remove pid (sched_classes s),
            sched_enqueued_at := bt_remove pid (sched_enqueued_at s) \<rparr>)"

definition reap_process_diagnostics :: "VmProcessId \<Rightarrow> VmScheduler \<Rightarrow> VmScheduler" where
  "reap_process_diagnostics pid s =
     (let s = forget_process pid s
      in s\<lparr> sched_metrics := (sched_metrics s)\<lparr> m_processes :=
           bt_remove pid (m_processes (sched_metrics s)) \<rparr> \<rparr>)"

section \<open>Accounting\<close>

definition charge_process_reductions :: "VmProcessId \<Rightarrow> u64 \<Rightarrow> string \<Rightarrow> bool
    \<Rightarrow> ('q scheduled, vm_error, u64) stateful" where
  "charge_process_reductions pid reductions charge_label allow_exited = (\<lambda>(s, t).
     if pt_get t pid = None then
       (Err (Msg ''cannot charge {charge_label} for missing process {}'' [AStr charge_label, ANum pid]), (s, t))
     else bind_st (on_table (with_process_control_mutator pid (\<lambda>process.
         if \<not> allow_exited \<and> is_exited (proc_state process) then
           (Err (Msg ''cannot charge {charge_label} for exited process {}'' [AStr charge_label, ANum pid]), process)
         else (Ok (), proc_charge_reductions reductions process)))) (\<lambda>_ (s, t).
       (Ok reductions, (s\<lparr> sched_metrics := update_metrics pid
            (\<lambda>pm. pm\<lparr> pm_pid := pid, pm_reductions := saturating_add (pm_reductions pm) reductions \<rparr>)
            ((sched_metrics s)\<lparr> m_total_reductions :=
                saturating_add (m_total_reductions (sched_metrics s)) reductions \<rparr>) \<rparr>, t))) (s, t))"

definition charge_runtime_reductions :: "VmProcessId \<Rightarrow> u64 \<Rightarrow> ('q scheduled, vm_error, u64) stateful" where
  "charge_runtime_reductions pid reductions =
     charge_process_reductions pid reductions ''reductions'' False"

definition charge_terminal_reductions :: "VmProcessId \<Rightarrow> u64 \<Rightarrow> ('q scheduled, vm_error, u64) stateful" where
  "charge_terminal_reductions pid reductions = (\<lambda>(s, t).
     if is_alive t pid then
       (Err (Msg ''cannot charge terminal reductions for live process {}'' [ANum pid]), (s, t))
     else charge_process_reductions pid reductions ''terminal reductions'' True (s, t))"

definition charge_memory_reductions :: "VmProcessId \<Rightarrow> usize \<Rightarrow> ('q scheduled, vm_error, u64) stateful" where
  "charge_memory_reductions pid logical_bytes =
     (let byte_reductions = of_nat ((unat logical_bytes + VM_MEMORY_BYTES_PER_REDUCTION - 1)
            div VM_MEMORY_BYTES_PER_REDUCTION);
          reductions = saturating_add byte_reductions 1
      in bind_st (charge_process_reductions pid reductions ''memory'' False) (\<lambda>_ (s, t).
        (Ok reductions, (s\<lparr> sched_metrics := update_metrics pid
             (\<lambda>pm. pm\<lparr> pm_memory_reductions := saturating_add (pm_memory_reductions pm) reductions \<rparr>)
             ((sched_metrics s)\<lparr> m_total_memory_reductions :=
                saturating_add (m_total_memory_reductions (sched_metrics s)) reductions \<rparr>) \<rparr>, t))))"

section \<open>Placement of processes\<close>

definition register_fixed_owner :: "VmProcessId \<Rightarrow> ('q scheduled, vm_error, unit) stateful" where
  "register_fixed_owner pid = bind_st (on_table (mark_actor_queued pid)) (\<lambda>_.
     on_scheduler (\<lambda>s. s\<lparr> sched_classes := bt_insert pid SchedNormal (sched_classes s) \<rparr>))"

definition enqueue_runnable_with_class :: "VmProcessId \<Rightarrow> VmSchedulerClass
    \<Rightarrow> ('q scheduled, vm_error, unit) stateful" where
  "enqueue_runnable_with_class pid class = (\<lambda>(s, t). case pt_get t pid of
     None \<Rightarrow> (Err (Msg ''cannot enqueue missing process {}'' [ANum pid]), (s, t))
   | Some process \<Rightarrow> (case proc_state process of
       Runnable \<Rightarrow>
         if bs_contains (sched_queued s) pid
            \<and> (case bt_get (sched_classes s) pid of Some existing \<Rightarrow> existing \<noteq> class | None \<Rightarrow> False) then
           (Err (Msg ''cannot reclassify queued process {}'' [ANum pid]), (s, t))
         else enqueue_unchecked pid (s\<lparr> sched_classes := bt_insert pid class (sched_classes s) \<rparr>, t)
     | Blocked \<Rightarrow> (Err (Msg ''cannot enqueue blocked process {}'' [ANum pid]), (s, t))
     | Hibernated \<Rightarrow> (Err (Msg ''cannot enqueue hibernated process {}'' [ANum pid]), (s, t))
     | Suspended _ \<Rightarrow> (Err (Msg ''cannot enqueue suspended process {}'' [ANum pid]), (s, t))
     | Exited _ \<Rightarrow> (Err (Msg ''cannot enqueue exited process {}'' [ANum pid]), (s, t))))"

definition enqueue_runnable :: "VmProcessId \<Rightarrow> ('q scheduled, vm_error, unit) stateful" where
  "enqueue_runnable pid = (\<lambda>(s, t). enqueue_runnable_with_class pid (class_or_normal s pid) (s, t))"

definition set_process_class :: "VmProcessId \<Rightarrow> VmSchedulerClass
    \<Rightarrow> ('q scheduled, vm_error, unit) stateful" where
  "set_process_class pid class = (\<lambda>(s, t). case pt_get t pid of
     None \<Rightarrow> (Err (Msg ''cannot reclassify missing process {}'' [ANum pid]), (s, t))
   | Some process \<Rightarrow>
       if is_exited (proc_state process) then
         (Err (Msg ''cannot reclassify exited process {}'' [ANum pid]), (s, t))
       else if bt_get (sched_classes s) pid = Some class then
         bind_st (charge_runtime_reductions pid VM_SCHEDULER_OPERATION_REDUCTIONS) (\<lambda>_. return_st ()) (s, t)
       else
         let was_queued = bs_contains (sched_queued s) pid;
             s = (if was_queued then remove_queued pid s else s);
             s = s\<lparr> sched_classes := bt_insert pid class (sched_classes s) \<rparr>
         in bind_st (if was_queued then enqueue_unchecked pid else return_st ()) (\<lambda>_.
            bind_st (charge_runtime_reductions pid VM_SCHEDULER_OPERATION_REDUCTIONS) (\<lambda>_. return_st ()))
              (s, t))"

text \<open>The guard every control operation starts with.\<close>

definition require_process :: "string \<Rightarrow> VmProcessId \<Rightarrow> ('q scheduled, vm_error, unit) stateful" where
  "require_process action pid = (\<lambda>(s, t).
     (if pt_get t pid = None then Err (Msg ''cannot {} missing process {}'' [AStr action, ANum pid]) else Ok (), (s, t)))"

definition wake_process :: "VmProcessId \<Rightarrow> ('q scheduled, vm_error, unit) stateful" where
  "wake_process pid =
     bind_st (require_process ''wake'' pid) (\<lambda>_.
     bind_st (on_table (with_process_control_mutator pid (\<lambda>process. case proc_state process of
         Exited _ \<Rightarrow> (Err (Msg ''cannot wake exited process {}'' [ANum pid]), process)
       | Suspended _ \<Rightarrow> (Ok True, proc_wake process)
       | _ \<Rightarrow> (Ok False, proc_wake process)))) (\<lambda>suspended.
       if suspended then return_st () else enqueue_unchecked pid))"

definition suspend_process :: "VmProcessId \<Rightarrow> ('q scheduled, vm_error, unit) stateful" where
  "suspend_process pid =
     bind_st (require_process ''suspend'' pid) (\<lambda>_.
     bind_st (on_table (with_process_control_mutator pid (map_err_st
         (\<lambda>_. Msg ''cannot suspend exited process {}'' [ANum pid]) proc_suspend))) (\<lambda>_.
       on_scheduler (remove_queued pid)))"

definition hibernate_process :: "VmProcessId \<Rightarrow> ('q scheduled, vm_error, unit) stateful" where
  "hibernate_process pid =
     bind_st (require_process ''hibernate'' pid) (\<lambda>_.
     bind_st (on_table (with_process_control_mutator pid (map_err_st
         (\<lambda>error. Msg ''cannot hibernate process {}: {error}'' [ANum pid]) proc_hibernate))) (\<lambda>_.
       on_scheduler (remove_queued pid)))"

definition resume_process :: "VmProcessId \<Rightarrow> ('q scheduled, vm_error, unit) stateful" where
  "resume_process pid =
     bind_st (require_process ''resume'' pid) (\<lambda>_.
     bind_st (on_table (with_process_control_mutator pid (\<lambda>process. map_err_st
         (\<lambda>reason. if is_exited (proc_state process) then Msg ''cannot resume exited process {}'' [ANum pid]
            else Msg ''cannot resume process {}: {reason}'' [ANum pid]) proc_resume process))) (\<lambda>resume_state.
       if resume_state = ResumeRunnable then enqueue_unchecked pid else return_st ()))"

definition request_cancellation :: "VmProcessId \<Rightarrow> ('q scheduled, vm_error, unit) stateful" where
  "request_cancellation pid =
     bind_st (require_process ''cancel'' pid) (\<lambda>_.
     bind_st (on_table (with_process_control_mutator pid (\<lambda>process.
         if is_exited (proc_state process) then
           (Err (Msg ''cannot cancel exited process {}'' [ANum pid]), process)
         else (Ok (), proc_request_cancellation process)))) (\<lambda>_.
     bind_st (charge_runtime_reductions pid VM_SCHEDULER_OPERATION_REDUCTIONS) (\<lambda>_. return_st ())))"

section \<open>Running slices\<close>

text \<open>\<open>let _ = result\<close>: an error is dropped, a panic is not.\<close>

definition ignore_st :: "('s, 'e, 'a) stateful \<Rightarrow> ('s, 'e, unit) stateful" where
  "ignore_st m s = (case m s of (Panic p, s') \<Rightarrow> (Panic p, s') | (_, s') \<Rightarrow> (Ok (), s'))"

definition idle_run :: "VmScheduler \<Rightarrow> VmSchedulerRun" where
  "idle_run s = \<lparr> run_pid = None, run_tick = sched_tick s, run_reductions_charged = 0, run_outcome = Idle \<rparr>"

definition slice_run :: "VmProcessId \<Rightarrow> VmScheduler \<Rightarrow> u64 \<Rightarrow> VmSchedulerOutcome \<Rightarrow> VmSchedulerRun" where
  "slice_run pid s reductions outcome = \<lparr> run_pid = Some pid, run_tick = sched_tick s,
     run_reductions_charged = reductions, run_outcome = outcome \<rparr>"

definition forget_class :: "VmProcessId \<Rightarrow> VmScheduler \<Rightarrow> VmScheduler" where
  "forget_class pid s = s\<lparr> sched_classes := bt_remove pid (sched_classes s) \<rparr>"

definition record_run :: "VmProcessId \<Rightarrow> VmSchedulerRun \<Rightarrow> u64 \<Rightarrow> bool \<Rightarrow> VmScheduler \<Rightarrow> VmScheduler" where
  "record_run pid run enqueued_tick preempted s =
     (let wait_ticks = saturating_sub (run_tick run) enqueued_tick;
          m = sched_metrics s;
          m = m\<lparr> m_total_slices := saturating_add (m_total_slices m) 1,
                m_total_reductions := saturating_add (m_total_reductions m) (run_reductions_charged run),
                m_preemptions := (if preempted then saturating_add (m_preemptions m) 1 else m_preemptions m) \<rparr>
      in s\<lparr> sched_metrics := update_metrics pid (\<lambda>pm. pm
           \<lparr> pm_pid := pid,
             pm_reductions := saturating_add (pm_reductions pm) (run_reductions_charged run),
             pm_slices := saturating_add (pm_slices pm) 1,
             pm_preemptions := saturating_add (pm_preemptions pm) (if preempted then 1 else 0),
             pm_max_wait_ticks := max (pm_max_wait_ticks pm) wait_ticks,
             pm_first_run_tick := Some (case pm_first_run_tick pm of Some first \<Rightarrow> first | None \<Rightarrow> run_tick run),
             pm_last_run_tick := Some (run_tick run) \<rparr>) m \<rparr>)"

definition cancel_process :: "VmProcessId \<Rightarrow> u64 \<Rightarrow> ('q scheduled, vm_error, VmSchedulerRun) stateful" where
  "cancel_process pid reductions_charged =
     bind_st (expect_st ''cancelled process was checked before scheduler exit''
         (on_table (pt_exit_process pid Killed))) (\<lambda>cleanup (s, t).
       let s = forget_class pid s in
       (Ok (slice_run pid s reductions_charged (RunCancelled cleanup)), (s, t)))"

definition apply_decision :: "VmProcessId \<Rightarrow> VmSchedulerDecision
    \<Rightarrow> ('q scheduled, vm_error, VmSchedulerRun) stateful" where
  "apply_decision pid decision = (\<lambda>(s, t). case decision of
     Yield reductions \<Rightarrow>
       bind_st (if (case pt_get t pid of Some process \<Rightarrow> proc_state process = Runnable | None \<Rightarrow> False)
           then ignore_st (enqueue_unchecked pid) else on_scheduler (forget_class pid))
         (\<lambda>_ (s, t). (Ok (slice_run pid s reductions Ran), (s, t))) (s, t)
   | Block reductions \<Rightarrow> (Ok (slice_run pid s reductions RunBlocked), (s, t))
   | Exit reductions reason \<Rightarrow> (case pt_exit_process pid reason t of
       (Panic p, t) \<Rightarrow> (Panic p, (s, t))
     | (result, t) \<Rightarrow>
         let cleanup = (case result of Ok cleanup \<Rightarrow> cleanup | _ \<Rightarrow> []); s = forget_class pid s
         in (Ok (slice_run pid s reductions (RunExited cleanup)), (s, t))))"

type_synonym slice_runner = "VmProcess \<Rightarrow> VmSchedulerSlice \<Rightarrow> VmSchedulerDecision \<times> VmProcess"

fun is_block :: "VmSchedulerDecision \<Rightarrow> bool" where "is_block (Block _) = True" | "is_block _ = False"
fun is_exit :: "VmSchedulerDecision \<Rightarrow> bool" where "is_exit (Exit _ _) = True" | "is_exit _ = False"
fun is_yield :: "VmSchedulerDecision \<Rightarrow> bool" where "is_yield (Yield _) = True" | "is_yield _ = False"

text \<open>What \<open>run_next\<close> does under the ownership of the process it selected.\<close>

definition slice_body :: "slice_runner \<Rightarrow> VmSchedulerSlice \<Rightarrow> VmProcess
    \<Rightarrow> (VmSchedulerDecision \<times> bool) \<times> VmProcess" where
  "slice_body run_slice grant process =
     (case run_slice process grant of (decision, process) \<Rightarrow>
        let process = (if is_block decision then proc_block process else process);
            process = proc_charge_reductions (decision_reductions decision) process
        in ((decision, proc_cancellation_requested process \<and> \<not> is_exit decision), process))"

definition finish_slice :: "'q queue_of \<Rightarrow> VmSchedulerSlice \<Rightarrow> u64 \<Rightarrow> VmActorMutatorToken
    \<Rightarrow> VmSchedulerDecision \<times> bool \<Rightarrow> ('q scheduled, vm_error, VmSchedulerRun) stateful" where
  "finish_slice Q grant enqueued_tick token = (\<lambda>(decision, cancellation_at_boundary).
     let pid = slice_pid grant;
         preempted = (is_yield decision \<and> slice_reduction_budget grant \<le> decision_reductions decision);
         release_state = (if cancellation_at_boundary \<or> is_exit decision then Exiting
           else if is_block decision then Parked else Yielding);
         recorded = (\<lambda>run. bind_st (on_scheduler (record_run pid run enqueued_tick preempted))
           (\<lambda>_. return_st run))
     in bind_st (on_table (release_actor_mutator Q token release_state)) (\<lambda>released.
        if cancellation_at_boundary then
          bind_st (cancel_process pid (decision_reductions decision)) recorded
        else if is_block decision \<and> released \<noteq> Parked then
          bind_st (on_table (integrate_process_mailbox Q pid)) (\<lambda>_.
          bind_st (on_table (with_process_control_mutator pid (\<lambda>process. (Ok (), proc_wake process)))) (\<lambda>_.
          bind_st (enqueue_unchecked pid) (\<lambda>_ (s, t).
            recorded (slice_run pid s (decision_reductions decision) Ran) (s, t))))
        else bind_st (apply_decision pid decision) recorded))"

definition run_slice_of :: "'q queue_of \<Rightarrow> slice_runner \<Rightarrow> VmProcessId \<Rightarrow> u64
    \<Rightarrow> ('q scheduled, vm_error, VmSchedulerRun) stateful" where
  "run_slice_of Q run_slice pid enqueued_tick = (\<lambda>(s, t).
     let s = s\<lparr> sched_tick := saturating_add (sched_tick s) 1 \<rparr>;
         grant = \<lparr> slice_pid = pid, slice_tick = sched_tick s,
           slice_reduction_budget = config_reductions_per_slice (sched_config s) \<rparr>
     in bind_st (on_table (acquire_actor_mutator pid (sched_owner s))) (\<lambda>token.
        bind_st (on_table (integrate_actor_mailbox Q token)) (\<lambda>_.
        bind_st (on_table (with_actor_mutator token (slice_body run_slice grant)))
          (finish_slice Q grant enqueued_tick token))) (s, t))"

text \<open>The loop of \<open>run_next\<close>, by the number of polls left.\<close>

fun run_next_loop :: "nat \<Rightarrow> 'q queue_of \<Rightarrow> slice_runner
    \<Rightarrow> ('q scheduled, vm_error, VmSchedulerRun) stateful" where
  "run_next_loop 0 Q run_slice (s, t) = (Ok (idle_run s), (s, t))"
| "run_next_loop (Suc polls) Q run_slice (s, t) = (case dequeue s of
     (None, s) \<Rightarrow> (Ok (idle_run s), (s, t))
   | (Some (pid, enqueued_tick), s) \<Rightarrow> (case pt_get t pid of
       None \<Rightarrow> (Err (Msg ''scheduled process {} is missing'' [ANum pid]), (s, t))
     | Some process \<Rightarrow>
         if is_exited (proc_state process) then
           run_next_loop polls Q run_slice (forget_class pid s, t)
         else if proc_state process \<noteq> Runnable then run_next_loop polls Q run_slice (s, t)
         else if proc_cancellation_requested process then
           bind_st (cancel_process pid 0) (\<lambda>run.
             bind_st (on_scheduler (record_run pid run enqueued_tick False)) (\<lambda>_. return_st run))
             (s\<lparr> sched_tick := saturating_add (sched_tick s) 1 \<rparr>, t)
         else run_slice_of Q run_slice pid enqueued_tick (s, t)))"

definition run_next :: "'q queue_of \<Rightarrow> slice_runner \<Rightarrow> ('q scheduled, vm_error, VmSchedulerRun) stateful" where
  "run_next Q run_slice = (\<lambda>(s, t).
     run_next_loop (config_max_empty_polls (sched_config s)) Q run_slice (s, t))"

section \<open>Transfer of a placement\<close>

record VmSchedulerPlacementTransfer =
  placement_process :: VmProcessId
  placement_class :: VmSchedulerClass
  placement_queued :: bool
  placement_metrics :: "VmSchedulerProcessMetrics option"

definition detach_process_placement :: "VmProcessId \<Rightarrow> VmScheduler
    \<Rightarrow> VmSchedulerPlacementTransfer \<times> VmScheduler" where
  "detach_process_placement process s =
     (let class = class_or_normal s process; queued = bs_contains (sched_queued s) process;
          s = forget_class process (remove_queued process s);
          metrics = bt_get (m_processes (sched_metrics s)) process
      in (\<lparr> placement_process = process, placement_class = class, placement_queued = queued,
            placement_metrics = metrics \<rparr>,
          s\<lparr> sched_metrics := (sched_metrics s)\<lparr> m_processes :=
               bt_remove process (m_processes (sched_metrics s)) \<rparr> \<rparr>))"

definition validate_process_placement_import :: "VmScheduler \<Rightarrow> 'q VmProcessTable
    \<Rightarrow> VmSchedulerPlacementTransfer \<Rightarrow> (vm_error, unit) outcome" where
  "validate_process_placement_import s t transfer =
     (let pid = placement_process transfer in
      bind_out (ok_or (Msg ''scheduler transfer process {} is missing'' [ANum pid]) (pt_get t pid)) (\<lambda>process.
      if bt_contains (sched_classes s) pid \<or> bs_contains (sched_queued s) pid then
        Err (Msg ''scheduler transfer process {} already has destination placement'' [ANum pid])
      else if placement_queued transfer \<and> proc_state process \<noteq> Runnable then
        Err (Msg ''scheduler transfer process {} was queued but is not runnable'' [ANum pid])
      else if bt_contains (m_processes (sched_metrics s)) pid then
        Err (Msg ''scheduler transfer process {} already has destination metrics'' [ANum pid])
      else Ok ()))"

text \<open>A refused import hands the transfer back beside the reason.\<close>

definition import_process_placement :: "VmSchedulerPlacementTransfer
    \<Rightarrow> ('q scheduled, vm_error \<times> VmSchedulerPlacementTransfer, unit) stateful" where
  "import_process_placement transfer = (\<lambda>(s, t).
     case validate_process_placement_import s t transfer of
       Err reason \<Rightarrow> (Err (reason, transfer), (s, t))
     | Panic p \<Rightarrow> (Panic p, (s, t))
     | Ok _ \<Rightarrow>
         let pid = placement_process transfer;
             s = s\<lparr> sched_classes := bt_insert pid (placement_class transfer) (sched_classes s) \<rparr>;
             s = (case placement_metrics transfer of None \<Rightarrow> s
                  | Some metrics \<Rightarrow> s\<lparr> sched_metrics := (sched_metrics s)\<lparr> m_processes :=
                      bt_insert pid metrics (m_processes (sched_metrics s)) \<rparr> \<rparr>)
         in if placement_queued transfer
            then expect_st ''validated runnable process can be queued'' (enqueue_unchecked pid) (s, t)
            else (Ok (), (s, t)))"

end
