(* ===== verification/Vm_Timer.thy ===== *)
theory Vm_Timer
  imports Vm_Scheduler
begin

text \<open>
  The timer table of the VM (\<open>runtime/vm/timer.rs\<close>, \<open>timer/transfer.rs\<close>): one-shot
  timers, intervals and receive timeouts against a logical clock, their cancellation, the
  events of a clock advance and the move of the timers of an actor to another table.
\<close>

section \<open>Data\<close>

type_synonym VmTimerId = u64

datatype VmTimerKind = OneShot | Interval | ReceiveTimeout

datatype VmTimerEvent =
    Fired VmTimerId VmProcessId VmTimerKind
  | DeadlineMissed VmTimerId VmProcessId VmTimerKind u64
  | Coalesced VmTimerId VmProcessId VmTimerKind u64 u64
  | Overflow VmTimerId VmProcessId VmTimerKind
  | Cancelled VmTimerId VmProcessId VmTimerKind
  | OwnerExited VmTimerId VmProcessId VmTimerKind

fun event_timer_id :: "VmTimerEvent \<Rightarrow> VmTimerId" where
  "event_timer_id (Fired timer_id _ _) = timer_id"
| "event_timer_id (DeadlineMissed timer_id _ _ _) = timer_id"
| "event_timer_id (Coalesced timer_id _ _ _ _) = timer_id"
| "event_timer_id (Overflow timer_id _ _) = timer_id"
| "event_timer_id (Cancelled timer_id _ _) = timer_id"
| "event_timer_id (OwnerExited timer_id _ _) = timer_id"

fun event_owner :: "VmTimerEvent \<Rightarrow> VmProcessId" where
  "event_owner (Fired _ owner _) = owner"
| "event_owner (DeadlineMissed _ owner _ _) = owner"
| "event_owner (Coalesced _ owner _ _ _) = owner"
| "event_owner (Overflow _ owner _) = owner"
| "event_owner (Cancelled _ owner _) = owner"
| "event_owner (OwnerExited _ owner _) = owner"

fun event_kind :: "VmTimerEvent \<Rightarrow> VmTimerKind" where
  "event_kind (Fired _ _ kind) = kind"
| "event_kind (DeadlineMissed _ _ kind _) = kind"
| "event_kind (Coalesced _ _ kind _ _) = kind"
| "event_kind (Overflow _ _ kind) = kind"
| "event_kind (Cancelled _ _ kind) = kind"
| "event_kind (OwnerExited _ _ kind) = kind"

record VmTimerSnapshot =
  snap_timer_id :: VmTimerId
  snap_timer_owner :: VmProcessId
  snap_timer_deadline_tick :: u64
  snap_timer_kind :: VmTimerKind

record VmTimerCancellationToken =
  cancellation_timer_id :: VmTimerId
  cancellation_owner :: VmProcessId

record VmTimerClockDrift =
  drift_previous_tick :: u64
  drift_observed_tick :: u64
  drift_diagnostic :: vm_error

record VmTimerCancellationDecision =
  decision_timer_id :: u64
  decision_owner :: u64
  decision_kind :: VmTimerKind
  decision_outcome :: string

record VmTimerMetrics =
  tm_started :: u64
  tm_fired :: u64
  tm_deadline_missed :: u64
  tm_coalesced :: u64
  tm_overflow :: u64
  tm_cancelled :: u64
  tm_owner_exited :: u64
  tm_max_active :: nat
  tm_late_by_ticks_total :: u64
  tm_ordering_trace :: "u64 list"
  tm_cancellation_decisions :: "VmTimerCancellationDecision list"
  tm_clock_drift_rejections :: "VmTimerClockDrift list"
  tm_mailbox_deliveries :: u64

definition timer_metrics_default :: VmTimerMetrics where
  "timer_metrics_default = \<lparr> tm_started = 0, tm_fired = 0, tm_deadline_missed = 0, tm_coalesced = 0,
     tm_overflow = 0, tm_cancelled = 0, tm_owner_exited = 0, tm_max_active = 0,
     tm_late_by_ticks_total = 0, tm_ordering_trace = [], tm_cancellation_decisions = [],
     tm_clock_drift_rejections = [], tm_mailbox_deliveries = 0 \<rparr>"

record VmTimer =
  timer_id :: VmTimerId
  timer_owner :: VmProcessId
  timer_deadline_tick :: u64
  timer_kind :: VmTimerKind
  timer_interval_ticks :: "u64 option"

record VmTimerTable =
  tt_next_timer_id :: u64
  tt_timers :: "(VmTimerId, VmTimer) btree"
  tt_metrics :: VmTimerMetrics
  tt_last_clock_tick :: "u64 option"

definition timer_table_default :: VmTimerTable where
  "timer_table_default = \<lparr> tt_next_timer_id = 0, tt_timers = [], tt_metrics = timer_metrics_default,
     tt_last_clock_tick = None \<rparr>"

definition current_tick :: "VmTimerTable \<Rightarrow> u64" where
  "current_tick tt = (case tt_last_clock_tick tt of Some tick \<Rightarrow> tick | None \<Rightarrow> 0)"

section \<open>Accounting of events\<close>

text \<open>The counters are plain \<open>+= 1\<close>, which wraps in a release build.\<close>

definition count_event :: "VmTimerEvent \<Rightarrow> VmTimerMetrics \<Rightarrow> VmTimerMetrics" where
  "count_event event m = (case event of
     Fired _ _ _ \<Rightarrow> m\<lparr> tm_fired := tm_fired m + 1 \<rparr>
   | DeadlineMissed _ _ _ late_by_ticks \<Rightarrow> m\<lparr> tm_deadline_missed := tm_deadline_missed m + 1,
       tm_late_by_ticks_total := saturating_add (tm_late_by_ticks_total m) late_by_ticks \<rparr>
   | Coalesced _ _ _ _ _ \<Rightarrow> m\<lparr> tm_coalesced := tm_coalesced m + 1 \<rparr>
   | Overflow _ _ _ \<Rightarrow> m\<lparr> tm_overflow := tm_overflow m + 1 \<rparr>
   | Cancelled _ _ _ \<Rightarrow> m\<lparr> tm_cancelled := tm_cancelled m + 1 \<rparr>
   | OwnerExited _ _ _ \<Rightarrow> m\<lparr> tm_owner_exited := tm_owner_exited m + 1 \<rparr>)"

definition event_outcome :: "VmTimerEvent \<Rightarrow> string option" where
  "event_outcome event = (case event of
     Cancelled _ _ _ \<Rightarrow> Some ''cancelled''
   | OwnerExited _ _ _ \<Rightarrow> Some ''owner_exited''
   | _ \<Rightarrow> None)"

definition record_event :: "VmTimerEvent \<Rightarrow> VmTimerTable \<Rightarrow> VmTimerTable" where
  "record_event event tt =
     (let m = count_event event (tt_metrics tt);
          m = m\<lparr> tm_ordering_trace := tm_ordering_trace m @ [event_timer_id event] \<rparr>;
          m = (case event_outcome event of
             None \<Rightarrow> m
           | Some outcome \<Rightarrow> m\<lparr> tm_cancellation_decisions := tm_cancellation_decisions m
               @ [\<lparr> decision_timer_id = event_timer_id event, decision_owner = event_owner event,
                    decision_kind = event_kind event, decision_outcome = outcome \<rparr>] \<rparr>)
      in tt\<lparr> tt_metrics := m \<rparr>)"

fun record_events :: "VmTimerEvent list \<Rightarrow> VmTimerTable \<Rightarrow> VmTimerTable" where
  "record_events [] tt = tt"
| "record_events (event # events) tt = record_events events (record_event event tt)"

section \<open>Starting and cancelling\<close>

definition require_live_process :: "'q VmProcessTable \<Rightarrow> VmProcessId \<Rightarrow> (vm_error, unit) outcome" where
  "require_live_process t pid =
     bind_out (ok_or (Msg ''missing process {}'' [ANum pid]) (pt_get t pid)) (\<lambda>process.
       if is_exited (proc_state process) then Err (Msg ''process {} has exited'' [ANum pid]) else Ok ())"

definition timer_owner_exited :: "'q VmProcessTable \<Rightarrow> VmProcessId \<Rightarrow> bool" where
  "timer_owner_exited t pid = (case pt_get t pid of
     Some process \<Rightarrow> is_exited (proc_state process) | None \<Rightarrow> True)"

definition insert_timer :: "VmProcessId \<Rightarrow> u64 \<Rightarrow> VmTimerKind \<Rightarrow> u64 option
    \<Rightarrow> VmTimerTable \<Rightarrow> VmTimerId \<times> VmTimerTable" where
  "insert_timer owner deadline_tick kind interval_ticks tt =
     (let tt = tt\<lparr> tt_next_timer_id := saturating_add (tt_next_timer_id tt) 1 \<rparr>;
          id = tt_next_timer_id tt;
          tt = tt\<lparr> tt_timers := bt_insert id \<lparr> timer_id = id, timer_owner = owner,
            timer_deadline_tick = deadline_tick, timer_kind = kind,
            timer_interval_ticks = interval_ticks \<rparr> (tt_timers tt) \<rparr>;
          m = tt_metrics tt
      in (id, tt\<lparr> tt_metrics := m\<lparr> tm_started := saturating_add (tm_started m) 1,
            tm_max_active := max (tm_max_active m) (length (tt_timers tt)) \<rparr> \<rparr>))"

definition start_one_shot :: "'q VmProcessTable \<Rightarrow> VmProcessId \<Rightarrow> u64
    \<Rightarrow> (VmTimerTable, vm_error, VmTimerId) stateful" where
  "start_one_shot t owner deadline_tick = bind_st (read_st (\<lambda>_. require_live_process t owner)) (\<lambda>_ tt.
     (case insert_timer owner deadline_tick OneShot None tt of (identity, tt) \<Rightarrow> (Ok identity, tt)))"

definition start_interval :: "'q VmProcessTable \<Rightarrow> VmProcessId \<Rightarrow> u64 \<Rightarrow> u64
    \<Rightarrow> (VmTimerTable, vm_error, VmTimerId) stateful" where
  "start_interval t owner first_deadline_tick interval_ticks =
     bind_st (read_st (\<lambda>_. require_live_process t owner)) (\<lambda>_ tt.
       if interval_ticks = 0 then
         (Err (Msg ''interval timer for process {} must have a positive interval'' [ANum owner]), tt)
       else (case insert_timer owner first_deadline_tick Interval (Some interval_ticks) tt of
         (identity, tt) \<Rightarrow> (Ok identity, tt)))"

text \<open>A receive timeout also blocks the receiving process; the scheduler it is given is not used.\<close>

definition start_receive_timeout :: "VmProcessId \<Rightarrow> u64 \<Rightarrow> u64
    \<Rightarrow> (VmTimerTable \<times> 'q VmProcessTable, vm_error, VmTimerId) stateful" where
  "start_receive_timeout owner now_tick timeout_ticks = (\<lambda>(tt, t).
     case require_live_process t owner of
       Err e \<Rightarrow> (Err e, (tt, t)) | Panic p \<Rightarrow> (Panic p, (tt, t))
     | Ok _ \<Rightarrow> (case checked_add now_tick timeout_ticks of
         None \<Rightarrow> (Err (Msg ''timer deadline overflow for process {}'' [ANum owner]), (tt, t))
       | Some deadline_tick \<Rightarrow>
           (case expect_st ''owner process was checked before blocking receive timeout''
               (with_process_control_mutator owner
                  (\<lambda>process. (Ok () :: (vm_error, unit) outcome, proc_block process))) t of
             (Ok _, t) \<Rightarrow> (case insert_timer owner deadline_tick ReceiveTimeout None tt of
               (identity, tt) \<Rightarrow> (Ok identity, (tt, t)))
           | (Err e, t) \<Rightarrow> (Err e, (tt, t))
           | (Panic p, t) \<Rightarrow> (Panic p, (tt, t)))))"

definition timer_cancel :: "VmTimerId \<Rightarrow> (VmTimerTable, vm_error, VmTimerEvent) stateful" where
  "timer_cancel identity tt = (case bt_get (tt_timers tt) identity of
     None \<Rightarrow> (Err (Msg ''missing timer {}'' [ANum identity]), tt)
   | Some timer \<Rightarrow>
       let tt = tt\<lparr> tt_timers := bt_remove identity (tt_timers tt) \<rparr>;
           event = Cancelled identity (timer_owner timer) (timer_kind timer)
       in (Ok event, record_event event tt))"

definition cancellation_token :: "VmTimerTable \<Rightarrow> VmTimerId
    \<Rightarrow> (vm_error, VmTimerCancellationToken) outcome" where
  "cancellation_token tt identity =
     bind_out (ok_or (Msg ''missing timer {}'' [ANum identity]) (bt_get (tt_timers tt) identity)) (\<lambda>timer.
       Ok \<lparr> cancellation_timer_id = identity, cancellation_owner = timer_owner timer \<rparr>)"

definition remaining_ticks :: "VmTimerTable \<Rightarrow> VmTimerId \<Rightarrow> u64 \<Rightarrow> (vm_error, u64) outcome" where
  "remaining_ticks tt identity now_tick =
     bind_out (ok_or (Msg ''missing timer {}'' [ANum identity]) (bt_get (tt_timers tt) identity)) (\<lambda>timer.
       Ok (saturating_sub (timer_deadline_tick timer) now_tick))"

definition cancel_with_token :: "VmTimerCancellationToken \<Rightarrow> (VmTimerTable, vm_error, VmTimerEvent) stateful" where
  "cancel_with_token token tt = (case bt_get (tt_timers tt) (cancellation_timer_id token) of
     None \<Rightarrow> (Err (Msg ''missing timer {}'' [ANum (cancellation_timer_id token)]), tt)
   | Some timer \<Rightarrow>
       if timer_owner timer \<noteq> cancellation_owner token then
         (Err (Msg ''timer {} cancellation token owner mismatch: expected {}, observed {}''
           [ANum (cancellation_timer_id token), ANum (timer_owner timer), ANum (cancellation_owner token)]), tt)
       else timer_cancel (cancellation_timer_id token) tt)"

text \<open>\<open>cancel_owner_timers\<close>, by the identities collected first.\<close>

fun remove_owner_timers :: "VmTimerId list \<Rightarrow> (VmTimerTable, vm_error, VmTimerEvent list) stateful" where
  "remove_owner_timers [] tt = (Ok [], tt)"
| "remove_owner_timers (identity # identities) tt = (case bt_get (tt_timers tt) identity of
     None \<Rightarrow> (Panic ''timer id was collected from active timer table'', tt)
   | Some timer \<Rightarrow> bind_st (remove_owner_timers identities)
       (\<lambda>events. return_st (OwnerExited identity (timer_owner timer) (timer_kind timer) # events))
       (tt\<lparr> tt_timers := bt_remove identity (tt_timers tt) \<rparr>))"

definition cancel_owner_timers :: "VmProcessId \<Rightarrow> (VmTimerTable, vm_error, VmTimerEvent list) stateful" where
  "cancel_owner_timers owner tt =
     (let owned_timer_ids = map timer_id (filter (\<lambda>timer. timer_owner timer = owner) (bt_values (tt_timers tt)))
      in bind_st (remove_owner_timers owned_timer_ids) (\<lambda>events tt. (Ok events, record_events events tt)) tt)"

definition timer_snapshots :: "VmTimerTable \<Rightarrow> VmTimerSnapshot list" where
  "timer_snapshots tt = map (\<lambda>timer. \<lparr> snap_timer_id = timer_id timer, snap_timer_owner = timer_owner timer,
     snap_timer_deadline_tick = timer_deadline_tick timer, snap_timer_kind = timer_kind timer \<rparr>)
     (bt_values (tt_timers tt))"

section \<open>Advancing the clock\<close>

definition reschedule_interval :: "VmTimer \<Rightarrow> VmTimerTable \<Rightarrow> VmTimerEvent option \<times> VmTimerTable" where
  "reschedule_interval timer tt = (case timer_interval_ticks timer of
     None \<Rightarrow> (None, tt)
   | Some interval_ticks \<Rightarrow> (case checked_add (timer_deadline_tick timer) interval_ticks of
       None \<Rightarrow> (Some (Overflow (timer_id timer) (timer_owner timer) (timer_kind timer)), tt)
     | Some deadline_tick \<Rightarrow> (None, tt\<lparr> tt_timers := bt_insert (timer_id timer)
         (timer\<lparr> timer_deadline_tick := deadline_tick \<rparr>) (tt_timers tt) \<rparr>)))"

definition interval_overflow_event :: "VmTimer \<Rightarrow> VmTimerEvent" where
  "interval_overflow_event timer = Overflow (timer_id timer) (timer_owner timer) (timer_kind timer)"

text \<open>Division by a zero interval panics.\<close>

definition coalesce_late_interval :: "VmTimer \<Rightarrow> u64
    \<Rightarrow> (VmTimerTable, vm_error, VmTimerEvent option) stateful" where
  "coalesce_late_interval timer now_tick tt =
     (if timer_kind timer \<noteq> Interval \<or> now_tick \<le> timer_deadline_tick timer then (Ok None, tt)
      else case timer_interval_ticks timer of
        None \<Rightarrow> (Ok None, tt)
      | Some interval_ticks \<Rightarrow>
          if interval_ticks = 0 then (Panic ''attempt to divide by zero'', tt)
          else
            let skipped_intervals = (now_tick - timer_deadline_tick timer) div interval_ticks in
            if skipped_intervals = 0 then (Ok None, tt)
            else case checked_add skipped_intervals 1 of
              None \<Rightarrow> (Ok (Some (interval_overflow_event timer)), tt)
            | Some next_step_count \<Rightarrow> (case checked_mul interval_ticks next_step_count of
                None \<Rightarrow> (Ok (Some (interval_overflow_event timer)), tt)
              | Some next_offset \<Rightarrow> (case checked_add (timer_deadline_tick timer) next_offset of
                  None \<Rightarrow> (Ok (Some (interval_overflow_event timer)), tt)
                | Some next_deadline_tick \<Rightarrow>
                    (Ok (Some (Coalesced (timer_id timer) (timer_owner timer) (timer_kind timer)
                       skipped_intervals next_deadline_tick)),
                     tt\<lparr> tt_timers := bt_insert (timer_id timer)
                       (timer\<lparr> timer_deadline_tick := next_deadline_tick \<rparr>) (tt_timers tt) \<rparr>))))"

type_synonym 'q timed = "VmTimerTable \<times> 'q scheduled"

definition on_timers :: "(VmTimerTable, vm_error, 'a) stateful \<Rightarrow> ('q timed, vm_error, 'a) stateful" where
  "on_timers f = (\<lambda>(tt, w). case f tt of (r, tt) \<Rightarrow> (r, (tt, w)))"

definition on_scheduled :: "('q scheduled, vm_error, 'a) stateful \<Rightarrow> ('q timed, vm_error, 'a) stateful" where
  "on_scheduled f = (\<lambda>(tt, w). case f w of (r, w) \<Rightarrow> (r, (tt, w)))"

text \<open>One due timer: the body of the loop of \<open>advance_clock\<close>.\<close>

definition wake_receiver :: "VmTimer \<Rightarrow> ('q timed, vm_error, unit) stateful" where
  "wake_receiver timer = on_scheduled (if timer_kind timer = ReceiveTimeout
     then ignore_st (wake_process (timer_owner timer)) else return_st ())"

definition fire_timer :: "u64 \<Rightarrow> VmTimer \<Rightarrow> ('q timed, vm_error, VmTimerEvent) stateful" where
  "fire_timer now_tick timer = (\<lambda>(tt, (s, t)).
     let tt = tt\<lparr> tt_timers := bt_remove (timer_id timer) (tt_timers tt) \<rparr> in
     if timer_owner_exited t (timer_owner timer) then
       (Ok (OwnerExited (timer_id timer) (timer_owner timer) (timer_kind timer)), (tt, (s, t)))
     else bind_st (on_timers (coalesce_late_interval timer now_tick)) (\<lambda>coalesced.
       case coalesced of
         Some event \<Rightarrow> return_st event
       | None \<Rightarrow> bind_st (wake_receiver timer) (\<lambda>_.
           bind_st (on_timers (\<lambda>tt. case reschedule_interval timer tt of (event, tt) \<Rightarrow> (Ok event, tt)))
             (\<lambda>rescheduled. return_st (case rescheduled of
                Some event \<Rightarrow> event
              | None \<Rightarrow>
                  if timer_deadline_tick timer < now_tick then
                    DeadlineMissed (timer_id timer) (timer_owner timer) (timer_kind timer)
                      (now_tick - timer_deadline_tick timer)
                  else Fired (timer_id timer) (timer_owner timer) (timer_kind timer)))))
       (tt, (s, t)))"

fun fire_timers :: "u64 \<Rightarrow> VmTimer list \<Rightarrow> ('q timed, vm_error, VmTimerEvent list) stateful" where
  "fire_timers now_tick [] w = (Ok [], w)"
| "fire_timers now_tick (timer # timers) w = bind_st (fire_timer now_tick timer) (\<lambda>event.
     bind_st (fire_timers now_tick timers) (\<lambda>events. return_st (event # events))) w"

definition advance_accepted :: "u64 \<Rightarrow> ('q timed, vm_error, VmTimerEvent list) stateful" where
  "advance_accepted now_tick = (\<lambda>(tt, w).
     let tt = tt\<lparr> tt_last_clock_tick := Some now_tick \<rparr>;
         due = filter (\<lambda>timer. timer_deadline_tick timer \<le> now_tick) (bt_values (tt_timers tt))
     in bind_st (fire_timers now_tick due) (\<lambda>events (tt, w). (Ok events, (record_events events tt, w))) (tt, w))"

definition advance_clock :: "u64 \<Rightarrow> ('q timed, vm_error, VmTimerEvent list) stateful" where
  "advance_clock now_tick = (\<lambda>(tt, w).
     case tt_last_clock_tick tt of
       Some previous_tick \<Rightarrow>
         if now_tick < previous_tick then
           (Ok [], (tt\<lparr> tt_metrics := (tt_metrics tt)\<lparr> tm_clock_drift_rejections :=
              tm_clock_drift_rejections (tt_metrics tt)
                @ [\<lparr> drift_previous_tick = previous_tick, drift_observed_tick = now_tick,
                     drift_diagnostic = Msg
                       ''timer clock moved backwards: previous tick {previous_tick}, observed tick {now_tick}''
                       [ANum previous_tick, ANum now_tick] \<rparr>] \<rparr> \<rparr>, w))
         else advance_accepted now_tick (tt, w)
     | None \<Rightarrow> advance_accepted now_tick (tt, w))"

section \<open>Transfer of the timers of an actor\<close>

record VmTimerTransfer =
  tx_owner :: VmProcessId
  tx_timers :: "VmTimer list"
  tx_identity_watermark :: u64
  tx_observed_tick :: "u64 option"

fun take_timers :: "VmTimerId list \<Rightarrow> (VmTimerTable, vm_error, VmTimer list) stateful" where
  "take_timers [] tt = (Ok [], tt)"
| "take_timers (identity # identities) tt = (case bt_get (tt_timers tt) identity of
     None \<Rightarrow> (Panic ''inventoried owner timer remains present'', tt)
   | Some timer \<Rightarrow> bind_st (take_timers identities) (\<lambda>timers. return_st (timer # timers))
       (tt\<lparr> tt_timers := bt_remove identity (tt_timers tt) \<rparr>))"

definition detach_owner_timer_state :: "VmProcessId \<Rightarrow> (VmTimerTable, vm_error, VmTimerTransfer) stateful" where
  "detach_owner_timer_state owner tt =
     (let identities = map fst (filter (\<lambda>e. timer_owner (snd e) = owner) (tt_timers tt))
      in bind_st (take_timers identities) (\<lambda>timers tt.
        (Ok \<lparr> tx_owner = owner, tx_timers = timers, tx_identity_watermark = tt_next_timer_id tt,
              tx_observed_tick = tt_last_clock_tick tt \<rparr>, tt)) tt)"

fun check_transfer_timers :: "VmTimerTable \<Rightarrow> VmProcessId \<Rightarrow> VmTimer list \<Rightarrow> (vm_error, unit) outcome" where
  "check_transfer_timers tt owner [] = Ok ()"
| "check_transfer_timers tt owner (timer # timers) =
     (if timer_owner timer \<noteq> owner then Err (Msg ''timer transfer contains a cross-actor timer'' [])
      else if bt_contains (tt_timers tt) (timer_id timer) then
        Err (Msg ''timer transfer destination already contains timer {}'' [ANum (timer_id timer)])
      else check_transfer_timers tt owner timers)"

definition validate_timer_import :: "VmTimerTable \<Rightarrow> VmTimerTransfer \<Rightarrow> (vm_error, unit) outcome" where
  "validate_timer_import tt transfer =
     (if tx_owner transfer = 0 then Err (Msg ''timer transfer owner identity must be nonzero'' [])
      else
        let source_tick = (case tx_observed_tick transfer of Some tick \<Rightarrow> tick | None \<Rightarrow> 0) in
        case tt_last_clock_tick tt of
          Some destination_tick \<Rightarrow>
            if tx_timers transfer \<noteq> [] \<and> source_tick \<noteq> destination_tick then
              Err (Msg ''timer transfer clock mismatch: source {source_tick}, destination {destination_tick}''
                [ANum source_tick, ANum destination_tick])
            else check_transfer_timers tt (tx_owner transfer) (tx_timers transfer)
        | None \<Rightarrow> check_transfer_timers tt (tx_owner transfer) (tx_timers transfer))"

text \<open>A refused import hands the transfer back beside the reason.\<close>

definition import_timer_transfer :: "VmTimerTransfer
    \<Rightarrow> (VmTimerTable, vm_error \<times> VmTimerTransfer, unit) stateful" where
  "import_timer_transfer transfer tt = (case validate_timer_import tt transfer of
     Err reason \<Rightarrow> (Err (reason, transfer), tt)
   | Panic p \<Rightarrow> (Panic p, tt)
   | Ok _ \<Rightarrow>
       let tt = tt\<lparr> tt_next_timer_id := max (tt_next_timer_id tt) (tx_identity_watermark transfer) \<rparr>;
           tt = (if tx_timers transfer \<noteq> [] \<and> tt_last_clock_tick tt = None
                 then tt\<lparr> tt_last_clock_tick := tx_observed_tick transfer \<rparr> else tt);
           tt = tt\<lparr> tt_timers := fold (\<lambda>timer. bt_insert (timer_id timer) timer) (tx_timers transfer)
                   (tt_timers tt) \<rparr>
       in (Ok (), tt\<lparr> tt_metrics := (tt_metrics tt)\<lparr> tm_max_active :=
            max (tm_max_active (tt_metrics tt)) (length (tt_timers tt)) \<rparr> \<rparr>))"

end
