(* ===== verification/Scheduler_Laws.thy ===== *)
theory Scheduler_Laws
  imports Vm_Scheduler
begin

text \<open>
  The run queues of the scheduler: the invariant that every operation keeps whatever the
  process table answers, and the service of the queues by the class cycle.
\<close>

section \<open>The invariant\<close>

definition sched_ok :: "VmScheduler \<Rightarrow> bool" where
  "sched_ok s \<longleftrightarrow> length (sched_queues s) = 3
     \<and> sched_class_cycle_cursor s < length VM_SCHEDULER_CLASS_CYCLE
     \<and> bs_ok (sched_queued s) \<and> bt_ok (sched_classes s) \<and> bt_ok (sched_enqueued_at s)
     \<and> bt_ok (m_processes (sched_metrics s))
     \<and> distinct (diagnostic_queued_processes s)
     \<and> set (diagnostic_queued_processes s) = set (sched_queued s)
     \<and> (\<forall>pid\<in>set (sched_queued s). \<exists>class. bt_get (sched_classes s) pid = Some class
          \<and> pid \<in> set (sched_queues s ! queue_index class))
     \<and> (\<forall>pid. bt_get (sched_enqueued_at s) pid \<noteq> None \<longrightarrow> pid \<in> set (sched_queued s))"

lemma queue_index_less [simp]: "queue_index class < 3"
  by (cases "class") simp_all

lemma queue_index_inj [simp]: "queue_index class = queue_index class' \<longleftrightarrow> class = class'"
  by (cases "class"; cases class') simp_all

lemma three_lists: "length xs = 3 \<Longrightarrow> xs = [xs ! 0, xs ! 1, xs ! 2]"
  by (auto simp: numeral_3_eq_3 length_Suc_conv)

lemma cycle_length [simp]: "length VM_SCHEDULER_CLASS_CYCLE = 6"
  by (simp add: VM_SCHEDULER_CLASS_CYCLE_def)

text \<open>The queues as the three queues of the classes.\<close>

definition class_queue :: "VmScheduler \<Rightarrow> VmSchedulerClass \<Rightarrow> VmProcessId list" where
  "class_queue s class = sched_queues s ! queue_index class"

lemma queues_of_classes:
  "length (sched_queues s) = 3 \<Longrightarrow> diagnostic_queued_processes s
     = class_queue s SchedPriority @ class_queue s SchedNormal @ class_queue s SchedBackground"
  using three_lists [of "sched_queues s"]
  by (simp add: diagnostic_queued_processes_def class_queue_def) (metis append.right_neutral concat.simps)

lemma class_queue_update [simp]:
  "length (sched_queues s) = 3 \<Longrightarrow> class_queue (update_queue (queue_index class) f s) class'
     = (if class' = class then f (class_queue s class) else class_queue s class')"
  by (simp add: class_queue_def update_queue_def)

lemma update_queue_simps [simp]:
  "sched_queued (update_queue i f s) = sched_queued s"
  "sched_classes (update_queue i f s) = sched_classes s"
  "sched_enqueued_at (update_queue i f s) = sched_enqueued_at s"
  "sched_class_cycle_cursor (update_queue i f s) = sched_class_cycle_cursor s"
  "sched_metrics (update_queue i f s) = sched_metrics s" "sched_tick (update_queue i f s) = sched_tick s"
  "length (sched_queues (update_queue i f s)) = length (sched_queues s)"
  by (simp_all add: update_queue_def)

text \<open>The invariant over the queues of the classes.\<close>

definition queues_ok :: "VmScheduler \<Rightarrow> bool" where
  "queues_ok s \<longleftrightarrow> (\<forall>class. distinct (class_queue s class))
     \<and> (\<forall>class pid. pid \<in> set (class_queue s class)
          \<longleftrightarrow> pid \<in> set (sched_queued s) \<and> bt_get (sched_classes s) pid = Some class)
     \<and> (\<forall>pid\<in>set (sched_queued s). bt_get (sched_classes s) pid \<noteq> None)"

definition maps_ok :: "VmScheduler \<Rightarrow> bool" where
  "maps_ok s \<longleftrightarrow> length (sched_queues s) = 3 \<and> sched_class_cycle_cursor s < 6
     \<and> bs_ok (sched_queued s) \<and> bt_ok (sched_classes s) \<and> bt_ok (sched_enqueued_at s)
     \<and> bt_ok (m_processes (sched_metrics s))
     \<and> (\<forall>pid. bt_get (sched_enqueued_at s) pid \<noteq> None \<longrightarrow> pid \<in> set (sched_queued s))"

lemma sched_ok_iff: "sched_ok s \<longleftrightarrow> maps_ok s \<and> queues_ok s"
proof (cases "length (sched_queues s) = 3")
  case True
  have all: "(\<forall>class. P class) \<longleftrightarrow> P SchedPriority \<and> P SchedNormal \<and> P SchedBackground" for P
    by (metis VmSchedulerClass.exhaust)
  have ex: "(\<exists>class. P class) \<longleftrightarrow> P SchedPriority \<or> P SchedNormal \<or> P SchedBackground" for P
    by (metis VmSchedulerClass.exhaust)
  show ?thesis
  proof
    assume s: "sched_ok s"
    then have "distinct (class_queue s class)" for "class"
      using queues_of_classes [OF True] by (cases "class") (auto simp: sched_ok_def)
    moreover have "pid \<in> set (class_queue s class)
        \<longleftrightarrow> pid \<in> set (sched_queued s) \<and> bt_get (sched_classes s) pid = Some class" for pid "class"
    proof -
      have d: "distinct (class_queue s SchedPriority @ class_queue s SchedNormal @ class_queue s SchedBackground)"
          "set (class_queue s SchedPriority @ class_queue s SchedNormal @ class_queue s SchedBackground)
            = set (sched_queued s)"
        using s queues_of_classes [OF True] by (simp_all add: sched_ok_def)
      have "pid \<in> set (sched_queued s) \<Longrightarrow> \<exists>class. bt_get (sched_classes s) pid = Some class
          \<and> pid \<in> set (class_queue s class)"
        using s by (simp add: sched_ok_def class_queue_def)
      then show ?thesis
        using d by (cases "class") (auto simp: ex)
    qed
    moreover have "\<forall>pid\<in>set (sched_queued s). bt_get (sched_classes s) pid \<noteq> None"
      using s by (auto simp: sched_ok_def)
    ultimately have "queues_ok s" by (simp add: queues_ok_def)
    with s show "maps_ok s \<and> queues_ok s" by (simp add: sched_ok_def maps_ok_def)
  next
    assume s: "maps_ok s \<and> queues_ok s"
    then have q: "distinct (class_queue s class)"
        "pid \<in> set (class_queue s class)
          \<longleftrightarrow> pid \<in> set (sched_queued s) \<and> bt_get (sched_classes s) pid = Some class" for "class" pid
      by (auto simp: queues_ok_def)
    have "set (diagnostic_queued_processes s) = set (sched_queued s)"
    proof -
      have "pid \<in> set (sched_queued s) \<Longrightarrow> \<exists>class. bt_get (sched_classes s) pid = Some class" for pid
        using s by (auto simp: queues_ok_def)
      then show ?thesis
        unfolding queues_of_classes [OF True] using q(2) by (auto simp: ex)
    qed
    moreover have "distinct (diagnostic_queued_processes s)"
      unfolding queues_of_classes [OF True] using q by auto
    moreover have "\<exists>class. bt_get (sched_classes s) pid = Some class \<and> pid \<in> set (sched_queues s ! queue_index class)"
      if "pid \<in> set (sched_queued s)" for pid
      using that s q(2) by (auto simp: queues_ok_def class_queue_def)
    ultimately show "sched_ok s" using s by (simp add: sched_ok_def maps_ok_def)
  qed
qed (simp add: sched_ok_def maps_ok_def)

lemma class_or_normal_Some: "bt_get (sched_classes s) pid = Some class \<Longrightarrow> class_or_normal s pid = class"
  by (simp add: class_or_normal_def)

section \<open>The queue operations\<close>

lemma scheduler_with_owner_ok: "sched_ok (scheduler_with_owner config owner)"
  by (simp add: sched_ok_def scheduler_with_owner_def scheduler_metrics_default_def
      diagnostic_queued_processes_def)

lemma enqueue_raw_law:
  assumes ok: "sched_ok s"
  shows "sched_ok (enqueue_unchecked_raw pid s)"
    "set (sched_queued (enqueue_unchecked_raw pid s)) = insert pid (set (sched_queued s))"
    "class_queue (enqueue_unchecked_raw pid s) class = class_queue s class
       @ (if pid \<notin> set (sched_queued s) \<and> class = class_or_normal s pid then [pid] else [])"
    "bt_get (sched_classes (enqueue_unchecked_raw pid s))
       = (bt_get (sched_classes s))(pid \<mapsto> class_or_normal s pid)"
    "sched_class_cycle_cursor (enqueue_unchecked_raw pid s) = sched_class_cycle_cursor s"
    "sched_tick (enqueue_unchecked_raw pid s) = sched_tick s"
    "m_processes (sched_metrics (enqueue_unchecked_raw pid s)) = m_processes (sched_metrics s)"
proof -
  have m: "maps_ok s" "queues_ok s" using ok by (simp_all add: sched_ok_iff)
  have len: "length (sched_queues s) = 3" using m by (simp add: maps_ok_def)
  let ?s = "enqueue_unchecked_raw pid s" and ?cl = "class_or_normal s pid"
  have cq: "class_queue (s\<lparr> sched_classes := a, sched_queued := b \<rparr>) class' = class_queue s class'" for a b class'
    by (simp add: class_queue_def)
  have cq': "class_queue (s\<lparr> sched_enqueued_at := a, sched_metrics := b \<rparr>) class' = class_queue s class'" for s a b class'
    by (simp add: class_queue_def)
  show set: "set (sched_queued ?s) = insert pid (set (sched_queued s))"
    by (auto simp: enqueue_unchecked_raw_def Let_def bs_contains_def)
  show classes: "bt_get (sched_classes ?s) = (bt_get (sched_classes s))(pid \<mapsto> ?cl)"
    by (auto simp: enqueue_unchecked_raw_def Let_def bt_contains_def class_or_normal_def)
  have queue: "class_queue ?s c = class_queue s c
       @ (if pid \<notin> set (sched_queued s) \<and> c = ?cl then [pid] else [])" for c
    using class_queue_update [of "s\<lparr> sched_classes := a, sched_queued := b \<rparr>" ?cl "\<lambda>q. q @ [pid]" c for a b] len
    by (simp add: enqueue_unchecked_raw_def Let_def bs_contains_def class_queue_def update_queue_def)
  then show "class_queue ?s class = class_queue s class
       @ (if pid \<notin> set (sched_queued s) \<and> class = ?cl then [pid] else [])" .
  show cursor: "sched_class_cycle_cursor ?s = sched_class_cycle_cursor s"
      "sched_tick ?s = sched_tick s" "m_processes (sched_metrics ?s) = m_processes (sched_metrics s)"
    by (simp_all add: enqueue_unchecked_raw_def Let_def)
  have "maps_ok ?s"
    using m(1) by (auto simp: maps_ok_def enqueue_unchecked_raw_def Let_def)
  moreover have "queues_ok ?s"
    unfolding queues_ok_def
  proof (intro conjI allI ballI)
    fix c
    show "distinct (class_queue ?s c)"
      unfolding queue using m(2) by (auto simp: queues_ok_def)
    fix p
    have known: "pid \<in> set (sched_queued s) \<Longrightarrow> bt_get (sched_classes s) pid = Some ?cl"
      using m(2) by (auto simp: queues_ok_def class_or_normal_def)
    show "p \<in> set (class_queue ?s c) \<longleftrightarrow> p \<in> set (sched_queued ?s) \<and> bt_get (sched_classes ?s) p = Some c"
      unfolding queue set classes using m(2) known by (auto simp: queues_ok_def)
  next
    fix p
    assume "p \<in> set (sched_queued ?s)"
    then show "bt_get (sched_classes ?s) p \<noteq> None"
      using m(2) unfolding set classes by (auto simp: queues_ok_def)
  qed
  ultimately show "sched_ok ?s" by (simp add: sched_ok_iff)
qed

lemma remove_queued_law:
  assumes ok: "sched_ok s"
  shows "sched_ok (remove_queued pid s)"
    "set (sched_queued (remove_queued pid s)) = set (sched_queued s) - {pid}"
    "class_queue (remove_queued pid s) class = filter (\<lambda>p. p \<noteq> pid) (class_queue s class)"
    "sched_classes (remove_queued pid s) = sched_classes s"
    "sched_class_cycle_cursor (remove_queued pid s) = sched_class_cycle_cursor s"
    "sched_metrics (remove_queued pid s) = sched_metrics s"
proof -
  have m: "maps_ok s" "queues_ok s" using ok by (simp_all add: sched_ok_iff)
  have len: "length (sched_queues s) = 3" using m by (simp add: maps_ok_def)
  let ?s = "remove_queued pid s"
  show set: "set (sched_queued ?s) = set (sched_queued s) - {pid}"
    by (auto simp: remove_queued_def Let_def bs_contains_def)
  show classes: "sched_classes ?s = sched_classes s"
    by (simp add: remove_queued_def Let_def)
  have away: "filter (\<lambda>p. p \<noteq> pid) (class_queue s c) = class_queue s c"
    if "pid \<notin> set (sched_queued s) \<or> bt_get (sched_classes s) pid \<noteq> Some c" for c
    using that m(2) by (auto simp: filter_id_conv queues_ok_def)
  have queue: "class_queue ?s c = filter (\<lambda>p. p \<noteq> pid) (class_queue s c)" for c
  proof (cases "pid \<in> set (sched_queued s)")
    case True
    then obtain class' where class': "bt_get (sched_classes s) pid = Some class'"
      using m(2) by (auto simp: queues_ok_def)
    have "class_queue ?s c = (if c = class' then filter (\<lambda>p. p \<noteq> pid) (class_queue s c) else class_queue s c)"
      using True len class_or_normal_Some [OF class']
      by (simp add: remove_queued_def Let_def bs_contains_def class_queue_def update_queue_def
          class_or_normal_def)
    then show ?thesis using away class' by auto
  qed (simp add: away, simp add: remove_queued_def bs_contains_def)
  then show "class_queue ?s class = filter (\<lambda>p. p \<noteq> pid) (class_queue s class)" .
  show "sched_class_cycle_cursor ?s = sched_class_cycle_cursor s" "sched_metrics ?s = sched_metrics s"
    by (simp_all add: remove_queued_def Let_def)
  have "maps_ok ?s"
    using m(1) by (auto simp: maps_ok_def remove_queued_def Let_def)
  moreover have "queues_ok ?s"
    unfolding queues_ok_def queue set classes using m(2) by (auto simp: queues_ok_def)
  ultimately show "sched_ok ?s" by (simp add: sched_ok_iff)
qed

section \<open>The class cycle\<close>

definition turn :: "VmScheduler \<Rightarrow> nat \<Rightarrow> VmSchedulerClass" where
  "turn s i = VM_SCHEDULER_CLASS_CYCLE ! ((sched_class_cycle_cursor s + i) mod 6)"

definition advance :: "VmScheduler \<Rightarrow> VmScheduler" where
  "advance s = s\<lparr> sched_class_cycle_cursor := (sched_class_cycle_cursor s + 1) mod 6 \<rparr>"

lemma advance_simps [simp]:
  "class_queue (advance s) = class_queue s" "sched_queued (advance s) = sched_queued s"
  "sched_classes (advance s) = sched_classes s" "sched_tick (advance s) = sched_tick s"
  "turn (advance s) i = turn s (Suc i)" "sched_metrics (advance s) = sched_metrics s"
  "sched_class_cycle_cursor (advance s) = (sched_class_cycle_cursor s + 1) mod 6"
  by (auto simp: advance_def class_queue_def fun_eq_iff turn_def mod_add_left_eq)

lemma advance_ok: "sched_ok s \<Longrightarrow> sched_ok (advance s)"
  by (simp add: sched_ok_def advance_def diagnostic_queued_processes_def)

text \<open>Taking the head of a queue.\<close>

definition pop_head :: "VmSchedulerClass \<Rightarrow> VmProcessId \<Rightarrow> VmProcessId list \<Rightarrow> VmScheduler \<Rightarrow> VmScheduler" where
  "pop_head class pid rest s =
     (let s = update_queue (queue_index class) (\<lambda>_. rest) s;
          s = s\<lparr> sched_queued := bs_remove pid (sched_queued s) \<rparr>
      in s\<lparr> sched_enqueued_at := bt_remove pid (sched_enqueued_at s) \<rparr>)"

lemma pop_head_law:
  assumes ok: "sched_ok s" and head: "class_queue s class = pid # rest"
  shows "sched_ok (pop_head class pid rest s)"
    "class_queue (pop_head class pid rest s) c = (if c = class then rest else class_queue s c)"
    "set (sched_queued (pop_head class pid rest s)) = set (sched_queued s) - {pid}"
    "sched_classes (pop_head class pid rest s) = sched_classes s"
    "sched_class_cycle_cursor (pop_head class pid rest s) = sched_class_cycle_cursor s"
    "sched_metrics (pop_head class pid rest s) = sched_metrics s"
proof -
  have m: "maps_ok s" "queues_ok s" using ok by (simp_all add: sched_ok_iff)
  have len: "length (sched_queues s) = 3" using m by (simp add: maps_ok_def)
  let ?s = "pop_head class pid rest s"
  show set: "set (sched_queued ?s) = set (sched_queued s) - {pid}"
    and classes: "sched_classes ?s = sched_classes s"
    and "sched_class_cycle_cursor ?s = sched_class_cycle_cursor s"
    and "sched_metrics ?s = sched_metrics s"
    by (simp_all add: pop_head_def Let_def)
  have queue: "class_queue ?s c = (if c = class then rest else class_queue s c)" for c
    using len by (simp add: pop_head_def Let_def class_queue_def update_queue_def)
  then show "class_queue ?s c = (if c = class then rest else class_queue s c)" .
  have "maps_ok ?s" using m(1) by (auto simp: maps_ok_def pop_head_def Let_def)
  moreover have "queues_ok ?s"
  proof -
    have "distinct (class_queue s class)" "pid \<in> set (class_queue s class)
        \<longleftrightarrow> pid \<in> set (sched_queued s) \<and> bt_get (sched_classes s) pid = Some class"
      using m(2) by (simp_all add: queues_ok_def)
    then have d: "distinct (pid # rest)" "bt_get (sched_classes s) pid = Some class"
      using head by simp_all
    have "p \<in> set (pid # rest) \<longleftrightarrow> p \<in> set (sched_queued s) \<and> bt_get (sched_classes s) p = Some class" for p
      using m(2) unfolding queues_ok_def head [symmetric] by blast
    then have mem: "p \<in> set rest \<longleftrightarrow> p \<in> set (sched_queued s) - {pid} \<and> bt_get (sched_classes s) p = Some class" for p
      using d(1) by auto
    have other: "p \<in> set (class_queue s c) \<longleftrightarrow> p \<in> set (sched_queued s) - {pid} \<and> bt_get (sched_classes s) p = Some c"
      if "c \<noteq> class" for p c
      using m(2) d(2) that unfolding queues_ok_def by auto
    show ?thesis
      unfolding queues_ok_def queue set classes
    proof (intro conjI allI ballI)
      fix c p
      show "distinct (if c = class then rest else class_queue s c)"
        using m(2) d(1) by (simp add: queues_ok_def)
      show "p \<in> set (if c = class then rest else class_queue s c)
          \<longleftrightarrow> p \<in> set (sched_queued s) - {pid} \<and> bt_get (sched_classes s) p = Some c"
        using mem other by (cases "c = class") simp_all
    next
      fix p
      assume "p \<in> set (sched_queued s) - {pid}"
      then show "bt_get (sched_classes s) p \<noteq> None" using m(2) by (simp add: queues_ok_def)
    qed
  qed
  ultimately show "sched_ok ?s" by (simp add: sched_ok_iff)
qed

lemma dequeue_loop_law:
  assumes "sched_ok s" "dequeue_loop n s = (r, s')"
  shows "sched_ok s' \<and> sched_tick s' = sched_tick s \<and> sched_metrics s' = sched_metrics s
     \<and> (case r of
       None \<Rightarrow> (\<forall>i<n. class_queue s (turn s i) = []) \<and> class_queue s' = class_queue s
         \<and> sched_queued s' = sched_queued s \<and> sched_classes s' = sched_classes s
     | Some (pid, tick) \<Rightarrow> \<exists>j<n. \<exists>rest. (\<forall>i<j. class_queue s (turn s i) = [])
         \<and> class_queue s (turn s j) = pid # rest
         \<and> class_queue s' = (class_queue s)(turn s j := rest)
         \<and> set (sched_queued s') = set (sched_queued s) - {pid}
         \<and> sched_classes s' = sched_classes s
         \<and> sched_class_cycle_cursor s' = (sched_class_cycle_cursor s + j + 1) mod 6)"
  using assms
proof (induction n arbitrary: s)
  case (Suc n)
  let ?cl = "turn s 0"
  have cur: "VM_SCHEDULER_CLASS_CYCLE ! sched_class_cycle_cursor s = ?cl"
    using Suc.prems(1) by (simp add: sched_ok_def turn_def)
  note ok = advance_ok [OF Suc.prems(1)]
  show ?case
  proof (cases "class_queue s ?cl")
    case Nil
    then have "dequeue_loop n (advance s) = (r, s')"
      using Suc.prems(2) cur by (simp add: Let_def class_queue_def advance_def [symmetric] split: list.splits)
         (simp add: advance_def)
    note IH = Suc.IH [OF ok this]
    have less: "i < Suc n \<longleftrightarrow> i = 0 \<or> (\<exists>k<n. i = Suc k)" for i by (cases i) auto
    show ?thesis
    proof (cases r)
      case None
      then show ?thesis using IH Nil by (auto simp: less)
    next
      case (Some p)
      obtain pid tick where p: "p = (pid, tick)" by (cases p)
      then obtain j rest where j: "j < n" "\<forall>i<j. class_queue s (turn s (Suc i)) = []"
          "class_queue s (turn s (Suc j)) = pid # rest"
          "class_queue s' = (class_queue s)(turn s (Suc j) := rest)"
          "set (sched_queued s') = set (sched_queued s) - {pid}" "sched_classes s' = sched_classes s"
          "sched_class_cycle_cursor s' = ((sched_class_cycle_cursor s + 1) mod 6 + j + 1) mod 6"
        using IH Some by auto
      have empty: "\<forall>i<Suc j. class_queue s (turn s i) = []"
        using j(2) Nil by (auto simp: less_Suc_eq_0_disj)
      have "((c + 1) mod 6 + j + 1) mod 6 = (c + Suc j + 1) mod 6" for c :: nat
        using mod_add_left_eq [of "c + 1" 6 "j + 1"] by simp
      then have cursor: "sched_class_cycle_cursor s' = (sched_class_cycle_cursor s + Suc j + 1) mod 6"
        using j(7) by simp
      have "sched_ok s'" "sched_tick s' = sched_tick s" "sched_metrics s' = sched_metrics s"
        using IH by simp_all
      moreover have "Suc j < Suc n" using j(1) by simp
      ultimately show ?thesis
        using j(3-6) empty cursor unfolding Some p option.case prod.case by blast
    qed
  next
    case (Cons pid rest)
    then have head: "class_queue (advance s) ?cl = pid # rest" by simp
    have run: "\<exists>tick. r = Some (pid, tick)" "s' = pop_head ?cl pid rest (advance s)"
      using Suc.prems(2) cur Cons
      by (auto simp: Let_def class_queue_def advance_def pop_head_def update_queue_def)
    note pop = pop_head_law [OF ok head]
    have "class_queue s' = (class_queue s)(?cl := rest)"
      by (auto simp: run(2) pop(2) fun_eq_iff)
    moreover have "sched_tick s' = sched_tick s" by (simp add: run(2) pop_head_def Let_def)
    moreover have "sched_ok s'" "set (sched_queued s') = set (sched_queued s) - {pid}"
        "sched_classes s' = sched_classes s" "sched_metrics s' = sched_metrics s"
        "sched_class_cycle_cursor s' = (sched_class_cycle_cursor s + 0 + 1) mod 6"
      using pop(1,3-6) by (simp_all add: run(2))
    moreover obtain tick where "r = Some (pid, tick)" using run(1) by blast
    moreover have "0 < Suc n" "\<forall>i<0. class_queue s (turn s i) = []" by simp_all
    ultimately show ?thesis
      using Cons by (simp only: option.case prod.case) blast
  qed
qed simp

lemma dequeue_law:
  assumes "sched_ok s" "dequeue s = (r, s')"
  shows "sched_ok s'" "sched_tick s' = sched_tick s" "sched_metrics s' = sched_metrics s"
    "r = Some (pid, tick) \<Longrightarrow> pid \<in> set (sched_queued s) \<and> pid \<notin> set (sched_queued s')"
    "r = None \<longleftrightarrow> sched_queued s = []"
proof -
  note law = dequeue_loop_law [OF assms(1), of 6, unfolded dequeue_def [unfolded cycle_length, symmetric], OF assms(2)]
  show "sched_ok s'" "sched_tick s' = sched_tick s" "sched_metrics s' = sched_metrics s"
    using law by simp_all
  have q: "queues_ok s" using assms(1) by (simp add: sched_ok_iff)
  have member: "p \<in> set (sched_queued s)" if "p \<in> set (class_queue s class)" for p "class"
    using q that by (auto simp: queues_ok_def)
  show "pid \<in> set (sched_queued s) \<and> pid \<notin> set (sched_queued s')" if r: "r = Some (pid, tick)"
  proof -
    obtain j rest where "class_queue s (turn s j) = pid # rest" "set (sched_queued s') = set (sched_queued s) - {pid}"
      using law unfolding r by auto
    then show ?thesis using member [of pid "turn s j"] by simp
  qed
  show "r = None \<longleftrightarrow> sched_queued s = []"
  proof
    assume "r = None"
    then have empty: "class_queue s (turn s i) = []" if "i < 6" for i using law that by simp
    have "class_queue s class = []" for "class"
    proof -
      have "sched_class_cycle_cursor s < 6" using assms(1) by (simp add: sched_ok_def)
      then have "sched_class_cycle_cursor s \<in> {0, 1, 2, 3, 4, 5}" by auto
      then have "\<exists>i<6. turn s i = class"
        by (cases "class") (auto simp: turn_def VM_SCHEDULER_CLASS_CYCLE_def intro: exI [of _ 0] exI [of _ 1]
            exI [of _ 2] exI [of _ 3] exI [of _ 4] exI [of _ 5])
      then show ?thesis using empty by auto
    qed
    then have "p \<notin> set (sched_queued s)" for p
      using q by (force simp: queues_ok_def)
    then show "sched_queued s = []" by (cases "sched_queued s") auto
  next
    assume none: "sched_queued s = []"
    show "r = None"
    proof (cases r)
      case (Some p)
      then obtain j rest where "class_queue s (turn s j) = fst p # rest" using law by (cases p) auto
      then show ?thesis using member [of "fst p" "turn s j"] none by simp
    qed
  qed
qed

section \<open>Bounded waiting\<close>

definition slots_until :: "VmSchedulerClass \<Rightarrow> nat \<Rightarrow> nat" where
  "slots_until class cursor = length (takeWhile (\<lambda>c. c \<noteq> class) (rotate cursor VM_SCHEDULER_CLASS_CYCLE))"

lemma below_six: "(n :: nat) < 6 \<longleftrightarrow> n = 0 \<or> n = 1 \<or> n = 2 \<or> n = 3 \<or> n = 4 \<or> n = 5"
  by auto

lemma slots_table:
  "map (slots_until SchedPriority) [0, 1, 2, 3, 4, 5] = [0, 0, 1, 0, 2, 1]"
  "map (slots_until SchedNormal) [0, 1, 2, 3, 4, 5] = [2, 1, 0, 1, 0, 3]"
  "map (slots_until SchedBackground) [0, 1, 2, 3, 4, 5] = [5, 4, 3, 2, 1, 0]"
  by (simp_all add: slots_until_def VM_SCHEDULER_CLASS_CYCLE_def numeral_eq_Suc)

lemma slots_values [simp]:
  "slots_until SchedPriority 0 = 0" "slots_until SchedPriority (Suc 0) = 0" "slots_until SchedPriority 2 = 1"
  "slots_until SchedPriority 3 = 0" "slots_until SchedPriority 4 = 2" "slots_until SchedPriority 5 = 1"
  "slots_until SchedNormal 0 = 2" "slots_until SchedNormal (Suc 0) = 1" "slots_until SchedNormal 2 = 0"
  "slots_until SchedNormal 3 = 1" "slots_until SchedNormal 4 = 0" "slots_until SchedNormal 5 = 3"
  "slots_until SchedBackground 0 = 5" "slots_until SchedBackground (Suc 0) = 4" "slots_until SchedBackground 2 = 3"
  "slots_until SchedBackground 3 = 2" "slots_until SchedBackground 4 = 1" "slots_until SchedBackground 5 = 0"
  using slots_table by simp_all

lemma slots_until_less: "cursor < 6 \<Longrightarrow> slots_until class cursor < 6"
  unfolding below_six by (cases "class") auto

lemma slots_until_turn:
  assumes "cursor < 6"
  shows "VM_SCHEDULER_CLASS_CYCLE ! ((cursor + slots_until class cursor) mod 6) = class"
  using assms unfolding below_six
  by (cases "class") (auto simp: VM_SCHEDULER_CLASS_CYCLE_def)

lemma slots_until_Suc:
  assumes "cursor < 6" "0 < slots_until class cursor"
  shows "slots_until class ((cursor + 1) mod 6) + 1 = slots_until class cursor"
  using assms unfolding below_six
  by (cases "class") (auto simp flip: numeral_2_eq_2)

lemma slots_until_step:
  assumes "cursor < 6" "j < slots_until class cursor"
  shows "slots_until class ((cursor + j + 1) mod 6) + j + 1 = slots_until class cursor"
  using assms(2)
proof (induction j)
  case 0
  then show ?case using slots_until_Suc [OF assms(1), of "class"] by simp
next
  case (Suc j)
  let ?c = "(cursor + j + 1) mod 6"
  have IH: "slots_until class ?c + j + 1 = slots_until class cursor" using Suc by simp
  then have "0 < slots_until class ?c" using Suc.prems by linarith
  then have "slots_until class ((?c + 1) mod 6) + 1 = slots_until class ?c"
    by (intro slots_until_Suc) simp_all
  moreover have "(?c + 1) mod 6 = (cursor + Suc j + 1) mod 6"
    using mod_add_left_eq [of "cursor + j + 1" 6 1] by simp
  ultimately show ?case using IH by simp
qed

text \<open>A bound on the number of slices before a process with \<open>n\<close> others before it runs.\<close>

definition wait_bound :: "VmScheduler \<Rightarrow> VmSchedulerClass \<Rightarrow> nat \<Rightarrow> nat" where
  "wait_bound s class n = 6 * n + slots_until class (sched_class_cycle_cursor s)"

lemma dequeue_progress:
  assumes ok: "sched_ok s" and q: "class_queue s class = before @ pid # after" and d: "dequeue s = (r, s')"
  shows "(\<exists>tick. r = Some (pid, tick)) \<or> (\<exists>before'. class_queue s' class = before' @ pid # after
      \<and> wait_bound s' class (length before') < wait_bound s class (length before))"
proof -
  have cur: "sched_class_cycle_cursor s < 6" using ok by (simp add: sched_ok_def)
  let ?k = "slots_until class (sched_class_cycle_cursor s)"
  have k: "turn s ?k = class" "?k < 6"
    using slots_until_turn [OF cur] slots_until_less [OF cur] by (simp_all add: turn_def)
  have law: "case r of None \<Rightarrow> \<forall>i<6. class_queue s (turn s i) = []
     | Some (pid, tick) \<Rightarrow> \<exists>j<6. \<exists>rest. (\<forall>i<j. class_queue s (turn s i) = [])
         \<and> class_queue s (turn s j) = pid # rest \<and> class_queue s' = (class_queue s)(turn s j := rest)
         \<and> sched_class_cycle_cursor s' = (sched_class_cycle_cursor s + j + 1) mod 6"
    using dequeue_loop_law [OF ok, of 6 r s'] d by (auto simp: dequeue_def split: option.splits)
  show ?thesis
  proof (cases r)
    case None
    then have "class_queue s (turn s ?k) = []" using law k(2) by simp
    then show ?thesis using q k(1) by simp
  next
    case (Some p)
    obtain pid' tick where p: "p = (pid', tick)" by (cases p)
    obtain j rest where j: "\<forall>i<j. class_queue s (turn s i) = []" "class_queue s (turn s j) = pid' # rest"
        "class_queue s' = (class_queue s)(turn s j := rest)"
        "sched_class_cycle_cursor s' = (sched_class_cycle_cursor s + j + 1) mod 6"
      using law unfolding Some p by auto
    have "j \<le> ?k"
    proof (rule ccontr)
      assume "\<not> j \<le> ?k"
      then have "class_queue s (turn s ?k) = []" using j(1) by simp
      then show False using q k(1) by simp
    qed
    then consider "j = ?k" | "j < ?k" by linarith
    then show ?thesis
    proof cases
      case 1
      then have t: "turn s j = class" using k(1) by simp
      show ?thesis
      proof (cases before)
        case Nil
        then show ?thesis using j(2) q t Some p by simp
      next
        case (Cons b bs)
        then have "class_queue s' class = bs @ pid # after" using j(2,3) q t by simp
        moreover have "slots_until class (sched_class_cycle_cursor s') < 6"
          by (rule slots_until_less) (simp add: j(4))
        ultimately show ?thesis
          using Cons by (intro disjI2 exI [of _ bs]) (simp add: wait_bound_def)
      qed
    next
      case 2
      note step = slots_until_step [OF cur 2]
      have "turn s j \<noteq> class"
      proof
        assume "turn s j = class"
        moreover have "j < length (takeWhile (\<lambda>c. c \<noteq> class) (rotate (sched_class_cycle_cursor s) VM_SCHEDULER_CLASS_CYCLE))"
          using 2 by (simp add: slots_until_def)
        ultimately show False
          using nth_length_takeWhile set_takeWhileD [OF nth_mem [of j "takeWhile (\<lambda>c. c \<noteq> class)
              (rotate (sched_class_cycle_cursor s) VM_SCHEDULER_CLASS_CYCLE)"]]
            takeWhile_nth [of j "\<lambda>c. c \<noteq> class" "rotate (sched_class_cycle_cursor s) VM_SCHEDULER_CLASS_CYCLE"]
            length_takeWhile_le [of "\<lambda>c. c \<noteq> class" "rotate (sched_class_cycle_cursor s) VM_SCHEDULER_CLASS_CYCLE"]
          by (simp add: turn_def nth_rotate add.commute)
      qed
      then have "class_queue s' class = before @ pid # after" using j(3) q by simp
      moreover have "wait_bound s' class (length before) < wait_bound s class (length before)"
        using step by (simp add: wait_bound_def j(4))
      ultimately show ?thesis by blast
    qed
  qed
qed

text \<open>Any interleaving of the scheduler's queue operations.\<close>

datatype queue_event = Enqueued VmProcessId | Classified VmProcessId VmSchedulerClass
  | Removed VmProcessId | Forgotten VmProcessId | Dequeued

text \<open>A class is only written for a process that is not queued: \<open>set_process_class\<close> removes it
  before and \<open>enqueue_runnable_with_class\<close> refuses another class.\<close>

definition classify :: "VmProcessId \<Rightarrow> VmSchedulerClass \<Rightarrow> VmScheduler \<Rightarrow> VmScheduler" where
  "classify pid class s = (if bs_contains (sched_queued s) pid then s
     else s\<lparr> sched_classes := bt_insert pid class (sched_classes s) \<rparr>)"

fun queue_run :: "queue_event list \<Rightarrow> VmScheduler \<Rightarrow> VmProcessId list \<times> VmScheduler" where
  "queue_run [] s = ([], s)"
| "queue_run (Enqueued pid # es) s = queue_run es (enqueue_unchecked_raw pid s)"
| "queue_run (Classified pid class # es) s = queue_run es (classify pid class s)"
| "queue_run (Removed pid # es) s = queue_run es (remove_queued pid s)"
| "queue_run (Forgotten pid # es) s = queue_run es (forget_process pid s)"
| "queue_run (Dequeued # es) s = (case dequeue s of
     (None, s) \<Rightarrow> queue_run es s
   | (Some (pid, _), s) \<Rightarrow> (case queue_run es s of (served, s) \<Rightarrow> (pid # served, s)))"

lemma forget_class_ok: "sched_ok s \<Longrightarrow> pid \<notin> set (sched_queued s) \<Longrightarrow> sched_ok (forget_class pid s)"
  by (auto simp: sched_ok_def forget_class_def diagnostic_queued_processes_def)

lemma forget_process_law:
  assumes ok: "sched_ok s"
  shows "sched_ok (forget_process pid s)" "class_queue (forget_process pid s) class
      = filter (\<lambda>p. p \<noteq> pid) (class_queue s class)"
    "set (sched_queued (forget_process pid s)) = set (sched_queued s) - {pid}"
    "sched_class_cycle_cursor (forget_process pid s) = sched_class_cycle_cursor s"
    "bt_get (sched_classes (forget_process pid s)) = (bt_get (sched_classes s))(pid := None)"
proof -
  note r = remove_queued_law [OF ok, of pid]
  have shape: "forget_process pid s = (forget_class pid (remove_queued pid s))
      \<lparr> sched_enqueued_at := bt_remove pid (sched_enqueued_at (remove_queued pid s)) \<rparr>"
    by (simp add: forget_process_def forget_class_def Let_def)
  have ok': "sched_ok (forget_class pid (remove_queued pid s))"
    by (rule forget_class_ok [OF r(1)]) (simp add: r(2))
  have "sched_ok (s'\<lparr> sched_enqueued_at := bt_remove pid (sched_enqueued_at s') \<rparr>)" if "sched_ok s'" for s'
    using that by (auto simp: sched_ok_def diagnostic_queued_processes_def)
  from this [OF ok'] show "sched_ok (forget_process pid s)"
    by (simp add: shape forget_class_def)
  show "class_queue (forget_process pid s) class = filter (\<lambda>p. p \<noteq> pid) (class_queue s class)"
  proof -
    have "class_queue (forget_process pid s) class = class_queue (remove_queued pid s) class"
      by (simp add: shape forget_class_def class_queue_def)
    also have "\<dots> = filter (\<lambda>p. p \<noteq> pid) (class_queue s class)" by (rule r(3))
    finally show ?thesis .
  qed
  show "set (sched_queued (forget_process pid s)) = set (sched_queued s) - {pid}"
    "sched_class_cycle_cursor (forget_process pid s) = sched_class_cycle_cursor s"
    "bt_get (sched_classes (forget_process pid s)) = (bt_get (sched_classes s))(pid := None)"
    by (auto simp: shape forget_class_def r(2) r(4) r(5))
qed

lemma classify_law:
  assumes ok: "sched_ok s"
  shows "sched_ok (classify pid class s)" "class_queue (classify pid class s) = class_queue s"
    "sched_class_cycle_cursor (classify pid class s) = sched_class_cycle_cursor s"
proof -
  have "bt_get (bt_insert pid class (sched_classes s)) p = bt_get (sched_classes s) p"
    if "p \<in> set (sched_queued s)" "pid \<notin> set (sched_queued s)" for p
    using that by auto
  then show "sched_ok (classify pid class s)"
    using ok by (auto simp: classify_def bs_contains_def sched_ok_def diagnostic_queued_processes_def)
qed (auto simp: classify_def class_queue_def)

lemma served_in_time:
  assumes "sched_ok s" "class_queue s class = before @ pid # after"
    "Forgotten pid \<notin> set es" "Removed pid \<notin> set es"
    "wait_bound s class (length before) < count_list es Dequeued"
  shows "pid \<in> set (fst (queue_run es s))"
  using assms
proof (induction es arbitrary: s before after)
  case (Cons e es)
  have shrink: "pid \<in> set (fst (queue_run es s'))"
    if "p \<noteq> pid" "class_queue s' class = filter (\<lambda>x. x \<noteq> p) (class_queue s class)" "sched_ok s'"
      "sched_class_cycle_cursor s' = sched_class_cycle_cursor s" "e \<noteq> Dequeued" for p s'
  proof (rule Cons.IH [OF that(3)])
    show "class_queue s' class = filter (\<lambda>x. x \<noteq> p) before @ pid # filter (\<lambda>x. x \<noteq> p) after"
      using that(1,2) Cons.prems(2) by simp
    show "wait_bound s' class (length (filter (\<lambda>x. x \<noteq> p) before)) < count_list es Dequeued"
      using Cons.prems(5) that(4,5)
      by (auto simp: wait_bound_def intro: le_less_trans [OF add_right_mono [OF mult_le_mono2 [OF length_filter_le]]])
  qed (use Cons.prems in auto)
  show ?case
  proof (cases e)
    case (Enqueued p)
    have q: "class_queue (enqueue_unchecked_raw p s) class = before @ pid # (after @
        (if p \<notin> set (sched_queued s) \<and> class = class_or_normal s p then [p] else []))"
      using Cons.prems(2) enqueue_raw_law(3) [OF Cons.prems(1)] by simp
    have "pid \<in> set (fst (queue_run es (enqueue_unchecked_raw p s)))"
      by (rule Cons.IH [OF enqueue_raw_law(1) [OF Cons.prems(1)] q])
        (use Cons.prems Enqueued enqueue_raw_law(5) [OF Cons.prems(1)] in \<open>auto simp: wait_bound_def\<close>)
    then show ?thesis using Enqueued by simp
  next
    case (Classified p c)
    note law = classify_law [OF Cons.prems(1), of p c]
    have "pid \<in> set (fst (queue_run es (classify p c s)))"
      by (rule Cons.IH [OF law(1), of before after])
        (use Cons.prems Classified law in \<open>auto simp: wait_bound_def\<close>)
    then show ?thesis using Classified by simp
  next
    case (Removed p)
    note law = remove_queued_law [OF Cons.prems(1), of p]
    from Removed show ?thesis
      using shrink [of p "remove_queued p s", OF _ law(3) law(1) law(5)] Cons.prems by auto
  next
    case (Forgotten p)
    note law = forget_process_law [OF Cons.prems(1), of p]
    from Forgotten show ?thesis
      using shrink [of p "forget_process p s", OF _ law(2) law(1) law(4)] Cons.prems by auto
  next
    case Dequeued
    obtain r s' where d: "dequeue s = (r, s')" by (cases "dequeue s")
    have ok': "sched_ok s'" by (rule dequeue_law(1) [OF Cons.prems(1) d])
    from dequeue_progress [OF Cons.prems(1,2) d] show ?thesis
    proof
      assume "\<exists>tick. r = Some (pid, tick)"
      then show ?thesis using Dequeued d by (auto split: prod.splits)
    next
      assume "\<exists>before'. class_queue s' class = before' @ pid # after
        \<and> wait_bound s' class (length before') < wait_bound s class (length before)"
      then obtain before' where b: "class_queue s' class = before' @ pid # after"
          "wait_bound s' class (length before') < wait_bound s class (length before)" by blast
      have "pid \<in> set (fst (queue_run es s'))"
        by (rule Cons.IH [OF ok' b(1)]) (use Cons.prems Dequeued b(2) in auto)
      then show ?thesis using Dequeued d by (auto split: prod.splits option.splits)
    qed
  qed
qed simp

end
