(* ===== verification/Scheduler_Moves.thy ===== *)
theory Scheduler_Moves
  imports Scheduler_Laws Process_Properties
begin

text \<open>
  The operations of the scheduler keep the run queues consistent whatever the process
  table answers: a composition rule for the state-passing operations and one lemma per
  operation, and the laws of the transfer of a placement.
\<close>

section \<open>Operations that keep the queues consistent\<close>

text \<open>\<open>moves P m R\<close>: from a scheduler in \<open>P\<close> the operation leaves one in \<open>R\<close>, whatever its
  outcome and whatever the table.\<close>

definition moves :: "(VmScheduler \<Rightarrow> bool) \<Rightarrow> ('q scheduled, 'e, 'a) stateful \<Rightarrow> (VmScheduler \<Rightarrow> bool) \<Rightarrow> bool" where
  "moves P m R \<longleftrightarrow> (\<forall>s t. P s \<longrightarrow> R (fst (snd (m (s, t)))))"

lemma moves_bind:
  assumes "moves P m M" "\<And>a. moves M (f a) R" "\<And>s. M s \<Longrightarrow> R s"
  shows "moves P (bind_st m f) R"
  unfolding moves_def
proof (intro allI impI)
  fix s t
  assume "P s"
  then have M: "M (fst (snd (m (s, t))))" using assms(1) by (simp add: moves_def)
  obtain r s' t' where m: "m (s, t) = (r, (s', t'))" by (cases "m (s, t)") auto
  show "R (fst (snd (bind_st m f (s, t))))"
    using M m assms(2,3) by (cases r) (auto simp: bind_st_def moves_def)
qed

lemma moves_post: "moves P m R \<Longrightarrow> (\<And>s. R s \<Longrightarrow> R' s) \<Longrightarrow> moves P m R'"
  by (simp add: moves_def)

lemma moves_pre: "moves P m R \<Longrightarrow> (\<And>s. P' s \<Longrightarrow> P s) \<Longrightarrow> moves P' m R"
  by (simp add: moves_def)

lemma moves_table: "moves P (on_table f) P"
  by (auto simp: moves_def on_table_def split: prod.splits)

lemma moves_scheduler: "(\<And>s. P s \<Longrightarrow> R (f s)) \<Longrightarrow> moves P (on_scheduler f) R"
  by (auto simp: moves_def on_scheduler_def)

lemma moves_return: "moves P (return_st x) P"
  by (simp add: moves_def return_st_def)

lemma snd_expect_st: "snd (expect_st msg m x) = snd (m x)"
  by (cases "m x") (simp add: expect_st_def)

lemma snd_ignore_st: "snd (ignore_st m x) = snd (m x)"
  by (cases "m x"; cases "fst (m x)") (auto simp: ignore_st_def)

lemma moves_expect: "moves P m R \<Longrightarrow> moves P (expect_st msg m) R"
  by (simp add: moves_def snd_expect_st)

lemma moves_ignore: "moves P m R \<Longrightarrow> moves P (ignore_st m) R"
  by (simp add: moves_def snd_ignore_st)

lemma moves_app: "moves P m R \<Longrightarrow> P s \<Longrightarrow> R (fst (snd (m (s, t))))"
  by (simp add: moves_def)

lemma metrics_ok: "sched_ok s \<Longrightarrow> bt_ok (m_processes m) \<Longrightarrow> sched_ok (s\<lparr> sched_metrics := m \<rparr>)"
  by (simp add: sched_ok_def diagnostic_queued_processes_def)

lemma update_metrics_ok: "bt_ok (m_processes m) \<Longrightarrow> bt_ok (m_processes (update_metrics pid f m))"
  by (simp add: update_metrics_def)

lemma sched_ok_metrics: "sched_ok s \<Longrightarrow> bt_ok (m_processes (sched_metrics s))"
  by (simp add: sched_ok_def)

text \<open>The two conditions the proofs use: consistent queues, and the same without \<open>pid\<close>.\<close>

definition without :: "VmProcessId \<Rightarrow> VmScheduler \<Rightarrow> bool" where
  "without pid s \<longleftrightarrow> sched_ok s \<and> pid \<notin> set (sched_queued s)"

lemma without_ok: "without pid s \<Longrightarrow> sched_ok s"
  by (simp add: without_def)

lemma tick_ok: "sched_ok s \<Longrightarrow> sched_ok (s\<lparr> sched_tick := n \<rparr>)"
  by (simp add: sched_ok_def diagnostic_queued_processes_def)

lemma keeps_charge: "moves sched_ok (charge_process_reductions pid reductions label allow) sched_ok"
proof -
  have "moves sched_ok (\<lambda>(s, t). (Ok reductions,
      (s\<lparr> sched_metrics := update_metrics pid f ((sched_metrics s)\<lparr> m_total_reductions := g s \<rparr>) \<rparr>, t))) sched_ok"
    for f g
    by (auto simp: moves_def intro!: metrics_ok update_metrics_ok sched_ok_metrics)
  note step = moves_app [OF moves_bind [OF moves_table this]]
  show ?thesis
    unfolding moves_def charge_process_reductions_def by (auto intro!: step)
qed

lemma keeps_charge_runtime: "moves sched_ok (charge_runtime_reductions pid reductions) sched_ok"
  by (simp add: charge_runtime_reductions_def keeps_charge)

lemma keeps_charge_terminal: "moves sched_ok (charge_terminal_reductions pid reductions) sched_ok"
  using keeps_charge [of pid reductions "''terminal reductions''" True]
  by (auto simp: moves_def charge_terminal_reductions_def)

lemma keeps_charge_memory: "moves sched_ok (charge_memory_reductions pid bytes) sched_ok"
  unfolding charge_memory_reductions_def Let_def
  by (rule moves_bind [OF keeps_charge])
    (auto simp: moves_def intro!: metrics_ok update_metrics_ok sched_ok_metrics)

lemma keeps_enqueue_unchecked: "moves sched_ok (enqueue_unchecked pid) sched_ok"
  unfolding enqueue_unchecked_def
  by (rule moves_bind [OF moves_table moves_scheduler]) (simp_all add: enqueue_raw_law(1))

lemma class_insert_ok:
  assumes "sched_ok s" "pid \<in> set (sched_queued s) \<longrightarrow> bt_get (sched_classes s) pid = Some class"
  shows "sched_ok (s\<lparr> sched_classes := bt_insert pid class (sched_classes s) \<rparr>)"
proof -
  have "bt_get (bt_insert pid class (sched_classes s)) p = bt_get (sched_classes s) p"
    if "p \<in> set (sched_queued s)" for p
    using that assms(2) by auto
  then show ?thesis
    using assms(1) by (auto simp: sched_ok_def diagnostic_queued_processes_def)
qed

lemma keeps_enqueue_runnable_with_class: "moves sched_ok (enqueue_runnable_with_class pid class) sched_ok"
proof -
  have "sched_ok (fst (snd (enqueue_unchecked pid (s\<lparr> sched_classes := bt_insert pid class (sched_classes s) \<rparr>, t))))"
    if "sched_ok s" "\<not> (bs_contains (sched_queued s) pid
            \<and> (case bt_get (sched_classes s) pid of Some existing \<Rightarrow> existing \<noteq> class | None \<Rightarrow> False))" for s t
  proof -
    have "pid \<in> set (sched_queued s) \<longrightarrow> bt_get (sched_classes s) pid = Some class"
      using that by (auto simp: sched_ok_def bs_contains_def split: option.splits)
    then show ?thesis
      using keeps_enqueue_unchecked class_insert_ok [OF that(1)] unfolding moves_def by blast
  qed
  then show ?thesis
    by (auto simp: moves_def enqueue_runnable_with_class_def split: option.splits VmProcessState.splits)
qed

lemma keeps_enqueue_runnable: "moves sched_ok (enqueue_runnable pid) sched_ok"
  using keeps_enqueue_runnable_with_class unfolding moves_def enqueue_runnable_def by fastforce

lemma keeps_register_fixed_owner: "moves (without pid) (register_fixed_owner pid) sched_ok"
  unfolding register_fixed_owner_def
  by (rule moves_bind [OF moves_table moves_scheduler])
    (auto simp: without_def intro: class_insert_ok)

lemma keeps_set_process_class: "moves sched_ok (set_process_class pid class) sched_ok"
proof -
  have charge: "moves sched_ok (bind_st (charge_runtime_reductions pid n) (\<lambda>_. return_st ())) sched_ok" for n
    by (rule moves_bind [OF keeps_charge_runtime moves_return])
  have move: "moves sched_ok (bind_st (if was then enqueue_unchecked pid else return_st ())
      (\<lambda>_. bind_st (charge_runtime_reductions pid n) (\<lambda>_. return_st ()))) sched_ok" for was n
    by (rule moves_bind [OF _ charge]) (auto simp: keeps_enqueue_unchecked moves_return)
  have out: "sched_ok ((if was then remove_queued pid s else s)\<lparr> sched_classes :=
      bt_insert pid class (sched_classes (if was then remove_queued pid s else s)) \<rparr>)"
    if "sched_ok s" "was = bs_contains (sched_queued s) pid" for s was
    by (rule class_insert_ok)
      (use that remove_queued_law(1,2) [OF that(1)] in \<open>auto simp: bs_contains_def\<close>)
  show ?thesis
    unfolding moves_def
  proof (intro allI impI)
    fix s t
    assume ok: "sched_ok s"
    show "sched_ok (fst (snd (set_process_class pid class (s, t))))"
    proof (cases "pt_get t pid")
      case None
      then show ?thesis using ok by (simp add: set_process_class_def)
    next
      case (Some p)
      let ?was = "bs_contains (sched_queued s) pid"
      let ?s = "if ?was then remove_queued pid s else s"
      show ?thesis
      proof (cases "is_exited (proc_state p) \<or> bt_get (sched_classes s) pid = Some class")
        case True
        then show ?thesis
          using Some ok moves_app [OF charge ok] by (auto simp: set_process_class_def)
      next
        case False
        then have "set_process_class pid class (s, t) = bind_st (if ?was then enqueue_unchecked pid else return_st ())
            (\<lambda>_. bind_st (charge_runtime_reductions pid VM_SCHEDULER_OPERATION_REDUCTIONS) (\<lambda>_. return_st ()))
            (?s\<lparr> sched_classes := bt_insert pid class (sched_classes ?s) \<rparr>, t)"
          using Some by (simp only: set_process_class_def prod.case option.case Let_def) simp
        then show ?thesis by (simp only:) (rule moves_app [OF move out [OF ok refl]])
      qed
    qed
  qed
qed

lemma moves_require: "moves P (require_process action pid) P"
  by (simp add: moves_def require_process_def)

lemma keeps_wake: "moves sched_ok (wake_process pid) sched_ok"
  unfolding wake_process_def
  by (intro moves_bind [OF moves_require] moves_bind [OF moves_table])
    (auto simp: keeps_enqueue_unchecked moves_return)

lemma keeps_remove: "moves sched_ok (on_scheduler (remove_queued pid)) sched_ok"
  by (rule moves_scheduler) (rule remove_queued_law(1))

lemma keeps_suspend: "moves sched_ok (suspend_process pid) sched_ok"
  unfolding suspend_process_def
  by (intro moves_bind [OF moves_require] moves_bind [OF moves_table] keeps_remove)

lemma keeps_hibernate: "moves sched_ok (hibernate_process pid) sched_ok"
  unfolding hibernate_process_def
  by (intro moves_bind [OF moves_require] moves_bind [OF moves_table] keeps_remove)

lemma keeps_resume: "moves sched_ok (resume_process pid) sched_ok"
  unfolding resume_process_def
  by (intro moves_bind [OF moves_require] moves_bind [OF moves_table])
    (auto simp: keeps_enqueue_unchecked moves_return)

lemma keeps_request_cancellation: "moves sched_ok (request_cancellation pid) sched_ok"
  unfolding request_cancellation_def
  by (intro moves_bind [OF moves_require] moves_bind [OF moves_table] moves_bind [OF keeps_charge_runtime] moves_return)

lemma keeps_record: "moves sched_ok (on_scheduler (record_run pid run enqueued_tick preempted)) sched_ok"
  by (rule moves_scheduler)
    (auto simp: record_run_def Let_def intro!: metrics_ok update_metrics_ok sched_ok_metrics)

lemma keeps_recorded: "moves sched_ok (bind_st (on_scheduler (record_run pid run enqueued_tick preempted))
    (\<lambda>_. return_st run)) sched_ok"
  by (rule moves_bind [OF keeps_record moves_return])

lemma forget_class_without: "without pid s \<Longrightarrow> sched_ok (forget_class pid s)"
  by (simp add: without_def forget_class_ok)

lemma keeps_forget_class: "moves (without pid) (on_scheduler (forget_class pid)) sched_ok"
  by (rule moves_scheduler) (rule forget_class_without)

lemma keeps_cancel: "moves (without pid) (cancel_process pid reductions) sched_ok"
  unfolding cancel_process_def
  by (rule moves_bind [OF moves_expect [OF moves_table]])
    (auto simp: moves_def Let_def forget_class_without without_ok)

lemma keeps_apply_decision: "moves (without pid) (apply_decision pid decision) sched_ok"
proof -
  have yield: "moves (without pid) (bind_st (if b then ignore_st (enqueue_unchecked pid)
      else on_scheduler (forget_class pid)) (\<lambda>_ (s, t). (Ok (slice_run pid s reductions Ran), (s, t)))) sched_ok"
    for b reductions
  proof (rule moves_bind [where M = sched_ok])
    show "moves (without pid) (if b then ignore_st (enqueue_unchecked pid)
        else on_scheduler (forget_class pid)) sched_ok"
      by (auto intro: moves_pre [OF moves_ignore [OF keeps_enqueue_unchecked]] without_ok keeps_forget_class)
  qed (auto simp: moves_def)
  show ?thesis
    unfolding moves_def
  proof (intro allI impI)
    fix s and t :: "'a VmProcessTable"
    assume ok: "without pid s"
    show "sched_ok (fst (snd (apply_decision pid decision (s, t))))"
    proof (cases decision)
      case (Yield reductions)
      then show ?thesis
        unfolding apply_decision_def by (simp only: prod.case VmSchedulerDecision.case) (rule moves_app [OF yield ok])
    next
      case (Block reductions)
      then show ?thesis using ok by (simp add: apply_decision_def without_def)
    next
      case (Exit reductions reason)
      then show ?thesis
        using forget_class_without [OF ok] ok
        by (auto simp: apply_decision_def without_def Let_def split: prod.splits outcome.splits)
    qed
  qed
qed

lemma keeps_finish_slice:
  "moves (without (slice_pid grant)) (finish_slice Q grant enqueued_tick token d) sched_ok"
proof (cases d)
  case (Pair decision cancel)
  let ?pid = "slice_pid grant"
  have wake: "moves sched_ok (bind_st (enqueue_unchecked ?pid) (\<lambda>_ (s, t).
      bind_st (on_scheduler (record_run ?pid (f s) enqueued_tick p)) (\<lambda>_. return_st (f s)) (s, t))) sched_ok"
    for f p
  proof (rule moves_bind [OF keeps_enqueue_unchecked])
    show "moves sched_ok (\<lambda>(s, t). bind_st (on_scheduler (record_run ?pid (f s) enqueued_tick p))
        (\<lambda>_. return_st (f s)) (s, t)) sched_ok"
      using moves_app [OF keeps_recorded] by (auto simp: moves_def)
  qed
  show ?thesis
    unfolding finish_slice_def Pair prod.case Let_def
    by (rule moves_bind [OF moves_table])
      (auto intro!: moves_bind [OF keeps_cancel] moves_bind [OF keeps_apply_decision] keeps_recorded
        moves_bind [OF moves_table] moves_pre [OF wake] simp: without_ok)
qed

lemma keeps_run_slice: "moves (without pid) (run_slice_of Q run_slice pid enqueued_tick) sched_ok"
  unfolding moves_def
proof (intro allI impI)
  fix s t
  assume ok: "without pid s"
  let ?s = "s\<lparr> sched_tick := saturating_add (sched_tick s) 1 \<rparr>"
  let ?grant = "\<lparr> slice_pid = pid, slice_tick = sched_tick ?s,
      slice_reduction_budget = config_reductions_per_slice (sched_config ?s) \<rparr>"
  have ok': "without pid ?s" using ok by (simp add: without_def tick_ok)
  have m: "moves (without pid) (bind_st (on_table (acquire_actor_mutator pid (sched_owner ?s))) (\<lambda>token.
        bind_st (on_table (integrate_actor_mailbox Q token)) (\<lambda>_.
        bind_st (on_table (with_actor_mutator token (slice_body run_slice ?grant)))
          (finish_slice Q ?grant enqueued_tick token)))) sched_ok"
    using keeps_finish_slice [of ?grant Q enqueued_tick]
    by (intro moves_bind [OF moves_table]) (auto simp: without_ok)
  show "sched_ok (fst (snd (run_slice_of Q run_slice pid enqueued_tick (s, t))))"
    unfolding run_slice_of_def Let_def prod.case by (rule moves_app [OF m ok'])
qed

lemma keeps_run_next_loop:
  "sched_ok s \<Longrightarrow> sched_ok (fst (snd (run_next_loop polls Q run_slice (s, t))))"
proof (induction polls arbitrary: s)
  case (Suc polls)
  obtain r s1 where d: "dequeue s = (r, s1)" by (cases "dequeue s")
  note law = dequeue_law [OF Suc.prems d]
  show ?case
  proof (cases r)
    case None
    then show ?thesis using d law(1) by simp
  next
    case (Some p)
    obtain pid tick where p: "p = (pid, tick)" by (cases p)
    have out: "without pid s1" using law(1,4) Some p by (auto simp: without_def)
    have cancel: "moves (without pid) (bind_st (cancel_process pid 0) (\<lambda>run.
        bind_st (on_scheduler (record_run pid run tick False)) (\<lambda>_. return_st run))) sched_ok"
      by (rule moves_bind [OF keeps_cancel keeps_recorded])
    have ticked: "without pid (s1\<lparr> sched_tick := n \<rparr>)" for n
      using out by (simp add: without_def tick_ok)
    have unfold: "run_next_loop (Suc polls) Q run_slice (s, t) = (case pt_get t pid of
        None \<Rightarrow> (Err (Msg ''scheduled process {} is missing'' [ANum pid]), (s1, t))
      | Some process \<Rightarrow>
          if is_exited (proc_state process) then run_next_loop polls Q run_slice (forget_class pid s1, t)
          else if proc_state process \<noteq> Runnable then run_next_loop polls Q run_slice (s1, t)
          else if proc_cancellation_requested process then
            bind_st (cancel_process pid 0) (\<lambda>run.
              bind_st (on_scheduler (record_run pid run tick False)) (\<lambda>_. return_st run))
              (s1\<lparr> sched_tick := saturating_add (sched_tick s1) 1 \<rparr>, t)
          else run_slice_of Q run_slice pid tick (s1, t))"
      using d Some p by simp
    show ?thesis
    proof (cases "pt_get t pid")
      case (Some process)
      then show ?thesis
        unfolding unfold
        using Suc.IH [OF forget_class_without [OF out]] Suc.IH [OF law(1)]
          moves_app [OF cancel ticked] moves_app [OF keeps_run_slice out]
        by (simp only: option.case split: if_split) blast
    qed (simp only: unfold option.case, simp add: law(1))
  qed
qed simp

lemma keeps_run_next: "moves sched_ok (run_next Q run_slice) sched_ok"
  by (simp add: moves_def run_next_def keeps_run_next_loop)

lemma keeps_import: "moves sched_ok (import_process_placement transfer) sched_ok"
  unfolding moves_def
proof (intro allI impI)
  fix s and t :: "'a VmProcessTable"
  assume ok: "sched_ok s"
  let ?pid = "placement_process transfer"
  show "sched_ok (fst (snd (import_process_placement transfer (s, t))))"
  proof (cases "validate_process_placement_import s t transfer")
    case (Ok u)
    then have "?pid \<notin> set (sched_queued s)"
      by (auto simp: validate_process_placement_import_def Let_def bind_out_eq_Ok bs_contains_def split: if_splits)
    then have "sched_ok (s\<lparr> sched_classes := bt_insert ?pid (placement_class transfer) (sched_classes s) \<rparr>)"
      by (intro class_insert_ok [OF ok]) simp
    then have ok': "sched_ok (case placement_metrics transfer of
        None \<Rightarrow> s\<lparr> sched_classes := bt_insert ?pid (placement_class transfer) (sched_classes s) \<rparr>
      | Some metrics \<Rightarrow> (s\<lparr> sched_classes := bt_insert ?pid (placement_class transfer) (sched_classes s) \<rparr>)
          \<lparr> sched_metrics := (sched_metrics s)\<lparr> m_processes := bt_insert ?pid metrics (m_processes (sched_metrics s)) \<rparr> \<rparr>)"
      using sched_ok_metrics [OF ok] by (auto split: option.split intro!: metrics_ok)
    show ?thesis
      using Ok ok' by (cases "placement_metrics transfer")
        (auto simp: import_process_placement_def Let_def intro: moves_app [OF moves_expect [OF keeps_enqueue_unchecked]])
  qed (use ok in \<open>simp_all add: import_process_placement_def\<close>)
qed

lemma placement_detach_law:
  assumes ok: "sched_ok s" and d: "detach_process_placement pid s = (transfer, s')"
  shows "sched_ok s'" "transfer = \<lparr> placement_process = pid, placement_class = class_or_normal s pid,
      placement_queued = (pid \<in> set (sched_queued s)),
      placement_metrics = bt_get (m_processes (sched_metrics s)) pid \<rparr>"
    "pid \<notin> set (sched_queued s')" "bt_get (sched_classes s') pid = None"
    "bt_get (m_processes (sched_metrics s')) pid = None"
    "\<And>q. q \<noteq> pid \<Longrightarrow> (q \<in> set (sched_queued s') \<longleftrightarrow> q \<in> set (sched_queued s))
       \<and> bt_get (sched_classes s') q = bt_get (sched_classes s) q
       \<and> bt_get (m_processes (sched_metrics s')) q = bt_get (m_processes (sched_metrics s)) q"
proof -
  note r = remove_queued_law [OF ok, of pid]
  have s': "transfer = \<lparr> placement_process = pid, placement_class = class_or_normal s pid,
      placement_queued = (pid \<in> set (sched_queued s)),
      placement_metrics = bt_get (m_processes (sched_metrics s)) pid \<rparr>"
    "s' = (forget_class pid (remove_queued pid s))\<lparr> sched_metrics := (sched_metrics s)\<lparr> m_processes :=
             bt_remove pid (m_processes (sched_metrics s)) \<rparr> \<rparr>"
    using d by (auto simp: detach_process_placement_def Let_def forget_class_def r(6) bs_contains_def)
  show "transfer = \<lparr> placement_process = pid, placement_class = class_or_normal s pid,
      placement_queued = (pid \<in> set (sched_queued s)),
      placement_metrics = bt_get (m_processes (sched_metrics s)) pid \<rparr>" by (rule s'(1))
  have "sched_ok (forget_class pid (remove_queued pid s))"
    by (rule forget_class_ok [OF r(1)]) (simp add: r(2))
  then show "sched_ok s'"
    unfolding s'(2) using sched_ok_metrics [OF ok] by (intro metrics_ok) simp_all
  show "pid \<notin> set (sched_queued s')" "bt_get (sched_classes s') pid = None"
    "bt_get (m_processes (sched_metrics s')) pid = None"
    "\<And>q. q \<noteq> pid \<Longrightarrow> (q \<in> set (sched_queued s') \<longleftrightarrow> q \<in> set (sched_queued s))
       \<and> bt_get (sched_classes s') q = bt_get (sched_classes s) q
       \<and> bt_get (m_processes (sched_metrics s')) q = bt_get (m_processes (sched_metrics s)) q"
    by (simp_all add: s'(2) forget_class_def r(2,4))
qed

end
