(* ===== verification/Scheduler_Properties.thy ===== *)
theory Scheduler_Properties
  imports Scheduler_Moves
begin

text \<open>
  The properties of the scheduler: the run queues stay consistent under every operation
  and every answer of the process table, waiting is bounded, a slice is accounted exactly
  once, a placement moves between schedulers unchanged, and waking makes a process run.
\<close>

section \<open>The reachable schedulers\<close>

text \<open>Every operation of the scheduler, over any table; \<open>register_fixed_owner\<close> is called
  for a process that is not queued.\<close>

inductive sched_reachable :: "'q queue_of \<Rightarrow> slice_runner \<Rightarrow> 'q itself \<Rightarrow> VmScheduler \<Rightarrow> bool"
  for Q run_slice ty where
  created: "sched_reachable Q run_slice ty (scheduler_with_owner config owner)"
| registered: "sched_reachable Q run_slice ty s \<Longrightarrow> pid \<notin> set (sched_queued s)
    \<Longrightarrow> sched_reachable Q run_slice ty (fst (snd (register_fixed_owner pid (s, t :: 'q VmProcessTable))))"
| enqueued: "sched_reachable Q run_slice ty s
    \<Longrightarrow> sched_reachable Q run_slice ty (fst (snd (enqueue_runnable_with_class pid class (s, t :: 'q VmProcessTable))))"
| enqueued_same: "sched_reachable Q run_slice ty s
    \<Longrightarrow> sched_reachable Q run_slice ty (fst (snd (enqueue_runnable pid (s, t :: 'q VmProcessTable))))"
| reclassified: "sched_reachable Q run_slice ty s
    \<Longrightarrow> sched_reachable Q run_slice ty (fst (snd (set_process_class pid class (s, t :: 'q VmProcessTable))))"
| woken: "sched_reachable Q run_slice ty s
    \<Longrightarrow> sched_reachable Q run_slice ty (fst (snd (wake_process pid (s, t :: 'q VmProcessTable))))"
| suspended: "sched_reachable Q run_slice ty s
    \<Longrightarrow> sched_reachable Q run_slice ty (fst (snd (suspend_process pid (s, t :: 'q VmProcessTable))))"
| hibernated: "sched_reachable Q run_slice ty s
    \<Longrightarrow> sched_reachable Q run_slice ty (fst (snd (hibernate_process pid (s, t :: 'q VmProcessTable))))"
| resumed: "sched_reachable Q run_slice ty s
    \<Longrightarrow> sched_reachable Q run_slice ty (fst (snd (resume_process pid (s, t :: 'q VmProcessTable))))"
| cancelled: "sched_reachable Q run_slice ty s
    \<Longrightarrow> sched_reachable Q run_slice ty (fst (snd (request_cancellation pid (s, t :: 'q VmProcessTable))))"
| charged: "sched_reachable Q run_slice ty s
    \<Longrightarrow> sched_reachable Q run_slice ty (fst (snd (charge_runtime_reductions pid n (s, t :: 'q VmProcessTable))))"
| charged_terminal: "sched_reachable Q run_slice ty s
    \<Longrightarrow> sched_reachable Q run_slice ty (fst (snd (charge_terminal_reductions pid n (s, t :: 'q VmProcessTable))))"
| charged_memory: "sched_reachable Q run_slice ty s
    \<Longrightarrow> sched_reachable Q run_slice ty (fst (snd (charge_memory_reductions pid bytes (s, t :: 'q VmProcessTable))))"
| ran: "sched_reachable Q run_slice ty s
    \<Longrightarrow> sched_reachable Q run_slice ty (fst (snd (run_next Q run_slice (s, t :: 'q VmProcessTable))))"
| forgotten: "sched_reachable Q run_slice ty s \<Longrightarrow> sched_reachable Q run_slice ty (forget_process pid s)"
| reaped: "sched_reachable Q run_slice ty s \<Longrightarrow> sched_reachable Q run_slice ty (reap_process_diagnostics pid s)"
| detached: "sched_reachable Q run_slice ty s
    \<Longrightarrow> sched_reachable Q run_slice ty (snd (detach_process_placement pid s))"
| imported: "sched_reachable Q run_slice ty s
    \<Longrightarrow> sched_reachable Q run_slice ty (fst (snd (import_process_placement transfer (s, t :: 'q VmProcessTable))))"

text \<open>C2: however its operations follow each other and whatever the table answers, the three
  run queues of a scheduler hold every queued process exactly once, in the queue of its
  class, and nothing else.\<close>

theorem queues_stay_consistent:
  assumes "sched_reachable Q run_slice ty s"
  shows "sched_ok s \<and> distinct (diagnostic_queued_processes s)
    \<and> (\<forall>class pid. pid \<in> set (class_queue s class)
         \<longleftrightarrow> pid \<in> set (sched_queued s) \<and> bt_get (sched_classes s) pid = Some class)"
proof -
  from assms have "sched_ok s"
  proof induction
    case (reaped s pid)
    have "bt_ok (m_processes (sched_metrics (forget_process pid s)))"
      using forget_process_law(1) [OF reaped.IH] by (rule sched_ok_metrics)
    then show ?case
      using forget_process_law(1) [OF reaped.IH, of pid]
      by (auto simp: reap_process_diagnostics_def Let_def intro!: metrics_ok)
  next
    case (detached s pid)
    show ?case
      using placement_detach_law(1) [OF detached.IH, of pid] by (cases "detach_process_placement pid s") auto
  qed (auto simp: without_def intro: scheduler_with_owner_ok forget_process_law(1)
      moves_app [OF keeps_register_fixed_owner] moves_app [OF keeps_enqueue_runnable_with_class]
      moves_app [OF keeps_enqueue_runnable] moves_app [OF keeps_set_process_class]
      moves_app [OF keeps_wake] moves_app [OF keeps_suspend] moves_app [OF keeps_hibernate]
      moves_app [OF keeps_resume] moves_app [OF keeps_request_cancellation]
      moves_app [OF keeps_charge_runtime] moves_app [OF keeps_charge_terminal]
      moves_app [OF keeps_charge_memory] moves_app [OF keeps_run_next] moves_app [OF keeps_import])
  then show ?thesis by (simp add: sched_ok_iff queues_ok_def, simp add: sched_ok_def)
qed

section \<open>Bounded waiting\<close>

text \<open>C6: a process that waits behind n others of its class is dispatched within 6 (n + 1)
  dequeues, whatever is enqueued, reclassified or removed in between, as long as the
  process itself is not removed.\<close>

theorem bounded_wait:
  assumes "sched_ok s" "class_queue s class = before @ pid # after"
    "Forgotten pid \<notin> set es" "Removed pid \<notin> set es"
    "6 * (length before + 1) \<le> count_list es Dequeued"
  shows "pid \<in> set (fst (queue_run es s))"
proof -
  have "slots_until class (sched_class_cycle_cursor s) < 6"
    using assms(1) by (intro slots_until_less) (simp add: sched_ok_def)
  with assms(5) have "wait_bound s class (length before) < count_list es Dequeued"
    by (simp add: wait_bound_def)
  with assms(1-4) show ?thesis by (rule served_in_time)
qed

section \<open>Accounting of the slices\<close>

text \<open>The rule for the results: when the operation succeeds from a scheduler in \<open>P\<close>, its
  value and the scheduler it leaves are in \<open>R\<close>.\<close>

definition returns :: "(VmScheduler \<Rightarrow> bool) \<Rightarrow> ('q scheduled, 'e, 'a) stateful
    \<Rightarrow> ('a \<Rightarrow> VmScheduler \<Rightarrow> bool) \<Rightarrow> bool" where
  "returns P m R \<longleftrightarrow> (\<forall>s t a s' t'. P s \<longrightarrow> m (s, t) = (Ok a, (s', t')) \<longrightarrow> R a s')"

lemma returns_bind:
  assumes "returns P m M" "\<And>a. returns (M a) (f a) R"
  shows "returns P (bind_st m f) R"
  unfolding returns_def
proof (intro allI impI)
  fix s t b s' t'
  assume s: "P s" and r: "bind_st m f (s, t) = (Ok b, (s', t'))"
  then obtain a s1 t1 where "m (s, t) = (Ok a, (s1, t1))" "f a (s1, t1) = (Ok b, (s', t'))"
    by (auto simp: bind_st_eq_Ok)
  with s assms show "R b s'" unfolding returns_def by blast
qed

lemma returns_moves: "moves P m R \<Longrightarrow> returns P m (\<lambda>_. R)"
  unfolding moves_def returns_def by (metis fst_conv snd_conv)

lemma returns_value: "(\<And>s. P s \<Longrightarrow> R (f s) s) \<Longrightarrow> returns P (\<lambda>(s, t). (Ok (f s), (s, t))) R"
  by (simp add: returns_def)

lemma returns_return: "(\<And>s. P s \<Longrightarrow> R x s) \<Longrightarrow> returns P (return_st x) R"
  by (simp add: returns_def return_st_def)

lemma returns_post: "returns P m R \<Longrightarrow> (\<And>a s. R a s \<Longrightarrow> R' a s) \<Longrightarrow> returns P m R'"
  by (simp add: returns_def)

text \<open>What the accounts of a scheduler hold.\<close>

definition account :: "VmScheduler \<Rightarrow> u64 \<times> u64 \<times> u64 \<times> (u64, VmSchedulerProcessMetrics) btree" where
  "account s = (sched_tick s, m_total_slices (sched_metrics s), m_total_reductions (sched_metrics s),
     m_processes (sched_metrics s))"

lemma account_kept [simp]:
  "account (enqueue_unchecked_raw pid s) = account s" "account (forget_class pid s) = account s"
  by (simp_all add: account_def enqueue_unchecked_raw_def forget_class_def Let_def)

lemma forget_class_tick [simp]: "sched_tick (forget_class pid s) = sched_tick s"
  by (simp add: forget_class_def)

lemma dequeue_loop_account: "dequeue_loop n s = (r, s') \<Longrightarrow> account s' = account s"
  by (induction n arbitrary: s) (auto simp: Let_def account_def update_queue_def split: list.splits)

lemma account_enqueue: "moves (\<lambda>s. account s = a) (enqueue_unchecked pid) (\<lambda>s. account s = a)"
  unfolding enqueue_unchecked_def by (rule moves_bind [OF moves_table moves_scheduler]) simp_all

lemma account_forget: "moves (\<lambda>s. account s = a) (on_scheduler (forget_class pid)) (\<lambda>s. account s = a)"
  by (rule moves_scheduler) simp

text \<open>A run that charges \<open>n\<close> reductions to \<open>pid\<close>, before and after it is recorded.\<close>

definition ran_slice :: "u64 \<times> u64 \<times> u64 \<times> (u64, VmSchedulerProcessMetrics) btree
    \<Rightarrow> VmProcessId \<Rightarrow> VmSchedulerRun \<Rightarrow> VmScheduler \<Rightarrow> bool" where
  "ran_slice a pid run s \<longleftrightarrow> account s = a \<and> run_pid run = Some pid \<and> run_tick run = sched_tick s"

definition recorded_slice :: "u64 \<times> u64 \<times> u64 \<times> (u64, VmSchedulerProcessMetrics) btree
    \<Rightarrow> VmProcessId \<Rightarrow> VmSchedulerRun \<Rightarrow> VmScheduler \<Rightarrow> bool" where
  "recorded_slice a pid run s \<longleftrightarrow> (case a of (tick, slices, reductions, processes) \<Rightarrow>
     run_pid run = Some pid \<and> run_tick run = tick \<and> sched_tick s = tick
   \<and> m_total_slices (sched_metrics s) = saturating_add slices 1
   \<and> m_total_reductions (sched_metrics s) = saturating_add reductions (run_reductions_charged run)
   \<and> (let pm = (case bt_get processes pid of Some pm \<Rightarrow> pm | None \<Rightarrow> process_metrics_default)
      in \<exists>pm'. bt_get (m_processes (sched_metrics s)) pid = Some pm'
          \<and> pm_slices pm' = saturating_add (pm_slices pm) 1
          \<and> pm_reductions pm' = saturating_add (pm_reductions pm) (run_reductions_charged run)
          \<and> pm_last_run_tick pm' = Some tick)
   \<and> (\<forall>q. q \<noteq> pid \<longrightarrow> bt_get (m_processes (sched_metrics s)) q = bt_get processes q))"

lemma returns_recorded:
  "returns (ran_slice a pid run) (bind_st (on_scheduler (record_run pid run enqueued_tick p))
     (\<lambda>_. return_st run)) (recorded_slice a pid)"
  by (auto simp: returns_def bind_st_eq_Ok on_scheduler_def return_st_def ran_slice_def recorded_slice_def
      record_run_def update_metrics_def account_def Let_def split: option.splits)

lemma returns_cancel:
  "returns (\<lambda>s. account s = a) (cancel_process pid n) (ran_slice a pid)"
  unfolding cancel_process_def
  by (rule returns_bind [OF returns_moves [OF moves_expect [OF moves_table]]])
    (auto simp: returns_def ran_slice_def slice_run_def Let_def)

lemma returns_apply_decision:
  "returns (\<lambda>s. account s = a) (apply_decision pid decision) (ran_slice a pid)"
proof -
  have yield: "returns (\<lambda>s. account s = a) (bind_st (if b then ignore_st (enqueue_unchecked pid)
      else on_scheduler (forget_class pid)) (\<lambda>_ (s, t). (Ok (slice_run pid s n Ran), (s, t)))) (ran_slice a pid)"
    for b n
  proof (rule returns_bind [where M = "\<lambda>_ s. account s = a"])
    show "returns (\<lambda>s. account s = a) (if b then ignore_st (enqueue_unchecked pid)
        else on_scheduler (forget_class pid)) (\<lambda>_ s. account s = a)"
      by (auto intro: returns_moves moves_ignore account_enqueue account_forget)
  qed (auto simp: returns_def ran_slice_def slice_run_def)
  show ?thesis
    unfolding returns_def
  proof (intro allI impI)
    fix s and t :: "'a VmProcessTable" and run s' t'
    assume a: "account s = a" and r: "apply_decision pid decision (s, t) = (Ok run, (s', t'))"
    show "ran_slice a pid run s'"
    proof (cases decision)
      case (Yield n)
      then show ?thesis
        using yield a r unfolding returns_def apply_decision_def
        by (simp only: prod.case VmSchedulerDecision.case) blast
    qed (use a r in \<open>auto simp: apply_decision_def ran_slice_def slice_run_def Let_def
        split: prod.splits outcome.splits\<close>)
  qed
qed

lemma returns_finish_slice:
  "returns (\<lambda>s. account s = a) (finish_slice Q grant enqueued_tick token d) (recorded_slice a (slice_pid grant))"
proof (cases d)
  case (Pair decision cancel)
  let ?pid = "slice_pid grant"
  have wake: "returns (\<lambda>s. account s = a) (bind_st (enqueue_unchecked ?pid) (\<lambda>_ (s, t).
      bind_st (on_scheduler (record_run ?pid (slice_run ?pid s n Ran) enqueued_tick p))
        (\<lambda>_. return_st (slice_run ?pid s n Ran)) (s, t))) (recorded_slice a ?pid)" for n p
  proof (rule returns_bind [OF returns_moves [OF account_enqueue]])
    show "returns (\<lambda>s. account s = a) (\<lambda>(s, t). bind_st (on_scheduler (record_run ?pid
        (slice_run ?pid s n Ran) enqueued_tick p)) (\<lambda>_. return_st (slice_run ?pid s n Ran)) (s, t))
        (recorded_slice a ?pid)"
      using returns_recorded [of a ?pid "slice_run ?pid s n Ran" enqueued_tick p for s]
      unfolding returns_def by (fastforce simp: ran_slice_def slice_run_def)
  qed
  show ?thesis
    unfolding finish_slice_def Pair prod.case Let_def
    by (rule returns_bind [OF returns_moves [OF moves_table]])
      (auto intro!: returns_bind [OF returns_cancel] returns_bind [OF returns_apply_decision]
        returns_recorded returns_bind [OF returns_moves [OF moves_table]] wake)
qed

lemma returns_run_slice:
  assumes "run_slice_of Q run_slice pid enqueued_tick (s, t) = (Ok run, (s', t'))"
  shows "recorded_slice (account (s\<lparr> sched_tick := saturating_add (sched_tick s) 1 \<rparr>)) pid run s'"
proof -
  let ?s = "s\<lparr> sched_tick := saturating_add (sched_tick s) 1 \<rparr>"
  let ?grant = "\<lparr> slice_pid = pid, slice_tick = sched_tick ?s,
      slice_reduction_budget = config_reductions_per_slice (sched_config ?s) \<rparr>"
  have "returns (\<lambda>s. account s = a) (bind_st (on_table (acquire_actor_mutator pid (sched_owner ?s))) (\<lambda>token.
        bind_st (on_table (integrate_actor_mailbox Q token)) (\<lambda>_.
        bind_st (on_table (with_actor_mutator token (slice_body run_slice ?grant)))
          (finish_slice Q ?grant enqueued_tick token)))) (recorded_slice a pid)" for a
    using returns_finish_slice [of a Q ?grant enqueued_tick]
    by (intro returns_bind [OF returns_moves [OF moves_table]]) simp
  then show ?thesis
    using assms unfolding returns_def run_slice_of_def Let_def prod.case by blast
qed

lemma account_advance: "account s1 = account s \<Longrightarrow>
    account (s1\<lparr> sched_tick := n \<rparr>) = (n, snd (account s))"
  by (auto simp: account_def)

lemma run_next_loop_accounts:
  assumes "run_next_loop polls Q run_slice (s, t) = (Ok run, (s', t'))"
  shows "case run_pid run of
      None \<Rightarrow> run = idle_run s \<and> account s' = account s
    | Some pid \<Rightarrow> recorded_slice (saturating_add (sched_tick s) 1, snd (account s)) pid run s'"
  using assms
proof (induction polls arbitrary: s)
  case 0
  then show ?case by (auto simp: idle_run_def)
next
  case (Suc polls)
  obtain r s1 where d: "dequeue s = (r, s1)" by (cases "dequeue s")
  then have a: "account s1 = account s" by (auto simp: dequeue_def dest: dequeue_loop_account)
  then have tick: "sched_tick s1 = sched_tick s" by (simp add: account_def)
  have idle: "idle_run s1 = idle_run s" "idle_run (forget_class pid s1) = idle_run s" for pid
    using tick by (simp_all add: idle_run_def)
  show ?case
  proof (cases r)
    case None
    then show ?thesis using Suc.prems d a idle by (auto simp: idle_run_def)
  next
    case (Some p)
    obtain pid tick' where p: "r = Some (pid, tick')" using Some by (cases p) auto
    from Suc.prems obtain process where q: "pt_get t pid = Some process"
      using d p by (auto split: option.splits)
    let ?s = "s1\<lparr> sched_tick := saturating_add (sched_tick s) 1 \<rparr>"
    have acc: "account ?s = (saturating_add (sched_tick s) 1, snd (account s))"
      by (rule account_advance [OF a])
    have rec: "recorded_slice (account ?s) pid run s' \<Longrightarrow> ?thesis"
      by (auto simp: acc recorded_slice_def split: prod.splits)
    consider "is_exited (proc_state process)"
      | "\<not> is_exited (proc_state process)" "proc_state process \<noteq> Runnable"
      | "proc_state process = Runnable" "proc_cancellation_requested process"
      | "proc_state process = Runnable" "\<not> proc_cancellation_requested process"
      by blast
    then show ?thesis
    proof cases
      case 1
      then have "run_next_loop polls Q run_slice (forget_class pid s1, t) = (Ok run, (s', t'))"
        using Suc.prems d p q by simp
      from Suc.IH [OF this] show ?thesis using a tick idle by (simp split: option.splits)
    next
      case 2
      then have "run_next_loop polls Q run_slice (s1, t) = (Ok run, (s', t'))"
        using Suc.prems d p q by simp
      from Suc.IH [OF this] show ?thesis using a tick idle by (simp split: option.splits)
    next
      case 3
      then have run: "bind_st (cancel_process pid 0) (\<lambda>run. bind_st (on_scheduler
          (record_run pid run tick' False)) (\<lambda>_. return_st run)) (?s, t) = (Ok run, (s', t'))"
        using Suc.prems d p q tick by simp
      have "returns (\<lambda>s. account s = account ?s) (bind_st (cancel_process pid 0) (\<lambda>run. bind_st (on_scheduler
          (record_run pid run tick' False)) (\<lambda>_. return_st run))) (recorded_slice (account ?s) pid)"
        by (rule returns_bind [OF returns_cancel returns_recorded])
      then show ?thesis using rec run unfolding returns_def by blast
    next
      case 4
      then have "run_slice_of Q run_slice pid tick' (s1, t) = (Ok run, (s', t'))"
        using Suc.prems d p q by simp
      from returns_run_slice [OF this] show ?thesis using rec tick by simp
    qed
  qed
qed

text \<open>one successful run_next either finds nothing to run and touches no account, or runs
  exactly one process: the tick advances by one, one slice and the reductions it reports are
  added to the totals and to that process, and no other process is charged.\<close>

theorem run_next_accounts:
  assumes "run_next Q run_slice (s, t) = (Ok run, (s', t'))"
  shows "case run_pid run of
      None \<Rightarrow> run = idle_run s \<and> account s' = account s
    | Some pid \<Rightarrow> recorded_slice (saturating_add (sched_tick s) 1, snd (account s)) pid run s'"
  using assms run_next_loop_accounts unfolding run_next_def by fastforce

section \<open>Waking\<close>

lemma require_live: "pt_get t pid = Some p \<Longrightarrow> require_process action pid (s, t) = (Ok (), (s, t))"
  by (simp add: require_process_def)

text \<open>What waking does to the table, by the state of the process.\<close>

lemma wake_exited:
  assumes ok: "pt_ok Q contents capacity t" and get: "pt_get t pid = Some p" and dead: "is_exited (proc_state p)"
  obtains e t' where "wake_process pid (s, t) = (Err e, (s, t'))" "pt_ok Q contents capacity t'"
    "pt_get t' = pt_get t"
proof -
  let ?f = "\<lambda>process. case proc_state process of
         Exited _ \<Rightarrow> (Err (Msg ''cannot wake exited process {}'' [ANum pid]), process)
       | Suspended _ \<Rightarrow> (Ok True, proc_wake process)
       | _ \<Rightarrow> (Ok False, proc_wake process)"
  have f: "?f p = (Err (Msg ''cannot wake exited process {}'' [ANum pid]), p)"
    using dead by (cases "proc_state p") simp_all
  obtain t' where t': "with_process_control_mutator pid ?f t
      = (Err (Msg ''cannot wake exited process {}'' [ANum pid]), t')"
      "pt_ok Q contents capacity t'" "pt_get t' = (pt_get t)(pid \<mapsto> p)"
    using with_control_law [where mutate = ?f, OF ok get f] pt_get_facts [OF ok get] by auto
  have "(pt_get t)(pid \<mapsto> p) = pt_get t" using get by auto
  with t' get that show ?thesis
    by (simp add: wake_process_def require_process_def bind_st_def on_table_def)
qed

lemma wake_live:
  assumes ok: "pt_ok Q contents capacity t" and get: "pt_get t pid = Some p"
    and live: "\<not> is_exited (proc_state p)"
  obtains t' where "pt_ok Q contents capacity t'" "pt_get t' = (pt_get t)(pid \<mapsto> proc_wake p)"
    "wake_process pid (s, t) = (Ok (), (if \<exists>resume. proc_state p = Suspended resume then s
       else enqueue_unchecked_raw pid s, t'))"
proof -
  let ?f = "\<lambda>process. case proc_state process of
         Exited _ \<Rightarrow> (Err (Msg ''cannot wake exited process {}'' [ANum pid]), process)
       | Suspended _ \<Rightarrow> (Ok True, proc_wake process)
       | _ \<Rightarrow> (Ok False, proc_wake process)"
  let ?susp = "\<exists>resume. proc_state p = Suspended resume"
  have f: "?f p = (Ok ?susp, proc_wake p)"
    using live by (cases "proc_state p") simp_all
  obtain t1 where t1: "with_process_control_mutator pid ?f t = (Ok ?susp, t1)"
      "pt_ok Q contents capacity t1" "pt_get t1 = (pt_get t)(pid \<mapsto> proc_wake p)"
    using with_control_law [where mutate = ?f, OF ok get f] pt_get_facts [OF ok get]
    by (auto simp: proc_ok_def)
  have wake: "wake_process pid (s, t) = (if ?susp then return_st () else enqueue_unchecked pid) (s, t1)"
    using t1(1) get by (simp add: wake_process_def require_process_def on_table_def bind_st_def)
  show ?thesis
  proof (cases ?susp)
    case True
    then show ?thesis using that [OF t1(2,3)] wake by (simp add: return_st_def)
  next
    case False
    obtain t2 where t2: "mark_actor_queued pid t1 = (Ok (), t2)" "pt_ok Q contents capacity t2"
        "pt_get t2 = pt_get t1"
      by (rule mark_queued_law [OF t1(2), of pid "proc_wake p"]) (use t1(3) live in simp_all)
    with False wake that [OF t2(2)] t1(3) show ?thesis
      by (simp add: enqueue_unchecked_def on_table_def on_scheduler_def bind_st_def)
  qed
qed

lemma woken_state:
  assumes "\<not> is_exited (proc_state p)"
  shows "if \<exists>resume. proc_state p = Suspended resume
    then \<exists>resume. proc_state (proc_wake p) = Suspended resume else proc_state (proc_wake p) = Runnable"
  using assms by (cases "proc_state p")
    (auto simp: proc_wake_def split: VmProcessResumeState.splits)

lemma enqueued_in_class: "sched_ok s \<Longrightarrow>
    pid \<in> set (class_queue (enqueue_unchecked_raw pid s) (class_or_normal s pid))"
  using enqueue_raw_law(3) [of s pid "class_or_normal s pid"]
  by (auto simp: sched_ok_iff queues_ok_def class_or_normal_def split: option.splits)

text \<open>waking a live process makes it runnable and queues it in the queue of its class,
  unless it is suspended, which it stays; no other process changes. Waking an exited or
  missing process is an error without effect on the scheduler or on the processes.\<close>

theorem wake_runs_or_refuses:
  assumes ok: "pt_ok Q contents capacity t" and sok: "sched_ok s"
  shows "\<exists>r s' t'. wake_process pid (s, t) = (r, (s', t')) \<and> pt_ok Q contents capacity t'
    \<and> (case pt_get t pid of
         None \<Rightarrow> (\<exists>e. r = Err e) \<and> s' = s \<and> t' = t
       | Some p \<Rightarrow>
           if is_exited (proc_state p) then (\<exists>e. r = Err e) \<and> s' = s \<and> pt_get t' = pt_get t
           else r = Ok () \<and> pt_get t' = (pt_get t)(pid \<mapsto> proc_wake p)
             \<and> (if \<exists>resume. proc_state p = Suspended resume
                 then s' = s \<and> (\<exists>resume. proc_state (proc_wake p) = Suspended resume)
                 else proc_state (proc_wake p) = Runnable
                   \<and> pid \<in> set (class_queue s' (class_or_normal s pid))))"
proof (cases "pt_get t pid")
  case None
  then show ?thesis using ok by (simp add: wake_process_def require_process_def bind_st_def)
next
  case (Some p)
  show ?thesis
  proof (cases "is_exited (proc_state p)")
    case True
    from wake_exited [OF ok Some this, of s] True Some show ?thesis by fastforce
  next
    case False
    obtain t' where "pt_ok Q contents capacity t'" "pt_get t' = (pt_get t)(pid \<mapsto> proc_wake p)"
      "wake_process pid (s, t) = (Ok (), (if \<exists>resume. proc_state p = Suspended resume then s
         else enqueue_unchecked_raw pid s, t'))"
      using wake_live [OF ok Some False] by metis
    with False Some woken_state [OF False] enqueued_in_class [OF sok, of pid] show ?thesis
      by (auto split: if_splits)
  qed
qed

section \<open>Moving a placement\<close>

lemma import_law:
  assumes ok: "sched_ok s" "pt_ok Q contents capacity t" and p: "pt_get t (placement_process transfer) = Some p"
    and free: "bt_get (sched_classes s) (placement_process transfer) = None"
      "bt_get (m_processes (sched_metrics s)) (placement_process transfer) = None"
    and run: "placement_queued transfer \<Longrightarrow> proc_state p = Runnable"
  obtains s' t' where "import_process_placement transfer (s, t) = (Ok (), (s', t'))"
    "sched_ok s'" "pt_ok Q contents capacity t'" "pt_get t' = pt_get t"
    "set (sched_queued s') = (if placement_queued transfer then insert (placement_process transfer) else id)
       (set (sched_queued s))"
    "bt_get (sched_classes s') = (bt_get (sched_classes s))(placement_process transfer \<mapsto> placement_class transfer)"
    "bt_get (m_processes (sched_metrics s'))
       = (bt_get (m_processes (sched_metrics s)))(placement_process transfer := placement_metrics transfer)"
proof -
  let ?pid = "placement_process transfer"
  define s1 where "s1 = s\<lparr> sched_classes := bt_insert ?pid (placement_class transfer) (sched_classes s) \<rparr>"
  define s2 where "s2 = (case placement_metrics transfer of None \<Rightarrow> s1
      | Some metrics \<Rightarrow> s1\<lparr> sched_metrics := (sched_metrics s1)\<lparr> m_processes :=
          bt_insert ?pid metrics (m_processes (sched_metrics s1)) \<rparr> \<rparr>)"
  have out: "?pid \<notin> set (sched_queued s)" using ok(1) free(1) by (auto simp: sched_ok_def)
  then have valid: "validate_process_placement_import s t transfer = Ok ()"
    using p free run by (simp add: validate_process_placement_import_def Let_def bs_contains_def
        bt_contains_def ok_or_def)
  have ok2: "sched_ok s2"
    unfolding s2_def s1_def using sched_ok_metrics [OF ok(1)] class_insert_ok [OF ok(1)] out
    by (auto split: option.split intro!: metrics_ok)
  have view: "sched_queued s2 = sched_queued s" "sched_classes s2 = sched_classes s1"
      "class_or_normal s2 ?pid = placement_class transfer"
      "bt_get (m_processes (sched_metrics s2)) = (bt_get (m_processes (sched_metrics s)))(?pid := placement_metrics transfer)"
      "bt_get (sched_classes s1) = (bt_get (sched_classes s))(?pid \<mapsto> placement_class transfer)"
    using free by (auto simp: s2_def s1_def class_or_normal_def fun_eq_iff split: option.split)
  have imp: "import_process_placement transfer (s, t) = (if placement_queued transfer
      then expect_st ''validated runnable process can be queued'' (enqueue_unchecked ?pid) (s2, t)
      else (Ok (), (s2, t)))"
    using valid by (simp add: import_process_placement_def Let_def s2_def s1_def split: option.split)
  show ?thesis
  proof (cases "placement_queued transfer")
    case False
    then show ?thesis using that [of s2 t] imp ok2 ok(2) view by simp
  next
    case True
    obtain t' where t': "mark_actor_queued ?pid t = (Ok (), t')" "pt_ok Q contents capacity t'"
        "pt_get t' = pt_get t"
      by (rule mark_queued_law [OF ok(2) p]) (simp_all add: run [OF True])
    note law = enqueue_raw_law [OF ok2, of ?pid]
    show ?thesis
      by (rule that [of "enqueue_unchecked_raw ?pid s2" t'])
        (use True imp t' law(1,2,4,7) view in \<open>auto simp: enqueue_unchecked_def on_table_def
          on_scheduler_def expect_st_def expect_def bind_st_def\<close>)
  qed
qed

text \<open>a placement detached from one scheduler and imported by another keeps its class, its
  place among the queued and its metrics, leaves nothing behind at the source, changes no
  other process of the destination, and cannot be imported twice.\<close>

theorem placement_moves_whole:
  assumes "sched_ok s" "sched_ok d" "pt_ok Q contents capacity t" "pt_get t pid = Some p"
    and "bt_get (sched_classes d) pid = None" "bt_get (m_processes (sched_metrics d)) pid = None"
    and "pid \<in> set (sched_queued s) \<longrightarrow> proc_state p = Runnable"
    and "detach_process_placement pid s = (transfer, s')"
  shows "\<exists>d' t'. import_process_placement transfer (d, t) = (Ok (), (d', t')) \<and> sched_ok s' \<and> sched_ok d'
    \<and> (pid \<in> set (sched_queued d') \<longleftrightarrow> pid \<in> set (sched_queued s)) \<and> pid \<notin> set (sched_queued s')
    \<and> bt_get (sched_classes d') = (bt_get (sched_classes d))(pid \<mapsto> class_or_normal s pid)
    \<and> bt_get (sched_classes s') pid = None
    \<and> bt_get (m_processes (sched_metrics d'))
        = (bt_get (m_processes (sched_metrics d)))(pid := bt_get (m_processes (sched_metrics s)) pid)
    \<and> bt_get (m_processes (sched_metrics s')) pid = None
    \<and> pt_get t' = pt_get t
    \<and> (\<exists>e. import_process_placement transfer (d', t') = (Err (e, transfer), (d', t')))"
proof -
  note det = placement_detach_law [OF assms(1,8)]
  have tr: "placement_process transfer = pid" "placement_class transfer = class_or_normal s pid"
      "placement_queued transfer \<longleftrightarrow> pid \<in> set (sched_queued s)"
      "placement_metrics transfer = bt_get (m_processes (sched_metrics s)) pid"
    using det(2) by simp_all
  have out: "pid \<notin> set (sched_queued d)" using assms(2,5) by (auto simp: sched_ok_def)
  obtain d' t' where d': "import_process_placement transfer (d, t) = (Ok (), (d', t'))"
    "sched_ok d'" "pt_ok Q contents capacity t'" "pt_get t' = pt_get t"
    "set (sched_queued d') = (if placement_queued transfer then insert pid else id) (set (sched_queued d))"
    "bt_get (sched_classes d') = (bt_get (sched_classes d))(pid \<mapsto> class_or_normal s pid)"
    "bt_get (m_processes (sched_metrics d'))
       = (bt_get (m_processes (sched_metrics d)))(pid := bt_get (m_processes (sched_metrics s)) pid)"
    by (rule import_law [of d Q contents capacity t transfer p, unfolded tr(1,2,4)])
      (use assms(2-7) tr(3) in auto)
  have "validate_process_placement_import d' t' transfer
      = Err (Msg ''scheduler transfer process {} already has destination placement'' [ANum pid])"
    using assms(4) d'(4,6) by (simp add: validate_process_placement_import_def tr(1) Let_def
        bt_contains_def ok_or_def)
  then have again: "\<exists>e. import_process_placement transfer (d', t') = (Err (e, transfer), (d', t'))"
    by (simp add: import_process_placement_def)
  have queued: "pid \<in> set (sched_queued d') \<longleftrightarrow> pid \<in> set (sched_queued s)"
    using d'(5) out tr(3) by auto
  show ?thesis
    using d'(1,2,4,6,7) det(1,3-5) again queued by (intro exI [of _ d'] exI [of _ t'] conjI) assumption+
qed

section \<open>Instances\<close>

definition sample_scheduler :: VmScheduler where
  "sample_scheduler = enqueue_unchecked_raw 2 (enqueue_unchecked_raw 1 (scheduler_new scheduler_config_default))"

lemma sample_scheduler_ok: "sched_ok sample_scheduler"
  by (simp add: sample_scheduler_def scheduler_new_def enqueue_raw_law(1) scheduler_with_owner_ok)

lemma sample_scheduler_facts:
  "class_queue sample_scheduler SchedNormal = [1, 2]" "bt_get (sched_classes sample_scheduler) 1 = Some SchedNormal"
  "sched_queued sample_scheduler = [1, 2]"
  "\<And>pid. bt_get (m_processes (sched_metrics (scheduler_new c))) pid = None"
  "\<And>pid. bt_get (sched_classes (scheduler_new c)) pid = None"
  by (simp_all add: sample_scheduler_def scheduler_new_def scheduler_with_owner_def
      enqueue_unchecked_raw_def Let_def bs_contains_def bt_contains_def bt_get_def
      scheduler_metrics_default_def class_queue_def update_queue_def class_or_normal_def)

definition sample_slice :: slice_runner where
  "sample_slice process grant = (Yield 1, process)"

theorem queues_stay_consistent_witness:
  "sched_ok (fst (snd (enqueue_runnable 1 (scheduler_new scheduler_config_default, sample_two))))"
proof -
  have "sched_reachable list_queue sample_slice TYPE(VmMessage VmPublishedFragment list \<times> nat)
      (fst (snd (enqueue_runnable 1 (scheduler_new scheduler_config_default, sample_two))))"
    unfolding scheduler_new_def
    by (rule sched_reachable.enqueued_same [OF sched_reachable.created])
  from queues_stay_consistent [OF this] show ?thesis by blast
qed

theorem bounded_wait_witness:
  "2 \<in> set (fst (queue_run (replicate 12 Dequeued) sample_scheduler))"
  by (rule bounded_wait [OF sample_scheduler_ok, of SchedNormal "[1]" 2 "[]"])
    (simp_all add: sample_scheduler_facts numeral_eq_Suc)

theorem run_next_accounts_witness:
  "run_next list_queue sample_slice (scheduler_new scheduler_config_default, sample_two)
     = (Ok (idle_run (scheduler_new scheduler_config_default)),
        (snd (dequeue (scheduler_new scheduler_config_default)), sample_two))
   \<and> account (snd (dequeue (scheduler_new scheduler_config_default)))
     = account (scheduler_new scheduler_config_default)"
proof -
  let ?s = "scheduler_new scheduler_config_default"
  have empty: "fst (dequeue ?s) = None" and idle: "idle_run (snd (dequeue ?s)) = idle_run ?s"
    by code_simp+
  have polls: "config_max_empty_polls (sched_config ?s) = Suc 63" by code_simp
  have r: "run_next list_queue sample_slice (?s, sample_two)
      = (Ok (idle_run ?s), (snd (dequeue ?s), sample_two))"
    unfolding run_next_def prod.case polls run_next_loop.simps(2)
    using empty idle by (cases "dequeue ?s") simp
  have "run_pid (idle_run ?s) = None" by (simp add: idle_run_def)
  with run_next_accounts [OF r] r show ?thesis by simp
qed

theorem wake_runs_or_refuses_witness:
  "\<exists>s' t'. wake_process 1 (sample_scheduler, sample_two) = (Ok (), (s', t'))
     \<and> 1 \<in> set (class_queue s' SchedNormal)"
  using wake_runs_or_refuses [OF sample_two_facts(1) sample_scheduler_ok, of 1]
  by (auto simp: sample_two_facts(2) new_process_def class_or_normal_def sample_scheduler_facts(2))

theorem placement_moves_whole_witness:
  "\<exists>d' t'. import_process_placement (fst (detach_process_placement 1 sample_scheduler))
       (scheduler_new scheduler_config_default, sample_two) = (Ok (), (d', t')) \<and> 1 \<in> set (sched_queued d')"
proof -
  obtain transfer s' where d: "detach_process_placement 1 sample_scheduler = (transfer, s')"
    by (cases "detach_process_placement 1 sample_scheduler")
  have one: "pt_get sample_two 1 = Some (new_process 1 None sample_source)"
    by (simp add: sample_two_facts(2))
  have fresh: "sched_ok (scheduler_new scheduler_config_default)"
    by (simp add: scheduler_new_def scheduler_with_owner_ok)
  have run: "1 \<in> set (sched_queued sample_scheduler) \<longrightarrow> proc_state (new_process 1 None sample_source) = Runnable"
    by (simp add: new_process_def)
  from placement_moves_whole [OF sample_scheduler_ok fresh sample_two_facts(1) one
      sample_scheduler_facts(5) sample_scheduler_facts(4) run d] d
  show ?thesis by (auto simp: sample_scheduler_facts(3))
qed

end
