(* ===== verification/Timer_Laws.thy ===== *)
theory Timer_Laws
  imports Vm_Timer Scheduler_Properties
begin

text \<open>
  What a clock advance does, against a reference: an interval timer keeps its grid of
  deadlines and moves to the least one after the observed tick; every other due timer
  leaves the table. The laws of the loop of \<open>advance_clock\<close> are proved by induction over
  the due timers.
\<close>

section \<open>The grid of an interval\<close>

definition next_deadline :: "nat \<Rightarrow> nat \<Rightarrow> nat \<Rightarrow> nat" where
  "next_deadline deadline interval now = (LEAST x. now < x \<and> (\<exists>k. x = deadline + k * interval))"

lemma next_deadline_eq:
  assumes "0 < i"
  shows "next_deadline d i now = (if now < d then d else d + ((now - d) div i + 1) * i)"
proof (cases "now < d")
  case True
  then show ?thesis
    unfolding next_deadline_def by (simp, intro Least_equality) (auto intro: exI [of _ 0])
next
  case False
  let ?q = "(now - d) div i"
  have split: "now - d = ?q * i + (now - d) mod i" "(now - d) mod i < i"
    using assms by simp_all
  show ?thesis
    unfolding next_deadline_def if_not_P [OF False]
  proof (rule Least_equality)
    show "now < d + (?q + 1) * i \<and> (\<exists>k. d + (?q + 1) * i = d + k * i)"
    proof
      have "(?q + 1) * i = ?q * i + i" by simp
      then show "now < d + (?q + 1) * i" using split False by linarith
    qed blast
    fix y
    assume "now < y \<and> (\<exists>k. y = d + k * i)"
    then obtain k where k: "now < y" "y = d + k * i" by blast
    then have "?q < k"
      using False assms by (simp add: div_less_iff_less_mult algebra_simps)
    then have "(?q + 1) * i \<le> k * i" by (intro mult_le_mono1) simp
    then show "d + (?q + 1) * i \<le> y" by (simp add: k)
  qed
qed

lemma next_deadline_after: "0 < i \<Longrightarrow> now < next_deadline d i now"
proof -
  assume i: "0 < i"
  have "now - d < (now - d) div i * i + i"
    using i dividend_less_div_times [of i "now - d"] by (simp add: algebra_simps)
  moreover have "((now - d) div i + 1) * i = (now - d) div i * i + i" by simp
  ultimately show ?thesis unfolding next_deadline_eq [OF i] by (simp only: split: if_split) linarith
qed

lemma next_deadline_mono: "0 < i \<Longrightarrow> now \<le> later \<Longrightarrow> next_deadline d i now \<le> next_deadline d i later"
  using next_deadline_after [of i later d]
  by (auto simp: next_deadline_eq intro!: add_left_mono mult_le_mono1 div_le_mono)

lemma next_deadline_twice:
  assumes "0 < i" "now \<le> later"
  shows "next_deadline (next_deadline d i now) i later = next_deadline d i later"
proof (cases "now < d")
  case True
  then show ?thesis by (simp add: next_deadline_eq [OF assms(1)])
next
  case False
  define q where "q = (now - d) div i + 1"
  have n: "next_deadline d i now = d + q * i" using False by (simp add: next_deadline_eq assms q_def)
  show ?thesis
  proof (cases "later < d + q * i")
    case True
    have "(later - d) div i = (now - d) div i"
    proof (rule antisym)
      show "(now - d) div i \<le> (later - d) div i" using assms(2) by (intro div_le_mono) simp
      have "(later - d) div i < q"
        using True False assms by (simp add: div_less_iff_less_mult algebra_simps)
      then show "(later - d) div i \<le> (now - d) div i" by (simp add: q_def)
    qed
    then show ?thesis using True False assms n by (simp add: next_deadline_eq q_def)
  next
    case l: False
    then have "later - d = (later - (d + q * i)) + q * i" by simp
    then have "(later - d) div i = (later - (d + q * i)) div i + q"
      using assms(1) by (metis div_mult_self1 add.commute neq0_conv less_not_refl)
    then show ?thesis using l False assms n by (simp add: next_deadline_eq algebra_simps)
  qed
qed

section \<open>The table\<close>

definition timer_ok :: "VmTimer \<Rightarrow> bool" where
  "timer_ok timer \<longleftrightarrow> (timer_kind timer = Interval \<longleftrightarrow> timer_interval_ticks timer \<noteq> None)
     \<and> timer_interval_ticks timer \<noteq> Some 0"

definition timers_ok :: "VmTimerTable \<Rightarrow> bool" where
  "timers_ok tt \<longleftrightarrow> bt_ok (tt_timers tt)
     \<and> (\<forall>k timer. bt_get (tt_timers tt) k = Some timer \<longrightarrow> timer_id timer = k \<and> timer_ok timer)"

text \<open>The reference: what becomes of a timer whose owner is alive, and of any timer.\<close>

definition rearmed :: "u64 \<Rightarrow> VmTimer \<Rightarrow> VmTimer option" where
  "rearmed now timer = (case timer_interval_ticks timer of
     None \<Rightarrow> None
   | Some interval \<Rightarrow>
       let next = next_deadline (unat (timer_deadline_tick timer)) (unat interval) (unat now)
       in if next < 2 ^ 64 then Some (timer\<lparr> timer_deadline_tick := of_nat next \<rparr>) else None)"

definition settled :: "'q VmProcessTable \<Rightarrow> u64 \<Rightarrow> VmTimer \<Rightarrow> VmTimer option" where
  "settled t now timer = (if now < timer_deadline_tick timer then Some timer
     else if timer_owner_exited t (timer_owner timer) then None else rearmed now timer)"

text \<open>The one event a due timer causes.\<close>

definition due_event :: "'q VmProcessTable \<Rightarrow> u64 \<Rightarrow> VmTimer \<Rightarrow> VmTimerEvent" where
  "due_event t now timer =
     (let i = timer_id timer; owner = timer_owner timer; kind = timer_kind timer;
          deadline = timer_deadline_tick timer;
          prompt = (if deadline < now then DeadlineMissed i owner kind (now - deadline) else Fired i owner kind)
      in if timer_owner_exited t owner then OwnerExited i owner kind
         else case timer_interval_ticks timer of
           None \<Rightarrow> prompt
         | Some interval \<Rightarrow> (case rearmed now timer of
             None \<Rightarrow> Overflow i owner kind
           | Some next \<Rightarrow>
               if interval \<le> now - deadline
               then Coalesced i owner kind ((now - deadline) div interval) (timer_deadline_tick next)
               else prompt))"

lemma event_timer_id_due [simp]: "event_timer_id (due_event t now timer) = timer_id timer"
  by (simp add: due_event_def Let_def split: option.split)

section \<open>One due timer\<close>

definition rearm :: "VmTimer \<Rightarrow> VmTimer option \<Rightarrow> VmTimerTable \<Rightarrow> VmTimerTable" where
  "rearm timer next tt = (case next of None \<Rightarrow> tt
     | Some timer' \<Rightarrow> tt\<lparr> tt_timers := bt_insert (timer_id timer) timer' (tt_timers tt) \<rparr>)"

text \<open>A due interval timer, in natural numbers.\<close>

definition due_interval :: "VmTimer \<Rightarrow> u64 \<Rightarrow> u64 \<Rightarrow> bool" where
  "due_interval timer interval now \<longleftrightarrow> timer_interval_ticks timer = Some interval \<and> interval \<noteq> 0
     \<and> timer_deadline_tick timer \<le> now"

lemma due_interval_nat:
  assumes "due_interval timer interval now"
  shows "0 < unat interval"
    and "unat (now - timer_deadline_tick timer) = unat now - unat (timer_deadline_tick timer)"
    and "next_deadline (unat (timer_deadline_tick timer)) (unat interval) (unat now)
      = unat (timer_deadline_tick timer)
        + (unat ((now - timer_deadline_tick timer) div interval) + 1) * unat interval"
proof -
  show pos: "0 < unat interval" using assms by (simp add: due_interval_def unat_gt_0)
  show late: "unat (now - timer_deadline_tick timer) = unat now - unat (timer_deadline_tick timer)"
    using assms by (simp add: due_interval_def unat_sub)
  show "next_deadline (unat (timer_deadline_tick timer)) (unat interval) (unat now)
      = unat (timer_deadline_tick timer)
        + (unat ((now - timer_deadline_tick timer) div interval) + 1) * unat interval"
    using assms by (simp add: due_interval_def next_deadline_eq [OF pos] unat_div late word_le_nat_alt)
qed

lemma rearmed_due:
  assumes "due_interval timer interval now"
  shows "rearmed now timer = (let next = unat (timer_deadline_tick timer)
      + (unat ((now - timer_deadline_tick timer) div interval) + 1) * unat interval
    in if next < 2 ^ 64 then Some (timer\<lparr> timer_deadline_tick := of_nat next \<rparr>) else None)"
  using assms due_interval_nat(3) [OF assms] by (simp add: rearmed_def due_interval_def)

lemma word_div_below: "a < b \<Longrightarrow> a div b = 0" for a b :: "'a::len word"
  by (simp add: word_arith_nat_div word_less_nat_alt)

lemma coalesce_prompt:
  assumes "due_interval timer interval now" "now - timer_deadline_tick timer < interval"
  shows "coalesce_late_interval timer now tt = (Ok None, tt)"
  using assms by (simp add: coalesce_late_interval_def due_interval_def word_div_below Let_def)

lemma reschedule_prompt:
  assumes "due_interval timer interval now" "now - timer_deadline_tick timer < interval"
  shows "reschedule_interval timer tt = (case rearmed now timer of
      None \<Rightarrow> (Some (interval_overflow_event timer), tt) | Some next \<Rightarrow> (None, rearm timer (Some next) tt))"
proof -
  have zero: "(now - timer_deadline_tick timer) div interval = 0"
    using assms(2) by (rule word_div_below)
  show ?thesis
    using assms(1) unfolding rearmed_due [OF assms(1)] zero
    by (auto simp: reschedule_interval_def due_interval_def checked_add_def rearm_def
        interval_overflow_event_def Let_def)
qed

lemma coalesce_late:
  assumes "due_interval timer interval now" "timer_kind timer = Interval"
    "interval \<le> now - timer_deadline_tick timer"
  shows "coalesce_late_interval timer now tt = (Ok (Some (case rearmed now timer of
      None \<Rightarrow> interval_overflow_event timer
    | Some next \<Rightarrow> Coalesced (timer_id timer) (timer_owner timer) (timer_kind timer)
        ((now - timer_deadline_tick timer) div interval) (timer_deadline_tick next))),
    rearm timer (rearmed now timer) tt)"
proof -
  let ?d = "timer_deadline_tick timer" and ?q = "(now - timer_deadline_tick timer) div interval"
  note nat = due_interval_nat [OF assms(1)]
  have late: "\<not> now \<le> ?d" using assms(3) nat(1,2) by (auto simp: word_le_nat_alt)
  have "unat ?q \<noteq> 0" using assms(3) nat(1) by (simp add: unat_div word_le_nat_alt div_eq_0_iff)
  then have q: "?q \<noteq> 0" by auto
  have one: "unat (1 :: u64) = 1" by simp
  have steps: "(unat ?q + 1) \<le> (unat ?q + 1) * unat interval"
    using mult_le_mono2 [of 1 "unat interval" "unat ?q + 1"] nat(1) by simp
  show ?thesis
  proof (cases "unat ?d + (unat ?q + 1) * unat interval < 2 ^ 64")
    case True
    have c1: "checked_add ?q 1 = Some (?q + 1)"
      using True steps by (simp add: checked_add_def)
    have n1: "unat (?q + 1) = unat ?q + 1" using checked_add_unat [OF c1] by simp
    have c2: "checked_mul interval (?q + 1) = Some (interval * (?q + 1))"
      using True n1 by (simp add: checked_mul_def mult.commute)
    have n2: "unat (interval * (?q + 1)) = (unat ?q + 1) * unat interval"
      using checked_mul_unat [OF c2] n1 by (simp add: mult.commute)
    have c3: "checked_add ?d (interval * (?q + 1)) = Some (?d + interval * (?q + 1))"
      using True n2 by (simp add: checked_add_def)
    have n3: "?d + interval * (?q + 1) = of_nat (unat ?d + (unat ?q + 1) * unat interval)"
      using word_arith_nat_add [of ?d "interval * (?q + 1)"] by (simp only: n2)
    have "rearmed now timer = Some (timer\<lparr> timer_deadline_tick := ?d + interval * (?q + 1) \<rparr>)"
      using True by (simp only: rearmed_due [OF assms(1)] Let_def if_True n3)
    then show ?thesis
      using assms late q c1 c2 c3
      by (simp add: coalesce_late_interval_def due_interval_def rearm_def Let_def)
  next
    case False
    have none: "rearmed now timer = None"
      using False by (simp only: rearmed_due [OF assms(1)] Let_def if_False)
    have shape: "coalesce_late_interval timer now tt = (case checked_add ?q 1 of
        None \<Rightarrow> (Ok (Some (interval_overflow_event timer)), tt)
      | Some next_step_count \<Rightarrow> (case checked_mul interval next_step_count of
          None \<Rightarrow> (Ok (Some (interval_overflow_event timer)), tt)
        | Some next_offset \<Rightarrow> (case checked_add ?d next_offset of
            None \<Rightarrow> (Ok (Some (interval_overflow_event timer)), tt)
          | Some next_deadline_tick \<Rightarrow>
              (Ok (Some (Coalesced (timer_id timer) (timer_owner timer) (timer_kind timer) ?q next_deadline_tick)),
               tt\<lparr> tt_timers := bt_insert (timer_id timer)
                 (timer\<lparr> timer_deadline_tick := next_deadline_tick \<rparr>) (tt_timers tt) \<rparr>))))"
      using assms(1,2) late q by (simp add: coalesce_late_interval_def due_interval_def Let_def)
    have "checked_add ?d m = None" if "checked_add ?q 1 = Some n" "checked_mul interval n = Some m" for n m
      using False checked_add_unat [OF that(1)] checked_mul_unat [OF that(2)]
      by (simp add: checked_add_def mult.commute)
    then have "coalesce_late_interval timer now tt = (Ok (Some (interval_overflow_event timer)), tt)"
      unfolding shape by (cases "checked_add ?q 1"; cases "checked_mul interval (the (checked_add ?q 1))") simp_all
    then show ?thesis using none by (simp add: rearm_def)
  qed
qed

section \<open>The processes a clock advance wakes\<close>

definition receivers :: "VmTimer list \<Rightarrow> VmProcessId set" where
  "receivers timers = timer_owner ` {timer \<in> set timers. timer_kind timer = ReceiveTimeout}"

lemma receivers_simps [simp]:
  "receivers [] = {}"
  "receivers (timer # timers) = (if timer_kind timer = ReceiveTimeout then {timer_owner timer} else {}) \<union> receivers timers"
  by (auto simp: receivers_def)

definition woken_by :: "VmProcessId set \<Rightarrow> (VmProcessId \<Rightarrow> VmProcess option) \<Rightarrow> VmProcessId \<Rightarrow> VmProcess option" where
  "woken_by pids get = (\<lambda>pid. if pid \<in> pids then map_option proc_wake (get pid) else get pid)"

definition roused :: "VmProcessId set \<Rightarrow> (VmProcessId \<Rightarrow> VmProcess option) \<Rightarrow> VmProcessId set" where
  "roused pids get = {pid\<in>pids. \<exists>p. get pid = Some p \<and> \<not> is_exited (proc_state p)
     \<and> (\<forall>resume. proc_state p \<noteq> Suspended resume)}"

lemma proc_wake_wake [simp]: "proc_wake (proc_wake p) = proc_wake p"
  by (cases "proc_state p"; cases "case proc_state p of Suspended r \<Rightarrow> r | _ \<Rightarrow> ResumeRunnable")
    (simp_all add: proc_wake_def)

lemma proc_wake_suspended [simp]:
  "(\<exists>r. proc_state (proc_wake p) = Suspended r) \<longleftrightarrow> (\<exists>r. proc_state p = Suspended r)"
  by (cases "proc_state p"; cases "case proc_state p of Suspended r \<Rightarrow> r | _ \<Rightarrow> ResumeRunnable")
    (simp_all add: proc_wake_def)

lemma proc_wake_exited: "is_exited (proc_state p) \<Longrightarrow> proc_wake p = p"
  by (cases "proc_state p") (simp_all add: proc_wake_def)

lemma woken_by_Un: "woken_by (A \<union> B) get = woken_by B (woken_by A get)"
  by (rule ext) (auto simp: woken_by_def option.map_comp comp_def)

lemma roused_Un: "roused (A \<union> B) get = roused A get \<union> roused B (woken_by A get)"
proof -
  have "(\<forall>r. proc_state (proc_wake p) \<noteq> Suspended r) \<longleftrightarrow> (\<forall>r. proc_state p \<noteq> Suspended r)" for p
    using proc_wake_suspended [of p] by blast
  then show ?thesis by (auto simp: roused_def woken_by_def split: if_splits)
qed

lemma woken_by_empty [simp]: "woken_by {} get = get" "roused {} get = {}"
  by (auto simp: woken_by_def roused_def)

lemma timer_owner_exited_woken:
  "pt_get t' = woken_by pids (pt_get t) \<Longrightarrow> timer_owner_exited t' = timer_owner_exited t"
  by (rule ext) (auto simp: timer_owner_exited_def woken_by_def split: option.splits)

lemma settled_woken: "timer_owner_exited t' = timer_owner_exited t \<Longrightarrow> settled t' = settled t"
  "timer_owner_exited t' = timer_owner_exited t \<Longrightarrow> due_event t' = due_event t"
  by (rule ext; rule ext; simp add: settled_def due_event_def)+

lemma wake_receiver_law:
  assumes ok: "pt_ok Q contents capacity t" "sched_ok s" and live: "\<not> timer_owner_exited t (timer_owner timer)"
  obtains s' t' where "\<And>tt. wake_receiver timer (tt, (s, t)) = (Ok (), (tt, (s', t')))"
    "pt_ok Q contents capacity t'" "sched_ok s'" "pt_get t' = woken_by (receivers [timer]) (pt_get t)"
    "set (sched_queued s') = set (sched_queued s) \<union> roused (receivers [timer]) (pt_get t)"
proof (cases "timer_kind timer = ReceiveTimeout")
  case False
  then show ?thesis
    using that [of s t] ok
    by (simp add: wake_receiver_def on_scheduled_def return_st_def)
next
  case True
  obtain p where p: "pt_get t (timer_owner timer) = Some p" "\<not> is_exited (proc_state p)"
    using live by (auto simp: timer_owner_exited_def split: option.splits)
  have r: "receivers [timer] = {timer_owner timer}" using True by simp
  obtain t' where t': "pt_ok Q contents capacity t'" "pt_get t' = (pt_get t)(timer_owner timer \<mapsto> proc_wake p)"
    "wake_process (timer_owner timer) (s, t) = (Ok (), (if \<exists>resume. proc_state p = Suspended resume then s
       else enqueue_unchecked_raw (timer_owner timer) s, t'))"
    using wake_live [OF ok(1) p] by metis
  define s' where "s' = (if \<exists>resume. proc_state p = Suspended resume then s
      else enqueue_unchecked_raw (timer_owner timer) s)"
  have s': "wake_process (timer_owner timer) (s, t) = (Ok (), (s', t'))"
    using t'(3) by (simp only: s'_def)
  show ?thesis
  proof (rule that [of s' t'])
    show "wake_receiver timer (tt, (s, t)) = (Ok (), (tt, (s', t')))" for tt
      using True s' by (simp add: wake_receiver_def on_scheduled_def ignore_st_def)
    show "pt_get t' = woken_by (receivers [timer]) (pt_get t)"
      unfolding r t'(2) by (rule ext) (simp add: woken_by_def p(1))
    show "sched_ok s'" unfolding s'_def by (auto simp: enqueue_raw_law(1) ok(2))
    show "set (sched_queued s') = set (sched_queued s) \<union> roused (receivers [timer]) (pt_get t)"
      unfolding r s'_def using p by (auto simp: enqueue_raw_law(2) ok(2) roused_def)
  qed (rule t'(1))
qed

section \<open>The loop over the due timers\<close>

lemma fire_timer_law:
  assumes ok: "pt_ok Q contents capacity t" "sched_ok s"
    and timer: "timer_ok timer" "timer_deadline_tick timer \<le> now"
  obtains s' t' where "fire_timer now timer (tt, (s, t)) = (Ok (due_event t now timer),
      (rearm timer (settled t now timer) (tt\<lparr> tt_timers := bt_remove (timer_id timer) (tt_timers tt) \<rparr>), (s', t')))"
    "pt_ok Q contents capacity t'" "sched_ok s'" "pt_get t' = woken_by (receivers [timer]) (pt_get t)"
    "set (sched_queued s') = set (sched_queued s) \<union> roused (receivers [timer]) (pt_get t)"
proof (cases "timer_owner_exited t (timer_owner timer)")
  case True
  have "woken_by (receivers [timer]) (pt_get t) = pt_get t"
    using True by (auto simp: fun_eq_iff woken_by_def timer_owner_exited_def proc_wake_exited
        split: option.splits)
  moreover have "roused (receivers [timer]) (pt_get t) = {}"
    using True by (auto simp: roused_def timer_owner_exited_def)
  ultimately show ?thesis
    using that [of s t] ok True timer(2)
    by (simp add: fire_timer_def due_event_def settled_def rearm_def Let_def)
next
  case False
  let ?tt = "tt\<lparr> tt_timers := bt_remove (timer_id timer) (tt_timers tt) \<rparr>"
  have settled: "settled t now timer = rearmed now timer"
    using False timer(2) by (auto simp: settled_def)
  obtain s' t' where w: "\<And>tt. wake_receiver timer (tt, (s, t)) = (Ok (), (tt, (s', t')))"
    "pt_ok Q contents capacity t'" "sched_ok s'" "pt_get t' = woken_by (receivers [timer]) (pt_get t)"
    "set (sched_queued s') = set (sched_queued s) \<union> roused (receivers [timer]) (pt_get t)"
    using wake_receiver_law [OF ok False] by blast
  let ?prompt = "if timer_deadline_tick timer < now then DeadlineMissed (timer_id timer) (timer_owner timer)
      (timer_kind timer) (now - timer_deadline_tick timer)
    else Fired (timer_id timer) (timer_owner timer) (timer_kind timer)"
  have fire: "fire_timer now timer (tt, (s, t)) = bind_st (on_timers (coalesce_late_interval timer now)) (\<lambda>coalesced.
       case coalesced of
         Some event \<Rightarrow> return_st event
       | None \<Rightarrow> bind_st (wake_receiver timer) (\<lambda>_.
           bind_st (on_timers (\<lambda>tt. case reschedule_interval timer tt of (event, tt) \<Rightarrow> (Ok event, tt)))
             (\<lambda>rescheduled. return_st (case rescheduled of Some event \<Rightarrow> event | None \<Rightarrow> ?prompt))))
       (?tt, (s, t))"
    using False by (simp only: fire_timer_def prod.case Let_def if_False)
  show ?thesis
  proof (cases "timer_interval_ticks timer")
    case None
    then have "timer_kind timer \<noteq> Interval" using timer(1) by (simp add: timer_ok_def)
    then have "fire_timer now timer (tt, (s, t)) = (Ok ?prompt, (?tt, (s', t')))"
      unfolding fire using None w(1)
      by (simp add: on_timers_def coalesce_late_interval_def bind_st_def reschedule_interval_def return_st_def)
    moreover have "due_event t now timer = ?prompt" "settled t now timer = None"
      using False None settled by (simp_all add: due_event_def rearmed_def Let_def)
    ultimately show ?thesis using that [OF _ w(2-5)] by (simp add: rearm_def)
  next
    case (Some interval)
    then have d: "due_interval timer interval now" "timer_kind timer = Interval"
      using timer by (auto simp: timer_ok_def due_interval_def)
    then have idle: "s' = s" "t' = t" using w(1) by (simp_all add: wake_receiver_def on_scheduled_def return_st_def)
    show ?thesis
    proof (cases "interval \<le> now - timer_deadline_tick timer")
      case True
      have "fire_timer now timer (tt, (s, t)) = (Ok (due_event t now timer), (rearm timer (rearmed now timer) ?tt, (s, t)))"
        unfolding fire using coalesce_late [OF d True, of ?tt] False Some True
        by (simp add: on_timers_def bind_st_def return_st_def due_event_def interval_overflow_event_def Let_def
            split: option.split)
      then show ?thesis using that [OF _ w(2-5)] by (simp add: settled idle)
    next
      case early: False
      then have less: "now - timer_deadline_tick timer < interval" by simp
      have "fire_timer now timer (tt, (s, t)) = (Ok (due_event t now timer), (rearm timer (rearmed now timer) ?tt, (s, t)))"
        unfolding fire using coalesce_prompt [OF d(1) less, of ?tt] reschedule_prompt [OF d(1) less, of ?tt]
          False Some early w(1) idle
        by (simp add: on_timers_def bind_st_def return_st_def due_event_def interval_overflow_event_def Let_def
            rearm_def split: option.split)
      then show ?thesis using that [OF _ w(2-5)] by (simp add: settled idle)
    qed
  qed
qed

lemma rearm_simps:
  "rearm timer next tt = tt\<lparr> tt_timers := (case next of None \<Rightarrow> tt_timers tt
     | Some timer' \<Rightarrow> bt_insert (timer_id timer) timer' (tt_timers tt)) \<rparr>"
  by (simp add: rearm_def split: option.split)

lemma fire_timers_law:
  assumes "pt_ok Q contents capacity t" "sched_ok s" "bt_ok (tt_timers tt)"
    and "\<forall>timer\<in>set due. timer_ok timer \<and> timer_deadline_tick timer \<le> now" "distinct (map timer_id due)"
  shows "\<exists>m s' t'. fire_timers now due (tt, (s, t)) = (Ok (map (due_event t now) due), (tt\<lparr> tt_timers := m \<rparr>, (s', t')))
    \<and> bt_ok m \<and> (\<forall>timer\<in>set due. bt_get m (timer_id timer) = settled t now timer)
    \<and> (\<forall>k. k \<notin> timer_id ` set due \<longrightarrow> bt_get m k = bt_get (tt_timers tt) k)
    \<and> pt_ok Q contents capacity t' \<and> sched_ok s' \<and> pt_get t' = woken_by (receivers due) (pt_get t)
    \<and> set (sched_queued s') = set (sched_queued s) \<union> roused (receivers due) (pt_get t)"
  using assms
proof (induction due arbitrary: tt s t)
  case Nil
  then show ?case by (intro exI [of _ "tt_timers tt"] exI [of _ s] exI [of _ t]) simp
next
  case (Cons timer due)
  let ?m = "case settled t now timer of None \<Rightarrow> bt_remove (timer_id timer) (tt_timers tt)
      | Some timer' \<Rightarrow> bt_insert (timer_id timer) timer' (bt_remove (timer_id timer) (tt_timers tt))"
  obtain s1 t1 where fire: "fire_timer now timer (tt, (s, t)) = (Ok (due_event t now timer),
        (rearm timer (settled t now timer) (tt\<lparr> tt_timers := bt_remove (timer_id timer) (tt_timers tt) \<rparr>), (s1, t1)))"
      "pt_ok Q contents capacity t1" "sched_ok s1" "pt_get t1 = woken_by (receivers [timer]) (pt_get t)"
      "set (sched_queued s1) = set (sched_queued s) \<union> roused (receivers [timer]) (pt_get t)"
    using fire_timer_law [OF Cons.prems(1,2), of timer now tt] Cons.prems(4) by auto
  have "rearm timer (settled t now timer) (tt\<lparr> tt_timers := bt_remove (timer_id timer) (tt_timers tt) \<rparr>)
      = tt\<lparr> tt_timers := ?m \<rparr>"
    by (simp add: rearm_simps split: option.split)
  note one = fire [unfolded this]
  note same = settled_woken [OF timer_owner_exited_woken [OF one(4)]]
  have m: "bt_ok ?m" "bt_get ?m k = (if k = timer_id timer then settled t now timer else bt_get (tt_timers tt) k)" for k
    using Cons.prems(3) by (auto split: option.split)
  obtain m s' t' where rest: "fire_timers now due (tt\<lparr> tt_timers := ?m \<rparr>, (s1, t1))
        = (Ok (map (due_event t now) due), (tt\<lparr> tt_timers := m \<rparr>, (s', t')))" "bt_ok m"
      "\<forall>timer\<in>set due. bt_get m (timer_id timer) = settled t now timer"
      "\<forall>k. k \<notin> timer_id ` set due \<longrightarrow> bt_get m k = bt_get ?m k"
      "pt_ok Q contents capacity t'" "sched_ok s'" "pt_get t' = woken_by (receivers due) (pt_get t1)"
      "set (sched_queued s') = set (sched_queued s1) \<union> roused (receivers due) (pt_get t1)"
    using Cons.IH [OF one(2,3), of "tt\<lparr> tt_timers := ?m \<rparr>"] m(1) Cons.prems(4,5) unfolding same by auto
  have cons: "receivers (timer # due) = receivers [timer] \<union> receivers due" by simp
  have run: "fire_timers now (timer # due) (tt, (s, t))
      = (Ok (map (due_event t now) (timer # due)), (tt\<lparr> tt_timers := m \<rparr>, (s', t')))"
    using one(1) rest(1) by (simp add: bind_st_def return_st_def)
  have settled: "\<forall>x\<in>set (timer # due). bt_get m (timer_id x) = settled t now x"
    using rest(3,4) m(2) Cons.prems(5) by auto
  have others: "\<forall>k. k \<notin> timer_id ` set (timer # due) \<longrightarrow> bt_get m k = bt_get (tt_timers tt) k"
    using rest(4) m(2) by simp
  have woken: "pt_get t' = woken_by (receivers (timer # due)) (pt_get t)"
    by (simp only: cons woken_by_Un rest(7) one(4))
  have queued: "set (sched_queued s') = set (sched_queued s) \<union> roused (receivers (timer # due)) (pt_get t)"
    by (simp only: cons roused_Un rest(8) one(4,5) Un_assoc)
  show ?case
    using run rest(2,5,6) settled others woken queued by blast
qed

lemma record_events_law:
  "tt_timers (record_events events tt) = tt_timers tt"
  "tt_next_timer_id (record_events events tt) = tt_next_timer_id tt"
  "tt_last_clock_tick (record_events events tt) = tt_last_clock_tick tt"
  "tm_ordering_trace (tt_metrics (record_events events tt))
     = tm_ordering_trace (tt_metrics tt) @ map event_timer_id events"
  by (induction events arbitrary: tt)
    (simp_all add: record_event_def count_event_def Let_def split: option.split VmTimerEvent.split)

definition due_timers :: "VmTimerTable \<Rightarrow> u64 \<Rightarrow> VmTimer list" where
  "due_timers tt now = filter (\<lambda>timer. timer_deadline_tick timer \<le> now) (bt_values (tt_timers tt))"

lemma due_timers_law:
  assumes "timers_ok tt"
  shows "\<forall>timer\<in>set (due_timers tt now). timer_ok timer \<and> timer_deadline_tick timer \<le> now"
    "distinct (map timer_id (due_timers tt now))"
    "\<And>timer. timer \<in> set (due_timers tt now)
      \<longleftrightarrow> bt_get (tt_timers tt) (timer_id timer) = Some timer \<and> timer_deadline_tick timer \<le> now"
proof -
  have bt: "bt_ok (tt_timers tt)" using assms(1) by (simp add: timers_ok_def)
  show member: "timer \<in> set (due_timers tt now) \<longleftrightarrow> bt_get (tt_timers tt) (timer_id timer) = Some timer
      \<and> timer_deadline_tick timer \<le> now" for timer
    unfolding due_timers_def using assms(1) bt_values_iff [OF bt, of timer] by (auto simp: timers_ok_def)
  then show "\<forall>timer\<in>set (due_timers tt now). timer_ok timer \<and> timer_deadline_tick timer \<le> now"
    using assms(1) by (auto simp: timers_ok_def)
  have "map timer_id (bt_values (tt_timers tt)) = map fst (tt_timers tt)"
    using assms(1) bt by (auto simp: bt_values_def timers_ok_def bt_in_get)
  then have "distinct (map timer_id (bt_values (tt_timers tt)))"
    using bt_ok_distinct [OF bt] by simp
  then show "distinct (map timer_id (due_timers tt now))"
    unfolding due_timers_def by (rule distinct_map_filter)
qed

lemma settled_keeps:
  assumes "timer_ok timer" "settled t now timer = Some timer'"
  shows "timer_id timer' = timer_id timer" "timer_ok timer'" "now < timer_deadline_tick timer'"
proof -
  have "timer_id timer' = timer_id timer \<and> timer_ok timer' \<and> now < timer_deadline_tick timer'"
  proof (cases "now < timer_deadline_tick timer")
    case True
    then show ?thesis using assms by (simp add: settled_def)
  next
    case False
    then obtain interval nxt where n: "timer_interval_ticks timer = Some interval" "nxt < 2 ^ 64"
        "nxt = next_deadline (unat (timer_deadline_tick timer)) (unat interval) (unat now)"
        "timer' = timer\<lparr> timer_deadline_tick := of_nat nxt \<rparr>"
      using assms(2) by (auto simp: settled_def rearmed_def Let_def split: option.splits if_splits)
    have "0 < unat interval" using assms(1) n(1) by (auto simp: timer_ok_def unat_gt_0)
    then have "unat now < nxt" unfolding n(3) by (rule next_deadline_after)
    moreover have "unat (of_nat nxt :: u64) = nxt" using n(2) by (simp add: unat_of_nat)
    ultimately show ?thesis
      using assms(1) n by (simp add: word_less_nat_alt timer_ok_def)
  qed
  then show "timer_id timer' = timer_id timer" "timer_ok timer'" "now < timer_deadline_tick timer'" by simp_all
qed

text \<open>The accepted advance: the events, the table and the processes it leaves.\<close>

lemma advance_law:
  assumes ok: "timers_ok tt" "pt_ok Q contents capacity t" "sched_ok s"
    and clock: "\<And>previous. tt_last_clock_tick tt = Some previous \<Longrightarrow> previous \<le> now"
  obtains tt' s' t' where "advance_clock now (tt, (s, t)) = (Ok (map (due_event t now) (due_timers tt now)), (tt', (s', t')))"
    "timers_ok tt'" "\<And>k. bt_get (tt_timers tt') k = Option.bind (bt_get (tt_timers tt) k) (settled t now)"
    "tt_last_clock_tick tt' = Some now" "tt_next_timer_id tt' = tt_next_timer_id tt"
    "tm_ordering_trace (tt_metrics tt') = tm_ordering_trace (tt_metrics tt) @ map timer_id (due_timers tt now)"
    "pt_ok Q contents capacity t'" "sched_ok s'"
    "pt_get t' = woken_by (receivers (due_timers tt now)) (pt_get t)"
    "set (sched_queued s') = set (sched_queued s) \<union> roused (receivers (due_timers tt now)) (pt_get t)"
proof -
  let ?due = "due_timers tt now" and ?tt = "tt\<lparr> tt_last_clock_tick := Some now \<rparr>"
  note due = due_timers_law [OF ok(1), where now = now]
  have bt: "bt_ok (tt_timers ?tt)" using ok(1) by (simp add: timers_ok_def)
  obtain m s' t' where run: "fire_timers now ?due (?tt, (s, t)) = (Ok (map (due_event t now) ?due), (?tt\<lparr> tt_timers := m \<rparr>, (s', t')))"
      "bt_ok m" "\<forall>timer\<in>set ?due. bt_get m (timer_id timer) = settled t now timer"
      "\<forall>k. k \<notin> timer_id ` set ?due \<longrightarrow> bt_get m k = bt_get (tt_timers ?tt) k"
      "pt_ok Q contents capacity t'" "sched_ok s'" "pt_get t' = woken_by (receivers ?due) (pt_get t)"
      "set (sched_queued s') = set (sched_queued s) \<union> roused (receivers ?due) (pt_get t)"
    using fire_timers_law [OF ok(2,3) bt due(1,2)] by blast
  define tt' where "tt' = record_events (map (due_event t now) ?due) (?tt\<lparr> tt_timers := m \<rparr>)"
  have "advance_clock now (tt, (s, t)) = advance_accepted now (tt, (s, t))"
    using clock by (auto simp: advance_clock_def not_less split: option.split)
  then have adv: "advance_clock now (tt, (s, t)) = (Ok (map (due_event t now) ?due), (tt', (s', t')))"
    using run(1) by (simp add: advance_accepted_def due_timers_def bind_st_def tt'_def)
  have get: "bt_get (tt_timers tt') k = Option.bind (bt_get (tt_timers tt) k) (settled t now)" for k
  proof (cases "k \<in> timer_id ` set ?due")
    case True
    then show ?thesis using run(3) due(3) by (auto simp: tt'_def record_events_law)
  next
    case False
    then have "bt_get m k = bt_get (tt_timers tt) k" using run(4) by simp
    moreover have "settled t now timer = Some timer" if "bt_get (tt_timers tt) k = Some timer" for timer
    proof -
      have "timer_id timer = k" using ok(1) that by (simp add: timers_ok_def)
      then have "\<not> timer_deadline_tick timer \<le> now" using False due(3) that by blast
      then show ?thesis by (auto simp: settled_def)
    qed
    ultimately show ?thesis by (cases "bt_get (tt_timers tt) k") (simp_all add: tt'_def record_events_law)
  qed
  have tok: "timers_ok tt'"
    unfolding timers_ok_def
  proof (intro conjI allI impI)
    show "bt_ok (tt_timers tt')" by (simp add: tt'_def record_events_law run(2))
    fix k timer'
    assume "bt_get (tt_timers tt') k = Some timer'"
    then obtain timer where t: "bt_get (tt_timers tt) k = Some timer" "settled t now timer = Some timer'"
      unfolding get by (auto simp: bind_eq_Some_conv)
    then have "timer_ok timer" "timer_id timer = k" using ok(1) by (simp_all add: timers_ok_def)
    with settled_keeps [OF this(1) t(2)] show "timer_id timer' = k" "timer_ok timer'" by simp_all
  qed
  have comp: "event_timer_id \<circ> due_event t now = timer_id" by (rule ext) simp
  show ?thesis
    by (rule that [OF adv tok get])
      (use run(5-8) in \<open>simp_all add: tt'_def record_events_law comp\<close>)
qed

end
