(* ===== verification/Timer_Properties.thy ===== *)
theory Timer_Properties
  imports Timer_Laws
begin

text \<open>
  The properties of the timers: a clock advance causes exactly the events due and leaves
  no due timer, the deadlines do not depend on how often the clock is observed, a receive
  timeout wakes its process, a clock that moves back is refused, and the timers of an
  actor move to another table unchanged.
\<close>

section \<open>Advancing the clock\<close>

text \<open>C10: an accepted clock advance causes exactly one event for each due timer, in the order of
  the timers, and leaves no due timer: intervals of live owners move to the least deadline of
  their grid after the observed tick or are dropped with an overflow event when that deadline
  does not fit a tick, every other due timer is gone, and the timers not due are untouched.\<close>

theorem advance_serves_due:
  assumes "timers_ok tt" "pt_ok Q contents capacity t" "sched_ok s"
    and "\<forall>previous. tt_last_clock_tick tt = Some previous \<longrightarrow> previous \<le> now"
  shows "\<exists>tt' s' t'. advance_clock now (tt, (s, t)) = (Ok (map (due_event t now) (due_timers tt now)), (tt', (s', t')))
    \<and> timers_ok tt' \<and> due_timers tt' now = [] \<and> current_tick tt' = now
    \<and> tm_ordering_trace (tt_metrics tt') = tm_ordering_trace (tt_metrics tt) @ map timer_id (due_timers tt now)
    \<and> (\<forall>k. bt_get (tt_timers tt') k = Option.bind (bt_get (tt_timers tt) k) (settled t now))"
proof -
  obtain tt' s' t' where adv: "advance_clock now (tt, (s, t)) = (Ok (map (due_event t now) (due_timers tt now)), (tt', (s', t')))"
    "timers_ok tt'" "\<And>k. bt_get (tt_timers tt') k = Option.bind (bt_get (tt_timers tt) k) (settled t now)"
    "tt_last_clock_tick tt' = Some now"
    "tm_ordering_trace (tt_metrics tt') = tm_ordering_trace (tt_metrics tt) @ map timer_id (due_timers tt now)"
    by (rule advance_law [OF assms(1-3) assms(4) [rule_format]]) ((assumption | (rule that; assumption))+)
  have "timer \<notin> set (due_timers tt' now)" for timer
  proof
    assume "timer \<in> set (due_timers tt' now)"
    then have due: "bt_get (tt_timers tt') (timer_id timer) = Some timer" "timer_deadline_tick timer \<le> now"
      using due_timers_law(3) [OF adv(2)] by auto
    then obtain before where "bt_get (tt_timers tt) (timer_id timer) = Some before" "settled t now before = Some timer"
      unfolding adv(3) by (auto simp: bind_eq_Some_conv)
    with settled_keeps(3) [of before t now timer] assms(1) due(2) show False
      by (auto simp: timers_ok_def)
  qed
  then have "due_timers tt' now = []" by (cases "due_timers tt' now") auto
  with adv show ?thesis by (auto simp: current_tick_def)
qed

lemma settled_twice:
  assumes "timer_ok timer" "a \<le> b"
  shows "Option.bind (settled t a timer) (settled t b) = settled t b timer"
proof (cases "a < timer_deadline_tick timer \<or> timer_owner_exited t (timer_owner timer) \<or> timer_interval_ticks timer = None")
  case True
  then show ?thesis using assms(2) by (auto simp: settled_def rearmed_def)
next
  case False
  then obtain i where i: "timer_interval_ticks timer = Some i" "\<not> timer_owner_exited t (timer_owner timer)"
      "\<not> a < timer_deadline_tick timer" by auto
  have pos: "0 < unat i" using assms(1) i(1) by (auto simp: timer_ok_def unat_gt_0)
  let ?d = "unat (timer_deadline_tick timer)"
  let ?a = "next_deadline ?d (unat i) (unat a)" and ?b = "next_deadline ?d (unat i) (unat b)"
  have le: "unat a \<le> unat b" using assms(2) by (simp add: word_le_nat_alt)
  have mono: "?a \<le> ?b" by (rule next_deadline_mono [OF pos le])
  have b: "settled t b timer = (if ?b < 2 ^ 64 then Some (timer\<lparr> timer_deadline_tick := of_nat ?b \<rparr>) else None)"
    using i assms(2) by (auto simp: settled_def rearmed_def Let_def)
  show ?thesis
  proof (cases "?a < 2 ^ 64")
    case False
    then have "settled t a timer = None" using i by (simp add: settled_def rearmed_def Let_def)
    then show ?thesis using False mono b by simp
  next
    case True
    let ?t = "timer\<lparr> timer_deadline_tick := of_nat ?a \<rparr>"
    have a: "settled t a timer = Some ?t" using i True by (simp add: settled_def rearmed_def Let_def)
    have n: "unat (of_nat ?a :: u64) = ?a" using True by (simp add: unat_of_nat)
    have twice: "next_deadline ?a (unat i) (unat b) = ?b" by (rule next_deadline_twice [OF pos le])
    have "settled t b ?t = settled t b timer"
    proof (cases "b < of_nat ?a")
      case True
      then have "?b = ?a" using twice n by (simp add: next_deadline_eq [OF pos] word_less_nat_alt)
      then show ?thesis using True \<open>?a < 2 ^ 64\<close> b by (simp add: settled_def)
    next
      case False
      then show ?thesis using i n twice b by (simp add: settled_def rearmed_def Let_def)
    qed
    then show ?thesis by (simp add: a)
  qed
qed

text \<open>C35: how often the clock is observed does not matter for what is left: advancing to one tick
  and then to a later one leaves the same timers with the same deadlines as advancing to the
  later one directly.\<close>

theorem observations_compose:
  assumes "timers_ok tt" "pt_ok Q contents capacity t" "sched_ok s"
    and "\<forall>previous. tt_last_clock_tick tt = Some previous \<longrightarrow> previous \<le> a" "a \<le> b"
  shows "\<exists>e1 tt1 w1 e2 tt2 w2 e3 tt3 w3. advance_clock a (tt, (s, t)) = (Ok e1, (tt1, w1))
    \<and> advance_clock b (tt1, w1) = (Ok e2, (tt2, w2)) \<and> advance_clock b (tt, (s, t)) = (Ok e3, (tt3, w3))
    \<and> tt_timers tt2 = tt_timers tt3 \<and> current_tick tt2 = current_tick tt3"
proof -
  obtain tt1 s1 t1 where one: "advance_clock a (tt, (s, t)) = (Ok (map (due_event t a) (due_timers tt a)), (tt1, (s1, t1)))"
    "timers_ok tt1" "\<And>k. bt_get (tt_timers tt1) k = Option.bind (bt_get (tt_timers tt) k) (settled t a)"
    "tt_last_clock_tick tt1 = Some a" "pt_ok Q contents capacity t1" "sched_ok s1"
    "pt_get t1 = woken_by (receivers (due_timers tt a)) (pt_get t)"
    by (rule advance_law [OF assms(1-3) assms(4) [rule_format]]) ((assumption | (rule that; assumption))+)
  have b: "\<And>previous. tt_last_clock_tick tt1 = Some previous \<Longrightarrow> previous \<le> b"
      "\<And>previous. tt_last_clock_tick tt = Some previous \<Longrightarrow> previous \<le> b"
    using one(4) assms(4,5) by auto
  obtain tt2 s2 t2 where two: "advance_clock b (tt1, (s1, t1)) = (Ok (map (due_event t1 b) (due_timers tt1 b)), (tt2, (s2, t2)))"
    "timers_ok tt2" "\<And>k. bt_get (tt_timers tt2) k = Option.bind (bt_get (tt_timers tt1) k) (settled t1 b)"
    "tt_last_clock_tick tt2 = Some b"
    by (rule advance_law [OF one(2,5,6) b(1)]) ((assumption | (rule that; assumption))+)
  obtain tt3 s3 t3 where three: "advance_clock b (tt, (s, t)) = (Ok (map (due_event t b) (due_timers tt b)), (tt3, (s3, t3)))"
    "timers_ok tt3" "\<And>k. bt_get (tt_timers tt3) k = Option.bind (bt_get (tt_timers tt) k) (settled t b)"
    "tt_last_clock_tick tt3 = Some b"
    by (rule advance_law [OF assms(1-3) b(2)]) ((assumption | (rule that; assumption))+)
  have same: "settled t1 = settled t" by (rule settled_woken(1) [OF timer_owner_exited_woken [OF one(7)]])
  have "bt_get (tt_timers tt2) k = bt_get (tt_timers tt3) k" for k
    unfolding two(3) three(3) one(3) same using assms(1) settled_twice [OF _ assms(5), of _ t]
    by (cases "bt_get (tt_timers tt) k") (auto simp: timers_ok_def)
  then have "tt_timers tt2 = tt_timers tt3"
    using two(2) three(2) by (intro bt_ext) (simp_all add: timers_ok_def)
  with one(1) two(1,4) three(1,4) show ?thesis by (auto simp: current_tick_def)
qed

text \<open>a clock observation before the last accepted one is refused: no event, no timer, process
  or queue changes, and the refusal is recorded with both ticks.\<close>

theorem backward_clock_refused:
  assumes "tt_last_clock_tick tt = Some previous" "now < previous"
  shows "\<exists>tt'. advance_clock now (tt, w) = (Ok [], (tt', w)) \<and> tt_timers tt' = tt_timers tt
    \<and> current_tick tt' = previous \<and> tt_next_timer_id tt' = tt_next_timer_id tt
    \<and> map drift_observed_tick (tm_clock_drift_rejections (tt_metrics tt'))
      = map drift_observed_tick (tm_clock_drift_rejections (tt_metrics tt)) @ [now]
    \<and> tm_ordering_trace (tt_metrics tt') = tm_ordering_trace (tt_metrics tt)"
  using assms by (simp add: advance_clock_def current_tick_def)

section \<open>Receive timeouts\<close>

lemma insert_timer_law:
  assumes "timers_ok tt" "insert_timer owner deadline kind interval tt = (i, tt')"
    and "kind = Interval \<longleftrightarrow> interval \<noteq> None" "interval \<noteq> Some 0"
  shows "timers_ok tt'" "i = saturating_add (tt_next_timer_id tt) 1" "tt_next_timer_id tt' = i"
    "bt_get (tt_timers tt') = (bt_get (tt_timers tt))(i \<mapsto> \<lparr> timer_id = i, timer_owner = owner,
       timer_deadline_tick = deadline, timer_kind = kind, timer_interval_ticks = interval \<rparr>)"
    "tt_last_clock_tick tt' = tt_last_clock_tick tt"
proof -
  let ?timer = "\<lparr> timer_id = i, timer_owner = owner, timer_deadline_tick = deadline,
      timer_kind = kind, timer_interval_ticks = interval \<rparr>"
  show view: "i = saturating_add (tt_next_timer_id tt) 1" "tt_next_timer_id tt' = i"
    "bt_get (tt_timers tt') = (bt_get (tt_timers tt))(i \<mapsto> ?timer)"
    "tt_last_clock_tick tt' = tt_last_clock_tick tt"
    using assms(2) by (auto simp: insert_timer_def Let_def)
  have "bt_ok (tt_timers tt')"
    using assms(1,2) by (auto simp: insert_timer_def Let_def timers_ok_def)
  moreover have "timer_ok ?timer" using assms(3,4) by (simp add: timer_ok_def)
  ultimately show "timers_ok tt'" using assms(1) by (auto simp: timers_ok_def view(3))
qed

lemma start_receive_law:
  assumes ok: "timers_ok tt" "pt_ok Q contents capacity t" and p: "pt_get t owner = Some p" "\<not> is_exited (proc_state p)"
    and start: "start_receive_timeout owner now ticks (tt, t) = (Ok i, (tt', t'))"
  shows "timers_ok tt'" "pt_ok Q contents capacity t'" "pt_get t' = (pt_get t)(owner \<mapsto> proc_block p)"
    "bt_get (tt_timers tt') = (bt_get (tt_timers tt))(i \<mapsto> \<lparr> timer_id = i, timer_owner = owner,
       timer_deadline_tick = now + ticks, timer_kind = ReceiveTimeout, timer_interval_ticks = None \<rparr>)"
    "tt_last_clock_tick tt' = tt_last_clock_tick tt" "unat (now + ticks) = unat now + unat ticks"
proof -
  let ?f = "\<lambda>process. (Ok () :: (vm_error, unit) outcome, proc_block process)"
  have block: "proc_pid (proc_block p) = owner" "proc_ok (proc_block p)"
      "is_exited (proc_state (proc_block p)) = is_exited (proc_state p)"
    using pt_get_facts [OF ok(2) p(1)] by (simp_all add: proc_block_def proc_ok_def)
  obtain t1 where t1: "with_process_control_mutator owner ?f t = (Ok (), t1)"
      "pt_ok Q contents capacity t1" "pt_get t1 = (pt_get t)(owner \<mapsto> proc_block p)"
    using with_control_law [where mutate = ?f, OF ok(2) p(1) refl _ block] by auto
  have live: "require_live_process t owner = Ok ()"
    using p by (simp add: require_live_process_def ok_or_def)
  have sum: "checked_add now ticks = Some (now + ticks)"
    using start live by (auto simp: start_receive_timeout_def checked_add_Some split: option.splits)
  have ins: "insert_timer owner (now + ticks) ReceiveTimeout None tt = (i, tt')" "t' = t1"
    using start live sum t1(1)
    by (auto simp: start_receive_timeout_def expect_st_def expect_def split: prod.splits)
  note law = insert_timer_law [OF ok(1) ins(1)]
  show "timers_ok tt'" "pt_ok Q contents capacity t'" "pt_get t' = (pt_get t)(owner \<mapsto> proc_block p)"
    "bt_get (tt_timers tt') = (bt_get (tt_timers tt))(i \<mapsto> \<lparr> timer_id = i, timer_owner = owner,
       timer_deadline_tick = now + ticks, timer_kind = ReceiveTimeout, timer_interval_ticks = None \<rparr>)"
    "tt_last_clock_tick tt' = tt_last_clock_tick tt"
    using law t1 ins(2) by simp_all
  show "unat (now + ticks) = unat now + unat ticks" using checked_add_unat [OF sum] .
qed

lemma start_receive_ok:
  assumes ok: "pt_ok Q contents capacity t" and p: "pt_get t owner = Some p" "\<not> is_exited (proc_state p)"
    and sum: "checked_add now ticks = Some deadline"
  obtains tt' t' where "start_receive_timeout owner now ticks (tt, t)
    = (Ok (saturating_add (tt_next_timer_id tt) 1), (tt', t'))"
proof -
  let ?f = "\<lambda>process. (Ok () :: (vm_error, unit) outcome, proc_block process)"
  have block: "proc_pid (proc_block p) = owner" "proc_ok (proc_block p)"
      "is_exited (proc_state (proc_block p)) = is_exited (proc_state p)"
    using pt_get_facts [OF ok p(1)] by (simp_all add: proc_block_def proc_ok_def)
  obtain t1 where "with_process_control_mutator owner ?f t = (Ok (), t1)"
    using with_control_law [where mutate = ?f, OF ok p(1) refl _ block] by auto
  with p sum that show ?thesis
    by (simp add: start_receive_timeout_def require_live_process_def ok_or_def expect_st_def expect_def
        insert_timer_def Let_def)
qed

text \<open>a receive with a timeout parks its process until the deadline: starting it blocks the
  running process and arms one timer; an observation of the clock at or after the deadline
  makes the process runnable again exactly as it was, queues it, reports the timer and drops
  it, and an observation before the deadline leaves the timer armed.\<close>

theorem receive_timeout_wakes:
  assumes "timers_ok tt" "pt_ok Q contents capacity t" "sched_ok s" "pt_get t owner = Some p" "proc_state p = Runnable"
    and "start_receive_timeout owner now ticks (tt, t) = (Ok i, (tt', t'))"
    and "\<forall>previous. tt_last_clock_tick tt = Some previous \<longrightarrow> previous \<le> tick"
  shows "pt_get t' owner = Some (p\<lparr> proc_state := Blocked \<rparr>)
    \<and> (\<exists>events tt2 s2 t2. advance_clock tick (tt', (s, t')) = (Ok events, (tt2, (s2, t2)))
        \<and> (if unat now + unat ticks \<le> unat tick
            then pt_get t2 owner = Some p \<and> owner \<in> set (sched_queued s2)
              \<and> i \<in> event_timer_id ` set events \<and> bt_get (tt_timers tt2) i = None
            else i \<notin> event_timer_id ` set events \<and> bt_get (tt_timers tt2) i = bt_get (tt_timers tt') i))"
proof -
  have live: "\<not> is_exited (proc_state p)" using assms(5) by simp
  note start = start_receive_law [OF assms(1,2,4) live assms(6)]
  let ?timer = "\<lparr> timer_id = i, timer_owner = owner, timer_deadline_tick = now + ticks,
      timer_kind = ReceiveTimeout, timer_interval_ticks = None \<rparr>"
  have armed: "bt_get (tt_timers tt') i = Some ?timer" by (simp add: start(4))
  have blocked: "pt_get t' owner = Some (p\<lparr> proc_state := Blocked \<rparr>)"
    using assms(5) by (simp add: start(3) proc_block_def)
  have clock: "\<And>previous. tt_last_clock_tick tt' = Some previous \<Longrightarrow> previous \<le> tick"
    using assms(7) by (simp add: start(5))
  obtain tt2 s2 t2 where adv: "advance_clock tick (tt', (s, t')) = (Ok (map (due_event t' tick) (due_timers tt' tick)), (tt2, (s2, t2)))"
    "\<And>k. bt_get (tt_timers tt2) k = Option.bind (bt_get (tt_timers tt') k) (settled t' tick)"
    "pt_get t2 = woken_by (receivers (due_timers tt' tick)) (pt_get t')"
    "set (sched_queued s2) = set (sched_queued s) \<union> roused (receivers (due_timers tt' tick)) (pt_get t')"
    by (rule advance_law [OF start(1,2) assms(3) clock]) ((assumption | (rule that; assumption))+)
  note member = due_timers_law(3) [OF start(1), of _ tick]
  have ids: "event_timer_id ` set (map (due_event t' tick) (due_timers tt' tick)) = timer_id ` set (due_timers tt' tick)"
    by (simp add: image_image)
  have due_i: "i \<in> timer_id ` set (due_timers tt' tick) \<longleftrightarrow> now + ticks \<le> tick"
  proof
    assume "i \<in> timer_id ` set (due_timers tt' tick)"
    then obtain timer where "timer_id timer = i" "timer \<in> set (due_timers tt' tick)" by blast
    then have timer: "timer = ?timer" "timer_deadline_tick timer \<le> tick"
      using member [of timer] armed by simp_all
    then show "now + ticks \<le> tick" by (cases timer) simp
  next
    assume "now + ticks \<le> tick"
    then have "?timer \<in> set (due_timers tt' tick)" using member [of ?timer] armed by simp
    then have "timer_id ?timer \<in> timer_id ` set (due_timers tt' tick)" by (rule imageI)
    then show "i \<in> timer_id ` set (due_timers tt' tick)" by simp
  qed
  have due: "now + ticks \<le> tick \<longleftrightarrow> unat now + unat ticks \<le> unat tick"
    by (simp add: word_le_nat_alt start(6))
  show ?thesis
  proof (cases "now + ticks \<le> tick")
    case True
    then have "?timer \<in> set (due_timers tt' tick)" using member [of ?timer] armed by simp
    then have rec: "owner \<in> receivers (due_timers tt' tick)" by (force simp: receivers_def)
    have "proc_wake (p\<lparr> proc_state := Blocked \<rparr>) = p"
      using assms(5) by (cases p) (simp add: proc_wake_def)
    then have "pt_get t2 owner = Some p" using rec blocked by (simp add: adv(3) woken_by_def)
    moreover have "owner \<in> set (sched_queued s2)" using rec blocked by (simp add: adv(4) roused_def)
    moreover have "bt_get (tt_timers tt2) i = None"
      using True by (simp add: adv(2) armed settled_def rearmed_def)
    ultimately show ?thesis using blocked adv(1) ids due_i due True by auto
  next
    case False
    then have "tick < now + ticks" by simp
    then have "bt_get (tt_timers tt2) i = bt_get (tt_timers tt') i"
      by (simp add: adv(2) armed settled_def)
    then show ?thesis using blocked adv(1) ids due_i due False by auto
  qed
qed

section \<open>Moving the timers of an actor\<close>

definition owned :: "VmTimerTable \<Rightarrow> VmProcessId \<Rightarrow> (VmTimerId, VmTimer) btree" where
  "owned tt owner = filter (\<lambda>e. timer_owner (snd e) = owner) (tt_timers tt)"

lemma take_timers_law:
  assumes "\<forall>k\<in>set ks. bt_get (tt_timers tt) k \<noteq> None" "distinct ks"
  shows "take_timers ks tt = (Ok (map (\<lambda>k. the (bt_get (tt_timers tt) k)) ks),
    tt\<lparr> tt_timers := bt_remove_all ks (tt_timers tt) \<rparr>)"
  using assms
proof (induction ks arbitrary: tt)
  case (Cons k ks)
  let ?tt = "tt\<lparr> tt_timers := bt_remove k (tt_timers tt) \<rparr>"
  have same: "map (\<lambda>i. the (bt_get (tt_timers ?tt) i)) ks = map (\<lambda>i. the (bt_get (tt_timers tt) i)) ks"
    using Cons.prems(2) by auto
  have "take_timers ks ?tt = (Ok (map (\<lambda>i. the (bt_get (tt_timers ?tt) i)) ks),
      ?tt\<lparr> tt_timers := bt_remove_all ks (tt_timers ?tt) \<rparr>)"
    by (rule Cons.IH) (use Cons.prems in auto)
  then show ?case
    unfolding same using Cons.prems(1) by (auto simp: bind_st_def return_st_def)
qed simp

lemma detach_timers_law:
  assumes ok: "timers_ok tt"
  shows "detach_owner_timer_state owner tt = (Ok \<lparr> tx_owner = owner, tx_timers = map snd (owned tt owner),
      tx_identity_watermark = tt_next_timer_id tt, tx_observed_tick = tt_last_clock_tick tt \<rparr>,
    tt\<lparr> tt_timers := bt_retain (\<lambda>k timer. timer_owner timer \<noteq> owner) (tt_timers tt) \<rparr>)"
proof -
  have bt: "bt_ok (tt_timers tt)" using ok by (simp add: timers_ok_def)
  let ?ks = "map fst (owned tt owner)"
  have get: "bt_get (tt_timers tt) (fst e) = Some (snd e)" if "e \<in> set (owned tt owner)" for e
    using that bt_in_get [OF bt, of "fst e" "snd e"] by (simp add: owned_def)
  have "distinct ?ks" unfolding owned_def by (rule distinct_map_filter [OF bt_ok_distinct [OF bt]])
  moreover have "\<forall>k\<in>set ?ks. bt_get (tt_timers tt) k \<noteq> None" using get by auto
  moreover have "map (\<lambda>k. the (bt_get (tt_timers tt) k)) ?ks = map snd (owned tt owner)"
    using get by simp
  ultimately have "take_timers ?ks tt = (Ok (map snd (owned tt owner)),
      tt\<lparr> tt_timers := bt_remove_all ?ks (tt_timers tt) \<rparr>)"
    using take_timers_law by metis
  moreover have "bt_remove_all ?ks (tt_timers tt) = bt_retain (\<lambda>k timer. timer_owner timer \<noteq> owner) (tt_timers tt)"
    unfolding owned_def using bt_remove_all_retain [OF bt, of "\<lambda>k timer. timer_owner timer = owner"] by simp
  ultimately show ?thesis
    by (simp add: detach_owner_timer_state_def owned_def bind_st_def)
qed

lemma check_transfer_timers_Ok:
  "check_transfer_timers tt owner timers = Ok () \<longleftrightarrow>
     (\<forall>timer\<in>set timers. timer_owner timer = owner \<and> bt_get (tt_timers tt) (timer_id timer) = None)"
  by (induction timers) (auto simp: bt_contains_def)

lemma check_transfer_timers_total: "\<exists>e. check_transfer_timers tt owner timers \<in> {Ok (), Err e}"
  by (induction timers) auto

lemma fold_insert_timers:
  assumes "distinct (map timer_id timers)"
  shows "bt_get (fold (\<lambda>timer. bt_insert (timer_id timer) timer) timers m) k
    = (case find (\<lambda>timer. timer_id timer = k) timers of Some timer \<Rightarrow> Some timer | None \<Rightarrow> bt_get m k)"
  using assms
proof (induction timers arbitrary: m)
  case (Cons a timers)
  show ?case
  proof (cases "timer_id a = k")
    case True
    then have "find (\<lambda>timer. timer_id timer = k) timers = None"
      using Cons.prems by (simp add: find_None_iff) (metis image_eqI)
    then show ?thesis using Cons True by simp
  qed (use Cons in \<open>simp split: option.split\<close>)
qed simp

lemma bt_ok_fold_timers: "bt_ok m \<Longrightarrow> bt_ok (fold (\<lambda>timer. bt_insert (timer_id timer) timer) timers m)"
  by (induction timers arbitrary: m) simp_all

lemma owned_ids:
  assumes "timers_ok tt"
  shows "map timer_id (map snd (owned tt owner)) = map fst (owned tt owner)"
    "find (\<lambda>timer. timer_id timer = k) (map snd (owned tt owner))
      = (case bt_get (tt_timers tt) k of Some timer \<Rightarrow> if timer_owner timer = owner then Some timer else None
         | None \<Rightarrow> None)"
proof -
  have bt: "bt_ok (tt_timers tt)" using assms by (simp add: timers_ok_def)
  have id: "timer_id (snd e) = fst e" if "e \<in> set (tt_timers tt)" for e
    using that assms bt_in_get [OF bt, of "fst e" "snd e"] by (simp add: timers_ok_def)
  then show ids: "map timer_id (map snd (owned tt owner)) = map fst (owned tt owner)"
    by (auto simp: owned_def)
  have find: "find (\<lambda>timer. timer_id timer = k) (map snd m) = bt_get m k"
    if "\<forall>e\<in>set m. timer_id (snd e) = fst e" for m
    using that by (induction m) (auto simp: bt_get_def)
  have "find (\<lambda>timer. timer_id timer = k) (map snd (owned tt owner)) = bt_get (owned tt owner) k"
    by (rule find) (simp add: owned_def id)
  moreover have "owned tt owner = bt_retain (\<lambda>k timer. timer_owner timer = owner) (tt_timers tt)"
    by (simp add: owned_def bt_retain_def)
  ultimately show "find (\<lambda>timer. timer_id timer = k) (map snd (owned tt owner))
      = (case bt_get (tt_timers tt) k of Some timer \<Rightarrow> if timer_owner timer = owner then Some timer else None
         | None \<Rightarrow> None)"
    using bt_get_retain [OF bt] by simp
qed

text \<open>Importing what was detached from \<open>tt\<close> into a table with room for it.\<close>

definition detached :: "VmTimerTable \<Rightarrow> VmProcessId \<Rightarrow> VmTimerTransfer" where
  "detached tt owner = \<lparr> tx_owner = owner, tx_timers = map snd (owned tt owner),
     tx_identity_watermark = tt_next_timer_id tt, tx_observed_tick = tt_last_clock_tick tt \<rparr>"

lemma import_detached_law:
  assumes ok: "timers_ok tt" "timers_ok d" and owner: "owner \<noteq> 0"
    and clock: "tt_last_clock_tick d = None \<or> tt_last_clock_tick d = Some (current_tick tt)"
    and room: "\<And>k timer. bt_get (tt_timers tt) k = Some timer \<Longrightarrow> timer_owner timer = owner
      \<Longrightarrow> bt_get (tt_timers d) k = None"
  obtains d' where "import_timer_transfer (detached tt owner) d = (Ok (), d')" "timers_ok d'"
    "\<And>k. bt_get (tt_timers d') k = (case bt_get (tt_timers tt) k of
        Some timer \<Rightarrow> if timer_owner timer = owner then Some timer else bt_get (tt_timers d) k
      | None \<Rightarrow> bt_get (tt_timers d) k)"
    "tt_next_timer_id d' = max (tt_next_timer_id d) (tt_next_timer_id tt)"
proof -
  let ?timers = "map snd (owned tt owner)"
  have bt: "bt_ok (tt_timers tt)" using ok(1) by (simp add: timers_ok_def)
  note ids = owned_ids [OF ok(1), where owner = owner]
  have entry: "bt_get (tt_timers tt) (timer_id timer) = Some timer \<and> timer_owner timer = owner"
    if "timer \<in> set ?timers" for timer
    using that ok(1) bt_in_get [OF bt] by (auto simp: owned_def timers_ok_def)
  have check: "check_transfer_timers d owner ?timers = Ok ()"
    unfolding check_transfer_timers_Ok using entry room by blast
  have valid: "validate_timer_import d (detached tt owner) = Ok ()"
    using owner clock check
    by (auto simp: validate_timer_import_def detached_def current_tick_def Let_def split: option.splits)
  define m where "m = fold (\<lambda>timer. bt_insert (timer_id timer) timer) ?timers (tt_timers d)"
  obtain d' where d': "import_timer_transfer (detached tt owner) d = (Ok (), d')" "tt_timers d' = m"
      "tt_next_timer_id d' = max (tt_next_timer_id d) (tt_next_timer_id tt)"
    using valid by (simp add: import_timer_transfer_def detached_def m_def Let_def)
  have "distinct (map fst (owned tt owner))"
    unfolding owned_def by (rule distinct_map_filter [OF bt_ok_distinct [OF bt]])
  then have distinct: "distinct (map timer_id ?timers)" by (simp only: ids(1))
  have get: "bt_get m k = (case bt_get (tt_timers tt) k of
      Some timer \<Rightarrow> if timer_owner timer = owner then Some timer else bt_get (tt_timers d) k
    | None \<Rightarrow> bt_get (tt_timers d) k)" for k
    unfolding m_def fold_insert_timers [OF distinct] ids(2) by (simp split: option.split)
  have mok: "bt_ok m" using ok(2) by (simp add: m_def bt_ok_fold_timers timers_ok_def)
  have "timers_ok d'"
    using ok mok by (auto simp: timers_ok_def d'(2) get split: option.splits if_splits)
  then show ?thesis using that [OF d'(1) _ _ d'(3)] get d'(2) by simp
qed

text \<open>the timers of an actor move to another table of the same clock with their identities,
  deadlines and intervals, leave the source and nothing else, and no later timer of the
  destination can get one of their identities; putting them back into the source instead
  restores it.\<close>

theorem timers_move_whole:
  assumes "timers_ok tt" "timers_ok d" "owner \<noteq> 0"
    and "tt_last_clock_tick d = None \<or> tt_last_clock_tick d = Some (current_tick tt)"
    and "\<forall>k timer. bt_get (tt_timers tt) k = Some timer \<longrightarrow> timer_owner timer = owner \<longrightarrow> bt_get (tt_timers d) k = None"
  shows "\<exists>transfer tt' d' tr. detach_owner_timer_state owner tt = (Ok transfer, tt')
    \<and> import_timer_transfer transfer d = (Ok (), d') \<and> timers_ok tt' \<and> timers_ok d'
    \<and> (\<forall>k timer. bt_get (tt_timers tt') k = Some timer
         \<longleftrightarrow> bt_get (tt_timers tt) k = Some timer \<and> timer_owner timer \<noteq> owner)
    \<and> (\<forall>k. bt_get (tt_timers d') k = (case bt_get (tt_timers tt) k of
          Some timer \<Rightarrow> if timer_owner timer = owner then Some timer else bt_get (tt_timers d) k
        | None \<Rightarrow> bt_get (tt_timers d) k))
    \<and> tt_next_timer_id tt \<le> tt_next_timer_id d'
    \<and> import_timer_transfer transfer tt' = (Ok (), tr) \<and> tt_timers tr = tt_timers tt"
proof -
  have bt: "bt_ok (tt_timers tt)" using assms(1) by (simp add: timers_ok_def)
  let ?tt' = "tt\<lparr> tt_timers := bt_retain (\<lambda>k timer. timer_owner timer \<noteq> owner) (tt_timers tt) \<rparr>"
  have det: "detach_owner_timer_state owner tt = (Ok (detached tt owner), ?tt')"
    using detach_timers_law [OF assms(1)] by (simp add: detached_def)
  have left: "bt_get (tt_timers ?tt') k = Some timer
      \<longleftrightarrow> bt_get (tt_timers tt) k = Some timer \<and> timer_owner timer \<noteq> owner" for k timer
    by (auto simp: bt_get_retain [OF bt] split: option.splits)
  have ok': "timers_ok ?tt'"
    using assms(1) left by (auto simp: timers_ok_def)
  obtain d' where d': "import_timer_transfer (detached tt owner) d = (Ok (), d')" "timers_ok d'"
    "\<And>k. bt_get (tt_timers d') k = (case bt_get (tt_timers tt) k of
        Some timer \<Rightarrow> if timer_owner timer = owner then Some timer else bt_get (tt_timers d) k
      | None \<Rightarrow> bt_get (tt_timers d) k)"
    "tt_next_timer_id d' = max (tt_next_timer_id d) (tt_next_timer_id tt)"
    using import_detached_law [OF assms(1-4)] assms(5) by blast
  have clock: "tt_last_clock_tick ?tt' = None \<or> tt_last_clock_tick ?tt' = Some (current_tick tt)"
    by (cases "tt_last_clock_tick tt") (simp_all add: current_tick_def)
  have gone: "bt_get (tt_timers ?tt') k = None"
    if "bt_get (tt_timers tt) k = Some timer" "timer_owner timer = owner" for k timer
    using that by (simp add: bt_get_retain [OF bt])
  obtain tr where undo: "import_timer_transfer (detached tt owner) ?tt' = (Ok (), tr)" "timers_ok tr"
    "\<And>k. bt_get (tt_timers tr) k = (case bt_get (tt_timers tt) k of
        Some timer \<Rightarrow> if timer_owner timer = owner then Some timer else bt_get (tt_timers ?tt') k
      | None \<Rightarrow> bt_get (tt_timers ?tt') k)"
    by (rule import_detached_law [OF assms(1) ok' assms(3) clock gone]) ((assumption | (rule that; assumption))+)
  have "tt_timers tr = tt_timers tt"
  proof (rule bt_ext)
    show "bt_ok (tt_timers tr)" using undo(2) by (simp add: timers_ok_def)
    fix k
    show "bt_get (tt_timers tr) k = bt_get (tt_timers tt) k"
      by (simp add: undo(3) bt_get_retain [OF bt] split: option.split)
  qed (rule bt)
  moreover have "tt_next_timer_id tt \<le> tt_next_timer_id d'" by (simp add: d'(4))
  ultimately show ?thesis using det d'(1-3) ok' left undo(1) by blast
qed

section \<open>Instances\<close>

definition sample_timer :: VmTimer where
  "sample_timer = \<lparr> timer_id = 1, timer_owner = 1, timer_deadline_tick = 10, timer_kind = Interval,
     timer_interval_ticks = Some 4 \<rparr>"

definition sample_timers :: VmTimerTable where
  "sample_timers = timer_table_default\<lparr> tt_next_timer_id := 1, tt_timers := [(1, sample_timer)],
     tt_last_clock_tick := Some 5 \<rparr>"

lemma sample_timers_ok: "timers_ok sample_timers" "timers_ok timer_table_default"
  by (auto simp: timers_ok_def sample_timers_def timer_table_default_def bt_ok_def bt_get_Cons
      sample_timer_def timer_ok_def split: if_splits)

lemma sample_timers_get: "bt_get (tt_timers sample_timers) k = (if k = 1 then Some sample_timer else None)"
  by (simp add: sample_timers_def bt_get_Cons)

lemma sample_timers_clock: "tt_last_clock_tick sample_timers = Some 5"
  by (simp add: sample_timers_def)

lemma sample_owner_alive: "timer_owner_exited sample_two 1 = False"
  by (simp add: timer_owner_exited_def sample_two_facts(2) new_process_def)

theorem advance_serves_due_witness:
  "\<exists>tt' s' t'. advance_clock 19 (sample_timers, (sample_scheduler, sample_two))
       = (Ok [Coalesced 1 1 Interval 2 22], (tt', (s', t'))) \<and> due_timers tt' 19 = []"
proof -
  have n: "next_deadline 10 4 19 = 22" by (simp add: next_deadline_eq)
  have due: "due_timers sample_timers 19 = [sample_timer]"
    by (simp add: due_timers_def bt_values_def sample_timers_def sample_timer_def)
  have event: "due_event sample_two 19 sample_timer = Coalesced 1 1 Interval 2 22"
    by (simp add: due_event_def sample_timer_def Let_def sample_owner_alive rearmed_def n)
  from advance_serves_due [OF sample_timers_ok(1) sample_two_facts(1) sample_scheduler_ok, of 19]
  show ?thesis by (auto simp: sample_timers_clock due event)
qed

theorem observations_compose_witness:
  "\<exists>e1 tt1 w1 e2 tt2 w2 e3 tt3 w3. advance_clock 11 (sample_timers, (sample_scheduler, sample_two)) = (Ok e1, (tt1, w1))
    \<and> advance_clock 19 (tt1, w1) = (Ok e2, (tt2, w2))
    \<and> advance_clock 19 (sample_timers, (sample_scheduler, sample_two)) = (Ok e3, (tt3, w3))
    \<and> tt_timers tt2 = tt_timers tt3"
  using observations_compose [OF sample_timers_ok(1) sample_two_facts(1) sample_scheduler_ok, of 11 19]
  by (simp add: sample_timers_clock) blast

theorem backward_clock_refused_witness:
  "\<exists>tt'. advance_clock 4 (sample_timers, (sample_scheduler, sample_two)) = (Ok [], (tt', (sample_scheduler, sample_two)))
     \<and> tt_timers tt' = tt_timers sample_timers"
  using backward_clock_refused [OF sample_timers_clock, of 4] by (simp, blast)

theorem timers_move_whole_witness:
  "\<exists>transfer tt' d'. detach_owner_timer_state 1 sample_timers = (Ok transfer, tt')
     \<and> import_timer_transfer transfer timer_table_default = (Ok (), d')
     \<and> bt_get (tt_timers tt') 1 = None \<and> bt_get (tt_timers d') 1 = Some sample_timer"
proof -
  have owner: "timer_owner sample_timer = 1" by (simp add: sample_timer_def)
  have "tt_last_clock_tick timer_table_default = None" "tt_timers timer_table_default = []"
    by (simp_all add: timer_table_default_def)
  then obtain transfer tt' d' where m: "detach_owner_timer_state 1 sample_timers = (Ok transfer, tt')"
      "import_timer_transfer transfer timer_table_default = (Ok (), d')"
      "\<forall>k timer. bt_get (tt_timers tt') k = Some timer
         \<longleftrightarrow> bt_get (tt_timers sample_timers) k = Some timer \<and> timer_owner timer \<noteq> 1"
      "\<forall>k. bt_get (tt_timers d') k = (case bt_get (tt_timers sample_timers) k of
          Some timer \<Rightarrow> if timer_owner timer = 1 then Some timer else bt_get (tt_timers timer_table_default) k
        | None \<Rightarrow> bt_get (tt_timers timer_table_default) k)"
    using timers_move_whole [OF sample_timers_ok, of 1] by auto
  have "bt_get (tt_timers tt') 1 = None"
    using m(3) owner by (cases "bt_get (tt_timers tt') 1") (auto simp: sample_timers_get)
  with m owner show ?thesis by (auto simp: sample_timers_get)
qed

theorem receive_timeout_wakes_witness:
  "\<exists>tt1 t1 events tt2 s2 t2. start_receive_timeout 1 5 10 (timer_table_default, sample_two) = (Ok 1, (tt1, t1))
     \<and> proc_state (the (pt_get t1 1)) = Blocked
     \<and> advance_clock 15 (tt1, (sample_scheduler, t1)) = (Ok events, (tt2, (s2, t2)))
     \<and> proc_state (the (pt_get t2 1)) = Runnable \<and> 1 \<in> set (sched_queued s2)"
proof -
  have one: "pt_get sample_two 1 = Some (new_process 1 None sample_source)"
    by (simp add: sample_two_facts(2))
  have run: "proc_state (new_process 1 None sample_source) = Runnable"
    by (simp add: new_process_def)
  have sum: "checked_add 5 10 = Some (15 :: u64)" and first: "saturating_add 0 1 = (1 :: u64)"
    by (simp_all add: checked_add_def saturating_add_def)
  have table: "tt_next_timer_id timer_table_default = 0" "tt_last_clock_tick timer_table_default = None"
    by (simp_all add: timer_table_default_def)
  obtain tt1 t1 where start: "start_receive_timeout 1 5 10 (timer_table_default, sample_two) = (Ok 1, (tt1, t1))"
    using start_receive_ok [OF sample_two_facts(1) one sample_live sum, of timer_table_default]
    unfolding table first by blast
  from receive_timeout_wakes [OF sample_timers_ok(2) sample_two_facts(1) sample_scheduler_ok one run start, of 15]
  obtain events tt2 s2 t2 where "pt_get t1 1 = Some ((new_process 1 None sample_source)\<lparr> proc_state := Blocked \<rparr>)"
      "advance_clock 15 (tt1, (sample_scheduler, t1)) = (Ok events, (tt2, (s2, t2)))"
      "pt_get t2 1 = Some (new_process 1 None sample_source)" "1 \<in> set (sched_queued s2)"
    by (auto simp: table)
  with start run show ?thesis by auto
qed

end
