(* ===== verification/Work_Stealing.thy ===== *)
theory Work_Stealing
  imports Vm_Scheduler Fixed_Scheduler
begin

text \<open>
  The policy of work stealing between the schedulers of one shard
  (\<open>runtime/vm/work_stealing.rs\<close>): from a snapshot of all run queues each scheduler is told
  to serve its own queues, to steal a bounded batch from a victim, to back off after failed
  attempts, or to sleep. Counts of runnable entries (\<open>usize\<close>) are natural numbers.
\<close>

section \<open>Configuration\<close>

definition CLASS_COUNT :: nat where "CLASS_COUNT = 3"

definition SERVICE_CYCLE :: "VmSchedulerClass list" where
  "SERVICE_CYCLE = [SchedPriority, SchedPriority, SchedNormal, SchedPriority, SchedNormal, SchedBackground]"

definition usize_max :: nat where "usize_max = 2 ^ 64 - 1"

record VmWorkStealingConfig =
  ws_local_service_budget :: u32
  ws_steal_batch_size :: nat
  ws_locality_threshold :: nat
  ws_minimum_backoff_polls :: u32
  ws_maximum_backoff_polls :: u32
  ws_starvation_bounds :: "u64 list"

definition work_stealing_config_new :: "u32 \<Rightarrow> nat \<Rightarrow> nat \<Rightarrow> u32 \<Rightarrow> u32 \<Rightarrow> u64 list
    \<Rightarrow> (vm_error, VmWorkStealingConfig) outcome" where
  "work_stealing_config_new local_service_budget steal_batch_size locality_threshold
     minimum_backoff_polls maximum_backoff_polls starvation_bounds =
     (if local_service_budget = 0 then
        Err (Msg ''error[vm.work_stealing.config]: local service budget is zero'' [])
      else if steal_batch_size = 0 then
        Err (Msg ''error[vm.work_stealing.config]: steal batch size is zero'' [])
      else if minimum_backoff_polls = 0 \<or> maximum_backoff_polls < minimum_backoff_polls then
        Err (Msg ''error[vm.work_stealing.config]: invalid failed-steal backoff'' [])
      else if 0 \<in> set starvation_bounds then
        Err (Msg ''error[vm.work_stealing.config]: starvation bound is zero'' [])
      else Ok \<lparr> ws_local_service_budget = local_service_budget, ws_steal_batch_size = steal_batch_size,
        ws_locality_threshold = locality_threshold, ws_minimum_backoff_polls = minimum_backoff_polls,
        ws_maximum_backoff_polls = maximum_backoff_polls, ws_starvation_bounds = starvation_bounds \<rparr>)"

definition work_stealing_config_default :: "(vm_error, VmWorkStealingConfig) outcome" where
  "work_stealing_config_default = expect ''default work-stealing configuration is valid''
     (work_stealing_config_new 8 4 1 1 64 [6, 12, 24])"

section \<open>Snapshots and directives\<close>

fun class_index :: "VmSchedulerClass \<Rightarrow> nat" where
  "class_index SchedPriority = 0"
| "class_index SchedNormal = 1"
| "class_index SchedBackground = 2"

definition steal_classes :: "VmSchedulerClass list" where
  "steal_classes = [SchedPriority, SchedNormal, SchedBackground]"

record VmSchedulerWorkSnapshot =
  work_scheduler :: VmSchedulerId
  work_runnable :: "nat list"
  work_oldest_wait_ticks :: "u64 list"

definition runnable_total :: "VmSchedulerWorkSnapshot \<Rightarrow> nat" where
  "runnable_total snapshot = sum_list (work_runnable snapshot)"

definition runnable_in :: "VmSchedulerWorkSnapshot \<Rightarrow> VmSchedulerClass \<Rightarrow> nat" where
  "runnable_in snapshot class = work_runnable snapshot ! class_index class"

record VmStealPlan =
  plan_thief :: VmSchedulerId
  plan_victim :: VmSchedulerId
  plan_class :: VmSchedulerClass
  plan_maximum_actors :: nat

datatype VmWorkDirective = ServeLocal VmSchedulerClass | Steal VmStealPlan | Backoff u32 | Sleep

record VmWorkStealingPolicy =
  ws_config :: VmWorkStealingConfig
  ws_width :: nat
  ws_victim_cursor :: "nat list"
  ws_service_cursor :: "nat list"
  ws_local_services :: "u32 list"
  ws_failed_steals :: "u32 list"
  ws_backoff_remaining :: "u32 list"

definition work_stealing_policy_new :: "nat \<Rightarrow> VmWorkStealingConfig
    \<Rightarrow> (vm_error, VmWorkStealingPolicy) outcome" where
  "work_stealing_policy_new width config =
     (if width = 0 then Err (Msg ''error[vm.work_stealing.width]: scheduler width is zero'' [])
      else Ok \<lparr> ws_config = config, ws_width = width, ws_victim_cursor = replicate width 0,
        ws_service_cursor = replicate width 0, ws_local_services = replicate width 0,
        ws_failed_steals = replicate width 0, ws_backoff_remaining = replicate width 0 \<rparr>)"

section \<open>Urgency\<close>

text \<open>\<open>Iterator::max_by_key\<close>: the last of the elements with the greatest key.\<close>

fun max_by_key :: "('a \<Rightarrow> 'k::linorder) \<Rightarrow> 'a list \<Rightarrow> 'a option" where
  "max_by_key key [] = None"
| "max_by_key key (x # xs) = (case max_by_key key xs of
     None \<Rightarrow> Some x | Some y \<Rightarrow> if key y < key x then Some x else Some y)"

definition class_urgency :: "VmWorkStealingConfig \<Rightarrow> VmSchedulerWorkSnapshot \<Rightarrow> VmSchedulerClass \<Rightarrow> u64" where
  "class_urgency config snapshot class =
     saturating_mul (work_oldest_wait_ticks snapshot ! class_index class) 1024
       div (ws_starvation_bounds config ! class_index class)"

definition starved_class :: "VmWorkStealingConfig \<Rightarrow> VmSchedulerWorkSnapshot \<Rightarrow> VmSchedulerClass option" where
  "starved_class config snapshot =
     max_by_key (\<lambda>class. (class_urgency config snapshot class, class_index class))
       (filter (\<lambda>class. ws_starvation_bounds config ! class_index class
            \<le> work_oldest_wait_ticks snapshot ! class_index class)
         (filter (\<lambda>class. 0 < runnable_in snapshot class) steal_classes))"

definition highest_weighted_nonempty :: "VmSchedulerWorkSnapshot \<Rightarrow> (vm_error, VmSchedulerClass) outcome" where
  "highest_weighted_nonempty snapshot = (case find (\<lambda>class. 0 < runnable_in snapshot class) steal_classes of
     Some class \<Rightarrow> Ok class | None \<Rightarrow> Panic ''caller selected a nonempty scheduler snapshot'')"

section \<open>The choice of a victim\<close>

type_synonym score = "nat \<times> bool \<times> u64 \<times> nat \<times> nat"

text \<open>What the loop of \<open>select_steal\<close> computes for one distance from the cursor.\<close>

definition victim_score :: "VmWorkStealingPolicy \<Rightarrow> nat \<Rightarrow> VmSchedulerWorkSnapshot list \<Rightarrow> nat \<Rightarrow> nat
    \<Rightarrow> score option" where
  "victim_score policy thief_index snapshots start distance =
     (let local_load = runnable_total (snapshots ! thief_index);
          index = (start + distance) mod ws_width policy;
          snapshot = snapshots ! index
      in if index = thief_index \<or> runnable_total snapshot = 0 then None
         else
           let starved = starved_class (ws_config policy) snapshot;
               overloaded = min usize_max (local_load + ws_locality_threshold (ws_config policy))
                 < runnable_total snapshot
           in if 0 < local_load \<and> starved = None \<and> \<not> overloaded then None
              else Some (index, starved \<noteq> None,
                (case starved of Some class \<Rightarrow> class_urgency (ws_config policy) snapshot class | None \<Rightarrow> 0),
                runnable_total snapshot, usize_max - distance))"

fun better_score :: "score option \<Rightarrow> score option \<Rightarrow> score option" where
  "better_score selected None = selected"
| "better_score None (Some score) = Some score"
| "better_score (Some current) (Some score) =
     (if snd current < snd score then Some score else Some current)"

fun select_victim :: "VmWorkStealingPolicy \<Rightarrow> nat \<Rightarrow> VmSchedulerWorkSnapshot list \<Rightarrow> nat
    \<Rightarrow> nat list \<Rightarrow> score option \<Rightarrow> score option" where
  "select_victim policy thief_index snapshots start [] selected = selected"
| "select_victim policy thief_index snapshots start (distance # distances) selected =
     select_victim policy thief_index snapshots start distances
       (better_score selected (victim_score policy thief_index snapshots start distance))"

definition select_steal :: "nat \<Rightarrow> VmSchedulerWorkSnapshot list
    \<Rightarrow> (VmWorkStealingPolicy, vm_error, VmStealPlan option) stateful" where
  "select_steal thief_index snapshots policy =
     (let start = ws_victim_cursor policy ! thief_index mod ws_width policy in
      case select_victim policy thief_index snapshots start [0..<ws_width policy] None of
        None \<Rightarrow> (Ok None, policy)
      | Some (victim_index, _) \<Rightarrow>
          let policy = policy\<lparr> ws_victim_cursor :=
                (ws_victim_cursor policy)[thief_index := (victim_index + 1) mod ws_width policy] \<rparr>;
              victim = snapshots ! victim_index
          in bind_st (\<lambda>policy. (case starved_class (ws_config policy) victim of
               Some class \<Rightarrow> Ok class | None \<Rightarrow> highest_weighted_nonempty victim, policy)) (\<lambda>class.
             return_st (Some \<lparr> plan_thief = work_scheduler (snapshots ! thief_index),
               plan_victim = work_scheduler victim, plan_class = class,
               plan_maximum_actors = max (min (runnable_in victim class)
                 (ws_steal_batch_size (ws_config policy))) 1 \<rparr>)) policy)"

section \<open>Local service\<close>

text \<open>The loop of \<open>next_service_class\<close>, by the turns of the cycle left.\<close>

fun service_loop :: "nat \<Rightarrow> nat \<Rightarrow> VmSchedulerWorkSnapshot
    \<Rightarrow> (VmWorkStealingPolicy, vm_error, VmSchedulerClass) stateful" where
  "service_loop 0 scheduler_index snapshot policy = (highest_weighted_nonempty snapshot, policy)"
| "service_loop (Suc turns) scheduler_index snapshot policy =
     (let cursor = ws_service_cursor policy ! scheduler_index; class = SERVICE_CYCLE ! cursor;
          policy = policy\<lparr> ws_service_cursor :=
            (ws_service_cursor policy)[scheduler_index := (cursor + 1) mod length SERVICE_CYCLE] \<rparr>
      in if 0 < runnable_in snapshot class then (Ok class, policy)
         else service_loop turns scheduler_index snapshot policy)"

definition next_service_class :: "nat \<Rightarrow> VmSchedulerWorkSnapshot
    \<Rightarrow> (VmWorkStealingPolicy, vm_error, VmSchedulerClass) stateful" where
  "next_service_class = service_loop (length SERVICE_CYCLE)"

section \<open>Decisions\<close>

definition ws_scheduler_index :: "VmWorkStealingPolicy \<Rightarrow> VmSchedulerId \<Rightarrow> (vm_error, nat) outcome" where
  "ws_scheduler_index policy scheduler =
     (if ws_width policy \<le> unat scheduler then
        Err (Msg ''error[vm.work_stealing.scheduler]: scheduler {index} is outside width {}''
          [ANum scheduler, ANum (of_nat (ws_width policy))])
      else Ok (unat scheduler))"

fun validate_slots :: "nat \<Rightarrow> VmSchedulerWorkSnapshot list \<Rightarrow> (vm_error, unit) outcome" where
  "validate_slots index [] = Ok ()"
| "validate_slots index (snapshot # snapshots) =
     (if unat (work_scheduler snapshot) \<noteq> index then
        Err (Msg ''error[vm.work_stealing.snapshot]: scheduler {} occupies slot {index}''
          [ANum (work_scheduler snapshot), ANum (of_nat index)])
      else validate_slots (index + 1) snapshots)"

definition validate_snapshots :: "VmWorkStealingPolicy \<Rightarrow> VmSchedulerId \<Rightarrow> VmSchedulerWorkSnapshot list
    \<Rightarrow> (vm_error, nat) outcome" where
  "validate_snapshots policy thief snapshots =
     bind_out (ws_scheduler_index policy thief) (\<lambda>thief_index.
     if length snapshots \<noteq> ws_width policy then
       Err (Msg ''error[vm.work_stealing.snapshot]: expected {} schedulers, found {}''
         [ANum (of_nat (ws_width policy)), ANum (of_nat (length snapshots))])
     else bind_out (validate_slots 0 snapshots) (\<lambda>_. Ok thief_index))"

definition ws_decide :: "VmSchedulerId \<Rightarrow> VmSchedulerWorkSnapshot list
    \<Rightarrow> (VmWorkStealingPolicy, vm_error, VmWorkDirective) stateful" where
  "ws_decide thief snapshots =
     bind_st (read_st (\<lambda>policy. validate_snapshots policy thief snapshots)) (\<lambda>thief_index policy.
       let local = snapshots ! thief_index; remaining = ws_backoff_remaining policy ! thief_index in
       if 0 < remaining then
         (Ok (Backoff (remaining - 1)), policy\<lparr> ws_backoff_remaining :=
            (ws_backoff_remaining policy)[thief_index := remaining - 1] \<rparr>)
       else
         let remote_starved = list_ex (\<lambda>index. index \<noteq> thief_index
                \<and> starved_class (ws_config policy) (snapshots ! index) \<noteq> None) [0..<length snapshots];
             services = ws_local_services policy ! thief_index
         in if 0 < runnable_total local \<and> services < ws_local_service_budget (ws_config policy)
               \<and> \<not> remote_starved then
              bind_st (next_service_class thief_index local) (\<lambda>class. return_st (ServeLocal class))
                (policy\<lparr> ws_local_services := (ws_local_services policy)[thief_index := services + 1] \<rparr>)
            else bind_st (select_steal thief_index snapshots) (\<lambda>selected policy. case selected of
                Some plan \<Rightarrow> (Ok (Steal plan), policy\<lparr> ws_local_services :=
                  (ws_local_services policy)[thief_index := 0] \<rparr>)
              | None \<Rightarrow>
                  if 0 < runnable_total local then
                    bind_st (next_service_class thief_index local) (\<lambda>class. return_st (ServeLocal class))
                      (policy\<lparr> ws_local_services := (ws_local_services policy)[thief_index := 1] \<rparr>)
                  else (Ok Sleep, policy)) policy)"

text \<open>\<open>1_u32.checked_shl(shift)\<close> with a shift of at most 31.\<close>

definition record_steal_result :: "VmSchedulerId \<Rightarrow> nat \<Rightarrow> (VmWorkStealingPolicy, vm_error, unit) stateful" where
  "record_steal_result thief transferred =
     bind_st (read_st (\<lambda>policy. ws_scheduler_index policy thief)) (\<lambda>index policy.
       if ws_steal_batch_size (ws_config policy) < transferred then
         (Err (Msg ''error[vm.work_stealing.batch]: transferred {transferred}, maximum {}''
            [ANum (of_nat transferred), ANum (of_nat (ws_steal_batch_size (ws_config policy)))]), policy)
       else if 0 < transferred then
         (Ok (), policy\<lparr> ws_failed_steals := (ws_failed_steals policy)[index := 0],
            ws_backoff_remaining := (ws_backoff_remaining policy)[index := 0] \<rparr>)
       else
         let failed = saturating_add (ws_failed_steals policy ! index) 1;
             shift = min (saturating_sub failed 1) 31;
             multiplier = push_bit (unat shift) (1 :: u32)
         in (Ok (), policy\<lparr> ws_failed_steals := (ws_failed_steals policy)[index := failed],
            ws_backoff_remaining := (ws_backoff_remaining policy)[index :=
              min (saturating_mul (ws_minimum_backoff_polls (ws_config policy)) multiplier)
                (ws_maximum_backoff_polls (ws_config policy))] \<rparr>))"

end
