(* ===== verification/Stealing_Properties.thy ===== *)
theory Stealing_Properties
  imports Work_Stealing
begin

text \<open>
  The properties of the work-stealing policy: its decisions are sound and leave no work
  idle, starving schedulers are helped first, and backing off after failed steals is
  bounded.
\<close>

section \<open>The invariant\<close>

definition ws_ok :: "VmWorkStealingPolicy \<Rightarrow> bool" where
  "ws_ok policy \<longleftrightarrow> 0 < ws_width policy \<and> ws_width policy \<le> usize_max
     \<and> length (ws_victim_cursor policy) = ws_width policy
     \<and> length (ws_service_cursor policy) = ws_width policy
     \<and> (\<forall>cursor\<in>set (ws_service_cursor policy). cursor < length SERVICE_CYCLE)
     \<and> length (ws_local_services policy) = ws_width policy
     \<and> length (ws_failed_steals policy) = ws_width policy
     \<and> length (ws_backoff_remaining policy) = ws_width policy
     \<and> 0 < ws_steal_batch_size (ws_config policy) \<and> 0 < ws_local_service_budget (ws_config policy)
     \<and> 0 < ws_minimum_backoff_polls (ws_config policy)
     \<and> ws_minimum_backoff_polls (ws_config policy) \<le> ws_maximum_backoff_polls (ws_config policy)"

definition snapshot_ok :: "VmSchedulerWorkSnapshot \<Rightarrow> bool" where
  "snapshot_ok snapshot \<longleftrightarrow> length (work_runnable snapshot) = CLASS_COUNT
     \<and> length (work_oldest_wait_ticks snapshot) = CLASS_COUNT"

text \<open>A complete snapshot set for a policy, seen by one of its schedulers.\<close>

definition shard_snapshot :: "VmWorkStealingPolicy \<Rightarrow> VmSchedulerId \<Rightarrow> VmSchedulerWorkSnapshot list \<Rightarrow> bool" where
  "shard_snapshot policy thief snapshots \<longleftrightarrow> unat thief < ws_width policy \<and> length snapshots = ws_width policy
     \<and> (\<forall>j<ws_width policy. unat (work_scheduler (snapshots ! j)) = j \<and> snapshot_ok (snapshots ! j))"

lemma service_cycle [simp]: "length SERVICE_CYCLE = 6"
  by (simp add: SERVICE_CYCLE_def)

lemma policy_new_ok:
  assumes "work_stealing_config_new budget batch locality least most bounds = Ok config"
    and "work_stealing_policy_new width config = Ok policy" "width \<le> usize_max"
  shows "ws_ok policy"
  using assms by (auto simp: work_stealing_config_new_def work_stealing_policy_new_def ws_ok_def
      word_gt_0 not_less split: if_splits)

section \<open>Classes\<close>

lemma max_by_key_in: "max_by_key key xs = Some x \<Longrightarrow> x \<in> set xs"
  by (induction xs arbitrary: x) (auto split: option.splits if_splits)

lemma max_by_key_None: "max_by_key key xs = None \<longleftrightarrow> xs = []"
  by (cases xs) (auto split: option.splits)

lemma all_classes: "set steal_classes = UNIV"
proof -
  have "cl \<in> set steal_classes" for cl by (cases cl) (simp_all add: steal_classes_def)
  then show ?thesis by blast
qed

lemma starved_classD:
  assumes "starved_class config snapshot = Some class"
  shows "0 < runnable_in snapshot class"
    "ws_starvation_bounds config ! class_index class \<le> work_oldest_wait_ticks snapshot ! class_index class"
  using max_by_key_in [OF assms [unfolded starved_class_def]] by simp_all

lemma runnable_total_classes:
  assumes "snapshot_ok snapshot"
  shows "0 < runnable_total snapshot \<longleftrightarrow> (\<exists>class. 0 < runnable_in snapshot class)"
proof -
  obtain a b c where r: "work_runnable snapshot = [a, b, c]"
    using assms by (auto simp: snapshot_ok_def CLASS_COUNT_def numeral_3_eq_3 length_Suc_conv)
  have "(\<exists>class. 0 < runnable_in snapshot class) \<longleftrightarrow> 0 < a \<or> 0 < b \<or> 0 < c"
  proof
    assume "\<exists>class. 0 < runnable_in snapshot class"
    then obtain cl where "0 < runnable_in snapshot cl" ..
    then show "0 < a \<or> 0 < b \<or> 0 < c" by (cases cl) (simp_all add: runnable_in_def r)
  next
    have "runnable_in snapshot SchedPriority = a" "runnable_in snapshot SchedNormal = b"
        "runnable_in snapshot SchedBackground = c" by (simp_all add: runnable_in_def r)
    then show "0 < a \<or> 0 < b \<or> 0 < c \<Longrightarrow> \<exists>class. 0 < runnable_in snapshot class" by metis
  qed
  then show ?thesis by (auto simp: runnable_total_def r)
qed

lemma highest_weighted_law:
  assumes "snapshot_ok snapshot" "0 < runnable_total snapshot"
  obtains cl where "highest_weighted_nonempty snapshot = Ok cl" "0 < runnable_in snapshot cl"
proof -
  obtain cl where "0 < runnable_in snapshot cl"
    using assms runnable_total_classes by blast
  then have "find (\<lambda>cl. 0 < runnable_in snapshot cl) steal_classes \<noteq> None"
    using all_classes by (auto simp: find_None_iff)
  then obtain found where f: "find (\<lambda>cl. 0 < runnable_in snapshot cl) steal_classes = Some found" by blast
  then have "0 < runnable_in snapshot found" by (auto simp: find_Some_iff)
  with f that show ?thesis by (simp add: highest_weighted_nonempty_def)
qed

section \<open>Local service\<close>

lemma service_loop_law:
  assumes ok: "ws_ok policy" "i < ws_width policy" and work: "snapshot_ok snapshot" "0 < runnable_total snapshot"
    and run: "service_loop n i snapshot policy = (r, policy')"
  shows "(\<exists>cl. r = Ok cl \<and> 0 < runnable_in snapshot cl) \<and> ws_ok policy'
    \<and> (\<exists>cursor. policy' = policy\<lparr> ws_service_cursor := cursor \<rparr>)"
  using ok run
proof (induction n arbitrary: policy)
  case 0
  obtain cl where "highest_weighted_nonempty snapshot = Ok cl" "0 < runnable_in snapshot cl"
    using highest_weighted_law [OF work] .
  with 0 show ?case
    by (intro conjI exI [of _ cl] exI [of _ "ws_service_cursor policy"]) simp_all
next
  case (Suc n)
  let ?cursor = "ws_service_cursor policy ! i"
  let ?p = "policy\<lparr> ws_service_cursor := (ws_service_cursor policy)[i := (?cursor + 1) mod 6] \<rparr>"
  have ok': "ws_ok ?p" "i < ws_width ?p"
    using Suc.prems(1,2) by (auto simp: ws_ok_def dest: set_update_subset_insert [THEN subsetD])
  show ?case
  proof (cases "0 < runnable_in snapshot (SERVICE_CYCLE ! ?cursor)")
    case True
    then show ?thesis using Suc.prems(3) ok' by (auto simp: Let_def)
  next
    case False
    then have "service_loop n i snapshot ?p = (r, policy')" using Suc.prems(3) by (simp add: Let_def)
    from Suc.IH [OF ok' this] show ?thesis by fastforce
  qed
qed

section \<open>The choice of a victim\<close>

text \<open>Being one of the scores the loop has seen, and the best of them.\<close>

definition best_of :: "score option set \<Rightarrow> score option \<Rightarrow> bool" where
  "best_of seen result \<longleftrightarrow> result \<in> insert None seen \<and> (\<forall>score. Some score \<in> seen
     \<longrightarrow> (\<exists>best. result = Some best \<and> snd score \<le> snd best))"

lemma best_ofD: "best_of seen result \<Longrightarrow> Some score \<in> seen
    \<Longrightarrow> \<exists>best. result = Some best \<and> snd score \<le> snd best"
  unfolding best_of_def by blast

lemma best_of_in: "best_of seen (Some best) \<Longrightarrow> Some best \<in> seen"
  unfolding best_of_def by blast

lemma best_of_better: "best_of {a, b} (better_score a b)"
  by (cases a; cases b) (auto simp: best_of_def)

lemma best_of_trans:
  assumes "best_of seen a" "best_of (insert a others) b"
  shows "best_of (seen \<union> others) b"
proof -
  have "\<exists>best. b = Some best \<and> snd score \<le> snd best" if s: "Some score \<in> seen" for score
  proof -
    obtain first where f: "a = Some first" "snd score \<le> snd first"
      using assms(1) s unfolding best_of_def by blast
    then obtain best where "b = Some best" "snd first \<le> snd best"
      using assms(2) unfolding best_of_def by blast
    with f show ?thesis by (blast intro: order_trans)
  qed
  moreover have "b \<in> insert None (seen \<union> others)" using assms unfolding best_of_def by blast
  moreover have "\<exists>best. b = Some best \<and> snd score \<le> snd best" if "Some score \<in> others" for score
    using assms(2) that unfolding best_of_def by blast
  ultimately show ?thesis unfolding best_of_def by blast
qed

lemma select_victim_law:
  "best_of (insert selected (victim_score policy i snapshots start ` set ds))
     (select_victim policy i snapshots start ds selected)"
proof (induction ds arbitrary: selected)
  case Nil
  show ?case by (cases selected) (auto simp: best_of_def)
next
  case (Cons d ds)
  let ?v = "victim_score policy i snapshots start d"
  have "insert selected (victim_score policy i snapshots start ` set (d # ds))
      = {selected, ?v} \<union> victim_score policy i snapshots start ` set ds" by auto
  with best_of_trans [OF best_of_better Cons.IH] show ?case by simp
qed

text \<open>Every other scheduler with work is looked at, at its distance from the cursor.\<close>

lemma distance_of:
  assumes "j < (w :: nat)" "start < w"
  shows "\<exists>d<w. (start + d) mod w = j"
proof (cases "start \<le> j")
  case True
  then show ?thesis using assms by (intro exI [of _ "j - start"]) simp
next
  case False
  then show ?thesis using assms by (intro exI [of _ "w - start + j"]) (simp add: mod_if)
qed

lemma victim_score_Some:
  assumes "victim_score policy i snapshots start d = Some score"
  shows "fst score = (start + d) mod ws_width policy" "fst score \<noteq> i"
    "0 < runnable_total (snapshots ! fst score)"
    "fst (snd score) \<longleftrightarrow> starved_class (ws_config policy) (snapshots ! fst score) \<noteq> None"
    "fst (snd (snd score)) = (case starved_class (ws_config policy) (snapshots ! fst score) of
       Some cl \<Rightarrow> class_urgency (ws_config policy) (snapshots ! fst score) cl | None \<Rightarrow> 0)"
  using assms by (auto simp: victim_score_def Let_def split: if_splits option.splits)

lemma scores_seen:
  assumes "start < ws_width policy" "j < ws_width policy" "j \<noteq> i" "0 < runnable_total (snapshots ! j)"
    and "runnable_total (snapshots ! i) = 0 \<or> starved_class (ws_config policy) (snapshots ! j) \<noteq> None"
  obtains score where "Some score \<in> victim_score policy i snapshots start ` set [0..<ws_width policy]" "fst score = j"
proof -
  obtain d where d: "d < ws_width policy" "(start + d) mod ws_width policy = j"
    using distance_of [OF assms(2,1)] by blast
  then obtain score where score: "victim_score policy i snapshots start d = Some score"
    using assms(3-5) by (auto simp: victim_score_def Let_def)
  have "fst score = j" using victim_score_Some(1) [OF score] d(2) by simp
  moreover have "Some score \<in> victim_score policy i snapshots start ` set [0..<ws_width policy]"
    using d(1) score by (metis atLeastLessThan_iff image_eqI set_upt zero_le)
  ultimately show ?thesis using that by blast
qed

text \<open>How urgent the wait at a scheduler is: none, or a starving class with its urgency.\<close>

definition urgency :: "VmWorkStealingConfig \<Rightarrow> VmSchedulerWorkSnapshot \<Rightarrow> bool \<times> u64" where
  "urgency config snapshot = (case starved_class config snapshot of
     None \<Rightarrow> (False, 0) | Some cl \<Rightarrow> (True, class_urgency config snapshot cl))"

text \<open>What a selection promises: no selection means no work worth stealing, a plan names the most
  urgent victim and a batch within its queue and the bound.\<close>

definition steal_choice :: "VmWorkStealingPolicy \<Rightarrow> VmSchedulerId \<Rightarrow> VmSchedulerWorkSnapshot list
    \<Rightarrow> VmStealPlan option \<Rightarrow> bool" where
  "steal_choice policy thief snapshots selected \<longleftrightarrow> (case selected of
      None \<Rightarrow> \<forall>j<ws_width policy. j \<noteq> unat thief \<longrightarrow>
          runnable_total (snapshots ! unat thief) = 0 \<or> starved_class (ws_config policy) (snapshots ! j) \<noteq> None
            \<longrightarrow> runnable_total (snapshots ! j) = 0
    | Some plan \<Rightarrow> plan_thief plan = thief \<and> plan_victim plan \<noteq> thief \<and> unat (plan_victim plan) < ws_width policy
        \<and> 1 \<le> plan_maximum_actors plan \<and> plan_maximum_actors plan \<le> ws_steal_batch_size (ws_config policy)
        \<and> plan_maximum_actors plan \<le> runnable_in (snapshots ! unat (plan_victim plan)) (plan_class plan)
        \<and> (\<forall>cl. starved_class (ws_config policy) (snapshots ! unat (plan_victim plan)) = Some cl \<longrightarrow> plan_class plan = cl)
        \<and> (\<forall>j<ws_width policy. j \<noteq> unat thief \<longrightarrow> urgency (ws_config policy) (snapshots ! j)
             \<le> urgency (ws_config policy) (snapshots ! unat (plan_victim plan))))"

lemma select_steal_law:
  assumes ok: "ws_ok policy" and shard: "shard_snapshot policy thief snapshots"
    and run: "select_steal (unat thief) snapshots policy = (r, policy')"
  obtains selected cursor where "r = Ok selected" "steal_choice policy thief snapshots selected"
    "length cursor = ws_width policy" "policy' = policy\<lparr> ws_victim_cursor := cursor \<rparr>"
proof -
  let ?i = "unat thief" and ?w = "ws_width policy" and ?c = "ws_config policy"
  let ?start = "ws_victim_cursor policy ! ?i mod ?w"
  let ?seen = "victim_score policy ?i snapshots ?start ` set [0..<?w]"
  have start: "?start < ?w" using ok by (simp add: ws_ok_def)
  define result where "result = select_victim policy ?i snapshots ?start [0..<?w] None"
  have best: "best_of (insert None ?seen) result"
    unfolding result_def by (rule select_victim_law)
  show ?thesis
  proof (cases result)
    case None
    have "runnable_total (snapshots ! j) = 0"
      if j: "j < ?w" "j \<noteq> ?i" "runnable_total (snapshots ! ?i) = 0 \<or> starved_class ?c (snapshots ! j) \<noteq> None" for j
    proof (rule ccontr)
      assume "runnable_total (snapshots ! j) \<noteq> 0"
      then obtain score where "Some score \<in> ?seen"
        using scores_seen [OF start j(1,2) _ j(3)] by blast
      then show False using best_ofD [OF best, of score] None by auto
    qed
    then have "steal_choice policy thief snapshots None" by (simp add: steal_choice_def)
    moreover have "select_steal ?i snapshots policy = (Ok None, policy)"
      using None by (simp add: select_steal_def result_def)
    moreover have "length (ws_victim_cursor policy) = ?w" using ok by (simp add: ws_ok_def)
    ultimately show ?thesis using run that [of None "ws_victim_cursor policy"] by simp
  next
    case (Some score)
    let ?v = "fst score"
    have seen: "Some score \<in> ?seen" using best_of_in [of "insert None ?seen" score] best Some by simp
    then obtain d where d: "victim_score policy ?i snapshots ?start d = Some score" by force
    note v = victim_score_Some [OF d]
    have vw: "?v < ?w" using v(1) start by simp
    have slots: "unat (work_scheduler (snapshots ! ?v)) = ?v" "snapshot_ok (snapshots ! ?v)"
        "work_scheduler (snapshots ! ?i) = thief"
      using shard vw by (auto simp: shard_snapshot_def word_unat_eq_iff)
    obtain cl where cl: "(case starved_class ?c (snapshots ! ?v) of Some cl \<Rightarrow> Ok cl
        | None \<Rightarrow> highest_weighted_nonempty (snapshots ! ?v)) = (Ok cl :: (vm_error, _) outcome)"
        "0 < runnable_in (snapshots ! ?v) cl"
        "\<forall>cl'. starved_class ?c (snapshots ! ?v) = Some cl' \<longrightarrow> cl = cl'"
    proof (cases "starved_class ?c (snapshots ! ?v)")
      case None
      then show ?thesis using highest_weighted_law [OF slots(2) v(3)] that by auto
    next
      case (Some cl)
      show ?thesis
      proof (rule that)
        show "0 < runnable_in (snapshots ! ?v) cl" by (rule starved_classD(1) [OF Some])
      qed (simp_all only: Some option.case option.inject, simp)
    qed
    let ?plan = "\<lparr> plan_thief = thief, plan_victim = work_scheduler (snapshots ! ?v), plan_class = cl,
        plan_maximum_actors = max (min (runnable_in (snapshots ! ?v) cl) (ws_steal_batch_size ?c)) 1 \<rparr>"
    let ?p = "policy\<lparr> ws_victim_cursor := (ws_victim_cursor policy)[?i := (?v + 1) mod ?w] \<rparr>"
    have res: "select_victim policy ?i snapshots ?start [0..<?w] None = Some (?v, snd score)"
      using Some by (simp add: result_def)
    have run': "select_steal ?i snapshots policy = (Ok (Some ?plan), ?p)"
      unfolding select_steal_def Let_def res option.case prod.case bind_st_def
      by (simp add: cl(1) slots(3) return_st_def)
    have urgent: "urgency ?c (snapshots ! j) \<le> urgency ?c (snapshots ! ?v)" if j: "j < ?w" "j \<noteq> ?i" for j
    proof (cases "starved_class ?c (snapshots ! j)")
      case None
      then show ?thesis by (simp add: urgency_def less_eq_prod_def split: option.split)
    next
      case (Some cj)
      have "0 < runnable_total (snapshots ! j)"
        using starved_classD(1) [OF Some] runnable_total_classes [of "snapshots ! j"] shard j(1)
        by (auto simp: shard_snapshot_def)
      then obtain other where other: "Some other \<in> ?seen" "fst other = j"
        using scores_seen [OF start j] Some by blast
      then obtain dj where dj: "victim_score policy ?i snapshots ?start dj = Some other" by force
      note o = victim_score_Some [OF dj]
      have "snd other \<le> snd score"
        using best_ofD [OF best, of other] other(1) \<open>result = Some score\<close> by auto
      then have "(fst (snd other), fst (snd (snd other))) \<le> (fst (snd score), fst (snd (snd score)))"
        by (cases other; cases score) (auto simp: less_eq_prod_def)
      moreover have "(fst (snd other), fst (snd (snd other))) = urgency ?c (snapshots ! j)"
        using o(4,5) other(2) Some by (simp add: urgency_def)
      moreover have "(fst (snd score), fst (snd (snd score))) = urgency ?c (snapshots ! ?v)"
        using v(4,5) by (auto simp: urgency_def split: option.split)
      ultimately show ?thesis by simp
    qed
    have "policy' = ?p" "r = Ok (Some ?plan)" using run run' by simp_all
    moreover have "length ((ws_victim_cursor policy)[?i := (?v + 1) mod ?w]) = ?w"
      using ok by (simp add: ws_ok_def)
    moreover have "work_scheduler (snapshots ! ?v) \<noteq> thief" using v(2) slots(1) by auto
    moreover have "0 < ws_steal_batch_size ?c" using ok by (simp add: ws_ok_def)
    moreover have "steal_choice policy thief snapshots (Some ?plan)"
      using cl(2,3) slots(1) vw urgent calculation by (auto simp: steal_choice_def)
    ultimately show ?thesis using that by blast
  qed
qed

section \<open>Decisions\<close>

lemma validate_slots_Ok:
  "validate_slots n snapshots = Ok () \<longleftrightarrow> (\<forall>j<length snapshots. unat (work_scheduler (snapshots ! j)) = n + j)"
proof (induction snapshots arbitrary: n)
  case (Cons snapshot snapshots)
  have "(\<forall>j<length (snapshot # snapshots). unat (work_scheduler ((snapshot # snapshots) ! j)) = n + j)
      \<longleftrightarrow> unat (work_scheduler snapshot) = n
        \<and> (\<forall>j<length snapshots. unat (work_scheduler (snapshots ! j)) = n + 1 + j)"
    by (auto simp: less_Suc_eq_0_disj)
  then show ?case using Cons.IH [of "n + 1"] by simp
qed simp

lemma validate_snapshots_Ok:
  "shard_snapshot policy thief snapshots \<Longrightarrow> validate_snapshots policy thief snapshots = Ok (unat thief)"
  using validate_slots_Ok [of 0 snapshots]
  by (simp add: validate_snapshots_def shard_snapshot_def ws_scheduler_index_def)

text \<open>The decision once the snapshots are accepted and no backoff is left.\<close>

definition ready_decision :: "VmSchedulerId \<Rightarrow> VmSchedulerWorkSnapshot list
    \<Rightarrow> (VmWorkStealingPolicy, vm_error, VmWorkDirective) stateful" where
  "ready_decision thief snapshots policy =
     (let i = unat thief; local = snapshots ! i; services = ws_local_services policy ! i;
          remote_starved = (\<exists>j<ws_width policy. j \<noteq> i \<and> starved_class (ws_config policy) (snapshots ! j) \<noteq> None)
      in if 0 < runnable_total local \<and> services < ws_local_service_budget (ws_config policy) \<and> \<not> remote_starved
         then bind_st (next_service_class i local) (\<lambda>class. return_st (ServeLocal class))
           (policy\<lparr> ws_local_services := (ws_local_services policy)[i := services + 1] \<rparr>)
         else bind_st (select_steal i snapshots) (\<lambda>selected policy. case selected of
             Some plan \<Rightarrow> (Ok (Steal plan), policy\<lparr> ws_local_services := (ws_local_services policy)[i := 0] \<rparr>)
           | None \<Rightarrow> if 0 < runnable_total local then
               bind_st (next_service_class i local) (\<lambda>class. return_st (ServeLocal class))
                 (policy\<lparr> ws_local_services := (ws_local_services policy)[i := 1] \<rparr>)
             else (Ok Sleep, policy)) policy)"

lemma ws_decide_shard:
  assumes "shard_snapshot policy thief snapshots"
  shows "ws_decide thief snapshots policy =
    (let i = unat thief; remaining = ws_backoff_remaining policy ! i in
     if 0 < remaining then (Ok (Backoff (remaining - 1)), policy\<lparr> ws_backoff_remaining :=
       (ws_backoff_remaining policy)[i := remaining - 1] \<rparr>)
     else ready_decision thief snapshots policy)"
proof -
  have "list_ex (\<lambda>index. index \<noteq> unat thief \<and> starved_class (ws_config policy) (snapshots ! index) \<noteq> None)
      [0..<length snapshots] \<longleftrightarrow> (\<exists>j<ws_width policy. j \<noteq> unat thief
        \<and> starved_class (ws_config policy) (snapshots ! j) \<noteq> None)"
    using assms by (auto simp: list_ex_iff shard_snapshot_def)
  then show ?thesis
    unfolding ws_decide_def bind_st_def read_st_def validate_snapshots_Ok [OF assms] ready_decision_def Let_def
    by (simp only: prod.case outcome.case)
qed

lemma ws_ok_updates:
  assumes "ws_ok policy"
  shows "ws_ok (policy\<lparr> ws_local_services := xs' \<rparr>) \<longleftrightarrow> length xs' = ws_width policy"
    "ws_ok (policy\<lparr> ws_backoff_remaining := xs' \<rparr>) \<longleftrightarrow> length xs' = ws_width policy"
    "ws_ok (policy\<lparr> ws_victim_cursor := ys \<rparr>) \<longleftrightarrow> length ys = ws_width policy"
  using assms by (auto simp: ws_ok_def)

text \<open>What a directive promises.\<close>

definition directive_sound :: "VmWorkStealingConfig \<Rightarrow> VmSchedulerId \<Rightarrow> VmSchedulerWorkSnapshot list
    \<Rightarrow> VmWorkDirective \<Rightarrow> bool" where
  "directive_sound config thief snapshots directive = (case directive of
     ServeLocal cl \<Rightarrow> 0 < runnable_in (snapshots ! unat thief) cl
   | Steal plan \<Rightarrow> plan_thief plan = thief \<and> plan_victim plan \<noteq> thief
       \<and> unat (plan_victim plan) < length snapshots
       \<and> 1 \<le> plan_maximum_actors plan \<and> plan_maximum_actors plan \<le> ws_steal_batch_size config
       \<and> plan_maximum_actors plan \<le> runnable_in (snapshots ! unat (plan_victim plan)) (plan_class plan)
   | Backoff _ \<Rightarrow> True
   | Sleep \<Rightarrow> \<forall>snapshot\<in>set snapshots. runnable_total snapshot = 0)"

lemma serve_law:
  assumes ok: "ws_ok policy" "i < ws_width policy" and work: "snapshot_ok local" "0 < runnable_total local"
    and run: "bind_st (next_service_class i local) (\<lambda>cl. return_st (ServeLocal cl))
      (policy\<lparr> ws_local_services := (ws_local_services policy)[i := k] \<rparr>) = (r, policy')"
  obtains cl where "r = Ok (ServeLocal cl)" "0 < runnable_in local cl" "ws_ok policy'"
    "ws_config policy' = ws_config policy" "ws_width policy' = ws_width policy"
    "ws_backoff_remaining policy' = ws_backoff_remaining policy"
proof -
  let ?p = "policy\<lparr> ws_local_services := (ws_local_services policy)[i := k] \<rparr>"
  have p: "ws_ok ?p" "i < ws_width ?p" using ok by (simp_all add: ws_ok_def)
  obtain r1 p1 where s: "service_loop (length SERVICE_CYCLE) i local ?p = (r1, p1)"
    by (cases "service_loop (length SERVICE_CYCLE) i local ?p")
  obtain cl cursor where law: "r1 = Ok cl" "0 < runnable_in local cl" "ws_ok p1"
      "p1 = ?p\<lparr> ws_service_cursor := cursor \<rparr>"
    using service_loop_law [OF p work s] by blast
  have "r = Ok (ServeLocal cl)" "policy' = p1"
    using run s law(1) by (simp_all add: next_service_class_def bind_st_def return_st_def)
  with law that show ?thesis by simp
qed

lemma starved_work:
  assumes "shard_snapshot policy thief snapshots" "j < ws_width policy"
    "starved_class config (snapshots ! j) \<noteq> None"
  shows "0 < runnable_total (snapshots ! j)"
proof -
  obtain cl where "starved_class config (snapshots ! j) = Some cl" using assms(3) by blast
  then have "0 < runnable_in (snapshots ! j) cl" by (rule starved_classD)
  then show ?thesis using runnable_total_classes assms(1,2) by (auto simp: shard_snapshot_def)
qed

text \<open>The decision for a plan, and for no plan.\<close>

lemma ready_decision_cases:
  assumes run: "ready_decision thief snapshots policy = (r, policy')"
    and starved: "starved = (\<exists>j<ws_width policy. j \<noteq> unat thief
      \<and> starved_class (ws_config policy) (snapshots ! j) \<noteq> None)"
    and s: "select_steal (unat thief) snapshots policy = (Ok selected, p1)"
  obtains (serve) q k where "q = policy \<and> \<not> starved \<or> q = p1 \<and> selected = None"
      "0 < runnable_total (snapshots ! unat thief)"
      "bind_st (next_service_class (unat thief) (snapshots ! unat thief)) (\<lambda>cl. return_st (ServeLocal cl))
        (q\<lparr> ws_local_services := (ws_local_services q)[unat thief := k] \<rparr>) = (r, policy')"
  | (steal) plan where "selected = Some plan" "r = Ok (Steal plan)"
      "policy' = p1\<lparr> ws_local_services := (ws_local_services p1)[unat thief := 0] \<rparr>"
  | (sleep) "selected = None" "runnable_total (snapshots ! unat thief) = 0" "r = Ok Sleep" "policy' = p1"
proof (cases "0 < runnable_total (snapshots ! unat thief)
    \<and> ws_local_services policy ! unat thief < ws_local_service_budget (ws_config policy) \<and> \<not> starved")
  case True
  then show ?thesis
    using serve [of policy "ws_local_services policy ! unat thief + 1"] run
    unfolding ready_decision_def Let_def starved by simp
next
  case False
  then have "bind_st (select_steal (unat thief) snapshots) (\<lambda>selected policy. case selected of
             Some plan \<Rightarrow> (Ok (Steal plan), policy\<lparr> ws_local_services := (ws_local_services policy)[unat thief := 0] \<rparr>)
           | None \<Rightarrow> if 0 < runnable_total (snapshots ! unat thief) then
               bind_st (next_service_class (unat thief) (snapshots ! unat thief)) (\<lambda>class. return_st (ServeLocal class))
                 (policy\<lparr> ws_local_services := (ws_local_services policy)[unat thief := 1] \<rparr>)
             else (Ok Sleep, policy)) policy = (r, policy')"
    using run unfolding ready_decision_def Let_def starved by (simp only: if_False)
  note rest = this [unfolded bind_st_def [of "select_steal (unat thief) snapshots"] s, simplified]
  show ?thesis
  proof (cases selected)
    case (Some plan)
    then show ?thesis using rest by (intro steal) auto
  next
    case None
    show ?thesis
    proof (cases "runnable_total (snapshots ! unat thief) = 0")
      case True
      then show ?thesis using rest None by (intro sleep) auto
    next
      case False
      then show ?thesis using rest None by (intro serve [of p1 1]) auto
    qed
  qed
qed

lemma ready_decision_law:
  assumes ok: "ws_ok policy" and shard: "shard_snapshot policy thief snapshots"
    and run: "ready_decision thief snapshots policy = (r, policy')"
  shows "ws_ok policy' \<and> ws_config policy' = ws_config policy \<and> ws_width policy' = ws_width policy
    \<and> ws_backoff_remaining policy' = ws_backoff_remaining policy
    \<and> (\<exists>d. r = Ok d \<and> (\<forall>n. d \<noteq> Backoff n) \<and> directive_sound (ws_config policy) thief snapshots d
        \<and> (\<forall>j<ws_width policy. j \<noteq> unat thief \<longrightarrow> starved_class (ws_config policy) (snapshots ! j) \<noteq> None
             \<longrightarrow> (\<exists>plan. d = Steal plan \<and> urgency (ws_config policy) (snapshots ! j)
                   \<le> urgency (ws_config policy) (snapshots ! unat (plan_victim plan))
                 \<and> starved_class (ws_config policy) (snapshots ! unat (plan_victim plan)) = Some (plan_class plan))))"
proof -
  let ?i = "unat thief" and ?c = "ws_config policy"
  have i: "?i < ws_width policy" "snapshot_ok (snapshots ! ?i)" "length snapshots = ws_width policy"
    using shard by (simp_all add: shard_snapshot_def)
  obtain r1 p1 where s1: "select_steal ?i snapshots policy = (r1, p1)"
    by (cases "select_steal ?i snapshots policy")
  obtain selected cursor where sel: "r1 = Ok selected" "length cursor = ws_width policy"
      "p1 = policy\<lparr> ws_victim_cursor := cursor \<rparr>" and choice: "steal_choice policy thief snapshots selected"
    by (rule select_steal_law [OF ok shard s1]) (rule that; assumption)
  define starved where "starved = (\<exists>j<ws_width policy. j \<noteq> ?i \<and> starved_class ?c (snapshots ! j) \<noteq> None)"
  have s: "select_steal ?i snapshots policy = (Ok selected, p1)" using s1 sel(1) by simp
  have p1: "ws_ok p1" "ws_config p1 = ?c" "ws_width p1 = ws_width policy"
      "ws_backoff_remaining p1 = ws_backoff_remaining policy"
    using sel ok by (simp_all add: ws_ok_updates)
  have calm: "\<not> starved" if none: "selected = None"
  proof
    assume starved
    then obtain j where j: "j < ws_width policy" "j \<noteq> ?i" "starved_class ?c (snapshots ! j) \<noteq> None"
      by (auto simp: starved_def)
    then have "runnable_total (snapshots ! j) = 0" using choice none by (auto simp: steal_choice_def)
    with starved_work [OF shard j(1,3)] show False by simp
  qed
  from run starved_def s show ?thesis
  proof (cases rule: ready_decision_cases)
    case (serve q k)
    have q: "ws_ok q" "ws_config q = ?c" "ws_width q = ws_width policy"
        "ws_backoff_remaining q = ws_backoff_remaining policy" "\<not> starved"
      using serve(1) p1 ok calm by auto
    obtain cl where "r = Ok (ServeLocal cl)" "0 < runnable_in (snapshots ! ?i) cl" "ws_ok policy'"
        "ws_config policy' = ws_config q" "ws_width policy' = ws_width q"
        "ws_backoff_remaining policy' = ws_backoff_remaining q"
      using serve_law [OF q(1) _ i(2) serve(2,3)] i(1) q(3) by auto
    with q show ?thesis by (auto simp: directive_sound_def starved_def)
  next
    case (steal plan)
    have "ws_ok policy'" using p1 by (auto simp: steal(3) ws_ok_updates ws_ok_def)
    moreover have "directive_sound ?c thief snapshots (Steal plan)"
      using choice steal(1) i(3) by (simp add: directive_sound_def steal_choice_def)
    moreover have "urgency ?c (snapshots ! j) \<le> urgency ?c (snapshots ! unat (plan_victim plan))
        \<and> starved_class ?c (snapshots ! unat (plan_victim plan)) = Some (plan_class plan)"
      if j: "j < ws_width policy" "j \<noteq> ?i" "starved_class ?c (snapshots ! j) \<noteq> None" for j
    proof -
      have le: "urgency ?c (snapshots ! j) \<le> urgency ?c (snapshots ! unat (plan_victim plan))"
        using choice steal(1) j by (auto simp: steal_choice_def)
      have "fst (urgency ?c (snapshots ! j))" using j(3) by (auto simp: urgency_def)
      then have "fst (urgency ?c (snapshots ! unat (plan_victim plan)))"
        using le by (auto simp: less_eq_prod_def)
      then obtain cl where "starved_class ?c (snapshots ! unat (plan_victim plan)) = Some cl"
        by (auto simp: urgency_def split: option.splits)
      with le choice steal(1) show ?thesis by (auto simp: steal_choice_def)
    qed
    ultimately show ?thesis using steal p1 by auto
  next
    case sleep
    have "runnable_total (snapshots ! j) = 0" if "j < ws_width policy" for j
      using that choice sleep(1,2) by (cases "j = ?i") (auto simp: steal_choice_def)
    then have "directive_sound ?c thief snapshots Sleep"
      using i(3) by (auto simp: directive_sound_def in_set_conv_nth)
    with sleep(3,4) p1 calm [OF sleep(1)] show ?thesis by (auto simp: starved_def)
  qed
qed

text \<open>C20: every decision on a complete snapshot is sound: serving locally names a class with local
  work; stealing names another scheduler, a class with work there and between one and the
  configured batch of its runnable actors; sleeping happens only when no scheduler of the
  shard has runnable work. The policy stays well formed, and an incomplete snapshot is an
  error without effect.\<close>

theorem decisions_are_sound:
  assumes "ws_ok policy"
  shows "if shard_snapshot policy thief snapshots
    then \<exists>directive policy'. ws_decide thief snapshots policy = (Ok directive, policy')
      \<and> directive_sound (ws_config policy) thief snapshots directive \<and> ws_ok policy'
    else (\<forall>snapshot\<in>set snapshots. snapshot_ok snapshot) \<longrightarrow>
      (\<exists>e. ws_decide thief snapshots policy = (Err e, policy))"
proof (cases "shard_snapshot policy thief snapshots")
  case True
  let ?i = "unat thief"
  show ?thesis
  proof (cases "0 < ws_backoff_remaining policy ! ?i")
    case waiting: True
    then show ?thesis
      using assms True by (simp add: ws_decide_shard [OF True] Let_def directive_sound_def ws_ok_updates)
        (simp add: ws_ok_def)
  next
    case False
    obtain r policy' where d: "ready_decision thief snapshots policy = (r, policy')"
      by (cases "ready_decision thief snapshots policy")
    then have "ws_decide thief snapshots policy = (r, policy')"
      using False by (simp add: ws_decide_shard [OF True] Let_def)
    then show ?thesis using True ready_decision_law [OF assms True d] by auto
  qed
next
  case False
  have "\<exists>e. validate_snapshots policy thief snapshots = Err e" if "\<forall>snapshot\<in>set snapshots. snapshot_ok snapshot"
  proof -
    have total: "validate_slots n xs = Ok () \<or> (\<exists>e. validate_slots n xs = Err e)" for n xs
      by (induction xs arbitrary: n) auto
    have "\<not> (unat thief < ws_width policy \<and> length snapshots = ws_width policy
        \<and> validate_slots 0 snapshots = Ok ())"
      using False that by (auto simp: shard_snapshot_def validate_slots_Ok)
    then show ?thesis
      using total [of 0 snapshots]
      by (auto simp: validate_snapshots_def ws_scheduler_index_def bind_out_def)
  qed
  then show ?thesis using False by (auto simp: ws_decide_def read_st_def bind_st_def)
qed

text \<open>C40: starvation elsewhere is answered first: when a scheduler is not backing off and another one
  has a class waiting beyond its bound, it steals, from a scheduler at least as urgent and
  from its starving class, whatever local work it has and whatever its service budget.\<close>

theorem starving_helped_first:
  assumes "ws_ok policy" "shard_snapshot policy thief snapshots"
    and "ws_backoff_remaining policy ! unat thief = 0"
    and "j < ws_width policy" "j \<noteq> unat thief"
    and "starved_class (ws_config policy) (snapshots ! j) \<noteq> None"
  shows "\<exists>plan policy'. ws_decide thief snapshots policy = (Ok (Steal plan), policy')
    \<and> urgency (ws_config policy) (snapshots ! j) \<le> urgency (ws_config policy) (snapshots ! unat (plan_victim plan))
    \<and> starved_class (ws_config policy) (snapshots ! unat (plan_victim plan)) = Some (plan_class plan)"
proof -
  obtain r policy' where d: "ready_decision thief snapshots policy = (r, policy')"
    by (cases "ready_decision thief snapshots policy")
  then have "ws_decide thief snapshots policy = (r, policy')"
    using assms(3) by (simp add: ws_decide_shard [OF assms(2)] Let_def)
  with ready_decision_law [OF assms(1,2) d] assms(4-6) show ?thesis by (elim conjE exE) auto
qed

section \<open>Backing off\<close>

text \<open>Polls of one scheduler, each with the snapshots of its moment.\<close>

fun ws_polls :: "VmSchedulerId \<Rightarrow> VmSchedulerWorkSnapshot list list
    \<Rightarrow> (VmWorkStealingPolicy, vm_error, VmWorkDirective list) stateful" where
  "ws_polls thief [] = return_st []"
| "ws_polls thief (snapshots # others) = bind_st (ws_decide thief snapshots) (\<lambda>directive.
     bind_st (ws_polls thief others) (\<lambda>directives. return_st (directive # directives)))"

lemma backoff_polls:
  assumes "ws_ok policy" "\<forall>snapshots\<in>set polls. shard_snapshot policy thief snapshots"
    and "unat thief < ws_width policy" "unat (ws_backoff_remaining policy ! unat thief) = length polls"
  shows "\<exists>directives. ws_polls thief polls policy = (Ok directives, policy\<lparr> ws_backoff_remaining :=
      (ws_backoff_remaining policy)[unat thief := 0] \<rparr>) \<and> (\<forall>d\<in>set directives. \<exists>n. d = Backoff n)"
  using assms
proof (induction polls arbitrary: policy)
  case Nil
  then have "ws_backoff_remaining policy ! unat thief = 0" by (simp add: unat_eq_0)
  then have "(ws_backoff_remaining policy)[unat thief := 0] = ws_backoff_remaining policy"
    by (metis list_update_id)
  then show ?case by (simp add: return_st_def)
next
  case (Cons snapshots polls)
  let ?i = "unat thief"
  let ?rem = "ws_backoff_remaining policy ! ?i"
  let ?p = "policy\<lparr> ws_backoff_remaining := (ws_backoff_remaining policy)[?i := ?rem - 1] \<rparr>"
  have pos: "0 < ?rem" using Cons.prems(4) by (simp add: word_gt_0 unat_gt_0 [symmetric])
  have len: "length (ws_backoff_remaining policy) = ws_width policy" using Cons.prems(1) by (simp add: ws_ok_def)
  have step: "ws_decide thief snapshots policy = (Ok (Backoff (?rem - 1)), ?p)"
    using Cons.prems(2) pos by (simp add: ws_decide_shard Let_def)
  have "unat (?rem - 1) = length polls"
    using Cons.prems(4) pos by (simp add: unat_minus_one)
  then have "\<exists>directives. ws_polls thief polls ?p = (Ok directives, ?p\<lparr> ws_backoff_remaining :=
      (ws_backoff_remaining ?p)[?i := 0] \<rparr>) \<and> (\<forall>d\<in>set directives. \<exists>n. d = Backoff n)"
    using Cons.prems len by (intro Cons.IH) (auto simp: ws_ok_updates shard_snapshot_def)
  then show ?case using step by (auto simp: bind_st_def return_st_def)
qed

lemma unat_push_bit_one: "k < 32 \<Longrightarrow> unat (push_bit k (1 :: u32)) = 2 ^ k"
  by (simp only: unsigned_push_bit_eq unsigned_1) (simp add: push_bit_eq_mult take_bit_nat_eq_self)

lemma unat_power_two: "k < 32 \<Longrightarrow> unat ((2 :: u32) ^ k) = 2 ^ k"
  using unat_push_bit_one [of k] by (simp add: push_bit_eq_mult)

lemma polls_then_ready:
  assumes ok: "ws_ok p" and thief: "unat thief < ws_width p"
    and polls: "length polls = unat (ws_backoff_remaining p ! unat thief)"
      "\<forall>x\<in>set (polls @ [snapshots]). shard_snapshot p thief x"
  obtains waits p2 directive p3 where "ws_polls thief polls p = (Ok waits, p2)" "\<forall>d\<in>set waits. \<exists>n. d = Backoff n"
    "ws_decide thief snapshots p2 = (Ok directive, p3)" "\<forall>n. directive \<noteq> Backoff n"
proof -
  let ?p2 = "p\<lparr> ws_backoff_remaining := (ws_backoff_remaining p)[unat thief := 0] \<rparr>"
  have ex: "\<exists>waits. ws_polls thief polls p = (Ok waits, ?p2) \<and> (\<forall>d\<in>set waits. \<exists>n. d = Backoff n)"
    using polls(2) by (intro backoff_polls ok thief polls(1) [symmetric]) simp
  then obtain waits where w: "ws_polls thief polls p = (Ok waits, ?p2)" "\<forall>d\<in>set waits. \<exists>n. d = Backoff n"
    by blast
  have len: "length (ws_backoff_remaining p) = ws_width p" using ok by (simp add: ws_ok_def)
  have ok2: "ws_ok ?p2" using len by (simp add: ws_ok_updates [OF ok])
  have shard: "shard_snapshot ?p2 thief snapshots" using polls(2) by (simp add: shard_snapshot_def)
  have zero: "ws_backoff_remaining ?p2 ! unat thief = 0" using len thief by simp
  obtain out p3 where d: "ready_decision thief snapshots ?p2 = (out, p3)"
    by (cases "ready_decision thief snapshots ?p2")
  then have run: "ws_decide thief snapshots ?p2 = (out, p3)"
    unfolding ws_decide_shard [OF shard] Let_def zero by simp
  have "\<exists>directive. out = Ok directive \<and> (\<forall>n. directive \<noteq> Backoff n)"
    using ready_decision_law [OF ok2 shard d] by (elim conjE exE) auto
  with w run that show ?thesis by blast
qed

text \<open>failed steals back off exponentially within the configured bounds: after the k-th failure in
  a row the scheduler delays exactly min(maximum, minimum * 2^(k-1)) polls (the exponent
  capped at 31), at least one, and then decides again on the snapshot it is given; a steal
  that moved an actor clears the count and the delay.\<close>

theorem failed_steals_back_off:
  assumes ok: "ws_ok policy" and thief: "unat thief < ws_width policy"
    and failed: "record_steal_result thief 0 policy = (r, p1)"
  shows "r = Ok () \<and> (let b = unat (ws_backoff_remaining p1 ! unat thief) in
      b = min (unat (ws_maximum_backoff_polls (ws_config policy)))
        (unat (ws_minimum_backoff_polls (ws_config policy)) * 2 ^ min (unat (ws_failed_steals policy ! unat thief)) 31)
    \<and> 1 \<le> b
    \<and> (\<forall>polls snapshots. length polls = b \<longrightarrow> (\<forall>x\<in>set (polls @ [snapshots]). shard_snapshot policy thief x)
        \<longrightarrow> (\<exists>waits p2 directive p3. ws_polls thief polls p1 = (Ok waits, p2) \<and> (\<forall>d\<in>set waits. \<exists>n. d = Backoff n)
              \<and> ws_decide thief snapshots p2 = (Ok directive, p3) \<and> (\<forall>n. directive \<noteq> Backoff n))))
    \<and> (\<forall>moved\<in>{1..ws_steal_batch_size (ws_config policy)}. record_steal_result thief moved policy =
         (Ok (), policy\<lparr> ws_failed_steals := (ws_failed_steals policy)[unat thief := 0],
            ws_backoff_remaining := (ws_backoff_remaining policy)[unat thief := 0] \<rparr>))"
proof -
  let ?i = "unat thief" and ?least = "ws_minimum_backoff_polls (ws_config policy)"
    and ?most = "ws_maximum_backoff_polls (ws_config policy)"
  let ?count = "ws_failed_steals policy ! ?i"
  let ?next = "saturating_add ?count 1"
  let ?shift = "min (saturating_sub ?next 1) 31"
  let ?delay = "min (saturating_mul ?least (push_bit (unat ?shift) 1)) ?most"
  let ?p = "policy\<lparr> ws_failed_steals := (ws_failed_steals policy)[?i := ?next],
      ws_backoff_remaining := (ws_backoff_remaining policy)[?i := ?delay] \<rparr>"
  have run: "r = Ok ()" "p1 = ?p"
    using failed thief by (auto simp: record_steal_result_def ws_scheduler_index_def read_st_def bind_st_def Let_def)
  have len: "length (ws_backoff_remaining policy) = ws_width policy" using ok by (simp add: ws_ok_def)
  have least: "1 \<le> unat ?least" "unat ?least \<le> unat ?most"
    using ok by (simp_all add: ws_ok_def word_gt_0 word_le_nat_alt Suc_le_eq unat_gt_0)
  have "unat (saturating_sub ?next 1) = min (unat ?count) (2 ^ 32 - 2)"
    by (simp add: unat_saturating_sub unat_saturating_add)
  then have shift: "unat ?shift = min (unat ?count) 31"
    by (simp add: min_def word_le_nat_alt)
  have delay: "unat ?delay = min (unat ?most) (unat ?least * 2 ^ min (unat ?count) 31)"
  proof -
    have "unat ?most \<le> 2 ^ 32 - 1" using unsigned_less [of ?most, where 'a = nat] by simp
    moreover have "unat (saturating_mul ?least (push_bit (unat ?shift) 1))
        = min (unat ?least * 2 ^ min (unat ?count) 31) (2 ^ 32 - 1)"
      by (simp add: unat_saturating_mul shift unat_push_bit_one unat_power_two)
    moreover have "unat (min a b) = min (unat a) (unat b)" for a b :: u32
      by (simp add: min_def word_le_nat_alt)
    ultimately show ?thesis by simp
  qed
  have remaining: "ws_backoff_remaining p1 ! ?i = ?delay" using run(2) len thief by simp
  have "1 \<le> unat ?delay" unfolding delay using least by (simp add: Suc_le_eq)
  have ok1: "ws_ok p1" "ws_width p1 = ws_width policy" using ok run(2) by (simp_all add: ws_ok_def)
  have "\<exists>waits p2 directive p3. ws_polls thief polls p1 = (Ok waits, p2) \<and> (\<forall>d\<in>set waits. \<exists>n. d = Backoff n)
      \<and> ws_decide thief snapshots p2 = (Ok directive, p3) \<and> (\<forall>n. directive \<noteq> Backoff n)"
    if polls: "length polls = unat ?delay" "\<forall>x\<in>set (polls @ [snapshots]). shard_snapshot policy thief x"
    for polls snapshots
  proof -
    have "\<forall>x\<in>set (polls @ [snapshots]). shard_snapshot p1 thief x"
      using polls(2) ok1(2) by (simp add: shard_snapshot_def)
    then show ?thesis
      using polls_then_ready [of p1 thief polls snapshots] ok1 thief polls(1) remaining by metis
  qed
  moreover have "record_steal_result thief moved policy =
      (Ok (), policy\<lparr> ws_failed_steals := (ws_failed_steals policy)[?i := 0],
         ws_backoff_remaining := (ws_backoff_remaining policy)[?i := 0] \<rparr>)"
    if "moved \<in> {1..ws_steal_batch_size (ws_config policy)}" for moved
    using that thief by (simp add: record_steal_result_def ws_scheduler_index_def read_st_def bind_st_def)
  ultimately show ?thesis
    using run(1) delay \<open>1 \<le> unat ?delay\<close> by (simp add: remaining Let_def)
qed

section \<open>Witnesses\<close>

definition sample_config :: VmWorkStealingConfig where
  "sample_config = \<lparr> ws_local_service_budget = 8, ws_steal_batch_size = 4, ws_locality_threshold = 1,
     ws_minimum_backoff_polls = 1, ws_maximum_backoff_polls = 64, ws_starvation_bounds = [6, 12, 24] \<rparr>"

definition sample_policy :: VmWorkStealingPolicy where
  "sample_policy = \<lparr> ws_config = sample_config, ws_width = 2, ws_victim_cursor = [0, 0],
     ws_service_cursor = [0, 0], ws_local_services = [0, 0], ws_failed_steals = [2, 0],
     ws_backoff_remaining = [0, 0] \<rparr>"

definition sample_work :: "VmSchedulerWorkSnapshot list" where
  "sample_work = [\<lparr> work_scheduler = 0, work_runnable = [0, 3, 0], work_oldest_wait_ticks = [0, 2, 0] \<rparr>,
     \<lparr> work_scheduler = 1, work_runnable = [2, 0, 1], work_oldest_wait_ticks = [7, 0, 0] \<rparr>]"

lemma sample_policy_ok: "ws_ok sample_policy"
  by (simp add: ws_ok_def sample_policy_def sample_config_def usize_max_def)

lemma sample_work_shard: "shard_snapshot sample_policy 0 sample_work"
  by (simp add: shard_snapshot_def sample_policy_def sample_work_def snapshot_ok_def less_Suc_eq numeral_2_eq_2 CLASS_COUNT_def)

lemma decisions_are_sound_witness:
  "\<exists>directive policy'. ws_decide 0 sample_work sample_policy = (Ok directive, policy')
     \<and> directive_sound sample_config 0 sample_work directive \<and> ws_ok policy'"
  using decisions_are_sound [OF sample_policy_ok, of 0 sample_work] sample_work_shard
  by (simp add: sample_policy_def)

lemma starving_helped_first_witness:
  "\<exists>plan policy'. ws_decide 0 sample_work sample_policy = (Ok (Steal plan), policy')
     \<and> starved_class sample_config (sample_work ! unat (plan_victim plan)) = Some (plan_class plan)"
proof -
  have "starved_class (ws_config sample_policy) (sample_work ! 1) \<noteq> None"
    by (simp add: starved_class_def sample_policy_def sample_config_def sample_work_def steal_classes_def runnable_in_def)
  then show ?thesis
    using starving_helped_first [OF sample_policy_ok sample_work_shard, of 1]
    by (auto simp: sample_policy_def)
qed

lemma failed_steals_back_off_witness:
  "ws_backoff_remaining (snd (record_steal_result 0 0 sample_policy)) ! 0 = 4"
proof -
  obtain r p1 where d: "record_steal_result 0 0 sample_policy = (r, p1)"
    by (cases "record_steal_result 0 0 sample_policy")
  have "unat (ws_backoff_remaining p1 ! 0) = 4"
    using failed_steals_back_off [OF sample_policy_ok _ d]
    by (simp add: sample_policy_def sample_config_def Let_def)
  then have "ws_backoff_remaining p1 ! 0 = 4" by (simp add: word_unat_eq_iff)
  with d show ?thesis by simp
qed

end
