(* ===== verification/Process_Factory.thy ===== *)
theory Process_Factory
  imports Process_Laws
begin

text \<open>
  The process table as the supervisors and the owners of timers use it: processes that exit
  and are replaced by fresh ones. The locale \<open>process_factory\<close> extends the contract
  \<open>process_store\<close> by spawning, with the newest identity handed out and the room left; its
  interpretation on the table discharges the laws.
\<close>

section \<open>Operations that keep a measure of the state\<close>

definition preserves :: "('s \<Rightarrow> 'x) \<Rightarrow> ('s, 'e, 'a) stateful \<Rightarrow> bool" where
  "preserves g m \<longleftrightarrow> (\<forall>s. g (snd (m s)) = g s)"

lemma preservesD: "preserves g m \<Longrightarrow> m s = (r, s') \<Longrightarrow> g s' = g s"
  unfolding preserves_def by (metis snd_conv)

lemma preserves_bind:
  "preserves g m \<Longrightarrow> (\<And>a. preserves g (f a)) \<Longrightarrow> preserves g (bind_st m f)"
  unfolding preserves_def bind_st_def by (auto split: prod.splits outcome.splits) (metis snd_conv)+

lemma preserves_simple:
  "preserves g (read_st h)" "preserves g (return_st a)" "preserves g (\<lambda>s. (r, s))"
  by (simp_all add: preserves_def read_st_def return_st_def)

lemma preserves_map_err: "preserves g m \<Longrightarrow> preserves g (map_err_st h m)"
  by (auto simp: preserves_def map_err_st_def split: prod.splits) (metis snd_conv)

lemma preserves_expect: "preserves g m \<Longrightarrow> preserves g (expect_st h m)"
  by (auto simp: preserves_def expect_st_def split: prod.splits) (metis snd_conv)

lemma preserves_if: "(b \<Longrightarrow> preserves g m) \<Longrightarrow> (\<not> b \<Longrightarrow> preserves g n) \<Longrightarrow> preserves g (if b then m else n)"
  by simp

definition dir_size :: "('t, 'q) VmActorDirectory \<Rightarrow> nat" where
  "dir_size d = length (dir_slots d)"

definition pt_size :: "'q VmProcessTable \<Rightarrow> nat" where
  "pt_size t = dir_size (pt_processes t)"

lemma dir_size_put [simp]: "dir_size (dir_put_cell i c d) = dir_size d"
  by (simp add: dir_size_def dir_put_cell_def)

lemma preserves_exchange: "preserves dir_size (dir_exchange i c before_word after_word)"
  by (simp add: preserves_def dir_exchange_def split: prod.split)

lemma preserves_transition: "preserves dir_size (dir_transition_unowned pid allowed later)"
  unfolding preserves_def dir_transition_unowned_def
  by (auto simp: bind_st_def read_st_def return_st_def map_err_st_def Let_def dir_exchange_def
      split: prod.splits outcome.splits if_splits)

lemma preserves_exit_steps:
  "preserves dir_size (dir_mark_exiting pid)" "preserves dir_size (dir_mark_retired pid)"
  "preserves dir_size (dir_acquire_control_mutator pid owner)"
  "preserves dir_size (dir_with_mutator token mutate)"
  "preserves dir_size (dir_release_control_mutator token)"
  unfolding dir_mark_exiting_def dir_mark_retired_def
  by (intro preserves_bind preserves_if preserves_simple preserves_transition)+
    (auto simp: preserves_def dir_acquire_control_mutator_def dir_with_mutator_def
      dir_release_control_mutator_def bind_st_def read_st_def return_st_def map_err_st_def Let_def
      dir_exchange_def split: prod.splits outcome.splits if_splits)

lemma preserves_on_processes:
  "preserves dir_size f \<Longrightarrow> preserves pt_size (on_processes f)"
  "preserves dir_size f \<Longrightarrow> preserves pt_next_pid (on_processes f)"
  by (auto simp: preserves_def on_processes_def pt_size_def split: prod.splits) (metis snd_conv)

lemma preserves_on_directory:
  "preserves dir_size f \<Longrightarrow> preserves pt_size (on_directory f)"
  "preserves dir_size f \<Longrightarrow> preserves pt_next_pid (on_directory f)"
  by (simp_all add: on_directory_def preserves_map_err preserves_on_processes)

lemma preserves_control:
  "preserves pt_size (with_process_control_mutator pid mutate)"
  "preserves pt_next_pid (with_process_control_mutator pid mutate)"
  unfolding with_process_control_mutator_def
  by (intro preserves_bind preserves_on_directory preserves_exit_steps;
      auto intro!: preserves_bind preserves_on_directory preserves_on_processes preserves_exit_steps
        preserves_expect preserves_simple split: outcome.split)+

lemma preserves_names:
  "pt_size (snd (remove_registered_names pid t)) = pt_size t"
  "pt_next_pid (snd (remove_registered_names pid t)) = pt_next_pid t"
  by (simp_all add: remove_registered_names_def pt_size_def Let_def)

lemma preserves_exit:
  "preserves pt_size (pt_exit_process pid reason)" "preserves pt_next_pid (pt_exit_process pid reason)"
proof -
  have keep: "preserves g (pt_exit_process pid reason)"
    if "\<And>f :: ((VmProcess, 'q) VmActorDirectory, VmActorDirectoryError, unit) stateful.
          preserves dir_size f \<Longrightarrow> preserves g (on_directory f)"
      "\<And>mutate :: (VmProcess, vm_error, string list) stateful.
          preserves g (with_process_control_mutator pid mutate)"
      "\<And>t. g (snd (remove_registered_names pid t)) = g t"
    for g :: "'q VmProcessTable \<Rightarrow> 'x"
  proof -
    have "preserves g (bind_st (on_directory (dir_mark_exiting pid)) (\<lambda>_.
        bind_st (with_process_control_mutator pid
            (\<lambda>p. case proc_exit reason p of (handles, p') \<Rightarrow> (Ok handles, p'))) (\<lambda>cleanup.
        bind_st (on_directory (dir_mark_retired pid)) (\<lambda>_ t.
          (Ok cleanup, snd (remove_registered_names pid t))))))"
      by (intro preserves_bind that(1,2) preserves_exit_steps)
        (simp add: preserves_def that(3))
    then show ?thesis by (auto simp: preserves_def pt_exit_process_def)
  qed
  show "preserves pt_size (pt_exit_process pid reason)"
    by (rule keep [OF preserves_on_directory(1) preserves_control(1) preserves_names(1)])
  show "preserves pt_next_pid (pt_exit_process pid reason)"
    by (rule keep [OF preserves_on_directory(2) preserves_control(2) preserves_names(2)])
qed

section \<open>Room\<close>

text \<open>A lower bound on the spawns that are certain to succeed: slots the directory has not made
  yet and identities not handed out.\<close>

definition pt_room :: "'q VmProcessTable \<Rightarrow> nat" where
  "pt_room t = min (2 ^ 32 - pt_size t) (2 ^ 64 - 1 - unat (pt_next_pid t))"

lemma pt_room_exit: "pt_exit_process pid reason t = (r, t') \<Longrightarrow> pt_room t' = pt_room t"
  using preservesD [OF preserves_exit(1)] preservesD [OF preserves_exit(2)] unfolding pt_room_def by metis

lemma dir_insert_size:
  assumes "dir_insert Q pid v d = (r, d')"
  shows "dir_size d' \<le> Suc (dir_size d)"
  using assms
  by (auto simp: dir_insert_def dir_take_slot_def dir_occupy_slot_def dir_size_def bind_st_def Let_def
      split: option.splits outcome.splits if_splits prod.splits)

lemma pt_spawn_size:
  "pt_spawn Q parent source t = (r, t') \<Longrightarrow> pt_size t' \<le> Suc (pt_size t)"
  using dir_insert_size
  by (auto simp: pt_spawn_def pt_size_def Let_def bind_st_def expect_st_def on_processes_def return_st_def
      split: prod.splits outcome.splits)

section \<open>The contract\<close>

text \<open>A process at the end of \<open>exit\<close>, which leaves an exited one alone.\<close>

definition exited_as :: "VmExitReason \<Rightarrow> VmProcess \<Rightarrow> VmProcess" where
  "exited_as reason p = (if is_exited (proc_state p) then p else snd (proc_exit reason p))"

lemma exited_as_exited [simp]: "is_exited (proc_state (exited_as reason p))"
  by (simp add: exited_as_def proc_exit_def)

locale process_factory = process_store get exit deliver invar
  for get :: "'t \<Rightarrow> VmProcessId \<Rightarrow> VmProcess option" and exit deliver invar +
  fixes spawn :: "VmProcessSource \<Rightarrow> ('t, vm_error, VmProcessId) stateful"
    and newest :: "'t \<Rightarrow> VmProcessId"
    and room :: "'t \<Rightarrow> nat"
  assumes spawn_fresh: "invar t \<Longrightarrow> 0 < room t \<Longrightarrow>
      \<exists>pid t'. spawn source t = (Ok pid, t') \<and> invar t' \<and> get t pid = None
        \<and> get t' = (get t)(pid \<mapsto> new_process pid None source)
        \<and> newest t < pid \<and> newest t' = pid \<and> room t \<le> Suc (room t')"
    and exit_keeps: "exit pid reason t = (r, t') \<Longrightarrow> newest t' = newest t \<and> room t' = room t"
    and known_newest: "invar t \<Longrightarrow> get t pid = Some p \<Longrightarrow> pid \<le> newest t"
begin

definition retire :: "VmProcessId \<Rightarrow> VmExitReason \<Rightarrow> ('t, vm_error, unit) stateful" where
  "retire pid reason t =
     (if \<not> (case get t pid of Some process \<Rightarrow> is_exited (proc_state process) | None \<Rightarrow> False)
      then bind_st (exit pid reason) (\<lambda>_. return_st ()) t else (Ok (), t))"

lemma retire_effect:
  assumes t: "invar t" and p: "get t pid = Some p"
  obtains t' where "retire pid reason t = (Ok (), t')" "invar t'"
    "get t' = (get t)(pid \<mapsto> exited_as reason p)" "newest t' = newest t" "room t' = room t"
proof (cases "is_exited (proc_state p)")
  case True
  then have "retire pid reason t = (Ok (), t)" using p by (simp add: retire_def)
  moreover have "get t = (get t)(pid \<mapsto> exited_as reason p)"
    using p True by (auto simp: exited_as_def)
  ultimately show ?thesis by (intro that [of t] t) simp_all
next
  case False
  then obtain t' where t': "exit pid reason t = (Ok (proc_resource_handles p), t')" "invar t'"
      "get t' = (get t)(pid \<mapsto> snd (proc_exit reason p))"
    using exit_live [OF t p] by blast
  then have "retire pid reason t = (Ok (), t')"
    using p False by (simp add: retire_def return_st_def)
  then show ?thesis
    using t' False exit_keeps [OF t'(1)] by (intro that [of t']) (simp_all add: exited_as_def)
qed

lemma replace_law:
  assumes t: "invar t" and p: "get t pid = Some p" and room: "0 < room t"
  obtains t1 new t2 where "retire pid reason t = (Ok (), t1)" "spawn source t1 = (Ok new, t2)" "invar t2"
    "get t2 = (get t)(pid \<mapsto> exited_as reason p, new \<mapsto> new_process new None source)"
    "newest t < new" "newest t2 = new" "room t \<le> Suc (room t2)" "get t new = None" "new \<noteq> pid"
proof -
  obtain t1 where t1: "retire pid reason t = (Ok (), t1)" "invar t1"
      "get t1 = (get t)(pid \<mapsto> exited_as reason p)" "newest t1 = newest t" "room t1 = room t"
    using retire_effect [OF t p] by blast
  obtain new t2 where t2: "spawn source t1 = (Ok new, t2)" "invar t2" "get t1 new = None"
      "get t2 = (get t1)(new \<mapsto> new_process new None source)"
      "newest t1 < new" "newest t2 = new" "room t1 \<le> Suc (room t2)"
    using spawn_fresh [OF t1(2)] room t1(5) by metis
  have "get t new = None" "new \<noteq> pid" using t2(3) t1(3) by (auto split: if_splits)
  then show ?thesis using t1 t2 by (intro that [OF t1(1) t2(1,2)]) simp_all
qed

end

interpretation pf: process_factory pt_get pt_exit_process "enqueue_message Q" "pt_ok Q contents capacity"
    "spawn_root Q" pt_next_pid pt_room
  for Q contents capacity
proof unfold_locales
  fix t :: "'a VmProcessTable" and source pid reason r t' p
  show "\<exists>pid t'. spawn_root Q source t = (Ok pid, t') \<and> pt_ok Q contents capacity t' \<and> pt_get t pid = None
      \<and> pt_get t' = (pt_get t)(pid \<mapsto> new_process pid None source)
      \<and> pt_next_pid t < pid \<and> pt_next_pid t' = pid \<and> pt_room t \<le> Suc (pt_room t')"
    if ok: "pt_ok Q contents capacity t" and room: "0 < pt_room t"
  proof -
    have bound: "pt_next_pid t \<noteq> - 1" "unat (pt_next_pid t) < 2 ^ 64 - 1"
      using room by (auto simp: pt_room_def unat_max_word)
    have "pt_has_room t" using room by (simp add: pt_room_def pt_has_room_def dir_has_room_def pt_size_def dir_size_def)
    then obtain t' where t': "pt_spawn Q None source t = (Ok (saturating_add (pt_next_pid t) 1), t')"
        "pt_ok Q contents capacity t'" "pt_get t (saturating_add (pt_next_pid t) 1) = None"
        "pt_get t' = (pt_get t)(saturating_add (pt_next_pid t) 1 \<mapsto> new_process (saturating_add (pt_next_pid t) 1) None source)"
        "pt_next_pid t' = saturating_add (pt_next_pid t) 1"
      using spawn_law [OF ok bound(1)] by metis
    have "unat (pt_next_pid t') = Suc (unat (pt_next_pid t))"
      using t'(5) bound(2) by (simp add: unat_saturating_add)
    then have "pt_room t \<le> Suc (pt_room t')"
      using pt_spawn_size [OF t'(1)] by (simp add: pt_room_def)
    with t' saturating_add_one_gt [OF bound(1)] show ?thesis by (auto simp: spawn_root_def)
  qed
  show "pt_next_pid t' = pt_next_pid t \<and> pt_room t' = pt_room t" if "pt_exit_process pid reason t = (r, t')"
    using pt_room_exit [OF that] preservesD [OF preserves_exit(2) that] by simp
  show "pid \<le> pt_next_pid t" if "pt_ok Q contents capacity t" "pt_get t pid = Some p"
    by (rule pt_get_facts(4) [OF that])
qed

end
