(* ===== verification/Supervision.thy ===== *)
theory Supervision
  imports Process_Factory
begin

text \<open>
  Supervisor trees: \<open>VmSupervisionSystem\<close> of \<open>runtime/vm/supervision.rs\<close> and the back-off
  schedule of \<open>runtime/vm/restart_backoff.rs\<close>, over the process table. The state of an
  operation that takes the supervision system and the table is a pair, as is that of one
  that takes a supervisor, or a child, and the table. The rebuilding of a subtree recurses
  through child supervisors; its recursion is bounded by fuel, one more than the number of
  supervisors.
\<close>

section \<open>Back-off\<close>

record VmRestartBackoffSchedule =
  initial_delay_ms :: u64
  max_delay_ms :: u64

text \<open>The loop of \<open>delay_for_restart_count\<close>, by the rounds left.\<close>

fun delay_rounds :: "nat \<Rightarrow> VmRestartBackoffSchedule \<Rightarrow> u64 \<Rightarrow> u64" where
  "delay_rounds 0 schedule delay = delay"
| "delay_rounds (Suc rounds) schedule delay =
     delay_rounds rounds schedule (min (saturating_mul delay 2) (max_delay_ms schedule))"

definition delay_for_restart_count :: "VmRestartBackoffSchedule \<Rightarrow> u32 \<Rightarrow> u64" where
  "delay_for_restart_count schedule restart_count =
     (if restart_count = 0 \<or> initial_delay_ms schedule = 0 \<or> max_delay_ms schedule = 0 then 0
      else min (delay_rounds (unat restart_count - 1) schedule (initial_delay_ms schedule))
             (max_delay_ms schedule))"

section \<open>Data\<close>

type_synonym VmSupervisorId = u64

datatype VmRestartPolicy = OneForOne | OneForAll | RestForOne

datatype VmSupervisorState =
    SupervisorRunning
  | SupervisorFailed string VmProcessId VmExitReason
  | ChildSupervisorFailed VmSupervisorId VmExitReason

datatype VmSupervisorRestartHistoryOutcome = HistoryRestarted | HistoryNotRestarted | HistoryLimitReached

record VmSupervisorRestartHistoryEntry =
  entry_child_id :: string
  entry_old_pid :: VmProcessId
  entry_new_pid :: "VmProcessId option"
  entry_restart_count :: u32
  entry_reason :: VmExitReason
  entry_outcome :: VmSupervisorRestartHistoryOutcome
  entry_restart_delay_ms :: u64
  entry_shutdown_timeout_ms :: "u64 option"

datatype VmChildRestartClass = Permanent | Transient | Temporary

fun should_restart :: "VmChildRestartClass \<Rightarrow> VmExitReason \<Rightarrow> bool" where
  "should_restart Permanent reason = True"
| "should_restart Transient reason = (case reason of Normal \<Rightarrow> False | _ \<Rightarrow> True)"
| "should_restart Temporary reason = False"

record VmShutdownTimeout =
  timeout_ms :: u64

record VmChildSpec =
  spec_id :: string
  spec_source :: VmProcessSource
  spec_restart_limit :: u32
  spec_restart_class :: VmChildRestartClass
  spec_restart_backoff :: "VmRestartBackoffSchedule option"
  spec_shutdown_timeout :: "VmShutdownTimeout option"

definition child_spec_new :: "string \<Rightarrow> VmProcessSource \<Rightarrow> u32 \<Rightarrow> VmChildSpec" where
  "child_spec_new name source restart_limit =
     \<lparr> spec_id = name, spec_source = source, spec_restart_limit = restart_limit,
       spec_restart_class = Permanent, spec_restart_backoff = None, spec_shutdown_timeout = None \<rparr>"

definition with_restart_class :: "VmChildRestartClass \<Rightarrow> VmChildSpec \<Rightarrow> VmChildSpec" where
  "with_restart_class restart_class spec = spec\<lparr> spec_restart_class := restart_class \<rparr>"

definition with_restart_backoff :: "VmRestartBackoffSchedule \<Rightarrow> VmChildSpec \<Rightarrow> VmChildSpec" where
  "with_restart_backoff restart_backoff spec = spec\<lparr> spec_restart_backoff := Some restart_backoff \<rparr>"

definition with_shutdown_timeout :: "VmShutdownTimeout \<Rightarrow> VmChildSpec \<Rightarrow> VmChildSpec" where
  "with_shutdown_timeout shutdown_timeout spec = spec\<lparr> spec_shutdown_timeout := Some shutdown_timeout \<rparr>"

record VmSupervisionRestartEvent =
  event_child_id :: string
  event_old_pid :: VmProcessId
  event_new_pid :: VmProcessId
  event_restart_count :: u32
  event_restart_delay_ms :: u64
  event_shutdown_timeout_ms :: "u64 option"

text \<open>\<open>Restarted\<close> carries the old and the new process, the restart count, the delay and the
  shutdown timeout, in the order of the source.\<close>

datatype VmSupervisionRestart =
    Restarted VmProcessId VmProcessId u32 u64 "u64 option"
  | RestartedGroup "VmSupervisionRestartEvent list"
  | NotRestarted VmProcessId VmChildRestartClass VmExitReason
  | LimitReached VmProcessId u32

record VmSupervisorChild =
  sc_spec :: VmChildSpec
  sc_pid :: VmProcessId
  sc_restart_count :: u32
  sc_last_restart_delay_ms :: u64
  sc_last_shutdown_timeout_ms :: "u64 option"

record VmSupervisor =
  sv_id :: VmSupervisorId
  sv_parent_id :: "VmSupervisorId option"
  sv_name :: string
  sv_policy :: VmRestartPolicy
  sv_state :: VmSupervisorState
  sv_child_order :: "string list"
  sv_children :: "(string, VmSupervisorChild) btree"
  sv_restart_history :: "VmSupervisorRestartHistoryEntry list"

record VmSupervisionSystem =
  sys_next_supervisor_id :: u64
  sys_supervisors :: "(VmSupervisorId, VmSupervisor) btree"

definition supervision_default :: VmSupervisionSystem where
  "supervision_default = \<lparr> sys_next_supervisor_id = 0, sys_supervisors = [] \<rparr>"

definition put_child :: "string \<Rightarrow> VmSupervisorChild \<Rightarrow> VmSupervisor \<Rightarrow> VmSupervisor" where
  "put_child child_id child supervisor =
     supervisor\<lparr> sv_children := bt_insert child_id child (sv_children supervisor) \<rparr>"

definition put_supervisor :: "VmSupervisorId \<Rightarrow> VmSupervisor \<Rightarrow> VmSupervisionSystem
    \<Rightarrow> VmSupervisionSystem" where
  "put_supervisor supervisor_id supervisor system =
     system\<lparr> sys_supervisors := bt_insert supervisor_id supervisor (sys_supervisors system) \<rparr>"

type_synonym 'q supervised = "VmSupervisionSystem \<times> 'q VmProcessTable"

section \<open>Building trees\<close>

definition insert_supervisor :: "VmSupervisorId option \<Rightarrow> string \<Rightarrow> VmRestartPolicy
    \<Rightarrow> VmSupervisionSystem \<Rightarrow> VmSupervisorId \<times> VmSupervisionSystem" where
  "insert_supervisor parent_id name policy system =
     (let system = system\<lparr> sys_next_supervisor_id := saturating_add (sys_next_supervisor_id system) 1 \<rparr>;
          supervisor_id = sys_next_supervisor_id system
      in (supervisor_id, put_supervisor supervisor_id
           \<lparr> sv_id = supervisor_id, sv_parent_id = parent_id, sv_name = name, sv_policy = policy,
             sv_state = SupervisorRunning, sv_child_order = [], sv_children = [],
             sv_restart_history = [] \<rparr> system))"

definition create_supervisor_with_policy :: "string \<Rightarrow> VmRestartPolicy
    \<Rightarrow> VmSupervisionSystem \<Rightarrow> VmSupervisorId \<times> VmSupervisionSystem" where
  "create_supervisor_with_policy name policy = insert_supervisor None name policy"

definition create_supervisor :: "string \<Rightarrow> VmSupervisionSystem \<Rightarrow> VmSupervisorId \<times> VmSupervisionSystem" where
  "create_supervisor name = create_supervisor_with_policy name OneForOne"

definition create_child_supervisor_with_policy :: "VmSupervisorId \<Rightarrow> string \<Rightarrow> VmRestartPolicy
    \<Rightarrow> (VmSupervisionSystem, vm_error, VmSupervisorId) stateful" where
  "create_child_supervisor_with_policy parent_id name policy system =
     (if \<not> bt_contains (sys_supervisors system) parent_id then
        (Err (Msg ''missing supervisor {}'' [ANum parent_id]), system)
      else case insert_supervisor (Some parent_id) name policy system of
        (supervisor_id, system) \<Rightarrow> (Ok supervisor_id, system))"

definition start_child :: "'q queue_of \<Rightarrow> VmSupervisorId \<Rightarrow> VmChildSpec
    \<Rightarrow> ('q supervised, vm_error, VmProcessId) stateful" where
  "start_child Q supervisor_id spec = (\<lambda>(system, processes).
     case bt_get (sys_supervisors system) supervisor_id of
       None \<Rightarrow> (Err (Msg ''missing supervisor {}'' [ANum supervisor_id]), (system, processes))
     | Some supervisor \<Rightarrow>
         if bt_contains (sv_children supervisor) (spec_id spec) then
           (Err (Msg ''child `{}` already exists'' [AStr (spec_id spec)]), (system, processes))
         else case spawn_root Q (spec_source spec) processes of
           (Ok pid, processes) \<Rightarrow>
             (Ok pid, (put_supervisor supervisor_id ((put_child (spec_id spec)
                \<lparr> sc_spec = spec, sc_pid = pid, sc_restart_count = 0, sc_last_restart_delay_ms = 0,
                  sc_last_shutdown_timeout_ms = None \<rparr> supervisor)
                \<lparr> sv_child_order := sv_child_order supervisor @ [spec_id spec] \<rparr>) system, processes))
         | (Err e, processes) \<Rightarrow> (Err e, (system, processes))
         | (Panic p, processes) \<Rightarrow> (Panic p, (system, processes)))"

section \<open>Restarting one child\<close>

definition restart_delay_ms :: "VmChildSpec \<Rightarrow> u32 \<Rightarrow> u64" where
  "restart_delay_ms spec restart_count = (case spec_restart_backoff spec of
     Some schedule \<Rightarrow> delay_for_restart_count schedule restart_count | None \<Rightarrow> 0)"

definition shutdown_timeout_ms :: "VmChildSpec \<Rightarrow> u64 option" where
  "shutdown_timeout_ms spec = map_option timeout_ms (spec_shutdown_timeout spec)"

text \<open>The step every restart begins with: the old process exits unless it has exited already.\<close>

definition ensure_exited :: "VmProcessId \<Rightarrow> VmExitReason \<Rightarrow> ('q VmProcessTable, vm_error, unit) stateful" where
  "ensure_exited old_pid reason processes =
     (if \<not> (case pt_get processes old_pid of Some process \<Rightarrow> is_exited (proc_state process) | None \<Rightarrow> False)
      then bind_st (pt_exit_process old_pid reason) (\<lambda>_. return_st ()) processes
      else (Ok (), processes))"

definition on_processes_of :: "('b, 'e, 'a) stateful \<Rightarrow> ('s \<times> 'b, 'e, 'a) stateful" where
  "on_processes_of f = (\<lambda>(s, processes). case f processes of (r, processes) \<Rightarrow> (r, (s, processes)))"

definition replace_process :: "'q queue_of \<Rightarrow> (VmSupervisorChild \<times> 'q VmProcessTable, vm_error, VmProcessId) stateful" where
  "replace_process Q = (\<lambda>(child, processes).
     bind_st (on_processes_of (spawn_root Q (spec_source (sc_spec child)))) (\<lambda>new_pid (child, processes).
       (Ok new_pid, (child\<lparr> sc_pid := new_pid \<rparr>, processes))) (child, processes))"

definition restart_one_for_one_child :: "'q queue_of \<Rightarrow> VmExitReason
    \<Rightarrow> (VmSupervisorChild \<times> 'q VmProcessTable, vm_error, VmSupervisionRestart) stateful" where
  "restart_one_for_one_child Q reason = (\<lambda>(child, processes).
     let old_pid = sc_pid child; shutdown_timeout = shutdown_timeout_ms (sc_spec child) in
     bind_st (on_processes_of (ensure_exited old_pid reason)) (\<lambda>_ (child, processes).
       let child = child\<lparr> sc_last_shutdown_timeout_ms := shutdown_timeout \<rparr> in
       if \<not> should_restart (spec_restart_class (sc_spec child)) reason then
         (Ok (NotRestarted old_pid (spec_restart_class (sc_spec child)) reason), (child, processes))
       else if spec_restart_limit (sc_spec child) \<le> sc_restart_count child then
         (Ok (LimitReached old_pid (sc_restart_count child)), (child, processes))
       else
         let child = child\<lparr> sc_restart_count := sc_restart_count child + 1 \<rparr>;
             child = child\<lparr> sc_last_restart_delay_ms := restart_delay_ms (sc_spec child) (sc_restart_count child) \<rparr>
         in bind_st (replace_process Q) (\<lambda>new_pid (child, processes).
              (Ok (Restarted old_pid new_pid (sc_restart_count child) (sc_last_restart_delay_ms child)
                 (sc_last_shutdown_timeout_ms child)), (child, processes))) (child, processes))
       (child, processes))"

section \<open>Restarting a group\<close>

text \<open>The first loop of \<open>restart_child_group\<close>: the first child whose restart is due but whose
  limit is reached.\<close>

fun group_limit :: "VmSupervisor \<Rightarrow> VmExitReason \<Rightarrow> string list
    \<Rightarrow> (vm_error, VmSupervisionRestart option) outcome" where
  "group_limit supervisor reason [] = Ok None"
| "group_limit supervisor reason (child_id # child_ids) = (case bt_get (sv_children supervisor) child_id of
     None \<Rightarrow> Panic ''group restart child id came from supervisor child order''
   | Some child \<Rightarrow>
       if should_restart (spec_restart_class (sc_spec child)) reason
         \<and> spec_restart_limit (sc_spec child) \<le> sc_restart_count child
       then Ok (Some (LimitReached (sc_pid child) (sc_restart_count child)))
       else group_limit supervisor reason child_ids)"

text \<open>The body of its second loop, for one child.\<close>

definition restart_group_child :: "'q queue_of \<Rightarrow> VmExitReason \<Rightarrow> string
    \<Rightarrow> (VmSupervisorChild \<times> 'q VmProcessTable, vm_error, VmSupervisionRestartEvent option) stateful" where
  "restart_group_child Q reason child_id = (\<lambda>(child, processes).
     let old_pid = sc_pid child; shutdown_timeout = shutdown_timeout_ms (sc_spec child) in
     bind_st (on_processes_of (ensure_exited old_pid reason)) (\<lambda>_ (child, processes).
       let child = child\<lparr> sc_last_shutdown_timeout_ms := shutdown_timeout \<rparr> in
       if \<not> should_restart (spec_restart_class (sc_spec child)) reason then (Ok None, (child, processes))
       else
         let child = child\<lparr> sc_restart_count := sc_restart_count child + 1 \<rparr>;
             child = child\<lparr> sc_last_restart_delay_ms := restart_delay_ms (sc_spec child) (sc_restart_count child) \<rparr>
         in bind_st (replace_process Q) (\<lambda>new_pid (child, processes).
              (Ok (Some \<lparr> event_child_id = child_id, event_old_pid = old_pid, event_new_pid = new_pid,
                 event_restart_count = sc_restart_count child,
                 event_restart_delay_ms = sc_last_restart_delay_ms child,
                 event_shutdown_timeout_ms = sc_last_shutdown_timeout_ms child \<rparr>), (child, processes)))
              (child, processes))
       (child, processes))"

text \<open>A change of one child of a supervisor, made in place.\<close>

definition on_child :: "string \<Rightarrow> string \<Rightarrow> (VmSupervisorChild \<times> 'p, vm_error, 'a) stateful
    \<Rightarrow> (VmSupervisor \<times> 'p, vm_error, 'a) stateful" where
  "on_child missing child_id f = (\<lambda>(supervisor, processes).
     case bt_get (sv_children supervisor) child_id of
       None \<Rightarrow> (Panic missing, (supervisor, processes))
     | Some child \<Rightarrow> (case f (child, processes) of
         (r, (child, processes)) \<Rightarrow> (r, (put_child child_id child supervisor, processes))))"

fun restart_group_loop :: "'q queue_of \<Rightarrow> VmExitReason \<Rightarrow> string list
    \<Rightarrow> (VmSupervisor \<times> 'q VmProcessTable, vm_error, VmSupervisionRestartEvent list) stateful" where
  "restart_group_loop Q reason [] = return_st []"
| "restart_group_loop Q reason (child_id # child_ids) =
     bind_st (on_child ''child id came from supervisor children'' child_id
       (restart_group_child Q reason child_id)) (\<lambda>event.
     bind_st (restart_group_loop Q reason child_ids) (\<lambda>events.
       return_st (case event of Some event \<Rightarrow> event # events | None \<Rightarrow> events)))"

definition restart_child_group :: "'q queue_of \<Rightarrow> string list \<Rightarrow> VmExitReason
    \<Rightarrow> (VmSupervisor \<times> 'q VmProcessTable, vm_error, VmSupervisionRestart) stateful" where
  "restart_child_group Q child_ids reason =
     bind_st (read_st (\<lambda>(supervisor, _). group_limit supervisor reason child_ids)) (\<lambda>limit.
       case limit of
         Some reached \<Rightarrow> return_st reached
       | None \<Rightarrow> bind_st (restart_group_loop Q reason child_ids) (\<lambda>restarted.
           return_st (RestartedGroup restarted)))"

definition restart_one_for_all_children :: "'q queue_of \<Rightarrow> VmExitReason
    \<Rightarrow> (VmSupervisor \<times> 'q VmProcessTable, vm_error, VmSupervisionRestart) stateful" where
  "restart_one_for_all_children Q reason = (\<lambda>(supervisor, processes).
     restart_child_group Q (sv_child_order supervisor) reason (supervisor, processes))"

definition restart_rest_for_one_children :: "'q queue_of \<Rightarrow> string \<Rightarrow> VmExitReason
    \<Rightarrow> (VmSupervisor \<times> 'q VmProcessTable, vm_error, VmSupervisionRestart) stateful" where
  "restart_rest_for_one_children Q child_id reason = (\<lambda>(supervisor, processes).
     case position (\<lambda>known_child_id. known_child_id = child_id) (sv_child_order supervisor) of
       None \<Rightarrow> (Panic ''child was checked before rest-for-one restart'', (supervisor, processes))
     | Some start_index \<Rightarrow> restart_child_group Q (drop start_index (sv_child_order supervisor)) reason
         (supervisor, processes))"

section \<open>History\<close>

definition restarted_entry :: "VmExitReason \<Rightarrow> VmSupervisionRestartEvent \<Rightarrow> VmSupervisorRestartHistoryEntry" where
  "restarted_entry reason event =
     \<lparr> entry_child_id = event_child_id event, entry_old_pid = event_old_pid event,
       entry_new_pid = Some (event_new_pid event), entry_restart_count = event_restart_count event,
       entry_reason = reason, entry_outcome = HistoryRestarted,
       entry_restart_delay_ms = event_restart_delay_ms event,
       entry_shutdown_timeout_ms = event_shutdown_timeout_ms event \<rparr>"

definition record_supervision_restart :: "string \<Rightarrow> VmExitReason \<Rightarrow> VmSupervisionRestart
    \<Rightarrow> VmSupervisor \<Rightarrow> VmSupervisor" where
  "record_supervision_restart child_id reason restart supervisor =
     (let known = bt_get (sv_children supervisor) child_id;
          last_timeout = (case known of Some child \<Rightarrow> sc_last_shutdown_timeout_ms child | None \<Rightarrow> None);
          entries = (case restart of
            Restarted old_pid new_pid restart_count delay shutdown_timeout \<Rightarrow>
              [\<lparr> entry_child_id = child_id, entry_old_pid = old_pid, entry_new_pid = Some new_pid,
                 entry_restart_count = restart_count, entry_reason = reason,
                 entry_outcome = HistoryRestarted, entry_restart_delay_ms = delay,
                 entry_shutdown_timeout_ms = shutdown_timeout \<rparr>]
          | RestartedGroup restarted \<Rightarrow> map (restarted_entry reason) restarted
          | NotRestarted pid _ _ \<Rightarrow>
              [\<lparr> entry_child_id = child_id, entry_old_pid = pid, entry_new_pid = None,
                 entry_restart_count = (case known of Some child \<Rightarrow> sc_restart_count child | None \<Rightarrow> 0),
                 entry_reason = reason, entry_outcome = HistoryNotRestarted,
                 entry_restart_delay_ms = 0, entry_shutdown_timeout_ms = last_timeout \<rparr>]
          | LimitReached pid restart_count \<Rightarrow>
              [\<lparr> entry_child_id = child_id, entry_old_pid = pid, entry_new_pid = None,
                 entry_restart_count = restart_count, entry_reason = reason,
                 entry_outcome = HistoryLimitReached, entry_restart_delay_ms = 0,
                 entry_shutdown_timeout_ms = last_timeout \<rparr>])
      in supervisor\<lparr> sv_restart_history := sv_restart_history supervisor @ entries \<rparr>)"

section \<open>The restart policy\<close>

definition apply_policy :: "'q queue_of \<Rightarrow> string \<Rightarrow> VmExitReason
    \<Rightarrow> (VmSupervisor \<times> 'q VmProcessTable, vm_error, VmSupervisionRestart) stateful" where
  "apply_policy Q child_id reason = (\<lambda>(supervisor, processes).
     if \<not> bt_contains (sv_children supervisor) child_id then
       (Err (Msg ''missing child `{child_id}`'' [AStr child_id]), (supervisor, processes))
     else case sv_policy supervisor of
       OneForOne \<Rightarrow> on_child [] child_id (restart_one_for_one_child Q reason) (supervisor, processes)
     | OneForAll \<Rightarrow> restart_one_for_all_children Q reason (supervisor, processes)
     | RestForOne \<Rightarrow> restart_rest_for_one_children Q child_id reason (supervisor, processes))"

definition fail_parent :: "VmSupervisorId option \<Rightarrow> VmSupervisorId \<Rightarrow> VmExitReason
    \<Rightarrow> VmSupervisionSystem \<Rightarrow> VmSupervisionSystem" where
  "fail_parent parent_id failed_supervisor_id reason system = (case parent_id of
     None \<Rightarrow> system
   | Some parent_id \<Rightarrow> (case bt_get (sys_supervisors system) parent_id of
       None \<Rightarrow> system
     | Some parent \<Rightarrow> put_supervisor parent_id
         (parent\<lparr> sv_state := ChildSupervisorFailed failed_supervisor_id reason \<rparr>) system))"

definition restart_child :: "'q queue_of \<Rightarrow> VmSupervisorId \<Rightarrow> string \<Rightarrow> VmExitReason
    \<Rightarrow> ('q supervised, vm_error, VmSupervisionRestart) stateful" where
  "restart_child Q supervisor_id child_id reason = (\<lambda>(system, processes).
     case bt_get (sys_supervisors system) supervisor_id of
       None \<Rightarrow> (Err (Msg ''missing supervisor {}'' [ANum supervisor_id]), (system, processes))
     | Some supervisor \<Rightarrow> (case apply_policy Q child_id reason (supervisor, processes) of
         (Ok restart, (supervisor, processes)) \<Rightarrow>
           let supervisor = record_supervision_restart child_id reason restart supervisor in
           (case restart of
             LimitReached pid _ \<Rightarrow>
               let supervisor = supervisor\<lparr> sv_state := SupervisorFailed child_id pid reason \<rparr> in
               (Ok restart, (fail_parent (sv_parent_id supervisor) supervisor_id reason
                  (put_supervisor supervisor_id supervisor system), processes))
           | _ \<Rightarrow> (Ok restart, (put_supervisor supervisor_id supervisor system, processes)))
       | (failed, (supervisor, processes)) \<Rightarrow>
           (failed, (put_supervisor supervisor_id supervisor system, processes))))"

definition restart_child_after_backoff :: "'q queue_of \<Rightarrow> VmSupervisorId \<Rightarrow> string \<Rightarrow> VmExitReason
    \<Rightarrow> ('q supervised, vm_error, VmSupervisionRestart) stateful" where
  "restart_child_after_backoff Q supervisor_id child_id reason = (\<lambda>(system, processes).
     case bt_get (sys_supervisors system) supervisor_id of
       None \<Rightarrow> (Err (Msg ''missing supervisor {}'' [ANum supervisor_id]), (system, processes))
     | Some supervisor \<Rightarrow>
         if \<not> bt_contains (sv_children supervisor) child_id then
           (Err (Msg ''missing child `{child_id}`'' [AStr child_id]), (system, processes))
         else (case on_child [] child_id (restart_one_for_one_child Q reason) (supervisor, processes) of
           (Ok restart, (supervisor, processes)) \<Rightarrow>
             (Ok restart, (put_supervisor supervisor_id
                (record_supervision_restart child_id reason restart supervisor) system, processes))
         | (failed, (supervisor, processes)) \<Rightarrow>
             (failed, (put_supervisor supervisor_id supervisor system, processes))))"

section \<open>Rebuilding subtrees\<close>

definition supervisor_children :: "VmSupervisionSystem \<Rightarrow> VmSupervisorId \<Rightarrow> VmSupervisorId list" where
  "supervisor_children system parent_id =
     map sv_id (filter (\<lambda>supervisor. sv_parent_id supervisor = Some parent_id) (bt_values (sys_supervisors system)))"

text \<open>The body of the loop over the children of a rebuilt supervisor, and the loop.\<close>

definition rebuild_child :: "'q queue_of \<Rightarrow> VmExitReason \<Rightarrow> string
    \<Rightarrow> (VmSupervisorChild \<times> 'q VmProcessTable, vm_error, VmSupervisionRestartEvent) stateful" where
  "rebuild_child Q reason child_id = (\<lambda>(child, processes).
     let old_pid = sc_pid child in
     bind_st (on_processes_of (ensure_exited old_pid reason)) (\<lambda>_.
     bind_st (replace_process Q) (\<lambda>new_pid (child, processes).
       (Ok \<lparr> event_child_id = child_id, event_old_pid = old_pid, event_new_pid = new_pid,
          event_restart_count = 0, event_restart_delay_ms = 0, event_shutdown_timeout_ms = None \<rparr>,
        (child\<lparr> sc_restart_count := 0, sc_last_restart_delay_ms := 0, sc_last_shutdown_timeout_ms := None \<rparr>,
         processes)))) (child, processes))"

fun rebuild_children :: "'q queue_of \<Rightarrow> VmExitReason \<Rightarrow> string list
    \<Rightarrow> (VmSupervisor \<times> 'q VmProcessTable, vm_error, VmSupervisionRestartEvent list) stateful" where
  "rebuild_children Q reason [] = return_st []"
| "rebuild_children Q reason (child_id # child_ids) =
     bind_st (on_child ''supervisor child order references a live child spec'' child_id
       (rebuild_child Q reason child_id)) (\<lambda>event.
     bind_st (rebuild_children Q reason child_ids) (\<lambda>events. return_st (event # events)))"

definition rebuild_supervisor :: "'q queue_of \<Rightarrow> VmExitReason \<Rightarrow> VmSupervisorId
    \<Rightarrow> ('q supervised, vm_error, unit) stateful" where
  "rebuild_supervisor Q reason supervisor_id = (\<lambda>(system, processes).
     case bt_get (sys_supervisors system) supervisor_id of
       None \<Rightarrow> (Err (Msg ''missing supervisor {}'' [ANum supervisor_id]), (system, processes))
     | Some supervisor \<Rightarrow> (case rebuild_children Q reason (sv_child_order supervisor) (supervisor, processes) of
         (Ok restarted, (supervisor, processes)) \<Rightarrow>
           let supervisor = (if sv_child_order supervisor = [] then supervisor else record_supervision_restart
                 ''<supervisor>'' reason (RestartedGroup restarted) supervisor)
           in (Ok (), (put_supervisor supervisor_id (supervisor\<lparr> sv_state := SupervisorRunning \<rparr>) system,
                processes))
       | (Err e, (supervisor, processes)) \<Rightarrow> (Err e, (put_supervisor supervisor_id supervisor system, processes))
       | (Panic p, (supervisor, processes)) \<Rightarrow> (Panic p, (put_supervisor supervisor_id supervisor system, processes))))"

fun restart_supervisor_subtree :: "nat \<Rightarrow> 'q queue_of \<Rightarrow> VmExitReason \<Rightarrow> VmSupervisorId
      \<Rightarrow> ('q supervised, vm_error, unit) stateful"
  and restart_subtrees :: "nat \<Rightarrow> 'q queue_of \<Rightarrow> VmExitReason \<Rightarrow> VmSupervisorId list
      \<Rightarrow> ('q supervised, vm_error, unit) stateful" where
  "restart_supervisor_subtree 0 Q reason supervisor_id w = (Panic ''recursion bound'', w)"
| "restart_supervisor_subtree (Suc fuel) Q reason supervisor_id w =
     (let descendants = supervisor_children (fst w) supervisor_id in
      bind_st (rebuild_supervisor Q reason supervisor_id) (\<lambda>_.
        restart_subtrees fuel Q reason descendants) w)"
| "restart_subtrees fuel Q reason [] w = (Ok (), w)"
| "restart_subtrees fuel Q reason (supervisor_id # supervisor_ids) w =
     bind_st (restart_supervisor_subtree fuel Q reason supervisor_id) (\<lambda>_.
       restart_subtrees fuel Q reason supervisor_ids) w"

text \<open>The selection of \<open>restart_failed_supervisor\<close>: the parent and the child supervisors its
  strategy rebuilds.\<close>

definition select_failed :: "VmSupervisionSystem \<Rightarrow> VmSupervisorId
    \<Rightarrow> (vm_error, VmSupervisorId \<times> VmSupervisorId list) outcome" where
  "select_failed system failed_supervisor_id =
     bind_out (ok_or (Msg ''missing supervisor {}'' [ANum failed_supervisor_id])
       (bt_get (sys_supervisors system) failed_supervisor_id)) (\<lambda>failed.
     bind_out (ok_or (Msg ''root supervisor {} has no parent restart strategy'' [ANum failed_supervisor_id])
       (sv_parent_id failed)) (\<lambda>parent_id.
     bind_out (ok_or (Msg ''missing supervisor {}'' [ANum parent_id])
       (bt_get (sys_supervisors system) parent_id)) (\<lambda>parent.
     let siblings = supervisor_children system parent_id in
     bind_out (ok_or (Msg ''supervisor {} is not attached to parent {}''
         [ANum failed_supervisor_id, ANum parent_id])
       (position (\<lambda>candidate. candidate = failed_supervisor_id) siblings)) (\<lambda>failed_index.
     Ok (parent_id, case sv_policy parent of
       OneForOne \<Rightarrow> [failed_supervisor_id]
     | OneForAll \<Rightarrow> siblings
     | RestForOne \<Rightarrow> drop failed_index siblings)))))"

definition restart_failed_supervisor :: "'q queue_of \<Rightarrow> VmSupervisorId \<Rightarrow> VmExitReason
    \<Rightarrow> ('q supervised, vm_error, VmSupervisorId list) stateful" where
  "restart_failed_supervisor Q failed_supervisor_id reason = (\<lambda>(system, processes).
     bind_st (read_st (\<lambda>(system, _). select_failed system failed_supervisor_id)) (\<lambda>(parent_id, selected).
     bind_st (restart_subtrees (length (sys_supervisors system) + 1) Q reason selected)
       (\<lambda>_ (system, processes). (Ok selected,
          (case bt_get (sys_supervisors system) parent_id of
             Some parent \<Rightarrow> put_supervisor parent_id (parent\<lparr> sv_state := SupervisorRunning \<rparr>) system
           | None \<Rightarrow> system, processes)))) (system, processes))"

section \<open>Inspection\<close>

record VmSupervisorChildSnapshot =
  scs_child_id :: string
  scs_pid :: VmProcessId
  scs_source :: VmProcessSource
  scs_restart_count :: u32
  scs_restart_limit :: u32
  scs_restart_class :: VmChildRestartClass
  scs_last_restart_delay_ms :: u64
  scs_shutdown_timeout_ms :: "u64 option"
  scs_last_shutdown_timeout_ms :: "u64 option"

record VmSupervisorSnapshot =
  svs_id :: VmSupervisorId
  svs_parent_id :: "VmSupervisorId option"
  svs_name :: string
  svs_policy :: VmRestartPolicy
  svs_state :: VmSupervisorState
  svs_children :: "VmSupervisorChildSnapshot list"
  svs_restart_history :: "VmSupervisorRestartHistoryEntry list"

definition child_snapshot :: "VmSupervisorChild \<Rightarrow> VmSupervisorChildSnapshot" where
  "child_snapshot child =
     \<lparr> scs_child_id = spec_id (sc_spec child), scs_pid = sc_pid child,
       scs_source = spec_source (sc_spec child), scs_restart_count = sc_restart_count child,
       scs_restart_limit = spec_restart_limit (sc_spec child),
       scs_restart_class = spec_restart_class (sc_spec child),
       scs_last_restart_delay_ms = sc_last_restart_delay_ms child,
       scs_shutdown_timeout_ms = shutdown_timeout_ms (sc_spec child),
       scs_last_shutdown_timeout_ms = sc_last_shutdown_timeout_ms child \<rparr>"

definition supervisor_snapshot :: "VmSupervisionSystem \<Rightarrow> VmSupervisorId
    \<Rightarrow> (vm_error, VmSupervisorSnapshot) outcome" where
  "supervisor_snapshot system supervisor_id = (case bt_get (sys_supervisors system) supervisor_id of
     None \<Rightarrow> Err (Msg ''missing supervisor {}'' [ANum supervisor_id])
   | Some supervisor \<Rightarrow> Ok \<lparr> svs_id = sv_id supervisor, svs_parent_id = sv_parent_id supervisor,
       svs_name = sv_name supervisor, svs_policy = sv_policy supervisor, svs_state = sv_state supervisor,
       svs_children = map child_snapshot (bt_values (sv_children supervisor)),
       svs_restart_history = sv_restart_history supervisor \<rparr>)"

end
