(* ===== verification/Supervision_Laws.thy ===== *)
theory Supervision_Laws
  imports Supervision
begin

text \<open>
  What a restart does to the children of a supervisor and to the process table. A
  restart, alone, in a group or in a rebuilt subtree, is a sequence of renewals: the old
  process of a child exits and, when the restart is due, a fresh process takes its place.
  The laws of renewals give those of the operations; \<open>system_ok\<close> is the invariant of
  supervisor trees over a process table at rest.
\<close>

section \<open>Invariants\<close>

definition known :: "'q VmProcessTable \<Rightarrow> VmProcessId \<Rightarrow> bool" where
  "known t pid \<longleftrightarrow> pt_get t pid \<noteq> None"

definition pids_of :: "VmSupervisor \<Rightarrow> VmProcessId set" where
  "pids_of sv = {sc_pid child | child cid. bt_get (sv_children sv) cid = Some child}"

definition children_ok :: "'q VmProcessTable \<Rightarrow> VmSupervisor \<Rightarrow> bool" where
  "children_ok t sv \<longleftrightarrow> bt_ok (sv_children sv) \<and> distinct (sv_child_order sv)
     \<and> set (sv_child_order sv) = {cid. bt_contains (sv_children sv) cid}
     \<and> (\<forall>cid child. bt_get (sv_children sv) cid = Some child \<longrightarrow>
          spec_id (sc_spec child) = cid \<and> known t (sc_pid child)
        \<and> sc_restart_count child \<le> spec_restart_limit (sc_spec child))
     \<and> (\<forall>cid cid' child child'. bt_get (sv_children sv) cid = Some child
          \<longrightarrow> bt_get (sv_children sv) cid' = Some child' \<longrightarrow> sc_pid child = sc_pid child' \<longrightarrow> cid = cid')"

definition system_ok :: "'q VmProcessTable \<Rightarrow> VmSupervisionSystem \<Rightarrow> bool" where
  "system_ok t sys \<longleftrightarrow> bt_ok (sys_supervisors sys)
     \<and> (\<forall>sid sv. bt_get (sys_supervisors sys) sid = Some sv \<longrightarrow>
          sv_id sv = sid \<and> sid \<le> sys_next_supervisor_id sys \<and> children_ok t sv
        \<and> (\<forall>parent. sv_parent_id sv = Some parent \<longrightarrow> parent < sid \<and> bt_contains (sys_supervisors sys) parent))
     \<and> (\<forall>sid sid' sv sv'. bt_get (sys_supervisors sys) sid = Some sv \<longrightarrow>
          bt_get (sys_supervisors sys) sid' = Some sv' \<longrightarrow> sid \<noteq> sid' \<longrightarrow> pids_of sv \<inter> pids_of sv' = {})"

lemma ensure_exited_eq: "ensure_exited pid reason t = pf.retire pid reason t"
  by (simp add: ensure_exited_def pf.retire_def)

section \<open>Renewals\<close>

text \<open>A child that keeps its process, and the three ways a child gets a new one.\<close>

definition kept_child :: "VmSupervisorChild \<Rightarrow> VmSupervisorChild" where
  "kept_child child = child\<lparr> sc_last_shutdown_timeout_ms := shutdown_timeout_ms (sc_spec child) \<rparr>"

definition restarted_child :: "VmSupervisorChild \<Rightarrow> VmProcessId \<Rightarrow> VmSupervisorChild" where
  "restarted_child child new = (kept_child child)
     \<lparr> sc_pid := new, sc_restart_count := sc_restart_count child + 1,
       sc_last_restart_delay_ms := restart_delay_ms (sc_spec child) (sc_restart_count child + 1) \<rparr>"

definition rebuilt_child :: "VmSupervisorChild \<Rightarrow> VmProcessId \<Rightarrow> VmSupervisorChild" where
  "rebuilt_child child new = child\<lparr> sc_pid := new, sc_restart_count := 0,
     sc_last_restart_delay_ms := 0, sc_last_shutdown_timeout_ms := None \<rparr>"

definition due :: "VmExitReason \<Rightarrow> VmSupervisorChild \<Rightarrow> bool" where
  "due reason child \<longleftrightarrow> should_restart (spec_restart_class (sc_spec child)) reason"

definition spent :: "VmSupervisorChild \<Rightarrow> bool" where
  "spent child \<longleftrightarrow> spec_restart_limit (sc_spec child) \<le> sc_restart_count child"

text \<open>One renewal: the child afterwards and the change of the table.\<close>

definition renewal :: "'q queue_of \<Rightarrow> ('q \<Rightarrow> VmMessage VmPublishedFragment list) \<Rightarrow> ('q \<Rightarrow> nat)
    \<Rightarrow> VmExitReason \<Rightarrow> bool \<Rightarrow> (VmSupervisorChild \<Rightarrow> VmProcessId \<Rightarrow> VmSupervisorChild)
    \<Rightarrow> VmSupervisorChild \<Rightarrow> 'q VmProcessTable \<Rightarrow> VmSupervisorChild \<Rightarrow> 'q VmProcessTable \<Rightarrow> bool" where
  "renewal Q contents capacity reason fresh nx child t child' t' \<longleftrightarrow>
     (\<exists>p. pt_get t (sc_pid child) = Some p \<and> pt_ok Q contents capacity t' \<and>
       (if fresh then
          child' = nx child (pt_next_pid t') \<and> pt_next_pid t < pt_next_pid t' \<and> pt_room t \<le> Suc (pt_room t')
        \<and> pt_get t (pt_next_pid t') = None
        \<and> pt_get t' = (pt_get t)(sc_pid child \<mapsto> exited_as reason p,
             pt_next_pid t' \<mapsto> new_process (pt_next_pid t') None (spec_source (sc_spec child)))
        else child' = kept_child child \<and> pt_next_pid t' = pt_next_pid t \<and> pt_room t' = pt_room t
        \<and> pt_get t' = (pt_get t)(sc_pid child \<mapsto> exited_as reason p)))"

lemmas child_steps = restart_one_for_one_child_def restart_group_child_def rebuild_child_def
  replace_process_def on_processes_of_def ensure_exited_eq

text \<open>The two stages of every restart, on a child whose process is known.\<close>

lemma renewal_stages:
  fixes t :: "'q VmProcessTable"
  assumes ok: "pt_ok Q contents capacity t" and p: "known t (sc_pid child)" and room: "0 < pt_room t"
  obtains t1 t2 where "ensure_exited (sc_pid child) reason t = (Ok (), t1)"
    "spawn_root Q (spec_source (sc_spec child)) t1 = (Ok (pt_next_pid t2), t2)"
    "renewal Q contents capacity reason False nx child t (kept_child child) t1"
    "renewal Q contents capacity reason True nx child t (nx child (pt_next_pid t2)) t2"
proof -
  obtain q where q: "pt_get t (sc_pid child) = Some q" using p by (auto simp: known_def)
  obtain t1 new t2 where t: "pf.retire (sc_pid child) reason t = (Ok (), t1)"
      "spawn_root Q (spec_source (sc_spec child)) t1 = (Ok new, t2)" "pt_ok Q contents capacity t2"
      "pt_get t2 = (pt_get t)(sc_pid child \<mapsto> exited_as reason q,
         new \<mapsto> new_process new None (spec_source (sc_spec child)))"
      "pt_next_pid t < new" "pt_next_pid t2 = new" "pt_room t \<le> Suc (pt_room t2)" "pt_get t new = None"
    by (rule pf.replace_law [OF ok q room])
  obtain t1' where t1: "pf.retire (sc_pid child) reason t = (Ok (), t1')" "pt_ok Q contents capacity t1'"
      "pt_get t1' = (pt_get t)(sc_pid child \<mapsto> exited_as reason q)" "pt_next_pid t1' = pt_next_pid t"
      "pt_room t1' = pt_room t"
    by (rule pf.retire_effect [OF ok q])
  have "t1' = t1" using t(1) t1(1) by simp
  then show ?thesis
    using t t1 q by (intro that [of t1 t2]) (simp_all add: ensure_exited_eq renewal_def)
qed

definition one_outcome :: "VmExitReason \<Rightarrow> VmSupervisorChild \<Rightarrow> VmSupervisorChild \<Rightarrow> VmSupervisionRestart" where
  "one_outcome reason child child' =
     (if \<not> due reason child then NotRestarted (sc_pid child) (spec_restart_class (sc_spec child)) reason
      else if spent child then LimitReached (sc_pid child) (sc_restart_count child)
      else Restarted (sc_pid child) (sc_pid child') (sc_restart_count child')
        (sc_last_restart_delay_ms child') (sc_last_shutdown_timeout_ms child'))"

definition event_of :: "string \<Rightarrow> VmSupervisorChild \<Rightarrow> VmSupervisorChild \<Rightarrow> VmSupervisionRestartEvent" where
  "event_of cid child child' = \<lparr> event_child_id = cid, event_old_pid = sc_pid child,
     event_new_pid = sc_pid child', event_restart_count = sc_restart_count child',
     event_restart_delay_ms = sc_last_restart_delay_ms child',
     event_shutdown_timeout_ms = sc_last_shutdown_timeout_ms child' \<rparr>"

lemma kept_child_simps [simp]:
  "sc_pid (kept_child child) = sc_pid child" "sc_spec (kept_child child) = sc_spec child"
  "sc_restart_count (kept_child child) = sc_restart_count child"
  by (simp_all add: kept_child_def)

lemma replace_process_eq:
  "spawn_root Q (spec_source (sc_spec child)) t = (Ok new, t') \<Longrightarrow>
     replace_process Q (child, t) = (Ok new, (child\<lparr> sc_pid := new \<rparr>, t'))"
  by (simp add: replace_process_def on_processes_of_def bind_st_def)

lemma one_for_one_law:
  assumes "pt_ok Q contents capacity t" "known t (sc_pid child)" "0 < pt_room t"
  obtains child' t' where "restart_one_for_one_child Q reason (child, t)
      = (Ok (one_outcome reason child child'), (child', t'))"
    "renewal Q contents capacity reason (due reason child \<and> \<not> spent child) restarted_child child t child' t'"
proof -
  obtain t1 t2 where st: "ensure_exited (sc_pid child) reason t = (Ok (), t1)"
      "spawn_root Q (spec_source (sc_spec child)) t1 = (Ok (pt_next_pid t2), t2)"
      "renewal Q contents capacity reason False restarted_child child t (kept_child child) t1"
      "renewal Q contents capacity reason True restarted_child child t (restarted_child child (pt_next_pid t2)) t2"
    by (rule renewal_stages [OF assms])
  note run = restart_one_for_one_child_def on_processes_of_def st(1) Let_def kept_child_def [symmetric]
  show ?thesis
  proof (cases "due reason child \<and> \<not> spent child")
    case True
    then have "restart_one_for_one_child Q reason (child, t)
        = (Ok (one_outcome reason child (restarted_child child (pt_next_pid t2))),
           (restarted_child child (pt_next_pid t2), t2))"
      using st(2) by (simp add: run bind_st_def due_def spent_def replace_process_eq one_outcome_def restarted_child_def)
    with st(4) True that show ?thesis by auto
  next
    case False
    then have "restart_one_for_one_child Q reason (child, t)
        = (Ok (one_outcome reason child (kept_child child)), (kept_child child, t1))"
      by (auto simp: run bind_st_def due_def spent_def one_outcome_def)
    with st(3) False that show ?thesis by auto
  qed
qed

lemma group_child_law:
  assumes "pt_ok Q contents capacity t" "known t (sc_pid child)" "0 < pt_room t"
  obtains child' t' where "restart_group_child Q reason cid (child, t)
      = (Ok (if due reason child then Some (event_of cid child child') else None), (child', t'))"
    "renewal Q contents capacity reason (due reason child) restarted_child child t child' t'"
proof -
  obtain t1 t2 where st: "ensure_exited (sc_pid child) reason t = (Ok (), t1)"
      "spawn_root Q (spec_source (sc_spec child)) t1 = (Ok (pt_next_pid t2), t2)"
      "renewal Q contents capacity reason False restarted_child child t (kept_child child) t1"
      "renewal Q contents capacity reason True restarted_child child t (restarted_child child (pt_next_pid t2)) t2"
    by (rule renewal_stages [OF assms])
  note run = restart_group_child_def on_processes_of_def st(1) Let_def kept_child_def [symmetric]
  show ?thesis
  proof (cases "due reason child")
    case True
    then have "restart_group_child Q reason cid (child, t)
        = (Ok (Some (event_of cid child (restarted_child child (pt_next_pid t2)))),
           (restarted_child child (pt_next_pid t2), t2))"
      using st(2) by (simp add: run bind_st_def due_def replace_process_eq event_of_def restarted_child_def)
    with st(4) True that show ?thesis by auto
  next
    case False
    then have "restart_group_child Q reason cid (child, t) = (Ok None, (kept_child child, t1))"
      by (auto simp: run bind_st_def due_def)
    with st(3) False that show ?thesis by auto
  qed
qed

lemma rebuild_child_law:
  assumes "pt_ok Q contents capacity t" "known t (sc_pid child)" "0 < pt_room t"
  obtains child' t' where "rebuild_child Q reason cid (child, t) = (Ok (event_of cid child child'), (child', t'))"
    "renewal Q contents capacity reason True rebuilt_child child t child' t'"
proof -
  obtain t1 t2 where st: "ensure_exited (sc_pid child) reason t = (Ok (), t1)"
      "spawn_root Q (spec_source (sc_spec child)) t1 = (Ok (pt_next_pid t2), t2)"
      "renewal Q contents capacity reason True rebuilt_child child t (rebuilt_child child (pt_next_pid t2)) t2"
    by (rule renewal_stages [OF assms])
  have "rebuild_child Q reason cid (child, t) = (Ok (event_of cid child (rebuilt_child child (pt_next_pid t2))),
      (rebuilt_child child (pt_next_pid t2), t2))"
    using st(2) by (simp add: rebuild_child_def on_processes_of_def st(1) Let_def bind_st_def
        replace_process_eq event_of_def rebuilt_child_def)
  with st(3) that show ?thesis by blast
qed

section \<open>Sequences of renewals\<close>

lemma renewal_facts:
  assumes "renewal Q contents capacity reason fresh nx child t child' t'"
    and "\<And>child new. sc_pid (nx child new) = new"
  shows "pt_ok Q contents capacity t'" "known t pid \<Longrightarrow> known t' pid" "known t' (sc_pid child')"
    "pt_room t \<le> Suc (pt_room t')" "pt_next_pid t \<le> pt_next_pid t'"
    "sc_pid child' = sc_pid child \<or> pt_next_pid t < sc_pid child'" "known t (sc_pid child)"
  using assms by (auto simp: renewal_def known_def split: if_splits)

lemma put_child_simps [simp]:
  "bt_get (sv_children (put_child cid child sv)) c = (if c = cid then Some child else bt_get (sv_children sv) c)"
  "sv_child_order (put_child cid child sv) = sv_child_order sv"
  "sv_policy (put_child cid child sv) = sv_policy sv"
  "bt_contains (sv_children (put_child cid child sv)) c \<longleftrightarrow> c = cid \<or> bt_contains (sv_children sv) c"
  by (simp_all add: put_child_def)

lemma children_okD:
  assumes "children_ok t sv"
  shows "bt_ok (sv_children sv)" "distinct (sv_child_order sv)"
    "cid \<in> set (sv_child_order sv) \<longleftrightarrow> bt_contains (sv_children sv) cid"
    "bt_get (sv_children sv) cid = Some child \<Longrightarrow> spec_id (sc_spec child) = cid"
    "bt_get (sv_children sv) cid = Some child \<Longrightarrow> known t (sc_pid child)"
    "bt_get (sv_children sv) cid = Some child \<Longrightarrow> sc_restart_count child \<le> spec_restart_limit (sc_spec child)"
    "bt_get (sv_children sv) cid = Some child \<Longrightarrow> bt_get (sv_children sv) cid' = Some child'
       \<Longrightarrow> sc_pid child = sc_pid child' \<Longrightarrow> cid = cid'"
  using assms unfolding children_ok_def by blast+

lemma known_le: "pt_ok Q contents capacity t \<Longrightarrow> known t pid \<Longrightarrow> pid \<le> pt_next_pid t"
  using pf.known_newest by (auto simp: known_def)

lemma children_ok_known:
  "children_ok t sv \<Longrightarrow> (\<And>pid. known t pid \<Longrightarrow> known t' pid) \<Longrightarrow> children_ok t' sv"
  unfolding children_ok_def by blast

lemma renewal_children:
  assumes ok: "pt_ok Q contents capacity t" "children_ok t sv" and get: "bt_get (sv_children sv) cid = Some child"
    and r: "renewal Q contents capacity reason fresh nx child t child' t'"
    and nx: "\<And>child new. sc_pid (nx child new) = new" "\<And>child new. sc_spec (nx child new) = sc_spec child"
    and count: "\<And>new. fresh \<Longrightarrow> sc_restart_count (nx child new) \<le> spec_restart_limit (sc_spec child)"
  shows "children_ok t' (put_child cid child' sv)"
    and "pids_of (put_child cid child' sv) \<subseteq> pids_of sv \<union> {pid. pt_next_pid t < pid}"
proof -
  note f = renewal_facts [OF r nx(1)]
  have keep: "children_ok t' sv" by (rule children_ok_known [OF ok(2) f(2)])
  have child': "sc_spec child' = sc_spec child" "sc_restart_count child' \<le> spec_restart_limit (sc_spec child)"
    using r nx(2) count children_okD(6) [OF ok(2) get] by (auto simp: renewal_def split: if_splits)
  have other: "sc_pid c \<noteq> sc_pid child'" if "bt_get (sv_children sv) cid' = Some c" "cid' \<noteq> cid" for cid' c
  proof
    assume eq: "sc_pid c = sc_pid child'"
    have "sc_pid c \<le> pt_next_pid t" by (rule known_le [OF ok(1) children_okD(5) [OF ok(2) that(1)]])
    then have "sc_pid c = sc_pid child" using eq f(6) by auto
    then show False using children_okD(7) [OF ok(2) that(1) get] that(2) by simp
  qed
  show "children_ok t' (put_child cid child' sv)"
    unfolding children_ok_def
  proof (intro conjI allI impI)
    show "bt_ok (sv_children (put_child cid child' sv))"
      using children_okD(1) [OF ok(2)] by (simp add: put_child_def)
    show "distinct (sv_child_order (put_child cid child' sv))" using children_okD(2) [OF ok(2)] by simp
    show "set (sv_child_order (put_child cid child' sv)) = {c. bt_contains (sv_children (put_child cid child' sv)) c}"
      using children_okD(3) [OF ok(2)] get by (auto simp: bt_contains_def)
    fix c x
    assume x: "bt_get (sv_children (put_child cid child' sv)) c = Some x"
    show "spec_id (sc_spec x) = c"
      using x child' children_okD(4) [OF ok(2)] get by (auto split: if_splits)
    show "known t' (sc_pid x)" using x f(3) children_okD(5) [OF keep] by (auto split: if_splits)
    show "sc_restart_count x \<le> spec_restart_limit (sc_spec x)"
      using x child' children_okD(6) [OF ok(2)] by (auto split: if_splits)
    fix c' x'
    assume x': "bt_get (sv_children (put_child cid child' sv)) c' = Some x'" and eq: "sc_pid x = sc_pid x'"
    show "c = c'"
      using x x' eq other children_okD(7) [OF ok(2)] by (auto split: if_splits)
  qed
  show "pids_of (put_child cid child' sv) \<subseteq> pids_of sv \<union> {pid. pt_next_pid t < pid}"
    using f(6) get by (auto simp: pids_of_def split: if_splits)
qed

text \<open>What a child and its processes are after its renewal.\<close>

definition renewed :: "VmExitReason \<Rightarrow> bool \<Rightarrow> (VmSupervisorChild \<Rightarrow> VmProcessId \<Rightarrow> VmSupervisorChild)
    \<Rightarrow> VmSupervisorChild \<Rightarrow> 'q VmProcessTable \<Rightarrow> VmSupervisorChild \<Rightarrow> 'q VmProcessTable \<Rightarrow> bool" where
  "renewed reason fresh nx child t child' t' \<longleftrightarrow>
     pt_get t' (sc_pid child) = Some (exited_as reason (the (pt_get t (sc_pid child))))
   \<and> (if fresh then child' = nx child (sc_pid child') \<and> pt_next_pid t < sc_pid child'
        \<and> pt_get t' (sc_pid child') = Some (new_process (sc_pid child') None (spec_source (sc_spec child)))
      else child' = kept_child child)"

lemma renewal_renewed:
  assumes "pt_ok Q contents capacity t" "renewal Q contents capacity reason fresh nx child t child' t'"
    and "\<And>child new. sc_pid (nx child new) = new"
  shows "renewed reason fresh nx child t child' t'"
    and "pid \<le> pt_next_pid t \<Longrightarrow> pid \<noteq> sc_pid child \<Longrightarrow> pt_get t' pid = pt_get t pid"
  using assms by (auto simp: renewed_def renewal_def split: if_splits)

text \<open>A sequence of renewals of distinct children: each is renewed, nothing else changes.\<close>

definition crew_renewed :: "'q queue_of \<Rightarrow> ('q \<Rightarrow> VmMessage VmPublishedFragment list) \<Rightarrow> ('q \<Rightarrow> nat)
    \<Rightarrow> VmExitReason \<Rightarrow> (VmSupervisorChild \<Rightarrow> bool) \<Rightarrow> (VmSupervisorChild \<Rightarrow> VmProcessId \<Rightarrow> VmSupervisorChild)
    \<Rightarrow> string set \<Rightarrow> VmSupervisor \<Rightarrow> 'q VmProcessTable \<Rightarrow> VmSupervisor \<Rightarrow> 'q VmProcessTable \<Rightarrow> bool" where
  "crew_renewed Q contents capacity reason fresh nx cids sv t sv' t' \<longleftrightarrow>
     pt_ok Q contents capacity t' \<and> children_ok t' sv' \<and> sv' = sv\<lparr> sv_children := sv_children sv' \<rparr>
   \<and> pids_of sv' \<subseteq> pids_of sv \<union> {pid. pt_next_pid t < pid}
   \<and> (\<forall>pid. known t pid \<longrightarrow> known t' pid)
   \<and> pt_next_pid t \<le> pt_next_pid t' \<and> pt_room t \<le> card cids + pt_room t'
   \<and> (\<forall>cid. cid \<notin> cids \<longrightarrow> bt_get (sv_children sv') cid = bt_get (sv_children sv) cid)
   \<and> (\<forall>cid child. cid \<in> cids \<longrightarrow> bt_get (sv_children sv) cid = Some child \<longrightarrow>
        (\<exists>child'. bt_get (sv_children sv') cid = Some child' \<and> renewed reason (fresh child) nx child t child' t'))
   \<and> (\<forall>pid \<le> pt_next_pid t. (\<forall>cid\<in>cids. \<forall>child. bt_get (sv_children sv) cid = Some child \<longrightarrow> sc_pid child \<noteq> pid)
        \<longrightarrow> pt_get t' pid = pt_get t pid)
   \<and> (\<forall>pid p. pt_get t pid = None \<longrightarrow> pt_get t' pid = Some p \<longrightarrow> (\<exists>source. p = new_process pid None source))"

lemma crew_renewed_step:
  assumes ok: "pt_ok Q contents capacity t" "children_ok t sv" and get: "bt_get (sv_children sv) cid = Some child"
    and r: "renewal Q contents capacity reason (fresh child) nx child t child1 t1"
    and nx: "\<And>child new. sc_pid (nx child new) = new"
    and sv1: "children_ok t1 (put_child cid child1 sv)"
      "pids_of (put_child cid child1 sv) \<subseteq> pids_of sv \<union> {pid. pt_next_pid t < pid}"
    and cids: "cid \<notin> cids" "finite cids"
    and rest: "crew_renewed Q contents capacity reason fresh nx cids (put_child cid child1 sv) t1 sv' t'"
  shows "crew_renewed Q contents capacity reason fresh nx (insert cid cids) sv t sv' t'"
proof -
  note f = renewal_facts [OF r nx]
  note here = renewal_renewed [OF ok(1) r nx]
  let ?sv = "put_child cid child1 sv"
  have R: "pt_ok Q contents capacity t'" "children_ok t' sv'" "sv' = ?sv\<lparr> sv_children := sv_children sv' \<rparr>"
      "pids_of sv' \<subseteq> pids_of ?sv \<union> {pid. pt_next_pid t1 < pid}"
      "pt_next_pid t1 \<le> pt_next_pid t'" "pt_room t1 \<le> card cids + pt_room t'"
    and R_known: "known t1 pid \<Longrightarrow> known t' pid"
    and R_out: "c \<notin> cids \<Longrightarrow> bt_get (sv_children sv') c = bt_get (sv_children ?sv) c"
    and R_in: "c \<in> cids \<Longrightarrow> bt_get (sv_children ?sv) c = Some x \<Longrightarrow>
        (\<exists>x'. bt_get (sv_children sv') c = Some x' \<and> renewed reason (fresh x) nx x t1 x' t')"
    and R_pid: "pid \<le> pt_next_pid t1 \<Longrightarrow> (\<forall>c\<in>cids. \<forall>x. bt_get (sv_children ?sv) c = Some x \<longrightarrow> sc_pid x \<noteq> pid)
        \<Longrightarrow> pt_get t' pid = pt_get t1 pid"
    and R_new: "pt_get t1 pid = None \<Longrightarrow> pt_get t' pid = Some p \<Longrightarrow> \<exists>source. p = new_process pid None source" for pid c x p
    using rest unfolding crew_renewed_def by blast+
  have apart: "sc_pid x \<noteq> sc_pid child" if "c \<in> cids" "bt_get (sv_children sv) c = Some x" for c x
    using children_okD(7) [OF ok(2) that(2) get] that(1) cids(1) by auto
  have apart1: "sc_pid x \<noteq> sc_pid child1" if "c \<in> cids" "bt_get (sv_children ?sv) c = Some x" for c x
    using children_okD(7) [OF sv1(1) that(2), of cid child1] that(1) cids(1) by auto
  have later: "c \<in> cids \<Longrightarrow> bt_get (sv_children ?sv) c = bt_get (sv_children sv) c" for c
    using cids(1) by auto
  have same: "pt_get t' pid = pt_get t1 pid"
    if "pid \<le> pt_next_pid t1" "\<forall>c\<in>cids. \<forall>x. bt_get (sv_children sv) c = Some x \<longrightarrow> sc_pid x \<noteq> pid" for pid
    using R_pid that later by auto
  have old: "sc_pid child \<le> pt_next_pid t" using known_le [OF ok(1)] f(7) .
  have old': "pt_get t' (sc_pid child) = pt_get t1 (sc_pid child)"
    using same [of "sc_pid child"] apart old f(5) by auto
  have child1: "sc_pid child1 \<le> pt_next_pid t1" using known_le [OF f(1)] f(3) .
  have new': "pt_get t' (sc_pid child1) = pt_get t1 (sc_pid child1)"
    using R_pid [OF child1] apart1 by blast
  have first: "renewed reason (fresh child) nx child t child1 t'"
    using here(1) old' new' by (simp add: renewed_def)
  have others: "renewed reason (fresh x) nx x t x' t'"
    if "c \<in> cids" "bt_get (sv_children sv) c = Some x" "renewed reason (fresh x) nx x t1 x' t'" for c x x'
  proof -
    have "sc_pid x \<le> pt_next_pid t" by (rule known_le [OF ok(1) children_okD(5) [OF ok(2) that(2)]])
    then have "pt_get t1 (sc_pid x) = pt_get t (sc_pid x)" using here(2) apart [OF that(1,2)] by blast
    then show ?thesis using that(3) f(5) by (auto simp: renewed_def)
  qed
  show ?thesis
    unfolding crew_renewed_def
  proof (intro conjI allI impI)
    show "sv' = sv\<lparr> sv_children := sv_children sv' \<rparr>" using R(3) by (simp add: put_child_def)
    show "pids_of sv' \<subseteq> pids_of sv \<union> {pid. pt_next_pid t < pid}" using R(4) sv1(2) f(5) by auto
    show "pt_next_pid t \<le> pt_next_pid t'" using R(5) f(5) by simp
    show "pt_room t \<le> card (insert cid cids) + pt_room t'" using R(6) f(4) cids by simp
    fix c assume "c \<notin> insert cid cids"
    then show "bt_get (sv_children sv') c = bt_get (sv_children sv) c" using R_out [of c] by simp
  next
    fix c x assume c: "c \<in> insert cid cids" "bt_get (sv_children sv) c = Some x"
    show "\<exists>x'. bt_get (sv_children sv') c = Some x' \<and> renewed reason (fresh x) nx x t x' t'"
    proof (cases "c = cid")
      case True
      then show ?thesis using R_out [OF cids(1)] first c(2) get by auto
    next
      case False
      then show ?thesis using R_in [of c x] later [of c] others c by auto
    qed
  next
    fix pid assume pid: "pid \<le> pt_next_pid t"
        "\<forall>c\<in>insert cid cids. \<forall>x. bt_get (sv_children sv) c = Some x \<longrightarrow> sc_pid x \<noteq> pid"
    then have "pt_get t1 pid = pt_get t pid" using here(2) get by auto
    moreover have "pt_get t' pid = pt_get t1 pid" using same pid f(5) by auto
    ultimately show "pt_get t' pid = pt_get t pid" by simp
  next
    fix pid p assume fresh': "pt_get t pid = None" "pt_get t' pid = Some p"
    show "\<exists>source. p = new_process pid None source"
    proof (cases "pt_get t1 pid")
      case None
      then show ?thesis using R_new fresh'(2) by blast
    next
      case (Some q)
      then have "pid = sc_pid child1" "\<exists>source. q = new_process pid None source"
        using r fresh'(1) nx by (auto simp: renewal_def split: if_splits)
      then show ?thesis using Some new' fresh'(2) by auto
    qed
  qed (use R f(2) R_known in auto)
qed

lemma crew_renewed_none:
  "pt_ok Q contents capacity t \<Longrightarrow> children_ok t sv \<Longrightarrow> crew_renewed Q contents capacity reason fresh nx {} sv t sv t"
  by (simp add: crew_renewed_def)

text \<open>The loops over a group share their shape: a step on one child after the other, with the
  events collected.\<close>

lemma group_loop_law:
  fixes step :: "string \<Rightarrow> (VmSupervisorChild \<times> 'q VmProcessTable, vm_error, 'e) stateful"
  assumes loop: "loop [] = return_st []"
      "\<And>cid cids. loop (cid # cids) = bind_st (on_child missing cid (step cid)) (\<lambda>e.
         bind_st (loop cids) (\<lambda>es. return_st (join e es)))"
    and step: "\<And>cid child t. pt_ok Q contents capacity t \<Longrightarrow> known t (sc_pid child) \<Longrightarrow> 0 < pt_room t \<Longrightarrow>
        \<exists>child' t'. step cid (child, t) = (Ok (event cid child child'), (child', t'))
          \<and> renewal Q contents capacity reason (fresh child) nx child t child' t'"
    and nx: "\<And>child new. sc_pid (nx child new) = new" "\<And>child new. sc_spec (nx child new) = sc_spec child"
    and ok: "pt_ok Q contents capacity t" "children_ok t sv" "distinct cids" "length cids \<le> pt_room t"
    and cids: "\<And>cid. cid \<in> set cids \<Longrightarrow> bt_contains (sv_children sv) cid"
    and count: "\<And>cid child new. cid \<in> set cids \<Longrightarrow> bt_get (sv_children sv) cid = Some child \<Longrightarrow> fresh child
        \<Longrightarrow> sc_restart_count (nx child new) \<le> spec_restart_limit (sc_spec child)"
  shows "\<exists>sv' t'. loop cids (sv, t) = (Ok (foldr join (map (\<lambda>cid. event cid (the (bt_get (sv_children sv) cid))
        (the (bt_get (sv_children sv') cid))) cids) []), (sv', t'))
    \<and> crew_renewed Q contents capacity reason fresh nx (set cids) sv t sv' t'"
  using ok cids count
proof (induction cids arbitrary: sv t)
  case Nil
  then show ?case by (auto simp: loop(1) return_st_def crew_renewed_none)
next
  case (Cons cid cids)
  obtain child where child: "bt_get (sv_children sv) cid = Some child"
    using Cons.prems(5) [of cid] by (auto simp: bt_contains_def)
  have k: "known t (sc_pid child)" by (rule children_okD(5) [OF Cons.prems(2) child])
  obtain child1 t1 where st: "step cid (child, t) = (Ok (event cid child child1), (child1, t1))"
      "renewal Q contents capacity reason (fresh child) nx child t child1 t1"
    using step [OF Cons.prems(1) k] Cons.prems(4) by fastforce
  note f = renewal_facts [OF st(2) nx(1)]
  have sv1: "children_ok t1 (put_child cid child1 sv)"
      "pids_of (put_child cid child1 sv) \<subseteq> pids_of sv \<union> {pid. pt_next_pid t < pid}"
    using renewal_children [OF Cons.prems(1,2) child st(2) nx] Cons.prems(6) [OF _ child] by simp_all
  have apart: "cid \<notin> set cids" using Cons.prems(3) by simp
  obtain sv' t' where rest: "loop cids (put_child cid child1 sv, t1)
        = (Ok (foldr join (map (\<lambda>c. event c (the (bt_get (sv_children (put_child cid child1 sv)) c))
            (the (bt_get (sv_children sv') c))) cids) []), (sv', t'))"
      "crew_renewed Q contents capacity reason fresh nx (set cids) (put_child cid child1 sv) t1 sv' t'"
  proof -
    have "distinct cids" "length cids \<le> pt_room t1" using Cons.prems(3,4) f(4) by simp_all
    moreover have "bt_contains (sv_children (put_child cid child1 sv)) c" if "c \<in> set cids" for c
      using that Cons.prems(5) by simp
    moreover have "sc_restart_count (nx x new) \<le> spec_restart_limit (sc_spec x)"
      if "c \<in> set cids" "bt_get (sv_children (put_child cid child1 sv)) c = Some x" "fresh x" for c x new
      using that apart by (intro Cons.prems(6) [of c]) (auto split: if_splits)
    ultimately show ?thesis using Cons.IH [OF f(1) sv1(1)] that by blast
  qed
  have now: "bt_get (sv_children sv') cid = Some child1"
    using rest(2) apart by (auto simp: crew_renewed_def)
  have maps: "map (\<lambda>c. event c (the (bt_get (sv_children (put_child cid child1 sv)) c)) (the (bt_get (sv_children sv') c))) cids
      = map (\<lambda>c. event c (the (bt_get (sv_children sv) c)) (the (bt_get (sv_children sv') c))) cids"
    using apart by (intro map_cong) auto
  have run: "loop (cid # cids) (sv, t) = (Ok (foldr join (map (\<lambda>c. event c (the (bt_get (sv_children sv) c))
      (the (bt_get (sv_children sv') c))) (cid # cids)) []), (sv', t'))"
    using st(1) rest(1) [unfolded maps] by (simp add: loop(2) on_child_def bind_st_def return_st_def child now)
  have "crew_renewed Q contents capacity reason fresh nx (insert cid (set cids)) sv t sv' t'"
    by (rule crew_renewed_step [OF Cons.prems(1,2) child st(2) nx(1) sv1 apart _ rest(2)]) simp
  with run show ?case by auto
qed

text \<open>The events of a group: of the children that were due, in order.\<close>

definition group_events :: "(VmSupervisorChild \<Rightarrow> bool) \<Rightarrow> VmSupervisor \<Rightarrow> VmSupervisor \<Rightarrow> string list
    \<Rightarrow> VmSupervisionRestartEvent list" where
  "group_events fresh sv sv' cids = map (\<lambda>cid. event_of cid (the (bt_get (sv_children sv) cid))
     (the (bt_get (sv_children sv') cid))) (filter (\<lambda>cid. fresh (the (bt_get (sv_children sv) cid))) cids)"

lemma restarted_child_simps [simp]:
  "sc_pid (restarted_child child new) = new" "sc_spec (restarted_child child new) = sc_spec child"
  "sc_pid (rebuilt_child child new) = new" "sc_spec (rebuilt_child child new) = sc_spec child"
  "sc_restart_count (rebuilt_child child new) = 0"
  by (simp_all add: restarted_child_def rebuilt_child_def)

lemma restarted_count:
  "\<not> spent child \<Longrightarrow> sc_restart_count (restarted_child child new) \<le> spec_restart_limit (sc_spec child)"
  by (simp add: restarted_child_def spent_def not_le inc_le)

lemma restart_group_loop_law:
  assumes "pt_ok Q contents capacity t" "children_ok t sv" "distinct cids" "length cids \<le> pt_room t"
    and "\<And>cid. cid \<in> set cids \<Longrightarrow> bt_contains (sv_children sv) cid"
    and "\<And>cid child. cid \<in> set cids \<Longrightarrow> bt_get (sv_children sv) cid = Some child \<Longrightarrow> due reason child
      \<Longrightarrow> \<not> spent child"
  obtains sv' t' where "restart_group_loop Q reason cids (sv, t) = (Ok (group_events (due reason) sv sv' cids), (sv', t'))"
    "crew_renewed Q contents capacity reason (due reason) restarted_child (set cids) sv t sv' t'"
proof -
  let ?join = "\<lambda>event events. case event of Some event \<Rightarrow> event # events | None \<Rightarrow> events"
  let ?event = "\<lambda>cid child child'. if due reason child then Some (event_of cid child child') else None"
  have "foldr ?join (map (\<lambda>cid. ?event cid (the (bt_get (sv_children sv) cid)) (the (bt_get (sv_children sv') cid))) cids) []
      = group_events (due reason) sv sv' cids" for sv'
    by (induction cids) (simp_all add: group_events_def)
  moreover have "\<exists>sv' t'. restart_group_loop Q reason cids (sv, t) = (Ok (foldr ?join
      (map (\<lambda>cid. ?event cid (the (bt_get (sv_children sv) cid)) (the (bt_get (sv_children sv') cid))) cids) []), (sv', t'))
    \<and> crew_renewed Q contents capacity reason (due reason) restarted_child (set cids) sv t sv' t'"
  proof (rule group_loop_law [where step = "restart_group_child Q reason"])
    show "\<exists>child' t'. restart_group_child Q reason cid (child, t) = (Ok (?event cid child child'), (child', t'))
        \<and> renewal Q contents capacity reason (due reason child) restarted_child child t child' t'"
      if "pt_ok Q contents capacity t" "known t (sc_pid child)" "0 < pt_room t" for cid child and t :: "'a VmProcessTable"
      using group_child_law [OF that] by metis
  qed (use assms restarted_count in \<open>simp_all add: restart_group_loop.simps\<close>)
  ultimately show ?thesis using that by auto
qed

lemma rebuild_children_law:
  assumes "pt_ok Q contents capacity t" "children_ok t sv" "length (sv_child_order sv) \<le> pt_room t"
  obtains sv' t' where "rebuild_children Q reason (sv_child_order sv) (sv, t)
      = (Ok (group_events (\<lambda>_. True) sv sv' (sv_child_order sv)), (sv', t'))"
    "crew_renewed Q contents capacity reason (\<lambda>_. True) rebuilt_child (set (sv_child_order sv)) sv t sv' t'"
proof -
  have "foldr Cons (map (\<lambda>cid. event_of cid (the (bt_get (sv_children sv) cid)) (the (bt_get (sv_children sv') cid))) cids) []
      = group_events (\<lambda>_. True) sv sv' cids" for sv' cids
    by (induction cids) (simp_all add: group_events_def)
  moreover have "\<exists>sv' t'. rebuild_children Q reason (sv_child_order sv) (sv, t) = (Ok (foldr Cons
      (map (\<lambda>cid. event_of cid (the (bt_get (sv_children sv) cid)) (the (bt_get (sv_children sv') cid)))
        (sv_child_order sv)) []), (sv', t'))
    \<and> crew_renewed Q contents capacity reason (\<lambda>_. True) rebuilt_child (set (sv_child_order sv)) sv t sv' t'"
  proof (rule group_loop_law [where step = "rebuild_child Q reason"])
    show "\<exists>child' t'. rebuild_child Q reason cid (child, t) = (Ok (event_of cid child child'), (child', t'))
        \<and> renewal Q contents capacity reason True rebuilt_child child t child' t'"
      if "pt_ok Q contents capacity t" "known t (sc_pid child)" "0 < pt_room t" for cid child and t :: "'a VmProcessTable"
      using rebuild_child_law [OF that] by metis
  qed (use assms children_okD [OF assms(2)] in simp_all)
  ultimately show ?thesis using that by auto
qed

section \<open>Group restarts\<close>

text \<open>The first child of a group that is due but spent decides.\<close>

definition group_block :: "VmExitReason \<Rightarrow> VmSupervisor \<Rightarrow> string list \<Rightarrow> string option" where
  "group_block reason sv = find (\<lambda>cid. case bt_get (sv_children sv) cid of
     Some child \<Rightarrow> due reason child \<and> spent child | None \<Rightarrow> False)"

lemma group_limit_law:
  assumes "\<And>cid. cid \<in> set cids \<Longrightarrow> bt_contains (sv_children sv) cid"
  shows "group_limit sv reason cids = Ok (map_option (\<lambda>cid. LimitReached (sc_pid (the (bt_get (sv_children sv) cid)))
     (sc_restart_count (the (bt_get (sv_children sv) cid)))) (group_block reason sv cids))"
  using assms
proof (induction cids)
  case Nil
  show ?case by (simp add: group_block_def)
next
  case (Cons cid cids)
  obtain child where "bt_get (sv_children sv) cid = Some child"
    using Cons.prems [of cid] by (auto simp: bt_contains_def)
  moreover have "group_limit sv reason cids = Ok (map_option (\<lambda>cid. LimitReached (sc_pid (the (bt_get (sv_children sv) cid)))
     (sc_restart_count (the (bt_get (sv_children sv) cid)))) (group_block reason sv cids))"
    using Cons by simp
  ultimately show ?case by (auto simp: group_block_def due_def spent_def)
qed

lemma group_block_None:
  assumes "group_block reason sv cids = None" "cid \<in> set cids" "bt_get (sv_children sv) cid = Some child"
    "due reason child"
  shows "\<not> spent child"
  using assms by (auto simp: group_block_def find_None_iff)

lemma restart_child_group_law:
  assumes ok: "pt_ok Q contents capacity t" "children_ok t sv" and cids: "distinct cids" "length cids \<le> pt_room t"
    "\<And>cid. cid \<in> set cids \<Longrightarrow> bt_contains (sv_children sv) cid"
  shows "case group_block reason sv cids of
      Some cid \<Rightarrow> restart_child_group Q cids reason (sv, t) = (Ok (LimitReached
        (sc_pid (the (bt_get (sv_children sv) cid))) (sc_restart_count (the (bt_get (sv_children sv) cid)))), (sv, t))
    | None \<Rightarrow> \<exists>sv' t'. restart_child_group Q cids reason (sv, t)
          = (Ok (RestartedGroup (group_events (due reason) sv sv' cids)), (sv', t'))
        \<and> crew_renewed Q contents capacity reason (due reason) restarted_child (set cids) sv t sv' t'"
proof (cases "group_block reason sv cids")
  case None
  obtain sv' t' where "restart_group_loop Q reason cids (sv, t) = (Ok (group_events (due reason) sv sv' cids), (sv', t'))"
      "crew_renewed Q contents capacity reason (due reason) restarted_child (set cids) sv t sv' t'"
    by (rule restart_group_loop_law [OF ok cids group_block_None [OF None]])
  then show ?thesis
    using None by (simp add: restart_child_group_def group_limit_law [OF cids(3)] read_st_def bind_st_def return_st_def)
next
  case (Some cid)
  then show ?thesis
    by (simp add: restart_child_group_def group_limit_law [OF cids(3)] read_st_def bind_st_def return_st_def)
qed

section \<open>Supervisors in their system\<close>

text \<open>What every operation on one supervisor guarantees to the rest of the system.\<close>

definition crew_frame :: "'q queue_of \<Rightarrow> ('q \<Rightarrow> VmMessage VmPublishedFragment list) \<Rightarrow> ('q \<Rightarrow> nat) \<Rightarrow> nat
    \<Rightarrow> VmSupervisor \<Rightarrow> 'q VmProcessTable \<Rightarrow> VmSupervisor \<Rightarrow> 'q VmProcessTable \<Rightarrow> bool" where
  "crew_frame Q contents capacity n sv t sv' t' \<longleftrightarrow>
     pt_ok Q contents capacity t' \<and> children_ok t' sv'
   \<and> sv_id sv' = sv_id sv \<and> sv_parent_id sv' = sv_parent_id sv
   \<and> pids_of sv' \<subseteq> pids_of sv \<union> {pid. pt_next_pid t < pid}
   \<and> (\<forall>pid. known t pid \<longrightarrow> known t' pid) \<and> pt_room t \<le> n + pt_room t'"

lemma crew_frame_renewed:
  assumes "crew_renewed Q contents capacity reason fresh nx cids sv t sv' t'"
  shows "crew_frame Q contents capacity (card cids) sv t sv' t'"
proof -
  have "sv' = sv\<lparr> sv_children := sv_children sv' \<rparr>" using assms by (simp add: crew_renewed_def)
  then have "sv_id sv' = sv_id sv" "sv_parent_id sv' = sv_parent_id sv"
    by (metis VmSupervisor.ext_inject VmSupervisor.surjective VmSupervisor.update_convs(7))+
  then show ?thesis using assms by (simp add: crew_renewed_def crew_frame_def)
qed

lemma crew_frame_refl:
  "pt_ok Q contents capacity t \<Longrightarrow> children_ok t sv \<Longrightarrow> crew_frame Q contents capacity 0 sv t sv t"
  by (simp add: crew_frame_def)

lemma crew_frame_weaken:
  "crew_frame Q contents capacity n sv t sv' t' \<Longrightarrow> n \<le> m \<Longrightarrow> crew_frame Q contents capacity m sv t sv' t'"
  by (auto simp: crew_frame_def)

lemma system_okD:
  assumes "system_ok t sys"
  shows "bt_ok (sys_supervisors sys)"
    "bt_get (sys_supervisors sys) sid = Some sv \<Longrightarrow> sv_id sv = sid"
    "bt_get (sys_supervisors sys) sid = Some sv \<Longrightarrow> sid \<le> sys_next_supervisor_id sys"
    "bt_get (sys_supervisors sys) sid = Some sv \<Longrightarrow> children_ok t sv"
    "bt_get (sys_supervisors sys) sid = Some sv \<Longrightarrow> sv_parent_id sv = Some parent \<Longrightarrow> parent < sid"
    "bt_get (sys_supervisors sys) sid = Some sv \<Longrightarrow> sv_parent_id sv = Some parent
       \<Longrightarrow> bt_contains (sys_supervisors sys) parent"
    "bt_get (sys_supervisors sys) sid = Some sv \<Longrightarrow> bt_get (sys_supervisors sys) sid' = Some sv'
       \<Longrightarrow> sid \<noteq> sid' \<Longrightarrow> pids_of sv \<inter> pids_of sv' = {}"
  using assms unfolding system_ok_def by blast+

lemma put_supervisor_simps [simp]:
  "bt_get (sys_supervisors (put_supervisor sid sv sys)) x = (if x = sid then Some sv else bt_get (sys_supervisors sys) x)"
  "bt_contains (sys_supervisors (put_supervisor sid sv sys)) x \<longleftrightarrow> x = sid \<or> bt_contains (sys_supervisors sys) x"
  "sys_next_supervisor_id (put_supervisor sid sv sys) = sys_next_supervisor_id sys"
  by (simp_all add: put_supervisor_def)

lemma pids_of_le:
  "pt_ok Q contents capacity t \<Longrightarrow> children_ok t sv \<Longrightarrow> pid \<in> pids_of sv \<Longrightarrow> pid \<le> pt_next_pid t"
  using known_le children_okD(5) by (fastforce simp: pids_of_def)

lemma system_put:
  assumes t: "pt_ok Q contents capacity t" and ok: "system_ok t sys"
    and get: "bt_get (sys_supervisors sys) sid = Some sv"
    and frame: "crew_frame Q contents capacity n sv t sv' t'"
  shows "system_ok t' (put_supervisor sid sv' sys)"
  unfolding system_ok_def
proof (intro conjI allI impI)
  have F: "children_ok t' sv'" "sv_id sv' = sv_id sv" "sv_parent_id sv' = sv_parent_id sv"
      "pids_of sv' \<subseteq> pids_of sv \<union> {pid. pt_next_pid t < pid}" "\<And>pid. known t pid \<Longrightarrow> known t' pid"
    using frame by (simp_all add: crew_frame_def)
  show "bt_ok (sys_supervisors (put_supervisor sid sv' sys))"
    using system_okD(1) [OF ok] by (simp add: put_supervisor_def)
  have apart: "pids_of sv' \<inter> pids_of y = {}" if "bt_get (sys_supervisors sys) c = Some y" "c \<noteq> sid" for c y
  proof -
    have "pids_of sv \<inter> pids_of y = {}" using system_okD(7) [OF ok get that(1)] that(2) by simp
    moreover have "pid \<le> pt_next_pid t" if "pid \<in> pids_of y" for pid
      using pids_of_le [OF t system_okD(4) [OF ok \<open>bt_get (sys_supervisors sys) c = Some y\<close>] that] .
    ultimately show ?thesis using F(4) by (fastforce simp: not_less [symmetric])
  qed
  fix c x
  assume x: "bt_get (sys_supervisors (put_supervisor sid sv' sys)) c = Some x"
  show "sv_id x = c" using x F(2) system_okD(2) [OF ok] get by (auto split: if_splits)
  show "c \<le> sys_next_supervisor_id (put_supervisor sid sv' sys)"
    using x system_okD(3) [OF ok] get by (auto split: if_splits)
  show "children_ok t' x"
    using x F(1) children_ok_known [OF system_okD(4) [OF ok] F(5)] by (auto split: if_splits)
  show "parent < c" if "sv_parent_id x = Some parent" for parent
    using x that F(3) system_okD(5) [OF ok] get by (auto split: if_splits)
  show "bt_contains (sys_supervisors (put_supervisor sid sv' sys)) parent" if "sv_parent_id x = Some parent" for parent
    using x that F(3) system_okD(6) [OF ok] get by (auto split: if_splits)
  fix c' x'
  assume x': "bt_get (sys_supervisors (put_supervisor sid sv' sys)) c' = Some x'" and ne: "c \<noteq> c'"
  show "pids_of x \<inter> pids_of x' = {}"
    using x x' ne apart [of c] apart [of c'] system_okD(7) [OF ok, of c x c' x'] by (auto split: if_splits)
qed

lemma crew_frame_update:
  assumes "crew_frame Q contents capacity n sv t sv1 t'"
    and "sv_id sv2 = sv_id sv1" "sv_parent_id sv2 = sv_parent_id sv1" "sv_children sv2 = sv_children sv1"
      "sv_child_order sv2 = sv_child_order sv1"
  shows "crew_frame Q contents capacity n sv t sv2 t'"
  using assms by (simp add: crew_frame_def children_ok_def pids_of_def)

lemma record_restart_simps [simp]:
  "sv_id (record_supervision_restart cid reason restart sv) = sv_id sv"
  "sv_parent_id (record_supervision_restart cid reason restart sv) = sv_parent_id sv"
  "sv_children (record_supervision_restart cid reason restart sv) = sv_children sv"
  "sv_child_order (record_supervision_restart cid reason restart sv) = sv_child_order sv"
  "sv_state (record_supervision_restart cid reason restart sv) = sv_state sv"
  "sv_policy (record_supervision_restart cid reason restart sv) = sv_policy sv"
  by (simp_all add: record_supervision_restart_def Let_def)

text \<open>The children a group policy selects.\<close>

definition group_of :: "VmRestartPolicy \<Rightarrow> string list \<Rightarrow> string \<Rightarrow> string list" where
  "group_of policy order cid = (case policy of
     OneForOne \<Rightarrow> [cid] | OneForAll \<Rightarrow> order | RestForOne \<Rightarrow> dropWhile (\<lambda>c. c \<noteq> cid) order)"

lemma drop_position:
  "cid \<in> set order \<Longrightarrow> \<exists>i. position (\<lambda>c. c = cid) order = Some i \<and> drop i order = dropWhile (\<lambda>c. c \<noteq> cid) order"
  by (induction order) auto

lemma group_of_facts:
  assumes ok: "children_ok t sv" and cid: "bt_contains (sv_children sv) cid" and policy: "policy \<noteq> OneForOne"
  shows "distinct (group_of policy (sv_child_order sv) cid)"
    "length (group_of policy (sv_child_order sv) cid) \<le> length (sv_child_order sv)"
    "c \<in> set (group_of policy (sv_child_order sv) cid) \<Longrightarrow> bt_contains (sv_children sv) c"
    "cid \<in> set (group_of policy (sv_child_order sv) cid)"
proof -
  have mem: "cid \<in> set (sv_child_order sv)" using children_okD(3) [OF ok] cid by simp
  show "distinct (group_of policy (sv_child_order sv) cid)"
    using children_okD(2) [OF ok] policy by (cases policy) (auto simp: group_of_def distinct_dropWhile)
  show "length (group_of policy (sv_child_order sv) cid) \<le> length (sv_child_order sv)"
    using policy by (cases policy) (auto simp: group_of_def length_dropWhile_le)
  show "bt_contains (sv_children sv) c" if "c \<in> set (group_of policy (sv_child_order sv) cid)"
    using that policy children_okD(3) [OF ok] by (cases policy) (auto simp: group_of_def dest: set_dropWhileD)
  have "cid \<in> set (dropWhile (\<lambda>c. c \<noteq> cid) order)" if "cid \<in> set order" for order
    using that by (induction order) auto
  then show "cid \<in> set (group_of policy (sv_child_order sv) cid)"
    using policy mem by (cases policy) (auto simp: group_of_def)
qed

text \<open>What the policy does to the supervisor and the table, and what it answers.\<close>

definition policy_effect :: "'q queue_of \<Rightarrow> ('q \<Rightarrow> VmMessage VmPublishedFragment list) \<Rightarrow> ('q \<Rightarrow> nat)
    \<Rightarrow> string \<Rightarrow> VmExitReason \<Rightarrow> VmSupervisor \<Rightarrow> 'q VmProcessTable \<Rightarrow> VmSupervisionRestart
    \<Rightarrow> VmSupervisor \<Rightarrow> 'q VmProcessTable \<Rightarrow> bool" where
  "policy_effect Q contents capacity cid reason sv t restart sv' t' \<longleftrightarrow>
     (if sv_policy sv = OneForOne then
        crew_renewed Q contents capacity reason (\<lambda>child. due reason child \<and> \<not> spent child) restarted_child
          {cid} sv t sv' t'
      \<and> restart = one_outcome reason (the (bt_get (sv_children sv) cid)) (the (bt_get (sv_children sv') cid))
      else let cids = group_of (sv_policy sv) (sv_child_order sv) cid in
        case group_block reason sv cids of
          Some b \<Rightarrow> sv' = sv \<and> t' = t \<and> restart = LimitReached (sc_pid (the (bt_get (sv_children sv) b)))
            (sc_restart_count (the (bt_get (sv_children sv) b)))
        | None \<Rightarrow> crew_renewed Q contents capacity reason (due reason) restarted_child (set cids) sv t sv' t'
            \<and> restart = RestartedGroup (group_events (due reason) sv sv' cids))"

lemma one_child_law:
  assumes ok: "pt_ok Q contents capacity t" "children_ok t sv" and child: "bt_get (sv_children sv) cid = Some child"
    and room: "0 < pt_room t"
  obtains sv' t' where "on_child missing cid (restart_one_for_one_child Q reason) (sv, t)
      = (Ok (one_outcome reason child (the (bt_get (sv_children sv') cid))), (sv', t'))"
    "crew_renewed Q contents capacity reason (\<lambda>child. due reason child \<and> \<not> spent child) restarted_child
      {cid} sv t sv' t'"
proof -
  obtain child' t' where r: "restart_one_for_one_child Q reason (child, t)
        = (Ok (one_outcome reason child child'), (child', t'))"
      "renewal Q contents capacity reason (due reason child \<and> \<not> spent child) restarted_child child t child' t'"
    by (rule one_for_one_law [OF ok(1) children_okD(5) [OF ok(2) child] room])
  have run: "on_child missing cid (restart_one_for_one_child Q reason) (sv, t)
      = (Ok (one_outcome reason child (the (bt_get (sv_children (put_child cid child' sv)) cid))),
         (put_child cid child' sv, t'))"
    using r(1) by (simp add: on_child_def child)
  have sv': "children_ok t' (put_child cid child' sv)"
      "pids_of (put_child cid child' sv) \<subseteq> pids_of sv \<union> {pid. pt_next_pid t < pid}"
    using renewal_children [OF ok child r(2)] restarted_count [of child] by simp_all
  have "crew_renewed Q contents capacity reason (\<lambda>child. due reason child \<and> \<not> spent child) restarted_child
      (insert cid {}) sv t (put_child cid child' sv) t'"
    by (rule crew_renewed_step [where fresh = "\<lambda>child. due reason child \<and> \<not> spent child", OF ok child r(2) _ sv'])
      (simp_all add: crew_renewed_none sv'(1) renewal_facts(1) [OF r(2)])
  with run that show ?thesis by blast
qed

lemma apply_policy_law:
  assumes ok: "pt_ok Q contents capacity t" "children_ok t sv" and cid: "bt_contains (sv_children sv) cid"
    and room: "length (sv_child_order sv) \<le> pt_room t"
  obtains restart sv' t' where "apply_policy Q cid reason (sv, t) = (Ok restart, (sv', t'))"
    "policy_effect Q contents capacity cid reason sv t restart sv' t'"
proof (cases "sv_policy sv = OneForOne")
  case True
  obtain child where child: "bt_get (sv_children sv) cid = Some child" using cid by (auto simp: bt_contains_def)
  have "cid \<in> set (sv_child_order sv)" using children_okD(3) [OF ok(2)] cid by simp
  then have "0 < pt_room t" using room by (cases "sv_child_order sv") auto
  then obtain sv' t' where "on_child [] cid (restart_one_for_one_child Q reason) (sv, t)
        = (Ok (one_outcome reason child (the (bt_get (sv_children sv') cid))), (sv', t'))"
      "crew_renewed Q contents capacity reason (\<lambda>child. due reason child \<and> \<not> spent child) restarted_child
        {cid} sv t sv' t'"
    by (rule one_child_law [OF ok child])
  then show ?thesis
    using that True cid child by (simp add: apply_policy_def policy_effect_def)
next
  case False
  let ?cids = "group_of (sv_policy sv) (sv_child_order sv) cid"
  note g = group_of_facts [OF ok(2) cid False]
  have run: "apply_policy Q cid reason (sv, t) = restart_child_group Q ?cids reason (sv, t)"
    using drop_position [of cid "sv_child_order sv"] children_okD(3) [OF ok(2), of cid] cid False
    by (cases "sv_policy sv") (auto simp: apply_policy_def restart_one_for_all_children_def
        restart_rest_for_one_children_def group_of_def)
  have len: "length ?cids \<le> pt_room t" using g(2) room by simp
  note law = restart_child_group_law [OF ok g(1) len g(3), of reason]
  show ?thesis
  proof (cases "group_block reason sv ?cids")
    case None
    with law obtain sv' t' where "restart_child_group Q ?cids reason (sv, t)
          = (Ok (RestartedGroup (group_events (due reason) sv sv' ?cids)), (sv', t'))"
        "crew_renewed Q contents capacity reason (due reason) restarted_child (set ?cids) sv t sv' t'"
      by auto
    with run that None False show ?thesis by (simp add: policy_effect_def Let_def)
  next
    case (Some b)
    with law run that False show ?thesis by (simp add: policy_effect_def Let_def)
  qed
qed

lemma policy_effect_frame:
  assumes ok: "pt_ok Q contents capacity t" "children_ok t sv" and cid: "bt_contains (sv_children sv) cid"
    and effect: "policy_effect Q contents capacity cid reason sv t restart sv' t'"
  shows "crew_frame Q contents capacity (length (sv_child_order sv)) sv t sv' t'"
proof (cases "sv_policy sv = OneForOne")
  case True
  then have "crew_frame Q contents capacity (card {cid}) sv t sv' t'"
    using effect by (intro crew_frame_renewed) (auto simp: policy_effect_def)
  moreover have "cid \<in> set (sv_child_order sv)" using children_okD(3) [OF ok(2)] cid by simp
  then have "card {cid} \<le> length (sv_child_order sv)" by (cases "sv_child_order sv") auto
  ultimately show ?thesis by (rule crew_frame_weaken)
next
  case False
  let ?cids = "group_of (sv_policy sv) (sv_child_order sv) cid"
  note g = group_of_facts [OF ok(2) cid False]
  have "card (set ?cids) \<le> length (sv_child_order sv)" using g(2) card_length [of ?cids] by linarith
  then show ?thesis
    using effect False crew_frame_refl [OF ok] crew_frame_renewed crew_frame_weaken
    by (fastforce simp: policy_effect_def Let_def split: option.splits)
qed

section \<open>Restarts in a system\<close>

lemma fail_parent_ok:
  assumes t: "pt_ok Q contents capacity t" and ok: "system_ok t sys"
  shows "system_ok t (fail_parent parent failed reason sys)"
proof (cases "\<exists>p sv. parent = Some p \<and> bt_get (sys_supervisors sys) p = Some sv")
  case True
  then obtain p sv where p: "parent = Some p" "bt_get (sys_supervisors sys) p = Some sv" by blast
  have "crew_frame Q contents capacity 0 sv t (sv\<lparr> sv_state := ChildSupervisorFailed failed reason \<rparr>) t"
    by (rule crew_frame_update [OF crew_frame_refl [OF t system_okD(4) [OF ok p(2)]]]) simp_all
  then show ?thesis using system_put [OF t ok p(2)] p by (simp add: fail_parent_def)
next
  case False
  then show ?thesis using ok by (auto simp: fail_parent_def split: option.splits)
qed

lemma fail_parent_get:
  "bt_get (sys_supervisors (fail_parent parent failed reason sys)) sid = (if parent = Some sid
     then map_option (\<lambda>sv. sv\<lparr> sv_state := ChildSupervisorFailed failed reason \<rparr>) (bt_get (sys_supervisors sys) sid)
     else bt_get (sys_supervisors sys) sid)"
  by (auto simp: fail_parent_def split: option.split)

text \<open>The supervisor and the system after the policy was applied.\<close>

definition settled :: "string \<Rightarrow> VmExitReason \<Rightarrow> VmSupervisionRestart \<Rightarrow> VmSupervisor \<Rightarrow> VmSupervisor" where
  "settled cid reason restart sv = (case restart of
     LimitReached pid _ \<Rightarrow> (record_supervision_restart cid reason restart sv)
       \<lparr> sv_state := SupervisorFailed cid pid reason \<rparr>
   | _ \<Rightarrow> record_supervision_restart cid reason restart sv)"

definition escalated :: "VmSupervisorId \<Rightarrow> VmExitReason \<Rightarrow> VmSupervisionRestart \<Rightarrow> VmSupervisor
    \<Rightarrow> VmSupervisionSystem \<Rightarrow> VmSupervisionSystem" where
  "escalated sid reason restart sv sys = (case restart of
     LimitReached _ _ \<Rightarrow> fail_parent (sv_parent_id sv) sid reason sys | _ \<Rightarrow> sys)"

lemma settled_simps [simp]:
  "sv_id (settled cid reason restart sv) = sv_id sv"
  "sv_parent_id (settled cid reason restart sv) = sv_parent_id sv"
  "sv_children (settled cid reason restart sv) = sv_children sv"
  "sv_child_order (settled cid reason restart sv) = sv_child_order sv"
  by (simp_all add: settled_def split: VmSupervisionRestart.split)

lemma restart_child_law:
  assumes t: "pt_ok Q contents capacity t" and ok: "system_ok t sys"
    and sv: "bt_get (sys_supervisors sys) sid = Some sv" and cid: "bt_contains (sv_children sv) cid"
    and room: "length (sv_child_order sv) \<le> pt_room t"
  obtains restart sv' t' where "restart_child Q sid cid reason (sys, t) = (Ok restart,
      (escalated sid reason restart sv' (put_supervisor sid (settled cid reason restart sv') sys), t'))"
    "policy_effect Q contents capacity cid reason sv t restart sv' t'"
    "pt_ok Q contents capacity t'" "sv_parent_id sv' = sv_parent_id sv"
    "system_ok t' (escalated sid reason restart sv' (put_supervisor sid (settled cid reason restart sv') sys))"
    "\<And>pid. known t pid \<Longrightarrow> known t' pid" "pt_room t \<le> length (sv_child_order sv) + pt_room t'"
proof -
  note ch = system_okD(4) [OF ok sv]
  obtain restart sv' t' where r: "apply_policy Q cid reason (sv, t) = (Ok restart, (sv', t'))"
      "policy_effect Q contents capacity cid reason sv t restart sv' t'"
    by (rule apply_policy_law [OF t ch cid room])
  have frame: "crew_frame Q contents capacity (length (sv_child_order sv)) sv t sv' t'"
    by (rule policy_effect_frame [OF t ch cid r(2)])
  then have t': "pt_ok Q contents capacity t'" "sv_parent_id sv' = sv_parent_id sv"
      "\<And>pid. known t pid \<Longrightarrow> known t' pid" "pt_room t \<le> length (sv_child_order sv) + pt_room t'"
    by (simp_all add: crew_frame_def)
  have "crew_frame Q contents capacity (length (sv_child_order sv)) sv t (settled cid reason restart sv') t'"
    by (rule crew_frame_update [OF frame]) simp_all
  then have put: "system_ok t' (put_supervisor sid (settled cid reason restart sv') sys)"
    by (rule system_put [OF t ok sv])
  then have "system_ok t' (escalated sid reason restart sv' (put_supervisor sid (settled cid reason restart sv') sys))"
    using fail_parent_ok [OF t'(1) put]
    by (auto simp: escalated_def split: VmSupervisionRestart.split)
  moreover have "restart_child Q sid cid reason (sys, t) = (Ok restart,
      (escalated sid reason restart sv' (put_supervisor sid (settled cid reason restart sv') sys), t'))"
    by (auto simp: restart_child_def sv r(1) settled_def escalated_def Let_def split: VmSupervisionRestart.split)
  ultimately show ?thesis using that r(2) t' by blast
qed

lemma restart_after_backoff_law:
  assumes t: "pt_ok Q contents capacity t" and ok: "system_ok t sys"
    and sv: "bt_get (sys_supervisors sys) sid = Some sv" and child: "bt_get (sv_children sv) cid = Some child"
    and room: "0 < pt_room t"
  obtains restart sv' t' where "restart_child_after_backoff Q sid cid reason (sys, t) = (Ok restart,
      (put_supervisor sid (record_supervision_restart cid reason restart sv') sys, t'))"
    "crew_renewed Q contents capacity reason (\<lambda>child. due reason child \<and> \<not> spent child) restarted_child
       {cid} sv t sv' t'"
    "restart = one_outcome reason child (the (bt_get (sv_children sv') cid))"
    "system_ok t' (put_supervisor sid (record_supervision_restart cid reason restart sv') sys)"
proof -
  obtain sv' t' where r: "on_child [] cid (restart_one_for_one_child Q reason) (sv, t)
        = (Ok (one_outcome reason child (the (bt_get (sv_children sv') cid))), (sv', t'))"
      "crew_renewed Q contents capacity reason (\<lambda>child. due reason child \<and> \<not> spent child) restarted_child
        {cid} sv t sv' t'"
    by (rule one_child_law [OF t system_okD(4) [OF ok sv] child room])
  let ?restart = "one_outcome reason child (the (bt_get (sv_children sv') cid))"
  have "restart_child_after_backoff Q sid cid reason (sys, t) = (Ok ?restart,
      (put_supervisor sid (record_supervision_restart cid reason ?restart sv') sys, t'))"
    using child by (simp add: restart_child_after_backoff_def sv r(1) bt_contains_def)
  moreover have "system_ok t' (put_supervisor sid (record_supervision_restart cid reason ?restart sv') sys)"
    by (rule system_put [OF t ok sv crew_frame_update [OF crew_frame_renewed [OF r(2)]]]) simp_all
  ultimately show ?thesis using that r(2) by blast
qed

section \<open>Growing trees\<close>

lemma insert_supervisor_law:
  assumes ok: "system_ok t sys" and bound: "sys_next_supervisor_id sys \<noteq> - 1"
    and parent: "\<And>p. parent = Some p \<Longrightarrow> bt_contains (sys_supervisors sys) p"
  obtains sid sys' where "insert_supervisor parent name policy sys = (sid, sys')" "system_ok t sys'"
    "bt_get (sys_supervisors sys) sid = None" "sys_next_supervisor_id sys < sid"
    "\<And>x. x \<noteq> sid \<Longrightarrow> bt_get (sys_supervisors sys') x = bt_get (sys_supervisors sys) x"
proof -
  let ?sid = "saturating_add (sys_next_supervisor_id sys) 1"
  have gt: "sys_next_supervisor_id sys < ?sid" by (rule saturating_add_one_gt [OF bound])
  have le: "x < ?sid" if "bt_get (sys_supervisors sys) x = Some sv" for x sv
    using system_okD(3) [OF ok that] gt by simp
  then have fresh: "bt_get (sys_supervisors sys) ?sid = None" by (cases "bt_get (sys_supervisors sys) ?sid") auto
  define sys' where "sys' = snd (insert_supervisor parent name policy sys)"
  have run: "insert_supervisor parent name policy sys = (?sid, sys')"
    by (simp add: sys'_def insert_supervisor_def Let_def)
  have get: "bt_get (sys_supervisors sys') x = (if x = ?sid then Some \<lparr> sv_id = ?sid, sv_parent_id = parent,
      sv_name = name, sv_policy = policy, sv_state = SupervisorRunning, sv_child_order = [], sv_children = [],
      sv_restart_history = [] \<rparr> else bt_get (sys_supervisors sys) x)" for x
    by (simp add: sys'_def insert_supervisor_def Let_def)
  have "system_ok t sys'"
    unfolding system_ok_def
  proof (intro conjI allI impI)
    show "bt_ok (sys_supervisors sys')"
      using system_okD(1) [OF ok] by (simp add: sys'_def insert_supervisor_def Let_def put_supervisor_def)
    fix x sv
    assume x: "bt_get (sys_supervisors sys') x = Some sv"
    show "sv_id sv = x" using x system_okD(2) [OF ok] by (auto simp: get split: if_splits)
    show "x \<le> sys_next_supervisor_id sys'"
      using x le by (force simp: get sys'_def insert_supervisor_def Let_def split: if_splits)
    show "children_ok t sv"
      using x system_okD(4) [OF ok] by (auto simp: get children_ok_def bt_contains_def split: if_splits)
    show "p < x" if "sv_parent_id sv = Some p" for p
      using x that system_okD(5) [OF ok] parent le by (auto simp: get bt_contains_def split: if_splits)
    show "bt_contains (sys_supervisors sys') p" if "sv_parent_id sv = Some p" for p
      using x that system_okD(6) [OF ok] parent by (auto simp: get bt_contains_def split: if_splits)
    fix x' sv'
    assume "bt_get (sys_supervisors sys') x' = Some sv'" "x \<noteq> x'"
    then show "pids_of sv \<inter> pids_of sv' = {}"
      using x system_okD(7) [OF ok, of x sv x' sv'] by (auto simp: get pids_of_def split: if_splits)
  qed
  with run fresh gt get that show ?thesis by simp
qed

end
