(* ===== verification/Subtree_Laws.thy ===== *)
theory Subtree_Laws
  imports Supervision_Laws
begin

text \<open>
  Starting children and rebuilding subtrees of supervisors. A rebuild of a set of
  supervisors has one effect, \<open>rebuilt\<close>, however the recursion reaches them; effects of
  consecutive rebuilds compose. The recursion ends because the identity of a child
  supervisor is above that of its parent.
\<close>

section \<open>Starting a child\<close>

lemma start_child_law:
  assumes t: "pt_ok Q contents capacity t" and ok: "system_ok t sys"
    and sv: "bt_get (sys_supervisors sys) sid = Some sv"
    and new: "\<not> bt_contains (sv_children sv) (spec_id spec)" and room: "0 < pt_room t"
  obtains pid sys' t' where "start_child Q sid spec (sys, t) = (Ok pid, (sys', t'))" "system_ok t' sys'"
    "pt_ok Q contents capacity t'" "pt_get t pid = None"
    "pt_get t' = (pt_get t)(pid \<mapsto> new_process pid None (spec_source spec))" "pt_room t \<le> Suc (pt_room t')"
proof -
  note ch = system_okD(4) [OF ok sv]
  obtain pid t' where t': "spawn_root Q (spec_source spec) t = (Ok pid, t')" "pt_ok Q contents capacity t'"
      "pt_get t pid = None" "pt_get t' = (pt_get t)(pid \<mapsto> new_process pid None (spec_source spec))"
      "pt_next_pid t < pid" "pt_room t \<le> Suc (pt_room t')"
    using pf.spawn_fresh [OF t room] by metis
  define child where "child = \<lparr> sc_spec = spec, sc_pid = pid, sc_restart_count = 0,
      sc_last_restart_delay_ms = 0, sc_last_shutdown_timeout_ms = None \<rparr>"
  define sv' where "sv' = (put_child (spec_id spec) child sv)
      \<lparr> sv_child_order := sv_child_order sv @ [spec_id spec] \<rparr>"
  have get: "bt_get (sv_children sv') c = (if c = spec_id spec then Some child else bt_get (sv_children sv) c)" for c
    by (simp add: sv'_def)
  have known': "known t' p" if "known t p" for p using that t'(4) by (simp add: known_def)
  have old: "sc_pid x \<noteq> pid" if "bt_get (sv_children sv) c = Some x" for c x
    using known_le [OF t children_okD(5) [OF ch that]] t'(5) by auto
  have "children_ok t' sv'"
    unfolding children_ok_def
  proof (intro conjI allI impI)
    show "bt_ok (sv_children sv')" using children_okD(1) [OF ch] by (simp add: sv'_def put_child_def)
    show "distinct (sv_child_order sv')"
      using children_okD(2,3) [OF ch] new by (simp add: sv'_def)
    show "set (sv_child_order sv') = {c. bt_contains (sv_children sv') c}"
      using children_okD(3) [OF ch] by (auto simp: sv'_def)
    fix c x
    assume x: "bt_get (sv_children sv') c = Some x"
    show "spec_id (sc_spec x) = c"
      using x children_okD(4) [OF ch] by (auto simp: get child_def split: if_splits)
    show "known t' (sc_pid x)"
    proof (cases "c = spec_id spec")
      case True
      then show ?thesis using x t'(4) by (auto simp: get child_def known_def)
    next
      case False
      then show ?thesis using x known' [OF children_okD(5) [OF ch, of c x]] by (simp add: get)
    qed
    show "sc_restart_count x \<le> spec_restart_limit (sc_spec x)"
      using x children_okD(6) [OF ch] by (auto simp: get child_def split: if_splits)
    fix c' x'
    assume x': "bt_get (sv_children sv') c' = Some x'" and eq: "sc_pid x = sc_pid x'"
    have here: "(d = spec_id spec \<and> sc_pid y = pid) \<or> bt_get (sv_children sv) d = Some y"
      if "bt_get (sv_children sv') d = Some y" for d y
      using that by (auto simp: get child_def split: if_splits)
    show "c = c'"
      using here [OF x] here [OF x'] old [of c x] old [of c' x'] eq children_okD(7) [OF ch, of c x c' x']
      by metis
  qed
  moreover have "pids_of sv' \<subseteq> pids_of sv \<union> {p. pt_next_pid t < p}"
    using t'(5) by (auto simp: pids_of_def get child_def split: if_splits)
  ultimately have "crew_frame Q contents capacity 1 sv t sv' t'"
    using t' known' by (simp add: crew_frame_def sv'_def put_child_def)
  then have "system_ok t' (put_supervisor sid sv' sys)" by (rule system_put [OF t ok sv])
  moreover have "start_child Q sid spec (sys, t) = (Ok pid, (put_supervisor sid sv' sys, t'))"
    using new t'(1) by (simp add: start_child_def sv sv'_def child_def)
  ultimately show ?thesis using that t' by blast
qed

section \<open>The shape of a tree\<close>

definition parent_of :: "VmSupervisionSystem \<Rightarrow> VmSupervisorId \<Rightarrow> VmSupervisorId \<Rightarrow> bool" where
  "parent_of sys p x \<longleftrightarrow> (\<exists>sv. bt_get (sys_supervisors sys) x = Some sv \<and> sv_parent_id sv = Some p)"

definition subtree :: "VmSupervisionSystem \<Rightarrow> VmSupervisorId \<Rightarrow> VmSupervisorId set" where
  "subtree sys sid = {x. (parent_of sys)\<^sup>*\<^sup>* sid x}"

definition same_shape :: "VmSupervisionSystem \<Rightarrow> VmSupervisionSystem \<Rightarrow> bool" where
  "same_shape sys sys' \<longleftrightarrow> bt_keys (sys_supervisors sys') = bt_keys (sys_supervisors sys)
     \<and> (\<forall>x. map_option (\<lambda>sv. (sv_id sv, sv_parent_id sv, sv_child_order sv)) (bt_get (sys_supervisors sys') x)
          = map_option (\<lambda>sv. (sv_id sv, sv_parent_id sv, sv_child_order sv)) (bt_get (sys_supervisors sys) x))"

lemma same_shape_refl [simp]: "same_shape sys sys"
  by (simp add: same_shape_def)

lemma same_shape_trans: "same_shape sys sys1 \<Longrightarrow> same_shape sys1 sys2 \<Longrightarrow> same_shape sys sys2"
  by (simp add: same_shape_def)

lemma same_shape_get:
  "same_shape sys sys' \<Longrightarrow> bt_get (sys_supervisors sys) x = Some sv \<Longrightarrow>
     \<exists>sv'. bt_get (sys_supervisors sys') x = Some sv' \<and> sv_id sv' = sv_id sv
       \<and> sv_parent_id sv' = sv_parent_id sv \<and> sv_child_order sv' = sv_child_order sv"
  unfolding same_shape_def
  by (drule conjunct2, drule spec [of _ x]) auto

lemma same_shape_parent: "same_shape sys sys' \<Longrightarrow> parent_of sys' = parent_of sys"
proof (intro ext)
  fix p x
  assume "same_shape sys sys'"
  then have "map_option (\<lambda>sv. (sv_id sv, sv_parent_id sv, sv_child_order sv)) (bt_get (sys_supervisors sys') x)
      = map_option (\<lambda>sv. (sv_id sv, sv_parent_id sv, sv_child_order sv)) (bt_get (sys_supervisors sys) x)"
    by (simp add: same_shape_def)
  then show "parent_of sys' p x = parent_of sys p x"
    by (cases "bt_get (sys_supervisors sys') x"; cases "bt_get (sys_supervisors sys) x") (auto simp: parent_of_def)
qed

lemma same_shape_subtree: "same_shape sys sys' \<Longrightarrow> subtree sys' sid = subtree sys sid"
  by (simp add: subtree_def same_shape_parent)

lemma supervisor_children_eq:
  assumes ok: "system_ok t sys"
  shows "supervisor_children sys p = filter (parent_of sys p) (bt_keys (sys_supervisors sys))"
proof -
  let ?m = "sys_supervisors sys"
  have entry: "bt_get ?m (fst e) = Some (snd e)" if "e \<in> set ?m" for e
    using bt_in_get [OF system_okD(1) [OF ok], of "fst e" "snd e"] that by simp
  have "map sv_id (filter (\<lambda>sv. sv_parent_id sv = Some p) (map snd ?m))
      = map (\<lambda>e. sv_id (snd e)) (filter (\<lambda>e. sv_parent_id (snd e) = Some p) ?m)"
    by (simp add: filter_map comp_def)
  also have "\<dots> = map fst (filter (\<lambda>e. parent_of sys p (fst e)) ?m)"
  proof (rule map_cong)
    show "filter (\<lambda>e. sv_parent_id (snd e) = Some p) ?m = filter (\<lambda>e. parent_of sys p (fst e)) ?m"
      using entry by (intro filter_cong) (auto simp: parent_of_def)
    show "sv_id (snd e) = fst e" if "e \<in> set (filter (\<lambda>e. parent_of sys p (fst e)) ?m)" for e
      using that entry system_okD(2) [OF ok] by auto
  qed
  finally show ?thesis by (simp add: supervisor_children_def bt_values_def bt_keys_def filter_map comp_def)
qed

lemma supervisor_children_set:
  assumes "system_ok t sys"
  shows "set (supervisor_children sys p) = {x. parent_of sys p x}"
  unfolding supervisor_children_eq [OF assms]
  by (auto simp: bt_keys_iff) (auto simp: parent_of_def bt_contains_def)

lemma same_shape_children:
  "system_ok t sys \<Longrightarrow> system_ok t' sys' \<Longrightarrow> same_shape sys sys' \<Longrightarrow> supervisor_children sys' p = supervisor_children sys p"
  by (simp add: supervisor_children_eq same_shape_parent) (simp add: same_shape_def)

lemma subtree_unfold:
  assumes "system_ok t sys"
  shows "subtree sys sid = {sid} \<union> (\<Union>d\<in>set (supervisor_children sys sid). subtree sys d)"
proof -
  have "x = sid \<or> (\<exists>d. parent_of sys sid d \<and> (parent_of sys)\<^sup>*\<^sup>* d x)" if "(parent_of sys)\<^sup>*\<^sup>* sid x" for x
    using that by (auto elim: converse_rtranclpE)
  then show ?thesis
    by (auto simp: subtree_def supervisor_children_set [OF assms] intro: converse_rtranclp_into_rtranclp)
qed

lemma parent_less: "system_ok t sys \<Longrightarrow> parent_of sys p x \<Longrightarrow> p < x"
  by (auto simp: parent_of_def dest: system_okD(5))

lemma subtree_ge: "system_ok t sys \<Longrightarrow> x \<in> subtree sys sid \<Longrightarrow> sid \<le> x"
proof -
  assume ok: "system_ok t sys" and "x \<in> subtree sys sid"
  then have "(parent_of sys)\<^sup>*\<^sup>* sid x" by (simp add: subtree_def)
  then show "sid \<le> x"
  proof (induction rule: rtranclp_induct)
    case (step y z)
    then show ?case using parent_less [OF ok, of y z] by simp
  qed simp
qed

text \<open>The supervisors above an identity: the recursion under it is no deeper.\<close>

definition height :: "VmSupervisionSystem \<Rightarrow> VmSupervisorId \<Rightarrow> nat" where
  "height sys sid = card {x. sid < x \<and> bt_contains (sys_supervisors sys) x}"

lemma contains_finite: "finite {x. P x \<and> bt_contains m x}"
  by (rule finite_subset [of _ "set (bt_keys m)"]) (auto simp: bt_keys_iff)

lemma height_child: "system_ok t sys \<Longrightarrow> parent_of sys p x \<Longrightarrow> height sys x < height sys p"
  unfolding height_def
  by (rule psubset_card_mono [OF contains_finite])
    (use parent_less [of t sys p x] in \<open>auto simp: parent_of_def bt_contains_def\<close>)

lemma height_bound: "height sys sid \<le> length (sys_supervisors sys)"
proof -
  have "{x. sid < x \<and> bt_contains (sys_supervisors sys) x} \<subseteq> set (bt_keys (sys_supervisors sys))"
    by (auto simp: bt_keys_iff)
  then have "height sys sid \<le> card (set (bt_keys (sys_supervisors sys)))"
    unfolding height_def by (intro card_mono) auto
  also have "\<dots> \<le> length (sys_supervisors sys)" using card_length [of "bt_keys (sys_supervisors sys)"] by (simp add: bt_keys_def)
  finally show ?thesis .
qed

lemma same_shape_height: "same_shape sys sys' \<Longrightarrow> height sys' sid = height sys sid"
  by (simp add: height_def same_shape_def bt_keys_iff [symmetric])

text \<open>The processes a rebuild spawns: one per child of the supervisors it reaches.\<close>

fun rebuild_cost :: "nat \<Rightarrow> VmSupervisionSystem \<Rightarrow> VmSupervisorId \<Rightarrow> nat" where
  "rebuild_cost 0 sys sid = 0"
| "rebuild_cost (Suc fuel) sys sid = (case bt_get (sys_supervisors sys) sid of
       Some sv \<Rightarrow> length (sv_child_order sv) | None \<Rightarrow> 0)
     + sum_list (map (rebuild_cost fuel sys) (supervisor_children sys sid))"

lemma same_shape_cost:
  assumes "system_ok t sys" "system_ok t' sys'" "same_shape sys sys'"
  shows "rebuild_cost fuel sys' = rebuild_cost fuel sys"
proof (rule ext)
  fix sid
  show "rebuild_cost fuel sys' sid = rebuild_cost fuel sys sid"
  proof (induction fuel arbitrary: sid)
    case (Suc fuel)
    have "map_option (\<lambda>sv. (sv_id sv, sv_parent_id sv, sv_child_order sv)) (bt_get (sys_supervisors sys') sid)
        = map_option (\<lambda>sv. (sv_id sv, sv_parent_id sv, sv_child_order sv)) (bt_get (sys_supervisors sys) sid)"
      using assms(3) by (simp add: same_shape_def)
    then show ?case
      using Suc same_shape_children [OF assms]
      by (cases "bt_get (sys_supervisors sys') sid"; cases "bt_get (sys_supervisors sys) sid")
        (auto cong: map_cong)
  qed simp
qed

section \<open>The effect of a rebuild\<close>

text \<open>A supervisor whose children are all fresh: counters reset, processes younger than a table.\<close>

definition fresh_crew :: "VmProcessId \<Rightarrow> VmSupervisor \<Rightarrow> 'q VmProcessTable \<Rightarrow> bool" where
  "fresh_crew newest sv t \<longleftrightarrow> (\<forall>cid child. bt_get (sv_children sv) cid = Some child \<longrightarrow>
     sc_restart_count child = 0 \<and> sc_last_restart_delay_ms child = 0 \<and> sc_last_shutdown_timeout_ms child = None
   \<and> newest < sc_pid child
   \<and> pt_get t (sc_pid child) = Some (new_process (sc_pid child) None (spec_source (sc_spec child))))"

definition gone :: "'q VmProcessTable \<Rightarrow> VmProcessId \<Rightarrow> bool" where
  "gone t pid \<longleftrightarrow> (\<exists>p. pt_get t pid = Some p \<and> is_exited (proc_state p))"

definition owned_in :: "VmSupervisionSystem \<Rightarrow> VmSupervisorId set \<Rightarrow> VmProcessId set" where
  "owned_in sys S = {pid. \<exists>x\<in>S. \<exists>sv. bt_get (sys_supervisors sys) x = Some sv \<and> pid \<in> pids_of sv}"

definition rebuilt :: "'q queue_of \<Rightarrow> ('q \<Rightarrow> VmMessage VmPublishedFragment list) \<Rightarrow> ('q \<Rightarrow> nat)
    \<Rightarrow> VmSupervisorId set \<Rightarrow> nat \<Rightarrow> VmSupervisionSystem \<Rightarrow> 'q VmProcessTable
    \<Rightarrow> VmSupervisionSystem \<Rightarrow> 'q VmProcessTable \<Rightarrow> bool" where
  "rebuilt Q contents capacity S n sys t sys' t' \<longleftrightarrow>
     pt_ok Q contents capacity t' \<and> system_ok t' sys' \<and> same_shape sys sys'
   \<and> (\<forall>pid. known t pid \<longrightarrow> known t' pid) \<and> pt_next_pid t \<le> pt_next_pid t' \<and> pt_room t \<le> n + pt_room t'
   \<and> (\<forall>x\<in>S. \<exists>sv'. bt_get (sys_supervisors sys') x = Some sv' \<and> sv_state sv' = SupervisorRunning
        \<and> fresh_crew (pt_next_pid t) sv' t')
   \<and> (\<forall>x. x \<notin> S \<longrightarrow> bt_get (sys_supervisors sys') x = bt_get (sys_supervisors sys) x)
   \<and> (\<forall>pid. known t pid \<longrightarrow> pid \<notin> owned_in sys S \<longrightarrow> pt_get t' pid = pt_get t pid)
   \<and> (\<forall>pid\<in>owned_in sys S. gone t' pid)"

lemma rebuiltD:
  assumes "rebuilt Q contents capacity S n sys t sys' t'"
  shows "pt_ok Q contents capacity t'" "system_ok t' sys'" "same_shape sys sys'"
    "known t pid \<Longrightarrow> known t' pid" "pt_next_pid t \<le> pt_next_pid t'" "pt_room t \<le> n + pt_room t'"
    "x \<in> S \<Longrightarrow> \<exists>sv'. bt_get (sys_supervisors sys') x = Some sv' \<and> sv_state sv' = SupervisorRunning
        \<and> fresh_crew (pt_next_pid t) sv' t'"
    "x \<notin> S \<Longrightarrow> bt_get (sys_supervisors sys') x = bt_get (sys_supervisors sys) x"
    "known t pid \<Longrightarrow> pid \<notin> owned_in sys S \<Longrightarrow> pt_get t' pid = pt_get t pid"
    "pid \<in> owned_in sys S \<Longrightarrow> gone t' pid"
  using assms unfolding rebuilt_def by blast+

lemma rebuilt_none:
  "pt_ok Q contents capacity t \<Longrightarrow> system_ok t sys \<Longrightarrow> rebuilt Q contents capacity {} 0 sys t sys t"
  by (simp add: rebuilt_def owned_in_def)

lemma pids_known: "children_ok t sv \<Longrightarrow> pid \<in> pids_of sv \<Longrightarrow> known t pid"
  using children_okD(5) by (fastforce simp: pids_of_def)

lemma fresh_crew_pids: "fresh_crew newest sv t \<Longrightarrow> pid \<in> pids_of sv \<Longrightarrow> newest < pid"
  by (auto simp: fresh_crew_def pids_of_def)

lemma rebuilt_trans:
  assumes t: "pt_ok Q contents capacity t" and sys: "system_ok t sys"
    and one: "rebuilt Q contents capacity S1 n1 sys t sys1 t1"
    and two: "rebuilt Q contents capacity S2 n2 sys1 t1 sys2 t2"
  shows "rebuilt Q contents capacity (S1 \<union> S2) (n1 + n2) sys t sys2 t2"
proof -
  note a = rebuiltD [OF one] and b = rebuiltD [OF two]
  have crew: "\<exists>sv'. bt_get (sys_supervisors sys2) x = Some sv' \<and> sv_state sv' = SupervisorRunning
      \<and> fresh_crew (pt_next_pid t) sv' t2" if x: "x \<in> S1 \<union> S2" for x
  proof (cases "x \<in> S2")
    case True
    obtain sv' where "bt_get (sys_supervisors sys2) x = Some sv'" "sv_state sv' = SupervisorRunning"
        "fresh_crew (pt_next_pid t1) sv' t2"
      using b(7) [OF True] by blast
    then show ?thesis using a(5) unfolding fresh_crew_def by (meson le_less_trans)
  next
    case False
    then obtain sv1 where sv1: "bt_get (sys_supervisors sys1) x = Some sv1" "sv_state sv1 = SupervisorRunning"
        "fresh_crew (pt_next_pid t) sv1 t1"
      using a(7) x by blast
    have "pt_get t2 pid = pt_get t1 pid" if pid: "pid \<in> pids_of sv1" for pid
    proof (rule b(9))
      show "known t1 pid" by (rule pids_known [OF system_okD(4) [OF a(2) sv1(1)] pid])
      show "pid \<notin> owned_in sys1 S2"
        using system_okD(7) [OF a(2) sv1(1)] False pid by (fastforce simp: owned_in_def)
    qed
    then have "pt_get t2 (sc_pid child) = pt_get t1 (sc_pid child)"
      if "bt_get (sv_children sv1) cid = Some child" for cid child
      using that by (auto simp: pids_of_def)
    then have "fresh_crew (pt_next_pid t) sv1 t2" using sv1(3) by (simp add: fresh_crew_def)
    then show ?thesis using b(8) [OF False] sv1 by auto
  qed
  have apart: "pid \<notin> owned_in sys1 S2" if "known t pid" "pid \<notin> owned_in sys (S1 \<union> S2)" for pid
  proof
    assume "pid \<in> owned_in sys1 S2"
    then obtain x sv where x: "x \<in> S2" "bt_get (sys_supervisors sys1) x = Some sv" "pid \<in> pids_of sv"
      by (auto simp: owned_in_def)
    show False
    proof (cases "x \<in> S1")
      case True
      then have "fresh_crew (pt_next_pid t) sv t1" using a(7) [OF True] x(2) by simp
      then have "pt_next_pid t < pid" using x(3) by (rule fresh_crew_pids)
      then show False using known_le [OF t that(1)] by simp
    next
      case False
      then have "bt_get (sys_supervisors sys) x = Some sv" using a(8) [OF False] x(2) by simp
      then show False using x(1,3) that(2) by (auto simp: owned_in_def)
    qed
  qed
  have still: "gone t2 pid" if own: "pid \<in> owned_in sys (S1 \<union> S2)" for pid
  proof (cases "pid \<in> owned_in sys1 S2")
    case True
    then show ?thesis by (rule b(10))
  next
    case False
    have "pid \<in> owned_in sys S1"
    proof (rule ccontr)
      assume "pid \<notin> owned_in sys S1"
      then obtain x sv where "x \<in> S2" "x \<notin> S1" "bt_get (sys_supervisors sys) x = Some sv" "pid \<in> pids_of sv"
        using own unfolding owned_in_def by blast
      moreover from this have "bt_get (sys_supervisors sys1) x = Some sv" using a(8) [of x] by simp
      ultimately show False using False by (auto simp: owned_in_def)
    qed
    then have g: "gone t1 pid" by (rule a(10))
    then have "pt_get t2 pid = pt_get t1 pid" by (intro b(9) False) (auto simp: gone_def known_def)
    then show ?thesis using g by (simp add: gone_def)
  qed
  show ?thesis
    unfolding rebuilt_def
  proof (intro conjI allI impI ballI)
    show "same_shape sys sys2" by (rule same_shape_trans [OF a(3) b(3)])
    show "pt_next_pid t \<le> pt_next_pid t2" using a(5) b(5) by simp
    show "pt_room t \<le> n1 + n2 + pt_room t2" using a(6) b(6) by simp
    fix pid assume pid: "known t pid" "pid \<notin> owned_in sys (S1 \<union> S2)"
    have "pid \<notin> owned_in sys S1" using pid(2) by (auto simp: owned_in_def)
    then show "pt_get t2 pid = pt_get t pid" using a(9) b(9) a(4) pid apart by metis
  qed (use a(4,8) b(1,2,4,8) crew still in auto)
qed

section \<open>The recursion\<close>

lemma keys_insert_known:
  assumes "bt_ok m" "bt_get m k \<noteq> None"
  shows "bt_keys (bt_insert k v m) = bt_keys m"
  using assms
proof (induction k v m rule: bt_insert.induct)
  case (2 k v k' v' m)
  have "bt_get m k = None" if "k < k'"
    using that 2(2) by (auto simp: bt_ok_Cons bt_get_def map_of_eq_None_iff)
  then show ?case using 2 by (auto simp: bt_keys_def bt_ok_Cons bt_get_Cons split: if_splits)
qed simp

lemma put_same_shape:
  assumes "bt_ok (sys_supervisors sys)" "bt_get (sys_supervisors sys) sid = Some sv"
    and "sv_id sv' = sv_id sv" "sv_parent_id sv' = sv_parent_id sv" "sv_child_order sv' = sv_child_order sv"
  shows "same_shape sys (put_supervisor sid sv' sys)"
  using assms keys_insert_known [of "sys_supervisors sys" sid sv'] by (simp add: same_shape_def) (simp add: put_supervisor_def)

lemma rebuild_supervisor_law:
  assumes t: "pt_ok Q contents capacity t" and ok: "system_ok t sys"
    and sv: "bt_get (sys_supervisors sys) sid = Some sv" and room: "length (sv_child_order sv) \<le> pt_room t"
  obtains sys' t' where "rebuild_supervisor Q reason sid (sys, t) = (Ok (), (sys', t'))"
    "rebuilt Q contents capacity {sid} (length (sv_child_order sv)) sys t sys' t'"
proof -
  note ch = system_okD(4) [OF ok sv]
  obtain sv' t' where r: "rebuild_children Q reason (sv_child_order sv) (sv, t)
        = (Ok (group_events (\<lambda>_. True) sv sv' (sv_child_order sv)), (sv', t'))"
      "crew_renewed Q contents capacity reason (\<lambda>_. True) rebuilt_child (set (sv_child_order sv)) sv t sv' t'"
    by (rule rebuild_children_law [OF t ch room])
  define sv2 where "sv2 = (if sv_child_order sv' = [] then sv' else record_supervision_restart ''<supervisor>'' reason
      (RestartedGroup (group_events (\<lambda>_. True) sv sv' (sv_child_order sv))) sv')\<lparr> sv_state := SupervisorRunning \<rparr>"
  have same: "sv_id sv2 = sv_id sv'" "sv_parent_id sv2 = sv_parent_id sv'" "sv_children sv2 = sv_children sv'"
      "sv_child_order sv2 = sv_child_order sv'" "sv_state sv2 = SupervisorRunning"
    by (simp_all add: sv2_def)
  have C: "pt_ok Q contents capacity t'" "children_ok t' sv'" "sv' = sv\<lparr> sv_children := sv_children sv' \<rparr>"
      "pids_of sv' \<subseteq> pids_of sv \<union> {pid. pt_next_pid t < pid}" "\<And>pid. known t pid \<Longrightarrow> known t' pid"
      "pt_next_pid t \<le> pt_next_pid t'" "pt_room t \<le> card (set (sv_child_order sv)) + pt_room t'"
    and C_out: "\<And>cid. cid \<notin> set (sv_child_order sv) \<Longrightarrow>
        bt_get (sv_children sv') cid = bt_get (sv_children sv) cid"
    and C_in: "\<And>cid child. cid \<in> set (sv_child_order sv) \<Longrightarrow> bt_get (sv_children sv) cid = Some child \<Longrightarrow>
        \<exists>child'. bt_get (sv_children sv') cid = Some child' \<and> renewed reason True rebuilt_child child t child' t'"
    and C_pid: "\<And>pid. pid \<le> pt_next_pid t \<Longrightarrow> (\<forall>cid\<in>set (sv_child_order sv). \<forall>child.
        bt_get (sv_children sv) cid = Some child \<longrightarrow> sc_pid child \<noteq> pid) \<Longrightarrow> pt_get t' pid = pt_get t pid"
    using r(2) unfolding crew_renewed_def by blast+
  have order: "sv_child_order sv' = sv_child_order sv" "sv_parent_id sv' = sv_parent_id sv" "sv_id sv' = sv_id sv"
    using C(3) by (metis VmSupervisor.ext_inject VmSupervisor.surjective VmSupervisor.update_convs(7))+
  have all: "cid \<in> set (sv_child_order sv)" if "bt_get (sv_children sv) cid = Some child" for cid child
    using that children_okD(3) [OF ch, of cid] by (simp add: bt_contains_def)
  have run: "rebuild_supervisor Q reason sid (sys, t) = (Ok (), (put_supervisor sid sv2 sys, t'))"
    by (simp add: rebuild_supervisor_def sv r(1) sv2_def Let_def)
  have frame: "crew_frame Q contents capacity (card (set (sv_child_order sv))) sv t sv2 t'"
    by (rule crew_frame_update [OF crew_frame_renewed [OF r(2)]]) (simp_all add: same)
  have "fresh_crew (pt_next_pid t) sv2 t'"
    unfolding fresh_crew_def same(3)
  proof (intro allI impI)
    fix cid child'
    assume child': "bt_get (sv_children sv') cid = Some child'"
    obtain child where child: "bt_get (sv_children sv) cid = Some child"
      using child' C_out [of cid] children_okD(3) [OF ch, of cid]
      by (cases "bt_get (sv_children sv) cid") (auto simp: bt_contains_def)
    then have "renewed reason True rebuilt_child child t child' t'" using C_in [OF all [OF child] child] child' by simp
    then show "sc_restart_count child' = 0 \<and> sc_last_restart_delay_ms child' = 0 \<and> sc_last_shutdown_timeout_ms child' = None
      \<and> pt_next_pid t < sc_pid child' \<and> pt_get t' (sc_pid child') = Some (new_process (sc_pid child') None (spec_source (sc_spec child')))"
      unfolding renewed_def by (cases child') (auto simp: rebuilt_child_def)
  qed
  moreover have "pt_get t' pid = pt_get t pid" if "known t pid" "pid \<notin> owned_in sys {sid}" for pid
    using that sv by (intro C_pid known_le [OF t]) (auto simp: owned_in_def pids_of_def)
  moreover have "gone t' pid" if own: "pid \<in> owned_in sys {sid}" for pid
  proof -
    obtain cid child where c: "bt_get (sv_children sv) cid = Some child" "pid = sc_pid child"
      using own sv by (auto simp: owned_in_def pids_of_def)
    then show ?thesis using C_in [OF all [OF c(1)] c(1)] by (auto simp: renewed_def gone_def)
  qed
  moreover have "pt_room t \<le> length (sv_child_order sv) + pt_room t'"
    using C(7) card_length [of "sv_child_order sv"] by simp
  ultimately have "rebuilt Q contents capacity {sid} (length (sv_child_order sv)) sys t (put_supervisor sid sv2 sys) t'"
    unfolding rebuilt_def
    using C(1,5,6) system_put [OF t ok sv frame] same order
      put_same_shape [OF system_okD(1) [OF ok] sv, of sv2] by auto
  with run that show ?thesis by blast
qed

lemma sum_list_split: "sum_list (map f (x # xs)) = f x + sum_list (map f xs)" for f :: "'a \<Rightarrow> nat"
  by simp

lemma subtrees_from_one:
  assumes one: "\<And>sid sys t. pt_ok Q contents capacity t \<Longrightarrow> system_ok t sys
      \<Longrightarrow> bt_contains (sys_supervisors sys) sid \<Longrightarrow> height sys sid < fuel
      \<Longrightarrow> rebuild_cost fuel sys sid \<le> pt_room t \<Longrightarrow>
      \<exists>sys' t'. restart_supervisor_subtree fuel Q reason sid (sys, t) = (Ok (), (sys', t'))
        \<and> rebuilt Q contents capacity (subtree sys sid) (rebuild_cost fuel sys sid) sys t sys' t'"
    and "pt_ok Q contents capacity t" "system_ok t sys"
    and "\<forall>sid\<in>set sids. bt_contains (sys_supervisors sys) sid \<and> height sys sid < fuel"
    and "sum_list (map (rebuild_cost fuel sys) sids) \<le> pt_room t"
  shows "\<exists>sys' t'. restart_subtrees fuel Q reason sids (sys, t) = (Ok (), (sys', t'))
    \<and> rebuilt Q contents capacity (\<Union>sid\<in>set sids. subtree sys sid) (sum_list (map (rebuild_cost fuel sys) sids)) sys t sys' t'"
  using assms(2-5)
proof (induction sids arbitrary: sys t)
  case Nil
  then show ?case using rebuilt_none by auto
next
  case (Cons sid sids)
  obtain sys1 t1 where r1: "restart_supervisor_subtree fuel Q reason sid (sys, t) = (Ok (), (sys1, t1))"
      "rebuilt Q contents capacity (subtree sys sid) (rebuild_cost fuel sys sid) sys t sys1 t1"
    using one [OF Cons.prems(1,2), of sid] Cons.prems(3,4) by auto
  note f = rebuiltD [OF r1(2)]
  have shape: "height sys1 x = height sys x" "subtree sys1 x = subtree sys x"
      "rebuild_cost fuel sys1 = rebuild_cost fuel sys" for x
    using same_shape_height [OF f(3)] same_shape_subtree [OF f(3)] same_shape_cost [OF Cons.prems(2) f(2,3)] by blast+
  have "bt_contains (sys_supervisors sys1) x = bt_contains (sys_supervisors sys) x" for x
    using f(3) by (simp add: same_shape_def bt_keys_iff [symmetric])
  then obtain sys2 t2 where r2: "restart_subtrees fuel Q reason sids (sys1, t1) = (Ok (), (sys2, t2))"
      "rebuilt Q contents capacity (\<Union>x\<in>set sids. subtree sys x) (sum_list (map (rebuild_cost fuel sys) sids)) sys1 t1 sys2 t2"
    using Cons.IH [OF f(1,2)] Cons.prems(3,4) f(6) by (auto simp: shape)
  then show ?case using r1 rebuilt_trans [OF Cons.prems(1,2) r1(2) r2(2)] by auto
qed

lemma subtree_law:
  assumes "pt_ok Q contents capacity t" "system_ok t sys" "bt_contains (sys_supervisors sys) sid"
    and "height sys sid < fuel" "rebuild_cost fuel sys sid \<le> pt_room t"
  shows "\<exists>sys' t'. restart_supervisor_subtree fuel Q reason sid (sys, t) = (Ok (), (sys', t'))
    \<and> rebuilt Q contents capacity (subtree sys sid) (rebuild_cost fuel sys sid) sys t sys' t'"
  using assms
proof (induction fuel arbitrary: sid sys t)
  case 0
  then show ?case by simp
next
  case (Suc fuel)
  let ?ds = "supervisor_children sys sid"
  obtain sv where sv: "bt_get (sys_supervisors sys) sid = Some sv" using Suc.prems(3) by (auto simp: bt_contains_def)
  have cost: "rebuild_cost (Suc fuel) sys sid = length (sv_child_order sv) + sum_list (map (rebuild_cost fuel sys) ?ds)"
    using sv by simp
  have "length (sv_child_order sv) \<le> pt_room t" using Suc.prems(5) cost by linarith
  then obtain sys1 t1 where r1: "rebuild_supervisor Q reason sid (sys, t) = (Ok (), (sys1, t1))"
      "rebuilt Q contents capacity {sid} (length (sv_child_order sv)) sys t sys1 t1"
    by (rule rebuild_supervisor_law [OF Suc.prems(1,2) sv])
  note f = rebuiltD [OF r1(2)]
  have shape: "height sys1 x = height sys x" "subtree sys1 x = subtree sys x"
      "rebuild_cost fuel sys1 = rebuild_cost fuel sys"
      "bt_contains (sys_supervisors sys1) x = bt_contains (sys_supervisors sys) x" for x
    using same_shape_height [OF f(3)] same_shape_subtree [OF f(3)] same_shape_cost [OF Suc.prems(2) f(2,3)] f(3)
    by (simp_all add: same_shape_def bt_keys_iff [symmetric])
  have ds: "\<forall>d\<in>set ?ds. bt_contains (sys_supervisors sys1) d \<and> height sys1 d < fuel"
  proof
    fix d
    assume "d \<in> set ?ds"
    then have d: "parent_of sys sid d" by (simp add: supervisor_children_set [OF Suc.prems(2)])
    then have "bt_contains (sys_supervisors sys) d" by (auto simp: parent_of_def bt_contains_def)
    then show "bt_contains (sys_supervisors sys1) d \<and> height sys1 d < fuel"
      using height_child [OF Suc.prems(2) d] Suc.prems(4) by (simp add: shape)
  qed
  have "sum_list (map (rebuild_cost fuel sys1) ?ds) \<le> pt_room t1"
    using Suc.prems(5) cost f(6) by (simp add: shape)
  then obtain sys2 t2 where r2: "restart_subtrees fuel Q reason ?ds (sys1, t1) = (Ok (), (sys2, t2))"
      "rebuilt Q contents capacity (\<Union>x\<in>set ?ds. subtree sys1 x) (sum_list (map (rebuild_cost fuel sys1) ?ds)) sys1 t1 sys2 t2"
    using subtrees_from_one [OF Suc.IH f(1,2) ds] by blast
  have "rebuilt Q contents capacity ({sid} \<union> (\<Union>x\<in>set ?ds. subtree sys x))
      (length (sv_child_order sv) + sum_list (map (rebuild_cost fuel sys) ?ds)) sys t sys2 t2"
    using rebuilt_trans [OF Suc.prems(1,2) r1(2) r2(2)] by (simp add: shape)
  then show ?case
    using r1(1) r2(1) by (simp add: subtree_unfold [OF Suc.prems(2), of sid] sv Let_def)
qed

lemma subtrees_law:
  assumes "pt_ok Q contents capacity t" "system_ok t sys"
    and "\<forall>sid\<in>set sids. bt_contains (sys_supervisors sys) sid \<and> height sys sid < fuel"
    and "sum_list (map (rebuild_cost fuel sys) sids) \<le> pt_room t"
  obtains sys' t' where "restart_subtrees fuel Q reason sids (sys, t) = (Ok (), (sys', t'))"
    "rebuilt Q contents capacity (\<Union>sid\<in>set sids. subtree sys sid) (sum_list (map (rebuild_cost fuel sys) sids)) sys t sys' t'"
  using subtrees_from_one [OF subtree_law assms] by blast

end
