(* ===== verification/Supervision_Properties.thy ===== *)
theory Supervision_Properties
  imports Subtree_Laws Process_Properties
begin

text \<open>
  The properties of supervision: what a restart does on every branch, groups, subtrees,
  and the consistency of supervisor trees under every sequence of operations.
\<close>

section \<open>The delay\<close>

lemma delay_rounds_min:
  "min (unat (delay_rounds k schedule d)) (unat (max_delay_ms schedule))
     = min (unat d * 2 ^ k) (unat (max_delay_ms schedule))"
proof (induction k arbitrary: d)
  case 0
  show ?case by simp
next
  case (Suc k)
  let ?m = "unat (max_delay_ms schedule)"
  have cap: "?m \<le> 2 ^ 64 - 1" using unsigned_less [of "max_delay_ms schedule", where 'a = nat] by simp
  have "unat (min (saturating_mul d 2) (max_delay_ms schedule)) = min (unat d * 2) ?m"
    using cap by (auto simp: min_def word_le_nat_alt unat_saturating_mul)
  then have "min (unat (delay_rounds (Suc k) schedule d)) ?m = min (min (unat d * 2) ?m * 2 ^ k) ?m"
    by (simp add: Suc)
  also have "\<dots> = min (unat d * 2 ^ Suc k) ?m"
  proof (cases "unat d * 2 \<le> ?m")
    case True
    then show ?thesis by (simp add: ac_simps)
  next
    case False
    have grow: "?m \<le> ?m * 2 ^ k" by simp
    also have "\<dots> \<le> (unat d * 2) * 2 ^ k" using False by (intro mult_le_mono1) linarith
    finally have "?m \<le> unat d * 2 ^ Suc k" by (simp add: ac_simps)
    moreover have "min (unat d * 2) ?m = ?m" using False by simp
    ultimately show ?thesis using grow by simp
  qed
  finally show ?case .
qed

lemma delay_closed_form:
  "unat (delay_for_restart_count schedule n) =
     (if n = 0 then 0 else min (unat (initial_delay_ms schedule) * 2 ^ (unat n - 1)) (unat (max_delay_ms schedule)))"
proof (cases "n = 0 \<or> initial_delay_ms schedule = 0 \<or> max_delay_ms schedule = 0")
  case True
  then show ?thesis by (auto simp: delay_for_restart_count_def)
next
  case False
  have "unat (min a b) = min (unat a) (unat b)" for a b :: u64
    by (simp add: min_def word_le_nat_alt)
  then show ?thesis using False by (simp add: delay_for_restart_count_def delay_rounds_min)
qed

text \<open>The delay before a restart, as the schedule of the child promises it.\<close>

definition promised_delay :: "VmSupervisorChild \<Rightarrow> nat" where
  "promised_delay child = (case spec_restart_backoff (sc_spec child) of None \<Rightarrow> 0
     | Some schedule \<Rightarrow> min (unat (initial_delay_ms schedule) * 2 ^ unat (sc_restart_count child))
         (unat (max_delay_ms schedule)))"

lemma restart_delay_promised:
  assumes "\<not> spent child"
  shows "unat (restart_delay_ms (sc_spec child) (sc_restart_count child + 1)) = promised_delay child"
proof -
  have "1 + sc_restart_count child \<noteq> 0"
  proof
    assume "1 + sc_restart_count child = 0"
    then have "sc_restart_count child = - 1" by (simp add: add_eq_0_iff)
    then show False using assms by (simp add: spent_def)
  qed
  then have "sc_restart_count child + 1 \<noteq> 0" "unat (sc_restart_count child + 1) = Suc (unat (sc_restart_count child))"
    using unatSuc [of "sc_restart_count child"] by (simp_all add: add.commute)
  then show ?thesis
    by (simp add: restart_delay_ms_def promised_delay_def delay_closed_form split: option.split)
qed

section \<open>Restarting one child\<close>

lemma renewedD:
  assumes "renewed reason fresh nx child t child' t'"
  shows "pt_get t' (sc_pid child) = Some (exited_as reason (the (pt_get t (sc_pid child))))"
    "fresh \<Longrightarrow> child' = nx child (sc_pid child')" "fresh \<Longrightarrow> pt_next_pid t < sc_pid child'"
    "fresh \<Longrightarrow> pt_get t' (sc_pid child') = Some (new_process (sc_pid child') None (spec_source (sc_spec child)))"
    "\<not> fresh \<Longrightarrow> child' = kept_child child"
  using assms by (simp_all add: renewed_def)

lemma crew_renewedD:
  assumes "crew_renewed Q contents capacity reason fresh nx cids sv t sv' t'"
  shows "cid \<notin> cids \<Longrightarrow> bt_get (sv_children sv') cid = bt_get (sv_children sv) cid"
    "cid \<in> cids \<Longrightarrow> bt_get (sv_children sv) cid = Some child \<Longrightarrow>
       \<exists>child'. bt_get (sv_children sv') cid = Some child' \<and> renewed reason (fresh child) nx child t child' t'"
    "pid \<le> pt_next_pid t \<Longrightarrow> (\<forall>cid\<in>cids. \<forall>child. bt_get (sv_children sv) cid = Some child \<longrightarrow> sc_pid child \<noteq> pid)
       \<Longrightarrow> pt_get t' pid = pt_get t pid"
    "sv_state sv' = sv_state sv"
proof -
  have "sv' = sv\<lparr> sv_children := sv_children sv' \<rparr>" using assms by (simp add: crew_renewed_def)
  then show "sv_state sv' = sv_state sv"
    by (metis VmSupervisor.ext_inject VmSupervisor.surjective VmSupervisor.update_convs(7))
qed (use assms in \<open>unfold crew_renewed_def, blast+\<close>)

text \<open>The parent of a supervisor, if it has one, is told of its failure.\<close>

definition parent_told :: "VmSupervisionSystem \<Rightarrow> VmSupervisorId \<Rightarrow> VmSupervisor \<Rightarrow> VmExitReason \<Rightarrow> bool" where
  "parent_told sys sid sv reason \<longleftrightarrow> (\<forall>p. sv_parent_id sv = Some p \<longrightarrow>
     (\<exists>parent. bt_get (sys_supervisors sys) p = Some parent \<and> sv_state parent = ChildSupervisorFailed sid reason))"

lemma settled_get:
  assumes ok: "system_ok t sys" and sv: "bt_get (sys_supervisors sys) sid = Some sv"
    and parent: "sv_parent_id sv' = sv_parent_id sv"
  shows "bt_get (sys_supervisors (escalated sid reason restart sv' (put_supervisor sid (settled cid reason restart sv') sys))) sid
      = Some (settled cid reason restart sv')"
    and "restart = LimitReached pid n \<Longrightarrow>
      parent_told (escalated sid reason restart sv' (put_supervisor sid (settled cid reason restart sv') sys)) sid sv reason"
    and "(\<forall>pid n. restart \<noteq> LimitReached pid n) \<Longrightarrow> x \<noteq> sid \<Longrightarrow>
      bt_get (sys_supervisors (escalated sid reason restart sv' (put_supervisor sid (settled cid reason restart sv') sys))) x
        = bt_get (sys_supervisors sys) x"
proof -
  have "sv_parent_id sv \<noteq> Some sid" using system_okD(5) [OF ok sv] by auto
  then show "bt_get (sys_supervisors (escalated sid reason restart sv' (put_supervisor sid (settled cid reason restart sv') sys))) sid
      = Some (settled cid reason restart sv')"
    by (simp add: escalated_def fail_parent_get parent split: VmSupervisionRestart.split)
  show "parent_told (escalated sid reason restart sv' (put_supervisor sid (settled cid reason restart sv') sys)) sid sv reason"
    if "restart = LimitReached pid n"
    unfolding parent_told_def
  proof (intro allI impI)
    fix p
    assume p: "sv_parent_id sv = Some p"
    then obtain parent where "bt_get (sys_supervisors sys) p = Some parent" "p \<noteq> sid"
      using system_okD(5,6) [OF ok sv] by (fastforce simp: bt_contains_def)
    then show "\<exists>parent. bt_get (sys_supervisors (escalated sid reason restart sv'
        (put_supervisor sid (settled cid reason restart sv') sys))) p = Some parent
      \<and> sv_state parent = ChildSupervisorFailed sid reason"
      using that p by (simp add: escalated_def fail_parent_get parent)
  qed
  show "bt_get (sys_supervisors (escalated sid reason restart sv' (put_supervisor sid (settled cid reason restart sv') sys))) x
        = bt_get (sys_supervisors sys) x" if "\<forall>pid n. restart \<noteq> LimitReached pid n" "x \<noteq> sid"
    using that by (auto simp: escalated_def split: VmSupervisionRestart.split)
qed

text \<open>C22: a one-for-one restart, on every branch: the process of the child exits with the given
  reason unless it has exited already, and no other process changes. A child that is not due
  keeps its place without a live process; a child whose limit is spent fails its supervisor, and the
  parent of that supervisor is told; otherwise a process never used before runs the source of
  the child, its count grows by one, and the delay announced is min(maximum, initial * 2^count) of
  its back-off schedule.\<close>

theorem one_for_one_restart:
  assumes t: "pt_ok Q contents capacity t" and ok: "system_ok t sys"
    and sv: "bt_get (sys_supervisors sys) sid = Some sv" and policy: "sv_policy sv = OneForOne"
    and child: "bt_get (sv_children sv) cid = Some child" and room: "length (sv_child_order sv) \<le> pt_room t"
  shows "\<exists>restart sys' t' sv' child'. restart_child Q sid cid reason (sys, t) = (Ok restart, (sys', t'))
    \<and> bt_get (sys_supervisors sys') sid = Some sv' \<and> bt_get (sv_children sv') cid = Some child'
    \<and> pt_get t' (sc_pid child) = Some (exited_as reason (the (pt_get t (sc_pid child))))
    \<and> (\<forall>pid. pt_get t pid \<noteq> None \<longrightarrow> pid \<noteq> sc_pid child \<longrightarrow> pt_get t' pid = pt_get t pid)
    \<and> (\<forall>c. c \<noteq> cid \<longrightarrow> bt_get (sv_children sv') c = bt_get (sv_children sv) c)
    \<and> (if \<not> should_restart (spec_restart_class (sc_spec child)) reason then
         restart = NotRestarted (sc_pid child) (spec_restart_class (sc_spec child)) reason
       \<and> sc_pid child' = sc_pid child \<and> sc_restart_count child' = sc_restart_count child
       else if spec_restart_limit (sc_spec child) \<le> sc_restart_count child then
         restart = LimitReached (sc_pid child) (sc_restart_count child)
       \<and> sv_state sv' = SupervisorFailed cid (sc_pid child) reason \<and> parent_told sys' sid sv reason
       else \<exists>new delay. restart = Restarted (sc_pid child) new (sc_restart_count child + 1) delay
           (shutdown_timeout_ms (sc_spec child))
         \<and> pt_get t new = None \<and> pt_get t' new = Some (new_process new None (spec_source (sc_spec child)))
         \<and> sc_pid child' = new \<and> sc_restart_count child' = sc_restart_count child + 1
         \<and> unat delay = promised_delay child \<and> sv_state sv' = sv_state sv)"
proof -
  have contains: "bt_contains (sv_children sv) cid" using child by (simp add: bt_contains_def)
  obtain restart sv1 t' where r: "restart_child Q sid cid reason (sys, t) = (Ok restart,
        (escalated sid reason restart sv1 (put_supervisor sid (settled cid reason restart sv1) sys), t'))"
      "policy_effect Q contents capacity cid reason sv t restart sv1 t'" "sv_parent_id sv1 = sv_parent_id sv"
    using restart_child_law [OF t ok sv contains room] by metis
  let ?fresh = "\<lambda>child. due reason child \<and> \<not> spent child"
  let ?sys = "escalated sid reason restart sv1 (put_supervisor sid (settled cid reason restart sv1) sys)"
  have C: "crew_renewed Q contents capacity reason ?fresh restarted_child {cid} sv t sv1 t'"
      "restart = one_outcome reason child (the (bt_get (sv_children sv1) cid))"
    using r(2) policy child by (simp_all add: policy_effect_def)
  note D = crew_renewedD [OF C(1)]
  obtain child' where child': "bt_get (sv_children sv1) cid = Some child'"
      "renewed reason (?fresh child) restarted_child child t child' t'"
    using D(2) [OF _ child] by auto
  note N = renewedD [OF child'(2)] and G = settled_get [OF ok sv r(3)]
  have outcome: "restart = one_outcome reason child child'" using C(2) child'(1) by simp
  have same: "pt_get t' pid = pt_get t pid" if "pt_get t pid \<noteq> None" "pid \<noteq> sc_pid child" for pid
    using that child by (intro D(3) known_le [OF t]) (auto simp: known_def)
  have branch: "if \<not> should_restart (spec_restart_class (sc_spec child)) reason then
         restart = NotRestarted (sc_pid child) (spec_restart_class (sc_spec child)) reason
       \<and> sc_pid child' = sc_pid child \<and> sc_restart_count child' = sc_restart_count child
       else if spec_restart_limit (sc_spec child) \<le> sc_restart_count child then
         restart = LimitReached (sc_pid child) (sc_restart_count child)
       \<and> sv_state (settled cid reason restart sv1) = SupervisorFailed cid (sc_pid child) reason
       \<and> parent_told ?sys sid sv reason
       else \<exists>new delay. restart = Restarted (sc_pid child) new (sc_restart_count child + 1) delay
           (shutdown_timeout_ms (sc_spec child))
         \<and> pt_get t new = None \<and> pt_get t' new = Some (new_process new None (spec_source (sc_spec child)))
         \<and> sc_pid child' = new \<and> sc_restart_count child' = sc_restart_count child + 1
         \<and> unat delay = promised_delay child \<and> sv_state (settled cid reason restart sv1) = sv_state sv"
  proof (cases "due reason child")
    case False
    then show ?thesis using N(5) outcome by (simp add: one_outcome_def due_def)
  next
    case isdue: True
    show ?thesis
    proof (cases "spent child")
      case True
      then have "restart = LimitReached (sc_pid child) (sc_restart_count child)"
        using isdue outcome by (simp add: one_outcome_def)
      then show ?thesis using isdue True G(2) by (simp add: due_def spent_def settled_def)
    next
      case False
      have c: "child' = restarted_child child (sc_pid child')" using N(2) isdue False by simp
      have "pt_get t (sc_pid child') = None"
        using N(3) isdue False known_le [OF t, of "sc_pid child'"]
        by (cases "pt_get t (sc_pid child')") (auto simp: known_def not_le [symmetric])
      moreover have "sc_last_restart_delay_ms child' = restart_delay_ms (sc_spec child) (sc_restart_count child + 1)"
          "sc_last_shutdown_timeout_ms child' = shutdown_timeout_ms (sc_spec child)"
          "sc_restart_count child' = sc_restart_count child + 1"
        by (subst c, simp add: restarted_child_def kept_child_def)+
      ultimately show ?thesis
        using isdue False N(4) outcome restart_delay_promised [OF False] D(4)
        by (auto simp: one_outcome_def due_def spent_def settled_def)
    qed
  qed
  show ?thesis
    by (rule exI [of _ restart], rule exI [of _ ?sys], rule exI [of _ t'],
        rule exI [of _ "settled cid reason restart sv1"], rule exI [of _ child'])
      (use r(1) G(1) child'(1) N(1) same D(1) branch in auto)
qed

section \<open>Restarting a group\<close>

text \<open>C8: a group restart is all or nothing: one-for-all takes every child, rest-for-one the failed
  child and those started after it. If one of them is due but has spent its limit, nothing but the
  supervisors' state changes: it fails, naming the first such child, and its parent is told. Otherwise
  the process of every selected child exits, each due one gets a fresh process and a count one
  higher, in the order of their start, and no other child or process changes.\<close>

theorem group_restart:
  assumes t: "pt_ok Q contents capacity t" and ok: "system_ok t sys"
    and sv: "bt_get (sys_supervisors sys) sid = Some sv" and policy: "sv_policy sv \<noteq> OneForOne"
    and cid: "bt_contains (sv_children sv) cid" and room: "length (sv_child_order sv) \<le> pt_room t"
  defines "cids \<equiv> (if sv_policy sv = OneForAll then sv_child_order sv else dropWhile (\<lambda>c. c \<noteq> cid) (sv_child_order sv))"
  shows "\<exists>restart sys' t' sv'. restart_child Q sid cid reason (sys, t) = (Ok restart, (sys', t'))
    \<and> bt_get (sys_supervisors sys') sid = Some sv'
    \<and> (case group_block reason sv cids of
         Some b \<Rightarrow> t' = t \<and> sv_children sv' = sv_children sv
           \<and> restart = LimitReached (sc_pid (the (bt_get (sv_children sv) b))) (sc_restart_count (the (bt_get (sv_children sv) b)))
           \<and> sv_state sv' = SupervisorFailed cid (sc_pid (the (bt_get (sv_children sv) b))) reason
           \<and> parent_told sys' sid sv reason
       | None \<Rightarrow> restart = RestartedGroup (group_events (due reason) sv sv' cids)
           \<and> (\<forall>c\<in>set cids. \<exists>child child'. bt_get (sv_children sv) c = Some child \<and> bt_get (sv_children sv') c = Some child'
                \<and> renewed reason (due reason child) restarted_child child t child' t')
           \<and> (\<forall>c. c \<notin> set cids \<longrightarrow> bt_get (sv_children sv') c = bt_get (sv_children sv) c)
           \<and> (\<forall>pid. pt_get t pid \<noteq> None \<longrightarrow> (\<forall>c\<in>set cids. sc_pid (the (bt_get (sv_children sv) c)) \<noteq> pid)
                \<longrightarrow> pt_get t' pid = pt_get t pid)
           \<and> sv_state sv' = sv_state sv)"
proof -
  have cids: "cids = group_of (sv_policy sv) (sv_child_order sv) cid"
    using policy by (cases "sv_policy sv") (simp_all add: cids_def group_of_def)
  note g = group_of_facts [OF system_okD(4) [OF ok sv] cid policy, folded cids]
  obtain restart sv1 t' where r: "restart_child Q sid cid reason (sys, t) = (Ok restart,
        (escalated sid reason restart sv1 (put_supervisor sid (settled cid reason restart sv1) sys), t'))"
      "policy_effect Q contents capacity cid reason sv t restart sv1 t'" "sv_parent_id sv1 = sv_parent_id sv"
    using restart_child_law [OF t ok sv cid room] by metis
  note G = settled_get [OF ok sv r(3)]
  show ?thesis
  proof (cases "group_block reason sv cids")
    case (Some b)
    then have same: "sv1 = sv" "t' = t" and limit: "restart = LimitReached (sc_pid (the (bt_get (sv_children sv) b)))
        (sc_restart_count (the (bt_get (sv_children sv) b)))"
      using r(2) policy by (simp_all add: policy_effect_def Let_def cids)
    have state: "sv_state (settled cid reason restart sv1)
        = SupervisorFailed cid (sc_pid (the (bt_get (sv_children sv) b))) reason"
      by (simp add: settled_def limit)
    show ?thesis
      unfolding Some option.case
      by (intro exI [of _ restart] exI [of _ t'] exI [of _ "settled cid reason restart sv1"] exI conjI,
          rule r(1), rule G(1)) (use same limit state G(2) [OF limit] in simp_all)
  next
    case None
    then have C: "crew_renewed Q contents capacity reason (due reason) restarted_child (set cids) sv t sv1 t'"
        "restart = RestartedGroup (group_events (due reason) sv sv1 cids)"
      using r(2) policy by (simp_all add: policy_effect_def Let_def cids)
    note D = crew_renewedD [OF C(1)]
    have each: "\<exists>child child'. bt_get (sv_children sv) c = Some child \<and> bt_get (sv_children sv1) c = Some child'
        \<and> renewed reason (due reason child) restarted_child child t child' t'" if "c \<in> set cids" for c
      using g(3) [OF that] D(2) [OF that] by (fastforce simp: bt_contains_def)
    have same: "pt_get t' pid = pt_get t pid"
      if "pt_get t pid \<noteq> None" "\<forall>c\<in>set cids. sc_pid (the (bt_get (sv_children sv) c)) \<noteq> pid" for pid
      using that by (intro D(3) known_le [OF t]) (auto simp: known_def)
    have events: "group_events (due reason) sv (settled cid reason restart sv1) cids
        = group_events (due reason) sv sv1 cids"
      by (simp add: group_events_def)
    have state: "sv_state (settled cid reason restart sv1) = sv_state sv" using C(2) D(4) by (simp add: settled_def)
    show ?thesis
      unfolding None option.case
      by (intro exI [of _ restart] exI [of _ t'] exI [of _ "settled cid reason restart sv1"] exI conjI,
          rule r(1), rule G(1)) (use C(2) events each D(1) same state in auto)
  qed
qed

section \<open>Rebuilding subtrees\<close>

text \<open>The child supervisors a strategy rebuilds when one of them has failed.\<close>

definition rebuilt_siblings :: "VmRestartPolicy \<Rightarrow> VmSupervisorId list \<Rightarrow> VmSupervisorId \<Rightarrow> VmSupervisorId list" where
  "rebuilt_siblings policy siblings failed = (case policy of
     OneForOne \<Rightarrow> [failed] | OneForAll \<Rightarrow> siblings | RestForOne \<Rightarrow> dropWhile (\<lambda>x. x \<noteq> failed) siblings)"

lemma select_failed_law:
  assumes ok: "system_ok t sys" and failed: "bt_get (sys_supervisors sys) fid = Some failed"
    and parent: "sv_parent_id failed = Some p" "bt_get (sys_supervisors sys) p = Some parent"
  shows "select_failed sys fid = Ok (p, rebuilt_siblings (sv_policy parent) (supervisor_children sys p) fid)"
proof -
  have "fid \<in> set (supervisor_children sys p)"
    using failed parent by (simp add: supervisor_children_set [OF ok] parent_of_def)
  from drop_position [OF this] obtain i where i: "position (\<lambda>c. c = fid) (supervisor_children sys p) = Some i"
      "drop i (supervisor_children sys p) = dropWhile (\<lambda>c. c \<noteq> fid) (supervisor_children sys p)"
    by (elim exE conjE)
  show ?thesis
    by (cases "sv_policy parent")
      (simp_all add: select_failed_def failed parent i ok_or_def Let_def rebuilt_siblings_def)
qed

lemma rebuilt_siblings_attached:
  assumes ok: "system_ok t sys" and failed: "bt_get (sys_supervisors sys) fid = Some failed"
      "sv_parent_id failed = Some p"
    and x: "x \<in> set (rebuilt_siblings policy (supervisor_children sys p) fid)"
  shows "bt_contains (sys_supervisors sys) x" "p < x"
proof -
  have "x \<in> set (supervisor_children sys p)"
    using x failed supervisor_children_set [OF ok, of p]
    by (cases policy) (auto simp: rebuilt_siblings_def parent_of_def dest: set_dropWhileD)
  then have "parent_of sys p x" by (simp add: supervisor_children_set [OF ok])
  then show "bt_contains (sys_supervisors sys) x" "p < x"
    using parent_less [OF ok] by (auto simp: parent_of_def bt_contains_def)
qed

lemma restart_failed_law:
  assumes t: "pt_ok Q contents capacity t" and ok: "system_ok t sys"
    and failed: "bt_get (sys_supervisors sys) fid = Some failed"
    and parent: "sv_parent_id failed = Some p" "bt_get (sys_supervisors sys) p = Some parent"
  defines "selected \<equiv> rebuilt_siblings (sv_policy parent) (supervisor_children sys p) fid"
  defines "S \<equiv> (\<Union>x\<in>set selected. subtree sys x)"
  assumes room: "sum_list (map (rebuild_cost (length (sys_supervisors sys) + 1) sys) selected) \<le> pt_room t"
  obtains sys1 t' where "restart_failed_supervisor Q fid reason (sys, t) = (Ok selected,
      (put_supervisor p (parent\<lparr> sv_state := SupervisorRunning \<rparr>) sys1, t'))"
    "rebuilt Q contents capacity S (sum_list (map (rebuild_cost (length (sys_supervisors sys) + 1) sys) selected)) sys t sys1 t'"
    "bt_get (sys_supervisors sys1) p = Some parent" "p \<notin> S"
    "system_ok t' (put_supervisor p (parent\<lparr> sv_state := SupervisorRunning \<rparr>) sys1)"
proof -
  let ?fuel = "length (sys_supervisors sys) + 1"
  have above: "bt_contains (sys_supervisors sys) x" "p < x" if "x \<in> set selected" for x
    using rebuilt_siblings_attached [OF ok failed parent(1)] that by (simp_all add: selected_def)
  have fuel: "\<forall>x\<in>set selected. bt_contains (sys_supervisors sys) x \<and> height sys x < ?fuel"
    using above(1) height_bound [of sys] by (simp add: less_Suc_eq_le)
  obtain sys1 t' where r: "restart_subtrees ?fuel Q reason selected (sys, t) = (Ok (), (sys1, t'))"
      "rebuilt Q contents capacity S (sum_list (map (rebuild_cost ?fuel sys) selected)) sys t sys1 t'"
    unfolding S_def by (rule subtrees_law [OF t ok fuel room])
  note f = rebuiltD [OF r(2)]
  have p: "p \<notin> S"
    using above(2) subtree_ge [OF ok] unfolding S_def by (fastforce simp: not_le [symmetric])
  then have get: "bt_get (sys_supervisors sys1) p = Some parent" using f(8) parent(2) by simp
  have "select_failed sys fid = Ok (p, selected)"
    using select_failed_law [OF ok failed parent] by (simp add: selected_def)
  then have run: "restart_failed_supervisor Q fid reason (sys, t) = (Ok selected,
      (put_supervisor p (parent\<lparr> sv_state := SupervisorRunning \<rparr>) sys1, t'))"
    using r(1) get by (simp add: restart_failed_supervisor_def read_st_def bind_st_def)
  have "crew_frame Q contents capacity 0 parent t' (parent\<lparr> sv_state := SupervisorRunning \<rparr>) t'"
    by (rule crew_frame_update [OF crew_frame_refl [OF f(1) system_okD(4) [OF f(2) get]]]) simp_all
  then have "system_ok t' (put_supervisor p (parent\<lparr> sv_state := SupervisorRunning \<rparr>) sys1)"
    by (rule system_put [OF f(1,2) get])
  with run r(2) get p that show ?thesis by blast
qed

text \<open>C23: the recovery of a failed child supervisor ends, with the recursion bounded by the number of
  supervisors: its parent's strategy selects it, all its siblings, or those created from it on, and every
  supervisor under a selected one ends running, each of its children on a process never used before with
  its counters reset; the processes they had have exited. The parent runs again; every other
  supervisor and process is as before.\<close>

theorem failed_supervisor_recovers:
  assumes t: "pt_ok Q contents capacity t" and ok: "system_ok t sys"
    and failed: "bt_get (sys_supervisors sys) fid = Some failed"
    and parent: "sv_parent_id failed = Some p" "bt_get (sys_supervisors sys) p = Some parent"
    and room: "sum_list (map (rebuild_cost (length (sys_supervisors sys) + 1) sys)
      (rebuilt_siblings (sv_policy parent) (supervisor_children sys p) fid)) \<le> pt_room t"
  shows "let selected = rebuilt_siblings (sv_policy parent) (supervisor_children sys p) fid;
      S = (\<Union>x\<in>set selected. subtree sys x) in
    \<exists>sys' t'. restart_failed_supervisor Q fid reason (sys, t) = (Ok selected, (sys', t'))
    \<and> (\<forall>x\<in>S. \<exists>sv'. bt_get (sys_supervisors sys') x = Some sv' \<and> sv_state sv' = SupervisorRunning
         \<and> fresh_crew (pt_next_pid t) sv' t')
    \<and> (\<forall>pid\<in>owned_in sys S. gone t' pid)
    \<and> bt_get (sys_supervisors sys') p = Some (parent\<lparr> sv_state := SupervisorRunning \<rparr>)
    \<and> (\<forall>x. x \<notin> S \<longrightarrow> x \<noteq> p \<longrightarrow> bt_get (sys_supervisors sys') x = bt_get (sys_supervisors sys) x)
    \<and> (\<forall>pid. pt_get t pid \<noteq> None \<longrightarrow> pid \<notin> owned_in sys S \<longrightarrow> pt_get t' pid = pt_get t pid)"
proof -
  let ?selected = "rebuilt_siblings (sv_policy parent) (supervisor_children sys p) fid"
  obtain sys1 t' where r: "restart_failed_supervisor Q fid reason (sys, t) = (Ok ?selected,
        (put_supervisor p (parent\<lparr> sv_state := SupervisorRunning \<rparr>) sys1, t'))"
      "rebuilt Q contents capacity (\<Union>x\<in>set ?selected. subtree sys x)
        (sum_list (map (rebuild_cost (length (sys_supervisors sys) + 1) sys) ?selected)) sys t sys1 t'"
      "bt_get (sys_supervisors sys1) p = Some parent" "p \<notin> (\<Union>x\<in>set ?selected. subtree sys x)"
    by (rule restart_failed_law [OF t ok failed parent room])
  note f = rebuiltD [OF r(2)]
  show ?thesis
    unfolding Let_def
    by (intro exI conjI, rule r(1)) (use f(7-10) r(3,4) in \<open>auto simp: known_def\<close>)
qed

section \<open>Trees stay consistent\<close>

text \<open>The operations on a supervision system, and anything the processes do between them that does not
  reap a supervised process. Each operation is given room for the processes it may spawn.\<close>

inductive supervision_step :: "'q queue_of \<Rightarrow> ('q \<Rightarrow> VmMessage VmPublishedFragment list) \<Rightarrow> ('q \<Rightarrow> nat)
    \<Rightarrow> 'q supervised \<Rightarrow> 'q supervised \<Rightarrow> bool"
  for Q contents capacity where
  create: "supervision_step Q contents capacity (sys, t) (snd (create_supervisor_with_policy name policy sys), t)"
  if "sys_next_supervisor_id sys \<noteq> - 1"
| create_child: "supervision_step Q contents capacity (sys, t)
    (snd (create_child_supervisor_with_policy parent name policy sys), t)"
  if "sys_next_supervisor_id sys \<noteq> - 1"
| start: "supervision_step Q contents capacity (sys, t) (snd (start_child Q sid spec (sys, t)))"
  if "0 < pt_room t"
| restart: "supervision_step Q contents capacity (sys, t) (snd (restart_child Q sid cid reason (sys, t)))"
  if "\<And>sv. bt_get (sys_supervisors sys) sid = Some sv \<Longrightarrow> length (sv_child_order sv) \<le> pt_room t"
| after_backoff: "supervision_step Q contents capacity (sys, t)
    (snd (restart_child_after_backoff Q sid cid reason (sys, t)))"
  if "0 < pt_room t"
| recover: "supervision_step Q contents capacity (sys, t) (snd (restart_failed_supervisor Q fid reason (sys, t)))"
  if "\<And>p selected. select_failed sys fid = Ok (p, selected) \<Longrightarrow>
        sum_list (map (rebuild_cost (length (sys_supervisors sys) + 1) sys) selected) \<le> pt_room t"
| processes_run: "supervision_step Q contents capacity (sys, t) (sys, t')"
  if "pt_ok Q contents capacity t'"
    "\<And>sid sv pid. bt_get (sys_supervisors sys) sid = Some sv \<Longrightarrow> pid \<in> pids_of sv \<Longrightarrow> known t' pid"

lemma system_known:
  assumes ok: "system_ok t sys"
    and known: "\<And>sid sv pid. bt_get (sys_supervisors sys) sid = Some sv \<Longrightarrow> pid \<in> pids_of sv \<Longrightarrow> known t' pid"
  shows "system_ok t' sys"
proof -
  have "children_ok t' sv" if sv: "bt_get (sys_supervisors sys) sid = Some sv" for sid sv
  proof -
    have "known t' (sc_pid child)" if "bt_get (sv_children sv) cid = Some child" for cid child
      using known [OF sv] that by (auto simp: pids_of_def)
    then show ?thesis using system_okD(4) [OF ok sv] by (simp add: children_ok_def)
  qed
  then show ?thesis using ok unfolding system_ok_def by blast
qed

lemma put_same_ok:
  assumes "pt_ok Q contents capacity t" "system_ok t sys" "bt_get (sys_supervisors sys) sid = Some sv"
  shows "system_ok t (put_supervisor sid sv sys)"
  by (rule system_put [OF assms crew_frame_refl [OF assms(1) system_okD(4) [OF assms(2,3)]]])

definition consistent :: "'q queue_of \<Rightarrow> ('q \<Rightarrow> VmMessage VmPublishedFragment list) \<Rightarrow> ('q \<Rightarrow> nat)
    \<Rightarrow> 'q supervised \<Rightarrow> bool" where
  "consistent Q contents capacity w \<longleftrightarrow> pt_ok Q contents capacity (snd w) \<and> system_ok (snd w) (fst w)"

lemma restart_consistent:
  assumes t: "pt_ok Q contents capacity t" and ok: "system_ok t sys"
    and room: "\<And>sv. bt_get (sys_supervisors sys) sid = Some sv \<Longrightarrow> length (sv_child_order sv) \<le> pt_room t"
  shows "consistent Q contents capacity (snd (restart_child Q sid cid reason (sys, t)))"
proof (cases "bt_get (sys_supervisors sys) sid")
  case None
  then show ?thesis using t ok by (simp add: restart_child_def consistent_def)
next
  case (Some sv)
  show ?thesis
  proof (cases "bt_contains (sv_children sv) cid")
    case True
    show ?thesis
      by (rule restart_child_law [OF t ok Some True room [OF Some], of reason]) (simp add: consistent_def)
  next
    case False
    then show ?thesis
      using t put_same_ok [OF t ok Some] by (simp add: restart_child_def Some apply_policy_def consistent_def)
  qed
qed

lemma after_backoff_consistent:
  assumes t: "pt_ok Q contents capacity t" and ok: "system_ok t sys" and room: "0 < pt_room t"
  shows "consistent Q contents capacity (snd (restart_child_after_backoff Q sid cid reason (sys, t)))"
proof (cases "bt_get (sys_supervisors sys) sid")
  case None
  then show ?thesis using t ok by (simp add: restart_child_after_backoff_def consistent_def)
next
  case (Some sv)
  show ?thesis
  proof (cases "bt_get (sv_children sv) cid")
    case None
    then show ?thesis
      using t ok by (simp add: restart_child_after_backoff_def Some consistent_def bt_contains_def)
  next
    case child: (Some child)
    show ?thesis
      by (rule restart_after_backoff_law [OF t ok Some child room, of reason])
        (auto simp: consistent_def crew_renewed_def)
  qed
qed

lemma recover_consistent:
  assumes t: "pt_ok Q contents capacity t" and ok: "system_ok t sys"
    and room: "\<And>p selected. select_failed sys fid = Ok (p, selected) \<Longrightarrow>
        sum_list (map (rebuild_cost (length (sys_supervisors sys) + 1) sys) selected) \<le> pt_room t"
  shows "consistent Q contents capacity (snd (restart_failed_supervisor Q fid reason (sys, t)))"
proof (cases "\<exists>failed p. bt_get (sys_supervisors sys) fid = Some failed \<and> sv_parent_id failed = Some p")
  case True
  then obtain failed p where failed: "bt_get (sys_supervisors sys) fid = Some failed" "sv_parent_id failed = Some p"
    by blast
  obtain parent where parent: "bt_get (sys_supervisors sys) p = Some parent"
    using system_okD(6) [OF ok failed] by (auto simp: bt_contains_def)
  note law = restart_failed_law [OF t ok failed parent room [OF select_failed_law [OF ok failed parent]], of reason]
  show ?thesis by (rule law) (auto simp: consistent_def dest: rebuiltD(1))
next
  case False
  then have "\<exists>e. select_failed sys fid = Err e"
    by (cases "bt_get (sys_supervisors sys) fid"; cases "sv_parent_id (the (bt_get (sys_supervisors sys) fid))")
      (auto simp: select_failed_def ok_or_def)
  then show ?thesis
    using t ok by (auto simp: restart_failed_supervisor_def read_st_def bind_st_def consistent_def)
qed

lemma step_consistent:
  assumes "supervision_step Q contents capacity w w'" "consistent Q contents capacity w"
  shows "consistent Q contents capacity w'"
  using assms
proof (induction rule: supervision_step.induct)
  case (create sys t name policy)
  then have ok: "pt_ok Q contents capacity t" "system_ok t sys" by (simp_all add: consistent_def)
  show ?case
    by (rule insert_supervisor_law [OF ok(2) create(1), of None name policy])
      (simp_all add: create_supervisor_with_policy_def consistent_def ok(1))
next
  case (create_child sys t parent name policy)
  then have ok: "pt_ok Q contents capacity t" "system_ok t sys" by (simp_all add: consistent_def)
  show ?case
  proof (cases "bt_contains (sys_supervisors sys) parent")
    case True
    show ?thesis
      by (rule insert_supervisor_law [OF ok(2) create_child(1), of "Some parent" name policy])
        (simp_all add: create_child_supervisor_with_policy_def consistent_def ok(1) True)
  qed (use ok in \<open>simp add: create_child_supervisor_with_policy_def consistent_def\<close>)
next
  case (start t sys sid spec)
  then have ok: "pt_ok Q contents capacity t" "system_ok t sys" by (simp_all add: consistent_def)
  show ?case
  proof (cases "\<exists>sv. bt_get (sys_supervisors sys) sid = Some sv \<and> \<not> bt_contains (sv_children sv) (spec_id spec)")
    case True
    then obtain sv where sv: "bt_get (sys_supervisors sys) sid = Some sv" "\<not> bt_contains (sv_children sv) (spec_id spec)"
      by blast
    show ?thesis by (rule start_child_law [OF ok sv start(1)]) (simp add: consistent_def)
  qed (use ok in \<open>auto simp: start_child_def consistent_def split: option.split\<close>)
next
  case (restart sys sid t cid reason)
  then show ?case using restart_consistent by (fastforce simp: consistent_def)
next
  case (after_backoff t sys sid cid reason)
  then show ?case using after_backoff_consistent by (fastforce simp: consistent_def)
next
  case (recover sys fid t reason)
  then show ?case using recover_consistent by (fastforce simp: consistent_def)
next
  case (processes_run t' sys t)
  then show ?case using system_known [of t sys t'] by (auto simp: consistent_def)
qed

text \<open>C3: supervisor trees stay consistent under every sequence of operations, whatever the processes do in
  between: no child is ever restarted more often than its limit; every child has a process in
  the table, no two children of the system share one, and each child stands exactly once in
  the start order of its supervisor; every supervisor but the roots has a parent with a smaller identity.\<close>

theorem supervision_stays_consistent:
  assumes t: "pt_ok Q contents capacity t0"
    and steps: "(supervision_step Q contents capacity)\<^sup>*\<^sup>* (supervision_default, t0) (sys, t)"
  shows "pt_ok Q contents capacity t
    \<and> (\<forall>sid sv cid child. bt_get (sys_supervisors sys) sid = Some sv \<longrightarrow> bt_get (sv_children sv) cid = Some child \<longrightarrow>
         sc_restart_count child \<le> spec_restart_limit (sc_spec child) \<and> pt_get t (sc_pid child) \<noteq> None
       \<and> cid \<in> set (sv_child_order sv) \<and> distinct (sv_child_order sv)
       \<and> (\<forall>sid' sv' cid' child'. bt_get (sys_supervisors sys) sid' = Some sv' \<longrightarrow>
            bt_get (sv_children sv') cid' = Some child' \<longrightarrow> sc_pid child = sc_pid child' \<longrightarrow> sid = sid' \<and> cid = cid'))
    \<and> (\<forall>sid sv p. bt_get (sys_supervisors sys) sid = Some sv \<longrightarrow> sv_parent_id sv = Some p \<longrightarrow>
         p < sid \<and> bt_contains (sys_supervisors sys) p)"
proof -
  have "consistent Q contents capacity (supervision_default, t0)"
    using t by (simp add: consistent_def supervision_default_def system_ok_def)
  with steps have "consistent Q contents capacity (sys, t)"
    by (induction rule: rtranclp_induct) (auto intro: step_consistent)
  then have ok: "pt_ok Q contents capacity t" "system_ok t sys" by (simp_all add: consistent_def)
  have same: "sid = sid' \<and> cid = cid'"
    if "bt_get (sys_supervisors sys) sid = Some sv" "bt_get (sv_children sv) cid = Some child"
      "bt_get (sys_supervisors sys) sid' = Some sv'" "bt_get (sv_children sv') cid' = Some child'"
      "sc_pid child = sc_pid child'" for sid sv cid child sid' sv' cid' child'
  proof -
    have "sc_pid child \<in> pids_of sv" "sc_pid child' \<in> pids_of sv'"
      using that(2,4) by (auto simp: pids_of_def)
    then have eq: "sid = sid'" using system_okD(7) [OF ok(2) that(1,3)] that(5) by auto
    then show ?thesis using children_okD(7) [OF system_okD(4) [OF ok(2) that(1)] that(2), of cid' child'] that by simp
  qed
  have each: "sc_restart_count child \<le> spec_restart_limit (sc_spec child) \<and> pt_get t (sc_pid child) \<noteq> None
       \<and> cid \<in> set (sv_child_order sv) \<and> distinct (sv_child_order sv)"
    if "bt_get (sys_supervisors sys) sid = Some sv" "bt_get (sv_children sv) cid = Some child" for sid sv cid child
    using children_okD [OF system_okD(4) [OF ok(2) that(1)]] that(2) by (auto simp: known_def bt_contains_def)
  show ?thesis
    using ok(1) same each system_okD(5,6) [OF ok(2)] by blast
qed

section \<open>Witnesses\<close>

definition sample_spec :: VmChildSpec where
  "sample_spec = with_restart_backoff \<lparr> initial_delay_ms = 10, max_delay_ms = 100 \<rparr>
     (child_spec_new ''worker'' sample_source 3)"

definition sample_child :: VmSupervisorChild where
  "sample_child = \<lparr> sc_spec = sample_spec, sc_pid = 1, sc_restart_count = 2,
     sc_last_restart_delay_ms = 20, sc_last_shutdown_timeout_ms = None \<rparr>"

definition sample_supervisor :: "VmSupervisorId \<Rightarrow> VmSupervisorId option \<Rightarrow> VmRestartPolicy
    \<Rightarrow> (string, VmSupervisorChild) btree \<Rightarrow> VmSupervisor" where
  "sample_supervisor sid parent policy children = \<lparr> sv_id = sid, sv_parent_id = parent, sv_name = ''sup'',
     sv_policy = policy, sv_state = SupervisorRunning, sv_child_order = map fst children,
     sv_children = children, sv_restart_history = [] \<rparr>"

text \<open>A root supervisor 1 and under it supervisor 2 with one child, at process 1.\<close>

definition sample_system :: "VmRestartPolicy \<Rightarrow> VmSupervisionSystem" where
  "sample_system policy = \<lparr> sys_next_supervisor_id = 2, sys_supervisors =
     [(1, sample_supervisor 1 None policy []),
      (2, sample_supervisor 2 (Some 1) policy [(''worker'', sample_child)])] \<rparr>"

lemma sample_get:
  "bt_get (sys_supervisors (sample_system policy)) x = (if x = 1 then Some (sample_supervisor 1 None policy [])
     else if x = 2 then Some (sample_supervisor 2 (Some 1) policy [(''worker'', sample_child)]) else None)"
  by (simp add: sample_system_def bt_get_Cons)

lemma sample_children:
  "bt_get (sv_children (sample_supervisor 1 None policy [])) c = None"
  "bt_get (sv_children (sample_supervisor 2 (Some 1) policy [(''worker'', sample_child)])) c
     = (if c = ''worker'' then Some sample_child else None)"
  by (simp_all add: sample_supervisor_def bt_get_Cons)

lemma sample_system_ok: "system_ok sample_one (sample_system policy)"
proof -
  have "bt_ok (sys_supervisors (sample_system policy))"
    by (simp add: sample_system_def bt_ok_def)
  moreover have "children_ok sample_one (sample_supervisor 1 None policy [])"
    by (simp add: children_ok_def sample_supervisor_def bt_contains_def)
  moreover have "children_ok sample_one (sample_supervisor 2 (Some 1) policy [(''worker'', sample_child)])"
    by (simp add: children_ok_def sample_children, simp add: sample_supervisor_def bt_contains_def bt_get_Cons
        bt_ok_def sample_child_def sample_spec_def with_restart_backoff_def child_spec_new_def known_def sample_one_facts)
  moreover have "pids_of (sample_supervisor 1 None policy []) = {}"
    by (simp add: pids_of_def sample_children)
  ultimately show ?thesis
    by (auto simp: system_ok_def sample_get bt_contains_def)
      (simp_all add: sample_supervisor_def sample_system_def)
qed

lemma sample_one_room: "2 \<le> pt_room sample_one"
  by (simp add: pt_room_def pt_size_def dir_size_def sample_one_slots sample_one_facts(4))

lemma sample_two_get:
  "bt_get (sys_supervisors (sample_system policy)) 2
     = Some (sample_supervisor 2 (Some 1) policy [(''worker'', sample_child)])"
  by (simp add: sample_get)

lemma sample_order:
  "length (sv_child_order (sample_supervisor 2 (Some 1) policy [(''worker'', sample_child)])) \<le> pt_room sample_one"
  using sample_one_room by (simp add: sample_supervisor_def)

lemmas sample_defs = sample_child_def sample_spec_def with_restart_backoff_def child_spec_new_def

lemma one_for_one_restart_witness:
  "\<exists>w new delay. restart_child list_queue 2 ''worker'' Killed (sample_system OneForOne, sample_one)
     = (Ok (Restarted 1 new 3 delay None), w) \<and> unat delay = 40"
proof -
  have policy: "sv_policy (sample_supervisor 2 (Some 1) OneForOne [(''worker'', sample_child)]) = OneForOne"
    by (simp add: sample_supervisor_def)
  have child: "bt_get (sv_children (sample_supervisor 2 (Some 1) OneForOne [(''worker'', sample_child)])) ''worker''
      = Some sample_child"
    by (simp add: sample_children)
  show ?thesis
    using one_for_one_restart [OF sample_one_facts(1) sample_system_ok sample_two_get policy child sample_order, of Killed]
    by (force simp: sample_defs promised_delay_def shutdown_timeout_ms_def)
qed

lemma group_restart_witness:
  "\<exists>w events. restart_child list_queue 2 ''worker'' Killed (sample_system RestForOne, sample_one)
     = (Ok (RestartedGroup events), w)"
proof -
  let ?sv = "sample_supervisor 2 (Some 1) RestForOne [(''worker'', sample_child)]"
  have sv: "sv_policy ?sv \<noteq> OneForOne" "bt_contains (sv_children ?sv) ''worker''"
    by (simp_all add: sample_supervisor_def bt_contains_def bt_get_Cons)
  have "group_block Killed ?sv [''worker''] = None"
    by (simp add: group_block_def sample_children) (simp add: due_def spent_def sample_defs)
  moreover have "(if sv_policy ?sv = OneForAll then sv_child_order ?sv
      else dropWhile (\<lambda>c. c \<noteq> ''worker'') (sv_child_order ?sv)) = [''worker'']"
    by (simp add: sample_supervisor_def)
  ultimately show ?thesis
    using group_restart [OF sample_one_facts(1) sample_system_ok sample_two_get sv sample_order, of Killed]
    by auto
qed

lemma failed_supervisor_recovers_witness:
  "\<exists>w. restart_failed_supervisor list_queue 2 Killed (sample_system OneForOne, sample_one) = (Ok [2], w)"
proof -
  have parent: "sv_parent_id (sample_supervisor 2 (Some 1) OneForOne [(''worker'', sample_child)]) = Some 1"
      "bt_get (sys_supervisors (sample_system OneForOne)) 1 = Some (sample_supervisor 1 None OneForOne [])"
    by (simp add: sample_supervisor_def) (simp add: sample_get)
  have selected: "rebuilt_siblings (sv_policy (sample_supervisor 1 None OneForOne []))
      (supervisor_children (sample_system OneForOne) 1) 2 = [2]"
    by (simp add: rebuilt_siblings_def sample_supervisor_def)
  have "sum_list (map (rebuild_cost (length (sys_supervisors (sample_system OneForOne)) + 1) (sample_system OneForOne)) [2])
      \<le> pt_room sample_one"
    using sample_one_room
    by (simp add: sample_get, simp add: sample_system_def supervisor_children_def bt_values_def sample_supervisor_def numeral_eq_Suc)
  then show ?thesis
    using failed_supervisor_recovers [OF sample_one_facts(1) sample_system_ok sample_two_get parent, of Killed]
    unfolding selected Let_def by blast
qed

lemma supervision_stays_consistent_witness:
  "\<exists>w. (supervision_step list_queue fst snd)\<^sup>*\<^sup>* (supervision_default, sample_one) w
     \<and> bt_contains (sys_supervisors (fst w)) 1 \<and> pt_ok list_queue fst snd (snd w)"
proof -
  define sys where "sys = snd (create_supervisor_with_policy ''root'' OneForAll supervision_default)"
  have "supervision_step list_queue fst snd (supervision_default, sample_one) (sys, sample_one)"
    unfolding sys_def by (rule supervision_step.create) (simp add: supervision_default_def)
  then have run: "(supervision_step list_queue fst snd)\<^sup>*\<^sup>* (supervision_default, sample_one) (sys, sample_one)" by simp
  have "bt_contains (sys_supervisors sys) 1"
    by (simp add: sys_def create_supervisor_with_policy_def insert_supervisor_def supervision_default_def Let_def
        saturating_add_def checked_add_def)
  with run supervision_stays_consistent [OF sample_one_facts(1) run] show ?thesis by auto
qed

end
