(* ===== verification/Supervision_Queues.thy ===== *)
theory Supervision_Queues
  imports Supervision Vm_Timer
begin

text \<open>
  Deferred restarts and graceful shutdown of supervised children, driven by the timers:
  \<open>VmSupervisionBackoffQueue\<close> of \<open>runtime/vm/supervision/backoff.rs\<close> and
  \<open>VmSupervisionShutdownQueue\<close> of \<open>runtime/vm/supervision/shutdown.rs\<close>. Their operations take
  the supervision system, the timers and the process table; these are the fields of
  \<open>world\<close>, and an operation runs on a queue and a world.
\<close>

record 'q world =
  world_supervision :: VmSupervisionSystem
  world_timers :: VmTimerTable
  world_processes :: "'q VmProcessTable"

definition in_processes :: "('q VmProcessTable, vm_error, 'a) stateful
    \<Rightarrow> ('b \<times> 'q world, vm_error, 'a) stateful" where
  "in_processes f = (\<lambda>(queue, w). case f (world_processes w) of
     (r, t) \<Rightarrow> (r, (queue, w\<lparr> world_processes := t \<rparr>)))"

definition in_timers :: "('q VmProcessTable \<Rightarrow> (VmTimerTable, vm_error, 'a) stateful)
    \<Rightarrow> ('b \<times> 'q world, vm_error, 'a) stateful" where
  "in_timers f = (\<lambda>(queue, w). case f (world_processes w) (world_timers w) of
     (r, tt) \<Rightarrow> (r, (queue, w\<lparr> world_timers := tt \<rparr>)))"

definition in_supervision :: "('q supervised, vm_error, 'a) stateful
    \<Rightarrow> ('b \<times> 'q world, vm_error, 'a) stateful" where
  "in_supervision f = (\<lambda>(queue, w). case f (world_supervision w, world_processes w) of
     (r, (system, t)) \<Rightarrow> (r, (queue, w\<lparr> world_supervision := system, world_processes := t \<rparr>)))"

definition on_queue :: "('b \<Rightarrow> 'b) \<Rightarrow> ('b \<times> 'w, 'e, unit) stateful" where
  "on_queue f = (\<lambda>(queue, w). (Ok (), (f queue, w)))"

section \<open>The process that owns the timers\<close>

definition live_timer_owner :: "'q queue_of \<Rightarrow> string
    \<Rightarrow> (VmProcessId option \<times> 'q VmProcessTable, vm_error, VmProcessId) stateful" where
  "live_timer_owner Q module = (\<lambda>(slot, processes).
     case (case slot of Some owner \<Rightarrow> (case pt_get processes owner of
             Some process \<Rightarrow> if is_exited (proc_state process) then None else Some owner
           | None \<Rightarrow> None) | None \<Rightarrow> None) of
       Some owner \<Rightarrow> (Ok owner, (slot, processes))
     | None \<Rightarrow> (case spawn_root Q \<lparr> src_module = module, src_function = ''wait'', src_arity = 0,
           src_source_path = None \<rparr> processes of
         (Ok owner, processes) \<Rightarrow> (Ok owner, (Some owner, processes))
       | (r, processes) \<Rightarrow> (r, (slot, processes))))"

section \<open>Deferred restarts\<close>

definition BACKOFF_TIMER_OWNER_MODULE :: string where
  "BACKOFF_TIMER_OWNER_MODULE = ''runtime.SupervisionBackoff''"

record VmPendingSupervisionRestart =
  pending_restart_supervisor_id :: VmSupervisorId
  pending_restart_child_id :: string
  pending_restart_failed_pid :: VmProcessId
  pending_restart_reason :: VmExitReason

record VmScheduledSupervisionRestart =
  scheduled_restart_timer_id :: VmTimerId
  scheduled_restart_child_id :: string
  scheduled_restart_failed_pid :: VmProcessId
  scheduled_restart_deadline_tick :: u64

record VmSupervisionRestartPlan =
  plan_child_id :: string
  plan_failed_pid :: VmProcessId
  plan_should_restart :: bool
  plan_restart_limit_reached :: bool
  plan_delay_ticks :: u64

datatype VmSupervisionBackoffStart =
    BackoffImmediate VmSupervisionRestart
  | BackoffDeferred "VmSupervisionRestart list" "VmScheduledSupervisionRestart list"

record VmSupervisionRestartRequest =
  restart_request_supervisor_id :: VmSupervisorId
  restart_request_child_id :: string
  restart_request_reason :: VmExitReason
  restart_request_now_tick :: u64

datatype VmSupervisionBackoffCompletion =
    BackoffRestarted VmSupervisionRestart
  | BackoffCancelled VmTimerId VmProcessId
  | BackoffTimerOwnerExited VmTimerId VmProcessId
  | BackoffStale VmTimerId VmProcessId VmProcessId

record VmSupervisionBackoffQueue =
  bq_timer_owner :: "VmProcessId option"
  bq_pending :: "(VmTimerId, VmPendingSupervisionRestart) btree"
  bq_pending_children :: "(VmSupervisorId \<times> string, VmTimerId) btree"

definition backoff_queue_default :: VmSupervisionBackoffQueue where
  "backoff_queue_default = \<lparr> bq_timer_owner = None, bq_pending = [], bq_pending_children = [] \<rparr>"

definition plan_child :: "VmExitReason \<Rightarrow> string \<Rightarrow> VmSupervisorChild \<Rightarrow> VmSupervisionRestartPlan" where
  "plan_child reason selected_id child =
     (let restart = should_restart (spec_restart_class (sc_spec child)) reason;
          limit_reached = restart \<and> spec_restart_limit (sc_spec child) \<le> sc_restart_count child
      in \<lparr> plan_child_id = selected_id, plan_failed_pid = sc_pid child, plan_should_restart = restart,
           plan_restart_limit_reached = limit_reached,
           plan_delay_ticks = (if restart \<and> \<not> limit_reached then
             restart_delay_ms (sc_spec child) (saturating_add (sc_restart_count child) 1) else 0) \<rparr>)"

fun plan_children :: "VmSupervisor \<Rightarrow> VmExitReason \<Rightarrow> string list
    \<Rightarrow> (vm_error, VmSupervisionRestartPlan list) outcome" where
  "plan_children supervisor reason [] = Ok []"
| "plan_children supervisor reason (selected_id # ids) = (case bt_get (sv_children supervisor) selected_id of
     None \<Rightarrow> Panic ''selected child belongs to supervisor''
   | Some child \<Rightarrow> bind_out (plan_children supervisor reason ids)
       (\<lambda>plans. Ok (plan_child reason selected_id child # plans)))"

definition restart_plan :: "VmSupervisionSystem \<Rightarrow> VmSupervisorId \<Rightarrow> string \<Rightarrow> VmExitReason
    \<Rightarrow> (vm_error, VmSupervisionRestartPlan list) outcome" where
  "restart_plan supervision supervisor_id child_id reason =
     bind_out (ok_or (Msg ''missing supervisor {}'' [ANum supervisor_id])
       (bt_get (sys_supervisors supervision) supervisor_id)) (\<lambda>supervisor.
     if \<not> bt_contains (sv_children supervisor) child_id then Err (Msg ''missing child `{child_id}`'' [AStr child_id])
     else bind_out (case sv_policy supervisor of
         OneForOne \<Rightarrow> Ok [child_id]
       | OneForAll \<Rightarrow> Ok (sv_child_order supervisor)
       | RestForOne \<Rightarrow> (case position (\<lambda>known. known = child_id) (sv_child_order supervisor) of
           None \<Rightarrow> Panic ''validated child belongs to supervisor order''
         | Some start \<Rightarrow> Ok (drop start (sv_child_order supervisor))))
       (plan_children supervisor reason))"

fun restart_deadlines :: "VmSupervisionRestartPlan list \<Rightarrow> u64 \<Rightarrow> (vm_error, u64 option list) outcome" where
  "restart_deadlines [] now_tick = Ok []"
| "restart_deadlines (plan # plans) now_tick =
     bind_out (if \<not> plan_should_restart plan \<or> plan_delay_ticks plan = 0 then Ok None
       else (case checked_add now_tick (plan_delay_ticks plan) of
           Some deadline \<Rightarrow> Ok (Some deadline)
         | None \<Rightarrow> Err (Msg ''supervision restart deadline overflow for child `{}` at tick {now_tick}''
             [AStr (plan_child_id plan), ANum now_tick]))) (\<lambda>deadline.
     bind_out (restart_deadlines plans now_tick) (\<lambda>deadlines. Ok (deadline # deadlines)))"

fun require_planned_processes :: "'q VmProcessTable \<Rightarrow> VmSupervisionRestartPlan list \<Rightarrow> (vm_error, unit) outcome" where
  "require_planned_processes processes [] = Ok ()"
| "require_planned_processes processes (plan # plans) = (case pt_get processes (plan_failed_pid plan) of
     None \<Rightarrow> Err (Msg ''missing process {}'' [ANum (plan_failed_pid plan)])
   | Some _ \<Rightarrow> require_planned_processes processes plans)"

definition exit_failed_process :: "VmProcessId \<Rightarrow> VmExitReason \<Rightarrow> ('q VmProcessTable, vm_error, unit) stateful" where
  "exit_failed_process failed_pid reason processes = (case pt_get processes failed_pid of
     Some process \<Rightarrow> if is_exited (proc_state process) then (Ok (), processes)
       else bind_st (pt_exit_process failed_pid reason) (\<lambda>_. return_st ()) processes
   | None \<Rightarrow> (Err (Msg ''missing process {}'' [ANum failed_pid]), processes))"

fun exit_planned :: "VmExitReason \<Rightarrow> VmSupervisionRestartPlan list \<Rightarrow> ('q VmProcessTable, vm_error, unit) stateful" where
  "exit_planned reason [] = return_st ()"
| "exit_planned reason (plan # plans) = bind_st (exit_failed_process (plan_failed_pid plan) reason) (\<lambda>_.
     exit_planned reason plans)"

fun reject_pending_children :: "VmSupervisionBackoffQueue \<Rightarrow> VmSupervisorId \<Rightarrow> VmSupervisionRestartPlan list
    \<Rightarrow> (vm_error, unit) outcome" where
  "reject_pending_children queue supervisor_id [] = Ok ()"
| "reject_pending_children queue supervisor_id (plan # plans) =
     (case bt_get (bq_pending_children queue) (supervisor_id, plan_child_id plan) of
       Some timer \<Rightarrow> Err (Msg ''supervision restart for child `{}` is already pending on timer {}''
         [AStr (plan_child_id plan), ANum timer])
     | None \<Rightarrow> reject_pending_children queue supervisor_id plans)"

type_synonym 'q backing_off = "VmSupervisionBackoffQueue \<times> 'q world"

definition backoff_live_timer_owner :: "'q queue_of \<Rightarrow> ('q backing_off, vm_error, VmProcessId) stateful" where
  "backoff_live_timer_owner Q = (\<lambda>(queue, w).
     case live_timer_owner Q BACKOFF_TIMER_OWNER_MODULE (bq_timer_owner queue, world_processes w) of
       (r, (slot, t)) \<Rightarrow> (r, (queue\<lparr> bq_timer_owner := slot \<rparr>, w\<lparr> world_processes := t \<rparr>)))"

text \<open>The last loop of \<open>schedule_restart\<close>: the restarts done at once and those left to a timer.\<close>

fun schedule_plans :: "'q queue_of \<Rightarrow> VmSupervisorId \<Rightarrow> VmExitReason \<Rightarrow> VmProcessId
    \<Rightarrow> (VmSupervisionRestartPlan \<times> u64 option) list
    \<Rightarrow> ('q backing_off, vm_error, VmSupervisionRestart list \<times> VmScheduledSupervisionRestart list) stateful" where
  "schedule_plans Q supervisor_id reason owner [] = return_st ([], [])"
| "schedule_plans Q supervisor_id reason owner ((plan, deadline) # plans) =
     (if \<not> plan_should_restart plan then schedule_plans Q supervisor_id reason owner plans
      else case deadline of
        None \<Rightarrow> bind_st (in_supervision (restart_child_after_backoff Q supervisor_id (plan_child_id plan) reason))
          (\<lambda>restart. bind_st (schedule_plans Q supervisor_id reason owner plans)
            (\<lambda>(restarted, scheduled). return_st (restart # restarted, scheduled)))
      | Some deadline_tick \<Rightarrow>
          bind_st (in_timers (\<lambda>processes. start_one_shot processes owner deadline_tick)) (\<lambda>timer.
          bind_st (on_queue (\<lambda>queue. queue\<lparr>
              bq_pending := bt_insert timer \<lparr> pending_restart_supervisor_id = supervisor_id,
                pending_restart_child_id = plan_child_id plan,
                pending_restart_failed_pid = plan_failed_pid plan, pending_restart_reason = reason \<rparr> (bq_pending queue),
              bq_pending_children := bt_insert (supervisor_id, plan_child_id plan) timer
                (bq_pending_children queue) \<rparr>)) (\<lambda>_.
          bind_st (schedule_plans Q supervisor_id reason owner plans) (\<lambda>(restarted, scheduled).
            return_st (restarted, \<lparr> scheduled_restart_timer_id = timer,
              scheduled_restart_child_id = plan_child_id plan,
              scheduled_restart_failed_pid = plan_failed_pid plan,
              scheduled_restart_deadline_tick = deadline_tick \<rparr> # scheduled)))))"

definition schedule_restart :: "'q queue_of \<Rightarrow> VmSupervisionRestartRequest
    \<Rightarrow> ('q backing_off, vm_error, VmSupervisionBackoffStart) stateful" where
  "schedule_restart Q request =
     (let supervisor_id = restart_request_supervisor_id request; child_id = restart_request_child_id request;
          reason = restart_request_reason request; now_tick = restart_request_now_tick request in
      bind_st (read_st (\<lambda>(queue, w). restart_plan (world_supervision w) supervisor_id child_id reason)) (\<lambda>plans.
      bind_st (read_st (\<lambda>(queue, w). reject_pending_children queue supervisor_id plans)) (\<lambda>_.
      if list_ex plan_restart_limit_reached plans \<or> list_all (\<lambda>plan. plan_delay_ticks plan = 0) plans then
        bind_st (in_supervision (restart_child Q supervisor_id child_id reason)) (\<lambda>restart.
          return_st (BackoffImmediate restart))
      else
        bind_st (read_st (\<lambda>_. restart_deadlines plans now_tick)) (\<lambda>deadlines.
        bind_st (read_st (\<lambda>(queue, w). require_planned_processes (world_processes w) plans)) (\<lambda>_.
        bind_st (backoff_live_timer_owner Q) (\<lambda>owner.
        bind_st (in_processes (exit_planned reason plans)) (\<lambda>_.
        bind_st (schedule_plans Q supervisor_id reason owner (zip plans deadlines)) (\<lambda>(restarted, scheduled).
          return_st (BackoffDeferred restarted scheduled)))))))))"

definition backoff_child_pid :: "VmSupervisionSystem \<Rightarrow> VmSupervisorId \<Rightarrow> string \<Rightarrow> (vm_error, VmProcessId) outcome" where
  "backoff_child_pid supervision supervisor_id child_id =
     bind_out (ok_or (Msg ''missing supervisor {}'' [ANum supervisor_id])
       (bt_get (sys_supervisors supervision) supervisor_id)) (\<lambda>supervisor.
     ok_or (Msg ''missing child `{child_id}`'' [AStr child_id])
       (map_option sc_pid (bt_get (sv_children supervisor) child_id)))"

definition backoff_handle_timer_event :: "'q queue_of \<Rightarrow> VmTimerEvent
    \<Rightarrow> ('q backing_off, vm_error, VmSupervisionBackoffCompletion option) stateful" where
  "backoff_handle_timer_event Q event = (\<lambda>(queue, w).
     let timer = event_timer_id event in
     case bt_get (bq_pending queue) timer of
       None \<Rightarrow> (Ok None, (queue, w))
     | Some pending \<Rightarrow>
         let queue = queue\<lparr> bq_pending := bt_remove timer (bq_pending queue),
               bq_pending_children := bt_remove (pending_restart_supervisor_id pending,
                 pending_restart_child_id pending) (bq_pending_children queue) \<rparr>;
             failed_pid = pending_restart_failed_pid pending;
             restart = bind_st (read_st (\<lambda>(queue, w). backoff_child_pid (world_supervision w)
                 (pending_restart_supervisor_id pending) (pending_restart_child_id pending))) (\<lambda>current_pid.
               if current_pid \<noteq> failed_pid then return_st (Some (BackoffStale timer failed_pid current_pid))
               else bind_st (in_supervision (restart_child_after_backoff Q (pending_restart_supervisor_id pending)
                   (pending_restart_child_id pending) (pending_restart_reason pending)))
                 (\<lambda>restart. return_st (Some (BackoffRestarted restart))));
             interval_only = (\<lambda>queue_world. (Err (Msg
               ''one-shot supervision backoff timer {} emitted an interval-only outcome'' [ANum timer]), queue_world))
         in (case event of
               Cancelled _ _ _ \<Rightarrow> return_st (Some (BackoffCancelled timer failed_pid))
             | OwnerExited _ _ _ \<Rightarrow> return_st (Some (BackoffTimerOwnerExited timer failed_pid))
             | Fired _ _ _ \<Rightarrow> restart
             | DeadlineMissed _ _ _ _ \<Rightarrow> restart
             | Coalesced _ _ _ _ _ \<Rightarrow> interval_only
             | Overflow _ _ _ \<Rightarrow> interval_only) (queue, w))"

definition backoff_cancel_restart :: "'q queue_of \<Rightarrow> VmTimerId
    \<Rightarrow> ('q backing_off, vm_error, VmSupervisionBackoffCompletion) stateful" where
  "backoff_cancel_restart Q timer =
     bind_st (in_timers (\<lambda>_. timer_cancel timer)) (\<lambda>event.
     bind_st (backoff_handle_timer_event Q event) (\<lambda>completion.
     read_st (\<lambda>_. ok_or (Msg ''missing pending supervision restart for timer {}'' [ANum timer]) completion)))"

definition backoff_cancel_child :: "'q queue_of \<Rightarrow> VmSupervisorId \<Rightarrow> string
    \<Rightarrow> ('q backing_off, vm_error, unit) stateful" where
  "backoff_cancel_child Q supervisor_id child_id = (\<lambda>(queue, w).
     case bt_get (bq_pending_children queue) (supervisor_id, child_id) of
       Some timer \<Rightarrow> bind_st (backoff_cancel_restart Q timer) (\<lambda>_. return_st ()) (queue, w)
     | None \<Rightarrow> (Ok (), (queue, w)))"

definition take_idle_timer_owner :: "VmSupervisionBackoffQueue \<Rightarrow> VmProcessId option \<times> VmSupervisionBackoffQueue" where
  "take_idle_timer_owner queue =
     (if bq_pending queue = [] then (bq_timer_owner queue, queue\<lparr> bq_timer_owner := None \<rparr>) else (None, queue))"

definition backoff_pending_len :: "VmSupervisionBackoffQueue \<Rightarrow> nat" where
  "backoff_pending_len queue = length (bq_pending queue)"

section \<open>Graceful shutdown\<close>

definition SHUTDOWN_TIMER_OWNER_MODULE :: string where
  "SHUTDOWN_TIMER_OWNER_MODULE = ''runtime.SupervisionShutdown''"

record VmPendingSupervisionShutdown =
  pending_shutdown_supervisor_id :: VmSupervisorId
  pending_shutdown_child_id :: string
  pending_shutdown_pid :: VmProcessId
  pending_shutdown_timeout_ms :: u64

record VmScheduledSupervisionShutdown =
  scheduled_shutdown_timer_id :: VmTimerId
  scheduled_shutdown_child_id :: string
  scheduled_shutdown_pid :: VmProcessId
  scheduled_shutdown_deadline_tick :: u64
  scheduled_shutdown_timeout_ms :: u64

datatype VmInternalSupervisionShutdownStart =
    ShutdownImmediate VmSupervisionRestart
  | ShutdownWaiting VmScheduledSupervisionShutdown

record VmSupervisionShutdownRequest =
  shutdown_request_supervisor_id :: VmSupervisorId
  shutdown_request_child_id :: string
  shutdown_request_immediate_reason :: VmExitReason
  shutdown_request_now_tick :: u64

datatype VmSupervisionShutdownCompletion =
    ShutdownExited VmTimerId VmExitReason VmSupervisionRestart
  | ShutdownTimedOut VmTimerId VmProcessId u64 VmSupervisionRestart
  | ShutdownCancelled VmTimerId VmProcessId
  | ShutdownTimerOwnerExited VmTimerId VmProcessId
  | ShutdownStale VmTimerId VmProcessId VmProcessId

record VmSupervisionShutdownAdvance =
  advance_timer_events :: "VmTimerEvent list"
  advance_completions :: "VmSupervisionShutdownCompletion list"
  advance_unhandled_timer_events :: "VmTimerEvent list"

record VmSupervisionShutdownQueue =
  sq_timer_owner :: "VmProcessId option"
  sq_pending :: "(VmTimerId, VmPendingSupervisionShutdown) btree"
  sq_pending_children :: "(VmSupervisorId \<times> string, VmTimerId) btree"

definition shutdown_queue_default :: VmSupervisionShutdownQueue where
  "shutdown_queue_default = \<lparr> sq_timer_owner = None, sq_pending = [], sq_pending_children = [] \<rparr>"

type_synonym 'q shutting_down = "VmSupervisionShutdownQueue \<times> 'q world"

definition child_shutdown_config :: "VmSupervisionSystem \<Rightarrow> VmSupervisorId \<Rightarrow> string
    \<Rightarrow> (vm_error, VmProcessId \<times> u64 option) outcome" where
  "child_shutdown_config supervision supervisor_id child_id =
     bind_out (ok_or (Msg ''missing supervisor {}'' [ANum supervisor_id])
       (bt_get (sys_supervisors supervision) supervisor_id)) (\<lambda>supervisor.
     bind_out (ok_or (Msg ''missing child `{child_id}`'' [AStr child_id])
       (bt_get (sv_children supervisor) child_id)) (\<lambda>child.
     Ok (sc_pid child, shutdown_timeout_ms (sc_spec child))))"

definition shutdown_child_pid :: "VmSupervisionSystem \<Rightarrow> VmSupervisorId \<Rightarrow> string
    \<Rightarrow> (vm_error, VmProcessId) outcome" where
  "shutdown_child_pid supervision supervisor_id child_id =
     bind_out (child_shutdown_config supervision supervisor_id child_id) (\<lambda>(pid, _). Ok pid)"

definition shutdown_message :: "u64 \<Rightarrow> ReplValue" where
  "shutdown_message timeout = VTuple [VAtom ''shutdown'', VInt (i64_or_max timeout)]"

definition shutdown_live_timer_owner :: "'q queue_of \<Rightarrow> ('q shutting_down, vm_error, VmProcessId) stateful" where
  "shutdown_live_timer_owner Q = (\<lambda>(queue, w).
     case live_timer_owner Q SHUTDOWN_TIMER_OWNER_MODULE (sq_timer_owner queue, world_processes w) of
       (r, (slot, t)) \<Rightarrow> (r, (queue\<lparr> sq_timer_owner := slot \<rparr>, w\<lparr> world_processes := t \<rparr>)))"

text \<open>A failed notice cancels the timer just started; the outcome of that is discarded.\<close>

definition send_shutdown_notice :: "'q queue_of \<Rightarrow> VmProcessId \<Rightarrow> VmProcessId \<Rightarrow> u64 \<Rightarrow> VmTimerId
    \<Rightarrow> ('q shutting_down, vm_error, unit) stateful" where
  "send_shutdown_notice Q owner pid timeout timer queue_world =
     (case in_processes (send_system_message Q owner pid (shutdown_message timeout)) queue_world of
        (Err error, queue_world) \<Rightarrow>
          (case in_timers (\<lambda>_. timer_cancel timer) queue_world of
             (Panic p, queue_world) \<Rightarrow> (Panic p, queue_world)
           | (_, queue_world) \<Rightarrow> (Err error, queue_world))
      | (Panic p, queue_world) \<Rightarrow> (Panic p, queue_world)
      | (Ok _, queue_world) \<Rightarrow> (Ok (), queue_world))"

definition begin_shutdown :: "'q queue_of \<Rightarrow> VmSupervisionShutdownRequest
    \<Rightarrow> ('q shutting_down, vm_error, VmInternalSupervisionShutdownStart) stateful" where
  "begin_shutdown Q request =
     (let supervisor_id = shutdown_request_supervisor_id request; child_id = shutdown_request_child_id request;
          immediate_reason = shutdown_request_immediate_reason request;
          now_tick = shutdown_request_now_tick request in
      bind_st (read_st (\<lambda>(queue, w). child_shutdown_config (world_supervision w) supervisor_id child_id))
        (\<lambda>(pid, configured).
      bind_st (read_st (\<lambda>(queue, w). ok_or (Msg ''missing process {}'' [ANum pid])
          (map_option proc_state (pt_get (world_processes w) pid)))) (\<lambda>state.
      case state of
        Exited reason \<Rightarrow> bind_st (in_supervision (restart_child Q supervisor_id child_id reason)) (\<lambda>restart.
          return_st (ShutdownImmediate restart))
      | _ \<Rightarrow> (case (case configured of Some timeout \<Rightarrow> if 0 < timeout then Some timeout else None | None \<Rightarrow> None) of
          None \<Rightarrow> bind_st (in_supervision (restart_child Q supervisor_id child_id immediate_reason)) (\<lambda>restart.
            return_st (ShutdownImmediate restart))
        | Some timeout \<Rightarrow>
          bind_st (read_st (\<lambda>_. ok_or (Msg ''supervision shutdown deadline overflow for child `{child_id}` at tick {now_tick}''
              [AStr child_id, ANum now_tick]) (checked_add now_tick timeout))) (\<lambda>deadline_tick.
          bind_st (read_st (\<lambda>(queue, w). case bt_get (sq_pending_children queue) (supervisor_id, child_id) of
              Some timer \<Rightarrow> Err (Msg ''supervision shutdown for child `{child_id}` is already pending on timer {}''
                [AStr child_id, ANum timer])
            | None \<Rightarrow> Ok ())) (\<lambda>_.
          bind_st (shutdown_live_timer_owner Q) (\<lambda>owner.
          bind_st (in_timers (\<lambda>processes. start_one_shot processes owner deadline_tick)) (\<lambda>timer.
          bind_st (send_shutdown_notice Q owner pid timeout timer) (\<lambda>_.
          bind_st (on_queue (\<lambda>queue. queue\<lparr>
              sq_pending := bt_insert timer \<lparr> pending_shutdown_supervisor_id = supervisor_id,
                pending_shutdown_child_id = child_id, pending_shutdown_pid = pid,
                pending_shutdown_timeout_ms = timeout \<rparr> (sq_pending queue),
              sq_pending_children := bt_insert (supervisor_id, child_id) timer (sq_pending_children queue) \<rparr>)) (\<lambda>_.
          return_st (ShutdownWaiting \<lparr> scheduled_shutdown_timer_id = timer,
            scheduled_shutdown_child_id = child_id, scheduled_shutdown_pid = pid,
            scheduled_shutdown_deadline_tick = deadline_tick,
            scheduled_shutdown_timeout_ms = timeout \<rparr>))))))))))) "

definition remove_pending :: "VmTimerId \<Rightarrow> VmSupervisionShutdownQueue
    \<Rightarrow> VmPendingSupervisionShutdown option \<times> VmSupervisionShutdownQueue" where
  "remove_pending timer queue = (case bt_get (sq_pending queue) timer of
     None \<Rightarrow> (None, queue)
   | Some pending \<Rightarrow> (Some pending, queue\<lparr> sq_pending := bt_remove timer (sq_pending queue),
       sq_pending_children := bt_remove (pending_shutdown_supervisor_id pending,
         pending_shutdown_child_id pending) (sq_pending_children queue) \<rparr>))"

definition complete_shutdown :: "'q queue_of \<Rightarrow> VmSupervisorId \<Rightarrow> string
    \<Rightarrow> ('q shutting_down, vm_error, VmSupervisionShutdownCompletion) stateful" where
  "complete_shutdown Q supervisor_id child_id =
     bind_st (read_st (\<lambda>(queue, w). ok_or (Msg ''no supervision shutdown is pending for child `{child_id}`''
         [AStr child_id]) (bt_get (sq_pending_children queue) (supervisor_id, child_id)))) (\<lambda>timer.
     bind_st (read_st (\<lambda>(queue, w). case bt_get (sq_pending queue) timer of
         None \<Rightarrow> Panic ''pending child index references a shutdown intent''
       | Some pending \<Rightarrow> (case pt_get (world_processes w) (pending_shutdown_pid pending) of
           None \<Rightarrow> Err (Msg ''missing process {}'' [ANum (pending_shutdown_pid pending)])
         | Some process \<Rightarrow> (case proc_state process of
             Exited reason \<Rightarrow> Ok reason
           | _ \<Rightarrow> Err (Msg ''child `{child_id}` has not exited'' [AStr child_id]))))) (\<lambda>reason.
     bind_st (in_timers (\<lambda>_. timer_cancel timer)) (\<lambda>_ (queue, w).
     case remove_pending timer queue of
       (None, queue) \<Rightarrow> (Panic ''pending shutdown'', (queue, w))
     | (Some pending, queue) \<Rightarrow>
         bind_st (in_supervision (restart_child Q (pending_shutdown_supervisor_id pending)
             (pending_shutdown_child_id pending) reason)) (\<lambda>restart.
           return_st (ShutdownExited timer reason restart)) (queue, w))))"

text \<open>A deadline that passed, for a shutdown that was pending.\<close>

definition shutdown_deadline :: "'q queue_of \<Rightarrow> VmTimerId \<Rightarrow> VmPendingSupervisionShutdown
    \<Rightarrow> ('q shutting_down, vm_error, VmSupervisionShutdownCompletion option) stateful" where
  "shutdown_deadline Q timer pending =
     (let supervisor_id = pending_shutdown_supervisor_id pending; child_id = pending_shutdown_child_id pending;
          pid = pending_shutdown_pid pending in
      bind_st (read_st (\<lambda>(queue, w). shutdown_child_pid (world_supervision w) supervisor_id child_id)) (\<lambda>current_pid.
      if current_pid \<noteq> pid then return_st (Some (ShutdownStale timer pid current_pid))
      else bind_st (read_st (\<lambda>(queue, w). Ok (map_option proc_state (pt_get (world_processes w) pid)))) (\<lambda>state.
        case state of
          Some (Exited reason) \<Rightarrow> bind_st (in_supervision (restart_child Q supervisor_id child_id reason)) (\<lambda>restart.
            return_st (Some (ShutdownExited timer reason restart)))
        | _ \<Rightarrow>
          let reason = ShutdownTimeout (pending_shutdown_timeout_ms pending) in
          bind_st (in_processes (pt_exit_process pid reason)) (\<lambda>_.
          bind_st (in_supervision (restart_child Q supervisor_id child_id reason)) (\<lambda>restart.
            return_st (Some (ShutdownTimedOut timer pid (pending_shutdown_timeout_ms pending) restart)))))))"

definition shutdown_handle_timer_event :: "'q queue_of \<Rightarrow> VmTimerEvent
    \<Rightarrow> ('q shutting_down, vm_error, VmSupervisionShutdownCompletion option) stateful" where
  "shutdown_handle_timer_event Q event = (\<lambda>(queue, w).
     let timer = event_timer_id event in
     case remove_pending timer queue of
       (None, queue) \<Rightarrow> (Ok None, (queue, w))
     | (Some pending, queue) \<Rightarrow>
         let interval_only = (\<lambda>queue_world. (Err (Msg
               ''one-shot supervision shutdown timer {} emitted an interval-only outcome'' [ANum timer]), queue_world))
         in (case event of
               Cancelled _ _ _ \<Rightarrow> return_st (Some (ShutdownCancelled timer (pending_shutdown_pid pending)))
             | OwnerExited _ _ _ \<Rightarrow> return_st (Some (ShutdownTimerOwnerExited timer (pending_shutdown_pid pending)))
             | Fired _ _ _ \<Rightarrow> shutdown_deadline Q timer pending
             | DeadlineMissed _ _ _ _ \<Rightarrow> shutdown_deadline Q timer pending
             | Coalesced _ _ _ _ _ \<Rightarrow> interval_only
             | Overflow _ _ _ \<Rightarrow> interval_only) (queue, w))"

fun shutdown_handle_events :: "'q queue_of \<Rightarrow> VmTimerEvent list
    \<Rightarrow> ('q shutting_down, vm_error, VmSupervisionShutdownCompletion list \<times> VmTimerEvent list) stateful" where
  "shutdown_handle_events Q [] = return_st ([], [])"
| "shutdown_handle_events Q (event # events) =
     bind_st (shutdown_handle_timer_event Q event) (\<lambda>completion.
     bind_st (shutdown_handle_events Q events) (\<lambda>(completions, unhandled).
       return_st (case completion of
         Some completion \<Rightarrow> (completion # completions, unhandled)
       | None \<Rightarrow> (completions, event # unhandled))))"

text \<open>The clock advance also takes the scheduler, which the state carries in front.\<close>

definition shutdown_advance_clock :: "'q queue_of \<Rightarrow> u64
    \<Rightarrow> (VmScheduler \<times> 'q shutting_down, vm_error, VmSupervisionShutdownAdvance) stateful" where
  "shutdown_advance_clock Q now_tick = (\<lambda>(scheduler, (queue, w)).
     case advance_clock now_tick (world_timers w, (scheduler, world_processes w)) of
       (Ok events, (tt, (scheduler, t))) \<Rightarrow>
         (case shutdown_handle_events Q events (queue, w\<lparr> world_timers := tt, world_processes := t \<rparr>) of
            (Ok (completions, unhandled), queue_world) \<Rightarrow>
              (Ok \<lparr> advance_timer_events = events, advance_completions = completions,
                 advance_unhandled_timer_events = unhandled \<rparr>, (scheduler, queue_world))
          | (Err e, queue_world) \<Rightarrow> (Err e, (scheduler, queue_world))
          | (Panic p, queue_world) \<Rightarrow> (Panic p, (scheduler, queue_world)))
     | (Err e, (tt, (scheduler, t))) \<Rightarrow>
         (Err e, (scheduler, (queue, w\<lparr> world_timers := tt, world_processes := t \<rparr>)))
     | (Panic p, (tt, (scheduler, t))) \<Rightarrow>
         (Panic p, (scheduler, (queue, w\<lparr> world_timers := tt, world_processes := t \<rparr>))))"

definition shutdown_pending_len :: "VmSupervisionShutdownQueue \<Rightarrow> nat" where
  "shutdown_pending_len queue = length (sq_pending queue)"

end
