(* ===== verification/Vm_Format.thy ===== *)
theory Vm_Format
  imports Process_Table
begin

text \<open>
  The text the runtime builds and compares: integers in decimal as \<open>format!\<close> writes
  them. Distinct numbers have distinct texts, so that a name made from an
  identity names it.
\<close>

definition digit :: "nat \<Rightarrow> char" where
  "digit n = char_of (48 + n)"

fun decimal :: "nat \<Rightarrow> string" where
  "decimal n = (if n < 10 then [digit n] else decimal (n div 10) @ [digit (n mod 10)])"

declare decimal.simps [simp del]

definition show_u64 :: "u64 \<Rightarrow> string" where
  "show_u64 w = decimal (unat w)"

definition show_i64 :: "i64 \<Rightarrow> string" where
  "show_i64 w = (if sint w < 0 then ''-'' @ decimal (nat (- sint w)) else decimal (nat (sint w)))"

text \<open>Reading a text back.\<close>

definition read_decimal :: "string \<Rightarrow> nat" where
  "read_decimal s = foldl (\<lambda>n c. 10 * n + (of_char c - 48)) 0 s"

lemma of_char_digit: "n < 10 \<Longrightarrow> of_char (digit n) = 48 + n"
  by (simp add: digit_def)

lemma read_decimal_decimal: "read_decimal (decimal n) = n"
proof (induction n rule: decimal.induct)
  case (1 n)
  show ?case
  proof (cases "n < 10")
    case True
    then show ?thesis
      by (subst decimal.simps) (simp add: read_decimal_def of_char_digit)
  next
    case False
    have "of_char (digit (n mod 10)) = 48 + n mod 10"
      by (rule of_char_digit) simp
    then have "read_decimal (decimal n) = 10 * read_decimal (decimal (n div 10)) + n mod 10"
      using False by (subst decimal.simps) (simp add: read_decimal_def)
    then show ?thesis using 1 [OF False] by simp
  qed
qed

lemma decimal_inject [simp]: "decimal m = decimal n \<longleftrightarrow> m = n"
  by (metis read_decimal_decimal)

lemma show_u64_inject [simp]: "show_u64 v = show_u64 w \<longleftrightarrow> v = w"
  by (simp add: show_u64_def word_unat_eq_iff)

end
