(* ===== verification/Accelerator_Contract.thy ===== *)
theory Accelerator_Contract
  imports Vm_Format
begin

text \<open>
  The contract of accelerator resources (\<open>src/crates/terlan/src/accelerator_contract.rs\<close>):
  handles without pointers, and the linear resource behind them, which is owned by one
  principal at a time, lent to at most one borrower, and disposed once. A handle carries the
  generation of the resource it was made for; transfer and disposal advance it.
\<close>

section \<open>Errors\<close>

datatype AcceleratorValueError =
    UnsupportedScalarType string
  | NegativeDimension i64
  | InvalidRank usize
  | IntegerOverflow string
  | StrideRankMismatch usize usize
  | InvalidStride i64
  | IncompatibleLayout
  | InvalidAlignment u64
  | MisalignedOffset u64 u64
  | InvalidIdentity string
  | StaleHandle
  | OwnershipRequired
  | BorrowActive
  | BorrowMismatch
  | AlreadyDisposed
  | EscapedBorrow
  | CrossDeviceAlias
  | ByteCountMismatch u64 u64
  | UnsupportedPacketSchema u64
  | InvalidPacketOwnership

fun accelerator_error_detail :: "AcceleratorValueError \<Rightarrow> string" where
  "accelerator_error_detail (UnsupportedScalarType text) = ''unsupported scalar type `'' @ text @ ''`''"
| "accelerator_error_detail (NegativeDimension n) = ''negative dimension `'' @ show_i64 n @ ''`''"
| "accelerator_error_detail (InvalidRank rank) = ''rank `'' @ show_u64 rank @ ''` exceeds the supported limit''"
| "accelerator_error_detail (IntegerOverflow field) = ''integer overflow while computing `'' @ field @ ''`''"
| "accelerator_error_detail (StrideRankMismatch rank strides) =
     ''rank `'' @ show_u64 rank @ ''` has `'' @ show_u64 strides @ ''` strides''"
| "accelerator_error_detail (InvalidStride n) = ''invalid stride `'' @ show_i64 n @ ''`''"
| "accelerator_error_detail IncompatibleLayout = ''strides do not match the declared contiguous order''"
| "accelerator_error_detail (InvalidAlignment n) = ''invalid alignment `'' @ show_u64 n @ ''`''"
| "accelerator_error_detail (MisalignedOffset offset alignment) =
     ''byte offset `'' @ show_u64 offset @ ''` is not aligned to `'' @ show_u64 alignment @ ''`''"
| "accelerator_error_detail (InvalidIdentity text) = ''invalid stable identity `'' @ text @ ''`''"
| "accelerator_error_detail StaleHandle = ''stale resource handle''"
| "accelerator_error_detail OwnershipRequired = ''resource ownership is required''"
| "accelerator_error_detail BorrowActive = ''resource has an active borrow''"
| "accelerator_error_detail BorrowMismatch = ''borrow scope or principal does not match''"
| "accelerator_error_detail AlreadyDisposed = ''resource was already disposed''"
| "accelerator_error_detail EscapedBorrow = ''borrow escaped its lexical scope''"
| "accelerator_error_detail CrossDeviceAlias = ''resource and packet devices differ''"
| "accelerator_error_detail (ByteCountMismatch expected actual) =
     ''expected `'' @ show_u64 expected @ ''` bytes but received `'' @ show_u64 actual @ ''`''"
| "accelerator_error_detail (UnsupportedPacketSchema schema) =
     ''unsupported tensor packet schema `'' @ show_u64 schema @ ''`''"
| "accelerator_error_detail InvalidPacketOwnership = ''packet ownership does not match its resource handle''"

definition accelerator_error_text :: "AcceleratorValueError \<Rightarrow> string" where
  "accelerator_error_text error = ''accelerator value rejected: '' @ accelerator_error_detail error"

section \<open>Identities\<close>

text \<open>A character above 127 has no ASCII byte in its encoding.\<close>

definition identity_char :: "char \<Rightarrow> bool" where
  "identity_char c = (let b = of_char c :: nat in
     97 \<le> b \<and> b \<le> 122 \<or> 48 \<le> b \<and> b \<le> 57 \<or> c = CHR ''.'' \<or> c = CHR ''_'' \<or> c = CHR ''-'')"

definition validate_value_identity :: "string \<Rightarrow> (AcceleratorValueError, unit) outcome" where
  "validate_value_identity text =
     (if text \<noteq> [] \<and> text = str_trim text \<and> list_all identity_char text
      then Ok () else Err (InvalidIdentity text))"

record AcceleratorDeviceId =
  device_backend :: string
  device_ordinal :: u32

definition device_id_new :: "string \<Rightarrow> u32 \<Rightarrow> (AcceleratorValueError, AcceleratorDeviceId) outcome" where
  "device_id_new backend ordinal = bind_out (validate_value_identity backend)
     (\<lambda>_. Ok \<lparr> device_backend = backend, device_ordinal = ordinal \<rparr>)"

datatype AcceleratorAddressSpace =
    Host
  | PinnedHost string
  | Device AcceleratorDeviceId
  | External string string

fun validate_address_space :: "AcceleratorAddressSpace \<Rightarrow> (AcceleratorValueError, unit) outcome" where
  "validate_address_space Host = Ok ()"
| "validate_address_space (PinnedHost backend) = validate_value_identity backend"
| "validate_address_space (Device device) = validate_value_identity (device_backend device)"
| "validate_address_space (External provider space) =
     bind_out (validate_value_identity provider) (\<lambda>_. validate_value_identity space)"

definition address_space_device :: "AcceleratorAddressSpace \<Rightarrow> AcceleratorDeviceId option" where
  "address_space_device space = (case space of Device device \<Rightarrow> Some device | _ \<Rightarrow> None)"

datatype AcceleratorResourceClass =
    DeviceContext | Allocation | Stream | Event | Module | Kernel | Graph | Communicator | ImportedTensor

record AcceleratorResourceId =
  resource_slot :: u64
  resource_generation :: u64

type_synonym AcceleratorResourcePrincipal = string

definition resource_principal_new :: "string \<Rightarrow> (AcceleratorValueError, AcceleratorResourcePrincipal) outcome" where
  "resource_principal_new text = bind_out (validate_value_identity text) (\<lambda>_. Ok text)"

datatype AcceleratorResourceRole =
    Owned AcceleratorResourcePrincipal
  | Borrowed AcceleratorResourcePrincipal u64

record AcceleratorResourceHandle =
  ahandle_id :: AcceleratorResourceId
  ahandle_class :: AcceleratorResourceClass
  ahandle_address_space :: AcceleratorAddressSpace
  ahandle_role :: AcceleratorResourceRole

definition validate_resource_handle :: "AcceleratorResourceHandle \<Rightarrow> (AcceleratorValueError, unit) outcome" where
  "validate_resource_handle handle =
     (if resource_slot (ahandle_id handle) = 0 then Err (InvalidIdentity ''resource slot 0'')
      else bind_out (validate_address_space (ahandle_address_space handle)) (\<lambda>_.
        case ahandle_role handle of
          Owned who \<Rightarrow> validate_value_identity who
        | Borrowed who scope \<Rightarrow> bind_out (validate_value_identity who) (\<lambda>_.
            if scope = 0 then Err EscapedBorrow else Ok ())))"

section \<open>The linear resource\<close>

datatype AcceleratorDeleter = NoDeleter | PackageOperation string string

fun validate_deleter :: "AcceleratorDeleter \<Rightarrow> (AcceleratorValueError, unit) outcome" where
  "validate_deleter NoDeleter = Ok ()"
| "validate_deleter (PackageOperation package operation) =
     bind_out (validate_value_identity package) (\<lambda>_. validate_value_identity operation)"

record AcceleratorDeleterInvocation =
  invocation_resource :: AcceleratorResourceId
  invocation_deleter :: AcceleratorDeleter

record AcceleratorLinearResource =
  lin_id :: AcceleratorResourceId
  lin_class :: AcceleratorResourceClass
  lin_address_space :: AcceleratorAddressSpace
  lin_owner :: AcceleratorResourcePrincipal
  lin_borrow :: "(AcceleratorResourcePrincipal \<times> u64) option"
  lin_deleter :: "AcceleratorDeleter option"
  lin_disposed :: bool

type_synonym 'a linear_op = "(AcceleratorLinearResource, AcceleratorValueError, 'a) stateful"

definition owned_handle :: "AcceleratorLinearResource \<Rightarrow> AcceleratorResourcePrincipal
    \<Rightarrow> AcceleratorResourceHandle" where
  "owned_handle r who = \<lparr> ahandle_id = lin_id r, ahandle_class = lin_class r,
     ahandle_address_space = lin_address_space r, ahandle_role = Owned who \<rparr>"

definition linear_resource_new :: "u64 \<Rightarrow> AcceleratorResourceClass \<Rightarrow> AcceleratorAddressSpace
    \<Rightarrow> AcceleratorResourcePrincipal \<Rightarrow> AcceleratorDeleter
    \<Rightarrow> (AcceleratorValueError, AcceleratorLinearResource \<times> AcceleratorResourceHandle) outcome" where
  "linear_resource_new slot kind space owner deleter =
     bind_out (validate_address_space space) (\<lambda>_.
     bind_out (validate_deleter deleter) (\<lambda>_.
       let resource = \<lparr> lin_id = \<lparr> resource_slot = slot, resource_generation = 0 \<rparr>, lin_class = kind,
             lin_address_space = space, lin_owner = owner, lin_borrow = None,
             lin_deleter = Some deleter, lin_disposed = False \<rparr>
       in Ok (resource, owned_handle resource owner)))"

definition require_live_handle :: "AcceleratorLinearResource \<Rightarrow> AcceleratorResourceHandle
    \<Rightarrow> (AcceleratorValueError, unit) outcome" where
  "require_live_handle r handle =
     (if lin_disposed r then Err AlreadyDisposed
      else if ahandle_id handle \<noteq> lin_id r \<or> ahandle_class handle \<noteq> lin_class r
        \<or> ahandle_address_space handle \<noteq> lin_address_space r then Err StaleHandle
      else Ok ())"

definition validate_linear_handle :: "AcceleratorLinearResource \<Rightarrow> AcceleratorResourceHandle
    \<Rightarrow> (AcceleratorValueError, unit) outcome" where
  "validate_linear_handle r handle = require_live_handle r handle"

definition require_owner :: "AcceleratorLinearResource \<Rightarrow> AcceleratorResourceHandle
    \<Rightarrow> (AcceleratorValueError, unit) outcome" where
  "require_owner r handle = bind_out (require_live_handle r handle) (\<lambda>_.
     case ahandle_role handle of
       Owned who \<Rightarrow> if who = lin_owner r then Ok () else Err OwnershipRequired
     | Borrowed _ _ \<Rightarrow> Err OwnershipRequired)"

definition linear_borrow :: "AcceleratorResourceHandle \<Rightarrow> AcceleratorResourcePrincipal \<Rightarrow> u64
    \<Rightarrow> AcceleratorResourceHandle linear_op" where
  "linear_borrow owner borrower scope =
     bind_st (read_st (\<lambda>r. require_owner r owner)) (\<lambda>_ r.
       if scope = 0 then (Err EscapedBorrow, r)
       else if lin_borrow r \<noteq> None then (Err BorrowActive, r)
       else let r = r\<lparr> lin_borrow := Some (borrower, scope) \<rparr>
            in (Ok \<lparr> ahandle_id = lin_id r, ahandle_class = lin_class r,
                  ahandle_address_space = lin_address_space r, ahandle_role = Borrowed borrower scope \<rparr>, r))"

definition linear_release_borrow :: "AcceleratorResourceHandle \<Rightarrow> unit linear_op" where
  "linear_release_borrow borrowed =
     bind_st (read_st (\<lambda>r. require_live_handle r borrowed)) (\<lambda>_ r.
       case ahandle_role borrowed of
         Owned _ \<Rightarrow> (Err BorrowMismatch, r)
       | Borrowed who scope \<Rightarrow>
           if lin_borrow r \<noteq> Some (who, scope) then (Err BorrowMismatch, r)
           else (Ok (), r\<lparr> lin_borrow := None \<rparr>))"

definition next_resource_generation :: "AcceleratorLinearResource \<Rightarrow> (AcceleratorValueError, u64) outcome" where
  "next_resource_generation r = ok_or (IntegerOverflow ''resource_generation'')
     (checked_add (resource_generation (lin_id r)) 1)"

definition linear_transfer :: "AcceleratorResourceHandle \<Rightarrow> AcceleratorResourcePrincipal
    \<Rightarrow> AcceleratorResourceHandle linear_op" where
  "linear_transfer owner recipient =
     bind_st (read_st (\<lambda>r. require_owner r owner)) (\<lambda>_.
     bind_st (read_st (\<lambda>r. if lin_borrow r \<noteq> None then Err BorrowActive else Ok ())) (\<lambda>_.
     bind_st (read_st next_resource_generation) (\<lambda>next_generation r.
       let r = r\<lparr> lin_id := (lin_id r)\<lparr> resource_generation := next_generation \<rparr>, lin_owner := recipient \<rparr>
       in (Ok (owned_handle r recipient), r))))"

definition linear_dispose :: "AcceleratorResourceHandle \<Rightarrow> AcceleratorDeleterInvocation option linear_op" where
  "linear_dispose owner =
     bind_st (read_st (\<lambda>r. require_owner r owner)) (\<lambda>_.
     bind_st (read_st (\<lambda>r. if lin_borrow r \<noteq> None then Err BorrowActive else Ok ())) (\<lambda>_.
     bind_st (read_st next_resource_generation) (\<lambda>next_generation.
     bind_st (read_st (\<lambda>r. ok_or AlreadyDisposed (lin_deleter r))) (\<lambda>deleter r.
       let prior = lin_id r;
           r = r\<lparr> lin_deleter := None, lin_disposed := True,
             lin_id := (lin_id r)\<lparr> resource_generation := next_generation \<rparr> \<rparr>
       in (Ok (case deleter of NoDeleter \<Rightarrow> None
             | PackageOperation _ _ \<Rightarrow> Some \<lparr> invocation_resource = prior, invocation_deleter = deleter \<rparr>), r)))))"

end
