(* ===== verification/Accelerator_Properties.thy ===== *)
theory Accelerator_Properties
  imports Accelerator_Contract
begin

text \<open>
  Linear resources under any sequence of calls by any holders of handles: a handle is dead once
  the resource has been transferred or disposed, the deleter runs at most once, and a lent
  resource is frozen until its borrower returns it.
\<close>

section \<open>Sequences of calls\<close>

datatype linear_call =
    BorrowCall AcceleratorResourceHandle AcceleratorResourcePrincipal u64
  | ReturnCall AcceleratorResourceHandle
  | TransferCall AcceleratorResourceHandle AcceleratorResourcePrincipal
  | DisposeCall AcceleratorResourceHandle

datatype linear_answer =
    GaveHandle AcceleratorResourceHandle
  | Returned
  | Disposed "AcceleratorDeleterInvocation option"

fun make_call :: "linear_call \<Rightarrow> linear_answer linear_op" where
  "make_call (BorrowCall h borrower scope) =
     bind_st (linear_borrow h borrower scope) (\<lambda>b. return_st (GaveHandle b))"
| "make_call (ReturnCall h) = bind_st (linear_release_borrow h) (\<lambda>_. return_st Returned)"
| "make_call (TransferCall h recipient) =
     bind_st (linear_transfer h recipient) (\<lambda>b. return_st (GaveHandle b))"
| "make_call (DisposeCall h) = bind_st (linear_dispose h) (\<lambda>i. return_st (Disposed i))"

fun call_handle :: "linear_call \<Rightarrow> AcceleratorResourceHandle" where
  "call_handle (BorrowCall h _ _) = h"
| "call_handle (ReturnCall h) = h"
| "call_handle (TransferCall h _) = h"
| "call_handle (DisposeCall h) = h"

fun is_return :: "linear_call \<Rightarrow> bool" where
  "is_return (ReturnCall _) = True"
| "is_return _ = False"

fun ends_handles :: "linear_call \<Rightarrow> bool" where
  "ends_handles (TransferCall _ _) = True"
| "ends_handles (DisposeCall _) = True"
| "ends_handles _ = False"

fun run_calls :: "linear_call list \<Rightarrow> AcceleratorLinearResource
    \<Rightarrow> (AcceleratorValueError, linear_answer) outcome list \<times> AcceleratorLinearResource" where
  "run_calls [] r = ([], r)"
| "run_calls (c # cs) r = (case make_call c r of (answer, r1) \<Rightarrow>
     case run_calls cs r1 of (answers, r2) \<Rightarrow> (answer # answers, r2))"

section \<open>One call\<close>

lemmas linear_ops = linear_borrow_def linear_release_borrow_def linear_transfer_def linear_dispose_def
  next_resource_generation_def

lemma require_owner_Ok:
  "require_owner r h = Ok () \<longleftrightarrow> require_live_handle r h = Ok () \<and> ahandle_role h = Owned (lin_owner r)"
  by (cases "ahandle_role h")
    (auto simp: require_owner_def bind_out_def require_live_handle_def split: outcome.splits)

lemma require_owner_dead:
  "require_live_handle r h = Err e \<Longrightarrow> require_owner r h = Err e"
  by (simp add: require_owner_def)

lemma require_not_panic: "require_live_handle r h \<noteq> Panic p" "require_owner r h \<noteq> Panic p"
  by (cases "ahandle_role h"; simp add: require_owner_def bind_out_def require_live_handle_def)+

lemma call_dead:
  assumes "require_live_handle r (call_handle c) = Err e"
  shows "make_call c r = (Err e, r)"
  using assms require_owner_dead [OF assms]
  by (cases c) (simp_all add: linear_ops bind_st_def read_st_def)

text \<open>A refused call leaves the resource alone.\<close>

lemma call_refused: "make_call c r = (Err e, r') \<Longrightarrow> r' = r"
  by (cases c) (auto simp: linear_ops bind_st_def read_st_def return_st_def Let_def
      split: outcome.splits prod.splits if_splits AcceleratorResourceRole.splits)

lemma call_not_panic: "fst (make_call c r) \<noteq> Panic p"
  by (cases c) (auto simp: linear_ops bind_st_def read_st_def return_st_def Let_def ok_or_def require_not_panic
      split: outcome.splits prod.splits if_splits AcceleratorResourceRole.splits option.splits)

lemma generation_step:
  assumes "make_call c r = (answer, r')"
  shows "resource_generation (lin_id r) \<le> resource_generation (lin_id r')"
    and "ends_handles c \<Longrightarrow> answer = Ok a \<Longrightarrow> resource_generation (lin_id r) < resource_generation (lin_id r')"
    and "lin_disposed r \<Longrightarrow> r' = r \<and> answer = Err AlreadyDisposed"
proof -
  note ops = linear_ops bind_st_def read_st_def return_st_def Let_def ok_or_def
  have up: "g < g'" if "checked_add g 1 = Some g'" for g g' :: u64
    using checked_add_unat [OF that] by (simp add: word_less_nat_alt)
  show "resource_generation (lin_id r) \<le> resource_generation (lin_id r')"
    using assms by (cases c) (auto simp: ops dest!: up
      split: outcome.splits prod.splits if_splits AcceleratorResourceRole.splits option.splits)
  show "ends_handles c \<Longrightarrow> answer = Ok a \<Longrightarrow> resource_generation (lin_id r) < resource_generation (lin_id r')"
    using assms by (cases c) (auto simp: ops dest!: up
      split: outcome.splits prod.splits if_splits AcceleratorResourceRole.splits option.splits)
  show "lin_disposed r \<Longrightarrow> r' = r \<and> answer = Err AlreadyDisposed"
    using assms call_dead [of r c AlreadyDisposed] by (simp add: require_live_handle_def)
qed

lemma run_calls_generation:
  "run_calls cs r = (answers, r') \<Longrightarrow> resource_generation (lin_id r) \<le> resource_generation (lin_id r')"
  by (induction cs arbitrary: r answers)
    (force dest: generation_step(1) split: prod.splits intro: order_trans)+

lemma run_calls_disposed:
  "run_calls cs r = (answers, r') \<Longrightarrow> lin_disposed r \<Longrightarrow> r' = r \<and> (\<forall>a\<in>set answers. a = Err AlreadyDisposed)"
proof (induction cs arbitrary: answers)
  case (Cons c cs)
  then show ?case
    using generation_step(3) by (fastforce split: prod.splits)
qed simp

lemma dispose_disposes: "make_call (DisposeCall h) r = (Ok a, r') \<Longrightarrow> lin_disposed r'"
  by (auto simp: linear_ops bind_st_def read_st_def return_st_def Let_def ok_or_def
      split: outcome.splits prod.splits if_splits option.splits)

section \<open>Handles die\<close>

text \<open>C38: Once a resource has been transferred or disposed, every handle that named it before is
  dead: after any further calls by anyone, a call with such a handle is refused as stale, or as
  already disposed, and changes nothing. After a disposal every call is refused, so the deleter is
  handed out at most once.
\<close>

theorem superseded_handles_are_dead:
  assumes "make_call c r = (Ok answer, r1)" "ends_handles c" "run_calls cs r1 = (answers, r2)"
  shows "(\<forall>c'. ahandle_id (call_handle c') = lin_id r \<longrightarrow>
            make_call c' r2 = (Err (if lin_disposed r2 then AlreadyDisposed else StaleHandle), r2))
       \<and> (c = DisposeCall (call_handle c) \<longrightarrow>
            lin_disposed r2 \<and> r2 = r1 \<and> (\<forall>a\<in>set answers. a = Err AlreadyDisposed))"
proof (intro conjI allI impI)
  fix c'
  assume h: "ahandle_id (call_handle c') = lin_id r"
  have "resource_generation (lin_id r) < resource_generation (lin_id r2)"
    using generation_step(2) [OF assms(1,2) refl] run_calls_generation [OF assms(3)] by simp
  then have "ahandle_id (call_handle c') \<noteq> lin_id r2" using h by auto
  then show "make_call c' r2 = (Err (if lin_disposed r2 then AlreadyDisposed else StaleHandle), r2)"
    by (intro call_dead) (simp add: require_live_handle_def)
next
  assume "c = DisposeCall (call_handle c)"
  then have "lin_disposed r1" using assms(1) dispose_disposes by metis
  with run_calls_disposed [OF assms(3)] show "lin_disposed r2" "r2 = r1" "\<forall>a\<in>set answers. a = Err AlreadyDisposed"
    by auto
qed

definition sample_linear :: AcceleratorLinearResource where
  "sample_linear = \<lparr> lin_id = \<lparr> resource_slot = 1, resource_generation = 0 \<rparr>, lin_class = Stream,
     lin_address_space = Host, lin_owner = ''app'', lin_borrow = None,
     lin_deleter = Some (PackageOperation ''cuda'' ''free''), lin_disposed = False \<rparr>"

lemma sample_linear_new:
  "linear_resource_new 1 Stream Host ''app'' (PackageOperation ''cuda'' ''free'')
     = Ok (sample_linear, owned_handle sample_linear ''app'')"
  by code_simp

theorem superseded_handles_are_dead_witness:
  "\<exists>r1 i. make_call (DisposeCall (owned_handle sample_linear ''app'')) sample_linear = (Ok (Disposed (Some i)), r1)
     \<and> make_call (DisposeCall (owned_handle sample_linear ''app'')) r1 = (Err AlreadyDisposed, r1)"
proof -
  let ?c = "DisposeCall (owned_handle sample_linear ''app'')"
  obtain r1 i where r1: "make_call ?c sample_linear = (Ok (Disposed (Some i)), r1)"
    by (simp add: linear_ops bind_st_def read_st_def return_st_def require_owner_def require_live_handle_def
        owned_handle_def sample_linear_def checked_add_def ok_or_def)
  have "run_calls [] r1 = ([], r1)" by simp
  from superseded_handles_are_dead [OF r1 _ this]
  have "\<forall>c'. ahandle_id (call_handle c') = lin_id sample_linear \<longrightarrow>
      make_call c' r1 = (Err (if lin_disposed r1 then AlreadyDisposed else StaleHandle), r1)"
    "lin_disposed r1" by simp_all
  moreover have "ahandle_id (call_handle ?c) = lin_id sample_linear" by (simp add: owned_handle_def)
  ultimately have "make_call ?c r1 = (Err AlreadyDisposed, r1)" by metis
  with r1 show ?thesis by blast
qed

section \<open>A lent resource is frozen\<close>

lemma lent_step:
  assumes "lin_borrow r = Some b" "make_call c r = (answer, r')" "\<not> (is_return c \<and> is_Ok answer)"
  shows "r' = r \<and> \<not> is_Ok answer"
  using assms by (cases c) (auto simp: linear_ops bind_st_def read_st_def return_st_def Let_def
      split: outcome.splits prod.splits if_splits AcceleratorResourceRole.splits)

lemma lent_run:
  "lin_borrow r = Some b \<Longrightarrow> run_calls cs r = (answers, r')
     \<Longrightarrow> \<forall>(c, a)\<in>set (zip cs answers). \<not> (is_return c \<and> is_Ok a)
     \<Longrightarrow> r' = r \<and> (\<forall>a\<in>set answers. \<not> is_Ok a)"
proof (induction cs arbitrary: answers)
  case (Cons c cs)
  obtain a r1 where a: "make_call c r = (a, r1)" by (cases "make_call c r")
  obtain as r2 where as: "run_calls cs r1 = (as, r2)" by (cases "run_calls cs r1")
  have run: "answers = a # as" "r' = r2" using Cons.prems(2) a as by simp_all
  have step: "r1 = r \<and> \<not> is_Ok a"
    by (rule lent_step [OF Cons.prems(1) a]) (use Cons.prems(3) run in auto)
  have as': "run_calls cs r = (as, r')" using as step run by simp
  have "r' = r \<and> (\<forall>a\<in>set as. \<not> is_Ok a)"
    using Cons.IH [OF Cons.prems(1) as'] Cons.prems(3) run by simp
  with step run show ?case by auto
qed simp

text \<open>C39: While a resource is lent, whatever calls are made on it, none succeeds and it stays as it is
  until the loan is returned; the borrower can return it at any time, which restores
  the resource as it was before the loan.
\<close>

theorem loan_freezes_then_restores:
  assumes "make_call (BorrowCall h borrower scope) r = (Ok (GaveHandle b), r1)"
    "run_calls cs r1 = (answers, r2)"
    "\<forall>(c, a)\<in>set (zip cs answers). \<not> (is_return c \<and> is_Ok a)"
  shows "r2 = r1 \<and> (\<forall>a\<in>set answers. \<not> is_Ok a) \<and> make_call (ReturnCall b) r2 = (Ok Returned, r)"
proof -
  have r: "require_owner r h = Ok ()" "scope \<noteq> 0" "lin_borrow r = None"
      "r1 = r\<lparr> lin_borrow := Some (borrower, scope) \<rparr>"
      "b = \<lparr> ahandle_id = lin_id r, ahandle_class = lin_class r,
         ahandle_address_space = lin_address_space r, ahandle_role = Borrowed borrower scope \<rparr>"
    using assms(1) by (auto simp: linear_borrow_def bind_st_def read_st_def return_st_def Let_def
        split: outcome.splits prod.splits if_splits) (cases "lin_borrow r", simp, force)
  then have live: "\<not> lin_disposed r"
    by (auto simp: require_owner_Ok require_live_handle_def split: if_splits)
  have same: "r2 = r1 \<and> (\<forall>a\<in>set answers. \<not> is_Ok a)"
    by (rule lent_run [OF _ assms(2,3)]) (simp add: r(4))
  have "make_call (ReturnCall b) r1 = (Ok Returned, r1\<lparr> lin_borrow := None \<rparr>)"
    using live by (simp add: linear_release_borrow_def bind_st_def read_st_def return_st_def
        require_live_handle_def r(4,5))
  moreover have "r1\<lparr> lin_borrow := None \<rparr> = r" using r(3,4) by (cases r) simp
  ultimately show ?thesis using same by simp
qed

theorem loan_freezes_then_restores_witness:
  "\<exists>b r1. make_call (BorrowCall (owned_handle sample_linear ''app'') ''job'' 7) sample_linear
        = (Ok (GaveHandle b), r1)
     \<and> fst (make_call (DisposeCall (owned_handle sample_linear ''app'')) r1) = Err BorrowActive
     \<and> make_call (ReturnCall b) r1 = (Ok Returned, sample_linear)"
proof -
  let ?d = "DisposeCall (owned_handle sample_linear ''app'')"
  note ops = linear_ops bind_st_def read_st_def return_st_def require_owner_def require_live_handle_def
    owned_handle_def sample_linear_def
  obtain b r1 where r1: "make_call (BorrowCall (owned_handle sample_linear ''app'') ''job'' 7) sample_linear
      = (Ok (GaveHandle b), r1)" "fst (make_call ?d r1) = Err BorrowActive"
    by (simp add: ops)
  obtain r2 where d: "make_call ?d r1 = (Err BorrowActive, r2)"
    using r1(2) by (cases "make_call ?d r1") auto
  have run: "run_calls [?d] r1 = ([Err BorrowActive], r2)" using d by simp
  have "r2 = r1 \<and> (\<forall>a\<in>set [Err BorrowActive :: (_, linear_answer) outcome]. \<not> is_Ok a)
      \<and> make_call (ReturnCall b) r2 = (Ok Returned, sample_linear)"
    by (rule loan_freezes_then_restores [OF r1(1) run]) simp
  with r1 show ?thesis by auto
qed

end
