(* ===== verification/Queue_Properties.thy ===== *)
theory Queue_Properties
  imports Supervision_Properties Supervision_Queues
begin

text \<open>
  What the queues of deferred restarts and of graceful shutdowns guarantee when a timer event
  reaches them: an event acts at most once, only for the process it was meant for, and the
  process that overstays its shutdown deadline is ended.
\<close>

section \<open>Exited processes stay\<close>

lemma crew_keeps_exited:
  assumes ok: "pt_ok Q contents capacity t"
    and crew: "crew_renewed Q contents capacity reason fresh nx cids sv t sv' t'"
    and get: "pt_get t q = Some p" "is_exited (proc_state p)"
  shows "pt_get t' q = Some p"
proof (cases "\<forall>c\<in>cids. \<forall>child. bt_get (sv_children sv) c = Some child \<longrightarrow> sc_pid child \<noteq> q")
  case True
  have "q \<le> pt_next_pid t" using known_le [OF ok] get by (simp add: known_def)
  then show ?thesis using crew_renewedD(3) [OF crew _ True] get by simp
next
  case False
  then obtain c child where c: "c \<in> cids" "bt_get (sv_children sv) c = Some child" "sc_pid child = q" by blast
  obtain child' where "renewed reason (fresh child) nx child t child' t'"
    using crew_renewedD(2) [OF crew c(1,2)] by blast
  then show ?thesis using get c(3) by (simp add: renewed_def exited_as_def)
qed

lemma policy_keeps_exited:
  assumes "pt_ok Q contents capacity t" "policy_effect Q contents capacity cid reason sv t restart sv' t'"
    and "pt_get t q = Some p" "is_exited (proc_state p)"
  shows "pt_get t' q = Some p"
  using assms crew_keeps_exited [OF assms(1) _ assms(3,4)]
  by (auto simp: policy_effect_def Let_def split: if_splits option.splits)

section \<open>Deferred restarts\<close>

fun deadline_passed :: "VmTimerEvent \<Rightarrow> bool" where
  "deadline_passed (Fired _ _ _) = True"
| "deadline_passed (DeadlineMissed _ _ _ _) = True"
| "deadline_passed _ = False"

text \<open>C24: A deferred restart is done once, and only for the process that failed. When the deadline
  of a pending restart passes, the entry is removed, so that any later event of the same timer
  changes nothing; a child that has another process by then is left alone and reported stale;
  otherwise its class and its limit decide, and if it is due a process never used before runs its
  source. Any other event of the timer removes the entry and changes nothing else.\<close>

theorem deferred_restart_once:
  assumes "pt_ok Q contents capacity (world_processes w)" and "system_ok (world_processes w) (world_supervision w)"
    and "bt_get (bq_pending queue) (event_timer_id event) = Some pending"
    and "bt_get (sys_supervisors (world_supervision w)) (pending_restart_supervisor_id pending) = Some sv"
    and "bt_get (sv_children sv) (pending_restart_child_id pending) = Some child"
    and "0 < pt_room (world_processes w)"
  shows "case backoff_handle_timer_event Q event (queue, w) of (r, (queue', w')) \<Rightarrow>
      bt_get (bq_pending queue') (event_timer_id event) = None
    \<and> (\<forall>timer. timer \<noteq> event_timer_id event \<longrightarrow> bt_get (bq_pending queue') timer = bt_get (bq_pending queue) timer)
    \<and> (\<forall>event' w2. event_timer_id event' = event_timer_id event
        \<longrightarrow> backoff_handle_timer_event Q event' (queue', w2) = (Ok None, (queue', w2)))
    \<and> world_timers w' = world_timers w
    \<and> (if \<not> deadline_passed event then w' = w
       else if sc_pid child \<noteq> pending_restart_failed_pid pending then w' = w
         \<and> r = Ok (Some (BackoffStale (event_timer_id event) (pending_restart_failed_pid pending) (sc_pid child)))
       else \<exists>sv' child'. bt_get (sys_supervisors (world_supervision w')) (pending_restart_supervisor_id pending) = Some sv'
         \<and> bt_get (sv_children sv') (pending_restart_child_id pending) = Some child'
         \<and> r = Ok (Some (BackoffRestarted (one_outcome (pending_restart_reason pending) child child')))
         \<and> renewed (pending_restart_reason pending) (due (pending_restart_reason pending) child \<and> \<not> spent child)
             restarted_child child (world_processes w) child' (world_processes w')
         \<and> (\<forall>pid. pt_get (world_processes w) pid \<noteq> None \<longrightarrow> pid \<noteq> sc_pid child
              \<longrightarrow> pt_get (world_processes w') pid = pt_get (world_processes w) pid)
         \<and> system_ok (world_processes w') (world_supervision w'))"
proof -
  let ?timer = "event_timer_id event" and ?sid = "pending_restart_supervisor_id pending"
    and ?cid = "pending_restart_child_id pending" and ?reason = "pending_restart_reason pending"
  let ?q = "queue\<lparr> bq_pending := bt_remove ?timer (bq_pending queue),
      bq_pending_children := bt_remove (?sid, ?cid) (bq_pending_children queue) \<rparr>"
  have gone: "bt_get (bq_pending ?q) ?timer = None"
    "\<forall>timer. timer \<noteq> ?timer \<longrightarrow> bt_get (bq_pending ?q) timer = bt_get (bq_pending queue) timer" by simp_all
  have again: "\<forall>event' w2. event_timer_id event' = ?timer
      \<longrightarrow> backoff_handle_timer_event Q event' (?q, w2) = (Ok None, (?q, w2))"
    by (simp add: backoff_handle_timer_event_def Let_def)
  note start = backoff_handle_timer_event_def Let_def bind_st_def read_st_def return_st_def
  show ?thesis
  proof (cases "deadline_passed event")
    case False
    then obtain r where "backoff_handle_timer_event Q event (queue, w) = (r, (?q, w))"
      using assms(3) by (cases event) (auto simp: start)
    then show ?thesis using gone again False by simp
  next
    case deadline: True
    have pid: "backoff_child_pid (world_supervision w) ?sid ?cid = Ok (sc_pid child)"
      using assms(4,5) by (simp add: backoff_child_pid_def bind_out_def ok_or_def)
    show ?thesis
    proof (cases "sc_pid child = pending_restart_failed_pid pending")
      case False
      then have "backoff_handle_timer_event Q event (queue, w)
          = (Ok (Some (BackoffStale ?timer (pending_restart_failed_pid pending) (sc_pid child))), (?q, w))"
        using deadline pid assms(3) by (cases event) (auto simp: start)
      then show ?thesis using gone again deadline False by simp
    next
      case True
      obtain restart sv' t' where r: "restart_child_after_backoff Q ?sid ?cid ?reason (world_supervision w, world_processes w)
            = (Ok restart, (put_supervisor ?sid (record_supervision_restart ?cid ?reason restart sv') (world_supervision w), t'))"
          "crew_renewed Q contents capacity ?reason (\<lambda>child. due ?reason child \<and> \<not> spent child) restarted_child
             {?cid} sv (world_processes w) sv' t'"
          "restart = one_outcome ?reason child (the (bt_get (sv_children sv') ?cid))"
          "system_ok t' (put_supervisor ?sid (record_supervision_restart ?cid ?reason restart sv') (world_supervision w))"
        by (rule restart_after_backoff_law [OF assms(1,2,4,5,6)])
      let ?w = "w\<lparr> world_supervision := put_supervisor ?sid (record_supervision_restart ?cid ?reason restart sv') (world_supervision w),
          world_processes := t' \<rparr>"
      have run: "backoff_handle_timer_event Q event (queue, w) = (Ok (Some (BackoffRestarted restart)), (?q, ?w))"
        using deadline pid True r(1) assms(3) by (cases event) (auto simp: start in_supervision_def)
      obtain child' where child': "bt_get (sv_children sv') ?cid = Some child'"
          "renewed ?reason (due ?reason child \<and> \<not> spent child) restarted_child child (world_processes w) child' t'"
        using crew_renewedD(2) [OF r(2) _ assms(5)] by auto
      have same: "pt_get t' pid = pt_get (world_processes w) pid"
        if "pt_get (world_processes w) pid \<noteq> None" "pid \<noteq> sc_pid child" for pid
        using that assms(5) by (intro crew_renewedD(3) [OF r(2)] known_le [OF assms(1)]) (auto simp: known_def)
      have sv: "bt_get (sys_supervisors (world_supervision ?w)) ?sid = Some (record_supervision_restart ?cid ?reason restart sv')"
        "bt_get (sv_children (record_supervision_restart ?cid ?reason restart sv')) ?cid = Some child'"
        using child'(1) by simp_all
      have "\<exists>sv' child'. bt_get (sys_supervisors (world_supervision ?w)) ?sid = Some sv'
         \<and> bt_get (sv_children sv') ?cid = Some child'
         \<and> Ok (Some (BackoffRestarted restart)) = (Ok (Some (BackoffRestarted (one_outcome ?reason child child')))
             :: (vm_error, _) outcome)
         \<and> renewed ?reason (due ?reason child \<and> \<not> spent child) restarted_child child (world_processes w) child' (world_processes ?w)
         \<and> (\<forall>pid. pt_get (world_processes w) pid \<noteq> None \<longrightarrow> pid \<noteq> sc_pid child
              \<longrightarrow> pt_get (world_processes ?w) pid = pt_get (world_processes w) pid)
         \<and> system_ok (world_processes ?w) (world_supervision ?w)"
        by (rule exI, rule exI [of _ child'], rule conjI, rule sv(1), rule conjI, rule sv(2))
          (use r(3,4) child' same in simp)
      then show ?thesis unfolding run prod.case using gone again deadline True by simp
    qed
  qed
qed

section \<open>Graceful shutdown\<close>

text \<open>C25: A shutdown deadline is enforced, and only against the child it was set for. When it passes,
  the entry is removed, so that any later event of the timer changes nothing. A child that has
  another process by then is reported stale and nothing else changes. A child that has exited by
  itself is not ended again: the outcome is exactly what restart_child does and answers for this
  child of this supervisor and the child's own reason, its process staying as it was. A child that
  is still alive is ended with the reason that its timeout passed, no other process changing, and
  from there the outcome is exactly what restart_child does and answers for that reason. In each
  case the restart cannot fail, the supervisor tree stays consistent and the timers stay.\<close>

theorem shutdown_deadline_enforced:
  assumes "pt_ok Q contents capacity (world_processes w)" and "system_ok (world_processes w) (world_supervision w)"
    and "deadline_passed event" and "bt_get (sq_pending queue) (event_timer_id event) = Some pending"
    and "bt_get (sys_supervisors (world_supervision w)) (pending_shutdown_supervisor_id pending) = Some sv"
    and "bt_get (sv_children sv) (pending_shutdown_child_id pending) = Some child"
    and "length (sv_child_order sv) \<le> pt_room (world_processes w)"
    and "pt_get (world_processes w) (sc_pid child) = Some p"
  shows "case shutdown_handle_timer_event Q event (queue, w) of (r, (queue', w')) \<Rightarrow>
      bt_get (sq_pending queue') (event_timer_id event) = None
    \<and> (\<forall>event' w2. event_timer_id event' = event_timer_id event
        \<longrightarrow> shutdown_handle_timer_event Q event' (queue', w2) = (Ok None, (queue', w2)))
    \<and> system_ok (world_processes w') (world_supervision w') \<and> world_timers w' = world_timers w
    \<and> (if sc_pid child \<noteq> pending_shutdown_pid pending then w' = w
         \<and> r = Ok (Some (ShutdownStale (event_timer_id event) (pending_shutdown_pid pending) (sc_pid child)))
       else case proc_state p of
         Exited reason \<Rightarrow> (\<exists>restart sys' t'.
             restart_child Q (pending_shutdown_supervisor_id pending) (pending_shutdown_child_id pending) reason
               (world_supervision w, world_processes w) = (Ok restart, (sys', t'))
           \<and> r = Ok (Some (ShutdownExited (event_timer_id event) reason restart))
           \<and> w' = w\<lparr> world_supervision := sys', world_processes := t' \<rparr>
           \<and> pt_get t' (sc_pid child) = Some p)
       | _ \<Rightarrow> (\<exists>t1 restart sys' t'.
             pt_get t1 = (pt_get (world_processes w))(sc_pid child
               \<mapsto> snd (proc_exit (ShutdownTimeout (pending_shutdown_timeout_ms pending)) p))
           \<and> pt_exit_process (sc_pid child) (ShutdownTimeout (pending_shutdown_timeout_ms pending)) (world_processes w)
               = (Ok (proc_resource_handles p), t1)
           \<and> restart_child Q (pending_shutdown_supervisor_id pending) (pending_shutdown_child_id pending)
               (ShutdownTimeout (pending_shutdown_timeout_ms pending)) (world_supervision w, t1) = (Ok restart, (sys', t'))
           \<and> r = Ok (Some (ShutdownTimedOut (event_timer_id event) (sc_pid child)
               (pending_shutdown_timeout_ms pending) restart))
           \<and> w' = w\<lparr> world_supervision := sys', world_processes := t' \<rparr>
           \<and> pt_get t' (sc_pid child) = Some (snd (proc_exit (ShutdownTimeout (pending_shutdown_timeout_ms pending)) p))))"
proof -
  let ?timer = "event_timer_id event" and ?sid = "pending_shutdown_supervisor_id pending"
    and ?cid = "pending_shutdown_child_id pending" and ?t = "world_processes w" and ?sys = "world_supervision w"
  let ?q = "queue\<lparr> sq_pending := bt_remove ?timer (sq_pending queue),
      sq_pending_children := bt_remove (?sid, ?cid) (sq_pending_children queue) \<rparr>"
  have gone: "bt_get (sq_pending ?q) ?timer = None" by simp
  have again: "\<forall>event' w2. event_timer_id event' = ?timer
      \<longrightarrow> shutdown_handle_timer_event Q event' (?q, w2) = (Ok None, (?q, w2))"
    by (simp add: shutdown_handle_timer_event_def remove_pending_def Let_def)
  have taken: "shutdown_handle_timer_event Q event (queue, w) = shutdown_deadline Q ?timer pending (?q, w)"
    using assms(3,4) by (cases event) (auto simp: shutdown_handle_timer_event_def remove_pending_def Let_def)
  have cid: "bt_contains (sv_children sv) ?cid" using assms(6) by (simp add: bt_contains_def)
  have pid: "shutdown_child_pid ?sys ?sid ?cid = Ok (sc_pid child)"
    using assms(5,6) by (simp add: shutdown_child_pid_def child_shutdown_config_def bind_out_def ok_or_def)
  note start = shutdown_deadline_def Let_def bind_st_def read_st_def return_st_def pid in_supervision_def in_processes_def
  have restarted: "\<exists>restart sys' t'. restart_child Q ?sid ?cid reason (?sys, t1) = (Ok restart, (sys', t'))
      \<and> system_ok t' sys' \<and> pt_get t' (sc_pid child) = Some x"
    if t1: "pt_ok Q contents capacity t1" "system_ok t1 ?sys" "pt_room t1 = pt_room ?t"
      and x: "pt_get t1 (sc_pid child) = Some x" "is_exited (proc_state x)" for t1 reason x
  proof -
    have room: "length (sv_child_order sv) \<le> pt_room t1" using assms(7) t1(3) by simp
    from restart_child_law [OF t1(1,2) assms(5) cid room, of reason] policy_keeps_exited [OF t1(1) _ x]
    show ?thesis by metis
  qed
  show ?thesis
  proof (cases "sc_pid child = pending_shutdown_pid pending")
    case False
    then have "shutdown_deadline Q ?timer pending (?q, w)
        = (Ok (Some (ShutdownStale ?timer (pending_shutdown_pid pending) (sc_pid child))), (?q, w))"
      by (simp add: start)
    then show ?thesis using gone again assms(2) False by (simp add: taken)
  next
    case same: True
    show ?thesis
    proof (cases "is_exited (proc_state p)")
      case True
      then obtain reason where reason: "proc_state p = Exited reason" by (cases "proc_state p") auto
      obtain restart sys' t' where r: "restart_child Q ?sid ?cid reason (?sys, ?t) = (Ok restart, (sys', t'))"
          "system_ok t' sys'" "pt_get t' (sc_pid child) = Some p"
        using restarted [OF assms(1,2) refl assms(8) True] by blast
      have "shutdown_deadline Q ?timer pending (?q, w) = (Ok (Some (ShutdownExited ?timer reason restart)),
          (?q, w\<lparr> world_supervision := sys', world_processes := t' \<rparr>))"
        using same reason assms(8) r(1) by (simp add: start)
      then show ?thesis using gone again r same reason by (simp add: taken)
    next
      case False
      let ?reason = "ShutdownTimeout (pending_shutdown_timeout_ms pending)"
      obtain t1 where t1: "pt_exit_process (sc_pid child) ?reason ?t = (Ok (proc_resource_handles p), t1)"
          "pt_ok Q contents capacity t1" "pt_get t1 = (pt_get ?t)(sc_pid child \<mapsto> snd (proc_exit ?reason p))"
        by (rule exit_process_law [OF assms(1,8) False])
      have "children_ok t1 x" if "children_ok ?t x" for x
        using children_ok_known [OF that, of t1] by (auto simp: known_def t1(3))
      then have sys1: "system_ok t1 ?sys" using assms(2) unfolding system_ok_def by blast
      have room1: "pt_room t1 = pt_room ?t" by (rule pt_room_exit [OF t1(1)])
      have dead: "pt_get t1 (sc_pid child) = Some (snd (proc_exit ?reason p))" "is_exited (proc_state (snd (proc_exit ?reason p)))"
        by (simp_all add: t1(3))
      obtain restart sys' t' where r: "restart_child Q ?sid ?cid ?reason (?sys, t1) = (Ok restart, (sys', t'))"
          "system_ok t' sys'" "pt_get t' (sc_pid child) = Some (snd (proc_exit ?reason p))"
        using restarted [OF t1(2) sys1 room1 dead] by blast
      have "shutdown_deadline Q ?timer pending (?q, w)
          = (Ok (Some (ShutdownTimedOut ?timer (sc_pid child) (pending_shutdown_timeout_ms pending) restart)),
             (?q, w\<lparr> world_supervision := sys', world_processes := t' \<rparr>))"
        using same t1(1) r(1) assms(8) False by (cases "proc_state p") (auto simp: start)
      moreover have "\<exists>t2 restart2 sys2 t3. pt_get t2 = (pt_get ?t)(sc_pid child \<mapsto> snd (proc_exit ?reason p))
           \<and> pt_exit_process (sc_pid child) ?reason ?t = (Ok (proc_resource_handles p), t2)
           \<and> restart_child Q ?sid ?cid ?reason (?sys, t2) = (Ok restart2, (sys2, t3))
           \<and> Ok (Some (ShutdownTimedOut ?timer (sc_pid child) (pending_shutdown_timeout_ms pending) restart))
               = Ok (Some (ShutdownTimedOut ?timer (sc_pid child) (pending_shutdown_timeout_ms pending) restart2))
           \<and> w\<lparr> world_supervision := sys', world_processes := t' \<rparr> = w\<lparr> world_supervision := sys2, world_processes := t3 \<rparr>
           \<and> pt_get t3 (sc_pid child) = Some (snd (proc_exit ?reason p))"
        by (rule exI [of _ t1], rule exI [of _ restart], rule exI [of _ sys'], rule exI [of _ t'])
          (simp add: t1(1,3) r(1,3))
      ultimately show ?thesis using gone again r(2) same False by (cases "proc_state p") (simp_all add: taken)
    qed
  qed
qed

section \<open>Examples\<close>

definition sample_world :: "(VmMessage VmPublishedFragment list \<times> nat) world" where
  "sample_world = \<lparr> world_supervision = sample_system OneForOne, world_timers = timer_table_default,
     world_processes = sample_one \<rparr>"

definition sample_backoff :: VmSupervisionBackoffQueue where
  "sample_backoff = \<lparr> bq_timer_owner = None,
     bq_pending = [(7, \<lparr> pending_restart_supervisor_id = 2, pending_restart_child_id = ''worker'',
        pending_restart_failed_pid = 1, pending_restart_reason = Killed \<rparr>)],
     bq_pending_children = [((2, ''worker''), 7)] \<rparr>"

definition sample_shutdown :: VmSupervisionShutdownQueue where
  "sample_shutdown = \<lparr> sq_timer_owner = None,
     sq_pending = [(7, \<lparr> pending_shutdown_supervisor_id = 2, pending_shutdown_child_id = ''worker'',
        pending_shutdown_pid = 1, pending_shutdown_timeout_ms = 50 \<rparr>)],
     sq_pending_children = [((2, ''worker''), 7)] \<rparr>"

lemma sample_world_facts:
  "pt_ok list_queue fst snd (world_processes sample_world)"
  "system_ok (world_processes sample_world) (world_supervision sample_world)"
  "bt_get (sys_supervisors (world_supervision sample_world)) 2
     = Some (sample_supervisor 2 (Some 1) OneForOne [(''worker'', sample_child)])"
  "bt_get (sv_children (sample_supervisor 2 (Some 1) OneForOne [(''worker'', sample_child)])) ''worker'' = Some sample_child"
  "pt_get (world_processes sample_world) (sc_pid sample_child) = Some (new_process 1 None sample_source)"
  by (simp_all add: sample_world_def sample_one_facts sample_system_ok sample_get sample_children)
    (simp add: sample_child_def)

theorem deferred_restart_once_witness:
  "case backoff_handle_timer_event list_queue (Fired 7 9 OneShot) (sample_backoff, sample_world) of (r, (queue', w')) \<Rightarrow>
     (\<exists>restart. r = Ok (Some (BackoffRestarted restart)))
     \<and> backoff_handle_timer_event list_queue (Fired 7 9 OneShot) (queue', w') = (Ok None, (queue', w'))"
proof -
  let ?p = "\<lparr> pending_restart_supervisor_id = 2, pending_restart_child_id = ''worker'',
        pending_restart_failed_pid = 1, pending_restart_reason = Killed \<rparr>"
  have pending: "bt_get (bq_pending sample_backoff) (event_timer_id (Fired 7 9 OneShot)) = Some ?p"
    by (simp add: sample_backoff_def bt_get_Cons)
  have room: "0 < pt_room (world_processes sample_world)" using sample_one_room by (simp add: sample_world_def)
  have pid: "sc_pid sample_child = 1" by (simp add: sample_child_def)
  have sv: "bt_get (sys_supervisors (world_supervision sample_world)) (pending_restart_supervisor_id ?p)
      = Some (sample_supervisor 2 (Some 1) OneForOne [(''worker'', sample_child)])"
    "bt_get (sv_children (sample_supervisor 2 (Some 1) OneForOne [(''worker'', sample_child)])) (pending_restart_child_id ?p)
      = Some sample_child" by (simp_all add: sample_world_facts)
  from deferred_restart_once [OF sample_world_facts(1,2) pending sv room] show ?thesis
    by (auto simp: pid split: prod.splits)
qed

theorem shutdown_deadline_enforced_witness:
  "case shutdown_handle_timer_event list_queue (Fired 7 9 OneShot) (sample_shutdown, sample_world) of (r, (queue', w')) \<Rightarrow>
     (\<exists>restart. r = Ok (Some (ShutdownTimedOut 7 1 50 restart)))
     \<and> pt_get (world_processes w') 1 = Some (snd (proc_exit (ShutdownTimeout 50) (new_process 1 None sample_source)))"
proof -
  let ?p = "\<lparr> pending_shutdown_supervisor_id = 2, pending_shutdown_child_id = ''worker'',
        pending_shutdown_pid = 1, pending_shutdown_timeout_ms = 50 \<rparr>"
  have pending: "bt_get (sq_pending sample_shutdown) (event_timer_id (Fired 7 9 OneShot)) = Some ?p"
    by (simp add: sample_shutdown_def bt_get_Cons)
  have room: "length (sv_child_order (sample_supervisor 2 (Some 1) OneForOne [(''worker'', sample_child)]))
      \<le> pt_room (world_processes sample_world)" using sample_order by (simp add: sample_world_def)
  have sv: "bt_get (sys_supervisors (world_supervision sample_world)) (pending_shutdown_supervisor_id ?p)
      = Some (sample_supervisor 2 (Some 1) OneForOne [(''worker'', sample_child)])"
    "bt_get (sv_children (sample_supervisor 2 (Some 1) OneForOne [(''worker'', sample_child)])) (pending_shutdown_child_id ?p)
      = Some sample_child" by (simp_all add: sample_world_facts)
  have pid: "sc_pid sample_child = 1" by (simp add: sample_child_def)
  from shutdown_deadline_enforced [OF sample_world_facts(1,2) _ pending sv room sample_world_facts(5)] show ?thesis
    by (auto simp: pid new_process_def split: prod.splits)
qed

end
