(* ===== verification/Vm_Resource.thy ===== *)
theory Vm_Resource
  imports Accelerator_Contract
begin

text \<open>
  Native resources owned by processes: \<open>VmResourceTable\<close> of \<open>runtime/vm/resource.rs\<close> and its
  transfer between tables (\<open>resource/transfer.rs\<close>). A resource is a row of the table and a
  handle name in the record of its owner; every operation that moves ownership changes
  both. The operations take the resource table and the process table.
\<close>

section \<open>Data\<close>

type_synonym VmResourceId = u64

datatype VmResourceTransferPolicy = OwnerOnly | Transferable

record VmResourceDescriptor =
  descriptor_kind :: string
  descriptor_label :: string

record VmResourceRecord =
  res_id :: VmResourceId
  res_owner :: VmProcessId
  res_descriptor :: VmResourceDescriptor
  res_transfer_policy :: VmResourceTransferPolicy
  res_accelerator_handle :: "AcceleratorResourceHandle option"

record VmResourceSnapshot =
  rsnap_id :: VmResourceId
  rsnap_owner :: VmProcessId
  rsnap_kind :: string
  rsnap_label :: string
  rsnap_transfer_policy :: VmResourceTransferPolicy
  rsnap_accelerator_handle :: "AcceleratorResourceHandle option"

datatype VmResourceEvent =
    Registered VmResourceId VmProcessId
  | Transferred VmResourceId VmProcessId VmProcessId
  | Released VmResourceId VmProcessId
  | CleanedUpOnExit VmResourceId VmProcessId

record VmResourceTable =
  rt_next_id :: u64
  rt_resources :: "(VmResourceId, VmResourceRecord) btree"

type_synonym 'q with_resources = "VmResourceTable \<times> 'q VmProcessTable"

definition resource_table_default :: VmResourceTable where
  "resource_table_default = \<lparr> rt_next_id = 0, rt_resources = [] \<rparr>"

definition from_native_handle :: "u64 \<Rightarrow> (vm_error, VmResourceId) outcome" where
  "from_native_handle raw = ok_or (Msg ''native resource identity must be positive'' [])
     (if raw \<noteq> 0 then Some raw else None)"

definition resource_handle_name :: "VmResourceId \<Rightarrow> string" where
  "resource_handle_name resource = ''resource:'' @ show_u64 resource"

text \<open>An operation of the process table, run beside the resource table.\<close>

definition beside_resources :: "('q VmProcessTable, 'e, 'a) stateful
    \<Rightarrow> ('q with_resources, 'e, 'a) stateful" where
  "beside_resources f = (\<lambda>(resources, t). case f t of (r, t) \<Rightarrow> (r, (resources, t)))"

definition change_resources :: "(VmResourceTable \<Rightarrow> VmResourceTable) \<Rightarrow> ('q with_resources, 'e, unit) stateful" where
  "change_resources f = (\<lambda>(resources, t). (Ok (), (f resources, t)))"

definition update_process :: "VmProcessId \<Rightarrow> (VmProcess \<Rightarrow> VmProcess)
    \<Rightarrow> ('q VmProcessTable, vm_error, unit) stateful" where
  "update_process pid f = with_process_control_mutator pid (\<lambda>process. (Ok (), f process))"

section \<open>Checks\<close>

definition resource_ensure_live :: "'q VmProcessTable \<Rightarrow> VmProcessId \<Rightarrow> string
    \<Rightarrow> (vm_error, unit) outcome" where
  "resource_ensure_live t pid role = (case pt_get t pid of
     None \<Rightarrow> Err (Msg ''missing {role} process {}'' [AStr role, ANum pid])
   | Some process \<Rightarrow> if is_exited (proc_state process)
       then Err (Msg ''{role} process {} has exited'' [AStr role, ANum pid]) else Ok ())"

definition live_resource :: "VmResourceTable \<Rightarrow> VmResourceId \<Rightarrow> (vm_error, VmResourceRecord) outcome" where
  "live_resource resources resource = ok_or (Msg ''stale native resource handle {}'' [ANum resource])
     (bt_get (rt_resources resources) resource)"

definition require_resource_owner :: "VmResourceRecord \<Rightarrow> VmResourceId \<Rightarrow> VmProcessId
    \<Rightarrow> (vm_error, unit) outcome" where
  "require_resource_owner record resource pid = (if res_owner record \<noteq> pid
     then Err (Msg ''resource {} is owned by process {}, not {}''
       [ANum resource, ANum (res_owner record), ANum pid])
     else Ok ())"

definition get_for_owner :: "VmResourceTable \<Rightarrow> VmProcessId \<Rightarrow> VmResourceId
    \<Rightarrow> (vm_error, VmResourceRecord) outcome" where
  "get_for_owner resources requester resource =
     bind_out (live_resource resources resource) (\<lambda>record.
     bind_out (require_resource_owner record resource requester) (\<lambda>_. Ok record))"

definition validate_transfer :: "VmResourceTable \<Rightarrow> 'q VmProcessTable \<Rightarrow> VmResourceId
    \<Rightarrow> VmProcessId \<Rightarrow> VmProcessId \<Rightarrow> (vm_error, unit) outcome" where
  "validate_transfer resources t resource source_pid target_pid =
     bind_out (resource_ensure_live t source_pid ''source'') (\<lambda>_.
     bind_out (resource_ensure_live t target_pid ''target'') (\<lambda>_.
     bind_out (live_resource resources resource) (\<lambda>record.
     bind_out (require_resource_owner record resource source_pid) (\<lambda>_.
       if res_transfer_policy record \<noteq> Transferable
       then Err (Msg ''resource {} cannot be transferred'' [ANum resource]) else Ok ()))))"

definition validate_release :: "VmResourceTable \<Rightarrow> 'q VmProcessTable \<Rightarrow> VmProcessId \<Rightarrow> VmResourceId
    \<Rightarrow> (vm_error, unit) outcome" where
  "validate_release resources t owner resource =
     bind_out (resource_ensure_live t owner ''owner'') (\<lambda>_.
     bind_out (live_resource resources resource) (\<lambda>record.
       require_resource_owner record resource owner))"

section \<open>Operations\<close>

definition resource_register :: "VmProcessId \<Rightarrow> VmResourceDescriptor \<Rightarrow> VmResourceTransferPolicy
    \<Rightarrow> ('q with_resources, vm_error, VmResourceEvent) stateful" where
  "resource_register owner descriptor transfer_policy =
     bind_st (read_st (\<lambda>(resources, t). resource_ensure_live t owner ''owner'')) (\<lambda>_.
     bind_st (change_resources (\<lambda>resources.
         resources\<lparr> rt_next_id := saturating_add (rt_next_id resources) 1 \<rparr>)) (\<lambda>_.
     bind_st (read_st (\<lambda>(resources, t). Ok (rt_next_id resources))) (\<lambda>resource.
     bind_st (beside_resources (update_process owner
         (proc_add_resource_handle (resource_handle_name resource)))) (\<lambda>_.
     bind_st (change_resources (\<lambda>resources. resources\<lparr> rt_resources := bt_insert resource
         \<lparr> res_id = resource, res_owner = owner, res_descriptor = descriptor,
           res_transfer_policy = transfer_policy, res_accelerator_handle = None \<rparr>
         (rt_resources resources) \<rparr>)) (\<lambda>_.
     return_st (Registered resource owner))))))"

fun accelerator_class_name :: "AcceleratorResourceClass \<Rightarrow> string" where
  "accelerator_class_name DeviceContext = ''device-context''"
| "accelerator_class_name Allocation = ''allocation''"
| "accelerator_class_name Stream = ''stream''"
| "accelerator_class_name Event = ''event''"
| "accelerator_class_name Module = ''module''"
| "accelerator_class_name Kernel = ''kernel''"
| "accelerator_class_name Graph = ''graph''"
| "accelerator_class_name Communicator = ''communicator''"
| "accelerator_class_name ImportedTensor = ''imported-tensor''"

definition accelerator_label :: "AcceleratorResourceHandle \<Rightarrow> string" where
  "accelerator_label handle = accelerator_class_name (ahandle_class handle) @ '':''
     @ show_u64 (resource_slot (ahandle_id handle)) @ '':''
     @ show_u64 (resource_generation (ahandle_id handle))"

definition register_accelerator :: "VmProcessId \<Rightarrow> AcceleratorResourceHandle
    \<Rightarrow> ('q with_resources, vm_error, VmResourceEvent) stateful" where
  "register_accelerator owner handle =
     bind_st (read_st (\<lambda>_. map_err (\<lambda>error. Msg ''error[accelerator.resource_handle]: {error}''
         [AStr (accelerator_error_text error)]) (validate_resource_handle handle))) (\<lambda>_.
     bind_st (read_st (\<lambda>_. case ahandle_role handle of
         Owned _ \<Rightarrow> Ok ()
       | Borrowed _ _ \<Rightarrow> Err (Msg
           ''error[accelerator.resource_handle]: borrowed handle escaped package dispatch'' []))) (\<lambda>_.
     bind_st (resource_register owner \<lparr> descriptor_kind = ''accelerator'',
         descriptor_label = accelerator_label handle \<rparr> OwnerOnly) (\<lambda>event.
     case event of
       Registered resource _ \<Rightarrow> (\<lambda>(resources, t). case bt_get (rt_resources resources) resource of
           None \<Rightarrow> (Panic ''registered accelerator resource remains live'', (resources, t))
         | Some record \<Rightarrow> (Ok event, (resources\<lparr> rt_resources := bt_insert resource
             (record\<lparr> res_accelerator_handle := Some handle \<rparr>) (rt_resources resources) \<rparr>, t)))
     | _ \<Rightarrow> read_st (\<lambda>_. Panic ''resource registration returns a registered event''))))"

definition resource_transfer :: "VmResourceId \<Rightarrow> VmProcessId \<Rightarrow> VmProcessId
    \<Rightarrow> ('q with_resources, vm_error, VmResourceEvent) stateful" where
  "resource_transfer resource source_pid target_pid =
     bind_st (read_st (\<lambda>(resources, t). validate_transfer resources t resource source_pid target_pid)) (\<lambda>_.
     bind_st (read_st (\<lambda>(resources, t). case bt_get (rt_resources resources) resource of
         None \<Rightarrow> Panic ''resource was validated before transfer mutation'' | Some record \<Rightarrow> Ok record)) (\<lambda>record.
     let handle = resource_handle_name resource in
     bind_st (beside_resources (update_process source_pid (proc_remove_resource_handle handle))) (\<lambda>_.
     bind_st (beside_resources (update_process target_pid (proc_add_resource_handle handle))) (\<lambda>_.
     bind_st (change_resources (\<lambda>resources. resources\<lparr> rt_resources := bt_insert resource
         (record\<lparr> res_owner := target_pid \<rparr>) (rt_resources resources) \<rparr>)) (\<lambda>_.
     return_st (Transferred resource source_pid target_pid))))))"

definition resource_release :: "VmProcessId \<Rightarrow> VmResourceId
    \<Rightarrow> ('q with_resources, vm_error, VmResourceEvent) stateful" where
  "resource_release owner resource =
     bind_st (read_st (\<lambda>(resources, t). validate_release resources t owner resource)) (\<lambda>_.
     bind_st (change_resources (\<lambda>resources.
         resources\<lparr> rt_resources := bt_remove resource (rt_resources resources) \<rparr>)) (\<lambda>_.
     bind_st (beside_resources (update_process owner
         (proc_remove_resource_handle (resource_handle_name resource)))) (\<lambda>_.
     return_st (Released resource owner))))"

definition owned_resource_ids :: "VmResourceTable \<Rightarrow> VmProcessId \<Rightarrow> VmResourceId list" where
  "owned_resource_ids resources owner =
     map fst (filter (\<lambda>e. res_owner (snd e) = owner) (rt_resources resources))"

fun cleanup_ids :: "VmResourceId list \<Rightarrow> VmResourceTable \<Rightarrow> VmResourceEvent list \<times> VmResourceTable" where
  "cleanup_ids [] resources = ([], resources)"
| "cleanup_ids (resource # ids) resources = (case bt_get (rt_resources resources) resource of
     None \<Rightarrow> cleanup_ids ids resources
   | Some record \<Rightarrow>
       (case cleanup_ids ids (resources\<lparr> rt_resources := bt_remove resource (rt_resources resources) \<rparr>) of
          (events, resources) \<Rightarrow> (CleanedUpOnExit resource (res_owner record) # events, resources)))"

definition cleanup_owner :: "VmProcessId \<Rightarrow> VmResourceTable \<Rightarrow> VmResourceEvent list \<times> VmResourceTable" where
  "cleanup_owner owner resources = cleanup_ids (owned_resource_ids resources owner) resources"

text \<open>The outcome of the change of the process is discarded; a panic in it is not.\<close>

definition cleanup_owner_handles :: "VmProcessId
    \<Rightarrow> ('q with_resources, vm_error, VmResourceEvent list) stateful" where
  "cleanup_owner_handles owner = (\<lambda>(resources, t).
     let owned_ids = map res_id (filter (\<lambda>record. res_owner record = owner) (bt_values (rt_resources resources)))
     in case cleanup_owner owner resources of (events, resources) \<Rightarrow>
       if pt_get t owner = None then (Ok events, (resources, t))
       else case update_process owner (fold (\<lambda>resource. proc_remove_resource_handle
              (resource_handle_name resource)) owned_ids) t of
           (Panic p, t) \<Rightarrow> (Panic p, (resources, t))
         | (_, t) \<Rightarrow> (Ok events, (resources, t)))"

definition resource_snapshot :: "VmResourceRecord \<Rightarrow> VmResourceSnapshot" where
  "resource_snapshot record = \<lparr> rsnap_id = res_id record, rsnap_owner = res_owner record,
     rsnap_kind = descriptor_kind (res_descriptor record),
     rsnap_label = descriptor_label (res_descriptor record),
     rsnap_transfer_policy = res_transfer_policy record,
     rsnap_accelerator_handle = res_accelerator_handle record \<rparr>"

definition resource_snapshots :: "VmResourceTable \<Rightarrow> VmResourceSnapshot list" where
  "resource_snapshots resources = map resource_snapshot (bt_values (rt_resources resources))"

definition snapshots_for_owner :: "VmResourceTable \<Rightarrow> VmProcessId \<Rightarrow> VmResourceSnapshot list" where
  "snapshots_for_owner resources owner =
     map resource_snapshot (filter (\<lambda>record. res_owner record = owner) (bt_values (rt_resources resources)))"

section \<open>Transfer between tables\<close>

record VmResourceTransfer =
  rtransfer_owner :: VmProcessId
  rtransfer_records :: "VmResourceRecord list"
  rtransfer_identity_watermark :: u64

definition rtransfer_ids :: "VmResourceTransfer \<Rightarrow> u64 list" where
  "rtransfer_ids transfer = map res_id (rtransfer_records transfer)"

fun take_records :: "VmResourceId list \<Rightarrow> (VmResourceTable, vm_error, VmResourceRecord list) stateful" where
  "take_records [] = return_st []"
| "take_records (resource # ids) = (\<lambda>resources. case bt_get (rt_resources resources) resource of
     None \<Rightarrow> (Panic ''inventoried owner resource remains present'', resources)
   | Some record \<Rightarrow> bind_st (take_records ids) (\<lambda>records. return_st (record # records))
       (resources\<lparr> rt_resources := bt_remove resource (rt_resources resources) \<rparr>))"

definition detach_owner_resources :: "VmProcessId
    \<Rightarrow> (VmResourceTable, vm_error, VmResourceTransfer) stateful" where
  "detach_owner_resources owner =
     bind_st (read_st (\<lambda>resources. Ok (owned_resource_ids resources owner))) (\<lambda>identities.
     bind_st (take_records identities) (\<lambda>records.
     read_st (\<lambda>resources. Ok \<lparr> rtransfer_owner = owner, rtransfer_records = records,
       rtransfer_identity_watermark = rt_next_id resources \<rparr>)))"

fun validate_import_records :: "VmResourceTable \<Rightarrow> VmProcessId \<Rightarrow> VmResourceRecord list
    \<Rightarrow> (vm_error, unit) outcome" where
  "validate_import_records resources owner [] = Ok ()"
| "validate_import_records resources owner (record # records) =
     (if res_owner record \<noteq> owner then Err (Msg ''resource transfer contains a cross-actor record'' [])
      else if bt_contains (rt_resources resources) (res_id record) then
        Err (Msg ''resource transfer destination already contains resource {}'' [ANum (res_id record)])
      else validate_import_records resources owner records)"

definition validate_resource_import :: "VmResourceTable \<Rightarrow> VmResourceTransfer \<Rightarrow> (vm_error, unit) outcome" where
  "validate_resource_import resources transfer =
     (if rtransfer_owner transfer = 0 then
        Err (Msg ''resource transfer owner identity must be nonzero'' [])
      else validate_import_records resources (rtransfer_owner transfer) (rtransfer_records transfer))"

definition import_resource_transfer :: "VmResourceTransfer
    \<Rightarrow> (VmResourceTable, vm_error \<times> VmResourceTransfer, unit) stateful" where
  "import_resource_transfer transfer resources =
     (case validate_resource_import resources transfer of
        Err reason \<Rightarrow> (Err (reason, transfer), resources)
      | Panic p \<Rightarrow> (Panic p, resources)
      | Ok _ \<Rightarrow> (Ok (), resources
          \<lparr> rt_next_id := max (rt_next_id resources) (rtransfer_identity_watermark transfer),
            rt_resources := fold (\<lambda>record. bt_insert (res_id record) record)
              (rtransfer_records transfer) (rt_resources resources) \<rparr>))"

end
