(* ===== verification/Vm_Memory.thy ===== *)
theory Vm_Memory
  imports Vm_Resource
begin

text \<open>
  The logical heap of the processes: \<open>VmMemoryAccountant\<close> of \<open>runtime/vm/memory.rs\<close> with the
  size of values (\<open>memory/value_size.rs\<close>), shared allocations (\<open>memory/shared.rs\<close>),
  collection (\<open>memory/collection.rs\<close>) and mailbox checkpoints (\<open>memory/checkpoint.rs\<close>). The
  heap bytes of a process are a field of its record; the accountant holds the limits, the
  metrics and who owns which resource and shared allocation. Its operations take the
  accountant and the process table, and the resource table where resources are concerned.
\<close>

section \<open>The size of values\<close>

datatype VmValueSizeError = SizeOverflow

definition size_error_text :: "VmValueSizeError \<Rightarrow> vm_error" where
  "size_error_text error = (case error of SizeOverflow \<Rightarrow>
     Msg ''error[vm_memory_value_size_overflow]: logical VM value size exceeds usize'' [])"

definition LOGICAL_VALUE_SLOT_BYTES :: nat where "LOGICAL_VALUE_SLOT_BYTES = 8"
definition LOGICAL_SEQUENCE_HEADER_BYTES :: nat where "LOGICAL_SEQUENCE_HEADER_BYTES = 16"
definition LOGICAL_STRING_HEADER_BYTES :: nat where "LOGICAL_STRING_HEADER_BYTES = 16"

definition checked_add_size :: "nat \<Rightarrow> usize \<Rightarrow> (VmValueSizeError, usize) outcome" where
  "checked_add_size bytes used = (if unat used + bytes < 2 ^ 64 then Ok (used + of_nat bytes)
     else Err SizeOverflow)"

definition add_sequence_storage :: "nat \<Rightarrow> usize \<Rightarrow> (VmValueSizeError, usize) outcome" where
  "add_sequence_storage slots used =
     bind_out (checked_add_size LOGICAL_SEQUENCE_HEADER_BYTES used) (\<lambda>used.
       if slots * LOGICAL_VALUE_SLOT_BYTES < 2 ^ 64
       then checked_add_size (slots * LOGICAL_VALUE_SLOT_BYTES) used else Err SizeOverflow)"

definition add_logical_string :: "string \<Rightarrow> usize \<Rightarrow> (VmValueSizeError, usize) outcome" where
  "add_logical_string s used =
     bind_out (checked_add_size LOGICAL_STRING_HEADER_BYTES used) (checked_add_size (length s))"

fun add_field_names :: "(string \<times> ReplValue) list \<Rightarrow> usize \<Rightarrow> (VmValueSizeError, usize) outcome" where
  "add_field_names [] used = Ok used"
| "add_field_names ((field, _) # fs) used =
     bind_out (add_logical_string field used) (add_field_names fs)"

text \<open>One round of the loop: the bytes of the value itself, and the values it pushes.\<close>

fun charge_value :: "ReplValue \<Rightarrow> usize \<Rightarrow> (VmValueSizeError, usize) outcome" where
  "charge_value (VClosure descriptor captures) used =
     bind_out (checked_add_size 40 used) (\<lambda>used.
     bind_out (checked_add_size (24 * (length (closure_parameters descriptor)
         + length (closure_results descriptor) + length (closure_captures descriptor))) used)
       (add_sequence_storage (length captures)))"
| "charge_value VUnit used = Ok used"
| "charge_value (VBool _) used = checked_add_size 1 used"
| "charge_value (VInt _) used = checked_add_size 8 used"
| "charge_value (VFloat s) used = add_logical_string s used"
| "charge_value (VString s) used = add_logical_string s used"
| "charge_value (VAtom s) used = add_logical_string s used"
| "charge_value (VStringBytes bs) used =
     bind_out (checked_add_size LOGICAL_STRING_HEADER_BYTES used) (checked_add_size (length bs))"
| "charge_value (VBytes bs) used =
     bind_out (checked_add_size LOGICAL_SEQUENCE_HEADER_BYTES used) (checked_add_size (length bs))"
| "charge_value (VBitString bs _) used =
     bind_out (checked_add_size LOGICAL_SEQUENCE_HEADER_BYTES used) (\<lambda>used.
     bind_out (checked_add_size 8 used) (checked_add_size (length bs)))"
| "charge_value (VTuple items) used = add_sequence_storage (length items) used"
| "charge_value (VList items) used = add_sequence_storage (length items) used"
| "charge_value (VSet items) used = add_sequence_storage (length items) used"
| "charge_value (VRecord name fs) used =
     bind_out (add_logical_string name used) (\<lambda>used.
     bind_out (add_sequence_storage (length fs) used) (add_field_names fs))"
| "charge_value (VMap entries) used =
     (if length entries * 2 < 2 ^ 64 then add_sequence_storage (length entries * 2) used
      else Err SizeOverflow)"

fun pushed_values :: "ReplValue \<Rightarrow> ReplValue list" where
  "pushed_values (VClosure _ captures) = captures"
| "pushed_values (VTuple items) = items"
| "pushed_values (VList items) = items"
| "pushed_values (VSet items) = items"
| "pushed_values (VRecord _ fs) = map snd fs"
| "pushed_values (VMap entries) = concat (map (\<lambda>(key, v). [key, v]) entries)"
| "pushed_values _ = []"

lemma size_pushed: "sum_list (map (\<lambda>v. Suc (size v)) (pushed_values v)) \<le> size v"
proof -
  have items: "sum_list (map (\<lambda>v. Suc (size v)) vs) \<le> size_list size vs" for vs :: "ReplValue list"
    by (induction vs) auto
  have flds: "sum_list (map (\<lambda>v. Suc (size v)) (map snd fs)) \<le> size_list (size_prod (\<lambda>_. 0) size) fs"
    for fs :: "(string \<times> ReplValue) list"
    by (induction fs) auto
  have entries: "sum_list (map (\<lambda>v. Suc (size v)) (concat (map (\<lambda>(key, v). [key, v]) es)))
      \<le> size_list (size_prod size size) es"
    for es :: "(ReplValue \<times> ReplValue) list"
    by (induction es) auto
  show ?thesis
    using items flds entries by (cases v) (auto simp: le_SucI simp del: map_map)
qed

function value_bytes_loop :: "ReplValue list \<Rightarrow> usize \<Rightarrow> (VmValueSizeError, usize) outcome" where
  "value_bytes_loop pending used = (case vec_pop pending of
     None \<Rightarrow> Ok used
   | Some (v, pending) \<Rightarrow> (case charge_value v used of
       Ok used \<Rightarrow> value_bytes_loop (pending @ pushed_values v) used
     | Err e \<Rightarrow> Err e
     | Panic p \<Rightarrow> Panic p))"
  by pat_completeness auto
termination
proof (relation "measure (\<lambda>(pending, used). sum_list (map (\<lambda>v. Suc (size v)) pending))", simp)
  fix pending :: "ReplValue list" and used x v rest used'
  assume "vec_pop pending = Some x" "(v, rest) = x"
  then have "pending = rest @ [v]" by (auto simp: vec_pop_def split: if_splits)
  then show "((rest @ pushed_values v, used'), pending, used)
      \<in> measure (\<lambda>(pending, used). sum_list (map (\<lambda>v. Suc (size v)) pending))"
    using size_pushed [of v] by simp
qed

declare value_bytes_loop.simps [simp del]

definition logical_value_bytes :: "ReplValue \<Rightarrow> (VmValueSizeError, usize) outcome" where
  "logical_value_bytes v = value_bytes_loop [v] 0"

section \<open>The accountant\<close>

record VmMemoryLimits =
  lim_soft_bytes :: usize
  lim_hard_bytes :: usize

definition memory_limits_new :: "usize \<Rightarrow> usize \<Rightarrow> (vm_error, VmMemoryLimits) outcome" where
  "memory_limits_new soft hard =
     (if soft = 0 then Err (Msg ''VM memory soft limit must be greater than zero'' [])
      else if hard < soft then
        Err (Msg ''VM memory hard limit must be greater than or equal to soft limit'' [])
      else Ok \<lparr> lim_soft_bytes = soft, lim_hard_bytes = hard \<rparr>)"

datatype VmMemoryPressureOutcome = Accounted | SoftLimitExceeded | HardLimitRejected

record VmMemoryPressureDecision =
  pressure_pid :: u64
  pressure_requested_bytes :: usize
  pressure_previous_bytes :: usize
  pressure_projected_bytes :: usize
  pressure_outcome :: VmMemoryPressureOutcome

record VmSelectiveReceiveOutcome =
  receive_message :: "VmMessage option"
  receive_inspected_messages :: nat

record VmAccountedResourceOwnership =
  own_resource_id :: u64
  own_owner :: u64
  own_logical_bytes :: usize

record VmAccountedResourceDecision =
  rdecision_event :: "VmResourceEvent option"
  rdecision_pressure :: VmMemoryPressureDecision

type_synonym VmSharedAllocationId = u64

record VmAccountedProcessExit =
  mexit_resource_events :: "VmResourceEvent list"
  mexit_released_shared_allocations :: "VmSharedAllocationId list"
  mexit_remaining_cleanup_handles :: "string list"

datatype VmSharedAllocationKind =
    Binary | NativeBoundaryBuffer | ProtocolBuffer | ResponseBuffer | TemplateOutput

record VmSharedAllocationDecision =
  sdecision_allocation_id :: "VmSharedAllocationId option"
  sdecision_pressure :: VmMemoryPressureDecision

record VmSharedAllocation =
  shared_id :: u64
  shared_kind :: VmSharedAllocationKind
  shared_logical_bytes :: usize
  shared_owners :: "u64 bset"

record VmProcessMemoryMetrics =
  mm_pid :: u64
  mm_current_bytes :: usize
  mm_high_water_bytes :: usize
  mm_collection_events :: u64
  mm_released_bytes :: usize

record VmMemoryAccountant =
  mem_limits :: VmMemoryLimits
  mem_processes :: "(u64, VmProcessMemoryMetrics) btree"
  mem_decisions :: "VmMemoryPressureDecision list"
  mem_resource_ownership :: "(u64, VmAccountedResourceOwnership) btree"
  mem_next_shared_allocation_id :: u64
  mem_shared_allocations :: "(u64, VmSharedAllocation) btree"

record VmMailboxPublication =
  published_message_id :: u64
  published_recipient :: VmProcessId
  published_accounted_bytes :: usize

record VmAccountedMessageSend =
  send_publication :: "VmMailboxPublication option"
  send_pressure :: VmMemoryPressureDecision

definition after_enqueue :: "u64 \<Rightarrow> VmProcessId \<Rightarrow> usize \<Rightarrow> VmMailboxPublication" where
  "after_enqueue message_id recipient accounted_bytes = \<lparr> published_message_id = message_id,
     published_recipient = recipient, published_accounted_bytes = accounted_bytes \<rparr>"

definition accountant_new :: "VmMemoryLimits \<Rightarrow> VmMemoryAccountant" where
  "accountant_new limits = \<lparr> mem_limits = limits, mem_processes = [], mem_decisions = [],
     mem_resource_ownership = [], mem_next_shared_allocation_id = 0, mem_shared_allocations = [] \<rparr>"

type_synonym 'q accounted = "VmMemoryAccountant \<times> 'q VmProcessTable"
type_synonym 'q accounted_resources = "VmMemoryAccountant \<times> VmResourceTable \<times> 'q VmProcessTable"

definition beside_memory :: "('q VmProcessTable, 'e, 'a) stateful \<Rightarrow> ('q accounted, 'e, 'a) stateful" where
  "beside_memory f = (\<lambda>(mem, t). case f t of (r, t) \<Rightarrow> (r, (mem, t)))"

definition change_memory :: "(VmMemoryAccountant \<Rightarrow> VmMemoryAccountant) \<Rightarrow> ('q accounted, 'e, unit) stateful" where
  "change_memory f = (\<lambda>(mem, t). (Ok (), (f mem, t)))"

definition accounting :: "('q accounted, 'e, 'a) stateful \<Rightarrow> ('q accounted_resources, 'e, 'a) stateful" where
  "accounting f = (\<lambda>(mem, resources, t). case f (mem, t) of (r, (mem, t)) \<Rightarrow> (r, (mem, resources, t)))"

definition on_resources :: "('q with_resources, 'e, 'a) stateful
    \<Rightarrow> ('q accounted_resources, 'e, 'a) stateful" where
  "on_resources f = (\<lambda>(mem, s). case f s of (r, s) \<Rightarrow> (r, (mem, s)))"

section \<open>Charging and releasing the heap\<close>

definition require_live_account :: "'q VmProcessTable \<Rightarrow> VmProcessId \<Rightarrow> (vm_error, unit) outcome" where
  "require_live_account t pid = (case pt_get t pid of
     None \<Rightarrow> Err (Msg ''missing process {} for VM memory accounting'' [ANum pid])
   | Some process \<Rightarrow> if is_exited (proc_state process)
       then Err (Msg ''exited process {} cannot own VM heap bytes'' [ANum pid]) else Ok ())"

definition with_live_process_mut :: "VmProcessId \<Rightarrow> (VmProcess \<Rightarrow> 'r \<times> VmProcess)
    \<Rightarrow> ('q VmProcessTable, vm_error, 'r) stateful" where
  "with_live_process_mut pid mutate =
     bind_st (read_st (\<lambda>t. require_live_account t pid)) (\<lambda>_.
       with_process_control_mutator pid (\<lambda>process. case mutate process of (r, process) \<Rightarrow> (Ok r, process)))"

definition metrics_default :: VmProcessMemoryMetrics where
  "metrics_default = \<lparr> mm_pid = 0, mm_current_bytes = 0, mm_high_water_bytes = 0,
     mm_collection_events = 0, mm_released_bytes = 0 \<rparr>"

definition change_metrics :: "VmProcessId \<Rightarrow> (VmProcessMemoryMetrics \<Rightarrow> VmProcessMemoryMetrics)
    \<Rightarrow> VmMemoryAccountant \<Rightarrow> VmMemoryAccountant" where
  "change_metrics pid f mem = mem\<lparr> mem_processes := bt_insert pid
     (f (case bt_get (mem_processes mem) pid of Some metrics \<Rightarrow> metrics | None \<Rightarrow> metrics_default))
     (mem_processes mem) \<rparr>"

definition project_heap :: "VmMemoryLimits \<Rightarrow> usize \<Rightarrow> VmProcess
    \<Rightarrow> (usize \<times> usize \<times> VmMemoryPressureOutcome \<times> usize) \<times> VmProcess" where
  "project_heap limits requested_bytes process =
     (let previous_bytes = proc_heap_bytes process;
          projected = checked_add previous_bytes requested_bytes;
          projected_bytes = (case projected of Some bytes \<Rightarrow> bytes | None \<Rightarrow> - 1);
          (outcome, process) =
            (if projected = None \<or> lim_hard_bytes limits < projected_bytes then (HardLimitRejected, process)
             else if lim_soft_bytes limits < projected_bytes
             then (SoftLimitExceeded, process\<lparr> proc_heap_bytes := projected_bytes \<rparr>)
             else (Accounted, process\<lparr> proc_heap_bytes := projected_bytes \<rparr>))
      in ((previous_bytes, projected_bytes, outcome, proc_heap_bytes process), process))"

definition account_heap :: "VmProcessId \<Rightarrow> usize
    \<Rightarrow> ('q accounted, vm_error, VmMemoryPressureDecision) stateful" where
  "account_heap pid requested_bytes =
     bind_st (read_st (\<lambda>(mem, t). Ok (mem_limits mem))) (\<lambda>limits.
     bind_st (beside_memory (with_live_process_mut pid (project_heap limits requested_bytes)))
       (\<lambda>(previous_bytes, projected_bytes, outcome, current_bytes).
     let decision = \<lparr> pressure_pid = pid, pressure_requested_bytes = requested_bytes,
           pressure_previous_bytes = previous_bytes, pressure_projected_bytes = projected_bytes,
           pressure_outcome = outcome \<rparr>
     in bind_st (change_memory (\<lambda>mem. (change_metrics pid (\<lambda>metrics. metrics\<lparr> mm_pid := pid,
            mm_current_bytes := current_bytes,
            mm_high_water_bytes := max (mm_high_water_bytes metrics) current_bytes \<rparr>) mem)
          \<lparr> mem_decisions := mem_decisions mem @ [decision] \<rparr>)) (\<lambda>_. return_st decision)))"

definition release_process_heap :: "usize \<Rightarrow> VmProcess \<Rightarrow> (usize \<times> usize) \<times> VmProcess" where
  "release_process_heap released_bytes process =
     (let actual_release = min released_bytes (proc_heap_bytes process);
          process = process\<lparr> proc_heap_bytes := proc_heap_bytes process - actual_release \<rparr>
      in ((actual_release, proc_heap_bytes process), process))"

definition release_heap :: "VmProcessId \<Rightarrow> usize \<Rightarrow> ('q accounted, vm_error, usize) stateful" where
  "release_heap pid released_bytes =
     bind_st (beside_memory (with_live_process_mut pid (release_process_heap released_bytes)))
       (\<lambda>(actual_release, current_bytes).
     bind_st (change_memory (change_metrics pid (\<lambda>metrics.
         let metrics = metrics\<lparr> mm_pid := pid, mm_current_bytes := current_bytes \<rparr>
         in if 0 < actual_release then metrics\<lparr>
              mm_collection_events := saturating_add (mm_collection_events metrics) 1,
              mm_released_bytes := saturating_add (mm_released_bytes metrics) actual_release \<rparr>
            else metrics))) (\<lambda>_. return_st actual_release))"

definition synchronize_process :: "VmProcessId \<Rightarrow> ('q accounted, vm_error, unit) stateful" where
  "synchronize_process pid =
     bind_st (read_st (\<lambda>(mem, t). ok_or (Msg ''missing process {} for VM memory accounting'' [ANum pid])
       (pt_get t pid))) (\<lambda>process.
     change_memory (change_metrics pid (\<lambda>metrics.
       let metrics = metrics\<lparr> mm_pid := pid \<rparr>;
           metrics = (if proc_heap_bytes process < mm_current_bytes metrics then
             let released = mm_current_bytes metrics - proc_heap_bytes process
             in metrics\<lparr> mm_collection_events := saturating_add (mm_collection_events metrics) 1,
                  mm_released_bytes := saturating_add (mm_released_bytes metrics) released \<rparr>
             else metrics)
       in metrics\<lparr> mm_current_bytes := proc_heap_bytes process,
            mm_high_water_bytes := max (mm_high_water_bytes metrics) (proc_heap_bytes process) \<rparr>)))"

definition reap_process_metrics :: "VmProcessId \<Rightarrow> (VmMemoryAccountant, vm_error, unit) stateful" where
  "reap_process_metrics pid mem =
     (if (case bt_get (mem_processes mem) pid of Some metrics \<Rightarrow> mm_current_bytes metrics \<noteq> 0 | None \<Rightarrow> False)
      then (Err (Msg ''cannot reap process {} with live VM memory'' [ANum pid]), mem)
      else (Ok (), mem\<lparr> mem_processes := bt_remove pid (mem_processes mem),
        mem_decisions := filter (\<lambda>decision. pressure_pid decision \<noteq> pid) (mem_decisions mem) \<rparr>))"

section \<open>Accounted messages\<close>

text \<open>The end all sends have in common: reserve the bytes, publish, and make the receipt.\<close>

definition reserve_then_send :: "VmProcessId \<Rightarrow> usize \<Rightarrow> ('q VmProcessTable, vm_error, u64) stateful
    \<Rightarrow> ('q accounted, vm_error, VmAccountedMessageSend) stateful" where
  "reserve_then_send recipient accounted_bytes send =
     bind_st (account_heap recipient accounted_bytes) (\<lambda>pressure.
       if pressure_outcome pressure = HardLimitRejected
       then return_st \<lparr> send_publication = None, send_pressure = pressure \<rparr>
       else bind_st (beside_memory send) (\<lambda>message_id.
         return_st \<lparr> send_publication = Some (after_enqueue message_id recipient accounted_bytes),
           send_pressure = pressure \<rparr>))"

definition measure_value :: "ReplValue \<Rightarrow> (vm_error, usize) outcome" where
  "measure_value payload = map_err size_error_text (logical_value_bytes payload)"

definition mem_send_message :: "'q queue_of \<Rightarrow> VmProcessId \<Rightarrow> VmProcessId \<Rightarrow> ReplValue \<Rightarrow> usize
    \<Rightarrow> ('q accounted, vm_error, VmAccountedMessageSend) stateful" where
  "mem_send_message Q sender recipient payload accounted_bytes =
     bind_st (read_st (\<lambda>(mem, t). validate_send t sender recipient)) (\<lambda>_.
       reserve_then_send recipient accounted_bytes (send_accounted Q sender recipient payload accounted_bytes))"

definition send_value_message :: "'q queue_of \<Rightarrow> VmProcessId \<Rightarrow> VmProcessId \<Rightarrow> ReplValue
    \<Rightarrow> ('q accounted, vm_error, VmAccountedMessageSend) stateful" where
  "send_value_message Q sender recipient payload =
     bind_st (read_st (\<lambda>_. measure_value payload)) (\<lambda>logical_bytes.
       mem_send_message Q sender recipient payload logical_bytes)"

definition send_typed_value_message :: "'q queue_of \<Rightarrow> VmProcessId \<Rightarrow> VmProcessId \<Rightarrow> ReplValue
    \<Rightarrow> TvmBoundaryType \<Rightarrow> ('q accounted, vm_error, VmAccountedMessageSend) stateful" where
  "send_typed_value_message Q sender recipient payload boundary_type =
     bind_st (read_st (\<lambda>(mem, t). validate_send t sender recipient)) (\<lambda>_.
     bind_st (read_st (\<lambda>_. measure_value payload)) (\<lambda>logical_bytes.
       reserve_then_send recipient logical_bytes
         (send_typed_accounted Q sender recipient payload boundary_type logical_bytes)))"

definition send_typed_managed_message :: "'q queue_of \<Rightarrow> VmProcessId \<Rightarrow> VmProcessId \<Rightarrow> VmManagedMailboxToken
    \<Rightarrow> TvmBoundaryType \<Rightarrow> ('q accounted, vm_error, VmAccountedMessageSend) stateful" where
  "send_typed_managed_message Q sender recipient fragment boundary_type =
     bind_st (read_st (\<lambda>(mem, t). validate_send t sender recipient)) (\<lambda>_.
     bind_st (read_st (\<lambda>_. if managed_sender fragment \<noteq> sender \<or> managed_receiver fragment \<noteq> recipient
         then Err (Msg ''error[vm_memory_managed_mailbox_owner]: managed mailbox fragment route mismatch'' [])
         else Ok ())) (\<lambda>_.
       let logical_bytes = managed_accounted_bytes fragment in
       reserve_then_send recipient logical_bytes
         (send_typed_managed_accounted Q sender recipient fragment boundary_type logical_bytes)))"

definition send_priority_value_message :: "'q queue_of \<Rightarrow> VmProcessId \<Rightarrow> VmProcessId \<Rightarrow> ReplValue
    \<Rightarrow> ('q accounted, vm_error, VmAccountedMessageSend) stateful" where
  "send_priority_value_message Q sender recipient payload =
     bind_st (read_st (\<lambda>(mem, t). validate_send t sender recipient)) (\<lambda>_.
     bind_st (read_st (\<lambda>_. measure_value payload)) (\<lambda>logical_bytes.
       reserve_then_send recipient logical_bytes
         (send_priority_accounted Q sender recipient payload logical_bytes)))"

definition release_received :: "VmProcessId \<Rightarrow> VmMessage option \<Rightarrow> ('q accounted, vm_error, unit) stateful" where
  "release_received recipient message = (case message of
     None \<Rightarrow> return_st ()
   | Some message \<Rightarrow> bind_st (release_heap recipient (msg_accounted_bytes message)) (\<lambda>_. return_st ()))"

definition mem_receive_message :: "VmProcessId \<Rightarrow> ('q accounted, vm_error, VmMessage option) stateful" where
  "mem_receive_message recipient =
     bind_st (beside_memory (with_live_process_mut recipient proc_receive_next)) (\<lambda>message.
     bind_st (release_received recipient message) (\<lambda>_. return_st message))"

text \<open>The predicate is called on the messages in order up to the first it accepts.\<close>

definition inspected_messages :: "(VmMessage \<Rightarrow> bool) \<Rightarrow> VmProcess \<Rightarrow> nat" where
  "inspected_messages predicate process = (case position predicate (proc_mailbox process) of
     Some index \<Rightarrow> Suc index | None \<Rightarrow> length (proc_mailbox process))"

definition selective_receive_message_with_scan :: "VmProcessId \<Rightarrow> (VmMessage \<Rightarrow> bool)
    \<Rightarrow> ('q accounted, vm_error, VmSelectiveReceiveOutcome) stateful" where
  "selective_receive_message_with_scan recipient predicate =
     bind_st (beside_memory (with_live_process_mut recipient (\<lambda>process.
         case proc_selective_receive predicate process of (message, process') \<Rightarrow>
           ((message, inspected_messages predicate process), process')))) (\<lambda>(message, inspected).
     bind_st (release_received recipient message) (\<lambda>_.
     return_st \<lparr> receive_message = message, receive_inspected_messages = inspected \<rparr>))"

definition selective_receive_message :: "VmProcessId \<Rightarrow> (VmMessage \<Rightarrow> bool)
    \<Rightarrow> ('q accounted, vm_error, VmMessage option) stateful" where
  "selective_receive_message recipient predicate =
     bind_st (selective_receive_message_with_scan recipient predicate) (\<lambda>outcome.
       return_st (receive_message outcome))"

end
