(* ===== verification/Memory_Ownership.thy ===== *)
theory Memory_Ownership
  imports Vm_Memory
begin

text \<open>
  What a process owns beside its mailbox, and is charged for: native resources, shared
  allocations (\<open>memory/shared.rs\<close>), the exit that gives all of it back, collection
  (\<open>memory/collection.rs\<close>), mailbox checkpoints (\<open>memory/checkpoint.rs\<close>) and the transfer of the
  accounts of a process between accountants (\<open>memory/transfer.rs\<close>).
\<close>

section \<open>Resources\<close>

definition mem_register_resource :: "VmProcessId \<Rightarrow> VmResourceDescriptor \<Rightarrow> VmResourceTransferPolicy \<Rightarrow> usize
    \<Rightarrow> ('q accounted_resources, vm_error, VmAccountedResourceDecision) stateful" where
  "mem_register_resource owner descriptor transfer_policy logical_bytes =
     bind_st (accounting (account_heap owner logical_bytes)) (\<lambda>pressure.
     if pressure_outcome pressure = HardLimitRejected
     then return_st \<lparr> rdecision_event = None, rdecision_pressure = pressure \<rparr>
     else (\<lambda>s. case on_resources (resource_register owner descriptor transfer_policy) s of
         (Err error, s) \<Rightarrow> bind_st (accounting (release_heap owner logical_bytes))
           (\<lambda>_. read_st (\<lambda>_. Err error)) s
       | (Panic p, s) \<Rightarrow> (Panic p, s)
       | (Ok event, (mem, s)) \<Rightarrow> (case event of
           Registered resource _ \<Rightarrow> (Ok \<lparr> rdecision_event = Some event, rdecision_pressure = pressure \<rparr>,
             (mem\<lparr> mem_resource_ownership := bt_insert resource
                \<lparr> own_resource_id = resource, own_owner = owner, own_logical_bytes = logical_bytes \<rparr>
                (mem_resource_ownership mem) \<rparr>, s))
         | _ \<Rightarrow> (Panic ''resource registration must return a registered event'', (mem, s)))))"

definition resource_memory_of :: "VmMemoryAccountant \<Rightarrow> VmResourceId \<Rightarrow> VmProcessId
    \<Rightarrow> (vm_error, VmAccountedResourceOwnership) outcome" where
  "resource_memory_of mem resource owner =
     bind_out (ok_or (Msg ''resource {} has no VM memory ownership record'' [ANum resource])
       (bt_get (mem_resource_ownership mem) resource)) (\<lambda>ownership.
     if own_owner ownership \<noteq> owner then Err (Msg ''resource {} memory is owned by process {}, not {}''
         [ANum resource, ANum (own_owner ownership), ANum owner])
     else Ok ownership)"

definition mem_transfer_resource :: "VmResourceId \<Rightarrow> VmProcessId \<Rightarrow> VmProcessId
    \<Rightarrow> ('q accounted_resources, vm_error, VmAccountedResourceDecision) stateful" where
  "mem_transfer_resource resource source_pid target_pid =
     bind_st (read_st (\<lambda>(mem, resources, t). validate_transfer resources t resource source_pid target_pid)) (\<lambda>_.
     bind_st (read_st (\<lambda>(mem, _). resource_memory_of mem resource source_pid)) (\<lambda>ownership.
     let charge = (if source_pid = target_pid then 0 else own_logical_bytes ownership) in
     bind_st (accounting (account_heap target_pid charge)) (\<lambda>pressure.
     if pressure_outcome pressure = HardLimitRejected
     then return_st \<lparr> rdecision_event = None, rdecision_pressure = pressure \<rparr>
     else (\<lambda>s. case on_resources (resource_transfer resource source_pid target_pid) s of
         (Err error, s) \<Rightarrow> bind_st (accounting (release_heap target_pid charge)) (\<lambda>_. read_st (\<lambda>_. Err error)) s
       | (Panic p, s) \<Rightarrow> (Panic p, s)
       | (Ok event, s) \<Rightarrow>
           if source_pid = target_pid
           then (Ok \<lparr> rdecision_event = Some event, rdecision_pressure = pressure \<rparr>, s)
           else bind_st (accounting (release_heap source_pid (own_logical_bytes ownership))) (\<lambda>_ (mem, s).
             case bt_get (mem_resource_ownership mem) resource of
               None \<Rightarrow> (Panic ''resource memory ownership was checked before transfer'', (mem, s))
             | Some record \<Rightarrow> (Ok \<lparr> rdecision_event = Some event, rdecision_pressure = pressure \<rparr>,
                 (mem\<lparr> mem_resource_ownership := bt_insert resource (record\<lparr> own_owner := target_pid \<rparr>)
                    (mem_resource_ownership mem) \<rparr>, s))) s))))"

definition mem_release_resource :: "VmProcessId \<Rightarrow> VmResourceId
    \<Rightarrow> ('q accounted_resources, vm_error, VmResourceEvent) stateful" where
  "mem_release_resource owner resource =
     bind_st (read_st (\<lambda>(mem, resources, t). validate_release resources t owner resource)) (\<lambda>_.
     bind_st (read_st (\<lambda>(mem, _). resource_memory_of mem resource owner)) (\<lambda>ownership.
     bind_st (on_resources (resource_release owner resource)) (\<lambda>event.
     bind_st (accounting (release_heap owner (own_logical_bytes ownership))) (\<lambda>_ (mem, s).
       (Ok event, (mem\<lparr> mem_resource_ownership := bt_remove resource (mem_resource_ownership mem) \<rparr>, s))))))"

section \<open>Shared allocations\<close>

definition register_shared_allocation :: "VmProcessId \<Rightarrow> VmSharedAllocationKind \<Rightarrow> usize
    \<Rightarrow> ('q accounted, vm_error, VmSharedAllocationDecision) stateful" where
  "register_shared_allocation owner kind logical_bytes =
     bind_st (read_st (\<lambda>(mem, t). ok_or (Msg ''VM shared allocation id overflow'' [])
       (checked_add (mem_next_shared_allocation_id mem) 1))) (\<lambda>next_id.
     bind_st (account_heap owner logical_bytes) (\<lambda>pressure.
     if pressure_outcome pressure = HardLimitRejected
     then return_st \<lparr> sdecision_allocation_id = None, sdecision_pressure = pressure \<rparr>
     else bind_st (change_memory (\<lambda>mem. mem\<lparr> mem_next_shared_allocation_id := next_id,
         mem_shared_allocations := bt_insert next_id \<lparr> shared_id = next_id, shared_kind = kind,
           shared_logical_bytes = logical_bytes, shared_owners = [owner] \<rparr> (mem_shared_allocations mem) \<rparr>))
       (\<lambda>_. return_st \<lparr> sdecision_allocation_id = Some next_id, sdecision_pressure = pressure \<rparr>)))"

definition owned_shared_allocation :: "VmMemoryAccountant \<Rightarrow> VmSharedAllocationId \<Rightarrow> VmProcessId
    \<Rightarrow> (vm_error, VmSharedAllocation) outcome" where
  "owned_shared_allocation mem allocation owner =
     bind_out (ok_or (Msg ''stale VM shared allocation {}'' [ANum allocation])
       (bt_get (mem_shared_allocations mem) allocation)) (\<lambda>record.
     if \<not> bs_contains (shared_owners record) owner
     then Err (Msg ''shared allocation {} is not owned by process {}'' [ANum allocation, ANum owner])
     else Ok record)"

definition retain_shared_allocation :: "VmSharedAllocationId \<Rightarrow> VmProcessId \<Rightarrow> VmProcessId
    \<Rightarrow> ('q accounted, vm_error, VmSharedAllocationDecision) stateful" where
  "retain_shared_allocation allocation current_owner new_owner =
     bind_st (read_st (\<lambda>(mem, t). require_live_account t current_owner)) (\<lambda>_.
     bind_st (read_st (\<lambda>(mem, t). require_live_account t new_owner)) (\<lambda>_.
     bind_st (read_st (\<lambda>(mem, t). owned_shared_allocation mem allocation current_owner)) (\<lambda>record.
     let logical_bytes = (if bs_contains (shared_owners record) new_owner then 0 else shared_logical_bytes record) in
     bind_st (account_heap new_owner logical_bytes) (\<lambda>pressure.
     if pressure_outcome pressure = HardLimitRejected
     then return_st \<lparr> sdecision_allocation_id = None, sdecision_pressure = pressure \<rparr>
     else (\<lambda>(mem, t). case bt_get (mem_shared_allocations mem) allocation of
         None \<Rightarrow> (Panic ''shared allocation was validated before retain mutation'', (mem, t))
       | Some record \<Rightarrow> (Ok \<lparr> sdecision_allocation_id = Some allocation, sdecision_pressure = pressure \<rparr>,
           (mem\<lparr> mem_shared_allocations := bt_insert allocation
              (record\<lparr> shared_owners := bs_insert new_owner (shared_owners record) \<rparr>)
              (mem_shared_allocations mem) \<rparr>, t)))))))"

text \<open>An owner leaves a shared allocation, and the last one out frees it.\<close>

definition drop_shared_owner :: "string \<Rightarrow> VmProcessId \<Rightarrow> VmSharedAllocationId
    \<Rightarrow> (VmMemoryAccountant, vm_error, bool) stateful" where
  "drop_shared_owner message owner allocation mem = (case bt_get (mem_shared_allocations mem) allocation of
     None \<Rightarrow> (Panic message, mem)
   | Some record \<Rightarrow>
       let record = record\<lparr> shared_owners := bs_remove owner (shared_owners record) \<rparr>;
           deallocated = (shared_owners record = [])
       in (Ok deallocated, mem\<lparr> mem_shared_allocations :=
            (if deallocated then bt_remove allocation (mem_shared_allocations mem)
             else bt_insert allocation record (mem_shared_allocations mem)) \<rparr>))"

fun drop_shared_owners :: "string \<Rightarrow> VmProcessId \<Rightarrow> VmSharedAllocationId list
    \<Rightarrow> (VmMemoryAccountant, vm_error, nat) stateful" where
  "drop_shared_owners message owner [] = return_st 0"
| "drop_shared_owners message owner (allocation # allocations) =
     bind_st (drop_shared_owner message owner allocation) (\<lambda>deallocated.
     bind_st (drop_shared_owners message owner allocations) (\<lambda>count.
       return_st (if deallocated then count + 1 else count)))"

definition on_accountant :: "(VmMemoryAccountant, 'e, 'a) stateful \<Rightarrow> (VmMemoryAccountant \<times> 's, 'e, 'a) stateful" where
  "on_accountant f = (\<lambda>(mem, s). case f mem of (r, mem) \<Rightarrow> (r, (mem, s)))"

definition release_shared_allocation :: "VmSharedAllocationId \<Rightarrow> VmProcessId
    \<Rightarrow> ('q accounted, vm_error, bool) stateful" where
  "release_shared_allocation allocation owner =
     bind_st (read_st (\<lambda>(mem, t). require_live_account t owner)) (\<lambda>_.
     bind_st (read_st (\<lambda>(mem, t). owned_shared_allocation mem allocation owner)) (\<lambda>record.
     bind_st (release_heap owner (shared_logical_bytes record)) (\<lambda>_.
       on_accountant (drop_shared_owner ''shared allocation was validated before release mutation''
         owner allocation))))"

fun bulk_release_bytes :: "VmMemoryAccountant \<Rightarrow> VmProcessId \<Rightarrow> VmSharedAllocationId list
    \<Rightarrow> VmSharedAllocationId list \<Rightarrow> usize \<Rightarrow> (vm_error, usize) outcome" where
  "bulk_release_bytes mem owner seen [] logical_bytes = Ok logical_bytes"
| "bulk_release_bytes mem owner seen (allocation # allocations) logical_bytes =
     (if allocation \<in> set seen
      then Err (Msg ''duplicate VM shared allocation {} in bulk release'' [ANum allocation])
      else bind_out (owned_shared_allocation mem allocation owner) (\<lambda>record.
        bind_out (ok_or (Msg ''VM shared allocation bulk release byte overflow'' [])
          (checked_add logical_bytes (shared_logical_bytes record))) (\<lambda>logical_bytes.
        bulk_release_bytes mem owner (allocation # seen) allocations logical_bytes)))"

definition release_shared_allocations :: "VmSharedAllocationId list \<Rightarrow> VmProcessId
    \<Rightarrow> ('q accounted, vm_error, nat) stateful" where
  "release_shared_allocations allocations owner =
     bind_st (read_st (\<lambda>(mem, t). require_live_account t owner)) (\<lambda>_.
     bind_st (read_st (\<lambda>(mem, t). bulk_release_bytes mem owner [] allocations 0)) (\<lambda>logical_bytes.
     bind_st (read_st (\<lambda>(mem, t). case pt_get t owner of
         None \<Rightarrow> Panic ''shared allocation owner was validated''
       | Some process \<Rightarrow> if proc_heap_bytes process < logical_bytes
           then Err (Msg ''process {} shared allocation bytes {} exceed accounted heap {}''
             [ANum owner, ASize logical_bytes, ASize (proc_heap_bytes process)])
           else Ok ())) (\<lambda>_.
     bind_st (release_heap owner logical_bytes) (\<lambda>_.
       on_accountant (drop_shared_owners
         ''bulk shared allocation release was validated before mutation'' owner allocations)))))"

fun shared_kind_text :: "VmSharedAllocationKind \<Rightarrow> string" where
  "shared_kind_text Binary = ''Binary''"
| "shared_kind_text NativeBoundaryBuffer = ''NativeBoundaryBuffer''"
| "shared_kind_text ProtocolBuffer = ''ProtocolBuffer''"
| "shared_kind_text ResponseBuffer = ''ResponseBuffer''"
| "shared_kind_text TemplateOutput = ''TemplateOutput''"

definition reclassify_shared_allocation :: "VmSharedAllocationId \<Rightarrow> VmProcessId \<Rightarrow> VmSharedAllocationKind
    \<Rightarrow> VmSharedAllocationKind \<Rightarrow> (VmMemoryAccountant, vm_error, unit) stateful" where
  "reclassify_shared_allocation allocation owner expected replacement =
     bind_st (read_st (\<lambda>mem. owned_shared_allocation mem allocation owner)) (\<lambda>record mem.
       if shared_kind record \<noteq> expected
       then (Err (Msg ''shared allocation {} has kind {:?}, expected {:?}''
         [ANum allocation, AStr (shared_kind_text (shared_kind record)), AStr (shared_kind_text expected)]), mem)
       else (Ok (), mem\<lparr> mem_shared_allocations := bt_insert allocation
         (record\<lparr> shared_kind := replacement \<rparr>) (mem_shared_allocations mem) \<rparr>))"

definition shared_allocation_kind :: "VmMemoryAccountant \<Rightarrow> VmSharedAllocationId \<Rightarrow> VmSharedAllocationKind option" where
  "shared_allocation_kind mem allocation = map_option shared_kind (bt_get (mem_shared_allocations mem) allocation)"

section \<open>Exit\<close>

fun sum_owned :: "vm_error \<Rightarrow> string \<Rightarrow> (u64 \<Rightarrow> usize option) \<Rightarrow> u64 list \<Rightarrow> usize \<Rightarrow> (vm_error, usize) outcome" where
  "sum_owned overflow missing bytes_of [] acc = Ok acc"
| "sum_owned overflow missing bytes_of (i # ids) acc = (case bytes_of i of
     None \<Rightarrow> Panic missing
   | Some bytes \<Rightarrow> bind_out (ok_or overflow (checked_add acc bytes)) (sum_owned overflow missing bytes_of ids))"

definition memory_resource_ids :: "VmMemoryAccountant \<Rightarrow> VmProcessId \<Rightarrow> u64 list" where
  "memory_resource_ids mem owner = map own_resource_id
     (filter (\<lambda>ownership. own_owner ownership = owner) (bt_values (mem_resource_ownership mem)))"

definition memory_shared_ids :: "VmMemoryAccountant \<Rightarrow> VmProcessId \<Rightarrow> u64 list" where
  "memory_shared_ids mem owner = map shared_id
     (filter (\<lambda>allocation. bs_contains (shared_owners allocation) owner) (bt_values (mem_shared_allocations mem)))"

definition exit_process_with_memory_cleanup :: "VmProcessId \<Rightarrow> VmExitReason
    \<Rightarrow> ('q accounted_resources, vm_error, VmAccountedProcessExit) stateful" where
  "exit_process_with_memory_cleanup owner reason =
     bind_st (read_st (\<lambda>(mem, resources, t). require_live_account t owner)) (\<lambda>_.
     bind_st (read_st (\<lambda>(mem, resources, t). Ok (map rsnap_id
         (filter (\<lambda>snapshot. rsnap_owner snapshot = owner) (resource_snapshots resources))))) (\<lambda>resource_ids.
     bind_st (read_st (\<lambda>(mem, resources, t). if resource_ids \<noteq> memory_resource_ids mem owner
         then Err (Msg ''process {} resource ownership graph mismatch: table {:?}, memory {:?}''
           (ANum owner # map ANum resource_ids @ map ANum (memory_resource_ids mem owner)))
         else Ok ())) (\<lambda>_.
     bind_st (read_st (\<lambda>(mem, _). sum_owned
         (Msg ''process {} resource memory cleanup overflow'' [ANum owner])
         ''resource ids and memory ownership were compared before cleanup''
         (\<lambda>i. map_option own_logical_bytes (bt_get (mem_resource_ownership mem) i)) resource_ids 0)) (\<lambda>logical_bytes.
     bind_st (read_st (\<lambda>(mem, _). Ok (memory_shared_ids mem owner))) (\<lambda>shared_ids.
     bind_st (read_st (\<lambda>(mem, _). sum_owned
         (Msg ''process {} shared allocation cleanup overflow'' [ANum owner])
         ''shared allocation id came from the active registry''
         (\<lambda>i. map_option shared_logical_bytes (bt_get (mem_shared_allocations mem) i)) shared_ids 0))
       (\<lambda>shared_logical.
     bind_st (read_st (\<lambda>_. ok_or (Msg ''process {} memory cleanup overflow'' [ANum owner])
         (checked_add logical_bytes shared_logical))) (\<lambda>released_logical_bytes.
     bind_st (on_resources (cleanup_owner_handles owner)) (\<lambda>resource_events.
     bind_st (accounting (release_heap owner released_logical_bytes)) (\<lambda>_.
     bind_st (accounting (change_memory (\<lambda>mem. mem\<lparr> mem_resource_ownership :=
         bt_remove_all resource_ids (mem_resource_ownership mem) \<rparr>))) (\<lambda>_.
     bind_st (on_accountant (drop_shared_owners
         ''shared allocation was collected from active registry'' owner shared_ids)) (\<lambda>_.
     bind_st (accounting (beside_memory (pt_exit_process owner reason))) (\<lambda>remaining_cleanup_handles.
     bind_st (accounting (synchronize_process owner)) (\<lambda>_.
     return_st \<lparr> mexit_resource_events = resource_events, mexit_released_shared_allocations = shared_ids,
       mexit_remaining_cleanup_handles = remaining_cleanup_handles \<rparr>)))))))))))))"

section \<open>Collection and checkpoints\<close>

record VmMemoryCollection =
  collection_pid :: VmProcessId
  collection_previous_bytes :: usize
  collection_protected_bytes :: usize
  collection_traced_value_bytes :: usize
  collection_retained_bytes :: usize
  collection_reclaimed_bytes :: usize

fun checked_owned_sum :: "vm_error \<Rightarrow> usize list \<Rightarrow> usize \<Rightarrow> (vm_error, usize) outcome" where
  "checked_owned_sum overflow [] acc = Ok acc"
| "checked_owned_sum overflow (bytes # rest) acc =
     bind_out (ok_or overflow (checked_add acc bytes)) (checked_owned_sum overflow rest)"

definition protected_process_bytes :: "VmMemoryAccountant \<Rightarrow> VmProcessId \<Rightarrow> usize \<Rightarrow> (vm_error, usize) outcome" where
  "protected_process_bytes mem pid mailbox_bytes =
     bind_out (checked_owned_sum (Msg ''process {} {kind} ownership byte overflow'' [ANum pid, AStr ''resource''])
       (map own_logical_bytes (filter (\<lambda>ownership. own_owner ownership = pid)
         (bt_values (mem_resource_ownership mem)))) 0) (\<lambda>resource_bytes.
     bind_out (checked_owned_sum
       (Msg ''process {} {kind} ownership byte overflow'' [ANum pid, AStr ''shared allocation''])
       (map shared_logical_bytes (filter (\<lambda>allocation. bs_contains (shared_owners allocation) pid)
         (bt_values (mem_shared_allocations mem)))) 0) (\<lambda>shared_bytes.
     ok_or (Msg ''process {} protected heap root byte overflow'' [ANum pid])
       (case checked_add mailbox_bytes resource_bytes of
          None \<Rightarrow> None | Some bytes \<Rightarrow> checked_add bytes shared_bytes)))"

definition collect_process_heap :: "VmProcessId \<Rightarrow> usize \<Rightarrow> ('q accounted, vm_error, VmMemoryCollection) stateful" where
  "collect_process_heap pid traced_value_bytes =
     bind_st (read_st (\<lambda>(mem, t). bind_out (require_live_account t pid) (\<lambda>_.
         ok_or (Msg ''missing process {} for VM memory accounting'' [ANum pid]) (pt_get t pid)))) (\<lambda>process.
     let previous_bytes = proc_heap_bytes process in
     bind_st (read_st (\<lambda>_. proc_mailbox_accounted_bytes process)) (\<lambda>mailbox_bytes.
     bind_st (read_st (\<lambda>(mem, t). protected_process_bytes mem pid mailbox_bytes)) (\<lambda>protected_bytes.
     bind_st (read_st (\<lambda>_. ok_or (Msg ''process {} collected heap retained byte overflow'' [ANum pid])
         (checked_add protected_bytes traced_value_bytes))) (\<lambda>retained_bytes.
     if previous_bytes < retained_bytes then
       read_st (\<lambda>_. Err (Msg ''process {} collected heap retains {} bytes from {} accounted bytes''
         [ANum pid, ASize retained_bytes, ASize previous_bytes]))
     else
       let reclaimed_bytes = previous_bytes - retained_bytes in
       bind_st (release_heap pid reclaimed_bytes) (\<lambda>_.
         return_st \<lparr> collection_pid = pid, collection_previous_bytes = previous_bytes,
           collection_protected_bytes = protected_bytes, collection_traced_value_bytes = traced_value_bytes,
           collection_retained_bytes = retained_bytes, collection_reclaimed_bytes = reclaimed_bytes \<rparr>)))))"

record VmAccountedMailboxRestore =
  restore_message_ids :: "u64 list"
  restore_pressure :: VmMemoryPressureDecision

fun measure_values :: "ReplValue list \<Rightarrow> (vm_error, (ReplValue \<times> usize) list) outcome" where
  "measure_values [] = Ok []"
| "measure_values (payload # payloads) = bind_out (measure_value payload) (\<lambda>logical_bytes.
     bind_out (measure_values payloads) (\<lambda>measured. Ok ((payload, logical_bytes) # measured)))"

fun send_measured :: "'q queue_of \<Rightarrow> VmProcessId \<Rightarrow> (ReplValue \<times> usize) list
    \<Rightarrow> ('q VmProcessTable, vm_error, u64 list) stateful" where
  "send_measured Q recipient [] = return_st []"
| "send_measured Q recipient ((payload, logical_bytes) # measured) =
     bind_st (send_accounted Q recipient recipient payload logical_bytes) (\<lambda>message_id.
     bind_st (send_measured Q recipient measured) (\<lambda>message_ids. return_st (message_id # message_ids)))"

definition restore_mailbox_checkpoint :: "'q queue_of \<Rightarrow> VmProcessId \<Rightarrow> ReplValue list
    \<Rightarrow> ('q accounted, vm_error, VmAccountedMailboxRestore) stateful" where
  "restore_mailbox_checkpoint Q recipient payloads =
     bind_st (read_st (\<lambda>(mem, t). validate_send t recipient recipient)) (\<lambda>_.
     bind_st (read_st (\<lambda>_. measure_values payloads)) (\<lambda>measured.
     bind_st (read_st (\<lambda>_. checked_owned_sum
         (Msg ''error[vm_memory_checkpoint_size_overflow]: mailbox checkpoint exceeds usize'' [])
         (map snd measured) 0)) (\<lambda>total_bytes.
     bind_st (account_heap recipient total_bytes) (\<lambda>pressure.
     if pressure_outcome pressure = HardLimitRejected
     then return_st \<lparr> restore_message_ids = [], restore_pressure = pressure \<rparr>
     else bind_st (beside_memory (send_measured Q recipient measured)) (\<lambda>message_ids.
       return_st \<lparr> restore_message_ids = message_ids, restore_pressure = pressure \<rparr>)))))"

section \<open>Transfer between accountants\<close>

record VmMemoryTransfer =
  mtransfer_owner :: VmProcessId
  mtransfer_limits :: VmMemoryLimits
  mtransfer_metrics :: "VmProcessMemoryMetrics option"
  mtransfer_decisions :: "VmMemoryPressureDecision list"
  mtransfer_resource_ownership :: "VmAccountedResourceOwnership list"
  mtransfer_shared_allocations :: "VmSharedAllocation list"
  mtransfer_shared_identity_watermark :: u64

definition transfer_current_bytes :: "VmMemoryTransfer \<Rightarrow> usize" where
  "transfer_current_bytes transfer = (case mtransfer_metrics transfer of
     None \<Rightarrow> 0 | Some metrics \<Rightarrow> mm_current_bytes metrics)"

definition transfer_resource_ids :: "VmMemoryTransfer \<Rightarrow> u64 list" where
  "transfer_resource_ids transfer = map own_resource_id (mtransfer_resource_ownership transfer)"

definition current_bytes_of :: "VmMemoryAccountant \<Rightarrow> VmProcessId \<Rightarrow> usize" where
  "current_bytes_of mem pid = (case bt_get (mem_processes mem) pid of
     None \<Rightarrow> 0 | Some metrics \<Rightarrow> mm_current_bytes metrics)"

definition validate_memory_detach :: "VmMemoryAccountant \<Rightarrow> VmProcessId \<Rightarrow> usize \<Rightarrow> u64 list
    \<Rightarrow> (vm_error, unit) outcome" where
  "validate_memory_detach mem owner process_heap_bytes resource_ids =
     (if set resource_ids \<noteq> set (memory_resource_ids mem owner)
      then Err (Msg ''actor transfer process {} resource memory graph mismatch'' [ANum owner])
      else if current_bytes_of mem owner \<noteq> process_heap_bytes
      then Err (Msg ''actor transfer process {} heap accounting mismatch: process {}, memory {}''
        [ANum owner, ASize process_heap_bytes, ASize (current_bytes_of mem owner)])
      else if list_ex (\<lambda>allocation. bs_contains (shared_owners allocation) owner
          \<and> shared_owners allocation \<noteq> [owner]) (bt_values (mem_shared_allocations mem))
      then Err (Msg ''actor transfer process {} has a cross-actor shared allocation'' [ANum owner])
      else Ok ())"

fun take_entries :: "string \<Rightarrow> 'k list \<Rightarrow> (('k, 'v) btree, 'e, 'v list) stateful" where
  "take_entries missing [] = return_st []"
| "take_entries missing (k # ks) = (\<lambda>m. case bt_get m k of
     None \<Rightarrow> (Panic missing, m)
   | Some v \<Rightarrow> bind_st (take_entries missing ks) (\<lambda>vs. return_st (v # vs)) (bt_remove k m))"

definition detach_owner_memory :: "VmProcessId \<Rightarrow> (VmMemoryAccountant, vm_error, VmMemoryTransfer) stateful" where
  "detach_owner_memory owner mem =
     (let metrics = bt_get (mem_processes mem) owner;
          mem = mem\<lparr> mem_processes := bt_remove owner (mem_processes mem) \<rparr>;
          decisions = filter (\<lambda>decision. pressure_pid decision = owner) (mem_decisions mem);
          mem = mem\<lparr> mem_decisions := filter (\<lambda>decision. pressure_pid decision \<noteq> owner) (mem_decisions mem) \<rparr>
      in case take_entries ''inventoried resource memory record remains present''
             (memory_resource_ids mem owner) (mem_resource_ownership mem) of
           (Err e, m) \<Rightarrow> (Err e, mem\<lparr> mem_resource_ownership := m \<rparr>)
         | (Panic p, m) \<Rightarrow> (Panic p, mem\<lparr> mem_resource_ownership := m \<rparr>)
         | (Ok resource_ownership, m) \<Rightarrow>
             let mem = mem\<lparr> mem_resource_ownership := m \<rparr>
             in case take_entries ''validated actor-local allocation remains present''
                 (memory_shared_ids mem owner) (mem_shared_allocations mem) of
               (Err e, m) \<Rightarrow> (Err e, mem\<lparr> mem_shared_allocations := m \<rparr>)
             | (Panic p, m) \<Rightarrow> (Panic p, mem\<lparr> mem_shared_allocations := m \<rparr>)
             | (Ok shared_allocations, m) \<Rightarrow>
                 (Ok \<lparr> mtransfer_owner = owner, mtransfer_limits = mem_limits mem,
                    mtransfer_metrics = metrics, mtransfer_decisions = decisions,
                    mtransfer_resource_ownership = resource_ownership,
                    mtransfer_shared_allocations = shared_allocations,
                    mtransfer_shared_identity_watermark = mem_next_shared_allocation_id mem \<rparr>,
                  mem\<lparr> mem_shared_allocations := m \<rparr>))"

fun first_known :: "('k, 'v) btree \<Rightarrow> 'k list \<Rightarrow> 'k option" where
  "first_known m [] = None"
| "first_known m (k # ks) = (if bt_contains m k then Some k else first_known m ks)"

definition validate_memory_import :: "VmMemoryAccountant \<Rightarrow> VmMemoryTransfer \<Rightarrow> usize
    \<Rightarrow> (vm_error, unit) outcome" where
  "validate_memory_import mem transfer process_heap_bytes =
     (let owner = mtransfer_owner transfer in
      if owner = 0 then Err (Msg ''memory transfer owner identity must be nonzero'' [])
      else if mem_limits mem \<noteq> mtransfer_limits transfer
      then Err (Msg ''memory transfer limits differ from destination limits'' [])
      else if transfer_current_bytes transfer \<noteq> process_heap_bytes
      then Err (Msg ''memory transfer heap mismatch: process {}, memory {}''
        [ASize process_heap_bytes, ASize (transfer_current_bytes transfer)])
      else if bt_contains (mem_processes mem) owner
      then Err (Msg ''memory transfer destination already contains process {} metrics'' [ANum owner])
      else if (case mtransfer_metrics transfer of Some metrics \<Rightarrow> mm_pid metrics \<noteq> owner | None \<Rightarrow> False)
        \<or> list_ex (\<lambda>decision. pressure_pid decision \<noteq> owner) (mtransfer_decisions transfer)
        \<or> list_ex (\<lambda>ownership. own_owner ownership \<noteq> owner) (mtransfer_resource_ownership transfer)
        \<or> list_ex (\<lambda>allocation. shared_owners allocation \<noteq> [owner]) (mtransfer_shared_allocations transfer)
      then Err (Msg ''memory transfer contains cross-actor state'' [])
      else case first_known (mem_resource_ownership mem) (transfer_resource_ids transfer) of
        Some identity \<Rightarrow> Err (Msg ''memory transfer destination already contains resource {identity} ownership''
          [ANum identity])
      | None \<Rightarrow> (case first_known (mem_shared_allocations mem)
            (map shared_id (mtransfer_shared_allocations transfer)) of
          Some identity \<Rightarrow> Err (Msg ''memory transfer destination already contains shared allocation {identity}''
            [ANum identity])
        | None \<Rightarrow> Ok ()))"

text \<open>A refused import hands the transfer back beside the reason.\<close>

definition import_memory_transfer :: "VmMemoryTransfer \<Rightarrow> usize
    \<Rightarrow> (VmMemoryAccountant, vm_error \<times> VmMemoryTransfer, unit) stateful" where
  "import_memory_transfer transfer process_heap_bytes mem =
     (case validate_memory_import mem transfer process_heap_bytes of
        Err reason \<Rightarrow> (Err (reason, transfer), mem)
      | Panic p \<Rightarrow> (Panic p, mem)
      | Ok _ \<Rightarrow> (Ok (), mem
          \<lparr> mem_next_shared_allocation_id := max (mem_next_shared_allocation_id mem)
              (mtransfer_shared_identity_watermark transfer),
            mem_processes := (case mtransfer_metrics transfer of
               Some metrics \<Rightarrow> bt_insert (mtransfer_owner transfer) metrics (mem_processes mem)
             | None \<Rightarrow> mem_processes mem),
            mem_decisions := mem_decisions mem @ mtransfer_decisions transfer,
            mem_resource_ownership := fold (\<lambda>record. bt_insert (own_resource_id record) record)
              (mtransfer_resource_ownership transfer) (mem_resource_ownership mem),
            mem_shared_allocations := fold (\<lambda>record. bt_insert (shared_id record) record)
              (mtransfer_shared_allocations transfer) (mem_shared_allocations mem) \<rparr>))"

end
