(* ===== verification/Memory_Books.thy ===== *)
theory Memory_Books
  imports Memory_Ownership Process_Factory
begin

text \<open>
  The books of the memory accountant. A process is charged for its mailbox, its resources and its
  shared allocations; \<open>books own\<close> says that the accounts agree with the process records, that no
  heap is above the hard limit, and that every heap is exactly the charges of its process and
  the bytes \<open>own\<close> gives for it, those it holds directly. Operations move bytes between the two: a
  charge adds to the direct bytes, a message or a resource takes them over, giving one back
  returns them, a release cancels them. The locale \<open>heap_credit\<close> is the
  contract of the two primitives that the other operations rest on.
\<close>

section \<open>Weights in ordered maps\<close>

definition bt_weight :: "('v \<Rightarrow> nat) \<Rightarrow> ('k, 'v) btree \<Rightarrow> nat" where
  "bt_weight f m = sum_list (map (\<lambda>e. f (snd e)) m)"

definition weight_at :: "('v \<Rightarrow> nat) \<Rightarrow> ('k, 'v) btree \<Rightarrow> 'k \<Rightarrow> nat" where
  "weight_at f m k = (case bt_get m k of Some v \<Rightarrow> f v | None \<Rightarrow> 0)"

lemma bt_weight_Nil [simp]: "bt_weight f [] = 0"
  by (simp add: bt_weight_def)

lemma bt_weight_remove:
  "bt_ok m \<Longrightarrow> bt_weight f (bt_remove k m) + weight_at f m k = bt_weight f m"
proof (induction m)
  case (Cons e m)
  obtain k' v where e: "e = (k', v)" by (cases e)
  have fresh: "k = k' \<Longrightarrow> bt_remove k m = m"
    using Cons.prems by (intro bt_remove_absent) (auto simp: e bt_ok_Cons bt_get_def map_of_eq_None_iff)
  show ?case
    using Cons fresh by (auto simp: e bt_ok_Cons bt_remove_def bt_weight_def weight_at_def bt_get_Cons)
qed (simp add: bt_weight_def bt_remove_def weight_at_def)

lemma bt_weight_insert:
  "bt_ok m \<Longrightarrow> bt_weight f (bt_insert k v m) + weight_at f m k = bt_weight f m + f v"
proof (induction k v m rule: bt_insert.induct)
  case (2 k v k' v' m)
  have fresh: "k \<le> k' \<Longrightarrow> bt_get m k = None"
    using 2(2) by (auto simp: bt_ok_Cons bt_get_def map_of_eq_None_iff)
  show ?case
    using 2 fresh by (auto simp: bt_ok_Cons bt_weight_def weight_at_def bt_get_Cons)
qed (simp add: bt_weight_def weight_at_def)

lemma bt_weight_0: "bt_ok m \<Longrightarrow> (\<And>k v. bt_get m k = Some v \<Longrightarrow> f v = 0) \<Longrightarrow> bt_weight f m = 0"
  by (auto simp: bt_weight_def bt_in_get [symmetric])

lemma weight_at_le: "bt_ok m \<Longrightarrow> weight_at f m k \<le> bt_weight f m"
  using bt_weight_remove [of m f k] by simp

lemma bt_weight_values:
  "bt_weight (\<lambda>v. if P v then g v else 0) m = sum_list (map g (filter P (bt_values m)))"
  by (induction m) (auto simp: bt_weight_def bt_values_def)

section \<open>Charges\<close>

definition heap_of :: "'q VmProcessTable \<Rightarrow> VmProcessId \<Rightarrow> usize" where
  "heap_of t pid = (case pt_get t pid of Some p \<Rightarrow> proc_heap_bytes p | None \<Rightarrow> 0)"

definition mailbox_bytes :: "VmMessage list \<Rightarrow> nat" where
  "mailbox_bytes ms = sum_list (map (\<lambda>m. unat (msg_accounted_bytes m)) ms)"

definition mailbox_charge :: "'q VmProcessTable \<Rightarrow> VmProcessId \<Rightarrow> nat" where
  "mailbox_charge t pid = (case pt_get t pid of Some p \<Rightarrow> mailbox_bytes (proc_mailbox p) | None \<Rightarrow> 0)"

definition ownership_weight :: "VmProcessId \<Rightarrow> VmAccountedResourceOwnership \<Rightarrow> nat" where
  "ownership_weight pid o' = (if own_owner o' = pid then unat (own_logical_bytes o') else 0)"

definition resource_charge :: "VmMemoryAccountant \<Rightarrow> VmProcessId \<Rightarrow> nat" where
  "resource_charge mem pid = bt_weight (ownership_weight pid) (mem_resource_ownership mem)"

definition shared_weight :: "VmProcessId \<Rightarrow> VmSharedAllocation \<Rightarrow> nat" where
  "shared_weight pid a = (if pid \<in> set (shared_owners a) then unat (shared_logical_bytes a) else 0)"

definition shared_charge :: "VmMemoryAccountant \<Rightarrow> VmProcessId \<Rightarrow> nat" where
  "shared_charge mem pid = bt_weight (shared_weight pid) (mem_shared_allocations mem)"

definition charge_of :: "'q accounted_resources \<Rightarrow> VmProcessId \<Rightarrow> nat" where
  "charge_of s pid = (case s of (mem, resources, t) \<Rightarrow>
     mailbox_charge t pid + resource_charge mem pid + shared_charge mem pid)"

section \<open>The invariant\<close>

definition metrics_ok :: "VmMemoryAccountant \<Rightarrow> bool" where
  "metrics_ok mem \<longleftrightarrow> bt_ok (mem_processes mem)
     \<and> (\<forall>pid m. bt_get (mem_processes mem) pid = Some m \<longrightarrow> mm_pid m = pid
          \<and> mm_current_bytes m \<le> mm_high_water_bytes m \<and> mm_high_water_bytes m \<le> lim_hard_bytes (mem_limits mem))"

definition owns_resource :: "VmResourceTable \<Rightarrow> VmProcessId \<Rightarrow> VmResourceId \<Rightarrow> bool" where
  "owns_resource resources pid i \<longleftrightarrow> (\<exists>r. bt_get (rt_resources resources) i = Some r \<and> res_owner r = pid)"

definition resources_ok :: "VmResourceTable \<Rightarrow> 'q VmProcessTable \<Rightarrow> bool" where
  "resources_ok resources t \<longleftrightarrow> bt_ok (rt_resources resources)
     \<and> (\<forall>i r. bt_get (rt_resources resources) i = Some r \<longrightarrow> res_id r = i \<and> i \<le> rt_next_id resources
          \<and> is_alive t (res_owner r))
     \<and> (\<forall>pid p i. pt_get t pid = Some p \<longrightarrow> count_list (proc_resource_handles p) (resource_handle_name i)
          = (if owns_resource resources pid i then 1 else 0))"

definition ownership_ok :: "VmMemoryAccountant \<Rightarrow> VmResourceTable \<Rightarrow> bool" where
  "ownership_ok mem resources \<longleftrightarrow> bt_ok (mem_resource_ownership mem)
     \<and> (\<forall>i o'. bt_get (mem_resource_ownership mem) i = Some o' \<longrightarrow> own_resource_id o' = i)
     \<and> (\<forall>i. map_option own_owner (bt_get (mem_resource_ownership mem) i)
          = map_option res_owner (bt_get (rt_resources resources) i))"

definition shared_ok :: "VmMemoryAccountant \<Rightarrow> 'q VmProcessTable \<Rightarrow> bool" where
  "shared_ok mem t \<longleftrightarrow> bt_ok (mem_shared_allocations mem)
     \<and> (\<forall>i a. bt_get (mem_shared_allocations mem) i = Some a \<longrightarrow> shared_id a = i
          \<and> i \<le> mem_next_shared_allocation_id mem \<and> bs_ok (shared_owners a) \<and> shared_owners a \<noteq> []
          \<and> (\<forall>pid\<in>set (shared_owners a). is_alive t pid))"

definition limits_ok :: "VmMemoryLimits \<Rightarrow> bool" where
  "limits_ok limits \<longleftrightarrow> 0 < lim_soft_bytes limits \<and> lim_soft_bytes limits \<le> lim_hard_bytes limits"

definition books :: "'q queue_of \<Rightarrow> ('q \<Rightarrow> VmMessage VmPublishedFragment list) \<Rightarrow> ('q \<Rightarrow> nat)
    \<Rightarrow> (VmProcessId \<Rightarrow> nat) \<Rightarrow> 'q accounted_resources \<Rightarrow> bool" where
  "books Q contents capacity own s \<longleftrightarrow> (case s of (mem, resources, t) \<Rightarrow>
     pt_ok Q contents capacity t \<and> limits_ok (mem_limits mem) \<and> metrics_ok mem
     \<and> resources_ok resources t \<and> ownership_ok mem resources \<and> shared_ok mem t
     \<and> (\<forall>pid. current_bytes_of mem pid = heap_of t pid)
     \<and> (\<forall>pid. heap_of t pid \<le> lim_hard_bytes (mem_limits mem))
     \<and> (\<forall>pid. unat (heap_of t pid) = charge_of s pid + own pid))"

lemma booksD:
  assumes "books Q contents capacity own (mem, resources, t)"
  shows "pt_ok Q contents capacity t" "limits_ok (mem_limits mem)" "metrics_ok mem" "resources_ok resources t"
    "ownership_ok mem resources" "shared_ok mem t" "\<And>pid. current_bytes_of mem pid = heap_of t pid"
    "\<And>pid. heap_of t pid \<le> lim_hard_bytes (mem_limits mem)"
    "\<And>pid. unat (heap_of t pid) = charge_of (mem, resources, t) pid + own pid"
  using assms by (simp_all add: books_def)

text \<open>
  Whatever a heap holds beside its charges is held directly, so books are kept for some direct
  bytes as soon as no charge is above its heap.
\<close>

definition balanced :: "'q queue_of \<Rightarrow> ('q \<Rightarrow> VmMessage VmPublishedFragment list) \<Rightarrow> ('q \<Rightarrow> nat)
    \<Rightarrow> 'q accounted_resources \<Rightarrow> bool" where
  "balanced Q contents capacity s \<longleftrightarrow> (\<exists>own. books Q contents capacity own s)"

lemma balancedE:
  assumes "balanced Q contents capacity s"
  obtains own where "books Q contents capacity own s"
  using assms by (auto simp: balanced_def)

lemma balancedI: "books Q contents capacity own s \<Longrightarrow> balanced Q contents capacity s"
  by (auto simp: balanced_def)

lemma balancedD:
  assumes "balanced Q contents capacity (mem, resources, t)"
  shows "pt_ok Q contents capacity t" "limits_ok (mem_limits mem)" "metrics_ok mem" "resources_ok resources t"
    "ownership_ok mem resources" "shared_ok mem t" "\<And>pid. current_bytes_of mem pid = heap_of t pid"
    "\<And>pid. heap_of t pid \<le> lim_hard_bytes (mem_limits mem)"
    "\<And>pid. charge_of (mem, resources, t) pid \<le> unat (heap_of t pid)"
  using assms by (auto simp: balanced_def books_def)

lemma balanced_iff:
  "balanced Q contents capacity (mem, resources, t) \<longleftrightarrow>
     pt_ok Q contents capacity t \<and> limits_ok (mem_limits mem) \<and> metrics_ok mem
     \<and> resources_ok resources t \<and> ownership_ok mem resources \<and> shared_ok mem t
     \<and> (\<forall>pid. current_bytes_of mem pid = heap_of t pid)
     \<and> (\<forall>pid. heap_of t pid \<le> lim_hard_bytes (mem_limits mem))
     \<and> (\<forall>pid. charge_of (mem, resources, t) pid \<le> unat (heap_of t pid))" (is "?l = ?r")
proof
  show "?l \<Longrightarrow> ?r" using balancedD [of Q contents capacity mem resources t] by simp
  show "?r \<Longrightarrow> ?l"
    by (intro balancedI [of _ _ _ "\<lambda>pid. unat (heap_of t pid) - charge_of (mem, resources, t) pid"])
      (simp add: books_def)
qed

section \<open>Changes of one process\<close>

lemma live_update_law:
  assumes ok: "pt_ok Q contents capacity t" and get: "pt_get t pid = Some p" and live: "\<not> is_exited (proc_state p)"
    and m: "mutate p = (r, p')" and p': "proc_pid p' = proc_pid p" "proc_ok p'" "\<not> is_exited (proc_state p')"
  obtains t' where "with_live_process_mut pid mutate t = (Ok r, t')" "pt_ok Q contents capacity t'"
    "pt_get t' = (pt_get t)(pid \<mapsto> p')" "pt_frame t t'"
proof -
  have "(case mutate p of (r, process) \<Rightarrow> (Ok r :: (vm_error, _) outcome, process)) = (Ok r, p')" using m by simp
  then obtain t' where t': "with_process_control_mutator pid
        (\<lambda>process. case mutate process of (r, process) \<Rightarrow> (Ok r, process)) t = (Ok r, t')"
      "pt_ok Q contents capacity t'" "pt_get t' = (pt_get t)(pid \<mapsto> p')" "pt_frame t t'"
    by (rule with_control_law [OF ok get]) (use p' live pt_get_facts(1) [OF ok get] in simp_all)
  show ?thesis
    by (rule that [OF _ t'(2-4)])
      (simp add: with_live_process_mut_def require_live_account_def get live read_st_def bind_st_def t'(1))
qed

lemma with_live_dead:
  "\<not> is_alive t pid \<Longrightarrow> \<exists>e. with_live_process_mut pid mutate t = (Err e, t)"
  by (auto simp: with_live_process_mut_def require_live_account_def is_alive_def bind_st_def read_st_def
      split: option.splits)

lemma proc_ok_heap [simp]: "proc_ok (p\<lparr> proc_heap_bytes := h \<rparr>) = proc_ok p"
  by (simp add: proc_ok_def)

lemma proc_ok_handles [simp]:
  "\<not> is_exited (proc_state p) \<Longrightarrow> proc_ok (p\<lparr> proc_resource_handles := hs \<rparr>) = proc_ok p"
  by (simp add: proc_ok_def)

lemma table_update:
  assumes "pt_get t' = (pt_get t)(pid \<mapsto> p')"
  shows "heap_of t' = (heap_of t)(pid := proc_heap_bytes p')"
    "mailbox_charge t' = (mailbox_charge t)(pid := mailbox_bytes (proc_mailbox p'))"
    "is_alive t' q \<longleftrightarrow> (if q = pid then \<not> is_exited (proc_state p') else is_alive t q)"
  using assms by (auto simp: heap_of_def mailbox_charge_def is_alive_get fun_eq_iff)

lemma current_bytes_change:
  "current_bytes_of (change_metrics pid f mem) = (current_bytes_of mem)(pid := mm_current_bytes
     (f (case bt_get (mem_processes mem) pid of Some metrics \<Rightarrow> metrics | None \<Rightarrow> metrics_default)))"
  by (auto simp: current_bytes_of_def change_metrics_def fun_eq_iff)

text \<open>The heap of a process changes with its metrics, and nothing else.\<close>

lemma books_heap_change:
  assumes b: "books Q contents capacity c (mem, resources, t)"
    and get: "pt_get t pid = Some p" and live: "\<not> is_exited (proc_state p)"
    and t': "pt_ok Q contents capacity t'" "pt_get t' = (pt_get t)(pid \<mapsto> p\<lparr> proc_heap_bytes := h \<rparr>)"
    and h: "h \<le> lim_hard_bytes (mem_limits mem)" "unat h = charge_of (mem, resources, t) pid + c' pid"
    and c': "\<And>q. q \<noteq> pid \<Longrightarrow> c' q = c q"
    and mem': "mem_limits mem' = mem_limits mem" "mem_resource_ownership mem' = mem_resource_ownership mem"
      "mem_shared_allocations mem' = mem_shared_allocations mem"
      "mem_next_shared_allocation_id mem' = mem_next_shared_allocation_id mem"
      "metrics_ok mem'" "current_bytes_of mem' = (current_bytes_of mem)(pid := h)"
  shows "books Q contents capacity c' (mem', resources, t')"
proof -
  note u = table_update [OF t'(2)]
  have heap: "heap_of t' = (heap_of t)(pid := h)" using u(1) by simp
  have alive: "is_alive t' q = is_alive t q" for q
    using u(3) [of q] get live by (auto simp: is_alive_get)
  have mail: "mailbox_charge t' = mailbox_charge t"
    using u(2) get by (auto simp: mailbox_charge_def fun_eq_iff)
  have charge: "charge_of (mem', resources, t') = charge_of (mem, resources, t)"
    by (simp add: charge_of_def mail resource_charge_def shared_charge_def mem' fun_eq_iff)
  have "resources_ok resources t'"
    using booksD(4) [OF b] get by (auto simp: resources_ok_def alive t'(2))
  moreover have "ownership_ok mem' resources" using booksD(5) [OF b] by (simp add: ownership_ok_def mem')
  moreover have "shared_ok mem' t'" using booksD(6) [OF b] by (simp add: shared_ok_def mem' alive)
  ultimately show ?thesis
    using booksD [OF b] t'(1) h c' mem' by (auto simp: books_def heap charge)
qed

section \<open>The contract of charging\<close>

definition alive_in :: "'q accounted_resources \<Rightarrow> VmProcessId set" where
  "alive_in s = (case s of (mem, resources, t) \<Rightarrow> {pid. is_alive t pid})"

text \<open>What charges and releases leave alone: all but the heap bytes and the accounts of them.\<close>

definition apart_from_heap :: "'q accounted_resources \<Rightarrow> VmMemoryLimits
    \<times> (u64, VmAccountedResourceOwnership) btree \<times> u64 \<times> (u64, VmSharedAllocation) btree
    \<times> VmResourceTable \<times> (VmProcessId \<Rightarrow> VmProcess option) \<times> (string, VmProcessId) btree" where
  "apart_from_heap s = (case s of (mem, resources, t) \<Rightarrow>
     (mem_limits mem, mem_resource_ownership mem, mem_next_shared_allocation_id mem,
      mem_shared_allocations mem, resources,
      (\<lambda>pid. map_option (\<lambda>p. p\<lparr> proc_heap_bytes := 0 \<rparr>) (pt_get t pid)), pt_names t))"

locale heap_credit =
  fixes invar :: "(VmProcessId \<Rightarrow> nat) \<Rightarrow> 's \<Rightarrow> bool"
    and live :: "'s \<Rightarrow> VmProcessId set"
    and rest :: "'s \<Rightarrow> 'r"
    and heap :: "'s \<Rightarrow> VmProcessId \<Rightarrow> usize"
    and hard :: "'s \<Rightarrow> usize"
    and charge :: "VmProcessId \<Rightarrow> usize \<Rightarrow> ('s, vm_error, VmMemoryPressureDecision) stateful"
    and release :: "VmProcessId \<Rightarrow> usize \<Rightarrow> ('s, vm_error, usize) stateful"
  assumes charge_live: "invar c s \<Longrightarrow> pid \<in> live s \<Longrightarrow> \<exists>d s'. charge pid n s = (Ok d, s')
      \<and> live s' = live s \<and> rest s' = rest s
      \<and> (pressure_outcome d = HardLimitRejected \<longleftrightarrow> unat (hard s) < unat (heap s pid) + unat n)
      \<and> (if pressure_outcome d = HardLimitRejected then invar c s' \<and> heap s' = heap s
         else invar (c(pid := c pid + unat n)) s' \<and> heap s' = (heap s)(pid := heap s pid + n))"
    and release_live: "invar c s \<Longrightarrow> pid \<in> live s \<Longrightarrow> unat n \<le> c pid \<Longrightarrow> \<exists>s'. release pid n s = (Ok n, s')
      \<and> live s' = live s \<and> rest s' = rest s \<and> invar (c(pid := c pid - unat n)) s'
      \<and> heap s' = (heap s)(pid := heap s pid - n)"
    and charge_dead: "pid \<notin> live s \<Longrightarrow> \<exists>e. charge pid n s = (Err e, s)"
begin

text \<open>An accepted charge that is taken back leaves every heap as it was.\<close>

lemma charge_release:
  assumes "invar c s" "pid \<in> live s" "unat (heap s pid) + unat n \<le> unat (hard s)"
  shows "\<exists>d s1 s2. charge pid n s = (Ok d, s1) \<and> release pid n s1 = (Ok n, s2) \<and> invar c s2
    \<and> heap s2 = heap s \<and> rest s2 = rest s"
proof -
  obtain d s1 where s1: "charge pid n s = (Ok d, s1)" "live s1 = live s" "rest s1 = rest s"
      "invar (c(pid := c pid + unat n)) s1" "heap s1 = (heap s)(pid := heap s pid + n)"
    using charge_live [OF assms(1,2), of n] assms(3) by auto
  obtain s2 where s2: "release pid n s1 = (Ok n, s2)" "rest s2 = rest s1"
      "invar ((c(pid := c pid + unat n))(pid := (c(pid := c pid + unat n)) pid - unat n)) s2"
      "heap s2 = (heap s1)(pid := heap s1 pid - n)"
    using release_live [OF s1(4), of pid n] assms(2) s1(2) by auto
  have "heap s2 = heap s" using s1(5) s2(4) by (auto simp: fun_eq_iff)
  moreover have "invar c s2" using s2(3) by (simp add: fun_upd_idem)
  ultimately show ?thesis using s1 s2 by auto
qed

text \<open>A rejected charge changes no heap and no ownership.\<close>

lemma rejected_charge:
  assumes "invar c s" "pid \<in> live s" "unat (hard s) < unat (heap s pid) + unat n"
  shows "\<exists>d s'. charge pid n s = (Ok d, s') \<and> pressure_outcome d = HardLimitRejected
    \<and> invar c s' \<and> heap s' = heap s \<and> rest s' = rest s \<and> live s' = live s"
  using charge_live [OF assms(1,2), of n] assms(3) by auto

end

section \<open>Charging and releasing keep the contract\<close>

lemma lift_account:
  "account_heap pid n (mem, t) = (r, (mem', t')) \<Longrightarrow>
     accounting (account_heap pid n) (mem, resources, t) = (r, (mem', resources, t'))"
  "release_heap pid n (mem, t) = (r', (mem', t')) \<Longrightarrow>
     accounting (release_heap pid n) (mem, resources, t) = (r', (mem', resources, t'))"
  by (simp_all add: accounting_def)

lemma metrics_found:
  assumes "metrics_ok mem" "current_bytes_of mem pid = b"
  defines "m \<equiv> case bt_get (mem_processes mem) pid of Some metrics \<Rightarrow> metrics | None \<Rightarrow> metrics_default"
  shows "mm_current_bytes m = b" "mm_high_water_bytes m \<le> lim_hard_bytes (mem_limits mem)"
    "mm_current_bytes m \<le> mm_high_water_bytes m"
  using assms by (auto simp: metrics_ok_def current_bytes_of_def metrics_default_def split: option.splits)

lemma metrics_change:
  assumes "metrics_ok mem" "mm_pid m = pid" "mm_current_bytes m \<le> mm_high_water_bytes m"
    "mm_high_water_bytes m \<le> lim_hard_bytes (mem_limits mem)"
    "\<And>x. x = (case bt_get (mem_processes mem) pid of Some metrics \<Rightarrow> metrics | None \<Rightarrow> metrics_default) \<Longrightarrow> f x = m"
  shows "metrics_ok (change_metrics pid f mem)"
  using assms by (auto simp: metrics_ok_def change_metrics_def)

lemma change_metrics_frame [simp]:
  "mem_limits (change_metrics pid f mem) = mem_limits mem"
  "mem_resource_ownership (change_metrics pid f mem) = mem_resource_ownership mem"
  "mem_shared_allocations (change_metrics pid f mem) = mem_shared_allocations mem"
  "mem_next_shared_allocation_id (change_metrics pid f mem) = mem_next_shared_allocation_id mem"
  "mem_decisions (change_metrics pid f mem) = mem_decisions mem"
  by (simp_all add: change_metrics_def)

lemma decisions_frame [simp]:
  "metrics_ok (mem\<lparr> mem_decisions := ds \<rparr>) = metrics_ok mem"
  "current_bytes_of (mem\<lparr> mem_decisions := ds \<rparr>) = current_bytes_of mem"
  by (simp_all add: metrics_ok_def current_bytes_of_def fun_eq_iff)

lemma account_heap_live:
  assumes b: "books Q contents capacity c (mem, resources, t)"
    and get: "pt_get t pid = Some p" and live: "\<not> is_exited (proc_state p)"
  obtains d mem' t' where "account_heap pid n (mem, t) = (Ok d, (mem', t'))"
    "pressure_pid d = pid" "pressure_requested_bytes d = n" "pressure_previous_bytes d = proc_heap_bytes p"
    "pressure_outcome d = (if unat (lim_hard_bytes (mem_limits mem)) < unat (proc_heap_bytes p) + unat n
       then HardLimitRejected
       else if unat (lim_soft_bytes (mem_limits mem)) < unat (proc_heap_bytes p) + unat n
       then SoftLimitExceeded else Accounted)"
    "pt_get t' = (pt_get t)(pid \<mapsto> p\<lparr> proc_heap_bytes :=
       (if pressure_outcome d = HardLimitRejected then proc_heap_bytes p else proc_heap_bytes p + n) \<rparr>)"
    "books Q contents capacity (if pressure_outcome d = HardLimitRejected then c else c(pid := c pid + unat n))
       (mem', resources, t')"
    "apart_from_heap (mem', resources, t') = apart_from_heap (mem, resources, t)" "pt_frame t t'"
proof -
  let ?hard = "lim_hard_bytes (mem_limits mem)" and ?h = "proc_heap_bytes p"
  let ?projected = "case checked_add ?h n of Some bytes \<Rightarrow> bytes | None \<Rightarrow> - 1"
  define o' where "o' = (if checked_add ?h n = None \<or> ?hard < ?projected then HardLimitRejected
      else if lim_soft_bytes (mem_limits mem) < ?projected then SoftLimitExceeded else Accounted)"
  define h' where "h' = (if o' = HardLimitRejected then ?h else ?h + n)"
  define p' where "p' = p\<lparr> proc_heap_bytes := h' \<rparr>"
  have lt: "unat ?hard < 2 ^ 64" using unsigned_less [where 'a = nat, of ?hard] by simp
  have heap: "heap_of t pid = ?h" using get by (simp add: heap_of_def)
  have o': "o' = (if unat ?hard < unat ?h + unat n then HardLimitRejected
      else if unat (lim_soft_bytes (mem_limits mem)) < unat ?h + unat n then SoftLimitExceeded else Accounted)"
  proof (cases "unat ?h + unat n < 2 ^ 64")
    case True
    then have "checked_add ?h n = Some (?h + n)" "unat (?h + n) = unat ?h + unat n"
      by (simp_all add: checked_add_def unat_word_ariths)
    then show ?thesis by (simp add: o'_def word_less_nat_alt)
  next
    case False
    then show ?thesis using lt by (simp add: o'_def checked_add_def)
  qed
  have grown: "unat (?h + n) = unat ?h + unat n" "unat ?h + unat n \<le> unat ?hard" if "o' \<noteq> HardLimitRejected"
  proof -
    have "unat ?h + unat n \<le> unat ?hard" using that o' by (auto split: if_splits)
    then show "unat (?h + n) = unat ?h + unat n" "unat ?h + unat n \<le> unat ?hard"
      using lt by (simp_all add: unat_word_ariths)
  qed
  have h'_le: "h' \<le> ?hard"
    using booksD(8) [OF b, of pid] grown heap by (auto simp: h'_def word_le_nat_alt)
  have run: "project_heap (mem_limits mem) n p = ((?h, ?projected, o', h'), p')"
    by (auto simp: project_heap_def Let_def o'_def h'_def p'_def checked_add_def split: if_splits)
  obtain t' where t': "with_live_process_mut pid (project_heap (mem_limits mem) n) t
        = (Ok (?h, ?projected, o', h'), t')"
      "pt_ok Q contents capacity t'" "pt_get t' = (pt_get t)(pid \<mapsto> p')" "pt_frame t t'"
    by (rule live_update_law [where mutate = "project_heap (mem_limits mem) n", OF booksD(1) [OF b] get live run])
      (use pt_get_facts(2) [OF booksD(1) [OF b] get] live in \<open>simp_all add: p'_def\<close>)
  define d where "d = \<lparr> pressure_pid = pid, pressure_requested_bytes = n, pressure_previous_bytes = ?h,
      pressure_projected_bytes = ?projected, pressure_outcome = o' \<rparr>"
  define f where "f = (\<lambda>metrics :: VmProcessMemoryMetrics. metrics\<lparr> mm_pid := pid, mm_current_bytes := h',
      mm_high_water_bytes := max (mm_high_water_bytes metrics) h' \<rparr>)"
  define mem' where "mem' = (change_metrics pid f mem)\<lparr> mem_decisions := mem_decisions mem @ [d] \<rparr>"
  have step: "account_heap pid n (mem, t) = (Ok d, (mem', t'))"
    using t'(1) by (simp add: account_heap_def bind_st_def read_st_def beside_memory_def change_memory_def
        return_st_def Let_def d_def mem'_def f_def)
  let ?m = "case bt_get (mem_processes mem) pid of Some metrics \<Rightarrow> metrics | None \<Rightarrow> metrics_default"
  have "metrics_ok (change_metrics pid f mem)"
    by (rule metrics_change [OF booksD(3) [OF b], where m = "f ?m"])
      (use metrics_found [OF booksD(3) [OF b] refl, of pid] h'_le in \<open>auto simp: f_def\<close>)
  then have metrics: "metrics_ok mem'" by (simp add: mem'_def)
  have current: "current_bytes_of mem' = (current_bytes_of mem)(pid := h')"
    by (simp add: mem'_def current_bytes_change f_def)
  let ?c = "if o' = HardLimitRejected then c else c(pid := c pid + unat n)"
  have "unat h' = charge_of (mem, resources, t) pid + ?c pid"
    using booksD(9) [OF b, of pid] grown heap by (auto simp: h'_def)
  then have b': "books Q contents capacity ?c (mem', resources, t')"
    by (intro books_heap_change [OF b get live t'(2) t'(3) [unfolded p'_def] h'_le _ _ _ _ _ _ metrics current])
      (simp_all add: mem'_def)
  have out: "pressure_outcome d = o'" by (simp add: d_def)
  have get': "pt_get t' = (pt_get t)(pid \<mapsto> p\<lparr> proc_heap_bytes :=
       (if pressure_outcome d = HardLimitRejected then proc_heap_bytes p else proc_heap_bytes p + n) \<rparr>)"
    using t'(3) by (simp add: out p'_def h'_def)
  show ?thesis
    by (rule that [OF step _ _ _ _ get' _ _ t'(4)])
      (use b' o' t'(3,4) get in \<open>auto simp: d_def apart_from_heap_def mem'_def p'_def fun_eq_iff pt_frame_def\<close>)
qed

lemma release_heap_live:
  assumes b: "books Q contents capacity c (mem, resources, t)"
    and get: "pt_get t pid = Some p" and live: "\<not> is_exited (proc_state p)" and n: "unat n \<le> c pid"
  obtains mem' t' where "release_heap pid n (mem, t) = (Ok n, (mem', t'))"
    "pt_get t' = (pt_get t)(pid \<mapsto> p\<lparr> proc_heap_bytes := proc_heap_bytes p - n \<rparr>)"
    "books Q contents capacity (c(pid := c pid - unat n)) (mem', resources, t')"
    "apart_from_heap (mem', resources, t') = apart_from_heap (mem, resources, t)" "pt_frame t t'"
proof -
  let ?h = "proc_heap_bytes p"
  have heap: "heap_of t pid = ?h" using get by (simp add: heap_of_def)
  have "unat n \<le> unat ?h" using booksD(9) [OF b, of pid] n heap by simp
  then have le: "n \<le> ?h" and diff: "unat (?h - n) = unat ?h - unat n"
    by (simp_all add: word_le_nat_alt unat_sub)
  define p' where "p' = p\<lparr> proc_heap_bytes := ?h - n \<rparr>"
  have run: "release_process_heap n p = ((n, ?h - n), p')"
    using le by (simp add: release_process_heap_def Let_def p'_def min_def)
  obtain t' where t': "with_live_process_mut pid (release_process_heap n) t = (Ok (n, ?h - n), t')"
      "pt_ok Q contents capacity t'" "pt_get t' = (pt_get t)(pid \<mapsto> p')" "pt_frame t t'"
    by (rule live_update_law [where mutate = "release_process_heap n", OF booksD(1) [OF b] get live run])
      (use pt_get_facts(2) [OF booksD(1) [OF b] get] live in \<open>simp_all add: p'_def\<close>)
  define f where "f = (\<lambda>metrics :: VmProcessMemoryMetrics. let metrics = metrics\<lparr> mm_pid := pid, mm_current_bytes := ?h - n \<rparr>
         in if 0 < n then metrics\<lparr>
              mm_collection_events := saturating_add (mm_collection_events metrics) 1,
              mm_released_bytes := saturating_add (mm_released_bytes metrics) n \<rparr>
            else metrics)"
  have step: "release_heap pid n (mem, t) = (Ok n, (change_metrics pid f mem, t'))"
    using t'(1) by (simp add: release_heap_def bind_st_def beside_memory_def change_memory_def return_st_def f_def)
  let ?m = "case bt_get (mem_processes mem) pid of Some metrics \<Rightarrow> metrics | None \<Rightarrow> metrics_default"
  have h_le: "?h \<le> mm_high_water_bytes ?m" "mm_high_water_bytes ?m \<le> lim_hard_bytes (mem_limits mem)"
    using metrics_found [OF booksD(3) [OF b] refl, of pid] booksD(7) [OF b, of pid] heap by auto
  have low: "?h - n \<le> ?h" using le diff by (simp add: word_le_nat_alt)
  have low': "?h - n \<le> mm_high_water_bytes ?m" using low h_le(1) by (rule order_trans)
  have metrics: "metrics_ok (change_metrics pid f mem)"
    by (rule metrics_change [OF booksD(3) [OF b], where m = "f ?m"])
      (use h_le low' in \<open>auto simp: f_def Let_def\<close>)
  have current: "current_bytes_of (change_metrics pid f mem) = (current_bytes_of mem)(pid := ?h - n)"
    by (simp add: current_bytes_change f_def Let_def)
  have bound: "?h - n \<le> lim_hard_bytes (mem_limits mem)"
    using low' h_le(2) by (rule order_trans)
  have "unat (?h - n) = charge_of (mem, resources, t) pid + (c(pid := c pid - unat n)) pid"
    using booksD(9) [OF b, of pid] n heap diff by simp
  then have b': "books Q contents capacity (c(pid := c pid - unat n)) (change_metrics pid f mem, resources, t')"
    by (intro books_heap_change [OF b get live t'(2) t'(3) [unfolded p'_def] bound _ _ _ _ _ _ metrics current]) simp_all
  show ?thesis
    by (rule that [OF step _ b' _ t'(4)])
      (use t'(3,4) get in \<open>auto simp: apart_from_heap_def p'_def fun_eq_iff pt_frame_def\<close>)
qed

lemma account_heap_dead: "\<not> is_alive t pid \<Longrightarrow> \<exists>e. account_heap pid n (mem, t) = (Err e, (mem, t))"
  using with_live_dead [of t pid "project_heap (mem_limits mem) n"]
  by (auto simp: account_heap_def bind_st_def read_st_def beside_memory_def)

interpretation hc: heap_credit "books Q contents capacity" alive_in apart_from_heap
    "\<lambda>(mem, resources, t). heap_of t" "\<lambda>(mem, resources, t). lim_hard_bytes (mem_limits mem)"
    "\<lambda>pid n. accounting (account_heap pid n)" "\<lambda>pid n. accounting (release_heap pid n)"
  for Q contents capacity
proof (unfold_locales, goal_cases)
  case (1 c s pid n)
  obtain mem resources t where s: "s = (mem, resources, t)" by (cases s)
  obtain p where p: "pt_get t pid = Some p" "\<not> is_exited (proc_state p)"
    using 1(2) by (auto simp: s alive_in_def is_alive_get)
  have heap: "heap_of t pid = proc_heap_bytes p" using p by (simp add: heap_of_def)
  obtain d mem' t' where d: "account_heap pid n (mem, t) = (Ok d, (mem', t'))"
      "pressure_outcome d = (if unat (lim_hard_bytes (mem_limits mem)) < unat (proc_heap_bytes p) + unat n
         then HardLimitRejected
         else if unat (lim_soft_bytes (mem_limits mem)) < unat (proc_heap_bytes p) + unat n
         then SoftLimitExceeded else Accounted)"
      "pt_get t' = (pt_get t)(pid \<mapsto> p\<lparr> proc_heap_bytes :=
         (if pressure_outcome d = HardLimitRejected then proc_heap_bytes p else proc_heap_bytes p + n) \<rparr>)"
      "books Q contents capacity (if pressure_outcome d = HardLimitRejected then c else c(pid := c pid + unat n))
         (mem', resources, t')"
      "apart_from_heap (mem', resources, t') = apart_from_heap (mem, resources, t)"
    by (rule account_heap_live [OF 1(1) [unfolded s] p, of n])
  have alive: "alive_in (mem', resources, t') = alive_in (mem, resources, t)"
    using table_update(3) [OF d(3)] p by (auto simp: alive_in_def is_alive_get)
  have heap': "heap_of t' = (heap_of t)(pid := if pressure_outcome d = HardLimitRejected
      then heap_of t pid else heap_of t pid + n)"
    using table_update(1) [OF d(3)] heap by (simp add: fun_eq_iff)
  have rejected: "pressure_outcome d = HardLimitRejected
      \<longleftrightarrow> unat (lim_hard_bytes (mem_limits mem)) < unat (heap_of t pid) + unat n"
    using d(2) by (simp add: heap)
  show ?case
  proof (cases "pressure_outcome d = HardLimitRejected")
    case True
    then show ?thesis
      using lift_account(1) [OF d(1), of resources] d(4,5) alive heap' rejected unfolding s
      by (intro exI [of _ d] exI [of _ "(mem', resources, t')"]) (simp add: fun_upd_idem)
  next
    case False
    then show ?thesis
      using lift_account(1) [OF d(1), of resources] d(4,5) alive heap' rejected unfolding s
      by (intro exI [of _ d] exI [of _ "(mem', resources, t')"]) simp
  qed
next
  case (2 c s pid n)
  obtain mem resources t where s: "s = (mem, resources, t)" by (cases s)
  obtain p where p: "pt_get t pid = Some p" "\<not> is_exited (proc_state p)"
    using 2(2) by (auto simp: s alive_in_def is_alive_get)
  obtain mem' t' where d: "release_heap pid n (mem, t) = (Ok n, (mem', t'))"
      "pt_get t' = (pt_get t)(pid \<mapsto> p\<lparr> proc_heap_bytes := proc_heap_bytes p - n \<rparr>)"
      "books Q contents capacity (c(pid := c pid - unat n)) (mem', resources, t')"
      "apart_from_heap (mem', resources, t') = apart_from_heap (mem, resources, t)"
    by (rule release_heap_live [OF 2(1) [unfolded s] p 2(3)])
  have alive: "alive_in (mem', resources, t') = alive_in (mem, resources, t)"
    using table_update(3) [OF d(2)] p by (auto simp: alive_in_def is_alive_get)
  have heap': "heap_of t' = (heap_of t)(pid := heap_of t pid - n)"
    using table_update(1) [OF d(2)] p by (simp add: heap_of_def fun_eq_iff)
  show ?case
    using lift_account(2) [OF d(1), of resources] d(3,4) alive heap'
    by (intro exI [of _ "(mem', resources, t')"]) (simp add: s)
next
  case (3 pid s n)
  obtain mem resources t where s: "s = (mem, resources, t)" by (cases s)
  show ?case
    using account_heap_dead [of t pid n mem] 3 lift_account(1) by (fastforce simp: s alive_in_def)
qed

end
