(* ===== verification/Memory_Laws.thy ===== *)
theory Memory_Laws
  imports Memory_Books
begin

text \<open>
  What the operations of the accountant do to the books: sends and receives, resources, shared
  allocations, collection and exit. Each is a charge or a release together with the change of
  ownership it pays for, so that the books stay exact.
\<close>

lemma books_cong: "books Q contents capacity c s \<Longrightarrow> (\<And>pid. c' pid = c pid) \<Longrightarrow> books Q contents capacity c' s"
  by (metis ext)

section \<open>Messages\<close>

lemma mailbox_bytes_enqueue:
  "mailbox_bytes (enqueue_lane m ms) = mailbox_bytes ms + unat (msg_accounted_bytes m)"
proof -
  have "mailbox_bytes ms = mailbox_bytes (takeWhile is_priority ms) + mailbox_bytes (dropWhile is_priority ms)"
    using takeWhile_dropWhile_id [of is_priority ms]
    unfolding mailbox_bytes_def by (metis map_append sum_list_append)
  then show ?thesis by (simp add: enqueue_lane_def mailbox_bytes_def)
qed

lemma proc_integrate_heap [simp]: "proc_heap_bytes (proc_integrate_message m p) = proc_heap_bytes p"
  by (cases "msg_priority m")
    (auto simp: proc_integrate_message_def Let_def proc_wake_def split: VmProcessState.splits VmProcessResumeState.splits)

text \<open>The mailbox of a process changes, against credit.\<close>

lemma books_mailbox_change:
  assumes b: "books Q contents capacity c (mem, resources, t)"
    and get: "pt_get t pid = Some p" and live: "\<not> is_exited (proc_state p)"
    and t': "pt_ok Q contents capacity t'" "pt_get t' = (pt_get t)(pid \<mapsto> p')"
    and p': "proc_heap_bytes p' = proc_heap_bytes p" "proc_resource_handles p' = proc_resource_handles p"
      "\<not> is_exited (proc_state p')"
      "mailbox_bytes (proc_mailbox p') + c' pid = mailbox_bytes (proc_mailbox p) + c pid"
    and c': "\<And>q. q \<noteq> pid \<Longrightarrow> c' q = c q"
  shows "books Q contents capacity c' (mem, resources, t')"
proof -
  note u = table_update [OF t'(2)]
  have heap: "heap_of t' = heap_of t" using u(1) p'(1) get by (auto simp: heap_of_def)
  have alive: "is_alive t' q = is_alive t q" for q
    using u(3) [of q] get live p' by (auto simp: is_alive_get)
  have "resources_ok resources t'"
    using booksD(4) [OF b] get p'(2) by (auto simp: resources_ok_def alive t'(2))
  moreover have "shared_ok mem t'" using booksD(6) [OF b] by (simp add: shared_ok_def alive)
  moreover have "unat (heap_of t' q) = charge_of (mem, resources, t') q + c' q" for q
  proof (cases "q = pid")
    case True
    then show ?thesis
      using booksD(9) [OF b, of pid] p'(4) get
      by (simp add: charge_of_def u(2) heap) (simp add: mailbox_charge_def)
  next
    case False
    then show ?thesis using booksD(9) [OF b, of q] c' by (simp add: charge_of_def u(2) heap)
  qed
  ultimately show ?thesis
    using booksD [OF b] t'(1) by (simp add: books_def heap)
qed

lemma send_typed_alive:
  assumes ok: "pt_ok Q contents capacity t" and s: "is_alive t sender" and get: "pt_get t pid = Some p"
    and live: "\<not> is_exited (proc_state p)"
  obtains i sequence t' where "send_typed Q sender pid delivery t = (Ok i, t')" "pt_ok Q contents capacity t'"
    "pt_get t' = (pt_get t)(pid \<mapsto> proc_integrate_message (delivered_message i sequence sender delivery) p)"
proof -
  have "validate_send t sender pid = Ok ()"
    using s get live by (auto simp: validate_send_def validate_sender_def validate_recipient_def is_alive_get bind_out_def)
  then have "send_typed Q sender pid delivery t = enqueue_message Q sender pid delivery t"
    by (simp add: send_typed_def bind_st_def read_st_def)
  with enqueue_message_law [OF ok get live, of sender delivery] that show ?thesis by metis
qed

lemma validate_send_alive: "validate_send t sender recipient = Ok () \<longleftrightarrow> is_alive t sender \<and> is_alive t recipient"
  by (auto simp: validate_send_def validate_sender_def validate_recipient_def is_alive_def bind_out_def
      split: option.splits)

lemma validate_send_result: "validate_send t sender recipient = Ok () \<or> (\<exists>e. validate_send t sender recipient = Err e)"
  by (auto simp: validate_send_def validate_sender_def validate_recipient_def bind_out_def split: option.splits)

lemma reserve_then_send_law:
  assumes b: "books Q contents capacity c (mem, resources, t)"
    and s: "is_alive t sender" and get: "pt_get t pid = Some p" and live: "\<not> is_exited (proc_state p)"
    and n: "delivery_accounted_bytes delivery = n"
  obtains out mem' t' where
    "reserve_then_send pid n (send_typed Q sender pid delivery) (mem, t) = (Ok out, (mem', t'))"
    "books Q contents capacity c (mem', resources, t')"
    "(send_publication out = None) = (unat (lim_hard_bytes (mem_limits mem)) < unat (proc_heap_bytes p) + unat n)"
    "pressure_outcome (send_pressure out) = HardLimitRejected \<longleftrightarrow> send_publication out = None"
    "send_publication out = None \<Longrightarrow> pt_get t' = pt_get t"
    "send_publication out \<noteq> None \<Longrightarrow> \<exists>i sequence. send_publication out = Some (after_enqueue i pid n)
       \<and> pt_get t' = (pt_get t)(pid \<mapsto> proc_integrate_message (delivered_message i sequence sender delivery)
           (p\<lparr> proc_heap_bytes := proc_heap_bytes p + n \<rparr>))"
proof -
  obtain d mem' t' where d: "account_heap pid n (mem, t) = (Ok d, (mem', t'))"
      "pressure_outcome d = (if unat (lim_hard_bytes (mem_limits mem)) < unat (proc_heap_bytes p) + unat n
         then HardLimitRejected
         else if unat (lim_soft_bytes (mem_limits mem)) < unat (proc_heap_bytes p) + unat n
         then SoftLimitExceeded else Accounted)"
      "pt_get t' = (pt_get t)(pid \<mapsto> p\<lparr> proc_heap_bytes :=
         (if pressure_outcome d = HardLimitRejected then proc_heap_bytes p else proc_heap_bytes p + n) \<rparr>)"
      "books Q contents capacity (if pressure_outcome d = HardLimitRejected then c else c(pid := c pid + unat n))
         (mem', resources, t')"
    by (rule account_heap_live [OF b get live, of n])
  have rejected: "pressure_outcome d = HardLimitRejected
      \<longleftrightarrow> unat (lim_hard_bytes (mem_limits mem)) < unat (proc_heap_bytes p) + unat n"
    using d(2) by simp
  show ?thesis
  proof (cases "pressure_outcome d = HardLimitRejected")
    case True
    have run: "reserve_then_send pid n (send_typed Q sender pid delivery) (mem, t)
        = (Ok \<lparr> send_publication = None, send_pressure = d \<rparr>, (mem', t'))"
      using d(1) True by (simp add: reserve_then_send_def bind_st_def return_st_def)
    have same: "pt_get t' = pt_get t" using d(3) get by (simp add: True fun_upd_idem)
    from d(4) True have b': "books Q contents capacity c (mem', resources, t')" by simp
    show ?thesis by (rule that [OF run b']) (use True rejected same in simp_all)
  next
    case False
    let ?p = "p\<lparr> proc_heap_bytes := proc_heap_bytes p + n \<rparr>"
    have b1: "books Q contents capacity (c(pid := c pid + unat n)) (mem', resources, t')"
      and get1: "pt_get t' = (pt_get t)(pid \<mapsto> ?p)" using d(3,4) False by simp_all
    have alive1: "is_alive t' sender" using table_update(3) [OF get1, of sender] s live by simp
    have get1': "pt_get t' pid = Some ?p" and live1: "\<not> is_exited (proc_state ?p)"
      using live by (simp_all add: get1)
    obtain i sequence t'' where t'': "send_typed Q sender pid delivery t' = (Ok i, t'')"
        "pt_ok Q contents capacity t''"
        "pt_get t'' = (pt_get t')(pid \<mapsto> proc_integrate_message (delivered_message i sequence sender delivery) ?p)"
      by (rule send_typed_alive [OF booksD(1) [OF b1] alive1 get1' live1])
    have run: "reserve_then_send pid n (send_typed Q sender pid delivery) (mem, t)
        = (Ok \<lparr> send_publication = Some (after_enqueue i pid n), send_pressure = d \<rparr>, (mem', t''))"
      using d(1) False t''(1) by (simp add: reserve_then_send_def bind_st_def return_st_def beside_memory_def)
    have b2: "books Q contents capacity c (mem', resources, t'')"
      by (rule books_mailbox_change [OF b1 get1' live1 t''(2,3)])
        (use live n in \<open>simp_all add: proc_integrate_mailbox mailbox_bytes_enqueue delivered_message_def\<close>)
    show ?thesis
      by (rule that [OF run b2]) (use False rejected t''(3) get1 in auto)
  qed
qed

text \<open>Every send either is refused without effect, or is a reservation and a delivery.\<close>

lemma reserve_then_send_keeps:
  assumes b: "books Q contents capacity c (mem, resources, t)" and "is_alive t sender" "is_alive t recipient"
    and "delivery_accounted_bytes delivery = n"
    and run: "reserve_then_send recipient n (send_typed Q sender recipient delivery) (mem, t) = (r, (mem', t'))"
  shows "books Q contents capacity c (mem', resources, t') \<and> is_Ok r"
proof -
  obtain p where "pt_get t recipient = Some p" "\<not> is_exited (proc_state p)"
    using assms(3) by (auto simp: is_alive_get)
  from reserve_then_send_law [OF b assms(2) this assms(4)] run show ?thesis by (metis prod.inject is_Ok.simps(1))
qed

section \<open>Receives\<close>

definition message_bytes :: "VmMessage option \<Rightarrow> usize" where
  "message_bytes m = (case m of Some m \<Rightarrow> msg_accounted_bytes m | None \<Rightarrow> 0)"

text \<open>A process takes a message, or none, out of its mailbox, and its charge is released.\<close>

definition takes :: "(VmProcess \<Rightarrow> 'x \<times> VmProcess) \<Rightarrow> ('x \<Rightarrow> VmMessage option) \<Rightarrow> bool" where
  "takes mutate message \<longleftrightarrow> (\<forall>p. lanes_ok (proc_mailbox p) \<longrightarrow> (\<exists>x ms. mutate p = (x, p\<lparr> proc_mailbox := ms \<rparr>)
     \<and> lanes_ok ms \<and> mailbox_bytes ms + unat (message_bytes (message x)) = mailbox_bytes (proc_mailbox p)))"

lemma receive_law:
  assumes b: "books Q contents capacity c (mem, resources, t)"
    and get: "pt_get t pid = Some p" and live: "\<not> is_exited (proc_state p)"
    and m: "takes mutate message"
  obtains x ms t1 mem' t' where "mutate p = (x, p\<lparr> proc_mailbox := ms \<rparr>)"
    "with_live_process_mut pid mutate t = (Ok x, t1)"
    "release_received pid (message x) (mem, t1) = (Ok (), (mem', t'))" "books Q contents capacity c (mem', resources, t')"
    "pt_get t' = (pt_get t)(pid \<mapsto> p\<lparr> proc_mailbox := ms,
       proc_heap_bytes := proc_heap_bytes p - message_bytes (message x) \<rparr>)"
proof -
  note p_facts = pt_get_facts [OF booksD(1) [OF b] get]
  obtain x ms where x: "mutate p = (x, p\<lparr> proc_mailbox := ms \<rparr>)" "lanes_ok ms"
      "mailbox_bytes ms + unat (message_bytes (message x)) = mailbox_bytes (proc_mailbox p)"
    using m p_facts(2) unfolding takes_def proc_ok_def by blast
  let ?p = "p\<lparr> proc_mailbox := ms \<rparr>" and ?n = "message_bytes (message x)"
  have p_ok: "proc_ok ?p" using p_facts(2) x(2) live by (simp add: proc_ok_def)
  obtain t1 where t1: "with_live_process_mut pid mutate t = (Ok x, t1)" "pt_ok Q contents capacity t1"
      "pt_get t1 = (pt_get t)(pid \<mapsto> ?p)"
    by (rule live_update_law [where mutate = mutate and r = x and p' = ?p, OF booksD(1) [OF b] get live x(1)])
      (use p_ok live in simp_all)
  have get1: "pt_get t1 pid = Some ?p" and live1: "\<not> is_exited (proc_state ?p)"
    using live by (simp_all add: t1(3))
  have b1: "books Q contents capacity (c(pid := c pid + unat ?n)) (mem, resources, t1)"
    by (rule books_mailbox_change [OF b get live t1(2,3)]) (use live x(3) in simp_all)
  show ?thesis
  proof (cases "message x")
    case None
    then have run: "release_received pid (message x) (mem, t1) = (Ok (), (mem, t1))"
      by (simp add: release_received_def return_st_def)
    have "?n = 0" using None by (simp add: message_bytes_def)
    then have "books Q contents capacity c (mem, resources, t1)"
      and "pt_get t1 = (pt_get t)(pid \<mapsto> p\<lparr> proc_mailbox := ms, proc_heap_bytes := proc_heap_bytes p - ?n \<rparr>)"
      using b1 t1(3) by (simp_all add: fun_upd_idem)
    then show ?thesis by (rule that [OF x(1) t1(1) run])
  next
    case (Some m)
    obtain mem' t' where t': "release_heap pid ?n (mem, t1) = (Ok ?n, (mem', t'))"
        "pt_get t' = (pt_get t1)(pid \<mapsto> ?p\<lparr> proc_heap_bytes := proc_heap_bytes ?p - ?n \<rparr>)"
        "books Q contents capacity ((c(pid := c pid + unat ?n))(pid := (c(pid := c pid + unat ?n)) pid - unat ?n))
           (mem', resources, t')"
      by (rule release_heap_live [OF b1 get1 live1, of ?n]) simp
    have "?n = msg_accounted_bytes m" using Some by (simp add: message_bytes_def)
    then have run: "release_received pid (message x) (mem, t1) = (Ok (), (mem', t'))"
      using t'(1) Some by (simp add: release_received_def bind_st_def return_st_def)
    have "books Q contents capacity c (mem', resources, t')" using t'(3) by (simp add: fun_upd_idem)
    then show ?thesis by (rule that [OF x(1) t1(1) run]) (simp add: t'(2) t1(3))
  qed
qed

lemma takes_next: "takes proc_receive_next id"
  unfolding takes_def
proof (intro allI impI)
  fix p :: VmProcess
  assume lanes: "lanes_ok (proc_mailbox p)"
  show "\<exists>x ms. proc_receive_next p = (x, p\<lparr> proc_mailbox := ms \<rparr>) \<and> lanes_ok ms
      \<and> mailbox_bytes ms + unat (message_bytes (id x)) = mailbox_bytes (proc_mailbox p)"
  proof (cases "proc_mailbox p")
    case Nil
    then show ?thesis using lanes
      by (intro exI [of _ None] exI [of _ "[]"]) (cases p, simp add: proc_receive_next_def message_bytes_def)
  next
    case (Cons m ms)
    then show ?thesis using lanes lanes_ok_remove [of "[]" m ms]
      by (intro exI [of _ "Some m"] exI [of _ ms])
        (simp add: proc_receive_next_def message_bytes_def mailbox_bytes_def)
  qed
qed

lemma takes_selective:
  "takes (\<lambda>process. case proc_selective_receive predicate process of (message, process') \<Rightarrow>
     ((message, inspected_messages predicate process), process')) fst"
  unfolding takes_def
proof (intro allI impI)
  fix p :: VmProcess
  assume lanes: "lanes_ok (proc_mailbox p)"
  obtain m p' where m: "proc_selective_receive predicate p = (m, p')"
    by (cases "proc_selective_receive predicate p")
  show "\<exists>x ms. (case proc_selective_receive predicate p of (message, process') \<Rightarrow>
       ((message, inspected_messages predicate p), process')) = (x, p\<lparr> proc_mailbox := ms \<rparr>) \<and> lanes_ok ms
      \<and> mailbox_bytes ms + unat (message_bytes (fst x)) = mailbox_bytes (proc_mailbox p)"
  proof (cases m)
    case None
    then have "p' = p" using m by (auto simp: proc_selective_receive_def nth_opt_def position_Some split: option.splits if_splits)
    then show ?thesis using m None lanes
      by (intro exI [of _ "(None, inspected_messages predicate p)"] exI [of _ "proc_mailbox p"])
        (cases p, simp add: message_bytes_def)
  next
    case (Some msg)
    from m have "proc_selective_receive predicate p = (Some msg, p')" by (simp add: Some)
    then obtain skipped rest where split: "proc_mailbox p = skipped @ msg # rest"
        "p' = p\<lparr> proc_mailbox := skipped @ rest \<rparr>"
      by (rule selective_receive_Some)
    then show ?thesis using m Some lanes lanes_ok_remove [of skipped msg rest]
      by (intro exI [of _ "(Some msg, inspected_messages predicate p)"] exI [of _ "skipped @ rest"])
        (simp add: message_bytes_def mailbox_bytes_def)
  qed
qed

lemma receive_keeps:
  assumes b: "books Q contents capacity c (mem, resources, t)" and m: "takes mutate message"
    and run: "bind_st (beside_memory (with_live_process_mut pid mutate)) (\<lambda>x.
       bind_st (release_received pid (message x)) (\<lambda>_. return_st (g x))) (mem, t) = (r, (mem', t'))"
  shows "books Q contents capacity c (mem', resources, t')"
proof (cases "is_alive t pid")
  case False
  then show ?thesis
    using with_live_dead [OF False, of mutate] run b by (auto simp: bind_st_def beside_memory_def)
next
  case True
  then obtain p where "pt_get t pid = Some p" "\<not> is_exited (proc_state p)" by (auto simp: is_alive_get)
  from receive_law [OF b this m] obtain x t1 mem2 t2 where
      "with_live_process_mut pid mutate t = (Ok x, t1)"
      "release_received pid (message x) (mem, t1) = (Ok (), (mem2, t2))" "books Q contents capacity c (mem2, resources, t2)"
    by metis
  then show ?thesis using run by (auto simp: bind_st_def beside_memory_def return_st_def)
qed

end
