(* ===== verification/Memory_Resource_Laws.thy ===== *)
theory Memory_Resource_Laws
  imports Memory_Laws
begin

text \<open>
  The books under changes of ownership: resources registered, moved and released, shared
  allocations retained and dropped. Each law says how the charges move and what credit
  pays for them.
\<close>

section \<open>The order of releases and changes of ownership\<close>

text \<open>A release does not look at ownership, so it may be moved past a change of it.\<close>

definition reassign :: "((u64, VmAccountedResourceOwnership) btree \<Rightarrow> (u64, VmAccountedResourceOwnership) btree)
    \<Rightarrow> ((u64, VmSharedAllocation) btree \<Rightarrow> (u64, VmSharedAllocation) btree)
    \<Rightarrow> VmMemoryAccountant \<Rightarrow> VmMemoryAccountant" where
  "reassign f g mem = mem\<lparr> mem_resource_ownership := f (mem_resource_ownership mem),
     mem_shared_allocations := g (mem_shared_allocations mem) \<rparr>"

lemma change_metrics_reassign: "change_metrics pid h (reassign f g mem) = reassign f g (change_metrics pid h mem)"
  by (simp add: change_metrics_def reassign_def)

lemma release_heap_reassign:
  "release_heap pid n (mem, t) = (Ok b, (mem', t'))
     \<Longrightarrow> release_heap pid n (reassign f g mem, t) = (Ok b, (reassign f g mem', t'))"
  by (auto simp: release_heap_def bind_st_def beside_memory_def change_memory_def return_st_def
      change_metrics_reassign split: prod.splits outcome.splits)

lemma release_heap_reassign':
  assumes "release_heap pid n (reassign f g mem, t) = (Ok b, (mem', t'))"
  obtains mem0 where "release_heap pid n (mem, t) = (Ok b, (mem0, t'))" "reassign f g mem0 = mem'"
    "mem_resource_ownership mem0 = mem_resource_ownership mem"
    "mem_shared_allocations mem0 = mem_shared_allocations mem"
  using assms
  by (auto simp: release_heap_def bind_st_def beside_memory_def change_memory_def return_st_def
      change_metrics_reassign split: prod.splits outcome.splits)

section \<open>Changing one process\<close>

lemma update_process_law:
  assumes ok: "pt_ok Q contents capacity t" and get: "pt_get t pid = Some p" and live: "\<not> is_exited (proc_state p)"
    and p': "proc_pid (f p) = proc_pid p" "proc_ok (f p)" "\<not> is_exited (proc_state (f p))"
  obtains t' where "update_process pid f t = (Ok (), t')" "pt_ok Q contents capacity t'"
    "pt_get t' = (pt_get t)(pid \<mapsto> f p)" "pt_frame t t'"
proof -
  have "(\<lambda>process. (Ok () :: (vm_error, unit) outcome, f process)) p = (Ok (), f p)" by simp
  then obtain t' where "with_process_control_mutator pid (\<lambda>process. (Ok (), f process)) t = (Ok (), t')"
      "pt_ok Q contents capacity t'" "pt_get t' = (pt_get t)(pid \<mapsto> f p)" "pt_frame t t'"
    by (rule with_control_law [OF ok get]) (use p' live pt_get_facts(1) [OF ok get] in simp_all)
  then show ?thesis using that by (simp add: update_process_def)
qed

lemma remove_handle_shape:
  "\<exists>hs. proc_remove_resource_handle h p = p\<lparr> proc_resource_handles := hs \<rparr>"
  by (cases p) (simp add: proc_remove_resource_handle_def split: option.split)

lemma count_remove_at:
  assumes "i < length xs"
  shows "count_list (remove_at i xs) y + (if xs ! i = y then 1 else 0) = count_list xs y"
proof -
  have "count_list xs y = count_list (take i xs @ xs ! i # drop (Suc i) xs) y"
    using remove_at_split [OF assms] by (rule arg_cong)
  then show ?thesis by (simp add: remove_at_def)
qed

lemma count_remove_handle:
  "count_list (proc_resource_handles (proc_remove_resource_handle h p)) h'
     = count_list (proc_resource_handles p) h' - (if h' = h then 1 else 0)"
proof (cases "position (\<lambda>resource. resource = h) (proc_resource_handles p)")
  case None
  then have "h \<notin> set (proc_resource_handles p)" by (auto simp: position_None)
  then show ?thesis using None by (auto simp: proc_remove_resource_handle_def count_list_0_iff)
next
  case (Some i)
  then have "i < length (proc_resource_handles p)" "proc_resource_handles p ! i = h" by (auto simp: position_Some)
  then show ?thesis
    using Some count_remove_at [of i "proc_resource_handles p" h']
    by (auto simp: proc_remove_resource_handle_def)
qed

lemma handle_name_inject [simp]: "resource_handle_name i = resource_handle_name j \<longleftrightarrow> i = j"
  by (simp add: resource_handle_name_def)

text \<open>The handle names of one process and who owns what, after a change of both.\<close>

lemma resources_change:
  assumes ok: "resources_ok resources t" and get: "pt_get t pid = Some p" and live: "\<not> is_exited (proc_state p)"
    and t': "pt_get t' = (pt_get t)(pid \<mapsto> p\<lparr> proc_resource_handles := hs \<rparr>)"
    and r': "bt_ok (rt_resources resources')"
      "\<And>i r. bt_get (rt_resources resources') i = Some r \<Longrightarrow>
          res_id r = i \<and> i \<le> rt_next_id resources' \<and> is_alive t (res_owner r)"
    and hs: "\<And>i. count_list hs (resource_handle_name i) = (if owns_resource resources' pid i then 1 else 0)"
    and others: "\<And>q i. q \<noteq> pid \<Longrightarrow> owns_resource resources' q i = owns_resource resources q i"
  shows "resources_ok resources' t'"
proof -
  have "is_alive t' q = is_alive t q" for q
    using table_update(3) [OF t', of q] get live by (auto simp: is_alive_get)
  then show ?thesis
    using ok r' hs others unfolding resources_ok_def t' by auto
qed

lemma books_handles_change:
  assumes b: "books Q contents capacity c (mem, resources, t)"
    and get: "pt_get t pid = Some p" and live: "\<not> is_exited (proc_state p)"
    and t': "pt_ok Q contents capacity t'" "pt_get t' = (pt_get t)(pid \<mapsto> p\<lparr> proc_resource_handles := hs \<rparr>)"
    and r': "resources_ok resources' t'" "ownership_ok mem' resources'"
    and mem': "mem' = reassign f (\<lambda>m. m) mem"
    and charge: "\<And>q. resource_charge mem' q + c' q = resource_charge mem q + c q"
  shows "books Q contents capacity c' (mem', resources', t')"
proof -
  note u = table_update [OF t'(2)]
  have heap: "heap_of t' = heap_of t" and mail: "mailbox_charge t' = mailbox_charge t"
    using u(1,2) get by (auto simp: heap_of_def mailbox_charge_def fun_eq_iff)
  have alive: "is_alive t' q = is_alive t q" for q
    using u(3) [of q] get live by (auto simp: is_alive_get)
  have m: "mem_limits mem' = mem_limits mem" "metrics_ok mem' = metrics_ok mem" "shared_ok mem' = shared_ok mem"
      "current_bytes_of mem' = current_bytes_of mem" "shared_charge mem' = shared_charge mem"
    by (simp_all add: mem' reassign_def metrics_ok_def shared_ok_def current_bytes_of_def shared_charge_def fun_eq_iff)
  have "unat (heap_of t' q) = charge_of (mem', resources', t') q + c' q" for q
    using booksD(9) [OF b, of q] charge [of q] by (simp add: charge_of_def heap mail m)
  moreover have "shared_ok mem' t'" using booksD(6) [OF b] unfolding m(3) by (simp add: shared_ok_def alive)
  ultimately show ?thesis
    using booksD [OF b] t'(1) r' by (simp add: books_def heap m)
qed

section \<open>Resources\<close>

lemma resource_charge_insert:
  assumes "bt_ok (mem_resource_ownership mem)"
  shows "bt_weight (ownership_weight q) (bt_insert i o' (mem_resource_ownership mem))
      + weight_at (ownership_weight q) (mem_resource_ownership mem) i
    = resource_charge mem q + ownership_weight q o'"
  using bt_weight_insert [OF assms] by (simp add: resource_charge_def)

text \<open>A row of the table appears with its handle and account, or disappears with them.\<close>

lemma gain_row:
  assumes b: "books Q contents capacity c (mem, resources, t)"
    and get: "pt_get t pid = Some p" and live: "\<not> is_exited (proc_state p)"
    and t': "pt_ok Q contents capacity t'"
      "pt_get t' = (pt_get t)(pid \<mapsto> proc_add_resource_handle (resource_handle_name i) p)"
    and row: "bt_get (rt_resources resources) i = None" "res_id row = i" "res_owner row = pid"
    and r': "rt_next_id resources \<le> rt_next_id resources'" "i \<le> rt_next_id resources'"
      "rt_resources resources' = bt_insert i row (rt_resources resources)"
    and o': "own_resource_id o' = i" "own_owner o' = pid" "unat (own_logical_bytes o') \<le> c pid"
  shows "books Q contents capacity (c(pid := c pid - unat (own_logical_bytes o')))
     (reassign (bt_insert i o') (\<lambda>m. m) mem, resources', t')"
proof -
  let ?hs = "proc_resource_handles p @ [resource_handle_name i]"
  have get': "pt_get t' = (pt_get t)(pid \<mapsto> p\<lparr> proc_resource_handles := ?hs \<rparr>)"
    using t'(2) by (simp add: proc_add_resource_handle_def)
  have owns: "owns_resource resources' q j \<longleftrightarrow> (if j = i then q = pid else owns_resource resources q j)" for q j
    by (auto simp: owns_resource_def r'(3) row)
  have not_owned: "\<not> owns_resource resources q i" for q using row(1) by (simp add: owns_resource_def)
  have alive: "is_alive t pid" using get live by (simp add: is_alive_get)
  have known: "res_id r = j \<and> j \<le> rt_next_id resources' \<and> is_alive t (res_owner r)"
    if "bt_get (rt_resources resources) j = Some r" for j r
  proof -
    have "res_id r = j \<and> j \<le> rt_next_id resources \<and> is_alive t (res_owner r)"
      using that booksD(4) [OF b] by (simp add: resources_ok_def)
    then show ?thesis using order_trans [OF _ r'(1)] by blast
  qed
  have rt': "resources_ok resources' t'"
  proof (rule resources_change [OF booksD(4) [OF b] get live get'])
    show "bt_ok (rt_resources resources')" using booksD(4) [OF b] by (simp add: r'(3) resources_ok_def)
    show "res_id r = j \<and> j \<le> rt_next_id resources' \<and> is_alive t (res_owner r)"
      if "bt_get (rt_resources resources') j = Some r" for j r
      using that known [of j r] alive r'(2) row by (auto simp: r'(3) split: if_splits)
    show "count_list ?hs (resource_handle_name j) = (if owns_resource resources' pid j then 1 else 0)" for j
      using booksD(4) [OF b] get not_owned [of pid] by (auto simp: resources_ok_def owns)
    show "owns_resource resources' q j = owns_resource resources q j" if "q \<noteq> pid" for q j
      using that not_owned [of q] by (auto simp: owns)
  qed
  let ?mem = "reassign (bt_insert i o') (\<lambda>m. m) mem"
  have own_ok: "ownership_ok mem resources" by (rule booksD(5) [OF b])
  have "map_option own_owner (bt_get (mem_resource_ownership mem) i) = None"
    using own_ok row(1) by (simp add: ownership_ok_def)
  then have own_fresh: "bt_get (mem_resource_ownership mem) i = None" by simp
  have own': "ownership_ok ?mem resources'"
    using own_ok o'(1,2) row(3) by (auto simp: ownership_ok_def reassign_def r'(3))
  have "resource_charge ?mem q + (c(pid := c pid - unat (own_logical_bytes o'))) q = resource_charge mem q + c q" for q
    using resource_charge_insert [of mem q i o'] own_ok own_fresh o'
    by (simp add: resource_charge_def reassign_def weight_at_def ownership_weight_def ownership_ok_def)
  then show ?thesis by (rule books_handles_change [OF b get live t'(1) get' rt' own' refl])
qed

lemma lose_row:
  assumes b: "books Q contents capacity c (mem, resources, t)"
    and get: "pt_get t pid = Some p" and live: "\<not> is_exited (proc_state p)"
    and t': "pt_ok Q contents capacity t'"
      "pt_get t' = (pt_get t)(pid \<mapsto> proc_remove_resource_handle (resource_handle_name i) p)"
    and row: "bt_get (rt_resources resources) i = Some row" "res_owner row = pid"
    and r': "resources' = resources\<lparr> rt_resources := bt_remove i (rt_resources resources) \<rparr>"
    and o': "bt_get (mem_resource_ownership mem) i = Some o'"
  shows "books Q contents capacity (c(pid := c pid + unat (own_logical_bytes o')))
     (reassign (bt_remove i) (\<lambda>m. m) mem, resources', t')"
proof -
  let ?n = "resource_handle_name i"
  obtain hs where hs: "proc_remove_resource_handle ?n p = p\<lparr> proc_resource_handles := hs \<rparr>"
    using remove_handle_shape [of ?n p] by blast
  have get': "pt_get t' = (pt_get t)(pid \<mapsto> p\<lparr> proc_resource_handles := hs \<rparr>)" using t'(2) hs by simp
  have own_ok: "ownership_ok mem resources" by (rule booksD(5) [OF b])
  have "map_option own_owner (bt_get (mem_resource_ownership mem) i) = Some pid"
    using own_ok row by (simp add: ownership_ok_def)
  then have owner: "own_owner o' = pid" using o' by simp
  have owned: "owns_resource resources pid i" using row by (simp add: owns_resource_def)
  have owns: "owns_resource resources' q j \<longleftrightarrow> j \<noteq> i \<and> owns_resource resources q j" for q j
    by (auto simp: owns_resource_def r')
  have rt': "resources_ok resources' t'"
  proof (rule resources_change [OF booksD(4) [OF b] get live get'])
    show "bt_ok (rt_resources resources')"
      using booksD(4) [OF b] by (simp add: r' resources_ok_def)
    show "res_id r = j \<and> j \<le> rt_next_id resources' \<and> is_alive t (res_owner r)"
      if "bt_get (rt_resources resources') j = Some r" for j r
      using that booksD(4) [OF b] by (auto simp: r' resources_ok_def split: if_splits)
    show "count_list hs (resource_handle_name j) = (if owns_resource resources' pid j then 1 else 0)" for j
      using count_remove_handle [of ?n p "resource_handle_name j"] booksD(4) [OF b] get owned
      by (auto simp: resources_ok_def owns hs)
    show "owns_resource resources' q j = owns_resource resources q j" if "q \<noteq> pid" for q j
      using that row unfolding owns by (auto simp: owns_resource_def)
  qed
  let ?mem = "reassign (bt_remove i) (\<lambda>m. m) mem"
  have own': "ownership_ok ?mem resources'"
    using own_ok by (auto simp: ownership_ok_def reassign_def r')
  have "resource_charge ?mem q + (c(pid := c pid + unat (own_logical_bytes o'))) q = resource_charge mem q + c q" for q
    using bt_weight_remove [of "mem_resource_ownership mem" "ownership_weight q" i] own_ok o' owner
    by (auto simp: resource_charge_def reassign_def weight_at_def ownership_weight_def ownership_ok_def)
  then show ?thesis by (rule books_handles_change [OF b get live t'(1) get' rt' own' refl])
qed

text \<open>The operations of the resource table, with the accounts that follow them.\<close>

lemma handle_law:
  assumes ok: "pt_ok Q contents capacity t" and get: "pt_get t pid = Some p" and live: "\<not> is_exited (proc_state p)"
  obtains t' where "update_process pid (proc_add_resource_handle h) t = (Ok (), t')" "pt_ok Q contents capacity t'"
    "pt_get t' = (pt_get t)(pid \<mapsto> proc_add_resource_handle h p)"
  using update_process_law [OF ok get live, of "proc_add_resource_handle h"] live pt_get_facts(2) [OF ok get]
  by (auto simp: proc_add_resource_handle_def)

lemma unhandle_law:
  assumes ok: "pt_ok Q contents capacity t" and get: "pt_get t pid = Some p" and live: "\<not> is_exited (proc_state p)"
  obtains t' where "update_process pid (proc_remove_resource_handle h) t = (Ok (), t')" "pt_ok Q contents capacity t'"
    "pt_get t' = (pt_get t)(pid \<mapsto> proc_remove_resource_handle h p)"
proof -
  obtain hs where "proc_remove_resource_handle h p = p\<lparr> proc_resource_handles := hs \<rparr>"
    using remove_handle_shape by blast
  then show ?thesis
    using update_process_law [OF ok get live, of "proc_remove_resource_handle h"] live pt_get_facts(2) [OF ok get] that
    by auto
qed

lemma resource_register_law:
  assumes b: "books Q contents capacity c (mem, resources, t)"
    and get: "pt_get t pid = Some p" and live: "\<not> is_exited (proc_state p)"
    and room: "rt_next_id resources \<noteq> - 1" and n: "unat n \<le> c pid"
  defines "i \<equiv> saturating_add (rt_next_id resources) 1"
  obtains resources' t' where "resource_register pid descriptor policy (resources, t)
      = (Ok (Registered i pid), (resources', t'))"
    "bt_get (rt_resources resources) i = None" "rt_next_id resources' = i"
    "rt_resources resources' = bt_insert i \<lparr> res_id = i, res_owner = pid, res_descriptor = descriptor,
       res_transfer_policy = policy, res_accelerator_handle = None \<rparr> (rt_resources resources)"
    "pt_get t' = (pt_get t)(pid \<mapsto> proc_add_resource_handle (resource_handle_name i) p)"
    "books Q contents capacity (c(pid := c pid - unat n)) (reassign (bt_insert i
          \<lparr> own_resource_id = i, own_owner = pid, own_logical_bytes = n \<rparr>) (\<lambda>m. m) mem, resources', t')"
proof -
  obtain t' where t': "update_process pid (proc_add_resource_handle (resource_handle_name i)) t = (Ok (), t')"
      "pt_ok Q contents capacity t'"
      "pt_get t' = (pt_get t)(pid \<mapsto> proc_add_resource_handle (resource_handle_name i) p)"
    by (rule handle_law [OF booksD(1) [OF b] get live])
  define row where "row = \<lparr> res_id = i, res_owner = pid, res_descriptor = descriptor,
       res_transfer_policy = policy, res_accelerator_handle = None \<rparr>"
  define resources' where "resources' = \<lparr> rt_next_id = i, rt_resources = bt_insert i row (rt_resources resources) \<rparr>"
  have up: "rt_next_id resources < i" unfolding i_def by (rule saturating_add_one_gt [OF room])
  have fresh: "bt_get (rt_resources resources) i = None"
  proof (rule ccontr)
    assume "bt_get (rt_resources resources) i \<noteq> None"
    then have "i \<le> rt_next_id resources" using booksD(4) [OF b] by (auto simp: resources_ok_def)
    then show False using up by simp
  qed
  have run: "resource_register pid descriptor policy (resources, t) = (Ok (Registered i pid), (resources', t'))"
    using get live t'(1)
    by (simp add: resource_register_def bind_st_def read_st_def return_st_def resource_ensure_live_def
        change_resources_def beside_resources_def resources'_def row_def i_def)
  have "books Q contents capacity (c(pid := c pid - unat n)) (reassign (bt_insert i
          \<lparr> own_resource_id = i, own_owner = pid, own_logical_bytes = n \<rparr>) (\<lambda>m. m) mem, resources', t')"
    using gain_row [OF b get live t'(2,3) fresh, where row = row and resources' = resources'
        and o' = "\<lparr> own_resource_id = i, own_owner = pid, own_logical_bytes = n \<rparr>"] up n
    by (simp add: row_def resources'_def)
  then show ?thesis by (intro that [OF run fresh]) (simp_all add: resources'_def row_def t'(3))
qed

lemma owner_account:
  assumes "books Q contents capacity c (mem, resources, t)"
    "bt_get (rt_resources resources) i = Some row" "res_owner row = pid"
  obtains o' where "bt_get (mem_resource_ownership mem) i = Some o'" "own_owner o' = pid" "own_resource_id o' = i"
proof -
  have own: "ownership_ok mem resources" by (rule booksD(5) [OF assms(1)])
  then have "map_option own_owner (bt_get (mem_resource_ownership mem) i) = Some pid"
    using assms(2,3) by (simp add: ownership_ok_def)
  then show ?thesis using own that by (auto simp: ownership_ok_def)
qed

lemma release_law:
  assumes b: "books Q contents capacity c (mem, resources, t)"
    and get: "pt_get t pid = Some p" and live: "\<not> is_exited (proc_state p)"
    and r: "bt_get (rt_resources resources) i = Some row" "res_owner row = pid"
    and o': "bt_get (mem_resource_ownership mem) i = Some o'"
  obtains resources' t' where
    "resource_release pid i (resources, t) = (Ok (Released i pid), (resources', t'))"
    "resources' = resources\<lparr> rt_resources := bt_remove i (rt_resources resources) \<rparr>"
    "pt_get t' = (pt_get t)(pid \<mapsto> proc_remove_resource_handle (resource_handle_name i) p)"
    "books Q contents capacity (c(pid := c pid + unat (own_logical_bytes o')))
       (reassign (bt_remove i) (\<lambda>m. m) mem, resources', t')"
proof -
  obtain t' where t': "update_process pid (proc_remove_resource_handle (resource_handle_name i)) t = (Ok (), t')"
      "pt_ok Q contents capacity t'"
      "pt_get t' = (pt_get t)(pid \<mapsto> proc_remove_resource_handle (resource_handle_name i) p)"
    by (rule unhandle_law [OF booksD(1) [OF b] get live])
  let ?r = "resources\<lparr> rt_resources := bt_remove i (rt_resources resources) \<rparr>"
  have run: "resource_release pid i (resources, t) = (Ok (Released i pid), (?r, t'))"
    using get live t'(1) r
    by (simp add: resource_release_def bind_st_def read_st_def return_st_def resource_ensure_live_def
        validate_release_def live_resource_def require_resource_owner_def bind_out_def ok_or_def
        change_resources_def beside_resources_def)
  show ?thesis
    by (rule that [OF run refl t'(3) lose_row [OF b get live t'(2,3) r refl o']])
qed

lemma bt_insert_remove: "bt_ok m \<Longrightarrow> bt_insert k v (bt_remove k m) = bt_insert k v m"
  by (rule bt_ext) auto

lemma remove_handle_frame [simp]:
  "proc_state (proc_remove_resource_handle h p) = proc_state p"
  "proc_heap_bytes (proc_remove_resource_handle h p) = proc_heap_bytes p"
  "proc_mailbox (proc_remove_resource_handle h p) = proc_mailbox p"
  "proc_pid (proc_remove_resource_handle h p) = proc_pid p"
  using remove_handle_shape [of h p] by auto

lemma transfer_law:
  assumes b: "books Q contents capacity c (mem, resources, t)"
    and get: "pt_get t source_pid = Some p" and live: "\<not> is_exited (proc_state p)"
    and target: "is_alive t target_pid"
    and r: "bt_get (rt_resources resources) i = Some row" "res_owner row = source_pid"
      "res_transfer_policy row = Transferable"
    and o': "bt_get (mem_resource_ownership mem) i = Some o'"
    and paid: "source_pid \<noteq> target_pid \<Longrightarrow> unat (own_logical_bytes o') \<le> c target_pid"
  obtains resources' t' where
    "resource_transfer i source_pid target_pid (resources, t)
      = (Ok (Transferred i source_pid target_pid), (resources', t'))"
    "resources' = resources\<lparr> rt_resources := bt_insert i (row\<lparr> res_owner := target_pid \<rparr>) (rt_resources resources) \<rparr>"
    "\<And>q. is_alive t' q = is_alive t q" "heap_of t' = heap_of t"
    "books Q contents capacity (\<lambda>q. c q + (if q = source_pid then unat (own_logical_bytes o') else 0)
         - (if q = target_pid then unat (own_logical_bytes o') else 0))
       (reassign (bt_insert i (o'\<lparr> own_owner := target_pid \<rparr>)) (\<lambda>m. m) mem, resources', t')"
proof -
  let ?h = "resource_handle_name i" and ?n = "unat (own_logical_bytes o')"
  obtain t1 where t1: "update_process source_pid (proc_remove_resource_handle ?h) t = (Ok (), t1)"
      "pt_ok Q contents capacity t1" "pt_get t1 = (pt_get t)(source_pid \<mapsto> proc_remove_resource_handle ?h p)"
    by (rule unhandle_law [OF booksD(1) [OF b] get live])
  define r1 where "r1 = resources\<lparr> rt_resources := bt_remove i (rt_resources resources) \<rparr>"
  let ?c1 = "c(source_pid := c source_pid + ?n)" and ?m1 = "reassign (bt_remove i) (\<lambda>m. m) mem"
  have b1: "books Q contents capacity ?c1 (?m1, r1, t1)"
    by (rule lose_row [OF b get live t1(2,3) r(1,2) r1_def o'])
  have alive1: "is_alive t1 q = is_alive t q" for q
    using table_update(3) [OF t1(3), of q] get live by (auto simp: is_alive_get)
  then obtain q1 where q1: "pt_get t1 target_pid = Some q1" "\<not> is_exited (proc_state q1)"
    using target by (auto simp: is_alive_get)
  obtain t2 where t2: "update_process target_pid (proc_add_resource_handle ?h) t1 = (Ok (), t2)"
      "pt_ok Q contents capacity t2" "pt_get t2 = (pt_get t1)(target_pid \<mapsto> proc_add_resource_handle ?h q1)"
    by (rule handle_law [OF t1(2) q1])
  define r2 where "r2 = resources\<lparr> rt_resources := bt_insert i (row\<lparr> res_owner := target_pid \<rparr>) (rt_resources resources) \<rparr>"
  have ok: "bt_ok (rt_resources resources)" "res_id row = i" "i \<le> rt_next_id resources"
    using booksD(4) [OF b] r(1) by (auto simp: resources_ok_def)
  have own: "bt_ok (mem_resource_ownership mem)" "own_resource_id o' = i"
    using booksD(5) [OF b] o' by (auto simp: ownership_ok_def)
  have m2: "reassign (bt_insert i (o'\<lparr> own_owner := target_pid \<rparr>)) (\<lambda>m. m) ?m1
      = reassign (bt_insert i (o'\<lparr> own_owner := target_pid \<rparr>)) (\<lambda>m. m) mem"
    using own(1) by (simp add: reassign_def bt_insert_remove)
  have "books Q contents capacity (?c1(target_pid := ?c1 target_pid - ?n))
      (reassign (bt_insert i (o'\<lparr> own_owner := target_pid \<rparr>)) (\<lambda>m. m) ?m1, r2, t2)"
    using gain_row [OF b1 q1 t2(2,3), where row = "row\<lparr> res_owner := target_pid \<rparr>" and resources' = r2
        and o' = "o'\<lparr> own_owner := target_pid \<rparr>"] ok own paid
    by (auto simp: r1_def r2_def bt_insert_remove split: if_splits)
  then have b2: "books Q contents capacity (\<lambda>q. c q + (if q = source_pid then ?n else 0)
         - (if q = target_pid then ?n else 0))
      (reassign (bt_insert i (o'\<lparr> own_owner := target_pid \<rparr>)) (\<lambda>m. m) mem, r2, t2)"
    unfolding m2 by (rule books_cong) auto
  have run: "resource_transfer i source_pid target_pid (resources, t)
      = (Ok (Transferred i source_pid target_pid), (r2, t2))"
    using get live target t1(1) t2(1) r
    by (auto simp: resource_transfer_def bind_st_def read_st_def return_st_def resource_ensure_live_def
        validate_transfer_def live_resource_def require_resource_owner_def bind_out_def ok_or_def
        change_resources_def beside_resources_def r2_def is_alive_get Let_def)
  have alive2: "is_alive t2 q = is_alive t q" for q
    using table_update(3) [OF t2(3), of q] q1 alive1 by (auto simp: is_alive_get proc_add_resource_handle_def)
  have "heap_of t1 source_pid = proc_heap_bytes p" "heap_of t1 target_pid = proc_heap_bytes q1"
      "heap_of t source_pid = proc_heap_bytes p"
    using q1(1) get by (simp_all add: heap_of_def t1(3))
  then have heap2: "heap_of t2 = heap_of t"
    using table_update(1) [OF t2(3)] table_update(1) [OF t1(3)]
    by (simp add: proc_add_resource_handle_def fun_upd_idem)
  show ?thesis by (rule that [OF run r2_def alive2 heap2 b2])
qed

end
