(* ===== verification/Memory_Ownership_Laws.thy ===== *)
theory Memory_Ownership_Laws
  imports Memory_Resource_Laws
begin

text \<open>
  The operations of the accountant on resources, shared allocations and collected heaps keep the
  books exact, whatever their arguments: what a process is charged for comes and goes with its
  heap bytes, and the bytes it holds directly stay as they are.
\<close>

section \<open>Resources under accounts\<close>

lemma alive_process: "is_alive t pid \<Longrightarrow> \<exists>p. pt_get t pid = Some p \<and> \<not> is_exited (proc_state p)"
  by (simp add: is_alive_get)

lemma reassign_simps [simp]:
  "mem_resource_ownership (reassign f g mem) = f (mem_resource_ownership mem)"
  "mem_shared_allocations (reassign f g mem) = g (mem_shared_allocations mem)"
  "mem_limits (reassign f g mem) = mem_limits mem"
  "mem_next_shared_allocation_id (reassign f g mem) = mem_next_shared_allocation_id mem"
  by (simp_all add: reassign_def)

lemma account_frame:
  assumes "account_heap pid n (mem, t) = (r, (mem', t'))"
  shows "mem_resource_ownership mem' = mem_resource_ownership mem"
    "mem_shared_allocations mem' = mem_shared_allocations mem"
    "mem_next_shared_allocation_id mem' = mem_next_shared_allocation_id mem" "mem_limits mem' = mem_limits mem"
  using assms
  by (auto simp: account_heap_def bind_st_def read_st_def beside_memory_def change_memory_def return_st_def Let_def
      split: prod.splits outcome.splits)

text \<open>A charge that was accepted, or one that leaves the books as they were.\<close>

lemma account_cases:
  assumes b: "books Q contents capacity c (mem, resources, t)"
    and run: "account_heap pid n (mem, t) = (r, (mem', t'))"
  obtains (refused) e where "r = Err e" "mem' = mem" "t' = t" "\<not> is_alive t pid"
  | (rejected) d where "r = Ok d" "pressure_outcome d = HardLimitRejected"
      "books Q contents capacity c (mem', resources, t')" "pt_get t' = pt_get t" "is_alive t pid"
  | (accepted) d p where "r = Ok d" "pressure_outcome d \<noteq> HardLimitRejected"
      "books Q contents capacity (c(pid := c pid + unat n)) (mem', resources, t')"
      "pt_get t pid = Some p" "\<not> is_exited (proc_state p)"
      "pt_get t' = (pt_get t)(pid \<mapsto> p\<lparr> proc_heap_bytes := proc_heap_bytes p + n \<rparr>)"
      "\<And>q. is_alive t' q = is_alive t q"
proof (cases "is_alive t pid")
  case False
  from account_heap_dead [OF this, of n mem] run refused [of "case r of Err e \<Rightarrow> e | _ \<Rightarrow> undefined"] False
  show ?thesis by auto
next
  case True
  then obtain p where p: "pt_get t pid = Some p" "\<not> is_exited (proc_state p)" using alive_process by blast
  obtain d mem1 t1 where d: "account_heap pid n (mem, t) = (Ok d, (mem1, t1))"
      "pt_get t1 = (pt_get t)(pid \<mapsto> p\<lparr> proc_heap_bytes :=
         (if pressure_outcome d = HardLimitRejected then proc_heap_bytes p else proc_heap_bytes p + n) \<rparr>)"
      "books Q contents capacity (if pressure_outcome d = HardLimitRejected then c else c(pid := c pid + unat n))
         (mem1, resources, t1)"
    by (rule account_heap_live [OF b p, of n])
  have eq: "r = Ok d" "mem' = mem1" "t' = t1" using run d(1) by auto
  show ?thesis
  proof (cases "pressure_outcome d = HardLimitRejected")
    case h: True
    have "pt_get t1 = pt_get t" using d(2) p(1) h by (simp add: fun_upd_idem)
    then show ?thesis using rejected [OF eq(1) h] d(3) eq h True by simp
  next
    case h: False
    have get: "pt_get t1 = (pt_get t)(pid \<mapsto> p\<lparr> proc_heap_bytes := proc_heap_bytes p + n \<rparr>)" using d(2) h by simp
    have "is_alive t1 q = is_alive t q" for q
      using table_update(3) [OF get, of q] p by (auto simp: is_alive_get)
    then show ?thesis using accepted [OF eq(1) h _ p] d(3) eq h get by simp
  qed
qed

lemma accounting_run:
  "accounting f (mem, resources, t) = (case f (mem, t) of (r, (mem, t)) \<Rightarrow> (r, (mem, resources, t)))"
  by (simp add: accounting_def)

lemma register_resource_keeps:
  assumes b: "books Q contents capacity own (mem, resources, t)" and room: "rt_next_id resources \<noteq> - 1"
    and run: "mem_register_resource pid descriptor policy n (mem, resources, t) = (r, s')"
  shows "books Q contents capacity own s'"
proof -
  obtain r1 mem1 t1 where acc: "account_heap pid n (mem, t) = (r1, (mem1, t1))" by (metis prod_cases3)
  have step: "accounting (account_heap pid n) (mem, resources, t) = (r1, (mem1, resources, t1))"
    by (simp add: accounting_run acc)
  from b acc show ?thesis
  proof (cases rule: account_cases)
    case (refused e)
    then show ?thesis using run b step by (auto simp: mem_register_resource_def)
  next
    case (rejected d)
    then show ?thesis using run step by (auto simp: mem_register_resource_def return_st_def)
  next
    case (accepted d p)
    let ?p = "p\<lparr> proc_heap_bytes := proc_heap_bytes p + n \<rparr>" and ?i = "saturating_add (rt_next_id resources) 1"
    let ?o = "\<lparr> own_resource_id = ?i, own_owner = pid, own_logical_bytes = n \<rparr>"
    have get1: "pt_get t1 pid = Some ?p" "\<not> is_exited (proc_state ?p)" using accepted by simp_all
    obtain resources2 t2 where t2: "resource_register pid descriptor policy (resources, t1)
          = (Ok (Registered ?i pid), (resources2, t2))"
        "books Q contents capacity (own(pid := own pid + unat n, pid := (own(pid := own pid + unat n)) pid - unat n))
           (reassign (bt_insert ?i ?o) (\<lambda>m. m) mem1, resources2, t2)"
      by (rule resource_register_law [OF accepted(3) get1 room, of n]) simp
    have b2: "books Q contents capacity own (reassign (bt_insert ?i ?o) (\<lambda>m. m) mem1, resources2, t2)"
      using t2(2) by (simp add: fun_upd_idem)
    have "s' = (reassign (bt_insert ?i ?o) (\<lambda>m. m) mem1, resources2, t2)"
      using run step accepted(1,2) t2(1)
      by (simp add: mem_register_resource_def on_resources_def reassign_def)
    then show ?thesis using b2 by simp
  qed
qed

lemma validate_release_Ok:
  "validate_release resources t pid i = Ok () \<longleftrightarrow> is_alive t pid
     \<and> (\<exists>row. bt_get (rt_resources resources) i = Some row \<and> res_owner row = pid)"
  by (auto simp: validate_release_def resource_ensure_live_def live_resource_def require_resource_owner_def
      bind_out_def ok_or_def is_alive_def split: option.splits)

lemma validate_transfer_Ok:
  "validate_transfer resources t i source_pid target_pid = Ok () \<longleftrightarrow> is_alive t source_pid \<and> is_alive t target_pid
     \<and> (\<exists>row. bt_get (rt_resources resources) i = Some row \<and> res_owner row = source_pid
          \<and> res_transfer_policy row = Transferable)"
  by (auto simp: validate_transfer_def resource_ensure_live_def live_resource_def require_resource_owner_def
      bind_out_def ok_or_def is_alive_def split: option.splits)

lemma no_panic_resource:
  "validate_release resources t pid i \<noteq> Panic x" "validate_transfer resources t i pid q \<noteq> Panic x"
  by (auto simp: validate_release_def validate_transfer_def resource_ensure_live_def live_resource_def
      require_resource_owner_def bind_out_def ok_or_def split: option.splits)

lemma resource_memory_found:
  "bt_get (mem_resource_ownership mem) i = Some o' \<Longrightarrow> own_owner o' = pid \<Longrightarrow> resource_memory_of mem i pid = Ok o'"
  by (simp add: resource_memory_of_def bind_out_def ok_or_def)

lemma release_resource_keeps:
  assumes b: "books Q contents capacity own (mem, resources, t)"
    and run: "mem_release_resource pid i (mem, resources, t) = (r, s')"
  shows "books Q contents capacity own s'"
proof (cases "validate_release resources t pid i")
  case (Err e)
  then show ?thesis using run b by (simp add: mem_release_resource_def bind_st_def read_st_def)
next
  case (Panic x)
  then show ?thesis using no_panic_resource by blast
next
  case (Ok u)
  then obtain row p where row: "bt_get (rt_resources resources) i = Some row" "res_owner row = pid"
      and p: "pt_get t pid = Some p" "\<not> is_exited (proc_state p)"
    by (auto simp: validate_release_Ok is_alive_get)
  obtain o' where o': "bt_get (mem_resource_ownership mem) i = Some o'" "own_owner o' = pid"
    by (rule owner_account [OF b row])
  let ?n = "own_logical_bytes o'"
  obtain resources1 t1 where t1: "resource_release pid i (resources, t) = (Ok (Released i pid), (resources1, t1))"
      "pt_get t1 = (pt_get t)(pid \<mapsto> proc_remove_resource_handle (resource_handle_name i) p)"
      "books Q contents capacity (own(pid := own pid + unat ?n))
         (reassign (bt_remove i) (\<lambda>m. m) mem, resources1, t1)"
    by (rule release_law [OF b p row o'(1)])
  have get1: "pt_get t1 pid = Some (proc_remove_resource_handle (resource_handle_name i) p)"
    "\<not> is_exited (proc_state (proc_remove_resource_handle (resource_handle_name i) p))"
    using p(2) by (simp_all add: t1(2))
  obtain mem2 t2 where t2: "release_heap pid ?n (reassign (bt_remove i) (\<lambda>m. m) mem, t1) = (Ok ?n, (mem2, t2))"
      "books Q contents capacity (own(pid := own pid + unat ?n, pid := (own(pid := own pid + unat ?n)) pid - unat ?n))
         (mem2, resources1, t2)"
    by (rule release_heap_live [OF t1(3) get1, of ?n]) simp
  obtain mem0 where mem0: "release_heap pid ?n (mem, t1) = (Ok ?n, (mem0, t2))"
      "reassign (bt_remove i) (\<lambda>m. m) mem0 = mem2"
    by (rule release_heap_reassign' [OF t2(1)])
  have "s' = (reassign (bt_remove i) (\<lambda>m. m) mem0, resources1, t2)"
    using run Ok resource_memory_found [OF o'] t1(1) mem0(1)
    by (simp add: mem_release_resource_def bind_st_def read_st_def on_resources_def accounting_run reassign_def)
  then show ?thesis using t2(2) mem0(2) by (simp add: fun_upd_idem)
qed

lemma transfer_resource_keeps:
  assumes b: "books Q contents capacity own (mem, resources, t)"
    and run: "mem_transfer_resource i source_pid target_pid (mem, resources, t) = (r, s')"
  shows "books Q contents capacity own s'"
proof (cases "validate_transfer resources t i source_pid target_pid")
  case (Err e)
  then show ?thesis using run b by (simp add: mem_transfer_resource_def bind_st_def read_st_def)
next
  case (Panic x)
  then show ?thesis using no_panic_resource by blast
next
  case (Ok u)
  then obtain row where row: "bt_get (rt_resources resources) i = Some row" "res_owner row = source_pid"
      "res_transfer_policy row = Transferable" and alive: "is_alive t source_pid" "is_alive t target_pid"
    by (auto simp: validate_transfer_Ok)
  obtain o' where o': "bt_get (mem_resource_ownership mem) i = Some o'" "own_owner o' = source_pid"
    by (rule owner_account [OF b row(1,2)])
  let ?n = "own_logical_bytes o'" and ?g = "bt_insert i (o'\<lparr> own_owner := target_pid \<rparr>)"
  let ?charge = "if source_pid = target_pid then 0 else ?n"
  obtain r1 mem1 t1 where acc: "account_heap target_pid ?charge (mem, t) = (r1, (mem1, t1))" by (metis prod_cases3)
  have step: "accounting (account_heap target_pid ?charge) (mem, resources, t) = (r1, (mem1, resources, t1))"
    by (simp add: accounting_run acc)
  note start = mem_transfer_resource_def bind_st_def read_st_def Ok resource_memory_found [OF o'] Let_def step
  from b acc show ?thesis
  proof (cases rule: account_cases)
    case (refused e)
    then show ?thesis using alive by simp
  next
    case (rejected d)
    then show ?thesis using run by (auto simp: start return_st_def)
  next
    case (accepted d q)
    obtain p1 where p1: "pt_get t1 source_pid = Some p1" "\<not> is_exited (proc_state p1)"
      using alive(1) accepted(7) alive_process by blast
    have alive1: "is_alive t1 target_pid" using accepted(7) alive(2) by simp
    have o1: "bt_get (mem_resource_ownership mem1) i = Some o'" using o'(1) account_frame(1) [OF acc] by simp
    obtain resources2 t2 where t2: "resource_transfer i source_pid target_pid (resources, t1)
          = (Ok (Transferred i source_pid target_pid), (resources2, t2))"
        "\<And>q. is_alive t2 q = is_alive t1 q"
        "books Q contents capacity (\<lambda>q. (own(target_pid := own target_pid + unat ?charge)) q
            + (if q = source_pid then unat ?n else 0) - (if q = target_pid then unat ?n else 0))
           (reassign ?g (\<lambda>m. m) mem1, resources2, t2)"
      by (rule transfer_law [OF accepted(3) p1 alive1 row o1]) auto
    show ?thesis
    proof (cases "source_pid = target_pid")
      case True
      have "o'\<lparr> own_owner := target_pid \<rparr> = o'" using o'(2) True by simp
      moreover have "bt_insert i o' (mem_resource_ownership mem1) = mem_resource_ownership mem1"
        by (rule bt_ext) (use booksD(5) [OF accepted(3)] o1 in \<open>auto simp: ownership_ok_def\<close>)
      ultimately have same: "reassign ?g (\<lambda>m. m) mem1 = mem1" by (simp add: reassign_def)
      have "books Q contents capacity own (mem1, resources2, t2)"
        using t2(3) unfolding same by (rule books_cong) (use True in simp)
      moreover have "s' = (mem1, resources2, t2)"
        using run accepted(1,2) t2(1) by (simp add: start on_resources_def if_P [OF True] step [unfolded if_P [OF True]])
      ultimately show ?thesis by simp
    next
      case False
      obtain p2 where p2: "pt_get t2 source_pid = Some p2" "\<not> is_exited (proc_state p2)"
        using t2(2) p1 alive_process [of t2 source_pid] by (auto simp: is_alive_get)
      have b2: "books Q contents capacity (own(source_pid := own source_pid + unat ?n)) (reassign ?g (\<lambda>m. m) mem1, resources2, t2)"
        by (rule books_cong [OF t2(3)]) (use False in auto)
      obtain mem3 t3 where t3: "release_heap source_pid ?n (reassign ?g (\<lambda>m. m) mem1, t2) = (Ok ?n, (mem3, t3))"
          "books Q contents capacity (own(source_pid := own source_pid + unat ?n,
             source_pid := (own(source_pid := own source_pid + unat ?n)) source_pid - unat ?n)) (mem3, resources2, t3)"
        by (rule release_heap_live [OF b2 p2, of ?n]) simp
      obtain mem0 where mem0: "release_heap source_pid ?n (mem1, t2) = (Ok ?n, (mem0, t3))"
          "reassign ?g (\<lambda>m. m) mem0 = mem3" "mem_resource_ownership mem0 = mem_resource_ownership mem1"
        by (rule release_heap_reassign' [OF t3(1)])
      have "s' = (reassign ?g (\<lambda>m. m) mem0, resources2, t3)"
        using run accepted(1,2) t2(1) mem0(1,3) o1
        by (simp add: start on_resources_def step [unfolded if_not_P [OF False]] if_not_P [OF False]
            lift_account(2) [OF mem0(1)] reassign_def)
      then show ?thesis using t3(2) mem0(2) by (simp add: fun_upd_idem)
    qed
  qed
qed

section \<open>Shared allocations\<close>

lemma books_shared_change:
  assumes b: "books Q contents capacity c (mem, resources, t)"
    and mem': "mem' = (reassign (\<lambda>m. m) g mem)\<lparr> mem_next_shared_allocation_id := k \<rparr>"
    and ok: "shared_ok mem' t"
    and charge: "\<And>q. shared_charge mem' q + c' q = shared_charge mem q + c q"
  shows "books Q contents capacity c' (mem', resources, t)"
proof -
  have m: "mem_limits mem' = mem_limits mem" "metrics_ok mem' = metrics_ok mem"
      "ownership_ok mem' = ownership_ok mem" "current_bytes_of mem' = current_bytes_of mem"
      "resource_charge mem' = resource_charge mem"
    by (simp_all add: mem' reassign_def metrics_ok_def ownership_ok_def current_bytes_of_def resource_charge_def fun_eq_iff)
  have "unat (heap_of t q) = charge_of (mem', resources, t) q + c' q" for q
    using booksD(9) [OF b, of q] charge [of q] by (simp add: charge_of_def m)
  then show ?thesis using booksD [OF b] ok by (simp add: books_def m)
qed

lemma shared_found:
  assumes "books Q contents capacity c (mem, resources, t)" "bt_get (mem_shared_allocations mem) i = Some a"
  shows "shared_id a = i" "i \<le> mem_next_shared_allocation_id mem" "bs_ok (shared_owners a)" "shared_owners a \<noteq> []"
    "\<And>pid. pid \<in> set (shared_owners a) \<Longrightarrow> is_alive t pid"
  using booksD(6) [OF assms(1)] assms(2) by (auto simp: shared_ok_def)

lemma owned_shared_Ok:
  "owned_shared_allocation mem i pid = Ok a
     \<longleftrightarrow> bt_get (mem_shared_allocations mem) i = Some a \<and> pid \<in> set (shared_owners a)"
  by (auto simp: owned_shared_allocation_def bind_out_def ok_or_def bs_contains_def split: option.splits)

lemma owned_shared_no_panic: "owned_shared_allocation mem i pid \<noteq> Panic x"
  by (auto simp: owned_shared_allocation_def bind_out_def ok_or_def split: option.splits)

lemma register_shared_keeps:
  assumes b: "books Q contents capacity own (mem, resources, t)"
    and run: "register_shared_allocation pid kind n (mem, t) = (r, (mem', t'))"
  shows "books Q contents capacity own (mem', resources, t')"
proof (cases "checked_add (mem_next_shared_allocation_id mem) 1")
  case None
  then show ?thesis using run b by (simp add: register_shared_allocation_def bind_st_def read_st_def ok_or_def)
next
  case (Some i)
  obtain r1 mem1 t1 where acc: "account_heap pid n (mem, t) = (r1, (mem1, t1))" by (metis prod_cases3)
  note start = register_shared_allocation_def bind_st_def read_st_def ok_or_def Some acc
  from b acc show ?thesis
  proof (cases rule: account_cases)
    case (refused e)
    then show ?thesis using run b by (auto simp: start)
  next
    case (rejected d)
    then show ?thesis using run by (auto simp: start return_st_def)
  next
    case (accepted d p)
    let ?a = "\<lparr> shared_id = i, shared_kind = kind, shared_logical_bytes = n, shared_owners = [pid] \<rparr>"
    have up: "mem_next_shared_allocation_id mem < i"
      using checked_add_unat [OF Some] by (simp add: word_less_nat_alt)
    have frame: "mem_shared_allocations mem1 = mem_shared_allocations mem"
      "mem_next_shared_allocation_id mem1 = mem_next_shared_allocation_id mem"
      by (rule account_frame [OF acc])+
    have fresh: "bt_get (mem_shared_allocations mem1) i = None"
    proof (rule ccontr)
      assume "bt_get (mem_shared_allocations mem1) i \<noteq> None"
      then have "i \<le> mem_next_shared_allocation_id mem" using shared_found(2) [OF b] frame by auto
      then show False using up by simp
    qed
    have known: "j \<le> i" if "bt_get (mem_shared_allocations mem1) j = Some a" for j a
      using order_trans [OF shared_found(2) [OF accepted(3) that] less_imp_le] up frame(2) by simp
    define mem2 where "mem2 = (reassign (\<lambda>m. m) (bt_insert i ?a) mem1)\<lparr> mem_next_shared_allocation_id := i \<rparr>"
    have alive1: "is_alive t1 pid" using accepted(4,5,7) by (simp add: is_alive_get)
    have ok: "shared_ok mem2 t1"
      using booksD(6) [OF accepted(3)] alive1 known
      by (auto simp: shared_ok_def mem2_def bs_ok_def split: if_splits)
    have weight: "shared_charge mem2 q = shared_charge mem1 q + shared_weight q ?a" for q
      using bt_weight_insert [of "mem_shared_allocations mem1" "shared_weight q" i ?a] booksD(6) [OF accepted(3)] fresh
      by (simp add: shared_charge_def mem2_def weight_at_def shared_ok_def)
    have "books Q contents capacity own (mem2, resources, t1)"
      by (rule books_shared_change [OF accepted(3) mem2_def ok]) (simp add: weight shared_weight_def)
    moreover have "mem' = mem2" "t' = t1"
      using run accepted(1,2) by (auto simp: start return_st_def change_memory_def mem2_def reassign_def)
    ultimately show ?thesis by simp
  qed
qed

text \<open>One allocation changes its owners; what that does to the charges.\<close>

lemma shared_charge_insert:
  assumes "books Q contents capacity c (mem, resources, t)" "bt_get (mem_shared_allocations mem) i = Some a"
  shows "shared_charge (reassign (\<lambda>m. m) (bt_insert i a') mem) q + shared_weight q a
    = shared_charge mem q + shared_weight q a'"
  using bt_weight_insert [of "mem_shared_allocations mem" "shared_weight q" i a'] booksD(6) [OF assms(1)] assms(2)
  by (simp add: shared_charge_def weight_at_def shared_ok_def)

lemma shared_charge_remove:
  assumes "books Q contents capacity c (mem, resources, t)" "bt_get (mem_shared_allocations mem) i = Some a"
  shows "shared_charge (reassign (\<lambda>m. m) (bt_remove i) mem) q + shared_weight q a = shared_charge mem q"
  using bt_weight_remove [of "mem_shared_allocations mem" "shared_weight q" i] booksD(6) [OF assms(1)] assms(2)
  by (simp add: shared_charge_def weight_at_def shared_ok_def)

lemma same_next: "(reassign f g mem)\<lparr> mem_next_shared_allocation_id := mem_next_shared_allocation_id mem \<rparr> = reassign f g mem"
  by (simp add: reassign_def)

lemma retain_shared_keeps:
  assumes b: "books Q contents capacity own (mem, resources, t)"
    and run: "retain_shared_allocation i pid new (mem, t) = (r, (mem', t'))"
  shows "books Q contents capacity own (mem', resources, t')"
proof (cases "require_live_account t pid = Ok () \<and> require_live_account t new = Ok ()
    \<and> (\<exists>a. owned_shared_allocation mem i pid = Ok a)")
  case False
  then have "(mem', t') = (mem, t)"
    using run by (auto simp: retain_shared_allocation_def bind_st_def read_st_def split: outcome.splits)
  then show ?thesis using b by simp
next
  case True
  then obtain a where live: "require_live_account t pid = Ok ()" "require_live_account t new = Ok ()"
      and own: "owned_shared_allocation mem i pid = Ok a" by blast
  then have a: "bt_get (mem_shared_allocations mem) i = Some a" "pid \<in> set (shared_owners a)"
    by (simp_all add: owned_shared_Ok)
  let ?n = "if bs_contains (shared_owners a) new then 0 else shared_logical_bytes a"
  obtain r1 mem1 t1 where acc: "account_heap new ?n (mem, t) = (r1, (mem1, t1))" by (metis prod_cases3)
  note start = retain_shared_allocation_def bind_st_def read_st_def live own Let_def acc
  from b acc show ?thesis
  proof (cases rule: account_cases)
    case (refused e)
    then show ?thesis using run b by (simp add: start)
  next
    case (rejected d)
    then show ?thesis using run by (simp add: start return_st_def)
  next
    case (accepted d p)
    let ?a = "a\<lparr> shared_owners := bs_insert new (shared_owners a) \<rparr>"
    have a1: "bt_get (mem_shared_allocations mem1) i = Some a" using a(1) account_frame(2) [OF acc] by simp
    let ?mem = "reassign (\<lambda>m. m) (bt_insert i ?a) mem1"
    have alive1: "is_alive t1 new" using accepted(4,5,7) by (simp add: is_alive_get)
    have ok: "shared_ok ?mem t1"
      using booksD(6) [OF accepted(3)] alive1 shared_found [OF accepted(3) a1]
      by (auto simp: shared_ok_def reassign_def split: if_splits) (metis empty_iff insert_iff list.set(1) set_bs_insert)
    have "books Q contents capacity own (?mem, resources, t1)"
    proof (rule books_shared_change [OF accepted(3) _ ok, where g = "bt_insert i ?a" and k = "mem_next_shared_allocation_id mem1"])
      show "shared_charge ?mem q + own q = shared_charge mem1 q + (own(new := own new + unat ?n)) q" for q
        using shared_charge_insert [OF accepted(3) a1, of ?a q]
        by (auto simp: shared_weight_def bs_contains_def split: if_splits)
    qed (simp add: same_next)
    moreover have "mem' = ?mem" "t' = t1"
      using run accepted(1,2) a1 by (simp_all add: start reassign_def)
    ultimately show ?thesis by simp
  qed
qed

text \<open>Dropping an owner acts on the map of allocations alone, and gives back the charge.\<close>

lemma drop_shared_owner_law:
  assumes b: "books Q contents capacity c (mem, resources, t)"
    and a: "bt_get (mem_shared_allocations mem) i = Some a" "pid \<in> set (shared_owners a)"
  obtains gone g where "\<forall>mem0. mem_shared_allocations mem0 = mem_shared_allocations mem \<longrightarrow>
      drop_shared_owner message pid i mem0 = (Ok gone, reassign (\<lambda>m. m) g mem0)"
    "gone \<longleftrightarrow> set (shared_owners a) = {pid}"
    "books Q contents capacity (c(pid := c pid + unat (shared_logical_bytes a))) (reassign (\<lambda>m. m) g mem, resources, t)"
    "\<forall>j. j \<noteq> i \<longrightarrow> bt_get (g (mem_shared_allocations mem)) j = bt_get (mem_shared_allocations mem) j"
    "bt_get (g (mem_shared_allocations mem)) i
       = (if set (shared_owners a) = {pid} then None else Some (a\<lparr> shared_owners := bs_remove pid (shared_owners a) \<rparr>))"
proof -
  let ?a = "a\<lparr> shared_owners := bs_remove pid (shared_owners a) \<rparr>"
  have empty: "bs_remove pid (shared_owners a) = [] \<longleftrightarrow> set (shared_owners a) = {pid}"
  proof -
    have "bs_remove pid (shared_owners a) = [] \<longleftrightarrow> set (shared_owners a) - {pid} = {}"
      by (simp only: set_bs_remove [symmetric] set_empty)
    then show ?thesis using a(2) by blast
  qed
  define g where "g = (if bs_remove pid (shared_owners a) = [] then bt_remove i
      else bt_insert i ?a :: (u64, VmSharedAllocation) btree \<Rightarrow> _)"
  have run: "drop_shared_owner message pid i mem0
      = (Ok (bs_remove pid (shared_owners a) = []), reassign (\<lambda>m. m) g mem0)"
    if "mem_shared_allocations mem0 = mem_shared_allocations mem" for mem0
    using that a by (simp add: drop_shared_owner_def Let_def g_def reassign_def)
  let ?mem = "reassign (\<lambda>m. m) g mem"
  have g_get: "bt_get (g (mem_shared_allocations mem)) j
      = (if j = i then if bs_remove pid (shared_owners a) = [] then None else Some ?a
         else bt_get (mem_shared_allocations mem) j)" for j
    by (simp add: g_def)
  have g_ok: "bt_ok m \<Longrightarrow> bt_ok (g m)" for m by (simp add: g_def)
  have ok: "shared_ok ?mem t"
    using booksD(6) [OF b] shared_found [OF b a(1)]
    by (auto simp: shared_ok_def g_get g_ok split: if_splits)
  have charge: "shared_charge ?mem q + (c(pid := c pid + unat (shared_logical_bytes a))) q = shared_charge mem q + c q" for q
  proof -
    have w: "shared_weight q ?a = (if q = pid then 0 else shared_weight q a)"
      "shared_weight pid a = unat (shared_logical_bytes a)"
      using a(2) by (simp_all add: shared_weight_def)
    have "shared_charge ?mem q + shared_weight q a
        = shared_charge mem q + (if bs_remove pid (shared_owners a) = [] then 0 else shared_weight q ?a)"
    proof (cases "bs_remove pid (shared_owners a) = []")
      case True
      then have g: "g = bt_remove i" by (simp add: g_def)
      show ?thesis using shared_charge_remove [OF b a(1), of q] True unfolding g by simp
    next
      case False
      then have g: "g = bt_insert i ?a" by (simp add: g_def)
      show ?thesis using shared_charge_insert [OF b a(1), of ?a q] False unfolding g by simp
    qed
    moreover have "bs_remove pid (shared_owners a) = [] \<Longrightarrow> q \<noteq> pid \<Longrightarrow> shared_weight q a = 0"
      unfolding empty by (simp add: shared_weight_def)
    ultimately show ?thesis using w by (cases "q = pid") (auto split: if_splits)
  qed
  have b': "books Q contents capacity (c(pid := c pid + unat (shared_logical_bytes a))) (?mem, resources, t)"
    by (rule books_shared_change [OF b same_next [symmetric] ok charge])
  show ?thesis
  proof (rule that [of "bs_remove pid (shared_owners a) = []" g])
    show "\<forall>mem0. mem_shared_allocations mem0 = mem_shared_allocations mem \<longrightarrow> drop_shared_owner message pid i mem0
        = (Ok (bs_remove pid (shared_owners a) = []), reassign (\<lambda>m. m) g mem0)"
      using run by blast
    show "bs_remove pid (shared_owners a) = [] \<longleftrightarrow> set (shared_owners a) = {pid}" by (rule empty)
    show "books Q contents capacity (c(pid := c pid + unat (shared_logical_bytes a)))
        (reassign (\<lambda>m. m) g mem, resources, t)" by (rule b')
    show "\<forall>j. j \<noteq> i \<longrightarrow> bt_get (g (mem_shared_allocations mem)) j = bt_get (mem_shared_allocations mem) j"
      by (simp add: g_get)
    show "bt_get (g (mem_shared_allocations mem)) i
       = (if set (shared_owners a) = {pid} then None else Some ?a)"
      by (simp only: g_get empty [symmetric] simp_thms if_True)
  qed
qed

lemma reassign_compose: "reassign (\<lambda>m. m) g' (reassign (\<lambda>m. m) g mem) = reassign (\<lambda>m. m) (\<lambda>m. g' (g m)) mem"
  by (simp add: reassign_def)

definition shared_bytes_at :: "VmMemoryAccountant \<Rightarrow> u64 \<Rightarrow> nat" where
  "shared_bytes_at mem i = (case bt_get (mem_shared_allocations mem) i of
     Some a \<Rightarrow> unat (shared_logical_bytes a) | None \<Rightarrow> 0)"

definition without_owner :: "VmProcessId \<Rightarrow> VmSharedAllocation \<Rightarrow> VmSharedAllocation option" where
  "without_owner pid a = (if set (shared_owners a) = {pid} then None
     else Some (a\<lparr> shared_owners := bs_remove pid (shared_owners a) \<rparr>))"

lemma drop_shared_owners_law:
  assumes "books Q contents capacity c (mem, resources, t)" "distinct ids"
    "\<forall>i\<in>set ids. \<exists>a. bt_get (mem_shared_allocations mem) i = Some a \<and> pid \<in> set (shared_owners a)"
  shows "\<exists>k g. (\<forall>mem0. mem_shared_allocations mem0 = mem_shared_allocations mem \<longrightarrow>
        drop_shared_owners message pid ids mem0 = (Ok k, reassign (\<lambda>m. m) g mem0))
     \<and> books Q contents capacity (c(pid := c pid + sum_list (map (shared_bytes_at mem) ids)))
         (reassign (\<lambda>m. m) g mem, resources, t)
     \<and> (\<forall>j. bt_get (g (mem_shared_allocations mem)) j = (if j \<in> set ids
         then Option.bind (bt_get (mem_shared_allocations mem) j) (without_owner pid)
         else bt_get (mem_shared_allocations mem) j))"
  using assms
proof (induction ids arbitrary: c mem)
  case Nil
  have "reassign (\<lambda>m. m) (\<lambda>m. m) mem0 = mem0" for mem0 by (simp add: reassign_def)
  then show ?case using Nil
    by (intro exI [of _ 0] exI [of _ "\<lambda>m. m"]) (simp add: return_st_def)
next
  case (Cons i ids)
  then obtain a where a: "bt_get (mem_shared_allocations mem) i = Some a" "pid \<in> set (shared_owners a)" by auto
  obtain gone g where g: "\<forall>mem0. mem_shared_allocations mem0 = mem_shared_allocations mem \<longrightarrow>
      drop_shared_owner message pid i mem0 = (Ok gone, reassign (\<lambda>m. m) g mem0)"
    "gone \<longleftrightarrow> set (shared_owners a) = {pid}"
    "books Q contents capacity (c(pid := c pid + unat (shared_logical_bytes a))) (reassign (\<lambda>m. m) g mem, resources, t)"
    "\<forall>j. j \<noteq> i \<longrightarrow> bt_get (g (mem_shared_allocations mem)) j = bt_get (mem_shared_allocations mem) j"
    "bt_get (g (mem_shared_allocations mem)) i
       = (if set (shared_owners a) = {pid} then None else Some (a\<lparr> shared_owners := bs_remove pid (shared_owners a) \<rparr>))"
    by (rule drop_shared_owner_law [OF Cons.prems(1) a, where message = message])
  let ?mem = "reassign (\<lambda>m. m) g mem" and ?c = "c(pid := c pid + unat (shared_logical_bytes a))"
  have rest: "\<forall>j\<in>set ids. \<exists>a. bt_get (mem_shared_allocations ?mem) j = Some a \<and> pid \<in> set (shared_owners a)"
    using Cons.prems(2,3) g(4) by fastforce
  have "distinct ids" using Cons.prems(2) by simp
  from Cons.IH [OF g(3) this rest] obtain k g' where
      "(\<forall>mem0. mem_shared_allocations mem0 = mem_shared_allocations ?mem \<longrightarrow>
        drop_shared_owners message pid ids mem0 = (Ok k, reassign (\<lambda>m. m) g' mem0))
     \<and> books Q contents capacity (?c(pid := ?c pid + sum_list (map (shared_bytes_at ?mem) ids)))
         (reassign (\<lambda>m. m) g' ?mem, resources, t)
     \<and> (\<forall>j. bt_get (g' (mem_shared_allocations ?mem)) j = (if j \<in> set ids
         then Option.bind (bt_get (mem_shared_allocations ?mem) j) (without_owner pid)
         else bt_get (mem_shared_allocations ?mem) j))"
    by (elim exE)
  then have g': "\<And>mem0. mem_shared_allocations mem0 = g (mem_shared_allocations mem) \<Longrightarrow>
        drop_shared_owners message pid ids mem0 = (Ok k, reassign (\<lambda>m. m) g' mem0)"
      "books Q contents capacity (?c(pid := ?c pid + sum_list (map (shared_bytes_at ?mem) ids)))
         (reassign (\<lambda>m. m) g' ?mem, resources, t)"
      "\<And>j. bt_get (g' (g (mem_shared_allocations mem))) j = (if j \<in> set ids
         then Option.bind (bt_get (g (mem_shared_allocations mem)) j) (without_owner pid)
         else bt_get (g (mem_shared_allocations mem)) j)"
    by simp_all
  have "map (shared_bytes_at ?mem) ids = map (shared_bytes_at mem) ids"
    using g(4) Cons.prems(2) by (auto simp: shared_bytes_at_def)
  then have c: "?c(pid := ?c pid + sum_list (map (shared_bytes_at ?mem) ids))
      = c(pid := c pid + sum_list (map (shared_bytes_at mem) (i # ids)))"
    using a(1) by (simp only: list.map sum_list.Cons) (simp add: shared_bytes_at_def add.assoc)
  have run: "drop_shared_owners message pid (i # ids) mem0
      = (Ok (if gone then k + 1 else k), reassign (\<lambda>m. m) (\<lambda>m. g' (g m)) mem0)"
    if "mem_shared_allocations mem0 = mem_shared_allocations mem" for mem0
    using g(1) [rule_format, OF that] g'(1) [of "reassign (\<lambda>m. m) g mem0"] that
    by (simp add: bind_st_def return_st_def reassign_compose)
  have get: "bt_get (g' (g (mem_shared_allocations mem))) j = (if j \<in> set (i # ids)
         then Option.bind (bt_get (mem_shared_allocations mem) j) (without_owner pid)
         else bt_get (mem_shared_allocations mem) j)" for j
    using g(4) [rule_format, of j] g(5) g'(3) [of j] Cons.prems(2) a(1) by (cases "j = i") (auto simp: without_owner_def)
  show ?case
    using run get g'(2) [unfolded c reassign_compose]
    by (intro exI [of _ "if gone then k + 1 else k"] exI [of _ "\<lambda>m. g' (g m)"]) blast
qed

text \<open>The bytes are released first, the owners dropped after; the order does not matter.\<close>

lemma release_then_drop:
  assumes b: "books Q contents capacity c (mem, resources, t)" and alive: "is_alive t pid"
    and ids: "distinct ids" "\<forall>i\<in>set ids. \<exists>a. bt_get (mem_shared_allocations mem) i = Some a \<and> pid \<in> set (shared_owners a)"
    and n: "unat n \<le> c pid + sum_list (map (shared_bytes_at mem) ids)"
  obtains mem1 t1 k mem2 where "release_heap pid n (mem, t) = (Ok n, (mem1, t1))"
    "drop_shared_owners message pid ids mem1 = (Ok k, mem2)"
    "books Q contents capacity (c(pid := c pid + sum_list (map (shared_bytes_at mem) ids) - unat n)) (mem2, resources, t1)"
    "mem_resource_ownership mem2 = mem_resource_ownership mem"
    "mem_resource_ownership mem1 = mem_resource_ownership mem"
    "\<forall>j. bt_get (mem_shared_allocations mem2) j = (if j \<in> set ids
         then Option.bind (bt_get (mem_shared_allocations mem) j) (without_owner pid)
         else bt_get (mem_shared_allocations mem) j)"
    "\<exists>p. pt_get t pid = Some p \<and> pt_get t1 = (pt_get t)(pid \<mapsto> p\<lparr> proc_heap_bytes := proc_heap_bytes p - n \<rparr>)"
proof -
  let ?S = "sum_list (map (shared_bytes_at mem) ids)"
  obtain k g where g: "\<And>mem0. mem_shared_allocations mem0 = mem_shared_allocations mem \<Longrightarrow>
        drop_shared_owners message pid ids mem0 = (Ok k, reassign (\<lambda>m. m) g mem0)"
      "books Q contents capacity (c(pid := c pid + ?S)) (reassign (\<lambda>m. m) g mem, resources, t)"
      "\<And>j. bt_get (g (mem_shared_allocations mem)) j = (if j \<in> set ids
         then Option.bind (bt_get (mem_shared_allocations mem) j) (without_owner pid)
         else bt_get (mem_shared_allocations mem) j)"
    using drop_shared_owners_law [OF b ids, of message] by blast
  obtain p where p: "pt_get t pid = Some p" "\<not> is_exited (proc_state p)" using alive alive_process by blast
  obtain mem3 t1 where r: "release_heap pid n (reassign (\<lambda>m. m) g mem, t) = (Ok n, (mem3, t1))"
      "pt_get t1 = (pt_get t)(pid \<mapsto> p\<lparr> proc_heap_bytes := proc_heap_bytes p - n \<rparr>)"
      "books Q contents capacity ((c(pid := c pid + ?S))(pid := (c(pid := c pid + ?S)) pid - unat n)) (mem3, resources, t1)"
    by (rule release_heap_live [OF g(2) p, of n]) (use n in simp_all)
  obtain mem1 where mem1: "release_heap pid n (mem, t) = (Ok n, (mem1, t1))" "reassign (\<lambda>m. m) g mem1 = mem3"
      "mem_resource_ownership mem1 = mem_resource_ownership mem"
      "mem_shared_allocations mem1 = mem_shared_allocations mem"
    by (rule release_heap_reassign' [OF r(1)])
  show ?thesis
  proof (rule that [OF mem1(1) g(1) [OF mem1(4)]])
    show "books Q contents capacity (c(pid := c pid + ?S - unat n)) (reassign (\<lambda>m. m) g mem1, resources, t1)"
      using r(3) mem1(2) by simp
    show "\<forall>j. bt_get (mem_shared_allocations (reassign (\<lambda>m. m) g mem1)) j = (if j \<in> set ids
         then Option.bind (bt_get (mem_shared_allocations mem) j) (without_owner pid)
         else bt_get (mem_shared_allocations mem) j)"
      using g(3) by (simp add: mem1(4))
    show "\<exists>p. pt_get t pid = Some p \<and> pt_get t1 = (pt_get t)(pid \<mapsto> p\<lparr> proc_heap_bytes := proc_heap_bytes p - n \<rparr>)"
      using p(1) r(2) by blast
  qed (simp_all add: mem1(3))
qed

lemma drop_single: "drop_shared_owners message pid [i] mem
    = (case drop_shared_owner message pid i mem of (r, mem') \<Rightarrow>
        (case r of Ok gone \<Rightarrow> (Ok (if gone then 1 else 0), mem') | Err e \<Rightarrow> (Err e, mem') | Panic x \<Rightarrow> (Panic x, mem')))"
  by (simp add: bind_st_def return_st_def split: prod.splits outcome.splits)

lemma release_shared_keeps:
  assumes b: "books Q contents capacity own (mem, resources, t)"
    and run: "release_shared_allocation i pid (mem, t) = (r, (mem', t'))"
  shows "books Q contents capacity own (mem', resources, t')"
proof (cases "require_live_account t pid = Ok () \<and> (\<exists>a. owned_shared_allocation mem i pid = Ok a)")
  case False
  then have "(mem', t') = (mem, t)"
    using run by (auto simp: release_shared_allocation_def bind_st_def read_st_def split: outcome.splits)
  then show ?thesis using b by simp
next
  case True
  then obtain a where live: "require_live_account t pid = Ok ()" and own: "owned_shared_allocation mem i pid = Ok a"
    by blast
  then have a: "bt_get (mem_shared_allocations mem) i = Some a" "pid \<in> set (shared_owners a)"
    by (simp_all add: owned_shared_Ok)
  let ?n = "shared_logical_bytes a" and ?m = "''shared allocation was validated before release mutation''"
  have alive: "is_alive t pid" by (rule shared_found(5) [OF b a])
  have n: "sum_list (map (shared_bytes_at mem) [i]) = unat ?n" using a(1) by (simp add: shared_bytes_at_def)
  obtain mem1 t1 k mem2 where m: "release_heap pid ?n (mem, t) = (Ok ?n, (mem1, t1))"
      "drop_shared_owners ?m pid [i] mem1 = (Ok k, mem2)"
      "books Q contents capacity (own(pid := own pid + sum_list (map (shared_bytes_at mem) [i]) - unat ?n)) (mem2, resources, t1)"
    by (rule release_then_drop [OF b alive, of "[i]" ?n ?m]) (use a n in simp_all)
  have "drop_shared_owner ?m pid i mem1 = (Ok (k = 1), mem2)"
    using m(2) unfolding drop_single by (auto split: prod.splits outcome.splits if_splits)
  then have "(mem', t') = (mem2, t1)"
    using run m(1) by (simp add: release_shared_allocation_def bind_st_def read_st_def live own on_accountant_def)
  then show ?thesis using m(3) n by (simp add: fun_upd_idem)
qed

lemma bulk_release_Ok:
  "bulk_release_bytes mem pid seen ids n = Ok b \<Longrightarrow> distinct ids \<and> set ids \<inter> set seen = {}
     \<and> (\<forall>i\<in>set ids. \<exists>a. bt_get (mem_shared_allocations mem) i = Some a \<and> pid \<in> set (shared_owners a))
     \<and> unat b = unat n + sum_list (map (shared_bytes_at mem) ids)"
proof (induction mem pid seen ids n arbitrary: b rule: bulk_release_bytes.induct)
  case (2 mem pid seen i ids n)
  from "2.prems" obtain a s where a: "i \<notin> set seen" "owned_shared_allocation mem i pid = Ok a"
      "checked_add n (shared_logical_bytes a) = Some s" "bulk_release_bytes mem pid (i # seen) ids s = Ok b"
    by (auto simp: bind_out_eq_Ok ok_or_def split: if_splits option.splits)
  from "2.IH" [OF a(1) a(4)] show ?case
    using a owned_shared_Ok [of mem i pid a] checked_add_unat [OF a(3)] by (auto simp: shared_bytes_at_def)
qed simp

lemma release_shared_bulk_keeps:
  assumes b: "books Q contents capacity own (mem, resources, t)"
    and run: "release_shared_allocations ids pid (mem, t) = (r, (mem', t'))"
  shows "books Q contents capacity own (mem', resources, t')"
proof (cases "require_live_account t pid = Ok () \<and> (\<exists>n. bulk_release_bytes mem pid [] ids 0 = Ok n)")
  case False
  then have "(mem', t') = (mem, t)"
    using run by (auto simp: release_shared_allocations_def bind_st_def read_st_def split: outcome.splits)
  then show ?thesis using b by simp
next
  case True
  then obtain n where live: "require_live_account t pid = Ok ()" and n: "bulk_release_bytes mem pid [] ids 0 = Ok n"
    by blast
  have ids: "distinct ids" "\<forall>i\<in>set ids. \<exists>a. bt_get (mem_shared_allocations mem) i = Some a \<and> pid \<in> set (shared_owners a)"
      "unat n = sum_list (map (shared_bytes_at mem) ids)"
    using bulk_release_Ok [OF n] by simp_all
  have alive: "is_alive t pid" using live by (auto simp: require_live_account_def is_alive_def split: option.splits if_splits)
  let ?m = "''bulk shared allocation release was validated before mutation''"
  obtain mem1 t1 k mem2 where m: "release_heap pid n (mem, t) = (Ok n, (mem1, t1))"
      "drop_shared_owners ?m pid ids mem1 = (Ok k, mem2)"
      "books Q contents capacity (own(pid := own pid + sum_list (map (shared_bytes_at mem) ids) - unat n)) (mem2, resources, t1)"
    by (rule release_then_drop [OF b alive ids(1,2), of n ?m]) (use ids(3) in simp_all)
  have "(mem', t') = (mem2, t1) \<or> (mem', t') = (mem, t)"
    using run m(1,2) by (simp add: release_shared_allocations_def bind_st_def read_st_def live n on_accountant_def
        split: option.splits if_splits)
  then show ?thesis using m(3) ids(3) b by (auto simp: fun_upd_idem)
qed

lemma reclassify_keeps:
  assumes b: "books Q contents capacity own (mem, resources, t)"
    and run: "reclassify_shared_allocation i pid expected replacement mem = (r, mem')"
  shows "books Q contents capacity own (mem', resources, t)"
proof (cases "\<exists>a. owned_shared_allocation mem i pid = Ok a \<and> shared_kind a = expected")
  case False
  then have "mem' = mem"
    using run by (auto simp: reclassify_shared_allocation_def bind_st_def read_st_def split: outcome.splits if_splits)
  then show ?thesis using b by simp
next
  case True
  then obtain a where own: "owned_shared_allocation mem i pid = Ok a" "shared_kind a = expected" by blast
  then have a: "bt_get (mem_shared_allocations mem) i = Some a" by (simp add: owned_shared_Ok)
  let ?a = "a\<lparr> shared_kind := replacement \<rparr>"
  have mem': "mem' = reassign (\<lambda>m. m) (bt_insert i ?a) mem"
    using run own by (simp add: reclassify_shared_allocation_def bind_st_def read_st_def reassign_def)
  have ok: "shared_ok mem' t"
    using booksD(6) [OF b] shared_found [OF b a] unfolding mem' by (auto simp: shared_ok_def split: if_splits)
  show ?thesis
  proof (rule books_shared_change [OF b _ ok])
    show "mem' = (reassign (\<lambda>m. m) (bt_insert i ?a) mem)\<lparr> mem_next_shared_allocation_id := mem_next_shared_allocation_id mem \<rparr>"
      by (simp add: mem' same_next)
    show "shared_charge mem' q + own q = shared_charge mem q + own q" for q
    proof -
      have "shared_weight q ?a = shared_weight q a" by (simp add: shared_weight_def)
      then show ?thesis using shared_charge_insert [OF b a, of ?a q] unfolding mem' by linarith
    qed
  qed
qed

end
