(* ===== verification/Memory_Exit_Laws.thy ===== *)
theory Memory_Exit_Laws
  imports Memory_Ownership_Laws
begin

text \<open>
  A process leaves with everything it was charged for: the resources it owns are cleaned up, its
  shared allocations lose it as an owner, its heap bytes and its mailbox are given back. In
  kept books the exit of a live process never fails, and the books stay kept, with nothing held
  directly by the process any more.
\<close>

section \<open>The keys of the entries with a property\<close>

definition keys_where :: "('v \<Rightarrow> bool) \<Rightarrow> ('k, 'v) btree \<Rightarrow> 'k list" where
  "keys_where P m = map fst (filter (\<lambda>e. P (snd e)) m)"

lemma sorted_keys_where: "bt_ok m \<Longrightarrow> sorted_wrt (<) (keys_where P m)"
  using bt_ok_filter [of m "\<lambda>e. P (snd e)"] by (simp add: keys_where_def bt_ok_def)

lemma set_keys_where: "bt_ok m \<Longrightarrow> k \<in> set (keys_where P m) \<longleftrightarrow> (\<exists>v. bt_get m k = Some v \<and> P v)"
  by (force simp: keys_where_def bt_in_get [symmetric])

lemma distinct_keys_where: "bt_ok m \<Longrightarrow> distinct (keys_where P m)"
  using sorted_keys_where strict_sorted_iff by blast

lemma keys_where_eq:
  assumes "bt_ok m" "bt_ok m'" "\<And>k. (\<exists>v. bt_get m k = Some v \<and> P v) \<longleftrightarrow> (\<exists>v. bt_get m' k = Some v \<and> P' v)"
  shows "keys_where P m = keys_where P' m'"
  by (rule strict_sorted_equal) (use assms in \<open>simp_all add: sorted_keys_where set_keys_where set_eq_iff\<close>)

text \<open>A field that repeats the key lists the keys.\<close>

lemma map_key_where:
  assumes "bt_ok m" "\<And>k v. bt_get m k = Some v \<Longrightarrow> key v = k"
  shows "map key (filter P (bt_values m)) = keys_where P m"
proof -
  have "\<forall>e\<in>set m. key (snd e) = fst e" using assms by (auto simp: bt_in_get)
  then show ?thesis
    unfolding bt_values_def keys_where_def filter_map map_map by (intro map_cong) (auto simp: o_def)
qed

lemma sum_keys_where:
  assumes "bt_ok m"
  shows "sum_list (map (\<lambda>k. case bt_get m k of Some v \<Rightarrow> g v | None \<Rightarrow> 0) (keys_where P m))
    = bt_weight (\<lambda>v. if P v then g v else 0) m"
proof -
  have "map (\<lambda>k. case bt_get m k of Some v \<Rightarrow> g v | None \<Rightarrow> 0) (keys_where P m)
      = map (\<lambda>e. g (snd e)) (filter (\<lambda>e. P (snd e)) m)"
    unfolding keys_where_def map_map
    by (intro map_cong) (use assms in \<open>auto simp: bt_in_get\<close>)
  then show ?thesis
    unfolding bt_weight_values by (simp add: bt_values_def filter_map o_def)
qed

lemma bt_weight_remove_all:
  "bt_ok m \<Longrightarrow> (\<And>k v. k \<in> set ks \<Longrightarrow> bt_get m k = Some v \<Longrightarrow> f v = 0)
     \<Longrightarrow> bt_weight f (bt_remove_all ks m) = bt_weight f m"
proof (induction ks arbitrary: m)
  case (Cons k ks)
  have "bt_weight f (bt_remove_all ks (bt_remove k m)) = bt_weight f (bt_remove k m)"
    by (rule Cons.IH) (use Cons.prems in \<open>auto split: if_splits\<close>)
  also have "weight_at f m k = 0"
    using Cons.prems(2) [of k] by (auto simp: weight_at_def split: option.split)
  then have "bt_weight f (bt_remove k m) = bt_weight f m"
    using bt_weight_remove [OF Cons.prems(1), of f k] by simp
  finally show ?case by simp
qed simp

section \<open>Sums\<close>

lemma sum_owned_Ok:
  "(\<And>i. i \<in> set ids \<Longrightarrow> bytes_of i \<noteq> None)
    \<Longrightarrow> unat acc + sum_list (map (\<lambda>i. case bytes_of i of Some b \<Rightarrow> unat b | None \<Rightarrow> 0) ids) < 2 ^ 64
    \<Longrightarrow> \<exists>b. sum_owned overflow missing bytes_of ids acc = Ok b
      \<and> unat b = unat acc + sum_list (map (\<lambda>i. case bytes_of i of Some b \<Rightarrow> unat b | None \<Rightarrow> 0) ids)"
proof (induction ids arbitrary: acc)
  case (Cons i ids)
  then obtain b where b: "bytes_of i = Some b" by fastforce
  have lt: "unat acc + unat b < 2 ^ 64" using Cons.prems(2) b by simp
  then have s: "checked_add acc b = Some (acc + b)" "unat (acc + b) = unat acc + unat b"
    by (simp_all add: checked_add_def unat_word_ariths)
  have "\<exists>c. sum_owned overflow missing bytes_of ids (acc + b) = Ok c
      \<and> unat c = unat (acc + b) + sum_list (map (\<lambda>i. case bytes_of i of Some b \<Rightarrow> unat b | None \<Rightarrow> 0) ids)"
    by (rule Cons.IH) (use Cons.prems b s in auto)
  then show ?case using b s by (auto simp: bind_out_def ok_or_def)
qed simp

section \<open>Cleaning up the resources of a process\<close>

lemma cleanup_ids_law:
  "distinct ids \<Longrightarrow> (\<And>i. i \<in> set ids \<Longrightarrow> \<exists>row. bt_get (rt_resources resources) i = Some row \<and> res_owner row = owner)
     \<Longrightarrow> cleanup_ids ids resources = (map (\<lambda>i. CleanedUpOnExit i owner) ids,
          resources\<lparr> rt_resources := bt_remove_all ids (rt_resources resources) \<rparr>)"
proof (induction ids arbitrary: resources)
  case (Cons i ids)
  obtain row where row: "bt_get (rt_resources resources) i = Some row" "res_owner row = owner"
    using Cons.prems(2) [of i] by auto
  let ?r = "resources\<lparr> rt_resources := bt_remove i (rt_resources resources) \<rparr>"
  have known: "\<exists>row. bt_get (rt_resources ?r) j = Some row \<and> res_owner row = owner" if "j \<in> set ids" for j
  proof -
    have "j \<noteq> i" using that Cons.prems(1) by auto
    then show ?thesis using Cons.prems(2) [of j] that by simp
  qed
  have "cleanup_ids ids ?r
      = (map (\<lambda>i. CleanedUpOnExit i owner) ids, resources\<lparr> rt_resources
          := bt_remove_all ids (bt_remove i (rt_resources resources)) \<rparr>)"
    using Cons.IH [OF _ known] Cons.prems(1) by simp
  then show ?case using row by simp
qed simp

lemma remove_handles_shape:
  "distinct ids \<Longrightarrow> \<exists>hs. fold (\<lambda>i. proc_remove_resource_handle (resource_handle_name i)) ids p
       = p\<lparr> proc_resource_handles := hs \<rparr>
     \<and> (\<forall>i. count_list hs (resource_handle_name i)
          = count_list (proc_resource_handles p) (resource_handle_name i) - (if i \<in> set ids then 1 else 0))"
proof (induction ids arbitrary: p)
  case Nil
  show ?case by (intro exI [of _ "proc_resource_handles p"]) simp
next
  case (Cons i ids)
  let ?p = "proc_remove_resource_handle (resource_handle_name i) p"
  obtain hs0 where p: "?p = p\<lparr> proc_resource_handles := hs0 \<rparr>" using remove_handle_shape by blast
  have "distinct ids" using Cons.prems by simp
  from Cons.IH [OF this, of ?p] obtain hs where hs:
      "fold (\<lambda>i. proc_remove_resource_handle (resource_handle_name i)) ids ?p = ?p\<lparr> proc_resource_handles := hs \<rparr>"
      "\<And>j. count_list hs (resource_handle_name j)
         = count_list (proc_resource_handles ?p) (resource_handle_name j) - (if j \<in> set ids then 1 else 0)"
    by blast
  have count: "count_list hs (resource_handle_name j)
      = count_list (proc_resource_handles p) (resource_handle_name j) - (if j \<in> set (i # ids) then 1 else 0)" for j
    using hs(2) [of j] count_remove_handle [of "resource_handle_name i" p "resource_handle_name j"] Cons.prems by auto
  show ?case
    by (intro exI [of _ hs] conjI allI count) (use hs(1) p in simp)
qed

lemma cleanup_law:
  assumes b: "books Q contents capacity c (mem, resources, t)"
    and get: "pt_get t owner = Some p" and live: "\<not> is_exited (proc_state p)"
  defines "ids \<equiv> keys_where (\<lambda>row. res_owner row = owner) (rt_resources resources)"
  obtains t' hs where "cleanup_owner_handles owner (resources, t)
      = (Ok (map (\<lambda>i. CleanedUpOnExit i owner) ids),
         (resources\<lparr> rt_resources := bt_remove_all ids (rt_resources resources) \<rparr>, t'))"
    "pt_get t' = (pt_get t)(owner \<mapsto> p\<lparr> proc_resource_handles := hs \<rparr>)" "pt_frame t t'"
    "books Q contents capacity (c(owner := c owner + resource_charge mem owner))
       (reassign (bt_remove_all ids) (\<lambda>m. m) mem,
        resources\<lparr> rt_resources := bt_remove_all ids (rt_resources resources) \<rparr>, t')"
proof -
  let ?r = "resources\<lparr> rt_resources := bt_remove_all ids (rt_resources resources) \<rparr>"
    and ?f = "fold (\<lambda>i. proc_remove_resource_handle (resource_handle_name i)) ids"
    and ?mem = "reassign (bt_remove_all ids) (\<lambda>m. m) mem"
  have rt: "bt_ok (rt_resources resources)" "\<And>i row. bt_get (rt_resources resources) i = Some row \<Longrightarrow> res_id row = i"
    using booksD(4) [OF b] by (auto simp: resources_ok_def)
  have own_ok: "ownership_ok mem resources" by (rule booksD(5) [OF b])
  have ids: "distinct ids" "\<And>i. i \<in> set ids \<longleftrightarrow> owns_resource resources owner i"
    using rt(1) by (simp_all add: ids_def distinct_keys_where set_keys_where owns_resource_def)
  obtain hs where hs: "?f p = p\<lparr> proc_resource_handles := hs \<rparr>"
      "\<And>i. count_list hs (resource_handle_name i)
         = count_list (proc_resource_handles p) (resource_handle_name i) - (if i \<in> set ids then 1 else 0)"
    using remove_handles_shape [OF ids(1)] by blast
  obtain t' where t': "update_process owner ?f t = (Ok (), t')" "pt_ok Q contents capacity t'"
      "pt_get t' = (pt_get t)(owner \<mapsto> ?f p)" "pt_frame t t'"
    by (rule update_process_law [OF booksD(1) [OF b] get live, of ?f])
      (use hs(1) live pt_get_facts(2) [OF booksD(1) [OF b] get] in simp_all)
  have get': "pt_get t' = (pt_get t)(owner \<mapsto> p\<lparr> proc_resource_handles := hs \<rparr>)" using t'(3) hs(1) by simp
  have names: "map res_id (filter (\<lambda>record. res_owner record = owner) (bt_values (rt_resources resources))) = ids"
    "owned_resource_ids resources owner = ids"
    using map_key_where [OF rt] by (simp_all add: ids_def keys_where_def owned_resource_ids_def)
  have events: "cleanup_owner owner resources = (map (\<lambda>i. CleanedUpOnExit i owner) ids, ?r)"
    unfolding cleanup_owner_def names
    by (rule cleanup_ids_law [OF ids(1)]) (use ids(2) in \<open>auto simp: owns_resource_def\<close>)
  have run: "cleanup_owner_handles owner (resources, t)
      = (Ok (map (\<lambda>i. CleanedUpOnExit i owner) ids), (?r, t'))"
    using get t'(1) by (simp add: cleanup_owner_handles_def names events)
  have owns: "owns_resource ?r q i \<longleftrightarrow> q \<noteq> owner \<and> owns_resource resources q i" for q i
    using ids(2) [of i] by (auto simp: owns_resource_def bt_get_remove_all)
  have rt': "resources_ok ?r t'"
  proof (rule resources_change [OF booksD(4) [OF b] get live get'])
    show "bt_ok (rt_resources ?r)" using rt(1) by simp
    show "res_id row = i \<and> i \<le> rt_next_id ?r \<and> is_alive t (res_owner row)"
      if "bt_get (rt_resources ?r) i = Some row" for i row
      using that booksD(4) [OF b] by (auto simp: bt_get_remove_all resources_ok_def split: if_splits)
    show "count_list hs (resource_handle_name i) = (if owns_resource ?r owner i then 1 else 0)" for i
      using hs(2) [of i] ids(2) [of i] booksD(4) [OF b] get by (auto simp: resources_ok_def owns)
    show "owns_resource ?r q i = owns_resource resources q i" if "q \<noteq> owner" for q i
      using that by (simp add: owns)
  qed
  have own_get: "map_option own_owner (bt_get (mem_resource_ownership mem) i)
      = map_option res_owner (bt_get (rt_resources resources) i)" for i
    using own_ok by (simp add: ownership_ok_def)
  have own': "ownership_ok ?mem ?r"
    using own_ok by (auto simp: ownership_ok_def reassign_def bt_get_remove_all)
  have mine: "resource_charge ?mem owner = 0"
    unfolding resource_charge_def
  proof (rule bt_weight_0)
    show "bt_ok (mem_resource_ownership ?mem)" using own' by (simp add: ownership_ok_def)
    show "ownership_weight owner o' = 0" if "bt_get (mem_resource_ownership ?mem) i = Some o'" for i o'
    proof -
      have i: "i \<notin> set ids" "bt_get (mem_resource_ownership mem) i = Some o'"
        using that by (auto simp: bt_get_remove_all split: if_splits)
      then have "map_option res_owner (bt_get (rt_resources resources) i) = Some (own_owner o')"
        using own_get [of i] by simp
      then have "own_owner o' \<noteq> owner" using i(1) ids(2) by (auto simp: owns_resource_def)
      then show ?thesis by (simp add: ownership_weight_def)
    qed
  qed
  have others: "resource_charge ?mem q = resource_charge mem q" if "q \<noteq> owner" for q
  proof -
    have "ownership_weight q o' = 0" if i: "i \<in> set ids" "bt_get (mem_resource_ownership mem) i = Some o'" for i o'
    proof -
      have "map_option own_owner (bt_get (mem_resource_ownership mem) i) = Some owner"
        using i(1) ids(2) [of i] own_get [of i] by (auto simp: owns_resource_def)
      then show ?thesis using i(2) \<open>q \<noteq> owner\<close> by (simp add: ownership_weight_def)
    qed
    then show ?thesis
      using own_ok by (simp add: resource_charge_def ownership_ok_def bt_weight_remove_all)
  qed
  have charge: "resource_charge ?mem q + (c(owner := c owner + resource_charge mem owner)) q
      = resource_charge mem q + c q" for q
    using mine others [of q] by simp
  show ?thesis
    by (rule that [OF run get' t'(4) books_handles_change [OF b get live t'(2) get' rt' own' refl charge]])
qed

section \<open>Leaving\<close>

lemma sync_frame [simp]:
  assumes "synchronize_process pid (mem, t) = (r, (mem', t'))"
  shows "t' = t" "mem_limits mem' = mem_limits mem" "mem_resource_ownership mem' = mem_resource_ownership mem"
    "mem_shared_allocations mem' = mem_shared_allocations mem"
    "mem_next_shared_allocation_id mem' = mem_next_shared_allocation_id mem"
  using assms by (auto simp: synchronize_process_def bind_st_def read_st_def change_memory_def split: outcome.splits)

text \<open>The books without a process that has exited and left nothing behind.\<close>

lemma exit_books:
  assumes b: "books Q contents capacity own (mem, resources, t)"
    and get: "pt_get t pid = Some p" and live: "\<not> is_exited (proc_state p)"
    and t': "pt_ok Q contents capacity t'" "pt_get t' = (pt_get t)(pid \<mapsto> snd (proc_exit reason p))"
    and none: "\<And>i row. bt_get (rt_resources resources) i = Some row \<Longrightarrow> res_owner row \<noteq> pid"
    and alone: "\<And>i a. bt_get (mem_shared_allocations mem) i = Some a \<Longrightarrow> pid \<notin> set (shared_owners a)"
  obtains mem' where "synchronize_process pid (mem, t') = (Ok (), (mem', t'))"
    "current_bytes_of mem' = (current_bytes_of mem)(pid := 0)"
    "books Q contents capacity (own(pid := 0)) (mem', resources, t')"
proof -
  let ?p = "snd (proc_exit reason p)"
  have p': "proc_heap_bytes ?p = 0" "proc_mailbox ?p = []" "proc_resource_handles ?p = []" "is_exited (proc_state ?p)"
    by (simp_all add: proc_exit_def)
  define f where "f = (\<lambda>metrics :: VmProcessMemoryMetrics. let metrics = metrics\<lparr> mm_pid := pid \<rparr>;
           metrics = (if (0 :: usize) < mm_current_bytes metrics then
             let released = mm_current_bytes metrics - 0
             in metrics\<lparr> mm_collection_events := saturating_add (mm_collection_events metrics) 1,
                  mm_released_bytes := saturating_add (mm_released_bytes metrics) released \<rparr>
             else metrics)
       in metrics\<lparr> mm_current_bytes := 0, mm_high_water_bytes := max (mm_high_water_bytes metrics) 0 \<rparr>)"
  let ?mem = "change_metrics pid f mem"
  have run: "synchronize_process pid (mem, t') = (Ok (), (?mem, t'))"
    using p'(1) by (simp add: synchronize_process_def bind_st_def read_st_def ok_or_def t'(2) change_memory_def f_def
        Let_def cong: if_cong)
  let ?m = "case bt_get (mem_processes mem) pid of Some metrics \<Rightarrow> metrics | None \<Rightarrow> metrics_default"
  have metrics: "metrics_ok ?mem"
    by (rule metrics_change [OF booksD(3) [OF b], where m = "f ?m"])
      (use metrics_found [OF booksD(3) [OF b] refl, of pid] in \<open>auto simp: f_def Let_def\<close>)
  have current: "current_bytes_of ?mem = (current_bytes_of mem)(pid := 0)"
    by (simp add: current_bytes_change f_def Let_def)
  note u = table_update [OF t'(2)]
  have heap: "heap_of t' = (heap_of t)(pid := 0)" and mail: "mailbox_charge t' = (mailbox_charge t)(pid := 0)"
    using u(1,2) p' by (simp_all add: mailbox_bytes_def)
  have alive: "is_alive t' q \<longleftrightarrow> q \<noteq> pid \<and> is_alive t q" for q using u(3) [of q] p'(4) by auto
  have "\<not> owns_resource resources pid i" for i using none by (auto simp: owns_resource_def)
  then have rt': "resources_ok resources t'"
    using booksD(4) [OF b] none p'(3) unfolding resources_ok_def alive by (auto simp: t'(2))
  have sh: "shared_ok ?mem t'"
    using booksD(6) [OF b] alone by (auto simp: shared_ok_def alive)
  have owned: "ownership_ok ?mem resources" using booksD(5) [OF b] by (simp add: ownership_ok_def)
  have charges: "resource_charge ?mem = resource_charge mem" "shared_charge ?mem = shared_charge mem"
    by (simp_all add: resource_charge_def shared_charge_def fun_eq_iff)
  have owners: "map_option own_owner (bt_get (mem_resource_ownership mem) i)
      = map_option res_owner (bt_get (rt_resources resources) i)" for i
    using booksD(5) [OF b] by (simp add: ownership_ok_def)
  have "own_owner o' \<noteq> pid" if found: "bt_get (mem_resource_ownership mem) i = Some o'" for i o'
  proof -
    obtain row where "bt_get (rt_resources resources) i = Some row" "res_owner row = own_owner o'"
      using owners [of i] found by (cases "bt_get (rt_resources resources) i") auto
    then show ?thesis using none by auto
  qed
  then have "resource_charge mem pid = 0"
    unfolding resource_charge_def
    by (intro bt_weight_0) (use booksD(5) [OF b] in \<open>auto simp: ownership_weight_def ownership_ok_def\<close>)
  moreover have "shared_charge mem pid = 0"
    unfolding shared_charge_def
    by (intro bt_weight_0) (use booksD(6) [OF b] alone in \<open>auto simp: shared_weight_def shared_ok_def\<close>)
  ultimately have charge: "unat (heap_of t' q) = charge_of (?mem, resources, t') q + (own(pid := 0)) q" for q
    using booksD(9) [OF b, of q] by (auto simp: charge_of_def heap mail charges)
  have "books Q contents capacity (own(pid := 0)) (?mem, resources, t')"
    using booksD [OF b] t'(1) rt' sh owned metrics charge current by (auto simp: books_def heap)
  then show ?thesis by (rule that [OF run current])
qed

text \<open>What a process owns, as the exit collects it.\<close>

definition shared_ids_of :: "VmMemoryAccountant \<Rightarrow> VmProcessId \<Rightarrow> u64 list" where
  "shared_ids_of mem owner = keys_where (\<lambda>a. owner \<in> set (shared_owners a)) (mem_shared_allocations mem)"

definition resource_ids_of :: "VmResourceTable \<Rightarrow> VmProcessId \<Rightarrow> u64 list" where
  "resource_ids_of resources owner = keys_where (\<lambda>row. res_owner row = owner) (rt_resources resources)"

lemma exit_ids:
  assumes b: "books Q contents capacity c (mem, resources, t)"
  shows "map rsnap_id (filter (\<lambda>snapshot. rsnap_owner snapshot = owner) (resource_snapshots resources))
      = resource_ids_of resources owner"
    "memory_resource_ids mem owner = resource_ids_of resources owner"
    "memory_shared_ids mem owner = shared_ids_of mem owner"
    "resource_ids_of resources owner = keys_where (\<lambda>o'. own_owner o' = owner) (mem_resource_ownership mem)"
proof -
  have rt: "bt_ok (rt_resources resources)" "\<And>i row. bt_get (rt_resources resources) i = Some row \<Longrightarrow> res_id row = i"
    using booksD(4) [OF b] by (auto simp: resources_ok_def)
  have own: "bt_ok (mem_resource_ownership mem)"
    "\<And>i o'. bt_get (mem_resource_ownership mem) i = Some o' \<Longrightarrow> own_resource_id o' = i"
    "\<And>i. map_option own_owner (bt_get (mem_resource_ownership mem) i)
      = map_option res_owner (bt_get (rt_resources resources) i)"
    using booksD(5) [OF b] by (auto simp: ownership_ok_def)
  have sh: "bt_ok (mem_shared_allocations mem)"
    "\<And>i a. bt_get (mem_shared_allocations mem) i = Some a \<Longrightarrow> shared_id a = i"
    using booksD(6) [OF b] by (auto simp: shared_ok_def)
  show same: "resource_ids_of resources owner = keys_where (\<lambda>o'. own_owner o' = owner) (mem_resource_ownership mem)"
    unfolding resource_ids_of_def
  proof (rule keys_where_eq [OF rt(1) own(1)])
    fix i
    have "map_option own_owner (bt_get (mem_resource_ownership mem) i) = Some owner
      \<longleftrightarrow> map_option res_owner (bt_get (rt_resources resources) i) = Some owner" by (simp only: own(3))
    then show "(\<exists>v. bt_get (rt_resources resources) i = Some v \<and> res_owner v = owner)
      \<longleftrightarrow> (\<exists>v. bt_get (mem_resource_ownership mem) i = Some v \<and> own_owner v = owner)" by auto
  qed
  show "map rsnap_id (filter (\<lambda>snapshot. rsnap_owner snapshot = owner) (resource_snapshots resources))
      = resource_ids_of resources owner"
    using map_key_where [OF rt, where P = "\<lambda>row. res_owner row = owner"]
    by (simp add: resource_ids_of_def resource_snapshots_def filter_map o_def resource_snapshot_def)
  show "memory_resource_ids mem owner = resource_ids_of resources owner"
    unfolding memory_resource_ids_def same by (rule map_key_where [OF own(1,2)])
  show "memory_shared_ids mem owner = shared_ids_of mem owner"
    unfolding memory_shared_ids_def shared_ids_of_def bs_contains_def by (rule map_key_where [OF sh])
qed

lemma shared_ids_sum:
  assumes b: "books Q contents capacity c (mem, resources, t)"
  shows "sum_list (map (shared_bytes_at mem) (shared_ids_of mem owner)) = shared_charge mem owner"
    "sum_list (map (\<lambda>i. case map_option shared_logical_bytes (bt_get (mem_shared_allocations mem) i) of
        Some b \<Rightarrow> unat b | None \<Rightarrow> 0) (shared_ids_of mem owner)) = shared_charge mem owner"
    "sum_list (map (\<lambda>i. case map_option own_logical_bytes (bt_get (mem_resource_ownership mem) i) of
        Some b \<Rightarrow> unat b | None \<Rightarrow> 0) (resource_ids_of resources owner)) = resource_charge mem owner"
proof -
  have sh: "bt_ok (mem_shared_allocations mem)" using booksD(6) [OF b] by (simp add: shared_ok_def)
  have own: "bt_ok (mem_resource_ownership mem)" using booksD(5) [OF b] by (simp add: ownership_ok_def)
  have push: "(case map_option h (bt_get m i) of Some b \<Rightarrow> unat b | None \<Rightarrow> (0 :: nat))
      = (case bt_get m i of Some v \<Rightarrow> unat (h v) | None \<Rightarrow> 0)" for h :: "'v \<Rightarrow> usize" and m :: "(u64, 'v) btree" and i
    by (simp split: option.split)
  show "sum_list (map (shared_bytes_at mem) (shared_ids_of mem owner)) = shared_charge mem owner"
    "sum_list (map (\<lambda>i. case map_option shared_logical_bytes (bt_get (mem_shared_allocations mem) i) of
        Some b \<Rightarrow> unat b | None \<Rightarrow> 0) (shared_ids_of mem owner)) = shared_charge mem owner"
    unfolding push shared_ids_of_def shared_charge_def shared_weight_def shared_bytes_at_def
    by (rule sum_keys_where [OF sh])+
  show "sum_list (map (\<lambda>i. case map_option own_logical_bytes (bt_get (mem_resource_ownership mem) i) of
        Some b \<Rightarrow> unat b | None \<Rightarrow> 0) (resource_ids_of resources owner)) = resource_charge mem owner"
    unfolding push exit_ids(4) [OF b] resource_charge_def ownership_weight_def by (rule sum_keys_where [OF own])
qed

section \<open>The exit of a live process\<close>

lemma exit_books_law:
  assumes b: "books Q contents capacity own (mem, resources, t)"
    and get: "pt_get t owner = Some p" and live: "\<not> is_exited (proc_state p)"
  obtains handles mem' t' where "exit_process_with_memory_cleanup owner reason (mem, resources, t)
      = (Ok \<lparr> mexit_resource_events = map (\<lambda>i. CleanedUpOnExit i owner) (resource_ids_of resources owner),
           mexit_released_shared_allocations = shared_ids_of mem owner, mexit_remaining_cleanup_handles = handles \<rparr>,
         (mem', resources\<lparr> rt_resources := bt_remove_all (resource_ids_of resources owner) (rt_resources resources) \<rparr>, t'))"
    "pt_get t' = (pt_get t)(owner \<mapsto> snd (proc_exit reason p))"
    "books Q contents capacity (own(owner := 0)) (mem',
       resources\<lparr> rt_resources := bt_remove_all (resource_ids_of resources owner) (rt_resources resources) \<rparr>, t')"
    "\<And>i. bt_get (mem_shared_allocations mem') i = (if i \<in> set (shared_ids_of mem owner)
       then Option.bind (bt_get (mem_shared_allocations mem) i) (without_owner owner)
       else bt_get (mem_shared_allocations mem) i)"
    "mem_resource_ownership mem' = bt_remove_all (resource_ids_of resources owner) (mem_resource_ownership mem)"
proof -
  let ?ids = "resource_ids_of resources owner" and ?shared = "shared_ids_of mem owner"
  let ?r = "resources\<lparr> rt_resources := bt_remove_all ?ids (rt_resources resources) \<rparr>"
  note ids = exit_ids [OF b, of owner] and sums = shared_ids_sum [OF b, of owner]
  have alive: "is_alive t owner" using get live by (simp add: is_alive_get)
  have ok: "bt_ok (rt_resources resources)" "bt_ok (mem_resource_ownership mem)" "bt_ok (mem_shared_allocations mem)"
    using booksD(4-6) [OF b] by (simp_all add: resources_ok_def ownership_ok_def shared_ok_def)
  have "unat (heap_of t owner) < 2 ^ 64" using unsigned_less [where 'a = nat, of "heap_of t owner"] by simp
  then have small: "resource_charge mem owner + shared_charge mem owner < 2 ^ 64"
    using booksD(9) [OF b, of owner] by (simp add: charge_of_def)
  let ?ro = "Msg ''process {} resource memory cleanup overflow'' [ANum owner]"
    and ?rm = "''resource ids and memory ownership were compared before cleanup''"
    and ?so = "Msg ''process {} shared allocation cleanup overflow'' [ANum owner]"
    and ?sm = "''shared allocation id came from the active registry''"
    and ?dm = "''shared allocation was collected from active registry''"
  have owned: "map_option own_logical_bytes (bt_get (mem_resource_ownership mem) i) \<noteq> None" if "i \<in> set ?ids" for i
    using that unfolding ids(4) by (auto simp: set_keys_where [OF ok(2)])
  have share: "\<exists>a. bt_get (mem_shared_allocations mem) i = Some a \<and> owner \<in> set (shared_owners a)" if "i \<in> set ?shared" for i
    using that unfolding shared_ids_of_def by (simp add: set_keys_where [OF ok(3)])
  let ?own = "\<lambda>i. map_option own_logical_bytes (bt_get (mem_resource_ownership mem) i)"
    and ?share = "\<lambda>i. map_option shared_logical_bytes (bt_get (mem_shared_allocations mem) i)"
  have "unat (0 :: usize) + sum_list (map (\<lambda>i. case ?own i of Some b \<Rightarrow> unat b | None \<Rightarrow> 0) ?ids) < 2 ^ 64"
    unfolding sums(3) using small by simp
  from sum_owned_Ok [where bytes_of = ?own and ids = ?ids, OF owned this, of ?ro ?rm, unfolded sums(3)]
  obtain rb where rb: "sum_owned ?ro ?rm ?own ?ids 0 = Ok rb" "unat rb = resource_charge mem owner" by auto
  have shared: "?share i \<noteq> None" if "i \<in> set ?shared" for i using share [OF that] by auto
  have "unat (0 :: usize) + sum_list (map (\<lambda>i. case ?share i of Some b \<Rightarrow> unat b | None \<Rightarrow> 0) ?shared) < 2 ^ 64"
    unfolding sums(2) using small by simp
  from sum_owned_Ok [where bytes_of = ?share and ids = ?shared, OF shared this, of ?so ?sm, unfolded sums(2)]
  obtain sb where sb: "sum_owned ?so ?sm ?share ?shared 0 = Ok sb" "unat sb = shared_charge mem owner" by auto
  have n: "checked_add rb sb = Some (rb + sb)" "unat (rb + sb) = resource_charge mem owner + shared_charge mem owner"
    using small rb(2) sb(2) by (simp_all add: checked_add_def unat_word_ariths)
  obtain t1 hs where t1: "cleanup_owner_handles owner (resources, t)
      = (Ok (map (\<lambda>i. CleanedUpOnExit i owner) ?ids), (?r, t1))"
      "pt_get t1 = (pt_get t)(owner \<mapsto> p\<lparr> proc_resource_handles := hs \<rparr>)"
      "books Q contents capacity (own(owner := own owner + resource_charge mem owner))
         (reassign (bt_remove_all ?ids) (\<lambda>m. m) mem, ?r, t1)"
    by (rule cleanup_law [OF b get live, folded resource_ids_of_def])
  let ?mem = "reassign (bt_remove_all ?ids) (\<lambda>m. m) mem"
  have alive1: "is_alive t1 owner" using t1(2) live by (simp add: is_alive_get)
  have same: "shared_bytes_at ?mem = shared_bytes_at mem" by (simp add: shared_bytes_at_def fun_eq_iff)
  have d: "distinct ?shared" using distinct_keys_where [OF ok(3)] by (simp add: shared_ids_of_def)
  have sh: "\<forall>i\<in>set ?shared. \<exists>a. bt_get (mem_shared_allocations ?mem) i = Some a \<and> owner \<in> set (shared_owners a)"
    using share by simp
  have enough: "unat (rb + sb) \<le> (own(owner := own owner + resource_charge mem owner)) owner
        + sum_list (map (shared_bytes_at ?mem) ?shared)" unfolding same sums(1) n(2) by simp
  obtain mem1 t2 k mem2 where m: "release_heap owner (rb + sb) (?mem, t1) = (Ok (rb + sb), (mem1, t2))"
      "drop_shared_owners ?dm owner ?shared mem1 = (Ok k, mem2)"
      "books Q contents capacity ((own(owner := own owner + resource_charge mem owner))
         (owner := (own(owner := own owner + resource_charge mem owner)) owner
            + sum_list (map (shared_bytes_at ?mem) ?shared) - unat (rb + sb))) (mem2, ?r, t2)"
      "mem_resource_ownership mem2 = mem_resource_ownership ?mem"
      "mem_resource_ownership mem1 = mem_resource_ownership ?mem"
      "\<forall>j. bt_get (mem_shared_allocations mem2) j = (if j \<in> set ?shared
         then Option.bind (bt_get (mem_shared_allocations ?mem) j) (without_owner owner)
         else bt_get (mem_shared_allocations ?mem) j)"
      "\<exists>p. pt_get t1 owner = Some p \<and> pt_get t2 = (pt_get t1)(owner \<mapsto> p\<lparr> proc_heap_bytes := proc_heap_bytes p - (rb + sb) \<rparr>)"
    by (rule release_then_drop [OF t1(3) alive1 d sh enough, where message = ?dm])
  have b2: "books Q contents capacity own (mem2, ?r, t2)"
    using m(3) unfolding same sums(1) n(2) by (simp add: fun_upd_idem)
  obtain mem0 where mem0: "release_heap owner (rb + sb) (mem, t1) = (Ok (rb + sb), (mem0, t2))"
      "reassign (bt_remove_all ?ids) (\<lambda>m. m) mem0 = mem1"
    by (rule release_heap_reassign' [OF m(1)])
  let ?p2 = "p\<lparr> proc_resource_handles := hs, proc_heap_bytes := proc_heap_bytes p - (rb + sb) \<rparr>"
  have get2: "pt_get t2 = (pt_get t)(owner \<mapsto> ?p2)" using m(7) t1(2) by auto
  have p2: "pt_get t2 owner = Some ?p2" "\<not> is_exited (proc_state ?p2)" using live by (simp_all add: get2)
  obtain t3 where t3: "pt_exit_process owner reason t2 = (Ok (proc_resource_handles ?p2), t3)"
      "pt_ok Q contents capacity t3" "pt_get t3 = (pt_get t2)(owner \<mapsto> snd (proc_exit reason ?p2))"
    by (rule exit_process_law [OF booksD(1) [OF b2] p2])
  have p3: "snd (proc_exit reason ?p2) = snd (proc_exit reason p)" by (simp add: proc_exit_def)
  have none: "res_owner row \<noteq> owner" if "bt_get (rt_resources ?r) i = Some row" for i row
    using that by (auto simp: bt_get_remove_all resource_ids_of_def set_keys_where [OF ok(1)] split: if_splits)
  have alone: "owner \<notin> set (shared_owners a)" if "bt_get (mem_shared_allocations mem2) i = Some a" for i a
  proof (cases "i \<in> set ?shared")
    case True
    then show ?thesis using that m(6) [rule_format, of i] share [OF True] by (auto simp: without_owner_def split: if_splits)
  next
    case False
    then have "bt_get (mem_shared_allocations mem) i = Some a" using that m(6) [rule_format, of i] by simp
    then show ?thesis using False by (auto simp: shared_ids_of_def set_keys_where [OF ok(3)])
  qed
  obtain mem3 where mem3: "synchronize_process owner (mem2, t3) = (Ok (), (mem3, t3))"
      "books Q contents capacity (own(owner := 0)) (mem3, ?r, t3)"
    by (rule exit_books [OF b2 p2 t3(2,3) none alone])
  have get3: "pt_get t3 = (pt_get t)(owner \<mapsto> snd (proc_exit reason p))" by (simp only: t3(3) p3 get2 fun_upd_upd)
  have ensure: "require_live_account t owner = Ok ()" using get live by (simp add: require_live_account_def)
  have drop: "(\<lambda>m. m\<lparr> mem_resource_ownership := bt_remove_all ?ids (mem_resource_ownership m) \<rparr>) mem0 = mem1"
    using mem0(2) by (simp add: reassign_def)
  have run: "exit_process_with_memory_cleanup owner reason (mem, resources, t)
      = (Ok \<lparr> mexit_resource_events = map (\<lambda>i. CleanedUpOnExit i owner) ?ids,
           mexit_released_shared_allocations = ?shared, mexit_remaining_cleanup_handles = hs \<rparr>, (mem3, ?r, t3))"
    using m(2) mem3(1) t3(1) drop
    by (simp add: exit_process_with_memory_cleanup_def bind_st_def read_st_def ensure ids(1-3) rb(1) sb(1)
        ok_or_def n(1) on_resources_def t1(1) accounting_def mem0(1) change_memory_def on_accountant_def
        beside_memory_def return_st_def)
  show ?thesis
  proof (rule that [OF run get3 mem3(2)])
    show "bt_get (mem_shared_allocations mem3) i = (if i \<in> set ?shared
       then Option.bind (bt_get (mem_shared_allocations mem) i) (without_owner owner)
       else bt_get (mem_shared_allocations mem) i)" for i
      using m(6) [rule_format, of i] sync_frame(4) [OF mem3(1)] by simp
    show "mem_resource_ownership mem3 = bt_remove_all ?ids (mem_resource_ownership mem)"
      using m(4) sync_frame(3) [OF mem3(1)] by simp
  qed
qed

lemma exit_law:
  assumes b: "balanced Q contents capacity (mem, resources, t)"
    and get: "pt_get t owner = Some p" and live: "\<not> is_exited (proc_state p)"
  obtains handles mem' t' where "exit_process_with_memory_cleanup owner reason (mem, resources, t)
      = (Ok \<lparr> mexit_resource_events = map (\<lambda>i. CleanedUpOnExit i owner) (resource_ids_of resources owner),
           mexit_released_shared_allocations = shared_ids_of mem owner, mexit_remaining_cleanup_handles = handles \<rparr>,
         (mem', resources\<lparr> rt_resources := bt_remove_all (resource_ids_of resources owner) (rt_resources resources) \<rparr>, t'))"
    "pt_get t' = (pt_get t)(owner \<mapsto> snd (proc_exit reason p))"
    "balanced Q contents capacity (mem',
       resources\<lparr> rt_resources := bt_remove_all (resource_ids_of resources owner) (rt_resources resources) \<rparr>, t')"
    "\<And>i. bt_get (mem_shared_allocations mem') i = (if i \<in> set (shared_ids_of mem owner)
       then Option.bind (bt_get (mem_shared_allocations mem) i) (without_owner owner)
       else bt_get (mem_shared_allocations mem) i)"
    "mem_resource_ownership mem' = bt_remove_all (resource_ids_of resources owner) (mem_resource_ownership mem)"
proof -
  obtain own where "books Q contents capacity own (mem, resources, t)" by (rule balancedE [OF b])
  from exit_books_law [OF this get live, of reason] show ?thesis using that balancedI by metis
qed

end
