(* ===== verification/Memory_Runs.thy ===== *)
theory Memory_Runs
  imports Memory_Exit_Laws
begin

text \<open>
  Collection, mailbox checkpoints, reaping, and the sequences of calls on the accountant: one
  constructor of \<open>memory_call\<close> for each public operation, and the run of a list of them.
\<close>

section \<open>Direct bytes given back\<close>

lemma release_direct:
  assumes b: "books Q contents capacity own (mem, resources, t)" and alive: "is_alive t pid"
    and n: "unat n \<le> own pid"
  obtains mem' t' where "release_heap pid n (mem, t) = (Ok n, (mem', t'))"
    "heap_of t' = (heap_of t)(pid := heap_of t pid - n)"
    "books Q contents capacity (own(pid := own pid - unat n)) (mem', resources, t')"
proof -
  obtain p where p: "pt_get t pid = Some p" "\<not> is_exited (proc_state p)" using alive alive_process by blast
  obtain mem' t' where t': "release_heap pid n (mem, t) = (Ok n, (mem', t'))"
      "pt_get t' = (pt_get t)(pid \<mapsto> p\<lparr> proc_heap_bytes := proc_heap_bytes p - n \<rparr>)"
      "books Q contents capacity (own(pid := own pid - unat n)) (mem', resources, t')"
    by (rule release_heap_live [OF b p n])
  have "heap_of t' = (heap_of t)(pid := heap_of t pid - n)"
    using table_update(1) [OF t'(2)] p(1) by (simp add: heap_of_def fun_eq_iff)
  then show ?thesis by (rule that [OF t'(1) _ t'(3)])
qed

section \<open>Collection\<close>

lemma checked_owned_sum_Ok:
  "checked_owned_sum e xs acc = Ok b \<Longrightarrow> unat b = unat acc + sum_list (map unat xs)"
  by (induction xs arbitrary: acc) (auto simp: bind_out_eq_Ok ok_or_def dest!: checked_add_unat split: option.splits)

lemma fold_stuck: "(\<And>x. step x (Err e) = Err e) \<Longrightarrow> fold step xs (Err e) = Err e"
  by (induction xs) simp_all

lemma mailbox_sum_Ok:
  "fold (\<lambda>message acc. bind_out acc (\<lambda>acc. ok_or e (checked_add acc (msg_accounted_bytes message)))) ms (Ok a) = Ok b
     \<Longrightarrow> unat b = unat a + mailbox_bytes ms"
proof (induction ms arbitrary: a)
  case (Cons m ms)
  show ?case
  proof (cases "checked_add a (msg_accounted_bytes m)")
    case None
    then show ?thesis using Cons.prems by (simp add: ok_or_def fold_stuck)
  next
    case (Some a')
    then have "unat b = unat a' + mailbox_bytes ms" using Cons by (simp add: ok_or_def)
    then show ?thesis using checked_add_unat [OF Some] by (simp add: mailbox_bytes_def)
  qed
qed (simp add: mailbox_bytes_def)

lemma protected_bytes_Ok:
  assumes get: "pt_get t pid = Some p" and m: "proc_mailbox_accounted_bytes p = Ok a"
    and run: "protected_process_bytes mem pid a = Ok b"
  shows "unat b = charge_of (mem, resources, t) pid"
proof -
  have own: "ownership_weight pid = (\<lambda>o'. if own_owner o' = pid then unat (own_logical_bytes o') else 0)"
    and sh: "shared_weight pid = (\<lambda>a. if bs_contains (shared_owners a) pid then unat (shared_logical_bytes a) else 0)"
    by (simp_all add: ownership_weight_def shared_weight_def bs_contains_def fun_eq_iff)
  have a: "unat a = mailbox_bytes (proc_mailbox p)"
    using mailbox_sum_Ok [OF m [unfolded proc_mailbox_accounted_bytes_def]] by simp
  from run obtain r s x where r: "checked_owned_sum (Msg ''process {} {kind} ownership byte overflow'' [ANum pid, AStr ''resource''])
       (map own_logical_bytes (filter (\<lambda>ownership. own_owner ownership = pid)
         (bt_values (mem_resource_ownership mem)))) 0 = Ok r"
    and s: "checked_owned_sum (Msg ''process {} {kind} ownership byte overflow'' [ANum pid, AStr ''shared allocation''])
       (map shared_logical_bytes (filter (\<lambda>allocation. bs_contains (shared_owners allocation) pid)
         (bt_values (mem_shared_allocations mem)))) 0 = Ok s"
    and x: "checked_add a r = Some x" "checked_add x s = Some b"
    by (auto simp: protected_process_bytes_def bind_out_eq_Ok ok_or_def split: option.splits)
  have "unat r = resource_charge mem pid" "unat s = shared_charge mem pid"
    using checked_owned_sum_Ok [OF r] checked_owned_sum_Ok [OF s]
    by (simp_all add: resource_charge_def own shared_charge_def sh bt_weight_values o_def)
  then show ?thesis
    using a checked_add_unat [OF x(1)] checked_add_unat [OF x(2)] get by (simp add: charge_of_def mailbox_charge_def)
qed

lemma collect_accepted:
  assumes b: "books Q contents capacity own (mem, resources, t)"
    and run: "collect_process_heap pid traced (mem, t) = (r, (mem', t'))"
    and live: "require_live_account t pid = Ok ()" and get: "pt_get t pid = Some p"
    and a: "proc_mailbox_accounted_bytes p = Ok a" and bs: "protected_process_bytes mem pid a = Ok bs"
    and rt: "checked_add bs traced = Some rt" and le: "rt \<le> proc_heap_bytes p"
  shows "(case r of
         Ok c \<Rightarrow> books Q contents capacity (own(pid := unat traced)) (mem', resources, t')
           \<and> collection_traced_value_bytes c = traced
           \<and> unat (collection_protected_bytes c) = charge_of (mem, resources, t) pid
           \<and> unat (heap_of t' pid) = charge_of (mem, resources, t) pid + unat traced
           \<and> heap_of t' pid = collection_retained_bytes c
           \<and> unat (heap_of t pid) = unat (heap_of t' pid) + unat (collection_reclaimed_bytes c)
           \<and> (\<forall>q. q \<noteq> pid \<longrightarrow> heap_of t' q = heap_of t q)
       | _ \<Rightarrow> mem' = mem \<and> t' = t)"
proof -
  have alive: "is_alive t pid" using live get by (auto simp: require_live_account_def is_alive_get split: if_splits)
  have charge: "unat bs = charge_of (mem, resources, t) pid" by (rule protected_bytes_Ok [OF get a bs])
  have heap: "heap_of t pid = proc_heap_bytes p" using get by (simp add: heap_of_def)
  have rt': "unat rt = charge_of (mem, resources, t) pid + unat traced" using checked_add_unat [OF rt] charge by simp
  have diff: "unat (proc_heap_bytes p - rt) = unat (proc_heap_bytes p) - unat rt" using le by (simp add: unat_sub)
  obtain mem1 t1 where t1: "release_heap pid (proc_heap_bytes p - rt) (mem, t) = (Ok (proc_heap_bytes p - rt), (mem1, t1))"
      "heap_of t1 = (heap_of t)(pid := heap_of t pid - (proc_heap_bytes p - rt))"
      "books Q contents capacity (own(pid := own pid - unat (proc_heap_bytes p - rt))) (mem1, resources, t1)"
    by (rule release_direct [OF b alive, of "proc_heap_bytes p - rt"])
      (use diff rt' le heap booksD(9) [OF b, of pid] in \<open>simp_all add: word_le_nat_alt\<close>)
  have left: "own pid - unat (proc_heap_bytes p - rt) = unat traced"
    using diff rt' le heap booksD(9) [OF b, of pid] by (simp add: word_le_nat_alt)
  have r: "r = Ok \<lparr> collection_pid = pid, collection_previous_bytes = proc_heap_bytes p,
           collection_protected_bytes = bs, collection_traced_value_bytes = traced,
           collection_retained_bytes = rt, collection_reclaimed_bytes = proc_heap_bytes p - rt \<rparr>"
    "mem' = mem1" "t' = t1"
    using run live get a bs rt t1(1)
    by (simp_all add: collect_process_heap_def bind_st_def read_st_def bind_out_def ok_or_def Let_def return_st_def
        if_not_P [OF le [unfolded linorder_not_less [symmetric]]])
  have "heap_of t1 pid = rt" using t1(2) heap by simp
  then show ?thesis
    using t1(2) t1(3) [unfolded left] charge rt' diff le heap by (auto simp: r word_le_nat_alt)
qed

text \<open>A collection either is refused without effect or leaves the charges and the traced values.\<close>

lemma collect_law:
  assumes b: "books Q contents capacity own (mem, resources, t)"
    and run: "collect_process_heap pid traced (mem, t) = (r, (mem', t'))"
  shows "(case r of
         Ok c \<Rightarrow> books Q contents capacity (own(pid := unat traced)) (mem', resources, t')
           \<and> collection_traced_value_bytes c = traced
           \<and> unat (collection_protected_bytes c) = charge_of (mem, resources, t) pid
           \<and> unat (heap_of t' pid) = charge_of (mem, resources, t) pid + unat traced
           \<and> heap_of t' pid = collection_retained_bytes c
           \<and> unat (heap_of t pid) = unat (heap_of t' pid) + unat (collection_reclaimed_bytes c)
           \<and> (\<forall>q. q \<noteq> pid \<longrightarrow> heap_of t' q = heap_of t q)
       | _ \<Rightarrow> mem' = mem \<and> t' = t)"
proof -
  have refused: ?thesis if "(\<exists>e. r = Err e) \<or> (\<exists>x. r = Panic x)" "mem' = mem" "t' = t"
    using that by auto
  note start = collect_process_heap_def bind_st_def read_st_def bind_out_def ok_or_def Let_def
  show ?thesis
  proof (cases "require_live_account t pid")
    case (Err e)
    then show ?thesis using run by (intro refused) (auto simp: start)
  next
    case (Panic x)
    then show ?thesis using run by (intro refused) (auto simp: start)
  next
    case live: (Ok u)
    then obtain p where get: "pt_get t pid = Some p" by (auto simp: require_live_account_def split: option.splits)
    note start = start live get
    show ?thesis
    proof (cases "proc_mailbox_accounted_bytes p")
      case (Err e)
      then show ?thesis using run by (intro refused) (auto simp: start)
    next
      case (Panic x)
      then show ?thesis using run by (intro refused) (auto simp: start)
    next
      case a: (Ok a)
      show ?thesis
      proof (cases "protected_process_bytes mem pid a")
        case (Err e)
        then show ?thesis using run a by (intro refused) (auto simp: start)
      next
        case (Panic x)
        then show ?thesis using run a by (intro refused) (auto simp: start)
      next
        case bs: (Ok bs)
        show ?thesis
        proof (cases "checked_add bs traced")
          case None
          then show ?thesis using run a bs by (intro refused) (auto simp: start)
        next
          case rt: (Some rt)
          show ?thesis
          proof (cases "proc_heap_bytes p < rt")
            case True
            then show ?thesis using run a bs rt by (intro refused) (auto simp: start)
          next
            case False
            then show ?thesis
              using collect_accepted [OF b run _ get a bs rt] live by (simp add: not_less)
          qed
        qed
      qed
    qed
  qed
qed

section \<open>Checkpoints\<close>

lemma deliver_law:
  assumes b: "books Q contents capacity c (mem, resources, t)" and alive: "is_alive t pid" "is_alive t sender"
    and n: "unat (delivery_accounted_bytes delivery) \<le> c pid"
  obtains i t' where "send_typed Q sender pid delivery t = (Ok i, t')" "\<forall>q. is_alive t' q = is_alive t q"
    "books Q contents capacity (c(pid := c pid - unat (delivery_accounted_bytes delivery))) (mem, resources, t')"
proof -
  obtain p where p: "pt_get t pid = Some p" "\<not> is_exited (proc_state p)" using alive(1) alive_process by blast
  obtain i sequence t' where t': "send_typed Q sender pid delivery t = (Ok i, t')" "pt_ok Q contents capacity t'"
      "pt_get t' = (pt_get t)(pid \<mapsto> proc_integrate_message (delivered_message i sequence sender delivery) p)"
    by (rule send_typed_alive [OF booksD(1) [OF b] alive(2) p])
  have live: "\<forall>q. is_alive t' q = is_alive t q"
    using table_update(3) [OF t'(3)] p by (auto simp: is_alive_get)
  show ?thesis
    by (rule that [OF t'(1) live books_mailbox_change [OF b p t'(2,3)]])
      (use n p in \<open>simp_all add: proc_integrate_mailbox mailbox_bytes_enqueue delivered_message_def\<close>)
qed

lemma send_measured_law:
  assumes "books Q contents capacity c (mem, resources, t)" "is_alive t pid"
    "sum_list (map (\<lambda>m. unat (snd m)) measured) \<le> c pid"
  shows "\<exists>is t'. send_measured Q pid measured t = (Ok is, t')
    \<and> books Q contents capacity (c(pid := c pid - sum_list (map (\<lambda>m. unat (snd m)) measured))) (mem, resources, t')"
  using assms
proof (induction measured arbitrary: c t)
  case Nil
  then show ?case by (simp add: return_st_def)
next
  case (Cons m measured)
  obtain v n where m: "m = (v, n)" by (cases m)
  obtain i t1 where t1: "send_accounted Q pid pid v n t = (Ok i, t1)" "\<forall>q. is_alive t1 q = is_alive t q"
      "books Q contents capacity (c(pid := c pid - unat n)) (mem, resources, t1)"
    unfolding send_accounted_def
    by (rule deliver_law [OF Cons.prems(1,2,2), of "plain_delivery v n Ordinary"])
      (use Cons.prems(3) m in \<open>simp_all add: plain_delivery_def\<close>)
  have "\<exists>is t'. send_measured Q pid measured t1 = (Ok is, t')
      \<and> books Q contents capacity ((c(pid := c pid - unat n))(pid := (c(pid := c pid - unat n)) pid
          - sum_list (map (\<lambda>m. unat (snd m)) measured))) (mem, resources, t')"
    by (rule Cons.IH [OF t1(3)]) (use t1(2) Cons.prems(2,3) m in simp_all)
  then obtain "is" t' where t': "send_measured Q pid measured t1 = (Ok is, t')"
      "books Q contents capacity (c(pid := c pid - sum_list (map (\<lambda>m. unat (snd m)) ((v, n) # measured)))) (mem, resources, t')"
    by auto
  then show ?case
    unfolding m by (intro exI [of _ "i # is"] exI [of _ t'] conjI) (simp add: bind_st_def return_st_def t1(1) t'(1), rule t'(2))
qed

lemma restore_keeps:
  assumes b: "books Q contents capacity own (mem, resources, t)"
    and run: "restore_mailbox_checkpoint Q pid payloads (mem, t) = (r, (mem', t'))"
  shows "books Q contents capacity own (mem', resources, t')"
proof -
  note start = restore_mailbox_checkpoint_def bind_st_def read_st_def
  let ?e = "Msg ''error[vm_memory_checkpoint_size_overflow]: mailbox checkpoint exceeds usize'' []"
  show ?thesis
  proof (cases "validate_send t pid pid = Ok () \<and> (\<exists>ms n. measure_values payloads = Ok ms \<and> checked_owned_sum ?e (map snd ms) 0 = Ok n)")
    case False
    then have "mem' = mem" "t' = t"
      using run by (auto simp: start split: outcome.splits)
    then show ?thesis using b by simp
  next
    case True
    then obtain ms n where v: "validate_send t pid pid = Ok ()" and ms: "measure_values payloads = Ok ms"
      and n: "checked_owned_sum ?e (map snd ms) 0 = Ok n" by blast
    have n': "unat n = sum_list (map (\<lambda>m. unat (snd m)) ms)"
      using checked_owned_sum_Ok [OF n] by (simp add: o_def)
    obtain r1 mem1 t1 where acc: "account_heap pid n (mem, t) = (r1, (mem1, t1))" by (metis prod_cases3)
    note start = start v ms n acc
    from b acc show ?thesis
    proof (cases rule: account_cases)
      case (refused e)
      then show ?thesis using v by (simp add: validate_send_alive)
    next
      case (rejected d)
      then show ?thesis using run by (auto simp: start return_st_def)
    next
      case (accepted d p)
      have "is_alive t1 pid" using accepted(4,5,7) by (simp add: is_alive_get)
      from send_measured_law [OF accepted(3) this, of ms] n' obtain "is" t2 where
          t2: "send_measured Q pid ms t1 = (Ok is, t2)"
          "books Q contents capacity ((own(pid := own pid + unat n))(pid := (own(pid := own pid + unat n)) pid
             - sum_list (map (\<lambda>m. unat (snd m)) ms))) (mem1, resources, t2)" by auto
      have "books Q contents capacity own (mem1, resources, t2)" by (rule books_cong [OF t2(2)]) (simp add: n')
      moreover have "mem' = mem1" "t' = t2"
        using run accepted(1,2) t2(1) by (simp_all add: start return_st_def beside_memory_def)
      ultimately show ?thesis by simp
    qed
  qed
qed

section \<open>Reading the table again, reaping and spawning\<close>

lemma synchronize_keeps:
  assumes b: "books Q contents capacity own (mem, resources, t)"
    and run: "synchronize_process pid (mem, t) = (r, (mem', t'))"
  shows "books Q contents capacity own (mem', resources, t')"
proof (cases "pt_get t pid")
  case None
  then show ?thesis using run b by (simp add: synchronize_process_def bind_st_def read_st_def ok_or_def)
next
  case (Some p)
  let ?h = "proc_heap_bytes p"
  define f where "f = (\<lambda>metrics :: VmProcessMemoryMetrics. let metrics = metrics\<lparr> mm_pid := pid \<rparr>;
           metrics = (if ?h < mm_current_bytes metrics then
             let released = mm_current_bytes metrics - ?h
             in metrics\<lparr> mm_collection_events := saturating_add (mm_collection_events metrics) 1,
                  mm_released_bytes := saturating_add (mm_released_bytes metrics) released \<rparr>
             else metrics)
       in metrics\<lparr> mm_current_bytes := ?h, mm_high_water_bytes := max (mm_high_water_bytes metrics) ?h \<rparr>)"
  have m': "mem' = change_metrics pid f mem" "t' = t"
    using run Some
    by (simp_all add: synchronize_process_def bind_st_def read_st_def ok_or_def change_memory_def f_def)
  let ?m = "case bt_get (mem_processes mem) pid of Some metrics \<Rightarrow> metrics | None \<Rightarrow> metrics_default"
  have h: "heap_of t pid = ?h" using Some by (simp add: heap_of_def)
  have "?h \<le> lim_hard_bytes (mem_limits mem)" using booksD(8) [OF b, of pid] h by simp
  then have metrics: "metrics_ok mem'"
    unfolding m' by (intro metrics_change [OF booksD(3) [OF b], where m = "f ?m"])
      (use metrics_found [OF booksD(3) [OF b] refl, of pid] in \<open>auto simp: f_def Let_def\<close>)
  have current: "current_bytes_of mem' = current_bytes_of mem"
    using booksD(7) [OF b, of pid] h unfolding m' by (auto simp: current_bytes_change f_def Let_def)
  have same: "ownership_ok mem' = ownership_ok mem" "shared_ok mem' = shared_ok mem"
    "resource_charge mem' = resource_charge mem" "shared_charge mem' = shared_charge mem"
    "mem_limits mem' = mem_limits mem"
    by (simp_all add: m' ownership_ok_def shared_ok_def resource_charge_def shared_charge_def fun_eq_iff)
  show ?thesis using booksD [OF b] metrics by (simp add: books_def charge_of_def same current m'(2))
qed

lemma reap_metrics_keeps:
  assumes b: "books Q contents capacity own (mem, resources, t)"
    and run: "reap_process_metrics pid mem = (r, mem')"
  shows "books Q contents capacity own (mem', resources, t)"
proof (cases "r = Ok ()")
  case False
  then have "mem' = mem" using run by (auto simp: reap_process_metrics_def split: if_splits)
  then show ?thesis using b by simp
next
  case True
  then have m': "mem' = mem\<lparr> mem_processes := bt_remove pid (mem_processes mem),
        mem_decisions := filter (\<lambda>decision. pressure_pid decision \<noteq> pid) (mem_decisions mem) \<rparr>"
      and zero: "current_bytes_of mem pid = 0"
    using run by (auto simp: reap_process_metrics_def current_bytes_of_def split: if_splits option.splits)
  have current: "current_bytes_of mem' = current_bytes_of mem"
    using zero by (auto simp: fun_eq_iff current_bytes_of_def m')
  have metrics: "metrics_ok mem'" using booksD(3) [OF b] by (auto simp: metrics_ok_def m' split: if_splits)
  have same: "ownership_ok mem' = ownership_ok mem" "shared_ok mem' = shared_ok mem"
    "resource_charge mem' = resource_charge mem" "shared_charge mem' = shared_charge mem"
    "mem_limits mem' = mem_limits mem"
    by (simp_all add: m' ownership_ok_def shared_ok_def resource_charge_def shared_charge_def fun_eq_iff)
  show ?thesis using booksD [OF b] metrics by (simp add: books_def charge_of_def same current)
qed

lemma spawn_books:
  assumes b: "books Q contents capacity own (mem, resources, t)"
    and bound: "pt_next_pid t \<noteq> - 1" and room: "pt_has_room t"
    and run: "pt_spawn Q parent source t = (r, t')"
  shows "books Q contents capacity own (mem, resources, t')"
proof -
  obtain pid t1 where t1: "pt_spawn Q parent source t = (Ok pid, t1)" "pt_ok Q contents capacity t1"
      "pt_get t pid = None" "pt_get t1 = (pt_get t)(pid \<mapsto> new_process pid parent source)"
    by (rule spawn_law [OF booksD(1) [OF b] bound room])
  have t': "t' = t1" using run t1(1) by simp
  let ?p = "new_process pid parent source"
  have p: "proc_heap_bytes ?p = 0" "proc_mailbox ?p = []" "proc_resource_handles ?p = []" "\<not> is_exited (proc_state ?p)"
    by (simp_all add: new_process_def)
  note u = table_update [OF t1(4)]
  have heap: "heap_of t1 = heap_of t" and mail: "mailbox_charge t1 = mailbox_charge t"
    using u(1,2) p t1(3) by (auto simp: heap_of_def mailbox_charge_def mailbox_bytes_def fun_eq_iff)
  have alive: "is_alive t q \<Longrightarrow> is_alive t1 q" for q using u(3) [of q] p(4) by simp
  have "\<not> is_alive t pid" using t1(3) by (simp add: is_alive_get)
  then have none: "\<not> owns_resource resources pid i" for i
    using booksD(4) [OF b] by (auto simp: resources_ok_def owns_resource_def)
  have "resources_ok resources t1"
    using booksD(4) [OF b] none p(3) alive unfolding resources_ok_def t1(4) by auto
  moreover have "shared_ok mem t1" using booksD(6) [OF b] alive by (auto simp: shared_ok_def)
  ultimately show ?thesis
    using booksD [OF b] t1(2) unfolding t' by (simp add: books_def heap charge_of_def mail)
qed

section \<open>Calls on the accountant\<close>

datatype memory_call =
  Spawn "VmProcessId option" VmProcessSource
| AccountHeap VmProcessId usize
| ReleaseHeap VmProcessId usize
| Synchronize VmProcessId
| ReapMetrics VmProcessId
| SendMessage VmProcessId VmProcessId ReplValue usize
| SendValue VmProcessId VmProcessId ReplValue
| SendTyped VmProcessId VmProcessId ReplValue TvmBoundaryType
| SendManaged VmProcessId VmProcessId VmManagedMailboxToken TvmBoundaryType
| SendPriority VmProcessId VmProcessId ReplValue
| Receive VmProcessId
| SelectiveReceive VmProcessId "VmMessage \<Rightarrow> bool"
| RegisterResource VmProcessId VmResourceDescriptor VmResourceTransferPolicy usize
| TransferResource VmResourceId VmProcessId VmProcessId
| ReleaseResource VmProcessId VmResourceId
| RegisterShared VmProcessId VmSharedAllocationKind usize
| RetainShared VmSharedAllocationId VmProcessId VmProcessId
| ReleaseShared VmSharedAllocationId VmProcessId
| ReleaseSharedBulk "VmSharedAllocationId list" VmProcessId
| ReclassifyShared VmSharedAllocationId VmProcessId VmSharedAllocationKind VmSharedAllocationKind
| ExitWithCleanup VmProcessId VmExitReason
| Collect VmProcessId usize
| RestoreCheckpoint VmProcessId "ReplValue list"

definition dropping :: "('s, 'e, 'a) stateful \<Rightarrow> ('s, 'e, unit) stateful" where
  "dropping f = bind_st f (\<lambda>_. return_st ())"

fun memory_step :: "'q queue_of \<Rightarrow> memory_call \<Rightarrow> ('q accounted_resources, vm_error, unit) stateful" where
  "memory_step Q (Spawn parent source) = dropping (accounting (beside_memory (pt_spawn Q parent source)))"
| "memory_step Q (AccountHeap pid n) = dropping (accounting (account_heap pid n))"
| "memory_step Q (ReleaseHeap pid n) = dropping (accounting (release_heap pid n))"
| "memory_step Q (Synchronize pid) = accounting (synchronize_process pid)"
| "memory_step Q (ReapMetrics pid) = on_accountant (reap_process_metrics pid)"
| "memory_step Q (SendMessage sender pid payload n) = dropping (accounting (mem_send_message Q sender pid payload n))"
| "memory_step Q (SendValue sender pid payload) = dropping (accounting (send_value_message Q sender pid payload))"
| "memory_step Q (SendTyped sender pid payload ty) = dropping (accounting (send_typed_value_message Q sender pid payload ty))"
| "memory_step Q (SendManaged sender pid token ty) = dropping (accounting (send_typed_managed_message Q sender pid token ty))"
| "memory_step Q (SendPriority sender pid payload) = dropping (accounting (send_priority_value_message Q sender pid payload))"
| "memory_step Q (Receive pid) = dropping (accounting (mem_receive_message pid))"
| "memory_step Q (SelectiveReceive pid predicate) = dropping (accounting (selective_receive_message pid predicate))"
| "memory_step Q (RegisterResource pid descriptor policy n) = dropping (mem_register_resource pid descriptor policy n)"
| "memory_step Q (TransferResource i pid target) = dropping (mem_transfer_resource i pid target)"
| "memory_step Q (ReleaseResource pid i) = dropping (mem_release_resource pid i)"
| "memory_step Q (RegisterShared pid kind n) = dropping (accounting (register_shared_allocation pid kind n))"
| "memory_step Q (RetainShared i pid new) = dropping (accounting (retain_shared_allocation i pid new))"
| "memory_step Q (ReleaseShared i pid) = dropping (accounting (release_shared_allocation i pid))"
| "memory_step Q (ReleaseSharedBulk ids pid) = dropping (accounting (release_shared_allocations ids pid))"
| "memory_step Q (ReclassifyShared i pid expected kind) = on_accountant (reclassify_shared_allocation i pid expected kind)"
| "memory_step Q (ExitWithCleanup pid reason) = dropping (exit_process_with_memory_cleanup pid reason)"
| "memory_step Q (Collect pid traced) = dropping (accounting (collect_process_heap pid traced))"
| "memory_step Q (RestoreCheckpoint pid payloads) = dropping (accounting (restore_mailbox_checkpoint Q pid payloads))"

text \<open>
  What the callers keep to: identities are not used up, and a caller that gives heap bytes back
  itself does not give back those of a mailbox, a resource or a shared allocation, which the
  accountant releases with what they were charged for. (In the runtime no production code calls
  the release of heap bytes; the receive, release and exit operations of the accountant do.)
\<close>

fun call_allowed :: "'q accounted_resources \<Rightarrow> memory_call \<Rightarrow> bool" where
  "call_allowed (mem, resources, t) (Spawn parent source) \<longleftrightarrow> pt_next_pid t \<noteq> - 1 \<and> pt_has_room t"
| "call_allowed (mem, resources, t) (ReleaseHeap pid n) \<longleftrightarrow>
     unat n + charge_of (mem, resources, t) pid \<le> unat (heap_of t pid)"
| "call_allowed (mem, resources, t) (RegisterResource pid descriptor policy n) \<longleftrightarrow> rt_next_id resources \<noteq> - 1"
| "call_allowed s call \<longleftrightarrow> True"

fun memory_run :: "'q queue_of \<Rightarrow> memory_call list \<Rightarrow> 'q accounted_resources \<Rightarrow> 'q accounted_resources" where
  "memory_run Q [] s = s"
| "memory_run Q (call # calls) s = memory_run Q calls (snd (memory_step Q call s))"

fun calls_allowed :: "'q queue_of \<Rightarrow> 'q accounted_resources \<Rightarrow> memory_call list \<Rightarrow> bool" where
  "calls_allowed Q s [] \<longleftrightarrow> True"
| "calls_allowed Q s (call # calls) \<longleftrightarrow> call_allowed s call \<and> calls_allowed Q (snd (memory_step Q call s)) calls"

section \<open>Every call keeps the books\<close>

lemma snd_dropping [simp]: "snd (dropping f s) = snd (f s)"
  by (simp add: dropping_def bind_st_def return_st_def split: prod.split outcome.split)

lemma snd_accounting: "snd (accounting f (mem, resources, t)) = (case snd (f (mem, t)) of (mem', t') \<Rightarrow> (mem', resources, t'))"
  by (simp add: accounting_def split: prod.splits)

lemma snd_on_accountant: "snd (on_accountant f (mem, s)) = (snd (f mem), s)"
  by (simp add: on_accountant_def split: prod.split)

lemma accounting_keeps:
  assumes "\<And>r mem' t'. f (mem, t) = (r, (mem', t')) \<Longrightarrow> books Q contents capacity own (mem', resources, t')"
  shows "books Q contents capacity own (snd (accounting f (mem, resources, t)))"
  by (cases "f (mem, t)") (use assms in \<open>auto simp: snd_accounting\<close>)

lemma send_keeps:
  assumes b: "books Q contents capacity own (mem, resources, t)"
    and send: "send = send_typed Q sender pid delivery" "delivery_accounted_bytes delivery = n"
    and run: "bind_st (read_st (\<lambda>(mem, t). validate_send t sender pid)) (\<lambda>_. bind_st (read_st (\<lambda>_. check))
       (\<lambda>_. reserve_then_send pid n send)) (mem, t) = (r, (mem', t'))"
  shows "books Q contents capacity own (mem', resources, t')"
proof (cases "validate_send t sender pid = Ok () \<and> (\<exists>u. check = Ok u)")
  case False
  then have "mem' = mem" "t' = t"
    using run by (auto simp: bind_st_def read_st_def split: outcome.splits)
  then show ?thesis using b by simp
next
  case True
  then have "reserve_then_send pid n (send_typed Q sender pid delivery) (mem, t) = (r, (mem', t'))"
    using run by (auto simp: bind_st_def read_st_def send(1))
  then show ?thesis using reserve_then_send_keeps [OF b _ _ send(2)] True by (auto simp: validate_send_alive)
qed

lemma delivery_bytes [simp]:
  "delivery_accounted_bytes (plain_delivery payload n priority) = n"
  "delivery_accounted_bytes ((plain_delivery payload n priority)\<lparr> delivery_boundary_type := ty \<rparr>) = n"
  "delivery_accounted_bytes ((plain_delivery payload n priority)
     \<lparr> delivery_boundary_type := ty, delivery_managed_fragment := fragment \<rparr>) = n"
  by (simp_all add: plain_delivery_def)

lemma measured_first:
  "bind_st (read_st (\<lambda>_. m)) f s = (case m of Ok n \<Rightarrow> f n s | Err e \<Rightarrow> (Err e, s) | Panic x \<Rightarrow> (Panic x, s))"
  by (simp add: bind_st_def read_st_def split: outcome.split)

lemma read_Ok: "bind_st (read_st (\<lambda>_. Ok n)) f = f n"
  by (simp add: fun_eq_iff bind_st_def read_st_def)

lemma mem_send_keeps:
  assumes "books Q contents capacity own (mem, resources, t)"
    and "mem_send_message Q sender pid payload n (mem, t) = (r, (mem', t'))"
  shows "books Q contents capacity own (mem', resources, t')"
  by (rule send_keeps [where n = n and check = "Ok ()" and r = r, OF assms(1) send_accounted_def [of Q sender pid payload n]])
    (use assms(2) in \<open>simp_all add: mem_send_message_def read_Ok\<close>)

lemma value_send_keeps:
  assumes "books Q contents capacity own (mem, resources, t)"
    and "send_value_message Q sender pid payload (mem, t) = (r, (mem', t'))"
  shows "books Q contents capacity own (mem', resources, t')"
  using assms mem_send_keeps [OF assms(1)]
  by (auto simp: send_value_message_def measured_first split: outcome.splits)

lemma typed_send_keeps:
  assumes b: "books Q contents capacity own (mem, resources, t)"
    and run: "send_typed_value_message Q sender pid payload ty (mem, t) = (r, (mem', t'))"
  shows "books Q contents capacity own (mem', resources, t')"
proof (cases "measure_value payload")
  case (Ok n)
  show ?thesis
    by (rule send_keeps [where n = n and check = "measure_value payload" and r = r,
          OF b send_typed_accounted_def [of Q sender pid payload ty n]])
      (use run Ok in \<open>simp_all add: send_typed_value_message_def read_Ok\<close>)
qed (use b run in \<open>auto simp: send_typed_value_message_def bind_st_def read_st_def split: outcome.splits\<close>)

lemma priority_send_keeps:
  assumes b: "books Q contents capacity own (mem, resources, t)"
    and run: "send_priority_value_message Q sender pid payload (mem, t) = (r, (mem', t'))"
  shows "books Q contents capacity own (mem', resources, t')"
proof (cases "measure_value payload")
  case (Ok n)
  show ?thesis
    by (rule send_keeps [where n = n and check = "measure_value payload" and r = r,
          OF b send_priority_accounted_def [of Q sender pid payload n]])
      (use run Ok in \<open>simp_all add: send_priority_value_message_def read_Ok\<close>)
qed (use b run in \<open>auto simp: send_priority_value_message_def bind_st_def read_st_def split: outcome.splits\<close>)

lemma managed_send_keeps:
  assumes b: "books Q contents capacity own (mem, resources, t)"
    and run: "send_typed_managed_message Q sender pid token ty (mem, t) = (r, (mem', t'))"
  shows "books Q contents capacity own (mem', resources, t')"
  by (rule send_keeps [where n = "managed_accounted_bytes token" and r = r,
        OF b send_typed_managed_accounted_def [of Q sender pid token ty "managed_accounted_bytes token"] _
          run [unfolded send_typed_managed_message_def Let_def]])
    simp

lemma selective_receive_keeps:
  assumes b: "books Q contents capacity own (mem, resources, t)"
    and run: "selective_receive_message pid predicate (mem, t) = (r, (mem', t'))"
  shows "books Q contents capacity own (mem', resources, t')"
proof -
  obtain r0 s0 where scan: "selective_receive_message_with_scan pid predicate (mem, t) = (r0, s0)"
    by (cases "selective_receive_message_with_scan pid predicate (mem, t)")
  have split: "(\<lambda>(message, inspected). f message inspected) = (\<lambda>x. f (fst x) (snd x))" for f :: "'x \<Rightarrow> 'y \<Rightarrow> 'z"
    by (simp add: fun_eq_iff)
  have "s0 = (mem', t')"
    using run scan by (simp add: selective_receive_message_def bind_st_def return_st_def split: outcome.splits)
  then show ?thesis
    using receive_keeps [OF b takes_selective, of pid predicate
        "\<lambda>x. \<lparr> receive_message = fst x, receive_inspected_messages = snd x \<rparr>"] scan
    by (simp add: selective_receive_message_with_scan_def split)
qed

lemma exit_refused:
  assumes "\<not> is_alive t pid"
  shows "\<exists>e. exit_process_with_memory_cleanup pid reason (mem, resources, t) = (Err e, (mem, resources, t))"
proof -
  have "\<exists>e. require_live_account t pid = Err e"
    using assms by (auto simp: require_live_account_def is_alive_def split: option.splits)
  then show ?thesis by (auto simp: exit_process_with_memory_cleanup_def bind_st_def read_st_def)
qed

lemma exit_step:
  assumes b: "books Q contents capacity own (mem, resources, t)"
    and run: "exit_process_with_memory_cleanup pid reason (mem, resources, t) = (r, s')"
  shows "books Q contents capacity (case r of Ok _ \<Rightarrow> own(pid := 0) | _ \<Rightarrow> own) s'"
proof (cases "is_alive t pid")
  case False
  then show ?thesis using exit_refused [OF False, of reason mem resources] run b by auto
next
  case True
  then obtain p where p: "pt_get t pid = Some p" "\<not> is_exited (proc_state p)" using alive_process by blast
  show ?thesis by (rule exit_books_law [OF b p, of reason]) (use run in simp)
qed

lemma account_heap_step:
  assumes b: "books Q contents capacity own (mem, resources, t)"
    and run: "account_heap pid n (mem, t) = (r, (mem', t'))"
  shows "books Q contents capacity (case r of Ok d \<Rightarrow> if pressure_outcome d = HardLimitRejected then own
      else own(pid := own pid + unat n) | _ \<Rightarrow> own) (mem', resources, t')"
  using b run by (cases rule: account_cases) (use b in simp_all)

text \<open>
  The account of direct bytes, kept from the answers alone: an accepted charge adds what it
  asked for, a release takes off what it answers to have released, a collection leaves the
  traced values, an exit leaves nothing. No other call touches it.
\<close>

fun direct_step :: "'q accounted_resources \<Rightarrow> memory_call \<Rightarrow> (VmProcessId \<Rightarrow> nat) \<Rightarrow> VmProcessId \<Rightarrow> nat" where
  "direct_step s (AccountHeap pid n) own = (case fst (accounting (account_heap pid n) s) of
     Ok d \<Rightarrow> if pressure_outcome d = HardLimitRejected then own else own(pid := own pid + unat n)
   | _ \<Rightarrow> own)"
| "direct_step s (ReleaseHeap pid n) own = (case fst (accounting (release_heap pid n) s) of
     Ok released \<Rightarrow> own(pid := own pid - unat released) | _ \<Rightarrow> own)"
| "direct_step s (ExitWithCleanup pid reason) own = (case fst (exit_process_with_memory_cleanup pid reason s) of
     Ok _ \<Rightarrow> own(pid := 0) | _ \<Rightarrow> own)"
| "direct_step s (Collect pid traced) own = (case fst (accounting (collect_process_heap pid traced) s) of
     Ok c \<Rightarrow> own(pid := unat (collection_traced_value_bytes c)) | _ \<Rightarrow> own)"
| "direct_step s call own = own"

fun direct_bytes :: "'q queue_of \<Rightarrow> memory_call list \<Rightarrow> 'q accounted_resources \<Rightarrow> (VmProcessId \<Rightarrow> nat)
    \<Rightarrow> VmProcessId \<Rightarrow> nat" where
  "direct_bytes Q [] s own = own"
| "direct_bytes Q (call # calls) s own = direct_bytes Q calls (snd (memory_step Q call s)) (direct_step s call own)"

lemma memory_step_keeps:
  assumes b: "books Q contents capacity own s" and allowed: "call_allowed s call"
  shows "books Q contents capacity (direct_step s call own) (snd (memory_step Q call s))"
proof -
  obtain mem resources t where s: "s = (mem, resources, t)" by (cases s)
  note b = b [unfolded s]
  show ?thesis
  proof (cases call)
    case (Spawn parent source)
    then show ?thesis using allowed
      by (auto simp: s snd_accounting beside_memory_def split: prod.splits intro: spawn_books [OF b])
  next
    case (AccountHeap pid n)
    then show ?thesis using account_heap_step [OF b]
      by (cases "account_heap pid n (mem, t)") (auto simp: s accounting_def)
  next
    case (ReleaseHeap pid n)
    show ?thesis
    proof (cases "is_alive t pid")
      case True
      have "unat n \<le> own pid" using allowed booksD(9) [OF b, of pid] by (simp add: s ReleaseHeap)
      then obtain mem' t' where "release_heap pid n (mem, t) = (Ok n, (mem', t'))"
          "books Q contents capacity (own(pid := own pid - unat n)) (mem', resources, t')"
        by (rule release_direct [OF b True])
      then show ?thesis by (simp add: s ReleaseHeap accounting_def)
    next
      case False
      then show ?thesis using with_live_dead [OF False, of "release_process_heap n"] b
        by (auto simp: s ReleaseHeap accounting_def release_heap_def bind_st_def beside_memory_def)
    qed
  next
    case (Synchronize pid)
    then show ?thesis by (simp add: s accounting_keeps synchronize_keeps [OF b])
  next
    case (ReapMetrics pid)
    then show ?thesis by (simp add: s snd_on_accountant reap_metrics_keeps [OF b prod.collapse [symmetric]])
  next
    case (SendMessage sender pid payload n)
    then show ?thesis by (simp add: s accounting_keeps mem_send_keeps [OF b])
  next
    case (SendValue sender pid payload)
    then show ?thesis by (simp add: s accounting_keeps value_send_keeps [OF b])
  next
    case (SendTyped sender pid payload ty)
    then show ?thesis by (simp add: s accounting_keeps typed_send_keeps [OF b])
  next
    case (SendManaged sender pid token ty)
    then show ?thesis by (simp add: s accounting_keeps managed_send_keeps [OF b])
  next
    case (SendPriority sender pid payload)
    then show ?thesis by (simp add: s accounting_keeps priority_send_keeps [OF b])
  next
    case (Receive pid)
    then show ?thesis
      using receive_keeps [OF b takes_next, of pid "\<lambda>x. x"]
      by (simp add: s accounting_keeps mem_receive_message_def)
  next
    case (SelectiveReceive pid predicate)
    then show ?thesis by (simp add: s accounting_keeps selective_receive_keeps [OF b])
  next
    case (RegisterResource pid descriptor policy n)
    then show ?thesis using allowed
      by (simp add: s register_resource_keeps [OF b _ prod.collapse [symmetric]])
  next
    case (TransferResource i pid target)
    then show ?thesis by (simp add: s transfer_resource_keeps [OF b prod.collapse [symmetric]])
  next
    case (ReleaseResource pid i)
    then show ?thesis by (simp add: s release_resource_keeps [OF b prod.collapse [symmetric]])
  next
    case (RegisterShared pid kind n)
    then show ?thesis by (simp add: s accounting_keeps register_shared_keeps [OF b])
  next
    case (RetainShared i pid new)
    then show ?thesis by (simp add: s accounting_keeps retain_shared_keeps [OF b])
  next
    case (ReleaseShared i pid)
    then show ?thesis by (simp add: s accounting_keeps release_shared_keeps [OF b])
  next
    case (ReleaseSharedBulk ids pid)
    then show ?thesis by (simp add: s accounting_keeps release_shared_bulk_keeps [OF b])
  next
    case (ReclassifyShared i pid expected kind)
    then show ?thesis by (simp add: s snd_on_accountant reclassify_keeps [OF b prod.collapse [symmetric]])
  next
    case (ExitWithCleanup pid reason)
    then show ?thesis using exit_step [OF b, of pid reason]
      by (cases "exit_process_with_memory_cleanup pid reason (mem, resources, t)") (auto simp: s)
  next
    case (Collect pid traced)
    then show ?thesis using collect_law [OF b, of pid traced] b
      by (cases "collect_process_heap pid traced (mem, t)") (auto simp: s accounting_def split: outcome.splits)
  next
    case (RestoreCheckpoint pid payloads)
    then show ?thesis by (simp add: s accounting_keeps restore_keeps [OF b])
  qed
qed

lemma memory_run_keeps:
  "books Q contents capacity own s \<Longrightarrow> calls_allowed Q s calls
     \<Longrightarrow> books Q contents capacity (direct_bytes Q calls s own) (memory_run Q calls s)"
  by (induction calls arbitrary: s own) (simp_all add: memory_step_keeps)

end
