(* ===== verification/Value_Size.thy ===== *)
theory Value_Size
  imports Vm_Memory
begin

text \<open>
  The work-list of \<open>logical_value_bytes\<close> against the recursive definition of the size of a value:
  the loop ends, visits every part of the value once, and fails only when the size does not
  fit \<open>usize\<close>.
\<close>

section \<open>The reference\<close>

definition sequence_bytes :: "nat \<Rightarrow> nat" where
  "sequence_bytes slots = LOGICAL_SEQUENCE_HEADER_BYTES + slots * LOGICAL_VALUE_SLOT_BYTES"

definition text_bytes :: "string \<Rightarrow> nat" where
  "text_bytes s = LOGICAL_STRING_HEADER_BYTES + length s"

fun own_bytes :: "ReplValue \<Rightarrow> nat" where
  "own_bytes (VClosure descriptor captures) = 40 + 24 * (length (closure_parameters descriptor)
     + length (closure_results descriptor) + length (closure_captures descriptor))
     + sequence_bytes (length captures)"
| "own_bytes VUnit = 0"
| "own_bytes (VBool _) = 1"
| "own_bytes (VInt _) = 8"
| "own_bytes (VFloat s) = text_bytes s"
| "own_bytes (VString s) = text_bytes s"
| "own_bytes (VAtom s) = text_bytes s"
| "own_bytes (VStringBytes bs) = LOGICAL_STRING_HEADER_BYTES + length bs"
| "own_bytes (VBytes bs) = LOGICAL_SEQUENCE_HEADER_BYTES + length bs"
| "own_bytes (VBitString bs _) = LOGICAL_SEQUENCE_HEADER_BYTES + 8 + length bs"
| "own_bytes (VTuple items) = sequence_bytes (length items)"
| "own_bytes (VList items) = sequence_bytes (length items)"
| "own_bytes (VSet items) = sequence_bytes (length items)"
| "own_bytes (VRecord name fs) = text_bytes name + sequence_bytes (length fs)
     + sum_list (map (\<lambda>(field, _). text_bytes field) fs)"
| "own_bytes (VMap entries) = sequence_bytes (length entries * 2)"

function value_bytes :: "ReplValue \<Rightarrow> nat" where
  "value_bytes v = own_bytes v + sum_list (map value_bytes (pushed_values v))"
  by pat_completeness auto
termination
proof (relation "measure size", simp)
  fix v x
  assume "x \<in> set (pushed_values v)"
  then have "Suc (size x) \<le> sum_list (map (\<lambda>v. Suc (size v)) (pushed_values v))"
    by (intro member_le_sum_list) auto
  then show "(x, v) \<in> measure size" using size_pushed [of v] by simp
qed

declare value_bytes.simps [simp del]

section \<open>Charges add up\<close>

lemma checked_add_size_chain [simp]:
  "bind_out (checked_add_size a used) (checked_add_size b) = checked_add_size (a + b) used"
proof (cases "unat used + a < 2 ^ 64")
  case True
  then have "unat (used + of_nat a) = unat used + a"
    by (simp add: unat_word_ariths unat_of_nat)
  then show ?thesis using True by (auto simp: checked_add_size_def add.assoc)
qed (simp add: checked_add_size_def)

lemma checked_add_size_0: "checked_add_size 0 used = Ok used"
  using unsigned_less [where 'a = nat, of used] by (simp add: checked_add_size_def)

lemma add_sequence_bytes: "add_sequence_storage slots = checked_add_size (sequence_bytes slots)"
proof (rule ext)
  fix used
  have "add_sequence_storage slots used
      = bind_out (checked_add_size LOGICAL_SEQUENCE_HEADER_BYTES used)
          (checked_add_size (slots * LOGICAL_VALUE_SLOT_BYTES))"
    by (auto simp: add_sequence_storage_def bind_out_def checked_add_size_def)
  then show "add_sequence_storage slots used = checked_add_size (sequence_bytes slots) used"
    by (simp add: sequence_bytes_def)
qed

lemma add_text_bytes: "add_logical_string s = checked_add_size (text_bytes s)"
  by (rule ext) (simp add: add_logical_string_def text_bytes_def)

lemma add_names_bytes: "add_field_names fs = checked_add_size (sum_list (map (\<lambda>(field, _). text_bytes field) fs))"
proof (induction fs)
  case Nil
  show ?case by (rule ext) (simp add: checked_add_size_0)
next
  case (Cons e fs)
  show ?case by (rule ext) (cases e; simp add: Cons.IH add_text_bytes)
qed

lemma charge_own_bytes: "charge_value v used = checked_add_size (own_bytes v) used"
proof (cases v)
  case (VMap entries)
  then show ?thesis
    by (auto simp: add_sequence_bytes checked_add_size_def sequence_bytes_def LOGICAL_VALUE_SLOT_BYTES_def)
qed (simp_all add: add_sequence_bytes add_text_bytes add_names_bytes checked_add_size_0 add.assoc)

lemma value_bytes_loop_adds:
  "value_bytes_loop pending used = checked_add_size (sum_list (map value_bytes pending)) used"
proof (induction pending used rule: value_bytes_loop.induct)
  case (1 pending used)
  show ?case
  proof (cases "vec_pop pending")
    case None
    then have "pending = []" by (simp add: vec_pop_def split: if_splits)
    then show ?thesis by (subst value_bytes_loop.simps) (simp add: vec_pop_def checked_add_size_0)
  next
    case (Some e)
    obtain rest v where e: "e = (v, rest)" by (cases e)
    have pending: "pending = rest @ [v]" using Some e by (auto simp: vec_pop_def split: if_splits)
    have "value_bytes_loop pending used
        = bind_out (checked_add_size (own_bytes v) used) (value_bytes_loop (rest @ pushed_values v))"
      using Some e
      by (subst value_bytes_loop.simps) (simp add: charge_own_bytes bind_out_def split: outcome.split)
    also have "\<dots> = bind_out (checked_add_size (own_bytes v) used)
        (checked_add_size (sum_list (map value_bytes (rest @ pushed_values v))))"
      using 1 [OF Some e [symmetric]] by (auto simp: charge_own_bytes bind_out_def split: outcome.split)
    also have "\<dots> = checked_add_size (sum_list (map value_bytes pending)) used"
      by (simp add: pending value_bytes.simps [of v] ac_simps)
    finally show ?thesis .
  qed
qed

lemma logical_value_bytes_reference:
  "logical_value_bytes v = (if value_bytes v < 2 ^ 64 then Ok (of_nat (value_bytes v)) else Err SizeOverflow)"
  by (simp add: logical_value_bytes_def value_bytes_loop_adds checked_add_size_def)

end
