(* ===== verification/Memory_Properties.thy ===== *)
theory Memory_Properties
  imports Memory_Runs Value_Size Process_Properties
begin

text \<open>
  What the memory accountant guarantees: the books over every sequence of its operations, the
  exit that returns everything, messages that pay back what they cost, accounts that move
  between accountants, and sizes that are those of the values.
\<close>

section \<open>A table under an accountant\<close>

definition small_limits :: VmMemoryLimits where
  "small_limits = \<lparr> lim_soft_bytes = 64, lim_hard_bytes = 128 \<rparr>"

definition sample_books :: "(VmMessage VmPublishedFragment list \<times> nat) accounted_resources" where
  "sample_books = (accountant_new small_limits, resource_table_default, sample_two)"

lemma fresh_books:
  assumes "pt_ok Q contents capacity t" "limits_ok limits"
    and "\<And>pid p. pt_get t pid = Some p \<Longrightarrow> proc_heap_bytes p = 0 \<and> proc_mailbox p = [] \<and> proc_resource_handles p = []"
  shows "books Q contents capacity (\<lambda>_. 0) (accountant_new limits, resource_table_default, t)"
proof -
  have "heap_of t pid = 0 \<and> mailbox_charge t pid = 0" for pid
    using assms(3) [of pid] by (simp add: heap_of_def mailbox_charge_def mailbox_bytes_def split: option.split)
  then show ?thesis
    using assms by (auto simp: books_def accountant_new_def resource_table_default_def metrics_ok_def resources_ok_def
        ownership_ok_def shared_ok_def current_bytes_of_def charge_of_def resource_charge_def shared_charge_def
        owns_resource_def)
qed

lemmas fresh_balanced = fresh_books [THEN balancedI]

lemma sample_balanced: "balanced list_queue fst snd sample_books"
  unfolding sample_books_def
  by (rule fresh_balanced)
    (auto simp: sample_two_facts limits_ok_def small_limits_def new_process_def word_le_nat_alt word_less_nat_alt
      split: if_splits)

section \<open>The books\<close>

text \<open>C4: The accounts always agree with the processes, to the byte. From an empty table and a new
  accountant with valid limits, after any sequence of spawns, charges, sends, receives,
  registrations, transfers and releases of resources and shared allocations, exits, collections
  and checkpoint restores, accepted or refused: the heap of every process is exactly the sum of
  its mailbox, its resources, its shared allocations and the bytes it holds directly, which are
  those the answers to its own charges, releases, collections and exits leave (direct_bytes);
  every process is accounted at exactly that heap, below the hard limit and below its high-water
  mark; and whoever owns a resource or a shared allocation is alive and has the handle of the
  resource exactly once. So an operation that frees too little, too much or not at all breaks the
  sum. The callers keep to calls_allowed: identities do not run out, and no caller gives back
  directly bytes that a message, a resource or a shared allocation still accounts for.\<close>

theorem memory_stays_accounted:
  fixes Q :: "'q queue_of"
  assumes "bounded_fifo Q contents capacity" and "memory_limits_new soft hard = Ok limits"
    and "calls_allowed Q (accountant_new limits, resource_table_default, process_table_default) calls"
  shows "case memory_run Q calls (accountant_new limits, resource_table_default, process_table_default) of
    (mem, resources, t) \<Rightarrow>
      (\<forall>pid. unat (heap_of t pid) = mailbox_charge t pid + resource_charge mem pid + shared_charge mem pid
           + direct_bytes Q calls (accountant_new limits, resource_table_default, process_table_default) (\<lambda>_. 0) pid
         \<and> current_bytes_of mem pid = heap_of t pid
         \<and> heap_of t pid \<le> lim_hard_bytes (mem_limits mem)
         \<and> (case bt_get (mem_processes mem) pid of Some metrics \<Rightarrow> heap_of t pid \<le> mm_high_water_bytes metrics
             | None \<Rightarrow> heap_of t pid = 0))
      \<and> (\<forall>i row. bt_get (rt_resources resources) i = Some row \<longrightarrow>
           (\<exists>p. pt_get t (res_owner row) = Some p \<and> \<not> is_exited (proc_state p)
             \<and> count_list (proc_resource_handles p) (resource_handle_name i) = 1)
           \<and> (\<exists>account. bt_get (mem_resource_ownership mem) i = Some account \<and> own_owner account = res_owner row))
      \<and> (\<forall>i a. bt_get (mem_shared_allocations mem) i = Some a \<longrightarrow>
           shared_owners a \<noteq> [] \<and> (\<forall>pid\<in>set (shared_owners a). is_alive t pid))"
proof -
  have limits: "limits_ok limits"
    using assms(2) by (auto simp: memory_limits_new_def limits_ok_def not_less word_neq_0_conv [symmetric] split: if_splits)
  have "pt_get (process_table_default :: 'q VmProcessTable) = Map.empty"
    by (rule ext) (simp add: pt_get_def dir_get_def dir_cell_def process_table_default_def dir_default_def)
  then have "books Q contents capacity (\<lambda>_. 0) (accountant_new limits, resource_table_default, process_table_default)"
    by (intro fresh_books [OF pt_ok_default [OF assms(1)] limits]) simp
  from memory_run_keeps [OF this assms(3)] obtain mem resources t where
      run: "memory_run Q calls (accountant_new limits, resource_table_default, process_table_default) = (mem, resources, t)"
      and b: "books Q contents capacity (direct_bytes Q calls (accountant_new limits, resource_table_default,
          process_table_default) (\<lambda>_. 0)) (mem, resources, t)"
    by (cases "memory_run Q calls (accountant_new limits, resource_table_default, process_table_default)") auto
  have high: "case bt_get (mem_processes mem) pid of Some metrics \<Rightarrow> heap_of t pid \<le> mm_high_water_bytes metrics
      | None \<Rightarrow> heap_of t pid = 0" for pid
    using booksD(3) [OF b] booksD(7) [OF b, of pid, symmetric]
    by (auto simp: metrics_ok_def current_bytes_of_def split: option.split)
  have row: "(\<exists>p. pt_get t (res_owner r) = Some p \<and> \<not> is_exited (proc_state p)
      \<and> count_list (proc_resource_handles p) (resource_handle_name i) = 1)
      \<and> (\<exists>account. bt_get (mem_resource_ownership mem) i = Some account \<and> own_owner account = res_owner r)"
    if found: "bt_get (rt_resources resources) i = Some r" for i r
  proof -
    have "is_alive t (res_owner r)" using found booksD(4) [OF b] by (simp add: resources_ok_def)
    then obtain p where p: "pt_get t (res_owner r) = Some p" "\<not> is_exited (proc_state p)"
      by (auto simp: is_alive_get)
    have "owns_resource resources (res_owner r) i" using found by (simp add: owns_resource_def)
    then have "count_list (proc_resource_handles p) (resource_handle_name i) = 1"
      using p(1) booksD(4) [OF b] by (simp add: resources_ok_def)
    moreover obtain account where "bt_get (mem_resource_ownership mem) i = Some account" "own_owner account = res_owner r"
      by (rule owner_account [OF b found refl])
    ultimately show ?thesis using p by blast
  qed
  show ?thesis
    using booksD(7,8) [OF b] booksD(9) [OF b] high row booksD(6) [OF b]
    by (auto simp: run charge_of_def shared_ok_def)
qed

text \<open>Two processes, a message of eight bytes, a resource, a shared allocation, and an exit.\<close>

definition sample_calls :: "memory_call list" where
  "sample_calls = [SendMessage 1 2 (VInt 7) 8,
     RegisterResource 2 \<lparr> descriptor_kind = ''socket'', descriptor_label = ''a'' \<rparr> Transferable 16,
     RegisterShared 1 Binary 32, RetainShared 1 1 2, TransferResource 1 2 1, Receive 2, ExitWithCleanup 1 Normal,
     Collect 2 0]"

lemma resources_beside: "fst (snd (snd (accounting f s))) = fst (snd s)"
  by (cases s) (simp add: snd_accounting split: prod.split)

lemma allowed_simps [simp]:
  "call_allowed s (SendMessage sender pid payload n)" "call_allowed s (RegisterShared pid kind n)"
  "call_allowed s (RetainShared i pid new)" "call_allowed s (TransferResource i pid target)"
  "call_allowed s (Receive pid)" "call_allowed s (ExitWithCleanup pid reason)" "call_allowed s (Collect pid n)"
  "call_allowed s (RegisterResource pid descriptor policy n) \<longleftrightarrow> rt_next_id (fst (snd s)) \<noteq> - 1"
  by (cases s; simp)+

lemma sample_start:
  "snd (memory_step list_queue (Spawn (Some 1) sample_source) (snd (memory_step list_queue (Spawn None sample_source)
     (accountant_new small_limits, resource_table_default, process_table_default)))) = sample_books"
proof -
  have two: "sample_two = snd (pt_spawn list_queue (Some 1) sample_source sample_one)"
    by (simp add: sample_two_def spawn_child_def sample_one_facts(2) new_process_def)
  show ?thesis
    by (simp add: snd_accounting beside_memory_def sample_books_def two sample_one_def spawn_root_def split: prod.split)
qed

lemma sample_calls_allowed:
  "calls_allowed list_queue (accountant_new small_limits, resource_table_default, process_table_default)
     (Spawn None sample_source # Spawn (Some 1) sample_source # sample_calls)"
proof -
  let ?t = "process_table_default :: (VmMessage VmPublishedFragment list \<times> nat) VmProcessTable"
  have first: "pt_next_pid ?t \<noteq> - 1" "pt_has_room ?t"
    by (simp_all add: process_table_default_def dir_default_def pt_has_room_def dir_has_room_def)
  have second: "snd (memory_step list_queue (Spawn None sample_source)
      (accountant_new small_limits, resource_table_default, process_table_default))
      = (accountant_new small_limits, resource_table_default, sample_one)"
    by (simp add: snd_accounting beside_memory_def sample_one_def spawn_root_def split: prod.split)
  have "pt_has_room sample_one" by (rule pt_has_room_small) (simp add: sample_one_slots)
  moreover have "calls_allowed list_queue sample_books sample_calls"
    unfolding sample_calls_def calls_allowed.simps allowed_simps memory_step.simps snd_dropping resources_beside
    by (simp add: sample_books_def resource_table_default_def)
  ultimately show ?thesis
    using first unfolding calls_allowed.simps sample_start unfolding second by (simp add: sample_one_facts(4))
qed

theorem memory_stays_accounted_witness:
  "case memory_run list_queue (Spawn None sample_source # Spawn (Some 1) sample_source # sample_calls)
      (accountant_new small_limits, resource_table_default, process_table_default) of (mem, resources, t) \<Rightarrow>
     current_bytes_of mem 2 = heap_of t 2 \<and> heap_of t 2 \<le> lim_hard_bytes (mem_limits mem)
     \<and> unat (heap_of t 2) = mailbox_charge t 2 + resource_charge mem 2 + shared_charge mem 2
         + direct_bytes list_queue (Spawn None sample_source # Spawn (Some 1) sample_source # sample_calls)
             (accountant_new small_limits, resource_table_default, process_table_default) (\<lambda>_. 0) 2"
proof -
  have "memory_limits_new 64 128 = Ok small_limits" by (simp add: memory_limits_new_def small_limits_def)
  from memory_stays_accounted [OF list_queue_fifo this sample_calls_allowed] show ?thesis
    by (auto split: prod.splits)
qed

section \<open>Exit\<close>

text \<open>C7: An exit returns everything, and only that. In balanced books the exit of a live process
  never fails: the process is exited with an empty mailbox and no heap, it is accounted at zero,
  no resource and no shared allocation has it as an owner any more, the events and the list of
  released allocations name exactly what it owned, an allocation it shared loses only this
  owner and one it held alone is gone, all other resources, allocations and processes are as
  they were, and the books stay balanced.\<close>

theorem exit_returns_everything:
  assumes "balanced Q contents capacity (mem, resources, t)"
    and "pt_get t owner = Some p" and "\<not> is_exited (proc_state p)"
  shows "case exit_process_with_memory_cleanup owner reason (mem, resources, t) of
    (r, (mem', resources', t')) \<Rightarrow>
      (\<exists>out. r = Ok out
        \<and> set (mexit_resource_events out) = {CleanedUpOnExit i owner | i. owns_resource resources owner i}
        \<and> set (mexit_released_shared_allocations out)
            = {i. \<exists>a. bt_get (mem_shared_allocations mem) i = Some a \<and> owner \<in> set (shared_owners a)})
      \<and> pt_get t' = (pt_get t)(owner \<mapsto> p\<lparr> proc_state := Exited reason, proc_mailbox := [],
            proc_heap_bytes := 0, proc_resource_handles := [] \<rparr>)
      \<and> current_bytes_of mem' owner = 0
      \<and> (\<forall>i. bt_get (rt_resources resources') i = (if owns_resource resources owner i then None
            else bt_get (rt_resources resources) i))
      \<and> (\<forall>i. bt_get (mem_shared_allocations mem') i = (case bt_get (mem_shared_allocations mem) i of
            None \<Rightarrow> None
          | Some a \<Rightarrow> if owner \<notin> set (shared_owners a) then Some a
              else if set (shared_owners a) = {owner} then None
              else Some (a\<lparr> shared_owners := bs_remove owner (shared_owners a) \<rparr>)))
      \<and> balanced Q contents capacity (mem', resources', t')"
proof -
  obtain handles mem' t' where run: "exit_process_with_memory_cleanup owner reason (mem, resources, t)
      = (Ok \<lparr> mexit_resource_events = map (\<lambda>i. CleanedUpOnExit i owner) (resource_ids_of resources owner),
           mexit_released_shared_allocations = shared_ids_of mem owner, mexit_remaining_cleanup_handles = handles \<rparr>,
         (mem', resources\<lparr> rt_resources := bt_remove_all (resource_ids_of resources owner) (rt_resources resources) \<rparr>, t'))"
      and get: "pt_get t' = (pt_get t)(owner \<mapsto> snd (proc_exit reason p))"
      and b: "balanced Q contents capacity (mem',
         resources\<lparr> rt_resources := bt_remove_all (resource_ids_of resources owner) (rt_resources resources) \<rparr>, t')"
      and shared: "\<And>i. bt_get (mem_shared_allocations mem') i = (if i \<in> set (shared_ids_of mem owner)
         then Option.bind (bt_get (mem_shared_allocations mem) i) (without_owner owner)
         else bt_get (mem_shared_allocations mem) i)"
    by (rule exit_law [OF assms, of reason]) blast
  have ok: "bt_ok (rt_resources resources)" "bt_ok (mem_shared_allocations mem)"
    using balancedD(4,6) [OF assms(1)] by (simp_all add: resources_ok_def shared_ok_def)
  have ids: "i \<in> set (resource_ids_of resources owner) \<longleftrightarrow> owns_resource resources owner i" for i
    by (simp add: resource_ids_of_def set_keys_where [OF ok(1)] owns_resource_def)
  have shared_ids: "i \<in> set (shared_ids_of mem owner)
      \<longleftrightarrow> (\<exists>a. bt_get (mem_shared_allocations mem) i = Some a \<and> owner \<in> set (shared_owners a))" for i
    by (simp add: shared_ids_of_def set_keys_where [OF ok(2)])
  have zero: "current_bytes_of mem' owner = 0"
    using balancedD(7) [OF b, of owner] by (simp add: heap_of_def get proc_exit_def)
  have events: "set (map (\<lambda>i. CleanedUpOnExit i owner) (resource_ids_of resources owner))
      = {CleanedUpOnExit i owner | i. owns_resource resources owner i}" using ids by auto
  have released: "set (shared_ids_of mem owner)
      = {i. \<exists>a. bt_get (mem_shared_allocations mem) i = Some a \<and> owner \<in> set (shared_owners a)}"
    using shared_ids by blast
  have left: "bt_get (mem_shared_allocations mem') i = (case bt_get (mem_shared_allocations mem) i of
            None \<Rightarrow> None
          | Some a \<Rightarrow> if owner \<notin> set (shared_owners a) then Some a
              else if set (shared_owners a) = {owner} then None
              else Some (a\<lparr> shared_owners := bs_remove owner (shared_owners a) \<rparr>))" for i
    using shared [of i] shared_ids [of i]
    by (cases "bt_get (mem_shared_allocations mem) i") (simp_all add: without_owner_def)
  have dead: "snd (proc_exit reason p) = p\<lparr> proc_state := Exited reason, proc_mailbox := [],
            proc_heap_bytes := 0, proc_resource_handles := [] \<rparr>" by (simp add: proc_exit_def)
  show ?thesis
    unfolding run prod.case
    using events released get [unfolded dead] zero left b by (simp add: bt_get_remove_all ids)
qed

theorem exit_returns_everything_witness:
  "case exit_process_with_memory_cleanup 2 Killed sample_books of (r, (mem', resources', t')) \<Rightarrow>
     is_Ok r \<and> current_bytes_of mem' 2 = 0 \<and> balanced list_queue fst snd (mem', resources', t')"
  using exit_returns_everything [OF sample_balanced [unfolded sample_books_def], of 2 "new_process 2 (Some 1) sample_source" Killed]
  by (auto simp: sample_books_def sample_two_facts sample_live split: prod.splits)

section \<open>Charges and messages\<close>

text \<open>C26: The hard limit is never passed and never wraps. A charge of a live process in balanced
  books is rejected exactly when the unbounded sum of its heap and the request is above the hard
  limit, and then no heap, no ownership and no process changes; otherwise the heap grows by the
  request, and releasing it afterwards restores every heap and keeps the books.\<close>

theorem charges_respect_the_limit:
  assumes "balanced Q contents capacity (mem, resources, t)" and "is_alive t pid"
  shows "(if unat (lim_hard_bytes (mem_limits mem)) < unat (heap_of t pid) + unat n
     then \<exists>d mem' t'. account_heap pid n (mem, t) = (Ok d, (mem', t')) \<and> pressure_outcome d = HardLimitRejected
       \<and> heap_of t' = heap_of t \<and> balanced Q contents capacity (mem', resources, t')
       \<and> mem_resource_ownership mem' = mem_resource_ownership mem
       \<and> mem_shared_allocations mem' = mem_shared_allocations mem
     else \<exists>d mem1 t1 mem2 t2. account_heap pid n (mem, t) = (Ok d, (mem1, t1))
       \<and> pressure_outcome d \<noteq> HardLimitRejected
       \<and> heap_of t1 = (heap_of t)(pid := heap_of t pid + n)
       \<and> unat (heap_of t1 pid) = unat (heap_of t pid) + unat n
       \<and> release_heap pid n (mem1, t1) = (Ok n, (mem2, t2))
       \<and> heap_of t2 = heap_of t \<and> balanced Q contents capacity (mem2, resources, t2))"
proof (cases "unat (lim_hard_bytes (mem_limits mem)) < unat (heap_of t pid) + unat n")
  case True
  obtain own where own: "books Q contents capacity own (mem, resources, t)" by (rule balancedE [OF assms(1)])
  have live: "pid \<in> alive_in (mem, resources, t)" using assms(2) by (simp add: alive_in_def)
  from True hc.rejected_charge [OF own live, of n]
  obtain d mem' t' where "accounting (account_heap pid n) (mem, resources, t) = (Ok d, (mem', resources, t'))"
      "pressure_outcome d = HardLimitRejected" "balanced Q contents capacity (mem', resources, t')"
      "heap_of t' = heap_of t" "apart_from_heap (mem', resources, t') = apart_from_heap (mem, resources, t)"
    by (auto simp: apart_from_heap_def dest: balancedI)
  then show ?thesis
    using True by (auto simp: apart_from_heap_def accounting_def split: prod.splits)
next
  case False
  obtain own where own: "books Q contents capacity own (mem, resources, t)" by (rule balancedE [OF assms(1)])
  obtain p where p: "pt_get t pid = Some p" "\<not> is_exited (proc_state p)" using assms(2) by (auto simp: is_alive_get)
  have heap: "heap_of t pid = proc_heap_bytes p" using p by (simp add: heap_of_def)
  obtain d mem1 t1 where d: "account_heap pid n (mem, t) = (Ok d, (mem1, t1))"
      and outcome: "pressure_outcome d = (if unat (lim_hard_bytes (mem_limits mem)) < unat (proc_heap_bytes p) + unat n
         then HardLimitRejected
         else if unat (lim_soft_bytes (mem_limits mem)) < unat (proc_heap_bytes p) + unat n
         then SoftLimitExceeded else Accounted)"
      and get1: "pt_get t1 = (pt_get t)(pid \<mapsto> p\<lparr> proc_heap_bytes :=
         (if pressure_outcome d = HardLimitRejected then proc_heap_bytes p else proc_heap_bytes p + n) \<rparr>)"
    by (rule account_heap_live [OF own p, of n])
  have accepted: "pressure_outcome d \<noteq> HardLimitRejected" using outcome False heap by simp
  have grown: "pt_get t1 = (pt_get t)(pid \<mapsto> p\<lparr> proc_heap_bytes := proc_heap_bytes p + n \<rparr>)"
    using get1 accepted by simp
  have live: "pid \<in> alive_in (mem, resources, t)" using assms(2) by (simp add: alive_in_def)
  from False hc.charge_release [OF own live, of n]
  obtain mem2 t2 where r: "release_heap pid n (mem1, t1) = (Ok n, (mem2, t2))" "heap_of t2 = heap_of t"
      "balanced Q contents capacity (mem2, resources, t2)"
    by (auto simp: accounting_def d apart_from_heap_def not_less split: prod.splits dest: balancedI)
  have "unat (lim_hard_bytes (mem_limits mem)) < 2 ^ 64"
    using unsigned_less [where 'a = nat, of "lim_hard_bytes (mem_limits mem)"] by simp
  then have "unat (heap_of t pid + n) = unat (heap_of t pid) + unat n"
    using False by (simp add: unat_word_ariths)
  then show ?thesis
    using False d accepted r table_update(1) [OF grown] by (simp add: heap)
qed

theorem charges_respect_the_limit_witness:
  "\<exists>d mem' t'. account_heap 1 200 (accountant_new small_limits, sample_two) = (Ok d, (mem', t'))
     \<and> pressure_outcome d = HardLimitRejected \<and> heap_of t' = heap_of sample_two"
  using charges_respect_the_limit [OF sample_balanced [unfolded sample_books_def], of 1 200]
  by (auto simp: is_alive_get sample_two_facts sample_live accountant_new_def small_limits_def heap_of_def)

lemma proc_wake_update:
  "proc_wake (p\<lparr> proc_heap_bytes := h, proc_mailbox := ms \<rparr>) = (proc_wake p)\<lparr> proc_heap_bytes := h, proc_mailbox := ms \<rparr>"
  by (simp add: proc_wake_def split: VmProcessState.split VmProcessResumeState.split)

lemma proc_wake_fields:
  "proc_heap_bytes (proc_wake p) = proc_heap_bytes p" "proc_mailbox (proc_wake p) = proc_mailbox p"
  by (simp_all add: proc_wake_def split: VmProcessState.split VmProcessResumeState.split)

text \<open>A message costs its recipient what it weighs for as long as it is queued, and no longer.
  Sent to a live process with an empty mailbox, it is delivered exactly when it fits the hard
  limit; then the recipient is charged its bytes, the next receive returns it with its payload,
  sender and size, and the recipient is left as it was, save that it is woken. When it does not
  fit, no process changes and nothing is published.\<close>

theorem message_pays_back:
  assumes "balanced Q contents capacity (mem, resources, t)" and "is_alive t sender"
    and "pt_get t pid = Some p" and "\<not> is_exited (proc_state p)" and "proc_mailbox p = []"
  shows "case mem_send_message Q sender pid payload n (mem, t) of (r, (mem1, t1)) \<Rightarrow>
     \<exists>out. r = Ok out \<and>
      (if unat (lim_hard_bytes (mem_limits mem)) < unat (proc_heap_bytes p) + unat n
       then send_publication out = None \<and> pt_get t1 = pt_get t
       else (\<exists>i. send_publication out = Some (after_enqueue i pid n))
         \<and> heap_of t1 pid = heap_of t pid + n
         \<and> (case mem_receive_message pid (mem1, t1) of (r2, (mem2, t2)) \<Rightarrow>
              (\<exists>m. r2 = Ok (Some m) \<and> msg_payload m = payload \<and> msg_sender m = sender \<and> msg_accounted_bytes m = n)
              \<and> pt_get t2 = (pt_get t)(pid \<mapsto> proc_wake p)
              \<and> balanced Q contents capacity (mem2, resources, t2)))"
proof -
  obtain own where own: "books Q contents capacity own (mem, resources, t)" by (rule balancedE [OF assms(1)])
  have alive: "is_alive t pid" using assms(3,4) by (simp add: is_alive_get)
  let ?D = "plain_delivery payload n Ordinary"
  obtain out mem1 t1 where
      o': "reserve_then_send pid n (send_typed Q sender pid ?D) (mem, t) = (Ok out, (mem1, t1))"
      "books Q contents capacity own (mem1, resources, t1)"
      "(send_publication out = None) = (unat (lim_hard_bytes (mem_limits mem)) < unat (proc_heap_bytes p) + unat n)"
      "send_publication out = None \<Longrightarrow> pt_get t1 = pt_get t"
      "send_publication out \<noteq> None \<Longrightarrow> \<exists>i sequence. send_publication out = Some (after_enqueue i pid n)
       \<and> pt_get t1 = (pt_get t)(pid \<mapsto> proc_integrate_message (delivered_message i sequence sender ?D)
           (p\<lparr> proc_heap_bytes := proc_heap_bytes p + n \<rparr>))"
    by (rule reserve_then_send_law [OF own assms(2-4), of ?D n]) simp_all
  have send: "mem_send_message Q sender pid payload n (mem, t) = (Ok out, (mem1, t1))"
    using o'(1) assms(2) alive
    by (simp add: mem_send_message_def bind_st_def read_st_def validate_send_alive [THEN iffD2] send_accounted_def)
  show ?thesis
  proof (cases "send_publication out")
    case None
    then show ?thesis using o'(3,4) by (simp add: send)
  next
    case (Some x)
    then obtain i sequence where i: "send_publication out = Some (after_enqueue i pid n)"
        "pt_get t1 = (pt_get t)(pid \<mapsto> proc_integrate_message (delivered_message i sequence sender ?D)
           (p\<lparr> proc_heap_bytes := proc_heap_bytes p + n \<rparr>))" using o'(5) by auto
    let ?m = "delivered_message i sequence sender ?D"
    let ?p = "proc_integrate_message ?m (p\<lparr> proc_heap_bytes := proc_heap_bytes p + n \<rparr>)"
    have m: "msg_payload ?m = payload" "msg_sender ?m = sender" "msg_accounted_bytes ?m = n" "msg_priority ?m = Ordinary"
      by (simp_all add: delivered_message_def plain_delivery_def)
    have p': "?p = (proc_wake p)\<lparr> proc_heap_bytes := proc_heap_bytes p + n, proc_mailbox := [?m] \<rparr>"
      by (simp add: proc_integrate_message_def m(4) assms(5) proc_wake_update)
    have live: "pt_get t1 pid = Some ?p" "\<not> is_exited (proc_state ?p)"
      using assms(4) by (simp_all add: i(2))
    have next': "proc_receive_next ?p = (Some ?m, ?p\<lparr> proc_mailbox := [] \<rparr>)"
      unfolding p' by (simp add: proc_receive_next_def)
    obtain x ms t2 mem3 t3 where rec: "proc_receive_next ?p = (x, ?p\<lparr> proc_mailbox := ms \<rparr>)"
        "with_live_process_mut pid proc_receive_next t1 = (Ok x, t2)"
        "release_received pid (id x) (mem1, t2) = (Ok (), (mem3, t3))" "books Q contents capacity own (mem3, resources, t3)"
        "pt_get t3 = (pt_get t1)(pid \<mapsto> ?p\<lparr> proc_mailbox := ms,
           proc_heap_bytes := proc_heap_bytes ?p - message_bytes (id x) \<rparr>)"
      by (rule receive_law [OF o'(2) live takes_next])
    have x: "x = Some ?m" "?p\<lparr> proc_mailbox := ms \<rparr> = ?p\<lparr> proc_mailbox := [] \<rparr>" using rec(1) next' by simp_all
    have run: "mem_receive_message pid (mem1, t1) = (Ok (Some ?m), (mem3, t3))"
      using rec(2,3) x(1) by (simp add: mem_receive_message_def bind_st_def beside_memory_def return_st_def)
    have "?p\<lparr> proc_mailbox := ms, proc_heap_bytes := proc_heap_bytes ?p - message_bytes (id x) \<rparr>
        = (?p\<lparr> proc_mailbox := [] \<rparr>)\<lparr> proc_heap_bytes := proc_heap_bytes p \<rparr>"
      unfolding x(2) [symmetric] using x(1) m(3) by (simp add: message_bytes_def)
    also have "\<dots> = proc_wake p"
      unfolding p' using assms(5) proc_wake_fields [of p] by (cases "proc_wake p") simp
    finally have "pt_get t3 = (pt_get t)(pid \<mapsto> proc_wake p)" using rec(5) i(2) by simp
    moreover have "heap_of t1 pid = heap_of t pid + n" using i(2) assms(3) by (simp add: heap_of_def)
    ultimately show ?thesis using i(1) o'(3) m balancedI [OF rec(4)] by (auto simp: send run)
  qed
qed

theorem message_pays_back_witness:
  "case mem_send_message list_queue 1 2 (VInt 7) 8 (accountant_new small_limits, sample_two) of (r, (mem1, t1)) \<Rightarrow>
     is_Ok r \<and> heap_of t1 2 = 8
     \<and> (case mem_receive_message 2 (mem1, t1) of (r2, (mem2, t2)) \<Rightarrow> is_Ok r2 \<and> heap_of t2 2 = 0)"
  using message_pays_back [OF sample_balanced [unfolded sample_books_def], of 1 2 "new_process 2 (Some 1) sample_source" 8 "VInt 7"]
  by (auto simp: is_alive_get sample_two_facts sample_live new_process_def accountant_new_def small_limits_def heap_of_def
      proc_wake_def split: prod.splits)

section \<open>Sizes\<close>

text \<open>The size a value is charged for is the size of its structure. The work-list of
  logical_value_bytes ends for every value; its result is the sum of the headers, slots, texts
  and scalars of all parts of the value, each counted once, and it fails exactly when that sum
  does not fit a usize.\<close>

theorem value_size_is_structural:
  "logical_value_bytes v = (if value_bytes v < 2 ^ 64 then Ok (of_nat (value_bytes v)) else Err SizeOverflow)"
  by (rule logical_value_bytes_reference)

end
