(* ===== verification/Supervision_Memory.thy ===== *)
theory Supervision_Memory
  imports Supervision_Properties Memory_Properties
begin

text \<open>
  Supervision under memory pressure: \<open>handle_memory_pressure\<close> and
  \<open>memory_pressure_cleanup_pids\<close> of \<open>runtime/vm/supervision.rs\<close>. A charge that was rejected at the
  hard limit ends the processes the policy of the supervisor selects, each through the exit that
  returns its memory and its resources, and then restarts the child.
\<close>

section \<open>The code\<close>

datatype VmSupervisionMemoryPressure =
    PressureContinue VmProcessId
  | PressureCollect VmProcessId usize
  | PressureRestart VmSupervisionRestart

type_synonym 'q supervised_accounts = "VmSupervisionSystem \<times> 'q accounted_resources"

fun any_restart_limited :: "VmSupervisor \<Rightarrow> VmExitReason \<Rightarrow> string list \<Rightarrow> (vm_error, bool) outcome" where
  "any_restart_limited supervisor reason [] = Ok False"
| "any_restart_limited supervisor reason (selected_id # selected_ids) =
     (case bt_get (sv_children supervisor) selected_id of
        None \<Rightarrow> Panic ''selected memory pressure child belongs to supervisor''
      | Some child \<Rightarrow> if should_restart (spec_restart_class (sc_spec child)) reason
            \<and> spec_restart_limit (sc_spec child) \<le> sc_restart_count child
          then Ok True else any_restart_limited supervisor reason selected_ids)"

fun selected_pids :: "VmSupervisor \<Rightarrow> string list \<Rightarrow> (vm_error, VmProcessId list) outcome" where
  "selected_pids supervisor [] = Ok []"
| "selected_pids supervisor (selected_id # selected_ids) =
     (case bt_get (sv_children supervisor) selected_id of
        None \<Rightarrow> Panic ''selected memory pressure child belongs to supervisor''
      | Some child \<Rightarrow> bind_out (selected_pids supervisor selected_ids) (\<lambda>pids. Ok (sc_pid child # pids)))"

definition memory_pressure_cleanup_pids :: "VmSupervisor \<Rightarrow> string \<Rightarrow> VmExitReason
    \<Rightarrow> (vm_error, VmProcessId list) outcome" where
  "memory_pressure_cleanup_pids supervisor child_id reason =
     bind_out (case sv_policy supervisor of
         OneForOne \<Rightarrow> Ok [child_id]
       | OneForAll \<Rightarrow> Ok (sv_child_order supervisor)
       | RestForOne \<Rightarrow> (case position (\<lambda>known. known = child_id) (sv_child_order supervisor) of
           None \<Rightarrow> Panic ''memory pressure child was validated before cleanup selection''
         | Some start \<Rightarrow> Ok (drop start (sv_child_order supervisor)))) (\<lambda>selected_ids.
     bind_out (any_restart_limited supervisor reason selected_ids) (\<lambda>restart_limited.
     if restart_limited then (case bt_get (sv_children supervisor) child_id of
         None \<Rightarrow> Panic ''memory pressure child was validated'' | Some child \<Rightarrow> Ok [sc_pid child])
     else selected_pids supervisor selected_ids))"

fun exit_each_with_cleanup :: "VmExitReason \<Rightarrow> VmProcessId list
    \<Rightarrow> ('q accounted_resources, vm_error, unit) stateful" where
  "exit_each_with_cleanup reason [] = return_st ()"
| "exit_each_with_cleanup reason (pid # pids) =
     bind_st (exit_process_with_memory_cleanup pid reason) (\<lambda>_. exit_each_with_cleanup reason pids)"

definition in_accounts :: "('q accounted_resources, vm_error, 'a) stateful
    \<Rightarrow> ('q supervised_accounts, vm_error, 'a) stateful" where
  "in_accounts f = (\<lambda>(system, s). case f s of (r, s) \<Rightarrow> (r, (system, s)))"

definition in_supervised :: "('q supervised, vm_error, 'a) stateful
    \<Rightarrow> ('q supervised_accounts, vm_error, 'a) stateful" where
  "in_supervised f = (\<lambda>(system, memory, resources, processes).
     case f (system, processes) of (r, (system, processes)) \<Rightarrow> (r, (system, memory, resources, processes)))"

definition handle_memory_pressure :: "'q queue_of \<Rightarrow> VmSupervisorId \<Rightarrow> string \<Rightarrow> VmMemoryPressureDecision
    \<Rightarrow> ('q supervised_accounts, vm_error, VmSupervisionMemoryPressure) stateful" where
  "handle_memory_pressure Q supervisor_id child_id pressure =
     bind_st (read_st (\<lambda>(system, _). ok_or (Msg ''missing supervisor {}'' [ANum supervisor_id])
       (bt_get (sys_supervisors system) supervisor_id))) (\<lambda>supervisor.
     bind_st (read_st (\<lambda>_. ok_or (Msg ''missing child `{child_id}`'' [AStr child_id])
       (bt_get (sv_children supervisor) child_id))) (\<lambda>child.
     if pressure_pid pressure \<noteq> sc_pid child then
       read_st (\<lambda>_. Err (Msg ''memory pressure process {} does not match supervised child `{child_id}` process {}''
         [ANum (pressure_pid pressure), AStr child_id, ANum (sc_pid child)]))
     else case pressure_outcome pressure of
       Accounted \<Rightarrow> return_st (PressureContinue (sc_pid child))
     | SoftLimitExceeded \<Rightarrow> return_st (PressureCollect (sc_pid child) (pressure_projected_bytes pressure))
     | HardLimitRejected \<Rightarrow>
         let reason = MemoryLimitExceeded (pressure_requested_bytes pressure)
               (pressure_previous_bytes pressure) (pressure_projected_bytes pressure)
         in bind_st (read_st (\<lambda>_. memory_pressure_cleanup_pids supervisor child_id reason)) (\<lambda>cleanup_pids.
            bind_st (in_accounts (exit_each_with_cleanup reason cleanup_pids)) (\<lambda>_.
            bind_st (in_supervised (restart_child Q supervisor_id child_id reason)) (\<lambda>restart.
              return_st (PressureRestart restart))))))"

section \<open>What is selected\<close>

lemma any_restart_limited_law:
  "(\<And>c. c \<in> set cids \<Longrightarrow> bt_contains (sv_children sv) c)
     \<Longrightarrow> any_restart_limited sv reason cids = Ok (group_block reason sv cids \<noteq> None)"
  by (induction cids) (auto simp: group_block_def due_def spent_def bt_contains_def split: option.splits)

lemma selected_pids_law:
  "(\<And>c. c \<in> set cids \<Longrightarrow> bt_contains (sv_children sv) c)
     \<Longrightarrow> selected_pids sv cids = Ok (map (\<lambda>c. sc_pid (the (bt_get (sv_children sv) c))) cids)"
proof (induction cids)
  case (Cons c cids)
  then obtain child where "bt_get (sv_children sv) c = Some child" by (auto simp: bt_contains_def)
  with Cons show ?case by (simp add: bind_out_def)
qed simp

definition cleanup_of :: "VmSupervisor \<Rightarrow> string \<Rightarrow> VmExitReason \<Rightarrow> VmProcessId list" where
  "cleanup_of sv cid reason = (let cids = group_of (sv_policy sv) (sv_child_order sv) cid in
     if group_block reason sv cids \<noteq> None then [sc_pid (the (bt_get (sv_children sv) cid))]
     else map (\<lambda>c. sc_pid (the (bt_get (sv_children sv) c))) cids)"

lemma cleanup_pids_law:
  assumes ok: "children_ok t sv" and cid: "bt_contains (sv_children sv) cid"
  shows "memory_pressure_cleanup_pids sv cid reason = Ok (cleanup_of sv cid reason)"
proof -
  let ?cids = "group_of (sv_policy sv) (sv_child_order sv) cid"
  have order: "c \<in> set (sv_child_order sv) \<longleftrightarrow> bt_contains (sv_children sv) c" for c by (rule children_okD(3) [OF ok])
  have members: "bt_contains (sv_children sv) c" if "c \<in> set ?cids" for c
    using that order cid by (cases "sv_policy sv") (auto simp: group_of_def dest: set_dropWhileD)
  have sel: "(case sv_policy sv of
         OneForOne \<Rightarrow> Ok [cid] :: (vm_error, string list) outcome
       | OneForAll \<Rightarrow> Ok (sv_child_order sv)
       | RestForOne \<Rightarrow> (case position (\<lambda>known. known = cid) (sv_child_order sv) of
           None \<Rightarrow> Panic ''memory pressure child was validated before cleanup selection''
         | Some start \<Rightarrow> Ok (drop start (sv_child_order sv)))) = Ok ?cids"
    using drop_position [of cid "sv_child_order sv"] order cid
    by (cases "sv_policy sv") (auto simp: group_of_def)
  show ?thesis
    using cid
    by (auto simp: memory_pressure_cleanup_pids_def sel any_restart_limited_law [OF members] selected_pids_law [OF members]
        cleanup_of_def Let_def bind_out_def bt_contains_def)
qed

section \<open>Exits keep the room of the table\<close>

lemma preserves_room: "preserves pt_size f \<Longrightarrow> preserves pt_next_pid f \<Longrightarrow> preserves pt_room f"
  by (auto simp: preserves_def pt_room_def)

lemma preserves_lifts:
  "preserves pt_room f \<Longrightarrow> preserves (\<lambda>(mem, t). pt_room t) (beside_memory f)"
  "preserves (\<lambda>(mem, t). pt_room t) g \<Longrightarrow> preserves (\<lambda>(mem, resources, t). pt_room t) (accounting g)"
  "preserves (\<lambda>(resources, t). pt_room t) h \<Longrightarrow> preserves (\<lambda>(mem, resources, t). pt_room t) (on_resources h)"
  "preserves (\<lambda>(mem, t). pt_room t) (change_memory k)"
  "preserves (\<lambda>(mem, resources, t). pt_room t) (on_accountant m)"
  by (auto simp: preserves_def beside_memory_def accounting_def on_resources_def change_memory_def on_accountant_def
      split: prod.splits) (metis snd_conv prod.case)+

lemma preserves_live: "preserves pt_room (with_live_process_mut pid mutate)"
  unfolding with_live_process_mut_def
  by (intro preserves_room preserves_bind preserves_simple preserves_control)

lemma preserves_update: "preserves pt_room (update_process pid f)"
  unfolding update_process_def by (intro preserves_room preserves_control)

lemma preserves_cleanup: "preserves (\<lambda>(resources, t). pt_room t) (cleanup_owner_handles owner)"
  unfolding preserves_def
proof (intro allI)
  fix s :: "'q with_resources"
  obtain resources t where s: "s = (resources, t)" by (cases s)
  show "(case snd (cleanup_owner_handles owner s) of (resources, t) \<Rightarrow> pt_room t) = (case s of (resources, t) \<Rightarrow> pt_room t)"
  proof -
    have keep: "pt_room t' = pt_room t" if "update_process owner f t = (r, t')" for f r t'
      using preservesD [OF preserves_update that] .
    show ?thesis
      by (auto simp: s cleanup_owner_handles_def Let_def split: prod.splits outcome.splits dest: keep)
  qed
qed

lemma preserves_release: "preserves (\<lambda>(mem, t). pt_room t) (release_heap pid n)"
  unfolding release_heap_def
  by (intro preserves_bind preserves_lifts preserves_live, clarsimp)
    (intro preserves_bind preserves_lifts preserves_simple)

lemma preserves_synchronize: "preserves (\<lambda>(mem, t). pt_room t) (synchronize_process pid)"
  unfolding synchronize_process_def by (intro preserves_bind preserves_lifts preserves_simple)

lemma preserves_memory_exit:
  "preserves (\<lambda>(mem, resources, t). pt_room t) (exit_process_with_memory_cleanup owner reason)"
  unfolding exit_process_with_memory_cleanup_def
  by (intro preserves_bind preserves_lifts preserves_simple preserves_cleanup preserves_release preserves_synchronize
      preserves_room preserves_exit)

section \<open>The exits\<close>

lemma exit_each_law:
  assumes "balanced Q contents capacity (mem, resources, t)" "distinct pids" "\<And>pid. pid \<in> set pids \<Longrightarrow> is_alive t pid"
  shows "\<exists>mem' resources' t'. exit_each_with_cleanup reason pids (mem, resources, t) = (Ok (), (mem', resources', t'))
    \<and> balanced Q contents capacity (mem', resources', t') \<and> pt_room t' = pt_room t
    \<and> (\<forall>q. pt_get t' q = (if q \<in> set pids then map_option (exited_as reason) (pt_get t q) else pt_get t q))"
  using assms
proof (induction pids arbitrary: mem resources t)
  case Nil
  then show ?case by (simp add: return_st_def)
next
  case (Cons pid pids)
  have alive: "is_alive t pid" using Cons.prems(3) by simp
  then obtain p where p: "pt_get t pid = Some p" "\<not> is_exited (proc_state p)" using alive_process by blast
  obtain out mem1 resources1 t1 where run: "exit_process_with_memory_cleanup pid reason (mem, resources, t)
        = (Ok out, (mem1, resources1, t1))"
      and get1: "pt_get t1 = (pt_get t)(pid \<mapsto> snd (proc_exit reason p))"
      and b1: "balanced Q contents capacity (mem1, resources1, t1)"
    by (rule exit_law [OF Cons.prems(1) p, of reason]) blast
  have room1: "pt_room t1 = pt_room t"
    using preservesD [OF preserves_memory_exit run] by simp
  have "is_alive t1 q" if "q \<in> set pids" for q
  proof -
    have "q \<noteq> pid" using Cons.prems(2) that by auto
    then show ?thesis using Cons.prems(3) [of q] that by (simp add: is_alive_get get1)
  qed
  from Cons.IH [OF b1 _ this] Cons.prems(2) obtain mem' resources' t' where rest:
      "exit_each_with_cleanup reason pids (mem1, resources1, t1) = (Ok (), (mem', resources', t'))"
      "balanced Q contents capacity (mem', resources', t')" "pt_room t' = pt_room t1"
      "\<forall>q. pt_get t' q = (if q \<in> set pids then map_option (exited_as reason) (pt_get t1 q) else pt_get t1 q)"
    by auto
  have "pt_get t' q = (if q \<in> set (pid # pids) then map_option (exited_as reason) (pt_get t q) else pt_get t q)" for q
    using rest(4) p Cons.prems(2) by (auto simp: get1 exited_as_def)
  then show ?case
    using run rest room1 by (intro exI [of _ mem'] exI [of _ resources'] exI [of _ t']) (simp add: bind_st_def)
qed

text \<open>The first process of the list that is not alive stops it, after those before it.\<close>

lemma exit_each_stops:
  assumes b: "balanced Q contents capacity (mem, resources, t)" and d: "distinct pids"
    and alive: "\<And>pid. pid \<in> set pids \<Longrightarrow> is_alive t pid" and dead: "\<not> is_alive t dead"
  shows "\<exists>e mem' resources' t'. exit_each_with_cleanup reason (pids @ dead # rest) (mem, resources, t)
      = (Err e, (mem', resources', t'))
    \<and> balanced Q contents capacity (mem', resources', t')
    \<and> (\<forall>q. pt_get t' q = (if q \<in> set pids then map_option (exited_as reason) (pt_get t q) else pt_get t q))"
proof -
  obtain mem1 resources1 t1 where run: "exit_each_with_cleanup reason pids (mem, resources, t) = (Ok (), (mem1, resources1, t1))"
      "balanced Q contents capacity (mem1, resources1, t1)"
      "\<forall>q. pt_get t1 q = (if q \<in> set pids then map_option (exited_as reason) (pt_get t q) else pt_get t q)"
    using exit_each_law [OF b d alive] by blast
  have "dead \<notin> set pids" using alive dead by blast
  then have "\<not> is_alive t1 dead" using dead run(3) by (simp add: is_alive_get)
  then obtain e where "require_live_account t1 dead = Err e"
    by (auto simp: require_live_account_def is_alive_def split: option.splits)
  then have stop: "exit_process_with_memory_cleanup dead reason (mem1, resources1, t1) = (Err e, (mem1, resources1, t1))"
    by (simp add: exit_process_with_memory_cleanup_def bind_st_def read_st_def)
  have append: "exit_each_with_cleanup reason (xs @ ys) s = (case exit_each_with_cleanup reason xs s of
      (Ok _, s) \<Rightarrow> exit_each_with_cleanup reason ys s | (Err e, s) \<Rightarrow> (Err e, s) | (Panic x, s) \<Rightarrow> (Panic x, s))" for xs ys s
    by (induction xs arbitrary: s) (auto simp: bind_st_def return_st_def split: prod.splits outcome.splits)
  have "exit_each_with_cleanup reason (pids @ dead # rest) (mem, resources, t) = (Err e, (mem1, resources1, t1))"
    by (simp add: append run(1) bind_st_def stop)
  then show ?thesis using run by blast
qed

section \<open>The restart after the exits\<close>

lemma books_spawned:
  assumes b: "balanced Q contents capacity (mem, resources, t)" and ok: "pt_ok Q contents capacity t'"
    and same: "\<And>q p. pt_get t q = Some p \<Longrightarrow> pt_get t' q = Some p"
    and new: "\<And>q p. pt_get t q = None \<Longrightarrow> pt_get t' q = Some p \<Longrightarrow> \<exists>source. p = new_process q None source"
  shows "balanced Q contents capacity (mem, resources, t')"
proof -
  have get: "pt_get t' q = pt_get t q \<or> (pt_get t q = None \<and> (\<exists>source. pt_get t' q = Some (new_process q None source)))" for q
    using same [of q] new [of q] by (cases "pt_get t q"; cases "pt_get t' q") auto
  have heap: "heap_of t' = heap_of t" and mail: "mailbox_charge t' = mailbox_charge t"
  proof -
    show "heap_of t' = heap_of t"
    proof
      fix q show "heap_of t' q = heap_of t q" using get [of q] by (auto simp: heap_of_def new_process_def)
    qed
    show "mailbox_charge t' = mailbox_charge t"
    proof
      fix q show "mailbox_charge t' q = mailbox_charge t q"
        using get [of q] by (auto simp: mailbox_charge_def mailbox_bytes_def new_process_def)
    qed
  qed
  have alive: "is_alive t' q" if "is_alive t q" for q using that same [of q] by (auto simp: is_alive_get)
  have handles: "count_list (proc_resource_handles p) (resource_handle_name i) = (if owns_resource resources q i then 1 else 0)"
    if p: "pt_get t' q = Some p" for q p i
  proof (cases "pt_get t q")
    case None
    then have "\<not> is_alive t q" by (simp add: is_alive_get)
    then have "\<not> owns_resource resources q i" using balancedD(4) [OF b] by (auto simp: resources_ok_def owns_resource_def)
    then show ?thesis using new [OF None p] by (auto simp: new_process_def)
  next
    case (Some x)
    then have "pt_get t q = Some p" using same [OF Some] p by simp
    then show ?thesis using balancedD(4) [OF b] by (simp add: resources_ok_def)
  qed
  have "resources_ok resources t'"
    using balancedD(4) [OF b] handles alive unfolding resources_ok_def by blast
  moreover have "shared_ok mem t'" using balancedD(6) [OF b] alive by (auto simp: shared_ok_def)
  ultimately show ?thesis
    using balancedD [OF b] ok by (simp add: balanced_iff heap charge_of_def mail)
qed

lemma system_ok_known:
  assumes "system_ok t sys" "\<And>pid. known t pid \<Longrightarrow> known t' pid"
  shows "system_ok t' sys"
  using assms children_ok_known [of t _ t'] unfolding system_ok_def by blast

lemma crew_renewed_fresh:
  "crew_renewed Q contents capacity reason fresh nx cids sv t sv' t' \<Longrightarrow> pt_get t pid = None
     \<Longrightarrow> pt_get t' pid = Some p \<Longrightarrow> \<exists>source. p = new_process pid None source"
  unfolding crew_renewed_def by blast

text \<open>Renewing children whose processes have exited only adds processes.\<close>

lemma crew_only_adds:
  assumes ok: "pt_ok Q contents capacity t" "children_ok t sv"
    and crew: "crew_renewed Q contents capacity reason fresh nx cids sv t sv' t'"
    and exited: "\<And>c child. c \<in> cids \<Longrightarrow> bt_get (sv_children sv) c = Some child \<Longrightarrow> \<not> is_alive t (sc_pid child)"
    and get: "pt_get t q = Some p"
  shows "pt_get t' q = Some p"
proof (cases "\<forall>c\<in>cids. \<forall>child. bt_get (sv_children sv) c = Some child \<longrightarrow> sc_pid child \<noteq> q")
  case True
  have "q \<le> pt_next_pid t" using known_le [OF ok(1)] get by (simp add: known_def)
  then show ?thesis using crew_renewedD(3) [OF crew _ True] get by simp
next
  case False
  then obtain c child where c: "c \<in> cids" "bt_get (sv_children sv) c = Some child" "sc_pid child = q" by blast
  have "is_exited (proc_state p)" using exited [OF c(1,2)] c(3) get by (simp add: is_alive_get)
  moreover obtain child' where "renewed reason (fresh child) nx child t child' t'"
    using crew_renewedD(2) [OF crew c(1,2)] by blast
  ultimately show ?thesis using get c(3) by (simp add: renewed_def exited_as_def)
qed

lemma policy_cases:
  assumes ok: "pt_ok Q contents capacity t" "children_ok t sv"
    and effect: "policy_effect Q contents capacity cid reason sv t restart sv' t'"
    and exited: "\<forall>pid\<in>set (cleanup_of sv cid reason). \<not> is_alive t pid"
    and cid: "bt_contains (sv_children sv) cid"
  obtains (same) "t' = t"
  | (crew) fresh cids where "crew_renewed Q contents capacity reason fresh restarted_child cids sv t sv' t'"
      "\<forall>c\<in>cids. \<forall>child. bt_get (sv_children sv) c = Some child \<longrightarrow> \<not> is_alive t (sc_pid child)"
proof (cases "sv_policy sv = OneForOne")
  case True
  have "sc_pid (the (bt_get (sv_children sv) cid)) \<in> set (cleanup_of sv cid reason)"
    using True by (simp add: cleanup_of_def group_of_def Let_def)
  then have "\<not> is_alive t (sc_pid child)" if "bt_get (sv_children sv) cid = Some child" for child
    using exited that by force
  then show ?thesis using effect True by (intro crew [of _ "{cid}"]) (auto simp: policy_effect_def)
next
  case False
  let ?cids = "group_of (sv_policy sv) (sv_child_order sv) cid"
  show ?thesis
  proof (cases "group_block reason sv ?cids")
    case None
    have "\<not> is_alive t (sc_pid child)" if "c \<in> set ?cids" "bt_get (sv_children sv) c = Some child" for c child
      using exited that None by (force simp: cleanup_of_def)
    then show ?thesis using effect False None by (intro crew [of _ "set ?cids"]) (auto simp: policy_effect_def Let_def)
  next
    case (Some c)
    then show ?thesis using effect False same by (simp add: policy_effect_def Let_def)
  qed
qed

lemma policy_only_adds:
  assumes "pt_ok Q contents capacity t" "children_ok t sv"
    and "policy_effect Q contents capacity cid reason sv t restart sv' t'"
    and "\<forall>pid\<in>set (cleanup_of sv cid reason). \<not> is_alive t pid"
    and "bt_contains (sv_children sv) cid" and get: "pt_get t q = Some p"
  shows "pt_get t' q = Some p"
  using assms(1-5)
proof (cases rule: policy_cases)
  case same
  then show ?thesis using get by simp
next
  case (crew fresh cids)
  then show ?thesis by (intro crew_only_adds [OF assms(1,2) crew(1) _ get]) blast
qed

lemma restart_keeps_books:
  assumes b: "balanced Q contents capacity (mem, resources, t)" and ok: "children_ok t sv"
    and effect: "policy_effect Q contents capacity cid reason sv t restart sv' t'" and t': "pt_ok Q contents capacity t'"
    and exited: "\<forall>pid\<in>set (cleanup_of sv cid reason). \<not> is_alive t pid"
    and cid: "bt_contains (sv_children sv) cid"
  shows "balanced Q contents capacity (mem, resources, t')"
  using balancedD(1) [OF b] ok effect exited cid
proof (cases rule: policy_cases)
  case same
  then show ?thesis using b by simp
next
  case (crew fresh cids)
  show ?thesis
    by (rule books_spawned [OF b t' _ crew_renewed_fresh [OF crew(1)]])
      (use policy_only_adds [OF balancedD(1) [OF b] ok effect exited cid] in blast)+
qed

lemma policy_renews:
  assumes effect: "policy_effect Q contents capacity cid reason sv t restart sv' t'"
    and none: "group_block reason sv (group_of (sv_policy sv) (sv_child_order sv) cid) = None"
    and c: "c \<in> set (group_of (sv_policy sv) (sv_child_order sv) cid)" "bt_get (sv_children sv) c = Some x" "due reason x"
  shows "\<exists>x'. bt_get (sv_children sv') c = Some x' \<and> x' = restarted_child x (sc_pid x') \<and> pt_next_pid t < sc_pid x'
     \<and> pt_get t' (sc_pid x') = Some (new_process (sc_pid x') None (spec_source (sc_spec x)))"
proof -
  obtain fresh cids where crew: "crew_renewed Q contents capacity reason fresh restarted_child cids sv t sv' t'"
      and in': "c \<in> cids" "fresh x"
  proof (cases "sv_policy sv = OneForOne")
    case True
    then have "c = cid" "\<not> spent x" using none c by (auto simp: group_of_def group_block_def)
    then show ?thesis using effect True c(3)
      by (intro that [of "\<lambda>child. due reason child \<and> \<not> spent child" "{cid}"]) (simp_all add: policy_effect_def)
  next
    case False
    then show ?thesis using effect none c
      by (intro that [of "due reason" "set (group_of (sv_policy sv) (sv_child_order sv) cid)"])
        (simp_all add: policy_effect_def Let_def)
  qed
  then show ?thesis using crew_renewedD(2) [OF crew in'(1) c(2)] by (auto simp: renewed_def)
qed

lemma policy_blocked:
  assumes ok: "children_ok t sv" and cid: "bt_contains (sv_children sv) cid"
    and effect: "policy_effect Q contents capacity cid reason sv t restart sv' t'"
    and blocked: "group_block reason sv (group_of (sv_policy sv) (sv_child_order sv) cid) \<noteq> None"
  shows "\<exists>pid n. restart = LimitReached pid n"
proof (cases "sv_policy sv = OneForOne")
  case True
  then obtain child where "bt_get (sv_children sv) cid = Some child" "due reason child" "spent child"
    using blocked by (auto simp: group_of_def group_block_def split: option.splits if_splits)
  then show ?thesis using effect True by (simp add: policy_effect_def one_outcome_def)
next
  case False
  then show ?thesis using effect blocked by (auto simp: policy_effect_def Let_def)
qed

lemma cleanup_distinct:
  assumes ok: "children_ok t sv" and cid: "bt_contains (sv_children sv) cid"
  shows "distinct (cleanup_of sv cid reason)"
proof -
  let ?cids = "group_of (sv_policy sv) (sv_child_order sv) cid"
  have members: "bt_contains (sv_children sv) c" if "c \<in> set ?cids" for c
    using that group_of_facts(3) [OF ok cid, of "sv_policy sv" c] cid
    by (cases "sv_policy sv = OneForOne") (auto simp: group_of_def)
  have d: "distinct ?cids"
    using group_of_facts(1) [OF ok cid, of "sv_policy sv"] by (cases "sv_policy sv = OneForOne") (auto simp: group_of_def)
  have "inj_on (\<lambda>c. sc_pid (the (bt_get (sv_children sv) c))) (set ?cids)"
  proof (rule inj_onI)
    fix c c' assume c: "c \<in> set ?cids" "c' \<in> set ?cids"
      "sc_pid (the (bt_get (sv_children sv) c)) = sc_pid (the (bt_get (sv_children sv) c'))"
    obtain x where "bt_get (sv_children sv) c = Some x" using members [OF c(1)] by (auto simp: bt_contains_def)
    moreover obtain x' where "bt_get (sv_children sv) c' = Some x'" using members [OF c(2)] by (auto simp: bt_contains_def)
    ultimately show "c = c'" using children_okD(7) [OF ok] c(3) by auto
  qed
  then show ?thesis using d by (simp add: cleanup_of_def Let_def distinct_map)
qed

lemma cleanup_selected:
  "cleanup_of sv cid reason = [sc_pid (the (bt_get (sv_children sv) cid))] \<or>
     (group_block reason sv (group_of (sv_policy sv) (sv_child_order sv) cid) = None)"
  by (simp add: cleanup_of_def Let_def)

section \<open>Under pressure\<close>

text \<open>C9: A child that hits the hard limit is cleaned up and restarted with the books balanced. When
  the processes its policy selects are alive, the decision never fails: each of them exits with
  the reason of the pressure and is accounted at zero, every other process is as it was, the
  accounts and the supervisor tree stay consistent, and then either a selected child had spent
  its restarts and the supervisor has failed, or every selected child that is due has a fresh
  process of its source and a count one higher.\<close>

theorem hard_limit_recovers:
  assumes "balanced Q contents capacity (mem, resources, t)" and "system_ok t sys"
    and "bt_get (sys_supervisors sys) sid = Some sv" and "bt_get (sv_children sv) cid = Some child"
    and "length (sv_child_order sv) \<le> pt_room t"
    and "pressure_pid pressure = sc_pid child" and "pressure_outcome pressure = HardLimitRejected"
    and "reason = MemoryLimitExceeded (pressure_requested_bytes pressure) (pressure_previous_bytes pressure)
           (pressure_projected_bytes pressure)"
    and "memory_pressure_cleanup_pids sv cid reason = Ok pids" and "\<forall>pid\<in>set pids. is_alive t pid"
  shows "\<exists>restart sys' mem' resources' t' sv'. handle_memory_pressure Q sid cid pressure (sys, mem, resources, t)
       = (Ok (PressureRestart restart), (sys', mem', resources', t'))
     \<and> balanced Q contents capacity (mem', resources', t') \<and> system_ok t' sys'
     \<and> (\<forall>pid\<in>set pids. current_bytes_of mem' pid = 0 \<and> (\<exists>p. pt_get t' pid = Some p \<and> proc_state p = Exited reason))
     \<and> (\<forall>pid p. pid \<notin> set pids \<longrightarrow> pt_get t pid = Some p \<longrightarrow> pt_get t' pid = Some p)
     \<and> bt_get (sys_supervisors sys') sid = Some sv'
     \<and> (if group_block reason sv (group_of (sv_policy sv) (sv_child_order sv) cid) \<noteq> None
        then \<exists>pid. sv_state sv' = SupervisorFailed cid pid reason
        else \<forall>c\<in>set (group_of (sv_policy sv) (sv_child_order sv) cid). \<forall>x. bt_get (sv_children sv) c = Some x
          \<longrightarrow> due reason x \<longrightarrow> (\<exists>x'. bt_get (sv_children sv') c = Some x' \<and> pt_get t (sc_pid x') = None
            \<and> pt_get t' (sc_pid x') = Some (new_process (sc_pid x') None (spec_source (sc_spec x)))
            \<and> sc_restart_count x' = sc_restart_count x + 1))"
proof -
  note t = balancedD(1) [OF assms(1)] and ok = system_okD(4) [OF assms(2,3)]
  have cid: "bt_contains (sv_children sv) cid" using assms(4) by (simp add: bt_contains_def)
  have pids: "pids = cleanup_of sv cid reason" using cleanup_pids_law [OF ok cid, of reason] assms(9) by simp
  have d: "distinct pids" using cleanup_distinct [OF ok cid] by (simp add: pids)
  obtain mem1 resources1 t1 where e: "exit_each_with_cleanup reason pids (mem, resources, t) = (Ok (), (mem1, resources1, t1))"
      "balanced Q contents capacity (mem1, resources1, t1)" "pt_room t1 = pt_room t"
      "\<And>q. pt_get t1 q = (if q \<in> set pids then map_option (exited_as reason) (pt_get t q) else pt_get t q)"
    using exit_each_law [OF assms(1) d, of reason] assms(10) by blast
  have known: "known t1 q \<longleftrightarrow> known t q" for q by (simp add: known_def e(4))
  have sys1: "system_ok t1 sys" by (rule system_ok_known [OF assms(2)]) (simp add: known)
  have dead: "\<not> is_alive t1 pid" if "pid \<in> set pids" for pid
    using that by (auto simp: is_alive_get e(4))
  obtain restart sv1 t2 where r: "restart_child Q sid cid reason (sys, t1) = (Ok restart,
        (escalated sid reason restart sv1 (put_supervisor sid (settled cid reason restart sv1) sys), t2))"
      "policy_effect Q contents capacity cid reason sv t1 restart sv1 t2"
      "pt_ok Q contents capacity t2" "sv_parent_id sv1 = sv_parent_id sv"
      "system_ok t2 (escalated sid reason restart sv1 (put_supervisor sid (settled cid reason restart sv1) sys))"
    by (rule restart_child_law [OF balancedD(1) [OF e(2)] sys1 assms(3) cid]) (use assms(5) e(3) in auto)
  let ?sys = "escalated sid reason restart sv1 (put_supervisor sid (settled cid reason restart sv1) sys)"
    and ?cids = "group_of (sv_policy sv) (sv_child_order sv) cid"
  note ok1 = system_okD(4) [OF sys1 assms(3)] and G = settled_get [OF assms(2,3) r(4)]
  have b2: "balanced Q contents capacity (mem1, resources1, t2)"
    by (rule restart_keeps_books [OF e(2) ok1 r(2,3) _ cid]) (use dead pids in simp)
  have kept: "pt_get t2 q = Some p" if got: "pt_get t1 q = Some p" for q p
    using policy_only_adds [OF balancedD(1) [OF e(2)] ok1 r(2) _ cid got] dead pids by simp
  have run: "handle_memory_pressure Q sid cid pressure (sys, mem, resources, t)
      = (Ok (PressureRestart restart), (?sys, mem1, resources1, t2))"
    using assms(3,4,6,7) e(1) r(1) cleanup_pids_law [OF ok cid, of reason]
    by (simp add: handle_memory_pressure_def bind_st_def read_st_def ok_or_def Let_def return_st_def in_accounts_def
        in_supervised_def assms(8) [symmetric] pids)
  have exited: "current_bytes_of mem1 pid = 0 \<and> (\<exists>p. pt_get t2 pid = Some p \<and> proc_state p = Exited reason)"
    if "pid \<in> set pids" for pid
  proof -
    obtain p where p: "pt_get t pid = Some p" "\<not> is_exited (proc_state p)"
      using assms(10) \<open>pid \<in> set pids\<close> by (auto simp: is_alive_get)
    then have q: "pt_get t1 pid = Some (snd (proc_exit reason p))" using \<open>pid \<in> set pids\<close> by (simp add: e(4) exited_as_def)
    then show ?thesis using kept [OF q] balancedD(7) [OF e(2), of pid] by (simp add: heap_of_def proc_exit_def)
  qed
  have others: "pt_get t2 pid = Some p" if "pid \<notin> set pids" "pt_get t pid = Some p" for pid p
    using that kept by (simp add: e(4))
  have outcome: "if group_block reason sv ?cids \<noteq> None
        then \<exists>pid. sv_state (settled cid reason restart sv1) = SupervisorFailed cid pid reason
        else \<forall>c\<in>set ?cids. \<forall>x. bt_get (sv_children sv) c = Some x
          \<longrightarrow> due reason x \<longrightarrow> (\<exists>x'. bt_get (sv_children sv1) c = Some x' \<and> pt_get t (sc_pid x') = None
            \<and> pt_get t2 (sc_pid x') = Some (new_process (sc_pid x') None (spec_source (sc_spec x)))
            \<and> sc_restart_count x' = sc_restart_count x + 1)"
  proof (cases "group_block reason sv ?cids = None")
    case True
    have "\<exists>x'. bt_get (sv_children sv1) c = Some x' \<and> pt_get t (sc_pid x') = None
            \<and> pt_get t2 (sc_pid x') = Some (new_process (sc_pid x') None (spec_source (sc_spec x)))
            \<and> sc_restart_count x' = sc_restart_count x + 1"
      if c: "c \<in> set ?cids" "bt_get (sv_children sv) c = Some x" "due reason x" for c x
    proof -
      obtain x' where x': "bt_get (sv_children sv1) c = Some x'" "x' = restarted_child x (sc_pid x')"
          "pt_next_pid t1 < sc_pid x'" "pt_get t2 (sc_pid x') = Some (new_process (sc_pid x') None (spec_source (sc_spec x)))"
        using policy_renews [OF r(2) True c] by blast
      have "\<not> known t (sc_pid x')"
        using x'(3) known_le [OF balancedD(1) [OF e(2)], of "sc_pid x'"] known [of "sc_pid x'"] by auto
      then have fresh: "pt_get t (sc_pid x') = None" by (simp add: known_def)
      have "sc_restart_count (restarted_child x n) = sc_restart_count x + 1" for n by (simp add: restarted_child_def)
      then have "sc_restart_count x' = sc_restart_count x + 1" using x'(2) by metis
      then show ?thesis using x'(1,4) fresh by blast
    qed
    then show ?thesis using True by simp
  next
    case False
    then show ?thesis using policy_blocked [OF ok1 cid r(2)] by (auto simp: settled_def)
  qed
  show ?thesis
    using run b2 r(5) exited others G(1) outcome
    by (intro exI [of _ restart] exI [of _ ?sys] exI [of _ mem1] exI [of _ resources1] exI [of _ t2]
        exI [of _ "settled cid reason restart sv1"]) simp
qed

text \<open>A supervisor of the processes 1 and 2, and the table in which process 2 has exited.\<close>

definition pressed_child :: "string \<Rightarrow> VmProcessId \<Rightarrow> VmSupervisorChild" where
  "pressed_child cid pid = sample_child\<lparr> sc_spec := sample_spec\<lparr> spec_id := cid \<rparr>, sc_pid := pid \<rparr>"

definition pressed_supervisor :: "VmRestartPolicy \<Rightarrow> VmSupervisor" where
  "pressed_supervisor policy = sample_supervisor 1 None policy
     [(''a'', pressed_child ''a'' 1), (''b'', pressed_child ''b'' 2)]"

definition pressed_system :: "VmRestartPolicy \<Rightarrow> VmSupervisionSystem" where
  "pressed_system policy = \<lparr> sys_next_supervisor_id = 1, sys_supervisors = [(1, pressed_supervisor policy)] \<rparr>"

definition pressed_table :: "(VmMessage VmPublishedFragment list \<times> nat) VmProcessTable" where
  "pressed_table = snd (pt_exit_process 2 Normal sample_two)"

definition pressed_decision :: VmMemoryPressureDecision where
  "pressed_decision = \<lparr> pressure_pid = 1, pressure_requested_bytes = 200, pressure_previous_bytes = 0,
     pressure_projected_bytes = 200, pressure_outcome = HardLimitRejected \<rparr>"

lemma pressed_get:
  "bt_get (sys_supervisors (pressed_system policy)) x = (if x = 1 then Some (pressed_supervisor policy) else None)"
  "bt_get (sv_children (pressed_supervisor policy)) c
     = (if c = ''a'' then Some (pressed_child ''a'' 1) else if c = ''b'' then Some (pressed_child ''b'' 2) else None)"
  by (simp_all add: pressed_system_def bt_get_Cons pressed_supervisor_def sample_supervisor_def)

lemma pressed_simps:
  "sc_pid (pressed_child cid pid) = pid" "spec_id (sc_spec (pressed_child cid pid)) = cid"
  "sc_restart_count (pressed_child cid pid) = 2" "spec_restart_limit (sc_spec (pressed_child cid pid)) = 3"
  "sv_id (pressed_supervisor policy) = 1" "sv_parent_id (pressed_supervisor policy) = None"
  "sv_child_order (pressed_supervisor policy) = [''a'', ''b'']" "sv_policy (pressed_supervisor policy) = policy"
  "bt_ok (sv_children (pressed_supervisor policy))"
  by (simp_all add: pressed_child_def sample_child_def sample_spec_def with_restart_backoff_def child_spec_new_def
      pressed_supervisor_def sample_supervisor_def bt_ok_def)

lemma pressed_system_ok:
  assumes "known t 1" "known t 2"
  shows "system_ok t (pressed_system policy)"
proof -
  have "children_ok t (pressed_supervisor policy)"
    using assms unfolding children_ok_def pressed_get
    by (auto simp: pressed_simps bt_contains_def pressed_get word_le_nat_alt split: if_splits)
  then show ?thesis
    by (auto simp: system_ok_def pressed_get pressed_simps split: if_splits) (simp_all add: pressed_system_def bt_ok_def)
qed

lemma pressed_table_facts:
  "pt_ok list_queue fst snd pressed_table"
  "pt_get pressed_table = [1 \<mapsto> new_process 1 None sample_source,
     2 \<mapsto> snd (proc_exit Normal (new_process 2 (Some 1) sample_source))]"
proof -
  have get: "pt_get sample_two 2 = Some (new_process 2 (Some 1) sample_source)" by (simp add: sample_two_facts)
  obtain t' where "pt_exit_process 2 Normal sample_two = (Ok (proc_resource_handles (new_process 2 (Some 1) sample_source)), t')"
      "pt_ok list_queue fst snd t'"
      "pt_get t' = (pt_get sample_two)(2 \<mapsto> snd (proc_exit Normal (new_process 2 (Some 1) sample_source)))"
    by (rule exit_process_law [OF sample_two_facts(1) get sample_live, where reason = Normal])
  then show "pt_ok list_queue fst snd pressed_table"
    "pt_get pressed_table = [1 \<mapsto> new_process 1 None sample_source,
     2 \<mapsto> snd (proc_exit Normal (new_process 2 (Some 1) sample_source))]"
    by (simp_all add: pressed_table_def sample_two_facts)
qed

lemma pressed_balanced:
  "balanced list_queue fst snd (accountant_new small_limits, resource_table_default, pressed_table)"
  by (rule fresh_balanced)
    (auto simp: pressed_table_facts limits_ok_def small_limits_def new_process_def proc_exit_def word_le_nat_alt
      word_less_nat_alt split: if_splits)

lemma pressed_pids:
  assumes "policy \<noteq> OneForOne"
  shows "memory_pressure_cleanup_pids (pressed_supervisor policy) ''a'' reason = Ok [1, 2]"
  using assms
  by (cases policy) (simp_all add: memory_pressure_cleanup_pids_def pressed_simps pressed_get bind_out_def)

lemma pressed_facts:
  "bt_get (sys_supervisors (pressed_system policy)) 1 = Some (pressed_supervisor policy)"
  "bt_get (sv_children (pressed_supervisor policy)) ''a'' = Some (pressed_child ''a'' 1)"
  "pressure_pid pressed_decision = sc_pid (pressed_child ''a'' 1)"
  "pressure_outcome pressed_decision = HardLimitRejected"
  by (simp_all add: pressed_get pressed_decision_def pressed_simps)

theorem hard_limit_recovers_witness:
  "\<exists>restart sys' mem' resources' t'. handle_memory_pressure list_queue 1 ''a'' pressed_decision
       (pressed_system OneForAll, sample_books) = (Ok (PressureRestart restart), (sys', mem', resources', t'))
     \<and> balanced list_queue fst snd (mem', resources', t') \<and> current_bytes_of mem' 2 = 0"
proof -
  have ok: "system_ok sample_two (pressed_system OneForAll)"
    by (rule pressed_system_ok) (simp_all add: known_def sample_two_facts)
  have room: "length (sv_child_order (pressed_supervisor OneForAll)) \<le> pt_room sample_two"
    by (simp add: pressed_simps pt_room_def pt_size_def dir_size_def sample_two_slots sample_two_facts(4))
  have alive: "\<forall>pid\<in>set [1, 2]. is_alive sample_two pid"
    by (simp add: is_alive_get sample_two_facts sample_live)
  have pids: "memory_pressure_cleanup_pids (pressed_supervisor OneForAll) ''a'' (MemoryLimitExceeded (pressure_requested_bytes pressed_decision)
      (pressure_previous_bytes pressed_decision) (pressure_projected_bytes pressed_decision)) = Ok [1, 2]"
    by (rule pressed_pids) simp
  from hard_limit_recovers [OF sample_balanced [unfolded sample_books_def] ok pressed_facts(1,2) room pressed_facts(3,4) refl pids alive]
  show ?thesis unfolding sample_books_def by fastforce
qed

text \<open>C27: A child that has already stopped blocks the recovery of its siblings. When the group that
  the policy selects holds a process that has exited, for example a temporary child that ended
  normally, the decision fails: the selected processes before it in the order of start have been
  ended and are not started again, the failing child among them, the supervisor tree is as it
  was, and only the books stay balanced. (A plain restart of the group skips such a process.)\<close>

theorem stopped_sibling_blocks_recovery:
  assumes "balanced Q contents capacity (mem, resources, t)" and "system_ok t sys"
    and "bt_get (sys_supervisors sys) sid = Some sv" and "bt_get (sv_children sv) cid = Some child"
    and "pressure_pid pressure = sc_pid child" and "pressure_outcome pressure = HardLimitRejected"
    and "reason = MemoryLimitExceeded (pressure_requested_bytes pressure) (pressure_previous_bytes pressure)
           (pressure_projected_bytes pressure)"
    and "memory_pressure_cleanup_pids sv cid reason = Ok (before @ stopped # after)"
    and "\<forall>pid\<in>set before. is_alive t pid" and "\<not> is_alive t stopped"
  shows "\<exists>e mem' resources' t'. handle_memory_pressure Q sid cid pressure (sys, mem, resources, t)
       = (Err e, (sys, mem', resources', t'))
     \<and> balanced Q contents capacity (mem', resources', t')
     \<and> (\<forall>pid\<in>set before. \<exists>p. pt_get t' pid = Some p \<and> proc_state p = Exited reason)
     \<and> (\<forall>pid. pid \<notin> set before \<longrightarrow> pt_get t' pid = pt_get t pid)"
proof -
  note ok = system_okD(4) [OF assms(2,3)]
  have cid: "bt_contains (sv_children sv) cid" using assms(4) by (simp add: bt_contains_def)
  have pids: "before @ stopped # after = cleanup_of sv cid reason" using cleanup_pids_law [OF ok cid, of reason] assms(8) by simp
  have d: "distinct before" using cleanup_distinct [OF ok cid, of reason] by (simp add: pids [symmetric])
  obtain e mem1 resources1 t1 where run: "exit_each_with_cleanup reason (before @ stopped # after) (mem, resources, t)
        = (Err e, (mem1, resources1, t1))" "balanced Q contents capacity (mem1, resources1, t1)"
      "\<And>q. pt_get t1 q = (if q \<in> set before then map_option (exited_as reason) (pt_get t q) else pt_get t q)"
    using exit_each_stops [OF assms(1) d _ assms(10), of reason after] assms(9) by blast
  have "handle_memory_pressure Q sid cid pressure (sys, mem, resources, t) = (Err e, (sys, mem1, resources1, t1))"
    using assms(3-6,8) run(1)
    by (simp add: handle_memory_pressure_def bind_st_def read_st_def ok_or_def Let_def in_accounts_def assms(7) [symmetric])
  moreover have "\<exists>p. pt_get t1 pid = Some p \<and> proc_state p = Exited reason" if found: "pid \<in> set before" for pid
  proof -
    obtain p where "pt_get t pid = Some p" "\<not> is_exited (proc_state p)"
      using assms(9) found by (auto simp: is_alive_get)
    then show ?thesis using found by (simp add: run(3) exited_as_def proc_exit_def)
  qed
  ultimately show ?thesis using run(2,3) by auto
qed

theorem stopped_sibling_blocks_recovery_witness:
  "\<exists>e mem' resources' t'. handle_memory_pressure list_queue 1 ''a'' pressed_decision
       (pressed_system OneForAll, accountant_new small_limits, resource_table_default, pressed_table)
       = (Err e, (pressed_system OneForAll, mem', resources', t'))
     \<and> (\<exists>p. pt_get t' 1 = Some p \<and> is_exited (proc_state p))"
proof -
  have ok: "system_ok pressed_table (pressed_system OneForAll)"
    by (rule pressed_system_ok) (simp_all add: known_def pressed_table_facts)
  have alive: "\<forall>pid\<in>set [1]. is_alive pressed_table pid" "\<not> is_alive pressed_table 2"
    by (simp_all add: is_alive_get pressed_table_facts sample_live proc_exit_def)
  have pids: "memory_pressure_cleanup_pids (pressed_supervisor OneForAll) ''a'' (MemoryLimitExceeded (pressure_requested_bytes pressed_decision)
      (pressure_previous_bytes pressed_decision) (pressure_projected_bytes pressed_decision)) = Ok ([1] @ 2 # [])"
    using pressed_pids [of OneForAll] by simp
  from stopped_sibling_blocks_recovery [OF pressed_balanced ok pressed_facts refl pids alive]
  show ?thesis by fastforce
qed

end
