(* ===== verification/Memory_Transfer.thy ===== *)
theory Memory_Transfer
  imports Memory_Properties
begin

text \<open>
  The accounts and the resources of a process move between accountants and tables: what is taken
  out, what arrives at another accountant or table, and that putting it back where it came from
  restores everything.
\<close>

section \<open>Taking entries out and putting them back\<close>

lemma take_entries_law:
  "distinct ks \<Longrightarrow> (\<And>k. k \<in> set ks \<Longrightarrow> bt_get m k \<noteq> None)
    \<Longrightarrow> take_entries missing ks m
      = ((Ok (map (\<lambda>k. the (bt_get m k)) ks) :: (vm_error, _) outcome), bt_remove_all ks m)"
proof (induction ks arbitrary: m)
  case (Cons k ks)
  then obtain v where v: "bt_get m k = Some v" by fastforce
  have "take_entries missing ks (bt_remove k m) = ((Ok (map (\<lambda>k'. the (bt_get (bt_remove k m) k')) ks)
      :: (vm_error, _) outcome), bt_remove_all ks (bt_remove k m))"
    by (rule Cons.IH) (use Cons.prems in auto)
  moreover have "map (\<lambda>k'. the (bt_get (bt_remove k m) k')) ks = map (\<lambda>k. the (bt_get m k)) ks"
    using Cons.prems(1) by auto
  ultimately show ?case using v by (simp add: bind_st_def return_st_def)
qed (simp add: return_st_def)

lemma get_fold_insert:
  assumes "\<And>k. k \<in> set ks \<Longrightarrow> key (f k) = k"
  shows "bt_get (fold (\<lambda>r. bt_insert (key r) r) (map f ks) m) k = (if k \<in> set ks then Some (f k) else bt_get m k)"
  using assms by (induction ks arbitrary: m) auto

lemma ok_fold_insert: "bt_ok m \<Longrightarrow> bt_ok (fold (\<lambda>r. bt_insert (key r) r) vs m)"
  by (induction vs arbitrary: m) simp_all

lemma put_back:
  assumes "bt_ok m" "\<And>k. k \<in> set ks \<Longrightarrow> \<exists>v. bt_get m k = Some v \<and> key v = k"
  shows "fold (\<lambda>r. bt_insert (key r) r) (map (\<lambda>k. the (bt_get m k)) ks) (bt_remove_all ks m) = m"
proof (rule bt_ext)
  show "bt_ok (fold (\<lambda>r. bt_insert (key r) r) (map (\<lambda>k. the (bt_get m k)) ks) (bt_remove_all ks m))"
    using assms(1) by (simp add: ok_fold_insert)
  have "key (the (bt_get m k)) = k" if "k \<in> set ks" for k using assms(2) [OF that] by auto
  then show "bt_get (fold (\<lambda>r. bt_insert (key r) r) (map (\<lambda>k. the (bt_get m k)) ks) (bt_remove_all ks m)) k = bt_get m k" for k
    using assms(2) [of k] by (auto simp: get_fold_insert bt_get_remove_all)
qed (rule assms(1))

lemma keys_gone: "bt_ok m \<Longrightarrow> keys_where P (bt_remove_all (keys_where P m) m) = []"
proof -
  assume ok: "bt_ok m"
  have "k \<notin> set (keys_where P (bt_remove_all (keys_where P m) m))" for k
    using ok by (auto simp: set_keys_where bt_get_remove_all split: if_splits)
  then have "keys_where P (bt_remove_all (keys_where P m) m) = []" by (metis list.set_intros(1) neq_Nil_conv)
  then show ?thesis .
qed

lemma take_records_law:
  "take_records ids resources = (case take_entries ''inventoried owner resource remains present'' ids (rt_resources resources) of
     (r, m) \<Rightarrow> (r, resources\<lparr> rt_resources := m \<rparr>))"
proof (induction ids arbitrary: resources)
  case (Cons i ids)
  show ?case
    by (cases "bt_get (rt_resources resources) i")
      (auto simp: Cons.IH bind_st_def return_st_def split: prod.splits outcome.splits)
qed (simp add: return_st_def)

lemma first_known_None: "first_known m ks = None \<longleftrightarrow> (\<forall>k\<in>set ks. bt_get m k = None)"
  by (induction ks) (auto simp: bt_contains_def)

lemma import_records_Ok:
  "validate_import_records resources owner records = Ok ()
     \<longleftrightarrow> (\<forall>record\<in>set records. res_owner record = owner \<and> bt_get (rt_resources resources) (res_id record) = None)"
  by (induction records) (auto simp: bt_contains_def)

section \<open>Resources\<close>

lemma resource_roundtrip:
  assumes ok: "bt_ok (rt_resources resources)"
      "\<And>i row. bt_get (rt_resources resources) i = Some row \<Longrightarrow> res_id row = i" and owner: "owner \<noteq> 0"
  shows "\<exists>transfer resources1. detach_owner_resources owner resources = (Ok transfer, resources1)
     \<and> rtransfer_ids transfer = owned_resource_ids resources owner \<and> owned_resource_ids resources1 owner = []
     \<and> import_resource_transfer transfer resources1 = (Ok (), resources)"
proof -
  let ?ids = "owned_resource_ids resources owner" and ?m = "rt_resources resources"
  have ids_def: "?ids = keys_where (\<lambda>row. res_owner row = owner) ?m"
    by (simp add: owned_resource_ids_def keys_where_def)
  have ids: "i \<in> set ?ids \<longleftrightarrow> (\<exists>row. bt_get ?m i = Some row \<and> res_owner row = owner)" for i
    by (simp add: ids_def set_keys_where [OF ok(1)])
  have d: "distinct ?ids" by (simp add: ids_def distinct_keys_where [OF ok(1)])
  let ?records = "map (\<lambda>k. the (bt_get ?m k)) ?ids" and ?r1 = "resources\<lparr> rt_resources := bt_remove_all ?ids ?m \<rparr>"
  have "take_entries ''inventoried owner resource remains present'' ?ids ?m
      = ((Ok ?records :: (vm_error, _) outcome), bt_remove_all ?ids ?m)"
    by (rule take_entries_law [OF d]) (use ids in fastforce)
  then have take: "take_records ?ids resources = (Ok ?records, ?r1)" by (simp add: take_records_law)
  let ?transfer = "\<lparr> rtransfer_owner = owner, rtransfer_records = ?records, rtransfer_identity_watermark = rt_next_id resources \<rparr>"
  have detach: "detach_owner_resources owner resources = (Ok ?transfer, ?r1)"
    using take by (simp add: detach_owner_resources_def bind_st_def read_st_def)
  have names: "map res_id ?records = ?ids"
    unfolding map_map by (rule map_idI) (use ids ok(2) in fastforce)
  have "owned_resource_ids ?r1 owner = keys_where (\<lambda>row. res_owner row = owner) (bt_remove_all ?ids ?m)"
    by (simp add: owned_resource_ids_def keys_where_def)
  then have gone: "owned_resource_ids ?r1 owner = []" using keys_gone [OF ok(1)] by (simp only: ids_def)
  have "validate_import_records ?r1 owner ?records = Ok ()"
    unfolding import_records_Ok using ids ok(2) by (fastforce simp: bt_get_remove_all)
  moreover have "fold (\<lambda>record. bt_insert (res_id record) record) ?records (bt_remove_all ?ids ?m) = ?m"
    by (rule put_back [OF ok(1)]) (use ids ok(2) in blast)
  ultimately have "import_resource_transfer ?transfer ?r1 = (Ok (), resources)"
    using owner by (simp add: import_resource_transfer_def validate_resource_import_def)
  with detach names gone show ?thesis by (auto simp: rtransfer_ids_def)
qed

section \<open>Accounts\<close>

lemma detach_facts:
  assumes b: "books Q contents capacity c (mem, resources, t)"
    and v: "validate_memory_detach mem owner heap ids = Ok ()"
  shows "\<And>i. i \<in> set (memory_shared_ids mem owner) \<Longrightarrow> \<exists>a. bt_get (mem_shared_allocations mem) i = Some a \<and> shared_owners a = [owner] \<and> shared_id a = i"
    "\<And>i. i \<in> set (memory_resource_ids mem owner) \<Longrightarrow> \<exists>o'. bt_get (mem_resource_ownership mem) i = Some o' \<and> own_owner o' = owner \<and> own_resource_id o' = i"
    "distinct (memory_shared_ids mem owner)" "distinct (memory_resource_ids mem owner)" "current_bytes_of mem owner = heap"
proof -
  have ok: "bt_ok (mem_resource_ownership mem)" "bt_ok (mem_shared_allocations mem)"
    using booksD(5,6) [OF b] by (simp_all add: ownership_ok_def shared_ok_def)
  note eqs = exit_ids(2-4) [OF b, of owner]
  show "distinct (memory_shared_ids mem owner)" "distinct (memory_resource_ids mem owner)"
    using distinct_keys_where [OF ok(1)] distinct_keys_where [OF ok(2)]
    by (simp_all add: eqs(2) shared_ids_of_def) (simp add: eqs(1,3))
  show "current_bytes_of mem owner = heap" using v by (auto simp: validate_memory_detach_def split: if_splits)
  show "\<exists>a. bt_get (mem_shared_allocations mem) i = Some a \<and> shared_owners a = [owner] \<and> shared_id a = i"
    if i: "i \<in> set (memory_shared_ids mem owner)" for i
  proof -
    obtain a where a: "bt_get (mem_shared_allocations mem) i = Some a" "owner \<in> set (shared_owners a)"
      using i unfolding eqs(2) shared_ids_of_def by (auto simp: set_keys_where [OF ok(2)])
    then have "a \<in> set (bt_values (mem_shared_allocations mem))" using bt_values_iff [OF ok(2)] by blast
    then have "shared_owners a = [owner]"
      using v a(2) by (auto simp: validate_memory_detach_def list_ex_iff bs_contains_def split: if_splits)
    then show ?thesis using a(1) booksD(6) [OF b] by (simp add: shared_ok_def)
  qed
  show "\<exists>o'. bt_get (mem_resource_ownership mem) i = Some o' \<and> own_owner o' = owner \<and> own_resource_id o' = i"
    if i: "i \<in> set (memory_resource_ids mem owner)" for i
  proof -
    obtain o' where "bt_get (mem_resource_ownership mem) i = Some o'" "own_owner o' = owner"
      using i unfolding eqs(1,3) by (auto simp: set_keys_where [OF ok(1)])
    then show ?thesis using booksD(5) [OF b] by (simp add: ownership_ok_def)
  qed
qed

lemma bt_remove_then_insert: "bt_ok m \<Longrightarrow> bt_get m k = Some v \<Longrightarrow> bt_insert k v (bt_remove k m) = m"
  by (rule bt_ext) auto

lemma memory_roundtrip:
  assumes b: "books Q contents capacity c (mem, resources, t)"
    and v: "validate_memory_detach mem owner heap ids = Ok ()" and owner: "owner \<noteq> 0"
  shows "\<exists>transfer mem1 mem2. detach_owner_memory owner mem = (Ok transfer, mem1)
     \<and> current_bytes_of mem1 owner = 0 \<and> memory_resource_ids mem1 owner = [] \<and> memory_shared_ids mem1 owner = []
     \<and> (\<forall>decision\<in>set (mem_decisions mem1). pressure_pid decision \<noteq> owner)
     \<and> import_memory_transfer transfer heap mem1 = (Ok (), mem2)
     \<and> mem2\<lparr> mem_decisions := [] \<rparr> = mem\<lparr> mem_decisions := [] \<rparr>
     \<and> filter (\<lambda>decision. pressure_pid decision = q) (mem_decisions mem2)
       = filter (\<lambda>decision. pressure_pid decision = q) (mem_decisions mem)"
proof -
  let ?o = "mem_resource_ownership mem" and ?s = "mem_shared_allocations mem" and ?p = "mem_processes mem"
    and ?d = "mem_decisions mem"
  let ?rids = "memory_resource_ids mem owner" and ?sids = "memory_shared_ids mem owner"
  note facts = detach_facts [OF b v]
  have ok: "bt_ok ?o" "bt_ok ?s" "bt_ok ?p"
    using booksD(3,5,6) [OF b] by (simp_all add: ownership_ok_def shared_ok_def metrics_ok_def)
  let ?own = "map (\<lambda>k. the (bt_get ?o k)) ?rids" and ?shared = "map (\<lambda>k. the (bt_get ?s k)) ?sids"
  have take: "take_entries ''inventoried resource memory record remains present'' ?rids ?o
      = ((Ok ?own :: (vm_error, _) outcome), bt_remove_all ?rids ?o)"
    "take_entries ''validated actor-local allocation remains present'' ?sids ?s
      = ((Ok ?shared :: (vm_error, _) outcome), bt_remove_all ?sids ?s)"
    by (rule take_entries_law; use facts in fastforce)+
  define mem1 where "mem1 = mem\<lparr> mem_processes := bt_remove owner ?p,
      mem_decisions := filter (\<lambda>decision. pressure_pid decision \<noteq> owner) ?d,
      mem_resource_ownership := bt_remove_all ?rids ?o, mem_shared_allocations := bt_remove_all ?sids ?s \<rparr>"
  define transfer where "transfer = \<lparr> mtransfer_owner = owner, mtransfer_limits = mem_limits mem,
      mtransfer_metrics = bt_get ?p owner, mtransfer_decisions = filter (\<lambda>decision. pressure_pid decision = owner) ?d,
      mtransfer_resource_ownership = ?own, mtransfer_shared_allocations = ?shared,
      mtransfer_shared_identity_watermark = mem_next_shared_allocation_id mem \<rparr>"
  have same: "memory_resource_ids (mem\<lparr> mem_processes := bt_remove owner ?p, mem_decisions := ds \<rparr>) owner = ?rids"
    "memory_shared_ids (mem\<lparr> mem_processes := bt_remove owner ?p, mem_decisions := ds, mem_resource_ownership := os \<rparr>) owner = ?sids" for ds os
    by (simp_all add: memory_resource_ids_def memory_shared_ids_def)
  have detach: "detach_owner_memory owner mem = (Ok transfer, mem1)"
    using take by (simp add: detach_owner_memory_def Let_def same mem1_def transfer_def)
  have own: "own_resource_id (the (bt_get ?o k)) = k" "own_owner (the (bt_get ?o k)) = owner" if "k \<in> set ?rids" for k
    using facts(2) [OF that] by auto
  have sh: "shared_id (the (bt_get ?s k)) = k" "shared_owners (the (bt_get ?s k)) = [owner]" if "k \<in> set ?sids" for k
    using facts(1) [OF that] by auto
  have restored: "fold (\<lambda>record. bt_insert (own_resource_id record) record) ?own (bt_remove_all ?rids ?o) = ?o"
    "fold (\<lambda>record. bt_insert (shared_id record) record) ?shared (bt_remove_all ?sids ?s) = ?s"
    by (rule put_back [OF ok(1)], use facts(2) in blast) (rule put_back [OF ok(2)], use facts(1) in blast)
  have metrics: "(case bt_get ?p owner of Some m \<Rightarrow> bt_insert owner m (bt_remove owner ?p) | None \<Rightarrow> bt_remove owner ?p) = ?p"
    using bt_remove_then_insert [OF ok(3)] by (auto simp: bt_remove_absent split: option.split)
  have pid: "mm_pid m = owner" if "bt_get ?p owner = Some m" for m
    using booksD(3) [OF b] that by (simp add: metrics_ok_def)
  have current: "transfer_current_bytes transfer = heap"
    using facts(5) by (simp add: transfer_current_bytes_def transfer_def current_bytes_of_def)
  have valid: "validate_memory_import mem1 transfer heap = Ok ()"
    using owner current pid own sh
    by (auto simp: validate_memory_import_def Let_def transfer_def mem1_def bt_contains_def list_ex_iff
        transfer_resource_ids_def first_known_None [THEN iffD2] bt_get_remove_all split: option.splits)
  let ?mem2 = "mem\<lparr> mem_decisions := filter (\<lambda>decision. pressure_pid decision \<noteq> owner) ?d
      @ filter (\<lambda>decision. pressure_pid decision = owner) ?d \<rparr>"
  have returned: "import_memory_transfer transfer heap mem1 = (Ok (), ?mem2)"
    unfolding import_memory_transfer_def valid using restored metrics
    by (simp add: transfer_def mem1_def cong: option.case_cong)
  have none: "current_bytes_of mem1 owner = 0" by (simp add: current_bytes_of_def mem1_def)
  have "memory_resource_ids mem1 owner = keys_where (\<lambda>o'. own_owner o' = owner) (mem_resource_ownership mem1)"
    unfolding memory_resource_ids_def
    by (rule map_key_where) (use ok booksD(5) [OF b] in \<open>auto simp: mem1_def bt_get_remove_all ownership_ok_def split: if_splits\<close>)
  then have no_resource: "memory_resource_ids mem1 owner = []"
    using keys_gone [OF ok(1)] exit_ids(2,4) [OF b, of owner] by (simp add: mem1_def)
  have "memory_shared_ids mem1 owner = keys_where (\<lambda>a. owner \<in> set (shared_owners a)) (mem_shared_allocations mem1)"
    unfolding memory_shared_ids_def bs_contains_def
    by (rule map_key_where) (use ok booksD(6) [OF b] in \<open>auto simp: mem1_def bt_get_remove_all shared_ok_def split: if_splits\<close>)
  then have no_shared: "memory_shared_ids mem1 owner = []"
    using keys_gone [OF ok(2)] exit_ids(3) [OF b, of owner] by (simp add: mem1_def shared_ids_of_def)
  have decisions: "filter (\<lambda>decision. pressure_pid decision = q) (mem_decisions ?mem2)
      = filter (\<lambda>decision. pressure_pid decision = q) ?d"
  proof (cases "q = owner")
    case True
    then show ?thesis by (simp add: conj_commute)
  next
    case False
    then show ?thesis by (simp add: conj_commute) (metis (mono_tags, lifting) filter_cong filter_False)
  qed
  have "\<forall>decision\<in>set (mem_decisions mem1). pressure_pid decision \<noteq> owner" by (simp add: mem1_def)
  then show ?thesis
    using detach none no_resource no_shared returned decisions
    by (intro exI [of _ transfer] exI [of _ mem1] exI [of _ ?mem2]) simp
qed

section \<open>Arrival elsewhere\<close>

definition owns_account :: "VmMemoryAccountant \<Rightarrow> VmProcessId \<Rightarrow> u64 \<Rightarrow> bool" where
  "owns_account mem owner i \<longleftrightarrow> (\<exists>o'. bt_get (mem_resource_ownership mem) i = Some o' \<and> own_owner o' = owner)"

definition owns_shared :: "VmMemoryAccountant \<Rightarrow> VmProcessId \<Rightarrow> u64 \<Rightarrow> bool" where
  "owns_shared mem owner i \<longleftrightarrow> (\<exists>a. bt_get (mem_shared_allocations mem) i = Some a \<and> owner \<in> set (shared_owners a))"

text \<open>What of one process leaves an accountant, and what stays.\<close>

definition moved_memory :: "VmMemoryAccountant \<Rightarrow> VmProcessId \<Rightarrow> VmMemoryTransfer" where
  "moved_memory mem owner = \<lparr> mtransfer_owner = owner, mtransfer_limits = mem_limits mem,
      mtransfer_metrics = bt_get (mem_processes mem) owner,
      mtransfer_decisions = filter (\<lambda>decision. pressure_pid decision = owner) (mem_decisions mem),
      mtransfer_resource_ownership = map (\<lambda>k. the (bt_get (mem_resource_ownership mem) k)) (memory_resource_ids mem owner),
      mtransfer_shared_allocations = map (\<lambda>k. the (bt_get (mem_shared_allocations mem) k)) (memory_shared_ids mem owner),
      mtransfer_shared_identity_watermark = mem_next_shared_allocation_id mem \<rparr>"

definition left_memory :: "VmMemoryAccountant \<Rightarrow> VmProcessId \<Rightarrow> VmMemoryAccountant" where
  "left_memory mem owner = mem\<lparr> mem_processes := bt_remove owner (mem_processes mem),
      mem_decisions := filter (\<lambda>decision. pressure_pid decision \<noteq> owner) (mem_decisions mem),
      mem_resource_ownership := bt_remove_all (memory_resource_ids mem owner) (mem_resource_ownership mem),
      mem_shared_allocations := bt_remove_all (memory_shared_ids mem owner) (mem_shared_allocations mem) \<rparr>"

lemma memory_ids:
  assumes b: "books Q contents capacity c (mem, resources, t)"
  shows "i \<in> set (memory_resource_ids mem owner) \<longleftrightarrow> owns_account mem owner i"
    "i \<in> set (memory_shared_ids mem owner) \<longleftrightarrow> owns_shared mem owner i"
proof -
  have "bt_ok (mem_resource_ownership mem)" "bt_ok (mem_shared_allocations mem)"
    using booksD(5,6) [OF b] by (simp_all add: ownership_ok_def shared_ok_def)
  then show "i \<in> set (memory_resource_ids mem owner) \<longleftrightarrow> owns_account mem owner i"
    "i \<in> set (memory_shared_ids mem owner) \<longleftrightarrow> owns_shared mem owner i"
    using exit_ids(2-4) [OF b, of owner]
    by (simp_all add: shared_ids_of_def set_keys_where owns_account_def owns_shared_def)
qed

lemma memory_detach:
  assumes b: "books Q contents capacity c (mem, resources, t)"
    and v: "validate_memory_detach mem owner heap ids = Ok ()"
  shows "detach_owner_memory owner mem = (Ok (moved_memory mem owner), left_memory mem owner)"
proof -
  note facts = detach_facts [OF b v]
  let ?o = "mem_resource_ownership mem" and ?s = "mem_shared_allocations mem"
  let ?rids = "memory_resource_ids mem owner" and ?sids = "memory_shared_ids mem owner"
  have take: "take_entries ''inventoried resource memory record remains present'' ?rids ?o
      = ((Ok (map (\<lambda>k. the (bt_get ?o k)) ?rids) :: (vm_error, _) outcome), bt_remove_all ?rids ?o)"
    "take_entries ''validated actor-local allocation remains present'' ?sids ?s
      = ((Ok (map (\<lambda>k. the (bt_get ?s k)) ?sids) :: (vm_error, _) outcome), bt_remove_all ?sids ?s)"
    by (rule take_entries_law; use facts in fastforce)+
  have same: "memory_resource_ids (mem\<lparr> mem_processes := ps, mem_decisions := ds \<rparr>) owner = ?rids"
    "memory_shared_ids (mem\<lparr> mem_processes := ps, mem_decisions := ds, mem_resource_ownership := os \<rparr>) owner = ?sids"
    for ps ds os
    by (simp_all add: memory_resource_ids_def memory_shared_ids_def)
  show ?thesis
    using take by (simp add: detach_owner_memory_def Let_def same moved_memory_def left_memory_def)
qed

text \<open>The rows of what moves name their keys, so that folding them in adds exactly those keys.\<close>

lemma get_arrived:
  assumes "\<And>k. k \<in> set ks \<Longrightarrow> \<exists>v. bt_get m k = Some v \<and> key v = k"
  shows "bt_get (fold (\<lambda>r. bt_insert (key r) r) (map (\<lambda>k. the (bt_get m k)) ks) d) k
    = (if k \<in> set ks then bt_get m k else bt_get d k)"
proof -
  have "key (the (bt_get m k)) = k" if "k \<in> set ks" for k using assms [OF that] by auto
  then show ?thesis using assms [of k] by (auto simp: get_fold_insert)
qed

lemma memory_arrives:
  assumes b: "books Q contents capacity c (mem, resources, t)"
    and v: "validate_memory_detach mem owner heap ids = Ok ()" and owner: "owner \<noteq> 0"
  shows "case import_memory_transfer (moved_memory mem owner) heap dest of (r, dest') \<Rightarrow>
     if mem_limits dest = mem_limits mem \<and> bt_get (mem_processes dest) owner = None
       \<and> (\<forall>i. owns_account mem owner i \<longrightarrow> bt_get (mem_resource_ownership dest) i = None)
       \<and> (\<forall>i. owns_shared mem owner i \<longrightarrow> bt_get (mem_shared_allocations dest) i = None)
     then r = Ok () \<and> mem_limits dest' = mem_limits dest
       \<and> bt_get (mem_processes dest') = (bt_get (mem_processes dest))(owner := bt_get (mem_processes mem) owner)
       \<and> mem_decisions dest' = mem_decisions dest @ filter (\<lambda>decision. pressure_pid decision = owner) (mem_decisions mem)
       \<and> bt_get (mem_resource_ownership dest') = (\<lambda>i. if owns_account mem owner i
           then bt_get (mem_resource_ownership mem) i else bt_get (mem_resource_ownership dest) i)
       \<and> bt_get (mem_shared_allocations dest') = (\<lambda>i. if owns_shared mem owner i
           then bt_get (mem_shared_allocations mem) i else bt_get (mem_shared_allocations dest) i)
       \<and> mem_next_shared_allocation_id dest'
           = max (mem_next_shared_allocation_id dest) (mem_next_shared_allocation_id mem)
     else is_Ok r = False \<and> dest' = dest"
proof -
  note facts = detach_facts [OF b v] and ids = memory_ids [OF b, of _ owner]
  have pid: "mm_pid m = owner" if "bt_get (mem_processes mem) owner = Some m" for m
    using booksD(3) [OF b] that by (simp add: metrics_ok_def)
  have current: "transfer_current_bytes (moved_memory mem owner) = heap"
    using facts(5) by (simp add: transfer_current_bytes_def moved_memory_def current_bytes_of_def)
  have own: "own_resource_id (the (bt_get (mem_resource_ownership mem) k)) = k"
      "own_owner (the (bt_get (mem_resource_ownership mem) k)) = owner"
    if "k \<in> set (memory_resource_ids mem owner)" for k using facts(2) [OF that] by auto
  have sh: "shared_id (the (bt_get (mem_shared_allocations mem) k)) = k"
      "shared_owners (the (bt_get (mem_shared_allocations mem) k)) = [owner]"
    if "k \<in> set (memory_shared_ids mem owner)" for k using facts(1) [OF that] by auto
  have names: "transfer_resource_ids (moved_memory mem owner) = memory_resource_ids mem owner"
    "map shared_id (mtransfer_shared_allocations (moved_memory mem owner)) = memory_shared_ids mem owner"
    unfolding transfer_resource_ids_def moved_memory_def VmMemoryTransfer.simps map_map
    by (rule map_idI, simp add: own) (rule map_idI, simp add: sh)
  let ?fine = "mem_limits dest = mem_limits mem \<and> bt_get (mem_processes dest) owner = None
       \<and> (\<forall>i. owns_account mem owner i \<longrightarrow> bt_get (mem_resource_ownership dest) i = None)
       \<and> (\<forall>i. owns_shared mem owner i \<longrightarrow> bt_get (mem_shared_allocations dest) i = None)"
  have known: "first_known (mem_resource_ownership dest) (memory_resource_ids mem owner) = None
        \<longleftrightarrow> (\<forall>i. owns_account mem owner i \<longrightarrow> bt_get (mem_resource_ownership dest) i = None)"
    "first_known (mem_shared_allocations dest) (memory_shared_ids mem owner) = None
        \<longleftrightarrow> (\<forall>i. owns_shared mem owner i \<longrightarrow> bt_get (mem_shared_allocations dest) i = None)"
    by (simp_all add: first_known_None Ball_def ids)
  have alone: "\<not> ((case mtransfer_metrics (moved_memory mem owner) of Some metrics \<Rightarrow> mm_pid metrics \<noteq> owner | None \<Rightarrow> False)
        \<or> list_ex (\<lambda>decision. pressure_pid decision \<noteq> owner) (mtransfer_decisions (moved_memory mem owner))
        \<or> list_ex (\<lambda>ownership. own_owner ownership \<noteq> owner) (mtransfer_resource_ownership (moved_memory mem owner))
        \<or> list_ex (\<lambda>allocation. shared_owners allocation \<noteq> [owner]) (mtransfer_shared_allocations (moved_memory mem owner)))"
    using pid own sh by (auto simp: moved_memory_def list_ex_iff split: option.split)
  have fields: "mtransfer_owner (moved_memory mem owner) = owner" "mtransfer_limits (moved_memory mem owner) = mem_limits mem"
    by (simp_all add: moved_memory_def)
  have valid: "validate_memory_import dest (moved_memory mem owner) heap = Ok () \<longleftrightarrow> ?fine"
    "is_Ok (validate_memory_import dest (moved_memory mem owner) heap) \<longleftrightarrow> ?fine"
    "validate_memory_import dest (moved_memory mem owner) heap \<noteq> Panic x" for x
    unfolding validate_memory_import_def Let_def fields current names if_not_P [OF alone] known [symmetric]
    using owner by (auto simp: bt_contains_def split: option.splits)
  show ?thesis
  proof (cases ?fine)
    case True
    have ok: "validate_memory_import dest (moved_memory mem owner) heap = Ok ()" using True valid(1) by simp
    have rows: "\<exists>o'. bt_get (mem_resource_ownership mem) k = Some o' \<and> own_resource_id o' = k"
      if "k \<in> set (memory_resource_ids mem owner)" for k using facts(2) [OF that] by blast
    have shares: "\<exists>a. bt_get (mem_shared_allocations mem) k = Some a \<and> shared_id a = k"
      if "k \<in> set (memory_shared_ids mem owner)" for k using facts(1) [OF that] by blast
    have metrics: "bt_get (case bt_get (mem_processes mem) owner of
          Some metrics \<Rightarrow> bt_insert owner metrics (mem_processes dest) | None \<Rightarrow> mem_processes dest)
        = (bt_get (mem_processes dest))(owner := bt_get (mem_processes mem) owner)"
      using True by (auto simp: fun_eq_iff split: option.split)
    let ?dest = "dest\<lparr> mem_next_shared_allocation_id
            := max (mem_next_shared_allocation_id dest) (mem_next_shared_allocation_id mem),
          mem_processes := (case bt_get (mem_processes mem) owner of
             Some metrics \<Rightarrow> bt_insert owner metrics (mem_processes dest) | None \<Rightarrow> mem_processes dest),
          mem_decisions := mem_decisions dest @ filter (\<lambda>decision. pressure_pid decision = owner) (mem_decisions mem),
          mem_resource_ownership := fold (\<lambda>record. bt_insert (own_resource_id record) record)
            (map (\<lambda>k. the (bt_get (mem_resource_ownership mem) k)) (memory_resource_ids mem owner)) (mem_resource_ownership dest),
          mem_shared_allocations := fold (\<lambda>record. bt_insert (shared_id record) record)
            (map (\<lambda>k. the (bt_get (mem_shared_allocations mem) k)) (memory_shared_ids mem owner)) (mem_shared_allocations dest) \<rparr>"
    have arrived: "import_memory_transfer (moved_memory mem owner) heap dest = (Ok (), ?dest)"
      by (simp add: import_memory_transfer_def ok) (simp add: moved_memory_def cong: option.case_cong)
    have "bt_get (mem_resource_ownership ?dest) = (\<lambda>i. if owns_account mem owner i
         then bt_get (mem_resource_ownership mem) i else bt_get (mem_resource_ownership dest) i)"
      "bt_get (mem_shared_allocations ?dest) = (\<lambda>i. if owns_shared mem owner i
         then bt_get (mem_shared_allocations mem) i else bt_get (mem_shared_allocations dest) i)"
      using get_arrived [OF rows, of "memory_resource_ids mem owner" "mem_resource_ownership dest"]
        get_arrived [OF shares, of "memory_shared_ids mem owner" "mem_shared_allocations dest"]
      by (simp_all add: ids fun_eq_iff)
    then show ?thesis using True metrics unfolding arrived prod.case if_P [OF True] by simp
  next
    case False
    then obtain e where "validate_memory_import dest (moved_memory mem owner) heap = Err e"
      using valid by (cases "validate_memory_import dest (moved_memory mem owner) heap") auto
    then show ?thesis unfolding if_not_P [OF False] by (simp add: import_memory_transfer_def)
  qed
qed
definition moved_resources :: "VmResourceTable \<Rightarrow> VmProcessId \<Rightarrow> VmResourceTransfer" where
  "moved_resources resources owner = \<lparr> rtransfer_owner = owner,
     rtransfer_records = map (\<lambda>k. the (bt_get (rt_resources resources) k)) (owned_resource_ids resources owner),
     rtransfer_identity_watermark = rt_next_id resources \<rparr>"

lemma resource_ids:
  "bt_ok (rt_resources resources) \<Longrightarrow> i \<in> set (owned_resource_ids resources owner) \<longleftrightarrow> owns_resource resources owner i"
  using set_keys_where [of "rt_resources resources" i "\<lambda>row. res_owner row = owner"]
  by (simp add: owned_resource_ids_def keys_where_def owns_resource_def)

lemma resources_detach:
  assumes ok: "bt_ok (rt_resources resources)"
  shows "detach_owner_resources owner resources = (Ok (moved_resources resources owner),
     resources\<lparr> rt_resources := bt_remove_all (owned_resource_ids resources owner) (rt_resources resources) \<rparr>)"
proof -
  let ?ids = "owned_resource_ids resources owner" and ?m = "rt_resources resources"
  have "distinct ?ids" using distinct_keys_where [OF ok] by (simp add: owned_resource_ids_def keys_where_def)
  then have "take_entries ''inventoried owner resource remains present'' ?ids ?m
      = ((Ok (map (\<lambda>k. the (bt_get ?m k)) ?ids) :: (vm_error, _) outcome), bt_remove_all ?ids ?m)"
    by (rule take_entries_law) (auto simp: resource_ids [OF ok] owns_resource_def)
  then show ?thesis
    by (simp add: detach_owner_resources_def bind_st_def read_st_def take_records_law moved_resources_def)
qed

lemma resources_arrive:
  assumes ok: "bt_ok (rt_resources resources)"
      "\<And>i row. bt_get (rt_resources resources) i = Some row \<Longrightarrow> res_id row = i" and owner: "owner \<noteq> 0"
  shows "case import_resource_transfer (moved_resources resources owner) dest of (r, dest') \<Rightarrow>
     if \<forall>i. owns_resource resources owner i \<longrightarrow> bt_get (rt_resources dest) i = None
     then r = Ok ()
       \<and> bt_get (rt_resources dest') = (\<lambda>i. if owns_resource resources owner i
           then bt_get (rt_resources resources) i else bt_get (rt_resources dest) i)
       \<and> rt_next_id dest' = max (rt_next_id dest) (rt_next_id resources)
     else is_Ok r = False \<and> dest' = dest"
proof -
  have rows: "\<exists>row. bt_get (rt_resources resources) k = Some row \<and> res_id row = k"
    if "k \<in> set (owned_resource_ids resources owner)" for k
    using that ok(2) by (auto simp: resource_ids [OF ok(1)] owns_resource_def)
  have fields: "res_owner (the (bt_get (rt_resources resources) k)) = owner" "res_id (the (bt_get (rt_resources resources) k)) = k"
    if "owns_resource resources owner k" for k
    using that ok(2) by (auto simp: owns_resource_def)
  have valid: "validate_resource_import dest (moved_resources resources owner) = Ok ()
      \<longleftrightarrow> (\<forall>i. owns_resource resources owner i \<longrightarrow> bt_get (rt_resources dest) i = None)"
    using owner fields by (auto simp: validate_resource_import_def moved_resources_def import_records_Ok resource_ids [OF ok(1)])
  have no_panic: "validate_import_records dest o' records \<noteq> Panic x" for o' records x
    by (induction records) auto
  have total: "validate_resource_import dest (moved_resources resources owner) \<noteq> Panic x" for x
    by (simp add: validate_resource_import_def no_panic)
  show ?thesis
  proof (cases "\<forall>i. owns_resource resources owner i \<longrightarrow> bt_get (rt_resources dest) i = None")
    case True
    then have "validate_resource_import dest (moved_resources resources owner) = Ok ()" using valid by simp
    then show ?thesis
      using True get_arrived [OF rows, of "owned_resource_ids resources owner" "rt_resources dest"]
      by (simp add: import_resource_transfer_def) (simp add: moved_resources_def fun_eq_iff resource_ids [OF ok(1)])
  next
    case False
    then obtain e where "validate_resource_import dest (moved_resources resources owner) = Err e"
      using valid total by (cases "validate_resource_import dest (moved_resources resources owner)") auto
    then show ?thesis unfolding if_not_P [OF False] by (simp add: import_resource_transfer_def)
  qed
qed

section \<open>There and back\<close>

text \<open>C32: What a process owns can be moved to any other accountant and table, and back, without
  loss. In balanced books, when the detach of a process is valid, its metrics, its pressure
  decisions, its ownership records, its shared allocations and its native resources leave the
  source, and nothing else does. Another accountant and another table take them exactly when the
  limits agree and none of the process and of the identities that move is known there; then each
  row arrives as it was, nothing else changes there, and the watermark of the identities becomes
  the larger of the two, so that no identity that arrived is given out again; otherwise they are
  refused and the destination stays as it was. Imported into where they came from they restore
  the accountant and the table, except that the decisions of the process stand after those of
  the others.\<close>

theorem transfer_moves_ownership:
  assumes "balanced Q contents capacity (mem, resources, t)"
    and "validate_memory_detach mem owner (heap_of t owner) (owned_resource_ids resources owner) = Ok ()"
    and "owner \<noteq> 0"
  shows "\<exists>transfer mem1 rows resources1.
     detach_owner_memory owner mem = (Ok transfer, mem1)
   \<and> detach_owner_resources owner resources = (Ok rows, resources1)
   \<and> bt_get (mem_processes mem1) = (bt_get (mem_processes mem))(owner := None)
   \<and> mem_decisions mem1 = filter (\<lambda>decision. pressure_pid decision \<noteq> owner) (mem_decisions mem)
   \<and> bt_get (mem_resource_ownership mem1)
       = (\<lambda>i. if owns_account mem owner i then None else bt_get (mem_resource_ownership mem) i)
   \<and> bt_get (mem_shared_allocations mem1)
       = (\<lambda>i. if owns_shared mem owner i then None else bt_get (mem_shared_allocations mem) i)
   \<and> bt_get (rt_resources resources1)
       = (\<lambda>i. if owns_resource resources owner i then None else bt_get (rt_resources resources) i)
   \<and> (case import_memory_transfer transfer (heap_of t owner) dest of (r, dest') \<Rightarrow>
       if mem_limits dest = mem_limits mem \<and> bt_get (mem_processes dest) owner = None
         \<and> (\<forall>i. owns_account mem owner i \<longrightarrow> bt_get (mem_resource_ownership dest) i = None)
         \<and> (\<forall>i. owns_shared mem owner i \<longrightarrow> bt_get (mem_shared_allocations dest) i = None)
       then r = Ok () \<and> mem_limits dest' = mem_limits dest
         \<and> bt_get (mem_processes dest') = (bt_get (mem_processes dest))(owner := bt_get (mem_processes mem) owner)
         \<and> mem_decisions dest' = mem_decisions dest @ filter (\<lambda>decision. pressure_pid decision = owner) (mem_decisions mem)
         \<and> bt_get (mem_resource_ownership dest') = (\<lambda>i. if owns_account mem owner i
             then bt_get (mem_resource_ownership mem) i else bt_get (mem_resource_ownership dest) i)
         \<and> bt_get (mem_shared_allocations dest') = (\<lambda>i. if owns_shared mem owner i
             then bt_get (mem_shared_allocations mem) i else bt_get (mem_shared_allocations dest) i)
         \<and> mem_next_shared_allocation_id dest'
             = max (mem_next_shared_allocation_id dest) (mem_next_shared_allocation_id mem)
       else is_Ok r = False \<and> dest' = dest)
   \<and> (case import_resource_transfer rows table of (r, table') \<Rightarrow>
       if \<forall>i. owns_resource resources owner i \<longrightarrow> bt_get (rt_resources table) i = None
       then r = Ok ()
         \<and> bt_get (rt_resources table') = (\<lambda>i. if owns_resource resources owner i
             then bt_get (rt_resources resources) i else bt_get (rt_resources table) i)
         \<and> rt_next_id table' = max (rt_next_id table) (rt_next_id resources)
       else is_Ok r = False \<and> table' = table)
   \<and> import_resource_transfer rows resources1 = (Ok (), resources)
   \<and> (\<exists>mem2. import_memory_transfer transfer (heap_of t owner) mem1 = (Ok (), mem2)
     \<and> mem2\<lparr> mem_decisions := [] \<rparr> = mem\<lparr> mem_decisions := [] \<rparr>
     \<and> filter (\<lambda>decision. pressure_pid decision = q) (mem_decisions mem2)
       = filter (\<lambda>decision. pressure_pid decision = q) (mem_decisions mem))"
proof -
  obtain own where b: "books Q contents capacity own (mem, resources, t)" by (rule balancedE [OF assms(1)])
  have rt: "bt_ok (rt_resources resources)" "\<And>i row. bt_get (rt_resources resources) i = Some row \<Longrightarrow> res_id row = i"
    using booksD(4) [OF b] by (auto simp: resources_ok_def)
  let ?left = "left_memory mem owner"
    and ?rows = "resources\<lparr> rt_resources := bt_remove_all (owned_resource_ids resources owner) (rt_resources resources) \<rparr>"
  have left: "bt_get (mem_processes ?left) = (bt_get (mem_processes mem))(owner := None)"
    "mem_decisions ?left = filter (\<lambda>decision. pressure_pid decision \<noteq> owner) (mem_decisions mem)"
    "bt_get (mem_resource_ownership ?left)
       = (\<lambda>i. if owns_account mem owner i then None else bt_get (mem_resource_ownership mem) i)"
    "bt_get (mem_shared_allocations ?left)
       = (\<lambda>i. if owns_shared mem owner i then None else bt_get (mem_shared_allocations mem) i)"
    "bt_get (rt_resources ?rows)
       = (\<lambda>i. if owns_resource resources owner i then None else bt_get (rt_resources resources) i)"
    by (simp_all add: left_memory_def fun_eq_iff bt_get_remove_all memory_ids [OF b] resource_ids [OF rt(1)])
  note out = memory_detach [OF b assms(2)] resources_detach [OF rt(1), of owner]
  from memory_roundtrip [OF b assms(2,3), of q] out(1) obtain mem2 where
      mem2: "import_memory_transfer (moved_memory mem owner) (heap_of t owner) ?left = (Ok (), mem2)"
      "mem2\<lparr> mem_decisions := [] \<rparr> = mem\<lparr> mem_decisions := [] \<rparr>"
      "filter (\<lambda>decision. pressure_pid decision = q) (mem_decisions mem2)
       = filter (\<lambda>decision. pressure_pid decision = q) (mem_decisions mem)" by auto
  have returned: "import_resource_transfer (moved_resources resources owner) ?rows = (Ok (), resources)"
    using resource_roundtrip [OF rt assms(3)] out(2) by auto
  show ?thesis
    by (intro exI [of _ "moved_memory mem owner"] exI [of _ ?left] exI [of _ "moved_resources resources owner"]
        exI [of _ ?rows] exI [of _ mem2] conjI out left mem2 returned memory_arrives [OF b assms(2,3)]
        resources_arrive [OF rt assms(3)])
qed

text \<open>A process that owns a resource and a shared allocation, moved to a fresh accountant.\<close>

lemma detach_valid:
  assumes b: "balanced Q contents capacity (mem, resources, t)"
    and alone: "\<And>i a. bt_get (mem_shared_allocations mem) i = Some a \<Longrightarrow> owner \<in> set (shared_owners a) \<Longrightarrow> shared_owners a = [owner]"
  shows "validate_memory_detach mem owner (heap_of t owner) (owned_resource_ids resources owner) = Ok ()"
proof -
  obtain own where b: "books Q contents capacity own (mem, resources, t)" by (rule balancedE [OF b])
  have ok: "bt_ok (mem_shared_allocations mem)" using booksD(6) [OF b] by (simp add: shared_ok_def)
  have "set (owned_resource_ids resources owner) = set (memory_resource_ids mem owner)"
    using exit_ids(2) [OF b, of owner] by (simp add: resource_ids_of_def owned_resource_ids_def keys_where_def)
  then show ?thesis
    using booksD(7) [OF b] alone bt_values_iff [OF ok]
    by (auto simp: validate_memory_detach_def list_ex_iff bs_contains_def)
qed

lemma resource_owner_alive:
  "resources_ok resources t \<Longrightarrow> bt_get (rt_resources resources) i = Some row \<Longrightarrow> is_alive t (res_owner row)"
  by (simp add: resources_ok_def)

lemma sample_owning:
  obtains mem resources t where "balanced list_queue fst snd (mem, resources, t)" "mem_limits mem = small_limits"
    "bt_get (mem_shared_allocations mem) 1 = Some \<lparr> shared_id = 1, shared_kind = Binary, shared_logical_bytes = 32,
       shared_owners = [2] \<rparr>" "mem_next_shared_allocation_id mem = 1"
    "validate_memory_detach mem 2 (heap_of t 2) (owned_resource_ids resources 2) = Ok ()" "owns_resource resources 2 1"
proof -
  let ?p = "new_process 2 (Some 1) sample_source"
  have b0: "books list_queue fst snd (\<lambda>_. 0) (accountant_new small_limits, resource_table_default, sample_two)"
    by (rule fresh_books)
      (auto simp: sample_two_facts limits_ok_def small_limits_def new_process_def word_le_nat_alt word_less_nat_alt
        split: if_splits)
  have p: "pt_get sample_two 2 = Some ?p" "\<not> is_exited (proc_state ?p)" "proc_heap_bytes ?p = 0"
    using sample_live by (simp_all add: sample_two_facts new_process_def)
  obtain d mem1 t1 where d: "account_heap 2 48 (accountant_new small_limits, sample_two) = (Ok d, (mem1, t1))"
      "pressure_outcome d = (if unat (lim_hard_bytes (mem_limits (accountant_new small_limits))) < unat (proc_heap_bytes ?p) + unat (48 :: usize)
         then HardLimitRejected
         else if unat (lim_soft_bytes (mem_limits (accountant_new small_limits))) < unat (proc_heap_bytes ?p) + unat (48 :: usize)
         then SoftLimitExceeded else Accounted)"
      "pt_get t1 = (pt_get sample_two)(2 \<mapsto> ?p\<lparr> proc_heap_bytes :=
         (if pressure_outcome d = HardLimitRejected then proc_heap_bytes ?p else proc_heap_bytes ?p + 48) \<rparr>)"
      "books list_queue fst snd (if pressure_outcome d = HardLimitRejected then (\<lambda>_. 0)
         else (\<lambda>_. 0)(2 := 0 + unat (48 :: usize))) (mem1, resource_table_default, t1)"
    by (rule account_heap_live [OF b0 p(1,2), of 48])
  have ok: "pressure_outcome d \<noteq> HardLimitRejected"
    using d(2) p(3) by (simp add: accountant_new_def small_limits_def)
  have frame: "mem_shared_allocations mem1 = []" "mem_next_shared_allocation_id mem1 = 0" "mem_limits mem1 = small_limits"
    using account_frame [OF d(1)] by (simp_all add: accountant_new_def)
  have get1: "pt_get t1 2 = Some (?p\<lparr> proc_heap_bytes := 48 \<rparr>)" "\<not> is_exited (proc_state (?p\<lparr> proc_heap_bytes := 48 \<rparr>))"
    using d(3) ok p(2,3) by simp_all
  have b1: "books list_queue fst snd ((\<lambda>_. 0)(2 := 48)) (mem1, resource_table_default, t1)" using d(4) ok by simp
  have one: "saturating_add (rt_next_id resource_table_default) 1 = 1"
    by (simp add: resource_table_default_def saturating_add_def checked_add_def)
  obtain resources t2 where r: "rt_resources resources = bt_insert 1 \<lparr> res_id = 1, res_owner = 2,
        res_descriptor = \<lparr> descriptor_kind = ''socket'', descriptor_label = ''a'' \<rparr>,
        res_transfer_policy = Transferable, res_accelerator_handle = None \<rparr> (rt_resources resource_table_default)"
      "books list_queue fst snd (((\<lambda>_. 0)(2 := 48))(2 := ((\<lambda>_. 0)(2 := 48)) 2 - unat (16 :: usize)))
         (reassign (bt_insert 1 \<lparr> own_resource_id = 1, own_owner = 2, own_logical_bytes = 16 \<rparr>) (\<lambda>m. m) mem1, resources, t2)"
    by (rule resource_register_law [OF b1 get1, where n = 16 and policy = Transferable
          and descriptor = "\<lparr> descriptor_kind = ''socket'', descriptor_label = ''a'' \<rparr>", unfolded one])
      (simp_all add: resource_table_default_def)
  let ?mem2 = "reassign (bt_insert 1 \<lparr> own_resource_id = 1, own_owner = 2, own_logical_bytes = 16 \<rparr>) (\<lambda>m. m) mem1"
  let ?a = "\<lparr> shared_id = 1, shared_kind = Binary, shared_logical_bytes = 32, shared_owners = [2] \<rparr>"
  let ?mem3 = "(reassign (\<lambda>m. m) (bt_insert 1 ?a) ?mem2)\<lparr> mem_next_shared_allocation_id := 1 \<rparr>"
  have row: "bt_get (rt_resources resources) 1 = Some \<lparr> res_id = 1, res_owner = 2,
        res_descriptor = \<lparr> descriptor_kind = ''socket'', descriptor_label = ''a'' \<rparr>,
        res_transfer_policy = Transferable, res_accelerator_handle = None \<rparr>"
    by (simp add: r(1))
  have "is_alive t2 2" using resource_owner_alive [OF booksD(4) [OF r(2)] row] by simp
  then have sh: "shared_ok ?mem3 t2"
    using frame(1) by (simp add: shared_ok_def bs_ok_def bt_ok_def bt_get_Cons)
  have charge: "shared_charge ?mem3 q + (\<lambda>_. 0) q
      = shared_charge ?mem2 q + (((\<lambda>_. 0)(2 := 48))(2 := ((\<lambda>_. 0)(2 := 48)) 2 - unat (16 :: usize))) q" for q
    using frame(1) by (simp add: shared_charge_def bt_weight_def shared_weight_def)
  have b3: "balanced list_queue fst snd (?mem3, resources, t2)"
    by (rule balancedI [OF books_shared_change [OF r(2) refl sh charge]])
  show ?thesis
    by (rule that [OF b3 _ _ _ detach_valid [OF b3]])
      (use frame row in \<open>auto simp: owns_resource_def bt_get_Cons split: if_splits\<close>)
qed

theorem transfer_moves_ownership_witness:
  "\<exists>mem resources transfer mem1 (t :: (VmMessage VmPublishedFragment list \<times> nat) VmProcessTable).
     owns_resource resources 2 1 \<and> owns_shared mem 2 1
     \<and> detach_owner_memory 2 mem = (Ok transfer, mem1) \<and> bt_get (mem_shared_allocations mem1) 1 = None
     \<and> (case import_memory_transfer transfer (heap_of t 2) (accountant_new small_limits) of (r, dest') \<Rightarrow>
         r = Ok () \<and> bt_get (mem_shared_allocations dest') 1 = bt_get (mem_shared_allocations mem) 1
         \<and> mem_next_shared_allocation_id dest' = 1)"
proof -
  obtain mem resources and t :: "(VmMessage VmPublishedFragment list \<times> nat) VmProcessTable" where
      b: "balanced list_queue fst snd (mem, resources, t)" "mem_limits mem = small_limits"
      and sh: "bt_get (mem_shared_allocations mem) 1 = Some \<lparr> shared_id = 1, shared_kind = Binary,
         shared_logical_bytes = 32, shared_owners = [2] \<rparr>" "mem_next_shared_allocation_id mem = 1"
      and v: "validate_memory_detach mem 2 (heap_of t 2) (owned_resource_ids resources 2) = Ok ()"
      and row: "owns_resource resources 2 1"
    by (rule sample_owning)
  have s: "owns_shared mem 2 1" using sh(1) by (simp add: owns_shared_def)
  have "(2 :: VmProcessId) \<noteq> 0" by simp
  from transfer_moves_ownership [OF b(1) v this, where dest = "accountant_new small_limits"
      and table = resource_table_default and q = 2]
  obtain transfer mem1 where out: "detach_owner_memory 2 mem = (Ok transfer, mem1)"
      "bt_get (mem_shared_allocations mem1)
        = (\<lambda>i. if owns_shared mem 2 i then None else bt_get (mem_shared_allocations mem) i)"
      and arrived: "case import_memory_transfer transfer (heap_of t 2) (accountant_new small_limits) of (r, dest') \<Rightarrow>
         r = Ok () \<and> bt_get (mem_shared_allocations dest') = (\<lambda>i. if owns_shared mem 2 i
             then bt_get (mem_shared_allocations mem) i else bt_get (mem_shared_allocations (accountant_new small_limits)) i)
         \<and> mem_next_shared_allocation_id dest'
             = max (mem_next_shared_allocation_id (accountant_new small_limits)) (mem_next_shared_allocation_id mem)"
    by (elim exE conjE) (rule that, assumption, assumption,
      simp add: accountant_new_def b(2) case_prod_beta)
  have "case import_memory_transfer transfer (heap_of t 2) (accountant_new small_limits) of (r, dest') \<Rightarrow>
         r = Ok () \<and> bt_get (mem_shared_allocations dest') 1 = bt_get (mem_shared_allocations mem) 1
         \<and> mem_next_shared_allocation_id dest' = 1"
    using arrived s sh(2) by (auto simp: accountant_new_def split: prod.splits)
  moreover have "bt_get (mem_shared_allocations mem1) 1 = None" using out(2) s by simp
  ultimately show ?thesis
    by (intro exI [of _ mem] exI [of _ resources] exI [of _ transfer] exI [of _ mem1] exI [of _ t] conjI row s out(1))
qed

end
