(* ===== verification/Shard_Epoch.thy ===== *)
theory Shard_Epoch
  imports Ordered_Map
begin

text \<open>
  The generation fence of an execution shard and its ledger of operations
  (\<open>runtime/vm/execution_shard_epoch.rs\<close>). An operation has an identity that survives the crash of
  the shard; the ledger decides whether an attempt may execute, and the policy of the operation
  whether it may execute again after a crash. The second half shows what a run of the fence
  guarantees: the ledger never admits more executions than the policy allows.
\<close>

section \<open>Operations\<close>

type_synonym VmShardEpoch = u64
type_synonym VmShardOperationId = u64

datatype VmShardOperationKind =
    ActorRoute
  | MailboxPublication
  | ContinuationResume
  | ResourceNotification
  | CapabilityCompletion
  | TimerDelivery
  | HttpResponse
  | DatabaseWrite
  | ExternalEffect

datatype VmShardReplayPolicy = Replayable | Idempotent | AtMostOnce

record VmShardEpochOperation =
  eop_id :: VmShardOperationId
  eop_epoch :: VmShardEpoch
  eop_kind :: VmShardOperationKind
  eop_replay_policy :: VmShardReplayPolicy

definition epoch_operation_new :: "VmShardOperationId \<Rightarrow> VmShardEpoch \<Rightarrow> VmShardOperationKind
    \<Rightarrow> VmShardReplayPolicy \<Rightarrow> VmShardEpochOperation" where
  "epoch_operation_new op_id epoch kind replay_policy = \<lparr> eop_id = op_id, eop_epoch = epoch,
     eop_kind = kind, eop_replay_policy = replay_policy \<rparr>"

datatype VmShardOperationAdmission =
    ExecuteFirst
  | ExecuteReplay
  | ExecuteIdempotentReplay
  | DuplicateSuppressed
  | IndeterminateSuppressed

datatype VmShardOperationCommit = Committed | AlreadyCommitted

datatype VmShardEpochError =
    ZeroOperationId
  | StaleEpoch VmShardEpoch VmShardEpoch
  | NonAdvancingEpoch VmShardEpoch VmShardEpoch
  | OperationIdentityConflict VmShardOperationId
  | UnknownOperation VmShardOperationId
  | OperationNotPreparedForEpoch VmShardOperationId VmShardEpoch VmShardEpoch

definition shard_operation_id_new :: "u64 \<Rightarrow> (VmShardEpochError, VmShardOperationId) outcome" where
  "shard_operation_id_new number = (if number = 0 then Err ZeroOperationId else Ok number)"

datatype VmShardOperationState = Prepared VmShardEpoch | StateCommitted

record VmShardOperationRecord =
  ledger_kind :: VmShardOperationKind
  ledger_replay_policy :: VmShardReplayPolicy
  ledger_state :: VmShardOperationState

record VmShardEpochFence =
  fence_epoch :: VmShardEpoch
  fence_operations :: "(VmShardOperationId, VmShardOperationRecord) btree"

section \<open>The fence\<close>

definition fence_new :: "VmShardEpoch \<Rightarrow> VmShardEpochFence" where
  "fence_new epoch = \<lparr> fence_epoch = epoch, fence_operations = [] \<rparr>"

definition fence_advance :: "VmShardEpoch \<Rightarrow> (VmShardEpochFence, VmShardEpochError, unit) stateful" where
  "fence_advance proposed fence =
     (if proposed \<le> fence_epoch fence then (Err (NonAdvancingEpoch (fence_epoch fence) proposed), fence)
      else (Ok (), fence\<lparr> fence_epoch := proposed \<rparr>))"

definition fence_require_epoch :: "VmShardEpochFence \<Rightarrow> VmShardEpoch \<Rightarrow> (VmShardEpochError, unit) outcome" where
  "fence_require_epoch fence actual =
     (if actual \<noteq> fence_epoch fence then Err (StaleEpoch (fence_epoch fence) actual) else Ok ())"

definition put_operation :: "VmShardOperationId \<Rightarrow> VmShardOperationRecord \<Rightarrow> VmShardEpochFence
    \<Rightarrow> VmShardEpochFence" where
  "put_operation op_id row fence =
     fence\<lparr> fence_operations := bt_insert op_id row (fence_operations fence) \<rparr>"

text \<open>
  The two \<open>debug_assert!\<close> of the code say that the class and the policy are among those listed
  in \<open>ALL\<close>, which lists every constructor.
\<close>

definition fence_begin :: "VmShardEpochOperation
    \<Rightarrow> (VmShardEpochFence, VmShardEpochError, VmShardOperationAdmission) stateful" where
  "fence_begin operation =
     bind_st (read_st (\<lambda>fence. fence_require_epoch fence (eop_epoch operation))) (\<lambda>_ fence.
     case bt_get (fence_operations fence) (eop_id operation) of
       None \<Rightarrow> (Ok ExecuteFirst, put_operation (eop_id operation)
         \<lparr> ledger_kind = eop_kind operation, ledger_replay_policy = eop_replay_policy operation,
           ledger_state = Prepared (eop_epoch operation) \<rparr> fence)
     | Some existing \<Rightarrow>
         if ledger_kind existing \<noteq> eop_kind operation
             \<or> ledger_replay_policy existing \<noteq> eop_replay_policy operation
         then (Err (OperationIdentityConflict (eop_id operation)), fence)
         else (case ledger_state existing of
           StateCommitted \<Rightarrow> (Ok DuplicateSuppressed, fence)
         | Prepared epoch \<Rightarrow>
             if epoch = eop_epoch operation then (Ok DuplicateSuppressed, fence)
             else let again = put_operation (eop_id operation)
                        (existing\<lparr> ledger_state := Prepared (eop_epoch operation) \<rparr>) fence
               in (case eop_replay_policy operation of
                 Replayable \<Rightarrow> (Ok ExecuteReplay, again)
               | Idempotent \<Rightarrow> (Ok ExecuteIdempotentReplay, again)
               | AtMostOnce \<Rightarrow> (Ok IndeterminateSuppressed, fence))))"

definition fence_commit :: "VmShardEpochOperation
    \<Rightarrow> (VmShardEpochFence, VmShardEpochError, VmShardOperationCommit) stateful" where
  "fence_commit operation =
     bind_st (read_st (\<lambda>fence. fence_require_epoch fence (eop_epoch operation))) (\<lambda>_.
     bind_st (read_st (\<lambda>fence. ok_or (UnknownOperation (eop_id operation))
       (bt_get (fence_operations fence) (eop_id operation)))) (\<lambda>existing fence.
     if ledger_kind existing \<noteq> eop_kind operation
         \<or> ledger_replay_policy existing \<noteq> eop_replay_policy operation
     then (Err (OperationIdentityConflict (eop_id operation)), fence)
     else (case ledger_state existing of
       StateCommitted \<Rightarrow> (Ok AlreadyCommitted, fence)
     | Prepared epoch \<Rightarrow>
         if epoch = eop_epoch operation
         then (Ok Committed, put_operation (eop_id operation) (existing\<lparr> ledger_state := StateCommitted \<rparr>) fence)
         else (Err (OperationNotPreparedForEpoch (eop_id operation) epoch (eop_epoch operation)), fence))))"

definition fence_retire_committed :: "VmShardEpochOperation \<Rightarrow> VmShardEpochFence \<Rightarrow> bool \<times> VmShardEpochFence" where
  "fence_retire_committed operation fence =
     (let matches_committed = (case bt_get (fence_operations fence) (eop_id operation) of
            None \<Rightarrow> False
          | Some row \<Rightarrow> ledger_kind row = eop_kind operation
              \<and> ledger_replay_policy row = eop_replay_policy operation \<and> ledger_state row = StateCommitted)
      in (matches_committed, if matches_committed
          then fence\<lparr> fence_operations := bt_remove (eop_id operation) (fence_operations fence) \<rparr> else fence))"

section \<open>What the ledger says of one identity\<close>

text \<open>
  An attempt executes exactly when it is admitted as the first one or as a replay. What the
  ledger knows of an identity is read as a \<open>standing\<close>: never seen, attempted in a generation, or
  done. A step of the fence moves the standing of the identity it names, forward only.
\<close>

fun executes :: "VmShardOperationAdmission \<Rightarrow> bool" where
  "executes ExecuteFirst = True"
| "executes ExecuteReplay = True"
| "executes ExecuteIdempotentReplay = True"
| "executes DuplicateSuppressed = False"
| "executes IndeterminateSuppressed = False"

definition standing :: "VmShardEpochFence \<Rightarrow> VmShardOperationId \<Rightarrow> VmShardOperationState option" where
  "standing fence i = map_option ledger_state (bt_get (fence_operations fence) i)"

text \<open>An identity keeps the class and the policy it was first attempted with.\<close>

definition meaning :: "VmShardEpochFence \<Rightarrow> VmShardOperationId
    \<Rightarrow> (VmShardOperationKind \<times> VmShardReplayPolicy) option" where
  "meaning fence i = map_option (\<lambda>row. (ledger_kind row, ledger_replay_policy row))
     (bt_get (fence_operations fence) i)"

definition eop_meaning :: "VmShardEpochOperation \<Rightarrow> VmShardOperationKind \<times> VmShardReplayPolicy" where
  "eop_meaning operation = (eop_kind operation, eop_replay_policy operation)"

definition fence_ok :: "VmShardEpochFence \<Rightarrow> bool" where
  "fence_ok fence \<longleftrightarrow> (\<forall>i epoch. standing fence i = Some (Prepared epoch) \<longrightarrow> epoch \<le> fence_epoch fence)"

lemma standing_put [simp]:
  "standing (put_operation i row fence) j = (if j = i then Some (ledger_state row) else standing fence j)"
  "meaning (put_operation i row fence) j
     = (if j = i then Some (ledger_kind row, ledger_replay_policy row) else meaning fence j)"
  "fence_epoch (put_operation i row fence) = fence_epoch fence"
  by (simp_all add: standing_def meaning_def put_operation_def)

lemma standing_meaning_None: "standing fence i = None \<longleftrightarrow> meaning fence i = None"
  by (simp add: standing_def meaning_def)

lemma fence_new_ok [simp]: "fence_ok (fence_new epoch)" "standing (fence_new epoch) i = None"
  by (simp_all add: fence_ok_def standing_def fence_new_def)

lemma fence_ok_mono:
  assumes "fence_ok fence" and "fence_epoch fence \<le> fence_epoch fence'"
    and "\<And>i epoch. standing fence' i = Some (Prepared epoch) \<Longrightarrow> standing fence i = Some (Prepared epoch)"
  shows "fence_ok fence'"
  using assms unfolding fence_ok_def by (meson order.trans)

lemma fence_advance_law:
  assumes "fence_advance proposed fence = (r, fence')"
  shows "standing fence' = standing fence" "meaning fence' = meaning fence"
    "fence_epoch fence \<le> fence_epoch fence'"
    "r = Ok () \<longleftrightarrow> fence_epoch fence < proposed" "r = Ok () \<Longrightarrow> fence_epoch fence' = proposed"
    "r \<noteq> Ok () \<Longrightarrow> fence' = fence"
  using assms
  by (auto simp: fence_advance_def standing_def meaning_def fun_eq_iff split: if_splits)

text \<open>An attempt that executes: it was never seen, or it crashed in an older generation and may be
  repeated. Everything else leaves the ledger alone.\<close>

lemma fence_begin_law:
  assumes run: "fence_begin operation fence = (r, fence')"
  defines "i \<equiv> eop_id operation"
  shows "\<And>admission. r = Ok admission \<Longrightarrow> executes admission \<Longrightarrow>
      eop_epoch operation = fence_epoch fence
    \<and> fence_epoch fence' = fence_epoch fence
    \<and> standing fence' = (standing fence)(i \<mapsto> Prepared (fence_epoch fence))
    \<and> meaning fence' = (meaning fence)(i \<mapsto> eop_meaning operation)
    \<and> (standing fence i = None
       \<or> (\<exists>epoch. standing fence i = Some (Prepared epoch) \<and> epoch \<noteq> fence_epoch fence)
         \<and> meaning fence i = Some (eop_meaning operation) \<and> eop_replay_policy operation \<noteq> AtMostOnce)"
    and "\<not> (\<exists>admission. r = Ok admission \<and> executes admission) \<Longrightarrow> fence' = fence"
    and "r \<noteq> Panic p"
  using run unfolding i_def
  by (auto simp: fence_begin_def bind_st_def read_st_def fence_require_epoch_def Let_def fun_eq_iff
      standing_def meaning_def put_operation_def eop_meaning_def
      split: if_splits option.splits VmShardOperationState.splits VmShardReplayPolicy.splits)

lemma fence_commit_law:
  assumes run: "fence_commit operation fence = (r, fence')"
  defines "i \<equiv> eop_id operation"
  shows "r = Ok Committed \<Longrightarrow> eop_epoch operation = fence_epoch fence
      \<and> standing fence i = Some (Prepared (fence_epoch fence))
      \<and> meaning fence i = Some (eop_meaning operation)
      \<and> standing fence' = (standing fence)(i \<mapsto> StateCommitted)
      \<and> meaning fence' = meaning fence \<and> fence_epoch fence' = fence_epoch fence"
    and "r \<noteq> Ok Committed \<Longrightarrow> fence' = fence"
    and "r = Ok AlreadyCommitted \<Longrightarrow> standing fence i = Some StateCommitted"
    and "r \<noteq> Panic p"
  using run unfolding i_def
  by (auto simp: fence_commit_def bind_st_def read_st_def fence_require_epoch_def ok_or_def fun_eq_iff
      standing_def meaning_def put_operation_def eop_meaning_def
      split: if_splits option.splits VmShardOperationState.splits)

lemma fence_retire_law:
  assumes "fence_retire_committed operation fence = (retired, fence')"
  shows "j \<noteq> eop_id operation \<Longrightarrow> standing fence' j = standing fence j \<and> meaning fence' j = meaning fence j"
    and "\<not> retired \<Longrightarrow> fence' = fence" and "fence_epoch fence' = fence_epoch fence"
    and "retired \<Longrightarrow> standing fence (eop_id operation) = Some StateCommitted \<and> standing fence' (eop_id operation) = None"
  using assms
  by (auto simp: fence_retire_committed_def Let_def standing_def meaning_def
      split: if_splits option.splits)

lemma fence_ok_advance:
  assumes "fence_ok fence" and run: "fence_advance proposed fence = (r, fence')"
  shows "fence_ok fence'"
  by (rule fence_ok_mono [OF assms(1) fence_advance_law(3) [OF run]]) (simp add: fence_advance_law(1) [OF run])

lemma fence_ok_retire:
  assumes "fence_ok fence" and run: "fence_retire_committed operation fence = (retired, fence')"
  shows "fence_ok fence'"
proof (rule fence_ok_mono [OF assms(1)])
  show "fence_epoch fence \<le> fence_epoch fence'" by (simp add: fence_retire_law(3) [OF run])
  fix i epoch
  assume attempted: "standing fence' i = Some (Prepared epoch)"
  show "standing fence i = Some (Prepared epoch)"
  proof (cases retired)
    case True
    then have "i \<noteq> eop_id operation" using fence_retire_law(4) [OF run] attempted by auto
    then show ?thesis using fence_retire_law(1) [OF run] attempted by simp
  next
    case False
    then show ?thesis using fence_retire_law(2) [OF run] attempted by simp
  qed
qed

lemma fence_ok_step:
  assumes "fence_ok fence" and "fence_begin operation fence = (r, fence')"
  shows "fence_ok fence'"
proof (cases "\<exists>admission. r = Ok admission \<and> executes admission")
  case True
  then obtain admission where "r = Ok admission" "executes admission" by blast
  then show ?thesis using fence_begin_law(1) [OF assms(2)] assms(1) by (auto simp: fence_ok_def)
next
  case False
  then show ?thesis using fence_begin_law(2) [OF assms(2)] assms(1) by simp
qed

lemma fence_ok_commit:
  assumes "fence_ok fence" and "fence_commit operation fence = (r, fence')"
  shows "fence_ok fence'"
  using fence_commit_law(1,2) [OF assms(2)] assms(1) by (cases "r = Ok Committed") (auto simp: fence_ok_def)

end
