(* ===== verification/Shard_Control.thy ===== *)
theory Shard_Control
  imports Shard_Epoch Vm_Format
begin

text \<open>
  What passes between the supervisor and an execution shard
  (\<open>runtime/vm/execution_shard_protocol.rs\<close>): identities, the sealed image of a generation and the
  control commands; and the diagnostics kept of an image
  (\<open>runtime/vm/native_image_diagnostics.rs\<close>): the counts of the references that keep a generation
  alive, and the metadata of a crash report.
\<close>

section \<open>Identities and images\<close>

type_synonym VmExecutionShardId = string
type_synonym VmShardControlRequestId = u64

datatype VmShardControlError =
    EmptyShardId
  | ZeroRequestId
  | EmptyImageIdentity
  | EmptyImageDigest
  | SameShardRoute
  | EmptyRouteEnvelope
  | RouteEnvelopeTooLarge nat nat
  | ZeroRecoveryEpoch
  | ZeroShardEpoch

definition execution_shard_id_new :: "string \<Rightarrow> (VmShardControlError, VmExecutionShardId) outcome" where
  "execution_shard_id_new name = (if blank name then Err EmptyShardId else Ok name)"

definition shard_epoch_new :: "u64 \<Rightarrow> (VmShardControlError, VmShardEpoch) outcome" where
  "shard_epoch_new number = (if number = 0 then Err ZeroShardEpoch else Ok number)"

record VmSealedShardImage =
  image_identity :: string
  image_descriptor_digest :: "u8 list"
  image_continuation_ids :: "u64 list"

definition empty_digest :: "u8 list" where
  "empty_digest = replicate 32 0"

definition sealed_image_new :: "string \<Rightarrow> u8 list \<Rightarrow> (VmShardControlError, VmSealedShardImage) outcome" where
  "sealed_image_new identity descriptor_digest =
     (if blank identity then Err EmptyImageIdentity
      else if descriptor_digest = empty_digest then Err EmptyImageDigest
      else Ok \<lparr> image_identity = identity, image_descriptor_digest = descriptor_digest,
        image_continuation_ids = [] \<rparr>)"

text \<open>\<open>sort_unstable\<close> followed by \<open>dedup\<close>.\<close>

definition sort_dedup :: "u64 list \<Rightarrow> u64 list" where
  "sort_dedup ids = remdups_adj (sort ids)"

definition with_continuations :: "u64 list \<Rightarrow> VmSealedShardImage \<Rightarrow> VmSealedShardImage" where
  "with_continuations continuation_ids img =
     img\<lparr> image_continuation_ids := sort_dedup continuation_ids \<rparr>"

section \<open>Control commands\<close>

definition MAX_CROSS_SHARD_ENVELOPE_BYTES :: nat where
  "MAX_CROSS_SHARD_ENVELOPE_BYTES = 1024 * 1024"

definition control_request_id_new :: "u64 \<Rightarrow> (VmShardControlError, VmShardControlRequestId) outcome" where
  "control_request_id_new number = (if number = 0 then Err ZeroRequestId else Ok number)"

datatype VmShardControlClass = Admission | Lifecycle | Inspection | CrossShardRouting | Recovery

datatype VmShardLifecycleDirective = DirectiveStart | DirectiveDrain | DirectiveStop

datatype VmShardInspectionSubject = SubjectHealth | SubjectProcesses | SubjectResources

datatype VmShardControlPayload =
    AdmissionOf VmSealedShardImage
  | LifecycleOf VmShardLifecycleDirective
  | InspectionOf VmShardInspectionSubject
  | RouteOf VmExecutionShardId VmExecutionShardId "u8 list"
  | RecoveryOf VmExecutionShardId u64

record VmShardControlCommand =
  command_request_id :: VmShardControlRequestId
  command_payload :: VmShardControlPayload

definition control_admission :: "VmShardControlRequestId \<Rightarrow> string \<Rightarrow> u8 list
    \<Rightarrow> (VmShardControlError, VmShardControlCommand) outcome" where
  "control_admission request_id identity descriptor_digest =
     bind_out (sealed_image_new identity descriptor_digest) (\<lambda>img.
       Ok \<lparr> command_request_id = request_id, command_payload = AdmissionOf img \<rparr>)"

definition control_lifecycle :: "VmShardControlRequestId \<Rightarrow> VmShardLifecycleDirective \<Rightarrow> VmShardControlCommand" where
  "control_lifecycle request_id directive =
     \<lparr> command_request_id = request_id, command_payload = LifecycleOf directive \<rparr>"

definition control_inspection :: "VmShardControlRequestId \<Rightarrow> VmShardInspectionSubject \<Rightarrow> VmShardControlCommand" where
  "control_inspection request_id subject =
     \<lparr> command_request_id = request_id, command_payload = InspectionOf subject \<rparr>"

definition cross_shard_route :: "VmShardControlRequestId \<Rightarrow> VmExecutionShardId \<Rightarrow> VmExecutionShardId
    \<Rightarrow> u8 list \<Rightarrow> (VmShardControlError, VmShardControlCommand) outcome" where
  "cross_shard_route request_id source destination envelope =
     (if source = destination then Err SameShardRoute
      else if envelope = [] then Err EmptyRouteEnvelope
      else if MAX_CROSS_SHARD_ENVELOPE_BYTES < length envelope
      then Err (RouteEnvelopeTooLarge (length envelope) MAX_CROSS_SHARD_ENVELOPE_BYTES)
      else Ok \<lparr> command_request_id = request_id, command_payload = RouteOf source destination envelope \<rparr>)"

definition control_recovery :: "VmShardControlRequestId \<Rightarrow> VmExecutionShardId \<Rightarrow> u64
    \<Rightarrow> (VmShardControlError, VmShardControlCommand) outcome" where
  "control_recovery request_id failed_shard failed_epoch =
     (if failed_epoch = 0 then Err ZeroRecoveryEpoch
      else Ok \<lparr> command_request_id = request_id, command_payload = RecoveryOf failed_shard failed_epoch \<rparr>)"

definition command_class :: "VmShardControlCommand \<Rightarrow> VmShardControlClass" where
  "command_class command = (case command_payload command of
     AdmissionOf _ \<Rightarrow> Admission
   | LifecycleOf _ \<Rightarrow> Lifecycle
   | InspectionOf _ \<Rightarrow> Inspection
   | RouteOf _ _ _ \<Rightarrow> CrossShardRouting
   | RecoveryOf _ _ \<Rightarrow> Recovery)"

section \<open>References to a generation\<close>

datatype VmNativeGenerationReferenceClass =
    NativeFrame
  | ParkedContinuation
  | ActorTransfer
  | ActorHeap
  | MailboxFragment
  | TimerReference
  | ResourceReference
  | AsyncCapabilityCallback
  | Debugger
  | CrashMetadata

text \<open>The derived order is the order of declaration.\<close>

fun reference_rank :: "VmNativeGenerationReferenceClass \<Rightarrow> nat" where
  "reference_rank NativeFrame = 0"
| "reference_rank ParkedContinuation = 1"
| "reference_rank ActorTransfer = 2"
| "reference_rank ActorHeap = 3"
| "reference_rank MailboxFragment = 4"
| "reference_rank TimerReference = 5"
| "reference_rank ResourceReference = 6"
| "reference_rank AsyncCapabilityCallback = 7"
| "reference_rank Debugger = 8"
| "reference_rank CrashMetadata = 9"

lemma reference_rank_inject: "reference_rank a = reference_rank b \<Longrightarrow> a = b"
  by (cases a; cases b) simp_all

instantiation VmNativeGenerationReferenceClass :: linorder
begin

definition less_eq_VmNativeGenerationReferenceClass ::
    "VmNativeGenerationReferenceClass \<Rightarrow> VmNativeGenerationReferenceClass \<Rightarrow> bool" where
  "less_eq_VmNativeGenerationReferenceClass a b \<longleftrightarrow> reference_rank a \<le> reference_rank b"

definition less_VmNativeGenerationReferenceClass ::
    "VmNativeGenerationReferenceClass \<Rightarrow> VmNativeGenerationReferenceClass \<Rightarrow> bool" where
  "less_VmNativeGenerationReferenceClass a b \<longleftrightarrow> reference_rank a < reference_rank b"

instance
  by standard (auto simp: less_eq_VmNativeGenerationReferenceClass_def
      less_VmNativeGenerationReferenceClass_def intro: reference_rank_inject)

end

fun reference_class_name :: "VmNativeGenerationReferenceClass \<Rightarrow> string" where
  "reference_class_name NativeFrame = ''native_frames''"
| "reference_class_name ParkedContinuation = ''parked_continuations''"
| "reference_class_name ActorTransfer = ''actor_transfers''"
| "reference_class_name ActorHeap = ''actor_heaps''"
| "reference_class_name MailboxFragment = ''mailbox_fragments''"
| "reference_class_name TimerReference = ''timers''"
| "reference_class_name ResourceReference = ''resources''"
| "reference_class_name AsyncCapabilityCallback = ''async_capability_callbacks''"
| "reference_class_name Debugger = ''debugger_pins''"
| "reference_class_name CrashMetadata = ''crash_metadata_pins''"

type_synonym VmNativeGenerationReferenceSnapshot = "(VmNativeGenerationReferenceClass, usize) btree"

definition references_record :: "VmNativeGenerationReferenceClass \<Rightarrow> usize
    \<Rightarrow> VmNativeGenerationReferenceSnapshot \<Rightarrow> VmNativeGenerationReferenceSnapshot" where
  "references_record cls count counts =
     (if count = 0 then bt_remove cls counts else bt_insert cls count counts)"

definition references_count :: "VmNativeGenerationReferenceSnapshot \<Rightarrow> VmNativeGenerationReferenceClass \<Rightarrow> usize" where
  "references_count counts cls = (case bt_get counts cls of Some count \<Rightarrow> count | None \<Rightarrow> 0)"

definition references_add :: "VmNativeGenerationReferenceClass \<Rightarrow> usize
    \<Rightarrow> VmNativeGenerationReferenceSnapshot \<Rightarrow> VmNativeGenerationReferenceSnapshot" where
  "references_add cls count counts = (if count = 0 then counts
     else bt_insert cls (saturating_add (references_count counts cls) count) counts)"

text \<open>\<open>Iterator::sum\<close> of \<open>usize\<close>, which wraps in a release build.\<close>

definition references_total :: "VmNativeGenerationReferenceSnapshot \<Rightarrow> usize" where
  "references_total counts = sum_list (bt_values counts)"

definition references_quiescent :: "VmNativeGenerationReferenceSnapshot \<Rightarrow> bool" where
  "references_quiescent counts = (counts = [])"

record VmNativeGenerationReferenceRecord =
  reference_class :: string
  reference_count :: usize

definition references_records :: "VmNativeGenerationReferenceSnapshot \<Rightarrow> VmNativeGenerationReferenceRecord list" where
  "references_records counts = map (\<lambda>(cls, count).
     \<lparr> reference_class = reference_class_name cls, reference_count = count \<rparr>) counts"

fun join_comma :: "string list \<Rightarrow> string" where
  "join_comma [] = []"
| "join_comma [part] = part"
| "join_comma (part # parts) = part @ '','' @ join_comma parts"

definition render_pending :: "VmNativeGenerationReferenceSnapshot \<Rightarrow> string" where
  "render_pending counts = (if references_quiescent counts then ''none''
     else join_comma (map (\<lambda>(cls, count). reference_class_name cls @ ''='' @ show_u64 count) counts))"

section \<open>Diagnostic metadata\<close>

definition hex_digit :: "u8 \<Rightarrow> char" where
  "hex_digit nibble = ''0123456789abcdef'' ! unat nibble"

fun hex_bytes :: "u8 list \<Rightarrow> string" where
  "hex_bytes [] = []"
| "hex_bytes (byte # bytes) = hex_digit (drop_bit 4 byte) # hex_digit (byte AND 15) # hex_bytes bytes"

definition NATIVE_IMAGE_DIAGNOSTIC_SCHEMA :: string where
  "NATIVE_IMAGE_DIAGNOSTIC_SCHEMA = ''terlan.vm.native-image-diagnostic.v1''"

record VmNativeImageDiagnosticMetadata =
  meta_schema :: string
  meta_image_identity :: string
  meta_descriptor_digest :: string
  meta_continuation_ids :: "u64 list"
  meta_generation_epoch :: u64
  meta_generation_reference_total :: usize
  meta_generation_quiescent :: bool
  meta_generation_references :: "VmNativeGenerationReferenceRecord list"

definition diagnostic_metadata_new :: "string \<Rightarrow> u8 list \<Rightarrow> u64 list \<Rightarrow> u64
    \<Rightarrow> VmNativeGenerationReferenceSnapshot \<Rightarrow> (vm_error, VmNativeImageDiagnosticMetadata) outcome" where
  "diagnostic_metadata_new identity descriptor_digest continuation_ids generation_epoch references =
     (if blank identity then Err (Msg ''native image diagnostic identity cannot be empty'' [])
      else if descriptor_digest = empty_digest
      then Err (Msg ''native image diagnostic descriptor digest cannot be empty'' [])
      else if generation_epoch = 0
      then Err (Msg ''native image diagnostic generation must be nonzero'' [])
      else Ok \<lparr> meta_schema = NATIVE_IMAGE_DIAGNOSTIC_SCHEMA, meta_image_identity = identity, meta_descriptor_digest = hex_bytes descriptor_digest,
        meta_continuation_ids = sort_dedup continuation_ids, meta_generation_epoch = generation_epoch,
        meta_generation_reference_total = references_total references,
        meta_generation_quiescent = references_quiescent references,
        meta_generation_references = references_records references \<rparr>)"

text \<open>The private fields of a sealed image hold what its constructor admitted.\<close>

definition image_ok :: "VmSealedShardImage \<Rightarrow> bool" where
  "image_ok img \<longleftrightarrow> \<not> blank (image_identity img) \<and> image_descriptor_digest img \<noteq> empty_digest"

lemma sealed_image_ok:
  "sealed_image_new identity digest = Ok img \<Longrightarrow> image_ok img"
  "image_ok img \<Longrightarrow> image_ok (with_continuations ids img)"
  by (auto simp: sealed_image_new_def image_ok_def with_continuations_def split: if_splits)

lemma diagnostic_metadata_Ok:
  "image_ok img \<Longrightarrow> epoch \<noteq> 0 \<Longrightarrow> \<exists>metadata. diagnostic_metadata_new (image_identity img)
     (image_descriptor_digest img) ids epoch references = Ok metadata"
  by (simp add: diagnostic_metadata_new_def image_ok_def)

end
