(* ===== verification/Shard_Supervisor.thy ===== *)
theory Shard_Supervisor
  imports Shard_Control Supervision
begin

text \<open>
  The life of one execution shard under its supervisor
  (\<open>runtime/vm/execution_shard_supervisor.rs\<close>): negotiation, admission of an image, readiness,
  draining, stop, crash, back-off and quarantine, with the generation fence of
  \<open>Shard_Epoch\<close> across generations.
\<close>

section \<open>Data\<close>

definition MAX_CRASH_HISTORY :: nat where "MAX_CRASH_HISTORY = 64"

type_synonym VmShardProtocolVersion = u16

datatype VmShardPhase =
    Created
  | Negotiating
  | Admitting
  | AwaitingReady
  | Ready
  | Draining
  | Stopping
  | Stopped
  | RestartBackoff
  | Quarantined

datatype VmShardTermination = Graceful | Forced

record VmShardSignalProgress =
  signal_health_sequence :: u64
  signal_work_sequence :: u64

definition signals_default :: VmShardSignalProgress where
  "signals_default = \<lparr> signal_health_sequence = 0, signal_work_sequence = 0 \<rparr>"

record VmShardCrashReport =
  crash_shard_id :: VmExecutionShardId
  crash_epoch :: "VmShardEpoch option"
  crash_reason :: string
  crash_observed_tick :: u64
  crash_native_image :: "VmNativeImageDiagnosticMetadata option"

record VmShardSupervisorPolicy =
  shard_protocol :: VmShardProtocolVersion
  shard_restart_budget :: u32
  shard_restart_backoff :: VmRestartBackoffSchedule

datatype VmShardSupervisorError =
    ZeroProtocolVersion
  | ProtocolMismatch u16 u16
  | InvalidTransition VmShardPhase string
  | EpochMismatch VmShardEpoch VmShardEpoch
  | NonMonotonicSignal string u64 u64
  | EmptyCrashReason
  | RestartDeadlineOverflow
  | RestartBackoffActive u64 u64
  | EpochExhausted
  | EpochOperation VmShardEpochError

definition protocol_version_new :: "u16 \<Rightarrow> (VmShardSupervisorError, VmShardProtocolVersion) outcome" where
  "protocol_version_new number = (if number = 0 then Err ZeroProtocolVersion else Ok number)"

record VmExecutionShardSupervisor =
  sh_shard_id :: VmExecutionShardId
  sh_policy :: VmShardSupervisorPolicy
  sh_phase :: VmShardPhase
  sh_image :: "VmSealedShardImage option"
  sh_epoch :: "VmShardEpoch option"
  sh_epoch_fence :: "VmShardEpochFence option"
  sh_internal_operation :: "VmShardEpochOperation option"
  sh_next_epoch :: u64
  sh_signals :: VmShardSignalProgress
  sh_restart_count :: u32
  sh_restart_deadline_tick :: "u64 option"
  sh_last_crash :: "VmShardCrashReport option"
  sh_crash_history :: "VmShardCrashReport list"
  sh_termination :: "VmShardTermination option"

type_synonym 'a shard_op = "(VmExecutionShardSupervisor, VmShardSupervisorError, 'a) stateful"

definition shard_new :: "VmExecutionShardId \<Rightarrow> VmShardSupervisorPolicy \<Rightarrow> VmExecutionShardSupervisor" where
  "shard_new shard_id policy = \<lparr> sh_shard_id = shard_id, sh_policy = policy, sh_phase = Created,
     sh_image = None, sh_epoch = None, sh_epoch_fence = None, sh_internal_operation = None,
     sh_next_epoch = 1, sh_signals = signals_default, sh_restart_count = 0,
     sh_restart_deadline_tick = None, sh_last_crash = None, sh_crash_history = [],
     sh_termination = None \<rparr>"

definition is_routable :: "VmExecutionShardSupervisor \<Rightarrow> bool" where
  "is_routable s = (sh_phase s = Ready \<and> sh_image s \<noteq> None \<and> sh_epoch s \<noteq> None)"

section \<open>Guards\<close>

definition require_phase :: "VmShardPhase \<Rightarrow> string \<Rightarrow> unit shard_op" where
  "require_phase expected operation = read_st (\<lambda>s. if sh_phase s \<noteq> expected
     then Err (InvalidTransition (sh_phase s) operation) else Ok ())"

definition require_active_signal_phase :: "string \<Rightarrow> unit shard_op" where
  "require_active_signal_phase operation = read_st (\<lambda>s. if sh_phase s \<notin> {Ready, Draining}
     then Err (InvalidTransition (sh_phase s) operation) else Ok ())"

definition require_operation_phase :: "string \<Rightarrow> unit shard_op" where
  "require_operation_phase operation = read_st (\<lambda>s. if sh_phase s \<notin> {Ready, Draining}
     then Err (InvalidTransition (sh_phase s) operation) else Ok ())"

definition require_epoch :: "VmShardEpoch \<Rightarrow> unit shard_op" where
  "require_epoch actual = read_st (\<lambda>s. case sh_epoch s of
     None \<Rightarrow> Panic ''epoch-bearing phase requires admission''
   | Some expected \<Rightarrow> if actual \<noteq> expected then Err (EpochMismatch expected actual) else Ok ())"

definition require_advancing :: "string \<Rightarrow> u64 \<Rightarrow> u64 \<Rightarrow> (VmShardSupervisorError, unit) outcome" where
  "require_advancing signal previous actual =
     (if actual \<le> previous then Err (NonMonotonicSignal signal previous actual) else Ok ())"

definition change_shard :: "(VmExecutionShardSupervisor \<Rightarrow> VmExecutionShardSupervisor) \<Rightarrow> unit shard_op" where
  "change_shard f s = (Ok (), f s)"

section \<open>Negotiation, admission and readiness\<close>

definition begin_negotiation :: "unit shard_op" where
  "begin_negotiation = bind_st (require_phase Created ''begin_negotiation'') (\<lambda>_.
     change_shard (\<lambda>s. s\<lparr> sh_phase := Negotiating \<rparr>))"

definition negotiate :: "VmShardProtocolVersion \<Rightarrow> unit shard_op" where
  "negotiate proposed = bind_st (require_phase Negotiating ''negotiate'') (\<lambda>_.
     bind_st (read_st (\<lambda>s. if proposed \<noteq> shard_protocol (sh_policy s)
         then Err (ProtocolMismatch (shard_protocol (sh_policy s)) proposed) else Ok ())) (\<lambda>_.
     change_shard (\<lambda>s. s\<lparr> sh_phase := Admitting \<rparr>)))"

definition advanced_fence :: "VmShardEpoch \<Rightarrow> VmShardEpochFence option
    \<Rightarrow> (VmShardSupervisorError, VmShardEpochFence) outcome" where
  "advanced_fence epoch current = (case current of
     None \<Rightarrow> Ok (fence_new epoch)
   | Some fence \<Rightarrow> (case fence_advance epoch fence of
       (r, advanced) \<Rightarrow> bind_out (map_err EpochOperation r) (\<lambda>_. Ok advanced)))"

definition install_next_image :: "VmSealedShardImage \<Rightarrow> VmShardEpoch shard_op" where
  "install_next_image img =
     bind_st (read_st (\<lambda>s. map_err (\<lambda>_. EpochExhausted) (shard_epoch_new (sh_next_epoch s)))) (\<lambda>epoch.
     bind_st (read_st (\<lambda>s. ok_or EpochExhausted (checked_add (sh_next_epoch s) 1))) (\<lambda>next_epoch.
     bind_st (read_st (\<lambda>s. advanced_fence epoch (sh_epoch_fence s))) (\<lambda>epoch_fence.
     bind_st (change_shard (\<lambda>s. s\<lparr> sh_image := Some img, sh_epoch := Some epoch,
         sh_epoch_fence := Some epoch_fence, sh_internal_operation := None,
         sh_next_epoch := next_epoch, sh_signals := signals_default, sh_phase := AwaitingReady \<rparr>)) (\<lambda>_.
     return_st epoch))))"

definition admit_image :: "VmSealedShardImage \<Rightarrow> VmShardEpoch shard_op" where
  "admit_image img = bind_st (require_phase Admitting ''admit_image'') (\<lambda>_. install_next_image img)"

definition replace_drained_image :: "VmShardEpoch \<Rightarrow> VmSealedShardImage \<Rightarrow> VmShardEpoch shard_op" where
  "replace_drained_image drained_epoch img =
     bind_st (require_phase Draining ''replace_drained_image'') (\<lambda>_.
     bind_st (require_epoch drained_epoch) (\<lambda>_. install_next_image img))"

definition acknowledge_ready :: "VmShardEpoch \<Rightarrow> unit shard_op" where
  "acknowledge_ready epoch =
     bind_st (require_phase AwaitingReady ''acknowledge_ready'') (\<lambda>_.
     bind_st (require_epoch epoch) (\<lambda>_. change_shard (\<lambda>s. s\<lparr> sh_phase := Ready \<rparr>)))"

section \<open>Signals\<close>

definition signal_health :: "VmShardEpoch \<Rightarrow> u64 \<Rightarrow> unit shard_op" where
  "signal_health epoch sequence =
     bind_st (require_active_signal_phase ''signal_health'') (\<lambda>_.
     bind_st (require_epoch epoch) (\<lambda>_.
     bind_st (read_st (\<lambda>s. require_advancing ''health'' (signal_health_sequence (sh_signals s)) sequence)) (\<lambda>_.
     change_shard (\<lambda>s. s\<lparr> sh_signals := (sh_signals s)\<lparr> signal_health_sequence := sequence \<rparr> \<rparr>))))"

definition signal_progress :: "VmShardEpoch \<Rightarrow> u64 \<Rightarrow> unit shard_op" where
  "signal_progress epoch sequence =
     bind_st (require_active_signal_phase ''signal_progress'') (\<lambda>_.
     bind_st (require_epoch epoch) (\<lambda>_.
     bind_st (read_st (\<lambda>s. require_advancing ''progress'' (signal_work_sequence (sh_signals s)) sequence)) (\<lambda>_.
     change_shard (\<lambda>s. s\<lparr> sh_signals := (sh_signals s)\<lparr> signal_work_sequence := sequence \<rparr> \<rparr>))))"

section \<open>Operations of a generation\<close>

definition on_fence :: "(VmShardEpochFence, VmShardEpochError, 'a) stateful \<Rightarrow> 'a shard_op" where
  "on_fence f s = (case sh_epoch_fence s of
     None \<Rightarrow> (Panic ''operation phase requires an admitted epoch fence'', s)
   | Some fence \<Rightarrow> (case f fence of (r, fence) \<Rightarrow>
       (map_err EpochOperation r, s\<lparr> sh_epoch_fence := Some fence \<rparr>)))"

definition begin_epoch_operation :: "VmShardEpochOperation \<Rightarrow> VmShardOperationAdmission shard_op" where
  "begin_epoch_operation operation =
     bind_st (require_operation_phase ''begin_epoch_operation'') (\<lambda>_. on_fence (fence_begin operation))"

definition commit_epoch_operation :: "VmShardEpochOperation \<Rightarrow> VmShardOperationCommit shard_op" where
  "commit_epoch_operation operation =
     bind_st (require_operation_phase ''commit_epoch_operation'') (\<lambda>_. on_fence (fence_commit operation))"

definition begin_internal_operation :: "VmShardEpochOperation \<Rightarrow> VmShardOperationAdmission shard_op" where
  "begin_internal_operation operation =
     bind_st (require_operation_phase ''begin_internal_operation'') (\<lambda>_.
     bind_st (require_epoch (eop_epoch operation)) (\<lambda>_ s.
     case sh_internal_operation s of
       None \<Rightarrow> (Ok ExecuteFirst, s\<lparr> sh_internal_operation := Some operation \<rparr>)
     | Some current \<Rightarrow> if current = operation then (Ok DuplicateSuppressed, s)
         else (Err (EpochOperation (OperationIdentityConflict (eop_id operation))), s)))"

definition commit_internal_operation :: "VmShardEpochOperation \<Rightarrow> VmShardOperationCommit shard_op" where
  "commit_internal_operation operation =
     bind_st (require_operation_phase ''commit_internal_operation'') (\<lambda>_.
     bind_st (require_epoch (eop_epoch operation)) (\<lambda>_ s.
     case sh_internal_operation s of
       Some current \<Rightarrow> if current = operation then (Ok Committed, s\<lparr> sh_internal_operation := None \<rparr>)
         else (Err (EpochOperation (OperationIdentityConflict (eop_id operation))), s)
     | None \<Rightarrow> (Err (EpochOperation (UnknownOperation (eop_id operation))), s)))"

definition abort_internal_operation :: "VmShardEpochOperation \<Rightarrow> VmExecutionShardSupervisor
    \<Rightarrow> bool \<times> VmExecutionShardSupervisor" where
  "abort_internal_operation operation s =
     (if sh_internal_operation s = Some operation then (True, s\<lparr> sh_internal_operation := None \<rparr>)
      else (False, s))"

definition retire_internal_operation :: "VmShardEpochOperation \<Rightarrow> VmExecutionShardSupervisor
    \<Rightarrow> bool \<times> VmExecutionShardSupervisor" where
  "retire_internal_operation operation s = (case sh_epoch_fence s of
     None \<Rightarrow> (False, s)
   | Some fence \<Rightarrow> (case fence_retire_committed operation fence of (retired, fence) \<Rightarrow>
       (retired, s\<lparr> sh_epoch_fence := Some fence \<rparr>)))"

section \<open>Draining, crash and restart\<close>

definition begin_drain :: "VmShardEpoch \<Rightarrow> unit shard_op" where
  "begin_drain epoch =
     bind_st (require_phase Ready ''begin_drain'') (\<lambda>_.
     bind_st (require_epoch epoch) (\<lambda>_. change_shard (\<lambda>s. s\<lparr> sh_phase := Draining \<rparr>)))"

definition record_crash :: "VmShardCrashReport \<Rightarrow> VmExecutionShardSupervisor \<Rightarrow> VmExecutionShardSupervisor" where
  "record_crash report s = s\<lparr> sh_crash_history :=
       (if length (sh_crash_history s) = MAX_CRASH_HISTORY then tl (sh_crash_history s)
        else sh_crash_history s) @ [report],
     sh_last_crash := Some report \<rparr>"

text \<open>The metadata of the admitted image; the two \<open>?\<close> of the code leave with \<open>None\<close>.\<close>

definition crash_image_metadata :: "VmNativeGenerationReferenceSnapshot \<Rightarrow> VmExecutionShardSupervisor
    \<Rightarrow> (VmShardSupervisorError, VmNativeImageDiagnosticMetadata option) outcome" where
  "crash_image_metadata references s = (case (sh_image s, sh_epoch s) of
     (Some img, Some epoch) \<Rightarrow> (case diagnostic_metadata_new (image_identity img)
         (image_descriptor_digest img) (image_continuation_ids img) epoch references of
       Ok metadata \<Rightarrow> Ok (Some metadata)
     | Err _ \<Rightarrow> Panic ''admitted sealed image always has valid diagnostic identity''
     | Panic p \<Rightarrow> Panic p)
   | _ \<Rightarrow> Ok None)"

definition quarantine_drain_timeout_with_lifetime :: "VmShardEpoch \<Rightarrow> string \<Rightarrow> u64
    \<Rightarrow> VmNativeGenerationReferenceSnapshot \<Rightarrow> unit shard_op" where
  "quarantine_drain_timeout_with_lifetime epoch reason observed_tick references =
     bind_st (require_phase Draining ''quarantine_drain_timeout'') (\<lambda>_.
     bind_st (require_epoch epoch) (\<lambda>_.
     bind_st (read_st (\<lambda>_. if blank reason then Err EmptyCrashReason else Ok ())) (\<lambda>_.
     bind_st (read_st (crash_image_metadata references)) (\<lambda>native_image.
     change_shard (\<lambda>s. (record_crash \<lparr> crash_shard_id = sh_shard_id s, crash_epoch = Some epoch,
           crash_reason = reason, crash_observed_tick = observed_tick,
           crash_native_image = native_image \<rparr> s)
         \<lparr> sh_restart_deadline_tick := None, sh_phase := Quarantined \<rparr>)))))"

definition request_graceful_stop :: "VmShardEpoch \<Rightarrow> unit shard_op" where
  "request_graceful_stop epoch =
     bind_st (require_phase Draining ''request_graceful_stop'') (\<lambda>_.
     bind_st (require_epoch epoch) (\<lambda>_. change_shard (\<lambda>s. s\<lparr> sh_phase := Stopping \<rparr>)))"

definition acknowledge_stopped :: "VmShardEpoch \<Rightarrow> unit shard_op" where
  "acknowledge_stopped epoch =
     bind_st (require_phase Stopping ''acknowledge_stopped'') (\<lambda>_.
     bind_st (require_epoch epoch) (\<lambda>_.
       change_shard (\<lambda>s. s\<lparr> sh_phase := Stopped, sh_termination := Some Graceful \<rparr>)))"

definition force_terminate :: "unit shard_op" where
  "force_terminate =
     bind_st (read_st (\<lambda>s. if sh_phase s \<in> {Stopped, Quarantined}
       then Err (InvalidTransition (sh_phase s) ''force_terminate'') else Ok ())) (\<lambda>_.
     change_shard (\<lambda>s. s\<lparr> sh_phase := Stopped, sh_termination := Some Forced,
       sh_restart_deadline_tick := None \<rparr>))"

definition report_crash_with_lifetime :: "string \<Rightarrow> u64 \<Rightarrow> VmNativeGenerationReferenceSnapshot \<Rightarrow> unit shard_op" where
  "report_crash_with_lifetime reason observed_tick references =
     bind_st (read_st (\<lambda>s. if sh_phase s \<in> {Stopped, RestartBackoff, Quarantined}
       then Err (InvalidTransition (sh_phase s) ''report_crash'') else Ok ())) (\<lambda>_.
     bind_st (read_st (\<lambda>_. if blank reason then Err EmptyCrashReason else Ok ())) (\<lambda>_.
     bind_st (read_st (\<lambda>s. Ok (saturating_add (sh_restart_count s) 1))) (\<lambda>restart_count.
     bind_st (read_st (crash_image_metadata references)) (\<lambda>native_image.
     bind_st (read_st (\<lambda>s. Ok \<lparr> crash_shard_id = sh_shard_id s, crash_epoch = sh_epoch s,
         crash_reason = reason, crash_observed_tick = observed_tick,
         crash_native_image = native_image \<rparr>)) (\<lambda>report s.
     if shard_restart_budget (sh_policy s) \<le> sh_restart_count s
     then (Ok (), (record_crash report (s\<lparr> sh_restart_count := restart_count \<rparr>))
       \<lparr> sh_restart_deadline_tick := None, sh_phase := Quarantined \<rparr>)
     else bind_st (read_st (\<lambda>s. ok_or RestartDeadlineOverflow (checked_add observed_tick
         (delay_for_restart_count (shard_restart_backoff (sh_policy s)) restart_count)))) (\<lambda>deadline.
       change_shard (\<lambda>s. (record_crash report (s\<lparr> sh_restart_count := restart_count \<rparr>))
         \<lparr> sh_restart_deadline_tick := Some deadline, sh_phase := RestartBackoff \<rparr>)) s)))))"

definition report_crash :: "string \<Rightarrow> u64 \<Rightarrow> unit shard_op" where
  "report_crash reason observed_tick = report_crash_with_lifetime reason observed_tick []"

definition restart_when_due :: "u64 \<Rightarrow> unit shard_op" where
  "restart_when_due now_tick =
     bind_st (require_phase RestartBackoff ''restart_when_due'') (\<lambda>_.
     bind_st (read_st (\<lambda>s. case sh_restart_deadline_tick s of
         None \<Rightarrow> Panic ''restart backoff phase owns a deadline''
       | Some deadline_tick \<Rightarrow> if now_tick < deadline_tick
           then Err (RestartBackoffActive deadline_tick now_tick) else Ok ())) (\<lambda>_.
     change_shard (\<lambda>s. s\<lparr> sh_image := None, sh_epoch := None, sh_internal_operation := None,
       sh_signals := signals_default, sh_restart_deadline_tick := None, sh_termination := None,
       sh_phase := Negotiating \<rparr>)))"

end
