(* ===== verification/Shard_Laws.thy ===== *)
theory Shard_Laws
  imports Shard_Supervisor
begin

text \<open>
  Runs of a shard supervisor: every operation as a call with its answer, what each call does to
  the ledger, the invariant of the life cycle, and the facts about runs the properties rest on.
\<close>

section \<open>Calls\<close>

datatype shard_call =
    BeginNegotiation
  | Negotiate VmShardProtocolVersion
  | AdmitImage VmSealedShardImage
  | ReplaceDrained VmShardEpoch VmSealedShardImage
  | AcknowledgeReady VmShardEpoch
  | SignalHealth VmShardEpoch u64
  | SignalProgress VmShardEpoch u64
  | BeginOperation VmShardEpochOperation
  | CommitOperation VmShardEpochOperation
  | BeginInternal VmShardEpochOperation
  | CommitInternal VmShardEpochOperation
  | AbortInternal VmShardEpochOperation
  | RetireInternal VmShardEpochOperation
  | BeginDrain VmShardEpoch
  | QuarantineDrain VmShardEpoch string u64 VmNativeGenerationReferenceSnapshot
  | RequestStop VmShardEpoch
  | AcknowledgeStopped VmShardEpoch
  | ForceTerminate
  | ReportCrash string u64 VmNativeGenerationReferenceSnapshot
  | RestartWhenDue u64

datatype shard_answer =
    Done
  | GaveEpoch VmShardEpoch
  | Admitted VmShardOperationAdmission
  | CommitAnswer VmShardOperationCommit
  | Flag bool

definition answering :: "('a \<Rightarrow> shard_answer) \<Rightarrow> 'a shard_op \<Rightarrow> shard_answer shard_op" where
  "answering f m = bind_st m (\<lambda>a. return_st (f a))"

definition flagged :: "(VmExecutionShardSupervisor \<Rightarrow> bool \<times> VmExecutionShardSupervisor)
    \<Rightarrow> shard_answer shard_op" where
  "flagged f s = (case f s of (b, s') \<Rightarrow> (Ok (Flag b), s'))"

fun shard_step :: "shard_call \<Rightarrow> shard_answer shard_op" where
  "shard_step BeginNegotiation = answering (\<lambda>_. Done) begin_negotiation"
| "shard_step (Negotiate proposed) = answering (\<lambda>_. Done) (negotiate proposed)"
| "shard_step (AdmitImage img) = answering GaveEpoch (admit_image img)"
| "shard_step (ReplaceDrained epoch img) = answering GaveEpoch (replace_drained_image epoch img)"
| "shard_step (AcknowledgeReady epoch) = answering (\<lambda>_. Done) (acknowledge_ready epoch)"
| "shard_step (SignalHealth epoch n) = answering (\<lambda>_. Done) (signal_health epoch n)"
| "shard_step (SignalProgress epoch n) = answering (\<lambda>_. Done) (signal_progress epoch n)"
| "shard_step (BeginOperation op) = answering Admitted (begin_epoch_operation op)"
| "shard_step (CommitOperation op) = answering CommitAnswer (commit_epoch_operation op)"
| "shard_step (BeginInternal op) = answering Admitted (begin_internal_operation op)"
| "shard_step (CommitInternal op) = answering CommitAnswer (commit_internal_operation op)"
| "shard_step (AbortInternal op) = flagged (abort_internal_operation op)"
| "shard_step (RetireInternal op) = flagged (retire_internal_operation op)"
| "shard_step (BeginDrain epoch) = answering (\<lambda>_. Done) (begin_drain epoch)"
| "shard_step (QuarantineDrain epoch reason tick refs) =
     answering (\<lambda>_. Done) (quarantine_drain_timeout_with_lifetime epoch reason tick refs)"
| "shard_step (RequestStop epoch) = answering (\<lambda>_. Done) (request_graceful_stop epoch)"
| "shard_step (AcknowledgeStopped epoch) = answering (\<lambda>_. Done) (acknowledge_stopped epoch)"
| "shard_step ForceTerminate = answering (\<lambda>_. Done) force_terminate"
| "shard_step (ReportCrash reason tick refs) =
     answering (\<lambda>_. Done) (report_crash_with_lifetime reason tick refs)"
| "shard_step (RestartWhenDue tick) = answering (\<lambda>_. Done) (restart_when_due tick)"

type_synonym shard_event = "shard_call \<times> (VmShardSupervisorError, shard_answer) outcome"

fun shard_run :: "shard_call list \<Rightarrow> VmExecutionShardSupervisor
    \<Rightarrow> shard_event list \<times> VmExecutionShardSupervisor" where
  "shard_run [] s = ([], s)"
| "shard_run (c # cs) s = (case shard_step c s of (r, s') \<Rightarrow>
     (case shard_run cs s' of (events, s'') \<Rightarrow> ((c, r) # events, s'')))"

text \<open>Images come out of the constructor of their type.\<close>

fun admissible :: "shard_call \<Rightarrow> bool" where
  "admissible (AdmitImage img) = image_ok img"
| "admissible (ReplaceDrained _ img) = image_ok img"
| "admissible _ = True"

fun call_epoch :: "shard_call \<Rightarrow> VmShardEpoch option" where
  "call_epoch (ReplaceDrained epoch _) = Some epoch"
| "call_epoch (AcknowledgeReady epoch) = Some epoch"
| "call_epoch (SignalHealth epoch _) = Some epoch"
| "call_epoch (SignalProgress epoch _) = Some epoch"
| "call_epoch (BeginOperation op) = Some (eop_epoch op)"
| "call_epoch (CommitOperation op) = Some (eop_epoch op)"
| "call_epoch (BeginInternal op) = Some (eop_epoch op)"
| "call_epoch (CommitInternal op) = Some (eop_epoch op)"
| "call_epoch (AbortInternal op) = Some (eop_epoch op)"
| "call_epoch (RetireInternal op) = Some (eop_epoch op)"
| "call_epoch (BeginDrain epoch) = Some epoch"
| "call_epoch (QuarantineDrain epoch _ _ _) = Some epoch"
| "call_epoch (RequestStop epoch) = Some epoch"
| "call_epoch (AcknowledgeStopped epoch) = Some epoch"
| "call_epoch _ = None"

lemmas guard_defs = require_phase_def require_active_signal_phase_def require_operation_phase_def
  require_epoch_def require_advancing_def change_shard_def

lemmas shard_op_defs = begin_negotiation_def negotiate_def admit_image_def replace_drained_image_def
  install_next_image_def acknowledge_ready_def signal_health_def signal_progress_def
  begin_epoch_operation_def commit_epoch_operation_def on_fence_def begin_internal_operation_def
  commit_internal_operation_def abort_internal_operation_def retire_internal_operation_def
  begin_drain_def quarantine_drain_timeout_with_lifetime_def request_graceful_stop_def
  acknowledge_stopped_def force_terminate_def report_crash_with_lifetime_def restart_when_due_def

lemma answering_cases:
  assumes "answering f m s = (r, s')"
  obtains (Ok) a where "m s = (Ok a, s')" "r = Ok (f a)"
  | (Err) e where "m s = (Err e, s')" "r = Err e"
  | (Panic) p where "m s = (Panic p, s')" "r = Panic p"
  using assms by (auto simp: answering_def bind_st_def return_st_def split: prod.splits outcome.splits)

section \<open>A refused call changes nothing\<close>

definition atomic :: "('s, 'e, 'a) stateful \<Rightarrow> bool" where
  "atomic m \<longleftrightarrow> (\<forall>s. \<not> is_Ok (fst (m s)) \<longrightarrow> snd (m s) = s)"

lemma atomicD: "atomic m \<Longrightarrow> m s = (r, s') \<Longrightarrow> \<not> is_Ok r \<Longrightarrow> s' = s"
  unfolding atomic_def by (metis fst_conv snd_conv)

lemma atomic_read: "atomic (read_st f)"
  by (simp add: atomic_def read_st_def)

lemma atomic_guards:
  "atomic (require_phase phase operation)" "atomic (require_active_signal_phase operation)"
  "atomic (require_operation_phase operation)" "atomic (require_epoch epoch)" "atomic (change_shard f)"
  by (simp_all add: atomic_def guard_defs read_st_def)

text \<open>A guard reads; what follows it then starts from the same state.\<close>

definition reads :: "('s, 'e, 'a) stateful \<Rightarrow> bool" where
  "reads m \<longleftrightarrow> (\<forall>s. snd (m s) = s)"

lemma reads_guards:
  "reads (read_st f)" "reads (require_phase phase operation)" "reads (require_active_signal_phase operation)"
  "reads (require_operation_phase operation)" "reads (require_epoch epoch)"
  by (simp_all add: reads_def guard_defs read_st_def)

lemma atomic_bind: "reads m \<Longrightarrow> (\<And>a. atomic (f a)) \<Longrightarrow> atomic (bind_st m f)"
  by (auto simp: reads_def atomic_def bind_st_def split: prod.splits outcome.splits)
    (metis fst_conv snd_conv)+

lemma atomic_then_return: "atomic m \<Longrightarrow> atomic (bind_st m (\<lambda>a. return_st (f a)))"
  by (auto simp: atomic_def bind_st_def return_st_def split: prod.splits outcome.splits)
    (metis fst_conv is_Ok.simps snd_conv)+

lemma atomic_on_fence:
  assumes "atomic f"
  shows "atomic (on_fence f)"
  unfolding atomic_def
proof (intro allI impI)
  fix s
  assume bad: "\<not> is_Ok (fst (on_fence f s))"
  show "snd (on_fence f s) = s"
  proof (cases "sh_epoch_fence s")
    case (Some fence)
    obtain r fence' where run: "f fence = (r, fence')" by fastforce
    have "\<not> is_Ok r" using bad Some run by (cases r) (simp_all add: on_fence_def map_err_def)
    then have "fence' = fence" by (rule atomicD [OF assms run])
    then show ?thesis using Some run by (simp add: on_fence_def)
  qed (simp add: on_fence_def)
qed

lemma atomicI: "(\<And>s r s'. m s = (r, s') \<Longrightarrow> \<not> is_Ok r \<Longrightarrow> s' = s) \<Longrightarrow> atomic m"
  unfolding atomic_def by (metis prod.collapse)

lemma atomic_fence: "atomic (fence_begin op)" "atomic (fence_commit op)"
proof -
  show "atomic (fence_begin op)"
  proof (rule atomicI)
    fix fence r fence'
    assume "fence_begin op fence = (r, fence')" "\<not> is_Ok r"
    then show "fence' = fence" using fence_begin_law(2) [of op fence r fence'] by (cases r) auto
  qed
  show "atomic (fence_commit op)"
  proof (rule atomicI)
    fix fence r fence'
    assume "fence_commit op fence = (r, fence')" "\<not> is_Ok r"
    then show "fence' = fence" using fence_commit_law(2) [of op fence r fence'] by (cases r) auto
  qed
qed

lemma atomic_install: "atomic (install_next_image img)"
  unfolding install_next_image_def
  by (intro atomic_bind reads_guards atomic_then_return [of "change_shard _"] atomic_guards)

lemma atomic_match:
  "atomic (begin_internal_operation op)" "atomic (commit_internal_operation op)"
  unfolding begin_internal_operation_def commit_internal_operation_def
  by (intro atomic_bind reads_guards, simp add: atomic_def split: option.split)+

lemma atomic_crash: "atomic (report_crash_with_lifetime reason tick refs)"
  unfolding report_crash_with_lifetime_def
  by (intro atomic_bind reads_guards)
    (auto simp: atomic_def bind_st_def read_st_def change_shard_def ok_or_def split: option.split)

lemma atomic_flagged: "atomic (flagged f)"
  by (simp add: atomic_def flagged_def split: prod.split)

lemma atomic_step: "atomic (shard_step c)"
  by (cases c; simp only: shard_step.simps answering_def begin_negotiation_def negotiate_def admit_image_def
      replace_drained_image_def acknowledge_ready_def signal_health_def signal_progress_def
      begin_epoch_operation_def commit_epoch_operation_def begin_drain_def
      quarantine_drain_timeout_with_lifetime_def request_graceful_stop_def acknowledge_stopped_def
      force_terminate_def restart_when_due_def;
    intro atomic_then_return atomic_bind reads_guards atomic_guards atomic_install atomic_match atomic_crash
      atomic_on_fence atomic_fence atomic_flagged)

lemma refused_unchanged: "shard_step c s = (r, s') \<Longrightarrow> \<not> is_Ok r \<Longrightarrow> s' = s"
  by (rule atomicD [OF atomic_step])

section \<open>Accepted calls\<close>

text \<open>When a call is accepted, and the state it leaves.\<close>

lemma bind_reads_Ok:
  assumes "reads m"
  shows "bind_st m f s = (Ok b, s') \<longleftrightarrow> (\<exists>a. fst (m s) = Ok a \<and> f a s = (Ok b, s'))"
proof -
  have "m s = (fst (m s), s)" using assms unfolding reads_def by (metis prod.collapse)
  then obtain r where "m s = (r, s)" by blast
  then show ?thesis by (auto simp: bind_st_eq_Ok)
qed

lemma guard_Ok:
  "fst (read_st f s) = Ok a \<longleftrightarrow> f s = Ok a"
  "fst (require_phase phase operation s) = Ok u \<longleftrightarrow> sh_phase s = phase"
  "fst (require_active_signal_phase operation s) = Ok u \<longleftrightarrow> sh_phase s \<in> {Ready, Draining}"
  "fst (require_operation_phase operation s) = Ok u \<longleftrightarrow> sh_phase s \<in> {Ready, Draining}"
  "fst (require_epoch epoch s) = Ok u \<longleftrightarrow> sh_epoch s = Some epoch"
  "change_shard g s = (Ok u, s') \<longleftrightarrow> s' = g s"
  by (auto simp: guard_defs read_st_def split: option.split)

lemma answering_Ok: "answering f m s = (Ok a, s') \<longleftrightarrow> (\<exists>b. m s = (Ok b, s') \<and> a = f b)"
  by (auto simp: answering_def bind_st_eq_Ok return_st_def)

lemma test_Ok: "(if b then Err e else Ok ()) = Ok u \<longleftrightarrow> \<not> b"
  by simp

lemmas accept_simps = bind_reads_Ok reads_guards guard_Ok answering_Ok test_Ok return_st_def require_advancing_def

lemma install_Ok:
  "install_next_image img s = (Ok epoch, s') \<longleftrightarrow> epoch = sh_next_epoch s \<and> 0 < epoch
     \<and> unat (sh_next_epoch s) + 1 < 2 ^ 64
     \<and> (\<exists>fence. advanced_fence epoch (sh_epoch_fence s) = Ok fence
        \<and> s' = s\<lparr> sh_image := Some img, sh_epoch := Some epoch, sh_epoch_fence := Some fence,
             sh_internal_operation := None, sh_next_epoch := sh_next_epoch s + 1,
             sh_signals := signals_default, sh_phase := AwaitingReady \<rparr>)"
  unfolding install_next_image_def bind_reads_Ok [OF reads_guards(1)]
  by (auto simp: guard_Ok map_err_def shard_epoch_new_def ok_or_def checked_add_def bind_st_def change_shard_def
      return_st_def word_gt_0)

lemma step_Ok:
  "shard_step BeginNegotiation s = (Ok a, s') \<longleftrightarrow>
     sh_phase s = Created \<and> a = Done \<and> s' = s\<lparr> sh_phase := Negotiating \<rparr>"
  "shard_step (Negotiate proposed) s = (Ok a, s') \<longleftrightarrow>
     sh_phase s = Negotiating \<and> proposed = shard_protocol (sh_policy s) \<and> a = Done
       \<and> s' = s\<lparr> sh_phase := Admitting \<rparr>"
  "shard_step (AdmitImage img) s = (Ok a, s') \<longleftrightarrow>
     sh_phase s = Admitting \<and> (\<exists>epoch. a = GaveEpoch epoch \<and> install_next_image img s = (Ok epoch, s'))"
  "shard_step (ReplaceDrained old img) s = (Ok a, s') \<longleftrightarrow> sh_phase s = Draining \<and> sh_epoch s = Some old
     \<and> (\<exists>epoch. a = GaveEpoch epoch \<and> install_next_image img s = (Ok epoch, s'))"
  "shard_step (AcknowledgeReady epoch) s = (Ok a, s') \<longleftrightarrow>
     sh_phase s = AwaitingReady \<and> sh_epoch s = Some epoch \<and> a = Done \<and> s' = s\<lparr> sh_phase := Ready \<rparr>"
  "shard_step (SignalHealth epoch n) s = (Ok a, s') \<longleftrightarrow>
     sh_phase s \<in> {Ready, Draining} \<and> sh_epoch s = Some epoch
       \<and> signal_health_sequence (sh_signals s) < n \<and> a = Done
       \<and> s' = s\<lparr> sh_signals := (sh_signals s)\<lparr> signal_health_sequence := n \<rparr> \<rparr>"
  "shard_step (SignalProgress epoch n) s = (Ok a, s') \<longleftrightarrow>
     sh_phase s \<in> {Ready, Draining} \<and> sh_epoch s = Some epoch
       \<and> signal_work_sequence (sh_signals s) < n \<and> a = Done
       \<and> s' = s\<lparr> sh_signals := (sh_signals s)\<lparr> signal_work_sequence := n \<rparr> \<rparr>"
  "shard_step (BeginOperation op) s = (Ok a, s') \<longleftrightarrow> sh_phase s \<in> {Ready, Draining}
     \<and> (\<exists>fence admission fence'. sh_epoch_fence s = Some fence \<and> a = Admitted admission
          \<and> fence_begin op fence = (Ok admission, fence') \<and> s' = s\<lparr> sh_epoch_fence := Some fence' \<rparr>)"
  "shard_step (CommitOperation op) s = (Ok a, s') \<longleftrightarrow> sh_phase s \<in> {Ready, Draining}
     \<and> (\<exists>fence commit fence'. sh_epoch_fence s = Some fence \<and> a = CommitAnswer commit
          \<and> fence_commit op fence = (Ok commit, fence') \<and> s' = s\<lparr> sh_epoch_fence := Some fence' \<rparr>)"
  "shard_step (BeginInternal op) s = (Ok a, s') \<longleftrightarrow> sh_phase s \<in> {Ready, Draining} \<and> sh_epoch s = Some (eop_epoch op)
     \<and> (sh_internal_operation s = None \<and> a = Admitted ExecuteFirst \<and> s' = s\<lparr> sh_internal_operation := Some op \<rparr>
        \<or> sh_internal_operation s = Some op \<and> a = Admitted DuplicateSuppressed \<and> s' = s)"
  "shard_step (CommitInternal op) s = (Ok a, s') \<longleftrightarrow> sh_phase s \<in> {Ready, Draining} \<and> sh_epoch s = Some (eop_epoch op)
     \<and> sh_internal_operation s = Some op \<and> a = CommitAnswer Committed \<and> s' = s\<lparr> sh_internal_operation := None \<rparr>"
  "shard_step (BeginDrain epoch) s = (Ok a, s') \<longleftrightarrow>
     sh_phase s = Ready \<and> sh_epoch s = Some epoch \<and> a = Done \<and> s' = s\<lparr> sh_phase := Draining \<rparr>"
  "shard_step (RequestStop epoch) s = (Ok a, s') \<longleftrightarrow>
     sh_phase s = Draining \<and> sh_epoch s = Some epoch \<and> a = Done \<and> s' = s\<lparr> sh_phase := Stopping \<rparr>"
  "shard_step (AcknowledgeStopped epoch) s = (Ok a, s') \<longleftrightarrow>
     sh_phase s = Stopping \<and> sh_epoch s = Some epoch \<and> a = Done
       \<and> s' = s\<lparr> sh_phase := Stopped, sh_termination := Some Graceful \<rparr>"
  "shard_step ForceTerminate s = (Ok a, s') \<longleftrightarrow> sh_phase s \<notin> {Stopped, Quarantined} \<and> a = Done
       \<and> s' = s\<lparr> sh_phase := Stopped, sh_termination := Some Forced, sh_restart_deadline_tick := None \<rparr>"
  by (auto simp: accept_simps begin_negotiation_def negotiate_def admit_image_def replace_drained_image_def
      acknowledge_ready_def signal_health_def signal_progress_def begin_epoch_operation_def
      commit_epoch_operation_def begin_internal_operation_def commit_internal_operation_def begin_drain_def
      request_graceful_stop_def acknowledge_stopped_def force_terminate_def on_fence_def map_err_def not_le
      split: option.splits prod.splits outcome.splits if_splits)

definition crash_report :: "string \<Rightarrow> u64 \<Rightarrow> VmNativeImageDiagnosticMetadata option
    \<Rightarrow> VmExecutionShardSupervisor \<Rightarrow> VmShardCrashReport" where
  "crash_report reason tick native_image s = \<lparr> crash_shard_id = sh_shard_id s, crash_epoch = sh_epoch s,
     crash_reason = reason, crash_observed_tick = tick, crash_native_image = native_image \<rparr>"

definition restart_delay :: "VmExecutionShardSupervisor \<Rightarrow> u64" where
  "restart_delay s = delay_for_restart_count (shard_restart_backoff (sh_policy s))
     (saturating_add (sh_restart_count s) 1)"

definition crashed :: "VmShardCrashReport \<Rightarrow> VmExecutionShardSupervisor \<Rightarrow> VmExecutionShardSupervisor" where
  "crashed report s = record_crash report (s\<lparr> sh_restart_count := saturating_add (sh_restart_count s) 1 \<rparr>)"

lemma step_Ok_crash:
  "shard_step (ReportCrash reason tick refs) s = (Ok a, s') \<longleftrightarrow>
     sh_phase s \<notin> {Stopped, RestartBackoff, Quarantined} \<and> \<not> blank reason \<and> a = Done
   \<and> (\<exists>native_image. crash_image_metadata refs s = Ok native_image
        \<and> (if shard_restart_budget (sh_policy s) \<le> sh_restart_count s
           then s' = (crashed (crash_report reason tick native_image s) s)
             \<lparr> sh_restart_deadline_tick := None, sh_phase := Quarantined \<rparr>
           else \<exists>deadline. checked_add tick (restart_delay s) = Some deadline
             \<and> s' = (crashed (crash_report reason tick native_image s) s)
               \<lparr> sh_restart_deadline_tick := Some deadline, sh_phase := RestartBackoff \<rparr>))"
  by (auto simp: accept_simps report_crash_with_lifetime_def crashed_def crash_report_def restart_delay_def
      ok_or_def split: option.splits if_splits)

lemma step_Ok_others:
  "shard_step (AbortInternal op) s = (Ok a, s') \<longleftrightarrow>
     a = Flag (sh_internal_operation s = Some op)
   \<and> s' = (if sh_internal_operation s = Some op then s\<lparr> sh_internal_operation := None \<rparr> else s)"
  "shard_step (RetireInternal op) s = (Ok a, s') \<longleftrightarrow>
     (sh_epoch_fence s = None \<and> a = Flag False \<and> s' = s
      \<or> (\<exists>fence retired fence'. sh_epoch_fence s = Some fence \<and> a = Flag retired
           \<and> fence_retire_committed op fence = (retired, fence') \<and> s' = s\<lparr> sh_epoch_fence := Some fence' \<rparr>))"
  "shard_step (QuarantineDrain epoch reason tick refs) s = (Ok a, s') \<longleftrightarrow>
     sh_phase s = Draining \<and> sh_epoch s = Some epoch \<and> \<not> blank reason \<and> a = Done
   \<and> (\<exists>native_image. crash_image_metadata refs s = Ok native_image
        \<and> s' = (record_crash (crash_report reason tick native_image s) s)
            \<lparr> sh_restart_deadline_tick := None, sh_phase := Quarantined \<rparr>)"
  "shard_step (RestartWhenDue tick) s = (Ok a, s') \<longleftrightarrow>
     sh_phase s = RestartBackoff \<and> (\<exists>deadline. sh_restart_deadline_tick s = Some deadline \<and> deadline \<le> tick)
   \<and> a = Done \<and> s' = s\<lparr> sh_image := None, sh_epoch := None, sh_internal_operation := None,
       sh_signals := signals_default, sh_restart_deadline_tick := None, sh_termination := None,
       sh_phase := Negotiating \<rparr>"
     apply (auto simp: flagged_def abort_internal_operation_def split: prod.splits)[1]
    apply (auto simp: flagged_def retire_internal_operation_def split: prod.splits option.splits)[1]
   apply (auto simp: accept_simps quarantine_drain_timeout_with_lifetime_def crash_report_def)[1]
  apply (auto simp: accept_simps restart_when_due_def not_less split: option.splits if_splits)[1]
  done

declare shard_step.simps [simp del]

lemmas accepted = step_Ok step_Ok_crash step_Ok_others

section \<open>The invariant of the life cycle\<close>

definition shard_ok :: "VmExecutionShardSupervisor \<Rightarrow> bool" where
  "shard_ok s \<longleftrightarrow>
     (sh_epoch s = None \<longrightarrow> sh_image s = None) \<and> (sh_image s = None \<longrightarrow> sh_epoch s = None)
   \<and> (\<forall>img. sh_image s = Some img \<longrightarrow> image_ok img)
   \<and> (\<forall>epoch. sh_epoch s = Some epoch \<longrightarrow> epoch \<noteq> 0 \<and> map_option fence_epoch (sh_epoch_fence s) = Some epoch)
   \<and> (\<forall>fence. sh_epoch_fence s = Some fence \<longrightarrow> fence_ok fence \<and> fence_epoch fence < sh_next_epoch s)
   \<and> sh_next_epoch s \<noteq> 0
   \<and> (sh_phase s \<in> {AwaitingReady, Ready, Draining, Stopping} \<longrightarrow> sh_epoch s \<noteq> None)
   \<and> (sh_phase s = RestartBackoff \<longleftrightarrow> sh_restart_deadline_tick s \<noteq> None)
   \<and> (sh_phase s = Stopped \<longleftrightarrow> sh_termination s \<noteq> None)
   \<and> (\<forall>op. sh_internal_operation s = Some op \<longrightarrow> sh_epoch s = Some (eop_epoch op))
   \<and> length (sh_crash_history s) \<le> MAX_CRASH_HISTORY
   \<and> sh_last_crash s = (if sh_crash_history s = [] then None else Some (last (sh_crash_history s)))"

lemma shard_okD:
  assumes "shard_ok s"
  shows "sh_epoch s = None \<longleftrightarrow> sh_image s = None" "sh_image s = Some img \<Longrightarrow> image_ok img"
    "sh_epoch s = Some epoch \<Longrightarrow> epoch \<noteq> 0"
    "sh_epoch s = Some epoch \<Longrightarrow> \<exists>fence. sh_epoch_fence s = Some fence \<and> fence_epoch fence = epoch"
    "sh_epoch_fence s = Some fence \<Longrightarrow> fence_ok fence"
    "sh_epoch_fence s = Some fence \<Longrightarrow> fence_epoch fence < sh_next_epoch s"
    "sh_phase s \<in> {AwaitingReady, Ready, Draining, Stopping} \<Longrightarrow> sh_epoch s \<noteq> None"
    "sh_phase s = RestartBackoff \<Longrightarrow> sh_restart_deadline_tick s \<noteq> None"
    "sh_phase s \<noteq> RestartBackoff \<Longrightarrow> sh_restart_deadline_tick s = None"
    "sh_phase s \<noteq> Stopped \<Longrightarrow> sh_termination s = None"
  using assms unfolding shard_ok_def by (blast | simp)+

lemma shard_new_ok: "shard_ok (shard_new shard_id policy)"
  by (simp add: shard_ok_def shard_new_def)

lemma crash_metadata_Ok: "shard_ok s \<Longrightarrow> \<exists>native_image. crash_image_metadata refs s = Ok native_image"
proof (cases "sh_image s")
  case (Some img)
  assume ok: "shard_ok s"
  then obtain epoch where epoch: "sh_epoch s = Some epoch" using shard_okD(1) Some by fastforce
  obtain metadata where "diagnostic_metadata_new (image_identity img) (image_descriptor_digest img)
      (image_continuation_ids img) epoch refs = Ok metadata"
    using diagnostic_metadata_Ok [OF shard_okD(2) [OF ok Some] shard_okD(3) [OF ok epoch]] by blast
  then show ?thesis using Some epoch by (simp add: crash_image_metadata_def)
qed (simp add: crash_image_metadata_def)

lemma advanced_fence_Ok:
  assumes "shard_ok s"
  obtains fence where "advanced_fence (sh_next_epoch s) (sh_epoch_fence s) = Ok fence"
    "fence_ok fence" "fence_epoch fence = sh_next_epoch s"
    "\<And>i. standing fence i = (case sh_epoch_fence s of None \<Rightarrow> None | Some old \<Rightarrow> standing old i)"
    "\<And>i. meaning fence i = (case sh_epoch_fence s of None \<Rightarrow> None | Some old \<Rightarrow> meaning old i)"
proof (cases "sh_epoch_fence s")
  case None
  then show ?thesis
    by (intro that [of "fence_new (sh_next_epoch s)"])
      (simp_all add: advanced_fence_def standing_meaning_None [symmetric], simp add: fence_new_def)
next
  case (Some old)
  obtain r fence where run: "fence_advance (sh_next_epoch s) old = (r, fence)" by fastforce
  note law = fence_advance_law [OF run]
  have "r = Ok ()" using law(4) shard_okD(6) [OF assms Some] by simp
  then show ?thesis
    using that [of fence] law run Some fence_ok_advance [OF shard_okD(5) [OF assms Some] run]
    by (simp add: advanced_fence_def map_err_def)
qed

lemma record_crash_simps [simp]:
  "sh_phase (record_crash report s) = sh_phase s" "sh_image (record_crash report s) = sh_image s"
  "sh_epoch (record_crash report s) = sh_epoch s" "sh_epoch_fence (record_crash report s) = sh_epoch_fence s"
  "sh_internal_operation (record_crash report s) = sh_internal_operation s"
  "sh_next_epoch (record_crash report s) = sh_next_epoch s" "sh_signals (record_crash report s) = sh_signals s"
  "sh_restart_count (record_crash report s) = sh_restart_count s" "sh_policy (record_crash report s) = sh_policy s"
  "sh_restart_deadline_tick (record_crash report s) = sh_restart_deadline_tick s"
  "sh_termination (record_crash report s) = sh_termination s"
  "sh_last_crash (record_crash report s) = Some report" "sh_crash_history (record_crash report s) \<noteq> []"
  "last (sh_crash_history (record_crash report s)) = report"
  "length (sh_crash_history s) \<le> MAX_CRASH_HISTORY
     \<Longrightarrow> length (sh_crash_history (record_crash report s)) \<le> MAX_CRASH_HISTORY"
  by (auto simp: record_crash_def MAX_CRASH_HISTORY_def)

text \<open>A change of the phase alone, of the fence at one generation, and of the crash records.\<close>

lemma shard_ok_phase:
  assumes "shard_ok s" and "phase \<in> {AwaitingReady, Ready, Draining, Stopping} \<Longrightarrow> sh_epoch s \<noteq> None"
    and "phase \<notin> {RestartBackoff, Stopped}" and "sh_phase s \<notin> {RestartBackoff, Stopped}"
  shows "shard_ok (s\<lparr> sh_phase := phase \<rparr>)"
  using assms by (auto simp: shard_ok_def simp del: not_None_eq)

lemma shard_ok_fence:
  assumes "shard_ok s" and "sh_epoch_fence s = Some fence" and "fence_ok fence'"
    and "fence_epoch fence' = fence_epoch fence"
  shows "shard_ok (s\<lparr> sh_epoch_fence := Some fence' \<rparr>)"
  using assms by (auto simp: shard_ok_def simp del: not_None_eq)

lemma shard_ok_internal:
  assumes "shard_ok s" and "\<And>op. current = Some op \<Longrightarrow> sh_epoch s = Some (eop_epoch op)"
  shows "shard_ok (s\<lparr> sh_internal_operation := current \<rparr>)"
  using assms by (simp add: shard_ok_def)

lemma shard_ok_crashed:
  assumes "shard_ok s" and "phase = RestartBackoff \<longleftrightarrow> deadline \<noteq> None" and "phase \<in> {RestartBackoff, Quarantined}"
    and "sh_phase s \<noteq> Stopped" and s1: "s1 = s \<or> s1 = s\<lparr> sh_restart_count := n \<rparr>"
  shows "shard_ok ((record_crash report s1)\<lparr> sh_restart_deadline_tick := deadline, sh_phase := phase \<rparr>)"
proof -
  have "shard_ok (s\<lparr> sh_restart_count := n \<rparr>)" using assms(1) by (simp add: shard_ok_def)
  then have ok: "shard_ok s1" using s1 assms(1) by metis
  have running: "sh_phase s1 \<noteq> Stopped" using s1 assms(4) by (elim disjE) simp_all
  note d = shard_okD [OF ok]
  have stopped: "sh_termination s1 = None" using d(10) running by blast
  from assms(3) have "phase = RestartBackoff \<and> deadline \<noteq> None \<or> phase = Quarantined \<and> deadline = None"
    using assms(2) by auto
  then show ?thesis
    using ok [unfolded shard_ok_def] stopped unfolding shard_ok_def
    by (elim disjE conjE; intro conjI; simp (no_asm_simp) del: not_None_eq)
qed

lemma install_keeps:
  assumes ok: "shard_ok s" and img: "image_ok img" and phase: "sh_phase s \<in> {Admitting, Draining}"
    and run: "install_next_image img s = (Ok epoch, s')"
  shows "shard_ok s'"
proof -
  obtain fence where fence: "advanced_fence (sh_next_epoch s) (sh_epoch_fence s) = Ok fence"
      "fence_ok fence" "fence_epoch fence = sh_next_epoch s"
    by (rule advanced_fence_Ok [OF ok])
  have room: "unat (sh_next_epoch s) + 1 < 2 ^ 64" and nonzero: "sh_next_epoch s \<noteq> 0"
    and s': "s' = s\<lparr> sh_image := Some img, sh_epoch := Some (sh_next_epoch s), sh_epoch_fence := Some fence,
       sh_internal_operation := None, sh_next_epoch := sh_next_epoch s + 1, sh_signals := signals_default,
       sh_phase := AwaitingReady \<rparr>"
    using run fence(1) unfolding install_Ok by auto
  from room have "unat (sh_next_epoch s + 1) = unat (sh_next_epoch s) + 1" by (simp add: unat_word_ariths)
  then have later: "sh_next_epoch s < sh_next_epoch s + 1" "sh_next_epoch s + 1 \<noteq> 0"
    by (simp_all add: word_less_nat_alt unat_eq_0 [symmetric] del: unat_eq_0)
  have quiet: "sh_restart_deadline_tick s = None" "sh_termination s = None"
    using phase by (auto intro: shard_okD(9,10) [OF ok])
  show ?thesis
    using ok img fence later nonzero quiet unfolding s' shard_ok_def by simp
qed

lemma step_keeps:
  assumes ok: "shard_ok s" and adm: "admissible c" and run: "shard_step c s = (r, s')"
  shows "shard_ok s'"
proof (cases r)
  case (Ok a)
  note run = run [unfolded Ok]
  note d = shard_okD [OF ok]
  show ?thesis
  proof (cases c)
    case BeginNegotiation
    then show ?thesis using run by (auto simp: step_Ok intro!: shard_ok_phase [OF ok])
  next
    case (Negotiate proposed)
    then show ?thesis using run by (auto simp: step_Ok intro!: shard_ok_phase [OF ok])
  next
    case (AdmitImage img)
    then show ?thesis using run adm by (auto simp: step_Ok intro: install_keeps [OF ok, of img])
  next
    case (ReplaceDrained epoch img)
    then show ?thesis using run adm by (auto simp: step_Ok intro: install_keeps [OF ok, of img])
  next
    case (AcknowledgeReady epoch)
    then show ?thesis using run by (auto simp: step_Ok intro!: shard_ok_phase [OF ok])
  next
    case (SignalHealth epoch n)
    then show ?thesis using run ok by (auto simp: step_Ok shard_ok_def simp del: not_None_eq)
  next
    case (SignalProgress epoch n)
    then show ?thesis using run ok by (auto simp: step_Ok shard_ok_def simp del: not_None_eq)
  next
    case (BeginOperation op)
    then obtain fence admission fence' where f: "sh_epoch_fence s = Some fence"
        "fence_begin op fence = (Ok admission, fence')" "s' = s\<lparr> sh_epoch_fence := Some fence' \<rparr>"
      using run by (auto simp: step_Ok)
    have "fence_epoch fence' = fence_epoch fence"
      using fence_begin_law(1) [OF f(2), of admission] fence_begin_law(2) [OF f(2)]
      by (cases "executes admission") auto
    then show ?thesis unfolding f(3)
      by (intro shard_ok_fence [OF ok f(1)] fence_ok_step [OF d(5) [OF f(1)] f(2)])
  next
    case (CommitOperation op)
    then obtain fence answer fence' where f: "sh_epoch_fence s = Some fence"
        "fence_commit op fence = (Ok answer, fence')" "s' = s\<lparr> sh_epoch_fence := Some fence' \<rparr>"
      using run by (auto simp: step_Ok)
    have "fence_epoch fence' = fence_epoch fence"
      using fence_commit_law(1,2) [OF f(2)] by (cases answer) auto
    then show ?thesis unfolding f(3)
      by (intro shard_ok_fence [OF ok f(1)] fence_ok_commit [OF d(5) [OF f(1)] f(2)])
  next
    case (BeginInternal op)
    then show ?thesis using run ok by (auto simp: step_Ok intro!: shard_ok_internal [OF ok])
  next
    case (CommitInternal op)
    then show ?thesis using run ok by (auto simp: step_Ok intro!: shard_ok_internal [OF ok])
  next
    case (AbortInternal op)
    then show ?thesis using run ok by (auto simp: step_Ok_others intro!: shard_ok_internal [OF ok] split: if_splits)
  next
    case (RetireInternal op)
    show ?thesis
    proof (cases "sh_epoch_fence s")
      case None
      then show ?thesis using run ok \<open>c = RetireInternal op\<close> by (auto simp: step_Ok_others)
    next
      case (Some fence)
      then obtain retired fence' where f: "fence_retire_committed op fence = (retired, fence')"
          "s' = s\<lparr> sh_epoch_fence := Some fence' \<rparr>"
        using run \<open>c = RetireInternal op\<close> by (auto simp: step_Ok_others)
      show ?thesis unfolding f(2)
        by (intro shard_ok_fence [OF ok Some] fence_ok_retire [OF d(5) [OF Some] f(1)] fence_retire_law(3) [OF f(1)])
    qed
  next
    case (BeginDrain epoch)
    then show ?thesis using run by (auto simp: step_Ok intro!: shard_ok_phase [OF ok])
  next
    case (QuarantineDrain epoch reason tick refs)
    then show ?thesis using run by (auto simp: step_Ok_others intro!: shard_ok_crashed [OF ok])
  next
    case (RequestStop epoch)
    then show ?thesis using run by (auto simp: step_Ok intro!: shard_ok_phase [OF ok])
  next
    case (AcknowledgeStopped epoch)
    then show ?thesis using run ok by (auto simp: step_Ok shard_ok_def simp del: not_None_eq)
  next
    case ForceTerminate
    then show ?thesis using run ok by (auto simp: step_Ok shard_ok_def simp del: not_None_eq)
  next
    case (ReportCrash reason tick refs)
    then show ?thesis using run
      by (auto simp: step_Ok_crash crashed_def split: if_splits intro!: shard_ok_crashed [OF ok])
  next
    case (RestartWhenDue tick)
    then show ?thesis using run ok by (auto simp: step_Ok_others shard_ok_def simp del: not_None_eq)
  qed
next
  case (Err e)
  then show ?thesis using refused_unchanged [OF run] ok by simp
next
  case (Panic p)
  then show ?thesis using refused_unchanged [OF run] ok by simp
qed

section \<open>No call panics\<close>

lemma bind_reads_Panic:
  assumes "reads m"
  shows "bind_st m f s = (Panic p, s') \<longleftrightarrow>
    fst (m s) = Panic p \<and> s' = s \<or> (\<exists>a. fst (m s) = Ok a \<and> f a s = (Panic p, s'))"
proof -
  have "m s = (fst (m s), s)" using assms unfolding reads_def by (metis prod.collapse)
  then obtain r where "m s = (r, s)" by blast
  then show ?thesis by (cases r) (auto simp: bind_st_def)
qed

lemma guard_Panic:
  "fst (read_st f s) = Panic p \<longleftrightarrow> f s = Panic p"
  "fst (require_phase phase operation s) \<noteq> Panic p"
  "fst (require_active_signal_phase operation s) \<noteq> Panic p"
  "fst (require_operation_phase operation s) \<noteq> Panic p"
  "fst (require_epoch epoch s) = Panic p \<Longrightarrow> sh_epoch s = None"
  "change_shard g s \<noteq> (Panic p, s')"
  by (auto simp: guard_defs read_st_def split: option.splits if_splits)

lemma answering_Panic: "answering f m s = (Panic p, s') \<longleftrightarrow> m s = (Panic p, s')"
  by (auto simp: answering_def bind_st_def return_st_def split: prod.splits outcome.splits)

lemmas panic_simps = bind_reads_Panic reads_guards guard_Panic(1-4,6) guard_Ok answering_Panic return_st_def
  require_advancing_def

lemma on_fence_calm:
  assumes "on_fence f s = (Panic p, s')" and "\<And>fence fence'. f fence \<noteq> (Panic p, fence')"
  shows "sh_epoch_fence s = None"
  using assms by (auto simp: on_fence_def map_err_def split: option.splits prod.splits outcome.splits)

lemma install_calm:
  assumes "shard_ok s"
  shows "install_next_image img s \<noteq> (Panic p, s')"
proof -
  obtain fence where fence: "advanced_fence (sh_next_epoch s) (sh_epoch_fence s) = Ok fence"
    by (rule advanced_fence_Ok [OF assms])
  show ?thesis
    unfolding install_next_image_def bind_reads_Panic [OF reads_guards(1)]
    using fence by (auto simp: guard_Panic(1) guard_Ok map_err_def shard_epoch_new_def ok_or_def bind_st_def
        change_shard_def return_st_def split: option.splits if_splits)
qed

lemma step_calm:
  assumes ok: "shard_ok s"
  shows "shard_step c s \<noteq> (Panic p, s')"
proof
  assume run: "shard_step c s = (Panic p, s')"
  have epoch: "sh_phase s \<in> {AwaitingReady, Ready, Draining, Stopping} \<Longrightarrow> fst (require_epoch e s) \<noteq> Panic p" for e
    using guard_Panic(5) [of e s p] shard_okD(7) [OF ok] by auto
  have fence: "sh_phase s \<in> {Ready, Draining} \<Longrightarrow> sh_epoch_fence s \<noteq> None"
    using shard_okD(4,7) [OF ok] by fastforce
  have started: "sh_phase s \<in> {Ready, Draining} \<Longrightarrow> on_fence (fence_begin op) s \<noteq> (Panic p, s')" for op
    using fence on_fence_calm [of "fence_begin op" s p s'] fence_begin_law(3) by metis
  have recorded: "sh_phase s \<in> {Ready, Draining} \<Longrightarrow> on_fence (fence_commit op) s \<noteq> (Panic p, s')" for op
    using fence on_fence_calm [of "fence_commit op" s p s'] fence_commit_law(4) by metis
  have crash: "crash_image_metadata refs s \<noteq> Panic p" for refs
    using crash_metadata_Ok [OF ok, of refs] by auto
  have deadline: "sh_phase s = RestartBackoff \<Longrightarrow> sh_restart_deadline_tick s \<noteq> None" by (rule shard_okD(8) [OF ok])
  note calm = epoch started recorded crash install_calm [OF ok]
  show False
    using run
    by (cases c)
      (auto simp: panic_simps calm shard_step.simps begin_negotiation_def negotiate_def admit_image_def
        replace_drained_image_def acknowledge_ready_def signal_health_def signal_progress_def
        begin_epoch_operation_def commit_epoch_operation_def begin_internal_operation_def
        commit_internal_operation_def begin_drain_def quarantine_drain_timeout_with_lifetime_def
        request_graceful_stop_def acknowledge_stopped_def force_terminate_def report_crash_with_lifetime_def
        restart_when_due_def flagged_def ok_or_def
        dest: deadline split: option.splits if_splits prod.splits)
qed

end
