(* ===== verification/Shard_Properties.thy ===== *)
theory Shard_Properties
  imports Shard_Laws
begin

text \<open>
  What the supervisor of an execution shard promises over a whole life: the invariant holds and no
  call panics, an operation takes effect in the order its ledger allows, epochs only grow and only
  the newest one is obeyed, and restarts stay within their budget.
\<close>

section \<open>The invariant over a run\<close>

lemma run_keeps:
  assumes "shard_ok s" and "list_all admissible cs" and "shard_run cs s = (events, s')"
  shows "shard_ok s' \<and> list_all (\<lambda>(c, r). \<forall>p. r \<noteq> Panic p) events"
  using assms
proof (induction cs arbitrary: s events)
  case (Cons c cs)
  obtain r s1 where step: "shard_step c s = (r, s1)" by fastforce
  obtain later where rest: "shard_run cs s1 = (later, s')" and events: "events = (c, r) # later"
    using Cons.prems(3) step by (auto split: prod.splits)
  have "shard_ok s1" using step_keeps [OF Cons.prems(1) _ step] Cons.prems(2) by simp
  moreover have "r \<noteq> Panic p" for p using step_calm [OF Cons.prems(1)] step by metis
  ultimately show ?case using Cons.IH [OF _ _ rest] Cons.prems(2) events by auto
qed simp

lemma run_append:
  "shard_run (cs @ ds) s = (case shard_run cs s of (events, s1) \<Rightarrow>
     (case shard_run ds s1 of (events', s2) \<Rightarrow> (events @ events', s2)))"
  by (induction cs arbitrary: s) (auto split: prod.splits)

lemma run_snoc:
  assumes "shard_run (cs @ [c]) s = (events @ [(c, r)], s')"
  obtains s1 where "shard_run cs s = (events, s1)" "shard_step c s1 = (r, s')"
  using assms by (auto simp: run_append split: prod.splits)

section \<open>The effects of one identity\<close>

text \<open>An attempt admitted to execute is an effect of its identity, and so are its first commit and the
  retirement of its committed row.\<close>

datatype effect = Ran VmShardEpochOperation | Recorded VmShardEpochOperation | Dropped VmShardEpochOperation

fun effects :: "VmShardOperationId \<Rightarrow> shard_event \<Rightarrow> effect list" where
  "effects i (BeginOperation op, Ok (Admitted admission)) =
     (if eop_id op = i \<and> executes admission then [Ran op] else [])"
| "effects i (CommitOperation op, Ok (CommitAnswer commit)) =
     (if eop_id op = i \<and> commit = Committed then [Recorded op] else [])"
| "effects i (RetireInternal op, Ok (Flag retired)) = (if eop_id op = i \<and> retired then [Dropped op] else [])"
| "effects i _ = []"

definition history :: "VmShardOperationId \<Rightarrow> shard_event list \<Rightarrow> effect list" where
  "history i events = concat (map (effects i) events)"

lemma history_simps [simp]:
  "history i [] = []" "history i (event # events) = effects i event @ history i events"
  "history i (events @ events') = history i events @ history i events'"
  by (simp_all add: history_def)

definition ledger :: "VmExecutionShardSupervisor \<Rightarrow> VmShardOperationId \<Rightarrow> VmShardOperationState option" where
  "ledger s i = (case sh_epoch_fence s of None \<Rightarrow> None | Some fence \<Rightarrow> standing fence i)"

definition ledger_meaning :: "VmExecutionShardSupervisor \<Rightarrow> VmShardOperationId
    \<Rightarrow> (VmShardOperationKind \<times> VmShardReplayPolicy) option" where
  "ledger_meaning s i = (case sh_epoch_fence s of None \<Rightarrow> None | Some fence \<Rightarrow> meaning fence i)"

lemmas ledger_defs = ledger_def ledger_meaning_def

lemma effects_cases:
  assumes "effects i event = e # es"
  obtains (Ran) op admission where "event = (BeginOperation op, Ok (Admitted admission))"
      "executes admission" "eop_id op = i" "e = Ran op" "es = []"
  | (Recorded) op where "event = (CommitOperation op, Ok (CommitAnswer Committed))"
      "eop_id op = i" "e = Recorded op" "es = []"
  | (Dropped) op where "event = (RetireInternal op, Ok (Flag True))" "eop_id op = i" "e = Dropped op" "es = []"
  using assms by (cases "(i, event)" rule: effects.cases) (auto split: if_splits)

lemma install_ledger:
  assumes ok: "shard_ok s" and run: "install_next_image img s = (Ok epoch, s')"
  shows "ledger s' = ledger s \<and> ledger_meaning s' = ledger_meaning s"
proof -
  obtain fence where f: "advanced_fence (sh_next_epoch s) (sh_epoch_fence s) = Ok fence"
    "\<And>i. standing fence i = (case sh_epoch_fence s of None \<Rightarrow> None | Some old \<Rightarrow> standing old i)"
    "\<And>i. meaning fence i = (case sh_epoch_fence s of None \<Rightarrow> None | Some old \<Rightarrow> meaning old i)"
    using advanced_fence_Ok [OF ok] by metis
  then have "sh_epoch_fence s' = Some fence" using run by (auto simp: install_Ok)
  then show ?thesis using f by (simp add: ledger_defs fun_eq_iff)
qed

lemma ledger_frame:
  "sh_epoch_fence s' = sh_epoch_fence s \<Longrightarrow> ledger s' = ledger s \<and> ledger_meaning s' = ledger_meaning s"
  by (simp add: ledger_defs fun_eq_iff)

text \<open>A call with no effect on an identity leaves what the ledger knows of it.\<close>

lemma idle_step:
  assumes ok: "shard_ok s" and run: "shard_step c s = (r, s')"
    and idle: "effects i (c, r) = []"
  shows "ledger s' i = ledger s i \<and> ledger_meaning s' i = ledger_meaning s i"
proof (cases r)
  case (Ok a)
  note run = run [unfolded Ok]
  show ?thesis
  proof (cases c)
    case (AdmitImage img)
    then show ?thesis using run install_ledger [OF ok] by (auto simp: step_Ok)
  next
    case (ReplaceDrained epoch img)
    then show ?thesis using run install_ledger [OF ok] by (auto simp: step_Ok)
  next
    case (BeginOperation op)
    then obtain fence admission fence' where f: "sh_epoch_fence s = Some fence" "a = Admitted admission"
        "fence_begin op fence = (Ok admission, fence')" "s' = s\<lparr> sh_epoch_fence := Some fence' \<rparr>"
      using run by (auto simp: step_Ok)
    show ?thesis
    proof (cases "executes admission")
      case True
      then have "eop_id op \<noteq> i" using idle Ok BeginOperation f(2) by (auto split: if_splits)
      then show ?thesis using fence_begin_law(1) [OF f(3) refl True] f by (simp add: ledger_defs)
    next
      case False
      then have "fence' = fence" using fence_begin_law(2) [OF f(3)] by simp
      then show ?thesis using f by (simp add: ledger_defs)
    qed
  next
    case (CommitOperation op)
    then obtain fence commit fence' where f: "sh_epoch_fence s = Some fence" "a = CommitAnswer commit"
        "fence_commit op fence = (Ok commit, fence')" "s' = s\<lparr> sh_epoch_fence := Some fence' \<rparr>"
      using run by (auto simp: step_Ok)
    show ?thesis
    proof (cases "commit = Committed")
      case True
      then have "eop_id op \<noteq> i" using idle Ok CommitOperation f(2) by (auto split: if_splits)
      then show ?thesis using fence_commit_law(1) [OF f(3)] True f by (simp add: ledger_defs)
    next
      case False
      then have "fence' = fence" using fence_commit_law(2) [OF f(3)] by simp
      then show ?thesis using f by (simp add: ledger_defs)
    qed
  next
    case (RetireInternal op)
    show ?thesis
    proof (cases "sh_epoch_fence s")
      case None
      then show ?thesis using run RetireInternal by (auto simp: step_Ok_others)
    next
      case (Some fence)
      then obtain retired fence' where f: "a = Flag retired" "fence_retire_committed op fence = (retired, fence')"
          "s' = s\<lparr> sh_epoch_fence := Some fence' \<rparr>"
        using run RetireInternal by (auto simp: step_Ok_others)
      then have "retired \<Longrightarrow> i \<noteq> eop_id op" using idle Ok RetireInternal by auto
      then show ?thesis
        using f Some fence_retire_law(1) [OF f(2), of i] fence_retire_law(2) [OF f(2)]
        by (cases retired) (auto simp: ledger_defs)
    qed
  next
    case (ReportCrash reason tick refs)
    then have "sh_epoch_fence s' = sh_epoch_fence s"
      using run by (auto simp: step_Ok_crash crashed_def split: if_splits)
    then show ?thesis using ledger_frame by metis
  qed (use run in \<open>auto simp: step_Ok step_Ok_others ledger_defs split: if_splits\<close>)
next
  case (Err e)
  then show ?thesis using refused_unchanged [OF run] by simp
next
  case (Panic p)
  then show ?thesis using refused_unchanged [OF run] by simp
qed

text \<open>The attempts of one identity, oldest first: each in a later generation than the one before,
  all of one class and policy, and an at-most-once operation only once.\<close>

definition attempts_ok :: "VmShardOperationId \<Rightarrow> VmShardEpochOperation list \<Rightarrow> bool" where
  "attempts_ok i ops \<longleftrightarrow> sorted_wrt (\<lambda>a b. eop_epoch a < eop_epoch b) ops
     \<and> (\<forall>a \<in> set ops. eop_id a = i)
     \<and> (\<forall>a \<in> set ops. \<forall>b \<in> set ops. eop_meaning a = eop_meaning b)
     \<and> ((\<exists>a \<in> set ops. eop_replay_policy a = AtMostOnce) \<longrightarrow> length ops \<le> 1)"

definition followed :: "VmShardOperationId \<Rightarrow> effect list \<Rightarrow> VmShardOperationState option
    \<Rightarrow> (VmShardOperationKind \<times> VmShardReplayPolicy) option \<Rightarrow> bool" where
  "followed i h state known \<longleftrightarrow> (case state of
     None \<Rightarrow> h = []
   | Some (Prepared epoch) \<Rightarrow> (\<exists>ops op. h = map Ran (ops @ [op]) \<and> attempts_ok i (ops @ [op])
       \<and> eop_epoch op = epoch \<and> known = Some (eop_meaning op))
   | Some StateCommitted \<Rightarrow> (\<exists>ops op op'. h = map Ran (ops @ [op]) @ [Recorded op'] \<and> attempts_ok i (ops @ [op])
       \<and> eop_id op' = i \<and> eop_epoch op' = eop_epoch op \<and> eop_meaning op' = eop_meaning op
       \<and> known = Some (eop_meaning op')))"

text \<open>A round of an identity: its attempts, the commit in the generation of the last one, and the retirement
  of the committed row, after which the ledger knows nothing of the identity. The last round may be open.\<close>

definition closed_round :: "VmShardOperationId \<Rightarrow> effect list \<Rightarrow> bool" where
  "closed_round i h \<longleftrightarrow> (\<exists>ops op op'. ops \<noteq> [] \<and> attempts_ok i ops \<and> h = map Ran ops @ [Recorded op, Dropped op']
     \<and> eop_id op = i \<and> eop_epoch op = eop_epoch (last ops) \<and> eop_meaning op = eop_meaning (last ops)
     \<and> eop_id op' = i \<and> eop_meaning op' = eop_meaning op)"

definition open_round :: "VmShardOperationId \<Rightarrow> effect list \<Rightarrow> bool" where
  "open_round i h \<longleftrightarrow> (\<exists>ops. attempts_ok i ops \<and> (h = map Ran ops
     \<or> (\<exists>op. ops \<noteq> [] \<and> h = map Ran ops @ [Recorded op] \<and> eop_id op = i
          \<and> eop_epoch op = eop_epoch (last ops) \<and> eop_meaning op = eop_meaning (last ops))))"

definition traced :: "VmShardOperationId \<Rightarrow> effect list \<Rightarrow> VmShardOperationState option
    \<Rightarrow> (VmShardOperationKind \<times> VmShardReplayPolicy) option \<Rightarrow> bool" where
  "traced i h state known \<longleftrightarrow> (\<exists>rounds current. h = concat rounds @ current \<and> (\<forall>r \<in> set rounds. closed_round i r)
     \<and> followed i current state known)"

lemma followed_open:
  assumes "followed i h state known"
  shows "open_round i h"
proof (cases state)
  case None
  then have "h = map Ran []" using assms by (simp add: followed_def)
  moreover have "attempts_ok i []" by (simp add: attempts_ok_def)
  ultimately show ?thesis unfolding open_round_def by blast
next
  case (Some standing)
  show ?thesis
  proof (cases standing)
    case (Prepared epoch)
    then obtain ops op where "h = map Ran (ops @ [op])" "attempts_ok i (ops @ [op])"
      using assms Some by (auto simp: followed_def)
    then show ?thesis unfolding open_round_def by blast
  next
    case StateCommitted
    then obtain ops op op' where "h = map Ran (ops @ [op]) @ [Recorded op']" "attempts_ok i (ops @ [op])"
        "eop_id op' = i" "eop_epoch op' = eop_epoch op" "eop_meaning op' = eop_meaning op"
      using assms Some by (auto simp: followed_def)
    then show ?thesis unfolding open_round_def
      by (intro exI [of _ "ops @ [op]"] conjI disjI2 exI [of _ op']) simp_all
  qed
qed

lemma fence_retire_meaning:
  "fence_retire_committed op fence = (True, fence') \<Longrightarrow> standing fence (eop_id op) = Some StateCommitted
     \<and> meaning fence (eop_id op) = Some (eop_meaning op)
     \<and> fence' = fence\<lparr> fence_operations := bt_remove (eop_id op) (fence_operations fence) \<rparr>"
  by (auto simp: fence_retire_committed_def Let_def standing_def meaning_def eop_meaning_def
      split: option.splits if_splits)

lemma attempts_ok_one: "attempts_ok (eop_id op) [op]"
  by (simp add: attempts_ok_def)

lemma attempts_ok_snoc:
  assumes ok: "attempts_ok i (ops @ [old])" and op: "eop_id op = i" and later: "eop_epoch old < eop_epoch op"
    and same: "eop_meaning op = eop_meaning old" and again: "eop_replay_policy op \<noteq> AtMostOnce"
  shows "attempts_ok i ((ops @ [old]) @ [op])"
proof -
  let ?olds = "ops @ [old]"
  have sorted: "sorted_wrt (\<lambda>a b. eop_epoch a < eop_epoch b) ?olds" and ids: "\<forall>a \<in> set ?olds. eop_id a = i"
    and equal: "\<forall>a \<in> set ?olds. \<forall>b \<in> set ?olds. eop_meaning a = eop_meaning b"
    using ok unfolding attempts_ok_def by blast+
  have alike: "\<forall>a \<in> set ?olds. eop_meaning a = eop_meaning op"
    using equal same by (metis in_set_conv_decomp)
  have policy: "\<forall>a \<in> set ?olds. eop_replay_policy a \<noteq> AtMostOnce"
    using alike again by (auto simp: eop_meaning_def)
  have "\<forall>a \<in> set ops. eop_epoch a < eop_epoch old" using sorted by (simp add: sorted_wrt_append)
  then have "\<forall>a \<in> set ?olds. eop_epoch a < eop_epoch op" using later by (auto intro: order.strict_trans)
  then have "sorted_wrt (\<lambda>a b. eop_epoch a < eop_epoch b) (?olds @ [op])"
    using sorted unfolding sorted_wrt_append [of _ ?olds "[op]"] by simp
  moreover have "\<forall>a \<in> set (?olds @ [op]). \<forall>b \<in> set (?olds @ [op]). eop_meaning a = eop_meaning b"
    using alike by (metis set_append Un_iff empty_iff insert_iff list.set(1,2))
  moreover have "\<forall>a \<in> set (?olds @ [op]). eop_replay_policy a \<noteq> AtMostOnce" using policy again by simp
  moreover have "\<forall>a \<in> set (?olds @ [op]). eop_id a = i" using ids op by simp
  ultimately show ?thesis unfolding attempts_ok_def by blast
qed

lemma effect_step:
  assumes ok: "shard_ok s" and run: "shard_step c s = (r, s')"
    and effect: "effects i (c, r) = e # es" and h: "followed i h (ledger s i) (ledger_meaning s i)"
  shows "followed i (h @ effects i (c, r)) (ledger s' i) (ledger_meaning s' i)
    \<or> closed_round i (h @ effects i (c, r)) \<and> ledger s' i = None"
  using effect
proof (cases rule: effects_cases)
  case (Ran op admission)
  then obtain fence fence' where f: "sh_epoch_fence s = Some fence"
      "fence_begin op fence = (Ok admission, fence')" "s' = s\<lparr> sh_epoch_fence := Some fence' \<rparr>"
    using run by (auto simp: step_Ok)
  note begun = fence_begin_law(1) [OF f(2) refl Ran(2), unfolded Ran(3)]
  have now: "ledger s' i = Some (Prepared (eop_epoch op))" "ledger_meaning s' i = Some (eop_meaning op)"
    using begun f by (simp_all add: ledger_defs)
  show ?thesis
  proof (cases "standing fence i")
    case None
    then have "h = []" using h f(1) by (simp add: followed_def ledger_defs)
    then show ?thesis
      using now effect Ran attempts_ok_one [of op]
      by (auto simp: followed_def intro!: exI [of _ "[]"])
  next
    case (Some state)
    then obtain epoch where epoch: "standing fence i = Some (Prepared epoch)" "epoch \<noteq> fence_epoch fence"
        "meaning fence i = Some (eop_meaning op)" "eop_replay_policy op \<noteq> AtMostOnce"
      using begun by auto
    have "epoch \<le> fence_epoch fence" using shard_okD(5) [OF ok f(1)] epoch(1) unfolding fence_ok_def by blast
    then have later: "epoch < eop_epoch op" using epoch(2) begun by simp
    from h epoch(1,3) f(1) obtain ops old where old: "h = map Ran (ops @ [old])" "attempts_ok i (ops @ [old])"
        "eop_epoch old = epoch" "eop_meaning op = eop_meaning old"
      by (auto simp: followed_def ledger_defs)
    have "attempts_ok i ((ops @ [old]) @ [op])"
      using attempts_ok_snoc [OF old(2) Ran(3)] old(3,4) later epoch(4) by simp
    then show ?thesis
      using now effect Ran old(1) unfolding followed_def by (auto intro!: exI [of _ "ops @ [old]"] exI [of _ op])
  qed
next
  case (Recorded op)
  then obtain fence fence' where f: "sh_epoch_fence s = Some fence"
      "fence_commit op fence = (Ok Committed, fence')" "s' = s\<lparr> sh_epoch_fence := Some fence' \<rparr>"
    using run by (auto simp: step_Ok)
  note committed = fence_commit_law(1) [OF f(2) refl, unfolded Recorded(2)]
  from h committed f(1) obtain ops old where "h = map Ran (ops @ [old])" "attempts_ok i (ops @ [old])"
      "eop_epoch old = eop_epoch op" "eop_meaning op = eop_meaning old"
    by (auto simp: followed_def ledger_defs)
  moreover have "ledger s' i = Some StateCommitted" "ledger_meaning s' i = Some (eop_meaning op)"
    using committed f by (simp_all add: ledger_defs)
  ultimately show ?thesis using effect Recorded unfolding followed_def by fastforce
next
  case (Dropped op)
  then obtain fence fence' where f: "sh_epoch_fence s = Some fence"
      "fence_retire_committed op fence = (True, fence')" "s' = s\<lparr> sh_epoch_fence := Some fence' \<rparr>"
    using run by (auto simp: step_Ok_others)
  note retired = fence_retire_meaning [OF f(2), unfolded Dropped(2)] and gone = fence_retire_law(4) [OF f(2)]
  have "ledger s' i = None" using gone f(3) Dropped(2) by (simp add: ledger_defs)
  moreover have "closed_round i (h @ [Dropped op])"
  proof -
    have "ledger s i = Some StateCommitted" "ledger_meaning s i = Some (eop_meaning op)"
      using retired f(1) by (simp_all add: ledger_defs)
    then have "followed i h (Some StateCommitted) (Some (eop_meaning op))" using h by simp
    then obtain ops old op' where old: "h = map Ran (ops @ [old]) @ [Recorded op']" "attempts_ok i (ops @ [old])"
        "eop_id op' = i" "eop_epoch op' = eop_epoch old" "eop_meaning op' = eop_meaning old" "eop_meaning op = eop_meaning op'"
      unfolding followed_def option.case VmShardOperationState.case option.inject by blast
    then show ?thesis unfolding closed_round_def
      by (intro exI [of _ "ops @ [old]"] exI [of _ op'] exI [of _ op] conjI) (simp_all add: Dropped(2))
  qed
  ultimately show ?thesis using effect Dropped by simp
qed

lemma run_traced:
  assumes "shard_ok s" and "list_all admissible cs"
    and "shard_run cs s = (events, s')" and "traced i h (ledger s i) (ledger_meaning s i)"
  shows "traced i (h @ history i events) (ledger s' i) (ledger_meaning s' i)"
  using assms
proof (induction cs arbitrary: s events h)
  case (Cons c cs)
  obtain r s1 where step: "shard_step c s = (r, s1)" by fastforce
  obtain later where rest: "shard_run cs s1 = (later, s')" and events: "events = (c, r) # later"
    using Cons.prems(3) step by (auto split: prod.splits)
  have ok1: "shard_ok s1" using step_keeps [OF Cons.prems(1) _ step] Cons.prems(2) by simp
  obtain rounds current where h: "h = concat rounds @ current" "\<forall>r \<in> set rounds. closed_round i r"
      "followed i current (ledger s i) (ledger_meaning s i)"
    using Cons.prems(4) unfolding traced_def by blast
  have "traced i (h @ effects i (c, r)) (ledger s1 i) (ledger_meaning s1 i)"
  proof (cases "effects i (c, r)")
    case Nil
    then show ?thesis using idle_step [OF Cons.prems(1) step Nil] Cons.prems(4) by simp
  next
    case (Cons e es)
    from effect_step [OF \<open>shard_ok s\<close> step this h(3)] show ?thesis
    proof
      assume "followed i (current @ effects i (c, r)) (ledger s1 i) (ledger_meaning s1 i)"
      then show ?thesis using h(1,2) unfolding traced_def by (metis append.assoc)
    next
      assume closed: "closed_round i (current @ effects i (c, r)) \<and> ledger s1 i = None"
      then have "followed i [] (ledger s1 i) (ledger_meaning s1 i)" by (simp add: followed_def)
      moreover have "h @ effects i (c, r) = concat (rounds @ [current @ effects i (c, r)]) @ []" using h(1) by simp
      moreover have "\<forall>r \<in> set (rounds @ [current @ effects i (c, r)]). closed_round i r" using h(2) closed by simp
      ultimately show ?thesis unfolding traced_def by blast
    qed
  qed
  from Cons.IH [OF ok1 _ rest this] show ?case using Cons.prems(2) events by simp
qed simp

section \<open>Generations and restarts\<close>

fun gave :: "shard_event \<Rightarrow> VmShardEpoch list" where
  "gave (_, Ok (GaveEpoch epoch)) = [epoch]"
| "gave _ = []"

definition given_epochs :: "shard_event list \<Rightarrow> VmShardEpoch list" where
  "given_epochs events = concat (map gave events)"

fun restarted :: "shard_event \<Rightarrow> bool" where
  "restarted (RestartWhenDue _, Ok _) = True"
| "restarted _ = False"

definition restarts :: "shard_event list \<Rightarrow> nat" where
  "restarts events = length (filter restarted events)"

text \<open>The generations given out so far are below the next one, and the fence stands at the newest.\<close>

definition generations_ok :: "VmShardEpoch list \<Rightarrow> VmExecutionShardSupervisor \<Rightarrow> bool" where
  "generations_ok given s \<longleftrightarrow> sorted_wrt (<) given \<and> (\<forall>epoch \<in> set given. epoch < sh_next_epoch s)
     \<and> map_option fence_epoch (sh_epoch_fence s) = (if given = [] then None else Some (last given))"

lemma current_epoch:
  assumes "shard_ok s" and "generations_ok given s" and "sh_epoch s = Some epoch"
  shows "given \<noteq> [] \<and> last given = epoch"
  using shard_okD(4) [OF assms(1,3)] assms(2) by (auto simp: generations_ok_def split: if_splits)

text \<open>Every accepted call that names a generation names the current one, the retirement of a committed row
  apart.\<close>

lemma accepted_current:
  assumes ok: "shard_ok s" and run: "shard_step c s = (Ok a, s')" and named: "call_epoch c = Some epoch"
    and "a \<noteq> Flag False" and "\<forall>op. c \<noteq> RetireInternal op"
  shows "sh_epoch s = Some epoch"
proof (cases c)
  case (BeginOperation op)
  then obtain fence admission fence' where f: "sh_epoch_fence s = Some fence"
      "fence_begin op fence = (Ok admission, fence')" "sh_phase s \<in> {Ready, Draining}"
    using run by (auto simp: step_Ok)
  have "fence_epoch fence = eop_epoch op"
    using f(2) by (auto simp: fence_begin_def bind_st_def read_st_def fence_require_epoch_def split: if_splits)
  moreover obtain current where "sh_epoch s = Some current" using shard_okD(7) [OF ok] f(3) by auto
  ultimately show ?thesis using shard_okD(4) [OF ok] f(1) named BeginOperation by fastforce
next
  case (CommitOperation op)
  then obtain fence commit fence' where f: "sh_epoch_fence s = Some fence"
      "fence_commit op fence = (Ok commit, fence')" "sh_phase s \<in> {Ready, Draining}"
    using run by (auto simp: step_Ok)
  have "fence_epoch fence = eop_epoch op"
    using f(2) by (auto simp: fence_commit_def bind_st_def read_st_def fence_require_epoch_def split: if_splits)
  moreover obtain current where "sh_epoch s = Some current" using shard_okD(7) [OF ok] f(3) by auto
  ultimately show ?thesis using shard_okD(4) [OF ok] f(1) named CommitOperation by fastforce
next
  case (AbortInternal op)
  then show ?thesis
    using run named assms(4) ok by (auto simp: step_Ok_others shard_ok_def split: if_splits)
qed (use run named assms(5) in \<open>auto simp: step_Ok step_Ok_others\<close>)

lemma install_generation:
  assumes ok: "shard_ok s" and run: "install_next_image img s = (Ok epoch, s')" and g: "generations_ok given s"
  shows "generations_ok (given @ [epoch]) s'"
proof -
  obtain fence where f: "advanced_fence (sh_next_epoch s) (sh_epoch_fence s) = Ok fence"
      "fence_epoch fence = sh_next_epoch s"
    using advanced_fence_Ok [OF ok] by metis
  have room: "unat (sh_next_epoch s) + 1 < 2 ^ 64" and epoch: "epoch = sh_next_epoch s"
    and s': "sh_next_epoch s' = sh_next_epoch s + 1" "sh_epoch_fence s' = Some fence"
    using run f(1) by (auto simp: install_Ok)
  from room have "unat (sh_next_epoch s + 1) = unat (sh_next_epoch s) + 1" by (simp add: unat_word_ariths)
  then have "sh_next_epoch s < sh_next_epoch s + 1" by (simp add: word_less_nat_alt)
  then show ?thesis using g f(2) epoch s'
    by (auto simp: generations_ok_def sorted_wrt_append intro: order.strict_trans)
qed

lemma frame_generation:
  assumes "generations_ok given s" and "sh_next_epoch s' = sh_next_epoch s"
    and "map_option fence_epoch (sh_epoch_fence s') = map_option fence_epoch (sh_epoch_fence s)"
  shows "generations_ok given s'"
  using assms by (simp add: generations_ok_def)

lemma newest_generation_step:
  assumes ok: "shard_ok s" and run: "shard_step c s = (r, s')" and g: "generations_ok given s"
  shows "generations_ok (given @ gave (c, r)) s'"
proof (cases r)
  case (Ok a)
  note run = run [unfolded Ok]
  show ?thesis
  proof (cases c)
    case (AdmitImage img)
    then show ?thesis using run Ok g by (auto simp: step_Ok intro: install_generation [OF ok])
  next
    case (ReplaceDrained epoch img)
    then show ?thesis using run Ok g by (auto simp: step_Ok intro: install_generation [OF ok])
  next
    case (BeginOperation op)
    then obtain fence admission fence' where f: "sh_epoch_fence s = Some fence" "a = Admitted admission"
        "fence_begin op fence = (Ok admission, fence')" "s' = s\<lparr> sh_epoch_fence := Some fence' \<rparr>"
      using run by (auto simp: step_Ok)
    have "fence_epoch fence' = fence_epoch fence"
      using fence_begin_law(1) [OF f(3), of admission] fence_begin_law(2) [OF f(3)]
      by (cases "executes admission") auto
    then show ?thesis using f Ok by (auto intro: frame_generation [OF g])
  next
    case (CommitOperation op)
    then obtain fence commit fence' where f: "sh_epoch_fence s = Some fence" "a = CommitAnswer commit"
        "fence_commit op fence = (Ok commit, fence')" "s' = s\<lparr> sh_epoch_fence := Some fence' \<rparr>"
      using run by (auto simp: step_Ok)
    have "fence_epoch fence' = fence_epoch fence"
      using fence_commit_law(1,2) [OF f(3)] by (cases commit) auto
    then show ?thesis using f Ok by (auto intro: frame_generation [OF g])
  next
    case (RetireInternal op)
    then show ?thesis using run Ok fence_retire_law(3)
      by (auto simp: step_Ok_others intro!: frame_generation [OF g])
  next
    case (ReportCrash reason tick refs)
    then show ?thesis using run Ok
      by (auto simp: step_Ok_crash crashed_def split: if_splits intro!: frame_generation [OF g])
  qed (use run Ok in \<open>auto simp: step_Ok step_Ok_others split: if_splits intro!: frame_generation [OF g]\<close>)
next
  case (Err e)
  then show ?thesis using refused_unchanged [OF run] g by simp
next
  case (Panic p)
  then show ?thesis using refused_unchanged [OF run] g by simp
qed

lemma run_generations:
  assumes "shard_ok s" and "list_all admissible cs" and "shard_run cs s = (events, s')"
    and "generations_ok given s"
  shows "generations_ok (given @ given_epochs events) s'"
  using assms
proof (induction cs arbitrary: s events given)
  case (Cons c cs)
  obtain r s1 where step: "shard_step c s = (r, s1)" by fastforce
  obtain later where rest: "shard_run cs s1 = (later, s')" and events: "events = (c, r) # later"
    using Cons.prems(3) step by (auto split: prod.splits)
  have "shard_ok s1" using step_keeps [OF Cons.prems(1) _ step] Cons.prems(2) by simp
  from Cons.IH [OF this _ rest newest_generation_step [OF Cons.prems(1) step Cons.prems(4)]]
  show ?case using Cons.prems(2) events by (simp add: given_epochs_def)
qed (simp add: given_epochs_def)

text \<open>Restarts made, and one more while one is due, are within the crashes counted and the budget.\<close>

definition restarts_ok :: "nat \<Rightarrow> VmExecutionShardSupervisor \<Rightarrow> bool" where
  "restarts_ok n s \<longleftrightarrow> n + of_bool (sh_phase s = RestartBackoff)
     \<le> min (unat (sh_restart_count s)) (unat (shard_restart_budget (sh_policy s)))"

lemma counted_crash:
  assumes "count < (budget :: u32)"
  shows "unat (saturating_add count 1) = unat count + 1"
proof -
  have "unat budget < 2 ^ 32" using unsigned_less [of budget] by simp
  then show ?thesis using assms by (simp add: unat_saturating_add word_less_nat_alt)
qed

lemma restart_step:
  assumes run: "shard_step c s = (r, s')" and n: "restarts_ok n s"
  shows "restarts_ok (n + of_bool (restarted (c, r))) s'
    \<and> sh_policy s' = sh_policy s \<and> (sh_phase s = Quarantined \<longrightarrow> sh_phase s' = Quarantined \<and> \<not> restarted (c, r))"
proof (cases r)
  case (Ok a)
  note run = run [unfolded Ok]
  show ?thesis
  proof (cases c)
    case (AdmitImage img)
    then show ?thesis using run n by (auto simp: step_Ok install_Ok restarts_ok_def)
  next
    case (ReplaceDrained epoch img)
    then show ?thesis using run n by (auto simp: step_Ok install_Ok restarts_ok_def)
  next
    case (ReportCrash reason tick refs)
    show ?thesis
    proof (cases "shard_restart_budget (sh_policy s) \<le> sh_restart_count s")
      case True
      have "unat (sh_restart_count s) \<le> unat (saturating_add (sh_restart_count s) 1)" using saturating_add_ge by (simp add: word_le_nat_alt [symmetric])
      then show ?thesis
        using run ReportCrash True n by (auto simp: step_Ok_crash crashed_def restarts_ok_def)
    next
      case False
      then have "sh_restart_count s < shard_restart_budget (sh_policy s)" by simp
      then show ?thesis
        using run ReportCrash False n counted_crash [of "sh_restart_count s"]
        by (auto simp: step_Ok_crash crashed_def restarts_ok_def word_less_nat_alt)
    qed
  qed (use run Ok n in \<open>auto simp: step_Ok step_Ok_others restarts_ok_def split: if_splits\<close>)
next
  case (Err e)
  then have "\<not> restarted (c, r)" by (cases c) auto
  then show ?thesis using refused_unchanged [OF run] n Err by simp
next
  case (Panic p)
  then have "\<not> restarted (c, r)" by (cases c) auto
  then show ?thesis using refused_unchanged [OF run] n Panic by simp
qed

lemma run_restarts:
  assumes "shard_run cs s = (events, s')" and "restarts_ok n s"
  shows "restarts_ok (n + restarts events) s'
    \<and> sh_policy s' = sh_policy s \<and> (sh_phase s = Quarantined \<longrightarrow> sh_phase s' = Quarantined \<and> restarts events = 0)"
  using assms
proof (induction cs arbitrary: s events n)
  case (Cons c cs)
  obtain r s1 where step: "shard_step c s = (r, s1)" by fastforce
  obtain later where rest: "shard_run cs s1 = (later, s')" and events: "events = (c, r) # later"
    using Cons.prems(1) step by (auto split: prod.splits)
  note one = restart_step [OF step Cons.prems(2)]
  from Cons.IH [OF rest one [THEN conjunct1]] one show ?case
    unfolding events restarts_def by (auto simp: of_bool_def)
qed (simp add: restarts_def)

section \<open>A sample life\<close>

definition sample_policy :: VmShardSupervisorPolicy where
  "sample_policy = \<lparr> shard_protocol = 1, shard_restart_budget = 2,
     shard_restart_backoff = \<lparr> initial_delay_ms = 2, max_delay_ms = 8 \<rparr> \<rparr>"

definition sample_image :: VmSealedShardImage where
  "sample_image = \<lparr> image_identity = ''app'', image_descriptor_digest = [7], image_continuation_ids = [] \<rparr>"

definition sample_op :: "VmShardEpoch \<Rightarrow> VmShardReplayPolicy \<Rightarrow> VmShardEpochOperation" where
  "sample_op epoch policy = epoch_operation_new 5 epoch DatabaseWrite policy"

text \<open>A generation runs an operation and crashes; the next one repeats it, records it and retires it. The
  identity is then used again.\<close>

definition sample_life :: "shard_call list" where
  "sample_life = [BeginNegotiation, Negotiate 1, AdmitImage sample_image, AcknowledgeReady 1,
     BeginOperation (sample_op 1 Idempotent), ReportCrash ''x'' 10 [], RestartWhenDue 12, Negotiate 1,
     AdmitImage sample_image, AcknowledgeReady 2, CommitOperation (sample_op 1 Idempotent),
     BeginOperation (sample_op 2 Idempotent), CommitOperation (sample_op 2 Idempotent),
     RetireInternal (sample_op 1 Idempotent), BeginOperation (sample_op 2 Idempotent)]"

definition sample_new :: VmExecutionShardSupervisor where
  "sample_new = shard_new ''s'' sample_policy"

lemmas shard_eval = shard_step.simps shard_op_defs guard_defs answering_def bind_st_def read_st_def
  return_st_def map_err_def ok_or_def shard_epoch_new_def Let_def bt_get_def advanced_fence_def fence_advance_def fence_begin_def
  fence_commit_def fence_require_epoch_def fence_new_def put_operation_def shard_new_def bind_out_def flagged_def
  fence_retire_committed_def bt_remove_def

lemma sample_names [simp]: "blank ''app'' = False" "blank ''x'' = False" "[7] \<noteq> empty_digest"
  by code_simp+

lemma sample_clock [simp]:
  "checked_add (1 :: u64) 1 = Some 2" "checked_add (2 :: u64) 1 = Some 3" "saturating_add (0 :: u32) 1 = 1"
  "delay_for_restart_count \<lparr> initial_delay_ms = 2, max_delay_ms = 8 \<rparr> 1 = 2" "checked_add (10 :: u64) 2 = Some 12"
  "\<not> (2 :: u64) \<le> 1"
  by (simp_all add: checked_add_def saturating_add_def delay_for_restart_count_def word_le_nat_alt min_def)

lemma run_Nil: "shard_run [] s = ([], s)"
  by simp

lemma run_Cons:
  "shard_step c s = (r, s1) \<Longrightarrow> shard_run cs s1 = (events, s') \<Longrightarrow> shard_run (c # cs) s = ((c, r) # events, s')"
  by simp

definition sample_answers :: "(VmShardSupervisorError, shard_answer) outcome list" where
  "sample_answers = [Ok Done, Ok Done, Ok (GaveEpoch 1), Ok Done, Ok (Admitted ExecuteFirst), Ok Done, Ok Done,
     Ok Done, Ok (GaveEpoch 2), Ok Done, Err (EpochOperation (StaleEpoch 2 1)),
     Ok (Admitted ExecuteIdempotentReplay), Ok (CommitAnswer Committed), Ok (Flag True),
     Ok (Admitted ExecuteFirst)]"

lemma sample_run: "\<exists>s'. shard_run sample_life sample_new = (zip sample_life sample_answers, s')"
  unfolding sample_life_def sample_new_def sample_policy_def sample_image_def sample_op_def
    epoch_operation_new_def shard_new_def sample_answers_def zip_Cons_Cons zip.simps(1)
  apply (rule exI)
  apply (rule run_Cons, simp add: shard_eval record_crash_def crash_image_metadata_def diagnostic_metadata_new_def
      MAX_CRASH_HISTORY_def)+
  apply (rule run_Nil)
  done

lemma sample_admissible: "list_all admissible sample_life"
  by (simp add: sample_life_def sample_image_def image_ok_def)

lemmas sample_events = sample_life_def sample_answers_def sample_op_def epoch_operation_new_def history_def

section \<open>Properties\<close>

text \<open>C12: over any life of a shard the supervisor keeps its invariant (an image exactly while there is
  a generation, the fence at that generation, a deadline exactly in back-off, at most 64 crash
  reports with the last one on top), no call panics, and a refused call leaves the state as it was.\<close>

theorem shard_life_stays_consistent:
  assumes "list_all admissible cs" and "shard_run cs (shard_new shard_id policy) = (events, s)"
  shows "shard_ok s \<and> list_all (\<lambda>(c, r). \<forall>p. r \<noteq> Panic p) events
    \<and> (\<forall>c r s'. shard_step c s = (r, s') \<and> \<not> is_Ok r \<longrightarrow> s' = s)"
  using run_keeps [OF shard_new_ok assms] refused_unchanged by blast

theorem shard_life_stays_consistent_witness:
  "\<exists>s. shard_run sample_life sample_new = (zip sample_life sample_answers, s) \<and> shard_ok s"
proof -
  obtain s where run: "shard_run sample_life sample_new = (zip sample_life sample_answers, s)"
    using sample_run by blast
  show ?thesis
    using shard_life_stays_consistent [OF sample_admissible run [unfolded sample_new_def]] run by blast
qed

text \<open>C11: over any life of a shard, what its ledger did for an identity is a list of rounds. A round is a
  list of executions, each admitted in a later generation than the one before and all of one class and
  policy, a single one when the policy is at-most-once; then one commit, made in the generation of the last
  execution; then the retirement of the committed row. Only the last round may be unfinished. So, whatever
  crashes, restarts and replacements come between, an identity that was not retired is committed at most
  once and, at-most-once, executed at most once; after its retirement the ledger treats it as new, which is
  why the runtime retires only identities that it never issues again.\<close>

theorem operation_takes_effect_once:
  assumes "list_all admissible cs" and "shard_run cs (shard_new shard_id policy) = (events, s)"
  shows "\<exists>rounds current. history i events = concat rounds @ current
    \<and> list_all (closed_round i) rounds \<and> open_round i current"
proof -
  have "followed i [] (ledger (shard_new shard_id policy) i) (ledger_meaning (shard_new shard_id policy) i)"
    by (simp add: followed_def ledger_defs shard_new_def)
  then have "traced i [] (ledger (shard_new shard_id policy) i) (ledger_meaning (shard_new shard_id policy) i)"
    unfolding traced_def by (intro exI [of _ "[]"] exI [of _ "[]"]) simp
  from run_traced [OF shard_new_ok assms this] show ?thesis
    unfolding traced_def list_all_iff using followed_open by fastforce
qed

theorem operation_takes_effect_once_witness:
  "\<exists>s. shard_run sample_life sample_new = (zip sample_life sample_answers, s)
    \<and> history 5 (zip sample_life sample_answers)
        = [Ran (sample_op 1 Idempotent), Ran (sample_op 2 Idempotent), Recorded (sample_op 2 Idempotent),
           Dropped (sample_op 1 Idempotent), Ran (sample_op 2 Idempotent)]
    \<and> (\<exists>rounds current. history 5 (zip sample_life sample_answers) = concat rounds @ current
         \<and> list_all (closed_round 5) rounds \<and> open_round 5 current)"
proof -
  obtain s where run: "shard_run sample_life sample_new = (zip sample_life sample_answers, s)"
    using sample_run by blast
  then show ?thesis
    using operation_takes_effect_once [OF sample_admissible run [unfolded sample_new_def], of 5]
    by (simp add: sample_events)
qed

text \<open>C28: the generations a shard is given strictly increase, and an accepted call that names a
  generation, in an argument or in its operation, names the newest one given; an abort that finds nothing
  to abort does nothing and is not counted. The one exception is the retirement of a committed row of the
  ledger, which may carry the operation of an older generation: it removes that row and does nothing else.\<close>

theorem only_newest_generation_obeyed:
  assumes "list_all admissible cs" and "shard_run cs (shard_new shard_id policy) = (events, s)"
    and "shard_step c s = (Ok a, s')" and "call_epoch c = Some epoch" and "a \<noteq> Flag False"
  shows "sorted_wrt (<) (given_epochs events) \<and> given_epochs events \<noteq> []
    \<and> (last (given_epochs events) = epoch
       \<or> (\<exists>op fence. c = RetireInternal op \<and> sh_epoch_fence s = Some fence
            \<and> standing fence (eop_id op) = Some StateCommitted
            \<and> s' = s\<lparr> sh_epoch_fence := Some (fence\<lparr> fence_operations :=
                 bt_remove (eop_id op) (fence_operations fence) \<rparr>) \<rparr>))"
proof -
  have ok: "shard_ok s" using run_keeps [OF shard_new_ok assms(1,2)] by blast
  have "generations_ok [] (shard_new shard_id policy)" by (simp add: generations_ok_def shard_new_def)
  then have g: "generations_ok (given_epochs events) s"
    using run_generations [OF shard_new_ok assms(1,2)] by fastforce
  show ?thesis
  proof (cases "\<exists>op. c = RetireInternal op")
    case True
    then obtain op where c: "c = RetireInternal op" by blast
    obtain fence where fence: "sh_epoch_fence s = Some fence"
      using assms(3,5) by (cases "sh_epoch_fence s") (auto simp: c step_Ok_others)
    obtain retired fence' where run: "fence_retire_committed op fence = (retired, fence')" by fastforce
    have f: "c = RetireInternal op" "sh_epoch_fence s = Some fence"
        "fence_retire_committed op fence = (True, fence')" "s' = s\<lparr> sh_epoch_fence := Some fence' \<rparr>"
      using assms(3,5) c fence run by (auto simp: step_Ok_others)
    then show ?thesis
      using fence_retire_meaning [OF f(3)] g by (auto simp: generations_ok_def)
  next
    case False
    then have "sh_epoch s = Some epoch" using accepted_current [OF ok assms(3,4,5)] by blast
    from current_epoch [OF ok g this] g show ?thesis by (simp add: generations_ok_def)
  qed
qed

theorem only_newest_generation_obeyed_witness:
  "\<exists>s s'. shard_run (butlast sample_life) sample_new = (butlast (zip sample_life sample_answers), s)
    \<and> shard_step (BeginOperation (sample_op 2 Idempotent)) s = (Ok (Admitted ExecuteFirst), s')
    \<and> last (given_epochs (butlast (zip sample_life sample_answers))) = 2"
proof -
  obtain s' where run: "shard_run sample_life sample_new = (zip sample_life sample_answers, s')"
    using sample_run by blast
  have life: "sample_life = butlast sample_life @ [BeginOperation (sample_op 2 Idempotent)]"
    "zip sample_life sample_answers = butlast (zip sample_life sample_answers)
       @ [(BeginOperation (sample_op 2 Idempotent), Ok (Admitted ExecuteFirst))]"
    by (simp_all add: sample_events)
  obtain s where s: "shard_run (butlast sample_life) sample_new = (butlast (zip sample_life sample_answers), s)"
    "shard_step (BeginOperation (sample_op 2 Idempotent)) s = (Ok (Admitted ExecuteFirst), s')"
    using run life run_snoc by metis
  have adm: "list_all admissible (butlast sample_life)"
    using sample_admissible by (simp add: list_all_iff in_set_butlastD)
  have "last (given_epochs (butlast (zip sample_life sample_answers))) = eop_epoch (sample_op 2 Idempotent)"
    using only_newest_generation_obeyed [OF adm s(1) [unfolded sample_new_def] s(2) call_epoch.simps(5)] by blast
  then show ?thesis using s by (auto simp: sample_op_def epoch_operation_new_def)
qed

text \<open>C29: a shard is restarted at most as often as its policy allows, and once it is quarantined it
  stays so whatever is called.\<close>

theorem restarts_within_budget:
  assumes "shard_run cs (shard_new shard_id policy) = (events, s)"
  shows "restarts events \<le> unat (shard_restart_budget policy)
    \<and> (sh_phase s = Quarantined \<longrightarrow> (\<forall>ds events' s'. shard_run ds s = (events', s')
         \<longrightarrow> sh_phase s' = Quarantined \<and> restarts events' = 0))"
proof -
  have "restarts_ok 0 (shard_new shard_id policy)" by (simp add: restarts_ok_def shard_new_def)
  from run_restarts [OF assms this] have "restarts_ok (restarts events) s" "sh_policy s = policy"
    by (simp_all add: shard_new_def)
  then show ?thesis
    using run_restarts unfolding restarts_ok_def by auto
qed

theorem restarts_within_budget_witness:
  "\<exists>s. shard_run sample_life sample_new = (zip sample_life sample_answers, s)
    \<and> restarts (zip sample_life sample_answers) = 1
    \<and> restarts (zip sample_life sample_answers) \<le> unat (shard_restart_budget sample_policy)"
proof -
  obtain s where run: "shard_run sample_life sample_new = (zip sample_life sample_answers, s)"
    using sample_run by blast
  have "restarts (zip sample_life sample_answers) = 1" by (simp add: sample_events restarts_def)
  then show ?thesis using restarts_within_budget [OF run [unfolded sample_new_def]] run by blast
qed

end
