(* ===== verification/Term_Format.thy ===== *)
theory Term_Format
  imports Process_Data
begin

text \<open>
  The Terlan External Term Format (\<open>runtime/vm/term_format.rs\<close>, \<open>term_format/buffer.rs\<close>,
  \<open>term_format/decoder.rs\<close>): values as bytes that cross between runtimes. Maps, sets and records are
  written in a canonical order. The encoder writes into a buffer with a hard bound, the decoder reads
  with every length checked before use. \<open>wire\<close> is the format itself, without buffers, and
  \<open>portable\<close> says which values have one.

  Lengths and offsets are natural numbers with the bound of \<open>usize\<close> written out where it is tested.
  Reserving memory succeeds. The variants compiled only for tests are left out.
\<close>

section \<open>Bytes and text\<close>

definition as_bytes :: "string \<Rightarrow> u8 list" where
  "as_bytes s = map (\<lambda>c. word_of_nat (of_char c)) s"

definition text_of :: "u8 list \<Rightarrow> string" where
  "text_of bs = map (\<lambda>b. char_of (unat b)) bs"

text \<open>The length of the well-formed encoding of one code point at the head, or 0: no overlong forms,
  no surrogates, nothing above U+10FFFF.\<close>

definition continuation :: "u8 \<Rightarrow> bool" where
  "continuation b \<longleftrightarrow> 0x80 \<le> b \<and> b \<le> 0xBF"

definition second_byte_ok :: "u8 \<Rightarrow> u8 \<Rightarrow> bool" where
  "second_byte_ok b0 b1 \<longleftrightarrow>
     (if b0 = 0xE0 then 0xA0 \<le> b1 \<and> b1 \<le> 0xBF
      else if b0 = 0xED then 0x80 \<le> b1 \<and> b1 \<le> 0x9F
      else if b0 = 0xF0 then 0x90 \<le> b1 \<and> b1 \<le> 0xBF
      else if b0 = 0xF4 then 0x80 \<le> b1 \<and> b1 \<le> 0x8F
      else continuation b1)"

definition utf8_width :: "u8 list \<Rightarrow> nat" where
  "utf8_width bs = (case bs of
     [] \<Rightarrow> 0
   | b0 # rest \<Rightarrow>
       if b0 \<le> 0x7F then 1
       else if 0xC2 \<le> b0 \<and> b0 \<le> 0xDF then (case rest of b1 # _ \<Rightarrow> if continuation b1 then 2 else 0 | _ \<Rightarrow> 0)
       else if 0xE0 \<le> b0 \<and> b0 \<le> 0xEF then (case rest of
           b1 # b2 # _ \<Rightarrow> if second_byte_ok b0 b1 \<and> continuation b2 then 3 else 0 | _ \<Rightarrow> 0)
       else if 0xF0 \<le> b0 \<and> b0 \<le> 0xF4 then (case rest of
           b1 # b2 # b3 # _ \<Rightarrow> if second_byte_ok b0 b1 \<and> continuation b2 \<and> continuation b3 then 4 else 0
         | _ \<Rightarrow> 0)
       else 0)"

fun valid_utf8 :: "u8 list \<Rightarrow> bool" where
  "valid_utf8 [] = True"
| "valid_utf8 (b # bs) = (case utf8_width (b # bs) of
     0 \<Rightarrow> False
   | Suc n \<Rightarrow> valid_utf8 (drop n bs))"

definition from_utf8 :: "u8 list \<Rightarrow> string option" where
  "from_utf8 bs = (if valid_utf8 bs then Some (text_of bs) else None)"

definition to_be_bytes :: "u64 \<Rightarrow> u8 list" where
  "to_be_bytes w = rev (to_le_bytes w)"

definition from_be_bytes :: "u8 list \<Rightarrow> u64" where
  "from_be_bytes bs = from_le_bytes (rev bs)"

text \<open>\<open>u32::to_be_bytes\<close> of a length below \<open>2 ^ 32\<close>, and back.\<close>

definition length_bytes :: "nat \<Rightarrow> u8 list" where
  "length_bytes n = map (\<lambda>i. word_of_nat (n div 256 ^ i)) [3, 2, 1, 0]"

definition bytes_length :: "u8 list \<Rightarrow> nat" where
  "bytes_length bs = foldl (\<lambda>n b. 256 * n + unat b) 0 bs"

section \<open>The format\<close>

definition MAGIC :: "u8 list" where "MAGIC = [0x54, 0x45, 0x54, 0x46]"
definition VERSION :: u8 where "VERSION = 1"
definition MAX_NESTING_DEPTH :: nat where "MAX_NESTING_DEPTH = 128"
definition PROFILE_DISTRIBUTION_ENVELOPE :: u8 where "PROFILE_DISTRIBUTION_ENVELOPE = 2"
definition PROFILE_LOGICAL_CHECKPOINT :: u8 where "PROFILE_LOGICAL_CHECKPOINT = 3"

definition TAG_UNIT :: u8 where "TAG_UNIT = 0x01"
definition TAG_FALSE :: u8 where "TAG_FALSE = 0x02"
definition TAG_TRUE :: u8 where "TAG_TRUE = 0x03"
definition TAG_INT :: u8 where "TAG_INT = 0x04"
definition TAG_FLOAT_TEXT :: u8 where "TAG_FLOAT_TEXT = 0x05"
definition TAG_STRING :: u8 where "TAG_STRING = 0x06"
definition TAG_ATOM :: u8 where "TAG_ATOM = 0x07"
definition TAG_TUPLE :: u8 where "TAG_TUPLE = 0x09"
definition TAG_LIST :: u8 where "TAG_LIST = 0x0a"
definition TAG_MAP :: u8 where "TAG_MAP = 0x0b"
definition TAG_SET :: u8 where "TAG_SET = 0x0c"
definition TAG_RECORD :: u8 where "TAG_RECORD = 0x0d"
definition TAG_BYTES :: u8 where "TAG_BYTES = 0x0e"
definition TAG_BITSTRING :: u8 where "TAG_BITSTRING = 0x0f"
definition TAG_VM_REF :: u8 where "TAG_VM_REF = 0x20"
definition TAG_DISTRIBUTION_ENVELOPE :: u8 where "TAG_DISTRIBUTION_ENVELOPE = 0x21"

lemmas tag_defs = TAG_UNIT_def TAG_FALSE_def TAG_TRUE_def TAG_INT_def TAG_FLOAT_TEXT_def TAG_STRING_def
  TAG_ATOM_def TAG_TUPLE_def TAG_LIST_def TAG_MAP_def TAG_SET_def TAG_RECORD_def TAG_BYTES_def
  TAG_BITSTRING_def

definition invalid :: "string \<Rightarrow> ('s, vm_error, 'a) stateful" where
  "invalid message = read_st (\<lambda>_. Err (Msg message []))"

definition validate_text_field :: "string \<Rightarrow> string \<Rightarrow> (vm_error, unit) outcome" where
  "validate_text_field field text = (if blank text
     then Err (Msg ''error[tetf_invalid_metadata]: `{field}` must not be empty'' [AStr field]) else Ok ())"

definition NATIVE_FIELD_PREFIX :: string where "NATIVE_FIELD_PREFIX = ''$native_''"

definition validate_record_field :: "string \<Rightarrow> (vm_error, unit) outcome" where
  "validate_record_field field = bind_out (validate_text_field ''record_field'' field) (\<lambda>_.
     if take (length NATIVE_FIELD_PREFIX) field = NATIVE_FIELD_PREFIX
     then Err (Msg ''error[tetf_unsupported]: actor-local native handles cannot cross a node boundary'' [])
     else Ok ())"

definition validate_epoch :: "u64 \<Rightarrow> (vm_error, unit) outcome" where
  "validate_epoch epoch = (if epoch = 0
     then Err (Msg ''error[tetf_stale_ref]: VM reference epoch must be non-zero'' []) else Ok ())"

datatype TetfVmRefKind = RefProcess | RefMonitor | RefTimer | RefResource

fun ref_tag :: "TetfVmRefKind \<Rightarrow> u8" where
  "ref_tag RefProcess = 1"
| "ref_tag RefMonitor = 2"
| "ref_tag RefTimer = 3"
| "ref_tag RefResource = 4"

record TetfVmRef =
  ref_kind :: TetfVmRefKind
  ref_node_id :: string
  ref_local_id :: u64
  ref_epoch :: u64

definition validate_vm_ref :: "TetfVmRef \<Rightarrow> (vm_error, unit) outcome" where
  "validate_vm_ref reference = bind_out (validate_text_field ''node_id'' (ref_node_id reference)) (\<lambda>_.
     if ref_local_id reference = 0
     then Err (Msg ''error[tetf_invalid_ref]: VM reference local id must be non-zero'' [])
     else validate_epoch (ref_epoch reference))"

record TetfDistributionEnvelope =
  env_trace_id :: string
  env_from_node_id :: string
  env_to_node_id :: string
  env_epoch :: u64
  env_refs :: "TetfVmRef list"
  env_payload :: ReplValue

section \<open>The bounded buffer\<close>

record EncodingBuffer =
  buf_bytes :: "u8 list"
  buf_maximum :: nat

type_synonym encoder = "(EncodingBuffer, vm_error, unit) stateful"

definition buf_new :: "nat \<Rightarrow> EncodingBuffer" where
  "buf_new maximum = \<lparr> buf_bytes = [], buf_maximum = maximum \<rparr>"

definition buf_remaining :: "EncodingBuffer \<Rightarrow> nat" where
  "buf_remaining b = buf_maximum b - length (buf_bytes b)"

definition buf_require :: "nat \<Rightarrow> encoder" where
  "buf_require additional = read_st (\<lambda>b. if buf_remaining b < additional
     then Err (Msg ''error[tetf_size]: encoded term exceeds byte limit'' []) else Ok ())"

definition extend_from_slice :: "u8 list \<Rightarrow> encoder" where
  "extend_from_slice bytes = bind_st (buf_require (length bytes)) (\<lambda>_ b.
     (Ok (), b\<lparr> buf_bytes := buf_bytes b @ bytes \<rparr>))"

definition buf_push :: "u8 \<Rightarrow> encoder" where
  "buf_push byte = extend_from_slice [byte]"

section \<open>Encoding\<close>

definition write_len :: "nat \<Rightarrow> encoder" where
  "write_len n = (if n < 2 ^ 32 then extend_from_slice (length_bytes n)
     else invalid ''error[tetf_size]: term length exceeds TETF v1 u32 limit'')"

definition write_text :: "string \<Rightarrow> encoder" where
  "write_text text = bind_st (write_len (length text)) (\<lambda>_. extend_from_slice (as_bytes text))"

definition write_u64 :: "u64 \<Rightarrow> encoder" where
  "write_u64 w = extend_from_slice (to_be_bytes w)"

text \<open>A \<open>for\<close> loop whose body ends with \<open>?\<close>. The children of a value come as the encoders of their
  parts, which the loops below run in the order of the code.\<close>

fun run_all :: "encoder list \<Rightarrow> encoder" where
  "run_all [] = return_st ()"
| "run_all (e # es) = bind_st e (\<lambda>_. run_all es)"

definition write_tagged_text :: "u8 \<Rightarrow> string \<Rightarrow> encoder" where
  "write_tagged_text tag text = bind_st (buf_push tag) (\<lambda>_. write_text text)"

definition encode_items :: "u8 \<Rightarrow> encoder list \<Rightarrow> encoder" where
  "encode_items tag items = bind_st (buf_push tag) (\<lambda>_. bind_st (write_len (length items)) (\<lambda>_. run_all items))"

fun adjacent_duplicate :: "'a list \<Rightarrow> 'a option" where
  "adjacent_duplicate (x # y # xs) = (if x = y then Some x else adjacent_duplicate (y # xs))"
| "adjacent_duplicate _ = None"

definition encode_fields :: "string \<Rightarrow> (string \<times> encoder) list \<Rightarrow> encoder" where
  "encode_fields name named =
     bind_st (read_st (\<lambda>_. validate_text_field ''record_name'' name)) (\<lambda>_.
     bind_st (write_tagged_text TAG_RECORD name) (\<lambda>_.
     bind_st (write_len (length named)) (\<lambda>_.
     bind_st (read_st (\<lambda>b. if buf_remaining b div 6 < length named
         then Err (Msg ''error[tetf_size]: record fields exceed byte limit'' []) else Ok ())) (\<lambda>_.
     let ordered = sort_key fst named in
     bind_st (read_st (\<lambda>_. case adjacent_duplicate (map fst ordered) of
         Some field \<Rightarrow> Err (Msg ''error[tetf_canonical]: duplicate record field `{}`'' [AStr field])
       | None \<Rightarrow> Ok ())) (\<lambda>_.
     run_all (map (\<lambda>(field, encode). bind_st (read_st (\<lambda>_. validate_record_field field)) (\<lambda>_.
         bind_st (write_text field) (\<lambda>_. encode))) ordered))))))"

text \<open>A value encoded into a buffer of its own.\<close>

definition encoded_apart :: "nat \<Rightarrow> encoder \<Rightarrow> (vm_error, u8 list) outcome" where
  "encoded_apart maximum encode = (case encode (buf_new maximum) of
     (Ok _, b) \<Rightarrow> Ok (buf_bytes b)
   | (Err e, _) \<Rightarrow> Err e
   | (Panic p, _) \<Rightarrow> Panic p)"

fun encode_keys :: "nat \<Rightarrow> (encoder \<times> encoder) list \<Rightarrow> (vm_error, (u8 list \<times> encoder) list) outcome" where
  "encode_keys remaining [] = Ok []"
| "encode_keys remaining ((key, encode) # entries) =
     bind_out (encoded_apart remaining key) (\<lambda>encoded.
     bind_out (encode_keys (remaining - length encoded) entries) (\<lambda>ordered.
     Ok ((encoded, encode) # ordered)))"

definition encode_map :: "(encoder \<times> encoder) list \<Rightarrow> encoder" where
  "encode_map entries =
     bind_st (buf_push TAG_MAP) (\<lambda>_.
     bind_st (write_len (length entries)) (\<lambda>_.
     bind_st (read_st (\<lambda>b. if buf_remaining b div 2 < length entries
         then Err (Msg ''error[tetf_size]: map entries exceed byte limit'' []) else Ok ())) (\<lambda>_.
     bind_st (read_st (\<lambda>b. encode_keys (buf_remaining b) entries)) (\<lambda>unordered.
     let ordered = sort_key fst unordered in
     bind_st (read_st (\<lambda>_. if adjacent_duplicate (map fst ordered) \<noteq> None
         then Err (Msg ''error[tetf_canonical]: duplicate map key'' []) else Ok ())) (\<lambda>_.
     run_all (map (\<lambda>(key, encode). bind_st (extend_from_slice key) (\<lambda>_. encode)) ordered))))))"

text \<open>\<open>maximum\<close> is the budget of one item, \<open>remaining\<close> that of the distinct items together.\<close>

fun encode_members :: "nat \<Rightarrow> nat \<Rightarrow> u8 list bset \<Rightarrow> encoder list \<Rightarrow> (vm_error, u8 list bset) outcome" where
  "encode_members maximum remaining ordered [] = Ok ordered"
| "encode_members maximum remaining ordered (item # items) =
     bind_out (encoded_apart maximum item) (\<lambda>encoded.
     if bs_contains ordered encoded then encode_members maximum remaining ordered items
     else if remaining < length encoded then Err (Msg ''error[tetf_size]: set items exceed byte limit'' [])
     else encode_members maximum (remaining - length encoded) (bs_insert encoded ordered) items)"

definition encode_set :: "encoder list \<Rightarrow> encoder" where
  "encode_set items =
     bind_st (buf_push TAG_SET) (\<lambda>_.
     bind_st (buf_require 4) (\<lambda>_.
     bind_st (read_st (\<lambda>b. let maximum = buf_remaining b - 4 in encode_members maximum maximum [] items)) (\<lambda>ordered.
     bind_st (write_len (length ordered)) (\<lambda>_.
     run_all (map extend_from_slice ordered)))))"

fun encode_value :: "string list \<Rightarrow> nat \<Rightarrow> ReplValue \<Rightarrow> encoder" where
  "encode_value declared_atoms depth value =
     (if MAX_NESTING_DEPTH \<le> depth then invalid ''error[tetf_depth]: nesting exceeds 128 levels''
      else case value of
        VClosure _ _ \<Rightarrow> invalid ''error[tetf_function]: executable closures are local to their admitted image''
      | VUnit \<Rightarrow> buf_push TAG_UNIT
      | VBool b \<Rightarrow> buf_push (if b then TAG_TRUE else TAG_FALSE)
      | VInt n \<Rightarrow> bind_st (buf_push TAG_INT) (\<lambda>_. write_u64 n)
      | VFloat text \<Rightarrow> write_tagged_text TAG_FLOAT_TEXT text
      | VString text \<Rightarrow> write_tagged_text TAG_STRING text
      | VStringBytes bytes \<Rightarrow> (case from_utf8 bytes of
          None \<Rightarrow> invalid ''error[tetf_string_utf8]: {error}''
        | Some text \<Rightarrow> write_tagged_text TAG_STRING text)
      | VBytes bytes \<Rightarrow> bind_st (buf_push TAG_BYTES) (\<lambda>_. bind_st (write_len (length bytes)) (\<lambda>_.
          extend_from_slice bytes))
      | VBitString bytes bit_len \<Rightarrow> bind_st (buf_push TAG_BITSTRING) (\<lambda>_.
          bind_st (write_len (unat bit_len)) (\<lambda>_. bind_st (write_len (length bytes)) (\<lambda>_.
          extend_from_slice bytes)))
      | VAtom name \<Rightarrow> if name \<notin> set declared_atoms
          then read_st (\<lambda>_. Err (Msg ''error[tetf_atom]: atom `{value}` is not in the declared atom manifest''
            [AStr name]))
          else write_tagged_text TAG_ATOM name
      | VTuple items \<Rightarrow> encode_items TAG_TUPLE (map (encode_value declared_atoms (Suc depth)) items)
      | VRecord name named \<Rightarrow> encode_fields name
          (map (\<lambda>(field, item). (field, encode_value declared_atoms (Suc depth) item)) named)
      | VList items \<Rightarrow> encode_items TAG_LIST (map (encode_value declared_atoms (Suc depth)) items)
      | VMap entries \<Rightarrow> encode_map (map (\<lambda>(key, item). (encode_value declared_atoms (Suc depth) key,
          encode_value declared_atoms (Suc depth) item)) entries)
      | VSet items \<Rightarrow> encode_set (map (encode_value declared_atoms (Suc depth)) items))"

declare encode_value.simps [simp del]

end
