(* ===== verification/Term_Decoder.thy ===== *)
theory Term_Decoder
  imports Term_Format
begin

text \<open>
  Reading the Terlan External Term Format (\<open>runtime/vm/term_format/decoder.rs\<close>) and the envelope of
  a message between nodes in both directions. The decoder accepts only canonical bytes: map keys, set
  items and record fields strictly increasing, no unused bit set, nothing after the value.
\<close>

section \<open>Reading\<close>

record Decoder =
  dec_bytes :: "u8 list"
  dec_offset :: nat
  dec_declared_atoms :: "string list"
  dec_remaining_value_slots :: nat

type_synonym 'a decoder = "(Decoder, vm_error, 'a) stateful"

definition USIZE_MAX :: nat where "USIZE_MAX = 2 ^ 64 - 1"

definition decoder_new :: "u8 list \<Rightarrow> string list \<Rightarrow> Decoder" where
  "decoder_new bytes declared_atoms = \<lparr> dec_bytes = bytes, dec_offset = 0,
     dec_declared_atoms = declared_atoms, dec_remaining_value_slots = USIZE_MAX \<rparr>"

definition read_exact :: "nat \<Rightarrow> u8 list decoder" where
  "read_exact len d =
     (let end_offset = dec_offset d + len in
      if USIZE_MAX < end_offset then (Err (Msg ''error[tetf_size]: field length overflows host limits'' []), d)
      else if end_offset \<le> length (dec_bytes d)
      then (Ok (take len (drop (dec_offset d) (dec_bytes d))), d\<lparr> dec_offset := end_offset \<rparr>)
      else (Err (Msg ''error[tetf_truncated]: payload ended before field completed'' []), d))"

definition read_u8 :: "u8 decoder" where
  "read_u8 = bind_st (read_exact 1) (\<lambda>bytes. return_st (hd bytes))"

definition read_len :: "nat decoder" where
  "read_len = bind_st (read_exact 4) (\<lambda>bytes. return_st (bytes_length bytes))"

definition read_u64 :: "u64 decoder" where
  "read_u64 = bind_st (read_exact 8) (\<lambda>bytes. return_st (from_be_bytes bytes))"

definition read_text :: "string decoder" where
  "read_text = bind_st read_len (\<lambda>len. bind_st (read_exact len) (\<lambda>bytes.
     read_st (\<lambda>_. ok_or (Msg ''error[tetf_utf8]: text field is not valid UTF-8'' []) (from_utf8 bytes))))"

definition require_remaining_items :: "nat \<Rightarrow> nat \<Rightarrow> unit decoder" where
  "require_remaining_items count minimum_bytes = read_st (\<lambda>d.
     if USIZE_MAX < count * minimum_bytes
     then Err (Msg ''error[tetf_size]: declared collection length overflows host limits'' [])
     else if count * minimum_bytes \<le> length (dec_bytes d) - dec_offset d then Ok ()
     else Err (Msg ''error[tetf_size]: declared collection length exceeds remaining payload'' []))"

definition reserve_value_slots :: "nat \<Rightarrow> unit decoder" where
  "reserve_value_slots count d =
     (if dec_remaining_value_slots d < count
      then (Err (Msg ''error[tetf_checkpoint.values]: too many logical values'' []), d)
      else (Ok (), d\<lparr> dec_remaining_value_slots := dec_remaining_value_slots d - count \<rparr>))"

definition expect_tag :: "u8 \<Rightarrow> unit decoder" where
  "expect_tag expected = bind_st read_u8 (\<lambda>actual.
     if actual = expected then return_st ()
     else invalid ''error[tetf_tag]: expected tag {expected:#04x}, found {actual:#04x}'')"

definition finish :: "unit decoder" where
  "finish = read_st (\<lambda>d. if dec_offset d = length (dec_bytes d) then Ok ()
     else Err (Msg ''error[tetf_trailing]: {} unconsumed payload bytes'' []))"

definition read_header :: "u8 \<Rightarrow> unit decoder" where
  "read_header profile =
     bind_st (read_exact (length MAGIC)) (\<lambda>magic.
     if magic \<noteq> MAGIC then invalid ''error[tetf_header]: invalid TETF magic''
     else bind_st read_u8 (\<lambda>version.
     if version \<noteq> VERSION then invalid ''error[tetf_version]: unsupported TETF version {version}''
     else bind_st read_u8 (\<lambda>actual_profile.
     if actual_profile \<noteq> profile
     then invalid ''error[tetf_profile]: expected profile {profile}, found {actual_profile}''
     else return_st ())))"

definition require_strictly_increasing :: "u8 list option \<Rightarrow> u8 list \<Rightarrow> (vm_error, unit) outcome" where
  "require_strictly_increasing previous current = (case previous of
     None \<Rightarrow> Ok ()
   | Some previous \<Rightarrow> if previous < current then Ok ()
       else Err (Msg ''error[tetf_canonical]: {item}s must be strictly ordered'' []))"

section \<open>Values\<close>

text \<open>The loops over the parts of a value take the decoder of one part.\<close>

fun read_items :: "nat \<Rightarrow> 'a decoder \<Rightarrow> 'a list decoder" where
  "read_items 0 item = return_st []"
| "read_items (Suc n) item = bind_st item (\<lambda>x. bind_st (read_items n item) (\<lambda>xs. return_st (x # xs)))"

text \<open>What a decoder read together with the bytes it consumed.\<close>

definition with_bytes :: "'a decoder \<Rightarrow> ('a \<times> u8 list) decoder" where
  "with_bytes item d = (case item d of
     (Ok x, d') \<Rightarrow> (Ok (x, take (dec_offset d' - dec_offset d) (drop (dec_offset d) (dec_bytes d))), d')
   | (Err e, d') \<Rightarrow> (Err e, d')
   | (Panic p, d') \<Rightarrow> (Panic p, d'))"

definition decode_sequence :: "ReplValue decoder \<Rightarrow> ReplValue list decoder" where
  "decode_sequence item = bind_st read_len (\<lambda>len. bind_st (require_remaining_items len 1) (\<lambda>_.
     bind_st (reserve_value_slots len) (\<lambda>_. read_items len item)))"

fun read_entries :: "nat \<Rightarrow> u8 list option \<Rightarrow> ReplValue decoder \<Rightarrow> (ReplValue \<times> ReplValue) list decoder" where
  "read_entries 0 previous item = return_st []"
| "read_entries (Suc n) previous item =
     bind_st (with_bytes item) (\<lambda>(key, encoded_key).
     bind_st (read_st (\<lambda>_. require_strictly_increasing previous encoded_key)) (\<lambda>_.
     bind_st item (\<lambda>value.
     bind_st (read_entries n (Some encoded_key) item) (\<lambda>entries. return_st ((key, value) # entries)))))"

definition decode_map :: "ReplValue decoder \<Rightarrow> ReplValue decoder" where
  "decode_map item = bind_st read_len (\<lambda>len. bind_st (require_remaining_items len 2) (\<lambda>_.
     bind_st (read_st (\<lambda>_. if USIZE_MAX < len * 2 then Err (Msg ''error[tetf_size]: map value count overflow'' [])
       else Ok ())) (\<lambda>_.
     bind_st (reserve_value_slots (len * 2)) (\<lambda>_.
     bind_st (read_entries len None item) (\<lambda>entries. return_st (VMap entries))))))"

fun read_members :: "nat \<Rightarrow> u8 list option \<Rightarrow> ReplValue decoder \<Rightarrow> ReplValue list decoder" where
  "read_members 0 previous item = return_st []"
| "read_members (Suc n) previous item =
     bind_st (with_bytes item) (\<lambda>(value, encoded_item).
     bind_st (read_st (\<lambda>_. require_strictly_increasing previous encoded_item)) (\<lambda>_.
     bind_st (read_members n (Some encoded_item) item) (\<lambda>values. return_st (value # values))))"

definition decode_canonical_set :: "ReplValue decoder \<Rightarrow> ReplValue list decoder" where
  "decode_canonical_set item = bind_st read_len (\<lambda>len. bind_st (require_remaining_items len 1) (\<lambda>_.
     bind_st (reserve_value_slots len) (\<lambda>_. read_members len None item)))"

fun read_fields :: "nat \<Rightarrow> string option \<Rightarrow> ReplValue decoder \<Rightarrow> (string \<times> ReplValue) list decoder" where
  "read_fields 0 previous item = return_st []"
| "read_fields (Suc n) previous item =
     bind_st read_text (\<lambda>field.
     bind_st (read_st (\<lambda>_. validate_record_field field)) (\<lambda>_.
     bind_st (read_st (\<lambda>_. case previous of
         Some before \<Rightarrow> if field \<le> before
           then Err (Msg ''error[tetf_canonical]: record fields must be strictly ordered'' []) else Ok ()
       | None \<Rightarrow> Ok ())) (\<lambda>_.
     bind_st item (\<lambda>value.
     bind_st (read_fields n (Some field) item) (\<lambda>rest. return_st ((field, value) # rest))))))"

definition decode_record :: "ReplValue decoder \<Rightarrow> ReplValue decoder" where
  "decode_record item = bind_st read_text (\<lambda>name.
     bind_st (read_st (\<lambda>_. validate_text_field ''record_name'' name)) (\<lambda>_.
     bind_st read_len (\<lambda>len. bind_st (require_remaining_items len 2) (\<lambda>_.
     bind_st (reserve_value_slots len) (\<lambda>_.
     bind_st (read_fields len None item) (\<lambda>named. return_st (VRecord name named)))))))"

definition decode_atom :: "ReplValue decoder" where
  "decode_atom = bind_st read_text (\<lambda>atom d.
     if atom \<notin> set (dec_declared_atoms d)
     then (Err (Msg ''error[tetf_atom]: atom `{atom}` is not in the declared atom manifest'' [AStr atom]), d)
     else (Ok (VAtom atom), d))"

text \<open>\<open>VmBitString::from_bytes\<close> of \<open>runtime/vm/bitstring.rs\<close>.\<close>

definition mask_unused_trailing_bits :: "u8 list \<Rightarrow> nat \<Rightarrow> u8 list" where
  "mask_unused_trailing_bits bytes bit_len =
     (let used_bits = bit_len mod 8 in
      if used_bits = 0 \<or> bytes = [] then bytes
      else butlast bytes @ [last bytes AND push_bit (8 - used_bits) (- 1)])"

definition bitstring_from_bytes :: "u8 list \<Rightarrow> nat \<Rightarrow> (vm_error, u8 list) outcome" where
  "bitstring_from_bytes bytes bit_len =
     (if USIZE_MAX < length bytes * 8 then Err (Msg ''bit length exceeds host limits'' [])
      else if length bytes * 8 < bit_len
      then Err (Msg ''bit length {bit_len} exceeds available storage of {available_bits} bits'' [])
      else if USIZE_MAX < bit_len + 7 then Err (Msg ''bit length exceeds host limits'' [])
      else Ok (mask_unused_trailing_bits (take ((bit_len + 7) div 8) bytes) bit_len))"

definition decode_bitstring :: "ReplValue decoder" where
  "decode_bitstring = bind_st read_len (\<lambda>bit_len. bind_st read_len (\<lambda>byte_len.
     if byte_len \<noteq> (bit_len + 7) div 8
     then invalid ''error[tetf_bitstring]: bit length {bit_len} requires {expected_byte_len} bytes, found {byte_len}''
     else bind_st (read_exact byte_len) (\<lambda>bytes.
       bind_st (read_st (\<lambda>_. map_err (\<lambda>_. Msg ''error[tetf_bitstring]: {error}'' [])
         (bitstring_from_bytes bytes bit_len))) (\<lambda>packed.
       if packed \<noteq> bytes then invalid ''error[tetf_canonical]: bitstring has non-zero unused trailing bits''
       else return_st (VBitString packed (word_of_nat bit_len))))))"

text \<open>The value after its tag, given the decoder of its parts.\<close>

definition decode_tagged :: "u8 \<Rightarrow> ReplValue decoder \<Rightarrow> ReplValue decoder" where
  "decode_tagged tag item =
     (if tag = TAG_UNIT then return_st VUnit
      else if tag = TAG_FALSE then return_st (VBool False)
      else if tag = TAG_TRUE then return_st (VBool True)
      else if tag = TAG_INT then bind_st read_u64 (\<lambda>n. return_st (VInt n))
      else if tag = TAG_FLOAT_TEXT then bind_st read_text (\<lambda>text. return_st (VFloat text))
      else if tag = TAG_STRING then bind_st read_text (\<lambda>text. return_st (VString text))
      else if tag = TAG_ATOM then decode_atom
      else if tag = TAG_TUPLE then bind_st (decode_sequence item) (\<lambda>items. return_st (VTuple items))
      else if tag = TAG_LIST then bind_st (decode_sequence item) (\<lambda>items. return_st (VList items))
      else if tag = TAG_MAP then decode_map item
      else if tag = TAG_SET then bind_st (decode_canonical_set item) (\<lambda>items. return_st (VSet items))
      else if tag = TAG_RECORD then decode_record item
      else if tag = TAG_BYTES then bind_st read_len (\<lambda>len. bind_st (read_exact len) (\<lambda>bytes.
        return_st (VBytes bytes)))
      else if tag = TAG_BITSTRING then decode_bitstring
      else invalid ''error[tetf_tag]: unknown runtime value tag {tag:#04x}'')"

function decode_value :: "nat \<Rightarrow> ReplValue decoder" where
  "decode_value depth =
     (if MAX_NESTING_DEPTH \<le> depth then invalid ''error[tetf_depth]: nesting exceeds 128 levels''
      else bind_st read_u8 (\<lambda>tag. decode_tagged tag (decode_value (Suc depth))))"
  by auto

termination
  by (relation "measure (\<lambda>depth. MAX_NESTING_DEPTH - depth)") auto

declare decode_value.simps [simp del]

section \<open>References and envelopes\<close>

definition encode_vm_ref :: "TetfVmRef \<Rightarrow> encoder" where
  "encode_vm_ref reference =
     bind_st (read_st (\<lambda>_. validate_vm_ref reference)) (\<lambda>_.
     bind_st (buf_push TAG_VM_REF) (\<lambda>_.
     bind_st (buf_push (ref_tag (ref_kind reference))) (\<lambda>_.
     bind_st (write_text (ref_node_id reference)) (\<lambda>_.
     bind_st (write_u64 (ref_local_id reference)) (\<lambda>_.
     write_u64 (ref_epoch reference))))))"

definition decode_vm_ref :: "TetfVmRef decoder" where
  "decode_vm_ref =
     bind_st (expect_tag TAG_VM_REF) (\<lambda>_.
     bind_st read_u8 (\<lambda>tag.
     bind_st (if tag = 1 then return_st RefProcess else if tag = 2 then return_st RefMonitor
       else if tag = 3 then return_st RefTimer else if tag = 4 then return_st RefResource
       else invalid ''error[tetf_ref]: unknown VM reference kind {tag}'') (\<lambda>kind.
     bind_st read_text (\<lambda>node_id. bind_st read_u64 (\<lambda>local_id. bind_st read_u64 (\<lambda>epoch.
     let reference = \<lparr> ref_kind = kind, ref_node_id = node_id, ref_local_id = local_id, ref_epoch = epoch \<rparr> in
     bind_st (read_st (\<lambda>_. validate_vm_ref reference)) (\<lambda>_. return_st reference)))))))"

definition validate_envelope :: "string \<Rightarrow> string \<Rightarrow> string \<Rightarrow> u64 \<Rightarrow> (vm_error, unit) outcome" where
  "validate_envelope trace_id from_node_id to_node_id epoch =
     bind_out (validate_text_field ''trace_id'' trace_id) (\<lambda>_.
     bind_out (validate_text_field ''from_node_id'' from_node_id) (\<lambda>_.
     bind_out (validate_text_field ''to_node_id'' to_node_id) (\<lambda>_.
     validate_epoch epoch)))"

definition write_header :: "u8 \<Rightarrow> encoder" where
  "write_header profile = bind_st (extend_from_slice MAGIC) (\<lambda>_. bind_st (buf_push VERSION) (\<lambda>_. buf_push profile))"

definition encode_envelope :: "TetfDistributionEnvelope \<Rightarrow> string list \<Rightarrow> encoder" where
  "encode_envelope envelope declared_atoms =
     bind_st (read_st (\<lambda>_. validate_envelope (env_trace_id envelope) (env_from_node_id envelope)
       (env_to_node_id envelope) (env_epoch envelope))) (\<lambda>_.
     bind_st (write_header PROFILE_DISTRIBUTION_ENVELOPE) (\<lambda>_.
     bind_st (buf_push TAG_DISTRIBUTION_ENVELOPE) (\<lambda>_.
     bind_st (write_text (env_trace_id envelope)) (\<lambda>_.
     bind_st (write_text (env_from_node_id envelope)) (\<lambda>_.
     bind_st (write_text (env_to_node_id envelope)) (\<lambda>_.
     bind_st (write_u64 (env_epoch envelope)) (\<lambda>_.
     bind_st (write_len (length (env_refs envelope))) (\<lambda>_.
     bind_st (run_all (map encode_vm_ref (env_refs envelope))) (\<lambda>_.
     encode_value declared_atoms 0 (env_payload envelope))))))))))"

definition encode_tetf_distribution_envelope_bounded :: "TetfDistributionEnvelope \<Rightarrow> string list \<Rightarrow> nat
    \<Rightarrow> (vm_error, u8 list) outcome" where
  "encode_tetf_distribution_envelope_bounded envelope declared_atoms maximum =
     encoded_apart maximum (encode_envelope envelope declared_atoms)"

definition decode_envelope :: "TetfDistributionEnvelope decoder" where
  "decode_envelope =
     bind_st (read_header PROFILE_DISTRIBUTION_ENVELOPE) (\<lambda>_.
     bind_st (expect_tag TAG_DISTRIBUTION_ENVELOPE) (\<lambda>_.
     bind_st read_text (\<lambda>trace_id. bind_st read_text (\<lambda>from_node_id. bind_st read_text (\<lambda>to_node_id.
     bind_st read_u64 (\<lambda>epoch.
     bind_st (read_st (\<lambda>_. validate_envelope trace_id from_node_id to_node_id epoch)) (\<lambda>_.
     bind_st read_len (\<lambda>reference_count.
     bind_st (require_remaining_items reference_count 2) (\<lambda>_.
     bind_st (read_items reference_count decode_vm_ref) (\<lambda>refs.
     bind_st (decode_value 0) (\<lambda>payload.
     bind_st finish (\<lambda>_.
     return_st \<lparr> env_trace_id = trace_id, env_from_node_id = from_node_id, env_to_node_id = to_node_id,
       env_epoch = epoch, env_refs = refs, env_payload = payload \<rparr>))))))))))))"

definition decode_tetf_distribution_envelope :: "u8 list \<Rightarrow> string list
    \<Rightarrow> (vm_error, TetfDistributionEnvelope) outcome" where
  "decode_tetf_distribution_envelope bytes declared_atoms =
     fst (decode_envelope (decoder_new bytes declared_atoms))"

end
