(* ===== verification/Term_Wire.thy ===== *)
theory Term_Wire
  imports Term_Decoder
begin

text \<open>
  The format of a value as a function, \<open>wire\<close>, which values have one (\<open>portable\<close>), the value a
  receiver gets (\<open>canon\<close>), and the refinement of \<open>wire\<close> by the encoder: it succeeds exactly on the
  portable values that fit in the buffer, and then appends their wire form.
\<close>

section \<open>The reference format\<close>

definition text_wire :: "string \<Rightarrow> u8 list" where
  "text_wire text = length_bytes (length text) @ as_bytes text"

fun wire :: "ReplValue \<Rightarrow> u8 list" where
  "wire VUnit = [TAG_UNIT]"
| "wire (VBool b) = [if b then TAG_TRUE else TAG_FALSE]"
| "wire (VInt n) = TAG_INT # to_be_bytes n"
| "wire (VFloat text) = TAG_FLOAT_TEXT # text_wire text"
| "wire (VString text) = TAG_STRING # text_wire text"
| "wire (VStringBytes bytes) = TAG_STRING # text_wire (text_of bytes)"
| "wire (VBytes bytes) = TAG_BYTES # length_bytes (length bytes) @ bytes"
| "wire (VBitString bytes n) = TAG_BITSTRING # length_bytes (unat n) @ length_bytes (length bytes) @ bytes"
| "wire (VAtom name) = TAG_ATOM # text_wire name"
| "wire (VClosure _ _) = []"
| "wire (VTuple items) = TAG_TUPLE # length_bytes (length items) @ concat (map wire items)"
| "wire (VList items) = TAG_LIST # length_bytes (length items) @ concat (map wire items)"
| "wire (VRecord name named) = TAG_RECORD # text_wire name @ length_bytes (length named)
     @ concat (map (\<lambda>(field, w). text_wire field @ w) (sort_key fst (map (\<lambda>(field, v). (field, wire v)) named)))"
| "wire (VMap entries) = TAG_MAP # length_bytes (length entries)
     @ concat (map (\<lambda>(k, w). k @ w) (sort_key fst (map (\<lambda>(k, v). (wire k, wire v)) entries)))"
| "wire (VSet items) = (let members = sorted_list_of_set (set (map wire items))
     in TAG_SET # length_bytes (length members) @ concat members)"

abbreviation short :: "'a list \<Rightarrow> bool" where
  "short xs \<equiv> length xs < 2 ^ 32"

fun portable :: "string list \<Rightarrow> nat \<Rightarrow> ReplValue \<Rightarrow> bool" where
  "portable atoms depth v \<longleftrightarrow> depth < MAX_NESTING_DEPTH \<and> (case v of
     VFloat text \<Rightarrow> short text
   | VString text \<Rightarrow> short text
   | VStringBytes bytes \<Rightarrow> valid_utf8 bytes \<and> short bytes
   | VBytes bytes \<Rightarrow> short bytes
   | VBitString bytes n \<Rightarrow> unat n < 2 ^ 32 \<and> short bytes
   | VAtom name \<Rightarrow> name \<in> set atoms \<and> short name
   | VClosure _ _ \<Rightarrow> False
   | VTuple items \<Rightarrow> short items \<and> (\<forall>x \<in> set items. portable atoms (Suc depth) x)
   | VList items \<Rightarrow> short items \<and> (\<forall>x \<in> set items. portable atoms (Suc depth) x)
   | VRecord name named \<Rightarrow> \<not> blank name \<and> short name \<and> short named \<and> distinct (map fst named)
       \<and> (\<forall>x \<in> set named. validate_record_field (fst x) = Ok () \<and> short (fst x) \<and> portable atoms (Suc depth) (snd x))
   | VMap entries \<Rightarrow> short entries \<and> distinct (map (\<lambda>x. wire (fst x)) entries)
       \<and> (\<forall>x \<in> set entries. portable atoms (Suc depth) (fst x) \<and> portable atoms (Suc depth) (snd x))
   | VSet items \<Rightarrow> card (set (map wire items)) < 2 ^ 32 \<and> (\<forall>x \<in> set items. portable atoms (Suc depth) x)
   | _ \<Rightarrow> True)"

declare portable.simps [simp del]

section \<open>Sorting and text\<close>

lemma sort_key_map: "sort_key f (map g xs) = map g (sort_key (\<lambda>x. f (g x)) xs)"
proof (induction xs)
  case (Cons x xs)
  have "insort_key f (g x) (map g ys) = map g (insort_key (\<lambda>x. f (g x)) x ys)" for ys
    by (induction ys) auto
  then show ?case using Cons by simp
qed simp

lemma adjacent_duplicate_sorted:
  assumes "sorted xs"
  shows "adjacent_duplicate xs = None \<longleftrightarrow> distinct xs"
  using assms by (induction xs rule: adjacent_duplicate.induct) (auto simp: less_le)

lemma byte_small: "unat (b :: u8) < 256"
  using unsigned_less [of b] by simp

lemma text_bytes_inverse [simp]: "text_of (as_bytes s) = s" "as_bytes (text_of bs) = bs"
  by (auto simp: text_of_def as_bytes_def o_def unat_of_nat byte_small intro!: nth_equalityI)

lemma text_lengths [simp]: "length (as_bytes s) = length s" "length (text_of bs) = length bs"
  by (simp_all add: as_bytes_def text_of_def)

lemma length_length_bytes [simp]: "length (length_bytes n) = 4"
  by (simp add: length_bytes_def)

lemma length_to_be_bytes [simp]: "length (to_be_bytes w) = 8"
  by (simp add: to_be_bytes_def)

lemma be_bytes_inverse:
  "from_be_bytes (to_be_bytes w) = w" "length bs = 8 \<Longrightarrow> to_be_bytes (from_be_bytes bs) = bs"
  by (simp_all add: from_be_bytes_def to_be_bytes_def from_to_le_bytes to_from_le_bytes)

lemma bytes_length_length_bytes:
  assumes "n < 2 ^ 32"
  shows "bytes_length (length_bytes n) = n"
proof -
  have split: "n div 65536 = n div 256 div 256" "n div 16777216 = n div 256 div 256 div 256"
    by (simp_all add: div_mult2_eq [symmetric])
  have "n div 16777216 mod 256 = n div 16777216" using assms by simp
  then have "bytes_length (length_bytes n)
      = 256 * (256 * (256 * (n div 16777216) + n div 65536 mod 256) + n div 256 mod 256) + n mod 256"
    by (simp add: bytes_length_def length_bytes_def unat_of_nat)
  also have "\<dots> = n" unfolding split by simp
  finally show ?thesis .
qed

lemma length_bytes_bytes_length:
  assumes "length bs = 4"
  shows "length_bytes (bytes_length bs) = bs \<and> bytes_length bs < 2 ^ 32"
proof -
  from assms obtain b3 b2 b1 b0 where bs: "bs = [b3, b2, b1, b0]"
    by (auto simp: numeral_eq_Suc length_Suc_conv)
  let ?n = "16777216 * unat b3 + 65536 * unat b2 + 256 * unat b1 + unat b0"
  have n: "bytes_length bs = ?n" by (simp add: bs bytes_length_def)
  note small = byte_small [of b0] byte_small [of b1] byte_small [of b2] byte_small [of b3]
  have d: "?n div 16777216 = unat b3" "?n div 65536 = 256 * unat b3 + unat b2"
      "?n div 256 = 65536 * unat b3 + 256 * unat b2 + unat b1"
    using small by (auto intro!: div_nat_eqI)
  have zero: "(16777216 :: u8) = 0" "(65536 :: u8) = 0" "(256 :: u8) = 0" by simp_all
  have "length_bytes ?n = bs"
    by (simp only: length_bytes_def list.map power_Suc power_0 mult_1_right div_by_1)
      (simp add: d zero bs)
  then show ?thesis using small unfolding n by simp
qed

lemma wire_sorted:
  "wire (VRecord name named) = TAG_RECORD # text_wire name @ length_bytes (length named)
     @ concat (map (\<lambda>x. text_wire (fst x) @ wire (snd x)) (sort_key fst named))"
  "wire (VMap entries) = TAG_MAP # length_bytes (length entries)
     @ concat (map (\<lambda>x. wire (fst x) @ wire (snd x)) (sort_key (\<lambda>x. wire (fst x)) entries))"
  by (simp_all add: sort_key_map split_def o_def)

section \<open>Encoders\<close>

text \<open>
  \<open>emits p e w\<close>: from a buffer within its bound the encoder succeeds exactly when \<open>p\<close> holds and
  \<open>w\<close> fits, and then it appends \<open>w\<close>.
\<close>

definition fits :: "u8 list \<Rightarrow> EncodingBuffer \<Rightarrow> bool" where
  "fits w b \<longleftrightarrow> length (buf_bytes b) + length w \<le> buf_maximum b"

definition appended :: "u8 list \<Rightarrow> EncodingBuffer \<Rightarrow> EncodingBuffer" where
  "appended w b = b\<lparr> buf_bytes := buf_bytes b @ w \<rparr>"

definition emits :: "bool \<Rightarrow> encoder \<Rightarrow> u8 list \<Rightarrow> bool" where
  "emits p e w \<longleftrightarrow> (\<forall>b. fits [] b \<longrightarrow> (if p \<and> fits w b then e b = (Ok (), appended w b)
     else \<forall>b'. e b \<noteq> (Ok (), b')))"

lemma emitsI:
  assumes "\<And>b. fits [] b \<Longrightarrow> p \<Longrightarrow> fits w b \<Longrightarrow> e b = (Ok (), appended w b)"
    and "\<And>b b'. fits [] b \<Longrightarrow> e b = (Ok (), b') \<Longrightarrow> p \<and> fits w b"
  shows "emits p e w"
  using assms unfolding emits_def by (auto split: if_split)

lemma emitsD:
  assumes "emits p e w" and "fits [] b"
  shows "p \<Longrightarrow> fits w b \<Longrightarrow> e b = (Ok (), appended w b)"
    and "e b = (Ok (), b') \<Longrightarrow> p \<and> fits w b \<and> b' = appended w b"
  using assms unfolding emits_def by (metis, metis Pair_inject)

lemma appended_simps [simp]:
  "appended [] b = b" "appended w' (appended w b) = appended (w @ w') b"
  "fits w' (appended w b) \<longleftrightarrow> fits (w @ w') b" "buf_maximum (appended w b) = buf_maximum b"
  "buf_bytes (appended w b) = buf_bytes b @ w"
  by (auto simp: appended_def fits_def)

lemma fits_prefix: "fits (w @ w') b \<Longrightarrow> fits w b" "fits w b \<Longrightarrow> fits [] b"
  by (auto simp: fits_def)

lemma emits_bind:
  assumes e: "emits p e w" and f: "emits q f w'"
  shows "emits (p \<and> q) (bind_st e (\<lambda>_. f)) (w @ w')"
proof (rule emitsI)
  fix b
  assume b: "fits [] b" and ok: "p \<and> q" "fits (w @ w') b"
  have "e b = (Ok (), appended w b)" using emitsD(1) [OF e b] ok fits_prefix by blast
  moreover have "f (appended w b) = (Ok (), appended w' (appended w b))"
    by (rule emitsD(1) [OF f]) (use ok fits_prefix in auto)
  ultimately show "bind_st e (\<lambda>_. f) b = (Ok (), appended (w @ w') b)" by simp
next
  fix b b'
  assume b: "fits [] b" and run: "bind_st e (\<lambda>_. f) b = (Ok (), b')"
  then obtain b1 where b1: "e b = (Ok (), b1)" "f b1 = (Ok (), b')" by (auto simp: bind_st_eq_Ok)
  note first = emitsD(2) [OF e b b1(1)]
  have "fits [] b1" using first by simp
  then show "(p \<and> q) \<and> fits (w @ w') b" using emitsD(2) [OF f _ b1(2)] first by simp
qed

lemma emits_cong: "emits p e w \<Longrightarrow> (p \<longleftrightarrow> q) \<Longrightarrow> (q \<Longrightarrow> w = w') \<Longrightarrow> emits q e w'"
  unfolding emits_def by (cases q) auto

lemma emits_fail: "(\<And>b b'. e b \<noteq> (Ok (), b')) \<Longrightarrow> \<not> p \<Longrightarrow> emits p e w"
  by (auto simp: emits_def)

lemma emits_return: "emits True (return_st ()) []"
  by (auto simp: emits_def return_st_def)

lemma emits_check:
  assumes "emits q e w"
  shows "emits (c = Ok () \<and> q) (bind_st (read_st (\<lambda>_. c)) (\<lambda>_. e)) w"
  using assms by (cases c) (auto simp: emits_def bind_st_def read_st_def)

text \<open>A test of the room left that every value long enough passes.\<close>

lemma emits_room:
  assumes e: "emits q e w" and room: "\<And>b. q \<Longrightarrow> fits w b \<Longrightarrow> \<not> tight b"
  shows "emits q (bind_st (read_st (\<lambda>b. if tight b then Err error else Ok ())) (\<lambda>_. e)) w"
proof (rule emitsI)
  fix b
  assume "fits [] b" "q" "fits w b"
  then show "bind_st (read_st (\<lambda>b. if tight b then Err error else Ok ())) (\<lambda>_. e) b = (Ok (), appended w b)"
    using emitsD(1) [OF e] room by (simp add: bind_st_def read_st_def)
next
  fix b b'
  assume "fits [] b" "bind_st (read_st (\<lambda>b. if tight b then Err error else Ok ())) (\<lambda>_. e) b = (Ok (), b')"
  then show "q \<and> fits w b"
    using emitsD(2) [OF e, of b b'] by (auto simp: bind_st_def read_st_def split: if_splits)
qed

lemma emits_extend: "emits True (extend_from_slice w) w"
  by (auto simp: emits_def extend_from_slice_def buf_require_def buf_remaining_def fits_def appended_def
      bind_st_def read_st_def)

lemma emits_push: "emits True (buf_push byte) [byte]"
  unfolding buf_push_def by (rule emits_extend)

lemma emits_len: "emits (n < 2 ^ 32) (write_len n) (length_bytes n)"
  using emits_extend [of "length_bytes n"]
  by (auto simp: write_len_def invalid_def read_st_def emits_def)

lemma emits_text: "emits (short text) (write_text text) (text_wire text)"
  unfolding write_text_def text_wire_def
  by (rule emits_cong [OF emits_bind [OF emits_len emits_extend]]) auto

lemma emits_tagged: "emits (short text) (write_tagged_text tag text) (tag # text_wire text)"
  unfolding write_tagged_text_def by (rule emits_cong [OF emits_bind [OF emits_push emits_text]]) auto

lemma emits_u64: "emits True (write_u64 w) (to_be_bytes w)"
  unfolding write_u64_def by (rule emits_extend)

lemma emits_all:
  assumes "\<And>x. x \<in> set xs \<Longrightarrow> emits (p x) (e x) (w x)"
  shows "emits (\<forall>x \<in> set xs. p x) (run_all (map e xs)) (concat (map w xs))"
  using assms
proof (induction xs)
  case Nil
  then show ?case using emits_return by simp
next
  case (Cons x xs)
  have "emits (p x) (e x) (w x)" "emits (\<forall>x \<in> set xs. p x) (run_all (map e xs)) (concat (map w xs))"
    using Cons by auto
  from emits_bind [OF this] show ?case by simp
qed

lemma encoded_apart_emits:
  assumes "emits p e w"
  shows "encoded_apart m e = Ok w' \<longleftrightarrow> p \<and> length w \<le> m \<and> w' = w"
proof -
  have b: "fits [] (buf_new m)" by (simp add: fits_def buf_new_def)
  have room: "fits w (buf_new m) \<longleftrightarrow> length w \<le> m" by (simp add: fits_def buf_new_def)
  show ?thesis
  proof (cases "p \<and> length w \<le> m")
    case True
    then have "e (buf_new m) = (Ok (), appended w (buf_new m))" using emitsD(1) [OF assms b] room by blast
    then show ?thesis using True by (auto simp: encoded_apart_def buf_new_def)
  next
    case False
    then have "e (buf_new m) \<noteq> (Ok (), b')" for b' using emitsD(2) [OF assms b] room by blast
    then show ?thesis using False by (auto simp: encoded_apart_def split: prod.splits outcome.splits)
  qed
qed

section \<open>The parts of a value\<close>

lemma emits_items:
  assumes "\<And>x. x \<in> set items \<Longrightarrow> emits (p x) (e x) (w x)"
  shows "emits (short items \<and> (\<forall>x \<in> set items. p x)) (encode_items tag (map e items))
    (tag # length_bytes (length items) @ concat (map w items))"
  unfolding encode_items_def
  by (rule emits_cong [OF emits_bind [OF emits_push emits_bind [OF emits_len emits_all [OF assms]]]]) auto

lemma concat_room: "(\<And>x. x \<in> set xs \<Longrightarrow> m \<le> length (f x)) \<Longrightarrow> m * length xs \<le> length (concat (map f xs))"
  by (induction xs) fastforce+

lemma blank_Nil: "blank []"
  by code_simp

lemma field_nonempty: "validate_record_field field = Ok () \<Longrightarrow> field \<noteq> []"
  using blank_Nil by (auto simp: validate_record_field_def validate_text_field_def bind_out_def)

lemma emits_field:
  assumes "emits q e w"
  shows "emits (validate_record_field field = Ok () \<and> short field \<and> q)
    (bind_st (read_st (\<lambda>_. validate_record_field field)) (\<lambda>_. bind_st (write_text field) (\<lambda>_. e))) (text_wire field @ w)"
  by (rule emits_check [OF emits_bind [OF emits_text assms]])

lemma emits_fields:
  assumes e: "\<And>x. x \<in> set named \<Longrightarrow> emits (p x) (e x) (w x)" and w: "\<And>x. x \<in> set named \<Longrightarrow> p x \<Longrightarrow> w x \<noteq> []"
  defines "row \<equiv> (\<lambda>x. text_wire (fst x) @ w x)"
  shows "emits (\<not> blank name \<and> short name \<and> short named \<and> distinct (map fst named)
      \<and> (\<forall>x \<in> set named. validate_record_field (fst x) = Ok () \<and> short (fst x) \<and> p x))
    (encode_fields name (map (\<lambda>x. (fst x, e x)) named))
    (TAG_RECORD # text_wire name @ length_bytes (length named) @ concat (map row (sort_key fst named)))"
proof -
  let ?sorted = "sort_key fst named"
  let ?rows = "\<forall>x \<in> set ?sorted. validate_record_field (fst x) = Ok () \<and> short (fst x) \<and> p x"
  have keys: "map fst (sort_key fst (map (\<lambda>x. (fst x, e x)) named)) = map fst ?sorted"
    by (simp add: sort_key_map o_def)
  have sorted: "sorted (map fst ?sorted)" by simp
  have "distinct (map fst ?sorted) \<longleftrightarrow> distinct (map fst named)"
    by (simp add: distinct_map)
  then have dup: "(case adjacent_duplicate (map fst ?sorted) of Some field \<Rightarrow> Err (message field) | None \<Rightarrow> Ok ()) = Ok ()
      \<longleftrightarrow> distinct (map fst named)" for message :: "string \<Rightarrow> vm_error"
    using adjacent_duplicate_sorted [OF sorted] by (auto split: option.split)
  have rows: "emits ?rows (run_all (map (\<lambda>(field, encode). bind_st (read_st (\<lambda>_. validate_record_field field)) (\<lambda>_.
         bind_st (write_text field) (\<lambda>_. encode))) (sort_key fst (map (\<lambda>x. (fst x, e x)) named))))
      (concat (map row ?sorted))"
    unfolding sort_key_map map_map row_def fst_conv o_def split_conv
    by (rule emits_all, rule emits_field, rule e) simp
  have long: "6 \<le> length (row x)" if "?rows" "x \<in> set ?sorted" for x
  proof -
    have "fst x \<noteq> []" "w x \<noteq> []" using that w [of x] field_nonempty by auto
    then show ?thesis unfolding row_def text_wire_def by (cases "fst x"; cases "w x") auto
  qed
  show ?thesis
    unfolding encode_fields_def keys Let_def
    apply (rule emits_cong)
      apply (rule emits_check)
      apply (rule emits_bind [OF emits_tagged])
      apply (rule emits_bind [OF emits_len])
      apply (rule emits_room)
       apply (rule emits_check, rule rows)
    subgoal for b
      using concat_room [of ?sorted 6 row] long by (auto simp: fits_def buf_remaining_def)
     apply (simp only: dup)
     apply (auto simp: validate_text_field_def)
    done
qed

lemma encode_keys_emits:
  assumes "\<And>x. x \<in> set entries \<Longrightarrow> emits (p x) (k x) (wk x)"
  shows "encode_keys room (map (\<lambda>x. (k x, v x)) entries) = Ok rows \<longleftrightarrow>
    (\<forall>x \<in> set entries. p x) \<and> length (concat (map wk entries)) \<le> room \<and> rows = map (\<lambda>x. (wk x, v x)) entries"
  using assms
proof (induction entries arbitrary: room rows)
  case (Cons x entries)
  have x: "encoded_apart room (k x) = Ok w' \<longleftrightarrow> p x \<and> length (wk x) \<le> room \<and> w' = wk x" for w'
    by (rule encoded_apart_emits) (use Cons.prems in simp)
  have rest: "encode_keys room' (map (\<lambda>x. (k x, v x)) entries) = Ok rows' \<longleftrightarrow>
      (\<forall>x \<in> set entries. p x) \<and> length (concat (map wk entries)) \<le> room' \<and> rows' = map (\<lambda>x. (wk x, v x)) entries"
    for room' rows' by (rule Cons.IH) (use Cons.prems in simp)
  show ?case by (auto simp: bind_out_eq_Ok x rest)
qed auto

lemma sum_sort: "sum_list (map f (sort_key k xs)) = sum_list (map (f :: 'a \<Rightarrow> nat) xs)"
proof (induction xs)
  case (Cons x xs)
  have "sum_list (map f (insort_key k x ys)) = f x + sum_list (map f ys)" for ys
    by (induction ys) auto
  then show ?case using Cons by simp
qed simp

lemma length_concat_sort:
  "length (concat (map f (sort_key k xs))) = length (concat (map f xs))"
  by (simp add: length_concat o_def sum_sort)

lemma emits_map:
  assumes k: "\<And>x. x \<in> set entries \<Longrightarrow> emits (pk x) (k x) (wk x)"
    and v: "\<And>x. x \<in> set entries \<Longrightarrow> emits (pv x) (v x) (wv x)"
    and long: "\<And>x. x \<in> set entries \<Longrightarrow> pk x \<Longrightarrow> wk x \<noteq> []" "\<And>x. x \<in> set entries \<Longrightarrow> pv x \<Longrightarrow> wv x \<noteq> []"
  defines "row \<equiv> (\<lambda>x. wk x @ wv x)"
  shows "emits (short entries \<and> distinct (map wk entries) \<and> (\<forall>x \<in> set entries. pk x \<and> pv x))
    (encode_map (map (\<lambda>x. (k x, v x)) entries))
    (TAG_MAP # length_bytes (length entries) @ concat (map row (sort_key wk entries)))"
proof -
  let ?sorted = "sort_key wk entries"
  let ?pk = "\<forall>x \<in> set entries. pk x"
  let ?pv = "\<forall>x \<in> set ?sorted. pv x"
  let ?rows = "map (\<lambda>x. (wk x, v x)) entries"
  let ?body = "\<lambda>unordered. let ordered = sort_key fst unordered in
     bind_st (read_st (\<lambda>_. if adjacent_duplicate (map fst ordered) \<noteq> None
         then Err (Msg ''error[tetf_canonical]: duplicate map key'' []) else Ok ())) (\<lambda>_.
     run_all (map (\<lambda>(key, encode). bind_st (extend_from_slice key) (\<lambda>_. encode)) ordered))"
  have "sorted (map wk ?sorted)" by simp
  moreover have "distinct (map wk ?sorted) \<longleftrightarrow> distinct (map wk entries)" by (simp add: distinct_map)
  ultimately have dup: "adjacent_duplicate (map wk ?sorted) = None \<longleftrightarrow> distinct (map wk entries)"
    using adjacent_duplicate_sorted by metis
  have body: "emits (distinct (map wk entries) \<and> ?pv) (?body ?rows) (concat (map row ?sorted))"
    unfolding Let_def sort_key_map map_map o_def fst_conv split_conv dup row_def
    by (rule emits_cong [OF emits_check [OF emits_all [OF emits_cong [OF emits_bind [OF emits_extend v]]]]]) auto
  have total: "length (concat (map wk entries)) \<le> length (concat (map row ?sorted))"
    unfolding length_concat_sort row_def by (induction entries) auto
  have keys: "encode_keys room (map (\<lambda>x. (k x, v x)) entries) = Ok rows \<longleftrightarrow>
      ?pk \<and> length (concat (map wk entries)) \<le> room \<and> rows = ?rows" for room rows
    by (rule encode_keys_emits [OF k])
  have stage: "emits (?pk \<and> distinct (map wk entries) \<and> ?pv)
      (bind_st (read_st (\<lambda>b. encode_keys (buf_remaining b) (map (\<lambda>x. (k x, v x)) entries))) ?body)
      (concat (map row ?sorted))"
  proof (rule emitsI)
    fix b
    assume b: "fits [] b" and ok: "?pk \<and> distinct (map wk entries) \<and> ?pv"
      and fit: "fits (concat (map row ?sorted)) b"
    have "encode_keys (buf_remaining b) (map (\<lambda>x. (k x, v x)) entries) = Ok ?rows"
      unfolding keys using ok fit total by (auto simp: fits_def buf_remaining_def)
    then show "bind_st (read_st (\<lambda>b. encode_keys (buf_remaining b) (map (\<lambda>x. (k x, v x)) entries))) ?body b
        = (Ok (), appended (concat (map row ?sorted)) b)"
      using emitsD(1) [OF body b] ok fit by (simp add: bind_st_def read_st_def)
  next
    fix b b'
    assume b: "fits [] b"
      and "bind_st (read_st (\<lambda>b. encode_keys (buf_remaining b) (map (\<lambda>x. (k x, v x)) entries))) ?body b = (Ok (), b')"
    then have "?pk" "?body ?rows b = (Ok (), b')" by (auto simp: bind_st_eq_Ok read_st_def keys)
    then show "(?pk \<and> distinct (map wk entries) \<and> ?pv) \<and> fits (concat (map row ?sorted)) b"
      using emitsD(2) [OF body b] by blast
  qed
  have two: "2 \<le> length (row x)" if "?pk \<and> distinct (map wk entries) \<and> ?pv" "x \<in> set ?sorted" for x
    using that long [of x] unfolding row_def by (cases "wk x"; cases "wv x") auto
  show ?thesis
    unfolding encode_map_def
    apply (rule emits_cong)
      apply (rule emits_bind [OF emits_push])
      apply (rule emits_bind [OF emits_len])
      apply (rule emits_room)
       apply (rule stage)
    subgoal for b
      using concat_room [of ?sorted 2 row] two by (auto simp: fits_def buf_remaining_def)
     apply auto
    done
qed

lemma bs_ok_sorted_list: "bs_ok xs \<Longrightarrow> sorted_list_of_set (set xs) = xs"
  unfolding bs_ok_def by (metis sorted_list_of_set.idem_if_sorted_distinct strict_sorted_iff)

lemma encode_members_emits:
  assumes "\<And>x. x \<in> set items \<Longrightarrow> emits (p x) (e x) (w x)" and "bs_ok ordered"
  shows "encode_members m room ordered (map e items) = Ok r \<longleftrightarrow>
    (\<forall>x \<in> set items. p x \<and> length (w x) \<le> m) \<and> sum length (w ` set items - set ordered) \<le> room
    \<and> r = sorted_list_of_set (set ordered \<union> w ` set items)"
  using assms
proof (induction items arbitrary: room ordered)
  case Nil
  then show ?case using bs_ok_sorted_list [OF Nil(2)] by auto
next
  case (Cons x items)
  have x: "encoded_apart m (e x) = Ok w' \<longleftrightarrow> p x \<and> length (w x) \<le> m \<and> w' = w x" for w'
    by (rule encoded_apart_emits) (use Cons.prems in simp)
  note IH = Cons.IH [OF Cons.prems(1)]
  show ?case
  proof (cases "w x \<in> set ordered")
    case True
    have same: "w ` set (x # items) - set ordered = w ` set items - set ordered"
      "set ordered \<union> w ` set (x # items) = set ordered \<union> w ` set items" using True by auto
    show ?thesis
      unfolding same using True IH [OF _ Cons.prems(2)]
      by (auto simp: bind_out_eq_Ok x bs_contains_def)
  next
    case False
    have "w ` set (x # items) - set ordered = insert (w x) (w ` set items - set (bs_insert (w x) ordered))"
      using False by auto
    then have sum: "sum length (w ` set (x # items) - set ordered)
        = length (w x) + sum length (w ` set items - set (bs_insert (w x) ordered))" by simp
    have union: "set ordered \<union> w ` set (x # items) = set (bs_insert (w x) ordered) \<union> w ` set items" by auto
    show ?thesis
      unfolding sum union using False IH [OF _ bs_ok_insert [OF Cons.prems(2)]]
      by (auto simp: bind_out_eq_Ok x bs_contains_def)
  qed
qed

lemma length_members: "finite S \<Longrightarrow> length (concat (sorted_list_of_set S)) = sum length S"
  by (simp add: length_concat sum_list_distinct_conv_sum_set)

lemma emits_set:
  assumes e: "\<And>x. x \<in> set items \<Longrightarrow> emits (p x) (e x) (w x)"
  defines "members \<equiv> sorted_list_of_set (w ` set items)"
  shows "emits (card (w ` set items) < 2 ^ 32 \<and> (\<forall>x \<in> set items. p x)) (encode_set (map e items))
    (TAG_SET # length_bytes (length members) @ concat members)"
proof -
  let ?w = "length_bytes (length members) @ concat members"
  let ?p = "\<forall>x \<in> set items. p x"
  let ?read = "\<lambda>b. let maximum = buf_remaining b - 4 in encode_members maximum maximum [] (map e items)"
  let ?body = "\<lambda>ordered. bind_st (write_len (length ordered)) (\<lambda>_. run_all (map extend_from_slice ordered))"
  have size: "length members = card (w ` set items)" by (simp add: members_def)
  have body: "emits (card (w ` set items) < 2 ^ 32) (?body members) ?w"
    unfolding size [symmetric]
    by (rule emits_cong [OF emits_bind [OF emits_len emits_all [OF emits_extend]]]) auto
  have "encode_members m room [] (map e items) = Ok ordered \<longleftrightarrow>
      (\<forall>x \<in> set items. p x \<and> length (w x) \<le> m) \<and> sum length (w ` set items - set []) \<le> room
      \<and> ordered = sorted_list_of_set (set [] \<union> w ` set items)" for m room ordered
    by (rule encode_members_emits) (use e in simp_all)
  then have read: "?read b = Ok ordered \<longleftrightarrow> ?p \<and> (\<forall>x \<in> set items. length (w x) \<le> buf_remaining b - 4)
      \<and> length (concat members) \<le> buf_remaining b - 4 \<and> ordered = members" for b ordered
    by (auto simp: Let_def members_def length_members)
  have each: "length (w x) \<le> length (concat members)" if "x \<in> set items" for x
  proof -
    have "length (w x) \<in> length ` (w ` set items)" using that by blast
    then show ?thesis unfolding members_def length_members [OF finite_imageI [OF finite_set]]
      using member_le_sum [of "w x" "w ` set items" length] that by simp
  qed
  have stage: "emits (card (w ` set items) < 2 ^ 32 \<and> ?p) (bind_st (read_st ?read) ?body) ?w"
  proof (rule emitsI)
    fix b
    assume b: "fits [] b" and ok: "card (w ` set items) < 2 ^ 32 \<and> ?p" and fit: "fits ?w b"
    have "length (concat members) \<le> buf_remaining b - 4" using fit by (auto simp: fits_def buf_remaining_def)
    then have "?read b = Ok members" using ok each unfolding read by fastforce
    then show "bind_st (read_st ?read) ?body b = (Ok (), appended ?w b)"
      using emitsD(1) [OF body b] ok fit by (simp add: bind_st_def read_st_def)
  next
    fix b b'
    assume b: "fits [] b" and "bind_st (read_st ?read) ?body b = (Ok (), b')"
    then have "?p" "?body members b = (Ok (), b')" unfolding bind_st_eq_Ok read_st_def by (auto simp: read)
    then show "(card (w ` set items) < 2 ^ 32 \<and> ?p) \<and> fits ?w b" using emitsD(2) [OF body b] by blast
  qed
  have "emits (card (w ` set items) < 2 ^ 32 \<and> ?p)
      (bind_st (buf_require 4) (\<lambda>_. bind_st (read_st ?read) ?body)) ?w"
    unfolding buf_require_def
    by (rule emits_room [OF stage]) (auto simp: fits_def buf_remaining_def)
  from emits_bind [OF emits_push [of TAG_SET] this] show ?thesis
    unfolding encode_set_def by simp
qed

section \<open>Values\<close>

lemma emits_counted:
  "emits p e w \<Longrightarrow> emits (n < 2 ^ 32 \<and> p) (bind_st (buf_push tag) (\<lambda>_. bind_st (write_len n) (\<lambda>_. e)))
     (tag # length_bytes n @ w)"
  by (rule emits_cong [OF emits_bind [OF emits_push emits_bind [OF emits_len]]]) auto

lemma wire_nonempty: "portable atoms depth v \<Longrightarrow> wire v \<noteq> []"
  by (cases v) (auto simp: portable.simps Let_def)

lemma portable_cases: "portable atoms depth v \<Longrightarrow> depth < MAX_NESTING_DEPTH"
  by (simp add: portable.simps [of _ _ v])

theorem encode_value_wire: "emits (portable atoms depth v) (encode_value atoms depth v) (wire v)"
proof (induction "MAX_NESTING_DEPTH - depth" arbitrary: depth v rule: less_induct)
  case less
  show ?case
  proof (cases "MAX_NESTING_DEPTH \<le> depth")
    case True
    then show ?thesis
      by (intro emits_fail) (auto simp: encode_value.simps [of _ depth] portable.simps [of _ depth] invalid_def read_st_def)
  next
    case False
    then have sub: "emits (portable atoms (Suc depth) x) (encode_value atoms (Suc depth) x) (wire x)" for x
      by (intro less) simp
    let ?p = "portable atoms (Suc depth)" and ?e = "encode_value atoms (Suc depth)"
    have items: "emits (short xs \<and> (\<forall>x \<in> set xs. ?p x)) (encode_items tag (map ?e xs))
        (tag # length_bytes (length xs) @ concat (map wire xs))" for xs tag
      by (rule emits_items) (rule sub)
    note unfold = encode_value.simps [of atoms depth v] portable.simps [of atoms depth v]
    show ?thesis
    proof (cases v)
      case VUnit
      then show ?thesis using False emits_push unfolding unfold by simp
    next
      case (VInt n)
      then show ?thesis
        using False emits_bind [OF emits_push emits_u64, of TAG_INT n] unfolding unfold by simp
    next
      case (VFloat t)
      then show ?thesis using False emits_tagged unfolding unfold by simp
    next
      case (VString t)
      then show ?thesis using False emits_tagged unfolding unfold by simp
    next
      case (VStringBytes bytes)
      then show ?thesis
        using False emits_tagged [of "text_of bytes" TAG_STRING] unfolding unfold
        by (cases "valid_utf8 bytes") (auto simp: from_utf8_def invalid_def read_st_def intro: emits_fail)
    next
      case (VBytes bytes)
      then show ?thesis
        using False emits_counted [OF emits_extend, where n = "length bytes" and tag = TAG_BYTES] unfolding unfold by simp
    next
      case (VBitString bytes n)
      then show ?thesis
        using False emits_counted [OF emits_bind [OF emits_len emits_extend],
            where tag = TAG_BITSTRING]
        unfolding unfold by simp
    next
      case (VAtom name)
      then show ?thesis
        using False emits_tagged [of name TAG_ATOM] unfolding unfold
        by (cases "name \<in> set atoms") (auto simp: read_st_def intro: emits_fail)
    next
      case (VBool b)
      then show ?thesis using False emits_push unfolding unfold by simp
    next
      case (VClosure descriptor captures)
      then show ?thesis using False unfolding unfold by (intro emits_fail) (auto simp: invalid_def read_st_def)
    next
      case (VTuple items)
      then show ?thesis using False items [of items TAG_TUPLE] unfolding unfold by simp
    next
      case (VRecord name named)
      then show ?thesis
        using False emits_fields [of named "\<lambda>x. ?p (snd x)" "\<lambda>x. ?e (snd x)" "\<lambda>x. wire (snd x)" name]
          sub wire_nonempty
        unfolding unfold by (simp add: split_def wire_sorted del: wire.simps)
    next
      case (VList items)
      then show ?thesis using False items [of items TAG_LIST] unfolding unfold by simp
    next
      case (VMap entries)
      then show ?thesis
        using False emits_map [of entries "\<lambda>x. ?p (fst x)" "\<lambda>x. ?e (fst x)" "\<lambda>x. wire (fst x)"
            "\<lambda>x. ?p (snd x)" "\<lambda>x. ?e (snd x)" "\<lambda>x. wire (snd x)"] sub wire_nonempty
        unfolding unfold by (simp add: split_def wire_sorted del: wire.simps)
    next
      case (VSet items)
      then show ?thesis
        using False emits_set [of items ?p ?e wire] sub unfolding unfold by (simp add: Let_def)
    qed
  qed
qed

end
