(* ===== verification/Term_Reading.thy ===== *)
theory Term_Reading
  imports Term_Wire
begin

text \<open>
  The decoder against the format: it reads the wire form of a portable value back as its canonical
  form, and whatever it reads was the wire form of the value it returns.
\<close>

section \<open>Canonical values\<close>

text \<open>The invariants of the Rust types: texts are valid UTF-8, a bit string is packed.\<close>

definition text_ok :: "string \<Rightarrow> bool" where
  "text_ok text \<longleftrightarrow> valid_utf8 (as_bytes text)"

definition bits_ok :: "u8 list \<Rightarrow> nat \<Rightarrow> bool" where
  "bits_ok bytes n \<longleftrightarrow> length bytes = (n + 7) div 8 \<and> mask_unused_trailing_bits bytes n = bytes"

fun well_formed :: "ReplValue \<Rightarrow> bool" where
  "well_formed (VFloat t) = text_ok t"
| "well_formed (VString t) = text_ok t"
| "well_formed (VAtom t) = text_ok t"
| "well_formed (VBitString bytes n) = bits_ok bytes (unat n)"
| "well_formed (VTuple items) = (\<forall>x \<in> set items. well_formed x)"
| "well_formed (VList items) = (\<forall>x \<in> set items. well_formed x)"
| "well_formed (VSet items) = (\<forall>x \<in> set items. well_formed x)"
| "well_formed (VRecord name named) = (text_ok name \<and> (\<forall>x \<in> set named. text_ok (fst x) \<and> well_formed (snd x)))"
| "well_formed (VMap entries) = (\<forall>x \<in> set entries. well_formed (fst x) \<and> well_formed (snd x))"
| "well_formed _ = True"

text \<open>What a receiver gets: maps, sets and records in the order of the format, a set without
  duplicates, text in one representation.\<close>

fun canon :: "ReplValue \<Rightarrow> ReplValue" where
  "canon (VStringBytes bytes) = VString (text_of bytes)"
| "canon (VTuple items) = VTuple (map canon items)"
| "canon (VList items) = VList (map canon items)"
| "canon (VRecord name named) = VRecord name (sort_key fst (map (\<lambda>(field, v). (field, canon v)) named))"
| "canon (VMap entries) =
     VMap (map snd (sort_key fst (map (\<lambda>(k, v). (wire k, (canon k, canon v))) entries)))"
| "canon (VSet items) = VSet (map (\<lambda>w. the (map_of (map (\<lambda>x. (wire x, canon x)) items) w))
     (sorted_list_of_set (set (map wire items))))"
| "canon v = v"

fun value_count :: "ReplValue \<Rightarrow> nat" where
  "value_count (VTuple items) = Suc (sum_list (map value_count items))"
| "value_count (VList items) = Suc (sum_list (map value_count items))"
| "value_count (VSet items) = Suc (sum_list (map value_count items))"
| "value_count (VRecord _ named) = Suc (sum_list (map (\<lambda>(_, v). value_count v) named))"
| "value_count (VMap entries) = Suc (sum_list (map (\<lambda>(k, v). value_count k + value_count v) entries))"
| "value_count _ = 1"

lemma value_count_pos: "0 < value_count v"
  by (cases v) auto

section \<open>Decoders\<close>

text \<open>
  \<open>reads atoms item w x n\<close>: with \<open>w\<close> next in the input, and the atoms of the manifest, the decoder
  returns \<open>x\<close>, consumes exactly \<open>w\<close> and reserves \<open>n\<close> slots.
\<close>

definition facing :: "string list \<Rightarrow> u8 list \<Rightarrow> Decoder \<Rightarrow> bool" where
  "facing atoms w d \<longleftrightarrow> dec_offset d \<le> length (dec_bytes d) \<and> length (dec_bytes d) \<le> USIZE_MAX
     \<and> dec_declared_atoms d = atoms \<and> (\<exists>rest. drop (dec_offset d) (dec_bytes d) = w @ rest)"

definition advanced :: "u8 list \<Rightarrow> nat \<Rightarrow> Decoder \<Rightarrow> Decoder" where
  "advanced w n d = d\<lparr> dec_offset := dec_offset d + length w,
     dec_remaining_value_slots := dec_remaining_value_slots d - n \<rparr>"

definition reads :: "string list \<Rightarrow> 'a decoder \<Rightarrow> u8 list \<Rightarrow> 'a \<Rightarrow> nat \<Rightarrow> bool" where
  "reads atoms item w x n \<longleftrightarrow> (\<forall>d. facing atoms w d \<and> n \<le> dec_remaining_value_slots d
     \<longrightarrow> item d = (Ok x, advanced w n d))"

lemma readsD: "reads atoms item w x n \<Longrightarrow> facing atoms w d \<Longrightarrow> n \<le> dec_remaining_value_slots d
    \<Longrightarrow> item d = (Ok x, advanced w n d)"
  by (auto simp: reads_def)

lemma facing_room: "facing atoms w d \<Longrightarrow> dec_offset d + length w \<le> length (dec_bytes d)"
  unfolding facing_def by (metis add_le_imp_le_left length_append length_drop le_add1 le_add_diff_inverse
      add_le_cancel_left)

lemma facing_take: "facing atoms w d \<Longrightarrow> take (length w) (drop (dec_offset d) (dec_bytes d)) = w"
  by (auto simp: facing_def)

lemma facing_prefix: "facing atoms (w @ w') d \<Longrightarrow> facing atoms w d"
  by (auto simp: facing_def)

lemma facing_advanced: 
  assumes "facing atoms (w @ w') d"
  shows "facing atoms w' (advanced w n d)"
proof -
  have "dec_offset d + length w \<le> length (dec_bytes d)" using facing_room [OF facing_prefix [OF assms]] .
  moreover obtain rest where "drop (dec_offset d) (dec_bytes d) = w @ w' @ rest"
    using assms by (auto simp: facing_def)
  then have "drop (dec_offset d + length w) (dec_bytes d) = w' @ rest"
    by (metis add.commute append_eq_conv_conj drop_drop)
  ultimately show ?thesis using assms by (auto simp: facing_def advanced_def)
qed

lemma advanced_simps [simp]:
  "advanced [] 0 d = d" "advanced w' n' (advanced w n d) = advanced (w @ w') (n + n') d"
  "dec_remaining_value_slots (advanced w n d) = dec_remaining_value_slots d - n"
  "dec_offset (advanced w n d) = dec_offset d + length w" "dec_bytes (advanced w n d) = dec_bytes d"
  "dec_declared_atoms (advanced w n d) = dec_declared_atoms d"
  by (auto simp: advanced_def)

lemma reads_bind:
  assumes m: "reads atoms m w x n" and f: "reads atoms (f x) w' y n'"
  shows "reads atoms (bind_st m f) (w @ w') y (n + n')"
  unfolding reads_def
proof (intro allI impI)
  fix d
  assume d: "facing atoms (w @ w') d \<and> n + n' \<le> dec_remaining_value_slots d"
  then have "m d = (Ok x, advanced w n d)" by (intro readsD [OF m] facing_prefix [of atoms w w']) simp_all
  moreover have "f x (advanced w n d) = (Ok y, advanced w' n' (advanced w n d))"
    by (rule readsD [OF f facing_advanced]) (use d in auto)
  ultimately show "bind_st m f d = (Ok y, advanced (w @ w') (n + n') d)" by simp
qed

lemma reads_bind0:
  "reads atoms m w x 0 \<Longrightarrow> reads atoms (f x) w' y n \<Longrightarrow> reads atoms (bind_st m f) (w @ w') y n"
  using reads_bind [of atoms m w x 0 f w' y n] by simp

lemma reads_return: "reads atoms (return_st x) [] x 0"
  by (simp add: reads_def return_st_def)

lemma reads_map: "reads atoms m w x n \<Longrightarrow> reads atoms (bind_st m (\<lambda>x. return_st (f x))) w (f x) n"
  using reads_bind [OF _ reads_return, of atoms m w x n "\<lambda>x. return_st (f x)"] by (simp add: reads_def return_st_def)

lemma reads_check: "c = Ok a \<Longrightarrow> reads atoms (f a) w y n \<Longrightarrow> reads atoms (bind_st (read_st (\<lambda>_. c)) f) w y n"
  by (simp add: reads_def bind_st_def read_st_def)

lemma reads_require:
  assumes "reads atoms (f ()) w y n" and "count * m \<le> length w"
  shows "reads atoms (bind_st (require_remaining_items count m) f) w y n"
  unfolding reads_def
proof (intro allI impI)
  fix d
  assume d: "facing atoms w d \<and> n \<le> dec_remaining_value_slots d"
  have "count * m \<le> length (dec_bytes d) - dec_offset d" "count * m \<le> USIZE_MAX"
    using assms(2) facing_room [of atoms w d] d by (auto simp: facing_def)
  then show "bind_st (require_remaining_items count m) f d = (Ok y, advanced w n d)"
    using readsD [OF assms(1)] d by (simp add: require_remaining_items_def bind_st_def read_st_def)
qed

lemma reads_reserve:
  assumes "reads atoms (f ()) w y n"
  shows "reads atoms (bind_st (reserve_value_slots count) f) w y (count + n)"
  unfolding reads_def
proof (intro allI impI)
  fix d
  assume d: "facing atoms w d \<and> count + n \<le> dec_remaining_value_slots d"
  let ?d = "d\<lparr> dec_remaining_value_slots := dec_remaining_value_slots d - count \<rparr>"
  have "f () ?d = (Ok y, advanced w n ?d)"
    by (rule readsD [OF assms]) (use d in \<open>auto simp: facing_def\<close>)
  then show "bind_st (reserve_value_slots count) f d = (Ok y, advanced w (count + n) d)"
    using d by (simp add: reserve_value_slots_def advanced_def)
qed

lemma reads_exact: "length w = len \<Longrightarrow> reads atoms (read_exact len) w w 0"
  unfolding reads_def read_exact_def Let_def
  using facing_room facing_take by (fastforce simp: facing_def advanced_def)

lemma reads_u8: "reads atoms read_u8 [b] b 0"
  unfolding read_u8_def using reads_map [OF reads_exact [of "[b]" 1], of atoms hd] by simp

lemma reads_len: "n < 2 ^ 32 \<Longrightarrow> reads atoms read_len (length_bytes n) n 0"
  unfolding read_len_def
  using reads_map [OF reads_exact [of "length_bytes n" 4], of atoms bytes_length] bytes_length_length_bytes by simp

lemma reads_u64: "reads atoms read_u64 (to_be_bytes n) n 0"
  unfolding read_u64_def
  using reads_map [OF reads_exact [of "to_be_bytes n" 8], of atoms from_be_bytes] be_bytes_inverse by simp

lemma reads_text:
  assumes "text_ok s" and "short s"
  shows "reads atoms read_text (text_wire s) s 0"
proof -
  have "reads atoms (bind_st (read_exact (length s)) (\<lambda>bytes. read_st (\<lambda>_. ok_or e (from_utf8 bytes))))
      (as_bytes s @ []) s (0 + 0)" for e
  proof (rule reads_bind [OF reads_exact])
    show "reads atoms (read_st (\<lambda>_. ok_or e (from_utf8 (as_bytes s)))) [] s 0"
      using assms(1) by (simp add: reads_def read_st_def ok_or_def from_utf8_def text_ok_def)
  qed simp
  then show ?thesis
    unfolding read_text_def text_wire_def using reads_bind [OF reads_len [OF assms(2)]] by fastforce
qed

lemma reads_with_bytes:
  assumes "reads atoms item w x n"
  shows "reads atoms (with_bytes item) w (x, w) n"
  unfolding reads_def
proof (intro allI impI)
  fix d
  assume d: "facing atoms w d \<and> n \<le> dec_remaining_value_slots d"
  then show "with_bytes item d = (Ok (x, w), advanced w n d)"
    using readsD [OF assms] facing_take [of atoms w d] by (simp add: with_bytes_def)
qed

lemma reads_items:
  assumes "\<And>x. x \<in> set xs \<Longrightarrow> reads atoms item (w x) (c x) (n x)"
  shows "reads atoms (read_items (length xs) item) (concat (map w xs)) (map c xs) (sum_list (map n xs))"
  using assms
proof (induction xs)
  case Nil
  then show ?case by (simp add: reads_return)
next
  case (Cons x xs)
  have "reads atoms item (w x) (c x) (n x)"
    "reads atoms (read_items (length xs) item) (concat (map w xs)) (map c xs) (sum_list (map n xs))"
    using Cons by auto
  from reads_bind [OF this(1), of "\<lambda>y. bind_st (read_items (length xs) item) (\<lambda>ys. return_st (y # ys))",
      OF reads_map [OF this(2)]]
  show ?case by simp
qed

section \<open>Reading values\<close>

fun below :: "'a::linorder option \<Rightarrow> 'a list \<Rightarrow> bool" where
  "below None xs = sorted_wrt (<) xs"
| "below (Some p) xs = sorted_wrt (<) (p # xs)"

lemma below_Cons: "below p (x # xs) \<Longrightarrow> below (Some x) xs \<and> (\<forall>q. p = Some q \<longrightarrow> q < x)"
  by (cases p) auto

lemma reads_entries:
  assumes "below previous (map wk xs)"
    and "\<And>x. x \<in> set xs \<Longrightarrow> reads atoms item (wk x) (ck x) (nk x)"
    and "\<And>x. x \<in> set xs \<Longrightarrow> reads atoms item (wv x) (cv x) (nv x)"
  shows "reads atoms (read_entries (length xs) previous item) (concat (map (\<lambda>x. wk x @ wv x) xs))
    (map (\<lambda>x. (ck x, cv x)) xs) (sum_list (map (\<lambda>x. nk x + nv x) xs))"
  using assms
proof (induction xs arbitrary: previous)
  case Nil
  then show ?case by (simp add: reads_return)
next
  case (Cons x xs)
  have order: "below (Some (wk x)) (map wk xs)" "require_strictly_increasing previous (wk x) = Ok ()"
    using below_Cons [of previous "wk x" "map wk xs"] Cons.prems(1)
    by (auto simp: require_strictly_increasing_def split: option.split)
  have k: "reads atoms (with_bytes item) (wk x) (ck x, wk x) (nk x)"
    by (rule reads_with_bytes) (use Cons.prems in simp)
  have v: "reads atoms item (wv x) (cv x) (nv x)" using Cons.prems by simp
  have rest: "reads atoms (read_entries (length xs) (Some (wk x)) item) (concat (map (\<lambda>x. wk x @ wv x) xs))
      (map (\<lambda>x. (ck x, cv x)) xs) (sum_list (map (\<lambda>x. nk x + nv x) xs))"
    by (rule Cons.IH [OF order(1)]) (use Cons.prems in simp_all)
  show ?case
    unfolding list.size(4) add_Suc_right add_0_right read_entries.simps list.map concat.simps sum_list.Cons
      append_assoc add.assoc
    by (rule reads_bind [OF k], unfold split_conv, rule reads_check [OF order(2)], rule reads_bind [OF v],
        rule reads_map [OF rest])
qed

lemma reads_members:
  assumes "below previous ws" and "\<And>w. w \<in> set ws \<Longrightarrow> reads atoms item w (c w) (n w)"
  shows "reads atoms (read_members (length ws) previous item) (concat ws) (map c ws) (sum_list (map n ws))"
  using assms
proof (induction ws arbitrary: previous)
  case Nil
  then show ?case by (simp add: reads_return)
next
  case (Cons w ws)
  have order: "below (Some w) ws" "require_strictly_increasing previous w = Ok ()"
    using below_Cons [of previous w ws] Cons.prems(1)
    by (auto simp: require_strictly_increasing_def split: option.split)
  have k: "reads atoms (with_bytes item) w (c w, w) (n w)"
    by (rule reads_with_bytes) (use Cons.prems in simp)
  have rest: "reads atoms (read_members (length ws) (Some w) item) (concat ws) (map c ws) (sum_list (map n ws))"
    by (rule Cons.IH [OF order(1)]) (use Cons.prems in simp_all)
  show ?case
    unfolding list.size(4) add_Suc_right add_0_right read_members.simps list.map concat.simps sum_list.Cons
    by (rule reads_bind [OF k]) (simp add: reads_check [OF order(2)] reads_map [OF rest])
qed

lemma reads_fields:
  assumes "below previous (map fst xs)"
    and "\<And>x. x \<in> set xs \<Longrightarrow> text_ok (fst x) \<and> short (fst x) \<and> validate_record_field (fst x) = Ok ()"
    and "\<And>x. x \<in> set xs \<Longrightarrow> reads atoms item (w x) (c x) (n x)"
  shows "reads atoms (read_fields (length xs) previous item) (concat (map (\<lambda>x. text_wire (fst x) @ w x) xs))
    (map (\<lambda>x. (fst x, c x)) xs) (sum_list (map n xs))"
  using assms
proof (induction xs arbitrary: previous)
  case Nil
  then show ?case by (simp add: reads_return)
next
  case (Cons x xs)
  have order: "below (Some (fst x)) (map fst xs)"
    "(case previous of Some before \<Rightarrow> if fst x \<le> before then Err e else Ok () | None \<Rightarrow> Ok ()) = Ok ()" for e :: vm_error
    using below_Cons [of previous "fst x" "map fst xs"] Cons.prems(1)
    by (auto split: option.split)
  have x: "text_ok (fst x)" "short (fst x)" "validate_record_field (fst x) = Ok ()" using Cons.prems by auto
  have v: "reads atoms item (w x) (c x) (n x)" using Cons.prems by simp
  have rest: "reads atoms (read_fields (length xs) (Some (fst x)) item) (concat (map (\<lambda>x. text_wire (fst x) @ w x) xs))
      (map (\<lambda>x. (fst x, c x)) xs) (sum_list (map n xs))"
    by (rule Cons.IH [OF order(1)]) (use Cons.prems in simp_all)
  have "reads atoms (read_fields (Suc (length xs)) previous item)
      (text_wire (fst x) @ w x @ concat (map (\<lambda>x. text_wire (fst x) @ w x) xs))
      ((fst x, c x) # map (\<lambda>x. (fst x, c x)) xs) (0 + (n x + sum_list (map n xs)))"
    unfolding read_fields.simps
    by (rule reads_bind [OF reads_text [OF x(1,2)]], rule reads_check [OF x(3)], rule reads_check [OF order(2)],
        rule reads_bind [OF v], rule reads_map [OF rest])
  then show ?case by simp
qed

lemma below_sort: "distinct (map k xs) \<Longrightarrow> below None (map k (sort_key k xs))"
  by (simp add: strict_sorted_iff distinct_map)

lemma below_members: "finite S \<Longrightarrow> below None (sorted_list_of_set S)"
  by (simp add: strict_sorted_iff)

lemma slots_sum: "length xs + sum_list (map (\<lambda>x. value_count (f x) - 1) xs) = sum_list (map (\<lambda>x. value_count (f x)) xs)"
proof (induction xs)
  case (Cons x xs)
  then show ?case using value_count_pos [of "f x"] by simp
qed simp

lemma slots_sum2: "length xs * 2 + sum_list (map (\<lambda>x. value_count (f x) - 1 + (value_count (g x) - 1)) xs)
    = sum_list (map (\<lambda>x. value_count (f x) + value_count (g x)) xs)"
proof (induction xs)
  case (Cons x xs)
  then show ?case using value_count_pos [of "f x"] value_count_pos [of "g x"] by simp
qed simp

lemma canon_sorted:
  "canon (VRecord name named) = VRecord name (map (\<lambda>x. (fst x, canon (snd x))) (sort_key fst named))"
  "canon (VMap entries) = VMap (map (\<lambda>x. (canon (fst x), canon (snd x))) (sort_key (\<lambda>x. wire (fst x)) entries))"
  by (simp_all add: sort_key_map split_def o_def)

lemma reads_sequence:
  assumes "\<And>x. x \<in> set xs \<Longrightarrow> reads atoms item (wire x) (canon x) (value_count (canon x) - 1)"
    and "short xs" and "\<And>x. x \<in> set xs \<Longrightarrow> wire x \<noteq> []"
  shows "reads atoms (decode_sequence item) (length_bytes (length xs) @ concat (map wire xs)) (map canon xs)
    (sum_list (map (\<lambda>x. value_count (canon x)) xs))"
proof -
  have one: "1 \<le> length (wire x)" if "x \<in> set xs" for x using assms(3) [OF that] by (cases "wire x") auto
  have body: "reads atoms (bind_st (require_remaining_items (length xs) 1) (\<lambda>_.
       bind_st (reserve_value_slots (length xs)) (\<lambda>_. read_items (length xs) item)))
       (concat (map wire xs)) (map canon xs) (length xs + sum_list (map (\<lambda>x. value_count (canon x) - 1) xs))"
    by (rule reads_require [OF reads_reserve [OF reads_items [OF assms(1)]]])
      (use concat_room [of xs 1 wire, OF one] in simp_all)
  show ?thesis
    unfolding decode_sequence_def slots_sum [symmetric]
    by (rule reads_bind0 [OF reads_len [OF assms(2)]], rule body)
qed

lemma reads_map_value:
  assumes "\<And>x. x \<in> set xs \<Longrightarrow> reads atoms item (wire (fst x)) (canon (fst x)) (value_count (canon (fst x)) - 1)"
    and "\<And>x. x \<in> set xs \<Longrightarrow> reads atoms item (wire (snd x)) (canon (snd x)) (value_count (canon (snd x)) - 1)"
    and "short xs" and "\<And>x. x \<in> set xs \<Longrightarrow> wire (fst x) \<noteq> [] \<and> wire (snd x) \<noteq> []"
    and "below None (map (\<lambda>x. wire (fst x)) xs)"
  shows "reads atoms (decode_map item) (length_bytes (length xs) @ concat (map (\<lambda>x. wire (fst x) @ wire (snd x)) xs))
    (VMap (map (\<lambda>x. (canon (fst x), canon (snd x))) xs))
    (sum_list (map (\<lambda>x. value_count (canon (fst x)) + value_count (canon (snd x))) xs))"
proof -
  have two: "2 \<le> length (wire (fst x) @ wire (snd x))" if "x \<in> set xs" for x
    using assms(4) [OF that] by (cases "wire (fst x)"; cases "wire (snd x)") auto
  have small: "(if USIZE_MAX < length xs * 2 then Err e else Ok ()) = Ok ()" for e :: vm_error
    using assms(3) by (simp add: USIZE_MAX_def)
  have body: "reads atoms (bind_st (require_remaining_items (length xs) 2) (\<lambda>_.
       bind_st (read_st (\<lambda>_. if USIZE_MAX < length xs * 2 then Err e else Ok ())) (\<lambda>_.
       bind_st (reserve_value_slots (length xs * 2)) (\<lambda>_.
       bind_st (read_entries (length xs) None item) (\<lambda>entries. return_st (VMap entries))))))
       (concat (map (\<lambda>x. wire (fst x) @ wire (snd x)) xs)) (VMap (map (\<lambda>x. (canon (fst x), canon (snd x))) xs))
       (length xs * 2 + sum_list (map (\<lambda>x. value_count (canon (fst x)) - 1 + (value_count (canon (snd x)) - 1)) xs))"
    for e
    by (rule reads_require, rule reads_check [OF small], rule reads_reserve, rule reads_map,
        rule reads_entries [OF assms(5)], rule assms(1), assumption, rule assms(2), assumption)
      (use concat_room [of xs 2 "\<lambda>x. wire (fst x) @ wire (snd x)", OF two] in simp)
  show ?thesis
    unfolding decode_map_def slots_sum2 [symmetric]
    by (rule reads_bind0 [OF reads_len [OF assms(3)]], rule body)
qed

lemma reads_set:
  assumes "\<And>w. w \<in> set ws \<Longrightarrow> reads atoms item w (c w) (value_count (c w) - 1)"
    and "short ws" and "[] \<notin> set ws" and "below None ws"
  shows "reads atoms (decode_canonical_set item) (length_bytes (length ws) @ concat ws) (map c ws)
    (sum_list (map (\<lambda>w. value_count (c w)) ws))"
proof -
  have one: "1 \<le> length w" if "w \<in> set ws" for w using assms(3) that by (cases w) auto
  have body: "reads atoms (bind_st (require_remaining_items (length ws) 1) (\<lambda>_.
       bind_st (reserve_value_slots (length ws)) (\<lambda>_. read_members (length ws) None item)))
       (concat ws) (map c ws) (length ws + sum_list (map (\<lambda>w. value_count (c w) - 1) ws))"
    by (rule reads_require [OF reads_reserve [OF reads_members [OF assms(4,1)]]])
      (use concat_room [of ws 1 "\<lambda>w. w", OF one] in simp_all)
  show ?thesis
    unfolding decode_canonical_set_def slots_sum [symmetric]
    by (rule reads_bind0 [OF reads_len [OF assms(2)]], rule body)
qed

lemma reads_record:
  assumes "\<And>x. x \<in> set xs \<Longrightarrow> reads atoms item (wire (snd x)) (canon (snd x)) (value_count (canon (snd x)) - 1)"
    and "\<And>x. x \<in> set xs \<Longrightarrow> text_ok (fst x) \<and> short (fst x) \<and> validate_record_field (fst x) = Ok ()"
    and "short xs" and "below None (map fst xs)" and name: "text_ok name" "short name" "\<not> blank name"
  shows "reads atoms (decode_record item) (text_wire name @ length_bytes (length xs)
      @ concat (map (\<lambda>x. text_wire (fst x) @ wire (snd x)) xs))
    (VRecord name (map (\<lambda>x. (fst x, canon (snd x))) xs)) (sum_list (map (\<lambda>x. value_count (canon (snd x))) xs))"
proof -
  have two: "2 \<le> length (text_wire (fst x) @ wire (snd x))" if "x \<in> set xs" for x
    by (simp add: text_wire_def)
  have valid: "validate_text_field ''record_name'' name = Ok ()" using name(3) by (simp add: validate_text_field_def)
  have body: "reads atoms (bind_st (require_remaining_items (length xs) 2) (\<lambda>_.
       bind_st (reserve_value_slots (length xs)) (\<lambda>_.
       bind_st (read_fields (length xs) None item) (\<lambda>named. return_st (VRecord name named)))))
       (concat (map (\<lambda>x. text_wire (fst x) @ wire (snd x)) xs)) (VRecord name (map (\<lambda>x. (fst x, canon (snd x))) xs))
       (length xs + sum_list (map (\<lambda>x. value_count (canon (snd x)) - 1) xs))"
    by (rule reads_require, rule reads_reserve, rule reads_map, rule reads_fields [OF assms(4,2)], assumption,
        rule assms(1), assumption)
      (use concat_room [of xs 2 "\<lambda>x. text_wire (fst x) @ wire (snd x)", OF two] in simp)
  show ?thesis
    unfolding decode_record_def slots_sum [symmetric]
    by (rule reads_bind0 [OF reads_text [OF name(1,2)]], rule reads_check [OF valid],
        rule reads_bind0 [OF reads_len [OF assms(3)]], rule body)
qed

lemma reads_bits:
  assumes "bits_ok bytes (unat n)" and "unat n < 2 ^ 32" and "short bytes"
  shows "reads atoms decode_bitstring (length_bytes (unat n) @ length_bytes (length bytes) @ bytes) (VBitString bytes n) 0"
proof -
  have size: "length bytes = (unat n + 7) div 8" and mask: "mask_unused_trailing_bits bytes (unat n) = bytes"
    using assms(1) by (simp_all add: bits_ok_def)
  have packed: "bitstring_from_bytes bytes (unat n) = Ok bytes"
    using assms(2,3) mask size by (simp add: bitstring_from_bytes_def USIZE_MAX_def)
  have "reads atoms (bind_st (read_exact (length bytes)) (\<lambda>bytes.
       bind_st (read_st (\<lambda>_. map_err (\<lambda>_. e) (bitstring_from_bytes bytes (unat n)))) (\<lambda>packed.
       if packed \<noteq> bytes then invalid e'
       else return_st (VBitString packed (word_of_nat (unat n)))))) (bytes @ []) (VBitString bytes n) (0 + 0)" for e e'
    by (rule reads_bind [OF reads_exact], simp)
      (rule reads_check [where a = bytes], simp add: packed map_err_def, simp add: reads_return)
  then have body: "reads atoms (bind_st (read_exact (length bytes)) (\<lambda>bytes.
       bind_st (read_st (\<lambda>_. map_err (\<lambda>_. e) (bitstring_from_bytes bytes (unat n)))) (\<lambda>packed.
       if packed \<noteq> bytes then invalid e'
       else return_st (VBitString packed (word_of_nat (unat n)))))) bytes (VBitString bytes n) 0" for e e' by simp
  show ?thesis
    unfolding decode_bitstring_def
    by (rule reads_bind0 [OF reads_len [OF assms(2)]], rule reads_bind0 [OF reads_len [OF assms(3)]])
      (simp add: body size [symmetric])
qed

lemma reads_atom:
  assumes "text_ok name" and "short name" and "name \<in> set atoms"
  shows "reads atoms decode_atom (text_wire name) (VAtom name) 0"
proof -
  have "reads atoms (\<lambda>d. if name \<notin> set (dec_declared_atoms d) then (Err e, d) else (Ok (VAtom name), d)) [] (VAtom name) 0"
    for e :: vm_error using assms(3) by (auto simp: reads_def facing_def)
  then have "reads atoms decode_atom (text_wire name @ []) (VAtom name) 0"
    unfolding decode_atom_def by (rule reads_bind0 [OF reads_text [OF assms(1,2)]])
  then show ?thesis by simp
qed

lemma decode_tagged_simps:
  "decode_tagged TAG_UNIT item = return_st VUnit"
  "decode_tagged TAG_FALSE item = return_st (VBool False)"
  "decode_tagged TAG_TRUE item = return_st (VBool True)"
  "decode_tagged TAG_INT item = bind_st read_u64 (\<lambda>n. return_st (VInt n))"
  "decode_tagged TAG_FLOAT_TEXT item = bind_st read_text (\<lambda>text. return_st (VFloat text))"
  "decode_tagged TAG_STRING item = bind_st read_text (\<lambda>text. return_st (VString text))"
  "decode_tagged TAG_ATOM item = decode_atom"
  "decode_tagged TAG_TUPLE item = bind_st (decode_sequence item) (\<lambda>items. return_st (VTuple items))"
  "decode_tagged TAG_LIST item = bind_st (decode_sequence item) (\<lambda>items. return_st (VList items))"
  "decode_tagged TAG_MAP item = decode_map item"
  "decode_tagged TAG_SET item = bind_st (decode_canonical_set item) (\<lambda>items. return_st (VSet items))"
  "decode_tagged TAG_RECORD item = decode_record item"
  "decode_tagged TAG_BYTES item = bind_st read_len (\<lambda>len. bind_st (read_exact len) (\<lambda>bytes.
     return_st (VBytes bytes)))"
  "decode_tagged TAG_BITSTRING item = decode_bitstring"
  by (simp_all add: decode_tagged_def tag_defs)

lemma reads_tagged:
  assumes "depth < MAX_NESTING_DEPTH" and "reads atoms (decode_tagged tag (decode_value (Suc depth))) w x n"
  shows "reads atoms (decode_value depth) (tag # w) x n"
proof -
  have "reads atoms (decode_value depth) ([tag] @ w) x n"
    using assms(1) unfolding decode_value.simps [of depth]
    by (simp del: append_Cons) (rule reads_bind0 [OF reads_u8], rule assms(2))
  then show ?thesis by simp
qed

lemma reads_bytes:
  assumes "short bytes"
  shows "reads atoms (bind_st read_len (\<lambda>len. bind_st (read_exact len) (\<lambda>bytes. return_st (VBytes bytes))))
    (length_bytes (length bytes) @ bytes) (VBytes bytes) 0"
  by (rule reads_bind0 [OF reads_len [OF assms]], rule reads_map, rule reads_exact, rule refl)

theorem decode_value_reads:
  "portable atoms depth v \<Longrightarrow> well_formed v
     \<Longrightarrow> reads atoms (decode_value depth) (wire v) (canon v) (value_count (canon v) - 1)"
proof (induction "MAX_NESTING_DEPTH - depth" arbitrary: depth v rule: less_induct)
  case less
  note deep = portable_cases [OF less.prems(1)]
  have sub: "reads atoms (decode_value (Suc depth)) (wire x) (canon x) (value_count (canon x) - 1)"
    if "portable atoms (Suc depth) x" "well_formed x" for x
    by (rule less.hyps) (use that deep in auto)
  note p = less.prems(1) [unfolded portable.simps [of atoms depth v]] and t = reads_tagged [OF deep]
  show ?case
  proof (cases v)
    case VUnit
    then show ?thesis
      using t [of atoms TAG_UNIT "[]" VUnit 0] by (simp add: decode_tagged_simps reads_return)
  next
    case (VInt n)
    then show ?thesis using t [of _ TAG_INT, unfolded decode_tagged_simps, OF reads_map [OF reads_u64, of atoms VInt n]] by simp
  next
    case (VFloat s)
    then have "text_ok s" "short s" using less.prems(2) p by simp_all
    from t [of _ TAG_FLOAT_TEXT, unfolded decode_tagged_simps, OF reads_map [OF reads_text [OF this], of _ VFloat]] show ?thesis
      using VFloat by simp
  next
    case (VString s)
    then have "text_ok s" "short s" using less.prems(2) p by simp_all
    from t [of _ TAG_STRING, unfolded decode_tagged_simps, OF reads_map [OF reads_text [OF this], of _ VString]] show ?thesis
      using VString by simp
  next
    case (VStringBytes bytes)
    then have "text_ok (text_of bytes)" "short (text_of bytes)" using p by (simp_all add: text_ok_def)
    from t [of _ TAG_STRING, unfolded decode_tagged_simps, OF reads_map [OF reads_text [OF this], of _ VString]] show ?thesis
      using VStringBytes by simp
  next
    case (VBytes bytes)
    then have "short bytes" using p by simp
    from t [of _ TAG_BYTES, unfolded decode_tagged_simps, OF reads_bytes [OF this]] show ?thesis using VBytes by simp
  next
    case (VBitString bytes n)
    then have "bits_ok bytes (unat n)" "unat n < 2 ^ 32" "short bytes" using less.prems(2) p by simp_all
    from t [of _ TAG_BITSTRING, unfolded decode_tagged_simps, OF reads_bits [OF this]] show ?thesis using VBitString by simp
  next
    case (VAtom name)
    then have "text_ok name" "short name" "name \<in> set atoms" using less.prems(2) p by simp_all
    from t [of _ TAG_ATOM, unfolded decode_tagged_simps, OF reads_atom [OF this]] show ?thesis using VAtom by simp
  next
    case (VBool b)
    then show ?thesis
      using t [of atoms "if b then TAG_TRUE else TAG_FALSE" "[]" v 0] by (simp add: decode_tagged_simps reads_return)
  next
    case (VClosure descriptor captures)
    then show ?thesis using p by simp
  next
    case (VTuple items)
    then have "reads atoms (decode_sequence (decode_value (Suc depth))) (length_bytes (length items)
        @ concat (map wire items)) (map canon items) (sum_list (map (\<lambda>x. value_count (canon x)) items))"
      using p less.prems(2) by (intro reads_sequence sub) (auto dest: wire_nonempty)
    from t [of _ TAG_TUPLE, unfolded decode_tagged_simps, OF reads_map [OF this, of VTuple]] show ?thesis
      using VTuple by (simp add: o_def)
  next
    case (VList items)
    then have "reads atoms (decode_sequence (decode_value (Suc depth))) (length_bytes (length items)
        @ concat (map wire items)) (map canon items) (sum_list (map (\<lambda>x. value_count (canon x)) items))"
      using p less.prems(2) by (intro reads_sequence sub) (auto dest: wire_nonempty)
    from t [of _ TAG_LIST, unfolded decode_tagged_simps, OF reads_map [OF this, of VList]] show ?thesis
      using VList by (simp add: o_def)
  next
    case (VRecord name named)
    let ?xs = "sort_key fst named"
    have "reads atoms (decode_record (decode_value (Suc depth))) (text_wire name @ length_bytes (length ?xs)
        @ concat (map (\<lambda>x. text_wire (fst x) @ wire (snd x)) ?xs))
        (VRecord name (map (\<lambda>x. (fst x, canon (snd x))) ?xs)) (sum_list (map (\<lambda>x. value_count (canon (snd x))) ?xs))"
      using p less.prems(2) VRecord by (intro reads_record sub below_sort) auto
    from t [of _ TAG_RECORD, unfolded decode_tagged_simps, OF this] show ?thesis
      unfolding VRecord wire_sorted canon_sorted by (simp add: split_def o_def)
  next
    case (VMap entries)
    let ?xs = "sort_key (\<lambda>x. wire (fst x)) entries"
    have "reads atoms (decode_map (decode_value (Suc depth))) (length_bytes (length ?xs)
        @ concat (map (\<lambda>x. wire (fst x) @ wire (snd x)) ?xs))
        (VMap (map (\<lambda>x. (canon (fst x), canon (snd x))) ?xs))
        (sum_list (map (\<lambda>x. value_count (canon (fst x)) + value_count (canon (snd x))) ?xs))"
      using p less.prems(2) VMap by (intro reads_map_value sub below_sort) (auto dest: wire_nonempty)
    from t [of _ TAG_MAP, unfolded decode_tagged_simps, OF this] show ?thesis
      unfolding VMap wire_sorted canon_sorted by (simp add: split_def o_def)
  next
    case (VSet items)
    let ?ws = "sorted_list_of_set (set (map wire items))"
    let ?c = "\<lambda>w. the (map_of (map (\<lambda>x. (wire x, canon x)) items) w)"
    have items: "portable atoms (Suc depth) x" "well_formed x" if "x \<in> set items" for x
      using that p less.prems(2) VSet by auto
    have each: "reads atoms (decode_value (Suc depth)) w (?c w) (value_count (?c w) - 1)" if "w \<in> set ?ws" for w
    proof -
      have "w \<in> fst ` set (map (\<lambda>x. (wire x, canon x)) items)" using that by (simp add: image_image)
      then obtain y where y: "map_of (map (\<lambda>x. (wire x, canon x)) items) w = Some y"
        by (metis map_of_eq_None_iff not_None_eq)
      from map_of_SomeD [OF this] obtain x where "x \<in> set items" "wire x = w" "canon x = y" by auto
      then show ?thesis using sub [OF items] y by auto
    qed
    have "reads atoms (decode_canonical_set (decode_value (Suc depth))) (length_bytes (length ?ws) @ concat ?ws)
        (map ?c ?ws) (sum_list (map (\<lambda>w. value_count (?c w)) ?ws))"
      using p VSet by (intro reads_set each below_members) (auto dest!: items(1) wire_nonempty)
    from t [of _ TAG_SET, unfolded decode_tagged_simps, OF reads_map [OF this, of VSet]] show ?thesis
      using VSet by (simp add: Let_def o_def)
  qed
qed

end
