(* ===== verification/Term_Inverse.thy ===== *)
theory Term_Inverse
  imports Term_Reading
begin

text \<open>
  The other direction: whatever the decoder accepts was the wire form of the value it returns, which
  is portable, well formed and in canonical order.
\<close>

section \<open>What a decoder took\<close>

definition sound :: "string list \<Rightarrow> Decoder \<Rightarrow> bool" where
  "sound atoms d \<longleftrightarrow> dec_offset d \<le> length (dec_bytes d) \<and> dec_declared_atoms d = atoms"

definition consumed :: "Decoder \<Rightarrow> u8 list \<Rightarrow> nat \<Rightarrow> Decoder \<Rightarrow> bool" where
  "consumed d w n d' \<longleftrightarrow> dec_offset d + length w \<le> length (dec_bytes d)
     \<and> take (length w) (drop (dec_offset d) (dec_bytes d)) = w
     \<and> n \<le> dec_remaining_value_slots d \<and> d' = advanced w n d"

text \<open>Every result \<open>x\<close> of the decoder took the bytes \<open>w x\<close> and \<open>n x\<close> slots, and satisfies \<open>p\<close>.\<close>

definition takes :: "string list \<Rightarrow> 'a decoder \<Rightarrow> ('a \<Rightarrow> u8 list) \<Rightarrow> ('a \<Rightarrow> nat) \<Rightarrow> ('a \<Rightarrow> bool) \<Rightarrow> bool" where
  "takes atoms item w n p \<longleftrightarrow> (\<forall>d x d'. sound atoms d \<and> item d = (Ok x, d') \<longrightarrow> consumed d (w x) (n x) d' \<and> p x)"

lemma takesD: "takes atoms item w n p \<Longrightarrow> sound atoms d \<Longrightarrow> item d = (Ok x, d') \<Longrightarrow> consumed d (w x) (n x) d' \<and> p x"
  by (auto simp: takes_def)

lemma takesI: "(\<And>d x d'. sound atoms d \<Longrightarrow> item d = (Ok x, d') \<Longrightarrow> consumed d (w x) (n x) d' \<and> p x)
    \<Longrightarrow> takes atoms item w n p"
  by (auto simp: takes_def)

lemma consumed_sound: "sound atoms d \<Longrightarrow> consumed d w n d' \<Longrightarrow> sound atoms d'"
  by (auto simp: sound_def consumed_def)

lemma consumed_trans:
  assumes "consumed d w n d1" and "consumed d1 w' n' d2"
  shows "consumed d (w @ w') (n + n') d2"
proof -
  have "take (length w + length w') (drop (dec_offset d) (dec_bytes d)) = w @ w'"
    using assms by (auto simp: consumed_def take_add add.commute)
  then show ?thesis using assms by (auto simp: consumed_def)
qed

lemma consumed_refl: "sound atoms d \<Longrightarrow> consumed d [] 0 d"
  by (simp add: consumed_def sound_def)

lemma take_exact: "sound atoms d \<Longrightarrow> read_exact len d = (Ok w, d') \<Longrightarrow> consumed d w 0 d' \<and> length w = len"
  by (auto simp: read_exact_def Let_def consumed_def advanced_def sound_def split: if_splits)

lemma take_u8: "sound atoms d \<Longrightarrow> read_u8 d = (Ok b, d') \<Longrightarrow> consumed d [b] 0 d'"
proof -
  assume d: "sound atoms d" and "read_u8 d = (Ok b, d')"
  then obtain w where w: "read_exact 1 d = (Ok w, d')" "b = hd w"
    by (auto simp: read_u8_def bind_st_eq_Ok return_st_def)
  then show ?thesis using take_exact [OF d w(1)] by (cases w) auto
qed

lemma take_len: "sound atoms d \<Longrightarrow> read_len d = (Ok n, d') \<Longrightarrow> consumed d (length_bytes n) 0 d' \<and> n < 2 ^ 32"
proof -
  assume d: "sound atoms d" and "read_len d = (Ok n, d')"
  then obtain w where w: "read_exact 4 d = (Ok w, d')" "n = bytes_length w"
    by (auto simp: read_len_def bind_st_eq_Ok return_st_def)
  then show ?thesis using take_exact [OF d w(1)] length_bytes_bytes_length [of w] by simp
qed

lemma take_u64: "sound atoms d \<Longrightarrow> read_u64 d = (Ok n, d') \<Longrightarrow> consumed d (to_be_bytes n) 0 d'"
proof -
  assume d: "sound atoms d" and "read_u64 d = (Ok n, d')"
  then obtain w where w: "read_exact 8 d = (Ok w, d')" "n = from_be_bytes w"
    by (auto simp: read_u64_def bind_st_eq_Ok return_st_def)
  then show ?thesis using take_exact [OF d w(1)] be_bytes_inverse(2) [of w] by simp
qed

lemma take_text:
  assumes d: "sound atoms d" and run: "read_text d = (Ok s, d')"
  shows "consumed d (text_wire s) 0 d' \<and> short s \<and> text_ok s"
proof -
  from run obtain len w d1 where len: "read_len d = (Ok len, d1)" and w: "read_exact len d1 = (Ok w, d')"
      and s: "from_utf8 w = Some s"
    by (auto simp: read_text_def bind_st_eq_Ok read_st_def ok_or_def split: option.splits)
  note first = take_len [OF d len]
  note second = take_exact [OF consumed_sound [OF d first [THEN conjunct1]] w]
  have "s = text_of w" "valid_utf8 w" using s by (auto simp: from_utf8_def split: if_splits)
  then show ?thesis
    using consumed_trans [OF first [THEN conjunct1] second [THEN conjunct1]] first second
    by (simp add: text_wire_def text_ok_def)
qed

lemma take_reserve: "sound atoms d \<Longrightarrow> reserve_value_slots n d = (Ok u, d') \<Longrightarrow> consumed d [] n d'"
  by (auto simp: reserve_value_slots_def consumed_def advanced_def sound_def split: if_splits)

lemma take_require: "require_remaining_items n m d = (Ok u, d') \<Longrightarrow> d' = d"
  by (simp add: require_remaining_items_def read_st_def)

lemma take_items:
  assumes "takes atoms item w n p" and "sound atoms d" and "read_items k item d = (Ok xs, d')"
  shows "consumed d (concat (map w xs)) (sum_list (map n xs)) d' \<and> length xs = k \<and> (\<forall>x \<in> set xs. p x)"
  using assms(2,3)
proof (induction k arbitrary: d xs)
  case 0
  then show ?case by (auto simp: return_st_def intro: consumed_refl)
next
  case (Suc k)
  then obtain x ys d1 where x: "item d = (Ok x, d1)" and ys: "read_items k item d1 = (Ok ys, d')" "xs = x # ys"
    by (auto simp: bind_st_eq_Ok return_st_def)
  note first = takesD [OF assms(1) Suc.prems(1) x]
  note second = Suc.IH [OF consumed_sound [OF Suc.prems(1) first [THEN conjunct1]] ys(1)]
  show ?case using consumed_trans [OF first [THEN conjunct1] second [THEN conjunct1]] first second ys(2) by simp
qed

lemma take_with_bytes:
  assumes "takes atoms item w n p" and "sound atoms d" and "with_bytes item d = (Ok (x, bytes), d')"
  shows "consumed d (w x) (n x) d' \<and> p x \<and> bytes = w x"
proof -
  have x: "item d = (Ok x, d')" and bytes: "bytes = take (dec_offset d' - dec_offset d) (drop (dec_offset d) (dec_bytes d))"
    using assms(3) by (auto simp: with_bytes_def split: prod.splits outcome.splits)
  then show ?thesis using takesD [OF assms(1,2) x] by (auto simp: consumed_def)
qed

lemma increasing_below:
  "require_strictly_increasing previous current = Ok u \<Longrightarrow> below (Some current) rest
    \<Longrightarrow> below previous (current # rest)"
  by (cases previous) (auto simp: require_strictly_increasing_def split: if_splits dest: order.strict_trans)

lemma take_entries:
  assumes "takes atoms item w n p" and "sound atoms d" and "read_entries k previous item d = (Ok xs, d')"
  shows "consumed d (concat (map (\<lambda>x. w (fst x) @ w (snd x)) xs)) (sum_list (map (\<lambda>x. n (fst x) + n (snd x)) xs)) d'
    \<and> length xs = k \<and> (\<forall>x \<in> set xs. p (fst x) \<and> p (snd x)) \<and> below previous (map (\<lambda>x. w (fst x)) xs)"
  using assms(2,3)
proof (induction k arbitrary: d xs previous)
  case 0
  then show ?case by (cases previous) (auto simp: return_st_def intro: consumed_refl)
next
  case (Suc k)
  then obtain key bytes vv d1 d2 ys where k: "with_bytes item d = (Ok (key, bytes), d1)"
      and order: "require_strictly_increasing previous bytes = Ok ()" and v: "item d1 = (Ok vv, d2)"
      and ys: "read_entries k (Some bytes) item d2 = (Ok ys, d')" "xs = (key, vv) # ys"
    by (auto simp: bind_st_eq_Ok return_st_def read_st_def)
  note one = take_with_bytes [OF assms(1) Suc.prems(1) k]
  note s1 = consumed_sound [OF Suc.prems(1) one [THEN conjunct1]]
  note two = takesD [OF assms(1) s1 v]
  note three = Suc.IH [OF consumed_sound [OF s1 two [THEN conjunct1]] ys(1)]
  have "below previous (map (\<lambda>x. w (fst x)) xs)"
    using increasing_below [OF order] three one ys(2) by simp
  then show ?case
    using consumed_trans [OF consumed_trans [OF one [THEN conjunct1] two [THEN conjunct1]] three [THEN conjunct1]]
      one two three ys(2) by (simp add: add.assoc)
qed

lemma take_members:
  assumes "takes atoms item w n p" and "sound atoms d" and "read_members k previous item d = (Ok xs, d')"
  shows "consumed d (concat (map w xs)) (sum_list (map n xs)) d'
    \<and> length xs = k \<and> (\<forall>x \<in> set xs. p x) \<and> below previous (map w xs)"
  using assms(2,3)
proof (induction k arbitrary: d xs previous)
  case 0
  then show ?case by (cases previous) (auto simp: return_st_def intro: consumed_refl)
next
  case (Suc k)
  then obtain x bytes d1 ys where k: "with_bytes item d = (Ok (x, bytes), d1)"
      and order: "require_strictly_increasing previous bytes = Ok ()"
      and ys: "read_members k (Some bytes) item d1 = (Ok ys, d')" "xs = x # ys"
    by (auto simp: bind_st_eq_Ok return_st_def read_st_def)
  note one = take_with_bytes [OF assms(1) Suc.prems(1) k]
  note two = Suc.IH [OF consumed_sound [OF Suc.prems(1) one [THEN conjunct1]] ys(1)]
  have "below previous (map w xs)" using increasing_below [OF order] two one ys(2) by simp
  then show ?case
    using consumed_trans [OF one [THEN conjunct1] two [THEN conjunct1]] one two ys(2) by simp
qed

lemma take_fields:
  assumes "takes atoms item w n p" and "sound atoms d" and "read_fields k previous item d = (Ok xs, d')"
  shows "consumed d (concat (map (\<lambda>x. text_wire (fst x) @ w (snd x)) xs)) (sum_list (map (\<lambda>x. n (snd x)) xs)) d'
    \<and> length xs = k \<and> (\<forall>x \<in> set xs. p (snd x) \<and> text_ok (fst x) \<and> short (fst x) \<and> validate_record_field (fst x) = Ok ())
    \<and> below previous (map fst xs)"
  using assms(2,3)
proof (induction k arbitrary: d xs previous)
  case 0
  then show ?case by (cases previous) (auto simp: return_st_def intro: consumed_refl)
next
  case (Suc k)
  then obtain name vv d1 d2 ys where f: "read_text d = (Ok name, d1)" "validate_record_field name = Ok ()"
      and order: "case previous of None \<Rightarrow> True | Some before \<Rightarrow> before < name" and v: "item d1 = (Ok vv, d2)"
      and ys: "read_fields k (Some name) item d2 = (Ok ys, d')" "xs = (name, vv) # ys"
    by (cases previous) (auto simp: bind_st_eq_Ok return_st_def read_st_def not_le split: if_splits)
  note one = take_text [OF Suc.prems(1) f(1)]
  note s1 = consumed_sound [OF Suc.prems(1) one [THEN conjunct1]]
  note two = takesD [OF assms(1) s1 v]
  note three = Suc.IH [OF consumed_sound [OF s1 two [THEN conjunct1]] ys(1)]
  have "below previous (map fst xs)"
    using three order ys(2) by (cases previous) (auto dest: order.strict_trans)
  then show ?case
    using consumed_trans [OF consumed_trans [OF one [THEN conjunct1] two [THEN conjunct1]] three [THEN conjunct1]]
      one two three f(2) ys(2) by simp
qed

section \<open>Values\<close>

lemma below_sorted: "below None (map f xs) \<Longrightarrow> sort_key f xs = xs \<and> distinct (map f xs)"
  by (simp add: strict_sorted_iff sorted_sort_id sort_key_id_if_sorted)

lemma take_bits:
  assumes d: "sound atoms d" and run: "decode_bitstring d = (Ok v, d')"
  obtains bytes n where "v = VBitString bytes n" "unat n < 2 ^ 32" "short bytes" "bits_ok bytes (unat n)"
    "consumed d (length_bytes (unat n) @ length_bytes (length bytes) @ bytes) 0 d'"
proof -
  from run obtain n m bytes d1 d2 where n: "read_len d = (Ok n, d1)" and m: "read_len d1 = (Ok m, d2)"
      and size: "m = (n + 7) div 8" and bytes: "read_exact m d2 = (Ok bytes, d')"
      and packed: "bitstring_from_bytes bytes n = Ok bytes" and v: "v = VBitString bytes (word_of_nat n)"
    by (auto simp: decode_bitstring_def bind_st_eq_Ok return_st_def read_st_def invalid_def map_err_def
        split: if_splits outcome.splits)
  note one = take_len [OF d n]
  note s1 = consumed_sound [OF d one [THEN conjunct1]]
  note two = take_len [OF s1 m]
  note three = take_exact [OF consumed_sound [OF s1 two [THEN conjunct1]] bytes]
  have n': "unat (word_of_nat n :: usize) = n" using one by (simp add: unat_of_nat)
  have "bits_ok bytes n"
    using packed three size by (auto simp: bits_ok_def bitstring_from_bytes_def split: if_splits)
  then show ?thesis
    using that [of bytes "word_of_nat n"] v one two three n'
      consumed_trans [OF consumed_trans [OF one [THEN conjunct1] two [THEN conjunct1]] three [THEN conjunct1]]
    by simp
qed

definition known_tags :: "u8 list" where
  "known_tags = [TAG_UNIT, TAG_FALSE, TAG_TRUE, TAG_INT, TAG_FLOAT_TEXT, TAG_STRING, TAG_ATOM, TAG_TUPLE, TAG_LIST,
     TAG_MAP, TAG_SET, TAG_RECORD, TAG_BYTES, TAG_BITSTRING]"

lemma known_tag: "decode_tagged tag item d = (Ok v, d') \<Longrightarrow> tag \<in> set known_tags"
  by (auto simp: decode_tagged_def known_tags_def invalid_def read_st_def split: if_splits)

lemma take_counted:
  assumes d: "sound atoms d" and n: "read_len d = (Ok k, d1)" and req: "require_remaining_items k m d1 = (Ok (), d2)"
    and res: "reserve_value_slots slots d2 = (Ok (), d3)"
  shows "consumed d (length_bytes k) slots d3 \<and> k < 2 ^ 32"
proof -
  note one = take_len [OF d n]
  have "consumed d1 [] slots d3"
    using take_reserve [OF _ res] take_require [OF req] consumed_sound [OF d one [THEN conjunct1]] by simp
  then show ?thesis using consumed_trans [OF one [THEN conjunct1]] one by fastforce
qed

lemma take_sequence:
  assumes item: "takes atoms item wire (\<lambda>v. value_count v - 1) p" and d: "sound atoms d"
    and run: "decode_sequence item d = (Ok xs, d')"
  shows "consumed d (length_bytes (length xs) @ concat (map wire xs)) (sum_list (map value_count xs)) d'
    \<and> short xs \<and> (\<forall>x \<in> set xs. p x)"
proof -
  from run obtain k d1 d2 d3 where n: "read_len d = (Ok k, d1)" and req: "require_remaining_items k 1 d1 = (Ok (), d2)"
      and res: "reserve_value_slots k d2 = (Ok (), d3)" and xs: "read_items k item d3 = (Ok xs, d')"
    by (auto simp: decode_sequence_def bind_st_eq_Ok)
  note one = take_counted [OF d n req res]
  note two = take_items [OF item consumed_sound [OF d one [THEN conjunct1]] xs]
  show ?thesis
    using consumed_trans [OF one [THEN conjunct1] two [THEN conjunct1]] one two slots_sum [of xs "\<lambda>x. x"] by simp
qed

lemma take_set:
  assumes item: "takes atoms item wire (\<lambda>v. value_count v - 1) p" and d: "sound atoms d"
    and run: "decode_canonical_set item d = (Ok xs, d')"
  shows "consumed d (length_bytes (length xs) @ concat (map wire xs)) (sum_list (map value_count xs)) d'
    \<and> short xs \<and> (\<forall>x \<in> set xs. p x) \<and> below None (map wire xs)"
proof -
  from run obtain k d1 d2 d3 where n: "read_len d = (Ok k, d1)" and req: "require_remaining_items k 1 d1 = (Ok (), d2)"
      and res: "reserve_value_slots k d2 = (Ok (), d3)" and xs: "read_members k None item d3 = (Ok xs, d')"
    by (auto simp: decode_canonical_set_def bind_st_eq_Ok)
  note one = take_counted [OF d n req res]
  note two = take_members [OF item consumed_sound [OF d one [THEN conjunct1]] xs]
  show ?thesis
    using consumed_trans [OF one [THEN conjunct1] two [THEN conjunct1]] one two slots_sum [of xs "\<lambda>x. x"] by simp
qed

lemma take_map:
  assumes item: "takes atoms item wire (\<lambda>v. value_count v - 1) p" and d: "sound atoms d"
    and run: "decode_map item d = (Ok v, d')"
  obtains xs where "v = VMap xs" "short xs" "\<forall>x \<in> set xs. p (fst x) \<and> p (snd x)"
    "below None (map (\<lambda>x. wire (fst x)) xs)"
    "consumed d (length_bytes (length xs) @ concat (map (\<lambda>x. wire (fst x) @ wire (snd x)) xs))
      (sum_list (map (\<lambda>x. value_count (fst x) + value_count (snd x)) xs)) d'"
proof -
  from run obtain k d1 d2 d3 xs where n: "read_len d = (Ok k, d1)" and req: "require_remaining_items k 2 d1 = (Ok (), d2)"
      and res: "reserve_value_slots (k * 2) d2 = (Ok (), d3)" and xs: "read_entries k None item d3 = (Ok xs, d')"
      and v: "v = VMap xs"
    by (auto simp: decode_map_def bind_st_eq_Ok read_st_def return_st_def split: if_splits)
  note one = take_counted [OF d n req res]
  note two = take_entries [OF item consumed_sound [OF d one [THEN conjunct1]] xs]
  show ?thesis
    using that [OF v] consumed_trans [OF one [THEN conjunct1] two [THEN conjunct1]] one two
      slots_sum2 [of xs fst snd] by simp
qed

lemma take_record:
  assumes item: "takes atoms item wire (\<lambda>v. value_count v - 1) p" and d: "sound atoms d"
    and run: "decode_record item d = (Ok v, d')"
  obtains name xs where "v = VRecord name xs" "text_ok name" "short name" "\<not> blank name" "short xs"
    "\<forall>x \<in> set xs. p (snd x) \<and> text_ok (fst x) \<and> short (fst x) \<and> validate_record_field (fst x) = Ok ()"
    "below None (map fst xs)"
    "consumed d (text_wire name @ length_bytes (length xs) @ concat (map (\<lambda>x. text_wire (fst x) @ wire (snd x)) xs))
      (sum_list (map (\<lambda>x. value_count (snd x)) xs)) d'"
proof -
  from run obtain name d0 k d1 d2 d3 xs where name: "read_text d = (Ok name, d0)" "\<not> blank name"
      and n: "read_len d0 = (Ok k, d1)" and req: "require_remaining_items k 2 d1 = (Ok (), d2)"
      and res: "reserve_value_slots k d2 = (Ok (), d3)" and xs: "read_fields k None item d3 = (Ok xs, d')"
      and v: "v = VRecord name xs"
    by (auto simp: decode_record_def bind_st_eq_Ok read_st_def return_st_def validate_text_field_def split: if_splits)
  note zero = take_text [OF d name(1)]
  note s0 = consumed_sound [OF d zero [THEN conjunct1]]
  note one = take_counted [OF s0 n req res]
  note two = take_fields [OF item consumed_sound [OF s0 one [THEN conjunct1]] xs]
  show ?thesis
    using that [OF v] name(2) zero one two slots_sum [of xs snd]
      consumed_trans [OF zero [THEN conjunct1] consumed_trans [OF one [THEN conjunct1] two [THEN conjunct1]]]
    by simp
qed

lemma take_tagged:
  assumes deep: "depth < MAX_NESTING_DEPTH" and d: "sound atoms d"
    and item: "takes atoms item wire (\<lambda>v. value_count v - 1) (\<lambda>v. portable atoms (Suc depth) v \<and> well_formed v)"
    and run: "decode_tagged tag item d = (Ok v, d')"
  shows "\<exists>rest. wire v = tag # rest \<and> consumed d rest (value_count v - 1) d' \<and> portable atoms depth v \<and> well_formed v"
proof -
  note p = portable.simps [of atoms depth]
  have scalar: "bind_st read_text (\<lambda>t. return_st (f t)) d = (Ok v, d') \<Longrightarrow>
      \<exists>t. v = f t \<and> consumed d (text_wire t) 0 d' \<and> short t \<and> text_ok t" for f :: "string \<Rightarrow> ReplValue"
    using take_text [OF d] by (auto simp: bind_st_eq_Ok return_st_def)
  have items: "bind_st (decode_sequence item) (\<lambda>xs. return_st (f xs)) d = (Ok v, d') \<Longrightarrow>
      \<exists>xs. v = f xs \<and> consumed d (length_bytes (length xs) @ concat (map wire xs)) (sum_list (map value_count xs)) d'
        \<and> short xs \<and> (\<forall>x \<in> set xs. portable atoms (Suc depth) x \<and> well_formed x)" for f :: "ReplValue list \<Rightarrow> ReplValue"
    using take_sequence [OF item d] by (auto simp: bind_st_eq_Ok return_st_def)
  from known_tag [OF run]
  consider "tag = TAG_UNIT" | "tag = TAG_FALSE" | "tag = TAG_TRUE" | "tag = TAG_INT" | "tag = TAG_FLOAT_TEXT"
    | "tag = TAG_STRING" | "tag = TAG_ATOM" | "tag = TAG_TUPLE" | "tag = TAG_LIST" | "tag = TAG_MAP"
    | "tag = TAG_SET" | "tag = TAG_RECORD" | "tag = TAG_BYTES" | "tag = TAG_BITSTRING"
    by (auto simp: known_tags_def)
  then show ?thesis
  proof cases
    case 1
    then show ?thesis using run deep consumed_refl [OF d] by (auto simp: decode_tagged_simps return_st_def p)
  next
    case 2
    then show ?thesis using run deep consumed_refl [OF d] by (auto simp: decode_tagged_simps return_st_def p)
  next
    case 3
    then show ?thesis using run deep consumed_refl [OF d] by (auto simp: decode_tagged_simps return_st_def p)
  next
    case 4
    then show ?thesis using run deep take_u64 [OF d]
      by (auto simp: decode_tagged_simps return_st_def bind_st_eq_Ok p)
  next
    case 5
    then show ?thesis using run deep scalar [of VFloat] by (auto simp: decode_tagged_simps p)
  next
    case 6
    then show ?thesis using run deep scalar [of VString] by (auto simp: decode_tagged_simps p)
  next
    case 7
    then obtain name d1 where name: "read_text d = (Ok name, d1)" "name \<in> set (dec_declared_atoms d1)" "v = VAtom name" "d' = d1"
      using run by (auto simp: decode_tagged_simps decode_atom_def bind_st_eq_Ok split: if_splits)
    note one = take_text [OF d name(1)]
    have "name \<in> set atoms" using name(2) consumed_sound [OF d one [THEN conjunct1]] by (simp add: sound_def)
    then show ?thesis using 7 name one deep by (auto simp: p)
  next
    case 8
    then show ?thesis using run deep items [of VTuple] by (auto simp: decode_tagged_simps p)
  next
    case 9
    then show ?thesis using run deep items [of VList] by (auto simp: decode_tagged_simps p)
  next
    case 10
    then have "decode_map item d = (Ok v, d')" using run by (simp add: decode_tagged_simps)
    from take_map [OF item d this] obtain xs where v: "v = VMap xs" "short xs"
        "\<forall>x \<in> set xs. (portable atoms (Suc depth) (fst x) \<and> well_formed (fst x)) \<and> portable atoms (Suc depth) (snd x) \<and> well_formed (snd x)"
        and order: "below None (map (\<lambda>x. wire (fst x)) xs)" and took: "consumed d (length_bytes (length xs)
          @ concat (map (\<lambda>x. wire (fst x) @ wire (snd x)) xs)) (sum_list (map (\<lambda>x. value_count (fst x) + value_count (snd x)) xs)) d'"
      by blast
    have "wire v = TAG_MAP # length_bytes (length xs) @ concat (map (\<lambda>x. wire (fst x) @ wire (snd x)) xs)"
      using below_sorted [OF order] unfolding v(1) wire_sorted by simp
    moreover have "portable atoms depth v \<and> well_formed v"
      using v below_sorted [OF order] deep by (auto simp: p)
    ultimately show ?thesis using 10 took v(1) by (auto simp: split_def)
  next
    case 11
    then obtain xs where v: "v = VSet xs" and run': "decode_canonical_set item d = (Ok xs, d')"
      using run by (auto simp: decode_tagged_simps bind_st_eq_Ok return_st_def)
    note one = take_set [OF item d run']
    have "bs_ok (map wire xs)" using one by (simp add: bs_ok_def)
    then have members: "sorted_list_of_set (set (map wire xs)) = map wire xs" by (rule bs_ok_sorted_list)
    have "card (set (map wire xs)) = length xs"
      using one distinct_card [of "map wire xs"] by (simp add: strict_sorted_iff)
    then have "portable atoms depth v \<and> well_formed v" using v one deep by (auto simp: p)
    moreover have "wire v = TAG_SET # length_bytes (length xs) @ concat (map wire xs)"
      using members unfolding v wire.simps Let_def by simp
    ultimately show ?thesis using 11 one v by auto
  next
    case 12
    then have "decode_record item d = (Ok v, d')" using run by (simp add: decode_tagged_simps)
    from take_record [OF item d this] obtain name xs where v: "v = VRecord name xs" "text_ok name" "short name" "\<not> blank name" "short xs"
        "\<forall>x \<in> set xs. (portable atoms (Suc depth) (snd x) \<and> well_formed (snd x)) \<and> text_ok (fst x) \<and> short (fst x)
          \<and> validate_record_field (fst x) = Ok ()"
        and order: "below None (map fst xs)" and took: "consumed d (text_wire name @ length_bytes (length xs)
          @ concat (map (\<lambda>x. text_wire (fst x) @ wire (snd x)) xs)) (sum_list (map (\<lambda>x. value_count (snd x)) xs)) d'"
      by blast
    have "wire v = TAG_RECORD # text_wire name @ length_bytes (length xs) @ concat (map (\<lambda>x. text_wire (fst x) @ wire (snd x)) xs)"
      using below_sorted [OF order] unfolding v(1) wire_sorted by simp
    moreover have "portable atoms depth v \<and> well_formed v"
      using v below_sorted [OF order] deep by (auto simp: p)
    ultimately show ?thesis using 12 took v(1) by (auto simp: split_def)
  next
    case 13
    then obtain k d1 bytes where n: "read_len d = (Ok k, d1)" and bytes: "read_exact k d1 = (Ok bytes, d')" and v: "v = VBytes bytes"
      using run by (auto simp: decode_tagged_simps bind_st_eq_Ok return_st_def)
    note one = take_len [OF d n]
    note two = take_exact [OF consumed_sound [OF d one [THEN conjunct1]] bytes]
    show ?thesis using 13 v deep one two consumed_trans [OF one [THEN conjunct1] two [THEN conjunct1]] by (auto simp: p)
  next
    case 14
    then have "decode_bitstring d = (Ok v, d')" using run by (simp add: decode_tagged_simps)
    from take_bits [OF d this] obtain bytes n where v: "v = VBitString bytes n"
      and "unat n < 2 ^ 32" "short bytes" "bits_ok bytes (unat n)"
        "consumed d (length_bytes (unat n) @ length_bytes (length bytes) @ bytes) 0 d'" .
    then show ?thesis using 14 deep unfolding v by (simp add: p)
  qed
qed

theorem decode_value_takes:
  "takes atoms (decode_value depth) wire (\<lambda>v. value_count v - 1) (\<lambda>v. portable atoms depth v \<and> well_formed v)"
proof (induction "MAX_NESTING_DEPTH - depth" arbitrary: depth rule: less_induct)
  case less
  show ?case
  proof (rule takesI)
    fix d v d'
    assume d: "sound atoms d" and run: "decode_value depth d = (Ok v, d')"
    then obtain tag d1 where deep: "depth < MAX_NESTING_DEPTH" and tag: "read_u8 d = (Ok tag, d1)"
        and rest: "decode_tagged tag (decode_value (Suc depth)) d1 = (Ok v, d')"
      by (auto simp: decode_value.simps [of depth] bind_st_eq_Ok invalid_def read_st_def split: if_splits)
    note one = take_u8 [OF d tag]
    have "takes atoms (decode_value (Suc depth)) wire (\<lambda>v. value_count v - 1)
        (\<lambda>v. portable atoms (Suc depth) v \<and> well_formed v)"
      by (rule less) (use deep in simp)
    from take_tagged [OF deep consumed_sound [OF d one] this rest] obtain rest where
      "wire v = tag # rest" "consumed d1 rest (value_count v - 1) d'" "portable atoms depth v" "well_formed v" by blast
    then show "consumed d (wire v) (value_count v - 1) d' \<and> portable atoms depth v \<and> well_formed v"
      using consumed_trans [OF one] by fastforce
  qed
qed

end
