(* ===== verification/Term_Envelope.thy ===== *)
theory Term_Envelope
  imports Term_Inverse
begin

text \<open>
  The envelopes of messages between nodes: what is encoded, that it is read back, and that a byte
  string is accepted only as the encoding of what it stands for.
\<close>

section \<open>The format of an envelope\<close>

definition ref_wire :: "TetfVmRef \<Rightarrow> u8 list" where
  "ref_wire r = TAG_VM_REF # ref_tag (ref_kind r) # text_wire (ref_node_id r)
     @ to_be_bytes (ref_local_id r) @ to_be_bytes (ref_epoch r)"

definition ref_portable :: "TetfVmRef \<Rightarrow> bool" where
  "ref_portable r \<longleftrightarrow> validate_vm_ref r = Ok () \<and> short (ref_node_id r)"

definition header_wire :: "u8 \<Rightarrow> u8 list" where
  "header_wire profile = MAGIC @ [VERSION, profile]"

definition envelope_wire :: "TetfDistributionEnvelope \<Rightarrow> u8 list" where
  "envelope_wire env = header_wire PROFILE_DISTRIBUTION_ENVELOPE @ [TAG_DISTRIBUTION_ENVELOPE]
     @ text_wire (env_trace_id env) @ text_wire (env_from_node_id env) @ text_wire (env_to_node_id env)
     @ to_be_bytes (env_epoch env) @ length_bytes (length (env_refs env))
     @ concat (map ref_wire (env_refs env)) @ wire (env_payload env)"

definition envelope_portable :: "string list \<Rightarrow> TetfDistributionEnvelope \<Rightarrow> bool" where
  "envelope_portable atoms env \<longleftrightarrow>
     validate_envelope (env_trace_id env) (env_from_node_id env) (env_to_node_id env) (env_epoch env) = Ok ()
   \<and> short (env_trace_id env) \<and> short (env_from_node_id env) \<and> short (env_to_node_id env)
   \<and> short (env_refs env) \<and> (\<forall>r \<in> set (env_refs env). ref_portable r) \<and> portable atoms 0 (env_payload env)"

text \<open>The texts of an envelope are UTF-8, as every \<open>String\<close> is.\<close>

definition envelope_well_formed :: "TetfDistributionEnvelope \<Rightarrow> bool" where
  "envelope_well_formed env \<longleftrightarrow> text_ok (env_trace_id env) \<and> text_ok (env_from_node_id env)
   \<and> text_ok (env_to_node_id env) \<and> (\<forall>r \<in> set (env_refs env). text_ok (ref_node_id r))
   \<and> well_formed (env_payload env)"

section \<open>Encoding\<close>

lemma emits_header: "emits True (write_header profile) (header_wire profile)"
  unfolding write_header_def header_wire_def
  by (rule emits_cong [OF emits_bind [OF emits_extend emits_bind [OF emits_push emits_push]]]) auto

lemma emits_ref: "emits (ref_portable r) (encode_vm_ref r) (ref_wire r)"
  unfolding encode_vm_ref_def
  by (rule emits_cong [OF emits_check [OF emits_bind [OF emits_push emits_bind [OF emits_push
        emits_bind [OF emits_text emits_bind [OF emits_u64 emits_u64]]]]]])
    (auto simp: ref_portable_def ref_wire_def)

lemma emits_envelope: "emits (envelope_portable atoms env) (encode_envelope env atoms) (envelope_wire env)"
  unfolding encode_envelope_def
  by (rule emits_cong [OF emits_check [OF emits_bind [OF emits_header emits_bind [OF emits_push
        emits_bind [OF emits_text emits_bind [OF emits_text emits_bind [OF emits_text
        emits_bind [OF emits_u64 emits_bind [OF emits_len emits_bind [OF emits_all [OF emits_ref]
        encode_value_wire]]]]]]]]]])
    (auto simp: envelope_portable_def envelope_wire_def)

lemma encode_envelope_iff:
  "encode_tetf_distribution_envelope_bounded env atoms maximum = Ok bytes \<longleftrightarrow>
     envelope_portable atoms env \<and> length (envelope_wire env) \<le> maximum \<and> bytes = envelope_wire env"
  unfolding encode_tetf_distribution_envelope_bounded_def by (rule encoded_apart_emits [OF emits_envelope])

section \<open>Decoding to the end of the input\<close>

definition completes :: "string list \<Rightarrow> 'a decoder \<Rightarrow> u8 list \<Rightarrow> 'a \<Rightarrow> nat \<Rightarrow> bool" where
  "completes atoms item w x n \<longleftrightarrow> (\<forall>d. facing atoms w d \<and> drop (dec_offset d) (dec_bytes d) = w
     \<and> n \<le> dec_remaining_value_slots d \<longrightarrow> fst (item d) = Ok x)"

lemma completes_bind:
  assumes m: "reads atoms m w x n" and f: "completes atoms (f x) w' y n'"
  shows "completes atoms (bind_st m f) (w @ w') y (n + n')"
  unfolding completes_def
proof (intro allI impI)
  fix d
  assume d: "facing atoms (w @ w') d \<and> drop (dec_offset d) (dec_bytes d) = w @ w' \<and> n + n' \<le> dec_remaining_value_slots d"
  then have "m d = (Ok x, advanced w n d)" by (intro readsD [OF m] facing_prefix [of atoms w w']) simp_all
  moreover have "drop (dec_offset d + length w) (dec_bytes d) = w'"
    using d by (metis add.commute append_eq_conv_conj drop_drop)
  then have "fst (f x (advanced w n d)) = Ok y"
    using f d facing_advanced [of atoms w w' d n] unfolding completes_def by auto
  ultimately show "fst (bind_st m f d) = Ok y" by simp
qed

lemma completes_bind0:
  "reads atoms m w x 0 \<Longrightarrow> completes atoms (f x) w' y n \<Longrightarrow> completes atoms (bind_st m f) (w @ w') y n"
  using completes_bind [of atoms m w x 0 f w' y n] by simp

lemma completes_check:
  "c = Ok a \<Longrightarrow> completes atoms (f a) w y n \<Longrightarrow> completes atoms (bind_st (read_st (\<lambda>_. c)) f) w y n"
  by (simp add: completes_def bind_st_def read_st_def)

lemma completes_require:
  assumes "completes atoms (f ()) w y n" and "count * m \<le> length w"
  shows "completes atoms (bind_st (require_remaining_items count m) f) w y n"
  unfolding completes_def
proof (intro allI impI)
  fix d
  assume d: "facing atoms w d \<and> drop (dec_offset d) (dec_bytes d) = w \<and> n \<le> dec_remaining_value_slots d"
  have "count * m \<le> length (dec_bytes d) - dec_offset d" "count * m \<le> USIZE_MAX"
    using assms(2) facing_room [of atoms w d] d by (auto simp: facing_def)
  then show "fst (bind_st (require_remaining_items count m) f d) = Ok y"
    using assms(1) d by (simp add: require_remaining_items_def bind_st_def read_st_def completes_def)
qed

lemma completes_finish: "completes atoms (bind_st finish (\<lambda>_. return_st y)) [] y 0"
  by (auto simp: completes_def facing_def finish_def bind_st_def read_st_def return_st_def)

lemma completes_run:
  assumes "completes atoms item bytes x n" and "n \<le> USIZE_MAX" and "length bytes \<le> USIZE_MAX"
  shows "fst (item (decoder_new bytes atoms)) = Ok x"
  using assms by (simp add: completes_def decoder_new_def facing_def)

lemma reads_u8_bind: "reads atoms (f b) w y n \<Longrightarrow> reads atoms (bind_st read_u8 f) (b # w) y n"
  using reads_bind0 [OF reads_u8, of atoms f b w y n] by simp

lemma reads_header: "reads atoms (read_header profile) (header_wire profile) () 0"
proof -
  have rest: "reads atoms (bind_st read_u8 (\<lambda>version.
      if version \<noteq> VERSION then invalid e
      else bind_st read_u8 (\<lambda>actual. if actual \<noteq> profile then invalid e' else return_st ()))) [VERSION, profile] () 0"
    for e e' by (rule reads_u8_bind, simp, rule reads_u8_bind, simp add: reads_return)
  show ?thesis
    unfolding read_header_def header_wire_def
    by (rule reads_bind0 [OF reads_exact [OF refl]]) (simp add: rest)
qed

lemma reads_tag: "reads atoms (expect_tag tag) [tag] () 0"
  unfolding expect_tag_def by (rule reads_u8_bind) (simp add: reads_return)

lemma reads_ref:
  assumes "ref_portable r" and "text_ok (ref_node_id r)"
  shows "reads atoms decode_vm_ref (ref_wire r) r 0"
proof -
  have r: "short (ref_node_id r)" "validate_vm_ref r = Ok ()" using assms(1) by (simp_all add: ref_portable_def)
  have kind: "reads atoms (if ref_tag k = 1 then return_st RefProcess else if ref_tag k = 2 then return_st RefMonitor
       else if ref_tag k = 3 then return_st RefTimer else if ref_tag k = 4 then return_st RefResource
       else invalid e) [] k 0" for k e
    by (cases k) (simp_all add: reads_return)
  have same: "\<lparr> ref_kind = ref_kind r, ref_node_id = ref_node_id r, ref_local_id = ref_local_id r,
      ref_epoch = ref_epoch r \<rparr> = r" by simp
  have "reads atoms decode_vm_ref ([TAG_VM_REF] @ ref_tag (ref_kind r) # ([] @ text_wire (ref_node_id r)
      @ to_be_bytes (ref_local_id r) @ to_be_bytes (ref_epoch r) @ [])) r 0"
    unfolding decode_vm_ref_def
    by (rule reads_bind0 [OF reads_tag], rule reads_u8_bind, rule reads_bind0 [OF kind],
        rule reads_bind0 [OF reads_text [OF assms(2) r(1)]], rule reads_bind0 [OF reads_u64],
        rule reads_bind0 [OF reads_u64])
      (simp only: Let_def same, rule reads_check [OF r(2)], rule reads_return)
  then show ?thesis by (simp add: ref_wire_def)
qed

text \<open>A value takes at least one byte for each of its parts.\<close>

lemma sum_le_concat: "(\<And>x. x \<in> set xs \<Longrightarrow> f x \<le> length (g x)) \<Longrightarrow> sum_list (map f xs) \<le> length (concat (map g xs))"
  by (induction xs) fastforce+

lemma value_count_wire: "portable atoms depth v \<Longrightarrow> value_count (canon v) \<le> length (wire v)"
proof (induction "MAX_NESTING_DEPTH - depth" arbitrary: depth v rule: less_induct)
  case less
  note p = less.prems [unfolded portable.simps [of atoms depth v]]
  have sub: "value_count (canon x) \<le> length (wire x)" if "portable atoms (Suc depth) x" for x
    by (rule less.hyps) (use that portable_cases [OF less.prems] in auto)
  show ?case
  proof (cases v)
    case (VTuple items)
    then show ?thesis using p sub sum_le_concat [of items "\<lambda>x. value_count (canon x)" wire] by (auto simp: o_def)
  next
    case (VList items)
    then show ?thesis using p sub sum_le_concat [of items "\<lambda>x. value_count (canon x)" wire] by (auto simp: o_def)
  next
    case (VRecord name named)
    have "sum_list (map (\<lambda>x. value_count (canon (snd x))) (sort_key fst named))
        \<le> length (concat (map (\<lambda>x. text_wire (fst x) @ wire (snd x)) (sort_key fst named)))"
      using p sub VRecord by (intro sum_le_concat) (auto simp: trans_le_add2)
    then show ?thesis unfolding VRecord canon_sorted wire_sorted by (simp add: split_def o_def)
  next
    case (VMap entries)
    have "sum_list (map (\<lambda>x. value_count (canon (fst x)) + value_count (canon (snd x))) (sort_key (\<lambda>x. wire (fst x)) entries))
        \<le> length (concat (map (\<lambda>x. wire (fst x) @ wire (snd x)) (sort_key (\<lambda>x. wire (fst x)) entries)))"
      using p sub VMap by (intro sum_le_concat) (auto intro: add_mono)
    then show ?thesis unfolding VMap canon_sorted wire_sorted by (simp add: split_def o_def)
  next
    case (VSet items)
    let ?ws = "sorted_list_of_set (set (map wire items))"
    let ?c = "\<lambda>w. the (map_of (map (\<lambda>x. (wire x, canon x)) items) w)"
    have "value_count (?c w) \<le> length w" if "w \<in> set ?ws" for w
    proof -
      have "w \<in> fst ` set (map (\<lambda>x. (wire x, canon x)) items)" using that by (simp add: image_image)
      then obtain y where y: "map_of (map (\<lambda>x. (wire x, canon x)) items) w = Some y"
        by (metis map_of_eq_None_iff not_None_eq)
      from map_of_SomeD [OF this] obtain x where "x \<in> set items" "wire x = w" "canon x = y" by auto
      then show ?thesis using sub p VSet y by auto
    qed
    then have "sum_list (map (\<lambda>w. value_count (?c w)) ?ws) \<le> length (concat (map (\<lambda>w. w) ?ws))"
      by (rule sum_le_concat)
    then show ?thesis using VSet by (simp add: Let_def o_def)
  qed (use p in simp_all)
qed

lemma completes_envelope:
  assumes portable: "envelope_portable atoms env" and ok: "envelope_well_formed env"
  shows "completes atoms decode_envelope (envelope_wire env)
    (env\<lparr> env_payload := canon (env_payload env) \<rparr>) (value_count (canon (env_payload env)) - 1)"
proof -
  note p = portable [unfolded envelope_portable_def] and w = ok [unfolded envelope_well_formed_def]
  have refs: "reads atoms (read_items (length (env_refs env)) decode_vm_ref) (concat (map ref_wire (env_refs env)))
      (env_refs env) 0"
    using reads_items [of "env_refs env" atoms decode_vm_ref ref_wire "\<lambda>r. r" "\<lambda>_. 0"] reads_ref p w by simp
  have two: "2 \<le> length (ref_wire r)" for r by (simp add: ref_wire_def)
  have payload: "reads atoms (decode_value 0) (wire (env_payload env)) (canon (env_payload env))
      (value_count (canon (env_payload env)) - 1)"
    by (rule decode_value_reads) (use p w in simp_all)
  have same: "\<lparr> env_trace_id = env_trace_id env, env_from_node_id = env_from_node_id env,
      env_to_node_id = env_to_node_id env, env_epoch = env_epoch env, env_refs = env_refs env,
      env_payload = canon (env_payload env) \<rparr> = env\<lparr> env_payload := canon (env_payload env) \<rparr>"
    by (cases env) simp
  have "completes atoms decode_envelope (header_wire PROFILE_DISTRIBUTION_ENVELOPE @ [TAG_DISTRIBUTION_ENVELOPE]
     @ text_wire (env_trace_id env) @ text_wire (env_from_node_id env) @ text_wire (env_to_node_id env)
     @ to_be_bytes (env_epoch env) @ length_bytes (length (env_refs env))
     @ concat (map ref_wire (env_refs env)) @ wire (env_payload env) @ [])
     (env\<lparr> env_payload := canon (env_payload env) \<rparr>) (value_count (canon (env_payload env)) - 1 + 0)"
    unfolding decode_envelope_def
    apply (rule completes_bind0 [OF reads_header])
    apply (rule completes_bind0 [OF reads_tag])
    apply (rule completes_bind0 [OF reads_text], use w in simp, use p in simp)+
    apply (rule completes_bind0 [OF reads_u64])
    apply (rule completes_check, use p in simp)
    apply (rule completes_bind0 [OF reads_len], use p in simp)
    apply (rule completes_require)
     apply (rule completes_bind0 [OF refs])
     apply (rule completes_bind [OF payload])
     apply (unfold same, rule completes_finish)
    using concat_room [of "env_refs env" 2 ref_wire] two apply simp
    done
  then show ?thesis by (simp add: envelope_wire_def)
qed

lemma decode_encoded:
  assumes "envelope_portable atoms env" and "envelope_well_formed env" and "length (envelope_wire env) \<le> USIZE_MAX"
  shows "decode_tetf_distribution_envelope (envelope_wire env) atoms
    = Ok (env\<lparr> env_payload := canon (env_payload env) \<rparr>)"
proof -
  have "portable atoms 0 (env_payload env)" using assms(1) by (simp add: envelope_portable_def)
  then have "value_count (canon (env_payload env)) \<le> length (wire (env_payload env))" by (rule value_count_wire)
  also have "\<dots> \<le> length (envelope_wire env)" by (simp add: envelope_wire_def)
  finally show ?thesis
    unfolding decode_tetf_distribution_envelope_def
    using assms(3) by (intro completes_run [OF completes_envelope [OF assms(1,2)]]) simp_all
qed

section \<open>What was decoded\<close>

lemma consumed_tag: "consumed d [tag] 0 d1 \<Longrightarrow> consumed d1 w n d2 \<Longrightarrow> consumed d (tag # w) n d2"
  using consumed_trans [of d "[tag]" 0 d1 w n d2] by simp

lemma take_tag:
  assumes d: "sound atoms d" and run: "expect_tag tag d = (Ok u, d')"
  shows "consumed d [tag] 0 d'"
proof -
  obtain b where "read_u8 d = (Ok b, d')" "b = tag"
    using run by (auto simp: expect_tag_def bind_st_eq_Ok return_st_def invalid_def read_st_def split: if_splits)
  then show ?thesis using take_u8 [OF d] by blast
qed

lemma takes_ref: "takes atoms decode_vm_ref ref_wire (\<lambda>_. 0) (\<lambda>r. ref_portable r \<and> text_ok (ref_node_id r))"
proof (rule takesI)
  fix d r d'
  assume d: "sound atoms d" and "decode_vm_ref d = (Ok r, d')"
  then obtain d1 tag d2 kind node d3 local_id d4 epoch where
      tag: "expect_tag TAG_VM_REF d = (Ok (), d1)" and k: "read_u8 d1 = (Ok tag, d2)" "tag = ref_tag kind"
      and node: "read_text d2 = (Ok node, d3)" and l: "read_u64 d3 = (Ok local_id, d4)"
      and e: "read_u64 d4 = (Ok epoch, d')" and ok: "validate_vm_ref r = Ok ()"
      and r: "r = \<lparr> ref_kind = kind, ref_node_id = node, ref_local_id = local_id, ref_epoch = epoch \<rparr>"
    by (auto simp: decode_vm_ref_def bind_st_eq_Ok return_st_def read_st_def invalid_def Let_def split: if_splits)
  note c1 = take_tag [OF d tag] note s1 = consumed_sound [OF d c1]
  note c2 = take_u8 [OF s1 k(1)] note s2 = consumed_sound [OF s1 c2]
  note c3 = take_text [OF s2 node] note s3 = consumed_sound [OF s2 c3 [THEN conjunct1]]
  note c4 = take_u64 [OF s3 l] note s4 = consumed_sound [OF s3 c4]
  note c5 = take_u64 [OF s4 e]
  have "consumed d (ref_wire r) 0 d'"
    using consumed_tag [OF c1 consumed_tag [OF c2 consumed_trans [OF c3 [THEN conjunct1] consumed_trans [OF c4 c5]]]]
    by (simp add: ref_wire_def r k(2))
  then show "consumed d (ref_wire r) 0 d' \<and> ref_portable r \<and> text_ok (ref_node_id r)"
    using c3 ok r by (simp add: ref_portable_def)
qed

lemma take_header:
  assumes d: "sound atoms d" and run: "read_header profile d = (Ok u, d')"
  shows "consumed d (header_wire profile) 0 d'"
proof -
  from run obtain d1 d2 where m: "read_exact (length MAGIC) d = (Ok MAGIC, d1)" and v: "read_u8 d1 = (Ok VERSION, d2)"
      and p: "read_u8 d2 = (Ok profile, d')"
    by (auto simp: read_header_def bind_st_eq_Ok return_st_def invalid_def read_st_def split: if_splits)
  note c1 = take_exact [OF d m, THEN conjunct1] note s1 = consumed_sound [OF d c1]
  note c2 = take_u8 [OF s1 v] note s2 = consumed_sound [OF s1 c2]
  show ?thesis
    using consumed_trans [OF c1 consumed_trans [OF c2 take_u8 [OF s2 p]]] by (simp add: header_wire_def)
qed

lemma decoded_envelope:
  assumes "decode_tetf_distribution_envelope bytes atoms = Ok env"
  shows "bytes = envelope_wire env \<and> envelope_portable atoms env \<and> envelope_well_formed env"
proof -
  let ?d = "decoder_new bytes atoms"
  have d: "sound atoms ?d" by (simp add: sound_def decoder_new_def)
  have "fst (decode_envelope ?d) = Ok env" using assms by (simp add: decode_tetf_distribution_envelope_def)
  then obtain d' where "decode_envelope ?d = (Ok env, d')" by (metis prod.collapse)
  then obtain d1 d2 d3 d4 d5 d6 d7 d8 trace from_node to_node epoch k refs payload where
      h: "read_header PROFILE_DISTRIBUTION_ENVELOPE ?d = (Ok (), d1)"
      and t: "expect_tag TAG_DISTRIBUTION_ENVELOPE d1 = (Ok (), d2)"
      and x1: "read_text d2 = (Ok trace, d3)" and x2: "read_text d3 = (Ok from_node, d4)"
      and x3: "read_text d4 = (Ok to_node, d5)" and e: "read_u64 d5 = (Ok epoch, d6)"
      and ok: "validate_envelope trace from_node to_node epoch = Ok ()" and k: "read_len d6 = (Ok k, d7)"
      and refs: "read_items k decode_vm_ref d7 = (Ok refs, d8)" and v: "decode_value 0 d8 = (Ok payload, d')"
      and finished: "dec_offset d' = length (dec_bytes d')"
      and env: "env = \<lparr> env_trace_id = trace, env_from_node_id = from_node, env_to_node_id = to_node,
        env_epoch = epoch, env_refs = refs, env_payload = payload \<rparr>"
    by (auto simp: decode_envelope_def bind_st_eq_Ok return_st_def read_st_def finish_def dest!: take_require split: if_splits)
  note c1 = take_header [OF d h] note s1 = consumed_sound [OF d c1]
  note c2 = take_tag [OF s1 t] note s2 = consumed_sound [OF s1 c2]
  note c3 = take_text [OF s2 x1] note s3 = consumed_sound [OF s2 c3 [THEN conjunct1]]
  note c4 = take_text [OF s3 x2] note s4 = consumed_sound [OF s3 c4 [THEN conjunct1]]
  note c5 = take_text [OF s4 x3] note s5 = consumed_sound [OF s4 c5 [THEN conjunct1]]
  note c6 = take_u64 [OF s5 e] note s6 = consumed_sound [OF s5 c6]
  note c7 = take_len [OF s6 k] note s7 = consumed_sound [OF s6 c7 [THEN conjunct1]]
  note c8 = take_items [OF takes_ref s7 refs] note s8 = consumed_sound [OF s7 c8 [THEN conjunct1]]
  note c9 = takesD [OF decode_value_takes s8 v]
  let ?n = "sum_list (map (\<lambda>_. 0) refs) + (value_count payload - 1)"
  have "consumed ?d (envelope_wire env) ?n d'"
    using consumed_trans [OF c1 consumed_tag [OF c2 consumed_trans [OF c3 [THEN conjunct1]
      consumed_trans [OF c4 [THEN conjunct1] consumed_trans [OF c5 [THEN conjunct1] consumed_trans [OF c6
      consumed_trans [OF c7 [THEN conjunct1] consumed_trans [OF c8 [THEN conjunct1] c9 [THEN conjunct1]]]]]]]]]
    using c8 by (simp add: envelope_wire_def env)
  then have "bytes = envelope_wire env" using finished by (auto simp: consumed_def decoder_new_def)
  then show ?thesis
    using ok c3 c4 c5 c7 c8 c9 by (simp add: env envelope_portable_def envelope_well_formed_def)
qed

lemma decoded_canonical:
  assumes "decode_tetf_distribution_envelope bytes atoms = Ok env" and "length bytes \<le> USIZE_MAX"
  shows "env\<lparr> env_payload := canon (env_payload env) \<rparr> = env"
  using decoded_envelope [OF assms(1)] decode_encoded [of atoms env] assms by simp

end
