(* ===== verification/Term_Properties.thy ===== *)
theory Term_Properties
  imports Term_Envelope
begin

text \<open>
  The properties of the term format: what is encoded, that it is read back, and that a byte string is
  accepted only as the encoding of what it stands for.
\<close>

section \<open>Messages between nodes\<close>

text \<open>A message with an unsorted map, a record with its fields out of order and a set that holds a member
  twice, written differently the second time.\<close>

definition greeting :: TetfDistributionEnvelope where
  "greeting = \<lparr> env_trace_id = ''t'', env_from_node_id = ''a'', env_to_node_id = ''b'', env_epoch = 7,
     env_refs = [\<lparr> ref_kind = RefTimer, ref_node_id = ''a'', ref_local_id = 3, ref_epoch = 7 \<rparr>],
     env_payload = VTuple [VMap [(VBool True, VAtom ''ok''), (VUnit, VInt 5)],
       VRecord ''P'' [(''y'', VUnit), (''x'', VBytes [1, 2])],
       VSet [VString ''b'', VStringBytes [0x61], VString ''a'']] \<rparr>"

text \<open>What its receiver gets.\<close>

definition greeting_received :: TetfDistributionEnvelope where
  "greeting_received = greeting\<lparr> env_payload :=
     VTuple [VMap [(VUnit, VInt 5), (VBool True, VAtom ''ok'')],
       VRecord ''P'' [(''x'', VBytes [1, 2]), (''y'', VUnit)], VSet [VString ''a'', VString ''b'']] \<rparr>"

lemmas portable_shapes = portable.simps [of _ _ VUnit, simplified] portable.simps [of _ _ "VBool _", simplified]
  portable.simps [of _ _ "VInt _", simplified] portable.simps [of _ _ "VAtom _", simplified]
  portable.simps [of _ _ "VString _", simplified] portable.simps [of _ _ "VStringBytes _", simplified]
  portable.simps [of _ _ "VBytes _", simplified] portable.simps [of _ _ "VTuple _", simplified]
  portable.simps [of _ _ "VMap _", simplified] portable.simps [of _ _ "VSet _", simplified]
  portable.simps [of _ _ "VRecord _ _", simplified]

lemma graphic_not_blank: "32 < (of_char c :: nat) \<Longrightarrow> blank [c] = False"
proof -
  assume "32 < (of_char c :: nat)"
  then have "leading whitespace_encodings [c] = None" "leading (map rev whitespace_encodings) [c] = None"
    by (auto simp: leading_def whitespace_encodings_def upt_rec)
  then show ?thesis by (simp add: blank_def str_trim_def strip.simps)
qed

lemma one_letter: "valid_utf8 [0x61] = True" "text_of [0x61] = ''a''"
    "text_wire ''a'' = [0, 0, 0, 1, 0x61]" "text_wire ''b'' = [0, 0, 0, 1, 0x62]"
  by (code_simp, simp_all add: text_of_def char_of_def bit_Suc_0_iff text_wire_def length_bytes_def as_bytes_def)

lemmas greeting_eval = greeting_def greeting_received_def graphic_not_blank one_letter tag_defs
  sorted_list_of_set_sort_remdups

lemma greeting_canon: "greeting\<lparr> env_payload := canon (env_payload greeting) \<rparr> = greeting_received"
  by (simp add: greeting_eval del: set_simps set_map) simp

lemma greeting_short: "length (envelope_wire greeting) \<le> 1000"
  by (simp add: envelope_wire_def header_wire_def MAGIC_def ref_wire_def greeting_eval del: set_simps set_map)
    (simp add: text_wire_def)

lemma greeting_portable: "envelope_portable [''ok''] greeting"
  by (simp add: envelope_portable_def portable_shapes validate_envelope_def validate_text_field_def
      validate_epoch_def ref_portable_def validate_vm_ref_def validate_record_field_def MAX_NESTING_DEPTH_def
      NATIVE_FIELD_PREFIX_def greeting_eval del: valid_utf8.simps)

lemma greeting_well_formed: "envelope_well_formed greeting"
  by code_simp

lemma greeting_encoded:
  "encode_tetf_distribution_envelope_bounded greeting [''ok''] 1000 = Ok (envelope_wire greeting)"
  using greeting_portable greeting_short by (simp add: encode_envelope_iff)

lemma thousand: "(1000 :: nat) \<le> USIZE_MAX"
  by (simp add: USIZE_MAX_def)

lemma greeting_read: "decode_tetf_distribution_envelope (envelope_wire greeting) [''ok''] = Ok greeting_received"
  using decode_encoded [OF greeting_portable greeting_well_formed] greeting_short thousand by (simp add: greeting_canon)

text \<open>C15: encoding a message within a byte limit succeeds exactly when the message is portable (every part
  has a form on the wire, the nesting is below the bound, atoms are declared, no text is blank where it must
  not be) and its form fits, and then yields exactly that form, whatever buffers were used on the way.\<close>

theorem encoding_refines_the_format:
  "encode_tetf_distribution_envelope_bounded env atoms maximum = Ok bytes
     \<longleftrightarrow> envelope_portable atoms env \<and> length (envelope_wire env) \<le> maximum \<and> bytes = envelope_wire env"
  by (rule encode_envelope_iff)

text \<open>C14: what was encoded is read back: the receiver, with the same declared atoms, gets the message with
  its payload in canonical form (maps and records in the order of the format, sets without duplicates, text
  in one representation), and never fails, panics or runs out of value slots.\<close>

theorem encoded_message_read_back:
  assumes "encode_tetf_distribution_envelope_bounded env atoms maximum = Ok bytes"
    and "envelope_well_formed env" and "maximum \<le> USIZE_MAX"
  shows "decode_tetf_distribution_envelope bytes atoms = Ok (env\<lparr> env_payload := canon (env_payload env) \<rparr>)"
proof -
  from assms(1) have "envelope_portable atoms env" "length (envelope_wire env) \<le> maximum" "bytes = envelope_wire env"
    by (simp_all add: encode_envelope_iff)
  then show ?thesis using assms(2,3) by (simp add: decode_encoded)
qed

theorem encoded_message_read_back_witness:
  "decode_tetf_distribution_envelope (envelope_wire greeting) [''ok''] = Ok greeting_received"
  using encoded_message_read_back [OF greeting_encoded greeting_well_formed thousand] by (simp only: greeting_canon)

text \<open>C13: the decoder accepts a byte string only as the encoding of what it stands for: encoding the decoded
  message again gives the same bytes. No message has two accepted forms, no byte is ignored, and nothing
  non-portable is let in.\<close>

theorem accepted_bytes_are_the_encoding:
  assumes "decode_tetf_distribution_envelope bytes atoms = Ok env" and "length bytes \<le> maximum"
  shows "encode_tetf_distribution_envelope_bounded env atoms maximum = Ok bytes"
  using decoded_envelope [OF assms(1)] assms(2) by (simp add: encode_envelope_iff)

theorem accepted_bytes_are_the_encoding_witness:
  "encode_tetf_distribution_envelope_bounded greeting_received [''ok''] 1000 = Ok (envelope_wire greeting)"
  by (rule accepted_bytes_are_the_encoding [OF greeting_read greeting_short])

lemma received_messages_are_canonical:
  "decode_tetf_distribution_envelope bytes atoms = Ok env \<Longrightarrow> length bytes \<le> USIZE_MAX
     \<Longrightarrow> canon (env_payload env) = env_payload env"
  using decoded_canonical [of bytes atoms env] by (metis TetfDistributionEnvelope.select_convs(6)
      TetfDistributionEnvelope.surjective TetfDistributionEnvelope.update_convs(6))

end
