(* ===== verification/Distributed_State.thy ===== *)
theory Distributed_State
  imports Process_Data Ordered_Map
begin

text \<open>
  The state replicated between nodes (\<open>runtime/vm/distributed_state.rs\<close>): entries by scope, each with
  an owner, a version and a policy for conflicting writes; snapshots in the order of the scopes.
\<close>

section \<open>Data\<close>

datatype VmDistributedStatePolicy = WinnerTakesAll | LastWriterWins | Merge | ExplicitUserResolution

datatype VmDistributedStateScope = Scope (scope_namespace: string) (scope_key: string)

text \<open>The derived order: by namespace, then by key.\<close>

definition scope_pair :: "VmDistributedStateScope \<Rightarrow> string \<times> string" where
  "scope_pair s = (scope_namespace s, scope_key s)"

lemma scope_pair_eq [simp]: "scope_pair s = scope_pair s' \<longleftrightarrow> s = s'"
  by (cases s; cases s') (simp add: scope_pair_def)

instantiation VmDistributedStateScope :: linorder
begin

definition less_eq_VmDistributedStateScope :: "VmDistributedStateScope \<Rightarrow> VmDistributedStateScope \<Rightarrow> bool" where
  "less_eq_VmDistributedStateScope s s' \<longleftrightarrow> scope_pair s \<le> scope_pair s'"

definition less_VmDistributedStateScope :: "VmDistributedStateScope \<Rightarrow> VmDistributedStateScope \<Rightarrow> bool" where
  "less_VmDistributedStateScope s s' \<longleftrightarrow> scope_pair s < scope_pair s'"

instance
proof
  fix x y z :: VmDistributedStateScope
  show "(x < y) = (x \<le> y \<and> \<not> y \<le> x)"
    by (simp add: less_eq_VmDistributedStateScope_def less_VmDistributedStateScope_def less_le_not_le)
  show "x \<le> x" "x \<le> y \<Longrightarrow> y \<le> z \<Longrightarrow> x \<le> z" "x \<le> y \<or> y \<le> x"
    by (auto simp: less_eq_VmDistributedStateScope_def)
  show "x \<le> y \<Longrightarrow> y \<le> x \<Longrightarrow> x = y"
    by (metis less_eq_VmDistributedStateScope_def antisym scope_pair_eq)
qed

end

definition scope_new :: "string \<Rightarrow> string \<Rightarrow> (vm_error, VmDistributedStateScope) outcome" where
  "scope_new namespace key =
     (if namespace = [] then Err (Msg ''error[vm_distributed_state]: state namespace must be non-empty'' [])
      else if key = [] then Err (Msg ''error[vm_distributed_state]: state key must be non-empty'' [])
      else Ok (Scope namespace key))"

record VmDistributedStateVersion =
  version_sequence :: u64
  version_node_id :: string

definition version_new :: "u64 \<Rightarrow> string \<Rightarrow> (vm_error, VmDistributedStateVersion) outcome" where
  "version_new sequence node_id =
     (if sequence = 0 then Err (Msg ''error[vm_distributed_state]: state version sequence must be non-zero'' [])
      else if node_id = [] then Err (Msg ''error[vm_distributed_state]: state version node id must be non-empty'' [])
      else Ok \<lparr> version_sequence = sequence, version_node_id = node_id \<rparr>)"

record VmDistributedStateEntry =
  entry_scope :: VmDistributedStateScope
  entry_owner_node_id :: string
  entry_value :: ReplValue
  entry_version :: VmDistributedStateVersion
  entry_policy :: VmDistributedStatePolicy

record VmDistributedStateConflict =
  conflict_scope :: VmDistributedStateScope
  conflict_local_version :: VmDistributedStateVersion
  conflict_incoming_version :: VmDistributedStateVersion
  conflict_policy :: VmDistributedStatePolicy

datatype VmDistributedStateWriteOutcome =
    Applied VmDistributedStateEntry
  | Replayed VmDistributedStateEntry
  | Conflict VmDistributedStateConflict
  | PolicyMismatch VmDistributedStateScope VmDistributedStatePolicy VmDistributedStatePolicy

record VmDistributedStateStore =
  store_entries :: "(VmDistributedStateScope, VmDistributedStateEntry) btree"

section \<open>Operations\<close>

definition store_new :: VmDistributedStateStore where
  "store_new = \<lparr> store_entries = [] \<rparr>"

definition store_get :: "VmDistributedStateScope \<Rightarrow> VmDistributedStateStore \<Rightarrow> VmDistributedStateEntry option" where
  "store_get scope store = bt_get (store_entries store) scope"

definition should_apply_incoming_version :: "VmDistributedStateVersion \<Rightarrow> VmDistributedStateVersion
    \<Rightarrow> VmDistributedStatePolicy \<Rightarrow> bool" where
  "should_apply_incoming_version local incoming policy \<longleftrightarrow> policy = LastWriterWins
     \<and> (version_sequence local < version_sequence incoming
        \<or> version_sequence incoming = version_sequence local \<and> version_node_id local < version_node_id incoming)"

definition store_write :: "VmDistributedStateScope \<Rightarrow> string \<Rightarrow> ReplValue \<Rightarrow> VmDistributedStateVersion
    \<Rightarrow> VmDistributedStatePolicy \<Rightarrow> (VmDistributedStateStore, vm_error, VmDistributedStateWriteOutcome) stateful" where
  "store_write scope owner_node_id v version policy store =
     (if owner_node_id = []
      then (Err (Msg ''error[vm_distributed_state]: state owner node id must be non-empty'' []), store)
      else
        let incoming = \<lparr> entry_scope = scope, entry_owner_node_id = owner_node_id, entry_value = v,
              entry_version = version, entry_policy = policy \<rparr>;
            inserted = store\<lparr> store_entries := bt_insert scope incoming (store_entries store) \<rparr>
        in case bt_get (store_entries store) scope of
             None \<Rightarrow> (Ok (Applied incoming), inserted)
           | Some existing \<Rightarrow>
               if entry_policy existing \<noteq> entry_policy incoming
               then (Ok (PolicyMismatch scope (entry_policy existing) (entry_policy incoming)), store)
               else if entry_version existing = entry_version incoming \<and> existing = incoming
               then (Ok (Replayed existing), store)
               else if should_apply_incoming_version (entry_version existing) (entry_version incoming)
                   (entry_policy incoming)
               then (Ok (Applied incoming), inserted)
               else (Ok (Conflict \<lparr> conflict_scope = scope, conflict_local_version = entry_version existing,
                   conflict_incoming_version = entry_version incoming, conflict_policy = policy \<rparr>), store))"

definition export_snapshot :: "VmDistributedStateStore \<Rightarrow> VmDistributedStateEntry list" where
  "export_snapshot store = bt_values (store_entries store)"

fun import_entries :: "VmDistributedStateEntry list \<Rightarrow> VmDistributedStateStore
    \<Rightarrow> (vm_error, VmDistributedStateStore) outcome" where
  "import_entries [] store = Ok store"
| "import_entries (entry # entries) store =
     (if scope_namespace (entry_scope entry) = [] \<or> scope_key (entry_scope entry) = []
      then Err (Msg ''error[vm_distributed_state]: snapshot scope must be valid'' [])
      else if entry_owner_node_id entry = []
      then Err (Msg ''error[vm_distributed_state]: snapshot owner node id must be non-empty'' [])
      else if version_sequence (entry_version entry) = 0 \<or> version_node_id (entry_version entry) = []
      then Err (Msg ''error[vm_distributed_state]: snapshot version must be valid'' [])
      else if bt_get (store_entries store) (entry_scope entry) \<noteq> None
      then Err (Msg ''error[vm_distributed_state]: snapshot contains duplicate state scope'' [])
      else import_entries entries
        (store\<lparr> store_entries := bt_insert (entry_scope entry) entry (store_entries store) \<rparr>))"

definition import_snapshot :: "VmDistributedStateEntry list \<Rightarrow> (vm_error, VmDistributedStateStore) outcome" where
  "import_snapshot entries = import_entries entries store_new"

end
