(* ===== verification/Term_Checkpoint.thy ===== *)
theory Term_Checkpoint
  imports Term_Decoder Distributed_State
begin

text \<open>
  Checkpoints of the distributed state in the Terlan External Term Format
  (\<open>runtime/vm/term_format/checkpoint.rs\<close>, \<open>runtime/vm/term_format/decoder/checkpoint.rs\<close>): entries
  sorted by scope, with bounds on the bytes, the entries and the values of all of them together.
\<close>

section \<open>Encoding\<close>

definition MAX_ENTRIES :: nat where "MAX_ENTRIES = 16384"
definition MAX_VALUES :: nat where "MAX_VALUES = 65536"
definition MIN_ENTRY_BYTES :: nat where "MIN_ENTRY_BYTES = 30"
definition MAX_CHECKPOINT_BYTES :: nat where "MAX_CHECKPOINT_BYTES = 16 * 1024 * 1024"

text \<open>The budget left by values counted one after the other.\<close>

fun run_budget :: "(nat \<Rightarrow> (vm_error, nat) outcome) list \<Rightarrow> nat \<Rightarrow> (vm_error, nat) outcome" where
  "run_budget [] remaining = Ok remaining"
| "run_budget (count # counts) remaining = bind_out (count remaining) (run_budget counts)"

fun validate_value_budget :: "nat \<Rightarrow> ReplValue \<Rightarrow> nat \<Rightarrow> (vm_error, nat) outcome" where
  "validate_value_budget depth v remaining =
     (if MAX_NESTING_DEPTH \<le> depth
      then Err (Msg ''error[tetf_depth]: checkpoint value nesting exceeds limit'' [])
      else if remaining = 0 then Err (Msg ''error[tetf_checkpoint.values]: too many logical values'' [])
      else let remaining = remaining - 1 in
      case v of
        VTuple items \<Rightarrow> run_budget (map (validate_value_budget (Suc depth)) items) remaining
      | VList items \<Rightarrow> run_budget (map (validate_value_budget (Suc depth)) items) remaining
      | VSet items \<Rightarrow> run_budget (map (validate_value_budget (Suc depth)) items) remaining
      | VMap entries \<Rightarrow> run_budget (concat (map (\<lambda>(key, item). [validate_value_budget (Suc depth) key,
          validate_value_budget (Suc depth) item]) entries)) remaining
      | VRecord _ named \<Rightarrow> run_budget (map (\<lambda>(_, item). validate_value_budget (Suc depth) item) named) remaining
      | _ \<Rightarrow> Ok remaining)"

declare validate_value_budget.simps [simp del]

definition validate_entry :: "VmDistributedStateEntry \<Rightarrow> (vm_error, unit) outcome" where
  "validate_entry entry =
     (if scope_namespace (entry_scope entry) = [] \<or> scope_key (entry_scope entry) = []
        \<or> entry_owner_node_id entry = [] \<or> version_node_id (entry_version entry) = []
        \<or> version_sequence (entry_version entry) = 0 \<or> 2 ^ 63 - 1 < version_sequence (entry_version entry)
      then Err (Msg ''error[tetf_checkpoint.metadata]: invalid state identity or version'' []) else Ok ())"

fun policy_tag :: "VmDistributedStatePolicy \<Rightarrow> u8" where
  "policy_tag WinnerTakesAll = 1"
| "policy_tag LastWriterWins = 2"
| "policy_tag Merge = 3"
| "policy_tag ExplicitUserResolution = 4"

definition encode_entry :: "string list \<Rightarrow> VmDistributedStateEntry \<Rightarrow> encoder" where
  "encode_entry declared_atoms entry =
     bind_st (read_st (\<lambda>_. validate_entry entry)) (\<lambda>_.
     bind_st (write_text (scope_namespace (entry_scope entry))) (\<lambda>_.
     bind_st (write_text (scope_key (entry_scope entry))) (\<lambda>_.
     bind_st (write_text (entry_owner_node_id entry)) (\<lambda>_.
     bind_st (write_u64 (version_sequence (entry_version entry))) (\<lambda>_.
     bind_st (write_text (version_node_id (entry_version entry))) (\<lambda>_.
     bind_st (buf_push (policy_tag (entry_policy entry))) (\<lambda>_.
     encode_value declared_atoms 0 (entry_value entry))))))))"

definition encode_entries :: "VmDistributedStateEntry list \<Rightarrow> string list \<Rightarrow> encoder" where
  "encode_entries entries declared_atoms =
     bind_st (extend_from_slice MAGIC) (\<lambda>_.
     bind_st (buf_push VERSION) (\<lambda>_.
     bind_st (buf_push PROFILE_LOGICAL_CHECKPOINT) (\<lambda>_.
     bind_st (write_len (length entries)) (\<lambda>_.
     bind_st (read_st (\<lambda>b. if buf_remaining b div MIN_ENTRY_BYTES < length entries
       then Err (Msg ''error[tetf_size]: checkpoint entries exceed byte limit'' []) else Ok ())) (\<lambda>_.
     let ordered = sort_key entry_scope entries in
     bind_st (read_st (\<lambda>_. if adjacent_duplicate (map entry_scope ordered) \<noteq> None
       then Err (Msg ''error[tetf_checkpoint.scope]: duplicate state scope'' []) else Ok ())) (\<lambda>_.
     run_all (map (encode_entry declared_atoms) ordered)))))))"

definition encode_tetf_checkpoint :: "VmDistributedStateEntry list \<Rightarrow> string list \<Rightarrow> nat
    \<Rightarrow> (vm_error, u8 list) outcome" where
  "encode_tetf_checkpoint entries declared_atoms maximum =
     (if MAX_ENTRIES < length entries
      then Err (Msg ''error[tetf_checkpoint.count]: too many state entries'' [])
      else bind_out (run_budget (map (\<lambda>entry. validate_value_budget 0 (entry_value entry)) entries) MAX_VALUES) (\<lambda>_.
        encoded_apart (min maximum MAX_CHECKPOINT_BYTES) (encode_entries entries declared_atoms)))"

section \<open>Decoding\<close>

definition read_policy :: "VmDistributedStatePolicy decoder" where
  "read_policy = bind_st read_u8 (\<lambda>tag.
     if tag = 1 then return_st WinnerTakesAll else if tag = 2 then return_st LastWriterWins
     else if tag = 3 then return_st Merge else if tag = 4 then return_st ExplicitUserResolution
     else invalid ''error[tetf_checkpoint.policy]: invalid conflict policy'')"

text \<open>One round of the loop, after the entry whose scope is \<open>previous\<close>.\<close>

definition read_entry :: "VmDistributedStateScope option \<Rightarrow> VmDistributedStateEntry decoder" where
  "read_entry previous =
     bind_st read_text (\<lambda>namespace. bind_st read_text (\<lambda>key.
     bind_st (read_st (\<lambda>_. scope_new namespace key)) (\<lambda>scope.
     bind_st (read_st (\<lambda>_. case previous of
         Some before \<Rightarrow> if scope \<le> before
           then Err (Msg ''error[tetf_checkpoint.scope]: state scopes are not strictly ordered'' []) else Ok ()
       | None \<Rightarrow> Ok ())) (\<lambda>_.
     bind_st read_text (\<lambda>owner_node_id.
     bind_st read_u64 (\<lambda>sequence. bind_st read_text (\<lambda>node_id.
     bind_st (read_st (\<lambda>_. version_new sequence node_id)) (\<lambda>version.
     bind_st read_policy (\<lambda>policy.
     bind_st (decode_value 0) (\<lambda>v.
     let entry = \<lparr> entry_scope = scope, entry_owner_node_id = owner_node_id, entry_value = v,
           entry_version = version, entry_policy = policy \<rparr> in
     bind_st (read_st (\<lambda>_. validate_entry entry)) (\<lambda>_. return_st entry)))))))))))"

fun read_checkpoint_entries :: "nat \<Rightarrow> VmDistributedStateScope option \<Rightarrow> VmDistributedStateEntry list decoder" where
  "read_checkpoint_entries 0 previous = return_st []"
| "read_checkpoint_entries (Suc n) previous =
     bind_st (read_entry previous) (\<lambda>entry.
     bind_st (read_checkpoint_entries n (Some (entry_scope entry))) (\<lambda>entries. return_st (entry # entries)))"

definition decode_checkpoint :: "VmDistributedStateEntry list decoder" where
  "decode_checkpoint =
     bind_st (read_header PROFILE_LOGICAL_CHECKPOINT) (\<lambda>_.
     bind_st read_len (\<lambda>count.
     if MAX_ENTRIES < count then invalid ''error[tetf_checkpoint.count]: too many state entries''
     else bind_st (require_remaining_items count MIN_ENTRY_BYTES) (\<lambda>_.
       bind_st (reserve_value_slots count) (\<lambda>_.
       bind_st (read_checkpoint_entries count None) (\<lambda>entries.
       bind_st finish (\<lambda>_. return_st entries))))))"

definition decode_tetf_checkpoint :: "u8 list \<Rightarrow> string list \<Rightarrow> (vm_error, VmDistributedStateEntry list) outcome" where
  "decode_tetf_checkpoint bytes declared_atoms =
     (if MAX_CHECKPOINT_BYTES < length bytes
      then Err (Msg ''error[tetf_size]: checkpoint payload exceeds storage limit'' [])
      else fst (decode_checkpoint
        ((decoder_new bytes declared_atoms)\<lparr> dec_remaining_value_slots := MAX_VALUES \<rparr>)))"

end
