(* ===== verification/Checkpoint_Laws.thy ===== *)
theory Checkpoint_Laws
  imports Term_Envelope Term_Checkpoint
begin

text \<open>
  The format of checkpoints as a function of the entries, and the encoder and the decoder of
  checkpoints against it.
\<close>

section \<open>The format of a checkpoint\<close>

definition entry_wire :: "VmDistributedStateEntry \<Rightarrow> u8 list" where
  "entry_wire e = text_wire (scope_namespace (entry_scope e)) @ text_wire (scope_key (entry_scope e))
     @ text_wire (entry_owner_node_id e) @ to_be_bytes (version_sequence (entry_version e))
     @ text_wire (version_node_id (entry_version e)) @ [policy_tag (entry_policy e)] @ wire (entry_value e)"

definition checkpoint_wire :: "VmDistributedStateEntry list \<Rightarrow> u8 list" where
  "checkpoint_wire entries = header_wire PROFILE_LOGICAL_CHECKPOINT @ length_bytes (length entries)
     @ concat (map entry_wire (sort_key entry_scope entries))"

definition entry_portable :: "string list \<Rightarrow> VmDistributedStateEntry \<Rightarrow> bool" where
  "entry_portable atoms e \<longleftrightarrow> validate_entry e = Ok () \<and> short (scope_namespace (entry_scope e))
     \<and> short (scope_key (entry_scope e)) \<and> short (entry_owner_node_id e) \<and> short (version_node_id (entry_version e))
     \<and> portable atoms 0 (entry_value e)"

definition checkpoint_portable :: "string list \<Rightarrow> VmDistributedStateEntry list \<Rightarrow> bool" where
  "checkpoint_portable atoms entries \<longleftrightarrow> length entries \<le> MAX_ENTRIES
     \<and> sum_list (map (\<lambda>e. value_count (entry_value e)) entries) \<le> MAX_VALUES
     \<and> distinct (map entry_scope entries) \<and> (\<forall>e \<in> set entries. entry_portable atoms e)"

definition entry_well_formed :: "VmDistributedStateEntry \<Rightarrow> bool" where
  "entry_well_formed e \<longleftrightarrow> text_ok (scope_namespace (entry_scope e)) \<and> text_ok (scope_key (entry_scope e))
     \<and> text_ok (entry_owner_node_id e) \<and> text_ok (version_node_id (entry_version e)) \<and> well_formed (entry_value e)"

definition entry_received :: "VmDistributedStateEntry \<Rightarrow> VmDistributedStateEntry" where
  "entry_received e = e\<lparr> entry_value := canon (entry_value e) \<rparr>"

section \<open>The budget of values\<close>

definition budgets :: "(nat \<Rightarrow> (vm_error, nat) outcome) \<Rightarrow> nat \<Rightarrow> bool" where
  "budgets count n \<longleftrightarrow> (\<forall>r r'. count r = Ok r' \<longleftrightarrow> n \<le> r \<and> r' = r - n)"

lemma budgets_run:
  "(\<And>x. x \<in> set xs \<Longrightarrow> budgets (c x) (n x)) \<Longrightarrow> budgets (run_budget (map c xs)) (sum_list (map n xs))"
proof (induction xs)
  case Nil
  then show ?case by (auto simp: budgets_def)
next
  case (Cons x xs)
  have x: "budgets (c x) (n x)" "budgets (run_budget (map c xs)) (sum_list (map n xs))" using Cons by simp_all
  then show ?case by (auto simp: budgets_def bind_out_eq_Ok)
qed

lemma budgets_pairs:
  assumes "\<And>x. x \<in> set xs \<Longrightarrow> budgets (c x) (n x) \<and> budgets (d x) (m x)"
  shows "budgets (run_budget (concat (map (\<lambda>x. [c x, d x]) xs))) (sum_list (map (\<lambda>x. n x + m x) xs))"
  using assms
proof (induction xs)
  case Nil
  then show ?case by (auto simp: budgets_def)
next
  case (Cons x xs)
  have "budgets (c x) (n x)" "budgets (d x) (m x)"
    "budgets (run_budget (concat (map (\<lambda>x. [c x, d x]) xs))) (sum_list (map (\<lambda>x. n x + m x) xs))"
    using Cons by simp_all
  then show ?case by (auto simp: budgets_def bind_out_eq_Ok)
qed

lemma budgets_Suc:
  assumes "budgets c n" and "\<And>r. v r = (if r = 0
      then Err (Msg ''error[tetf_checkpoint.values]: too many logical values'' []) else c (r - 1))"
  shows "budgets v (Suc n)"
  using assms by (auto simp: budgets_def)

lemma value_budget: "portable atoms depth v \<Longrightarrow> budgets (validate_value_budget depth v) (value_count v)"
proof (induction "MAX_NESTING_DEPTH - depth" arbitrary: depth v rule: less_induct)
  case less
  note p = less.prems [unfolded portable.simps [of atoms depth v]] and deep = portable_cases [OF less.prems]
  have sub: "budgets (validate_value_budget (Suc depth) x) (value_count x)" if "portable atoms (Suc depth) x" for x
    by (rule less.hyps) (use that deep in auto)
  have leaf: "budgets Ok 0" by (auto simp: budgets_def)
  show ?case
  proof (cases v)
    case (VTuple items)
    have "budgets (run_budget (map (validate_value_budget (Suc depth)) items)) (sum_list (map value_count items))"
      by (rule budgets_run) (use sub p VTuple in simp)
    from budgets_Suc [OF this, of "validate_value_budget depth v"] show ?thesis using deep VTuple by (simp add: validate_value_budget.simps Let_def)
  next
    case (VList items)
    have "budgets (run_budget (map (validate_value_budget (Suc depth)) items)) (sum_list (map value_count items))"
      by (rule budgets_run) (use sub p VList in simp)
    from budgets_Suc [OF this, of "validate_value_budget depth v"] show ?thesis using deep VList by (simp add: validate_value_budget.simps Let_def)
  next
    case (VSet items)
    have "budgets (run_budget (map (validate_value_budget (Suc depth)) items)) (sum_list (map value_count items))"
      by (rule budgets_run) (use sub p VSet in simp)
    from budgets_Suc [OF this, of "validate_value_budget depth v"] show ?thesis using deep VSet by (simp add: validate_value_budget.simps Let_def)
  next
    case (VRecord name named)
    have "budgets (run_budget (map (\<lambda>(_, item). validate_value_budget (Suc depth) item) named))
        (sum_list (map (\<lambda>(_, v). value_count v) named))"
      by (rule budgets_run) (use sub p VRecord in auto)
    from budgets_Suc [OF this, of "validate_value_budget depth v"] show ?thesis using deep VRecord by (simp add: validate_value_budget.simps Let_def)
  next
    case (VMap entries)
    have "budgets (run_budget (concat (map (\<lambda>x. [validate_value_budget (Suc depth) (fst x),
        validate_value_budget (Suc depth) (snd x)]) entries)))
        (sum_list (map (\<lambda>x. value_count (fst x) + value_count (snd x)) entries))"
      by (rule budgets_pairs) (use sub p VMap in auto)
    from budgets_Suc [OF this, of "validate_value_budget depth v"] show ?thesis
      using deep VMap by (simp add: validate_value_budget.simps Let_def split_def)
  qed (use budgets_Suc [OF leaf, of "validate_value_budget depth v"] deep in \<open>simp_all add: validate_value_budget.simps\<close>)
qed

section \<open>Encoding\<close>

lemma validate_entry_Ok:
  "validate_entry e = Ok () \<longleftrightarrow> scope_namespace (entry_scope e) \<noteq> [] \<and> scope_key (entry_scope e) \<noteq> []
     \<and> entry_owner_node_id e \<noteq> [] \<and> version_node_id (entry_version e) \<noteq> []
     \<and> version_sequence (entry_version e) \<noteq> 0 \<and> version_sequence (entry_version e) \<le> 2 ^ 63 - 1"
  by (auto simp: validate_entry_def not_less)

lemma emits_entry: "emits (entry_portable atoms e) (encode_entry atoms e) (entry_wire e)"
  unfolding encode_entry_def
  by (rule emits_cong [OF emits_check [OF emits_bind [OF emits_text emits_bind [OF emits_text
        emits_bind [OF emits_text emits_bind [OF emits_u64 emits_bind [OF emits_text
        emits_bind [OF emits_push encode_value_wire]]]]]]]])
    (auto simp: entry_portable_def entry_wire_def)

lemma entry_room: "entry_portable atoms e \<Longrightarrow> MIN_ENTRY_BYTES \<le> length (entry_wire e)"
  using wire_nonempty [of atoms 0 "entry_value e"]
  by (cases "wire (entry_value e)"; cases "scope_namespace (entry_scope e)"; cases "scope_key (entry_scope e)";
      cases "entry_owner_node_id e"; cases "version_node_id (entry_version e)")
    (auto simp: entry_portable_def validate_entry_Ok entry_wire_def text_wire_def MIN_ENTRY_BYTES_def)

lemma emits_entries:
  "emits (short entries \<and> distinct (map entry_scope entries) \<and> (\<forall>e \<in> set entries. entry_portable atoms e))
     (encode_entries entries atoms) (checkpoint_wire entries)"
proof -
  let ?xs = "sort_key entry_scope entries"
  let ?w = "concat (map entry_wire ?xs)" and ?ok = "\<forall>e \<in> set entries. entry_portable atoms e"
  have all: "emits ?ok (run_all (map (encode_entry atoms) ?xs)) ?w"
    using emits_all [of ?xs "entry_portable atoms" "encode_entry atoms" entry_wire] emits_entry by simp
  have dup: "emits (distinct (map entry_scope entries) \<and> ?ok)
      (bind_st (read_st (\<lambda>_. if adjacent_duplicate (map entry_scope ?xs) \<noteq> None then Err error else Ok ()))
        (\<lambda>_. run_all (map (encode_entry atoms) ?xs))) ?w" for error
    by (rule emits_cong [OF emits_check [OF all]]) (auto simp: adjacent_duplicate_sorted distinct_map)
  have room: "\<not> buf_remaining b div MIN_ENTRY_BYTES < length entries"
    if "distinct (map entry_scope entries) \<and> ?ok" and "fits ?w b" for b
  proof -
    have "MIN_ENTRY_BYTES * length ?xs \<le> length ?w"
      by (rule concat_room) (use that(1) entry_room in auto)
    also have "\<dots> \<le> buf_remaining b" using that(2) by (simp add: fits_def buf_remaining_def)
    finally show ?thesis by (simp add: not_less less_eq_div_iff_mult_less_eq MIN_ENTRY_BYTES_def mult.commute)
  qed
  show ?thesis
    unfolding encode_entries_def Let_def
    by (rule emits_cong [OF emits_bind [OF emits_extend emits_bind [OF emits_push emits_bind [OF emits_push
          emits_bind [OF emits_len emits_room [OF dup room]]]]]])
      (auto simp: checkpoint_wire_def header_wire_def)
qed

lemma encode_checkpoint_iff:
  "encode_tetf_checkpoint entries atoms maximum = Ok bytes \<longleftrightarrow>
     checkpoint_portable atoms entries \<and> length (checkpoint_wire entries) \<le> min maximum MAX_CHECKPOINT_BYTES
     \<and> bytes = checkpoint_wire entries"
proof (cases "\<forall>e \<in> set entries. entry_portable atoms e")
  case True
  have "budgets (run_budget (map (\<lambda>e. validate_value_budget 0 (entry_value e)) entries))
      (sum_list (map (\<lambda>e. value_count (entry_value e)) entries))"
    by (rule budgets_run) (use True value_budget in \<open>auto simp: entry_portable_def\<close>)
  then show ?thesis
    using True by (auto simp: encode_tetf_checkpoint_def bind_out_eq_Ok budgets_def checkpoint_portable_def
        encoded_apart_emits [OF emits_entries] MAX_ENTRIES_def)
next
  case False
  then show ?thesis
    by (auto simp: encode_tetf_checkpoint_def bind_out_eq_Ok checkpoint_portable_def
        encoded_apart_emits [OF emits_entries])
qed

section \<open>Decoding\<close>

lemma reads_policy: "reads atoms read_policy [policy_tag policy] policy 0"
  unfolding read_policy_def by (rule reads_u8_bind) (cases policy; simp add: reads_return)

lemma reads_entry:
  assumes p: "entry_portable atoms e" and w: "entry_well_formed e"
    and order: "\<forall>before. previous = Some before \<longrightarrow> before < entry_scope e"
  shows "reads atoms (read_entry previous) (entry_wire e) (entry_received e) (value_count (canon (entry_value e)) - 1)"
proof -
  note p = p [unfolded entry_portable_def validate_entry_Ok] and w = w [unfolded entry_well_formed_def]
  have scope: "scope_new (scope_namespace (entry_scope e)) (scope_key (entry_scope e)) = Ok (entry_scope e)"
    using p by (cases "entry_scope e") (simp add: scope_new_def)
  have version: "version_new (version_sequence (entry_version e)) (version_node_id (entry_version e)) = Ok (entry_version e)"
    using p by (simp add: version_new_def)
  have next_one: "(case previous of Some before \<Rightarrow> if entry_scope e \<le> before then Err error else Ok ()
      | None \<Rightarrow> Ok ()) = Ok ()" for error :: vm_error
    using order by (auto split: option.split)
  have v: "reads atoms (decode_value 0) (wire (entry_value e)) (canon (entry_value e)) (value_count (canon (entry_value e)) - 1)"
    by (rule decode_value_reads) (use p w in simp_all)
  have same: "\<lparr> entry_scope = entry_scope e, entry_owner_node_id = entry_owner_node_id e,
      entry_value = canon (entry_value e), entry_version = entry_version e, entry_policy = entry_policy e \<rparr>
      = entry_received e" by (cases e) (simp add: entry_received_def)
  have valid: "validate_entry (entry_received e) = Ok ()" using p by (simp add: validate_entry_Ok entry_received_def)
  have "reads atoms (read_entry previous) (text_wire (scope_namespace (entry_scope e))
     @ text_wire (scope_key (entry_scope e)) @ text_wire (entry_owner_node_id e)
     @ to_be_bytes (version_sequence (entry_version e)) @ text_wire (version_node_id (entry_version e))
     @ [policy_tag (entry_policy e)] @ wire (entry_value e) @ [])
     (entry_received e) (value_count (canon (entry_value e)) - 1 + 0)"
    unfolding read_entry_def
    apply (rule reads_bind0 [OF reads_text], use w in simp, use p in simp)+
    apply (rule reads_check [OF scope], rule reads_check [OF next_one])
    apply (rule reads_bind0 [OF reads_text], use w in simp, use p in simp)
    apply (rule reads_bind0 [OF reads_u64])
    apply (rule reads_bind0 [OF reads_text], use w in simp, use p in simp)
    apply (rule reads_check [OF version], rule reads_bind0 [OF reads_policy], rule reads_bind [OF v])
    apply (simp only: Let_def same, rule reads_check [OF valid], rule reads_return)
    done
  then show ?thesis by (simp add: entry_wire_def)
qed

lemma reads_checkpoint_entries:
  assumes "below previous (map entry_scope es)" and "\<And>e. e \<in> set es \<Longrightarrow> entry_portable atoms e \<and> entry_well_formed e"
  shows "reads atoms (read_checkpoint_entries (length es) previous) (concat (map entry_wire es))
    (map entry_received es) (sum_list (map (\<lambda>e. value_count (canon (entry_value e)) - 1) es))"
  using assms
proof (induction es arbitrary: previous)
  case Nil
  then show ?case by (simp add: reads_return)
next
  case (Cons e es)
  have order: "below (Some (entry_scope e)) (map entry_scope es)" "\<forall>q. previous = Some q \<longrightarrow> q < entry_scope e"
    using below_Cons [of previous "entry_scope e" "map entry_scope es"] Cons.prems(1) by auto
  have e: "reads atoms (read_entry previous) (entry_wire e) (entry_received e) (value_count (canon (entry_value e)) - 1)"
    by (rule reads_entry) (use order Cons.prems in auto)
  have "reads atoms (read_checkpoint_entries (length es) (Some (entry_scope e))) (concat (map entry_wire es))
      (map entry_received es) (sum_list (map (\<lambda>e. value_count (canon (entry_value e)) - 1) es))"
    by (rule Cons.IH [OF order(1)]) (use Cons.prems in simp)
  then have "reads atoms (read_checkpoint_entries (length es) (Some (entry_scope (entry_received e))))
      (concat (map entry_wire es)) (map entry_received es) (sum_list (map (\<lambda>e. value_count (canon (entry_value e)) - 1) es))"
    by (simp add: entry_received_def)
  note rest = reads_map [OF this, of "\<lambda>es. entry_received e # es"]
  show ?case
    unfolding list.size(4) add_Suc_right add_0_right read_checkpoint_entries.simps list.map concat.simps sum_list.Cons
    by (rule reads_bind [OF e], rule rest)
qed

lemma completes_reserve:
  assumes "completes atoms (f ()) w y n"
  shows "completes atoms (bind_st (reserve_value_slots count) f) w y (count + n)"
  unfolding completes_def
proof (intro allI impI)
  fix d
  assume d: "facing atoms w d \<and> drop (dec_offset d) (dec_bytes d) = w \<and> count + n \<le> dec_remaining_value_slots d"
  let ?d = "d\<lparr> dec_remaining_value_slots := dec_remaining_value_slots d - count \<rparr>"
  have "fst (f () ?d) = Ok y"
    using assms d unfolding completes_def by (elim allE [of _ ?d]) (auto simp: facing_def)
  then show "fst (bind_st (reserve_value_slots count) f d) = Ok y"
    using d by (simp add: reserve_value_slots_def)
qed

text \<open>Canonical values are not larger: a member of a set counts once.\<close>

lemma distinct_keys_sum:
  "(\<Sum>k\<in>fst ` set xs. g (the (map_of xs k))) \<le> sum_list (map (\<lambda>x. g (snd x) :: nat) xs)"
proof (induction xs)
  case (Cons x xs)
  let ?S = "fst ` set xs"
  have "(\<Sum>k\<in>insert (fst x) ?S. g (the (map_of (x # xs) k)))
      = g (snd x) + (\<Sum>k\<in>?S - {fst x}. g (the (map_of (x # xs) k)))"
    by (subst sum.insert_remove) (simp_all add: fun_upd_def)
  also have "(\<Sum>k\<in>?S - {fst x}. g (the (map_of (x # xs) k))) = (\<Sum>k\<in>?S - {fst x}. g (the (map_of xs k)))"
    by (rule sum.cong) (auto simp: fun_upd_def)
  also have "\<dots> \<le> (\<Sum>k\<in>?S. g (the (map_of xs k)))" by (rule sum_mono2) auto
  finally show ?case using Cons by simp
qed simp

lemma value_count_canon: "value_count (canon v) \<le> value_count v"
proof (induction v)
  case (VTuple items)
  then show ?case by (auto intro!: sum_list_mono simp: o_def)
next
  case (VList items)
  then show ?case by (auto intro!: sum_list_mono simp: o_def)
next
  case (VRecord name named)
  have "sum_list (map (\<lambda>x. value_count (canon (snd x))) named) \<le> sum_list (map (\<lambda>x. value_count (snd x)) named)"
    using VRecord by (intro sum_list_mono) (auto simp: snds.simps)
  then show ?case unfolding canon_sorted by (simp add: split_def o_def sum_sort)
next
  case (VMap entries)
  have "sum_list (map (\<lambda>x. value_count (canon (fst x)) + value_count (canon (snd x))) entries)
      \<le> sum_list (map (\<lambda>x. value_count (fst x) + value_count (snd x)) entries)"
    using VMap by (intro sum_list_mono add_mono) (auto simp: fsts.simps snds.simps)
  then show ?case unfolding canon_sorted by (simp add: split_def o_def sum_sort)
next
  case (VSet items)
  let ?ps = "map (\<lambda>x. (wire x, canon x)) items"
  let ?f = "\<lambda>w. value_count (the (map_of ?ps w))"
  have "sum_list (map ?f (sorted_list_of_set (set (map wire items)))) = (\<Sum>w\<in>fst ` set ?ps. ?f w)"
    by (subst sum_list_distinct_conv_sum_set) (simp_all add: image_image)
  also have "\<dots> \<le> sum_list (map (\<lambda>x. value_count (snd x)) ?ps)" by (rule distinct_keys_sum)
  also have "\<dots> \<le> sum_list (map value_count items)" using VSet by (auto intro!: sum_list_mono simp: o_def)
  finally show ?case by (simp add: Let_def o_def)
qed simp_all

lemma decode_encoded_checkpoint:
  assumes p: "checkpoint_portable atoms entries" and w: "\<forall>e \<in> set entries. entry_well_formed e"
    and size: "length (checkpoint_wire entries) \<le> MAX_CHECKPOINT_BYTES"
  shows "decode_tetf_checkpoint (checkpoint_wire entries) atoms = Ok (map entry_received (sort_key entry_scope entries))"
proof -
  let ?es = "sort_key entry_scope entries"
  note p = p [unfolded checkpoint_portable_def]
  have rows: "reads atoms (read_checkpoint_entries (length ?es) None) (concat (map entry_wire ?es))
      (map entry_received ?es) (sum_list (map (\<lambda>e. value_count (canon (entry_value e)) - 1) ?es))"
    by (rule reads_checkpoint_entries [OF below_sort]) (use p w in simp_all)
  have room: "length ?es * MIN_ENTRY_BYTES \<le> length (concat (map entry_wire ?es))"
    using concat_room [of ?es MIN_ENTRY_BYTES entry_wire] entry_room p by (auto simp: mult.commute)
  let ?n = "length ?es + (sum_list (map (\<lambda>e. value_count (canon (entry_value e)) - 1) ?es) + 0)"
  have count: "length ?es < 2 ^ 32" using p by (simp add: MAX_ENTRIES_def)
  have "completes atoms decode_checkpoint (header_wire PROFILE_LOGICAL_CHECKPOINT @ length_bytes (length ?es)
      @ concat (map entry_wire ?es) @ []) (map entry_received ?es) ?n"
    unfolding decode_checkpoint_def
    apply (rule completes_bind0 [OF reads_header], rule completes_bind0 [OF reads_len [OF count]])
    apply (subst if_not_P, use p in simp, rule completes_require)
     apply (rule completes_reserve, rule completes_bind [OF rows], rule completes_finish)
    using room apply simp
    done
  then have run: "completes atoms decode_checkpoint (checkpoint_wire entries) (map entry_received ?es) ?n"
    by (simp add: checkpoint_wire_def)
  have "?n = sum_list (map (\<lambda>e. value_count (canon (entry_value e))) entries)"
    using slots_sum [of ?es "\<lambda>e. canon (entry_value e)"] by (simp add: sum_sort)
  also have "\<dots> \<le> sum_list (map (\<lambda>e. value_count (entry_value e)) entries)"
    by (intro sum_list_mono value_count_canon)
  finally have "?n \<le> MAX_VALUES" using p by simp
  then show ?thesis
    using run size unfolding decode_tetf_checkpoint_def completes_def
    by (auto simp: decoder_new_def facing_def MAX_CHECKPOINT_BYTES_def USIZE_MAX_def)
qed

lemma take_policy:
  assumes d: "sound atoms d" and run: "read_policy d = (Ok policy, d')"
  shows "consumed d [policy_tag policy] 0 d'"
proof -
  from run obtain tag where "read_u8 d = (Ok tag, d')" "tag = policy_tag policy"
    by (auto simp: read_policy_def bind_st_eq_Ok return_st_def invalid_def read_st_def split: if_splits)
  then show ?thesis using take_u8 [OF d] by blast
qed

lemma take_entry:
  assumes d: "sound atoms d" and run: "read_entry previous d = (Ok e, d')"
  shows "consumed d (entry_wire e) (value_count (entry_value e) - 1) d' \<and> entry_portable atoms e \<and> entry_well_formed e
    \<and> (\<forall>before. previous = Some before \<longrightarrow> before < entry_scope e)"
proof -
  from run obtain d1 d2 d3 d4 d5 d6 ns key owner sequence node policy v scope version where
      x1: "read_text d = (Ok ns, d1)" and x2: "read_text d1 = (Ok key, d2)" and scope: "scope_new ns key = Ok scope"
      and order: "\<forall>before. previous = Some before \<longrightarrow> before < scope"
      and x3: "read_text d2 = (Ok owner, d3)" and x4: "read_u64 d3 = (Ok sequence, d4)"
      and x5: "read_text d4 = (Ok node, d5)" and version: "version_new sequence node = Ok version"
      and x6: "read_policy d5 = (Ok policy, d6)" and x7: "decode_value 0 d6 = (Ok v, d')"
      and valid: "validate_entry e = Ok ()"
      and e: "e = \<lparr> entry_scope = scope, entry_owner_node_id = owner, entry_value = v,
        entry_version = version, entry_policy = policy \<rparr>"
    by (fastforce simp: read_entry_def bind_st_eq_Ok return_st_def read_st_def Let_def not_le
        split: option.splits if_splits)
  have parts: "scope = Scope ns key" "version = \<lparr> version_sequence = sequence, version_node_id = node \<rparr>"
    using scope version by (auto simp: scope_new_def version_new_def split: if_splits)
  note c1 = take_text [OF d x1] note s1 = consumed_sound [OF d c1 [THEN conjunct1]]
  note c2 = take_text [OF s1 x2] note s2 = consumed_sound [OF s1 c2 [THEN conjunct1]]
  note c3 = take_text [OF s2 x3] note s3 = consumed_sound [OF s2 c3 [THEN conjunct1]]
  note c4 = take_u64 [OF s3 x4] note s4 = consumed_sound [OF s3 c4]
  note c5 = take_text [OF s4 x5] note s5 = consumed_sound [OF s4 c5 [THEN conjunct1]]
  note c6 = take_policy [OF s5 x6] note s6 = consumed_sound [OF s5 c6]
  note c7 = takesD [OF decode_value_takes s6 x7]
  have "consumed d (entry_wire e) (value_count (entry_value e) - 1) d'"
    using consumed_trans [OF c1 [THEN conjunct1] consumed_trans [OF c2 [THEN conjunct1]
      consumed_trans [OF c3 [THEN conjunct1] consumed_trans [OF c4 consumed_trans [OF c5 [THEN conjunct1]
      consumed_trans [OF c6 c7 [THEN conjunct1]]]]]]]
    by (simp add: entry_wire_def e parts)
  then show ?thesis
    using c1 c2 c3 c5 c7 valid order by (simp add: e parts entry_portable_def entry_well_formed_def)
qed

lemma take_checkpoint_entries:
  assumes "sound atoms d" and "read_checkpoint_entries k previous d = (Ok es, d')"
  shows "consumed d (concat (map entry_wire es)) (sum_list (map (\<lambda>e. value_count (entry_value e) - 1) es)) d'
    \<and> length es = k \<and> (\<forall>e \<in> set es. entry_portable atoms e \<and> entry_well_formed e)
    \<and> below previous (map entry_scope es)"
  using assms
proof (induction k arbitrary: d es previous)
  case 0
  then show ?case by (cases previous) (auto simp: return_st_def intro: consumed_refl)
next
  case (Suc k)
  then obtain e d1 rest where e: "read_entry previous d = (Ok e, d1)"
      and rest: "read_checkpoint_entries k (Some (entry_scope e)) d1 = (Ok rest, d')" and es: "es = e # rest"
    by (auto simp: bind_st_eq_Ok return_st_def)
  note one = take_entry [OF Suc.prems(1) e]
  note more = Suc.IH [OF consumed_sound [OF Suc.prems(1) one [THEN conjunct1]] rest]
  have "below previous (map entry_scope es)"
    using one more es by (cases previous) (auto dest: order.strict_trans)
  then show ?case
    using consumed_trans [OF one [THEN conjunct1] more [THEN conjunct1]] one more es by simp
qed

lemma decoded_checkpoint:
  assumes "decode_tetf_checkpoint bytes atoms = Ok es"
  shows "bytes = checkpoint_wire es \<and> checkpoint_portable atoms es \<and> (\<forall>e \<in> set es. entry_well_formed e)
    \<and> sorted_wrt (<) (map entry_scope es) \<and> length bytes \<le> MAX_CHECKPOINT_BYTES"
proof -
  let ?d = "(decoder_new bytes atoms)\<lparr> dec_remaining_value_slots := MAX_VALUES \<rparr>"
  have d: "sound atoms ?d" by (simp add: sound_def decoder_new_def)
  have size: "length bytes \<le> MAX_CHECKPOINT_BYTES" and "fst (decode_checkpoint ?d) = Ok es"
    using assms by (auto simp: decode_tetf_checkpoint_def not_less split: if_splits)
  then obtain d' where "decode_checkpoint ?d = (Ok es, d')" by (metis prod.collapse)
  then obtain d1 d2 d3 k where h: "read_header PROFILE_LOGICAL_CHECKPOINT ?d = (Ok (), d1)"
      and k: "read_len d1 = (Ok k, d2)" and few: "k \<le> MAX_ENTRIES" and r: "reserve_value_slots k d2 = (Ok (), d3)"
      and rows: "read_checkpoint_entries k None d3 = (Ok es, d')" and finished: "dec_offset d' = length (dec_bytes d')"
    by (auto simp: decode_checkpoint_def bind_st_eq_Ok return_st_def read_st_def invalid_def finish_def not_less
        dest!: take_require split: if_splits)
  note c1 = take_header [OF d h] note s1 = consumed_sound [OF d c1]
  note c2 = take_len [OF s1 k] note s2 = consumed_sound [OF s1 c2 [THEN conjunct1]]
  note c3 = take_reserve [OF s2 r] note s3 = consumed_sound [OF s2 c3]
  note c4 = take_checkpoint_entries [OF s3 rows]
  have sorted: "sorted_wrt (<) (map entry_scope es)" using c4 by simp
  then have "sorted (map entry_scope es)" and unique: "distinct (map entry_scope es)"
    by (simp_all add: strict_sorted_iff)
  then have order: "sort_key entry_scope es = es" by (simp add: sort_key_id_if_sorted)
  let ?n = "k + sum_list (map (\<lambda>e. value_count (entry_value e) - 1) es)"
  have all: "consumed ?d (checkpoint_wire es) ?n d'"
    using consumed_trans [OF c1 consumed_trans [OF c2 [THEN conjunct1] consumed_trans [OF c3 c4 [THEN conjunct1]]]] c4
    by (simp add: checkpoint_wire_def order)
  then have "bytes = checkpoint_wire es" using finished by (auto simp: consumed_def decoder_new_def)
  moreover have "?n \<le> MAX_VALUES" using all by (simp add: consumed_def decoder_new_def)
  then have "sum_list (map (\<lambda>e. value_count (entry_value e)) es) \<le> MAX_VALUES"
    using slots_sum [of es entry_value] c4 by simp
  ultimately show ?thesis using c4 few unique sorted size by (simp add: checkpoint_portable_def)
qed

end
