(* ===== verification/State_Properties.thy ===== *)
theory State_Properties
  imports Checkpoint_Laws
begin

text \<open>
  The properties of the distributed state: replicas that see the same writes agree, whatever the order,
  and a checkpoint restores the state it was taken from.
\<close>

section \<open>Writes\<close>

text \<open>The write of an entry as it arrives at a replica, and the state it leaves.\<close>

definition deliver :: "VmDistributedStateEntry \<Rightarrow> VmDistributedStateStore \<Rightarrow> VmDistributedStateStore" where
  "deliver e store = snd (store_write (entry_scope e) (entry_owner_node_id e) (entry_value e) (entry_version e)
     (entry_policy e) store)"

definition deliver_all :: "VmDistributedStateEntry list \<Rightarrow> VmDistributedStateStore" where
  "deliver_all es = fold deliver es store_new"

definition version_key :: "VmDistributedStateEntry \<Rightarrow> u64 \<times> string" where
  "version_key e = (version_sequence (entry_version e), version_node_id (entry_version e))"

definition store_ok :: "VmDistributedStateStore \<Rightarrow> bool" where
  "store_ok store \<longleftrightarrow> bt_ok (store_entries store)
     \<and> (\<forall>scope e. bt_get (store_entries store) scope = Some e \<longrightarrow> entry_scope e = scope)"

lemma version_key_eq: "version_key e = version_key e' \<longleftrightarrow> entry_version e = entry_version e'"
  by (auto simp: version_key_def)

lemma entry_same [simp]: "\<lparr> entry_scope = entry_scope e, entry_owner_node_id = entry_owner_node_id e,
    entry_value = entry_value e, entry_version = entry_version e, entry_policy = entry_policy e \<rparr> = e"
  by (cases e) simp

lemma deliver_eq:
  "deliver e store = (if entry_owner_node_id e = [] then store
     else case bt_get (store_entries store) (entry_scope e) of
       None \<Rightarrow> store\<lparr> store_entries := bt_insert (entry_scope e) e (store_entries store) \<rparr>
     | Some existing \<Rightarrow> if entry_policy existing = LastWriterWins \<and> entry_policy e = LastWriterWins
           \<and> version_key existing < version_key e
         then store\<lparr> store_entries := bt_insert (entry_scope e) e (store_entries store) \<rparr> else store)"
  by (auto simp: deliver_def store_write_def Let_def should_apply_incoming_version_def version_key_def
      less_prod_def' split: option.split)

lemma store_ok_new: "store_ok store_new"
  by (simp add: store_ok_def store_new_def)

lemma store_ok_deliver: "store_ok store \<Longrightarrow> store_ok (deliver e store)"
  by (auto simp: deliver_eq store_ok_def split: option.splits)

lemma store_ok_deliver_all: "store_ok (deliver_all es)"
proof -
  have "store_ok store \<Longrightarrow> store_ok (fold deliver es store)" for store
    by (induction es arbitrary: store) (simp_all add: store_ok_deliver)
  then show ?thesis by (simp add: deliver_all_def store_ok_new)
qed

section \<open>Convergence\<close>

definition last_writer_wins :: "VmDistributedStateEntry list \<Rightarrow> bool" where
  "last_writer_wins es \<longleftrightarrow> (\<forall>e \<in> set es. entry_policy e = LastWriterWins \<and> entry_owner_node_id e \<noteq> [])
     \<and> (\<forall>e \<in> set es. \<forall>e' \<in> set es. entry_scope e = entry_scope e' \<and> entry_version e = entry_version e' \<longrightarrow> e = e')"

definition newest :: "VmDistributedStateEntry list \<Rightarrow> VmDistributedStateEntry \<Rightarrow> bool" where
  "newest es e \<longleftrightarrow> e \<in> set es
     \<and> (\<forall>e' \<in> set es. entry_scope e' = entry_scope e \<longrightarrow> version_key e' \<le> version_key e)"

lemma newest_unique:
  "last_writer_wins es \<Longrightarrow> newest es e \<Longrightarrow> newest es e' \<Longrightarrow> entry_scope e = entry_scope e' \<Longrightarrow> e = e'"
  using antisym [of "version_key e" "version_key e'"]
  by (auto simp: newest_def last_writer_wins_def version_key_eq)

lemma newest_exists:
  assumes "y \<in> set es"
  shows "\<exists>e. newest es e \<and> entry_scope e = entry_scope y"
proof -
  let ?A = "{e \<in> set es. entry_scope e = entry_scope y}"
  have "Max (version_key ` ?A) \<in> version_key ` ?A" using assms by (intro Max_in) auto
  then obtain e where e: "e \<in> ?A" "version_key e = Max (version_key ` ?A)" by auto
  then have "newest es e" by (auto simp: newest_def)
  then show ?thesis using e by blast
qed

lemma deliver_all_newest:
  "last_writer_wins es \<Longrightarrow> bt_get (store_entries (deliver_all es)) scope = Some e
     \<longleftrightarrow> newest es e \<and> entry_scope e = scope"
proof (induction es arbitrary: e scope rule: rev_induct)
  case Nil
  show ?case by (simp add: deliver_all_def store_new_def newest_def)
next
  case (snoc x es)
  let ?s = "deliver_all es"
  have ws: "last_writer_wins es" using snoc.prems by (simp add: last_writer_wins_def)
  have x: "entry_policy x = LastWriterWins" "entry_owner_node_id x \<noteq> []"
    using snoc.prems by (simp_all add: last_writer_wins_def)
  have lww: "entry_policy y = LastWriterWins" if "newest es y" for y
    using ws that by (simp add: last_writer_wins_def newest_def)
  have step: "deliver_all (es @ [x]) = deliver x ?s" by (simp add: deliver_all_def)
  note IH = snoc.IH [OF ws]
  have other: "newest (es @ [x]) e \<longleftrightarrow> newest es e" if "entry_scope e \<noteq> entry_scope x"
    using that by (auto simp: newest_def)
  show ?case
  proof (cases "bt_get (store_entries ?s) (entry_scope x)")
    case None
    then have "\<not> (newest es z \<and> entry_scope z = entry_scope x)" for z
      using IH [of "entry_scope x" z] by simp
    then have "entry_scope y \<noteq> entry_scope x" if "y \<in> set es" for y
      using newest_exists [OF that] by fastforce
    then show ?thesis
      using None x other IH by (auto simp: step deliver_eq newest_def)
  next
    case (Some y)
    then have y: "newest es y" "entry_scope y = entry_scope x" using IH by auto
    show ?thesis
    proof (cases "version_key y < version_key x")
      case True
      then have newer: "newest (es @ [x]) x" using y by (fastforce simp: newest_def)
      have "deliver_all (es @ [x]) = ?s\<lparr> store_entries := bt_insert (entry_scope x) x (store_entries ?s) \<rparr>"
        using Some True x lww [OF y(1)] by (simp add: step deliver_eq)
      moreover have "newest (es @ [x]) e \<and> entry_scope e = entry_scope x \<longleftrightarrow> e = x"
        using newer newest_unique [OF snoc.prems newer, of e] by metis
      moreover have "newest es e \<and> entry_scope e = scope \<longleftrightarrow> newest (es @ [x]) e \<and> entry_scope e = scope"
        if "scope \<noteq> entry_scope x" using other that by metis
      ultimately show ?thesis using IH [of scope e] by (cases "scope = entry_scope x") auto
    next
      case False
      then have newer: "newest (es @ [x]) y" using y by (auto simp: newest_def not_less)
      have "deliver_all (es @ [x]) = ?s" using Some False x by (simp add: step deliver_eq)
      moreover have "newest (es @ [x]) e \<longleftrightarrow> newest es e"
      proof (cases "entry_scope e = entry_scope x")
        case True
        then show ?thesis
          using y newer newest_unique [OF snoc.prems newer, of e] newest_unique [OF ws y(1), of e] by metis
      qed (rule other)
      ultimately show ?thesis using IH [of scope e] by simp
    qed
  qed
qed

lemma last_writer_wins_set: "set es = set es' \<Longrightarrow> last_writer_wins es \<longleftrightarrow> last_writer_wins es'"
  by (simp add: last_writer_wins_def)

definition sample_write :: "u64 \<Rightarrow> string \<Rightarrow> ReplValue \<Rightarrow> VmDistributedStateEntry" where
  "sample_write sequence node v = \<lparr> entry_scope = Scope ''s'' ''k'', entry_owner_node_id = ''a'', entry_value = v,
     entry_version = \<lparr> version_sequence = sequence, version_node_id = node \<rparr>, entry_policy = LastWriterWins \<rparr>"

lemmas sample_eval = sample_write_def deliver_all_def deliver_eq store_new_def version_key_def less_prod_def'
  bt_get_def last_writer_wins_def

text \<open>C16: replicas converge: two replicas that receive the same writes under the last-writer-wins policy hold
  the same state, whatever the order in which the writes arrive and however often each is repeated, provided
  that a node does not use one version for two writes of a scope.\<close>

theorem replicas_converge:
  assumes "last_writer_wins es" and "set es = set es'"
  shows "deliver_all es = deliver_all es'"
proof -
  have "bt_get (store_entries (deliver_all es)) scope = Some e \<longleftrightarrow> bt_get (store_entries (deliver_all es')) scope = Some e"
    for scope e
    using assms last_writer_wins_set [OF assms(2)] by (simp add: deliver_all_newest newest_def)
  then have "bt_get (store_entries (deliver_all es)) scope = bt_get (store_entries (deliver_all es')) scope" for scope
    by (metis not_Some_eq)
  then have "store_entries (deliver_all es) = store_entries (deliver_all es')"
    using store_ok_deliver_all unfolding store_ok_def by (intro bt_ext) auto
  then show ?thesis by simp
qed

theorem replicas_converge_witness:
  "deliver_all [sample_write 1 ''a'' VUnit, sample_write 2 ''a'' (VInt 5), sample_write 2 ''b'' (VInt 6)]
     = deliver_all [sample_write 2 ''b'' (VInt 6), sample_write 1 ''a'' VUnit, sample_write 2 ''a'' (VInt 5),
         sample_write 1 ''a'' VUnit]
   \<and> store_entries (deliver_all [sample_write 1 ''a'' VUnit, sample_write 2 ''a'' (VInt 5), sample_write 2 ''b'' (VInt 6)])
     = [(Scope ''s'' ''k'', sample_write 2 ''b'' (VInt 6))]"
proof
  show "deliver_all [sample_write 1 ''a'' VUnit, sample_write 2 ''a'' (VInt 5), sample_write 2 ''b'' (VInt 6)]
     = deliver_all [sample_write 2 ''b'' (VInt 6), sample_write 1 ''a'' VUnit, sample_write 2 ''a'' (VInt 5),
         sample_write 1 ''a'' VUnit]"
    by (rule replicas_converge) (auto simp: sample_eval)
qed (simp add: sample_eval)

section \<open>Checkpoints\<close>

text \<open>A state with its values as a receiver gets them.\<close>

definition canonical_store :: "VmDistributedStateStore \<Rightarrow> VmDistributedStateStore" where
  "canonical_store store = \<lparr> store_entries = map (\<lambda>(scope, e). (scope, entry_received e)) (store_entries store) \<rparr>"

lemma bt_insert_last: "\<forall>k \<in> fst ` set m. k < x \<Longrightarrow> bt_insert x v m = m @ [(x, v)]"
  by (induction x v m rule: bt_insert.induct) auto

lemma import_sorted:
  "sorted_wrt (<) (map fst (store_entries store) @ map entry_scope es) \<Longrightarrow> (\<forall>e \<in> set es. validate_entry e = Ok ())
     \<Longrightarrow> import_entries es store = Ok \<lparr> store_entries = store_entries store @ map (\<lambda>e. (entry_scope e, e)) es \<rparr>"
proof (induction es arbitrary: store)
  case Nil
  then show ?case by simp
next
  case (Cons e es)
  have below: "\<forall>k \<in> fst ` set (store_entries store). k < entry_scope e"
    using Cons.prems(1) by (auto simp: sorted_wrt_append)
  then have fresh: "bt_get (store_entries store) (entry_scope e) = None"
    by (auto simp: bt_get_def map_of_eq_None_iff)
  have "validate_entry e = Ok ()" using Cons.prems(2) by simp
  then have valid: "scope_namespace (entry_scope e) \<noteq> []" "scope_key (entry_scope e) \<noteq> []"
      "entry_owner_node_id e \<noteq> []" "version_sequence (entry_version e) \<noteq> 0" "version_node_id (entry_version e) \<noteq> []"
    by (simp_all add: validate_entry_Ok)
  let ?s = "store\<lparr> store_entries := store_entries store @ [(entry_scope e, e)] \<rparr>"
  have "import_entries (e # es) store = import_entries es ?s"
    using valid fresh bt_insert_last [OF below, of e] by simp
  also have "\<dots> = Ok \<lparr> store_entries = store_entries ?s @ map (\<lambda>e. (entry_scope e, e)) es \<rparr>"
    by (rule Cons.IH) (use Cons.prems in simp_all)
  finally show ?case by simp
qed

lemma exported:
  assumes "store_ok store"
  shows "sorted_wrt (<) (map entry_scope (export_snapshot store))"
    and "store_entries store = map (\<lambda>e. (entry_scope e, e)) (export_snapshot store)"
proof -
  have key: "entry_scope (snd x) = fst x" if "x \<in> set (store_entries store)" for x
    using assms that unfolding store_ok_def by (metis bt_in_get prod.collapse)
  then have "map entry_scope (export_snapshot store) = map fst (store_entries store)"
    by (simp add: export_snapshot_def bt_values_def)
  then show "sorted_wrt (<) (map entry_scope (export_snapshot store))"
    using assms by (simp add: store_ok_def bt_ok_def)
  have "map ((\<lambda>e. (entry_scope e, e)) \<circ> snd) (store_entries store) = store_entries store"
    by (rule map_idI) (simp add: key)
  then show "store_entries store = map (\<lambda>e. (entry_scope e, e)) (export_snapshot store)"
    by (simp add: export_snapshot_def bt_values_def)
qed

lemma sorted_keys: "sorted_wrt (<) (map f xs) \<Longrightarrow> sort_key f xs = xs"
  by (simp add: strict_sorted_iff sort_key_id_if_sorted)

lemma received_keys [simp]: "entry_scope (entry_received e) = entry_scope e"
    "validate_entry (entry_received e) = Ok () \<longleftrightarrow> validate_entry e = Ok ()"
  by (simp_all add: entry_received_def validate_entry_Ok)

text \<open>C17: a checkpoint restores the state it was taken from: the entries exported from a state and encoded
  are decoded and imported as that state, every entry with its owner, version and policy and its value in
  canonical form.\<close>

theorem checkpoint_restores_the_state:
  assumes "store_ok store" and "\<forall>e \<in> set (export_snapshot store). entry_well_formed e"
    and "encode_tetf_checkpoint (export_snapshot store) atoms maximum = Ok bytes"
  shows "bind_out (decode_tetf_checkpoint bytes atoms) import_snapshot = Ok (canonical_store store)"
proof -
  let ?es = "export_snapshot store"
  note sorted = exported(1) [OF assms(1)]
  have p: "checkpoint_portable atoms ?es" and size: "length (checkpoint_wire ?es) \<le> MAX_CHECKPOINT_BYTES"
      and bytes: "bytes = checkpoint_wire ?es"
    using assms(3) by (simp_all add: encode_checkpoint_iff)
  have "decode_tetf_checkpoint bytes atoms = Ok (map entry_received ?es)"
    using decode_encoded_checkpoint [OF p assms(2) size] sorted_keys [OF sorted] bytes by simp
  moreover have "import_snapshot (map entry_received ?es)
      = Ok \<lparr> store_entries = map (\<lambda>e. (entry_scope e, e)) (map entry_received ?es) \<rparr>"
    unfolding import_snapshot_def using import_sorted [of store_new "map entry_received ?es"] sorted p
    by (simp add: store_new_def o_def checkpoint_portable_def entry_portable_def)
  moreover have "canonical_store store = \<lparr> store_entries = map (\<lambda>e. (entry_scope e, e)) (map entry_received ?es) \<rparr>"
    unfolding canonical_store_def by (subst exported(2) [OF assms(1)]) simp
  ultimately show ?thesis by simp
qed

definition sample_store :: VmDistributedStateStore where
  "sample_store = \<lparr> store_entries = [(Scope ''s'' ''k'', sample_write 2 ''b'' (VSet [VInt 6, VUnit, VInt 6]))] \<rparr>"

lemma sample_exported: "export_snapshot sample_store = [sample_write 2 ''b'' (VSet [VInt 6, VUnit, VInt 6])]"
  by (simp add: sample_store_def export_snapshot_def bt_values_def)

lemma sample_letters: "valid_utf8 [0x61]" "valid_utf8 [0x62]" "valid_utf8 [0x6B]" "valid_utf8 [0x73]"
  by code_simp+

lemma sample_encoded:
  "encode_tetf_checkpoint (export_snapshot sample_store) [] 1000 = Ok (checkpoint_wire (export_snapshot sample_store))"
proof -
  have "checkpoint_portable [] (export_snapshot sample_store)"
    by (simp add: sample_exported checkpoint_portable_def entry_portable_def validate_entry_Ok sample_write_def
        portable.simps [of _ _ "VSet _"] portable.simps [of _ _ "VInt _"] portable.simps [of _ _ VUnit]
        MAX_NESTING_DEPTH_def MAX_ENTRIES_def MAX_VALUES_def tag_defs card_insert_if)
  moreover have "length (checkpoint_wire (export_snapshot sample_store)) \<le> 1000"
    by (simp add: sample_exported checkpoint_wire_def header_wire_def MAGIC_def entry_wire_def sample_write_def
        text_wire_def tag_defs sorted_list_of_set_sort_remdups del: set_simps set_map)
  ultimately show ?thesis by (simp add: encode_checkpoint_iff MAX_CHECKPOINT_BYTES_def)
qed

theorem checkpoint_restores_the_state_witness:
  "bind_out (decode_tetf_checkpoint (checkpoint_wire (export_snapshot sample_store)) []) import_snapshot
     = Ok \<lparr> store_entries = [(Scope ''s'' ''k'', sample_write 2 ''b'' (VSet [VUnit, VInt 6]))] \<rparr>"
proof -
  have "store_ok sample_store" by (simp add: store_ok_def sample_store_def bt_ok_def bt_get_def sample_write_def)
  moreover have "\<forall>e \<in> set (export_snapshot sample_store). entry_well_formed e"
    by (simp add: sample_exported entry_well_formed_def sample_write_def text_ok_def as_bytes_def sample_letters
        del: valid_utf8.simps)
  ultimately have "bind_out (decode_tetf_checkpoint (checkpoint_wire (export_snapshot sample_store)) []) import_snapshot
      = Ok (canonical_store sample_store)"
    by (rule checkpoint_restores_the_state [OF _ _ sample_encoded])
  moreover have "canon (VSet [VInt 6, VUnit, VInt 6]) = VSet [VUnit, VInt 6]"
    by (simp add: tag_defs sorted_list_of_set_sort_remdups del: set_simps set_map) simp
  ultimately show ?thesis by (simp add: canonical_store_def sample_store_def entry_received_def sample_write_def)
qed

text \<open>C18: the decoder of checkpoints accepts exactly the snapshots in canonical form: a byte string is read as
  a list of entries if and only if it is the encoding of that list within the limit of the storage, the
  entries are in strictly increasing order of their scopes, their texts are well formed and their values
  canonical. Bounds on entries and on values cannot be passed by any input.\<close>

theorem checkpoint_decoder_accepts_exactly:
  "decode_tetf_checkpoint bytes atoms = Ok es
     \<longleftrightarrow> encode_tetf_checkpoint es atoms MAX_CHECKPOINT_BYTES = Ok bytes
       \<and> sorted_wrt (<) (map entry_scope es) \<and> list_all entry_well_formed es \<and> map entry_received es = es"
proof
  assume run: "decode_tetf_checkpoint bytes atoms = Ok es"
  note d = decoded_checkpoint [OF run]
  have "decode_tetf_checkpoint (checkpoint_wire es) atoms = Ok (map entry_received (sort_key entry_scope es))"
    by (rule decode_encoded_checkpoint) (use d in auto)
  then have "map entry_received es = es" using run d sorted_keys [of entry_scope es] by simp
  then show "encode_tetf_checkpoint es atoms MAX_CHECKPOINT_BYTES = Ok bytes
      \<and> sorted_wrt (<) (map entry_scope es) \<and> list_all entry_well_formed es \<and> map entry_received es = es"
    using d by (auto simp: encode_checkpoint_iff list_all_iff)
next
  assume e: "encode_tetf_checkpoint es atoms MAX_CHECKPOINT_BYTES = Ok bytes
      \<and> sorted_wrt (<) (map entry_scope es) \<and> list_all entry_well_formed es \<and> map entry_received es = es"
  then have "decode_tetf_checkpoint (checkpoint_wire es) atoms = Ok (map entry_received (sort_key entry_scope es))"
    by (intro decode_encoded_checkpoint) (auto simp: encode_checkpoint_iff list_all_iff)
  then show "decode_tetf_checkpoint bytes atoms = Ok es"
    using e sorted_keys [of entry_scope es] by (simp add: encode_checkpoint_iff)
qed

end
