(* ===== verification/Spec2Isabelle.thy ===== *)
theory Spec2Isabelle
  imports Process_Properties Mailbox_Handshake Fixed_Scheduler Failure_Properties Timer_Properties Stealing_Properties
    Supervision_Properties Supervision_Queues Accelerator_Properties Queue_Properties Supervision_Memory
    Memory_Transfer Shard_Properties Term_Properties State_Properties
begin

text \<open>
  The actor runtime of the Terlan virtual machine (\<open>src/crates/terlan/src/runtime/vm\<close>), with the
  accelerator contract (\<open>src/crates/terlan/src/accelerator_contract.rs\<close>) and the boundary types of
  \<open>src/crates/terlan-runtime-abi\<close>. Every definition is translated from the Rust source; the
  properties are the theorems whose text block opens with an identifier \<open>C\<close> and a number.

  \<^bold>\<open>The program.\<close> A VM runs actors. An actor is a slot of the actor directory: a packed word of
  lifecycle, owner and generations, a bounded mailbox that any thread may publish into, and a
  process record that only the current owner may touch. The process table spawns, addresses, ends
  and reaps processes over the directory. The scheduler holds the runnable ones in three class
  queues and runs them in slices; a fixed set of schedulers shares actors through routes, migration
  tickets and work stealing. The failure runtime propagates exits along links and monitors, the
  supervision system restarts children, the timers send delayed messages and wake receivers, and the
  memory accountant charges heap, messages, resources and shared allocations to their owners. A
  shard is one such VM with a sealed image, under a supervisor that replaces generations.

  \<^bold>\<open>Conventions.\<close> \<open>Vm_Prelude\<close>: machine integers are words (\<open>u64\<close>, \<open>usize\<close> and so on), with checked
  and saturating operations written out; \<open>outcome\<close> is \<open>Result\<close> together with the panics of \<open>expect\<close>
  and indexing; \<open>('s, 'e, 'a) stateful\<close> is a method with \<open>&mut self\<close>, which returns the state it
  leaves also when it fails. \<open>Ordered_Map\<close>: \<open>BTreeMap\<close> and \<open>BTreeSet\<close> as sorted association lists
  with their laws. Structs are records, enums datatypes; a record field carries a prefix of its
  struct. The message of an error is its format string and its arguments. The lock-free queue under
  a mailbox is a third-party crate: it is the parameter \<open>'q\<close> with its operations \<open>Q\<close>, whose
  documented behaviour (bounded, first in first out) is a hypothesis that a list satisfies.

  \<^bold>\<open>Theories, and the files they model.\<close>
  \<^item> \<open>Vm_Values\<close> (\<open>boundary_type.rs\<close>, \<open>value.rs\<close>): the values that cross boundaries and the header codec.
  \<^item> \<open>Actor_State\<close>, \<open>Actor_Mailbox\<close>, \<open>Actor_Directory\<close> (\<open>actor_directory.rs\<close> and its directory): the
    ownership word and its codec, publication and draining, slots with generations, ownership, control,
    reclamation, transfer. \<open>Directory_Laws\<close>: the effect of each operation.
  \<^item> \<open>Mailbox_Handshake\<close>: the atomic steps of producers and schedulers on one actor as a step relation;
    no wake-up is lost and no two schedulers own the actor in any interleaving.
  \<^item> \<open>Process_Data\<close>, \<open>Process_Table\<close> (\<open>process.rs\<close> and its directory), \<open>Process_Laws\<close>,
    \<open>Process_Properties\<close>: the process record and its mailbox lanes, spawning, sending, exit, names,
    transfer; the invariant of a table at rest and the laws over it.
  \<^item> \<open>Process_Factory\<close>: the contract of the process table for supervisors and timers, a locale that is
    interpreted on the model of the table.
  \<^item> \<open>Vm_Reference\<close> (\<open>reference.rs\<close>): allocation of reference identities, with a locale for allocators.
  \<^item> \<open>Vm_Scheduler\<close> (\<open>scheduler.rs\<close>, \<open>telemetry.rs\<close>, \<open>transfer.rs\<close>), \<open>Scheduler_Laws\<close>,
    \<open>Scheduler_Moves\<close>, \<open>Scheduler_Properties\<close>: the class queues, slices, metrics and placements; the
    invariant of the queues for every answer of the process table, and the bound on waiting.
  \<^item> \<open>Fixed_Scheduler\<close> (\<open>scheduler_topology.rs\<close>, \<open>fixed_scheduler_control.rs\<close>): routes, leases, migration
    tickets, shutdown. \<open>Work_Stealing\<close>, \<open>Stealing_Properties\<close> (\<open>work_stealing.rs\<close>): decisions, victims,
    back-off.
  \<^item> \<open>Failure_Runtime\<close> (\<open>failure.rs\<close>), \<open>Failure_Laws\<close>, \<open>Failure_Properties\<close>: links, monitors, trapped exits
    and the exit cascade, which ends and reaches exactly the processes the links say.
  \<^item> \<open>Vm_Timer\<close> (\<open>timer.rs\<close>, \<open>timer/transfer.rs\<close>), \<open>Timer_Laws\<close>, \<open>Timer_Properties\<close>: one-shot and interval
    timers, receive time-outs, clock advance against a reference, transfer.
  \<^item> \<open>Supervision\<close> (\<open>supervision.rs\<close>), \<open>Supervision_Queues\<close> (\<open>supervision/backoff.rs\<close>,
    \<open>supervision/shutdown.rs\<close>), \<open>Supervision_Laws\<close>, \<open>Subtree_Laws\<close>, \<open>Supervision_Properties\<close>,
    \<open>Queue_Properties\<close>: trees, restart policies, escalation, subtree recovery, deferred restarts and
    graceful shutdown.
  \<^item> \<open>Vm_Memory\<close>, \<open>Memory_Ownership\<close>, \<open>Memory_Transfer\<close> (\<open>memory.rs\<close> and its directory), \<open>Vm_Resource\<close>
    (\<open>resource.rs\<close>), \<open>Value_Size\<close>: the accountant and native resources. \<open>Memory_Books\<close>,
    \<open>Memory_Resource_Laws\<close>, \<open>Memory_Ownership_Laws\<close>, \<open>Memory_Laws\<close>, \<open>Memory_Exit_Laws\<close>, \<open>Memory_Runs\<close>,
    \<open>Memory_Properties\<close>: the accounts agree with what the processes hold over every sequence of calls.
    \<open>Supervision_Memory\<close>: supervision under memory pressure.
  \<^item> \<open>Accelerator_Contract\<close>, \<open>Accelerator_Properties\<close>: identities, handles and linear resources.
  \<^item> \<open>Shard_Epoch\<close>, \<open>Shard_Control\<close>, \<open>Shard_Supervisor\<close> (\<open>execution_shard_epoch.rs\<close>,
    \<open>execution_shard_protocol.rs\<close>, \<open>execution_shard_supervisor.rs\<close>, \<open>native_image_diagnostics.rs\<close>),
    \<open>Shard_Laws\<close>, \<open>Shard_Properties\<close>: the life of a shard over generations and the ledger of its operations.
  \<^item> \<open>Vm_Format\<close>: decimal numbers and trimmed text.

  \<^bold>\<open>Bounds and fuel.\<close> The loops whose recursion is not structural take fuel, and the properties say
  that what the code's model passes suffices: draining a mailbox takes the length of its queue and
  one round more; the exit cascade one round for each live process and one more, since each round
  ends a live process; the search for the next runnable process and the search for the next class at
  most one service cycle of six entries; a subtree of supervisors one level for each supervisor and
  one more, since no supervisor is its own ancestor.

  \<^bold>\<open>Not modelled.\<close> The compiler, its back ends, the command line, the language server and the network
  and database adapters are other programs around the runtime or are input and output. Within the
  modelled files: accessors that only read a field, reports written to disk, text of \<open>Display\<close> beyond
  the error messages, counters of contention and of fairness that no decision reads, the history of
  queue transitions kept for tests, and detection of the host's processors. Atomic operations are
  sequentially consistent steps in \<open>Mailbox_Handshake\<close> and single calls elsewhere; allocation
  failure of the host is left out.
\<close>

end
